(* ===== verification/Prelude.thy ===== *)
theory Prelude
  imports Complex_Main "HOL-Library.AList" "HOL-Library.List_Lexorder" "HOL-Library.Char_ord"
begin

text \<open>
  The vocabulary the component theories share: insertion-ordered dictionaries with
  the update and delete behaviour of the source's language, walks that edit a
  dictionary while iterating over a snapshot of it, string helpers (\<open>strip\<close>,
  \<open>split\<close>, \<open>join\<close>, decimal digits), error values, and the lemma collections
  the component proofs draw on.
\<close>

named_theorems dict_simps \<open>lookups after dictionary operations\<close>
named_theorems lane_simps \<open>unfolding of the small lease and lane predicates\<close>

section \<open>Errors as values\<close>

datatype error =
    ValueError string
  | RuntimeError string
  | KeyError string
  | TypeError string
  | IndexError string
  | ZeroDivisionError

type_synonym 'a result = "error + 'a"

section \<open>Dictionaries\<close>

text \<open>
  A dict is an association list with distinct keys, in insertion order. Assigning
  to a present key keeps its position, assigning to a new key appends it; this is
  what \<open>AList.update\<close> does.
\<close>

type_synonym 'v dict = "(string \<times> 'v) list"

abbreviation dget :: "'v dict \<Rightarrow> string \<Rightarrow> 'v option" where
  "dget d k \<equiv> map_of d k"

abbreviation dset :: "string \<Rightarrow> 'v \<Rightarrow> 'v dict \<Rightarrow> 'v dict" where
  "dset k v d \<equiv> AList.update k v d"

abbreviation ddel :: "string \<Rightarrow> 'v dict \<Rightarrow> 'v dict" where
  "ddel k d \<equiv> AList.delete k d"

abbreviation dkeys :: "'v dict \<Rightarrow> string list" where
  "dkeys d \<equiv> map fst d"

abbreviation dict_ok :: "'v dict \<Rightarrow> bool" where
  "dict_ok d \<equiv> distinct (map fst d)"

declare map_of_eq_Some_iff [simp del] Some_eq_map_of_iff [simp del]

lemma dget_dset [simp]: "dget (dset k v d) k' = (if k' = k then Some v else dget d k')"
  by (simp add: update_conv')

lemma dget_ddel [simp]: "dget (ddel k d) k' = (if k' = k then None else dget d k')"
  by (simp add: delete_conv')

lemma dict_ok_dset [simp]: "dict_ok d \<Longrightarrow> dict_ok (dset k v d)"
  by (rule distinct_update)

lemma dict_ok_ddel [simp]: "dict_ok d \<Longrightarrow> dict_ok (ddel k d)"
  by (rule distinct_delete)

lemma dkeys_dget: "k \<in> set (dkeys d) \<longleftrightarrow> dget d k \<noteq> None"
  by (simp add: map_of_eq_None_iff)

lemma dget_in_set: "dget d k = Some v \<Longrightarrow> (k, v) \<in> set d"
  by (rule map_of_SomeD)

lemma in_set_dget: "dict_ok d \<Longrightarrow> (k, v) \<in> set d \<longleftrightarrow> dget d k = Some v"
  by (metis map_of_SomeD map_of_is_SomeI)

lemma set_dkeys_dset [simp]: "set (dkeys (dset k v d)) = insert k (set (dkeys d))"
  using dom_update [of k v d] by (simp add: image_image)

lemma set_dkeys_ddel [simp]: "set (dkeys (ddel k d)) = set (dkeys d) - {k}"
  by (simp add: delete_keys)

text \<open>
  \<open>for k in list(d): ... del d[k] / d[k] = v'\<close>: the loop body sees each entry of
  the snapshot once and either removes it or stores a value for it.
\<close>

fun dict_walk :: "(string \<Rightarrow> 'v \<Rightarrow> 'v option) \<Rightarrow> 'v dict \<Rightarrow> 'v dict" where
  "dict_walk f [] = []"
| "dict_walk f ((k, v) # d) =
     (case f k v of None \<Rightarrow> dict_walk f d | Some v' \<Rightarrow> (k, v') # dict_walk f d)"

lemma dict_walk_in:
  "(k, v') \<in> set (dict_walk f d) \<longleftrightarrow> (\<exists>v. (k, v) \<in> set d \<and> f k v = Some v')"
  by (induction f d rule: dict_walk.induct) (auto split: option.splits)

lemma dict_walk_keys: "set (dkeys (dict_walk f d)) \<subseteq> set (dkeys d)"
  by (induction f d rule: dict_walk.induct) (auto split: option.splits)

lemma dict_ok_walk [simp]: "dict_ok d \<Longrightarrow> dict_ok (dict_walk f d)"
proof (induction f d rule: dict_walk.induct)
  case (2 f k v d)
  then show ?case
    using dict_walk_keys [of f d] by (auto split: option.splits)
qed simp

lemma dget_walk [dict_simps]:
  assumes "dict_ok d"
  shows "dget (dict_walk f d) k = (case dget d k of None \<Rightarrow> None | Some v \<Rightarrow> f k v)"
  using assms
proof (induction f d rule: dict_walk.induct)
  case (2 f k0 v0 d)
  have "dget (dict_walk f d) k0 = None"
    using "2.prems" dict_walk_keys [of f d] by (auto simp: map_of_eq_None_iff)
  with 2 show ?case by (auto split: option.splits)
qed simp

text \<open>The names a walk removes, in iteration order.\<close>

definition walk_dropped :: "(string \<Rightarrow> 'v \<Rightarrow> 'v option) \<Rightarrow> 'v dict \<Rightarrow> string list" where
  "walk_dropped f d = map fst (filter (\<lambda>(k, v). f k v = None) d)"

lemma set_walk_dropped:
  "set (walk_dropped f d) = {k. \<exists>v. (k, v) \<in> set d \<and> f k v = None}"
  by (force simp: walk_dropped_def)

section \<open>Strings\<close>

definition is_space :: "char \<Rightarrow> bool" where
  "is_space c \<longleftrightarrow> (let n = of_char c :: nat in 9 \<le> n \<and> n \<le> 13 \<or> 28 \<le> n \<and> n \<le> 32)"

definition is_digit :: "char \<Rightarrow> bool" where
  "is_digit c \<longleftrightarrow> (let n = of_char c :: nat in 48 \<le> n \<and> n \<le> 57)"

definition is_alpha :: "char \<Rightarrow> bool" where
  "is_alpha c \<longleftrightarrow> (let n = of_char c :: nat in 65 \<le> n \<and> n \<le> 90 \<or> 97 \<le> n \<and> n \<le> 122)"

definition is_alnum :: "char \<Rightarrow> bool" where
  "is_alnum c \<longleftrightarrow> is_alpha c \<or> is_digit c"

definition strip :: "string \<Rightarrow> string" where
  "strip s = rev (dropWhile is_space (rev (dropWhile is_space s)))"

fun split_at :: "char \<Rightarrow> string \<Rightarrow> string list" where
  "split_at c [] = [[]]"
| "split_at c (x # xs) =
     (if x = c then [] # split_at c xs
      else (case split_at c xs of [] \<Rightarrow> [[x]] | w # ws \<Rightarrow> (x # w) # ws))"

fun join_with :: "string \<Rightarrow> string list \<Rightarrow> string" where
  "join_with sep [] = []"
| "join_with sep [w] = w"
| "join_with sep (w # v # ws) = w @ sep @ join_with sep (v # ws)"

lemma split_at_nonempty [simp]: "split_at c s \<noteq> []"
  by (induction c s rule: split_at.induct) (auto split: list.splits)

lemma split_at_no_sep: "w \<in> set (split_at c s) \<Longrightarrow> c \<notin> set w"
proof (induction c s arbitrary: w rule: split_at.induct)
  case (2 c x xs)
  then show ?case by (cases "split_at c xs") (auto split: if_splits)
qed simp

lemma join_split [simp]: "join_with [c] (split_at c s) = s"
proof (induction c s rule: split_at.induct)
  case (2 c x xs)
  obtain w ws where "split_at c xs = w # ws" by (cases "split_at c xs") auto
  with 2 show ?case by (cases ws) auto
qed simp

lemma split_at_word: "c \<notin> set w \<Longrightarrow> split_at c w = [w]"
  by (induction w) auto

lemma split_at_append: "c \<notin> set w \<Longrightarrow> split_at c (w @ c # s) = w # split_at c s"
  by (induction w) auto

lemma split_join:
  "ws \<noteq> [] \<Longrightarrow> \<forall>w \<in> set ws. c \<notin> set w \<Longrightarrow> split_at c (join_with [c] ws) = ws"
  by (induction "[c]" ws rule: join_with.induct) (auto simp: split_at_word split_at_append)

lemma strip_subset: "set (strip s) \<subseteq> set s"
  by (auto simp: strip_def dest!: set_dropWhileD)

lemma dropWhile_idem: "dropWhile p (dropWhile p xs) = dropWhile p xs"
  by (induction xs) auto

lemma strip_id:
  assumes "s = [] \<or> \<not> is_space (hd s) \<and> \<not> is_space (last s)"
  shows "strip s = s"
proof (cases s)
  case (Cons a t)
  with assms have hd: "\<not> is_space (hd s)" and last: "\<not> is_space (last s)" by auto
  from Cons hd have 1: "dropWhile is_space s = s" by simp
  from last have "\<not> is_space (hd (rev s))" by (simp add: hd_rev)
  moreover from Cons have "rev s \<noteq> []" by simp
  ultimately have 2: "dropWhile is_space (rev s) = rev s" by (cases "rev s") auto
  from 1 2 show ?thesis by (simp add: strip_def)
qed (simp add: strip_def)

text \<open>Decimal numbers: \<open>digits_value\<close> reads a digit string the way \<open>int(...)\<close> does.\<close>

definition digit_value :: "char \<Rightarrow> nat" where
  "digit_value c = of_char c - 48"

definition digits_value :: "string \<Rightarrow> nat" where
  "digits_value s = foldl (\<lambda>n c. 10 * n + digit_value c) 0 s"

definition digit_char :: "nat \<Rightarrow> char" where
  "digit_char d = char_of (48 + d)"

fun show_nat :: "nat \<Rightarrow> string" where
  "show_nat n = (if n < 10 then [digit_char n] else show_nat (n div 10) @ [digit_char (n mod 10)])"

declare show_nat.simps [simp del]

lemma of_char_digit_char: "d < 10 \<Longrightarrow> (of_char (digit_char d) :: nat) = 48 + d"
  by (simp add: digit_char_def)

lemma is_digit_digit_char: "d < 10 \<Longrightarrow> is_digit (digit_char d)"
  by (simp add: is_digit_def of_char_digit_char)

lemma digit_value_digit_char: "d < 10 \<Longrightarrow> digit_value (digit_char d) = d"
  by (simp add: digit_value_def of_char_digit_char)

lemma show_nat_nonempty [simp]: "show_nat n \<noteq> []"
  by (subst show_nat.simps) simp

lemma show_nat_digits: "\<forall>c \<in> set (show_nat n). is_digit c"
proof (induction n rule: show_nat.induct)
  case (1 n)
  then show ?case
    by (cases "n < 10") (auto simp: show_nat.simps [of n] is_digit_digit_char)
qed

lemma digits_value_show_nat [simp]: "digits_value (show_nat n) = n"
proof (induction n rule: show_nat.induct)
  case (1 n)
  show ?case
  proof (cases "n < 10")
    case True
    then show ?thesis
      by (simp add: show_nat.simps [of n] digits_value_def digit_value_digit_char)
  next
    case False
    then have "digits_value (show_nat n)
        = 10 * digits_value (show_nat (n div 10)) + digit_value (digit_char (n mod 10))"
      by (simp add: show_nat.simps [of n] digits_value_def)
    with False 1 show ?thesis by (simp add: digit_value_digit_char)
  qed
qed

section \<open>Lists\<close>

lemma list_all2_in1: "list_all2 P xs ys \<Longrightarrow> x \<in> set xs \<Longrightarrow> \<exists>y \<in> set ys. P x y"
  by (induction rule: list_all2_induct) auto

lemma list_all2_in2: "list_all2 P xs ys \<Longrightarrow> y \<in> set ys \<Longrightarrow> \<exists>x \<in> set xs. P x y"
  by (induction rule: list_all2_induct) auto

text \<open>\<open>seen\<close>-style loops: keep the first element of each key.\<close>

fun first_by :: "('a \<Rightarrow> 'k) \<Rightarrow> 'k list \<Rightarrow> 'a list \<Rightarrow> 'a list" where
  "first_by key seen [] = []"
| "first_by key seen (x # xs) =
     (if key x \<in> set seen then first_by key seen xs
      else x # first_by key (key x # seen) xs)"

lemma first_by_in: "x \<in> set (first_by key seen xs) \<Longrightarrow> x \<in> set xs \<and> key x \<notin> set seen"
  by (induction key seen xs rule: first_by.induct) (auto split: if_splits)

lemma first_by_distinct: "distinct (map key (first_by key seen xs))"
  by (induction key seen xs rule: first_by.induct) (auto dest: first_by_in)

lemma first_by_keys:
  "key ` set (first_by key seen xs) = key ` set xs - set seen"
  by (induction key seen xs rule: first_by.induct) auto

text \<open>Take elements in order while room is left: the claim loops.\<close>

fun take_where :: "('a \<Rightarrow> bool) \<Rightarrow> nat \<Rightarrow> 'a list \<Rightarrow> 'a list" where
  "take_where p n [] = []"
| "take_where p 0 xs = []"
| "take_where p (Suc n) (x # xs) =
     (if p x then x # take_where p n xs else take_where p (Suc n) xs)"

lemma take_where_eq: "take_where p n xs = take n (filter p xs)"
  by (induction p n xs rule: take_where.induct) auto

end
