(* ===== verification/PyValue.thy ===== *)
theory PyValue
  imports Prelude
begin

text \<open>
  The values a JSON state file holds, as the code sees them after \<open>json.loads\<close>:
  truthiness, \<open>isinstance\<close> tests, \<open>dict.get\<close>, item assignment and \<open>dict.pop\<close>.
  A JSON string that \<open>parse_tested_at\<close> (\<open>trading/discovery.py\<close>) reads as an instant is
  represented by \<open>JTime\<close> with that instant, in microseconds since the epoch, so the
  text of a timestamp is not modelled; every other string is a \<open>JStr\<close>. Finite floats
  are exact rationals (rounding is not modelled), with the three special values apart.
\<close>

section \<open>Values\<close>

datatype pyfloat = Fin rat | PosInf | NegInf | NaN

datatype jv =
    JNull
  | JBool bool
  | JInt int
  | JFloat pyfloat
  | JStr string
  | JTime int
  | JList "jv list"
  | JObj "(string \<times> jv) list"

text \<open>\<open>bool(v)\<close>. A NaN or infinite float is true; a timestamp string is not empty.\<close>

fun truthy :: "jv \<Rightarrow> bool" where
  "truthy JNull = False"
| "truthy (JBool b) = b"
| "truthy (JInt i) = (i \<noteq> 0)"
| "truthy (JFloat x) = (x \<noteq> Fin 0)"
| "truthy (JStr s) = (s \<noteq> [])"
| "truthy (JTime t) = True"
| "truthy (JList xs) = (xs \<noteq> [])"
| "truthy (JObj kvs) = (kvs \<noteq> [])"

fun is_dict :: "jv \<Rightarrow> bool" where
  "is_dict (JObj kvs) = True"
| "is_dict _ = False"

fun is_list :: "jv \<Rightarrow> bool" where
  "is_list (JList xs) = True"
| "is_list _ = False"

text \<open>\<open>isinstance(v, str)\<close>\<close>

fun is_str :: "jv \<Rightarrow> bool" where
  "is_str (JStr s) = True"
| "is_str (JTime t) = True"
| "is_str _ = False"

text \<open>A string that is not a timestamp: names, ids, status words, rule tags.\<close>

fun as_str :: "jv \<Rightarrow> string option" where
  "as_str (JStr s) = Some s"
| "as_str _ = None"

fun as_list :: "jv \<Rightarrow> jv list" where
  "as_list (JList xs) = xs"
| "as_list _ = []"

fun as_dict :: "jv \<Rightarrow> jv dict" where
  "as_dict (JObj kvs) = kvs"
| "as_dict _ = []"

text \<open>
  \<open>isinstance(v, bool)\<close> comes first in the source because a bool is an int there; here
  the constructors are apart, so \<open>as_int\<close> already excludes booleans.
\<close>

fun as_int :: "jv \<Rightarrow> int option" where
  "as_int (JInt i) = Some i"
| "as_int _ = None"

text \<open>\<open>int(v or 0)\<close> on the numeric values the code itself stores.\<close>

fun int_or_0 :: "jv \<Rightarrow> int" where
  "int_or_0 (JInt i) = i"
| "int_or_0 (JBool b) = (if b then 1 else 0)"
| "int_or_0 (JFloat (Fin x)) = (if 0 \<le> x then \<lfloor>x\<rfloor> else \<lceil>x\<rceil>)"
| "int_or_0 _ = 0"

text \<open>\<open>_finite_number\<close> / \<open>_finite\<close>: an int or float that is neither bool, NaN nor infinite.\<close>

fun finite_number :: "jv \<Rightarrow> rat option" where
  "finite_number (JInt i) = Some (of_int i)"
| "finite_number (JFloat (Fin x)) = Some x"
| "finite_number _ = None"

section \<open>Objects\<close>

text \<open>\<open>d.get(k)\<close>; \<open>None\<close> when the key is missing.\<close>

definition jget :: "jv \<Rightarrow> string \<Rightarrow> jv" where
  "jget v k = (case dget (as_dict v) k of None \<Rightarrow> JNull | Some x \<Rightarrow> x)"

definition jhas :: "jv \<Rightarrow> string \<Rightarrow> bool" where
  "jhas v k \<longleftrightarrow> dget (as_dict v) k \<noteq> None"

text \<open>\<open>d[k] = x\<close> and \<open>d.pop(k, None)\<close>; the code applies them to dicts only.\<close>

fun jset :: "string \<Rightarrow> jv \<Rightarrow> jv \<Rightarrow> jv" where
  "jset k x (JObj kvs) = JObj (dset k x kvs)"
| "jset k x v = v"

fun jpop :: "string \<Rightarrow> jv \<Rightarrow> jv" where
  "jpop k (JObj kvs) = JObj (ddel k kvs)"
| "jpop k v = v"

lemma is_dict_iff: "is_dict v \<longleftrightarrow> (\<exists>kvs. v = JObj kvs)"
  by (cases v) auto

lemma is_dict_jset [simp]: "is_dict (jset k x v) = is_dict v"
  by (cases v) auto

lemma is_dict_jpop [simp]: "is_dict (jpop k v) = is_dict v"
  by (cases v) auto

lemma jget_jset [simp]:
  "is_dict v \<Longrightarrow> jget (jset k x v) k' = (if k' = k then x else jget v k')"
  by (cases v) (auto simp: jget_def)

lemma jget_jpop [simp]:
  "jget (jpop k v) k' = (if k' = k then JNull else jget v k')"
  by (cases v) (auto simp: jget_def)

lemma jhas_jset [simp]: "is_dict v \<Longrightarrow> jhas (jset k x v) k' = (k' = k \<or> jhas v k')"
  by (cases v) (auto simp: jhas_def)

lemma jget_JObj [simp]: "jget (JObj kvs) k = (case dget kvs k of None \<Rightarrow> JNull | Some x \<Rightarrow> x)"
  by (simp add: jget_def)

lemma jget_no_dict [simp]: "\<not> is_dict v \<Longrightarrow> jget v k = JNull"
  by (cases v) (auto simp: jget_def)

text \<open>\<open>d.get("a") if isinstance(d.get("a"), dict) else {}\<close>\<close>

definition dict_or_empty :: "jv \<Rightarrow> jv" where
  "dict_or_empty v = (if is_dict v then v else JObj [])"

definition sub_dict :: "jv \<Rightarrow> string \<Rightarrow> jv" where
  "sub_dict v k = dict_or_empty (jget v k)"

definition strings_of :: "jv list \<Rightarrow> string list" where
  "strings_of xs = List.map_filter as_str xs"

lemma set_strings_of: "set (strings_of xs) = {s. JStr s \<in> set xs}"
  by (induction xs) (auto simp: strings_of_def map_filter_simps split: option.splits
      elim: as_str.elims)

text \<open>\<open>{k: v.get(k) for k in ks if k in v}\<close>\<close>

definition keep_keys :: "string list \<Rightarrow> jv \<Rightarrow> jv" where
  "keep_keys ks v = JObj (map (\<lambda>k. (k, jget v k)) (filter (jhas v) ks))"

section \<open>Instants\<close>

text \<open>
  Clock values are instants in microseconds. \<open>_iso(now)\<close> prints whole seconds, so
  reading it back gives the instant rounded down to the second.
\<close>

definition sec :: "int \<Rightarrow> int" where
  "sec n = n * 1000000"

definition floor_sec :: "int \<Rightarrow> int" where
  "floor_sec t = t - t mod 1000000"

definition iso :: "int \<Rightarrow> jv" where
  "iso t = JTime (floor_sec t)"

text \<open>\<open>parse_tested_at\<close>: \<open>None\<close> unless the value is a string that names an instant.\<close>

fun parse_tested_at :: "jv \<Rightarrow> int option" where
  "parse_tested_at (JTime t) = Some t"
| "parse_tested_at _ = None"

lemma parse_iso [simp]: "parse_tested_at (iso t) = Some (floor_sec t)"
  by (simp add: iso_def)

lemma truthy_iso [simp]: "truthy (iso t)"
  by (simp add: iso_def)

lemma floor_sec_le: "floor_sec t \<le> t"
  by (simp add: floor_sec_def)

lemma floor_sec_gt: "t < floor_sec t + sec 1"
  by (simp add: floor_sec_def sec_def)

lemma floor_sec_mono: "s \<le> t \<Longrightarrow> floor_sec s \<le> floor_sec t"
proof -
  assume "s \<le> t"
  then have "s div 1000000 \<le> t div 1000000" by (rule zdiv_mono1) simp
  moreover have "floor_sec x = 1000000 * (x div 1000000)" for x
    by (simp add: floor_sec_def minus_mod_eq_mult_div)
  ultimately show ?thesis by simp
qed

lemma floor_sec_add: "floor_sec (t + sec n) = floor_sec t + sec n"
  by (simp add: floor_sec_def sec_def)

lemma floor_sec_idem [simp]: "floor_sec (floor_sec t) = floor_sec t"
  by (simp add: floor_sec_def mod_diff_left_eq)

lemma floor_sec_min: "floor_sec (min s t) = min (floor_sec s) (floor_sec t)"
  using floor_sec_mono [of s t] floor_sec_mono [of t s] by (auto simp: min_def)

section \<open>Environment variables read as integers\<close>

datatype env_value = Unset | Blank | NotInt | IntText int

text \<open>\<open>_env_int\<close> (\<open>trading/discovery_guard.py\<close>): unset, blank or malformed text is the default.\<close>

fun env_int :: "env_value \<Rightarrow> int \<Rightarrow> int" where
  "env_int (IntText i) d = i"
| "env_int _ d = d"

end
