(* ===== verification/Numbers.thy ===== *)
theory Numbers
  imports PyValue
begin

text \<open>
  Numbers as the gate code uses them: comparison and arithmetic on floats with the
  three special values, \<open>float(...)\<close> and \<open>int(...)\<close> on JSON values and texts,
  \<open>round(x, k)\<close> and \<open>f"{x:.2f}"\<close>. Finite floats are exact rationals.
\<close>

section \<open>Floats\<close>

text \<open>Every comparison with a NaN is false.\<close>

fun flt_less :: "pyfloat \<Rightarrow> pyfloat \<Rightarrow> bool" where
  "flt_less NaN y = False"
| "flt_less x NaN = False"
| "flt_less (Fin a) (Fin b) = (a < b)"
| "flt_less NegInf y = (y \<noteq> NegInf)"
| "flt_less x PosInf = (x \<noteq> PosInf)"
| "flt_less x y = False"

definition flt_le :: "pyfloat \<Rightarrow> pyfloat \<Rightarrow> bool" where
  "flt_le x y \<longleftrightarrow> flt_less x y \<or> (x = y \<and> x \<noteq> NaN)"

fun flt_add :: "pyfloat \<Rightarrow> pyfloat \<Rightarrow> pyfloat" where
  "flt_add (Fin a) (Fin b) = Fin (a + b)"
| "flt_add (Fin a) y = y"
| "flt_add x (Fin b) = x"
| "flt_add PosInf PosInf = PosInf"
| "flt_add NegInf NegInf = NegInf"
| "flt_add x y = NaN"

text \<open>Product with, and quotient by, a positive finite number.\<close>

fun flt_scale :: "rat \<Rightarrow> pyfloat \<Rightarrow> pyfloat" where
  "flt_scale c (Fin a) = Fin (c * a)"
| "flt_scale c x = x"

definition flt_sum :: "pyfloat list \<Rightarrow> pyfloat" where
  "flt_sum xs = foldl flt_add (Fin 0) xs"

lemma flt_less_Fin [simp]: "flt_less (Fin a) (Fin b) = (a < b)"
  by simp

lemma flt_le_Fin [simp]: "flt_le (Fin a) (Fin b) = (a \<le> b)"
  by (auto simp: flt_le_def)

lemma flt_NaN [simp]: "\<not> flt_less NaN y" "\<not> flt_less x NaN" "\<not> flt_le NaN y" "\<not> flt_le x NaN"
  by (cases x; cases y; simp add: flt_le_def)+

lemma flt_sum_Fin: "flt_sum (map Fin xs) = Fin (sum_list xs)"
proof -
  have "foldl flt_add (Fin a) (map Fin xs) = Fin (a + sum_list xs)" for a
    by (induction xs arbitrary: a) (simp_all add: add.assoc)
  then show ?thesis by (simp add: flt_sum_def)
qed

fun is_finite :: "pyfloat \<Rightarrow> bool" where
  "is_finite (Fin x) = True"
| "is_finite _ = False"

section \<open>Texts\<close>

definition lower_char :: "char \<Rightarrow> char" where
  "lower_char c = (let n = of_char c :: nat in if 65 \<le> n \<and> n \<le> 90 then char_of (n + 32) else c)"

definition lower :: "string \<Rightarrow> string" where
  "lower s = map lower_char s"

definition all_digits :: "string \<Rightarrow> bool" where
  "all_digits s \<longleftrightarrow> s \<noteq> [] \<and> list_all is_digit s"

definition is_prefix :: "string \<Rightarrow> string \<Rightarrow> bool" where
  "is_prefix p s \<longleftrightarrow> take (length p) s = p"

text \<open>An optional sign and the rest.\<close>

definition split_sign :: "string \<Rightarrow> int \<times> string" where
  "split_sign s =
     (case s of
        [] \<Rightarrow> (1, [])
      | c # cs \<Rightarrow> if c = CHR ''-'' then (- 1, cs) else if c = CHR ''+'' then (1, cs) else (1, s))"

text \<open>\<open>int(text)\<close>; digit groups with underscores are not read.\<close>

definition int_text :: "string \<Rightarrow> int option" where
  "int_text s =
     (let (sg, ds) = split_sign (strip s)
      in if all_digits ds then Some (sg * int (digits_value ds)) else None)"

text \<open>\<open>digits[.digits]\<close> with at least one digit.\<close>

definition decimal_text :: "string \<Rightarrow> rat option" where
  "decimal_text s =
     (let (a, r) = (takeWhile is_digit s, dropWhile is_digit s) in
      case r of
        [] \<Rightarrow> if a = [] then None else Some (of_nat (digits_value a))
      | c # b \<Rightarrow>
          if c = CHR ''.'' \<and> list_all is_digit b \<and> (a \<noteq> [] \<or> b \<noteq> [])
          then Some (of_nat (digits_value a) + of_nat (digits_value b) / 10 ^ length b)
          else None)"

definition exponent_of :: "string \<Rightarrow> int option" where
  "exponent_of s =
     (let (sg, ds) = split_sign s in if all_digits ds then Some (sg * int (digits_value ds)) else None)"

definition scale10 :: "rat \<Rightarrow> int \<Rightarrow> rat" where
  "scale10 m e = (if 0 \<le> e then m * 10 ^ nat e else m / 10 ^ nat (- e))"

text \<open>\<open>float(text)\<close>: decimal and scientific notation, \<open>inf\<close>, \<open>infinity\<close>, \<open>nan\<close>.\<close>

definition float_text :: "string \<Rightarrow> pyfloat option" where
  "float_text s =
     (let (sg, r) = split_sign (lower (strip s)) in
      if r = ''nan'' then Some NaN
      else if r = ''inf'' \<or> r = ''infinity'' then Some (if sg = 1 then PosInf else NegInf)
      else
        let m = takeWhile (\<lambda>c. c \<noteq> CHR ''e'') r; t = dropWhile (\<lambda>c. c \<noteq> CHR ''e'') r in
        case decimal_text m of
          None \<Rightarrow> None
        | Some x \<Rightarrow>
            (case t of
               [] \<Rightarrow> Some (Fin (of_int sg * x))
             | e # ds \<Rightarrow> map_option (\<lambda>k. Fin (of_int sg * scale10 x k)) (exponent_of ds)))"

section \<open>Reading JSON values as numbers\<close>

text \<open>\<open>float(v)\<close>\<close>

fun py_float :: "jv \<Rightarrow> pyfloat result" where
  "py_float (JInt i) = Inr (Fin (of_int i))"
| "py_float (JBool b) = Inr (Fin (if b then 1 else 0))"
| "py_float (JFloat x) = Inr x"
| "py_float (JStr s) =
     (case float_text s of
        None \<Rightarrow> Inl (ValueError ''could not convert string to float'') | Some x \<Rightarrow> Inr x)"
| "py_float (JTime t) = Inl (ValueError ''could not convert string to float'')"
| "py_float _ = Inl (TypeError ''float() argument must be a string or a real number'')"

text \<open>\<open>float(v or 0.0)\<close>\<close>

definition float_or_0 :: "jv \<Rightarrow> pyfloat result" where
  "float_or_0 v = (if truthy v then py_float v else Inr (Fin 0))"

definition trunc :: "rat \<Rightarrow> int" where
  "trunc x = (if 0 \<le> x then \<lfloor>x\<rfloor> else \<lceil>x\<rceil>)"

text \<open>\<open>int(v)\<close>; converting an infinity is an \<open>OverflowError\<close>.\<close>

fun py_int :: "jv \<Rightarrow> int result" where
  "py_int (JInt i) = Inr i"
| "py_int (JBool b) = Inr (if b then 1 else 0)"
| "py_int (JFloat (Fin x)) = Inr (trunc x)"
| "py_int (JFloat NaN) = Inl (ValueError ''cannot convert float NaN to integer'')"
| "py_int (JFloat x) = Inl (RuntimeError ''cannot convert float infinity to integer'')"
| "py_int (JStr s) =
     (case int_text s of None \<Rightarrow> Inl (ValueError ''invalid literal for int()'') | Some i \<Rightarrow> Inr i)"
| "py_int (JTime t) = Inl (ValueError ''invalid literal for int()'')"
| "py_int _ = Inl (TypeError ''int() argument must be a string or a real number'')"

definition int_or_zero :: "jv \<Rightarrow> int result" where
  "int_or_zero v = (if truthy v then py_int v else Inr 0)"

text \<open>\<open>_whole\<close>: an int, or a float with an integral value; never a bool.\<close>

fun whole_number :: "jv \<Rightarrow> int option" where
  "whole_number (JInt i) = Some i"
| "whole_number (JFloat (Fin x)) = (if of_int \<lfloor>x\<rfloor> = x then Some \<lfloor>x\<rfloor> else None)"
| "whole_number _ = None"

text \<open>Sequencing of fallible steps, in evaluation order.\<close>

fun bind_result :: "'a result \<Rightarrow> ('a \<Rightarrow> 'b result) \<Rightarrow> 'b result" where
  "bind_result (Inl e) f = Inl e"
| "bind_result (Inr x) f = f x"

fun map_results :: "('a \<Rightarrow> 'b result) \<Rightarrow> 'a list \<Rightarrow> 'b list result" where
  "map_results f [] = Inr []"
| "map_results f (x # xs) =
     bind_result (f x) (\<lambda>y. bind_result (map_results f xs) (\<lambda>ys. Inr (y # ys)))"

lemma bind_result_Inr: "bind_result r f = Inr y \<longleftrightarrow> (\<exists>x. r = Inr x \<and> f x = Inr y)"
  by (cases r) auto

lemma map_results_Inr: "map_results f xs = Inr ys \<longleftrightarrow> list_all2 (\<lambda>x y. f x = Inr y) xs ys"
  by (induction f xs arbitrary: ys rule: map_results.induct)
     (auto simp: bind_result_Inr list_all2_Cons1)

section \<open>Rounding and formatting\<close>

text \<open>\<open>round\<close> rounds half to even.\<close>

definition round_even :: "rat \<Rightarrow> int" where
  "round_even x =
     (let f = \<lfloor>x\<rfloor>; d = x - of_int f in
      if d < 1 / 2 then f else if d > 1 / 2 then f + 1 else if even f then f else f + 1)"

definition round_to :: "nat \<Rightarrow> rat \<Rightarrow> rat" where
  "round_to k x = of_int (round_even (x * 10 ^ k)) / 10 ^ k"

fun flt_round :: "nat \<Rightarrow> pyfloat \<Rightarrow> pyfloat" where
  "flt_round k (Fin x) = Fin (round_to k x)"
| "flt_round k x = x"

lemma round_even_near: "\<bar>of_int (round_even x) - x\<bar> \<le> 1 / 2"
proof -
  have "of_int \<lfloor>x\<rfloor> \<le> x" "x < of_int \<lfloor>x\<rfloor> + 1" by linarith+
  then show ?thesis by (auto simp: round_even_def Let_def abs_le_iff)
qed

lemma round_even_int [simp]: "round_even (of_int n) = n"
  by (simp add: round_even_def)

lemma round_to_near: "\<bar>round_to k x - x\<bar> \<le> 1 / (2 * 10 ^ k)"
proof -
  have "\<bar>of_int (round_even (x * 10 ^ k)) - x * 10 ^ k\<bar> \<le> 1 / 2" by (rule round_even_near)
  then have "\<bar>(of_int (round_even (x * 10 ^ k)) - x * 10 ^ k) / 10 ^ k\<bar> \<le> (1 / 2) / 10 ^ k"
    by (simp add: abs_divide field_simps)
  then show ?thesis by (simp add: round_to_def diff_divide_distrib)
qed

definition show_int :: "int \<Rightarrow> string" where
  "show_int i = (if i < 0 then CHR ''-'' # show_nat (nat (- i)) else show_nat (nat i))"

definition pad0 :: "nat \<Rightarrow> string \<Rightarrow> string" where
  "pad0 k s = replicate (k - length s) (CHR ''0'') @ s"

text \<open>\<open>f"{x:.kf}"\<close> for \<open>k > 0\<close>\<close>

fun fmt_fixed :: "nat \<Rightarrow> pyfloat \<Rightarrow> string" where
  "fmt_fixed k (Fin x) =
     (let n = nat \<bar>round_even (x * 10 ^ k)\<bar> in
      (if x < 0 then ''-'' else '''') @ show_nat (n div 10 ^ k) @ ''.'' @ pad0 k (show_nat (n mod 10 ^ k)))"
| "fmt_fixed k PosInf = ''inf''"
| "fmt_fixed k NegInf = ''-inf''"
| "fmt_fixed k NaN = ''nan''"

end
