(* ===== verification/Gate.thy ===== *)
theory Gate
  imports Numbers
begin

text \<open>
  The fixed numbers of \<open>trading/constants.py\<close> (window grid, gate floors), the
  out-of-sample gate of \<open>trading/qualify.py\<close> and the attestation and final checks of
  \<open>trading/gate_v4.py\<close>. The backtest itself, the deflated Sharpe ratio and the
  overfitting probability are arguments.
\<close>

section \<open>The window grid\<close>

definition QUAL_WINDOW_DAYS :: int where "QUAL_WINDOW_DAYS = 90"
definition QUAL_WINDOW_BARS :: int where "QUAL_WINDOW_BARS = QUAL_WINDOW_DAYS * 24 * 12"

definition qual_n_windows_for_bars :: "int \<Rightarrow> int \<Rightarrow> int" where
  "qual_n_windows_for_bars n_bars window_bars =
     (if window_bars \<le> 0 then 0 else max 0 (n_bars div window_bars))"

definition QUAL_TAPE_BARS_MEASURED :: int where "QUAL_TAPE_BARS_MEASURED = 600787"
definition QUAL_N_WINDOWS :: int where
  "QUAL_N_WINDOWS = qual_n_windows_for_bars QUAL_TAPE_BARS_MEASURED QUAL_WINDOW_BARS"
definition QUAL_WARMUP_DAYS :: int where "QUAL_WARMUP_DAYS = 14"
definition QUAL_WARMUP_BARS :: int where "QUAL_WARMUP_BARS = QUAL_WARMUP_DAYS * 24 * 12"
definition TF_MS_5M :: int where "TF_MS_5M = 300000"
definition QUAL_TRAIN_BARS :: int where "QUAL_TRAIN_BARS = \<lfloor>of_int QUAL_WINDOW_BARS * (7 / 10 :: rat)\<rfloor>"
definition QUAL_SEGMENT_DAYS :: int where "QUAL_SEGMENT_DAYS = 87"
definition QUAL_SEGMENT_MS :: int where "QUAL_SEGMENT_MS = QUAL_SEGMENT_DAYS * 86400000"
definition QUAL_TAPE_START_MS :: int where "QUAL_TAPE_START_MS = 1612224000000"
definition QUAL_OOS_START_MS :: int where
  "QUAL_OOS_START_MS = QUAL_TAPE_START_MS + (QUAL_TRAIN_BARS + QUAL_WARMUP_BARS) * TF_MS_5M"
definition HOLDOUT_START_MS :: int where "HOLDOUT_START_MS = 1759276800000"
definition HOLDOUT_END_MS :: int where "HOLDOUT_END_MS = 1790812800000"
definition DISCOVERY_N_WINDOWS :: int where
  "DISCOVERY_N_WINDOWS = (HOLDOUT_START_MS - QUAL_OOS_START_MS) div QUAL_SEGMENT_MS"
definition QUAL_STORE_MARGIN_BARS :: int where "QUAL_STORE_MARGIN_BARS = 7 * 24 * 12"
definition LIBRARY_TAPE_START_MS :: int where "LIBRARY_TAPE_START_MS = 1502928000000"

lemmas grid_defs =
  QUAL_WINDOW_DAYS_def QUAL_WINDOW_BARS_def qual_n_windows_for_bars_def QUAL_TAPE_BARS_MEASURED_def
  QUAL_N_WINDOWS_def QUAL_WARMUP_DAYS_def QUAL_WARMUP_BARS_def TF_MS_5M_def QUAL_TRAIN_BARS_def
  QUAL_SEGMENT_DAYS_def QUAL_SEGMENT_MS_def QUAL_TAPE_START_MS_def QUAL_OOS_START_MS_def
  HOLDOUT_START_MS_def HOLDOUT_END_MS_def DISCOVERY_N_WINDOWS_def QUAL_STORE_MARGIN_BARS_def
  LIBRARY_TAPE_START_MS_def

definition qual_segment_bounds :: "int \<Rightarrow> int option \<Rightarrow> (int \<times> int option) result" where
  "qual_segment_bounds k n_windows =
     (let n = (case n_windows of None \<Rightarrow> QUAL_N_WINDOWS | Some n \<Rightarrow> n) in
      if \<not> (0 \<le> k \<and> k < n) then Inl (ValueError ''segment outside range'')
      else
        let start = QUAL_OOS_START_MS + k * QUAL_SEGMENT_MS
        in Inr (start, if k = n - 1 then None else Some (start + QUAL_SEGMENT_MS)))"

definition qual_store_bars :: "int \<Rightarrow> int" where
  "qual_store_bars now = max 0 ((now - QUAL_TAPE_START_MS) div TF_MS_5M + 1) + QUAL_STORE_MARGIN_BARS"

definition library_store_bars :: "int \<Rightarrow> int" where
  "library_store_bars now = max (qual_store_bars now) (max 0 ((now - LIBRARY_TAPE_START_MS) div TF_MS_5M + 1))"

definition qual_keep_bars :: "int option \<Rightarrow> int option \<Rightarrow> int" where
  "qual_keep_bars n_windows warmup_bars =
     QUAL_WINDOW_BARS * (case n_windows of None \<Rightarrow> QUAL_N_WINDOWS | Some n \<Rightarrow> n)
     + (case warmup_bars of None \<Rightarrow> QUAL_WARMUP_BARS | Some w \<Rightarrow> w)"

definition live_signal_eval_bars :: int where
  "live_signal_eval_bars = QUAL_WINDOW_BARS + QUAL_WARMUP_BARS"

section \<open>Gate constants\<close>

definition GATE_RULES :: string where "GATE_RULES = ''gate_v7b_library_profit_20261029''"
definition V3_GATE_RULES :: string where "V3_GATE_RULES = ''sltp_cap100_bhdsr_tiled87_20261008''"
definition V4_GATE_RULES :: string where "V4_GATE_RULES = ''gate_v4_btc_holdout_dsr_pbo_20261027''"
definition BH_METRIC_ROLE :: string where "BH_METRIC_ROLE = ''informational''"
definition MIN_BACKTEST_SHARPE :: rat where "MIN_BACKTEST_SHARPE = 3 / 10"
definition MIN_BACKTEST_TRADES :: int where "MIN_BACKTEST_TRADES = 30"
definition DSR_MIN_PROBABILITY :: rat where "DSR_MIN_PROBABILITY = 95 / 100"
definition PBO_MAX :: rat where "PBO_MAX = 20 / 100"
definition NEIGHBOR_PASS_MIN_FRACTION :: rat where "NEIGHBOR_PASS_MIN_FRACTION = 70 / 100"
definition COST_STRESS_EXTRA_SLIPPAGE :: rat where "COST_STRESS_EXTRA_SLIPPAGE = 5 / 10000"
definition COST_STRESS_FEE_MULTIPLE :: rat where "COST_STRESS_FEE_MULTIPLE = 2"
definition HOLDOUT_MIN_TRADES :: int where "HOLDOUT_MIN_TRADES = 8"
definition TRADE_SYMBOLS :: "string list" where "TRADE_SYMBOLS = [''BTC/USDT'']"

lemmas gate_constants =
  MIN_BACKTEST_SHARPE_def MIN_BACKTEST_TRADES_def DSR_MIN_PROBABILITY_def PBO_MAX_def
  NEIGHBOR_PASS_MIN_FRACTION_def COST_STRESS_EXTRA_SLIPPAGE_def HOLDOUT_MIN_TRADES_def

section \<open>The aggregate gate\<close>

text \<open>\<open>tot_test_pnl + (avg_sharpe * 10.0)\<close>\<close>

definition oos_admission_score :: "pyfloat \<Rightarrow> pyfloat \<Rightarrow> pyfloat" where
  "oos_admission_score tot_test_pnl avg_sharpe = flt_add tot_test_pnl (flt_scale 10 avg_sharpe)"

definition is_window_veto_reason :: "jv \<Rightarrow> bool" where
  "is_window_veto_reason reason =
     (case as_str reason of
        None \<Rightarrow> False
      | Some s \<Rightarrow> s = ''not all windows non-negative'' \<or> is_prefix ''window['' s)"

definition aggregate_fail_reasons ::
    "pyfloat \<Rightarrow> int \<Rightarrow> pyfloat \<Rightarrow> pyfloat option \<Rightarrow> int \<Rightarrow> int \<Rightarrow> string list" where
  "aggregate_fail_reasons pnl trades sharpe sma n_windows expected =
     (if n_windows \<noteq> expected
      then [''windows '' @ show_int n_windows @ '' != expected '' @ show_int expected] else []) @
     (if trades < MIN_BACKTEST_TRADES
      then [''oos_trades '' @ show_int trades @ '' < '' @ show_int MIN_BACKTEST_TRADES] else []) @
     (if flt_less sharpe (Fin MIN_BACKTEST_SHARPE)
      then [''oos_sharpe '' @ fmt_fixed 2 sharpe @ '' < 0.3''] else []) @
     (case sma of
        None \<Rightarrow> [''sma_stack missing'']
      | Some m \<Rightarrow>
          if flt_le pnl m
          then [''oos_pnl '' @ fmt_fixed 2 pnl @ '' <= sma_stack '' @ fmt_fixed 2 m] else [])"

record decision =
  dec_passed :: bool
  dec_reasons :: "string list"
  dec_test_pnl :: pyfloat
  dec_trades :: int
  dec_sharpe :: pyfloat
  dec_all_nonneg :: bool
  dec_score :: pyfloat
  dec_sma :: "pyfloat option"

text \<open>One walk-forward window as the worker stores it; missing or null fields are \<open>None\<close>.\<close>

record window =
  win_skipped :: bool
  win_failed :: bool
  win_test_pnl :: "pyfloat option"
  win_test_trades :: int
  win_sharpe :: "pyfloat option"
  win_train_pnl :: "pyfloat option"

definition window_is_nonneg :: "window \<Rightarrow> bool" where
  "window_is_nonneg w \<longleftrightarrow>
     \<not> ((win_skipped w \<or> win_failed w) \<or> win_test_pnl w = None \<or> win_test_trades w < 1 \<or>
       (case win_test_pnl w of None \<Rightarrow> True | Some p \<Rightarrow> flt_less p (Fin 0)))"

definition zero_or :: "pyfloat option \<Rightarrow> pyfloat" where
  "zero_or x = (case x of None \<Rightarrow> Fin 0 | Some y \<Rightarrow> y)"

definition qualification_decision :: "window list \<Rightarrow> int \<Rightarrow> pyfloat option \<Rightarrow> decision" where
  "qualification_decision ws expected sma =
     (let pnl = flt_sum (map (zero_or \<circ> win_test_pnl) ws);
          trades = sum_list (map win_test_trades ws);
          sharpes = (if ws = [] then [Fin 0] else map (zero_or \<circ> win_sharpe) ws);
          sharpe = flt_scale (1 / of_nat (length sharpes)) (flt_sum sharpes);
          reasons = aggregate_fail_reasons pnl trades sharpe sma (int (length ws)) expected
      in \<lparr>dec_passed = (reasons = []), dec_reasons = reasons, dec_test_pnl = pnl, dec_trades = trades,
          dec_sharpe = sharpe, dec_all_nonneg = (ws \<noteq> [] \<and> list_all window_is_nonneg ws),
          dec_score = oos_admission_score pnl sharpe, dec_sma = sma\<rparr>)"

text \<open>\<open>_optional_float\<close>: \<open>None\<close> when the value is missing, null or not a number.\<close>

definition optional_float :: "jv \<Rightarrow> pyfloat option" where
  "optional_float v = (case py_float v of Inl e \<Rightarrow> None | Inr x \<Rightarrow> Some x)"

definition fail_reasons_of :: "jv \<Rightarrow> jv list" where
  "fail_reasons_of row = as_list (jget row ''fail_reasons'')"

definition qualification_from_record :: "int \<Rightarrow> jv \<Rightarrow> decision result" where
  "qualification_from_record expected row =
     bind_result (float_or_0 (jget row ''test_pnl'')) (\<lambda>pnl.
     bind_result (int_or_zero (jget row ''trades'')) (\<lambda>trades.
     bind_result (float_or_0 (jget row ''sharpe'')) (\<lambda>sharpe.
     bind_result
       (if jget row ''regimes_tested'' \<noteq> JNull then int_or_zero (jget row ''regimes_tested'')
        else Inr expected) (\<lambda>n_windows.
     let sma = optional_float (jget row ''sma_stack_oos_pnl'');
         reasons = aggregate_fail_reasons pnl trades sharpe sma n_windows expected
     in Inr \<lparr>dec_passed = (reasons = []), dec_reasons = reasons, dec_test_pnl = pnl,
            dec_trades = trades, dec_sharpe = sharpe,
            dec_all_nonneg =
              (if jhas row ''all_windows_nonneg'' then truthy (jget row ''all_windows_nonneg'')
               else \<not> list_ex is_window_veto_reason (fail_reasons_of row)),
            dec_score = oos_admission_score pnl sharpe, dec_sma = sma\<rparr>))))"

section \<open>The attestation\<close>

definition ATTESTATION_KEYS :: "string list" where
  "ATTESTATION_KEYS = [''holdout_pass'', ''dsr_pass'', ''pbo_pass'', ''perturb_pass'', ''cost_pass'']"

text \<open>\<open>v4_pass_attestation()\<close> without extra fields\<close>

definition v4_pass_attestation :: jv where
  "v4_pass_attestation =
     JObj ([(''passed'', JBool True), (''rules'', JStr GATE_RULES)] @
           map (\<lambda>k. (k, JBool True)) ATTESTATION_KEYS)"

definition v4_attestation_ok :: "jv \<Rightarrow> bool" where
  "v4_attestation_ok row \<longleftrightarrow>
     (let block = jget row ''gate_v4'' in
      is_dict row \<and> is_dict block \<and> jget block ''passed'' = JBool True \<and>
      jget block ''rules'' = JStr GATE_RULES \<and>
      list_all (\<lambda>k. jget block k = JBool True) ATTESTATION_KEYS)"

definition neighbour_fraction_ok :: "int \<Rightarrow> int \<Rightarrow> bool" where
  "neighbour_fraction_ok passed n \<longleftrightarrow>
     n > 0 \<and> \<not> (of_int passed / of_int n + 1 / 10 ^ 12 < NEIGHBOR_PASS_MIN_FRACTION)"

definition base_sharpe_trades_ok :: "pyfloat \<Rightarrow> int \<Rightarrow> bool" where
  "base_sharpe_trades_ok sharpe trades \<longleftrightarrow> flt_le (Fin MIN_BACKTEST_SHARPE) sharpe \<and> trades \<ge> 30"

end
