(* ===== verification/Rescore.thy ===== *)
theory Rescore
  imports Gate
begin

text \<open>
  \<open>trading/rescore_v5.py\<close>: reading stored fail sentences, classifying a stored row, and
  relabelling the rows whose only fails were buy-and-hold comparisons.
\<close>

section \<open>Fail sentences\<close>

text \<open>
  The three regular expressions use literal text, \<open>\s+\<close>, \<open>-?[\d.]+\<close>, \<open>\S+\<close> and \<open>\d+\<close>. In
  each of them a repeated class is followed by a character outside the class, so matching
  takes the longest run. \<open>match_pats\<close> returns the texts of the numbers it read.
\<close>

datatype pat = Lit string | Spaces | Num | Word | Digits

definition is_numc :: "char \<Rightarrow> bool" where
  "is_numc c \<longleftrightarrow> is_digit c \<or> c = CHR ''.''"

definition take_class :: "(char \<Rightarrow> bool) \<Rightarrow> string \<Rightarrow> (string \<times> string) option" where
  "take_class p s =
     (let w = takeWhile p s in if w = [] then None else Some (w, dropWhile p s))"

fun match_pat :: "pat \<Rightarrow> string \<Rightarrow> (string list \<times> string) option" where
  "match_pat (Lit l) s = (if is_prefix l s then Some ([], drop (length l) s) else None)"
| "match_pat Spaces s = map_option (\<lambda>(w, r). ([], r)) (take_class is_space s)"
| "match_pat Word s = map_option (\<lambda>(w, r). ([], r)) (take_class (\<lambda>c. \<not> is_space c) s)"
| "match_pat Digits s = map_option (\<lambda>(w, r). ([], r)) (take_class is_digit s)"
| "match_pat Num s =
     (let (sg, t) = (if is_prefix ''-'' s then (''-'', drop 1 s) else ('''', s))
      in map_option (\<lambda>(w, r). ([sg @ w], r)) (take_class is_numc t))"

fun match_pats :: "pat list \<Rightarrow> string \<Rightarrow> string list option" where
  "match_pats [] s = (if s = [] then Some [] else None)"
| "match_pats (p # ps) s =
     (case match_pat p s of
        None \<Rightarrow> None
      | Some (ns, r) \<Rightarrow> map_option (\<lambda>ms. ns @ ms) (match_pats ps r))"

definition BH_BEAT :: "pat list" where
  "BH_BEAT = [Lit ''daily_sharpe'', Spaces, Num, Spaces, Lit ''<='', Spaces, Lit ''bh_daily_sharpe'', Spaces, Num]"

definition HOLDOUT_BEAT :: "pat list" where
  "HOLDOUT_BEAT = [Lit ''holdout_daily_sharpe'', Spaces, Num, Spaces, Lit ''<='', Spaces, Lit ''bh'', Spaces, Num]"

definition COST_BH :: "pat list" where
  "COST_BH = [Lit ''cost stress sharpe'', Spaces, Num, Spaces, Lit ''/'', Spaces, Lit ''daily'', Spaces, Num,
     Spaces, Lit ''vs bh'', Spaces, Word, Spaces, Lit ''(2x fee + '', Digits, Lit ''bps)'']"

text \<open>
  \<open>float(group 1)\<close> of a \<open>-?[\d.]+\<close> text. A text with two points is a \<open>ValueError\<close>, which
  counts as no match; the value is finite.
\<close>

definition cost_sharpe_ok :: "string \<Rightarrow> bool" where
  "cost_sharpe_ok t =
     (case float_text t of
        Some x \<Rightarrow> is_finite x \<and> flt_le (Fin MIN_BACKTEST_SHARPE) x
      | None \<Rightarrow> False)"

definition bh_sentence :: "string \<Rightarrow> bool" where
  "bh_sentence text \<longleftrightarrow>
     text \<in> {''buy-and-hold daily sharpe missing'', ''holdout buy-and-hold daily sharpe missing''} \<or>
     match_pats BH_BEAT text \<noteq> None \<or> match_pats HOLDOUT_BEAT text \<noteq> None \<or>
     (case match_pats COST_BH text of
        Some (t # ts) \<Rightarrow> cost_sharpe_ok t
      | _ \<Rightarrow> False)"

text \<open>The text of a reason that is not a string never has one of these forms.\<close>

definition is_bh_decision_reason :: "jv \<Rightarrow> bool" where
  "is_bh_decision_reason reason =
     (case as_str reason of None \<Rightarrow> False | Some s \<Rightarrow> bh_sentence (strip s))"

section \<open>Classifying a row\<close>

datatype row_class = Relabel | AlreadyRescored | AlreadyQualified | MissingInputs | OtherFailures

definition RESCORE_REASON :: string where
  "RESCORE_REASON = ''gate_v5_buy_and_hold_informational''"

definition missing :: "jv \<Rightarrow> string \<Rightarrow> bool" where
  "missing row k \<longleftrightarrow> jget row k = JNull"

definition fnum :: "jv \<Rightarrow> string \<Rightarrow> rat option" where
  "fnum row k = finite_number (jget row k)"

definition wnum :: "jv \<Rightarrow> string \<Rightarrow> int option" where
  "wnum row k = whole_number (jget row k)"

definition at_least :: "rat \<Rightarrow> rat option \<Rightarrow> bool" where
  "at_least b x = (case x of None \<Rightarrow> False | Some v \<Rightarrow> b \<le> v)"

definition at_least_int :: "int \<Rightarrow> int option \<Rightarrow> bool" where
  "at_least_int b x = (case x of None \<Rightarrow> False | Some v \<Rightarrow> b \<le> v)"

definition beats :: "rat option \<Rightarrow> rat option \<Rightarrow> bool" where
  "beats x y = (case (x, y) of (Some a, Some b) \<Rightarrow> b < a | _ \<Rightarrow> False)"

definition v4_inputs_stored :: "jv \<Rightarrow> bool" where
  "v4_inputs_stored row \<longleftrightarrow>
     (let block = jget row ''gate_v4''; holdout = jget block ''holdout'' in
      list_all (\<lambda>k. \<not> missing row k)
        [''regimes_tested'', ''sharpe'', ''trades'', ''test_pnl'', ''sma_stack_oos_pnl'', ''symbols''] \<and>
      is_dict block \<and> is_dict holdout \<and>
      fnum holdout ''sharpe'' \<noteq> None \<and> wnum holdout ''trades'' \<noteq> None \<and>
      fnum holdout ''pnl'' \<noteq> None \<and> fnum holdout ''sma_pnl'' \<noteq> None \<and>
      fnum block ''dsr'' \<noteq> None \<and> wnum block ''n_trials'' \<noteq> None \<and> fnum block ''pbo'' \<noteq> None \<and>
      wnum block ''neighbours'' \<noteq> None \<and> wnum block ''neighbours_pass'' \<noteq> None \<and>
      fnum block ''cost_sharpe'' \<noteq> None)"

definition neighbours_ok :: "jv \<Rightarrow> bool" where
  "neighbours_ok block =
     (case (wnum block ''neighbours'', wnum block ''neighbours_pass'') of
        (Some n, Some p) \<Rightarrow>
          n > 0 \<and> \<not> (of_int p / of_int n + 1 / 10 ^ 12 < NEIGHBOR_PASS_MIN_FRACTION)
      | _ \<Rightarrow> False)"

text \<open>\<open>list(symbols) == list(TRADE_SYMBOLS)\<close>; a value that is not a list never equals it (\<open>list()\<close> raises on a number).\<close>

definition v4_checks_pass :: "jv \<Rightarrow> bool" where
  "v4_checks_pass row \<longleftrightarrow>
     (let block = jget row ''gate_v4''; holdout = jget block ''holdout'' in
      wnum row ''regimes_tested'' = Some DISCOVERY_N_WINDOWS \<and>
      at_least_int MIN_BACKTEST_TRADES (wnum row ''trades'') \<and>
      at_least MIN_BACKTEST_SHARPE (fnum row ''sharpe'') \<and>
      beats (fnum row ''test_pnl'') (fnum row ''sma_stack_oos_pnl'') \<and>
      jget row ''symbols'' = JList (map JStr TRADE_SYMBOLS) \<and>
      at_least MIN_BACKTEST_SHARPE (fnum holdout ''sharpe'') \<and>
      at_least_int HOLDOUT_MIN_TRADES (wnum holdout ''trades'') \<and>
      beats (fnum holdout ''pnl'') (fnum holdout ''sma_pnl'') \<and>
      at_least_int 1 (wnum block ''n_trials'') \<and>
      at_least DSR_MIN_PROBABILITY (fnum block ''dsr'') \<and>
      (case fnum block ''pbo'' of None \<Rightarrow> False | Some p \<Rightarrow> p \<le> PBO_MAX) \<and>
      neighbours_ok block \<and>
      at_least MIN_BACKTEST_SHARPE (fnum block ''cost_sharpe'') \<and>
      COST_STRESS_EXTRA_SLIPPAGE > 0)"

definition stored_v4_problem :: "jv \<Rightarrow> row_class option" where
  "stored_v4_problem row =
     (if \<not> v4_inputs_stored row then Some MissingInputs
      else if \<not> v4_checks_pass row then Some OtherFailures
      else None)"

definition classify_row :: "jv \<Rightarrow> row_class" where
  "classify_row row =
     (if \<not> is_dict row then OtherFailures
      else if truthy (jget row ''qualified'') \<and> jget row ''rescore_reason'' = JStr RESCORE_REASON \<and>
              jget row ''gate_rules'' = JStr GATE_RULES then AlreadyRescored
      else if truthy (jget row ''qualified'') then AlreadyQualified
      else if truthy (jget row ''ops_park'') then OtherFailures
      else if fail_reasons_of row = [] then OtherFailures
      else if \<not> list_all is_bh_decision_reason (fail_reasons_of row) then OtherFailures
      else case stored_v4_problem row of Some p \<Rightarrow> p | None \<Rightarrow> Relabel)"

section \<open>Relabelling\<close>

definition set_true :: "string list \<Rightarrow> jv \<Rightarrow> jv" where
  "set_true ks v = foldl (\<lambda>v k. jset k (JBool True) v) v ks"

definition stamp_block :: "jv \<Rightarrow> jv" where
  "stamp_block block =
     (let b = jset ''passed'' (JBool True) block;
          b = jset ''rules'' (JStr GATE_RULES) b;
          b = set_true ATTESTATION_KEYS b;
          b = jset ''cost_bh_role'' (JStr BH_METRIC_ROLE) b
      in if is_dict (jget b ''holdout'')
         then jset ''holdout'' (jset ''bh_role'' (JStr BH_METRIC_ROLE) (jget b ''holdout'')) b
         else b)"

definition stamp_fields :: "string \<Rightarrow> jv \<Rightarrow> jv" where
  "stamp_fields now row =
     (let old = jget row ''gate_rules'';
          r = jset ''qualified'' (JBool True) row;
          r = jset ''fail_reasons'' (JList []) r;
          r = jset ''gate_rules'' (JStr GATE_RULES) r;
          r = jset ''rescored_at'' (JStr now) r;
          r = jset ''rescore_reason'' (JStr RESCORE_REASON) r;
          r = jset ''rescore_from_rules'' (if is_str old then old else JNull) r;
          r = jset ''bh_daily_sharpe_role'' (JStr BH_METRIC_ROLE) r;
          r = jset ''bh_oos_pnl_role'' (JStr BH_METRIC_ROLE) r
      in if is_dict (jget r ''gate_v4'') then jset ''gate_v4'' (stamp_block (jget r ''gate_v4'')) r else r)"

definition stamp_row :: "string \<Rightarrow> jv \<Rightarrow> jv result" where
  "stamp_row now row =
     (let r = stamp_fields now row
      in bind_result (qualification_from_record DISCOVERY_N_WINDOWS r) (\<lambda>d.
           Inr (jset ''score'' (JFloat (flt_round 2 (dec_score d))) r)))"

text \<open>
  \<open>_latest\<close>: the newest row per name, newest first; rows of the results store that
  the log does not have follow.
\<close>

definition row_name :: "jv \<Rightarrow> string option" where
  "row_name row =
     (case as_str (jget row ''strategy'') of Some (c # s) \<Rightarrow> Some (c # s) | _ \<Rightarrow> None)"

fun latest_rows :: "string list \<Rightarrow> jv list \<Rightarrow> jv dict" where
  "latest_rows seen [] = []"
| "latest_rows seen (row # rows) =
     (case row_name row of
        None \<Rightarrow> latest_rows seen rows
      | Some n \<Rightarrow>
          if n \<in> set seen then latest_rows seen rows
          else (n, row) # latest_rows (n # seen) rows)"

definition latest :: "jv list \<Rightarrow> jv dict \<Rightarrow> jv dict" where
  "latest rows results =
     (let d = latest_rows [] rows in
      d @ filter (\<lambda>(n, row). dget d n = None \<and> is_dict row) results)"

definition status_names :: "row_class \<Rightarrow> jv dict \<Rightarrow> string list" where
  "status_names c by_name = sort (map fst (filter (\<lambda>(n, row). classify_row row = c) by_name))"

text \<open>
  \<open>rescore_v5(apply=True)\<close>: the rows of \<open>by_name\<close> are the log's own dicts, so stamping one
  changes the newest log row of its name in place; stamped rows that came from the results
  store are put in front of the log.
\<close>

fun stamp_log :: "string \<Rightarrow> string list \<Rightarrow> string list \<Rightarrow> jv list \<Rightarrow> jv list result" where
  "stamp_log now relabel seen [] = Inr []"
| "stamp_log now relabel seen (row # rows) =
     (case row_name row of
        None \<Rightarrow> bind_result (stamp_log now relabel seen rows) (\<lambda>rs. Inr (row # rs))
      | Some n \<Rightarrow>
          bind_result (if n \<in> set relabel \<and> n \<notin> set seen then stamp_row now row else Inr row) (\<lambda>r.
          bind_result (stamp_log now relabel (n # seen) rows) (\<lambda>rs. Inr (r # rs))))"

definition rescore_apply :: "string \<Rightarrow> jv list \<Rightarrow> jv dict \<Rightarrow> (jv list \<times> bool) result" where
  "rescore_apply now rows results =
     (let by_name = latest rows results;
          relabel = status_names Relabel by_name;
          in_log = dkeys (latest_rows [] rows);
          extra = filter (\<lambda>n. n \<notin> set in_log) relabel
      in bind_result (map_results (\<lambda>n. stamp_row now (the (dget by_name n))) extra) (\<lambda>prep.
         bind_result (stamp_log now relabel [] rows) (\<lambda>rs.
           Inr (if relabel = [] then rows else prep @ rs, relabel \<noteq> []))))"

end
