(* ===== verification/RescoreFacts.thy ===== *)
theory RescoreFacts
  imports Rescore
begin

text \<open>
  What relabelling promises: a relabelled row carries a passing attestation, passes the
  aggregate gate on its own stored numbers, is recognised as rescored, and a second apply
  changes nothing.
\<close>

section \<open>Fields of a stamped row\<close>

lemma is_dict_set_true [simp]: "is_dict (set_true ks v) = is_dict v"
  by (induction ks arbitrary: v) (simp_all add: set_true_def)

lemma jget_set_true [simp]:
  "is_dict v \<Longrightarrow> jget (set_true ks v) k = (if k \<in> set ks then JBool True else jget v k)"
  by (induction ks arbitrary: v) (auto simp: set_true_def)

lemma is_dict_stamp_block [simp]: "is_dict (stamp_block b) = is_dict b"
  by (simp add: stamp_block_def Let_def)

lemma jget_stamp_block:
  "is_dict b \<Longrightarrow> jget (stamp_block b) k =
     (if k = ''holdout'' then (if is_dict (jget b k) then jset ''bh_role'' (JStr BH_METRIC_ROLE) (jget b k) else jget b k)
      else if k = ''cost_bh_role'' then JStr BH_METRIC_ROLE
      else if k \<in> set ATTESTATION_KEYS then JBool True
      else if k = ''rules'' then JStr GATE_RULES
      else if k = ''passed'' then JBool True
      else jget b k)"
  by (auto simp: stamp_block_def Let_def ATTESTATION_KEYS_def)

lemma is_dict_stamp_fields [simp]: "is_dict (stamp_fields now row) = is_dict row"
  by (simp add: stamp_fields_def Let_def)

lemma jget_stamp_fields_other:
  assumes "is_dict row"
    and "k \<notin> {''qualified'', ''fail_reasons'', ''gate_rules'', ''rescored_at'', ''rescore_reason'',
      ''rescore_from_rules'', ''bh_daily_sharpe_role'', ''bh_oos_pnl_role'', ''gate_v4''}"
  shows "jget (stamp_fields now row) k = jget row k"
  using assms unfolding stamp_fields_def Let_def by simp

lemma jget_stamp_fields:
  assumes "is_dict row"
  shows "jget (stamp_fields now row) ''qualified'' = JBool True"
    and "jget (stamp_fields now row) ''fail_reasons'' = JList []"
    and "jget (stamp_fields now row) ''gate_rules'' = JStr GATE_RULES"
    and "jget (stamp_fields now row) ''rescore_reason'' = JStr RESCORE_REASON"
    and "jget (stamp_fields now row) ''gate_v4'' =
       (if is_dict (jget row ''gate_v4'') then stamp_block (jget row ''gate_v4'') else jget row ''gate_v4'')"
    and "jget (stamp_fields now row) ''strategy'' = jget row ''strategy''"
    and "jget (stamp_fields now row) ''test_pnl'' = jget row ''test_pnl''"
    and "jget (stamp_fields now row) ''trades'' = jget row ''trades''"
    and "jget (stamp_fields now row) ''sharpe'' = jget row ''sharpe''"
    and "jget (stamp_fields now row) ''regimes_tested'' = jget row ''regimes_tested''"
    and "jget (stamp_fields now row) ''sma_stack_oos_pnl'' = jget row ''sma_stack_oos_pnl''"
  using assms by (simp_all add: jget_stamp_fields_other) (simp_all add: stamp_fields_def Let_def)

lemma stamp_row_fields:
  assumes "stamp_row now row = Inr r" "is_dict row"
  shows "is_dict r" and "k \<noteq> ''score'' \<Longrightarrow> jget r k = jget (stamp_fields now row) k"
  using assms by (auto simp: stamp_row_def Let_def bind_result_Inr)

lemma stamped_rescored:
  "stamp_row now row = Inr r \<Longrightarrow> is_dict row \<Longrightarrow> classify_row r = AlreadyRescored"
  by (simp add: classify_row_def stamp_row_fields jget_stamp_fields)

lemma stamped_name: "stamp_row now row = Inr r \<Longrightarrow> is_dict row \<Longrightarrow> row_name r = row_name row"
  by (simp add: row_name_def stamp_row_fields jget_stamp_fields)

lemma row_name_dict: "row_name row = Some n \<Longrightarrow> is_dict row"
  by (cases "is_dict row") (auto simp: row_name_def)

section \<open>Agreement with the aggregate gate\<close>

lemma float_or_0_finite: "finite_number v = Some x \<Longrightarrow> float_or_0 v = Inr (Fin x)"
  by (cases v rule: finite_number.cases) (auto simp: float_or_0_def)

lemma int_or_zero_whole: "whole_number v = Some i \<Longrightarrow> int_or_zero v = Inr i"
  by (cases v rule: whole_number.cases) (auto simp: int_or_zero_def trunc_def split: if_splits)

lemma optional_float_finite: "finite_number v = Some x \<Longrightarrow> optional_float v = Some (Fin x)"
  by (cases v rule: finite_number.cases) (auto simp: optional_float_def)

lemma whole_not_null: "whole_number v = Some i \<Longrightarrow> v \<noteq> JNull"
  by auto

lemma v4_checks_numbers:
  assumes "v4_checks_pass row"
  obtains n p s m where "wnum row ''regimes_tested'' = Some DISCOVERY_N_WINDOWS"
    "wnum row ''trades'' = Some n" "MIN_BACKTEST_TRADES \<le> n"
    "fnum row ''sharpe'' = Some s" "MIN_BACKTEST_SHARPE \<le> s"
    "fnum row ''test_pnl'' = Some p" "fnum row ''sma_stack_oos_pnl'' = Some m" "m < p"
  using assms
  by (auto simp: v4_checks_pass_def Let_def at_least_def at_least_int_def beats_def
      split: option.splits)

lemma checks_imply_gate:
  assumes "v4_checks_pass row"
  shows "\<exists>d. qualification_from_record DISCOVERY_N_WINDOWS row = Inr d \<and> dec_passed d"
  using assms
proof (cases rule: v4_checks_numbers)
  case (1 n p s m)
  then have "float_or_0 (jget row ''test_pnl'') = Inr (Fin p)"
    "int_or_zero (jget row ''trades'') = Inr n" "float_or_0 (jget row ''sharpe'') = Inr (Fin s)"
    "int_or_zero (jget row ''regimes_tested'') = Inr DISCOVERY_N_WINDOWS"
    "jget row ''regimes_tested'' \<noteq> JNull"
    "optional_float (jget row ''sma_stack_oos_pnl'') = Some (Fin m)"
    by (auto simp: fnum_def wnum_def float_or_0_finite int_or_zero_whole optional_float_finite
        dest: whole_not_null)
  with 1 show ?thesis
    by (simp add: qualification_from_record_def aggregate_fail_reasons_def Let_def)
qed

lemma qualification_cong:
  assumes "\<And>k. k \<in> {''test_pnl'', ''trades'', ''sharpe'', ''regimes_tested'', ''sma_stack_oos_pnl''} \<Longrightarrow>
       jget r k = jget row k"
    and "qualification_from_record n row = Inr d"
  shows "\<exists>d'. qualification_from_record n r = Inr d' \<and> dec_passed d' = dec_passed d"
  using assms(2) unfolding qualification_from_record_def
  by (auto simp: assms(1) bind_result_Inr Let_def)

lemma relabel_checks: "classify_row row = Relabel \<Longrightarrow> is_dict row \<and> v4_inputs_stored row \<and> v4_checks_pass row"
  by (auto simp: classify_row_def stored_v4_problem_def split: if_splits)

lemma stamped_passes_gate:
  assumes "classify_row row = Relabel" "stamp_row now row = Inr r"
  shows "\<exists>d. qualification_from_record DISCOVERY_N_WINDOWS r = Inr d \<and> dec_passed d"
proof -
  from relabel_checks [OF assms(1)] have d: "is_dict row" and c: "v4_checks_pass row" by auto
  from checks_imply_gate [OF c] obtain d0
    where d0: "qualification_from_record DISCOVERY_N_WINDOWS row = Inr d0" "dec_passed d0" by blast
  have "\<exists>d'. qualification_from_record DISCOVERY_N_WINDOWS r = Inr d' \<and> dec_passed d' = dec_passed d0"
    by (rule qualification_cong [OF _ d0(1)])
       (auto simp: stamp_row_fields [OF assms(2) d] jget_stamp_fields [OF d])
  with d0(2) show ?thesis by blast
qed

lemma stamped_attested:
  assumes "classify_row row = Relabel" "stamp_row now row = Inr r"
  shows "v4_attestation_ok r"
proof -
  from relabel_checks [OF assms(1)] have d: "is_dict row" and b: "is_dict (jget row ''gate_v4'')"
    by (auto simp: v4_inputs_stored_def Let_def)
  have "jget r ''gate_v4'' = stamp_block (jget row ''gate_v4'')"
    by (simp add: stamp_row_fields [OF assms(2) d] jget_stamp_fields [OF d] b)
  with b stamp_row_fields(1) [OF assms(2) d] show ?thesis
    by (simp add: v4_attestation_ok_def Let_def jget_stamp_block ATTESTATION_KEYS_def)
qed

lemma stamp_total: "classify_row row = Relabel \<Longrightarrow> \<exists>r. stamp_row now row = Inr r"
proof -
  assume rel: "classify_row row = Relabel"
  from relabel_checks [OF rel] have d: "is_dict row" and c: "v4_checks_pass row" by auto
  from checks_imply_gate [OF c] obtain d0
    where d0: "qualification_from_record DISCOVERY_N_WINDOWS row = Inr d0" "dec_passed d0" by blast
  have "\<exists>d'. qualification_from_record DISCOVERY_N_WINDOWS (stamp_fields now row) = Inr d' \<and>
      dec_passed d' = dec_passed d0"
    by (rule qualification_cong [OF _ d0(1)]) (auto simp: jget_stamp_fields [OF d])
  then show ?thesis by (auto simp: stamp_row_def)
qed

section \<open>A second apply changes nothing\<close>

lemma latest_rows_seen:
  "set A = set B \<union> set C \<Longrightarrow> latest_rows A xs = filter (\<lambda>(n, r). n \<notin> set C) (latest_rows B xs)"
proof (induction xs arbitrary: A B)
  case (Cons row xs)
  show ?case
  proof (cases "row_name row")
    case None
    with Cons show ?thesis by simp
  next
    case (Some n)
    have skip: "latest_rows A xs = filter (\<lambda>(n, r). n \<notin> set C) (latest_rows B xs)"
      using Cons.IH [of A B] Cons.prems by blast
    have B': "latest_rows A xs = filter (\<lambda>(n, r). n \<notin> set C) (latest_rows (n # B) xs)" if "n \<in> set C"
      using Cons.IH [of A "n # B"] Cons.prems that by auto
    have AB': "latest_rows (n # A) xs = filter (\<lambda>(n, r). n \<notin> set C) (latest_rows (n # B) xs)"
      using Cons.IH [of "n # A" "n # B"] Cons.prems by auto
    show ?thesis using Some skip B' AB' Cons.prems by auto
  qed
qed simp

lemma latest_rows_subset: "set (latest_rows A xs) \<subseteq> set (latest_rows [] xs)"
  using latest_rows_seen [of A "[]" A xs] by auto

lemma latest_rows_append:
  "latest_rows A (xs @ ys) = latest_rows A xs @ latest_rows (map fst (latest_rows A xs) @ A) ys"
proof (induction xs arbitrary: A)
  case (Cons row xs)
  have cong: "latest_rows (map fst (latest_rows (n # A) xs) @ n # A) ys =
      latest_rows (n # map fst (latest_rows (n # A) xs) @ A) ys" for n
    using latest_rows_seen [of "map fst (latest_rows (n # A) xs) @ n # A"
        "n # map fst (latest_rows (n # A) xs) @ A" "[]" ys] by auto
  from Cons cong show ?case by (auto split: option.splits)
qed simp

lemma latest_rows_name: "(n, r) \<in> set (latest_rows A xs) \<Longrightarrow> row_name r = Some n \<and> r \<in> set xs"
  by (induction A xs rule: latest_rows.induct) (auto split: option.splits if_splits)

lemma latest_rows_names: "fst ` set (latest_rows A xs) = {n. \<exists>r \<in> set xs. row_name r = Some n} - set A"
  by (induction A xs rule: latest_rows.induct) (auto split: option.splits)

definition stamped_pair :: "string \<Rightarrow> string list \<Rightarrow> string \<times> jv \<Rightarrow> string \<times> jv \<Rightarrow> bool" where
  "stamped_pair now rel p q \<longleftrightarrow>
     fst q = fst p \<and>
     (if fst p \<in> set rel then stamp_row now (snd p) = Inr (snd q) else snd q = snd p)"

lemma stamp_log_rows:
  assumes "stamp_log now rel A xs = Inr ys"
  shows "list_all2 (stamped_pair now rel) (latest_rows A xs) (latest_rows A ys)"
  using assms
proof (induction xs arbitrary: A ys)
  case (Cons row xs)
  show ?case
  proof (cases "row_name row")
    case None
    with Cons show ?thesis by (fastforce simp: bind_result_Inr)
  next
    case (Some n)
    from Cons.prems Some obtain r rs
      where r: "(if n \<in> set rel \<and> n \<notin> set A then stamp_row now row else Inr row) = Inr r"
        and rs: "stamp_log now rel (n # A) xs = Inr rs" and ys: "ys = r # rs"
      by (auto simp: bind_result_Inr)
    have name: "row_name r = Some n"
      using r Some stamped_name [of now row r] row_name_dict by (auto split: if_splits)
    have eq: "latest_rows (n # A) zs = latest_rows A zs" if "n \<in> set A" for zs
      using latest_rows_seen [of "n # A" A "[]" zs] that by (auto simp: insert_absorb)
    have "stamped_pair now rel (n, row) (n, r)" if "n \<notin> set A"
      using r that by (auto simp: stamped_pair_def split: if_splits)
    with Cons.IH [OF rs] show ?thesis using Some name ys eq by auto
  qed
qed simp

lemma stamp_log_classes:
  assumes "stamp_log now rel [] xs = Inr ys" "(n, r) \<in> set (latest_rows [] ys)"
  shows "(\<exists>r0. (n, r0) \<in> set (latest_rows [] xs) \<and> n \<in> set rel \<and> stamp_row now r0 = Inr r) \<or>
    (n, r) \<in> set (latest_rows [] xs) \<and> n \<notin> set rel"
proof -
  obtain i where i: "i < length (latest_rows [] ys)" "latest_rows [] ys ! i = (n, r)"
    using assms(2) by (auto simp: in_set_conv_nth)
  note l2 = stamp_log_rows [OF assms(1)]
  obtain n0 r0 where x: "latest_rows [] xs ! i = (n0, r0)" by fastforce
  have "i < length (latest_rows [] xs)" using l2 i(1) by (simp add: list_all2_lengthD)
  then have "(n0, r0) \<in> set (latest_rows [] xs)" using x nth_mem by metis
  moreover have "n = n0 \<and> (if n0 \<in> set rel then stamp_row now r0 = Inr r else r = r0)"
    using list_all2_nthD2 [OF l2 i(1)] unfolding i(2) x stamped_pair_def by (auto split: if_splits)
  ultimately show ?thesis by (auto split: if_splits)
qed

lemma stamp_log_keys:
  assumes "stamp_log now rel [] xs = Inr ys"
  shows "fst ` set (latest_rows [] ys) = fst ` set (latest_rows [] xs)"
proof -
  have "map fst (latest_rows [] xs) = map fst (latest_rows [] ys)"
    using stamp_log_rows [OF assms]
    by (auto simp: list_all2_conv_all_nth stamped_pair_def intro!: nth_equalityI)
  then show ?thesis by (metis list.set_map)
qed

lemma status_names_iff: "n \<in> set (status_names c d) \<longleftrightarrow> (\<exists>r. (n, r) \<in> set d \<and> classify_row r = c)"
  by (force simp: status_names_def)

lemma latest_cases:
  "(n, r) \<in> set (latest rows results) \<longleftrightarrow>
     (n, r) \<in> set (latest_rows [] rows) \<or>
     (n, r) \<in> set results \<and> n \<notin> fst ` set (latest_rows [] rows) \<and> is_dict r"
  by (auto simp: latest_def Let_def map_of_eq_None_iff)

text \<open>The results store is a dict keyed by the strategy name of each row.\<close>

definition results_keyed :: "jv dict \<Rightarrow> bool" where
  "results_keyed results \<longleftrightarrow> dict_ok results \<and> (\<forall>(n, r) \<in> set results. row_name r = Some n)"

lemma rescore_apply_cases:
  assumes "rescore_apply now rows results = Inr (rows', changed)"
  obtains (same) "status_names Relabel (latest rows results) = []" "rows' = rows" "\<not> changed"
    | (wrote) prep rs where "changed" "rows' = prep @ rs"
        "map_results (\<lambda>n. stamp_row now (the (dget (latest rows results) n)))
           (filter (\<lambda>n. n \<notin> set (dkeys (latest_rows [] rows))) (status_names Relabel (latest rows results)))
           = Inr prep"
        "stamp_log now (status_names Relabel (latest rows results)) [] rows = Inr rs"
  using assms by (cases "status_names Relabel (latest rows results) = []")
    (auto simp: rescore_apply_def Let_def bind_result_Inr)

lemma latest_rows_distinct: "distinct (map fst (latest_rows A xs))"
  by (induction A xs rule: latest_rows.induct)
     (force dest: latest_rows_names [THEN equalityD1, THEN subsetD] simp: latest_rows_names
       split: option.splits)+

lemma latest_ok: "results_keyed results \<Longrightarrow> dict_ok (latest rows results)"
  using latest_rows_distinct [of "[]" rows]
  by (auto simp: latest_def Let_def results_keyed_def map_of_eq_None_iff distinct_map_filter) force

lemma prep_rows:
  assumes keyed: "results_keyed results"
    and prep: "map_results (\<lambda>n. stamp_row now (the (dget (latest rows results) n)))
           (filter (\<lambda>n. n \<notin> set (dkeys (latest_rows [] rows))) (status_names Relabel (latest rows results)))
           = Inr prep"
  shows "r \<in> set prep \<Longrightarrow> classify_row r = AlreadyRescored"
    and "{n. \<exists>r \<in> set prep. row_name r = Some n} =
      set (status_names Relabel (latest rows results)) - fst ` set (latest_rows [] rows)"
proof -
  let ?rel = "status_names Relabel (latest rows results)"
  have row: "\<exists>r0. dget (latest rows results) n = Some r0 \<and> is_dict r0 \<and> row_name r0 = Some n"
    if "n \<in> set ?rel" for n
  proof -
    from that obtain r0 where "(n, r0) \<in> set (latest rows results)" "classify_row r0 = Relabel"
      by (auto simp: status_names_iff)
    then show ?thesis
      using in_set_dget [OF latest_ok [OF keyed], of n r0 rows] relabel_checks [of r0]
        latest_cases [of n r0 rows results] latest_rows_name [of n r0 "[]" rows] keyed
      by (auto simp: results_keyed_def)
  qed
  from prep have l2: "list_all2 (\<lambda>n r. stamp_row now (the (dget (latest rows results) n)) = Inr r)
      (filter (\<lambda>n. n \<notin> set (dkeys (latest_rows [] rows))) ?rel) prep"
    by (simp add: map_results_Inr)
  have one: "r \<in> set prep \<Longrightarrow> \<exists>n \<in> set ?rel - fst ` set (latest_rows [] rows).
      classify_row r = AlreadyRescored \<and> row_name r = Some n" for r
  proof -
    assume "r \<in> set prep"
    with l2 obtain n where n: "n \<in> set ?rel" "n \<notin> fst ` set (latest_rows [] rows)"
        "stamp_row now (the (dget (latest rows results) n)) = Inr r"
      using list_all2_in2 [OF l2] by fastforce
    from row [OF n(1)] obtain r0 where "dget (latest rows results) n = Some r0" "is_dict r0" "row_name r0 = Some n"
      by blast
    with n stamped_rescored [of now r0 r] stamped_name [of now r0 r] show ?thesis by auto
  qed
  show "r \<in> set prep \<Longrightarrow> classify_row r = AlreadyRescored" using one by blast
  have two: "\<exists>r \<in> set prep. row_name r = Some n"
    if "n \<in> set ?rel - fst ` set (latest_rows [] rows)" for n
  proof -
    from that obtain r where "r \<in> set prep" "stamp_row now (the (dget (latest rows results) n)) = Inr r"
      using list_all2_in1 [OF l2, of n] by auto
    with row [of n] that stamped_name [of now _ r] show ?thesis by fastforce
  qed
  show "{n. \<exists>r \<in> set prep. row_name r = Some n} = set ?rel - fst ` set (latest_rows [] rows)"
  proof (intro set_eqI iffI)
    fix n assume "n \<in> {n. \<exists>r \<in> set prep. row_name r = Some n}"
    then obtain r where r: "r \<in> set prep" "row_name r = Some n" by blast
    from one [OF r(1)] obtain n' where "n' \<in> set ?rel - fst ` set (latest_rows [] rows)" "row_name r = Some n'"
      by blast
    with r(2) show "n \<in> set ?rel - fst ` set (latest_rows [] rows)" by simp
  next
    fix n assume "n \<in> set ?rel - fst ` set (latest_rows [] rows)"
    from two [OF this] show "n \<in> {n. \<exists>r \<in> set prep. row_name r = Some n}" by blast
  qed
qed

lemma rescore_leaves_none:
  assumes keyed: "results_keyed results" and ap: "rescore_apply now rows results = Inr (rows', changed)"
  shows "status_names Relabel (latest rows' results) = []"
  using ap
proof (cases rule: rescore_apply_cases)
  case (wrote prep rs)
  let ?rel = "status_names Relabel (latest rows results)"
  have "classify_row r \<noteq> Relabel" if nr: "(n, r) \<in> set (latest rows' results)" for n r
  proof (cases "(n, r) \<in> set (latest_rows [] rows')")
    case True
    then consider "r \<in> set prep" | "(n, r) \<in> set (latest_rows [] rs)"
      using latest_rows_name [of n r "[]" prep] latest_rows_subset [of _ rs]
      by (auto simp: wrote(2) latest_rows_append)
    then show ?thesis
    proof cases
      case 1
      then show ?thesis using prep_rows(1) [OF keyed wrote(3)] by simp
    next
      case 2
      from stamp_log_classes [OF wrote(4) 2] show ?thesis
      proof
        assume "\<exists>r0. (n, r0) \<in> set (latest_rows [] rows) \<and> n \<in> set ?rel \<and> stamp_row now r0 = Inr r"
        then show ?thesis using stamped_rescored latest_rows_name row_name_dict by fastforce
      next
        assume "(n, r) \<in> set (latest_rows [] rows) \<and> n \<notin> set ?rel"
        then show ?thesis by (auto simp: status_names_iff latest_cases)
      qed
    qed
  next
    case False
    with nr have res: "(n, r) \<in> set results" "n \<notin> fst ` set (latest_rows [] rows')" "is_dict r"
      by (auto simp: latest_cases)
    have "fst ` set (latest_rows [] rows') =
        (set ?rel - fst ` set (latest_rows [] rows)) \<union> fst ` set (latest_rows [] rows)"
    proof -
      have "fst ` set (latest_rows [] rows') =
          {n. \<exists>r \<in> set prep. row_name r = Some n} \<union> fst ` set (latest_rows [] rs)"
        by (auto simp: wrote(2) latest_rows_names)
      with prep_rows(2) [OF keyed wrote(3)] stamp_log_keys [OF wrote(4)] show ?thesis by simp
    qed
    with res(2) have "n \<notin> set ?rel" "n \<notin> fst ` set (latest_rows [] rows)" by auto
    with res show ?thesis by (auto simp: status_names_iff latest_cases)
  qed
  then show ?thesis by (metis status_names_iff ex_in_conv set_empty2)
qed simp

end
