(* ===== verification/Guard.thy ===== *)
theory Guard
  imports RescoreFacts
begin

text \<open>
  The farm guards of \<open>trading/discovery_guard.py\<close> (structure lookbacks, ops parks), the
  farm flag of \<open>trading/farm.py\<close> and the mode switches of \<open>trading/discovery_mode.py\<close>.
\<close>

section \<open>Structure lookbacks\<close>

definition structure_prefixes :: "string list" where
  "structure_prefixes =
     [''don_hi_'', ''don_lo_'', ''near_swing_hi_'', ''near_swing_lo_'', ''dbl_bot_'', ''dbl_top_'']"

text \<open>\<open>^(don_hi|...|dbl_top)_(\d+)$\<close> on a stripped atom\<close>

definition match_structure :: "string \<Rightarrow> (string \<times> nat) option" where
  "match_structure atom =
     map_option (\<lambda>p. (butlast p, digits_value (drop (length p) atom)))
       (List.find (\<lambda>p. is_prefix p atom \<and> all_digits (drop (length p) atom)) structure_prefixes)"

definition structure_lookbacks :: "string \<Rightarrow> (string \<times> nat) list" where
  "structure_lookbacks name =
     (if name = [] then [] else List.map_filter (match_structure \<circ> strip) (split_at (CHR ''&'') name))"

definition max_structure_lookback :: "string \<Rightarrow> nat option" where
  "max_structure_lookback name =
     (let ns = map snd (structure_lookbacks name) in if ns = [] then None else Some (foldr max ns 0))"

definition structure_lookback_max :: "env_value \<Rightarrow> int" where
  "structure_lookback_max ev = env_int ev 96"

definition lookback_too_expensive_reason :: "env_value \<Rightarrow> string \<Rightarrow> int option \<Rightarrow> string option" where
  "lookback_too_expensive_reason ev name cap =
     (let limit = (case cap of None \<Rightarrow> structure_lookback_max ev | Some c \<Rightarrow> c) in
      if limit \<le> 0 then None
      else case max_structure_lookback name of
          None \<Rightarrow> None
        | Some worst \<Rightarrow>
            if int worst \<le> limit then None
            else Some (''lookback_too_expensive '' @ show_nat worst @ ''>'' @ show_int limit))"

definition eval_timeout_reason :: "int \<Rightarrow> string" where
  "eval_timeout_reason s = ''eval_timeout after '' @ show_int s @ ''s''"

text \<open>No other JSON value prints with one of the two prefixes.\<close>

definition is_ops_park_reason :: "jv \<Rightarrow> bool" where
  "is_ops_park_reason reason =
     (case as_str reason of
        None \<Rightarrow> False
      | Some s \<Rightarrow> is_prefix ''lookback_too_expensive'' s \<or> is_prefix ''eval_timeout'' s)"

definition is_ops_park_record :: "jv \<Rightarrow> bool" where
  "is_ops_park_record row \<longleftrightarrow>
     truthy (jget row ''ops_park'') \<or> list_ex is_ops_park_reason (fail_reasons_of row)"

text \<open>\<open>tested_at\<close> is printed with the full precision of the clock.\<close>

definition ops_fail_record :: "int \<Rightarrow> string \<Rightarrow> string \<Rightarrow> jv" where
  "ops_fail_record now name reason =
     JObj [(''strategy'', JStr name), (''tested_at'', JTime now), (''timeframe'', JStr ''5m''),
       (''risk_policy'', JStr ''rm_v1''), (''train_pnl'', JFloat (Fin 0)), (''test_pnl'', JFloat (Fin 0)),
       (''sharpe'', JFloat (Fin 0)), (''win_rate_pct'', JFloat (Fin 0)), (''trades'', JInt 0),
       (''regimes_tested'', JInt 0), (''qualified'', JBool False), (''bh_oos_pnl'', JNull),
       (''sma_stack_oos_pnl'', JNull), (''fail_reasons'', JList [JStr reason]),
       (''all_windows_nonneg'', JBool False), (''ops_park'', JBool True), (''gate_rules'', JStr GATE_RULES)]"

section \<open>The farm flag\<close>

record farm =
  fm_enabled :: bool
  fm_updated_at :: jv
  fm_heartbeat_at :: jv
  fm_heartbeat_status :: jv
  fm_source :: jv

definition default_farm :: farm where
  "default_farm = \<lparr>fm_enabled = True, fm_updated_at = JNull, fm_heartbeat_at = JNull,
     fm_heartbeat_status = JNull, fm_source = JStr ''windows_worker''\<rparr>"

definition get_or :: "jv \<Rightarrow> string \<Rightarrow> jv \<Rightarrow> jv" where
  "get_or d k x = (if jhas d k then jget d k else x)"

definition read_farm :: "jv option \<Rightarrow> farm" where
  "read_farm f =
     (case f of
        None \<Rightarrow> default_farm
      | Some d \<Rightarrow>
          if \<not> is_dict d then default_farm
          else \<lparr>fm_enabled = (if jhas d ''enabled'' then truthy (jget d ''enabled'') else True),
                fm_updated_at = get_or d ''updated_at'' JNull,
                fm_heartbeat_at = get_or d ''heartbeat_at'' JNull,
                fm_heartbeat_status = get_or d ''heartbeat_status'' JNull,
                fm_source = get_or d ''source'' (JStr ''windows_worker'')\<rparr>)"

definition write_farm :: "farm \<Rightarrow> jv" where
  "write_farm fm =
     JObj [(''enabled'', JBool (fm_enabled fm)), (''updated_at'', fm_updated_at fm),
       (''heartbeat_at'', fm_heartbeat_at fm), (''heartbeat_status'', fm_heartbeat_status fm),
       (''source'', if truthy (fm_source fm) then fm_source fm else JStr ''windows_worker''),
       (''paper_only'', JBool True)]"

definition set_farm_enabled :: "bool \<Rightarrow> int \<Rightarrow> jv option \<Rightarrow> jv" where
  "set_farm_enabled b now f =
     write_farm ((read_farm f)\<lparr>fm_enabled := b, fm_updated_at := iso now\<rparr>)"

definition apply_heartbeat :: "string option \<Rightarrow> int \<Rightarrow> jv option \<Rightarrow> jv" where
  "apply_heartbeat status now f =
     (let fm = (read_farm f)\<lparr>fm_heartbeat_at := iso now\<rparr>
      in write_farm (case status of
           None \<Rightarrow> fm
         | Some s \<Rightarrow> if s = [] then fm else fm\<lparr>fm_heartbeat_status := JStr s\<rparr>))"

datatype farm_status = Running | Paused | WorkerIdle | WorkerUnseen

definition farm_seen :: "jv option \<Rightarrow> int \<Rightarrow> bool" where
  "farm_seen f now \<longleftrightarrow>
     (case parse_tested_at (fm_heartbeat_at (read_farm f)) of
        None \<Rightarrow> False | Some t \<Rightarrow> now - t \<le> sec 900)"

definition farm_status_block :: "jv option \<Rightarrow> bool \<Rightarrow> int \<Rightarrow> farm_status \<times> bool" where
  "farm_status_block f in_flight now =
     (if \<not> fm_enabled (read_farm f) then Paused
      else if \<not> farm_seen f now then WorkerUnseen
      else if in_flight then Running
      else WorkerIdle, farm_seen f now)"

definition farm_enabled_from_summary :: "jv \<Rightarrow> bool \<Rightarrow> bool" where
  "farm_enabled_from_summary summary last_known =
     (let fm = jget summary ''farm'' in
      if \<not> is_dict summary then last_known
      else if \<not> is_dict fm \<or> \<not> jhas fm ''enabled'' then last_known
      else truthy (jget fm ''enabled''))"

lemma read_write_farm:
  "read_farm (Some (write_farm fm)) = fm\<lparr>fm_source := (if truthy (fm_source fm) then fm_source fm else JStr ''windows_worker'')\<rparr>"
  by (cases fm) (simp add: read_farm_def write_farm_def get_or_def jhas_def)

section \<open>Modes\<close>

text \<open>Environment texts, \<open>None\<close> when unset.\<close>

definition env_word :: "string option \<Rightarrow> string" where
  "env_word v = lower (strip (case v of None \<Rightarrow> [] | Some s \<Rightarrow> s))"

definition library_mode :: "string option \<Rightarrow> bool" where
  "library_mode src \<longleftrightarrow> env_word src \<noteq> ''random''"

definition true_words :: "string list" where "true_words = [''1'', ''true'', ''yes'', ''on'']"
definition false_words :: "string list" where "false_words = [''0'', ''false'', ''no'', ''off'']"

definition discovery_on_cycle :: "string option \<Rightarrow> string option \<Rightarrow> bool" where
  "discovery_on_cycle cyc md =
     (if env_word cyc \<in> set true_words then True
      else if env_word cyc \<in> set false_words then False
      else env_word md \<in> set true_words)"

definition ingest_token :: "string option \<Rightarrow> string option" where
  "ingest_token v =
     (let t = strip (case v of None \<Rightarrow> [] | Some s \<Rightarrow> s) in if t = [] then None else Some t)"

text \<open>\<open>hmac.compare_digest\<close> is equality of the encoded texts.\<close>

definition tokens_match :: "string \<Rightarrow> string \<Rightarrow> bool" where
  "tokens_match got expected \<longleftrightarrow>
     got \<noteq> [] \<and> expected \<noteq> [] \<and> length got = length expected \<and> got = expected"

end
