(* ===== verification/TestedIndex.thy ===== *)
theory TestedIndex
  imports Guard
begin

text \<open>
  The durable tested-name index of \<open>trading/tested_index.py\<close>: a base document with a
  generation id, a journal of overlay lines that names the generation it extends, and the
  merged view both give. A file is \<open>None\<close> when missing. The in-process caches are keyed by
  the files and are not modelled.
\<close>

section \<open>Metrics\<close>

text \<open>A metric dict; a missing key is \<open>None\<close> (\<open>False\<close> for \<open>ops_park\<close>).\<close>

record metric =
  mt_sharpe :: "pyfloat option"
  mt_trades :: "int option"
  mt_ops :: bool

definition some_metric :: "metric \<Rightarrow> metric option" where
  "some_metric m = (if mt_sharpe m = None \<and> mt_trades m = None \<and> \<not> mt_ops m then None else Some m)"

definition metric_from_row :: "jv \<Rightarrow> metric option" where
  "metric_from_row row =
     some_metric \<lparr>mt_sharpe = map_option Fin (finite_number (jget row ''sharpe'')),
       mt_trades = map_option trunc (finite_number (jget row ''trades'')),
       mt_ops = is_ops_park_record row\<rparr>"

definition clean_metric :: "jv \<Rightarrow> metric option" where
  "clean_metric raw =
     (if \<not> is_dict raw then None
      else some_metric \<lparr>mt_sharpe = map_option Fin (finite_number (jget raw ''sharpe'')),
             mt_trades = map_option trunc (finite_number (jget raw ''trades'')),
             mt_ops = truthy (jget raw ''ops_park'')\<rparr>)"

definition metric_json :: "metric \<Rightarrow> (string \<times> jv) list" where
  "metric_json m =
     (case mt_sharpe m of None \<Rightarrow> [] | Some x \<Rightarrow> [(''sharpe'', JFloat x)]) @
     (case mt_trades m of None \<Rightarrow> [] | Some i \<Rightarrow> [(''trades'', JInt i)]) @
     (if mt_ops m then [(''ops_park'', JBool True)] else [])"

section \<open>Files\<close>

text \<open>
  \<open>JLine v\<close> is a line that parses, \<open>JBad\<close> one that does not. \<open>jn_partial\<close> is the text after the
  last newline, left by a crash during a write.
\<close>

datatype jline = JLine jv | JBad | JBlank

record journal =
  jn_lines :: "jline list"
  jn_partial :: "jline option"

record tested_files =
  tf_base :: "jv option"
  tf_journal :: "journal option"

definition base_doc :: "tested_files \<Rightarrow> jv" where
  "base_doc tf = (case tf_base tf of None \<Rightarrow> JObj [] | Some d \<Rightarrow> dict_or_empty d)"

definition base_gen :: "jv \<Rightarrow> string option" where
  "base_gen d = as_str (jget d ''jgen'')"

definition is_header :: "jv \<Rightarrow> bool" where
  "is_header row \<longleftrightarrow> is_dict row \<and> jhas row ''jgen'' \<and> \<not> jhas row ''name''"

definition is_entry :: "jv \<Rightarrow> bool" where
  "is_entry row \<longleftrightarrow> is_dict row \<and> (case as_str (jget row ''name'') of None \<Rightarrow> False | Some n \<Rightarrow> n \<noteq> [])"

definition line_value :: "jline \<Rightarrow> jv option" where
  "line_value l = (case l of JLine v \<Rightarrow> Some v | _ \<Rightarrow> None)"

definition entries_of :: "jline list \<Rightarrow> jv list" where
  "entries_of ls = filter is_entry (List.map_filter line_value ls)"

text \<open>
  The generation the journal extends and its rows: leading blank lines are skipped; a header
  counts only as the first line that is not blank.
\<close>

fun split_journal :: "jline list \<Rightarrow> string option \<times> jv list" where
  "split_journal [] = (None, [])"
| "split_journal (JBlank # ls) = split_journal ls"
| "split_journal (JBad # ls) = (None, entries_of ls)"
| "split_journal (JLine v # ls) =
     (if is_header v then (as_str (jget v ''jgen''), entries_of ls)
      else (None, entries_of (JLine v # ls)))"

definition read_journal_lines :: "string option \<Rightarrow> journal option \<Rightarrow> jv list" where
  "read_journal_lines gen j =
     (case j of
        None \<Rightarrow> []
      | Some jn \<Rightarrow>
          (let (g, rows) = split_journal (jn_lines jn) in if g = gen then rows else []))"

text \<open>\<open>_journal_gen\<close>: header and generation of the first complete line.\<close>

definition journal_gen :: "journal \<Rightarrow> bool \<times> string option" where
  "journal_gen jn =
     (case jn_lines jn of
        JLine v # ls \<Rightarrow> if is_header v then (True, as_str (jget v ''jgen'')) else (False, None)
      | _ \<Rightarrow> (False, None))"

section \<open>The merged view\<close>

type_synonym tested_view = "bool dict \<times> metric dict"

definition flags_from_document :: "jv \<Rightarrow> bool dict" where
  "flags_from_document d =
     map (\<lambda>(n, v). (n, truthy v)) (filter (\<lambda>(n, v). n \<noteq> []) (as_dict (jget d ''names'')))"

definition metrics_from_document :: "jv \<Rightarrow> metric dict" where
  "metrics_from_document d =
     List.map_filter (\<lambda>(n, v). if n = [] then None else map_option (Pair n) (clean_metric v))
       (sort_key fst (as_dict (jget d ''metrics'')))"

text \<open>A number that is not a bool; what the writer stores is finite.\<close>

fun line_number :: "jv \<Rightarrow> pyfloat option" where
  "line_number (JInt i) = Some (Fin (of_int i))"
| "line_number (JFloat x) = Some x"
| "line_number _ = None"

definition line_trades :: "jv \<Rightarrow> int option" where
  "line_trades v = map_option trunc (finite_number v)"

definition line_metric :: "jv \<Rightarrow> metric option" where
  "line_metric line =
     some_metric \<lparr>mt_sharpe = line_number (jget line ''sharpe''), mt_trades = line_trades (jget line ''trades''),
       mt_ops = truthy (jget line ''ops_park'')\<rparr>"

definition apply_journal_line :: "jv \<Rightarrow> tested_view \<Rightarrow> tested_view" where
  "apply_journal_line line view =
     (case as_str (jget line ''name'') of
        None \<Rightarrow> view
      | Some n \<Rightarrow>
          if n = [] then view
          else
            (if jhas line ''q'' then dset n (truthy (jget line ''q'')) (fst view) else fst view,
             case line_metric line of
               Some m \<Rightarrow> dset n m (snd view)
             | None \<Rightarrow> if truthy (jget line ''m0'') then ddel n (snd view) else snd view))"

definition apply_lines :: "jv list \<Rightarrow> tested_view \<Rightarrow> tested_view" where
  "apply_lines ls view = fold apply_journal_line ls view"

definition derived_now :: "tested_files \<Rightarrow> tested_view" where
  "derived_now tf =
     (let d = base_doc tf
      in apply_lines (read_journal_lines (base_gen d) (tf_journal tf))
           (flags_from_document d, metrics_from_document d))"

definition tested_name_set :: "tested_files \<Rightarrow> string list" where
  "tested_name_set tf = dkeys (fst (derived_now tf))"

section \<open>Writing\<close>

definition journal_line :: "string \<Rightarrow> bool \<Rightarrow> metric option \<Rightarrow> bool \<Rightarrow> jv" where
  "journal_line name qualified metric drop_metric =
     JObj ([(''name'', JStr name), (''q'', JInt (if qualified then 1 else 0))] @
       (if drop_metric \<and> metric = None then [(''m0'', JInt 1)] else []) @
       (case metric of None \<Rightarrow> [] | Some m \<Rightarrow> metric_json m))"

definition header_line :: "string option \<Rightarrow> jv" where
  "header_line gen = JObj [(''jgen'', case gen of None \<Rightarrow> JNull | Some g \<Rightarrow> JStr g)]"

text \<open>
  \<open>_append_journal_lines\<close>: start a fresh journal when the one on disk extends another base,
  write a header into an empty one, and close a partial last line left by a crash.
  \<open>_peek_base_gen\<close> reads the generation the base document starts with.
\<close>

definition journal_empty :: "journal \<Rightarrow> bool" where
  "journal_empty jn \<longleftrightarrow> jn_lines jn = [] \<and> jn_partial jn = None"

definition append_to_journal :: "string option \<Rightarrow> jv list \<Rightarrow> journal option \<Rightarrow> journal" where
  "append_to_journal gen lines j =
     (let jn = (case j of None \<Rightarrow> \<lparr>jn_lines = [], jn_partial = None\<rparr> | Some jn \<Rightarrow> jn);
          (has_header, g) = journal_gen jn;
          fresh = \<lparr>jn_lines = map JLine (header_line gen # lines), jn_partial = None\<rparr>
      in if \<not> journal_empty jn \<and> (g \<noteq> gen \<or> (gen \<noteq> None \<and> \<not> has_header)) then fresh
         else if journal_empty jn then fresh
         else \<lparr>jn_lines = jn_lines jn @ (case jn_partial jn of None \<Rightarrow> [] | Some l \<Rightarrow> [l]) @ map JLine lines,
               jn_partial = None\<rparr>)"

definition append_journal_lines :: "jv list \<Rightarrow> tested_files \<Rightarrow> tested_files" where
  "append_journal_lines lines tf =
     (if lines = [] then tf
      else tf\<lparr>tf_journal := Some (append_to_journal (base_gen (base_doc tf)) lines (tf_journal tf))\<rparr>)"

definition append_tested_overlay :: "string \<Rightarrow> bool \<Rightarrow> metric option \<Rightarrow> tested_files \<Rightarrow> tested_files" where
  "append_tested_overlay name qualified metric tf =
     (if name = [] then tf
      else
        let (flags, metrics) = derived_now tf in
        if dget flags name = Some qualified \<and> (metric = None \<or> dget metrics name = metric) then tf
        else append_journal_lines [journal_line name qualified metric False] tf)"

text \<open>\<open>tested_index_document\<close> with the generation \<open>write_tested_document\<close> puts first.\<close>

definition tested_index_document :: "string \<Rightarrow> bool dict \<Rightarrow> metric dict \<Rightarrow> jv" where
  "tested_index_document gen index metrics =
     JObj [(''jgen'', JStr gen), (''v'', JInt 1), (''paper_only'', JBool True),
       (''names'', JObj (map (\<lambda>(n, q). (n, JInt (if q then 1 else 0))) (sort_key fst index))),
       (''metrics'', JObj (map (\<lambda>(n, m). (n, JObj (metric_json m))) metrics))]"

text \<open>\<open>_replace_tested_base\<close>: install the base, then drop the journal. The state between the two is \<open>write_base\<close>.\<close>

definition write_base :: "string \<Rightarrow> bool dict \<Rightarrow> metric dict \<Rightarrow> tested_files \<Rightarrow> tested_files" where
  "write_base gen index metrics tf = tf\<lparr>tf_base := Some (tested_index_document gen index metrics)\<rparr>"

definition replace_tested_base :: "string \<Rightarrow> bool dict \<Rightarrow> metric dict \<Rightarrow> tested_files \<Rightarrow> tested_files" where
  "replace_tested_base gen index metrics tf = (write_base gen index metrics tf)\<lparr>tf_journal := None\<rparr>"

definition changed_lines :: "bool dict \<Rightarrow> metric dict \<Rightarrow> tested_view \<Rightarrow> jv list" where
  "changed_lines index metrics view =
     List.map_filter
       (\<lambda>(n, q).
          if dget (fst view) n = Some q \<and> dget (snd view) n = dget metrics n then None
          else Some (journal_line n q (dget metrics n) (dget (snd view) n \<noteq> None)))
       index"

text \<open>
  \<open>save_tested_index\<close> with cleaned metrics; \<open>None\<close> keeps the stored ones. \<open>gen\<close> is the fresh
  generation id drawn when the base is rewritten; \<open>64\<close> is \<open>_JOURNAL_REPLACE_MIN\<close>.
\<close>

definition sorted_metrics :: "metric dict \<Rightarrow> metric dict" where
  "sorted_metrics metrics = sort_key fst (filter (\<lambda>(n, m). n \<noteq> []) metrics)"

definition save_tested_index ::
    "string \<Rightarrow> bool dict \<Rightarrow> metric dict option \<Rightarrow> tested_files \<Rightarrow> tested_files" where
  "save_tested_index gen index metrics tf =
     (let view = derived_now tf;
          ms = sorted_metrics (case metrics of None \<Rightarrow> snd view | Some m \<Rightarrow> m);
          lines = changed_lines index ms view
      in if set (dkeys index) \<noteq> set (dkeys (fst view)) then replace_tested_base gen index ms tf
         else if lines = [] then tf
         else if length lines > 64 then replace_tested_base gen index ms tf
         else append_journal_lines lines tf)"

section \<open>Merging the display log\<close>

fun merge_tested_rows :: "string list \<Rightarrow> bool dict \<Rightarrow> jv list \<Rightarrow> bool dict \<times> bool" where
  "merge_tested_rows seen index [] = (index, False)"
| "merge_tested_rows seen index (row # rows) =
     (case row_name row of
        None \<Rightarrow> merge_tested_rows seen index rows
      | Some n \<Rightarrow>
          if n \<in> set seen then merge_tested_rows seen index rows
          else
            let qual = truthy (jget row ''qualified'');
                new = dget index n \<noteq> Some qual;
                (index', changed) = merge_tested_rows (n # seen) (if new then dset n qual index else index) rows
            in (index', new \<or> changed))"

fun merge_tested_metrics :: "string list \<Rightarrow> metric dict \<Rightarrow> jv list \<Rightarrow> metric dict \<times> bool" where
  "merge_tested_metrics seen metrics [] = (metrics, False)"
| "merge_tested_metrics seen metrics (row # rows) =
     (case row_name row of
        None \<Rightarrow> merge_tested_metrics seen metrics rows
      | Some n \<Rightarrow>
          if n \<in> set seen then merge_tested_metrics seen metrics rows
          else
            case metric_from_row row of
              None \<Rightarrow> merge_tested_metrics (n # seen) metrics rows
            | Some m \<Rightarrow>
                let new = dget metrics n \<noteq> Some m;
                    (metrics', changed) =
                      merge_tested_metrics (n # seen) (if new then dset n m metrics else metrics) rows
                in (metrics', new \<or> changed))"

text \<open>
  The early return is left out: the code leaves a state directory alone in which neither the base document nor the base
  array of the log exists, also when there is a journal or a delta file; here their rows are merged.
\<close>

definition ensure_tested_index :: "string \<Rightarrow> jv list \<Rightarrow> tested_files \<Rightarrow> tested_files" where
  "ensure_tested_index gen rows tf =
     (let (index, metrics) = derived_now tf;
          (index', c1) = merge_tested_rows [] index rows;
          (metrics', c2) = merge_tested_metrics [] metrics rows
      in if c1 \<or> c2 then save_tested_index gen index' (Some metrics') tf else tf)"

definition flags_for_skip :: "jv list \<Rightarrow> tested_files \<Rightarrow> bool dict" where
  "flags_for_skip rows tf = fst (merge_tested_rows [] (fst (derived_now tf)) rows)"

end
