(* ===== verification/TestedIndexFacts.thy ===== *)
theory TestedIndexFacts
  imports TestedIndex
begin

text \<open>
  The tested-name index against its specification, a map from names to a flag and a
  metric: saving stores exactly the given maps whichever path it takes, a crash between
  the two steps of a base rewrite is harmless, and merging the log never forgets a name.
\<close>

section \<open>One journal line\<close>

definition metric_ok :: "metric \<Rightarrow> bool" where
  "metric_ok m \<longleftrightarrow> some_metric m = Some m \<and> (case mt_sharpe m of None \<Rightarrow> True | Some x \<Rightarrow> is_finite x)"

lemma finite_cases: "is_finite x \<Longrightarrow> \<exists>a. x = Fin a"
  by (cases x) auto

lemma trunc_int [simp]: "trunc (of_int i) = i"
  by (simp add: trunc_def)

lemma dget_metric_json:
  "dget (metric_json m) k =
     (if k = ''sharpe'' then map_option JFloat (mt_sharpe m)
      else if k = ''trades'' then map_option JInt (mt_trades m)
      else if k = ''ops_park'' \<and> mt_ops m then Some (JBool True) else None)"
  by (auto simp: metric_json_def split: option.splits)

lemma jget_journal_line:
  assumes "k \<in> {''sharpe'', ''trades'', ''ops_park''}"
  shows "jget (journal_line n q m d) k =
    (case m of None \<Rightarrow> JNull | Some x \<Rightarrow> (case dget (metric_json x) k of None \<Rightarrow> JNull | Some v \<Rightarrow> v))"
  using assms by (auto simp: journal_line_def map_add_def split: option.splits)

lemma line_metric_journal_line:
  assumes "case m of None \<Rightarrow> True | Some x \<Rightarrow> metric_ok x"
  shows "line_metric (journal_line n q m d) = m"
proof (cases m)
  case None
  then show ?thesis
    by (simp add: line_metric_def jget_journal_line line_trades_def some_metric_def)
next
  case (Some x)
  with assms have x: "some_metric x = Some x" "case mt_sharpe x of None \<Rightarrow> True | Some y \<Rightarrow> is_finite y"
    by (auto simp: metric_ok_def)
  have "line_number (jget (journal_line n q m d) ''sharpe'') = mt_sharpe x"
    by (simp add: jget_journal_line Some dget_metric_json split: option.splits)
  moreover have "line_trades (jget (journal_line n q m d) ''trades'') = mt_trades x"
    by (simp add: jget_journal_line Some dget_metric_json line_trades_def split: option.splits)
  moreover have "truthy (jget (journal_line n q m d) ''ops_park'') = mt_ops x"
    by (simp add: jget_journal_line Some dget_metric_json)
  ultimately show ?thesis using x(1) Some by (cases x) (simp add: line_metric_def)
qed

lemma jget_journal_line_name:
  "jget (journal_line n q m d) ''name'' = JStr n" "jhas (journal_line n q m d) ''q''"
  "truthy (jget (journal_line n q m d) ''q'') = q"
  by (simp_all add: journal_line_def jhas_def)

lemma jget_journal_line_m0: "m = None \<Longrightarrow> truthy (jget (journal_line n q m d) ''m0'') = d"
  by (simp add: journal_line_def)

lemma apply_journal_line_written:
  assumes "n \<noteq> []" "case m of None \<Rightarrow> True | Some x \<Rightarrow> metric_ok x"
  shows "apply_journal_line (journal_line n q m d) view =
    (dset n q (fst view),
     case m of Some x \<Rightarrow> dset n x (snd view) | None \<Rightarrow> if d then ddel n (snd view) else snd view)"
  using assms
  by (auto simp: apply_journal_line_def jget_journal_line_name line_metric_journal_line jget_journal_line_m0
      split: option.splits)

lemma is_entry_written: "n \<noteq> [] \<Longrightarrow> is_entry (journal_line n q m d)"
proof -
  assume "n \<noteq> []"
  moreover have "is_dict (journal_line n q m d)" by (simp add: journal_line_def)
  ultimately show ?thesis by (simp add: is_entry_def jget_journal_line_name)
qed

section \<open>Applying the changed lines\<close>

definition index_ok :: "bool dict \<Rightarrow> metric dict \<Rightarrow> bool" where
  "index_ok index metrics \<longleftrightarrow>
     dict_ok index \<and> [] \<notin> set (dkeys index) \<and> dict_ok metrics \<and>
     (\<forall>(n, m) \<in> set metrics. metric_ok m \<and> n \<in> set (dkeys index))"

lemma index_ok_metric: "index_ok index metrics \<Longrightarrow> case dget metrics n of None \<Rightarrow> True | Some x \<Rightarrow> metric_ok x"
  by (auto simp: index_ok_def dest: dget_in_set split: option.splits)

lemma apply_changed_lines:
  assumes "dict_ok index" "[] \<notin> set (dkeys index)"
    and "\<And>n. case dget metrics n of None \<Rightarrow> True | Some x \<Rightarrow> metric_ok x"
    and "\<And>n. n \<in> set (dkeys index) \<Longrightarrow> dget (fst v) n = dget (fst v0) n \<and> dget (snd v) n = dget (snd v0) n"
  shows "dget (fst (apply_lines (changed_lines index metrics v0) v)) n =
      (if n \<in> set (dkeys index) then dget index n else dget (fst v) n) \<and>
    dget (snd (apply_lines (changed_lines index metrics v0) v)) n =
      (if n \<in> set (dkeys index) then dget metrics n else dget (snd v) n)"
  using assms(1,2,4)
proof (induction index arbitrary: v)
  case (Cons e index)
  obtain k q where e: "e = (k, q)" by fastforce
  have k: "k \<noteq> []" "k \<notin> set (dkeys index)" using Cons.prems e by auto
  show ?case
  proof (cases "dget (fst v0) k = Some q \<and> dget (snd v0) k = dget metrics k")
    case True
    then have "changed_lines (e # index) metrics v0 = changed_lines index metrics v0"
      by (simp add: e changed_lines_def map_filter_simps)
    moreover have "dget (fst v) k = Some q" "dget (snd v) k = dget metrics k"
      using True Cons.prems(3) [of k] e by auto
    ultimately show ?thesis
      using Cons.IH [of v] Cons.prems k by (auto simp: e map_of_eq_None_iff)
  next
    case False
    let ?l = "journal_line k q (dget metrics k) (dget (snd v0) k \<noteq> None)"
    let ?v = "apply_journal_line ?l v"
    have lines: "changed_lines (e # index) metrics v0 = ?l # changed_lines index metrics v0"
      using False by (auto simp: e changed_lines_def map_filter_simps)
    have v': "?v = (dset k q (fst v), case dget metrics k of Some x \<Rightarrow> dset k x (snd v)
        | None \<Rightarrow> if dget (snd v0) k \<noteq> None then ddel k (snd v) else snd v)"
      using apply_journal_line_written [OF k(1) assms(3)] .
    have other: "dget (fst ?v) j = dget (fst v) j \<and> dget (snd ?v) j = dget (snd v) j" if "j \<noteq> k" for j
      unfolding v' using that by (auto split: option.splits)
    have own: "dget (fst ?v) k = Some q \<and> dget (snd ?v) k = dget metrics k"
      unfolding v' using Cons.prems(3) [of k] e by (auto split: option.splits)
    have ih: "dget (fst (apply_lines (changed_lines index metrics v0) ?v)) n =
        (if n \<in> set (dkeys index) then dget index n else dget (fst ?v) n) \<and>
      dget (snd (apply_lines (changed_lines index metrics v0) ?v)) n =
        (if n \<in> set (dkeys index) then dget metrics n else dget (snd ?v) n)"
    proof (rule Cons.IH)
      fix j assume j: "j \<in> set (dkeys index)"
      then have "j \<noteq> k" using k by auto
      then show "dget (fst ?v) j = dget (fst v0) j \<and> dget (snd ?v) j = dget (snd v0) j"
        using other [of j] Cons.prems(3) [of j] j e by auto
    qed (use Cons.prems e in auto)
    have "apply_lines (changed_lines (e # index) metrics v0) v =
        apply_lines (changed_lines index metrics v0) ?v"
      by (simp add: lines apply_lines_def)
    then show ?thesis using ih own other [of n] k e by auto
  qed
qed (simp add: changed_lines_def apply_lines_def map_filter_simps)

section \<open>Appending to the journal\<close>

text \<open>
  What the code's own writes keep: the journal does not start with a blank line, and the text
  after its last newline, if any, is a broken line.
\<close>

definition journal_ok :: "journal option \<Rightarrow> bool" where
  "journal_ok j \<longleftrightarrow>
     (case j of
        None \<Rightarrow> True
      | Some jn \<Rightarrow>
          (case jn_lines jn of [] \<Rightarrow> True | l # ls \<Rightarrow> l \<noteq> JBlank) \<and> jn_partial jn \<in> {None, Some JBad})"

lemma entries_of_append [simp]: "entries_of (xs @ ys) = entries_of xs @ entries_of ys"
  by (simp add: entries_of_def map_filter_def)

lemma entries_of_bad [simp]: "entries_of [JBad] = []" "entries_of (JBad # ls) = entries_of ls"
  by (simp_all add: entries_of_def map_filter_simps line_value_def)

lemma entries_of_written: "list_all is_entry ls \<Longrightarrow> entries_of (map JLine ls) = ls"
  by (induction ls) (simp_all add: entries_of_def map_filter_simps line_value_def)

lemma split_append:
  assumes "ls \<noteq> []" "hd ls \<noteq> JBlank"
  shows "split_journal (ls @ ks) = (fst (split_journal ls), snd (split_journal ls) @ entries_of ks)"
  using assms by (cases ls; cases "hd ls") (auto simp: entries_of_def map_filter_def)

lemma is_header_header [simp]: "is_header (header_line g)" "as_str (jget (header_line g) ''jgen'') = g"
  by (auto simp: is_header_def header_line_def jhas_def split: option.splits)

lemma not_header_entry: "is_entry v \<Longrightarrow> \<not> is_header v"
  by (auto simp: is_entry_def is_header_def jhas_def jget_def split: option.splits)

lemma read_append:
  assumes "journal_ok j" "list_all is_entry lines"
  shows "read_journal_lines g (Some (append_to_journal g lines j)) = read_journal_lines g j @ lines"
proof -
  note defs = append_to_journal_def Let_def journal_empty_def journal_gen_def read_journal_lines_def
  obtain jn where jn: "jn = (case j of None \<Rightarrow> \<lparr>jn_lines = [], jn_partial = None\<rparr> | Some jn \<Rightarrow> jn)" by simp
  have fresh: "split_journal (JLine (header_line g) # map JLine lines) = (g, lines)"
    by (simp add: entries_of_written [OF assms(2)])
  have readj: "read_journal_lines g j = read_journal_lines g (Some jn)"
    by (auto simp: jn read_journal_lines_def split: option.splits)
  have ok: "journal_ok (Some jn)"
    using assms(1) by (auto simp: jn journal_ok_def split: option.splits)
  show ?thesis
  proof (cases "jn_lines jn")
    case Nil
    have none: "read_journal_lines g (Some jn) = []" by (simp add: read_journal_lines_def Nil)
    have "jn_partial jn = None \<or> jn_partial jn = Some JBad" using ok by (auto simp: journal_ok_def)
    then show ?thesis
      unfolding readj none using fresh
      by (auto simp: defs Nil simp flip: jn simp: entries_of_written [OF assms(2)])
  next
    case (Cons l ls)
    have l: "l \<noteq> JBlank" using ok by (simp add: journal_ok_def Cons)
    obtain h g' where hg: "journal_gen jn = (h, g')" by fastforce
    have gen: "fst (split_journal (jn_lines jn)) = g'" "h \<longleftrightarrow> (\<exists>v. l = JLine v \<and> is_header v)"
      using hg l by (cases l; auto simp: journal_gen_def Cons split: if_splits)+
    show ?thesis
    proof (cases "g' \<noteq> g \<or> (g \<noteq> None \<and> \<not> h)")
      case True
      then have "fst (split_journal (jn_lines jn)) \<noteq> g"
        using gen hg by (auto simp: journal_gen_def Cons split: jline.splits if_splits)
      then have "read_journal_lines g (Some jn) = []"
        by (simp add: read_journal_lines_def split_beta)
      moreover have "append_to_journal g lines j =
          \<lparr>jn_lines = map JLine (header_line g # lines), jn_partial = None\<rparr>"
        using True hg by (simp add: append_to_journal_def journal_empty_def Cons flip: jn)
      moreover from this have "read_journal_lines g (Some (append_to_journal g lines j)) = lines"
        using fresh by (simp add: read_journal_lines_def)
      ultimately show ?thesis by (simp add: readj)
    next
      case False
      let ?p = "case jn_partial jn of None \<Rightarrow> [] | Some l \<Rightarrow> [l]"
      have app: "append_to_journal g lines j =
          \<lparr>jn_lines = jn_lines jn @ ?p @ map JLine lines, jn_partial = None\<rparr>"
        using False hg by (auto simp: append_to_journal_def Let_def journal_empty_def Cons simp flip: jn)
      have p: "entries_of ?p = []" using ok by (auto simp: journal_ok_def entries_of_def map_filter_simps line_value_def)
      have "split_journal (jn_lines jn @ ?p @ map JLine lines) = (g', snd (split_journal (jn_lines jn)) @ lines)"
        using l gen(1) p by (subst split_append) (simp_all add: Cons entries_of_written [OF assms(2)])
      then have "read_journal_lines g (Some (append_to_journal g lines j)) = snd (split_journal (jn_lines jn)) @ lines"
        using False by (simp add: app read_journal_lines_def)
      moreover have "read_journal_lines g (Some jn) = snd (split_journal (jn_lines jn))"
        using False gen(1) by (simp add: read_journal_lines_def split_beta)
      ultimately show ?thesis by (simp add: readj)
    qed
  qed
qed

lemma append_cases:
  obtains (fresh) "append_to_journal g lines j =
      \<lparr>jn_lines = map JLine (header_line g # lines), jn_partial = None\<rparr>"
    | (extend) jn where "j = Some jn" "append_to_journal g lines j =
      \<lparr>jn_lines = jn_lines jn @ (case jn_partial jn of None \<Rightarrow> [] | Some l \<Rightarrow> [l]) @ map JLine lines,
        jn_partial = None\<rparr>"
proof (cases j)
  case None
  with fresh show ?thesis by (simp add: append_to_journal_def journal_empty_def)
next
  case (Some jn)
  have "append_to_journal g lines (Some jn) =
      \<lparr>jn_lines = map JLine (header_line g # lines), jn_partial = None\<rparr> \<or>
    append_to_journal g lines (Some jn) =
      \<lparr>jn_lines = jn_lines jn @ (case jn_partial jn of None \<Rightarrow> [] | Some l \<Rightarrow> [l]) @ map JLine lines,
        jn_partial = None\<rparr>"
    by (auto simp: append_to_journal_def Let_def split_beta)
  with Some fresh extend show ?thesis by blast
qed

lemma append_journal_ok: "journal_ok j \<Longrightarrow> journal_ok (Some (append_to_journal g lines j))"
  by (cases rule: append_cases [of g lines j])
     (auto simp: journal_ok_def Cons_eq_append_conv split: list.splits)

lemma apply_lines_append: "apply_lines (xs @ ys) v = apply_lines ys (apply_lines xs v)"
  by (simp add: apply_lines_def)

lemma derived_append:
  assumes "journal_ok (tf_journal tf)" "list_all is_entry lines"
  shows "derived_now (append_journal_lines lines tf) = apply_lines lines (derived_now tf)"
  using assms
  by (auto simp: append_journal_lines_def derived_now_def Let_def base_doc_def read_append apply_lines_append)
     (simp_all add: apply_lines_def)

section \<open>Replacing the base\<close>

lemma map_of_same_set: "dict_ok d \<Longrightarrow> dict_ok d' \<Longrightarrow> set d = set d' \<Longrightarrow> dget d k = dget d' k"
proof -
  assume d: "dict_ok d" "dict_ok d'" "set d = set d'"
  have "dget d k = Some v \<longleftrightarrow> dget d' k = Some v" for v
    using in_set_dget [OF d(1), of k v] in_set_dget [OF d(2), of k v] d(3) by simp
  then show ?thesis by (metis option.exhaust)
qed

lemma dict_ok_sort [simp]: "dict_ok (sort_key fst d) = dict_ok d"
  by (simp add: distinct_map)

lemma dget_sort [simp]: "dict_ok d \<Longrightarrow> dget (sort_key fst d) k = dget d k"
  by (rule map_of_same_set) simp_all

lemma dget_map_snd: "dget (map (\<lambda>(n, v). (n, f v)) d) k = map_option f (dget d k)"
  by (induction d) auto

lemma dget_filter_key: "dget (filter (\<lambda>(n, v). p n) d) k = (if p k then dget d k else None)"
  by (induction d) auto

lemma dget_map_filter:
  "dict_ok d \<Longrightarrow> dget (List.map_filter (\<lambda>(n, v). if p n then None else map_option (Pair n) (f v)) d) k =
     (if p k then None else (case dget d k of None \<Rightarrow> None | Some v \<Rightarrow> f v))"
proof (induction d)
  case (Cons e d)
  obtain n v where e: "e = (n, v)" by fastforce
  have "dget d k = None" if "n = k" using Cons.prems that by (auto simp: e map_of_eq_None_iff)
  with Cons show ?case by (auto simp: e map_filter_simps split: option.splits)
qed (simp add: map_filter_simps)

lemma clean_metric_json:
  assumes "metric_ok m"
  shows "clean_metric (JObj (metric_json m)) = Some m"
proof -
  from assms have m: "some_metric m = Some m" "case mt_sharpe m of None \<Rightarrow> True | Some x \<Rightarrow> is_finite x"
    by (auto simp: metric_ok_def)
  have "map_option Fin (finite_number (jget (JObj (metric_json m)) ''sharpe'')) = mt_sharpe m"
    using m(2) by (auto simp: dget_metric_json dest!: finite_cases split: option.splits)
  moreover have "map_option trunc (finite_number (jget (JObj (metric_json m)) ''trades'')) = mt_trades m"
    by (auto simp: dget_metric_json split: option.splits)
  moreover have "truthy (jget (JObj (metric_json m)) ''ops_park'') = mt_ops m"
    by (simp add: dget_metric_json)
  ultimately show ?thesis using m(1) unfolding clean_metric_def by (cases m) simp
qed

definition view_is :: "tested_view \<Rightarrow> bool dict \<Rightarrow> metric dict \<Rightarrow> bool" where
  "view_is view index metrics \<longleftrightarrow>
     (\<forall>n. dget (fst view) n = dget index n) \<and> (\<forall>n. dget (snd view) n = dget metrics n)"

lemma as_dict_names:
  "as_dict (jget (tested_index_document g index metrics) ''names'') =
     map (\<lambda>(n, q). (n, JInt (if q then 1 else 0))) (sort_key fst index)"
  "as_dict (jget (tested_index_document g index metrics) ''metrics'') =
     map (\<lambda>(n, m). (n, JObj (metric_json m))) metrics"
  "base_gen (tested_index_document g index metrics) = Some g"
  "is_dict (tested_index_document g index metrics)"
  by (simp_all add: tested_index_document_def base_gen_def)

lemma document_view:
  assumes "index_ok index metrics"
  shows "view_is (flags_from_document (tested_index_document g index metrics),
    metrics_from_document (tested_index_document g index metrics)) index metrics"
proof -
  let ?d = "tested_index_document g index metrics"
  have ok: "dict_ok index" "dict_ok metrics" "[] \<notin> set (dkeys index)"
    using assms by (auto simp: index_ok_def)
  have 1: "dget (flags_from_document ?d) n = dget index n" for n
  proof -
    have "n = [] \<Longrightarrow> dget index n = None" using ok(3) by (simp add: map_of_eq_None_iff)
    then show ?thesis
      using ok by (cases "dget index n")
        (auto simp: flags_from_document_def as_dict_names dget_map_snd dget_filter_key)
  qed
  have keys: "map fst (map (\<lambda>(n, m). (n, JObj (metric_json m))) metrics) = map fst metrics" by auto
  have "dict_ok (map (\<lambda>(n, m). (n, JObj (metric_json m))) metrics)" unfolding keys by (rule ok(2))
  then have 2: "dget (metrics_from_document ?d) n = dget metrics n" for n
  proof (cases "dget metrics n")
    case None
    then show ?thesis using \<open>dict_ok (map _ _)\<close>
      by (simp add: metrics_from_document_def as_dict_names dget_map_filter dget_map_snd)
  next
    case (Some m)
    then have "n \<noteq> []" "metric_ok m" using assms by (auto simp: index_ok_def dest!: dget_in_set)
    then show ?thesis using \<open>dict_ok (map _ _)\<close> Some
      by (simp add: metrics_from_document_def as_dict_names dget_map_filter dget_map_snd clean_metric_json)
  qed
  from 1 2 show ?thesis by (simp add: view_is_def)
qed

lemma replace_view:
  "index_ok index metrics \<Longrightarrow> view_is (derived_now (replace_tested_base g index metrics tf)) index metrics"
  using document_view [of index metrics g]
  by (simp add: derived_now_def Let_def base_doc_def replace_tested_base_def write_base_def
      dict_or_empty_def as_dict_names read_journal_lines_def apply_lines_def)

text \<open>
  A crash after the new base is installed and before the old journal is removed: the journal
  extends another generation, so readers ignore it.
\<close>

lemma crash_view:
  assumes "index_ok index metrics"
    and "\<And>jn. tf_journal tf = Some jn \<Longrightarrow> fst (split_journal (jn_lines jn)) \<noteq> Some g"
  shows "view_is (derived_now (write_base g index metrics tf)) index metrics"
proof -
  have "read_journal_lines (Some g) (tf_journal tf) = []"
    using assms(2) by (auto simp: read_journal_lines_def split_beta split: option.splits)
  with document_view [OF assms(1), of g] show ?thesis
    by (simp add: derived_now_def Let_def base_doc_def write_base_def dict_or_empty_def
        as_dict_names apply_lines_def)
qed

section \<open>Saving\<close>

lemma dget_sorted_metrics:
  "dict_ok ms \<Longrightarrow> dget (sorted_metrics ms) n = (if n = [] then None else dget ms n)"
proof -
  assume "dict_ok ms"
  then have "dict_ok (filter (\<lambda>(n, m). n \<noteq> []) ms)" by (rule distinct_map_filter)
  then show ?thesis by (simp add: sorted_metrics_def dget_filter_key)
qed

lemma sorted_metrics_ok:
  assumes "index_ok index ms"
  shows "index_ok index (sorted_metrics ms)" "dget (sorted_metrics ms) n = dget ms n"
proof -
  have ok: "dict_ok ms" using assms by (simp add: index_ok_def)
  then have d: "dict_ok (sorted_metrics ms)" by (simp add: sorted_metrics_def distinct_map_filter)
  then show "index_ok index (sorted_metrics ms)" using assms by (auto simp: index_ok_def sorted_metrics_def)
  have "dget ms [] = None" using assms by (auto simp: index_ok_def map_of_eq_None_iff)
  then show "dget (sorted_metrics ms) n = dget ms n" by (simp add: dget_sorted_metrics [OF ok])
qed

lemma changed_lines_entries: "[] \<notin> set (dkeys index) \<Longrightarrow> list_all is_entry (changed_lines index ms view)"
  by (induction index) (auto simp: changed_lines_def map_filter_simps is_entry_written)

lemma metrics_in_flags:
  "index_ok (fst view) (snd view) \<Longrightarrow> n \<notin> set (dkeys (fst view)) \<Longrightarrow> dget (snd view) n = None"
  by (auto simp: index_ok_def map_of_eq_None_iff)

lemma journal_path_view:
  assumes ok: "index_ok index ms" "index_ok (fst view) (snd view)"
    and keys: "set (dkeys index) = set (dkeys (fst view))"
  shows "view_is (apply_lines (changed_lines index ms view) view) index ms"
proof -
  have "dget (fst (apply_lines (changed_lines index ms view) view)) n =
      (if n \<in> set (dkeys index) then dget index n else dget (fst view) n) \<and>
    dget (snd (apply_lines (changed_lines index ms view) view)) n =
      (if n \<in> set (dkeys index) then dget ms n else dget (snd view) n)" for n
    using ok(1) by (intro apply_changed_lines index_ok_metric [OF ok(1)]) (auto simp: index_ok_def)
  moreover have "dget index n = dget (fst view) n \<and> dget ms n = dget (snd view) n"
    if "n \<notin> set (dkeys index)" for n
  proof -
    have "dget index n = None" "dget (fst view) n = None"
      using that keys by (simp_all add: map_of_eq_None_iff)
    then show ?thesis
      using that keys metrics_in_flags [OF ok(2), of n] metrics_in_flags [of "(index, ms)" n] ok(1) by simp
  qed
  ultimately show ?thesis by (auto simp: view_is_def)
qed

definition tested_ok :: "tested_files \<Rightarrow> bool" where
  "tested_ok tf \<longleftrightarrow>
     journal_ok (tf_journal tf) \<and> index_ok (fst (derived_now tf)) (snd (derived_now tf))"

lemma save_view:
  assumes tf: "tested_ok tf" and ok: "index_ok index ms"
  shows "view_is (derived_now (save_tested_index g index (Some ms) tf)) index ms"
proof -
  let ?ms = "sorted_metrics ms" and ?view = "derived_now tf"
  let ?lines = "changed_lines index ?ms ?view"
  note sok = sorted_metrics_ok [OF ok]
  have conv: "view_is v index ?ms \<Longrightarrow> view_is v index ms" for v by (simp add: view_is_def sok(2))
  show ?thesis
  proof (cases "set (dkeys index) = set (dkeys (fst ?view))")
    case False
    then show ?thesis
      using conv replace_view [OF sok(1)] by (simp add: save_tested_index_def Let_def)
  next
    case keys: True
    have path: "view_is (apply_lines ?lines ?view) index ?ms"
      using journal_path_view [OF sok(1) _ keys] tf by (simp add: tested_ok_def)
    have "list_all is_entry ?lines" using ok by (intro changed_lines_entries) (simp add: index_ok_def)
    then have app: "derived_now (append_journal_lines ?lines tf) = apply_lines ?lines ?view"
      using tf by (intro derived_append) (simp_all add: tested_ok_def)
    show ?thesis
    proof (cases "?lines = []")
      case True
      with path have "view_is ?view index ?ms" by (simp add: apply_lines_def)
      with True keys conv show ?thesis by (simp add: save_tested_index_def Let_def)
    next
      case False
      then have "save_tested_index g index (Some ms) tf =
          (if length ?lines > 64 then replace_tested_base g index ?ms tf else append_journal_lines ?lines tf)"
        using keys by (simp add: save_tested_index_def Let_def)
      then show ?thesis using conv path app replace_view [OF sok(1), of g tf] by simp
    qed
  qed
qed

section \<open>Merging\<close>

lemma merge_rows_dget:
  "dget (fst (merge_tested_rows seen index rows)) n =
     (case dget (latest_rows seen rows) n of
        None \<Rightarrow> dget index n | Some row \<Rightarrow> Some (truthy (jget row ''qualified'')))"
proof (induction rows arbitrary: seen index)
  case (Cons row rows)
  show ?case
  proof (cases "row_name row")
    case (Some k)
    have none: "dget (latest_rows (k # seen) rows) k = None"
      using latest_rows_names [of "k # seen" rows] by (auto simp: map_of_eq_None_iff)
    show ?thesis
      using Cons.IH none Some by (auto simp: Let_def split_beta split: option.splits)
  qed (use Cons in simp)
qed simp

lemma merge_rows_ok: "dict_ok index \<Longrightarrow> dict_ok (fst (merge_tested_rows seen index rows))"
  by (induction seen index rows rule: merge_tested_rows.induct)
     (auto simp: Let_def split_beta split: option.splits)

lemma merge_metrics_dget:
  "dget (fst (merge_tested_metrics seen metrics rows)) n =
     (case dget (latest_rows seen rows) n of
        None \<Rightarrow> dget metrics n
      | Some row \<Rightarrow> (case metric_from_row row of None \<Rightarrow> dget metrics n | Some m \<Rightarrow> Some m))"
proof (induction rows arbitrary: seen metrics)
  case (Cons row rows)
  show ?case
  proof (cases "row_name row")
    case (Some k)
    have none: "dget (latest_rows (k # seen) rows) k = None"
      using latest_rows_names [of "k # seen" rows] by (auto simp: map_of_eq_None_iff)
    show ?thesis
      using Cons.IH none Some by (auto simp: Let_def split_beta split: option.splits)
  qed (use Cons in simp)
qed simp

lemma merge_metrics_ok: "dict_ok metrics \<Longrightarrow> dict_ok (fst (merge_tested_metrics seen metrics rows))"
  by (induction seen metrics rows rule: merge_tested_metrics.induct)
     (auto simp: Let_def split_beta split: option.splits)

lemma merge_rows_changed:
  "\<not> snd (merge_tested_rows seen index rows) \<Longrightarrow> fst (merge_tested_rows seen index rows) = index"
  by (induction rows arbitrary: seen index)
     (auto simp: Let_def split_beta split: option.splits if_splits)

lemma merge_metrics_changed:
  "\<not> snd (merge_tested_metrics seen metrics rows) \<Longrightarrow> fst (merge_tested_metrics seen metrics rows) = metrics"
  by (induction rows arbitrary: seen metrics)
     (auto simp: Let_def split_beta split: option.splits if_splits)

lemma metric_from_row_ok: "metric_from_row row = Some m \<Longrightarrow> metric_ok m"
  by (auto simp: metric_from_row_def some_metric_def metric_ok_def split: if_splits option.splits)

lemma index_okI:
  assumes "dict_ok index" "dict_ok ms" "dget index [] = None"
    and "\<And>n m. dget ms n = Some m \<Longrightarrow> metric_ok m \<and> dget index n \<noteq> None"
  shows "index_ok index ms"
  using assms(1,2,3) assms(4) [OF in_set_dget [OF assms(2), THEN iffD1]]
  by (auto simp: index_ok_def dkeys_dget simp del: set_map)

lemma index_okD:
  assumes "index_ok index ms"
  shows "dict_ok index" "dict_ok ms" "dget index [] = None"
    and "dget ms n = Some m \<Longrightarrow> metric_ok m \<and> dget index n \<noteq> None"
  using assms by (auto simp: index_ok_def dkeys_dget simp del: set_map dest!: dget_in_set)

lemma merged_ok:
  assumes "index_ok index ms"
  shows "index_ok (fst (merge_tested_rows [] index rows)) (fst (merge_tested_metrics [] ms rows))"
proof (rule index_okI)
  have "dget (latest_rows [] rows) [] = None"
  proof (cases "dget (latest_rows [] rows) []")
    case (Some r)
    then have "row_name r = Some []" using latest_rows_name [OF dget_in_set] by blast
    then show ?thesis by (auto simp: row_name_def split: option.splits list.splits)
  qed
  then show "dget (fst (merge_tested_rows [] index rows)) [] = None"
    using index_okD [OF assms] by (simp add: merge_rows_dget)
  fix n m assume "dget (fst (merge_tested_metrics [] ms rows)) n = Some m"
  then show "metric_ok m \<and> dget (fst (merge_tested_rows [] index rows)) n \<noteq> None"
    using index_okD(4) [OF assms, of n]
    by (auto simp: merge_metrics_dget merge_rows_dget metric_from_row_ok split: option.splits)
qed (use index_okD [OF assms] in \<open>simp_all add: merge_rows_ok merge_metrics_ok\<close>)

lemma ensure_view:
  assumes tf: "tested_ok tf"
  shows "view_is (derived_now (ensure_tested_index g rows tf))
     (fst (merge_tested_rows [] (fst (derived_now tf)) rows))
     (fst (merge_tested_metrics [] (snd (derived_now tf)) rows))"
proof -
  have ok: "index_ok (fst (derived_now tf)) (snd (derived_now tf))" using tf by (simp add: tested_ok_def)
  show ?thesis
    using save_view [OF tf merged_ok [OF ok, of rows], of g]
      merge_rows_changed [of "[]" "fst (derived_now tf)" rows]
      merge_metrics_changed [of "[]" "snd (derived_now tf)" rows]
    by (auto simp: ensure_tested_index_def split_beta Let_def view_is_def)
qed

section \<open>The invariant of the files\<close>

lemma index_ok_transfer:
  "index_ok index ms \<Longrightarrow> view_is v index ms \<Longrightarrow> dict_ok (fst v) \<Longrightarrow> dict_ok (snd v) \<Longrightarrow>
   index_ok (fst v) (snd v)"
  by (rule index_okI) (auto simp: view_is_def index_okD dest: index_okD(4))

lemma apply_journal_line_ok:
  "dict_ok (fst v) \<Longrightarrow> dict_ok (snd v) \<Longrightarrow>
   dict_ok (fst (apply_journal_line l v)) \<and> dict_ok (snd (apply_journal_line l v))"
  by (auto simp: apply_journal_line_def split: option.splits)

lemma apply_lines_ok:
  "dict_ok (fst v) \<Longrightarrow> dict_ok (snd v) \<Longrightarrow>
   dict_ok (fst (apply_lines ls v)) \<and> dict_ok (snd (apply_lines ls v))"
  unfolding apply_lines_def
proof (induction ls arbitrary: v)
  case (Cons l ls)
  then show ?case using apply_journal_line_ok [of v l] by simp
qed simp

lemma map_filter_keys:
  "dict_ok d \<Longrightarrow> dict_ok (List.map_filter (\<lambda>(n, v). if p n then None else map_option (Pair n) (f v)) d)"
proof (induction d)
  case (Cons e d)
  obtain n v where e: "e = (n, v)" by fastforce
  have sub: "set (map fst (List.map_filter (\<lambda>(n, v). if p n then None else map_option (Pair n) (f v)) d))
      \<subseteq> set (map fst d)"
    by (force simp: map_filter_def split: if_splits)
  with Cons show ?case by (auto simp: e map_filter_simps split: option.splits)
qed (simp add: map_filter_simps)

lemma document_dict_ok:
  assumes "index_ok index ms"
  shows "dict_ok (flags_from_document (tested_index_document g index ms)) \<and>
    dict_ok (metrics_from_document (tested_index_document g index ms))"
proof -
  have a: "dict_ok (sort_key fst index)" using assms by (simp add: index_ok_def)
  have k: "map fst (map (\<lambda>(n, q). (n, f q)) d) = map fst d" for f :: "'a \<Rightarrow> 'b" and d :: "(string \<times> 'a) list"
    by auto
  have "dict_ok (map (\<lambda>(n, q). (n, JInt (if q then 1 else 0))) (sort_key fst index))"
    unfolding k [of "\<lambda>q. JInt (if q then 1 else 0)"] by (rule a)
  then have "dict_ok (filter (\<lambda>(n, v). n \<noteq> []) (map (\<lambda>(n, q). (n, JInt (if q then 1 else 0))) (sort_key fst index)))"
    by (rule distinct_map_filter)
  then have 1: "dict_ok (flags_from_document (tested_index_document g index ms))"
    unfolding flags_from_document_def as_dict_names k by simp
  have "dict_ok (map (\<lambda>(n, m). (n, JObj (metric_json m))) ms)"
    unfolding k [of "\<lambda>m. JObj (metric_json m)"] using assms by (simp add: index_ok_def)
  then have "dict_ok (sort_key fst (map (\<lambda>(n, m). (n, JObj (metric_json m))) ms))" by (subst dict_ok_sort)
  then have 2: "dict_ok (metrics_from_document (tested_index_document g index ms))"
    unfolding metrics_from_document_def as_dict_names by (rule map_filter_keys)
  from 1 2 show ?thesis ..
qed

lemma derived_replace:
  "derived_now (replace_tested_base g index ms tf) =
     (flags_from_document (tested_index_document g index ms), metrics_from_document (tested_index_document g index ms))"
  by (simp add: derived_now_def Let_def base_doc_def replace_tested_base_def write_base_def
      dict_or_empty_def as_dict_names read_journal_lines_def apply_lines_def)

lemma replace_ok: "index_ok index ms \<Longrightarrow> tested_ok (replace_tested_base g index ms tf)"
  unfolding tested_ok_def derived_replace
  using index_ok_transfer [OF _ document_view [of index ms g]] document_dict_ok [of index ms g]
  by (simp add: replace_tested_base_def journal_ok_def)

lemma append_ok:
  assumes tf: "tested_ok tf" and "list_all is_entry ls"
    and ok: "index_ok index ms" "view_is (apply_lines ls (derived_now tf)) index ms"
  shows "tested_ok (append_journal_lines ls tf)"
proof -
  have d: "derived_now (append_journal_lines ls tf) = apply_lines ls (derived_now tf)"
    using assms by (intro derived_append) (simp_all add: tested_ok_def)
  have "dict_ok (fst (apply_lines ls (derived_now tf))) \<and> dict_ok (snd (apply_lines ls (derived_now tf)))"
    using tf by (intro apply_lines_ok) (auto simp: tested_ok_def index_ok_def)
  then have "index_ok (fst (apply_lines ls (derived_now tf))) (snd (apply_lines ls (derived_now tf)))"
    using index_ok_transfer [OF ok] by blast
  then show ?thesis
    using tf by (simp add: tested_ok_def d) (simp add: append_journal_lines_def append_journal_ok)
qed

lemma save_ok:
  assumes tf: "tested_ok tf" and ok: "index_ok index ms"
  shows "tested_ok (save_tested_index g index (Some ms) tf)"
proof -
  let ?ms = "sorted_metrics ms" and ?view = "derived_now tf"
  let ?lines = "changed_lines index ?ms ?view"
  note sok = sorted_metrics_ok [OF ok]
  have "list_all is_entry ?lines" using ok by (intro changed_lines_entries) (simp add: index_ok_def)
  moreover have "view_is (apply_lines ?lines ?view) index ?ms"
    if "set (dkeys index) = set (dkeys (fst ?view))"
    using journal_path_view [OF sok(1) _ that] tf by (simp add: tested_ok_def)
  ultimately have "tested_ok (append_journal_lines ?lines tf)"
    if "set (dkeys index) = set (dkeys (fst ?view))"
    using that append_ok [OF tf _ sok(1)] by blast
  then show ?thesis
    using tf replace_ok [OF sok(1)] by (simp add: save_tested_index_def Let_def)
qed

lemma ensure_ok: "tested_ok tf \<Longrightarrow> tested_ok (ensure_tested_index g rows tf)"
  using merged_ok save_ok
  by (auto simp: ensure_tested_index_def split_beta Let_def) (simp add: tested_ok_def)+

end
