(* ===== verification/Catalog.thy ===== *)
theory Catalog
  imports TestedIndexFacts
begin

text \<open>
  Names of library strategies (\<open>library/catalog.py\<close>): a strategy key and its parameter
  values, the one-at-a-time grid around the declared centre, and parsing a name back. The
  declaration table \<open>LIBRARY\<close> is the argument \<open>lib\<close>; its signals are in \<open>Signals\<close>.
\<close>

section \<open>Strategies and names\<close>

record lib_param =
  lp_name :: string
  lp_center :: int
  lp_neighbours :: "int list"

record lib_strategy =
  ls_key :: string
  ls_title :: string
  ls_params :: "lib_param list"
  ls_stop :: rat

definition NAME_PREFIX :: string where "NAME_PREFIX = ''lib.''"

definition center :: "lib_strategy \<Rightarrow> int dict" where
  "center s = map (\<lambda>p. (lp_name p, lp_center p)) (ls_params s)"

definition strategy_by_key :: "lib_strategy list \<Rightarrow> string \<Rightarrow> lib_strategy result" where
  "strategy_by_key lib k =
     (case List.find (\<lambda>s. ls_key s = k) lib of
        None \<Rightarrow> Inl (ValueError ''unknown library strategy'') | Some s \<Rightarrow> Inr s)"

definition is_library_name :: "string \<Rightarrow> bool" where
  "is_library_name name \<longleftrightarrow> is_prefix NAME_PREFIX name"

definition param_values :: "lib_strategy \<Rightarrow> int dict \<Rightarrow> int list result" where
  "param_values s params =
     map_results (\<lambda>p. case dget params (lp_name p) of
         None \<Rightarrow> Inl (KeyError (lp_name p)) | Some v \<Rightarrow> Inr v) (ls_params s)"

definition variant_name :: "lib_strategy \<Rightarrow> int dict \<Rightarrow> string result" where
  "variant_name s params =
     bind_result (param_values s params) (\<lambda>vs.
       Inr (if vs = map lp_center (ls_params s) then NAME_PREFIX @ ls_key s
            else NAME_PREFIX @ ls_key s @ ''.'' @ join_with ''_'' (map show_int vs)))"

definition parse_variant :: "lib_strategy list \<Rightarrow> string \<Rightarrow> (lib_strategy \<times> int dict) result" where
  "parse_variant lib name =
     (if \<not> is_library_name name then Inl (ValueError ''not a library name'')
      else
        let body = drop (length NAME_PREFIX) name;
            k = takeWhile (\<lambda>c. c \<noteq> CHR ''.'') body;
            values = drop 1 (dropWhile (\<lambda>c. c \<noteq> CHR ''.'') body)
        in bind_result (strategy_by_key lib k) (\<lambda>s.
           if values = [] then Inr (s, center s)
           else
             let parts = split_at (CHR ''_'') values in
             if length parts \<noteq> length (ls_params s) \<or> \<not> list_all all_digits parts
             then Inl (ValueError ''bad parameters'')
             else
               let params = zip (map lp_name (ls_params s)) (map (int \<circ> digits_value) parts)
               in bind_result (variant_name s params) (\<lambda>n.
                    if n \<noteq> name then Inl (ValueError ''non-canonical library name'')
                    else Inr (s, params))))"

definition grid_params :: "lib_strategy \<Rightarrow> int dict list" where
  "grid_params s =
     center s # concat (map (\<lambda>p. map (\<lambda>v. dset (lp_name p) v (center s)) (lp_neighbours p)) (ls_params s))"

definition neighbour_names :: "lib_strategy list \<Rightarrow> string \<Rightarrow> string list result" where
  "neighbour_names lib name =
     bind_result (parse_variant lib name) (\<lambda>(s, params).
       map_results (variant_name s)
         (filter (\<lambda>cand. length (filter (\<lambda>(k, v). dget params k \<noteq> Some v) cand) = 1) (grid_params s)))"

text \<open>Names in order of first appearance; \<open>Inr\<close> for every declared strategy.\<close>

definition all_variant_names :: "lib_strategy list \<Rightarrow> string list result" where
  "all_variant_names lib =
     bind_result (map_results (\<lambda>s. map_results (variant_name s) (grid_params s)) lib) (\<lambda>nss.
       Inr (first_by id [] (concat nss)))"

definition library_trial_count :: "lib_strategy list \<Rightarrow> nat result" where
  "library_trial_count lib = bind_result (all_variant_names lib) (\<lambda>ns. Inr (length ns))"

definition claim_names :: "lib_strategy list \<Rightarrow> string list" where
  "claim_names lib = map (\<lambda>s. NAME_PREFIX @ ls_key s) lib"

section \<open>Round trip\<close>

text \<open>What the declaration table satisfies.\<close>

definition param_ok :: "lib_param \<Rightarrow> bool" where
  "param_ok p \<longleftrightarrow> 0 \<le> lp_center p \<and> list_all (\<lambda>v. 0 \<le> v) (lp_neighbours p)"

definition library_ok :: "lib_strategy list \<Rightarrow> bool" where
  "library_ok lib \<longleftrightarrow>
     distinct (map ls_key lib) \<and>
     (\<forall>s \<in> set lib. CHR ''.'' \<notin> set (ls_key s) \<and> distinct (map lp_name (ls_params s)) \<and>
        (\<forall>p \<in> set (ls_params s). param_ok p))"

lemma find_key:
  "distinct (map ls_key lib) \<Longrightarrow> s \<in> set lib \<Longrightarrow> List.find (\<lambda>t. ls_key t = ls_key s) lib = Some s"
  by (induction lib) auto

lemma show_int_nonneg: "0 \<le> v \<Longrightarrow> show_int v = show_nat (nat v)"
  by (simp add: show_int_def)

lemma show_nat_no_sep: "\<not> is_digit c \<Longrightarrow> c \<notin> set (show_nat n)"
  using show_nat_digits by blast

lemma all_digits_show_nat [simp]: "all_digits (show_nat n)"
  using show_nat_digits by (simp add: all_digits_def list_all_iff)

text \<open>A parameter dict with the declared names, in order, and nonnegative values.\<close>

definition point_of :: "lib_strategy \<Rightarrow> int dict \<Rightarrow> bool" where
  "point_of s params \<longleftrightarrow> map fst params = map lp_name (ls_params s) \<and> list_all (\<lambda>(k, v). 0 \<le> v) params"

lemma center_point: "\<forall>p \<in> set (ls_params s). param_ok p \<Longrightarrow> point_of s (center s)"
  by (auto simp: point_of_def center_def list_all_iff param_ok_def)

lemma dset_keys: "k \<in> set (dkeys d) \<Longrightarrow> dkeys (dset k v d) = dkeys d"
  by (induction d) auto

lemma grid_point:
  assumes "\<forall>p \<in> set (ls_params s). param_ok p" "params \<in> set (grid_params s)"
  shows "point_of s params"
proof (cases "params = center s")
  case True
  with center_point [OF assms(1)] show ?thesis by simp
next
  case False
  with assms(2) obtain p v where p: "p \<in> set (ls_params s)" "v \<in> set (lp_neighbours p)"
      "params = dset (lp_name p) v (center s)"
    by (auto simp: grid_params_def)
  have keys: "dkeys (center s) = map lp_name (ls_params s)" by (simp add: center_def)
  with p have k: "lp_name p \<in> set (dkeys (center s))" by auto
  have v: "0 \<le> v" using assms(1) p by (auto simp: param_ok_def list_all_iff)
  have "list_all (\<lambda>(k, v). 0 \<le> v) (dset k0 v d)" if "list_all (\<lambda>(k, v). 0 \<le> v) d" for k0 and d :: "int dict"
    using that v by (induction d) auto
  then show ?thesis
    using center_point [OF assms(1)] dset_keys [OF k] keys by (simp add: p(3) point_of_def)
qed

lemma map_results_values:
  "distinct ns \<Longrightarrow> map fst params = ns \<Longrightarrow>
   map_results (\<lambda>n. case dget params n of None \<Rightarrow> Inl (KeyError n) | Some v \<Rightarrow> Inr v) ns = Inr (map snd params)"
proof -
  assume d: "distinct ns" and k: "map fst params = ns"
  have "list_all2 (\<lambda>n v. (case dget params n of None \<Rightarrow> Inl (KeyError n) | Some v \<Rightarrow> Inr v) = Inr v)
      (map fst params) (map snd params)"
  proof (rule list_all2_all_nthI)
    fix i assume i: "i < length (map fst params)"
    then have "(fst (params ! i), snd (params ! i)) \<in> set params" by simp
    then have "dget params (fst (params ! i)) = Some (snd (params ! i))"
      using d k in_set_dget [of params] by blast
    with i show "(case dget params (map fst params ! i) of None \<Rightarrow> Inl (KeyError (map fst params ! i))
        | Some v \<Rightarrow> Inr v) = Inr (map snd params ! i)" by simp
  qed simp
  then show ?thesis by (simp add: map_results_Inr k)
qed

lemma map_results_map: "map_results f (map g xs) = map_results (f \<circ> g) xs"
  by (induction xs) auto

lemma param_values_point:
  assumes "distinct (map lp_name (ls_params s))" "point_of s params"
  shows "param_values s params = Inr (map snd params)"
  using map_results_values [OF assms(1), of params] assms(2)
  by (simp add: point_of_def param_values_def map_results_map comp_def)

lemma point_unique:
  "point_of s params \<Longrightarrow> map snd params = map lp_center (ls_params s) \<Longrightarrow> params = center s"
proof -
  assume "point_of s params" and v: "map snd params = map lp_center (ls_params s)"
  then have k: "map fst params = map lp_name (ls_params s)" by (simp add: point_of_def)
  have "params = zip (map fst params) (map snd params)" by (simp add: zip_map_fst_snd)
  also have "\<dots> = center s" by (simp add: k v center_def zip_map_map zip_same_conv_map)
  finally show ?thesis .
qed

lemma parse_variant_name:
  assumes lib: "library_ok lib" and s: "s \<in> set lib" and pt: "point_of s params"
    and name: "variant_name s params = Inr n"
  shows "parse_variant lib n = Inr (s, params)"
proof -
  from lib s have key: "CHR ''.'' \<notin> set (ls_key s)" and d: "distinct (map lp_name (ls_params s))"
    and f: "List.find (\<lambda>t. ls_key t = ls_key s) lib = Some s"
    by (auto simp: library_ok_def find_key)
  note vals = param_values_point [OF d pt]
  have tk: "takeWhile (\<lambda>c. c \<noteq> CHR ''.'') (ls_key s @ r) = ls_key s @ takeWhile (\<lambda>c. c \<noteq> CHR ''.'') r"
    and dr: "dropWhile (\<lambda>c. c \<noteq> CHR ''.'') (ls_key s @ r) = dropWhile (\<lambda>c. c \<noteq> CHR ''.'') r" for r
    using key by (auto simp: takeWhile_append dropWhile_append)
  show ?thesis
  proof (cases "map snd params = map lp_center (ls_params s)")
    case True
    then have "n = NAME_PREFIX @ ls_key s" using name vals by (simp add: variant_name_def)
    moreover have "params = center s" by (rule point_unique [OF pt True])
    ultimately show ?thesis
      using f tk [of "[]", simplified append_Nil2 takeWhile.simps] dr [of "[]", simplified append_Nil2 dropWhile.simps]
      unfolding parse_variant_def is_library_name_def is_prefix_def NAME_PREFIX_def strategy_by_key_def Let_def
      by (simp del: takeWhile_eq_all_conv dropWhile_eq_Nil_conv)
  next
    case False
    let ?vs = "join_with ''_'' (map show_int (map snd params))"
    have n: "n = NAME_PREFIX @ ls_key s @ ''.'' @ ?vs"
      using name vals False by (simp add: variant_name_def)
    have nonneg: "0 \<le> v" if "v \<in> set (map snd params)" for v
      using pt that by (auto simp: point_of_def list_all_iff)
    have ne: "params \<noteq> []" using False pt by (auto simp: point_of_def)
    have sep: "\<forall>w \<in> set (map show_int (map snd params)). CHR ''_'' \<notin> set w"
      using nonneg show_nat_no_sep [of "CHR ''_''"] by (force simp: show_int_nonneg is_digit_def)
    have parts: "split_at (CHR ''_'') ?vs = map show_int (map snd params)"
      using split_join [OF _ sep] ne by simp
    have vs_ne: "?vs \<noteq> []"
    proof
      assume "?vs = []"
      with parts have "map show_int (map snd params) = [[]]" by simp
      then obtain v where "v \<in> set (map snd params)" "show_int v = []" by (cases params) auto
      with nonneg [of v] show False by (simp add: show_int_nonneg)
    qed
    have digits: "list_all all_digits (map show_int (map snd params))"
      using nonneg by (auto simp: list_all_iff show_int_nonneg)
    have vals_back: "map (int \<circ> digits_value) (map show_int (map snd params)) = map snd params"
      using nonneg by (auto simp: show_int_nonneg)
    have keys: "map fst params = map lp_name (ls_params s)" using pt by (simp add: point_of_def)
    have zipped: "zip (map lp_name (ls_params s)) (map (int \<circ> digits_value) (map show_int (map snd params))) = params"
      unfolding vals_back by (simp add: keys [symmetric] zip_map_fst_snd)
    have len: "length (map show_int (map snd params)) = length (ls_params s)"
      using keys by (metis length_map)
    show ?thesis
      using f tk [of "''.'' @ ?vs"] dr [of "''.'' @ ?vs"] vs_ne parts digits zipped len name n
      by (simp add: parse_variant_def is_library_name_def is_prefix_def NAME_PREFIX_def strategy_by_key_def
          Let_def comp_def del: map_map)
  qed
qed

end
