(* ===== verification/Retests.thy ===== *)
theory Retests
  imports Catalog
begin

text \<open>
  The three queues that lift fail-once for a while: the buy-and-hold requeue
  (\<open>trading/requeue_v4_bh.py\<close>), the library gate requeue
  (\<open>trading/requeue_library_gate.py\<close>), both one-shot batches frozen in a state file, and the
  corrected library signals (\<open>trading/requeue_library_signal.py\<close>), read off the log.
\<close>

section \<open>Batch files\<close>

text \<open>\<open>load_state\<close>: a file of another batch id counts as missing.\<close>

definition load_batch :: "string \<Rightarrow> jv option \<Rightarrow> jv option" where
  "load_batch bid f =
     (case f of
        None \<Rightarrow> None
      | Some d \<Rightarrow> if is_dict d \<and> jget d ''batch_id'' = JStr bid then Some d else None)"

definition entry_status :: "string \<Rightarrow> jv \<Rightarrow> bool" where
  "entry_status st e \<longleftrightarrow> is_dict e \<and> jget e ''status'' = JStr st"

definition batch_entry :: "jv \<Rightarrow> string \<Rightarrow> jv" where
  "batch_entry d name = jget (sub_dict d ''entries'') name"

definition batch_order :: "jv \<Rightarrow> string list" where
  "batch_order d = strings_of (as_list (jget d ''order''))"

definition batch_pending :: "string \<Rightarrow> jv option \<Rightarrow> string list" where
  "batch_pending bid f =
     (case load_batch bid f of
        None \<Rightarrow> []
      | Some d \<Rightarrow> filter (\<lambda>n. entry_status ''pending'' (batch_entry d n)) (batch_order d))"

definition batch_retest_entry :: "string \<Rightarrow> jv option \<Rightarrow> string \<Rightarrow> jv option" where
  "batch_retest_entry bid f name =
     (if name = [] then None
      else case load_batch bid f of
          None \<Rightarrow> None
        | Some d \<Rightarrow>
            if entry_status ''pending'' (batch_entry d name) then Some (batch_entry d name) else None)"

definition complete_entry :: "jv \<Rightarrow> jv \<Rightarrow> jv" where
  "complete_entry tested_at e =
     jset ''completed_at'' tested_at (jset ''status'' (JStr ''completed'') e)"

definition complete_batch_retest :: "string \<Rightarrow> string \<Rightarrow> jv \<Rightarrow> jv option \<Rightarrow> jv option \<times> bool" where
  "complete_batch_retest bid name tested_at f =
     (case load_batch bid f of
        None \<Rightarrow> (f, False)
      | Some d \<Rightarrow>
          if entry_status ''pending'' (batch_entry d name)
          then (Some (jset ''entries''
                  (jset name (complete_entry tested_at (batch_entry d name)) (sub_dict d ''entries'')) d), True)
          else (f, False))"

section \<open>Buy-and-hold requeue\<close>

definition BH_BATCH_ID :: string where "BH_BATCH_ID = ''bh-only-requeue-20261027''"
definition BH_RETEST_REASON :: string where "BH_RETEST_REASON = ''discovery_bh_only_missing_later_checks''"
definition LEGACY_BH_RULES :: string where "LEGACY_BH_RULES = ''sltp_cap100_bhdsr_20261008''"

definition pending_retest_names :: "jv option \<Rightarrow> string list" where
  "pending_retest_names f = batch_pending BH_BATCH_ID f"

definition retest_entry :: "jv option \<Rightarrow> string \<Rightarrow> jv option" where
  "retest_entry f name = batch_retest_entry BH_BATCH_ID f name"

definition complete_retest :: "string \<Rightarrow> jv \<Rightarrow> jv option \<Rightarrow> jv option \<times> bool" where
  "complete_retest name tested_at f = complete_batch_retest BH_BATCH_ID name tested_at f"

definition is_gate_v4_rules :: "jv \<Rightarrow> bool" where
  "is_gate_v4_rules v =
     (case as_str v of None \<Rightarrow> False | Some s \<Rightarrow> s = V4_GATE_RULES \<or> is_prefix ''gate_v4_'' s)"

definition is_bh_requeue_rules :: "jv \<Rightarrow> bool" where
  "is_bh_requeue_rules v \<longleftrightarrow> is_gate_v4_rules v \<or> v \<in> {JStr V3_GATE_RULES, JStr LEGACY_BH_RULES}"

definition rule_bucket :: "jv \<Rightarrow> string" where
  "rule_bucket v =
     (if is_gate_v4_rules v then ''gate_v4''
      else if v = JStr V3_GATE_RULES then V3_GATE_RULES
      else if v = JStr LEGACY_BH_RULES then LEGACY_BH_RULES
      else ''other'')"

definition is_discovery_window_bh_reason :: "jv \<Rightarrow> bool" where
  "is_discovery_window_bh_reason reason \<longleftrightarrow>
     is_bh_decision_reason reason \<and>
     (case as_str reason of
        None \<Rightarrow> True
      | Some s \<Rightarrow>
          let t = lower (strip s) in \<not> is_prefix ''holdout'' t \<and> \<not> is_prefix ''cost '' t)"

definition later_checks_ran :: "jv \<Rightarrow> bool" where
  "later_checks_ran row \<longleftrightarrow>
     (let block = jget row ''gate_v4''; holdout = jget block ''holdout'' in
      is_dict block \<and>
      (is_dict holdout \<and>
         list_ex (\<lambda>k. jget holdout k \<noteq> JNull) [''sharpe'', ''trades'', ''pnl'', ''sma_pnl''] \<or>
       list_ex (\<lambda>k. jget block k \<noteq> JNull)
         [''dsr'', ''pbo'', ''n_trials'', ''neighbours'', ''neighbours_pass'', ''cost_sharpe'']))"

definition is_requeue_candidate :: "jv \<Rightarrow> bool" where
  "is_requeue_candidate row \<longleftrightarrow>
     is_dict row \<and>
     \<not> (truthy (jget row ''qualified'') \<or> truthy (jget row ''ops_park'') \<or> jget row ''retest'' = JBool True) \<and>
     is_bh_requeue_rules (jget row ''gate_rules'') \<and>
     fail_reasons_of row \<noteq> [] \<and>
     list_all is_discovery_window_bh_reason (fail_reasons_of row) \<and>
     \<not> later_checks_ran row \<and>
     classify_row row = MissingInputs"

definition select_bh :: "string list \<Rightarrow> jv dict \<Rightarrow> jv dict" where
  "select_bh book by_name =
     filter (\<lambda>(n, row). n \<notin> set book \<and> is_requeue_candidate row) (sort_key fst by_name)"

definition string_items :: "jv \<Rightarrow> jv list" where
  "string_items v = filter is_str (as_list v)"

definition bh_entry_for :: "jv \<Rightarrow> jv \<Rightarrow> jv" where
  "bh_entry_for row stamp =
     JObj [(''status'', JStr ''pending''), (''requeued_at'', stamp),
       (''prior_gate_rules'',
          if is_str (jget row ''gate_rules'') then jget row ''gate_rules'' else JStr V4_GATE_RULES),
       (''prior_fail_reasons'', JList (string_items (jget row ''fail_reasons''))),
       (''completed_at'', JNull)]"

definition bh_batch_state :: "jv dict \<Rightarrow> jv \<Rightarrow> jv" where
  "bh_batch_state selected stamp =
     JObj [(''batch_id'', JStr BH_BATCH_ID), (''paper_only'', JBool True), (''reason'', JStr BH_RETEST_REASON),
       (''gate_from'', JStr ''bh_only_discovery_window''),
       (''gate_from_tags'', JList (map JStr [V4_GATE_RULES, V3_GATE_RULES, LEGACY_BH_RULES])),
       (''gate_to'', JStr GATE_RULES), (''applied_at'', stamp),
       (''order'', JList (map (JStr \<circ> fst) selected)),
       (''entries'', JObj (map (\<lambda>(n, row). (n, bh_entry_for row stamp)) selected)),
       (''holdout_unsealed'', JBool False)]"

record batch_report =
  rp_names :: "string list"
  rp_pending :: nat
  rp_completed :: nat
  rp_dry_run :: bool
  rp_applied :: bool
  rp_already :: bool
  rp_stamp :: jv

text \<open>\<open>_counts\<close> and \<open>_report_state\<close>\<close>

definition count_status :: "string \<Rightarrow> jv \<Rightarrow> nat" where
  "count_status st d = length (filter (\<lambda>n. entry_status st (batch_entry d n)) (batch_order d))"

definition report_state :: "jv \<Rightarrow> bool \<Rightarrow> bool \<Rightarrow> bool \<Rightarrow> batch_report" where
  "report_state d dry_run wrote already =
     \<lparr>rp_names = batch_order d, rp_pending = count_status ''pending'' d,
      rp_completed = count_status ''completed'' d, rp_dry_run = dry_run, rp_applied = wrote,
      rp_already = already,
      rp_stamp = (if is_str (jget d ''applied_at'') then jget d ''applied_at'' else JNull)\<rparr>"

definition dry_report :: "string list \<Rightarrow> batch_report" where
  "dry_report names =
     \<lparr>rp_names = names, rp_pending = 0, rp_completed = 0, rp_dry_run = True, rp_applied = False,
      rp_already = False, rp_stamp = JNull\<rparr>"

text \<open>
  \<open>requeue_v4_bh\<close>. \<open>_ensure_counted\<close> merges the selected rows into the tested index, which is
  what \<open>ensure_tested_index\<close> does with them; no rows change nothing.
\<close>

definition applied_batch :: "string \<Rightarrow> jv option \<Rightarrow> jv option" where
  "applied_batch bid f =
     (case load_batch bid f of
        None \<Rightarrow> None | Some d \<Rightarrow> if truthy (jget d ''applied_at'') then Some d else None)"

definition requeue_v4_bh ::
    "bool \<Rightarrow> jv \<Rightarrow> string \<Rightarrow> string list \<Rightarrow> jv dict \<Rightarrow> jv option \<times> tested_files \<Rightarrow>
     (jv option \<times> tested_files) \<times> batch_report" where
  "requeue_v4_bh apl stamp gen book by_name st =
     (case applied_batch BH_BATCH_ID (fst st) of
        Some d \<Rightarrow> (st, report_state d (\<not> apl) False True)
      | None \<Rightarrow>
          let selected = select_bh book by_name in
          if \<not> apl then (st, dry_report (dkeys selected))
          else
            let d = bh_batch_state selected stamp
            in ((Some d, ensure_tested_index gen (map snd selected) (snd st)), report_state d False True False))"

definition stamp_retest_result :: "jv \<Rightarrow> jv \<Rightarrow> jv" where
  "stamp_retest_result entry row =
     (let r = jset ''retest'' (JBool True) row;
          r = jset ''retest_reason'' (JStr BH_RETEST_REASON) r;
          r = jset ''retest_batch'' (JStr BH_BATCH_ID) r;
          r = jset ''retest_from_rules''
                (if is_str (jget entry ''prior_gate_rules'') then jget entry ''prior_gate_rules''
                 else JStr V4_GATE_RULES) r;
          r = jset ''requeued_at''
                (if is_str (jget entry ''requeued_at'') then jget entry ''requeued_at'' else JNull) r
      in jset ''prior_fail_reasons'' (JList (string_items (jget entry ''prior_fail_reasons''))) r)"

section \<open>Library gate requeue\<close>

definition LIB_BATCH_ID :: string where "LIB_BATCH_ID = ''library-gate-v7b-requeue-20261029''"
definition LIB_RETEST_REASON :: string where "LIB_RETEST_REASON = ''library_gate_tag_older_than_current''"

definition pending_library_retest_names :: "jv option \<Rightarrow> string list" where
  "pending_library_retest_names f = batch_pending LIB_BATCH_ID f"

definition library_retest_entry :: "jv option \<Rightarrow> string \<Rightarrow> jv option" where
  "library_retest_entry f name = batch_retest_entry LIB_BATCH_ID f name"

definition complete_library_retest :: "string \<Rightarrow> jv \<Rightarrow> jv option \<Rightarrow> jv option \<times> bool" where
  "complete_library_retest name tested_at f = complete_batch_retest LIB_BATCH_ID name tested_at f"

definition older_than_current :: "jv \<Rightarrow> bool" where
  "older_than_current rules \<longleftrightarrow> rules \<noteq> JStr GATE_RULES"

definition select_library ::
    "string list \<Rightarrow> jv dict \<Rightarrow> string list \<Rightarrow> (string \<times> jv \<times> bool) list" where
  "select_library names newest seats =
     List.map_filter
       (\<lambda>n. case dget newest n of
          None \<Rightarrow> None
        | Some row \<Rightarrow>
            if is_dict row \<and> older_than_current (jget row ''gate_rules'')
            then Some (n, row, n \<in> set seats) else None)
       names"

definition library_entry_for :: "jv \<Rightarrow> jv \<Rightarrow> bool \<Rightarrow> jv" where
  "library_entry_for row stamp seated =
     JObj [(''status'', JStr ''pending''), (''requeued_at'', stamp),
       (''prior_gate_rules'', if is_str (jget row ''gate_rules'') then jget row ''gate_rules'' else JNull),
       (''prior_fail_reasons'', JList (string_items (jget row ''fail_reasons''))),
       (''seated'', JBool seated), (''completed_at'', JNull)]"

definition library_batch_state :: "(string \<times> jv \<times> bool) list \<Rightarrow> jv \<Rightarrow> jv" where
  "library_batch_state selected stamp =
     JObj [(''batch_id'', JStr LIB_BATCH_ID), (''paper_only'', JBool True), (''reason'', JStr LIB_RETEST_REASON),
       (''gate_to'', JStr GATE_RULES), (''applied_at'', stamp),
       (''order'', JList (map (JStr \<circ> fst) selected)),
       (''entries'', JObj (map (\<lambda>(n, row, seated). (n, library_entry_for row stamp seated)) selected)),
       (''seats_unchanged'', JBool True)]"

definition requeue_library_gate ::
    "bool \<Rightarrow> jv \<Rightarrow> string list \<Rightarrow> jv dict \<Rightarrow> string list \<Rightarrow> jv option \<Rightarrow> jv option \<times> batch_report" where
  "requeue_library_gate apl stamp names newest seats f =
     (case applied_batch LIB_BATCH_ID f of
        Some d \<Rightarrow> (f, report_state d (\<not> apl) False True)
      | None \<Rightarrow>
          let selected = select_library names newest seats in
          if \<not> apl then (f, dry_report (map fst selected))
          else let d = library_batch_state selected stamp in (Some d, report_state d False True False))"

definition stamp_library_retest_result :: "jv \<Rightarrow> jv \<Rightarrow> jv" where
  "stamp_library_retest_result entry row =
     (let r = jset ''retest'' (JBool True) row;
          r = jset ''retest_reason'' (JStr LIB_RETEST_REASON) r;
          r = jset ''retest_batch'' (JStr LIB_BATCH_ID) r;
          r = jset ''retest_from_rules''
                (if is_str (jget entry ''prior_gate_rules'') then jget entry ''prior_gate_rules'' else JNull) r;
          r = jset ''requeued_at''
                (if is_str (jget entry ''requeued_at'') then jget entry ''requeued_at'' else JNull) r;
          r = jset ''prior_fail_reasons'' (JList (string_items (jget entry ''prior_fail_reasons''))) r
      in jset ''retest_keeps_seat'' (JBool (jget entry ''seated'' = JBool True)) r)"

section \<open>Corrected library signals\<close>

definition SIGNAL_REVISION :: string where
  "SIGNAL_REVISION = ''library-signal-td-pierce-soldiers-20261101''"
definition CORRECTED_NAMES :: "string list" where
  "CORRECTED_NAMES = [''lib.td_cd'', ''lib.pierce'', ''lib.soldiers'']"

definition is_signal_correction :: "string \<Rightarrow> bool" where
  "is_signal_correction name \<longleftrightarrow> name \<in> set CORRECTED_NAMES"

text \<open>The newest log row of a name: the log is newest first.\<close>

definition newest_row :: "jv list \<Rightarrow> string \<Rightarrow> jv option" where
  "newest_row rows name = List.find (\<lambda>r. is_dict r \<and> jget r ''strategy'' = JStr name) rows"

definition pending_signal_correction_names :: "jv list \<Rightarrow> string list" where
  "pending_signal_correction_names rows =
     filter (\<lambda>n. case newest_row rows n of
         None \<Rightarrow> False | Some r \<Rightarrow> jget r ''signal_revision'' \<noteq> JStr SIGNAL_REVISION) CORRECTED_NAMES"

definition signal_correction_pending :: "jv list \<Rightarrow> string \<Rightarrow> bool" where
  "signal_correction_pending rows name \<longleftrightarrow> name \<in> set (pending_signal_correction_names rows)"

definition stamp_signal_correction :: "jv \<Rightarrow> jv" where
  "stamp_signal_correction row =
     (let r = jset ''signal_revision'' (JStr SIGNAL_REVISION) row;
          r = jset ''retest'' (JBool True) r;
          r = jset ''retest_reason'' (JStr ''library_signal_corrected'') r
      in jset ''retest_batch'' (JStr SIGNAL_REVISION) r)"

section \<open>The interface of a retest queue\<close>

text \<open>
  \<open>pending s n\<close>: fail-once is lifted for \<open>n\<close>. \<open>complete\<close> stores one result for a name. A
  client needs: completing a name puts it back under fail-once, leaves the other names
  alone, and never makes a name pending.
\<close>

locale retest_queue =
  fixes pending :: "'s \<Rightarrow> string \<Rightarrow> bool"
    and store :: "string \<Rightarrow> 's \<Rightarrow> 's"
  assumes store_done: "\<not> pending (store n s) n"
    and store_other: "m \<noteq> n \<Longrightarrow> pending (store n s) m = pending s m"
begin

lemma store_antimono: "pending (store n s) m \<Longrightarrow> pending s m"
  using store_done store_other by (cases "m = n") auto

definition stores :: "string list \<Rightarrow> 's \<Rightarrow> 's" where
  "stores ns s = fold store ns s"

lemma stores_iff: "pending (stores ns s) m \<longleftrightarrow> pending s m \<and> m \<notin> set ns"
  unfolding stores_def
proof (induction ns arbitrary: s)
  case (Cons n ns)
  then show ?case using store_done [of n s] store_other [of m n s] by (cases "m = n") auto
qed simp

text \<open>A queue drains: once every pending name has a result, nothing is pending.\<close>

lemma drained: "\<forall>m. pending s m \<longrightarrow> m \<in> set ns \<Longrightarrow> \<not> pending (stores ns s) m"
  by (auto simp: stores_iff)

end

lemma sub_dict_dict [simp]: "is_dict (sub_dict d k)"
  by (simp add: sub_dict_def dict_or_empty_def)

lemma dict_or_empty_id [simp]: "is_dict d \<Longrightarrow> dict_or_empty d = d"
  by (simp add: dict_or_empty_def)

lemma entry_status_complete: "entry_status ''pending'' e \<Longrightarrow> \<not> entry_status ''pending'' (complete_entry t e)"
  by (auto simp: entry_status_def complete_entry_def)

lemma complete_batch_entry:
  assumes "load_batch bid f = Some d" "entry_status ''pending'' (batch_entry d n)"
  shows "complete_batch_retest bid n t f =
      (Some (jset ''entries'' (jset n (complete_entry t (batch_entry d n)) (sub_dict d ''entries'')) d), True)"
  using assms by (simp add: complete_batch_retest_def)

lemma load_batch_dict: "load_batch bid f = Some d \<Longrightarrow> is_dict d \<and> jget d ''batch_id'' = JStr bid"
  by (auto simp: load_batch_def split: option.splits if_splits)

definition batch_is_pending :: "string \<Rightarrow> jv option \<Rightarrow> string \<Rightarrow> bool" where
  "batch_is_pending bid f n \<longleftrightarrow>
     (case load_batch bid f of None \<Rightarrow> False | Some d \<Rightarrow> entry_status ''pending'' (batch_entry d n))"

lemma complete_pending:
  "batch_is_pending bid (fst (complete_batch_retest bid n t f)) m \<longleftrightarrow> batch_is_pending bid f m \<and> m \<noteq> n"
proof (cases "batch_is_pending bid f n")
  case True
  then obtain d where d: "load_batch bid f = Some d" "entry_status ''pending'' (batch_entry d n)"
    by (auto simp: batch_is_pending_def split: option.splits)
  let ?e = "jset n (complete_entry t (batch_entry d n)) (sub_dict d ''entries'')"
  have "load_batch bid (Some (jset ''entries'' ?e d)) = Some (jset ''entries'' ?e d)"
    using load_batch_dict [OF d(1)] by (simp add: load_batch_def)
  moreover have "batch_entry (jset ''entries'' ?e d) m =
      (if m = n then complete_entry t (batch_entry d n) else batch_entry d m)"
    using load_batch_dict [OF d(1)] by (simp add: batch_entry_def sub_dict_def [of "jset _ _ _"])
  ultimately show ?thesis
    using d entry_status_complete [OF d(2)] by (auto simp: complete_batch_entry batch_is_pending_def)
next
  case False
  then have "fst (complete_batch_retest bid n t f) = f"
    by (auto simp: complete_batch_retest_def batch_is_pending_def split: option.splits)
  with False show ?thesis by auto
qed

interpretation bh_queue: retest_queue "batch_is_pending BH_BATCH_ID"
    "\<lambda>n f. fst (complete_retest n t f)" for t
  by unfold_locales (simp_all add: complete_retest_def complete_pending)

interpretation library_queue: retest_queue "batch_is_pending LIB_BATCH_ID"
    "\<lambda>n f. fst (complete_library_retest n t f)" for t
  by unfold_locales (simp_all add: complete_library_retest_def complete_pending)

text \<open>
  A stored result of a corrected signal is a new newest log row that carries the revision.
\<close>

definition store_signal_row :: "string \<Rightarrow> jv list \<Rightarrow> jv list" where
  "store_signal_row n rows = stamp_signal_correction (JObj [(''strategy'', JStr n)]) # rows"

lemma newest_row_store:
  "newest_row (store_signal_row n rows) m =
     (if m = n then Some (stamp_signal_correction (JObj [(''strategy'', JStr n)])) else newest_row rows m)"
  by (simp add: newest_row_def store_signal_row_def stamp_signal_correction_def Let_def)

interpretation signal_queue: retest_queue signal_correction_pending store_signal_row
  by unfold_locales
    (auto simp: signal_correction_pending_def pending_signal_correction_names_def newest_row_store
      stamp_signal_correction_def Let_def)

lemma pending_names_iff:
  "n \<in> set (batch_pending bid f) \<longleftrightarrow>
     batch_is_pending bid f n \<and> (\<exists>d. load_batch bid f = Some d \<and> n \<in> set (batch_order d))"
  by (auto simp: batch_pending_def batch_is_pending_def split: option.splits)

end
