(* ===== verification/MintQuality.thy ===== *)
theory MintQuality
  imports Retests
begin

text \<open>
  The shared mint gate of \<open>trading/mint_quality.py\<close>: parsing an atom of a stacked strategy
  name, the bounds it puts on an indicator, the reasons a stack is refused, and the
  canonical form of a name. The 99th percentile of the moves on the price tape, a numpy
  computation over files, is the argument \<open>tape\<close> (\<open>None\<close> when there is no tape).
\<close>

section \<open>Atoms\<close>

datatype bop = Gt | Lt

text \<open>\<open>at_side\<close> is the \<open>lower\<close>/\<open>upper\<close> of a Bollinger atom, empty for the others.\<close>

record atom =
  at_family :: string
  at_side :: string
  at_params :: "nat list"
  at_bounds :: "(bop \<times> nat) list"
  at_supported :: bool
  at_raw :: string

text \<open>
  The atom patterns are sequences of literals, numbers and optional underscores; each number
  is followed by a character that is not a digit, so the longest run is the match.
\<close>

datatype apat = PLit string | PNum | POptU

fun match_atom :: "apat list \<Rightarrow> string \<Rightarrow> nat list option" where
  "match_atom [] s = (if s = [] then Some [] else None)"
| "match_atom (PLit l # ps) s =
     (if is_prefix l s then match_atom ps (drop (length l) s) else None)"
| "match_atom (POptU # ps) s = match_atom ps (if is_prefix ''_'' s then drop 1 s else s)"
| "match_atom (PNum # ps) s =
     (let d = takeWhile is_digit s in
      if d = [] then None
      else map_option (Cons (digits_value d)) (match_atom ps (dropWhile is_digit s)))"

definition first_match :: "(string \<times> apat list) list \<Rightarrow> string \<Rightarrow> (string \<times> nat list) option" where
  "first_match ps s =
     foldr (\<lambda>(tag, p) acc. case match_atom p s of Some ns \<Rightarrow> Some (tag, ns) | None \<Rightarrow> acc) ps None"

definition mk_atom :: "string \<Rightarrow> string \<Rightarrow> nat list \<Rightarrow> (bop \<times> nat) list \<Rightarrow> string \<Rightarrow> atom" where
  "mk_atom fam side params bounds raw =
     \<lparr>at_family = fam, at_side = side, at_params = params, at_bounds = bounds, at_supported = True, at_raw = raw\<rparr>"

definition match_rsi :: "string \<Rightarrow> atom option" where
  "match_rsi text =
     (case match_atom [PLit ''rsi_'', PNum, PLit ''_>'', POptU, PNum] text of
        Some [p, lo] \<Rightarrow> Some (mk_atom ''rsi'' '''' [p] [(Gt, lo)] text)
      | _ \<Rightarrow>
     (case match_atom [PLit ''rsi_'', PNum, PLit ''_>'', POptU, PNum, PLit ''_<'', POptU, PNum] text of
        Some [p, lo, hi] \<Rightarrow> Some (mk_atom ''rsi'' '''' [p] [(Gt, lo), (Lt, hi)] text)
      | _ \<Rightarrow>
     (case match_atom [PLit ''rsi_'', PNum, PLit ''_<'', POptU, PNum] text of
        Some [p, hi] \<Rightarrow> Some (mk_atom ''rsi'' '''' [p] [(Lt, hi)] text)
      | _ \<Rightarrow>
     (case match_atom [PLit ''rsi_'', PNum, PLit ''_'', PNum] text of
        Some [p, lo] \<Rightarrow> Some (mk_atom ''rsi'' '''' [p] [(Gt, lo)] text)
      | _ \<Rightarrow> None))))"

text \<open>\<open>_MOM_DIP_RE\<close>: the kind, the lookback and the percent.\<close>

definition match_mom_dip :: "string \<Rightarrow> (string \<times> nat \<times> nat) option" where
  "match_mom_dip text =
     (case first_match
        [(''mom'', [PLit ''mom_'', PNum, PLit ''b_gt'', PNum, PLit ''pc'']),
         (''mom'', [PLit ''mom_'', PNum, PLit ''b_lt'', PNum, PLit ''pc'']),
         (''dip'', [PLit ''dip_'', PNum, PLit ''b_gt'', PNum, PLit ''pc'']),
         (''dip'', [PLit ''dip_'', PNum, PLit ''b_lt'', PNum, PLit ''pc''])] text of
        Some (k, [n, pct]) \<Rightarrow> Some (k, n, pct)
      | _ \<Rightarrow> None)"

definition plain_patterns :: "(string \<times> apat list) list" where
  "plain_patterns =
     map (\<lambda>f. (f, [PLit (f @ ''_''), PNum]))
       [''h1_ema_abv'', ''h1_sma_abv'', ''h4_ema_abv'', ''h4_sma_abv'', ''sma_abv'', ''ema_abv'']"

definition struct_patterns :: "(string \<times> apat list) list" where
  "struct_patterns =
     map (\<lambda>f. (f, [PLit (f @ ''_''), PNum]))
       [''don_hi'', ''don_lo'', ''near_swing_hi'', ''near_swing_lo'', ''dbl_bot'', ''dbl_top'']"

definition match_stack :: "string \<Rightarrow> (string \<times> nat list) option" where
  "match_stack text =
     (let f = take 9 text; r = drop 9 text in
      if f \<noteq> ''sma_stack'' \<and> f \<noteq> ''ema_stack'' then None
      else if r = [] then Some (f, [])
      else if is_prefix ''_'' r \<and> drop 1 r \<noteq> [] \<and> list_all (\<lambda>c. is_digit c \<or> c = CHR ''_'') (drop 1 r)
      then Some (f, map digits_value (filter (\<lambda>w. w \<noteq> []) (split_at (CHR ''_'') (drop 1 r))))
      else None)"

definition wt_atoms :: "string list" where
  "wt_atoms = [''wt_cross_up_os'', ''wt_below_os'', ''wt_cross_down_ob'', ''sma_stack'']"

definition inspect_atom :: "string \<Rightarrow> atom option" where
  "inspect_atom a =
     (let text = strip a in
      if text = [] then None
      else case match_rsi text of Some x \<Rightarrow> Some x
      | None \<Rightarrow> (case match_mom_dip text of Some (k, n, pct) \<Rightarrow> Some (mk_atom k '''' [n] [(Gt, pct)] text)
      | None \<Rightarrow> (case first_match plain_patterns text of Some (f, ns) \<Rightarrow> Some (mk_atom f '''' ns [] text)
      | None \<Rightarrow> (case match_stack text of Some (f, ns) \<Rightarrow> Some (mk_atom f '''' ns [] text)
      | None \<Rightarrow> (case first_match struct_patterns text of Some (f, ns) \<Rightarrow> Some (mk_atom f '''' ns [] text)
      | None \<Rightarrow>
          (case first_match [(''lower'', [PLit ''bb_lower_'', PNum, PLit ''_'', PNum]),
                             (''upper'', [PLit ''bb_upper_'', PNum, PLit ''_'', PNum])] text of
             Some (side, ns) \<Rightarrow> Some (mk_atom ''bb'' side ns [] text)
      | None \<Rightarrow> (case match_atom [PLit ''vol_lowsm_'', PNum, PLit ''_'', PNum] text of
             Some ns \<Rightarrow> Some (mk_atom ''vol_lowsm'' '''' ns [] text)
      | None \<Rightarrow> if text \<in> set wt_atoms then Some (mk_atom text '''' [] [] text) else None)))))))"

definition ends_with :: "string \<Rightarrow> string \<Rightarrow> bool" where
  "ends_with suf s \<longleftrightarrow> length suf \<le> length s \<and> drop (length s - length suf) s = suf"

definition atoms_of :: "string \<Rightarrow> string list" where
  "atoms_of name = filter (\<lambda>t. t \<noteq> []) (map strip (split_at (CHR ''&'') name))"

definition parsed_atoms :: "string list \<Rightarrow> atom list" where
  "parsed_atoms toks = List.map_filter inspect_atom toks"

section \<open>Bounds\<close>

text \<open>\<open>None\<close> stands for minus infinity below and plus infinity above.\<close>

type_synonym interval = "nat option \<times> nat option"

fun add_bound :: "bop \<times> nat \<Rightarrow> interval \<Rightarrow> interval" where
  "add_bound (Gt, t) (lo, hi) = (Some (case lo of None \<Rightarrow> t | Some l \<Rightarrow> max l t), hi)"
| "add_bound (Lt, t) (lo, hi) = (lo, Some (case hi of None \<Rightarrow> t | Some h \<Rightarrow> min h t))"

definition merged_interval :: "(bop \<times> nat) list list \<Rightarrow> interval" where
  "merged_interval groups = fold add_bound (concat groups) (None, None)"

definition empty_interval :: "interval \<Rightarrow> bool" where
  "empty_interval i =
     (case i of (Some lo, Some hi) \<Rightarrow> lo \<ge> hi | _ \<Rightarrow> False)"

datatype mint_reason =
    RedundantThreshold | EmptyBand | UnsupportedBand | Unreachable
  | DeadMom | DeadDip | DeadDepth | Filler | CanonicalTested

definition drop_nth :: "nat \<Rightarrow> 'a list \<Rightarrow> 'a list" where
  "drop_nth i xs = take i xs @ drop (Suc i) xs"

definition group_bound_reason :: "atom list \<Rightarrow> mint_reason option" where
  "group_bound_reason grp =
     (if grp = [] then None
      else
        let full = merged_interval (map at_bounds grp) in
        if empty_interval full then Some EmptyBand
        else if length grp = 1 then None
        else if \<not> list_all at_supported grp then Some UnsupportedBand
        else if list_ex (\<lambda>i. merged_interval (map at_bounds (drop_nth i grp)) = full) [0..<length grp]
        then Some RedundantThreshold
        else None)"

definition atom_key :: "atom \<Rightarrow> string \<times> string \<times> nat list" where
  "atom_key a = (at_family a, at_side a, at_params a)"

definition groups_of :: "atom list \<Rightarrow> atom list list" where
  "groups_of xs = map (\<lambda>a. filter (\<lambda>b. atom_key b = atom_key a) xs) (first_by atom_key [] xs)"

fun first_some :: "('a \<Rightarrow> 'b option) \<Rightarrow> 'a list \<Rightarrow> 'b option" where
  "first_some f [] = None"
| "first_some f (x # xs) = (case f x of Some y \<Rightarrow> Some y | None \<Rightarrow> first_some f xs)"

definition redundant_bound_reason :: "string \<Rightarrow> mint_reason option" where
  "redundant_bound_reason name =
     (if name = [] then None else first_some group_bound_reason (groups_of (parsed_atoms (atoms_of name))))"

section \<open>Reachable moves\<close>

text \<open>
  The last case is \<open>max(14, min(est, 40))\<close> with \<open>est\<close> twice the rounded-up square root, found
  here by search below the ceiling 40.
\<close>

definition static_cap :: "nat \<Rightarrow> nat" where
  "static_cap lookback =
     (let n = max 1 lookback in
      if n \<le> 6 then 4 else if n \<le> 12 then 6 else if n \<le> 36 then 8
      else if n \<le> 48 then 10 else if n \<le> 96 then 14
      else max 14 (case List.find (\<lambda>k. n \<le> k * k) [0..<20] of None \<Rightarrow> 40 | Some k \<Rightarrow> 2 * k))"

definition max_move_pct :: "(nat \<Rightarrow> rat option) \<Rightarrow> nat \<Rightarrow> rat" where
  "max_move_pct tape lookback =
     (case tape lookback of None \<Rightarrow> of_nat (static_cap lookback) | Some x \<Rightarrow> x)"

definition unreachable_threshold_reason :: "(nat \<Rightarrow> rat option) \<Rightarrow> string \<Rightarrow> mint_reason option" where
  "unreachable_threshold_reason tape name =
     (if name = [] then None
      else first_some
        (\<lambda>t. case match_mom_dip t of
               Some (k, n, pct) \<Rightarrow> if of_nat pct > max_move_pct tape n then Some Unreachable else None
             | None \<Rightarrow> None)
        (map strip (split_at (CHR ''&'') name)))"

section \<open>Dead zones\<close>

definition has_htf_ma :: "atom list \<Rightarrow> bool" where
  "has_htf_ma atoms =
     list_ex (\<lambda>a. (is_prefix ''h1_'' (at_family a) \<or> is_prefix ''h4_'' (at_family a)) \<and>
       ends_with ''_abv'' (at_family a)) atoms"

definition is_filler :: "atom \<Rightarrow> bool" where
  "is_filler a \<longleftrightarrow>
     at_family a \<in> {''sma_abv'', ''ema_abv''} \<or>
     at_family a = ''rsi'' \<and> list_ex (\<lambda>(op, t). op = Gt) (at_bounds a)"

definition dead_move :: "string \<Rightarrow> mint_reason option" where
  "dead_move tok =
     (case match_mom_dip tok of
        None \<Rightarrow> None
      | Some (kind, n, pct) \<Rightarrow>
          if kind = ''mom'' \<and> pct \<ge> 14 then Some DeadMom
          else if kind = ''dip'' \<and> n \<in> {18, 24} \<and> pct \<ge> 5 then Some DeadDip
          else None)"

definition dead_zone_reason :: "string \<Rightarrow> mint_reason option" where
  "dead_zone_reason name =
     (let raw = atoms_of name in
      if name = [] then None
      else if length raw \<ge> 5 then Some DeadDepth
      else case first_some dead_move raw of
          Some r \<Rightarrow> Some r
        | None \<Rightarrow>
            let parsed = parsed_atoms raw in
            if has_htf_ma parsed \<and> list_ex is_filler parsed then Some Filler else None)"

section \<open>Canonical names\<close>

definition bounds_of :: "bop \<Rightarrow> atom list \<Rightarrow> nat list" where
  "bounds_of op grp = map snd (filter (\<lambda>(o', t). o' = op) (concat (map at_bounds grp)))"

definition wanted_bounds :: "atom list \<Rightarrow> (bop \<times> nat) list" where
  "wanted_bounds grp =
     (case bounds_of Gt grp of [] \<Rightarrow> [] | t # ts \<Rightarrow> [(Gt, fold max ts t)]) @
     (case bounds_of Lt grp of [] \<Rightarrow> [] | t # ts \<Rightarrow> [(Lt, fold min ts t)])"

text \<open>The spelling of one bound: an atom that has exactly it, or a new one.\<close>

definition spell_bound :: "atom list \<Rightarrow> bop \<times> nat \<Rightarrow> string" where
  "spell_bound grp b =
     (case List.find (\<lambda>a. at_bounds a = [b]) grp of
        Some a \<Rightarrow> at_raw a
      | None \<Rightarrow>
          let s = hd grp in
          if at_family s = ''rsi'' \<and> at_params s \<noteq> [] then
            ''rsi_'' @ show_nat (hd (at_params s)) @ ''_'' @ (if fst b = Gt then ''>'' else ''<'') @ show_nat (snd b)
          else if at_family s \<in> {''mom'', ''dip''} \<and> at_params s \<noteq> [] then
            at_family s @ ''_'' @ show_nat (hd (at_params s)) @ ''b_'' @
              (if at_family s = ''mom'' then ''gt'' else ''lt'') @ show_nat (snd b) @ ''pc''
          else at_raw s)"

definition strict_raw :: "atom list \<Rightarrow> string list" where
  "strict_raw grp =
     (if grp = [] then []
      else if \<not> list_ex (\<lambda>a. at_bounds a \<noteq> []) grp then [at_raw (hd grp)]
      else
        let wanted = wanted_bounds grp in
        case List.find (\<lambda>a. set (at_bounds a) = set wanted) grp of
          Some a \<Rightarrow> [at_raw a]
        | None \<Rightarrow> map (spell_bound grp) wanted)"

definition canonical_atoms :: "string \<Rightarrow> string list" where
  "canonical_atoms name =
     (let toks = atoms_of name in
      sort (concat (map strict_raw (groups_of (parsed_atoms toks))) @ filter (\<lambda>t. inspect_atom t = None) toks))"

definition canonical_name :: "string \<Rightarrow> string" where
  "canonical_name name = join_with ''&'' (canonical_atoms name)"

definition canonical_keys :: "string list \<Rightarrow> string list" where
  "canonical_keys names =
     filter (\<lambda>k. k \<noteq> []) (map canonical_name (filter (\<lambda>n. n \<noteq> []) names))"

definition canonical_tested_reason :: "string \<Rightarrow> string list \<Rightarrow> mint_reason option" where
  "canonical_tested_reason name keys =
     (if keys = [] then None
      else if canonical_name name \<noteq> [] \<and> canonical_name name \<in> set keys then Some CanonicalTested
      else None)"

definition or_else :: "'a option \<Rightarrow> 'a option \<Rightarrow> 'a option" where
  "or_else x y = (case x of Some a \<Rightarrow> Some a | None \<Rightarrow> y)"

definition mint_block_reason :: "(nat \<Rightarrow> rat option) \<Rightarrow> string \<Rightarrow> string list \<Rightarrow> mint_reason option" where
  "mint_block_reason tape name keys =
     or_else (dead_zone_reason name)
       (or_else (redundant_bound_reason name)
         (or_else (unreachable_threshold_reason tape name) (canonical_tested_reason name keys)))"

end
