(* ===== verification/MintFacts.thy ===== *)
theory MintFacts
  imports MintQuality
begin

text \<open>
  What the bound rules of the mint gate mean: an empty band has no value, a redundant stack
  has an atom the others imply, an accepted stack has neither; and what the canonical form
  of a name does not depend on.
\<close>

section \<open>Values inside the bounds\<close>

fun satisfies :: "rat \<Rightarrow> bop \<times> nat \<Rightarrow> bool" where
  "satisfies x (Gt, t) = (of_nat t < x)"
| "satisfies x (Lt, t) = (x < of_nat t)"

definition in_interval :: "rat \<Rightarrow> interval \<Rightarrow> bool" where
  "in_interval x i =
     ((case fst i of None \<Rightarrow> True | Some l \<Rightarrow> of_nat l < x) \<and>
      (case snd i of None \<Rightarrow> True | Some h \<Rightarrow> x < of_nat h))"

definition allows :: "atom list \<Rightarrow> rat \<Rightarrow> bool" where
  "allows grp x \<longleftrightarrow> (\<forall>a \<in> set grp. \<forall>b \<in> set (at_bounds a). satisfies x b)"

lemma in_add_bound: "in_interval x (add_bound b i) \<longleftrightarrow> satisfies x b \<and> in_interval x i"
  by (cases "(b, i)" rule: add_bound.cases)
     (auto simp: in_interval_def max_def min_def not_le split: option.splits
       dest: less_le_trans le_less_trans order.strict_trans)

lemma in_fold_bounds:
  "in_interval x (fold add_bound bs i) \<longleftrightarrow> (\<forall>b \<in> set bs. satisfies x b) \<and> in_interval x i"
  by (induction bs arbitrary: i) (auto simp: in_add_bound)

lemma in_merged: "in_interval x (merged_interval (map at_bounds grp)) \<longleftrightarrow> allows grp x"
  by (auto simp: merged_interval_def in_fold_bounds allows_def in_interval_def [of _ "(None, None)"])

lemma nonempty_interval: "\<not> empty_interval i \<longleftrightarrow> (\<exists>x. in_interval x i)"
proof
  assume ne: "\<not> empty_interval i"
  obtain lo hi where i: "i = (lo, hi)" by fastforce
  show "\<exists>x. in_interval x i"
  proof (cases lo; cases hi)
    fix l h assume "lo = Some l" "hi = Some h"
    moreover from this ne i have "of_nat l < (of_nat h :: rat)" by (simp add: empty_interval_def)
    then obtain x :: rat where "of_nat l < x" "x < of_nat h" using dense by blast
    ultimately show ?thesis by (auto simp: in_interval_def i)
  next
    fix l assume "lo = Some l" "hi = None"
    then have "in_interval (of_nat l + 1) i" by (simp add: in_interval_def i)
    then show ?thesis ..
  next
    fix h assume "lo = None" "hi = Some h"
    then have "in_interval (of_nat h - 1) i" by (simp add: in_interval_def i)
    then show ?thesis ..
  qed (auto simp: in_interval_def i)
next
  assume "\<exists>x. in_interval x i"
  then obtain x where x: "in_interval x i" ..
  have "l < h" if "fst i = Some l" "snd i = Some h" for l h
  proof -
    from x that have "of_nat l < x" "x < of_nat h" by (simp_all add: in_interval_def)
    then have "of_nat l < (of_nat h :: rat)" by (rule less_trans)
    then show ?thesis by simp
  qed
  then show "\<not> empty_interval i"
    by (cases i; cases "fst i"; cases "snd i") (auto simp: empty_interval_def not_le)
qed

lemma lower_le:
  assumes "in_interval x i" "in_interval x j" "\<forall>y. in_interval y i \<longrightarrow> in_interval y j"
    and "fst j = Some b"
  shows "\<exists>a. fst i = Some a \<and> b \<le> a"
proof (cases "fst i")
  case None
  let ?y = "min x (of_nat b)"
  have "in_interval ?y i" using assms(1) None by (auto simp: in_interval_def min_def split: option.splits)
  with assms(3,4) have "of_nat b < ?y" by (auto simp: in_interval_def)
  then show ?thesis by simp
next
  case (Some a)
  show ?thesis
  proof (rule ccontr)
    assume "\<not> (\<exists>a. fst i = Some a \<and> b \<le> a)"
    with Some have ab: "(of_nat a :: rat) < of_nat b" by simp
    let ?y = "(of_nat a + of_nat b) / 2 :: rat"
    have "of_nat b < x" using assms(2,4) by (simp add: in_interval_def)
    with ab have y: "of_nat a < ?y" "?y < of_nat b" "?y < x" by (auto simp: field_simps)
    then have "in_interval ?y i" using assms(1) Some
      by (auto simp: in_interval_def split: option.splits)
    with assms(3,4) y show False by (auto simp: in_interval_def)
  qed
qed

lemma upper_le:
  assumes "in_interval x i" "in_interval x j" "\<forall>y. in_interval y i \<longrightarrow> in_interval y j"
    and "snd j = Some b"
  shows "\<exists>a. snd i = Some a \<and> a \<le> b"
proof (cases "snd i")
  case None
  let ?y = "max x (of_nat b)"
  have "in_interval ?y i" using assms(1) None by (auto simp: in_interval_def max_def split: option.splits)
  with assms(3,4) have "?y < of_nat b" by (auto simp: in_interval_def)
  then show ?thesis by simp
next
  case (Some a)
  show ?thesis
  proof (rule ccontr)
    assume "\<not> (\<exists>a. snd i = Some a \<and> a \<le> b)"
    with Some have ab: "(of_nat b :: rat) < of_nat a" by simp
    let ?y = "(of_nat a + of_nat b) / 2 :: rat"
    have "x < of_nat b" using assms(2,4) by (simp add: in_interval_def)
    with ab have y: "?y < of_nat a" "of_nat b < ?y" "x < ?y" by (auto simp: field_simps)
    then have "in_interval ?y i" using assms(1) Some
      by (auto simp: in_interval_def split: option.splits)
    with assms(3,4) y show False by (auto simp: in_interval_def)
  qed
qed

text \<open>Two intervals that hold some value are equal when they hold the same values.\<close>

lemma interval_eq:
  assumes "in_interval x i" "\<forall>y. in_interval y i \<longleftrightarrow> in_interval y j"
  shows "i = j"
proof -
  have x: "in_interval x j" using assms by blast
  have "fst i = fst j"
    using lower_le [OF assms(1) x] lower_le [OF x assms(1)] assms(2)
    by (cases "fst i"; cases "fst j") fastforce+
  moreover have "snd i = snd j"
    using upper_le [OF assms(1) x] upper_le [OF x assms(1)] assms(2)
    by (cases "snd i"; cases "snd j") fastforce+
  ultimately show ?thesis by (simp add: prod_eq_iff)
qed

lemma merged_eq_iff:
  assumes "allows grp x"
  shows "merged_interval (map at_bounds grp') = merged_interval (map at_bounds grp) \<longleftrightarrow>
    (\<forall>y. allows grp' y \<longleftrightarrow> allows grp y)"
proof
  assume "merged_interval (map at_bounds grp') = merged_interval (map at_bounds grp)"
  then show "\<forall>y. allows grp' y \<longleftrightarrow> allows grp y" using in_merged [of _ grp] in_merged [of _ grp'] by simp
next
  assume "\<forall>y. allows grp' y \<longleftrightarrow> allows grp y"
  then have "\<forall>y. in_interval y (merged_interval (map at_bounds grp)) \<longleftrightarrow>
      in_interval y (merged_interval (map at_bounds grp'))"
    by (simp add: in_merged)
  then show "merged_interval (map at_bounds grp') = merged_interval (map at_bounds grp)"
    using interval_eq assms by (metis in_merged)
qed

lemma drop_nth_allows: "allows grp x \<Longrightarrow> allows (drop_nth i grp) x"
  by (auto simp: allows_def drop_nth_def dest: in_set_takeD in_set_dropD)

lemma allows_drop_nth: "i < length grp \<Longrightarrow> allows grp x \<longleftrightarrow> allows (drop_nth i grp) x \<and> allows [grp ! i] x"
proof -
  assume i: "i < length grp"
  have "set grp = set (take i grp @ grp ! i # drop (Suc i) grp)"
    by (rule arg_cong [OF id_take_nth_drop [OF i], of set])
  also have "\<dots> = insert (grp ! i) (set (drop_nth i grp))" by (simp add: drop_nth_def)
  finally have "set grp = insert (grp ! i) (set (drop_nth i grp))" .
  then have "allows grp x \<longleftrightarrow>
      (\<forall>a \<in> insert (grp ! i) (set (drop_nth i grp)). \<forall>b \<in> set (at_bounds a). satisfies x b)"
    unfolding allows_def by (rule arg_cong)
  then show ?thesis by (simp add: allows_def conj_commute)
qed

lemma group_reason_none_iff:
  assumes "grp \<noteq> []" "list_all at_supported grp"
  shows "group_bound_reason grp = None \<longleftrightarrow>
    (\<exists>x. allows grp x) \<and>
    (length grp = 1 \<or> (\<forall>i < length grp. \<exists>y. allows (drop_nth i grp) y \<and> \<not> allows [grp ! i] y))"
proof (cases "\<exists>x. allows grp x")
  case False
  then have "empty_interval (merged_interval (map at_bounds grp))"
    using nonempty_interval [of "merged_interval (map at_bounds grp)"] by (simp add: in_merged)
  with False assms show ?thesis by (simp add: group_bound_reason_def Let_def)
next
  case True
  then obtain x where x: "allows grp x" by blast
  then have ne: "\<not> empty_interval (merged_interval (map at_bounds grp))"
    using nonempty_interval [of "merged_interval (map at_bounds grp)"] by (auto simp: in_merged)
  have "merged_interval (map at_bounds (drop_nth i grp)) = merged_interval (map at_bounds grp) \<longleftrightarrow>
      (\<forall>y. allows (drop_nth i grp) y \<longrightarrow> allows [grp ! i] y)" if "i < length grp" for i
    using merged_eq_iff [OF x, of "drop_nth i grp"] allows_drop_nth [OF that] by blast
  then show ?thesis
    using True assms ne by (auto simp: group_bound_reason_def Let_def list_ex_iff)
qed

end
