(* ===== verification/Universe.thy ===== *)
theory Universe
  imports MintFacts
begin

text \<open>
  The leftover universe of \<open>trading/universe.py\<close>: the static names, the near-duplicate key
  that collapses small parameter changes, and the untested candidates of a claim.
\<close>

section \<open>The static names\<close>

definition NEW_STRUCTURE_ANDS :: "string list" where
  "NEW_STRUCTURE_ANDS =
    [''dip_6b_lt2pc&don_lo_12'', ''dip_12b_lt3pc&don_lo_12'', ''dip_24b_lt5pc&don_lo_36'',
     ''dip_6b_lt2pc&near_swing_lo_18'', ''dip_12b_lt3pc&near_swing_lo_12'',
     ''dip_24b_lt5pc&near_swing_lo_18'', ''mom_6b_gt2pc&don_hi_12'',
     ''mom_12b_gt3pc&don_hi_12'', ''mom_12b_gt3pc&don_hi_36'', ''mom_24b_gt5pc&don_hi_36'',
     ''mom_6b_gt2pc&near_swing_hi_12'', ''mom_12b_gt3pc&near_swing_hi_18'',
     ''mom_24b_gt5pc&near_swing_hi_12'', ''dbl_bot_18'', ''dbl_bot_18&sma_abv_50'',
     ''dbl_bot_18&don_lo_24'', ''dbl_bot_24'', ''dbl_bot_24&sma_stack_20_50_100'',
     ''dbl_bot_18&ema_abv_50'', ''don_hi_12'', ''don_hi_36'']"

definition universe_stacks :: "nat list list" where
  "universe_stacks = [[5, 20, 50], [7, 25, 50], [8, 21, 55], [10, 20, 50], [13, 34, 89], [20, 50, 100]]"

definition universe_names :: "string list" where
  "universe_names =
    [''rsi_7_>45'', ''rsi_14_>50'', ''rsi_14_>40'', ''rsi_21_>50'', ''rsi_14_>50_<70'',
     ''rsi_14_>40_<70'', ''mom_6b_gt2pc'', ''mom_12b_gt3pc'', ''mom_24b_gt5pc'',
     ''dip_6b_lt2pc'', ''dip_12b_lt3pc'', ''dip_24b_lt5pc'', ''bb_lower_20_2'',
     ''bb_upper_20_2'', ''vol_lowsm_20_90'', ''sma_stack'', ''dip_6b_lt2pc&sma_abv_50'',
     ''dip_12b_lt3pc&sma_abv_100'', ''mom_12b_gt3pc&sma_abv_50'',
     ''mom_12b_gt3pc&sma_stack_7_25_50'', ''rsi_14_>50&sma_abv_50'',
     ''rsi_14_>50&sma_stack_7_25_50'', ''bb_lower_20_2&sma_abv_50'',
     ''dip_6b_lt2pc&ema_abv_50'', ''rsi_14_>40_<70&sma_abv_50'', ''mom_24b_gt5pc&sma_abv_200'',
     ''rsi_21_>50&sma_abv_100'', ''dip_12b_lt3pc&ema_abv_50'',
     ''bb_lower_20_2&sma_stack_20_50_100'', ''mom_6b_gt2pc&sma_abv_20'',
     ''rsi_7_>45&sma_abv_50'', ''don_hi_24'', ''dip_6b_lt2pc&near_swing_lo_12'',
     ''dip_12b_lt3pc&don_lo_24'', ''mom_12b_gt3pc&don_hi_24'', ''sma_abv_50&don_hi_24'',
     ''rsi_14_>50&don_hi_24'', ''dip_6b_lt2pc&don_lo_24'', ''ema_abv_50&don_hi_24'',
     ''sma_stack_20_50_100&don_hi_24'', ''dbl_bot_12'', ''dbl_bot_12&sma_abv_50'',
     ''dbl_bot_12&don_lo_24'', ''dbl_bot_12&sma_stack_20_50_100'', ''wt_cross_up_os'',
     ''wt_cross_up_os&sma_abv_50'', ''wt_cross_up_os&sma_stack_20_50_100'',
     ''wt_cross_up_os&don_lo_24'']"

definition generate_universe :: "string list" where
  "generate_universe =
     sort (remdups
       (concat (map (\<lambda>c. let s = join_with ''_'' (map show_nat c) in [''sma_stack_'' @ s, ''ema_stack_'' @ s])
          universe_stacks) @
        map (\<lambda>ma. ''sma_abv_'' @ show_nat ma) [20, 50, 100, 200] @
        map (\<lambda>ma. ''ema_abv_'' @ show_nat ma) [20, 50, 100] @
        universe_names @ NEW_STRUCTURE_ANDS))"

text \<open>\<open>discovery_universe\<close> (\<open>trading/refill.py\<close>): the static names and the refilled ones.\<close>

definition discovery_universe :: "string list \<Rightarrow> string list" where
  "discovery_universe extended =
     sort (remdups (generate_universe @ filter (\<lambda>n. n \<noteq> []) extended))"

section \<open>Near duplicates\<close>

definition round_multiple :: "nat \<Rightarrow> nat \<Rightarrow> nat" where
  "round_multiple k n = nat (round_even (of_nat n / of_nat k)) * k"

definition or_default :: "nat \<Rightarrow> nat \<Rightarrow> nat" where
  "or_default n d = (if n = 0 then d else n)"

definition round_period :: "nat \<Rightarrow> nat" where
  "round_period n =
     (if n < 10 then (if n < 8 then 5 else 10)
      else if n < 40 then or_default (round_multiple 5 n) 5
      else or_default (round_multiple 10 n) 10)"

text \<open>\<open>sma_stack_\<close> or \<open>ema_stack_\<close> with periods; the bare stack is a separate case.\<close>

definition canon_stack :: "string \<Rightarrow> string option" where
  "canon_stack atom =
     (case match_stack atom of
        Some (f, ps) \<Rightarrow>
          if length atom > 9
          then Some (f @ ''_'' @ join_with ''_'' (map (show_nat \<circ> round_period) ps)) else None
      | None \<Rightarrow> None)"

definition canon_rsi :: "string \<Rightarrow> string option" where
  "canon_rsi atom =
     (case match_atom [PLit ''rsi_'', PNum, PLit ''_>'', PNum] atom of
        Some [p, lo] \<Rightarrow>
          Some (''rsi_'' @ show_nat (round_period p) @ ''_>'' @ show_nat (round_multiple 5 lo))
      | _ \<Rightarrow>
     (case match_atom [PLit ''rsi_'', PNum, PLit ''_>'', PNum, PLit ''_<'', PNum] atom of
        Some [p, lo, hi] \<Rightarrow>
          Some (''rsi_'' @ show_nat (round_period p) @ ''_>'' @ show_nat (round_multiple 5 lo)
                @ ''_<'' @ show_nat (round_multiple 5 hi))
      | _ \<Rightarrow>
     (case match_atom [PLit ''rsi_'', PNum, PLit ''_<'', PNum] atom of
        Some [p, hi] \<Rightarrow>
          Some (''rsi_'' @ show_nat (round_period p) @ ''_<'' @ show_nat (round_multiple 5 hi))
      | _ \<Rightarrow> None)))"

definition move_patterns :: "(string \<times> apat list) list" where
  "move_patterns =
     concat (map (\<lambda>k. map (\<lambda>w. (k @ w, [PLit (k @ ''_''), PNum, PLit (''b_'' @ w), PNum, PLit ''pc'']))
       [''gt'', ''lt'']) [''mom'', ''dip''])"

definition canon_move :: "string \<Rightarrow> string option" where
  "canon_move atom =
     (case first_match move_patterns atom of
        Some (kw, [n, pct]) \<Rightarrow>
          Some (take 3 kw @ ''_'' @ show_nat (or_default (round_multiple 6 n) 6) @ ''b_'' @ drop 3 kw
                @ show_nat (or_default (round_multiple 2 pct) 2) @ ''pc'')
      | _ \<Rightarrow> None)"

text \<open>The last number of a Bollinger atom is kept as it is spelled.\<close>

definition canon_bb :: "string \<Rightarrow> string option" where
  "canon_bb atom =
     (case first_match [(''lower'', [PLit ''bb_lower_'', PNum, PLit ''_'', PNum]),
                        (''upper'', [PLit ''bb_upper_'', PNum, PLit ''_'', PNum])] atom of
        Some (side, [n, k]) \<Rightarrow>
          Some (''bb_'' @ side @ ''_'' @ show_nat (round_period n) @ ''_''
                @ drop 1 (dropWhile is_digit (drop 9 atom)))
      | _ \<Rightarrow> None)"

definition canon_atom :: "string \<Rightarrow> string" where
  "canon_atom atom =
     (case canon_stack atom of Some s \<Rightarrow> s
      | None \<Rightarrow> (case first_match plain_patterns atom of
          Some (f, [n]) \<Rightarrow> f @ ''_'' @ show_nat (round_period n)
      | _ \<Rightarrow> (case canon_rsi atom of Some s \<Rightarrow> s
      | None \<Rightarrow> (case canon_move atom of Some s \<Rightarrow> s
      | None \<Rightarrow> (case canon_bb atom of Some s \<Rightarrow> s
      | None \<Rightarrow> (case match_atom [PLit ''vol_lowsm_'', PNum, PLit ''_'', PNum] atom of
          Some [n, k] \<Rightarrow> ''vol_lowsm_'' @ show_nat (round_period n) @ ''_'' @ show_nat (round_period k)
      | _ \<Rightarrow> (case first_match struct_patterns atom of
          Some (f, [n]) \<Rightarrow> f @ ''_'' @ show_nat (or_default (round_multiple 6 n) 6)
      | _ \<Rightarrow> if atom = ''sma_stack'' then ''sma_stack_5_25_50'' else atom)))))))"

definition near_duplicate_key :: "string \<Rightarrow> string" where
  "near_duplicate_key name = join_with ''&'' (sort (map canon_atom (atoms_of name)))"

section \<open>Untested candidates\<close>

fun untested_from :: "(nat \<Rightarrow> rat option) \<Rightarrow> string list \<Rightarrow> string list \<Rightarrow> string list \<Rightarrow> string list" where
  "untested_from tape blocked taken [] = []"
| "untested_from tape blocked taken (cand # cands) =
     (if cand \<in> set blocked then untested_from tape blocked taken cands
      else if mint_block_reason tape cand [] \<noteq> None then untested_from tape blocked taken cands
      else if near_duplicate_key cand \<in> set taken then untested_from tape blocked taken cands
      else cand # untested_from tape blocked (near_duplicate_key cand # taken) cands)"

definition untested_candidates :: "(nat \<Rightarrow> rat option) \<Rightarrow> string list \<Rightarrow> string list \<Rightarrow> string list" where
  "untested_candidates tape blocked names =
     untested_from tape blocked (map near_duplicate_key blocked) names"

lemma untested_from_in:
  "n \<in> set (untested_from tape blocked taken names) \<Longrightarrow>
     n \<in> set names \<and> n \<notin> set blocked \<and> mint_block_reason tape n [] = None \<and>
     near_duplicate_key n \<notin> set taken"
proof (induction names arbitrary: taken)
  case (Cons c names)
  then show ?case
    using Cons.IH [of "near_duplicate_key c # taken"] Cons.IH [of taken]
    by (auto split: if_splits)
qed simp

lemma untested_from_distinct: "distinct (map near_duplicate_key (untested_from tape blocked taken names))"
proof (induction names arbitrary: taken)
  case (Cons c names)
  have "near_duplicate_key c \<notin>
      set (map near_duplicate_key (untested_from tape blocked (near_duplicate_key c # taken) names))"
    by (auto dest!: untested_from_in)
  then show ?case
    using Cons.IH by (simp del: set_map)
qed simp

text \<open>No two candidates, and no candidate and a blocked name, share a near-duplicate key.\<close>

lemma untested_candidates_facts:
  "n \<in> set (untested_candidates tape blocked names) \<Longrightarrow>
     n \<in> set names \<and> n \<notin> set blocked \<and> mint_block_reason tape n [] = None \<and>
     near_duplicate_key n \<notin> near_duplicate_key ` set blocked"
  unfolding untested_candidates_def by (drule untested_from_in) simp

end
