(* ===== verification/DiscoveryLog.thy ===== *)
theory DiscoveryLog
  imports Universe
begin

text \<open>
  The display log of \<open>trading/discovery.py\<close>: a base array with an append-only delta, the merge a
  reader sees, appends, compaction and bulk rewrites, the leftover batch of a cycle, the
  in-flight file and the cursor. Together with the tested-name index it is what makes a name
  fail once. The in-process caches are keyed by the files and are not modelled.
\<close>

section \<open>Files\<close>

definition DISCOVERY_LOG_CAP :: nat where "DISCOVERY_LOG_CAP = 10000"
definition DISCOVER_CYCLE_MAX_NAMES :: nat where "DISCOVER_CYCLE_MAX_NAMES = 1"

record log_files =
  lf_base :: "jv option"
  lf_delta :: "journal option"

definition read_json_array :: "jv option \<Rightarrow> jv list" where
  "read_json_array f = (case f of Some (JList xs) \<Rightarrow> filter is_dict xs | _ \<Rightarrow> [])"

text \<open>A partial last line is ignored, a line that does not parse is skipped.\<close>

definition read_delta_newest_first :: "journal option \<Rightarrow> jv list" where
  "read_delta_newest_first f =
     (case f of None \<Rightarrow> []
      | Some jn \<Rightarrow> rev (filter is_dict (List.map_filter line_value (jn_lines jn))))"

text \<open>Two spellings of one instant do not occur: every writer prints it one way.\<close>

definition row_key :: "jv \<Rightarrow> (string \<times> jv) option" where
  "row_key row =
     (case as_str (jget row ''strategy'') of
        None \<Rightarrow> None
      | Some n \<Rightarrow>
          if n \<noteq> [] \<and> is_str (jget row ''tested_at'') \<and> truthy (jget row ''tested_at'')
          then Some (n, jget row ''tested_at'') else None)"

fun fresh_rows :: "(string \<times> jv) set \<Rightarrow> jv list \<Rightarrow> jv list" where
  "fresh_rows seen [] = []"
| "fresh_rows seen (row # rows) =
     (case row_key row of
        None \<Rightarrow> row # fresh_rows seen rows
      | Some k \<Rightarrow> if k \<in> seen then fresh_rows seen rows else row # fresh_rows (insert k seen) rows)"

definition row_keys :: "jv list \<Rightarrow> (string \<times> jv) set" where
  "row_keys rows = set (List.map_filter row_key rows)"

definition read_discovery_log :: "log_files \<Rightarrow> jv list" where
  "read_discovery_log lf =
     (let base = read_json_array (lf_base lf); extra = read_delta_newest_first (lf_delta lf)
      in if extra = [] then base
         else take DISCOVERY_LOG_CAP (fresh_rows (row_keys base) extra @ base))"

section \<open>Appends\<close>

text \<open>\<open>_append_delta\<close>: oldest first; a partial line left by a crash is closed.\<close>

definition append_delta :: "jv list \<Rightarrow> log_files \<Rightarrow> log_files" where
  "append_delta records lf =
     (let jn = (case lf_delta lf of None \<Rightarrow> \<lparr>jn_lines = [], jn_partial = None\<rparr> | Some jn \<Rightarrow> jn)
      in lf\<lparr>lf_delta := Some \<lparr>jn_lines = jn_lines jn @ (case jn_partial jn of None \<Rightarrow> [] | Some l \<Rightarrow> [l])
              @ map JLine (rev records), jn_partial = None\<rparr>\<rparr>)"

text \<open>A crash in the middle of an append leaves some of the lines and a partial one.\<close>

definition crash_append :: "jv list \<Rightarrow> jline option \<Rightarrow> log_files \<Rightarrow> log_files" where
  "crash_append written part lf =
     (let lf' = append_delta (rev written) lf
      in lf'\<lparr>lf_delta := map_option (\<lambda>jn. jn\<lparr>jn_partial := part\<rparr>) (lf_delta lf')\<rparr>)"

record disc_files =
  df_log :: log_files
  df_tested :: tested_files

fun overlay_rows :: "jv list \<Rightarrow> tested_files \<Rightarrow> tested_files" where
  "overlay_rows [] tf = tf"
| "overlay_rows (row # rows) tf =
     overlay_rows rows
       (case row_name row of
          None \<Rightarrow> tf
        | Some n \<Rightarrow> append_tested_overlay n (truthy (jget row ''qualified'')) (metric_from_row row) tf)"

text \<open>
  \<open>_append_batch_locked\<close>. The returned list is also what the process remembers as the parsed
  log; \<open>reader_agrees\<close> shows that it is what a reader of the files sees.
\<close>

definition append_batch :: "nat \<Rightarrow> jv list \<Rightarrow> disc_files \<Rightarrow> disc_files \<times> jv list" where
  "append_batch cap records df =
     (df\<lparr>df_tested := overlay_rows records (df_tested df), df_log := append_delta records (df_log df)\<rparr>,
      take cap (records @ read_discovery_log (df_log df)))"

text \<open>
  \<open>append_discovery_evaluations\<close>; \<open>still_valid\<close> is the answer of that callback under the lock.
\<close>

definition append_discovery_evaluations ::
    "jv list \<Rightarrow> bool \<Rightarrow> disc_files \<Rightarrow> disc_files \<times> jv list option" where
  "append_discovery_evaluations records still_valid df =
     (if records = [] then (df, Some (read_discovery_log (df_log df)))
      else if \<not> still_valid then (df, None)
      else map_prod id Some (append_batch DISCOVERY_LOG_CAP records df))"

section \<open>Compaction and bulk rewrites\<close>

text \<open>
  \<open>_compact_log\<close> encodes outside the lock: \<open>seen\<close> are the files of the first locked section,
  \<open>lf\<close> those of the second. The write is skipped when they differ; the code compares the stamps and sizes of the files, the model their contents. \<open>log_base_installed\<close> is the state of
  a crash between the two writes.
\<close>

definition log_base_installed :: "jv list \<Rightarrow> log_files \<Rightarrow> log_files" where
  "log_base_installed rows lf = lf\<lparr>lf_base := Some (JList rows)\<rparr>"

definition write_log :: "jv list \<Rightarrow> log_files \<Rightarrow> log_files" where
  "write_log rows lf = (log_base_installed rows lf)\<lparr>lf_delta := None\<rparr>"

definition compact_log :: "log_files \<Rightarrow> log_files \<Rightarrow> log_files" where
  "compact_log seen lf = (if lf \<noteq> seen then lf else write_log (read_discovery_log seen) lf)"

definition compact_tested_index :: "string \<Rightarrow> tested_files \<Rightarrow> tested_files \<Rightarrow> tested_files" where
  "compact_tested_index gen seen tf =
     (if tf \<noteq> seen then tf
      else let (flags, metrics) = derived_now seen in replace_tested_base gen flags (sort_key fst metrics) tf)"

definition save_discovery_log :: "string \<Rightarrow> jv list \<Rightarrow> disc_files \<Rightarrow> disc_files" where
  "save_discovery_log gen rows df =
     df\<lparr>df_log := write_log rows (df_log df), df_tested := ensure_tested_index gen rows (df_tested df)\<rparr>"

section \<open>Reading the log\<close>

text \<open>The code's rows name their strategy by a string.\<close>

fun latest_from :: "string list \<Rightarrow> jv list \<Rightarrow> jv list" where
  "latest_from seen [] = []"
| "latest_from seen (row # rows) =
     (case row_name row of
        None \<Rightarrow> latest_from seen rows
      | Some n \<Rightarrow> if n \<in> set seen then latest_from seen rows else row # latest_from (n # seen) rows)"

definition latest_eval_per_strategy :: "jv list \<Rightarrow> jv list" where
  "latest_eval_per_strategy rows = latest_from [] rows"

fun newest_from :: "(int \<times> jv) option \<Rightarrow> jv list \<Rightarrow> (int \<times> jv) option" where
  "newest_from best [] = best"
| "newest_from best (row # rows) =
     newest_from
       (case parse_tested_at (jget row ''tested_at'') of
          None \<Rightarrow> best
        | Some ts \<Rightarrow> (case best of None \<Rightarrow> Some (ts, row) | Some (b, r) \<Rightarrow> if b < ts then Some (ts, row) else best))
       rows"

definition newest_eval :: "jv list \<Rightarrow> jv option" where
  "newest_eval rows = map_option snd (newest_from None rows)"

definition utc_day :: "int \<Rightarrow> int" where
  "utc_day t = t div sec 86400"

definition evals_on_utc_date :: "jv list \<Rightarrow> int \<Rightarrow> nat" where
  "evals_on_utc_date rows day =
     length (filter (\<lambda>row. case parse_tested_at (jget row ''tested_at'') of
        None \<Rightarrow> False | Some ts \<Rightarrow> utc_day ts = utc_day day) rows)"

text \<open>\<open>failed_discovery_names\<close> with a given log\<close>

definition failed_discovery_names :: "jv list \<Rightarrow> tested_files \<Rightarrow> string list" where
  "failed_discovery_names rows tf =
     map fst (filter (\<lambda>(n, q). \<not> q) (flags_for_skip rows tf)) @
     List.map_filter row_name (filter (\<lambda>row. \<not> truthy (jget row ''qualified'')) rows)"

text \<open>\<open>cached_tested_names\<close> folds a log that was written without the index, then unites both.\<close>

definition cached_tested_names :: "string \<Rightarrow> disc_files \<Rightarrow> disc_files \<times> string list" where
  "cached_tested_names gen df =
     (let rows = read_discovery_log (df_log df); tf = ensure_tested_index gen rows (df_tested df)
      in (df\<lparr>df_tested := tf\<rparr>, tested_name_set tf @ List.map_filter row_name rows))"

definition tested_discovery_names :: "jv list \<Rightarrow> tested_files \<Rightarrow> string list" where
  "tested_discovery_names rows tf = dkeys (flags_for_skip rows tf)"

section \<open>The batch of a cycle\<close>

definition prioritize_leftovers :: "string list \<Rightarrow> jv list \<Rightarrow> tested_files \<Rightarrow> string list" where
  "prioritize_leftovers leftovers rows tf =
     filter (\<lambda>n. n \<notin> set (tested_discovery_names rows tf) \<and> n \<notin> set (failed_discovery_names rows tf)) leftovers"

definition rotate_from_cursor :: "string list \<Rightarrow> string option \<Rightarrow> string list" where
  "rotate_from_cursor names cursor =
     (case cursor of
        None \<Rightarrow> names
      | Some c \<Rightarrow>
          if c = [] \<or> c \<notin> set names then names
          else dropWhile (\<lambda>n. n \<noteq> c) names @ takeWhile (\<lambda>n. n \<noteq> c) names)"

definition select_cycle_batch ::
    "string list \<Rightarrow> jv list \<Rightarrow> tested_files \<Rightarrow> int \<Rightarrow> string option \<Rightarrow> string list \<times> string list" where
  "select_cycle_batch leftovers rows tf max_names cursor =
     (let rotated = rotate_from_cursor (prioritize_leftovers leftovers rows tf) cursor
      in (take (nat max_names) rotated, rotated))"

section \<open>In flight and cursor\<close>

definition read_in_flight :: "jv option \<Rightarrow> jv option" where
  "read_in_flight f = (case f of Some v \<Rightarrow> if is_dict v then Some v else None | None \<Rightarrow> None)"

definition first_given :: "jv list \<Rightarrow> jv" where
  "first_given vs = (case filter (\<lambda>v. v \<noteq> JNull) vs of [] \<Rightarrow> JNull | v # _ \<Rightarrow> v)"

definition first_true :: "jv list \<Rightarrow> jv \<Rightarrow> jv" where
  "first_true vs d = (case filter truthy vs of [] \<Rightarrow> d | v # _ \<Rightarrow> v)"

definition write_in_flight ::
    "string list \<Rightarrow> string option \<Rightarrow> string list option \<Rightarrow> string list \<Rightarrow> jv \<Rightarrow> jv \<Rightarrow> string option
      \<Rightarrow> int \<Rightarrow> jv option \<Rightarrow> jv" where
  "write_in_flight names current remaining completed batch_size started_at source now file =
     (let prev = (case read_in_flight file of None \<Rightarrow> JNull | Some v \<Rightarrow> v);
          opt = (\<lambda>s. case s of None \<Rightarrow> JNull | Some x \<Rightarrow> JStr x);
          rem = (case remaining of Some r \<Rightarrow> r | None \<Rightarrow> filter (\<lambda>n. Some n \<noteq> current) names);
          outstanding = (case current of
             Some c \<Rightarrow> if c \<noteq> [] \<and> c \<notin> set names then c # names else names | None \<Rightarrow> names);
          planned = first_given [batch_size, jget prev ''batch_size'',
             JInt (int (length outstanding))]
      in JObj [(''names'', JList (map JStr outstanding)), (''batch_size'', planned),
           (''started_at'', first_true [started_at, jget prev ''started_at''] (iso now)),
           (''source'', first_true [opt source] (JStr ''tournament_engine.py'')),
           (''current'', opt current), (''remaining'', JList (map JStr rem)),
           (''completed'', JList (map JStr completed))])"

definition load_cursor :: "jv option \<Rightarrow> jv" where
  "load_cursor f = (case f of None \<Rightarrow> JObj [] | Some v \<Rightarrow> dict_or_empty v)"

definition save_cursor :: "string option \<Rightarrow> int \<Rightarrow> jv dict \<Rightarrow> jv" where
  "save_cursor next_name now extra =
     JObj (fold (\<lambda>(k, v) d. dset k v d) extra
       [(''next_name'', case next_name of None \<Rightarrow> JNull | Some n \<Rightarrow> JStr n), (''updated_at'', iso now),
        (''source'', JStr ''tournament_engine.py'')])"

end
