(* ===== verification/LogFacts.thy ===== *)
theory LogFacts
  imports DiscoveryLog
begin

text \<open>
  What the display log and the tested-name index guarantee together: a reader sees what the
  writer remembers, compaction and its crash change nothing a reader sees, and a tested name
  stays tested under every operation, so it never enters a batch again.
\<close>

section \<open>Merging base and delta\<close>

lemma row_keys_simps [simp]:
  "row_keys [] = {}"
  "row_keys (xs @ ys) = row_keys xs \<union> row_keys ys"
  by (simp_all add: row_keys_def map_filter_def)

lemma row_keys_Cons [simp]:
  "row_keys (x # xs) = (case row_key x of None \<Rightarrow> row_keys xs | Some k \<Rightarrow> insert k (row_keys xs))"
  by (simp add: row_keys_def map_filter_simps split: option.splits)

lemma row_keys_in: "x \<in> set xs \<Longrightarrow> row_key x = Some k \<Longrightarrow> k \<in> row_keys xs"
  by (induction xs) (auto split: option.splits)

lemma fresh_rows_append:
  "fresh_rows seen (xs @ ys) = fresh_rows seen xs @ fresh_rows (seen \<union> row_keys xs) ys"
  by (induction xs arbitrary: seen) (auto split: option.splits simp: insert_absorb)

lemma fresh_rows_new:
  "distinct (List.map_filter row_key xs) \<Longrightarrow> row_keys xs \<inter> seen = {} \<Longrightarrow> fresh_rows seen xs = xs"
proof (induction xs arbitrary: seen)
  case (Cons x xs)
  then show ?case
    by (cases "row_key x") (auto simp: map_filter_simps row_keys_def)
qed simp

lemma fresh_rows_seen:
  "(\<And>x. x \<in> set xs \<Longrightarrow> \<exists>k. row_key x = Some k \<and> k \<in> seen) \<Longrightarrow> fresh_rows seen xs = []"
proof (induction xs)
  case (Cons x xs)
  obtain k where "row_key x = Some k" "k \<in> seen" using Cons.prems [of x] by auto
  then show ?case using Cons by simp
qed simp

lemma fresh_rows_cong:
  "(\<And>k. k \<in> row_keys xs \<Longrightarrow> k \<in> seen \<longleftrightarrow> k \<in> seen') \<Longrightarrow> fresh_rows seen xs = fresh_rows seen' xs"
proof (induction xs arbitrary: seen seen')
  case (Cons x xs)
  show ?case
  proof (cases "row_key x")
    case None
    then show ?thesis using Cons.IH [of seen seen'] Cons.prems by simp
  next
    case (Some k)
    then have "fresh_rows (insert k seen) xs = fresh_rows (insert k seen') xs"
      using Cons.prems by (intro Cons.IH) auto
    moreover have "fresh_rows seen xs = fresh_rows seen' xs"
      using Some Cons.prems by (intro Cons.IH) auto
    ultimately show ?thesis using Some Cons.prems [of k] by simp
  qed
qed simp

text \<open>No complete row follows the last newline.\<close>

definition torn :: "journal option \<Rightarrow> bool" where
  "torn j \<longleftrightarrow> (case j of None \<Rightarrow> True | Some jn \<Rightarrow> jn_partial jn \<in> {None, Some JBad})"

lemma delta_append:
  assumes "torn (lf_delta lf)" "list_all is_dict recs"
  shows "read_delta_newest_first (lf_delta (append_delta recs lf)) = recs @ read_delta_newest_first (lf_delta lf)"
proof -
  have "filter is_dict recs = recs" using assms(2) by (simp add: list_all_iff filter_id_conv)
  moreover have "List.map_filter line_value (map JLine (rev recs)) = rev recs" for recs
    by (induction recs) (simp_all add: map_filter_def line_value_def)
  ultimately show ?thesis
    using assms(1)
    by (auto simp: append_delta_def Let_def read_delta_newest_first_def torn_def map_filter_def line_value_def
        rev_filter [symmetric] split: option.splits)
qed

lemma append_base [simp]: "lf_base (append_delta recs lf) = lf_base lf"
  by (simp add: append_delta_def Let_def)

lemma read_append_log:
  assumes torn: "torn (lf_delta lf)" and recs: "list_all is_dict recs" "recs \<noteq> []"
    and new: "distinct (List.map_filter row_key recs)"
      "row_keys recs \<inter> (row_keys (read_json_array (lf_base lf)) \<union> row_keys (read_delta_newest_first (lf_delta lf))) = {}"
  shows "read_discovery_log (append_delta recs lf) = take DISCOVERY_LOG_CAP (recs @ read_discovery_log lf)"
proof -
  let ?base = "read_json_array (lf_base lf)" and ?extra = "read_delta_newest_first (lf_delta lf)"
  have "fresh_rows (row_keys ?base) (recs @ ?extra) = recs @ fresh_rows (row_keys ?base \<union> row_keys recs) ?extra"
    using new by (subst fresh_rows_append) (simp add: fresh_rows_new Int_Un_distrib)
  moreover have "fresh_rows (row_keys ?base \<union> row_keys recs) ?extra = fresh_rows (row_keys ?base) ?extra"
    using new(2) by (intro fresh_rows_cong) auto
  ultimately show ?thesis
    using recs by (cases "?extra = []")
      (simp_all add: read_discovery_log_def Let_def delta_append [OF torn recs(1)] min_def)
qed

lemma read_dicts: "list_all is_dict (read_discovery_log lf)"
proof -
  have "list_all is_dict (read_json_array f)" for f
    by (auto simp: read_json_array_def list_all_iff split: option.splits jv.splits)
  moreover have "list_all is_dict (read_delta_newest_first f)" for f
    by (auto simp: read_delta_newest_first_def list_all_iff split: option.splits)
  moreover have "set (fresh_rows seen xs) \<subseteq> set xs" for seen xs
    by (induction seen xs rule: fresh_rows.induct) (auto split: option.splits)
  ultimately show ?thesis
    by (fastforce simp: read_discovery_log_def Let_def list_all_iff dest: in_set_takeD)
qed

lemma read_written: "list_all is_dict rows \<Longrightarrow> read_json_array (Some (JList rows)) = rows"
  by (simp add: read_json_array_def list_all_iff filter_id_conv)

lemma read_write_log [simp]: "list_all is_dict rows \<Longrightarrow> read_discovery_log (write_log rows lf) = rows"
  by (simp add: read_discovery_log_def Let_def write_log_def log_base_installed_def read_delta_newest_first_def
      read_written)

lemma compact_read: "read_discovery_log (compact_log seen lf) = read_discovery_log lf"
  using read_dicts by (auto simp: compact_log_def)

lemma crash_compact_read:
  assumes keyed: "None \<notin> row_key ` set (read_delta_newest_first (lf_delta lf))"
    and shown: "row_keys (read_delta_newest_first (lf_delta lf)) \<subseteq> row_keys (read_discovery_log lf)"
  shows "read_discovery_log (log_base_installed (read_discovery_log lf) lf) = read_discovery_log lf"
proof -
  let ?extra = "read_delta_newest_first (lf_delta lf)" and ?rows = "read_discovery_log lf"
  have "\<exists>k. row_key x = Some k \<and> k \<in> row_keys ?rows" if "x \<in> set ?extra" for x
  proof -
    have "row_key x \<noteq> None" using keyed imageI [OF that, of row_key] by metis
    then obtain k where k: "row_key x = Some k" by blast
    have "k \<in> row_keys ?extra" using that k by (rule row_keys_in)
    then show ?thesis using k shown by blast
  qed
  then have none: "fresh_rows (row_keys ?rows) ?extra = []" by (rule fresh_rows_seen)
  have cap: "length ?rows \<le> DISCOVERY_LOG_CAP" if "?extra \<noteq> []"
    using that by (simp add: read_discovery_log_def Let_def)
  have "read_discovery_log (log_base_installed rows lf) =
      (if ?extra = [] then rows else take DISCOVERY_LOG_CAP (fresh_rows (row_keys rows) ?extra @ rows))"
    if "list_all is_dict rows" for rows
    using that by (simp add: read_discovery_log_def Let_def log_base_installed_def read_written)
  from this [OF read_dicts [of lf]] show ?thesis using none cap by simp
qed

section \<open>A tested name stays tested\<close>

lemma metric_row_ok: "case metric_from_row row of None \<Rightarrow> True | Some m \<Rightarrow> metric_ok m"
  by (auto split: option.splits dest: metric_from_row_ok)

lemma overlay_view:
  assumes tf: "tested_ok tf" and n: "n \<noteq> []" and m: "case m of None \<Rightarrow> True | Some x \<Rightarrow> metric_ok x"
  shows "tested_ok (append_tested_overlay n q m tf) \<and>
    (\<forall>k. dget (fst (derived_now (append_tested_overlay n q m tf))) k =
       (if k = n then Some q else dget (fst (derived_now tf)) k))"
proof -
  obtain flags metrics where d: "derived_now tf = (flags, metrics)" by fastforce
  have ok: "index_ok flags metrics" "journal_ok (tf_journal tf)" using tf d by (auto simp: tested_ok_def)
  let ?l = "journal_line n q m False"
  have one: "list_all is_entry [?l]" using n by (simp add: is_entry_written)
  have lines: "apply_lines [?l] (flags, metrics) =
      (dset n q flags, case m of Some x \<Rightarrow> dset n x metrics | None \<Rightarrow> metrics)"
    using apply_journal_line_written [OF n m, of q False "(flags, metrics)"]
    by (simp add: apply_lines_def split: option.splits)
  have "index_ok (dset n q flags) (case m of Some x \<Rightarrow> dset n x metrics | None \<Rightarrow> metrics)"
    using n m index_okD [OF ok(1)] by (intro index_okI) (auto split: option.splits if_splits)
  then have "tested_ok (append_journal_lines [?l] tf)"
    using append_ok [OF tf one] lines d by (simp add: view_is_def)
  moreover have "derived_now (append_journal_lines [?l] tf) = apply_lines [?l] (flags, metrics)"
    using derived_append [OF ok(2) one] d by simp
  ultimately show ?thesis
    using n tf d lines by (auto simp: append_tested_overlay_def)
qed

lemma row_name_nonempty: "row_name row = Some n \<Longrightarrow> n \<noteq> []"
  by (auto simp: row_name_def split: option.splits list.splits)

abbreviation tested_in :: "tested_files \<Rightarrow> string set" where
  "tested_in tf \<equiv> set (dkeys (fst (derived_now tf)))"

lemma overlay_rows_names:
  "tested_ok tf \<Longrightarrow> tested_ok (overlay_rows rows tf) \<and>
     tested_in (overlay_rows rows tf) = tested_in tf \<union> set (List.map_filter row_name rows)"
proof (induction rows arbitrary: tf)
  case (Cons row rows)
  show ?case
  proof (cases "row_name row")
    case None
    then show ?thesis using Cons by (simp add: map_filter_simps)
  next
    case (Some n)
    let ?tf = "append_tested_overlay n (truthy (jget row ''qualified'')) (metric_from_row row) tf"
    note view = overlay_view [OF Cons.prems row_name_nonempty [OF Some] metric_row_ok [of row],
        of "truthy (jget row ''qualified'')"]
    have "k \<in> tested_in ?tf \<longleftrightarrow> k \<in> insert n (tested_in tf)" for k
      using view by (cases "k = n") (simp_all add: dkeys_dget del: set_map)
    then have "tested_ok ?tf" "tested_in ?tf = insert n (tested_in tf)" using view by blast+
    then show ?thesis using Cons.IH [of ?tf] Some by (auto simp: map_filter_simps)
  qed
qed (simp add: map_filter_simps)

lemma view_is_keys: "view_is v index ms \<Longrightarrow> set (dkeys (fst v)) = set (dkeys index)"
  by (rule set_eqI) (simp add: view_is_def dkeys_dget del: set_map)

lemma merge_rows_keys:
  "set (dkeys (fst (merge_tested_rows seen index rows))) =
     set (dkeys index) \<union> set (dkeys (latest_rows seen rows))"
  by (rule set_eqI) (simp add: dkeys_dget merge_rows_dget del: set_map split: option.splits)

lemma latest_rows_keys: "set (dkeys (latest_rows seen rows)) = set (List.map_filter row_name rows) - set seen"
  by (induction seen rows rule: latest_rows.induct) (auto simp: map_filter_simps split: option.splits)

lemma ensure_names:
  "tested_ok tf \<Longrightarrow>
     tested_in (ensure_tested_index g rows tf) = tested_in tf \<union> set (List.map_filter row_name rows)"
  using view_is_keys [OF ensure_view [of tf g rows]] by (simp add: merge_rows_keys latest_rows_keys del: set_map)

lemma sorted_index_ok: "index_ok flags metrics \<Longrightarrow> index_ok flags (sort_key fst metrics)"
  by (simp add: index_ok_def)

lemma compact_names:
  assumes "tested_ok tf"
  shows "tested_ok (compact_tested_index g seen tf) \<and> tested_in (compact_tested_index g seen tf) = tested_in tf"
proof -
  obtain flags metrics where d: "derived_now tf = (flags, metrics)" by fastforce
  have ok: "index_ok flags (sort_key fst metrics)"
    using assms d by (auto simp: tested_ok_def intro: sorted_index_ok)
  show ?thesis
    using assms replace_ok [OF ok] view_is_keys [OF replace_view [OF ok]] d
    by (cases "tf = seen") (simp_all add: compact_tested_index_def del: set_map)
qed

text \<open>A crash after the new base is installed: the old journal names another generation.\<close>

definition other_gen :: "string \<Rightarrow> tested_files \<Rightarrow> bool" where
  "other_gen g tf \<longleftrightarrow>
     (case tf_journal tf of None \<Rightarrow> True | Some jn \<Rightarrow> fst (split_journal (jn_lines jn)) \<noteq> Some g)"

lemma crash_ok:
  assumes tf: "tested_ok tf" and ok: "index_ok index ms" and g: "other_gen g tf"
  shows "tested_ok (write_base g index ms tf)"
proof -
  have "derived_now (write_base g index ms tf) = derived_now (replace_tested_base g index ms tf)"
    using g by (auto simp: derived_now_def Let_def base_doc_def replace_tested_base_def write_base_def
        dict_or_empty_def as_dict_names read_journal_lines_def other_gen_def split_beta split: option.splits)
  then show ?thesis
    using replace_ok [OF ok, of g tf] tf by (simp add: tested_ok_def write_base_def)
qed

lemma crash_names:
  assumes "index_ok index ms" "other_gen g tf"
  shows "tested_in (write_base g index ms tf) = set (dkeys index)"
  by (rule view_is_keys [OF crash_view]) (use assms in \<open>auto simp: other_gen_def\<close>)

section \<open>Runs of the discovery files\<close>

datatype df_label =
    Appended "jv list"
  | TornAppend "jv list" "jv list" "jline option"
  | LogCompacted
  | LogCompactTorn
  | IndexCompacted
  | IndexCompactTorn
  | LogSaved "jv list"
  | NamesRead

text \<open>
  One operation under the discovery lock, or what a crash leaves of it. In a torn append
  the index lines of \<open>recs\<close> are written before the log lines, of which only \<open>kept\<close> and a partial
  line reach the file.
\<close>

inductive df_step :: "disc_files \<Rightarrow> df_label \<Rightarrow> disc_files \<Rightarrow> bool" where
  append: "df_step df (Appended recs) (fst (append_batch cap recs df))"
| torn_append: "df_step df (TornAppend recs kept part)
    (df\<lparr>df_tested := overlay_rows recs (df_tested df), df_log := crash_append kept part (df_log df)\<rparr>)"
| compact_log: "df_step df LogCompacted (df\<lparr>df_log := compact_log seen (df_log df)\<rparr>)"
| torn_compact: "df_step df LogCompactTorn
    (df\<lparr>df_log := log_base_installed (read_discovery_log (df_log df)) (df_log df)\<rparr>)"
| compact_index: "df_step df IndexCompacted (df\<lparr>df_tested := compact_tested_index g seen (df_tested df)\<rparr>)"
| torn_index: "derived_now (df_tested df) = (flags, metrics) \<Longrightarrow> other_gen g (df_tested df) \<Longrightarrow>
    df_step df IndexCompactTorn (df\<lparr>df_tested := write_base g flags (sort_key fst metrics) (df_tested df)\<rparr>)"
| save: "df_step df (LogSaved rows) (save_discovery_log g rows df)"
| read_names: "df_step df NamesRead (fst (cached_tested_names g df))"

inductive_cases df_stepE: "df_step df l df'"
inductive_simps df_step_append_iff: "df_step df (Appended recs) df'"

inductive df_run :: "disc_files \<Rightarrow> df_label list \<Rightarrow> disc_files \<Rightarrow> bool" where
  nil: "df_run df [] df"
| cons: "df_step df l df' \<Longrightarrow> df_run df' ls df'' \<Longrightarrow> df_run df (l # ls) df''"

lemma df_step_names:
  "df_step df l df' \<Longrightarrow> tested_ok (df_tested df) \<Longrightarrow>
     tested_ok (df_tested df') \<and> tested_in (df_tested df) \<subseteq> tested_in (df_tested df')"
proof (induction rule: df_step.induct)
  case (torn_index df flags metrics g)
  then have ok: "index_ok flags (sort_key fst metrics)"
    by (auto simp: tested_ok_def intro: sorted_index_ok)
  show ?case
    using crash_ok [OF torn_index.prems ok torn_index.hyps(2)] crash_names [OF ok torn_index.hyps(2)]
      torn_index.hyps(1) by simp
qed (simp_all add: append_batch_def save_discovery_log_def cached_tested_names_def Let_def
  overlay_rows_names ensure_names ensure_ok compact_names del: set_map)

lemma df_run_names:
  "df_run df ls df' \<Longrightarrow> tested_ok (df_tested df) \<Longrightarrow>
     tested_ok (df_tested df') \<and> tested_in (df_tested df) \<subseteq> tested_in (df_tested df')"
  by (induction rule: df_run.induct) (use df_step_names in blast)+

section \<open>Batches\<close>

lemma rotate_set [simp]: "set (rotate_from_cursor ns c) = set ns"
proof -
  have "set (dropWhile p ns) \<union> set (takeWhile p ns) = set ns" for p :: "string \<Rightarrow> bool"
    by (metis Un_commute set_append takeWhile_dropWhile_id)
  then show ?thesis by (auto simp: rotate_from_cursor_def split: option.splits)
qed

lemma rotate_rotates: "\<exists>k. rotate_from_cursor ns c = rotate k ns"
proof (cases "\<exists>x. c = Some x \<and> x \<noteq> [] \<and> x \<in> set ns")
  case True
  then obtain x where x: "c = Some x" "x \<noteq> []" "x \<in> set ns" by blast
  let ?t = "takeWhile (\<lambda>n. n \<noteq> x) ns" and ?d = "dropWhile (\<lambda>n. n \<noteq> x) ns"
  have "rotate (length ?t) (?t @ ?d) = ?d @ ?t" by (rule rotate_append)
  then show ?thesis using x by (intro exI [of _ "length ?t"]) (simp add: rotate_from_cursor_def)
next
  case False
  then have "rotate_from_cursor ns c = rotate 0 ns"
    by (auto simp: rotate_from_cursor_def split: option.splits)
  then show ?thesis by blast
qed

lemma batch_untested:
  "n \<in> set (snd (select_cycle_batch leftovers rows tf k c)) \<Longrightarrow>
     n \<in> set leftovers \<and> n \<notin> tested_in tf \<and> n \<notin> set (List.map_filter row_name rows)"
  by (auto simp: select_cycle_batch_def Let_def prioritize_leftovers_def tested_discovery_names_def
      flags_for_skip_def merge_rows_keys latest_rows_keys simp del: set_map)

section \<open>Newest rows\<close>

lemma newest_from_max:
  "(\<forall>b. best = Some b \<longrightarrow> P b) \<Longrightarrow>
   (\<And>row ts. row \<in> set rows \<Longrightarrow> parse_tested_at (jget row ''tested_at'') = Some ts \<Longrightarrow> P (ts, row)) \<Longrightarrow>
   newest_from best rows = Some (t, r) \<Longrightarrow>
   P (t, r) \<and> (\<forall>b r'. best = Some (b, r') \<longrightarrow> b \<le> t) \<and>
     (\<forall>row \<in> set rows. \<forall>ts. parse_tested_at (jget row ''tested_at'') = Some ts \<longrightarrow> ts \<le> t)"
proof (induction rows arbitrary: best)
  case (Cons row rows)
  let ?best = "case parse_tested_at (jget row ''tested_at'') of None \<Rightarrow> best
      | Some ts \<Rightarrow> (case best of None \<Rightarrow> Some (ts, row) | Some (b, r) \<Rightarrow> if b < ts then Some (ts, row) else best)"
  have "\<forall>b. ?best = Some b \<longrightarrow> P b"
    using Cons.prems(1) Cons.prems(2) [of row] by (auto split: option.splits if_splits)
  then have "P (t, r) \<and> (\<forall>b r'. ?best = Some (b, r') \<longrightarrow> b \<le> t) \<and>
     (\<forall>row \<in> set rows. \<forall>ts. parse_tested_at (jget row ''tested_at'') = Some ts \<longrightarrow> ts \<le> t)"
    using Cons.prems(2,3) by (intro Cons.IH) auto
  then show ?case by (fastforce split: option.splits if_splits)
qed auto

lemma latest_from_names:
  "map row_name (latest_from seen rows) = map Some (map fst (latest_rows seen rows))"
  by (induction seen rows rule: latest_rows.induct) (auto split: option.splits)

lemma latest_from_rows: "latest_from seen rows = map snd (latest_rows seen rows)"
  by (induction seen rows rule: latest_rows.induct) (auto split: option.splits)

end
