(* ===== verification/Book.thy ===== *)
theory Book
  imports LogFacts
begin

text \<open>
  The paper book of \<open>trading/champions.py\<close> and \<open>trading/retire.py\<close>: the active pool, the
  graduated list and the archive of retired rows, with the operations that move a row between
  them. A name on the book is never claimed. A file is \<open>None\<close> when missing or unreadable.
\<close>

section \<open>Files\<close>

definition load_pool :: "jv option \<Rightarrow> jv" where
  "load_pool f =
     (case f of None \<Rightarrow> JObj [(''champions'', JList []), (''synced_until'', JStr '''')] | Some v \<Rightarrow> v)"

definition pool_rows :: "jv \<Rightarrow> jv list" where
  "pool_rows st = as_list (jget st ''champions'')"

definition load_graduated :: "jv option \<Rightarrow> jv list" where
  "load_graduated f = (case f of None \<Rightarrow> [] | Some v \<Rightarrow> as_list v)"

record archive =
  ar_retired :: "jv dict"
  ar_applied :: "string list"
  ar_batches :: "jv list"

definition load_retired :: "jv option \<Rightarrow> archive" where
  "load_retired f =
     (let d = (case f of None \<Rightarrow> JObj [] | Some v \<Rightarrow> dict_or_empty v)
      in \<lparr>ar_retired = as_dict (sub_dict d ''retired''),
          ar_applied = strings_of (as_list (jget d ''applied'')),
          ar_batches = filter is_dict (as_list (jget d ''batches''))\<rparr>)"

definition save_retired :: "archive \<Rightarrow> jv" where
  "save_retired a =
     JObj [(''retired'', JObj (ar_retired a)), (''applied'', JList (map JStr (ar_applied a))),
       (''batches'', JList (ar_batches a)), (''paper_only'', JBool True)]"

definition retired_names :: "jv option \<Rightarrow> string list" where
  "retired_names f = filter (\<lambda>n. n \<noteq> []) (dkeys (ar_retired (load_retired f)))"

text \<open>\<open>row["name"]\<close> of a dict row, when it is a string that is not empty\<close>

definition book_name :: "jv \<Rightarrow> string option" where
  "book_name row =
     (case as_str (jget row ''name'') of Some (c # s) \<Rightarrow> Some (c # s) | _ \<Rightarrow> None)"

text \<open>\<open>_book_names\<close> (\<open>trading/leases.py\<close>)\<close>

definition book_names :: "jv option \<Rightarrow> jv option \<Rightarrow> jv option \<Rightarrow> string list" where
  "book_names pool grads retired =
     List.map_filter book_name (pool_rows (load_pool pool)) @
     List.map_filter book_name (load_graduated grads) @ retired_names retired"

section \<open>Writing the pool\<close>

text \<open>
  \<open>save_pool\<close> keeps the \<open>champion_since\<close> that is already stored for a name, whatever the new row
  says. It does not rewrite a file that already holds the same value.
\<close>

definition stored_rows :: "jv option \<Rightarrow> jv dict" where
  "stored_rows f =
     (case f of
        None \<Rightarrow> []
      | Some prev \<Rightarrow>
          fold (\<lambda>c d. case book_name c of None \<Rightarrow> d | Some n \<Rightarrow> dset n c d)
            (if is_dict prev then pool_rows prev else []) [])"

definition keep_since :: "jv dict \<Rightarrow> jv \<Rightarrow> jv" where
  "keep_since prev c =
     (case book_name c of
        None \<Rightarrow> c
      | Some n \<Rightarrow>
          (case dget prev n of
             None \<Rightarrow> c
           | Some p \<Rightarrow>
               if truthy (jget p ''champion_since'') then jset ''champion_since'' (jget p ''champion_since'') c
               else c))"

definition save_pool :: "jv \<Rightarrow> jv option \<Rightarrow> jv" where
  "save_pool st f =
     (if pool_rows st = [] then st
      else jset ''champions'' (JList (map (keep_since (stored_rows f)) (pool_rows st))) st)"

section \<open>Retain and cull\<close>

definition normalize_keep :: "jv list \<Rightarrow> string list" where
  "normalize_keep raws = filter (\<lambda>n. n \<noteq> []) (map strip (strings_of raws))"

definition has_champion_since :: "jv \<Rightarrow> bool" where
  "has_champion_since row \<longleftrightarrow>
     (case jget row ''champion_since'' of JStr s \<Rightarrow> strip s \<noteq> [] | JTime t \<Rightarrow> True | _ \<Rightarrow> False)"

definition name_text :: "jv \<Rightarrow> string option" where
  "name_text row = as_str (jget row ''name'')"

definition retain_unlocked :: "string list \<Rightarrow> jv option \<Rightarrow> jv \<times> string list \<times> string list" where
  "retain_unlocked keep f =
     (let st = load_pool f; rows = pool_rows st;
          kept = filter (\<lambda>c. case name_text c of None \<Rightarrow> False | Some n \<Rightarrow> n \<in> set keep) rows;
          gone = filter (\<lambda>c. case name_text c of None \<Rightarrow> False | Some n \<Rightarrow> n \<notin> set keep) rows
      in (save_pool (jset ''champions'' (JList kept) st) f,
          List.map_filter name_text kept, List.map_filter name_text gone))"

definition retain_champions :: "jv list \<Rightarrow> jv option \<Rightarrow> jv \<times> string list \<times> string list" where
  "retain_champions keep f = retain_unlocked (normalize_keep keep) f"

definition cull_undated_champions :: "jv option \<Rightarrow> jv \<times> string list \<times> string list" where
  "cull_undated_champions f =
     retain_unlocked (List.map_filter name_text (filter has_champion_since (pool_rows (load_pool f)))) f"

section \<open>Retiring\<close>

record book_files =
  bk_pool :: "jv option"
  bk_grads :: "jv option"
  bk_retired :: "jv option"

definition requalify_note :: "jv option \<Rightarrow> jv" where
  "requalify_note result =
     (case result of
        None \<Rightarrow> JObj []
      | Some r \<Rightarrow>
          if truthy r
          then keep_keys [''trades'', ''sharpe'', ''test_pnl'', ''bh_oos_pnl'', ''fail_reasons'', ''regimes_tested'',
                 ''tested_at''] r
          else JObj [])"

definition retire_row :: "string \<Rightarrow> int \<Rightarrow> string \<Rightarrow> string \<Rightarrow> jv dict \<Rightarrow> string \<Rightarrow> jv \<Rightarrow> jv" where
  "retire_row role now bid reason requalify name row =
     JObj [(''name'', JStr name), (''role'', JStr role), (''retired_at'', iso now), (''batch_id'', JStr bid),
       (''reason'', JStr reason), (''requalify'', requalify_note (dget requalify name)), (''record'', row)]"

definition is_wanted :: "string list \<Rightarrow> jv \<Rightarrow> bool" where
  "is_wanted wanted row = (case name_text row of None \<Rightarrow> False | Some n \<Rightarrow> n \<in> set wanted)"

definition archive_rows ::
    "string \<Rightarrow> int \<Rightarrow> string \<Rightarrow> string \<Rightarrow> jv dict \<Rightarrow> jv list \<Rightarrow> jv dict \<Rightarrow> jv dict" where
  "archive_rows role now bid reason requalify rows d =
     fold (\<lambda>row d. case name_text row of
         None \<Rightarrow> d | Some n \<Rightarrow> dset n (retire_row role now bid reason requalify n row) d) rows d"

definition retire_names ::
    "string list \<Rightarrow> string \<Rightarrow> string \<Rightarrow> int \<Rightarrow> jv dict \<Rightarrow> book_files \<Rightarrow> book_files \<times> string list \<times> string list" where
  "retire_names names bid reason now requalify bk =
     (let wanted = filter (\<lambda>n. n \<noteq> []) (map strip names);
          state = load_retired (bk_retired bk); pool = load_pool (bk_pool bk); grads = load_graduated (bk_grads bk);
          out_c = filter (is_wanted wanted) (pool_rows pool); out_g = filter (is_wanted wanted) grads;
          d = archive_rows ''graduated'' now bid reason requalify out_g
                (archive_rows ''champion'' now bid reason requalify out_c (ar_retired state));
          batch = JObj [(''batch_id'', JStr bid), (''retired_at'', iso now), (''reason'', JStr reason),
            (''champions'', JInt (int (length out_c))), (''graduated'', JInt (int (length out_g)))];
          state = state\<lparr>ar_retired := d, ar_batches := ar_batches state @ [batch]\<rparr>;
          bk = bk\<lparr>bk_retired := Some (save_retired state)\<rparr>;
          bk = (if out_c = [] then bk
                else bk\<lparr>bk_pool := Some (save_pool
                       (jset ''champions'' (JList (filter (\<lambda>r. \<not> is_wanted wanted r) (pool_rows pool))) pool)
                       (bk_pool bk))\<rparr>);
          bk = (if out_g = [] then bk
                else bk\<lparr>bk_grads := Some (JList (filter (\<lambda>r. \<not> is_wanted wanted r) grads))\<rparr>)
      in (bk, List.map_filter name_text out_c, List.map_filter name_text out_g))"

text \<open>The book after a crash between the archive write and the pool write.\<close>

definition retire_archived ::
    "string list \<Rightarrow> string \<Rightarrow> string \<Rightarrow> int \<Rightarrow> jv dict \<Rightarrow> book_files \<Rightarrow> book_files" where
  "retire_archived names bid reason now requalify bk =
     bk\<lparr>bk_retired := bk_retired (fst (retire_names names bid reason now requalify bk))\<rparr>"

definition RETIRE_AUTO_BATCH :: string where "RETIRE_AUTO_BATCH = ''requalify-gate23-20261008''"
definition RETIRE_FROM_REQUALIFY_BATCH :: string where "RETIRE_FROM_REQUALIFY_BATCH = ''gate23-20261008''"
definition RETIRE_REASON :: string where "RETIRE_REASON = ''failed gate23 requalify 2026-10-08''"

text \<open>\<open>requalify_failed_names\<close>; \<open>names\<close> is the name table of the requalify state.\<close>

definition requalify_failed_names :: "string \<Rightarrow> jv dict \<Rightarrow> jv dict" where
  "requalify_failed_names bid names =
     List.map_filter
       (\<lambda>(n, m).
          if \<not> is_dict m \<or> jget m ''batch_id'' \<noteq> JStr bid \<or> jget m ''status'' \<noteq> JStr ''done'' then None
          else if truthy (jget (sub_dict m ''result'') ''qualified'') then None
          else Some (n, sub_dict m ''result'')) names"

definition ensure_auto_retire :: "int \<Rightarrow> jv dict \<Rightarrow> book_files \<Rightarrow> book_files \<times> bool" where
  "ensure_auto_retire now requalify bk =
     (let failed = requalify_failed_names RETIRE_FROM_REQUALIFY_BATCH requalify in
      if RETIRE_AUTO_BATCH \<in> set (ar_applied (load_retired (bk_retired bk))) then (bk, False)
      else if failed = [] then (bk, False)
      else
        let bk = fst (retire_names (dkeys failed) RETIRE_AUTO_BATCH RETIRE_REASON now failed bk);
            state = load_retired (bk_retired bk)
        in (bk\<lparr>bk_retired := Some (save_retired (state\<lparr>ar_applied := ar_applied state @ [RETIRE_AUTO_BATCH]\<rparr>))\<rparr>,
            True))"

end
