(* ===== verification/BookFacts.thy ===== *)
theory BookFacts
  imports Book
begin

text \<open>
  What the operations of the book keep: the archive reads back, no name leaves the book when it
  is retired (also not in a crash between the writes), every retired row is stored whole, and a
  stored start date is never replaced.
\<close>

lemma pool_rows_jset [simp]: "is_dict st \<Longrightarrow> pool_rows (jset ''champions'' (JList rows) st) = rows"
  by (simp add: pool_rows_def)

lemma load_save_retired: "list_all is_dict (ar_batches a) \<Longrightarrow> load_retired (Some (save_retired a)) = a"
  by (simp add: load_retired_def save_retired_def Let_def dict_or_empty_def sub_dict_def strings_of_def
      map_filter_def comp_def list_all_iff filter_id_conv)

lemma load_retired_batches [simp]: "list_all is_dict (ar_batches (load_retired f))"
  by (simp add: load_retired_def Let_def list_all_iff)

lemma truthy_pool_dict: "pool_rows st \<noteq> [] \<Longrightarrow> is_dict st"
  by (cases st) (auto simp: pool_rows_def)

lemma rows_save_pool: "pool_rows (save_pool st f) = map (keep_since (stored_rows f)) (pool_rows st)"
  by (auto simp: save_pool_def truthy_pool_dict)

lemma book_name_eq: "book_name row = Some n \<longleftrightarrow> name_text row = Some n \<and> n \<noteq> []"
  by (auto simp: book_name_def name_text_def split: option.splits list.splits)

lemma name_text_keep_since [simp]: "name_text (keep_since prev c) = name_text c"
proof (cases "is_dict c")
  case True
  then show ?thesis by (auto simp: keep_since_def name_text_def split: option.splits)
next
  case False
  then have "book_name c = None" by (simp add: book_name_def)
  then show ?thesis by (simp add: keep_since_def)
qed

lemma book_name_keep_since [simp]: "book_name (keep_since prev c) = book_name c"
proof -
  have "book_name (keep_since prev c) = Some n \<longleftrightarrow> book_name c = Some n" for n
    by (simp add: book_name_eq)
  then show ?thesis by (metis option.exhaust)
qed

lemma map_filter_keep_since [simp]:
  "List.map_filter book_name (map (keep_since prev) rows) = List.map_filter book_name rows"
  by (induction rows) (simp_all add: map_filter_simps split: option.splits)

lemma in_map_filter: "y \<in> set (List.map_filter f xs) \<longleftrightarrow> (\<exists>x \<in> set xs. f x = Some y)"
  by (induction xs) (auto simp: map_filter_simps split: option.splits)

text \<open>A start date that is stored for a name stays.\<close>

lemma keep_since_value:
  "book_name c = Some n \<Longrightarrow> dget prev n = Some p \<Longrightarrow> truthy (jget p ''champion_since'') \<Longrightarrow>
     jget (keep_since prev c) ''champion_since'' = jget p ''champion_since''"
proof -
  assume a: "book_name c = Some n" "dget prev n = Some p" "truthy (jget p ''champion_since'')"
  then have "is_dict c" by (cases "is_dict c") (auto simp: book_name_def)
  then show ?thesis using a by (simp add: keep_since_def)
qed

lemma stored_fold:
  "dget (fold (\<lambda>c d. case book_name c of None \<Rightarrow> d | Some m \<Rightarrow> dset m c d) rows d) n = Some p \<Longrightarrow>
     dget d n = Some p \<or> (p \<in> set rows \<and> book_name p = Some n)"
proof (induction rows arbitrary: d)
  case (Cons c rows)
  show ?case
    using Cons.IH [of "case book_name c of None \<Rightarrow> d | Some m \<Rightarrow> dset m c d"] Cons.prems
    by (auto split: option.splits if_splits)
qed simp

lemma stored_fold_distinct:
  "distinct (List.map_filter book_name rows) \<Longrightarrow> c \<in> set rows \<Longrightarrow> book_name c = Some n \<Longrightarrow>
     dget (fold (\<lambda>c d. case book_name c of None \<Rightarrow> d | Some m \<Rightarrow> dset m c d) rows d) n = Some c"
proof (induction rows arbitrary: d)
  case (Cons r rows)
  let ?put = "\<lambda>c d. case book_name c of None \<Rightarrow> d | Some m \<Rightarrow> dset m c d"
  show ?case
  proof (cases "c \<in> set rows")
    case True
    then show ?thesis using Cons by (auto simp: map_filter_simps split: option.splits)
  next
    case False
    then have r: "r = c" using Cons.prems by simp
    have none: "\<forall>x \<in> set rows. book_name x \<noteq> Some n"
      using Cons.prems r by (auto simp: map_filter_simps in_map_filter)
    have keep: "(\<forall>x \<in> set rs. book_name x \<noteq> Some n) \<Longrightarrow> dget (fold ?put rs d) n = dget d n" for rs d
      by (induction rs arbitrary: d) (auto split: option.splits)
    show ?thesis using keep [OF none, of "?put r d"] r Cons.prems by simp
  qed
qed simp

section \<open>Retiring\<close>

abbreviation archived :: "book_files \<Rightarrow> string \<Rightarrow> jv option" where
  "archived bk n \<equiv> dget (ar_retired (load_retired (bk_retired bk))) n"

lemma archive_rows_dget:
  "dget (archive_rows role now bid reason requalify rows d) n =
     (if filter (\<lambda>r. name_text r = Some n) rows = [] then dget d n
      else Some (retire_row role now bid reason requalify n (last (filter (\<lambda>r. name_text r = Some n) rows))))"
  unfolding archive_rows_def
  by (induction rows arbitrary: d) (auto split: option.splits)

lemma retire_load:
  "ar_retired (load_retired (bk_retired (fst (retire_names names bid reason now requalify bk)))) =
     archive_rows ''graduated'' now bid reason requalify
       (filter (is_wanted (filter (\<lambda>n. n \<noteq> []) (map strip names))) (load_graduated (bk_grads bk)))
       (archive_rows ''champion'' now bid reason requalify
         (filter (is_wanted (filter (\<lambda>n. n \<noteq> []) (map strip names))) (pool_rows (load_pool (bk_pool bk))))
         (ar_retired (load_retired (bk_retired bk))))"
  by (simp add: retire_names_def Let_def load_save_retired)

lemma retire_applied [simp]:
  "ar_applied (load_retired (bk_retired (fst (retire_names names bid reason now requalify bk)))) =
     ar_applied (load_retired (bk_retired bk))"
  by (simp add: retire_names_def Let_def load_save_retired)

lemma wanted_filter:
  "filter (\<lambda>r. name_text r = Some n) (filter (is_wanted w) rows) =
     (if n \<in> set w then filter (\<lambda>r. name_text r = Some n) rows else [])"
  by (induction rows) (auto simp: is_wanted_def split: option.splits)

lemma retire_archives:
  assumes n: "n \<in> strip ` set names" "n \<noteq> []"
    and r: "r \<in> set (pool_rows (load_pool (bk_pool bk))) \<union> set (load_graduated (bk_grads bk))" "name_text r = Some n"
  shows "\<exists>role r'. archived (fst (retire_names names bid reason now requalify bk)) n =
     Some (retire_row role now bid reason requalify n r') \<and> name_text r' = Some n \<and>
     r' \<in> set (pool_rows (load_pool (bk_pool bk))) \<union> set (load_graduated (bk_grads bk))"
proof -
  let ?w = "filter (\<lambda>n. n \<noteq> []) (map strip names)"
  have w: "n \<in> set ?w" using n by auto
  let ?fp = "filter (\<lambda>r. name_text r = Some n) (pool_rows (load_pool (bk_pool bk)))"
  let ?fg = "filter (\<lambda>r. name_text r = Some n) (load_graduated (bk_grads bk))"
  have a: "archived (fst (retire_names names bid reason now requalify bk)) n =
     (if ?fg \<noteq> [] then Some (retire_row ''graduated'' now bid reason requalify n (last ?fg))
      else if ?fp \<noteq> [] then Some (retire_row ''champion'' now bid reason requalify n (last ?fp))
      else archived bk n)"
    unfolding retire_load archive_rows_dget wanted_filter using w by simp
  have last_in: "filter (\<lambda>r. name_text r = Some n) xs \<noteq> [] \<Longrightarrow>
      last (filter (\<lambda>r. name_text r = Some n) xs) \<in> set xs \<and>
      name_text (last (filter (\<lambda>r. name_text r = Some n) xs)) = Some n" for xs
    using last_in_set [of "filter (\<lambda>r. name_text r = Some n) xs"] by auto
  show ?thesis
  proof (cases "?fg = []")
    case False
    then show ?thesis using a last_in [OF False] by auto
  next
    case True
    then have fp: "?fp \<noteq> []" using r by (auto simp: filter_empty_conv)
    then show ?thesis using a True last_in [OF fp] by auto
  qed
qed

text \<open>The names on the book, whatever row carries them.\<close>

definition on_book :: "book_files \<Rightarrow> string set" where
  "on_book bk = set (book_names (bk_pool bk) (bk_grads bk) (bk_retired bk))"

lemma on_book_iff:
  "n \<in> on_book bk \<longleftrightarrow> n \<noteq> [] \<and>
     (Some n \<in> name_text ` set (pool_rows (load_pool (bk_pool bk))) \<or>
      Some n \<in> name_text ` set (load_graduated (bk_grads bk)) \<or> archived bk n \<noteq> None)"
  by (auto simp: on_book_def book_names_def in_map_filter book_name_eq retired_names_def dkeys_dget simp del: set_map)
     (metis image_eqI)+

lemma retire_pool_rows:
  "name_text ` set (pool_rows (load_pool (bk_pool (fst (retire_names names bid reason now requalify bk))))) =
     name_text ` set (filter (\<lambda>r. \<not> is_wanted (filter (\<lambda>n. n \<noteq> []) (map strip names)) r) (pool_rows (load_pool (bk_pool bk))))"
proof (cases "filter (is_wanted (filter (\<lambda>n. n \<noteq> []) (map strip names))) (pool_rows (load_pool (bk_pool bk))) = []")
  case True
  then have "filter (\<lambda>r. \<not> is_wanted (filter (\<lambda>n. n \<noteq> []) (map strip names)) r) (pool_rows (load_pool (bk_pool bk)))
      = pool_rows (load_pool (bk_pool bk))"
    by (auto simp: filter_id_conv filter_empty_conv)
  then show ?thesis using True by (simp add: retire_names_def Let_def)
next
  case False
  then have "pool_rows (load_pool (bk_pool bk)) \<noteq> []" by auto
  then have d: "is_dict (load_pool (bk_pool bk))" by (rule truthy_pool_dict)
  show ?thesis using False d by (simp add: retire_names_def Let_def load_pool_def rows_save_pool image_image)
qed

lemma retire_grads:
  "load_graduated (bk_grads (fst (retire_names names bid reason now requalify bk))) =
     filter (\<lambda>r. \<not> is_wanted (filter (\<lambda>n. n \<noteq> []) (map strip names)) r) (load_graduated (bk_grads bk))"
  by (auto simp: retire_names_def Let_def load_graduated_def filter_empty_conv filter_id_conv)

lemma archived_monotone:
  "archived bk n \<noteq> None \<Longrightarrow> archived (fst (retire_names names bid reason now requalify bk)) n \<noteq> None"
  unfolding retire_load archive_rows_dget by simp

lemma retire_keeps_book:
  "on_book (fst (retire_names names bid reason now requalify bk)) = on_book bk"
proof (rule set_eqI)
  fix n
  let ?bk = "fst (retire_names names bid reason now requalify bk)"
  let ?w = "filter (\<lambda>n. n \<noteq> []) (map strip names)"
  have in_w: "name_text r = Some n \<Longrightarrow> is_wanted ?w r \<longleftrightarrow> n \<in> strip ` set names \<and> n \<noteq> []" for r
    by (auto simp: is_wanted_def)
  have came: "Some n \<in> name_text ` set rows" if "filter (\<lambda>r. name_text r = Some n) rows \<noteq> []" for rows
    using that by (force simp: filter_empty_conv image_iff)
  have origin: "archived ?bk n \<noteq> None \<Longrightarrow> archived bk n \<noteq> None \<or>
      Some n \<in> name_text ` set (pool_rows (load_pool (bk_pool bk))) \<or>
      Some n \<in> name_text ` set (load_graduated (bk_grads bk))"
    unfolding retire_load archive_rows_dget wanted_filter by (simp split: if_splits) (use came in blast)+
  show "n \<in> on_book ?bk \<longleftrightarrow> n \<in> on_book bk"
  proof
    assume "n \<in> on_book ?bk"
    then show "n \<in> on_book bk"
      using origin by (auto simp: on_book_iff retire_pool_rows retire_grads)
  next
    assume b: "n \<in> on_book bk"
    show "n \<in> on_book ?bk"
    proof (cases "archived bk n = None \<and> n \<in> strip ` set names")
      case True
      then obtain r where "r \<in> set (pool_rows (load_pool (bk_pool bk))) \<union> set (load_graduated (bk_grads bk))"
          "name_text r = Some n"
        using b by (fastforce simp: on_book_iff)
      then show ?thesis
        using retire_archives [of n names r bk bid reason now requalify] True b by (auto simp: on_book_iff)
    next
      case False
      then show ?thesis
        using b archived_monotone [of bk n] in_w
        by (auto simp: on_book_iff retire_pool_rows retire_grads image_iff)
    qed
  qed
qed

text \<open>A crash after the archive write leaves every name on the book as well.\<close>

lemma retire_crash_keeps_book:
  "on_book (retire_archived names bid reason now requalify bk) = on_book bk"
proof (rule set_eqI)
  fix n
  let ?bk = "fst (retire_names names bid reason now requalify bk)"
  let ?crash = "retire_archived names bid reason now requalify bk"
  have arch: "archived ?crash n = archived ?bk n" by (simp add: retire_archived_def)
  have same: "bk_pool ?crash = bk_pool bk" "bk_grads ?crash = bk_grads bk"
    by (simp_all add: retire_archived_def)
  show "n \<in> on_book ?crash \<longleftrightarrow> n \<in> on_book bk"
  proof
    assume a: "n \<in> on_book ?crash"
    show "n \<in> on_book bk"
    proof (cases "archived ?bk n = None")
      case True
      then show ?thesis using a arch same unfolding on_book_iff by auto
    next
      case False
      then have "n \<in> on_book ?bk" using a by (simp add: on_book_iff)
      then show ?thesis by (simp add: retire_keeps_book)
    qed
  next
    assume "n \<in> on_book bk"
    then show "n \<in> on_book ?crash"
      using archived_monotone [of bk n] arch same by (auto simp: on_book_iff)
  qed
qed

lemma auto_retire_once:
  assumes "snd (ensure_auto_retire now requalify bk)"
  shows "ensure_auto_retire later requalify' (fst (ensure_auto_retire now requalify bk)) =
    (fst (ensure_auto_retire now requalify bk), False)"
proof -
  have "RETIRE_AUTO_BATCH \<in> set (ar_applied (load_retired (bk_retired (fst (ensure_auto_retire now requalify bk)))))"
    using assms by (simp add: ensure_auto_retire_def Let_def load_save_retired split: if_splits)
  then show ?thesis by (subst ensure_auto_retire_def) simp
qed

lemma auto_retire_keeps_book: "on_book (fst (ensure_auto_retire now requalify bk)) = on_book bk"
proof -
  have "on_book (bk\<lparr>bk_retired := Some (save_retired (load_retired (bk_retired bk)\<lparr>ar_applied := as\<rparr>))\<rparr>) = on_book bk"
    for as bk by (auto simp: on_book_iff load_save_retired)
  then show ?thesis by (simp add: ensure_auto_retire_def Let_def retire_keeps_book)
qed

end
