(* ===== verification/Families.thy ===== *)
theory Families
  imports BookFacts
begin

text \<open>
  One champion per family (\<open>trading/families.py\<close>): the template and numbers of a name, the
  near-identity test, the ranking, the greedy choice of winners, the parking of their twins, and
  which parked twins an admit may bring back.
\<close>

section \<open>Signatures\<close>

text \<open>
  Every number of an atom with whether it is a threshold: followed by \<open>pc\<close>, or preceded by
  \<open><\<close>, \<open>>\<close> or nothing (the empty text is in \<open>"<>"\<close> for Python).
\<close>

function scan_numbers :: "char option \<Rightarrow> string \<Rightarrow> string \<times> (nat \<times> bool) list" where
  "scan_numbers prev [] = ([], [])"
| "scan_numbers prev (c # s) =
     (if is_digit c
      then let rest = dropWhile is_digit s;
               exact = (take 2 rest = ''pc'' \<or> prev \<in> {None, Some (CHR ''<''), Some (CHR ''>'')});
               (t, ps) = scan_numbers (Some c) rest
           in (CHR ''N'' # t, (digits_value (c # takeWhile is_digit s), exact) # ps)
      else let (t, ps) = scan_numbers (Some c) s in (c # t, ps))"
  by pat_completeness auto
termination
  by (relation "measure (\<lambda>(p, s). length s)") (auto simp: le_imp_less_Suc length_dropWhile_le)

text \<open>\<open>^h\d+_\<close>, the bar timeframe\<close>

definition timeframe_head :: "string \<Rightarrow> string" where
  "timeframe_head atom =
     (case atom of
        CHR ''h'' # s \<Rightarrow>
          (let ds = takeWhile is_digit s; r = dropWhile is_digit s in
           if ds \<noteq> [] \<and> is_prefix ''_'' r then CHR ''h'' # ds @ ''_'' else [])
      | _ \<Rightarrow> [])"

definition atom_signature :: "string \<Rightarrow> string \<times> (nat \<times> bool) list" where
  "atom_signature atom =
     (let h = timeframe_head atom; (t, ps) = scan_numbers None (drop (length h) atom) in (h @ t, ps))"

definition family_signature :: "string \<Rightarrow> (string \<times> (nat \<times> bool) list) option" where
  "family_signature name =
     (if strip name = [] then None
      else let sigs = map atom_signature (sort (atoms_of name))
           in Some (join_with ''&'' (map fst sigs), concat (map snd sigs)))"

text \<open>\<open>FAMILY_PARAM_TOL\<close> is 0.20 of the larger value.\<close>

definition near_number :: "nat \<Rightarrow> nat \<Rightarrow> bool" where
  "near_number a b \<longleftrightarrow> 5 * (max a b - min a b) \<le> max a b"

fun same_params :: "(nat \<times> bool) list \<Rightarrow> (nat \<times> bool) list \<Rightarrow> bool" where
  "same_params ((a, exact) # ps) ((b, e) # qs) =
     ((if exact then a = b else near_number a b) \<and> same_params ps qs)"
| "same_params _ _ = True"

definition same_family :: "string \<Rightarrow> string \<Rightarrow> bool" where
  "same_family a b \<longleftrightarrow>
     a = b \<or>
     (case (family_signature a, family_signature b) of
        (Some (t, ps), Some (u, qs)) \<Rightarrow> t = u \<and> length ps = length qs \<and> same_params ps qs
      | _ \<Rightarrow> False)"

section \<open>Ranking\<close>

definition METRIC_KEYS :: "string list" where
  "METRIC_KEYS = [''gate_rules'', ''daily_sharpe'', ''bh_daily_sharpe'', ''sharpe'', ''test_pnl'', ''trades'']"

definition qual_metrics :: "jv \<Rightarrow> jv option" where
  "qual_metrics row =
     (if jget row ''gate_rules'' \<noteq> JStr GATE_RULES then None
      else if jget row ''daily_sharpe'' = JNull then None
      else Some (keep_keys METRIC_KEYS row))"

text \<open>\<open>lookup\<close> reads the results log, then the display log.\<close>

definition champion_metrics :: "jv \<Rightarrow> (string \<Rightarrow> jv option) \<Rightarrow> jv option" where
  "champion_metrics row lookup =
     (case qual_metrics (jget row ''qual'') of Some m \<Rightarrow> Some m
      | None \<Rightarrow> (case qual_metrics (jget row ''provenance'') of Some m \<Rightarrow> Some m
      | None \<Rightarrow> (case name_text row of None \<Rightarrow> None | Some n \<Rightarrow> lookup n)))"

text \<open>
  \<open>_num\<close> as two numbers in lexicographic order: what is not a number, or NaN, is least. The rank
  is one list compared in that order; each text ends with a number below every character.
\<close>

definition rank_num :: "jv \<Rightarrow> rat list" where
  "rank_num v =
     (case py_float v of
        Inl e \<Rightarrow> [0, 0]
      | Inr x \<Rightarrow> (case x of NaN \<Rightarrow> [0, 0] | NegInf \<Rightarrow> [0, 0] | Fin a \<Rightarrow> [1, a] | PosInf \<Rightarrow> [2, 0]))"

definition text_end :: rat where "text_end = - (10 ^ 30)"

definition rank_text :: "jv \<Rightarrow> rat list" where
  "rank_text v =
     (case v of
        JStr s \<Rightarrow> map (\<lambda>c. - of_nat (of_char c)) s @ [text_end]
      | JTime t \<Rightarrow> [- of_int t, text_end]
      | _ \<Rightarrow> [text_end])"

definition rank_key :: "jv \<Rightarrow> jv \<Rightarrow> rat list" where
  "rank_key metrics row =
     rank_num (jget metrics ''daily_sharpe'') @ rank_num (jget metrics ''sharpe'') @
     rank_num (jget metrics ''test_pnl'') @
     rank_text (if truthy (jget row ''admitted_at'') then jget row ''admitted_at''
                else jget row ''champion_since'') @
     rank_text (jget row ''name'')"

section \<open>Winners and twins\<close>

text \<open>\<open>sort(key, reverse=True)\<close> is stable.\<close>

definition sort_down :: "('a \<Rightarrow> 'k::linorder) \<Rightarrow> 'a list \<Rightarrow> 'a list" where
  "sort_down k xs = rev (sort_key k (rev xs))"

fun pick_winners :: "string list \<Rightarrow> string list \<Rightarrow> string list \<times> string dict" where
  "pick_winners winners [] = (winners, [])"
| "pick_winners winners (n # ns) =
     (case List.find (\<lambda>w. same_family w n) winners of
        None \<Rightarrow> pick_winners (winners @ [n]) ns
      | Some w \<Rightarrow> (let (ws, ts) = pick_winners winners ns in (ws, (n, w) # ts)))"

definition ranked_rows :: "jv list \<Rightarrow> (string \<Rightarrow> jv option) \<Rightarrow> jv list" where
  "ranked_rows rows lookup =
     filter (\<lambda>row. name_text row \<noteq> None \<and> champion_metrics row lookup \<noteq> None) rows"

text \<open>\<open>metrics[name]\<close> is the last row's of that name.\<close>

definition family_metrics :: "jv list \<Rightarrow> (string \<Rightarrow> jv option) \<Rightarrow> string \<Rightarrow> jv" where
  "family_metrics rows lookup n =
     (case filter (\<lambda>row. name_text row = Some n) (ranked_rows rows lookup) of
        [] \<Rightarrow> JObj []
      | rs \<Rightarrow> (case champion_metrics (last rs) lookup of None \<Rightarrow> JObj [] | Some m \<Rightarrow> m))"

definition ranked_names :: "jv list \<Rightarrow> (string \<Rightarrow> jv option) \<Rightarrow> string list" where
  "ranked_names rows lookup =
     List.map_filter name_text
       (sort_down (\<lambda>row. rank_key (family_metrics rows lookup (the (name_text row))) row)
          (ranked_rows rows lookup))"

definition plan_families :: "jv list \<Rightarrow> (string \<Rightarrow> jv option) \<Rightarrow> string list \<times> string dict" where
  "plan_families rows lookup = pick_winners [] (ranked_names rows lookup)"

section \<open>Parking\<close>

definition park_reason :: "string \<Rightarrow> string" where
  "park_reason winner =
     ''near-identical family twin of '' @ winner @ ''; best per family kept (Alexander 2026-10-09)''"

definition has_role :: "string \<Rightarrow> jv \<Rightarrow> bool" where
  "has_role r row \<longleftrightarrow> is_dict row \<and> jget row ''role'' = JStr r"

definition repoint :: "string dict \<Rightarrow> jv \<Rightarrow> jv" where
  "repoint park row =
     (if has_role ''parked_twin'' row
      then (case as_str (jget row ''family_winner'') of
              None \<Rightarrow> row
            | Some old \<Rightarrow>
                (case dget park old of
                   None \<Rightarrow> row
                 | Some w \<Rightarrow> jset ''reason'' (JStr (park_reason w)) (jset ''family_winner'' (JStr w) row)))
      else row)"

definition park_row :: "int \<Rightarrow> string \<Rightarrow> jv list \<Rightarrow> (string \<Rightarrow> jv option) \<Rightarrow> string \<Rightarrow> string \<Rightarrow> jv" where
  "park_row now bid rows lookup twin winner =
     JObj [(''name'', JStr twin), (''role'', JStr ''parked_twin''), (''retired_at'', iso now),
       (''batch_id'', JStr bid), (''reason'', JStr (park_reason winner)), (''family_winner'', JStr winner),
       (''family_template'', case family_signature twin of None \<Rightarrow> JNull | Some (t, ps) \<Rightarrow> JStr t),
       (''metrics'', family_metrics rows lookup twin), (''winner_metrics'', family_metrics rows lookup winner),
       (''requalify'', JObj []),
       (''record'', case filter (\<lambda>r. name_text r = Some twin) rows of [] \<Rightarrow> JObj [] | rs \<Rightarrow> last rs)]"

definition park_names ::
    "int \<Rightarrow> string \<Rightarrow> jv list \<Rightarrow> (string \<Rightarrow> jv option) \<Rightarrow> string dict \<Rightarrow> jv dict \<Rightarrow> jv dict" where
  "park_names now bid rows lookup park d =
     map (\<lambda>(n, row). (n, repoint park row))
       (fold (\<lambda>(t, w) d. dset t (park_row now bid rows lookup t w) d) park d)"

definition distinct_templates :: "jv list \<Rightarrow> bool" where
  "distinct_templates rows \<longleftrightarrow>
     distinct (map fst (List.map_filter family_signature (List.map_filter name_text rows)))"

text \<open>
  \<open>enforce_champion_families_unlocked\<close>. \<open>lots\<close> counts the open paper lots of an account and
  \<open>bid\<close> is the batch id stamped with the clock. A twin that holds a lot is deferred. The second
  component is \<open>None\<close> when nothing is a twin, and otherwise what was parked and deferred.
\<close>

definition enforce_champion_families ::
    "int \<Rightarrow> string \<Rightarrow> (string \<Rightarrow> jv option) \<Rightarrow> (string \<Rightarrow> nat) \<Rightarrow> book_files \<Rightarrow>
     book_files \<times> (string dict \<times> string dict) option" where
  "enforce_champion_families now bid lookup lots bk =
     (let pool = load_pool (bk_pool bk); rows = filter is_dict (pool_rows pool);
          (winners, twins) = plan_families rows lookup;
          twins_map = fold (\<lambda>(t, w) d. dset t w d) twins [];
          deferred = filter (\<lambda>(t, w). 0 < lots t) twins_map;
          park = filter (\<lambda>(t, w). \<not> 0 < lots t) twins_map
      in if distinct_templates rows then (bk, None)
         else if twins = [] then (bk, None)
         else if park = [] then (bk, Some ([], deferred))
         else
           let state = load_retired (bk_retired bk);
               batch = JObj [(''batch_id'', JStr bid), (''retired_at'', iso now),
                 (''reason'', JStr ''family park: best per near-identical family kept''),
                 (''champions'', JInt (int (length park))), (''graduated'', JInt 0),
                 (''parked'', JList (map JStr (sort (dkeys park)))),
                 (''winners'', JList (map JStr (sort (remdups (map snd park)))))];
               state = state\<lparr>ar_retired := park_names now bid rows lookup park (ar_retired state),
                         ar_batches := ar_batches state @ [batch]\<rparr>;
               kept = filter (\<lambda>c. \<not> (is_dict c \<and> is_wanted (dkeys park) c)) (pool_rows pool)
           in (bk\<lparr>bk_retired := Some (save_retired state),
                  bk_pool := Some (save_pool (jset ''champions'' (JList kept) pool) (bk_pool bk))\<rparr>,
               Some (park, deferred)))"

section \<open>Coming back\<close>

definition reconsiderable_twins :: "jv option \<Rightarrow> string list" where
  "reconsiderable_twins f =
     (let retired = ar_retired (load_retired f) in
      map fst (filter (\<lambda>(n, row). has_role ''parked_twin'' row \<and>
        (case as_str (jget row ''family_winner'') of
           None \<Rightarrow> False
         | Some w \<Rightarrow> (case dget retired w of
             None \<Rightarrow> False | Some r \<Rightarrow> is_dict r \<and> \<not> has_role ''parked_twin'' r))) retired))"

definition admit_blocked_names :: "jv option \<Rightarrow> string list" where
  "admit_blocked_names f = filter (\<lambda>n. n \<notin> set (reconsiderable_twins f)) (retired_names f)"

definition unpark :: "string list \<Rightarrow> jv option \<Rightarrow> jv option \<times> string list" where
  "unpark names f =
     (let state = load_retired f;
          gone = filter (\<lambda>n. case dget (ar_retired state) n of
                   None \<Rightarrow> False | Some r \<Rightarrow> has_role ''parked_twin'' r) names
      in if gone = [] then (f, [])
         else (Some (save_retired (state\<lparr>ar_retired := foldl (\<lambda>d n. ddel n d) (ar_retired state) gone\<rparr>)), gone))"

section \<open>The explicit seat\<close>

text \<open>
  \<open>promote_candidates\<close> (\<open>trading/champions.py\<close>) up to its family enforcement: every candidate that is not on
  the book is appended. The new rows carry their start date, so only older rows are filled in, by
  \<open>backfill\<close> (trade databases and log); it changes no name.
\<close>

definition new_champion :: "int \<Rightarrow> string \<Rightarrow> jv \<Rightarrow> jv" where
  "new_champion now name cand =
     JObj [(''name'', JStr name), (''closed'', JInt 0), (''pnl'', JFloat (Fin 0)), (''wins'', JInt 0),
       (''source'', if truthy (jget cand ''source'') then jget cand ''source'' else JStr ''sweep_promotion''),
       (''champion_since'', JTime now)]"

fun promote_rows :: "int \<Rightarrow> string list \<Rightarrow> jv list \<Rightarrow> jv list \<times> string list" where
  "promote_rows now existing [] = ([], [])"
| "promote_rows now existing (cand # cands) =
     (case row_name cand of
        None \<Rightarrow> promote_rows now existing cands
      | Some n \<Rightarrow>
          if n \<in> set existing then promote_rows now existing cands
          else (let (rows, ns) = promote_rows now (n # existing) cands in (new_champion now n cand # rows, n # ns)))"

definition promote_candidates ::
    "int \<Rightarrow> (jv \<Rightarrow> jv) \<Rightarrow> jv list \<Rightarrow> book_files \<Rightarrow> book_files \<times> string list" where
  "promote_candidates now backfill cands bk =
     (let st = load_pool (bk_pool bk);
          (rows, added) = promote_rows now (book_names (bk_pool bk) (bk_grads bk) (bk_retired bk)) cands
      in if added = [] then (bk, [])
         else (bk\<lparr>bk_pool := Some (save_pool
                (backfill (jset ''champions'' (JList (pool_rows st @ rows)) st)) (bk_pool bk))\<rparr>, added))"

end
