(* ===== verification/FamiliesFacts.thy ===== *)
theory FamiliesFacts
  imports Families
begin

text \<open>
  The one-champion-per-family rule: winners are of different families, each parked twin has a
  better-ranked winner, the rule is idempotent, and parking forgets no name.
\<close>

section \<open>The family relation\<close>

lemma near_number_refl [simp]: "near_number a a"
  by (simp add: near_number_def)

lemma near_number_sym: "near_number a b = near_number b a"
  by (simp add: near_number_def max.commute min.commute)

lemma same_family_refl [simp]: "same_family a a"
  by (simp add: same_family_def)

section \<open>Choosing winners\<close>

lemma find_same: "List.find P xs = Some w \<Longrightarrow> w \<in> set xs \<and> P w"
  by (auto simp: find_Some_iff in_set_conv_nth)

lemma find_none: "List.find P xs = None \<Longrightarrow> x \<in> set xs \<Longrightarrow> \<not> P x"
  by (auto simp: find_None_iff)

lemma pick_step:
  "List.find (\<lambda>w. same_family w n) ws = None \<Longrightarrow> pick_winners ws (n # ns) = pick_winners (ws @ [n]) ns"
  "List.find (\<lambda>w. same_family w n) ws = Some w \<Longrightarrow>
     pick_winners ws (n # ns) = (fst (pick_winners ws ns), (n, w) # snd (pick_winners ws ns))"
  by (simp_all add: split_beta)

lemma twins_in: "fst ` set (snd (pick_winners ws ns)) \<subseteq> set ns"
proof (induction ns arbitrary: ws)
  case (Cons n ns)
  show ?case
    using Cons.IH [of ws] Cons.IH [of "ws @ [n]"]
    by (cases "List.find (\<lambda>w. same_family w n) ws") (auto simp: pick_step simp del: pick_winners.simps)
qed simp

lemma pick_winners_sound:
  assumes "sorted_wrt (\<lambda>a b. \<not> same_family a b) ws"
  shows "sorted_wrt (\<lambda>a b. \<not> same_family a b) (fst (pick_winners ws ns)) \<and>
    set ws \<subseteq> set (fst (pick_winners ws ns)) \<and> set (fst (pick_winners ws ns)) \<subseteq> set ws \<union> set ns \<and>
    (\<forall>n w. (n, w) \<in> set (snd (pick_winners ws ns)) \<longrightarrow> w \<in> set (fst (pick_winners ws ns)) \<and> same_family w n) \<and>
    set ns \<subseteq> set (fst (pick_winners ws ns)) \<union> fst ` set (snd (pick_winners ws ns))"
  using assms
proof (induction ns arbitrary: ws)
  case (Cons n ns)
  show ?case
  proof (cases "List.find (\<lambda>w. same_family w n) ws")
    case None
    then have "sorted_wrt (\<lambda>a b. \<not> same_family a b) (ws @ [n])"
      using Cons.prems find_none [OF None] by (auto simp: sorted_wrt_append)
    from Cons.IH [OF this] show ?thesis unfolding pick_step(1) [OF None] by auto
  next
    case (Some w)
    have w: "w \<in> set ws" "same_family w n" using find_same [OF Some] by blast+
    show ?thesis using Cons.IH [OF Cons.prems] w unfolding pick_step(2) [OF Some] by auto
  qed
qed simp

text \<open>The winner of a twin comes before it.\<close>

lemma pick_winners_order:
  "(n, w) \<in> set (snd (pick_winners ws ns)) \<Longrightarrow>
     w \<in> set ws \<or> (\<exists>xs ys. ns = xs @ ys \<and> w \<in> set xs \<and> n \<in> set ys)"
proof (induction ns arbitrary: ws)
  case (Cons m ns)
  have shift: "\<exists>xs' ys. m # ns = xs' @ ys \<and> w \<in> set xs' \<and> n \<in> set ys"
    if "\<exists>xs ys. ns = xs @ ys \<and> w \<in> set xs \<and> n \<in> set ys"
  proof -
    from that obtain xs ys where "ns = xs @ ys" "w \<in> set xs" "n \<in> set ys" by blast
    then show ?thesis by (intro exI [of _ "m # xs"] exI [of _ ys]) simp
  qed
  show ?case
  proof (cases "List.find (\<lambda>w. same_family w m) ws")
    case None
    have p: "(n, w) \<in> set (snd (pick_winners (ws @ [m]) ns))" using Cons.prems pick_step(1) [OF None] by simp
    then have "n \<in> set ns" using twins_in [of "ws @ [m]" ns] by force
    then have "w = m \<Longrightarrow> \<exists>xs ys. m # ns = xs @ ys \<and> w \<in> set xs \<and> n \<in> set ys"
      by (intro exI [of _ "[m]"] exI [of _ ns]) simp
    then show ?thesis using Cons.IH [OF p] shift by auto
  next
    case (Some v)
    then have "(n, w) = (m, v) \<or> (n, w) \<in> set (snd (pick_winners ws ns))"
      using Cons.prems pick_step(2) [OF Some] by auto
    then show ?thesis using Cons.IH [of ws] find_same [OF Some] shift by blast
  qed
qed simp

lemma pick_winners_again:
  "distinct ns \<Longrightarrow>
     pick_winners ws (filter (\<lambda>n. n \<notin> fst ` set (snd (pick_winners ws ns))) ns) = (fst (pick_winners ws ns), [])"
proof (induction ns arbitrary: ws)
  case (Cons n ns)
  show ?case
  proof (cases "List.find (\<lambda>w. same_family w n) ws")
    case None
    have "n \<notin> fst ` set (snd (pick_winners (ws @ [n]) ns))" using twins_in [of "ws @ [n]" ns] Cons.prems by auto
    then show ?thesis
      using Cons.IH [of "ws @ [n]"] Cons.prems None unfolding pick_step(1) [OF None] by simp
  next
    case (Some w)
    have "filter (\<lambda>m. m \<notin> fst ` set (snd (pick_winners ws (n # ns)))) (n # ns) =
        filter (\<lambda>m. m \<notin> fst ` set (snd (pick_winners ws ns))) ns"
      unfolding pick_step(2) [OF Some] using Cons.prems by (auto intro: filter_cong)
    then show ?thesis using Cons.IH [of ws] Cons.prems unfolding pick_step(2) [OF Some] by simp
  qed
qed simp

lemma no_twins: "snd (pick_winners ws ns) = [] \<Longrightarrow> fst (pick_winners ws ns) = ws @ ns"
proof (induction ns arbitrary: ws)
  case (Cons n ns)
  then show ?case
    using pick_step [of n ws]
    by (cases "List.find (\<lambda>w. same_family w n) ws") (simp_all del: pick_winners.simps)
qed simp

section \<open>Filtering the pool\<close>

lemma filter_sort_down: "filter P (sort_down k xs) = sort_down k (filter P xs)"
  by (simp add: sort_down_def rev_filter [symmetric] filter_sort)

lemma insort_cong: "f x = g x \<Longrightarrow> (\<And>y. y \<in> set xs \<Longrightarrow> f y = g y) \<Longrightarrow> insort_key f x xs = insort_key g x xs"
  by (induction xs) auto

lemma sort_cong: "(\<And>y. y \<in> set xs \<Longrightarrow> f y = g y) \<Longrightarrow> sort_key f xs = sort_key g xs"
proof (induction xs)
  case (Cons x xs)
  then have "insort_key f x (sort_key g xs) = insort_key g x (sort_key g xs)" by (intro insort_cong) auto
  then show ?case using Cons by simp
qed simp

lemma sort_down_cong: "(\<And>y. y \<in> set xs \<Longrightarrow> f y = g y) \<Longrightarrow> sort_down f xs = sort_down g xs"
  unfolding sort_down_def by (intro arg_cong [of _ _ rev] sort_cong) simp

lemma set_sort_down [simp]: "set (sort_down k xs) = set xs"
  by (simp add: sort_down_def)

lemma map_filter_named:
  "(\<And>r. r \<in> set rows \<Longrightarrow> name_text r \<noteq> None) \<Longrightarrow> List.map_filter name_text rows = map (the \<circ> name_text) rows"
proof (induction rows)
  case (Cons r rows)
  obtain n where "name_text r = Some n" using Cons.prems [of r] by auto
  then show ?case using Cons by (simp add: map_filter_simps)
qed (simp add: map_filter_simps)

lemma map_filter_filter:
  "List.map_filter name_text (filter (\<lambda>r. \<not> is_wanted ns r) rows) =
     filter (\<lambda>n. n \<notin> set ns) (List.map_filter name_text rows)"
  by (induction rows) (auto simp: map_filter_simps is_wanted_def split: option.splits)

lemma filter_named_rows:
  "n \<notin> set ns \<Longrightarrow> filter (\<lambda>r. name_text r = Some n) (filter (\<lambda>r. \<not> is_wanted ns r) rows) =
     filter (\<lambda>r. name_text r = Some n) rows"
  by (induction rows) (auto simp: is_wanted_def split: option.splits)

lemma ranked_filter:
  "ranked_rows (filter P rows) lookup = filter P (ranked_rows rows lookup)"
  by (simp add: ranked_rows_def conj_commute)

lemma metrics_filter:
  "n \<notin> set ns \<Longrightarrow> family_metrics (filter (\<lambda>r. \<not> is_wanted ns r) rows) lookup n = family_metrics rows lookup n"
  unfolding family_metrics_def ranked_filter by (subst filter_named_rows) simp_all

lemma ranked_names_filter:
  "ranked_names (filter (\<lambda>r. \<not> is_wanted ns r) rows) lookup =
     filter (\<lambda>n. n \<notin> set ns) (ranked_names rows lookup)"
proof -
  let ?rows = "filter (\<lambda>r. \<not> is_wanted ns r) rows"
  let ?k = "\<lambda>rs row. rank_key (family_metrics rs lookup (the (name_text row))) row"
  have "?k ?rows r = ?k rows r" if "r \<in> set (filter (\<lambda>r. \<not> is_wanted ns r) (ranked_rows rows lookup))" for r
  proof -
    have "name_text r \<noteq> None" "\<not> is_wanted ns r" using that by (simp_all add: ranked_rows_def)
    then have "the (name_text r) \<notin> set ns" by (auto simp: is_wanted_def)
    then show ?thesis by (simp add: metrics_filter)
  qed
  then have "sort_down (?k ?rows) (filter (\<lambda>r. \<not> is_wanted ns r) (ranked_rows rows lookup)) =
      sort_down (?k rows) (filter (\<lambda>r. \<not> is_wanted ns r) (ranked_rows rows lookup))"
    by (rule sort_down_cong)
  then show ?thesis
    by (simp add: ranked_names_def ranked_filter filter_sort_down [symmetric] map_filter_filter)
qed

lemma ranked_names_set: "set (ranked_names rows lookup) \<subseteq> set (List.map_filter name_text rows)"
  by (auto simp: ranked_names_def in_map_filter ranked_rows_def)

lemma ranked_names_distinct:
  assumes "distinct (List.map_filter name_text rows)"
  shows "distinct (ranked_names rows lookup)"
proof -
  have keep: "distinct (List.map_filter name_text (filter P rows))" for P
    using assms by (induction rows) (auto simp: map_filter_simps in_map_filter split: option.splits)
  have ranked: "r \<in> set (ranked_rows rows lookup) \<Longrightarrow> name_text r \<noteq> None" for r by (simp add: ranked_rows_def)
  have "distinct (map (the \<circ> name_text) (ranked_rows rows lookup))"
  proof -
    have "List.map_filter name_text (ranked_rows rows lookup) = map (the \<circ> name_text) (ranked_rows rows lookup)"
      using ranked by (rule map_filter_named)
    then show ?thesis
      using keep [of "\<lambda>row. name_text row \<noteq> None \<and> champion_metrics row lookup \<noteq> None"]
      unfolding ranked_rows_def [symmetric] by argo
  qed
  then have "distinct (map (the \<circ> name_text) (sort_down k (ranked_rows rows lookup)))" for k :: "jv \<Rightarrow> rat list"
    by (simp add: distinct_map sort_down_def)
  moreover have "List.map_filter name_text (sort_down k (ranked_rows rows lookup)) =
      map (the \<circ> name_text) (sort_down k (ranked_rows rows lookup))" for k :: "jv \<Rightarrow> rat list"
    using ranked by (intro map_filter_named) simp
  ultimately show ?thesis by (simp add: ranked_names_def)
qed

section \<open>Enforcing the rule\<close>

lemma update_same: "dget d k = Some v \<Longrightarrow> dset k v d = d"
  by (induction d) auto

lemma jset_same: "jget c k = v \<Longrightarrow> truthy v \<Longrightarrow> jset k v c = c"
  by (cases c) (auto simp: jget_def update_same split: option.splits)

lemma distinct_book_names:
  "distinct (List.map_filter name_text rows) \<Longrightarrow> distinct (List.map_filter book_name rows)"
  by (induction rows) (auto simp: map_filter_simps in_map_filter book_name_eq split: option.splits)

lemma keep_since_same:
  assumes "distinct (List.map_filter name_text (pool_rows (load_pool f)))" "c \<in> set (pool_rows (load_pool f))"
  shows "keep_since (stored_rows f) c = c"
proof (cases "book_name c")
  case (Some n)
  obtain st where f: "f = Some st" using assms(2) by (cases f) (auto simp: load_pool_def pool_rows_def)
  then have "pool_rows st \<noteq> []" using assms(2) by (auto simp: load_pool_def)
  then have d: "is_dict st" by (rule truthy_pool_dict)
  have "dget (stored_rows f) n = Some c"
    using stored_fold_distinct [OF distinct_book_names [OF assms(1)] assms(2) Some] f d
    by (simp add: stored_rows_def load_pool_def)
  then show ?thesis using Some by (simp add: keep_since_def jset_same)
qed (simp add: keep_since_def)

lemma twins_map_keys: "set (dkeys (fold (\<lambda>(t, w) d. dset t w d) ts d)) = fst ` set ts \<union> set (dkeys d)"
proof (induction ts arbitrary: d)
  case (Cons e ts)
  show ?case using Cons.IH [of "dset (fst e) (snd e) d"] by (auto simp: split_beta simp del: set_map)
qed simp

definition parked_rows :: "string dict \<Rightarrow> jv list \<Rightarrow> jv list" where
  "parked_rows park rows = filter (\<lambda>c. \<not> (is_dict c \<and> is_wanted (dkeys park) c)) rows"

lemma parked_rows_dicts:
  "filter is_dict (parked_rows park rows) = filter (\<lambda>r. \<not> is_wanted (dkeys park) r) (filter is_dict rows)"
  by (induction rows) (auto simp: parked_rows_def)

lemma no_park_dicts: "filter (\<lambda>r. \<not> is_wanted [] r) rows = rows"
  by (induction rows) (auto simp: is_wanted_def split: option.splits)

lemma enforce_pool:
  assumes distinct: "distinct (List.map_filter name_text (pool_rows (load_pool (bk_pool bk))))"
    and e: "enforce_champion_families now bid lookup lots bk = (bk', r)"
  shows "filter is_dict (pool_rows (load_pool (bk_pool bk'))) =
    filter (\<lambda>c. \<not> is_wanted (case r of None \<Rightarrow> [] | Some (park, deferred) \<Rightarrow> dkeys park) c)
      (filter is_dict (pool_rows (load_pool (bk_pool bk))))"
proof (cases "case r of None \<Rightarrow> True | Some (park, deferred) \<Rightarrow> park = []")
  case True
  then have "bk' = bk" using e by (auto simp: enforce_champion_families_def Let_def split_beta split: if_splits)
  moreover have "(case r of None \<Rightarrow> [] | Some (park, deferred) \<Rightarrow> dkeys park) = []"
    using True by (auto split: option.splits)
  ultimately show ?thesis by (simp only: no_park_dicts)
next
  case False
  then obtain park deferred where r: "r = Some (park, deferred)" "park \<noteq> []" by (auto split: option.splits)
  let ?pool = "load_pool (bk_pool bk)"
  have pool: "bk_pool bk' = Some (save_pool (jset ''champions'' (JList (parked_rows park (pool_rows ?pool))) ?pool) (bk_pool bk))"
    using e r by (auto simp: enforce_champion_families_def Let_def split_beta parked_rows_def split: if_splits)
  have "pool_rows ?pool \<noteq> []"
    using e r by (auto simp: enforce_champion_families_def Let_def split_beta distinct_templates_def map_filter_simps
        split: if_splits)
  then have d: "is_dict ?pool" by (rule truthy_pool_dict)
  have "map (keep_since (stored_rows (bk_pool bk))) (parked_rows park (pool_rows ?pool)) = parked_rows park (pool_rows ?pool)"
    by (rule map_idI) (auto simp: parked_rows_def keep_since_same [OF distinct])
  then have "pool_rows (load_pool (bk_pool bk')) = parked_rows park (pool_rows ?pool)"
    using pool d by (simp add: load_pool_def rows_save_pool)
  then show ?thesis using r by (simp add: parked_rows_dicts)
qed

abbreviation champion_dicts :: "book_files \<Rightarrow> jv list" where
  "champion_dicts bk \<equiv> filter is_dict (pool_rows (load_pool (bk_pool bk)))"

lemma template_family:
  assumes "distinct_templates rows" "a \<in> set (List.map_filter name_text rows)" "b \<in> set (List.map_filter name_text rows)"
    and "same_family a b" "distinct (List.map_filter name_text rows)"
  shows "a = b"
proof (rule ccontr)
  assume ne: "a \<noteq> b"
  then obtain t ps qs where sig: "family_signature a = Some (t, ps)" "family_signature b = Some (t, qs)"
    using assms(4) by (auto simp: same_family_def split: option.splits)
  have "\<not> distinct (map fst (List.map_filter family_signature ns))"
    if "distinct ns" "a \<in> set ns" "b \<in> set ns" for ns
    using that
  proof (induction ns)
    case (Cons n ns)
    have in_ns: "t \<in> fst ` set (List.map_filter family_signature ns)" if "x \<in> set ns" "x = a \<or> x = b" for x
    proof -
      have "\<exists>ps. (t, ps) \<in> set (List.map_filter family_signature ns)"
        using that sig by (auto simp: in_map_filter)
      then show ?thesis by force
    qed
    show ?case
    proof (cases "n = a \<or> n = b")
      case True
      then have "t \<in> fst ` set (List.map_filter family_signature ns)"
        using Cons.prems ne in_ns [of a] in_ns [of b] by auto
      moreover have "\<exists>xs. family_signature n = Some (t, xs)" using True sig by auto
      ultimately show ?thesis by (force simp: map_filter_simps)
    next
      case False
      then have "\<not> distinct (map fst (List.map_filter family_signature ns))" using Cons by auto
      then show ?thesis by (auto simp: map_filter_simps split: option.splits)
    qed
  qed simp
  then show False using assms(1,2,3,5) by (simp add: distinct_templates_def)
qed

lemma sorted_wrt_separate:
  "distinct ns \<Longrightarrow> (\<And>a b. a \<in> set ns \<Longrightarrow> b \<in> set ns \<Longrightarrow> same_family a b \<Longrightarrow> a = b) \<Longrightarrow>
     sorted_wrt (\<lambda>a b. \<not> same_family a b) ns"
  by (induction ns) (auto simp del: same_family_refl)

lemma distinct_dict_names:
  "distinct (List.map_filter name_text rows) \<Longrightarrow> distinct (List.map_filter name_text (filter is_dict rows))"
  by (induction rows) (auto simp: map_filter_simps in_map_filter split: option.splits)

text \<open>With no open lots, exactly the twins of the plan are parked.\<close>

lemma enforce_keys:
  assumes e: "enforce_champion_families now bid lookup (\<lambda>t. 0) bk = (bk', r)"
    and dup: "\<not> distinct_templates (champion_dicts bk)"
  shows "r = (if snd (plan_families (champion_dicts bk) lookup) = [] then None
    else Some (fold (\<lambda>(t, w) d. dset t w d) (snd (plan_families (champion_dicts bk) lookup)) [], []))"
proof -
  let ?ts = "snd (plan_families (champion_dicts bk) lookup)"
  have "?ts \<noteq> [] \<Longrightarrow> fold (\<lambda>(t, w) d. dset t w d) ?ts [] \<noteq> []"
    using twins_map_keys [of ?ts "[]"] by (cases ?ts) auto
  then show ?thesis
    using e dup by (auto simp: enforce_champion_families_def Let_def split_beta [of _ "plan_families _ _"] prod.case_eq_if)
qed

lemma ranked_after:
  assumes distinct: "distinct (List.map_filter name_text (pool_rows (load_pool (bk_pool bk))))"
    and e: "enforce_champion_families now bid lookup (\<lambda>t. 0) bk = (bk', r)"
    and dup: "\<not> distinct_templates (champion_dicts bk)"
  shows "ranked_names (champion_dicts bk') lookup =
    filter (\<lambda>n. n \<notin> fst ` set (snd (plan_families (champion_dicts bk) lookup))) (ranked_names (champion_dicts bk) lookup)"
proof -
  have "set (case r of None \<Rightarrow> [] | Some (park, deferred) \<Rightarrow> dkeys park) =
      fst ` set (snd (plan_families (champion_dicts bk) lookup))"
    using enforce_keys [OF e dup] twins_map_keys [of "snd (plan_families (champion_dicts bk) lookup)" "[]"]
    by (auto simp del: set_map)
  then show ?thesis using enforce_pool [OF distinct e] by (simp only: ranked_names_filter)
qed

text \<open>The plan of the pool that is left has the same winners and no twin.\<close>

lemma plan_after:
  assumes distinct: "distinct (List.map_filter name_text (pool_rows (load_pool (bk_pool bk))))"
    and flat: "\<And>t. lots t = 0"
    and e: "enforce_champion_families now bid lookup lots bk = (bk', r)"
    and dup: "\<not> distinct_templates (champion_dicts bk)"
  shows "plan_families (champion_dicts bk') lookup = (fst (plan_families (champion_dicts bk) lookup), [])"
proof -
  have "lots = (\<lambda>t. 0)" using flat by auto
  from ranked_after [OF distinct e [unfolded this] dup]
  have "ranked_names (champion_dicts bk') lookup = filter (\<lambda>n. n \<notin> fst ` set (snd (plan_families (champion_dicts bk) lookup)))
      (ranked_names (champion_dicts bk) lookup)" .
  moreover have "distinct (ranked_names (champion_dicts bk) lookup)"
    using distinct by (intro ranked_names_distinct distinct_dict_names)
  ultimately show ?thesis using pick_winners_again [of "ranked_names (champion_dicts bk) lookup" "[]"] by (simp add: plan_families_def)
qed

lemma enforce_twice:
  assumes "distinct (List.map_filter name_text (pool_rows (load_pool (bk_pool bk))))" "\<And>t. lots t = 0"
  shows "enforce_champion_families later bid' lookup lots' (fst (enforce_champion_families now bid lookup lots bk)) =
    (fst (enforce_champion_families now bid lookup lots bk), None)"
proof -
  obtain bk' r where e: "enforce_champion_families now bid lookup lots bk = (bk', r)" by fastforce
  show ?thesis
  proof (cases "distinct_templates (champion_dicts bk)")
    case True
    then have "bk' = bk" using e by (simp add: enforce_champion_families_def Let_def split_beta)
    then show ?thesis using True e by (simp add: enforce_champion_families_def Let_def split_beta)
  next
    case False
    then show ?thesis
      using plan_after [OF assms(1) assms(2) e False] e
      by (simp add: enforce_champion_families_def [of later] Let_def)
  qed
qed

lemma enforce_separates:
  assumes distinct: "distinct (List.map_filter name_text (pool_rows (load_pool (bk_pool bk))))" and "\<And>t. lots t = 0"
  shows "sorted_wrt (\<lambda>a b. \<not> same_family a b)
    (ranked_names (champion_dicts (fst (enforce_champion_families now bid lookup lots bk))) lookup)"
proof -
  obtain bk' r where e: "enforce_champion_families now bid lookup lots bk = (bk', r)" by fastforce
  show ?thesis
  proof (cases "distinct_templates (champion_dicts bk)")
    case True
    then have "bk' = bk" using e by (simp add: enforce_champion_families_def Let_def split_beta)
    moreover have "sorted_wrt (\<lambda>a b. \<not> same_family a b) (ranked_names (champion_dicts bk) lookup)"
    proof (rule sorted_wrt_separate)
      show "distinct (ranked_names (champion_dicts bk) lookup)"
        using distinct by (intro ranked_names_distinct distinct_dict_names)
    next
      fix a b
      assume "a \<in> set (ranked_names (champion_dicts bk) lookup)" "b \<in> set (ranked_names (champion_dicts bk) lookup)"
        "same_family a b"
      then show "a = b"
        using template_family [OF True _ _ _ distinct_dict_names [OF distinct]]
          ranked_names_set [of "champion_dicts bk" lookup] by blast
    qed
    ultimately show ?thesis using e by simp
  next
    case False
    let ?ns = "ranked_names (champion_dicts bk') lookup"
    have "pick_winners [] ?ns = (fst (plan_families (champion_dicts bk) lookup), [])"
      using plan_after [OF distinct assms(2) e False] by (simp add: plan_families_def)
    then have "fst (pick_winners [] ?ns) = ?ns" using no_twins [of "[]" ?ns] by simp
    moreover have "sorted_wrt (\<lambda>a b. \<not> same_family a b) (fst (pick_winners [] ?ns))"
      using pick_winners_sound [of "[]" ?ns] by simp
    ultimately show ?thesis using e by simp
  qed
qed

section \<open>Parking keeps the name\<close>

lemma park_names_dget:
  "dget (park_names now bid rows lookup park d) n =
     map_option (repoint park) (dget (fold (\<lambda>(t, w) d. dset t (park_row now bid rows lookup t w) d) park d) n)"
  by (simp add: park_names_def dget_map_snd)

lemma fold_put_dget:
  "dict_ok park \<Longrightarrow> dget (fold (\<lambda>(t, w) d. dset t (f t w) d) park d) n =
     (case dget park n of None \<Rightarrow> dget d n | Some w \<Rightarrow> Some (f n w))"
proof (induction park arbitrary: d)
  case (Cons e park)
  show ?case
  proof (cases "n = fst e")
    case True
    then have "dget park n = None" using Cons.prems by (auto simp: map_of_eq_None_iff)
    then show ?thesis using Cons True by (simp add: split_beta)
  next
    case False
    then show ?thesis using Cons by (simp add: split_beta split: option.splits)
  qed
qed simp

lemma enforce_archive:
  assumes "enforce_champion_families now bid lookup lots bk = (bk', Some (park, deferred))" "park \<noteq> []"
  shows "archived bk' n = map_option (repoint park)
     (case dget park n of None \<Rightarrow> archived bk n
      | Some w \<Rightarrow> Some (park_row now bid (champion_dicts bk) lookup n w))"
proof -
  have ok: "dict_ok (fold (\<lambda>(t, w) d. dset t w d) ts d)" if "dict_ok d" for ts :: "string dict" and d
    using that by (induction ts arbitrary: d) (auto simp: split_beta)
  have park: "dict_ok park"
    using assms ok [of "[]" "snd (plan_families (champion_dicts bk) lookup)"]
    by (auto simp: enforce_champion_families_def Let_def split_beta distinct_map_filter split: if_splits)
  have "ar_retired (load_retired (bk_retired bk')) =
      park_names now bid (champion_dicts bk) lookup park (ar_retired (load_retired (bk_retired bk)))"
    using assms by (auto simp: enforce_champion_families_def Let_def split_beta load_save_retired split: if_splits)
  then show ?thesis by (simp add: park_names_dget fold_put_dget [OF park])
qed

lemma repoint_role: "has_role r (repoint park row) = has_role r row"
  by (auto simp: repoint_def has_role_def split: option.splits)

lemma twin_blocked:
  assumes "archived bk t = Some row" "t \<noteq> []" "has_role ''parked_twin'' row" "jget row ''family_winner'' = JStr w"
    and "dict_ok (ar_retired (load_retired (bk_retired bk)))"
    and "case archived bk w of None \<Rightarrow> True | Some r \<Rightarrow> has_role ''parked_twin'' r"
  shows "t \<in> set (admit_blocked_names (bk_retired bk))"
proof -
  let ?d = "ar_retired (load_retired (bk_retired bk))"
  have same: "r = row" if "(t, r) \<in> set ?d" for r
    using that in_set_dget [OF assms(5), of t r] assms(1) by simp
  have "t \<notin> set (reconsiderable_twins (bk_retired bk))"
  proof
    assume "t \<in> set (reconsiderable_twins (bk_retired bk))"
    then obtain r where r: "(t, r) \<in> set ?d"
      "case as_str (jget r ''family_winner'') of None \<Rightarrow> False
       | Some w \<Rightarrow> (case dget ?d w of None \<Rightarrow> False | Some r \<Rightarrow> is_dict r \<and> \<not> has_role ''parked_twin'' r)"
      by (auto simp: reconsiderable_twins_def Let_def)
    show False using r(2) assms(4,6) unfolding same [OF r(1)] by (simp split: option.splits)
  qed
  moreover have "t \<in> set (retired_names (bk_retired bk))"
    using assms(1,2) by (auto simp: retired_names_def dkeys_dget simp del: set_map)
  ultimately show ?thesis by (simp add: admit_blocked_names_def)
qed

section \<open>The best of every family\<close>

lemma twins_distinct: "distinct ns \<Longrightarrow> distinct (map fst (snd (pick_winners ws ns)))"
proof (induction ns arbitrary: ws)
  case (Cons n ns)
  have "n \<notin> fst ` set (snd (pick_winners vs ns))" for vs using twins_in [of vs ns] Cons.prems by auto
  then show ?case
    using Cons pick_step [of n ws] by (cases "List.find (\<lambda>w. same_family w n) ws") (simp_all del: pick_winners.simps)
qed simp

lemma twins_map_get:
  "distinct (map fst ts) \<Longrightarrow> (t, w) \<in> set ts \<Longrightarrow> dget (fold (\<lambda>(t, w) d. dset t w d) ts d) t = Some (w :: string)"
proof (induction ts arbitrary: d)
  case (Cons e ts)
  have keep: "t \<notin> fst ` set us \<Longrightarrow> dget (fold (\<lambda>(t, w) d. dset t w d) us d') t = dget d' t" for us :: "string dict" and d'
    by (induction us arbitrary: d') (auto simp: split_beta)
  show ?case
  proof (cases "(t, w) = e")
    case True
    then show ?thesis using Cons.prems keep [of ts "dset t w d"] by force
  next
    case False
    then show ?thesis using Cons by (auto simp: split_beta)
  qed
qed simp

lemma sorted_down: "sorted_wrt (\<lambda>a b. k b \<le> k a) (sort_down k xs)"
proof -
  have "sorted_wrt (\<lambda>x y. k x \<le> k y) (sort_key k (rev xs))" using sorted_sort_key [of k "rev xs"] by (simp add: sorted_map)
  then show ?thesis by (simp add: sort_down_def sorted_wrt_rev)
qed

text \<open>The rank of a name that comes before another is at least its rank.\<close>

lemma ranked_order:
  assumes "ranked_names rows lookup = xs @ w # ys @ t # zs"
  shows "\<exists>a b. a \<in> set rows \<and> b \<in> set rows \<and> name_text a = Some w \<and> name_text b = Some t \<and>
    rank_key (family_metrics rows lookup t) b \<le> rank_key (family_metrics rows lookup w) a"
proof -
  define k where "k = (\<lambda>row. rank_key (family_metrics rows lookup (the (name_text row))) row)"
  let ?rs = "sort_down k (ranked_rows rows lookup)"
  have named: "r \<in> set ?rs \<Longrightarrow> r \<in> set rows \<and> name_text r \<noteq> None" for r by (simp add: ranked_rows_def)
  then have "ranked_names rows lookup = map (the \<circ> name_text) ?rs"
    unfolding ranked_names_def k_def [symmetric] by (intro map_filter_named) blast
  then obtain as a bs b cs where s: "?rs = as @ a # bs @ b # cs" "the (name_text a) = w" "the (name_text b) = t"
    using assms by (auto simp: map_eq_append_conv map_eq_Cons_conv eq_commute [of _ "map _ _"])
  have "k b \<le> k a" using sorted_down [of k "ranked_rows rows lookup"] unfolding s by (simp add: sorted_wrt_append)
  moreover have "a \<in> set rows" "b \<in> set rows" "name_text a = Some w" "name_text b = Some t"
    using named [of a] named [of b] s by auto
  ultimately show ?thesis by (auto simp: k_def)
qed

lemma parked_winner:
  assumes distinct: "distinct (List.map_filter name_text (pool_rows (load_pool (bk_pool bk))))"
    and e: "enforce_champion_families now bid lookup (\<lambda>t. 0) bk = (bk', r)"
    and t: "t \<in> set (ranked_names (champion_dicts bk) lookup)" "t \<notin> set (ranked_names (champion_dicts bk') lookup)"
  shows "\<exists>w xs ys zs. ranked_names (champion_dicts bk) lookup = xs @ w # ys @ t # zs \<and> same_family w t \<and>
    w \<in> set (ranked_names (champion_dicts bk') lookup) \<and>
    archived bk' t = Some (park_row now bid (champion_dicts bk) lookup t w)"
proof -
  let ?ns = "ranked_names (champion_dicts bk) lookup" and ?ms = "ranked_names (champion_dicts bk') lookup"
  let ?ts = "snd (plan_families (champion_dicts bk) lookup)"
  have dup: "\<not> distinct_templates (champion_dicts bk)"
    using e t by (auto simp: enforce_champion_families_def Let_def split_beta)
  note ms = ranked_after [OF distinct e dup]
  then have "t \<in> fst ` set ?ts" using t by auto
  then obtain w where tw: "(t, w) \<in> set ?ts" by force
  then have ts: "(t, w) \<in> set (snd (pick_winners [] ?ns))" by (simp add: plan_families_def)
  have dn: "distinct ?ns" using distinct by (intro ranked_names_distinct distinct_dict_names)
  have "fst (plan_families (champion_dicts bk) lookup) = ?ms"
    using plan_after [OF distinct refl e dup] no_twins [of "[]" ?ms] by (simp add: plan_families_def)
  then have w: "w \<in> set ?ms" "same_family w t" using pick_winners_sound [of "[]" ?ns] ts by (auto simp: plan_families_def)
  from pick_winners_order [OF ts] obtain us vs where uv: "?ns = us @ vs" "w \<in> set us" "t \<in> set vs" by auto
  then have order: "\<exists>xs ys zs. ?ns = xs @ w # ys @ t # zs" by (metis append.assoc append_Cons split_list)
  let ?park = "fold (\<lambda>(t, w) d. dset t w d) ?ts []"
  have r: "r = Some (?park, [])" using enforce_keys [OF e dup] tw by (auto split: if_splits)
  have park: "dget ?park t = Some w"
    using tw by (intro twins_map_get) (simp_all add: plan_families_def twins_distinct [OF dn])
  then have "?park \<noteq> []" by auto
  note arch = enforce_archive [OF e [unfolded r] this, of t]
  have "w \<notin> set (dkeys ?park)" using w(1) ms twins_map_keys [of ?ts "[]"] by (auto simp del: set_map)
  then have "dget ?park w = None" by (simp add: dkeys_dget del: set_map)
  then have "repoint ?park (park_row now bid (champion_dicts bk) lookup t w) = park_row now bid (champion_dicts bk) lookup t w"
    by (simp add: repoint_def park_row_def)
  then show ?thesis using arch park w order by auto
qed

end
