(* ===== verification/Leases.thy ===== *)
theory Leases
  imports FamiliesFacts
begin

text \<open>
  The discovery lease queue of \<open>hedge_fund/trading/leases.py\<close>: the lease file, the
  request validators, lease room per worker, lease expiry and heartbeat actions,
  expiry and retention sweeps, lane counting and refill sizing. The environment
  variable \<open>DISCOVERY_EVAL_TIMEOUT_SECONDS\<close> is the argument \<open>ev\<close>.
\<close>

section \<open>Constants\<close>

definition MAX_CLAIM :: int where "MAX_CLAIM = 64"
definition LEASE_TTL_FACTOR :: int where "LEASE_TTL_FACTOR = 2"
definition REFILL_LANE_MULTIPLE :: int where "REFILL_LANE_MULTIPLE = 4"
definition REFILL_BATCH_MAX :: int where "REFILL_BATCH_MAX = 64"
definition WORKER_RETENTION :: int where "WORKER_RETENTION = sec (7 * 24 * 3600)"
definition LEASES_PER_LANE :: int where "LEASES_PER_LANE = 2"
definition ABSENT_PARALLEL_LEASE_CAP :: int where "ABSENT_PARALLEL_LEASE_CAP = 12"
definition UNSTARTED_STALE_SECONDS :: int where "UNSTARTED_STALE_SECONDS = 300"
definition ORPHAN_GRACE_SECONDS :: int where "ORPHAN_GRACE_SECONDS = 180"
definition FARM_HEARTBEAT_STALE_SECONDS :: int where "FARM_HEARTBEAT_STALE_SECONDS = 900"
definition DISCOVERY_REFILL_BATCH_SIZE :: int where "DISCOVERY_REFILL_BATCH_SIZE = 16"
definition DEFAULT_EVAL_TIMEOUT_SECONDS :: int where "DEFAULT_EVAL_TIMEOUT_SECONDS = 600"

lemmas lease_constants =
  MAX_CLAIM_def LEASE_TTL_FACTOR_def REFILL_LANE_MULTIPLE_def REFILL_BATCH_MAX_def
  WORKER_RETENTION_def LEASES_PER_LANE_def ABSENT_PARALLEL_LEASE_CAP_def
  UNSTARTED_STALE_SECONDS_def ORPHAN_GRACE_SECONDS_def FARM_HEARTBEAT_STALE_SECONDS_def
  DISCOVERY_REFILL_BATCH_SIZE_def DEFAULT_EVAL_TIMEOUT_SECONDS_def

section \<open>The lease file\<close>

record lease_state =
  leases :: "jv dict"
  workers :: "jv dict"

definition empty_state :: lease_state where
  "empty_state = \<lparr>leases = [], workers = []\<rparr>"

text \<open>\<open>None\<close> is a missing or unreadable file.\<close>

definition load_lease_state :: "jv option \<Rightarrow> lease_state" where
  "load_lease_state f =
     (case f of
        None \<Rightarrow> empty_state
      | Some data \<Rightarrow>
          if \<not> is_dict data then empty_state
          else \<lparr>leases = as_dict (sub_dict data ''leases''),
                workers = as_dict (sub_dict data ''workers'')\<rparr>)"

definition save_lease_state :: "lease_state \<Rightarrow> jv" where
  "save_lease_state st =
     JObj [(''leases'', JObj (leases st)), (''workers'', JObj (workers st)),
           (''paper_only'', JBool True)]"

definition lease_state_ok :: "lease_state \<Rightarrow> bool" where
  "lease_state_ok st \<longleftrightarrow> dict_ok (leases st) \<and> dict_ok (workers st)"

section \<open>Request validation\<close>

definition worker_id_head :: "char \<Rightarrow> bool" where
  "worker_id_head c \<longleftrightarrow> is_alnum c"

definition worker_id_char :: "char \<Rightarrow> bool" where
  "worker_id_char c \<longleftrightarrow> is_alnum c \<or> c \<in> set ''_.-''"

text \<open>\<open>^[A-Za-z0-9][A-Za-z0-9_.-]{0,127}$\<close> on a stripped string.\<close>

fun worker_id_match :: "string \<Rightarrow> bool" where
  "worker_id_match [] = False"
| "worker_id_match (c # cs) =
     (worker_id_head c \<and> length cs \<le> 127 \<and> list_all worker_id_char cs)"

text \<open>A string that reads as an instant is refused; the code takes one that also matches the pattern, such as a date.\<close>

definition require_worker_id :: "jv \<Rightarrow> string result" where
  "require_worker_id value =
     (case value of
        JStr s \<Rightarrow>
          (let wid = strip s in
           if worker_id_match wid then Inr wid
           else Inl (ValueError ''worker_id must be 1-128 letters, digits, . _ or -''))
      | JTime t \<Rightarrow> Inl (ValueError ''worker_id must be 1-128 letters, digits, . _ or -'')
      | _ \<Rightarrow> Inl (ValueError ''worker_id is required''))"

definition require_n :: "jv \<Rightarrow> int result" where
  "require_n value =
     (case value of
        JInt i \<Rightarrow>
          (if i < 1 \<or> i > MAX_CLAIM then Inl (ValueError ''n must be an integer from 1 to 64'')
           else Inr i)
      | _ \<Rightarrow> Inl (ValueError ''n must be an integer from 1 to 64''))"

definition require_parallel :: "jv \<Rightarrow> int option result" where
  "require_parallel value =
     (case value of
        JNull \<Rightarrow> Inr None
      | JInt i \<Rightarrow>
          (if i < 1 \<or> i > 256 then Inl (ValueError ''parallel must be a positive integer'')
           else Inr (Some i))
      | _ \<Rightarrow> Inl (ValueError ''parallel must be a positive integer''))"

text \<open>\<open>_status\<close>: keep letters, digits, \<open>-\<close> and \<open>_\<close>, at most 32, else the default.\<close>

definition status_char :: "char \<Rightarrow> bool" where
  "status_char c \<longleftrightarrow> is_alnum c \<or> c \<in> set ''-_''"

definition clean_status :: "jv \<Rightarrow> string \<Rightarrow> string" where
  "clean_status value dflt =
     (case value of
        JStr s \<Rightarrow> (let cleaned = take 32 (filter status_char s) in if cleaned = [] then dflt else cleaned)
      | _ \<Rightarrow> dflt)"

section \<open>Lease room\<close>

definition lease_time :: "jv \<Rightarrow> string \<Rightarrow> int option" where
  "lease_time rec key = parse_tested_at (jget rec key)"

definition started :: "jv \<Rightarrow> bool" where
  "started rec \<longleftrightarrow> truthy (jget rec ''started_at'')"

text \<open>\<open>_lease_time(record, "queued_seen_at") or _lease_time(record, "claimed_at")\<close>\<close>

definition last_reported :: "jv \<Rightarrow> int option" where
  "last_reported rec =
     (case lease_time rec ''queued_seen_at'' of
        Some t \<Rightarrow> Some t | None \<Rightarrow> lease_time rec ''claimed_at'')"

definition is_stale_unstarted :: "jv \<Rightarrow> int \<Rightarrow> bool" where
  "is_stale_unstarted rec now \<longleftrightarrow>
     is_dict rec \<and> \<not> started rec \<and>
     (case last_reported rec of
        None \<Rightarrow> True
      | Some seen \<Rightarrow> now - seen \<ge> sec UNSTARTED_STALE_SECONDS)"

definition owned_by :: "string \<Rightarrow> jv \<Rightarrow> bool" where
  "owned_by wid rec \<longleftrightarrow> is_dict rec \<and> jget rec ''worker_id'' = JStr wid"

definition holds_room :: "string \<Rightarrow> int option \<Rightarrow> jv \<Rightarrow> bool" where
  "holds_room wid now rec \<longleftrightarrow>
     owned_by wid rec \<and>
     (case now of None \<Rightarrow> True | Some t \<Rightarrow> \<not> is_stale_unstarted rec t)"

definition worker_lease_count :: "lease_state \<Rightarrow> string \<Rightarrow> int option \<Rightarrow> int" where
  "worker_lease_count st wid now =
     int (length (filter (\<lambda>(n, rec). holds_room wid now rec) (leases st)))"

definition stored_parallel :: "lease_state \<Rightarrow> string \<Rightarrow> int option" where
  "stored_parallel st wid =
     (case dget (workers st) wid of
        None \<Rightarrow> None
      | Some meta \<Rightarrow>
          (case as_int (jget meta ''parallel'') of
             None \<Rightarrow> None
           | Some raw \<Rightarrow> if raw < 1 then None else Some raw))"

definition worker_lease_cap :: "lease_state \<Rightarrow> string \<Rightarrow> int option \<Rightarrow> int" where
  "worker_lease_cap st wid parallel =
     (let width = (case parallel of Some p \<Rightarrow> if p \<ge> 1 then Some p else None | None \<Rightarrow> None);
          width = (case width of None \<Rightarrow> stored_parallel st wid | Some p \<Rightarrow> Some p)
      in case width of None \<Rightarrow> ABSENT_PARALLEL_LEASE_CAP | Some p \<Rightarrow> LEASES_PER_LANE * p)"

definition lease_room :: "lease_state \<Rightarrow> string \<Rightarrow> int option \<Rightarrow> int option \<Rightarrow> int" where
  "lease_room st wid parallel now =
     max 0 (worker_lease_cap st wid parallel - worker_lease_count st wid now)"

section \<open>Expiry\<close>

definition eval_timeout_seconds :: "env_value \<Rightarrow> int" where
  "eval_timeout_seconds ev = env_int ev DEFAULT_EVAL_TIMEOUT_SECONDS"

definition per_name_lease_seconds :: "env_value \<Rightarrow> int" where
  "per_name_lease_seconds ev =
     (let per = eval_timeout_seconds ev;
          per = (if per \<le> 0 then DEFAULT_EVAL_TIMEOUT_SECONDS else per)
      in LEASE_TTL_FACTOR * per)"

definition lease_heartbeat_grace_seconds :: int where
  "lease_heartbeat_grace_seconds = FARM_HEARTBEAT_STALE_SECONDS"

definition lease_ttl_seconds :: "int \<Rightarrow> int option \<Rightarrow> int" where
  "lease_ttl_seconds n parallel = lease_heartbeat_grace_seconds"

definition unstarted_hard_cap :: "env_value \<Rightarrow> jv \<Rightarrow> int option" where
  "unstarted_hard_cap ev rec =
     (case lease_time rec ''claimed_at'' of
        None \<Rightarrow> None
      | Some claimed \<Rightarrow> Some (claimed + sec (per_name_lease_seconds ev)))"

datatype lease_action = RENEW | KEEP | DROP

text \<open>
  \<open>evaluating\<close> / \<open>queued\<close> are the names a heartbeat lists; \<open>None\<close> when it sent no list.
\<close>

definition listed :: "string \<Rightarrow> string list option \<Rightarrow> bool" where
  "listed name names \<longleftrightarrow> (case names of None \<Rightarrow> False | Some ns \<Rightarrow> name \<in> set ns)"

definition nothing_listed :: "string list option \<Rightarrow> bool" where
  "nothing_listed names \<longleftrightarrow> (case names of None \<Rightarrow> True | Some ns \<Rightarrow> ns = [])"

definition heartbeat_lease_action ::
    "jv \<Rightarrow> int \<Rightarrow> string \<Rightarrow> string \<Rightarrow> string list option \<Rightarrow> string list option \<Rightarrow> lease_action" where
  "heartbeat_lease_action rec now name status evaluating queued =
     (if listed name evaluating \<or> listed name queued then RENEW
      else if started rec then
        (if evaluating = None \<and> status \<noteq> ''idle'' then RENEW else KEEP)
      else if status = ''idle'' \<and> nothing_listed evaluating \<and> nothing_listed queued then DROP
      else if queued \<noteq> None \<and>
         (case lease_time rec ''claimed_at'' of
            None \<Rightarrow> True
          | Some claimed \<Rightarrow> now - claimed \<ge> sec ORPHAN_GRACE_SECONDS) then DROP
      else KEEP)"

definition mark_started :: "int \<Rightarrow> string \<Rightarrow> string list option \<Rightarrow> jv \<Rightarrow> jv" where
  "mark_started now name evaluating rec =
     (if listed name evaluating \<and> \<not> started rec then jset ''started_at'' (iso now) rec else rec)"

definition mark_queued :: "int \<Rightarrow> string \<Rightarrow> string list option \<Rightarrow> jv \<Rightarrow> jv" where
  "mark_queued now name queued rec =
     (if listed name queued then jset ''queued_seen_at'' (iso now) rec else rec)"

definition hard_cap :: "env_value \<Rightarrow> jv \<Rightarrow> int option" where
  "hard_cap ev rec =
     (case lease_time rec ''started_at'' of
        Some st \<Rightarrow> Some (st + sec (per_name_lease_seconds ev))
      | None \<Rightarrow> unstarted_hard_cap ev rec)"

definition bump_lease_expiry ::
    "env_value \<Rightarrow> jv \<Rightarrow> int \<Rightarrow> string \<Rightarrow> string list option \<Rightarrow> string list option \<Rightarrow> jv" where
  "bump_lease_expiry ev rec now name evaluating queued =
     (let rec = mark_started now name evaluating rec;
          rec = mark_queued now name queued rec;
          horizon = now + sec lease_heartbeat_grace_seconds
      in jset ''expires_at''
           (iso (case hard_cap ev rec of None \<Rightarrow> horizon | Some hard \<Rightarrow> min horizon hard)) rec)"

lemmas lease_record_defs [lane_simps] =
  lease_time_def started_def last_reported_def unstarted_hard_cap_def hard_cap_def
  mark_started_def mark_queued_def listed_def nothing_listed_def

text \<open>
  The operations of \<open>trading/leases.py\<close> that edit the lease table: the expiry and
  fail-once sweep, the worker rows and their retention, lane counting and refill
  sizing, release, clear, the per-worker heartbeat and the read-only active map.
\<close>

section \<open>Sweeps\<close>

text \<open>
  \<open>_drop_expired_and_tested\<close>: a lease on a tested name goes unless the name is pending a
  retest (\<open>keep\<close>); otherwise it goes when it has no expiry or the expiry has passed.
\<close>

definition expired :: "int \<Rightarrow> jv \<Rightarrow> bool" where
  "expired now rec \<longleftrightarrow>
     (case parse_tested_at (if is_dict rec then jget rec ''expires_at'' else JNull) of
        None \<Rightarrow> True | Some e \<Rightarrow> e \<le> now)"

definition sweep_lease :: "int \<Rightarrow> string list \<Rightarrow> string list \<Rightarrow> string \<Rightarrow> jv \<Rightarrow> jv option" where
  "sweep_lease now tested keep name rec =
     (if name \<in> set tested \<and> name \<notin> set keep then None
      else if expired now rec then None
      else Some rec)"

definition drop_expired_and_tested ::
    "lease_state \<Rightarrow> int \<Rightarrow> string list \<Rightarrow> string list \<Rightarrow> lease_state \<times> int" where
  "drop_expired_and_tested st now tested keep =
     (st\<lparr>leases := dict_walk (sweep_lease now tested keep) (leases st)\<rparr>,
      int (length (filter (\<lambda>(n, rec). \<not> (n \<in> set tested \<and> n \<notin> set keep) \<and> expired now rec)
        (leases st))))"

section \<open>Worker rows\<close>

definition touch_meta :: "string \<Rightarrow> string \<Rightarrow> int \<Rightarrow> int option \<Rightarrow> jv option \<Rightarrow> jv" where
  "touch_meta wid status now parallel prev =
     (let meta = (case prev of None \<Rightarrow> JObj [] | Some m \<Rightarrow> dict_or_empty m);
          meta = jset ''worker_id'' (JStr wid) meta;
          meta = jset ''last_seen'' (iso now) meta;
          meta = jset ''status'' (JStr status) meta
      in case parallel of
           None \<Rightarrow> meta
         | Some p \<Rightarrow> if p \<ge> 1 then jset ''parallel'' (JInt p) meta else meta)"

definition touch :: "lease_state \<Rightarrow> string \<Rightarrow> string \<Rightarrow> int \<Rightarrow> int option \<Rightarrow> lease_state" where
  "touch st wid status now parallel =
     st\<lparr>workers := dset wid (touch_meta wid status now parallel (dget (workers st) wid)) (workers st)\<rparr>"

definition active_ids :: "lease_state \<Rightarrow> string list" where
  "active_ids st =
     List.map_filter (\<lambda>(n, rec). if is_dict rec then as_str (jget rec ''worker_id'') else None) (leases st)"

definition stale_worker :: "int \<Rightarrow> jv \<Rightarrow> bool" where
  "stale_worker now meta =
     (case parse_tested_at (if is_dict meta then jget meta ''last_seen'' else JNull) of
        None \<Rightarrow> False | Some ts \<Rightarrow> ts < now - WORKER_RETENTION)"

definition prune_workers :: "lease_state \<Rightarrow> int \<Rightarrow> lease_state" where
  "prune_workers st now =
     st\<lparr>workers := dict_walk
        (\<lambda>wid meta. if wid \<in> set (active_ids st) then Some meta
                    else if stale_worker now meta then None else Some meta)
        (workers st)\<rparr>"

section \<open>Lanes and refill sizing\<close>

definition lane_width :: "int \<Rightarrow> jv \<Rightarrow> int" where
  "lane_width now meta =
     (if \<not> is_dict meta \<or> jget meta ''status'' = JStr ''paused'' then 0
      else case parse_tested_at (jget meta ''last_seen'') of
          None \<Rightarrow> 0
        | Some seen \<Rightarrow>
            if now - seen > sec FARM_HEARTBEAT_STALE_SECONDS then 0
            else (case as_int (jget meta ''parallel'') of
                    None \<Rightarrow> 1 | Some raw \<Rightarrow> if raw < 1 then 1 else raw))"

definition active_leased_lanes :: "lease_state \<Rightarrow> int \<Rightarrow> int" where
  "active_leased_lanes st now = sum_list (map (lane_width now \<circ> snd) (workers st))"

definition refill_trigger :: "int \<Rightarrow> int \<Rightarrow> int" where
  "refill_trigger cap lanes = max cap (REFILL_LANE_MULTIPLE * max 0 lanes)"

definition refill_batch_size :: "int \<Rightarrow> int \<Rightarrow> int \<Rightarrow> int" where
  "refill_batch_size eligible cap lanes =
     (let trigger = refill_trigger cap lanes in
      if eligible \<ge> trigger then 0
      else
        let lane_n = max 0 lanes;
            paced = (if lane_n > 0
                     then min REFILL_BATCH_MAX
                            (max DISCOVERY_REFILL_BATCH_SIZE (lane_n * DISCOVERY_REFILL_BATCH_SIZE))
                     else DISCOVERY_REFILL_BATCH_SIZE);
            gap = trigger - eligible
        in min REFILL_BATCH_MAX (max paced gap))"

section \<open>Release and clear\<close>

text \<open>\<open>_release_unlocked\<close>, the discovery leases: \<open>names = None\<close> releases all of them.\<close>

definition releases :: "string \<Rightarrow> string list option \<Rightarrow> string \<Rightarrow> jv \<Rightarrow> bool" where
  "releases wid names name rec \<longleftrightarrow>
     owned_by wid rec \<and> (case names of None \<Rightarrow> True | Some ns \<Rightarrow> name \<in> set ns)"

definition release_leases :: "lease_state \<Rightarrow> string \<Rightarrow> string list option \<Rightarrow> lease_state \<times> string list" where
  "release_leases st wid names =
     (let f = (\<lambda>name rec. if releases wid names name rec then None else Some rec)
      in (st\<lparr>leases := dict_walk f (leases st)\<rparr>, walk_dropped f (leases st)))"

definition clear_leases :: "lease_state \<Rightarrow> string list \<Rightarrow> lease_state \<times> string list" where
  "clear_leases st names =
     (let wanted = remdups (filter (\<lambda>n. n \<noteq> []) names);
          released = filter (\<lambda>n. dget (leases st) n \<noteq> None) wanted
      in (st\<lparr>leases := foldl (\<lambda>d n. ddel n d) (leases st) released\<rparr>, released))"

section \<open>Heartbeat\<close>

definition heartbeat_lease ::
    "env_value \<Rightarrow> string \<Rightarrow> string \<Rightarrow> int \<Rightarrow> string list option \<Rightarrow> string list option \<Rightarrow>
     string \<Rightarrow> jv \<Rightarrow> jv option" where
  "heartbeat_lease ev wid status now evaluating queued name rec =
     (if \<not> owned_by wid rec then Some rec
      else case heartbeat_lease_action rec now name status evaluating queued of
          RENEW \<Rightarrow> Some (bump_lease_expiry ev rec now name evaluating queued)
        | DROP \<Rightarrow> None
        | KEEP \<Rightarrow> Some rec)"

text \<open>
  \<open>touch_worker_unlocked\<close>, the lease file. The caller passes a valid worker id and the
  cleaned status; a paused heartbeat does not touch leases.
\<close>

definition heartbeat_leases ::
    "env_value \<Rightarrow> lease_state \<Rightarrow> string \<Rightarrow> string \<Rightarrow> int \<Rightarrow> string list option \<Rightarrow>
     string list option \<Rightarrow> lease_state \<times> string list" where
  "heartbeat_leases ev st wid status now evaluating queued =
     (let st = touch st wid status now None;
          f = heartbeat_lease ev wid status now evaluating queued;
          (st, dropped) =
            (if status \<noteq> ''paused''
             then (st\<lparr>leases := dict_walk f (leases st)\<rparr>, walk_dropped f (leases st))
             else (st, []))
      in (prune_workers st now, dropped))"

definition name_set :: "jv \<Rightarrow> string list option" where
  "name_set value =
     (case value of JList xs \<Rightarrow> Some (filter (\<lambda>n. n \<noteq> []) (strings_of xs)) | _ \<Rightarrow> None)"

definition touch_worker ::
    "env_value \<Rightarrow> lease_state \<Rightarrow> jv \<Rightarrow> jv \<Rightarrow> int \<Rightarrow> jv \<Rightarrow> jv \<Rightarrow> lease_state \<times> string list" where
  "touch_worker ev st worker_id status now evaluating queued =
     (case as_str worker_id of
        None \<Rightarrow> (st, [])
      | Some s \<Rightarrow>
          if \<not> worker_id_match (strip s) then (st, [])
          else heartbeat_leases ev st (strip s) (clean_status status ''running'') now
                 (name_set evaluating) (name_set queued))"

section \<open>Snapshot\<close>

definition live :: "int \<Rightarrow> jv \<Rightarrow> bool" where
  "live now rec \<longleftrightarrow>
     is_dict rec \<and>
     (case parse_tested_at (jget rec ''expires_at'') of None \<Rightarrow> False | Some e \<Rightarrow> now < e)"

definition active_map :: "lease_state \<Rightarrow> int \<Rightarrow> jv dict \<times> int" where
  "active_map st now =
     (filter (\<lambda>(n, rec). live now rec) (leases st),
      int (length (filter (\<lambda>(n, rec). is_dict rec \<and> \<not> live now rec) (leases st))))"

end
