(* ===== verification/LeaseFacts.thy ===== *)
theory LeaseFacts
  imports Leases
begin

text \<open>
  What heartbeats, sweeps and releases do to single lease records and to the lease
  table; the interface \<open>heartbeat_lane\<close> both lease queues (discovery and requalify)
  offer, with the lemmas a client needs about runs of heartbeats.
\<close>

section \<open>One lease record\<close>

abbreviation expiry :: "jv \<Rightarrow> int option" where
  "expiry rec \<equiv> lease_time rec ''expires_at''"

lemma owned_by_dict [dest]: "owned_by w r \<Longrightarrow> is_dict r"
  by (simp add: owned_by_def)

lemma marks_dict [simp]:
  "is_dict (mark_started now n e r) = is_dict r"
  "is_dict (mark_queued now n q r) = is_dict r"
  by (simp_all add: lane_simps)

lemma jget_mark_started:
  "is_dict r \<Longrightarrow> jget (mark_started now n e r) k =
     (if k = ''started_at'' \<and> listed n e \<and> \<not> started r then iso now else jget r k)"
  by (simp add: mark_started_def)

lemma jget_mark_queued:
  "is_dict r \<Longrightarrow> jget (mark_queued now n q r) k =
     (if k = ''queued_seen_at'' \<and> listed n q then iso now else jget r k)"
  by (simp add: mark_queued_def)

lemma is_dict_bump [simp]: "is_dict (bump_lease_expiry ev r now n e q) = is_dict r"
  by (simp add: bump_lease_expiry_def Let_def)

lemma jget_bump:
  "is_dict r \<Longrightarrow> k \<noteq> ''expires_at'' \<Longrightarrow> k \<noteq> ''started_at'' \<Longrightarrow> k \<noteq> ''queued_seen_at'' \<Longrightarrow>
     jget (bump_lease_expiry ev r now n e q) k = jget r k"
  by (simp add: bump_lease_expiry_def Let_def jget_mark_started jget_mark_queued)

lemma owned_by_bump [simp]:
  "owned_by w (bump_lease_expiry ev r now n e q) = owned_by w r"
proof (cases "is_dict r")
  case True
  then have "jget (bump_lease_expiry ev r now n e q) ''worker_id'' = jget r ''worker_id''"
    by (rule jget_bump) simp_all
  then show ?thesis by (simp add: owned_by_def)
qed (simp add: owned_by_def)

lemma claimed_bump [simp]:
  "is_dict r \<Longrightarrow> lease_time (bump_lease_expiry ev r now n e q) ''claimed_at'' = lease_time r ''claimed_at''"
  by (simp add: lease_time_def jget_bump)

lemma started_at_bump:
  "is_dict r \<Longrightarrow> lease_time (bump_lease_expiry ev r now n e q) ''started_at'' =
     (if listed n e \<and> \<not> started r then Some (floor_sec now) else lease_time r ''started_at'')"
  by (simp add: bump_lease_expiry_def Let_def lease_time_def jget_mark_started jget_mark_queued)

lemma started_bump:
  "is_dict r \<Longrightarrow> started (bump_lease_expiry ev r now n e q) = (started r \<or> listed n e)"
  by (auto simp: bump_lease_expiry_def Let_def started_def jget_mark_started jget_mark_queued)

lemma expiry_bump:
  "is_dict r \<Longrightarrow> expiry (bump_lease_expiry ev r now n e q) =
     Some (floor_sec
       (case hard_cap ev (bump_lease_expiry ev r now n e q) of
          None \<Rightarrow> now + sec lease_heartbeat_grace_seconds
        | Some hard \<Rightarrow> min (now + sec lease_heartbeat_grace_seconds) hard))"
  by (simp add: bump_lease_expiry_def Let_def lease_time_def hard_cap_def unstarted_hard_cap_def
      split: option.splits)

lemma bump_within_grace:
  "is_dict r \<Longrightarrow> expiry (bump_lease_expiry ev r now n e q) = Some x \<Longrightarrow>
     x \<le> floor_sec now + sec lease_heartbeat_grace_seconds"
  by (auto simp: expiry_bump floor_sec_min floor_sec_add split: option.splits)

lemma bump_within_cap:
  "is_dict r \<Longrightarrow> hard_cap ev (bump_lease_expiry ev r now n e q) = Some hard \<Longrightarrow>
   expiry (bump_lease_expiry ev r now n e q) = Some x \<Longrightarrow> x \<le> hard"
  by (auto simp: expiry_bump intro: order_trans [OF floor_sec_le])

lemma hard_cap_started:
  "lease_time r ''started_at'' = Some t \<Longrightarrow> hard_cap ev r = Some (t + sec (per_name_lease_seconds ev))"
  by (simp add: hard_cap_def)

lemma started_at_started: "lease_time r ''started_at'' = Some t \<Longrightarrow> started r"
  by (cases "jget r ''started_at''") (auto simp: lease_time_def started_def)

lemma per_name_lease_pos: "0 < per_name_lease_seconds ev"
  by (simp add: per_name_lease_seconds_def Let_def lease_constants)

section \<open>The heartbeat step on a table\<close>

lemma heartbeat_lease_cases:
  assumes "heartbeat_lease ev w st now e q n r = Some r'"
  obtains (same) "r' = r"
    | (bumped) "owned_by w r" "r' = bump_lease_expiry ev r now n e q"
        "heartbeat_lease_action r now n st e q = RENEW"
  using assms by (auto simp: heartbeat_lease_def split: if_splits lease_action.splits)

lemma leases_touch [simp]: "leases (touch st w s now p) = leases st"
  by (simp add: touch_def)

lemma leases_prune [simp]: "leases (prune_workers st now) = leases st"
  by (simp add: prune_workers_def)

lemma workers_touch:
  "dget (workers (touch st w s now p)) w' =
     (if w' = w then Some (touch_meta w s now p (dget (workers st) w)) else dget (workers st) w')"
  by (simp add: touch_def)

lemma touch_meta_dict [simp]: "is_dict (touch_meta w s now p m)"
  by (auto simp: touch_meta_def Let_def dict_or_empty_def split: option.splits)

lemma touch_meta_last_seen [simp]: "jget (touch_meta w s now p m) ''last_seen'' = iso now"
proof -
  have "is_dict (case m of None \<Rightarrow> JObj [] | Some m \<Rightarrow> dict_or_empty m)"
    by (auto simp: dict_or_empty_def split: option.splits)
  then show ?thesis by (auto simp: touch_meta_def Let_def split: option.splits)
qed

lemma touch_meta_keeps_parallel:
  "jget (touch_meta w s now None (Some m)) ''parallel'' = jget m ''parallel''"
  by (cases "is_dict m") (auto simp: touch_meta_def Let_def dict_or_empty_def)

lemma touch_ok [simp]: "lease_state_ok st \<Longrightarrow> lease_state_ok (touch st w s now p)"
  by (simp add: lease_state_ok_def touch_def)

lemma prune_ok [simp]: "lease_state_ok st \<Longrightarrow> lease_state_ok (prune_workers st now)"
  by (simp add: lease_state_ok_def prune_workers_def)

lemma leases_heartbeat:
  "leases (fst (heartbeat_leases ev st w s now e q)) =
     (if s = ''paused'' then leases st else dict_walk (heartbeat_lease ev w s now e q) (leases st))"
  by (simp add: heartbeat_leases_def Let_def)

lemma heartbeat_ok [simp]:
  "lease_state_ok st \<Longrightarrow> lease_state_ok (fst (heartbeat_leases ev st w s now e q))"
  by (simp add: heartbeat_leases_def Let_def lease_state_ok_def touch_def prune_workers_def)

section \<open>The interface of a queue renewed by heartbeats\<close>

text \<open>
  \<open>lease_of s n\<close> is the record of the lease on \<open>n\<close>, if there is one; \<open>beat\<close> is one
  heartbeat of a worker. The laws say that a heartbeat acts on the sender's own
  leases only, by \<open>heartbeat_lease_action\<close>, and never creates a lease. A queue may skip
  writing a renewal back (the requalify queue does when neither the expiry nor the start
  time moved), but never a drop.
\<close>

locale heartbeat_lane =
  fixes ev :: env_value
    and ok :: "'s \<Rightarrow> bool"
    and lease_of :: "'s \<Rightarrow> string \<Rightarrow> jv option"
    and beat :: "'s \<Rightarrow> string \<Rightarrow> string \<Rightarrow> int \<Rightarrow> string list option \<Rightarrow> string list option \<Rightarrow> 's"
  assumes beat_ok: "ok s \<Longrightarrow> ok (beat s w st now e q)"
    and beat_lease: "ok s \<Longrightarrow> st \<noteq> ''paused'' \<Longrightarrow>
        lease_of (beat s w st now e q) n =
            (case lease_of s n of None \<Rightarrow> None | Some r \<Rightarrow> heartbeat_lease ev w st now e q n r) \<or>
        lease_of (beat s w st now e q) n = lease_of s n \<and>
          (\<forall>r. lease_of s n = Some r \<longrightarrow> heartbeat_lease ev w st now e q n r \<noteq> None)"
    and beat_paused: "ok s \<Longrightarrow> lease_of (beat s w ''paused'' now e q) n = lease_of s n"
begin

lemma beat_foreign:
  assumes "ok s" "lease_of s n = Some r" "\<not> owned_by w r"
  shows "lease_of (beat s w st now e q) n = Some r"
  using assms beat_lease [OF assms(1), of st w now e q n]
  by (cases "st = ''paused''") (auto simp: beat_paused heartbeat_lease_def)

lemma beat_no_new: "ok s \<Longrightarrow> lease_of s n = None \<Longrightarrow> lease_of (beat s w st now e q) n = None"
  using beat_lease [of s st w now e q n] by (cases "st = ''paused''") (auto simp: beat_paused)

lemma beat_drop:
  assumes "ok s" "lease_of s n = Some r" "st \<noteq> ''paused''"
    and "owned_by w r" "heartbeat_lease_action r now n st e q = DROP"
  shows "lease_of (beat s w st now e q) n = None"
  using assms beat_lease [OF assms(1,3), of w now e q n] by (auto simp: heartbeat_lease_def)

lemma beat_lease_cases:
  assumes "ok s" "lease_of (beat s w st now e q) n = Some r'"
  obtains r where "lease_of s n = Some r" "r' = r"
    | r where "lease_of s n = Some r" "owned_by w r" "r' = bump_lease_expiry ev r now n e q"
proof (cases "st = ''paused''")
  case True
  with assms that(1) show ?thesis by (simp add: beat_paused)
next
  case False
  from assms beat_no_new [OF assms(1), of n w st now e q]
  obtain r where r: "lease_of s n = Some r" by (cases "lease_of s n") auto
  from beat_lease [OF assms(1) False, of w now e q n] assms(2) r
  have "heartbeat_lease ev w st now e q n r = Some r' \<or> r' = r" by auto
  with r that show ?thesis by (auto elim!: heartbeat_lease_cases)
qed

text \<open>A list of heartbeats \<open>(worker, status, time, evaluating, queued)\<close>.\<close>

definition beats ::
    "'s \<Rightarrow> (string \<times> string \<times> int \<times> string list option \<times> string list option) list \<Rightarrow> 's" where
  "beats = foldl (\<lambda>s (w, st, now, e, q). beat s w st now e q)"

lemma beats_ok: "ok s \<Longrightarrow> ok (beats s bs)"
  by (induction bs arbitrary: s) (auto simp: beats_def beat_ok split: prod.splits)

text \<open>
  Once a lease has a start time, no run of heartbeats moves it or carries the
  lease past the start time plus the per-name cap.
\<close>

lemma beat_started_bound:
  assumes "ok s" "lease_of s n = Some r" "is_dict r"
    and "lease_time r ''started_at'' = Some t"
    and "\<forall>x. expiry r = Some x \<longrightarrow> x \<le> t + sec (per_name_lease_seconds ev)"
    and "lease_of (beat s w st now e q) n = Some r'"
  shows "is_dict r' \<and> lease_time r' ''started_at'' = Some t \<and>
    (\<forall>x. expiry r' = Some x \<longrightarrow> x \<le> t + sec (per_name_lease_seconds ev))"
  using assms(1,6)
proof (cases rule: beat_lease_cases)
  case (2 r0)
  with assms have r': "r' = bump_lease_expiry ev r now n e q" by simp
  have st: "lease_time r' ''started_at'' = Some t"
    using assms(3,4) started_at_started [OF assms(4)] by (simp add: r' started_at_bump)
  moreover have "x \<le> t + sec (per_name_lease_seconds ev)" if "expiry r' = Some x" for x
    using bump_within_cap [OF assms(3)] hard_cap_started [OF st] that unfolding r' by blast
  ultimately show ?thesis using assms(3) by (simp add: r')
qed (use assms in auto)

lemma beats_started_bound:
  assumes "ok s" "lease_of s n = Some r" "is_dict r"
    and "lease_time r ''started_at'' = Some t"
    and "\<forall>x. expiry r = Some x \<longrightarrow> x \<le> t + sec (per_name_lease_seconds ev)"
    and "lease_of (beats s bs) n = Some r'"
  shows "lease_time r' ''started_at'' = Some t \<and>
    (\<forall>x. expiry r' = Some x \<longrightarrow> x \<le> t + sec (per_name_lease_seconds ev))"
  using assms
proof (induction bs arbitrary: s r)
  case (Cons b bs)
  obtain w st now e q where b: "b = (w, st, now, e, q)" by (cases b) auto
  let ?s = "beat s w st now e q"
  have rest: "lease_of (beats ?s bs) n = Some r'" using Cons.prems(6) by (simp add: beats_def b)
  have ok': "ok ?s" using Cons.prems(1) by (rule beat_ok)
  show ?case
  proof (cases "lease_of ?s n")
    case None
    have "lease_of (beats u cs) n = None" if "ok u" "lease_of u n = None" for u cs
      using that
      by (induction cs arbitrary: u) (auto simp: beats_def beat_no_new beat_ok split: prod.splits)
    with None ok' rest show ?thesis by auto
  next
    case (Some r1)
    with beat_started_bound [OF Cons.prems(1-5) Some]
    show ?thesis by (intro Cons.IH [OF ok' Some _ _ _ rest]) auto
  qed
qed (simp add: beats_def)

text \<open>A heartbeat leaves each of the sender's leases as it was or within one grace.\<close>

lemma beat_within_grace:
  assumes "ok s" "lease_of (beat s w st now e q) n = Some r'" "expiry r' = Some x"
  shows "lease_of s n = Some r' \<or> x \<le> floor_sec now + sec lease_heartbeat_grace_seconds"
  using assms(1,2)
proof (cases rule: beat_lease_cases)
  case (2 r)
  with assms show ?thesis using bump_within_grace [of r] by auto
qed simp

end

interpretation discovery: heartbeat_lane ev lease_state_ok "\<lambda>st. dget (leases st)"
    "\<lambda>st w s now e q. fst (heartbeat_leases ev st w s now e q)" for ev
  by unfold_locales (auto simp: leases_heartbeat dget_walk lease_state_ok_def heartbeat_leases_def
      Let_def touch_def prune_workers_def)

section \<open>Sweep, release and clear\<close>

lemma sweep_leases:
  "leases (fst (drop_expired_and_tested st now tested keep)) =
     dict_walk (sweep_lease now tested keep) (leases st)"
  by (simp add: drop_expired_and_tested_def)

lemma sweep_workers [simp]: "workers (fst (drop_expired_and_tested st now tested keep)) = workers st"
  by (simp add: drop_expired_and_tested_def)

lemma sweep_ok [simp]:
  "lease_state_ok st \<Longrightarrow> lease_state_ok (fst (drop_expired_and_tested st now tested keep))"
  by (simp add: lease_state_ok_def sweep_leases)

lemma dget_sweep:
  "lease_state_ok st \<Longrightarrow>
   dget (leases (fst (drop_expired_and_tested st now tested keep))) n = Some r \<longleftrightarrow>
     dget (leases st) n = Some r \<and> \<not> (n \<in> set tested \<and> n \<notin> set keep) \<and> \<not> expired now r"
  by (auto simp: sweep_leases dget_walk lease_state_ok_def sweep_lease_def split: option.splits if_splits)

lemma expired_iff: "is_dict r \<Longrightarrow> expired now r \<longleftrightarrow> (case expiry r of None \<Rightarrow> True | Some e \<Rightarrow> e \<le> now)"
  by (simp add: expired_def lease_time_def)

lemma dget_release:
  "lease_state_ok st \<Longrightarrow>
   dget (leases (fst (release_leases st w names))) n = Some r \<longleftrightarrow>
     dget (leases st) n = Some r \<and> \<not> releases w names n r"
  by (auto simp: release_leases_def Let_def dget_walk lease_state_ok_def split: option.splits if_splits)

lemma release_ok [simp]: "lease_state_ok st \<Longrightarrow> lease_state_ok (fst (release_leases st w names))"
  by (simp add: release_leases_def Let_def lease_state_ok_def)

lemma dget_foldl_ddel:
  "dget (foldl (\<lambda>d n. ddel n d) d ns) k = (if k \<in> set ns then None else dget d k)"
  by (induction ns arbitrary: d) auto

lemma dict_ok_foldl_ddel: "dict_ok d \<Longrightarrow> dict_ok (foldl (\<lambda>d n. ddel n d) d ns)"
  by (induction ns arbitrary: d) auto

lemma dget_clear:
  "dget (leases (fst (clear_leases st names))) n =
     (if n \<in> set names \<and> n \<noteq> [] then None else dget (leases st) n)"
  by (auto simp: clear_leases_def Let_def dget_foldl_ddel)

lemma clear_ok [simp]: "lease_state_ok st \<Longrightarrow> lease_state_ok (fst (clear_leases st names))"
  by (simp add: clear_leases_def Let_def lease_state_ok_def dict_ok_foldl_ddel)

end
