(* ===== verification/Requalify.thy ===== *)
theory Requalify
  imports LeaseFacts
begin

text \<open>
  The re-qualification lane of \<open>hedge_fund/trading/requalify.py\<close>: its state file, the
  enqueue and one-shot seeding of batches, and the life of a queued name
  (\<open>queued\<close>, \<open>leased\<close>, \<open>done\<close>, \<open>no_result\<close>) under claim, heartbeat, release, expiry and
  recorded results. A missing file is \<open>None\<close>.
\<close>

section \<open>State\<close>

definition MAX_ATTEMPTS :: int where "MAX_ATTEMPTS = 3"
definition MAX_BATCH_NAMES :: nat where "MAX_BATCH_NAMES = 2000"

record requal =
  rq_batches :: "jv list"
  rq_names :: "jv dict"
  rq_seeded :: "string list"

definition requal_empty :: requal where
  "requal_empty = \<lparr>rq_batches = [], rq_names = [], rq_seeded = []\<rparr>"

definition load_requalify_state :: "jv option \<Rightarrow> requal" where
  "load_requalify_state f =
     (case f of
        None \<Rightarrow> requal_empty
      | Some data \<Rightarrow>
          if \<not> is_dict data then requal_empty
          else \<lparr>rq_batches = as_list (jget data ''batches''),
                rq_names = as_dict (sub_dict data ''names''),
                rq_seeded = strings_of (as_list (jget data ''seeded''))\<rparr>)"

definition save_requalify_state :: "requal \<Rightarrow> jv" where
  "save_requalify_state s =
     JObj [(''batches'', JList (rq_batches s)), (''names'', JObj (rq_names s)),
           (''seeded'', JList (map JStr (rq_seeded s))), (''paper_only'', JBool True)]"

abbreviation status_of :: "jv \<Rightarrow> jv" where
  "status_of m \<equiv> jget m ''status''"

definition has_status :: "string \<Rightarrow> jv \<Rightarrow> bool" where
  "has_status s m \<longleftrightarrow> is_dict m \<and> status_of m = JStr s"

definition attempts_of :: "jv \<Rightarrow> int" where
  "attempts_of m = int_or_0 (jget m ''attempts'')"

section \<open>Enqueue\<close>

definition queued_meta :: "string \<Rightarrow> int \<Rightarrow> jv option \<Rightarrow> jv" where
  "queued_meta bid now prev =
     (let meta = JObj [(''batch_id'', JStr bid), (''status'', JStr ''queued''),
                       (''queued_at'', iso now), (''attempts'', JInt 0)]
      in case prev of
           Some p \<Rightarrow>
             if has_status ''done'' p
             then jset ''previous'' (keep_keys [''batch_id'', ''result'', ''recorded_at''] p) meta
             else meta
         | None \<Rightarrow> meta)"

definition in_batch :: "string \<Rightarrow> jv option \<Rightarrow> bool" where
  "in_batch bid prev \<longleftrightarrow>
     (case prev of None \<Rightarrow> False | Some p \<Rightarrow> is_dict p \<and> jget p ''batch_id'' = JStr bid)"

fun enqueue_names :: "string \<Rightarrow> int \<Rightarrow> jv list \<Rightarrow> jv dict \<Rightarrow> jv dict \<times> string list" where
  "enqueue_names bid now [] d = (d, [])"
| "enqueue_names bid now (raw # raws) d =
     (case as_str raw of
        None \<Rightarrow> enqueue_names bid now raws d
      | Some s \<Rightarrow>
          (let name = strip s in
           if name = [] then enqueue_names bid now raws d
           else if in_batch bid (dget d name) then enqueue_names bid now raws d
           else (let (d', qs) = enqueue_names bid now raws
                       (dset name (queued_meta bid now (dget d name)) d)
                 in (d', name # qs))))"

definition batch_row :: "string \<Rightarrow> int \<Rightarrow> nat \<Rightarrow> int \<Rightarrow> string \<Rightarrow> jv" where
  "batch_row bid now sz n_windows rules =
     JObj [(''batch_id'', JStr bid), (''created_at'', iso now), (''size'', JInt (int sz)),
           (''gate_n_windows'', JInt n_windows), (''gate_rules'', JStr rules)]"

text \<open>\<open>_enqueue_unlocked\<close>; \<open>n_windows\<close> and \<open>rules\<close> are \<open>QUAL_N_WINDOWS\<close> and \<open>GATE_RULES\<close>.\<close>

definition enqueue_unlocked ::
    "int \<Rightarrow> string \<Rightarrow> requal \<Rightarrow> string \<Rightarrow> jv list \<Rightarrow> int \<Rightarrow> requal \<times> string list" where
  "enqueue_unlocked n_windows rules s bid names now =
     (let (d, queued) = enqueue_names bid now names (rq_names s)
      in (s\<lparr>rq_names := d,
            rq_batches := rq_batches s @ [batch_row bid now (length queued) n_windows rules]\<rparr>, queued))"

fun batch_id_match :: "string \<Rightarrow> bool" where
  "batch_id_match [] = False"
| "batch_id_match (c # cs) = (is_alnum c \<and> length cs \<le> 63 \<and> list_all worker_id_char cs)"

definition require_batch_id :: "jv \<Rightarrow> string result" where
  "require_batch_id value =
     (case as_str value of
        None \<Rightarrow> Inl (ValueError ''batch_id must be 1-64 letters, digits, . _ or -'')
      | Some s \<Rightarrow>
          if batch_id_match (strip s) then Inr (strip s)
          else Inl (ValueError ''batch_id must be 1-64 letters, digits, . _ or -''))"

definition enqueue_requalify_batch ::
    "int \<Rightarrow> string \<Rightarrow> string list \<Rightarrow> jv option \<Rightarrow> jv \<Rightarrow> jv \<Rightarrow> int \<Rightarrow> (requal \<times> string list) result" where
  "enqueue_requalify_batch n_windows rules dflt f batch_id names now =
     (case require_batch_id batch_id of
        Inl e \<Rightarrow> Inl e
      | Inr bid \<Rightarrow>
          (case names of
             JNull \<Rightarrow> Inr (enqueue_unlocked n_windows rules (load_requalify_state f) bid (map JStr dflt) now)
           | JList xs \<Rightarrow>
               if \<not> list_all is_str xs then Inl (ValueError ''names must be a list of strings'')
               else if length xs > MAX_BATCH_NAMES then Inl (ValueError ''at most 2000 names per batch'')
               else Inr (enqueue_unlocked n_windows rules (load_requalify_state f) bid xs now)
           | _ \<Rightarrow> Inl (ValueError ''names must be a list of strings'')))"

text \<open>
  \<open>ensure_auto_batch_unlocked\<close>, \<open>ensure_rules_v2_batch_unlocked\<close> and
  \<open>ensure_rules_v3_batch_unlocked\<close> differ in the id and the names they seed.
\<close>

definition ensure_batch ::
    "int \<Rightarrow> string \<Rightarrow> string \<times> string list \<Rightarrow> int \<Rightarrow> jv option \<Rightarrow> jv option \<times> bool" where
  "ensure_batch n_windows rules b now f =
     (let s = load_requalify_state f in
      if fst b \<in> set (rq_seeded s) then (f, False)
      else
        (let (s', q) = enqueue_unlocked n_windows rules s (fst b) (map JStr (snd b)) now
         in (Some (save_requalify_state (s'\<lparr>rq_seeded := rq_seeded s' @ [fst b]\<rparr>)), True)))"

fun run_startup_batches ::
    "int \<Rightarrow> string \<Rightarrow> (string \<times> string list) list \<Rightarrow> int \<Rightarrow> jv option \<Rightarrow> jv option \<times> string list" where
  "run_startup_batches n_windows rules [] now f = (f, [])"
| "run_startup_batches n_windows rules (b # bs) now f =
     (let (f', fresh) = ensure_batch n_windows rules b now f;
          (f'', seeded) = run_startup_batches n_windows rules bs now f'
      in (f'', if fresh then fst b # seeded else seeded))"

section \<open>Leasing\<close>

definition back_to_queue :: "jv \<Rightarrow> jv" where
  "back_to_queue m = jpop ''expires_at'' (jpop ''worker_id'' (jset ''status'' (JStr ''queued'') m))"

definition expire_meta :: "int \<Rightarrow> string \<Rightarrow> jv \<Rightarrow> jv option" where
  "expire_meta now name m =
     (if \<not> has_status ''leased'' m then Some m
      else if (case parse_tested_at (jget m ''expires_at'') of None \<Rightarrow> True | Some x \<Rightarrow> x \<le> now) then
        (let m' = back_to_queue m in
         Some (if attempts_of m' \<ge> MAX_ATTEMPTS then jset ''status'' (JStr ''no_result'') m' else m'))
      else Some m)"

definition expire_names :: "int \<Rightarrow> jv dict \<Rightarrow> jv dict" where
  "expire_names now d = dict_walk (expire_meta now) d"

definition lease_meta :: "string \<Rightarrow> int \<Rightarrow> int \<Rightarrow> jv \<Rightarrow> jv" where
  "lease_meta w now ttl m =
     jset ''attempts'' (JInt (attempts_of m + 1))
       (jset ''expires_at'' (iso (now + sec ttl))
         (jset ''claimed_at'' (iso now)
           (jset ''worker_id'' (JStr w)
             (jset ''status'' (JStr ''leased'') m))))"

fun lease_names :: "string \<Rightarrow> int \<Rightarrow> int \<Rightarrow> nat \<Rightarrow> jv dict \<Rightarrow> jv dict \<times> string list" where
  "lease_names w now ttl n [] = ([], [])"
| "lease_names w now ttl 0 d = (d, [])"
| "lease_names w now ttl (Suc n) ((k, m) # d) =
     (if has_status ''queued'' m
      then (let (d', ks) = lease_names w now ttl n d in ((k, lease_meta w now ttl m) # d', k # ks))
      else (let (d', ks) = lease_names w now ttl (Suc n) d in ((k, m) # d', ks)))"

definition lease_requalify :: "string \<Rightarrow> int \<Rightarrow> int \<Rightarrow> int \<Rightarrow> requal option \<Rightarrow> requal option \<times> string list" where
  "lease_requalify w n ttl now f =
     (case f of
        None \<Rightarrow> (None, [])
      | Some s \<Rightarrow>
          (let d = expire_names now (rq_names s);
               (d', chosen) = (if n > 0 then lease_names w now ttl (nat n) d else (d, []))
           in (Some (s\<lparr>rq_names := d'\<rparr>), chosen)))"

definition drop_meta :: "jv \<Rightarrow> jv" where
  "drop_meta m =
     jset ''status'' (JStr ''queued'')
       (jset ''attempts'' (JInt (max 0 (attempts_of m - 1)))
         (jpop ''expires_at'' (jpop ''worker_id'' m)))"

definition leased_to :: "string \<Rightarrow> jv \<Rightarrow> bool" where
  "leased_to w m \<longleftrightarrow> has_status ''leased'' m \<and> jget m ''worker_id'' = JStr w"

definition refresh_meta ::
    "env_value \<Rightarrow> string \<Rightarrow> string \<Rightarrow> int \<Rightarrow> string list option \<Rightarrow> string list option \<Rightarrow>
     string \<Rightarrow> jv \<Rightarrow> jv option" where
  "refresh_meta ev w status now evaluating queued name m =
     (if \<not> leased_to w m then Some m
      else case heartbeat_lease_action m now name status evaluating queued of
          RENEW \<Rightarrow> Some (bump_lease_expiry ev m now name evaluating queued)
        | DROP \<Rightarrow> Some (drop_meta m)
        | KEEP \<Rightarrow> Some m)"

definition refresh_dropped ::
    "string \<Rightarrow> string \<Rightarrow> int \<Rightarrow> string list option \<Rightarrow> string list option \<Rightarrow> jv dict \<Rightarrow> string list" where
  "refresh_dropped w status now evaluating queued d =
     map fst (filter (\<lambda>(n, m). leased_to w m \<and>
       heartbeat_lease_action m now n status evaluating queued = DROP) d)"

text \<open>
  The file is written back only when a drop happened or a renewal moved \<open>expires_at\<close> or
  \<open>started_at\<close>; a renewal that only refreshes \<open>queued_seen_at\<close> is not saved.
\<close>

definition refresh_changes ::
    "env_value \<Rightarrow> string \<Rightarrow> string \<Rightarrow> int \<Rightarrow> string list option \<Rightarrow> string list option \<Rightarrow>
     string \<Rightarrow> jv \<Rightarrow> bool" where
  "refresh_changes ev w status now evaluating queued name m \<longleftrightarrow>
     leased_to w m \<and>
     (case heartbeat_lease_action m now name status evaluating queued of
        RENEW \<Rightarrow>
          (let m' = bump_lease_expiry ev m now name evaluating queued in
           jget m' ''expires_at'' \<noteq> jget m ''expires_at'' \<or> jget m' ''started_at'' \<noteq> jget m ''started_at'')
      | DROP \<Rightarrow> True
      | KEEP \<Rightarrow> False)"

definition refresh_requalify ::
    "env_value \<Rightarrow> string \<Rightarrow> string \<Rightarrow> int \<Rightarrow> string list option \<Rightarrow> string list option \<Rightarrow>
     requal option \<Rightarrow> requal option \<times> string list" where
  "refresh_requalify ev w status now evaluating queued f =
     (case f of
        None \<Rightarrow> (None, [])
      | Some s \<Rightarrow>
          (Some (if list_ex (\<lambda>(n, m). refresh_changes ev w status now evaluating queued n m) (rq_names s)
                 then s\<lparr>rq_names := dict_walk (refresh_meta ev w status now evaluating queued) (rq_names s)\<rparr>
                 else s),
           refresh_dropped w status now evaluating queued (rq_names s)))"

definition release_meta :: "string \<Rightarrow> string list option \<Rightarrow> string \<Rightarrow> jv \<Rightarrow> jv option" where
  "release_meta w names name m =
     (if leased_to w m \<and> (case names of None \<Rightarrow> True | Some ns \<Rightarrow> name \<in> set ns)
      then (let m' = jpop ''expires_at'' (jpop ''worker_id'' m) in
            Some (jset ''status''
              (JStr (if attempts_of m' \<ge> MAX_ATTEMPTS then ''no_result'' else ''queued'')) m'))
      else Some m)"

definition release_requalify :: "string \<Rightarrow> string list option \<Rightarrow> requal option \<Rightarrow> requal option \<times> string list" where
  "release_requalify w names f =
     (case f of
        None \<Rightarrow> (None, [])
      | Some s \<Rightarrow>
          (Some (s\<lparr>rq_names := dict_walk (release_meta w names) (rq_names s)\<rparr>),
           map fst (filter (\<lambda>(n, m). leased_to w m \<and> (case names of None \<Rightarrow> True | Some ns \<Rightarrow> n \<in> set ns))
             (rq_names s))))"

definition awaiting :: "jv \<Rightarrow> bool" where
  "awaiting m \<longleftrightarrow> has_status ''queued'' m \<or> has_status ''leased'' m"

definition pending_requalify_names :: "requal \<Rightarrow> string list" where
  "pending_requalify_names s = map fst (filter (\<lambda>(n, m). awaiting m) (rq_names s))"

section \<open>Recording\<close>

definition RESULT_KEYS :: "string list" where
  "RESULT_KEYS =
    [''qualified'', ''fail_reasons'', ''sharpe'', ''trades'', ''test_pnl'', ''train_pnl'',
     ''win_rate_pct'', ''bh_oos_pnl'', ''sma_stack_oos_pnl'', ''daily_sharpe'', ''bh_daily_sharpe'',
     ''avg_hold_hours'', ''gate_rules'', ''regimes_tested'', ''all_windows_nonneg'', ''ops_park'',
     ''tested_at'', ''worker_id'', ''data_end'', ''data_hash'', ''provenance'', ''gate'']"

definition requalify_result :: "int \<Rightarrow> jv \<Rightarrow> jv" where
  "requalify_result n_windows rec =
     jset ''current_gate'' (JBool (jget rec ''regimes_tested'' = JInt n_windows))
       (jset ''gate_n_windows'' (JInt n_windows)
         (jset ''qualified'' (JBool (truthy (jget rec ''qualified'')))
           (keep_keys RESULT_KEYS rec)))"

definition done_meta :: "int \<Rightarrow> jv \<Rightarrow> int \<Rightarrow> jv \<Rightarrow> jv" where
  "done_meta n_windows rec now m =
     jpop ''expires_at''
       (jset ''recorded_at'' (iso now)
         (jset ''result'' (requalify_result n_windows rec)
           (jset ''status'' (JStr ''done'') m)))"

definition record_requalify :: "int \<Rightarrow> requal \<Rightarrow> jv \<Rightarrow> int \<Rightarrow> requal \<times> bool" where
  "record_requalify n_windows s rec now =
     (case as_str (jget rec ''strategy'') of
        None \<Rightarrow> (s, False)
      | Some name \<Rightarrow>
          (case dget (rq_names s) name of
             None \<Rightarrow> (s, False)
           | Some m \<Rightarrow>
               if \<not> awaiting m then (s, False)
               else (s\<lparr>rq_names := dset name (done_meta n_windows rec now m) (rq_names s)\<rparr>, True)))"

end
