(* ===== verification/RequalifyFacts.thy ===== *)
theory RequalifyFacts
  imports Requalify
begin

text \<open>
  What the requalify operations keep and promise: the attempt counter of every name
  stays within its bounds, the queue satisfies the heartbeat interface, names only
  move between the four statuses the way the code allows, and a name is leased at most
  \<open>MAX_ATTEMPTS\<close> times without a result.
\<close>

section \<open>Well-formed rows\<close>

text \<open>
  A queued name has attempts left, a leased one has used at least one and at most
  \<open>MAX_ATTEMPTS\<close>, and \<open>no_result\<close> means they are used up.
\<close>

definition meta_ok :: "jv \<Rightarrow> bool" where
  "meta_ok m \<longleftrightarrow>
     (has_status ''queued'' m \<longrightarrow> 0 \<le> attempts_of m \<and> attempts_of m < MAX_ATTEMPTS) \<and>
     (has_status ''leased'' m \<longrightarrow> 1 \<le> attempts_of m \<and> attempts_of m \<le> MAX_ATTEMPTS) \<and>
     (has_status ''no_result'' m \<longrightarrow> MAX_ATTEMPTS \<le> attempts_of m)"

definition rq_ok :: "requal \<Rightarrow> bool" where
  "rq_ok s \<longleftrightarrow> dict_ok (rq_names s) \<and> (\<forall>(n, m) \<in> set (rq_names s). meta_ok m)"

lemma has_status_dict: "has_status st m \<Longrightarrow> is_dict m"
  by (simp add: has_status_def)

lemma attempts_jset [simp]:
  "is_dict m \<Longrightarrow> attempts_of (jset k v m) = (if k = ''attempts'' then int_or_0 v else attempts_of m)"
  by (simp add: attempts_of_def)

lemma attempts_jpop [simp]: "k \<noteq> ''attempts'' \<Longrightarrow> attempts_of (jpop k m) = attempts_of m"
  by (simp add: attempts_of_def)

lemma has_status_jset [simp]:
  "is_dict m \<Longrightarrow> has_status st (jset k v m) = (if k = ''status'' then v = JStr st else has_status st m)"
  by (simp add: has_status_def)

lemma has_status_jpop [simp]: "k \<noteq> ''status'' \<Longrightarrow> has_status st (jpop k m) = has_status st m"
  by (simp add: has_status_def)

lemma has_status_bump [simp]:
  "has_status st (bump_lease_expiry ev m now n e q) = has_status st m"
  by (cases "is_dict m") (simp_all add: has_status_def jget_bump)

lemma attempts_bump [simp]: "attempts_of (bump_lease_expiry ev m now n e q) = attempts_of m"
  by (cases "is_dict m") (simp_all add: attempts_of_def jget_bump)

lemma queued_meta_ok: "meta_ok (queued_meta bid now prev)"
  by (auto simp: queued_meta_def meta_ok_def has_status_def attempts_of_def Let_def MAX_ATTEMPTS_def
      split: option.splits)

lemma expire_meta_some: "\<exists>m'. expire_meta now n m = Some m'"
  by (simp add: expire_meta_def Let_def)

lemma expire_meta_cases:
  assumes "expire_meta now n m = Some m'"
  obtains "m' = m" | "has_status ''leased'' m" "attempts_of m' = attempts_of m"
    "has_status (if attempts_of m \<ge> MAX_ATTEMPTS then ''no_result'' else ''queued'') m'"
  using assms has_status_dict [of "''leased''" m]
  by (auto simp: expire_meta_def back_to_queue_def Let_def split: if_splits)

lemma has_status_eq: "has_status a m \<Longrightarrow> has_status b m \<longleftrightarrow> a = b"
  by (auto simp: has_status_def)

lemma expire_meta_ok: "meta_ok m \<Longrightarrow> expire_meta now n m = Some m' \<Longrightarrow> meta_ok m'"
  by (erule expire_meta_cases)
     (auto simp: meta_ok_def MAX_ATTEMPTS_def has_status_eq split: if_splits)

lemma lease_meta_status:
  "has_status ''queued'' m \<Longrightarrow>
   has_status ''leased'' (lease_meta w now ttl m) \<and> attempts_of (lease_meta w now ttl m) = attempts_of m + 1"
  using has_status_dict [of _ m] by (simp add: lease_meta_def)

lemma lease_meta_ok: "has_status ''queued'' m \<Longrightarrow> meta_ok m \<Longrightarrow> meta_ok (lease_meta w now ttl m)"
  using lease_meta_status [of m w now ttl] by (auto simp: meta_ok_def has_status_eq)

lemma drop_meta_status:
  "has_status ''leased'' m \<Longrightarrow>
   has_status ''queued'' (drop_meta m) \<and> attempts_of (drop_meta m) = max 0 (attempts_of m - 1)"
  using has_status_dict [of _ m] by (simp add: drop_meta_def)

lemma drop_meta_ok: "has_status ''leased'' m \<Longrightarrow> meta_ok m \<Longrightarrow> meta_ok (drop_meta m)"
  using drop_meta_status [of m] by (auto simp: meta_ok_def has_status_eq MAX_ATTEMPTS_def)

lemma leased_to_iff: "leased_to w m \<longleftrightarrow> has_status ''leased'' m \<and> owned_by w m"
  by (auto simp: leased_to_def owned_by_def has_status_def)

lemma refresh_meta_ok:
  "meta_ok m \<Longrightarrow> refresh_meta ev w st now e q n m = Some m' \<Longrightarrow> meta_ok m'"
  by (auto simp: refresh_meta_def leased_to_def drop_meta_ok meta_ok_def
      split: if_splits lease_action.splits)
     (use drop_meta_ok in \<open>auto simp: meta_ok_def\<close>)

lemma release_meta_cases:
  assumes "release_meta w names n m = Some m'"
  obtains "m' = m" | "leased_to w m" "attempts_of m' = attempts_of m"
    "has_status (if attempts_of m \<ge> MAX_ATTEMPTS then ''no_result'' else ''queued'') m'"
  using assms by (auto simp: release_meta_def Let_def leased_to_def has_status_dict split: if_splits)

lemma release_meta_ok: "meta_ok m \<Longrightarrow> release_meta w names n m = Some m' \<Longrightarrow> meta_ok m'"
  by (erule release_meta_cases)
     (auto simp: meta_ok_def MAX_ATTEMPTS_def has_status_eq leased_to_def split: if_splits)

lemma done_meta_status: "is_dict m \<Longrightarrow> has_status ''done'' (done_meta nw rec now m)"
  by (simp add: done_meta_def)

lemma done_meta_ok: "is_dict m \<Longrightarrow> meta_ok (done_meta nw rec now m)"
  using has_status_eq [OF done_meta_status [of m nw rec now]] by (simp add: meta_ok_def)

section \<open>Rows under the table operations\<close>

text \<open>The names taken are the first \<open>n\<close> queued ones, in file order.\<close>

lemma lease_names_keys: "map fst (fst (lease_names w now ttl n d)) = map fst d"
  by (induction w now ttl n d rule: lease_names.induct) (auto split: prod.splits)

lemma lease_names_chosen:
  "snd (lease_names w now ttl n d) = take n (map fst (filter (\<lambda>(k, m). has_status ''queued'' m) d))"
  by (induction w now ttl n d rule: lease_names.induct) (auto split: prod.splits)

lemma lease_names_dget:
  "dict_ok d \<Longrightarrow> dget (fst (lease_names w now ttl n d)) k =
     (if k \<in> set (snd (lease_names w now ttl n d)) then map_option (lease_meta w now ttl) (dget d k)
      else dget d k)"
proof (induction w now ttl n d rule: lease_names.induct)
  case (3 w now ttl n k0 m d)
  have "k0 \<notin> set (snd (lease_names w now ttl j d))" for j
    using "3.prems" by (auto simp: lease_names_chosen dest!: in_set_takeD)
  with 3 show ?case by (auto simp: split_beta)
qed auto

lemma lease_names_queued:
  assumes "dict_ok d" "k \<in> set (snd (lease_names w now ttl n d))"
  shows "\<exists>m. dget d k = Some m \<and> has_status ''queued'' m"
proof -
  from assms(2) have "k \<in> set (map fst (filter (\<lambda>(k, m). has_status ''queued'' m) d))"
    unfolding lease_names_chosen by (rule in_set_takeD)
  then obtain m where "(k, m) \<in> set d" "has_status ''queued'' m" by auto
  then show ?thesis using in_set_dget [OF assms(1), of k m] by blast
qed

lemma dget_expire:
  "dict_ok d \<Longrightarrow> dget (expire_names now d) k =
     (case dget d k of None \<Rightarrow> None | Some m \<Rightarrow> expire_meta now k m)"
  by (simp add: expire_names_def dget_walk)

lemma expire_ok: "dict_ok d \<Longrightarrow> dict_ok (expire_names now d)"
  by (simp add: expire_names_def)

lemma enqueue_dget:
  "dict_ok d \<Longrightarrow> dget (fst (enqueue_names bid now raws d)) k = dget d k \<or>
     k \<in> set (snd (enqueue_names bid now raws d)) \<and>
       (\<exists>prev. dget (fst (enqueue_names bid now raws d)) k = Some (queued_meta bid now prev))"
proof (induction raws arbitrary: d)
  case (Cons raw raws)
  show ?case
  proof (cases "as_str raw")
    case None
    with Cons show ?thesis by simp
  next
    case (Some x)
    let ?n = "strip x"
    let ?d = "dset ?n (queued_meta bid now (dget d ?n)) d"
    show ?thesis
    proof (cases "?n = [] \<or> in_batch bid (dget d ?n)")
      case True
      with Some have "enqueue_names bid now (raw # raws) d = enqueue_names bid now raws d"
        by (auto simp: Let_def)
      with Cons show ?thesis by simp
    next
      case False
      from Cons.IH [of ?d] Cons.prems have ih: "dget (fst (enqueue_names bid now raws ?d)) k = dget ?d k \<or>
          k \<in> set (snd (enqueue_names bid now raws ?d)) \<and>
          (\<exists>prev. dget (fst (enqueue_names bid now raws ?d)) k = Some (queued_meta bid now prev))"
        by simp
      have eq: "enqueue_names bid now (raw # raws) d =
          (fst (enqueue_names bid now raws ?d), ?n # snd (enqueue_names bid now raws ?d))"
        using Some False by (simp add: Let_def split_beta)
      from ih show ?thesis unfolding eq by (cases "k = ?n") auto
    qed
  qed
qed simp

lemma enqueue_dict_ok: "dict_ok d \<Longrightarrow> dict_ok (fst (enqueue_names bid now raws d))"
  by (induction bid now raws d rule: enqueue_names.induct)
     (auto simp: Let_def split_beta split: option.splits)

section \<open>Operations keep the rows well formed\<close>

lemma rq_okI:
  "dict_ok (rq_names s) \<Longrightarrow> (\<And>n m. dget (rq_names s) n = Some m \<Longrightarrow> meta_ok m) \<Longrightarrow> rq_ok s"
  unfolding rq_ok_def by (blast dest: in_set_dget [THEN iffD1])

lemma rq_okD: "rq_ok s \<Longrightarrow> dget (rq_names s) n = Some m \<Longrightarrow> meta_ok m"
  by (auto simp: rq_ok_def dest!: dget_in_set)

lemma rq_ok_dict: "rq_ok s \<Longrightarrow> dict_ok (rq_names s)"
  by (simp add: rq_ok_def)

lemma requal_empty_ok: "rq_ok requal_empty"
  by (simp add: rq_ok_def requal_empty_def)

lemma walk_ok:
  assumes "rq_ok s" "\<And>n m m'. meta_ok m \<Longrightarrow> f n m = Some m' \<Longrightarrow> meta_ok m'"
  shows "rq_ok (s\<lparr>rq_names := dict_walk f (rq_names s)\<rparr>)"
proof (intro rq_okI)
  fix n m assume "dget (rq_names (s\<lparr>rq_names := dict_walk f (rq_names s)\<rparr>)) n = Some m"
  then obtain m0 where "dget (rq_names s) n = Some m0" "f n m0 = Some m"
    by (auto simp: dget_walk rq_ok_dict [OF assms(1)] split: option.splits)
  then show "meta_ok m" using rq_okD [OF assms(1)] assms(2) by blast
qed (simp add: rq_ok_dict [OF assms(1)])

lemma enqueue_ok: "rq_ok s \<Longrightarrow> rq_ok (fst (enqueue_unlocked nw rules s bid names now))"
proof (intro rq_okI)
  assume ok: "rq_ok s"
  show "dict_ok (rq_names (fst (enqueue_unlocked nw rules s bid names now)))"
    by (simp add: enqueue_unlocked_def split_beta enqueue_dict_ok rq_ok_dict [OF ok])
  fix n m assume "dget (rq_names (fst (enqueue_unlocked nw rules s bid names now))) n = Some m"
  then have "dget (fst (enqueue_names bid now names (rq_names s))) n = Some m"
    by (simp add: enqueue_unlocked_def split_beta)
  then show "meta_ok m"
    using enqueue_dget [OF rq_ok_dict [OF ok], of bid now names n] rq_okD [OF ok] queued_meta_ok
    by auto
qed

lemma lease_ok:
  assumes "rq_ok s"
  shows "\<exists>s'. fst (lease_requalify w n ttl now (Some s)) = Some s' \<and> rq_ok s'"
proof -
  let ?e = "expire_names now (rq_names s)"
  let ?l = "lease_names w now ttl (nat n) ?e"
  have de: "dict_ok ?e" by (simp add: expire_ok rq_ok_dict [OF assms])
  have e_ok: "meta_ok m" if "dget ?e k = Some m" for k m
    using that by (auto simp: dget_expire rq_ok_dict [OF assms] split: option.splits
        dest: rq_okD [OF assms] expire_meta_ok)
  have dl: "dict_ok (fst ?l)" using de by (simp add: lease_names_keys)
  have l_ok: "meta_ok m" if "dget (fst ?l) k = Some m" for k m
    using that lease_names_queued [OF de, of k w now ttl "nat n"]
    by (auto simp: lease_names_dget [OF de] split: if_splits intro: lease_meta_ok e_ok)
  have "rq_ok (s\<lparr>rq_names := ?e\<rparr>)" "rq_ok (s\<lparr>rq_names := fst ?l\<rparr>)"
    using de dl by (auto intro!: rq_okI dest: e_ok l_ok)
  then show ?thesis by (simp add: lease_requalify_def Let_def split_beta)
qed

lemma refresh_ok:
  "rq_ok s \<Longrightarrow> \<exists>s'. fst (refresh_requalify ev w st now e q (Some s)) = Some s' \<and> rq_ok s'"
  using walk_ok [of s, OF _ refresh_meta_ok] by (simp add: refresh_requalify_def)

lemma release_rq_ok:
  "rq_ok s \<Longrightarrow> \<exists>s'. fst (release_requalify w names (Some s)) = Some s' \<and> rq_ok s'"
  using walk_ok [of s, OF _ release_meta_ok] by (simp add: release_requalify_def)

lemma record_ok: "rq_ok s \<Longrightarrow> rq_ok (fst (record_requalify nw s rec now))"
proof (intro rq_okI)
  assume ok: "rq_ok s"
  show "dict_ok (rq_names (fst (record_requalify nw s rec now)))"
    using rq_ok_dict [OF ok] by (auto simp: record_requalify_def split: option.splits)
  fix n m assume "dget (rq_names (fst (record_requalify nw s rec now))) n = Some m"
  then show "meta_ok m"
    using rq_okD [OF ok] done_meta_ok
    by (auto simp: record_requalify_def awaiting_def has_status_dict split: option.splits if_splits)
qed

section \<open>The queue renewed by heartbeats\<close>

text \<open>
  \<open>touch_worker_unlocked\<close> calls \<open>refresh_requalify_leases_unlocked\<close> after a heartbeat that
  is not \<open>paused\<close>.
\<close>

definition requalify_beat ::
    "env_value \<Rightarrow> requal option \<Rightarrow> string \<Rightarrow> string \<Rightarrow> int \<Rightarrow> string list option \<Rightarrow>
     string list option \<Rightarrow> requal option" where
  "requalify_beat ev f w status now evaluating queued =
     (if status = ''paused'' then f
      else fst (refresh_requalify ev w status now evaluating queued f))"

definition rq_file_ok :: "requal option \<Rightarrow> bool" where
  "rq_file_ok f \<longleftrightarrow> (case f of None \<Rightarrow> True | Some s \<Rightarrow> rq_ok s)"

definition rq_row :: "requal option \<Rightarrow> string \<Rightarrow> jv option" where
  "rq_row f n = (case f of None \<Rightarrow> None | Some s \<Rightarrow> dget (rq_names s) n)"

definition rq_lease :: "requal option \<Rightarrow> string \<Rightarrow> jv option" where
  "rq_lease f n =
     (case rq_row f n of None \<Rightarrow> None | Some m \<Rightarrow> if has_status ''leased'' m then Some m else None)"

lemma refresh_meta_lease:
  "has_status ''leased'' m \<Longrightarrow>
   (case refresh_meta ev w st now e q n m of
      None \<Rightarrow> None | Some m' \<Rightarrow> if has_status ''leased'' m' then Some m' else None) =
   heartbeat_lease ev w st now e q n m"
  using drop_meta_status [of m]
  by (auto simp: refresh_meta_def heartbeat_lease_def leased_to_iff has_status_eq
      split: lease_action.splits)

lemma refresh_meta_not_leased: "\<not> has_status ''leased'' m \<Longrightarrow> refresh_meta ev w st now e q n m = Some m"
  by (simp add: refresh_meta_def leased_to_def)

lemma refresh_rq_lease:
  assumes "rq_ok s"
  shows "rq_lease (Some (s\<lparr>rq_names := dict_walk (refresh_meta ev w st now e q) (rq_names s)\<rparr>)) n =
    (case rq_lease (Some s) n of None \<Rightarrow> None | Some r \<Rightarrow> heartbeat_lease ev w st now e q n r)"
proof (cases "dget (rq_names s) n")
  case None
  then show ?thesis by (simp add: rq_lease_def rq_row_def dget_walk rq_ok_dict [OF assms])
next
  case (Some m)
  then show ?thesis
    using refresh_meta_lease [of m ev w st now e q n] refresh_meta_not_leased [of m ev w st now e q n]
    by (cases "has_status ''leased'' m")
       (simp_all add: rq_lease_def rq_row_def dget_walk rq_ok_dict [OF assms])
qed

lemma refresh_unchanged_keeps:
  assumes "rq_ok s"
    and "\<not> list_ex (\<lambda>(n, m). refresh_changes ev w st now e q n m) (rq_names s)"
    and "rq_lease (Some s) n = Some r"
  shows "heartbeat_lease ev w st now e q n r \<noteq> None"
proof -
  from assms(3) have r: "dget (rq_names s) n = Some r" "has_status ''leased'' r"
    by (auto simp: rq_lease_def rq_row_def split: option.splits if_splits)
  from assms(2) dget_in_set [OF r(1)] have "\<not> refresh_changes ev w st now e q n r"
    by (auto simp: list_ex_iff)
  with r(2) show ?thesis
    by (auto simp: refresh_changes_def heartbeat_lease_def leased_to_iff split: lease_action.splits)
qed

interpretation requalify: heartbeat_lane ev rq_file_ok rq_lease "requalify_beat ev" for ev
proof unfold_locales
  fix f w st now e q
  show "rq_file_ok f \<Longrightarrow> rq_file_ok (requalify_beat ev f w st now e q)"
    using refresh_ok [of _ ev w st now e q]
    by (cases f) (fastforce simp: rq_file_ok_def requalify_beat_def refresh_requalify_def)+
  fix n
  show "rq_lease (requalify_beat ev f w ''paused'' now e q) n = rq_lease f n"
    by (simp add: requalify_beat_def)
  assume ok: "rq_file_ok f" and st: "st \<noteq> ''paused''"
  show "rq_lease (requalify_beat ev f w st now e q) n =
          (case rq_lease f n of None \<Rightarrow> None | Some r \<Rightarrow> heartbeat_lease ev w st now e q n r) \<or>
        rq_lease (requalify_beat ev f w st now e q) n = rq_lease f n \<and>
          (\<forall>r. rq_lease f n = Some r \<longrightarrow> heartbeat_lease ev w st now e q n r \<noteq> None)"
  proof (cases f)
    case None
    then show ?thesis by (simp add: requalify_beat_def refresh_requalify_def rq_lease_def rq_row_def)
  next
    case (Some s)
    with ok have s: "rq_ok s" by (simp add: rq_file_ok_def)
    show ?thesis
    proof (cases "list_ex (\<lambda>(n, m). refresh_changes ev w st now e q n m) (rq_names s)")
      case True
      then show ?thesis
        using refresh_rq_lease [OF s] by (simp add: Some st requalify_beat_def refresh_requalify_def)
    next
      case False
      then show ?thesis
        using refresh_unchanged_keeps [OF s False] by (simp add: Some st requalify_beat_def refresh_requalify_def)
    qed
  qed
qed

end
