(* ===== verification/RequalifyRuns.thy ===== *)
theory RequalifyRuns
  imports RequalifyFacts
begin

text \<open>
  Runs of the requalify lane: the step relation over enqueue, claim, heartbeat, release
  and recorded results, the row invariant along every run, the bound on how often a name
  is leased without a result, and the one-shot startup batches.
\<close>

section \<open>Steps\<close>

datatype rq_label =
    Enqueued "string list"
  | Leased "string list"
  | Beaten "string list"
  | Released "string list"
  | Recorded bool

definition rq_state :: "requal option \<Rightarrow> requal" where
  "rq_state f = (case f of None \<Rightarrow> requal_empty | Some s \<Rightarrow> s)"

inductive rq_step :: "env_value \<Rightarrow> requal option \<Rightarrow> rq_label \<Rightarrow> requal option \<Rightarrow> bool" where
  enqueue: "enqueue_unlocked nw rules (rq_state f) bid names now = (s', q) \<Longrightarrow>
     rq_step ev f (Enqueued q) (Some s')"
| lease: "lease_requalify w n ttl now f = (f', c) \<Longrightarrow> rq_step ev f (Leased c) f'"
| beat: "requalify_beat ev f w st now e q = f' \<Longrightarrow>
     d = (if st = ''paused'' then [] else snd (refresh_requalify ev w st now e q f)) \<Longrightarrow>
     rq_step ev f (Beaten d) f'"
| release: "release_requalify w names f = (f', r) \<Longrightarrow> rq_step ev f (Released r) f'"
| recorded: "record_requalify nw s rec now = (s', b) \<Longrightarrow> rq_step ev (Some s) (Recorded b) (Some s')"

inductive_cases rq_stepE: "rq_step ev f l f'"
inductive_simps rq_step_lease_iff: "rq_step ev f (Leased c) f'"

inductive rq_run :: "env_value \<Rightarrow> requal option \<Rightarrow> rq_label list \<Rightarrow> requal option \<Rightarrow> bool" where
  nil: "rq_run ev f [] f"
| step: "rq_step ev f l f1 \<Longrightarrow> rq_run ev f1 ls f' \<Longrightarrow> rq_run ev f (l # ls) f'"

lemma rq_file_ok_simps [simp]:
  "rq_file_ok None" "rq_file_ok (Some s) = rq_ok s" "rq_file_ok f \<Longrightarrow> rq_ok (rq_state f)"
  by (auto simp: rq_file_ok_def rq_state_def requal_empty_ok split: option.splits)

lemma rq_step_ok: "rq_step ev f l f' \<Longrightarrow> rq_file_ok f \<Longrightarrow> rq_file_ok f'"
proof (induction rule: rq_step.induct)
  case (enqueue nw rules f bid names now s' q ev)
  then show ?case using enqueue_ok [of "rq_state f" nw rules bid names now] by simp
next
  case (lease w n ttl now f f' c ev)
  then show ?case
    using lease_ok [of _ w n ttl now] by (cases f) (force simp: lease_requalify_def)+
next
  case (beat ev f w st now e q f' d)
  then show ?case using requalify.beat_ok by blast
next
  case (release w names f f' r ev)
  then show ?case
    using release_rq_ok [of _ w names] by (cases f) (force simp: release_requalify_def)+
next
  case (recorded nw s rec now s' b ev)
  then show ?case using record_ok [of s nw rec now] by simp
qed

lemma rq_run_ok: "rq_run ev f ls f' \<Longrightarrow> rq_file_ok f \<Longrightarrow> rq_file_ok f'"
  by (induction rule: rq_run.induct) (auto dest: rq_step_ok)

section \<open>Leases left\<close>

definition meta_room :: "jv \<Rightarrow> int" where
  "meta_room m = (if awaiting m then MAX_ATTEMPTS - attempts_of m else 0)"

definition rq_room :: "requal option \<Rightarrow> string \<Rightarrow> int" where
  "rq_room f n = (case rq_row f n of None \<Rightarrow> 0 | Some m \<Rightarrow> meta_room m)"

fun lease_events :: "string \<Rightarrow> rq_label \<Rightarrow> int" where
  "lease_events n (Leased c) = (if n \<in> set c then 1 else 0)"
| "lease_events n _ = 0"

fun resets :: "string \<Rightarrow> rq_label \<Rightarrow> bool" where
  "resets n (Enqueued q) = (n \<in> set q)"
| "resets n (Beaten d) = (n \<in> set d)"
| "resets n _ = False"

lemma meta_room_nonneg: "meta_ok m \<Longrightarrow> 0 \<le> meta_room m"
  by (auto simp: meta_room_def meta_ok_def awaiting_def)

lemma meta_room_status:
  "has_status ''queued'' m \<Longrightarrow> meta_room m = MAX_ATTEMPTS - attempts_of m"
  "has_status ''leased'' m \<Longrightarrow> meta_room m = MAX_ATTEMPTS - attempts_of m"
  "has_status ''no_result'' m \<Longrightarrow> meta_room m = 0"
  "has_status ''done'' m \<Longrightarrow> meta_room m = 0"
  by (auto simp: meta_room_def awaiting_def has_status_eq)

lemma meta_room_moved:
  assumes "has_status ''leased'' m" "meta_ok m" "attempts_of m' = attempts_of m"
    and "has_status (if attempts_of m \<ge> MAX_ATTEMPTS then ''no_result'' else ''queued'') m'"
  shows "meta_room m' \<le> meta_room m"
  using assms meta_room_status [of m] meta_room_status [of m'] meta_room_nonneg [OF assms(2)]
  by (auto split: if_splits)

lemma rq_room_nonneg: "rq_file_ok f \<Longrightarrow> 0 \<le> rq_room f n"
  by (auto simp: rq_room_def rq_row_def intro!: meta_room_nonneg dest: rq_okD
      split: option.splits)

lemma expire_room: "meta_ok m \<Longrightarrow> expire_meta now n m = Some m' \<Longrightarrow> meta_room m' \<le> meta_room m"
  by (erule expire_meta_cases) (auto intro: meta_room_moved)

lemma release_room: "meta_ok m \<Longrightarrow> release_meta w names n m = Some m' \<Longrightarrow> meta_room m' \<le> meta_room m"
  by (erule release_meta_cases) (auto intro: meta_room_moved simp: leased_to_def)

lemma lease_room_spent:
  "has_status ''queued'' m \<Longrightarrow> 1 + meta_room (lease_meta w now ttl m) = meta_room m"
  using lease_meta_status [of m w now ttl] by (simp add: meta_room_status)

lemma refresh_meta_room:
  assumes "refresh_meta ev w st now e q n m = Some m'"
    and "\<not> (leased_to w m \<and> heartbeat_lease_action m now n st e q = DROP)"
  shows "meta_room m' = meta_room m"
  using assms by (auto simp: refresh_meta_def meta_room_def awaiting_def
      split: if_splits lease_action.splits)

lemma enqueue_room:
  assumes "rq_ok s" "enqueue_unlocked nw rules s bid names now = (s', q)" "n \<notin> set q"
  shows "rq_room (Some s') n = rq_room (Some s) n"
  using assms(2,3) enqueue_dget [OF rq_ok_dict [OF assms(1)], of bid now names n]
  by (auto simp: enqueue_unlocked_def rq_room_def rq_row_def split_beta)

lemma rq_row_lease:
  assumes "rq_ok s" "lease_requalify w n ttl now (Some s) = (f', c)"
  shows "rq_row f' k =
    (case dget (rq_names s) k of None \<Rightarrow> None | Some m \<Rightarrow>
       map_option (\<lambda>m'. if k \<in> set c then lease_meta w now ttl m' else m') (expire_meta now k m))"
    and "k \<in> set c \<Longrightarrow>
       \<exists>m m'. dget (rq_names s) k = Some m \<and> expire_meta now k m = Some m' \<and> has_status ''queued'' m'"
proof -
  let ?e = "expire_names now (rq_names s)"
  have de: "dict_ok ?e" by (simp add: expire_ok rq_ok_dict [OF assms(1)])
  have ek: "dget ?e k = (case dget (rq_names s) k of None \<Rightarrow> None | Some m \<Rightarrow> expire_meta now k m)"
    by (simp add: dget_expire rq_ok_dict [OF assms(1)])
  show "rq_row f' k =
    (case dget (rq_names s) k of None \<Rightarrow> None | Some m \<Rightarrow>
       map_option (\<lambda>m'. if k \<in> set c then lease_meta w now ttl m' else m') (expire_meta now k m))"
    using assms(2) ek lease_names_dget [OF de, of w now ttl "nat n" k]
    by (auto simp: lease_requalify_def Let_def rq_row_def split_beta option.map_ident
        split: option.splits if_splits)
  assume "k \<in> set c"
  with assms(2) have "k \<in> set (snd (lease_names w now ttl (nat n) ?e))"
    by (auto simp: lease_requalify_def Let_def split_beta split: if_splits)
  from lease_names_queued [OF de this] ek
  show "\<exists>m m'. dget (rq_names s) k = Some m \<and> expire_meta now k m = Some m' \<and> has_status ''queued'' m'"
    by (auto split: option.splits)
qed

lemma lease_room_step:
  assumes ok: "rq_ok s" and l: "lease_requalify w n ttl now (Some s) = (f', c)"
  shows "(if k \<in> set c then 1 else 0) + rq_room f' k \<le> rq_room (Some s) k"
proof (cases "dget (rq_names s) k")
  case None
  with rq_row_lease [OF ok l, of k] show ?thesis by (auto simp: rq_room_def rq_row_def)
next
  case (Some m)
  obtain m' where m': "expire_meta now k m = Some m'" using expire_meta_some by blast
  have le: "meta_room m' \<le> meta_room m" using expire_room [OF rq_okD [OF ok Some] m'] .
  show ?thesis
  proof (cases "k \<in> set c")
    case True
    with rq_row_lease(2) [OF ok l True] Some m' have "has_status ''queued'' m'" by auto
    with le lease_room_spent [of m' w now ttl] rq_row_lease(1) [OF ok l, of k] Some m' True
    show ?thesis by (simp add: rq_room_def rq_row_def [of "Some s"])
  next
    case False
    with le rq_row_lease(1) [OF ok l, of k] Some m'
    show ?thesis by (simp add: rq_room_def rq_row_def [of "Some s"])
  qed
qed

lemma beat_room:
  assumes ok: "rq_ok s" and "k \<notin> set (snd (refresh_requalify ev w st now e q (Some s)))"
  shows "rq_room (fst (refresh_requalify ev w st now e q (Some s))) k = rq_room (Some s) k"
proof (cases "dget (rq_names s) k")
  case None
  then show ?thesis
    by (simp add: refresh_requalify_def rq_room_def rq_row_def dget_walk rq_ok_dict [OF ok])
next
  case (Some m)
  obtain m' where m': "refresh_meta ev w st now e q k m = Some m'"
    by (cases "refresh_meta ev w st now e q k m")
       (auto simp: refresh_meta_def split: if_splits lease_action.splits)
  from assms(2) dget_in_set [OF Some]
  have "\<not> (leased_to w m \<and> heartbeat_lease_action m now k st e q = DROP)"
    by (force simp: refresh_requalify_def refresh_dropped_def)
  from refresh_meta_room [OF m' this] Some m' show ?thesis
    by (simp add: refresh_requalify_def rq_room_def rq_row_def dget_walk rq_ok_dict [OF ok])
qed

lemma release_meta_some: "\<exists>m'. release_meta w names n m = Some m'"
  by (simp add: release_meta_def Let_def)

lemma release_room_step:
  assumes ok: "rq_ok s" and r: "release_requalify w names (Some s) = (f', r)"
  shows "rq_room f' k \<le> rq_room (Some s) k"
proof (cases "dget (rq_names s) k")
  case None
  with r show ?thesis
    by (auto simp: release_requalify_def rq_room_def rq_row_def dget_walk rq_ok_dict [OF ok])
next
  case (Some m)
  obtain m' where m': "release_meta w names k m = Some m'" using release_meta_some by blast
  from release_room [OF rq_okD [OF ok Some] m'] m' Some r show ?thesis
    by (auto simp: release_requalify_def rq_room_def rq_row_def dget_walk rq_ok_dict [OF ok])
qed

lemma record_cases:
  assumes "record_requalify nw s rec now = (s', b)"
  obtains "s' = s" "\<not> b"
    | n m where "dget (rq_names s) n = Some m" "awaiting m" "b"
        "s' = s\<lparr>rq_names := dset n (done_meta nw rec now m) (rq_names s)\<rparr>"
proof (cases "as_str (jget rec ''strategy'')")
  case None
  with assms that(1) show ?thesis by (simp add: record_requalify_def)
next
  case (Some n)
  show ?thesis
  proof (cases "dget (rq_names s) n")
    case None
    with Some assms that(1) show ?thesis by (simp add: record_requalify_def)
  next
    case m: (Some m)
    show ?thesis
    proof (cases "awaiting m")
      case True
      with Some m assms show ?thesis
        by (intro that(2) [OF m True]) (simp_all add: record_requalify_def)
    next
      case False
      with Some m assms that(1) show ?thesis by (simp add: record_requalify_def)
    qed
  qed
qed

lemma record_room_step:
  assumes ok: "rq_ok s" and r: "record_requalify nw s rec now = (s', b)"
  shows "rq_room (Some s') k \<le> rq_room (Some s) k"
  using r
proof (cases rule: record_cases)
  case (2 n m)
  have "is_dict m" using 2 by (auto simp: awaiting_def has_status_dict)
  then have "meta_room (done_meta nw rec now m) = 0"
    by (simp add: meta_room_status done_meta_status)
  with 2 meta_room_nonneg [OF rq_okD [OF ok 2(1)]] show ?thesis
    by (simp add: rq_room_def rq_row_def)
qed simp

lemma rq_step_room:
  "rq_step ev f l f' \<Longrightarrow> rq_file_ok f \<Longrightarrow> \<not> resets k l \<Longrightarrow>
   lease_events k l + rq_room f' k \<le> rq_room f k"
proof (induction rule: rq_step.induct)
  case (enqueue nw rules f bid names now s' q ev)
  then have "rq_room (Some s') k = rq_room (Some (rq_state f)) k" by (auto intro: enqueue_room)
  then show ?case
    by (cases f) (simp_all add: rq_state_def requal_empty_def rq_room_def rq_row_def)
next
  case (lease w n ttl now f f' c ev)
  then show ?case using lease_room_step
    by (cases f) (auto simp: lease_requalify_def [of _ _ _ _ None])
next
  case (beat ev f w st now e q f' d)
  then show ?case using beat_room [of _ k ev w st now e q]
    by (cases f) (auto simp: requalify_beat_def refresh_requalify_def [of _ _ _ _ _ _ None] split: if_splits)
next
  case (release w names f f' r ev)
  then show ?case using release_room_step
    by (cases f) (auto simp: release_requalify_def [of _ _ None])
next
  case (recorded nw s rec now s' b ev)
  then show ?case
    using record_room_step by simp
qed

lemma rq_run_room:
  "rq_run ev f ls f' \<Longrightarrow> rq_file_ok f \<Longrightarrow> \<forall>l \<in> set ls. \<not> resets k l \<Longrightarrow>
   sum_list (map (lease_events k) ls) + rq_room f' k \<le> rq_room f k"
proof (induction rule: rq_run.induct)
  case (step ev f l f1 f' ls)
  from step.prems rq_step_room [OF step.hyps(1), of k] rq_step_ok [OF step.hyps(1)] step.IH
  show ?case by fastforce
qed simp

section \<open>Startup batches\<close>

lemma strings_of_JStr [simp]: "strings_of (map JStr xs) = xs"
  by (induction xs) (simp_all add: strings_of_def map_filter_simps)

lemma load_save_requalify: "load_requalify_state (Some (save_requalify_state s)) = s"
  by (simp add: load_requalify_state_def save_requalify_state_def sub_dict_def dict_or_empty_def)

definition seeded_ids :: "jv option \<Rightarrow> string set" where
  "seeded_ids f = set (rq_seeded (load_requalify_state f))"

lemma ensure_batch_seeds:
  "ensure_batch nw rules b now f = (f', fresh) \<Longrightarrow>
   seeded_ids f' = insert (fst b) (seeded_ids f) \<and> (fresh \<longleftrightarrow> fst b \<notin> seeded_ids f)"
  by (auto simp: ensure_batch_def Let_def seeded_ids_def split_beta load_save_requalify
      enqueue_unlocked_def split: if_splits)

lemma startup_seeds:
  "run_startup_batches nw rules bs now f = (f', ids) \<Longrightarrow>
   seeded_ids f' = fst ` set bs \<union> seeded_ids f \<and> set ids = fst ` set bs - seeded_ids f"
proof (induction nw rules bs now f arbitrary: f' ids rule: run_startup_batches.induct)
  case (2 nw rules b bs now f)
  obtain f1 fresh where e: "ensure_batch nw rules b now f = (f1, fresh)" by fastforce
  obtain ids' where r: "run_startup_batches nw rules bs now f1 = (f', ids')"
    using "2.prems" e by (auto split: prod.splits)
  from "2.prems" e r have ids: "ids = (if fresh then fst b # ids' else ids')" by simp
  from "2.IH" [OF e [symmetric] refl r] ensure_batch_seeds [OF e] ids show ?case by auto
qed simp

lemma startup_noop:
  "fst ` set bs \<subseteq> seeded_ids f \<Longrightarrow> run_startup_batches nw rules bs now f = (f, [])"
  by (induction bs) (auto simp: ensure_batch_def Let_def seeded_ids_def)

end
