(* ===== verification/Claim.thy ===== *)
theory Claim
  imports RequalifyRuns
begin

text \<open>
  The claim of a worker (\<open>claim_discovery_batch\<close> in \<open>trading/leases.py\<close>): the requalify lane, the
  pending retests, the leftover queue and its top-up, the library mode, and the release and the
  heartbeat of both lanes, over one record of the state files. The refill mint
  (\<open>mix_refill\<close>) is an argument, as are the price tape and the library table; nothing is
  assumed of the names it mints. The process caches (\<open>_QUEUE\<close>) are keyed by the files they
  are built from and are not modelled, nor are the response fields that echo constants.
\<close>

section \<open>State and surroundings\<close>

record world =
  w_leases :: "jv option"
  w_requal :: "requal option"
  w_bh :: "jv option"
  w_lib :: "jv option"
  w_disc :: disc_files
  w_farm :: "jv option"
  w_book :: book_files
  w_extended :: "jv option"
  w_refill :: "jv option"

record surroundings =
  sr_tape :: "nat \<Rightarrow> rat option"
  sr_lib :: "lib_strategy list"
  sr_gen :: string
  sr_mode :: "string option"
  sr_mint :: "string list \<Rightarrow> int \<Rightarrow> string list \<times> jv"

definition world_rows :: "world \<Rightarrow> jv list" where
  "world_rows w = read_discovery_log (df_log (w_disc w))"

definition world_book :: "world \<Rightarrow> string list" where
  "world_book w = book_names (bk_pool (w_book w)) (bk_grads (w_book w)) (bk_retired (w_book w))"

section \<open>Refill status\<close>

definition one_of :: "string list \<Rightarrow> string \<Rightarrow> jv \<Rightarrow> string" where
  "one_of allowed d v = (case as_str v of None \<Rightarrow> d | Some s \<Rightarrow> if s \<in> set allowed then s else d)"

definition refill_sources :: "string list" where
  "refill_sources = [''recipe'', ''densify'', ''random'', ''paired'', ''mixed'']"

definition count_or_zero :: "jv \<Rightarrow> int" where
  "count_or_zero v = (case int_or_zero v of Inl e \<Rightarrow> 0 | Inr i \<Rightarrow> i)"

definition nonneg :: "jv \<Rightarrow> int" where
  "nonneg v = max 0 (count_or_zero v)"

text \<open>
  \<open>save_refill_status\<close> writes the counts of a mint's own report, which are integers; one that is not would
  raise there and is written as 0 here, as \<open>load_refill_status\<close> reads it.
\<close>

definition refill_fields :: "jv \<Rightarrow> jv dict" where
  "refill_fields d =
     [(''source'', JStr (one_of refill_sources ''recipe'' (jget d ''source''))),
      (''generated_last'', JInt (count_or_zero (jget d ''generated_last''))),
      (''exhausted'', JBool (truthy (jget d ''exhausted''))),
      (''strategy'', JStr (one_of [''lift_ucb'', ''recipe_order''] ''recipe_order'' (jget d ''strategy''))),
      (''random'', JInt (nonneg (jget d ''random''))), (''paired'', JInt (nonneg (jget d ''paired''))),
      (''exploit'', JInt (nonneg (jget d ''exploit'')))]"

definition load_refill_status :: "jv option \<Rightarrow> jv" where
  "load_refill_status f =
     JObj (refill_fields (case f of None \<Rightarrow> JObj [] | Some d \<Rightarrow> dict_or_empty d))"

definition save_refill_status :: "jv \<Rightarrow> int \<Rightarrow> jv" where
  "save_refill_status status now =
     JObj (refill_fields status @ [(''paper_only'', JBool True), (''updated_at'', iso now)])"

section \<open>The extended sidecar\<close>

definition extended_names :: "jv \<Rightarrow> string list" where
  "extended_names v = filter (\<lambda>n. strip n \<noteq> []) (strings_of (as_list v))"

definition load_extended_names :: "jv option \<Rightarrow> string list" where
  "load_extended_names f =
     (case f of
        None \<Rightarrow> []
      | Some d \<Rightarrow> if is_list d then extended_names d else extended_names (jget d ''names''))"

definition batches_emitted :: "jv option \<Rightarrow> int" where
  "batches_emitted f =
     (case f of None \<Rightarrow> 0 | Some d \<Rightarrow> count_or_zero (jget d ''batches_emitted''))"

definition append_extended_batch :: "string list \<Rightarrow> int \<Rightarrow> jv option \<Rightarrow> jv option" where
  "append_extended_batch added now f =
     (if added = [] then f
      else
        let names = load_extended_names f @ first_by id (load_extended_names f) added
        in Some (JObj [(''names'', JList (map JStr names)), (''batches_emitted'', JInt (batches_emitted f + 1)),
             (''updated_at'', iso now), (''source'', JStr ''hedge_fund.trading.refill''),
             (''last_added'', JList (map JStr added))]))"

section \<open>The leftover queue\<close>

record queue =
  qu_claimable :: "string list"
  qu_blocked :: "string list"
  qu_universe :: "string list"
  qu_active :: "string list"
  qu_canon :: "string list"

definition add_key :: "string \<Rightarrow> string list \<Rightarrow> string list" where
  "add_key name keys = (if canonical_name name = [] then keys else canonical_name name # keys)"

fun queue_from :: "(nat \<Rightarrow> rat option) \<Rightarrow> string list \<Rightarrow> string list \<Rightarrow> string list \<times> string list" where
  "queue_from tape keys [] = ([], keys)"
| "queue_from tape keys (n # ns) =
     (if mint_block_reason tape n keys \<noteq> None then queue_from tape keys ns
      else (let (base, keys') = queue_from tape (add_key n keys) ns in (n # base, keys')))"

definition queue_view :: "surroundings \<Rightarrow> world \<Rightarrow> lease_state \<Rightarrow> queue" where
  "queue_view sr w st =
     (let rows = world_rows w;
          blocked = world_book w @ tested_discovery_names rows (df_tested (w_disc w));
          names = discovery_universe (load_extended_names (w_extended w));
          ordered = prioritize_leftovers (untested_candidates (sr_tape sr) blocked names) rows
                      (df_tested (w_disc w));
          (base, keys) = queue_from (sr_tape sr) (canonical_keys blocked) ordered;
          active = dkeys (leases st)
      in \<lparr>qu_claimable = filter (\<lambda>n. n \<notin> set active) base, qu_blocked = blocked, qu_universe = names,
          qu_active = active, qu_canon = keys\<rparr>)"

text \<open>\<open>_append_minted\<close>: the names it keeps; the claimable list is extended by them.\<close>

fun append_minted :: "(nat \<Rightarrow> rat option) \<Rightarrow> queue \<Rightarrow> string list \<Rightarrow> string list \<Rightarrow> string list" where
  "append_minted tape qu keys [] = []"
| "append_minted tape qu keys (n # ns) =
     (if n \<in> set (qu_active qu) \<or> n \<in> set (qu_blocked qu) \<or> mint_block_reason tape n keys \<noteq> None
      then append_minted tape qu keys ns
      else n # append_minted tape qu (add_key n keys) ns)"

definition mint_unlocked :: "surroundings \<Rightarrow> string list \<Rightarrow> int \<Rightarrow> string list \<times> jv" where
  "mint_unlocked sr taken n =
     (let (names, meta) = sr_mint sr taken (max 0 n)
      in (filter (\<lambda>name. mint_block_reason (sr_tape sr) name [] = None) names, meta))"

definition taken_names :: "queue \<Rightarrow> string list" where
  "taken_names qu = qu_universe qu @ qu_blocked qu @ qu_active qu @ qu_claimable qu"

text \<open>How much a claim mints itself: the shortfall, or the whole top-up when it is one handful.\<close>

definition sync_want :: "int \<Rightarrow> int \<Rightarrow> int \<Rightarrow> int" where
  "sync_want n eligible batch =
     (let short = max 0 (n - eligible) in
      if short > 0
      then (if 0 < batch \<and> batch \<le> DISCOVERY_REFILL_BATCH_SIZE then max short batch else short)
      else 0)"

definition claimable_names ::
    "surroundings \<Rightarrow> world \<Rightarrow> lease_state \<Rightarrow> int \<Rightarrow> int \<Rightarrow> int \<Rightarrow>
     world \<times> string list \<times> string list \<times> jv \<times> bool" where
  "claimable_names sr w st n lanes now =
     (let qu = queue_view sr w st;
          eligible = int (length (qu_claimable qu));
          cap = max (max n (int (length (qu_active qu)))) 1;
          batch = refill_batch_size eligible cap lanes;
          want = sync_want n eligible batch
      in if want > 0
         then
           let (added, meta) = mint_unlocked sr (taken_names qu) want;
               kept = append_minted (sr_tape sr) qu (qu_canon qu) added
           in (w\<lparr>w_extended := append_extended_batch added now (w_extended w),
                w_refill := Some (save_refill_status meta now)\<rparr>,
               qu_claimable qu @ kept, added, meta, batch > want)
         else (w, qu_claimable qu, [], load_refill_status (w_refill w), batch > want))"

section \<open>Leasing names\<close>

definition lease_row :: "string \<Rightarrow> int \<Rightarrow> int \<Rightarrow> jv dict \<Rightarrow> jv" where
  "lease_row wid now expires marks =
     JObj ([(''worker_id'', JStr wid), (''claimed_at'', iso now), (''expires_at'', iso expires)] @ marks)"

text \<open>
  The loop of \<open>_take_retests\<close>, \<open>_take_library\<close> and \<open>_take_library_retests\<close>: lease up to \<open>n\<close> names in order,
  passing over those that are leased or that \<open>skip\<close> refuses.
\<close>

fun take_leases :: "(string \<Rightarrow> bool) \<Rightarrow> jv \<Rightarrow> nat \<Rightarrow> string list \<Rightarrow> jv dict \<Rightarrow> jv dict \<times> string list" where
  "take_leases skip row n [] d = (d, [])"
| "take_leases skip row 0 ns d = (d, [])"
| "take_leases skip row (Suc k) (n # ns) d =
     (if skip n \<or> dget d n \<noteq> None then take_leases skip row (Suc k) ns d
      else (let (d', chosen) = take_leases skip row k ns (dset n row d) in (d', n # chosen)))"

definition take_retests ::
    "world \<Rightarrow> lease_state \<Rightarrow> int \<Rightarrow> string \<Rightarrow> int \<Rightarrow> int \<Rightarrow> lease_state \<times> string list" where
  "take_retests w st n wid expires now =
     (let (d, chosen) = take_leases (\<lambda>name. name \<in> set (world_book w))
            (lease_row wid now expires [(''retest'', JBool True)]) (nat n) (pending_retest_names (w_bh w)) (leases st)
      in (st\<lparr>leases := d\<rparr>, chosen))"

definition take_library ::
    "surroundings \<Rightarrow> world \<Rightarrow> lease_state \<Rightarrow> int \<Rightarrow> string \<Rightarrow> int \<Rightarrow> int \<Rightarrow> string list \<Rightarrow> lease_state \<times> string list" where
  "take_library sr w st n wid expires now tested =
     (let (d, chosen) = take_leases (\<lambda>name. name \<in> set tested \<or> name \<in> set (world_book w))
            (lease_row wid now expires [(''library'', JBool True)]) (nat n) (claim_names (sr_lib sr)) (leases st)
      in (st\<lparr>leases := d\<rparr>, chosen))"

definition library_retest_names :: "world \<Rightarrow> string list" where
  "library_retest_names w =
     (let pending = pending_library_retest_names (w_lib w)
      in pending @ filter (\<lambda>n. n \<notin> set pending) (pending_signal_correction_names (world_rows w)))"

definition take_library_retests ::
    "world \<Rightarrow> lease_state \<Rightarrow> int \<Rightarrow> string \<Rightarrow> int \<Rightarrow> int \<Rightarrow> lease_state \<times> string list" where
  "take_library_retests w st n wid expires now =
     (let (d, chosen) = take_leases (\<lambda>name. False)
            (lease_row wid now expires [(''library'', JBool True), (''library_retest'', JBool True)])
            (nat n) (library_retest_names w) (leases st)
      in (st\<lparr>leases := d\<rparr>, chosen))"

text \<open>The tested names that may stay leased\<close>

definition keep_tested :: "world \<Rightarrow> string list" where
  "keep_tested w =
     pending_retest_names (w_bh w) @ pending_library_retest_names (w_lib w) @
     pending_signal_correction_names (world_rows w)"

section \<open>The claim\<close>

record claim_body =
  cb_names :: "string list"
  cb_paused :: bool
  cb_library :: bool
  cb_refilled :: "string list"
  cb_retest :: "string list"
  cb_requalify :: "string list"
  cb_refill :: jv
  cb_ttl :: int
  cb_expires :: jv
  cb_claimed :: jv
  cb_active :: "int option"
  cb_schedule :: bool

text \<open>The end of every claim: worker row, pruning, the lease file, the farm heartbeat.\<close>

definition finish_claim ::
    "string \<Rightarrow> string \<Rightarrow> int \<Rightarrow> int option \<Rightarrow> lease_state \<Rightarrow> world \<Rightarrow> world" where
  "finish_claim wid status now parallel st w =
     w\<lparr>w_leases := Some (save_lease_state (prune_workers (touch st wid status now parallel) now)),
       w_farm := Some (apply_heartbeat (Some status) now (w_farm w))\<rparr>"

definition status_of_claim :: "string list \<Rightarrow> string" where
  "status_of_claim chosen = (if chosen = [] then ''idle'' else ''running'')"

definition claim_library ::
    "surroundings \<Rightarrow> world \<Rightarrow> lease_state \<Rightarrow> string \<Rightarrow> int \<Rightarrow> int option \<Rightarrow> int \<Rightarrow> int \<Rightarrow> string list \<Rightarrow>
     world \<times> claim_body" where
  "claim_library sr w st wid n parallel now ttl tested =
     (let rest = min n (lease_room st wid parallel (Some now));
          expires = now + sec ttl;
          (st1, retest) = take_library_retests w st rest wid expires now;
          (st2, fresh) = take_library sr w st1 (rest - int (length retest)) wid expires now tested;
          chosen = retest @ fresh
      in (finish_claim wid (status_of_claim chosen) now parallel st2 w,
          \<lparr>cb_names = chosen, cb_paused = False, cb_library = True, cb_refilled = [], cb_retest = retest,
           cb_requalify = [], cb_refill = load_refill_status (w_refill w), cb_ttl = ttl,
           cb_expires = (if chosen = [] then JNull else iso expires), cb_claimed = iso now,
           cb_active = Some (int (length (leases st2))), cb_schedule = False\<rparr>))"

definition lease_all :: "jv \<Rightarrow> string list \<Rightarrow> lease_state \<Rightarrow> lease_state" where
  "lease_all row names st = st\<lparr>leases := fold (\<lambda>n d. dset n row d) names (leases st)\<rparr>"

definition claim_random ::
    "surroundings \<Rightarrow> world \<Rightarrow> lease_state \<Rightarrow> string \<Rightarrow> int \<Rightarrow> int option \<Rightarrow> int \<Rightarrow> int \<Rightarrow> world \<times> claim_body" where
  "claim_random sr w st wid n parallel now ttl =
     (let lanes = active_leased_lanes st now;
          (rq, requal) = lease_requalify wid n ttl now (w_requal w);
          w1 = w\<lparr>w_requal := rq\<rparr>;
          rest = min (n - int (length requal)) (lease_room st wid parallel (Some now));
          expires = now + sec ttl;
          (st1, retest) = (if rest > 0 then take_retests w1 st rest wid expires now else (st, []));
          rest1 = rest - int (length retest);
          (w2, claimable, refilled, meta, sched) =
            (if rest1 > 0 then claimable_names sr w1 st1 rest1 lanes now
             else (w1, [], [], load_refill_status (w_refill w1), False));
          fresh = take (nat rest1) claimable;
          chosen = requal @ retest @ fresh;
          st2 = lease_all (lease_row wid now expires []) fresh st1
      in (finish_claim wid (status_of_claim chosen) now parallel st2 w2,
          \<lparr>cb_names = chosen, cb_paused = False, cb_library = False, cb_refilled = refilled, cb_retest = retest,
           cb_requalify = requal, cb_refill = meta, cb_ttl = ttl,
           cb_expires = (if chosen = [] then JNull else iso expires), cb_claimed = iso now,
           cb_active = Some (int (length (leases st2))), cb_schedule = sched\<rparr>))"

definition claim_unlocked ::
    "surroundings \<Rightarrow> world \<Rightarrow> string \<Rightarrow> int \<Rightarrow> int option \<Rightarrow> int \<Rightarrow> world \<times> claim_body" where
  "claim_unlocked sr w0 wid n parallel now =
     (let w = w0\<lparr>w_disc := (w_disc w0)\<lparr>df_tested :=
            ensure_tested_index (sr_gen sr) (world_rows w0) (df_tested (w_disc w0))\<rparr>\<rparr>;
          tested = tested_name_set (df_tested (w_disc w));
          st0 = fst (drop_expired_and_tested (load_lease_state (w_leases w)) now tested (keep_tested w));
          ttl = lease_ttl_seconds n parallel
      in if \<not> fm_enabled (read_farm (w_farm w))
         then (finish_claim wid ''paused'' now parallel st0 w,
               \<lparr>cb_names = [], cb_paused = True, cb_library = False, cb_refilled = [], cb_retest = [],
                cb_requalify = [], cb_refill = load_refill_status (w_refill w), cb_ttl = ttl, cb_expires = JNull,
                cb_claimed = iso now, cb_active = None, cb_schedule = False\<rparr>)
         else
           let st = touch st0 wid ''running'' now parallel
           in if library_mode (sr_mode sr) then claim_library sr w st wid n parallel now ttl tested
              else claim_random sr w st wid n parallel now ttl)"

datatype claim_answer = StaleRules string int "string option" | Claimed claim_body

definition claim_discovery_batch ::
    "surroundings \<Rightarrow> world \<Rightarrow> jv \<Rightarrow> jv \<Rightarrow> jv \<Rightarrow> jv \<Rightarrow> bool \<Rightarrow> int \<Rightarrow> world \<times> claim_answer result" where
  "claim_discovery_batch sr w worker_id n parallel gate_rules require_rules now =
     (case require_worker_id worker_id of
        Inl e \<Rightarrow> (w, Inl e)
      | Inr wid \<Rightarrow> (case require_n n of
          Inl e \<Rightarrow> (w, Inl e)
        | Inr count \<Rightarrow> (case require_parallel parallel of
            Inl e \<Rightarrow> (w, Inl e)
          | Inr par \<Rightarrow>
              if require_rules \<and> gate_rules \<noteq> JStr GATE_RULES
              then (w, Inr (StaleRules wid count (as_str gate_rules)))
              else (let (w', body) = claim_unlocked sr w wid count par now in (w', Inr (Claimed body))))))"

section \<open>The refill buffer\<close>

record refill_plan =
  rp_want :: int
  rp_taken :: "string list"

definition refill_plan_of :: "surroundings \<Rightarrow> world \<Rightarrow> int \<Rightarrow> refill_plan" where
  "refill_plan_of sr w now =
     (let st = load_lease_state (w_leases w); qu = queue_view sr w st;
          cap = max (int (length (qu_active qu))) 1
      in \<lparr>rp_want = refill_batch_size (int (length (qu_claimable qu))) cap (active_leased_lanes st now),
          rp_taken = taken_names qu\<rparr>)"

definition refill_commit :: "surroundings \<Rightarrow> string list \<Rightarrow> jv \<Rightarrow> int \<Rightarrow> world \<Rightarrow> world \<times> string list" where
  "refill_commit sr added meta now w =
     (let qu = queue_view sr w (load_lease_state (w_leases w));
          kept = append_minted (sr_tape sr) qu (qu_canon qu) added
      in (w\<lparr>w_extended := append_extended_batch kept now (w_extended w),
           w_refill := Some (save_refill_status meta now)\<rparr>, kept))"

text \<open>
  \<open>refill_buffer_unlocked\<close>: the plan reads one state, the mint runs without the lock, and the commit sees
  the state \<open>w'\<close> that the other threads left meanwhile.
\<close>

definition refill_buffer :: "surroundings \<Rightarrow> world \<Rightarrow> world \<Rightarrow> int \<Rightarrow> world \<times> string list" where
  "refill_buffer sr w w' now =
     (if library_mode (sr_mode sr) then (w', [])
      else
        let plan = refill_plan_of sr w now in
        if rp_want plan \<le> 0 then (w', [])
        else (let (added, meta) = mint_unlocked sr (rp_taken plan) (rp_want plan)
              in refill_commit sr added meta now w'))"

section \<open>Release and heartbeat of both lanes\<close>

definition release_world :: "world \<Rightarrow> string \<Rightarrow> string list option \<Rightarrow> string \<Rightarrow> int \<Rightarrow> world \<times> string list" where
  "release_world w wid names status now =
     (let (st, released) = release_leases (load_lease_state (w_leases w)) wid names;
          (rq, more) = release_requalify wid names (w_requal w)
      in (finish_claim wid status now None st (w\<lparr>w_requal := rq\<rparr>), released @ more))"

definition release_discovery_leases ::
    "world \<Rightarrow> jv \<Rightarrow> jv \<Rightarrow> jv \<Rightarrow> int \<Rightarrow> world \<times> string list result" where
  "release_discovery_leases w worker_id names status now =
     (case require_worker_id worker_id of
        Inl e \<Rightarrow> (w, Inl e)
      | Inr wid \<Rightarrow>
          (let st = clean_status status ''idle'' in
           if names = JNull then map_prod id Inr (release_world w wid None st now)
           else if is_list names \<and> list_all is_str (as_list names)
           then map_prod id Inr (release_world w wid (Some (strings_of (as_list names))) st now)
           else (w, Inl (ValueError ''names must be a list of strings''))))"

definition heartbeat_world ::
    "env_value \<Rightarrow> world \<Rightarrow> string \<Rightarrow> string \<Rightarrow> int \<Rightarrow> string list option \<Rightarrow> string list option \<Rightarrow>
     world \<times> string list" where
  "heartbeat_world ev w wid status now evaluating queued =
     (let (st, dropped) = heartbeat_leases ev (load_lease_state (w_leases w)) wid status now evaluating queued;
          (rq, more) = (if status \<noteq> ''paused'' then refresh_requalify ev wid status now evaluating queued (w_requal w)
                        else (w_requal w, []))
      in (w\<lparr>w_leases := Some (save_lease_state st), w_requal := rq\<rparr>, dropped @ more))"

definition touch_worker_world ::
    "env_value \<Rightarrow> world \<Rightarrow> jv \<Rightarrow> jv \<Rightarrow> int \<Rightarrow> jv \<Rightarrow> jv \<Rightarrow> world \<times> string list" where
  "touch_worker_world ev w worker_id status now evaluating queued =
     (case as_str worker_id of
        None \<Rightarrow> (w, [])
      | Some s \<Rightarrow>
          if \<not> worker_id_match (strip s) then (w, [])
          else heartbeat_world ev w (strip s) (clean_status status ''running'') now (name_set evaluating)
                 (name_set queued))"

definition clear_world :: "string list \<Rightarrow> world \<Rightarrow> world \<times> string list" where
  "clear_world names w =
     (let (st, released) = clear_leases (load_lease_state (w_leases w)) names
      in (if released = [] then w else w\<lparr>w_leases := Some (save_lease_state st)\<rparr>, released))"

end
