(* ===== verification/ClaimFacts.thy ===== *)
theory ClaimFacts
  imports Claim
begin

text \<open>
  What a claim guarantees: the names it leases, who holds them and for how long, the room of a
  worker, and what it leaves alone.
\<close>

section \<open>Taking leases\<close>

lemma take_leases_facts:
  "take_leases skip row k ns d = (d', ch) \<Longrightarrow>
     length ch \<le> k \<and> distinct ch \<and> (\<forall>n \<in> set ch. n \<in> set ns \<and> \<not> skip n \<and> dget d n = None) \<and>
     (\<forall>n. dget d' n = (if n \<in> set ch then Some row else dget d n)) \<and> (dict_ok d \<longrightarrow> dict_ok d')"
proof (induction skip row k ns d arbitrary: d' ch rule: take_leases.induct)
  case (3 skip row k n ns d)
  show ?case
  proof (cases "skip n \<or> dget d n \<noteq> None")
    case True
    then show ?thesis using "3.IH"(1) [OF True] "3.prems" by auto
  next
    case False
    then obtain c where c: "take_leases skip row k ns (dset n row d) = (d', c)" "ch = n # c"
      using "3.prems" by (auto split: prod.splits)
    then show ?thesis using "3.IH"(2) [OF False c(1)] False by (auto split: if_splits)
  qed
qed auto

text \<open>\<open>took st row ch st'\<close>: the names \<open>ch\<close>, free before, hold the lease \<open>row\<close> and nothing else changed.\<close>

definition took :: "lease_state \<Rightarrow> jv \<Rightarrow> string list \<Rightarrow> lease_state \<Rightarrow> bool" where
  "took st row ch st' \<longleftrightarrow>
     workers st' = workers st \<and> (\<forall>n \<in> set ch. dget (leases st) n = None) \<and>
     (\<forall>n. dget (leases st') n = (if n \<in> set ch then Some row else dget (leases st) n)) \<and>
     (dict_ok (leases st) \<longrightarrow> dict_ok (leases st'))"

lemma tookD:
  "took st row ch st' \<Longrightarrow> n \<in> set ch \<Longrightarrow> dget (leases st) n = None \<and> dget (leases st') n = Some row"
  "took st row ch st' \<Longrightarrow> n \<notin> set ch \<Longrightarrow> dget (leases st') n = dget (leases st) n"
  "took st row ch st' \<Longrightarrow> workers st' = workers st"
  "took st row ch st' \<Longrightarrow> lease_state_ok st \<Longrightarrow> lease_state_ok st'"
  by (auto simp: took_def lease_state_ok_def)

lemma took_nil: "took st row [] st"
  by (simp add: took_def)

lemma take_retests_facts:
  assumes "take_retests w st n wid expires now = (st', ch)"
  shows "took st (lease_row wid now expires [(''retest'', JBool True)]) ch st' \<and> length ch \<le> nat n \<and> distinct ch \<and>
    set ch \<subseteq> set (pending_retest_names (w_bh w)) - set (world_book w)"
proof -
  obtain d where "take_leases (\<lambda>name. name \<in> set (world_book w)) (lease_row wid now expires [(''retest'', JBool True)])
      (nat n) (pending_retest_names (w_bh w)) (leases st) = (d, ch)" "st' = st\<lparr>leases := d\<rparr>"
    using assms by (auto simp: take_retests_def split: prod.splits)
  then show ?thesis using take_leases_facts by (fastforce simp: took_def)
qed

lemma take_library_facts:
  assumes "take_library sr w st n wid expires now tested = (st', ch)"
  shows "took st (lease_row wid now expires [(''library'', JBool True)]) ch st' \<and> length ch \<le> nat n \<and> distinct ch \<and>
    set ch \<subseteq> set (claim_names (sr_lib sr)) - set tested - set (world_book w)"
proof -
  obtain d where "take_leases (\<lambda>name. name \<in> set tested \<or> name \<in> set (world_book w))
      (lease_row wid now expires [(''library'', JBool True)]) (nat n) (claim_names (sr_lib sr)) (leases st) = (d, ch)"
      "st' = st\<lparr>leases := d\<rparr>"
    using assms by (auto simp: take_library_def split: prod.splits)
  then show ?thesis using take_leases_facts by (fastforce simp: took_def)
qed

lemma take_library_retests_facts:
  assumes "take_library_retests w st n wid expires now = (st', ch)"
  shows "took st (lease_row wid now expires [(''library'', JBool True), (''library_retest'', JBool True)]) ch st' \<and>
    length ch \<le> nat n \<and> distinct ch \<and> set ch \<subseteq> set (library_retest_names w)"
proof -
  obtain d where "take_leases (\<lambda>name. False)
      (lease_row wid now expires [(''library'', JBool True), (''library_retest'', JBool True)])
      (nat n) (library_retest_names w) (leases st) = (d, ch)" "st' = st\<lparr>leases := d\<rparr>"
    using assms by (auto simp: take_library_retests_def split: prod.splits)
  then show ?thesis using take_leases_facts by (fastforce simp: took_def)
qed

lemma fold_lease_dget:
  "dget (fold (\<lambda>n d. dset n row d) ns d) m = (if m \<in> set ns then Some row else dget d m)"
  by (induction ns arbitrary: d) auto

lemma lease_all_took:
  "(\<And>n. n \<in> set ns \<Longrightarrow> dget (leases st) n = None) \<Longrightarrow> took st row ns (lease_all row ns st)"
proof -
  have "dict_ok d \<Longrightarrow> dict_ok (fold (\<lambda>n d. dset n row d) ns d)" for d :: "jv dict"
    by (induction ns arbitrary: d) auto
  then show "(\<And>n. n \<in> set ns \<Longrightarrow> dget (leases st) n = None) \<Longrightarrow> took st row ns (lease_all row ns st)"
    by (simp add: took_def lease_all_def fold_lease_dget)
qed

section \<open>The queue\<close>

lemma mint_ok_mono: "mint_block_reason tape n keys = None \<Longrightarrow> mint_block_reason tape n [] = None"
  by (auto simp: mint_block_reason_def or_else_def canonical_tested_reason_def split: option.splits)

lemma queue_from_in:
  "n \<in> set (fst (queue_from tape keys ns)) \<Longrightarrow> n \<in> set ns \<and> mint_block_reason tape n [] = None"
  by (induction ns arbitrary: keys) (auto simp: split_beta dest: mint_ok_mono split: if_splits)

lemma append_minted_in:
  "n \<in> set (append_minted tape qu keys ns) \<Longrightarrow>
     n \<in> set ns \<and> n \<notin> set (qu_active qu) \<and> n \<notin> set (qu_blocked qu) \<and> mint_block_reason tape n [] = None"
  by (induction ns arbitrary: keys) (auto dest: mint_ok_mono split: if_splits)

lemma tested_discovery_set:
  "set (tested_discovery_names rows tf) = tested_in tf \<union> set (List.map_filter row_name rows)"
  by (simp add: tested_discovery_names_def flags_for_skip_def merge_rows_keys latest_rows_keys del: set_map)

lemma queue_view_fields:
  "set (qu_active (queue_view sr w st)) = set (dkeys (leases st))"
  "set (qu_blocked (queue_view sr w st)) = set (world_book w) \<union> tested_in (df_tested (w_disc w)) \<union>
     set (List.map_filter row_name (world_rows w))"
  by (auto simp: queue_view_def Let_def split_beta tested_discovery_set simp del: set_map)

lemma queue_view_claimable:
  "n \<in> set (qu_claimable (queue_view sr w st)) \<Longrightarrow>
     n \<notin> set (qu_active (queue_view sr w st)) \<and> n \<notin> set (qu_blocked (queue_view sr w st)) \<and>
     mint_block_reason (sr_tape sr) n [] = None"
  by (auto simp: queue_view_def Let_def split_beta prioritize_leftovers_def simp del: set_map
      dest!: queue_from_in untested_candidates_facts)

definition fresh_ok :: "surroundings \<Rightarrow> world \<Rightarrow> lease_state \<Rightarrow> string \<Rightarrow> bool" where
  "fresh_ok sr w st n \<longleftrightarrow>
     dget (leases st) n = None \<and> n \<notin> set (world_book w) \<and> n \<notin> tested_in (df_tested (w_disc w)) \<and>
     n \<notin> set (List.map_filter row_name (world_rows w)) \<and> mint_block_reason (sr_tape sr) n [] = None"

lemma claimable_fresh:
  assumes "claimable_names sr w st n lanes now = (w', claimable, refilled, meta, sched)" "m \<in> set claimable"
  shows "fresh_ok sr w st m"
proof -
  have "m \<notin> set (qu_active (queue_view sr w st)) \<and> m \<notin> set (qu_blocked (queue_view sr w st)) \<and>
     mint_block_reason (sr_tape sr) m [] = None"
    using assms queue_view_claimable [of m sr w st]
    by (auto simp: claimable_names_def Let_def split_beta dest: append_minted_in split: if_splits)
  then show ?thesis by (simp add: fresh_ok_def queue_view_fields dkeys_dget del: set_map)
qed

lemma claimable_keeps:
  "claimable_names sr w st n lanes now = (w', claimable, refilled, meta, sched) \<Longrightarrow>
     w_leases w' = w_leases w \<and> w_requal w' = w_requal w \<and> w_bh w' = w_bh w \<and> w_lib w' = w_lib w \<and>
     w_disc w' = w_disc w \<and> w_farm w' = w_farm w \<and> w_book w' = w_book w"
  by (auto simp: claimable_names_def Let_def split_beta split: if_splits)

section \<open>The two claims\<close>

lemma load_save_leases [simp]: "load_lease_state (Some (save_lease_state st)) = st"
  by (simp add: load_lease_state_def save_lease_state_def sub_dict_def dict_or_empty_def)

lemma finish_leases [simp]:
  "load_lease_state (w_leases (finish_claim wid status now parallel st w)) =
     prune_workers (touch st wid status now parallel) now"
  "w_disc (finish_claim wid status now parallel st w) = w_disc w"
  "w_book (finish_claim wid status now parallel st w) = w_book w"
  "w_requal (finish_claim wid status now parallel st w) = w_requal w"
  by (simp_all add: finish_claim_def)

lemma claim_library_spec:
  assumes "claim_library sr w st wid n parallel now ttl tested = (w', b)"
  obtains retest fresh st1 st2 where
    "cb_names b = retest @ fresh" "cb_requalify b = []" "cb_retest b = retest"
    "took st (lease_row wid now (now + sec ttl) [(''library'', JBool True), (''library_retest'', JBool True)]) retest st1"
    "took st1 (lease_row wid now (now + sec ttl) [(''library'', JBool True)]) fresh st2"
    "load_lease_state (w_leases w') = prune_workers (touch st2 wid (status_of_claim (cb_names b)) now parallel) now"
    "length retest + length fresh \<le> nat (min n (lease_room st wid parallel (Some now)))"
    "distinct retest" "distinct fresh" "set retest \<subseteq> set (library_retest_names w)"
    "set fresh \<subseteq> set (claim_names (sr_lib sr)) - set tested - set (world_book w)"
    "w_disc w' = w_disc w" "w_book w' = w_book w"
proof -
  let ?rest = "min n (lease_room st wid parallel (Some now))"
  obtain st1 retest where a: "take_library_retests w st ?rest wid (now + sec ttl) now = (st1, retest)" by fastforce
  obtain st2 fresh where b: "take_library sr w st1 (?rest - int (length retest)) wid (now + sec ttl) now tested = (st2, fresh)"
    by fastforce
  note fa = take_library_retests_facts [OF a] and fb = take_library_facts [OF b]
  have "length retest + length fresh \<le> nat ?rest" using fa fb by linarith
  then show ?thesis
    using that [of retest fresh st1 st2] fa fb assms a b by (auto simp: claim_library_def Let_def)
qed

lemma claim_random_spec:
  assumes "claim_random sr w st wid n parallel now ttl = (w', b)"
  obtains requal rq retest fresh st1 st2 where
    "lease_requalify wid n ttl now (w_requal w) = (rq, requal)" "w_requal w' = rq"
    "cb_names b = requal @ retest @ fresh" "cb_requalify b = requal" "cb_retest b = retest"
    "took st (lease_row wid now (now + sec ttl) [(''retest'', JBool True)]) retest st1"
    "took st1 (lease_row wid now (now + sec ttl) []) fresh st2"
    "load_lease_state (w_leases w') = prune_workers (touch st2 wid (status_of_claim (cb_names b)) now parallel) now"
    "length retest + length fresh \<le> nat (min (n - int (length requal)) (lease_room st wid parallel (Some now)))"
    "distinct retest" "set retest \<subseteq> set (pending_retest_names (w_bh w)) - set (world_book w)"
    "\<forall>m \<in> set fresh. fresh_ok sr w st1 m"
    "w_disc w' = w_disc w" "w_book w' = w_book w"
proof -
  obtain rq requal where a: "lease_requalify wid n ttl now (w_requal w) = (rq, requal)" by fastforce
  let ?w = "w\<lparr>w_requal := rq\<rparr>"
  let ?rest = "min (n - int (length requal)) (lease_room st wid parallel (Some now))"
  let ?expires = "now + sec ttl"
  obtain st1 retest where b: "(if ?rest > 0 then take_retests ?w st ?rest wid ?expires now else (st, [])) = (st1, retest)"
    by fastforce
  have fb: "took st (lease_row wid now ?expires [(''retest'', JBool True)]) retest st1 \<and> length retest \<le> nat ?rest \<and>
      distinct retest \<and> set retest \<subseteq> set (pending_retest_names (w_bh w)) - set (world_book w)"
    using b take_retests_facts [of ?w st ?rest wid ?expires now]
    by (auto simp: took_nil world_book_def split: if_splits)
  let ?rest1 = "?rest - int (length retest)"
  obtain w2 claimable refilled meta sched where
    c: "(if ?rest1 > 0 then claimable_names sr ?w st1 ?rest1 (active_leased_lanes st now) now
         else (?w, [], [], load_refill_status (w_refill ?w), False)) = (w2, claimable, refilled, meta, sched)"
    by (metis prod_cases5)
  have fc: "\<forall>m \<in> set claimable. fresh_ok sr w st1 m" "w_disc w2 = w_disc w" "w_book w2 = w_book w" "w_requal w2 = rq"
    using c claimable_fresh [of sr ?w st1 ?rest1] claimable_keeps [of sr ?w st1 ?rest1]
    by (auto simp: fresh_ok_def world_book_def world_rows_def split: if_splits)
  let ?fresh = "take (nat ?rest1) claimable"
  let ?st2 = "lease_all (lease_row wid now ?expires []) ?fresh st1"
  have fresh: "\<forall>m \<in> set ?fresh. fresh_ok sr w st1 m" using fc(1) by (meson in_set_takeD)
  then have took: "took st1 (lease_row wid now ?expires []) ?fresh ?st2"
    by (intro lease_all_took) (simp add: fresh_ok_def)
  have len: "length retest + length ?fresh \<le> nat ?rest" using fb by auto
  have res: "w' = finish_claim wid (status_of_claim (requal @ retest @ ?fresh)) now parallel ?st2 w2"
      "cb_names b = requal @ retest @ ?fresh" "cb_requalify b = requal" "cb_retest b = retest"
    using assms a b c by (auto simp: claim_random_def Let_def)
  show ?thesis
    by (rule that [OF a _ res(2,3,4) _ took]) (use res fb fc fresh len in auto)
qed

end
