(* ===== verification/ClaimRuns.thy ===== *)
theory ClaimRuns
  imports ClaimFacts
begin

text \<open>
  The claim as one step on the world, and runs of claims, heartbeats, releases, clears and
  refills: nobody's live lease is taken, a worker's leases stay in its room, and every lease
  runs out at most one heartbeat grace after its worker was last seen.
\<close>

section \<open>A claim\<close>

definition indexed :: "surroundings \<Rightarrow> world \<Rightarrow> world" where
  "indexed sr w = w\<lparr>w_disc := (w_disc w)\<lparr>df_tested :=
     ensure_tested_index (sr_gen sr) (world_rows w) (df_tested (w_disc w))\<rparr>\<rparr>"

definition world_leases :: "world \<Rightarrow> lease_state" where
  "world_leases w = load_lease_state (w_leases w)"

definition swept :: "surroundings \<Rightarrow> world \<Rightarrow> int \<Rightarrow> lease_state" where
  "swept sr w now =
     fst (drop_expired_and_tested (world_leases w) now (tested_name_set (df_tested (w_disc (indexed sr w))))
       (keep_tested (indexed sr w)))"

definition new_lease :: "string \<Rightarrow> int \<Rightarrow> jv \<Rightarrow> bool" where
  "new_lease wid now r \<longleftrightarrow>
     owned_by wid r \<and> lease_time r ''claimed_at'' = Some (floor_sec now) \<and>
     expiry r = Some (floor_sec now + sec lease_heartbeat_grace_seconds) \<and> \<not> started r \<and>
     lease_time r ''queued_seen_at'' = None"

lemma new_lease_row:
  "set (map fst marks) \<subseteq> {''retest'', ''library'', ''library_retest''} \<Longrightarrow>
     new_lease wid now (lease_row wid now (now + sec (lease_ttl_seconds n parallel)) marks)"
proof -
  assume a: "set (map fst marks) \<subseteq> {''retest'', ''library'', ''library_retest''}"
  then have none: "dget marks k = None"
    if "k \<in> {''worker_id'', ''claimed_at'', ''expires_at'', ''started_at'', ''queued_seen_at''}" for k
    using that by (auto simp: map_of_eq_None_iff)
  show ?thesis
    by (simp add: new_lease_def owned_by_def lease_row_def lease_time_def started_def none lease_ttl_seconds_def
        floor_sec_add map_add_def)
qed

lemma new_lease_room: "new_lease wid now r \<Longrightarrow> holds_room wid (Some now) r"
  using floor_sec_gt [of now]
  by (auto simp: new_lease_def holds_room_def is_stale_unstarted_def last_reported_def sec_def lease_constants)

text \<open>When a worker was last seen\<close>

definition seen :: "lease_state \<Rightarrow> string \<Rightarrow> int option" where
  "seen st v = (case dget (workers st) v of None \<Rightarrow> None | Some m \<Rightarrow> lease_time m ''last_seen'')"

lemma seen_touch: "seen (touch st wid s now p) v = (if v = wid then Some (floor_sec now) else seen st v)"
  by (simp add: seen_def workers_touch lease_time_def)

lemma active_ids_in: "dget (leases st) n = Some r \<Longrightarrow> owned_by v r \<Longrightarrow> v \<in> set (active_ids st)"
  by (force simp: active_ids_def in_map_filter owned_by_def dest!: dget_in_set)

lemma active_ids_leases: "leases st = leases st' \<Longrightarrow> active_ids st = active_ids st'"
  by (simp add: active_ids_def)

lemma seen_prune:
  assumes "dict_ok (workers st)" "v \<in> set (active_ids st) \<or> seen st v = Some (floor_sec now)"
  shows "seen (prune_workers st now) v = seen st v"
proof (cases "dget (workers st) v")
  case (Some m)
  have "\<not> stale_worker now m" if "seen st v = Some (floor_sec now)"
    using that Some floor_sec_gt [of now]
    by (auto simp: seen_def stale_worker_def lease_time_def sec_def WORKER_RETENTION_def)
  then show ?thesis using assms Some by (auto simp: seen_def prune_workers_def dget_walk)
qed (use assms in \<open>simp add: seen_def prune_workers_def dget_walk\<close>)

text \<open>The writes at the end of every operation of a worker\<close>

definition settled :: "string \<Rightarrow> int \<Rightarrow> lease_state \<Rightarrow> lease_state \<Rightarrow> bool" where
  "settled wid now st st' \<longleftrightarrow>
     leases st' = leases st \<and> (lease_state_ok st \<longrightarrow> lease_state_ok st') \<and>
     (dict_ok (workers st) \<longrightarrow> seen st' wid = Some (floor_sec now) \<and>
        (\<forall>v. v \<noteq> wid \<and> v \<in> set (active_ids st) \<longrightarrow> seen st' v = seen st v))"

lemma settled_finish: "settled wid now st (prune_workers (touch st wid s now p) now)"
proof -
  have "dict_ok (workers st) \<Longrightarrow> dict_ok (workers (touch st wid s now p))" by (simp add: touch_def)
  then show ?thesis
    using seen_prune [of "touch st wid s now p" _ now] active_ids_leases [of "touch st wid s now p" st]
    by (auto simp: settled_def seen_touch)
qed

lemma settled_touch: "settled wid now (touch st wid s now p) st' \<Longrightarrow> settled wid now st st'"
  using active_ids_leases [of "touch st wid s now p" st]
  by (auto simp: settled_def seen_touch) (simp_all add: touch_def)

lemma settled_took:
  "took st row ch st1 \<Longrightarrow> settled wid now st1 st' \<Longrightarrow> dget (leases st') n = (if n \<in> set ch then Some row else dget (leases st) n)"
  by (auto simp: took_def settled_def)

text \<open>What both modes and the paused answer share: \<open>new\<close> are the discovery names of the answer.\<close>

definition claim_effect ::
    "surroundings \<Rightarrow> world \<Rightarrow> string \<Rightarrow> int \<Rightarrow> int option \<Rightarrow> int \<Rightarrow> world \<Rightarrow> claim_body \<Rightarrow> string list \<Rightarrow> bool" where
  "claim_effect sr w0 wid n parallel now w' b new \<longleftrightarrow>
     cb_names b = cb_requalify b @ new \<and>
     (\<forall>m \<in> set new. dget (leases (swept sr w0 now)) m = None \<and>
        (\<exists>r. dget (leases (world_leases w')) m = Some r \<and> new_lease wid now r)) \<and>
     (\<forall>m. m \<notin> set new \<longrightarrow> dget (leases (world_leases w')) m = dget (leases (swept sr w0 now)) m) \<and>
     length new \<le> nat (min (n - int (length (cb_requalify b)))
       (lease_room (touch (swept sr w0 now) wid ''running'' now parallel) wid parallel (Some now))) \<and>
     (\<forall>m \<in> set new. m \<notin> set (cb_retest b) \<longrightarrow>
        m \<notin> set (world_book w0) \<and> m \<notin> tested_in (df_tested (w_disc (indexed sr w0)))) \<and>
     w_disc w' = w_disc (indexed sr w0) \<and>
     (\<exists>st2. settled wid now st2 (world_leases w') \<and>
        workers st2 = workers (swept sr w0 now) \<and>
        (lease_state_ok (swept sr w0 now) \<longrightarrow> lease_state_ok st2))"

lemma world_rows_indexed [simp]: "world_rows (indexed sr w) = world_rows w" "world_book (indexed sr w) = world_book w"
  by (simp_all add: indexed_def world_rows_def world_book_def)

lemma claim_unlocked_cases:
  assumes "claim_unlocked sr w0 wid n parallel now = (w', b)"
  obtains (paused) "w' = finish_claim wid ''paused'' now parallel (swept sr w0 now) (indexed sr w0)"
      "cb_names b = []" "cb_requalify b = []" "cb_paused b"
    | (library) "claim_library sr (indexed sr w0) (touch (swept sr w0 now) wid ''running'' now parallel) wid n parallel now
        (lease_ttl_seconds n parallel) (tested_name_set (df_tested (w_disc (indexed sr w0)))) = (w', b)"
        "library_mode (sr_mode sr)"
    | (random) "claim_random sr (indexed sr w0) (touch (swept sr w0 now) wid ''running'' now parallel) wid n parallel now
        (lease_ttl_seconds n parallel) = (w', b)" "\<not> library_mode (sr_mode sr)"
proof -
  have same: "w_leases (indexed sr w0) = w_leases w0" by (simp add: indexed_def)
  note defs = claim_unlocked_def Let_def swept_def world_leases_def same
  show ?thesis
  proof (cases "fm_enabled (read_farm (w_farm (indexed sr w0)))")
    case False
    then show ?thesis using assms by (intro paused) (auto simp: defs indexed_def [symmetric])
  next
    case True
    show ?thesis
    proof (cases "library_mode (sr_mode sr)")
      case True
      then show ?thesis using assms \<open>fm_enabled _\<close> by (intro library) (auto simp: defs indexed_def [symmetric])
    next
      case False
      then show ?thesis using assms \<open>fm_enabled _\<close> by (intro random) (auto simp: defs indexed_def [symmetric])
    qed
  qed
qed

text \<open>The state of a claim before its last writes, as one that only leases differ from.\<close>

lemma settled_after_touch:
  assumes "workers st2 = workers (touch st wid s now p)" "settled wid now st2 st'"
  shows "settled wid now (st\<lparr>leases := leases st2\<rparr>) st'"
proof -
  have "st2 = touch (st\<lparr>leases := leases st2\<rparr>) wid s now p"
    using assms(1) by (simp add: touch_def)
  then show ?thesis using assms(2) settled_touch by metis
qed

lemma claim_effect_took:
  assumes took: "took (touch (swept sr w0 now) wid ''running'' now parallel) r1 retest st1" "took st1 r2 fresh st2"
    and rows: "new_lease wid now r1" "new_lease wid now r2"
    and names: "cb_names b = cb_requalify b @ retest @ fresh" "cb_retest b = retest"
    and len: "length retest + length fresh \<le> nat (min (n - int (length (cb_requalify b)))
       (lease_room (touch (swept sr w0 now) wid ''running'' now parallel) wid parallel (Some now)))"
    and fresh: "\<And>m. m \<in> set fresh \<Longrightarrow> m \<notin> set (world_book w0) \<and> m \<notin> tested_in (df_tested (w_disc (indexed sr w0)))"
    and w': "world_leases w' = prune_workers (touch st2 wid s now parallel) now" "w_disc w' = w_disc (indexed sr w0)"
  shows "claim_effect sr w0 wid n parallel now w' b (retest @ fresh)"
proof -
  let ?st = "swept sr w0 now"
  have dget: "dget (leases (world_leases w')) m =
      (if m \<in> set fresh then Some r2 else if m \<in> set retest then Some r1 else dget (leases ?st) m)" for m
    using took w'(1) by (auto simp: took_def)
  have none: "m \<in> set retest \<union> set fresh \<Longrightarrow> dget (leases ?st) m = None" for m
    using took by (auto simp: took_def split: if_splits)
  have "settled wid now st2 (world_leases w')" unfolding w'(1) by (rule settled_finish)
  then have "settled wid now (?st\<lparr>leases := leases st2\<rparr>) (world_leases w')"
    using took by (intro settled_after_touch) (simp_all add: took_def)
  moreover have "lease_state_ok ?st \<longrightarrow> lease_state_ok (?st\<lparr>leases := leases st2\<rparr>)"
    using took by (auto simp: took_def lease_state_ok_def)
  ultimately show ?thesis
    unfolding claim_effect_def using names rows len fresh w'(2) dget none
    by (intro conjI exI [of _ "?st\<lparr>leases := leases st2\<rparr>"]) auto
qed

lemma claim_has_effect:
  assumes "claim_unlocked sr w0 wid n parallel now = (w', b)"
  shows "\<exists>new. claim_effect sr w0 wid n parallel now w' b new"
  using assms
proof (cases rule: claim_unlocked_cases)
  case paused
  have "settled wid now (swept sr w0 now) (world_leases w')"
    unfolding paused(1) world_leases_def finish_leases by (rule settled_finish)
  then show ?thesis
    using paused by (intro exI [of _ "[]"]) (auto simp: claim_effect_def settled_def world_leases_def)
next
  case library
  from library(1) show ?thesis
  proof (rule claim_library_spec)
    fix retest fresh st1 st2
    assume a: "cb_names b = retest @ fresh" "cb_requalify b = []" "cb_retest b = retest"
      "took (touch (swept sr w0 now) wid ''running'' now parallel) (lease_row wid now (now + sec (lease_ttl_seconds n parallel))
        [(''library'', JBool True), (''library_retest'', JBool True)]) retest st1"
      "took st1 (lease_row wid now (now + sec (lease_ttl_seconds n parallel)) [(''library'', JBool True)]) fresh st2"
      "load_lease_state (w_leases w') = prune_workers (touch st2 wid (status_of_claim (cb_names b)) now parallel) now"
      "length retest + length fresh \<le> nat (min n (lease_room (touch (swept sr w0 now) wid ''running'' now parallel) wid parallel (Some now)))"
      "set fresh \<subseteq> set (claim_names (sr_lib sr)) - set (tested_name_set (df_tested (w_disc (indexed sr w0)))) - set (world_book (indexed sr w0))"
      "w_disc w' = w_disc (indexed sr w0)"
    have "claim_effect sr w0 wid n parallel now w' b (retest @ fresh)"
      by (rule claim_effect_took [OF a(4,5) new_lease_row new_lease_row])
        (use a in \<open>auto simp: world_leases_def tested_name_set_def\<close>)
    then show ?thesis by blast
  qed
next
  case random
  from random(1) show ?thesis
  proof (rule claim_random_spec)
    fix requal rq retest fresh st1 st2
    assume a: "cb_names b = requal @ retest @ fresh" "cb_requalify b = requal" "cb_retest b = retest"
      "took (touch (swept sr w0 now) wid ''running'' now parallel) (lease_row wid now (now + sec (lease_ttl_seconds n parallel))
        [(''retest'', JBool True)]) retest st1"
      "took st1 (lease_row wid now (now + sec (lease_ttl_seconds n parallel)) []) fresh st2"
      "load_lease_state (w_leases w') = prune_workers (touch st2 wid (status_of_claim (cb_names b)) now parallel) now"
      "length retest + length fresh \<le> nat (min (n - int (length requal))
        (lease_room (touch (swept sr w0 now) wid ''running'' now parallel) wid parallel (Some now)))"
      "\<forall>m \<in> set fresh. fresh_ok sr (indexed sr w0) st1 m" "w_disc w' = w_disc (indexed sr w0)"
    have "claim_effect sr w0 wid n parallel now w' b (retest @ fresh)"
      by (rule claim_effect_took [OF a(4,5) new_lease_row new_lease_row])
        (use a in \<open>auto simp: world_leases_def fresh_ok_def\<close>)
    then show ?thesis by blast
  qed
qed

section \<open>What a claim leaves alone, and the room of a worker\<close>

lemma swept_ok: "lease_state_ok (world_leases w) \<Longrightarrow> lease_state_ok (swept sr w now)"
  by (simp add: swept_def)

lemma swept_dget:
  "lease_state_ok (world_leases w) \<Longrightarrow> dget (leases (swept sr w now)) m = Some r \<longleftrightarrow>
     dget (leases (world_leases w)) m = Some r \<and>
     \<not> (m \<in> tested_in (df_tested (w_disc (indexed sr w))) \<and> m \<notin> set (keep_tested (indexed sr w))) \<and> \<not> expired now r"
  by (simp add: swept_def dget_sweep tested_name_set_def)

lemma count_card:
  "dict_ok d \<Longrightarrow> length (filter (\<lambda>(n, r). P r) d) = card {n. \<exists>r. dget d n = Some r \<and> P r}"
proof -
  assume ok: "dict_ok d"
  have "{n. \<exists>r. dget d n = Some r \<and> P r} = set (map fst (filter (\<lambda>(n, r). P r) d))"
    using in_set_dget [OF ok] by force
  moreover have "distinct (map fst (filter (\<lambda>(n, r). P r) d))" using ok by (rule distinct_map_filter)
  ultimately show ?thesis by (metis distinct_card length_map)
qed

lemma claim_room:
  assumes eff: "claim_effect sr w0 wid n parallel now w' b new" and ok: "lease_state_ok (world_leases w0)"
  shows "worker_lease_count (world_leases w') wid (Some now) \<le>
    max (worker_lease_cap (touch (swept sr w0 now) wid ''running'' now parallel) wid parallel)
      (worker_lease_count (swept sr w0 now) wid (Some now))"
proof -
  let ?st = "swept sr w0 now" and ?P = "holds_room wid (Some now)"
  let ?before = "{n. \<exists>r. dget (leases ?st) n = Some r \<and> ?P r}"
  let ?after = "{n. \<exists>r. dget (leases (world_leases w')) n = Some r \<and> ?P r}"
  have sok: "lease_state_ok ?st" using ok by (rule swept_ok)
  then have ok': "lease_state_ok (world_leases w')" using eff by (auto simp: claim_effect_def settled_def)
  have before: "worker_lease_count ?st wid (Some now) = int (card ?before)"
    using sok by (simp add: worker_lease_count_def count_card lease_state_ok_def)
  have after: "worker_lease_count (world_leases w') wid (Some now) = int (card ?after)"
    using ok' by (simp add: worker_lease_count_def count_card lease_state_ok_def)
  have "?before \<subseteq> set (dkeys (leases ?st))" by (auto simp: dkeys_dget simp del: set_map)
  then have fin: "finite ?before" by (rule finite_subset) simp
  have "?after \<subseteq> ?before \<union> set new" using eff by (fastforce simp: claim_effect_def)
  then have "card ?after \<le> card (?before \<union> set new)" using fin by (intro card_mono) auto
  also have "\<dots> \<le> card ?before + length new" using card_Un_le card_length by (meson add_left_mono order_trans)
  finally have card: "card ?after \<le> card ?before + length new" .
  have count: "worker_lease_count (touch ?st wid ''running'' now parallel) wid (Some now) =
      worker_lease_count ?st wid (Some now)" by (simp add: worker_lease_count_def)
  have "int (length new) \<le> lease_room (touch ?st wid ''running'' now parallel) wid parallel (Some now)"
    using eff by (auto simp: claim_effect_def lease_room_def)
  then show ?thesis using card before after count by (simp add: lease_room_def)
qed

lemma claim_keeps_live:
  assumes eff: "claim_effect sr w0 wid n parallel now w' b new" and ok: "lease_state_ok (world_leases w0)"
    and live: "dget (leases (world_leases w0)) m = Some r" "\<not> expired now r"
    and untested: "m \<notin> tested_in (df_tested (w_disc (indexed sr w0))) \<or> m \<in> set (keep_tested (indexed sr w0))"
  shows "m \<notin> set new \<and> dget (leases (world_leases w')) m = Some r"
proof -
  have "dget (leases (swept sr w0 now)) m = Some r" using ok live untested by (auto simp: swept_dget)
  then show ?thesis using eff unfolding claim_effect_def by (metis option.distinct(1))
qed

section \<open>Runs\<close>

text \<open>
  One step on the state files at time \<open>now\<close>. \<open>other\<close> is any step that leaves the lease file alone:
  an ingest's appends, a book write, a requeue, the refill buffer, the farm switch.
\<close>

inductive world_step :: "int \<Rightarrow> world \<Rightarrow> world \<Rightarrow> bool" where
  claim: "claim_unlocked sr w wid n parallel now = (w', b) \<Longrightarrow> world_step now w w'"
| beat: "heartbeat_world ev w wid status now e q = (w', dropped) \<Longrightarrow> world_step now w w'"
| release: "release_world w wid names status now = (w', released) \<Longrightarrow> world_step now w w'"
| clear: "clear_world names w = (w', released) \<Longrightarrow> world_step now w w'"
| other: "w_leases w' = w_leases w \<Longrightarrow> world_step now w w'"

inductive world_run :: "int \<Rightarrow> world \<Rightarrow> int \<Rightarrow> world \<Rightarrow> bool" where
  refl: "world_run t w t w"
| step: "world_run t w t' w' \<Longrightarrow> t' \<le> now \<Longrightarrow> world_step now w' w'' \<Longrightarrow> world_run t w now w''"

inductive_cases world_stepE: "world_step now w w'"

text \<open>Every lease belongs to a worker that was seen, and runs out one grace after that at the latest.\<close>

definition follows :: "int \<Rightarrow> lease_state \<Rightarrow> bool" where
  "follows t st \<longleftrightarrow>
     lease_state_ok st \<and> (\<forall>v s. seen st v = Some s \<longrightarrow> v \<in> set (active_ids st) \<longrightarrow> s \<le> floor_sec t) \<and>
     (\<forall>n r. dget (leases st) n = Some r \<longrightarrow>
        (\<exists>v s x. owned_by v r \<and> seen st v = Some s \<and> expiry r = Some x \<and>
           x \<le> s + sec lease_heartbeat_grace_seconds))"

lemma owned_unique: "owned_by v r \<Longrightarrow> owned_by u r \<Longrightarrow> u = v"
  by (simp add: owned_by_def)

lemma followsI:
  assumes "lease_state_ok st'" "t \<le> now" "follows t st"
    and acting: "seen st' wid = Some (floor_sec now)"
    and others: "\<And>v. v \<noteq> wid \<Longrightarrow> v \<in> set (active_ids st') \<Longrightarrow> seen st' v = seen st v \<and> v \<in> set (active_ids st)"
    and leases: "\<And>n r. dget (leases st') n = Some r \<Longrightarrow>
        (owned_by wid r \<and> (\<exists>x. expiry r = Some x \<and> x \<le> floor_sec now + sec lease_heartbeat_grace_seconds)) \<or>
        dget (leases st) n = Some r"
  shows "follows now st'"
  unfolding follows_def
proof (intro conjI allI impI)
  fix v s assume v: "seen st' v = Some s" "v \<in> set (active_ids st')"
  show "s \<le> floor_sec now"
  proof (cases "v = wid")
    case True
    then show ?thesis using v acting by simp
  next
    case False
    then have "s \<le> floor_sec t" using others [OF False v(2)] v(1) assms(3) by (simp add: follows_def)
    then show ?thesis using floor_sec_mono [OF assms(2)] by simp
  qed
next
  fix n r assume r: "dget (leases st') n = Some r"
  show "\<exists>v s x. owned_by v r \<and> seen st' v = Some s \<and> expiry r = Some x \<and> x \<le> s + sec lease_heartbeat_grace_seconds"
  proof (cases "owned_by wid r \<and> (\<exists>x. expiry r = Some x \<and> x \<le> floor_sec now + sec lease_heartbeat_grace_seconds)")
    case True
    then show ?thesis using acting by blast
  next
    case False
    then have old: "dget (leases st) n = Some r" using leases [OF r] by blast
    then obtain v s x where v: "owned_by v r" "seen st v = Some s" "expiry r = Some x"
        "x \<le> s + sec lease_heartbeat_grace_seconds"
      using assms(3) unfolding follows_def by blast
    have vw: "v \<noteq> wid"
    proof
      assume w: "v = wid"
      have "s \<le> floor_sec t" using v(2) assms(3) active_ids_in [OF old v(1)] by (simp add: follows_def)
      then have "s \<le> floor_sec now" using floor_sec_mono [OF assms(2)] by simp
      then show False using False v w by auto
    qed
    show ?thesis using others [OF vw active_ids_in [OF r v(1)]] v by metis
  qed
qed (use assms in simp)

lemma follows_later: "follows t st \<Longrightarrow> t \<le> now \<Longrightarrow> follows now st"
  using floor_sec_mono [of t now] unfolding follows_def by (meson order_trans)

lemma as_str_iff: "as_str v = Some s \<longleftrightarrow> v = JStr s"
  by (cases v) auto

lemma active_sub:
  assumes "lease_state_ok st'" "v \<noteq> wid" "v \<in> set (active_ids st')"
    and "\<And>n r. dget (leases st') n = Some r \<Longrightarrow> owned_by wid r \<or> dget (leases st) n = Some r"
  shows "v \<in> set (active_ids st)"
proof -
  obtain n r where r: "(n, r) \<in> set (leases st')" "owned_by v r"
    using assms(3) by (auto simp: active_ids_def in_map_filter owned_by_def as_str_iff split: if_splits)
  then have d: "dget (leases st') n = Some r" using assms(1) by (simp add: lease_state_ok_def)
  then have "dget (leases st) n = Some r" using assms(2) assms(4) [OF d] r(2) owned_unique by blast
  then show ?thesis using r(2) by (rule active_ids_in)
qed

lemma followsI':
  assumes "lease_state_ok st'" "t \<le> now" "follows t st"
    and acting: "seen st' wid = Some (floor_sec now)"
    and others: "\<And>v. v \<noteq> wid \<Longrightarrow> v \<in> set (active_ids st') \<Longrightarrow> seen st' v = seen st v"
    and leases: "\<And>n r. dget (leases st') n = Some r \<Longrightarrow>
        (owned_by wid r \<and> (\<exists>x. expiry r = Some x \<and> x \<le> floor_sec now + sec lease_heartbeat_grace_seconds)) \<or>
        dget (leases st) n = Some r"
  shows "follows now st'"
proof (rule followsI [OF assms(1-4)])
  fix v assume v: "v \<noteq> wid" "v \<in> set (active_ids st')"
  then show "seen st' v = seen st v \<and> v \<in> set (active_ids st)"
    using others active_sub [OF assms(1) v] leases by blast
qed (use leases in blast)

lemma claim_follows:
  assumes "claim_unlocked sr w wid n parallel now = (w', b)" "follows t (world_leases w)" "t \<le> now"
  shows "follows now (world_leases w')"
proof -
  obtain new where eff: "claim_effect sr w wid n parallel now w' b new" using claim_has_effect [OF assms(1)] by blast
  then obtain st2 where st2: "settled wid now st2 (world_leases w')" "workers st2 = workers (swept sr w now)"
      "lease_state_ok (swept sr w now) \<longrightarrow> lease_state_ok st2"
    by (auto simp: claim_effect_def)
  have ok: "lease_state_ok (world_leases w)" using assms(2) by (simp add: follows_def)
  then have ok2: "lease_state_ok st2" using st2(3) swept_ok by blast
  then have ok': "lease_state_ok (world_leases w')" "dict_ok (workers st2)"
    using st2(1) by (auto simp: settled_def lease_state_ok_def)
  have workers: "workers st2 = workers (world_leases w)" using st2(2) by (simp add: swept_def)
  show ?thesis
  proof (rule followsI' [OF ok'(1) assms(3) assms(2)])
    show "seen (world_leases w') wid = Some (floor_sec now)" using st2(1) ok'(2) by (simp add: settled_def)
  next
    fix v assume v: "v \<noteq> wid" "v \<in> set (active_ids (world_leases w'))"
    have "active_ids (world_leases w') = active_ids st2"
      using st2(1) by (intro active_ids_leases) (simp add: settled_def)
    then have "seen (world_leases w') v = seen st2 v" using st2(1) ok'(2) v by (simp add: settled_def)
    then show "seen (world_leases w') v = seen (world_leases w) v" by (simp add: seen_def workers)
  next
    fix m r assume r: "dget (leases (world_leases w')) m = Some r"
    show "(owned_by wid r \<and> (\<exists>x. expiry r = Some x \<and> x \<le> floor_sec now + sec lease_heartbeat_grace_seconds)) \<or>
        dget (leases (world_leases w)) m = Some r"
    proof (cases "m \<in> set new")
      case True
      then show ?thesis using eff r by (auto simp: claim_effect_def new_lease_def)
    next
      case False
      then show ?thesis using eff r ok by (auto simp: claim_effect_def swept_dget)
    qed
  qed
qed

lemma seen_leases_upd [simp]: "seen (st\<lparr>leases := d\<rparr>) v = seen st v"
  by (simp add: seen_def)

lemma beat_follows:
  assumes "heartbeat_world ev w wid status now e q = (w', dropped)" "follows t (world_leases w)" "t \<le> now"
  shows "follows now (world_leases w')"
proof -
  let ?st = "world_leases w" and ?st' = "world_leases w'"
  let ?d = "if status = ''paused'' then leases ?st else dict_walk (heartbeat_lease ev wid status now e q) (leases ?st)"
  have st': "?st' = prune_workers ((touch ?st wid status now None)\<lparr>leases := ?d\<rparr>) now"
    using assms(1) by (auto simp: heartbeat_world_def heartbeat_leases_def world_leases_def Let_def split: if_splits prod.splits)
      (simp_all add: touch_def)?
  have upd: "(touch ?st wid status now None)\<lparr>leases := ?d\<rparr> = touch (?st\<lparr>leases := ?d\<rparr>) wid status now None"
    by (simp add: touch_def)
  have ok: "lease_state_ok ?st" using assms(2) by (simp add: follows_def)
  then have ok2: "lease_state_ok (?st\<lparr>leases := ?d\<rparr>)" by (simp add: lease_state_ok_def)
  have settled: "settled wid now (?st\<lparr>leases := ?d\<rparr>) ?st'" unfolding st' upd by (rule settled_finish)
  have ok': "lease_state_ok ?st'" "dict_ok (workers (?st\<lparr>leases := ?d\<rparr>))"
    using settled ok2 by (auto simp: settled_def lease_state_ok_def)
  have ids: "active_ids ?st' = active_ids (?st\<lparr>leases := ?d\<rparr>)"
    using settled by (intro active_ids_leases) (simp add: settled_def)
  show ?thesis
  proof (rule followsI' [OF ok'(1) assms(3) assms(2)])
    show "seen ?st' wid = Some (floor_sec now)" using settled ok'(2) by (simp add: settled_def)
  next
    fix v assume "v \<noteq> wid" "v \<in> set (active_ids ?st')"
    then have "seen ?st' v = seen (?st\<lparr>leases := ?d\<rparr>) v" using settled ok'(2) by (simp add: settled_def ids)
    then show "seen ?st' v = seen ?st v" by simp
  next
    fix m r assume r: "dget (leases ?st') m = Some r"
    have "dget ?d m = Some r" using r settled by (simp add: settled_def)
    show "(owned_by wid r \<and> (\<exists>x. expiry r = Some x \<and> x \<le> floor_sec now + sec lease_heartbeat_grace_seconds)) \<or>
        dget (leases ?st) m = Some r"
    proof (cases "status = ''paused''")
      case True
      then show ?thesis using \<open>dget ?d m = Some r\<close> by simp
    next
      case False
      then obtain r0 where r0: "dget (leases ?st) m = Some r0" "heartbeat_lease ev wid status now e q m r0 = Some r"
        using \<open>dget ?d m = Some r\<close> ok by (auto simp: dget_walk lease_state_ok_def split: option.splits)
      from r0(2) show ?thesis
      proof (cases rule: heartbeat_lease_cases)
        case same
        then show ?thesis using r0 by simp
      next
        case bumped
        then have "is_dict r0" "owned_by wid r" by auto
        moreover obtain x where "expiry r = Some x" using bumped(2) expiry_bump [OF \<open>is_dict r0\<close>] by simp
        ultimately show ?thesis using bumped(2) bump_within_grace [of r0] by blast
      qed
    qed
  qed
qed

lemma release_follows:
  assumes "release_world w wid names status now = (w', released)" "follows t (world_leases w)" "t \<le> now"
  shows "follows now (world_leases w')"
proof -
  let ?st = "world_leases w" and ?st' = "world_leases w'"
  let ?rel = "fst (release_leases ?st wid names)"
  have st': "?st' = prune_workers (touch ?rel wid status now None) now"
    using assms(1) by (auto simp: release_world_def world_leases_def split: prod.splits)
  have ok: "lease_state_ok ?st" using assms(2) by (simp add: follows_def)
  then have ok2: "lease_state_ok ?rel" by simp
  have settled: "settled wid now ?rel ?st'" unfolding st' by (rule settled_finish)
  have ok': "lease_state_ok ?st'" "dict_ok (workers ?rel)"
    using settled ok2 by (auto simp: settled_def lease_state_ok_def)
  have ids: "active_ids ?st' = active_ids ?rel" using settled by (intro active_ids_leases) (simp add: settled_def)
  have workers: "workers ?rel = workers ?st" by (simp add: release_leases_def Let_def)
  show ?thesis
  proof (rule followsI' [OF ok'(1) assms(3) assms(2)])
    show "seen ?st' wid = Some (floor_sec now)" using settled ok'(2) by (simp add: settled_def)
  next
    fix v assume "v \<noteq> wid" "v \<in> set (active_ids ?st')"
    then have "seen ?st' v = seen ?rel v" using settled ok'(2) by (simp add: settled_def ids)
    then show "seen ?st' v = seen ?st v" by (simp add: seen_def workers)
  next
    fix m r assume "dget (leases ?st') m = Some r"
    then have "dget (leases ?rel) m = Some r" using settled by (simp add: settled_def)
    then show "(owned_by wid r \<and> (\<exists>x. expiry r = Some x \<and> x \<le> floor_sec now + sec lease_heartbeat_grace_seconds)) \<or>
        dget (leases ?st) m = Some r"
      using ok dget_release by blast
  qed
qed

lemma clear_follows:
  assumes "clear_world names w = (w', released)" "follows t (world_leases w)" "t \<le> now"
  shows "follows now (world_leases w')"
proof -
  let ?st = "world_leases w" and ?st' = "fst (clear_leases (world_leases w) names)"
  have ok: "lease_state_ok ?st" "lease_state_ok ?st'" using assms(2) by (simp_all add: follows_def)
  have sub: "dget (leases ?st') n = Some r \<Longrightarrow> dget (leases ?st) n = Some r" for n r
    by (simp add: dget_clear split: if_splits)
  have seen: "seen ?st' v = seen ?st v" for v by (simp add: seen_def clear_leases_def Let_def)
  have ids: "v \<in> set (active_ids ?st') \<Longrightarrow> v \<in> set (active_ids ?st)" for v
    using active_sub [OF ok(2), of v "v @ ''x''" ?st] sub by simp
  have "follows t ?st'"
    using assms(2) ok(2) sub ids unfolding follows_def seen by meson
  moreover have "world_leases w' = ?st' \<or> world_leases w' = ?st"
    using assms(1) by (auto simp: clear_world_def world_leases_def split: prod.splits if_splits)
  ultimately show ?thesis using assms(2,3) follows_later by metis
qed

lemma step_follows: "world_step now w w' \<Longrightarrow> follows t (world_leases w) \<Longrightarrow> t \<le> now \<Longrightarrow> follows now (world_leases w')"
proof (induction rule: world_step.induct)
  case claim
  then show ?case by (rule claim_follows)
next
  case beat
  then show ?case by (rule beat_follows)
next
  case release
  then show ?case by (rule release_follows)
next
  case clear
  then show ?case by (rule clear_follows)
next
  case (other w' w now)
  then show ?case using follows_later by (simp add: world_leases_def)
qed

lemma run_follows: "world_run t w t' w' \<Longrightarrow> follows t (world_leases w) \<Longrightarrow> follows t' (world_leases w') \<and> t \<le> t'"
proof (induction rule: world_run.induct)
  case (step t w t' w' now w'')
  then show ?case using step_follows [OF step.hyps(3)] by auto
qed simp

text \<open>A lease of a worker that has been silent for one grace is swept by the next claim.\<close>

lemma silent_worker_swept:
  assumes "follows t (world_leases w)" "dget (leases (world_leases w)) n = Some r" "owned_by v r"
    and "seen (world_leases w) v = Some s" "s + sec lease_heartbeat_grace_seconds \<le> now"
  shows "dget (leases (swept sr w now)) n = None"
proof -
  obtain u s' x where u: "owned_by u r" "seen (world_leases w) u = Some s'" "expiry r = Some x"
      "x \<le> s' + sec lease_heartbeat_grace_seconds"
    using assms(1,2) unfolding follows_def by blast
  then have "u = v" using owned_unique assms(3) by blast
  then have "x \<le> now" using u assms(4,5) by simp
  then have "expired now r" using u(3) owned_by_dict [OF assms(3)] by (simp add: expired_iff)
  then have "\<not> dget (leases (swept sr w now)) n = Some r'" for r'
    using swept_dget [of w sr now n r'] assms(1,2) by (auto simp: follows_def)
  then show ?thesis by (metis option.exhaust)
qed

end
