(* ===== verification/LeaseProperties.thy ===== *)
theory LeaseProperties
  imports RequalifyRuns
begin

text \<open>
  The properties of the lease table (\<open>trading/leases.py\<close>) and of the requalify lane
  (\<open>trading/requalify.py\<close>) on their own: refill sizing, the hard cap of a started name, what a
  heartbeat may touch, and how often a name is handed out without a result.
\<close>

section \<open>Refill sizing\<close>

text \<open>
  A refill is asked for exactly when the unleased queue is under its trigger, is never more than 64
  names, and restores the trigger unless that bound cuts it.
\<close>

lemma refill_batch_bounds:
  "0 \<le> refill_batch_size eligible cap lanes \<and> refill_batch_size eligible cap lanes \<le> REFILL_BATCH_MAX \<and>
   (refill_batch_size eligible cap lanes = 0 \<longleftrightarrow> refill_trigger cap lanes \<le> eligible) \<and>
   min (refill_trigger cap lanes) (eligible + REFILL_BATCH_MAX) \<le> eligible + refill_batch_size eligible cap lanes"
  by (auto simp: refill_batch_size_def Let_def lease_constants)

section \<open>Heartbeats\<close>

definition sample_lease :: jv where
  "sample_lease = JObj [(''worker_id'', JStr ''w1''), (''claimed_at'', JTime 0), (''started_at'', JTime (sec 10)),
     (''expires_at'', JTime (sec 900))]"

definition sample_table :: lease_state where
  "sample_table = \<lparr>leases = [(''a'', sample_lease)], workers = []\<rparr>"

lemma sample_table_facts:
  "lease_state_ok sample_table" "dget (leases sample_table) ''a'' = Some sample_lease" "is_dict sample_lease"
  "lease_time sample_lease ''started_at'' = Some (sec 10)" "expiry sample_lease = Some (sec 900)"
  by (simp_all add: sample_table_def sample_lease_def lease_state_ok_def lease_time_def)

text \<open>
  A started name cannot be held for ever: no sequence of heartbeats, of any workers and however long,
  moves its start or pushes its expiry past the start plus two evaluation timeouts.
\<close>

lemma started_lease_capped:
  assumes "lease_state_ok st" "dget (leases st) n = Some r" "is_dict r"
    and "lease_time r ''started_at'' = Some t"
    and "\<forall>x. expiry r = Some x \<longrightarrow> x \<le> t + sec (per_name_lease_seconds ev)"
    and "dget (leases (foldl (\<lambda>s (w, st, now, e, q). fst (heartbeat_leases ev s w st now e q)) st hbs)) n = Some r'"
  shows "lease_time r' ''started_at'' = Some t \<and>
    (\<forall>x. expiry r' = Some x \<longrightarrow> x \<le> t + sec (per_name_lease_seconds ev))"
  using discovery.beats_started_bound [OF assms(1-5), of hbs] assms(6) by (simp add: discovery.beats_def)

lemma started_lease_capped_instance:
  "\<exists>x. expiry (bump_lease_expiry Unset sample_lease (sec 500) ''a'' (Some [''a'']) None) = Some x \<and> x \<le> sec 1210"
proof -
  let ?r = "bump_lease_expiry Unset sample_lease (sec 500) ''a'' (Some [''a'']) None"
  have cap: "sec 10 + sec (per_name_lease_seconds Unset) = sec 1210"
    by (simp add: sec_def per_name_lease_seconds_def eval_timeout_seconds_def lease_constants Let_def)
  have one: "dget (leases (foldl (\<lambda>s (w, st, now, e, q). fst (heartbeat_leases Unset s w st now e q)) sample_table
      [(''w1'', ''running'', sec 500, Some [''a''], None)])) ''a'' = Some ?r"
    by (simp add: leases_heartbeat sample_table_def heartbeat_lease_def owned_by_def sample_lease_def
        heartbeat_lease_action_def listed_def)
  have old: "\<forall>x. expiry sample_lease = Some x \<longrightarrow> x \<le> sec 10 + sec (per_name_lease_seconds Unset)"
    using sample_table_facts(5) by (simp add: cap) (simp add: sec_def)
  obtain x where "expiry ?r = Some x" using expiry_bump [OF sample_table_facts(3)] by blast
  then show ?thesis using started_lease_capped [OF sample_table_facts(1-4) old one] by (simp add: cap)
qed

text \<open>
  A heartbeat touches the sender's leases only: in both lanes a lease of another worker is exactly what
  it was, and no heartbeat creates a lease.
\<close>

lemma heartbeat_own_leases_only:
  assumes "lease_state_ok st" "rq_file_ok f" "\<not> owned_by w r"
  shows "(dget (leases st) n = Some r \<longrightarrow>
      dget (leases (fst (heartbeat_leases ev st w status now e q))) n = Some r) \<and>
    (dget (leases st) n = None \<longrightarrow>
      dget (leases (fst (heartbeat_leases ev st w status now e q))) n = None) \<and>
    (rq_lease f n = Some r \<longrightarrow> rq_lease (requalify_beat ev f w status now e q) n = Some r) \<and>
    (rq_lease f n = None \<longrightarrow> rq_lease (requalify_beat ev f w status now e q) n = None)"
proof (intro conjI impI)
  assume "dget (leases st) n = Some r"
  then show "dget (leases (fst (heartbeat_leases ev st w status now e q))) n = Some r"
    using assms(1,3) by (intro discovery.beat_foreign)
next
  assume "dget (leases st) n = None"
  then show "dget (leases (fst (heartbeat_leases ev st w status now e q))) n = None"
    using assms(1) by (intro discovery.beat_no_new)
next
  assume "rq_lease f n = Some r"
  then show "rq_lease (requalify_beat ev f w status now e q) n = Some r"
    using assms(2,3) by (intro requalify.beat_foreign)
next
  assume "rq_lease f n = None"
  then show "rq_lease (requalify_beat ev f w status now e q) n = None"
    using assms(2) by (intro requalify.beat_no_new)
qed

lemma heartbeat_own_leases_only_instance:
  "dget (leases (fst (heartbeat_leases Unset sample_table ''w2'' ''idle'' (sec 5000) (Some []) (Some [])))) ''a'' = Some sample_lease"
proof -
  have "\<not> owned_by ''w2'' sample_lease" by (simp add: owned_by_def sample_lease_def)
  then show ?thesis
    using heartbeat_own_leases_only [OF sample_table_facts(1), of None "''w2''" sample_lease "''a''"] sample_table_facts(2)
    by simp
qed

section \<open>The requalify lane\<close>

text \<open>
  C40. The rows of the requalify file stay well formed along every run of enqueues, claims, heartbeats,
  releases and results: a queued row has attempts left, a leased row has used between one and three, and a
  row is given up only after three.
\<close>

theorem requalify_rows_well_formed:
  assumes "rq_run ev None ls (Some s)" "dget (rq_names s) n = Some m"
  shows "meta_ok m"
  using rq_run_ok [OF assms(1)] rq_okD assms(2) by simp

definition queued_row :: jv where
  "queued_row = queued_meta ''b1'' 5 None"

lemma enqueue_once:
  "enqueue_unlocked 18 ''rules'' requal_empty ''b1'' [JStr ''a''] 5 =
     (requal_empty\<lparr>rq_names := [(''a'', queued_row)], rq_batches := [batch_row ''b1'' 5 1 18 ''rules'']\<rparr>, [''a''])"
  by (simp add: enqueue_unlocked_def requal_empty_def queued_row_def in_batch_def strip_def is_space_def Let_def)

lemma enqueue_run:
  "rq_run ev None [Enqueued [''a'']]
     (Some (requal_empty\<lparr>rq_names := [(''a'', queued_row)], rq_batches := [batch_row ''b1'' 5 1 18 ''rules'']\<rparr>))"
proof (rule rq_run.step [OF rq_step.enqueue rq_run.nil])
  show "enqueue_unlocked 18 ''rules'' (rq_state None) ''b1'' [JStr ''a''] 5 =
      (requal_empty\<lparr>rq_names := [(''a'', queued_row)], rq_batches := [batch_row ''b1'' 5 1 18 ''rules'']\<rparr>, [''a''])"
    using enqueue_once by (simp add: rq_state_def)
qed

theorem requalify_rows_well_formed_witness: "meta_ok queued_row"
  by (rule requalify_rows_well_formed [OF enqueue_run, of "''a''"]) simp

text \<open>
  A name is handed out at most three times without a result: along every run in which nothing resets
  its attempts (a new batch or a dropped lease does), the leases of a name number at most three.
\<close>

lemma at_most_three_leases:
  assumes "rq_run ev f ls f'" "rq_file_ok f" "\<forall>l \<in> set ls. \<not> resets n l"
  shows "sum_list (map (lease_events n) ls) \<le> MAX_ATTEMPTS"
proof -
  have "rq_file_ok f'" using rq_run_ok [OF assms(1,2)] .
  then have "0 \<le> rq_room f' n" by (rule rq_room_nonneg)
  moreover have "rq_room f n \<le> MAX_ATTEMPTS"
  proof (cases "rq_row f n")
    case (Some m)
    then have "meta_ok m" using assms(2) by (auto simp: rq_row_def dest: rq_okD split: option.splits)
    then show ?thesis using Some
      by (auto simp: rq_room_def meta_room_def awaiting_def meta_ok_def MAX_ATTEMPTS_def)
  qed (simp add: rq_room_def MAX_ATTEMPTS_def)
  ultimately show ?thesis using rq_run_room [OF assms] by linarith
qed

definition queued_file :: requal where
  "queued_file = requal_empty\<lparr>rq_names := [(''a'', queued_row)]\<rparr>"

lemma queued_file_lease:
  "lease_requalify ''w'' 1 900 7 (Some queued_file) =
     (Some (queued_file\<lparr>rq_names := [(''a'', lease_meta ''w'' 7 900 queued_row)]\<rparr>), [''a''])"
proof -
  have "has_status ''queued'' queued_row" "\<not> has_status ''leased'' queued_row"
    by (simp_all add: queued_row_def queued_meta_def has_status_def)
  then show ?thesis
    by (simp add: lease_requalify_def queued_file_def requal_empty_def expire_names_def expire_meta_def)
qed

lemma at_most_three_leases_instance:
  "rq_step Unset (Some queued_file) (Leased [''a'']) (fst (lease_requalify ''w'' 1 900 7 (Some queued_file))) \<and>
   sum_list (map (lease_events ''a'') [Leased [''a'']]) \<le> MAX_ATTEMPTS"
proof -
  have step: "rq_step Unset (Some queued_file) (Leased [''a'']) (fst (lease_requalify ''w'' 1 900 7 (Some queued_file)))"
    using rq_step.lease [OF queued_file_lease] queued_file_lease by simp
  have ok: "rq_file_ok (Some queued_file)"
    using queued_meta_ok by (simp add: rq_ok_def queued_file_def requal_empty_def queued_row_def)
  show ?thesis
    using step at_most_three_leases [OF rq_run.step [OF step rq_run.nil] ok, of "''a''"] by simp
qed

text \<open>
  The startup batches are seeded once: running them again, at any restart, changes nothing and seeds
  nothing.
\<close>

lemma startup_batches_once:
  assumes "run_startup_batches n_windows rules bs now f = (f', ids)"
  shows "run_startup_batches n_windows' rules' bs later f' = (f', [])"
proof (rule startup_noop)
  show "fst ` set bs \<subseteq> seeded_ids f'" using startup_seeds [OF assms] by simp
qed

definition one_batch :: "(string \<times> string list) list" where
  "one_batch = [(''b1'', [''a''])]"

lemma startup_batches_once_instance:
  "run_startup_batches 18 ''r2'' one_batch 9 (fst (run_startup_batches 18 ''r1'' one_batch 5 None)) =
     (fst (run_startup_batches 18 ''r1'' one_batch 5 None), [])"
  using startup_batches_once [of 18 "''r1''" one_batch 5 None] by (metis prod.collapse)

end
