(* ===== verification/BookProperties.thy ===== *)
theory BookProperties
  imports FamiliesFacts
begin

text \<open>
  The properties of the paper book (\<open>trading/champions.py\<close>, \<open>trading/retire.py\<close>) and of the champion
  families (\<open>trading/families.py\<close>): no operation that takes a champion off the pool loses its name, the
  one-shot batches run once, and one champion per family is left.
\<close>

section \<open>Sample book\<close>

definition sample_champion :: "string \<Rightarrow> rat \<Rightarrow> jv" where
  "sample_champion n s = JObj [(''name'', JStr n), (''champion_since'', JTime 7),
     (''qual'', JObj [(''gate_rules'', JStr GATE_RULES), (''daily_sharpe'', JFloat (Fin s))])]"

definition sample_book :: book_files where
  "sample_book = \<lparr>bk_pool = Some (JObj [(''champions'',
       JList [sample_champion ''rsi_14_30'' 1, sample_champion ''rsi_15_30'' 2, sample_champion ''dip_6_3pc'' 1])]),
     bk_grads = None, bk_retired = None\<rparr>"

lemma sample_rows:
  "pool_rows (load_pool (bk_pool sample_book)) =
     [sample_champion ''rsi_14_30'' 1, sample_champion ''rsi_15_30'' 2, sample_champion ''dip_6_3pc'' 1]"
  by (simp add: sample_book_def load_pool_def pool_rows_def)

lemma sample_names: "name_text (sample_champion n s) = Some n"
  by (simp add: sample_champion_def name_text_def)

lemma sample_distinct: "distinct (List.map_filter name_text (pool_rows (load_pool (bk_pool sample_book))))"
  by (simp add: sample_rows sample_names map_filter_simps)

section \<open>Retiring\<close>

text \<open>
  Retiring names never takes a name off the book: active, graduated and archived names together are the
  same before and after, and also if the process dies between the archive write and the pool write. Since
  claims, admits and mints skip the whole book, a retired strategy cannot come back by accident.
\<close>

lemma retire_keeps_names:
  "on_book (fst (retire_names names bid reason now requalify bk)) = on_book bk \<and>
   on_book (retire_archived names bid reason now requalify bk) = on_book bk"
  using retire_keeps_book retire_crash_keeps_book by blast

text \<open>
  Every champion or graduate named in a retirement is archived with its whole row, and no longer active.
\<close>

lemma retired_rows_archived:
  assumes "n \<in> set names" "strip n = n" "n \<noteq> []"
    and "r \<in> set (pool_rows (load_pool (bk_pool bk))) \<union> set (load_graduated (bk_grads bk))" "name_text r = Some n"
    and "retire_names names bid reason now requalify bk = (bk', out_c, out_g)"
  shows "(\<exists>role r'. archived bk' n = Some (retire_row role now bid reason requalify n r') \<and>
      name_text r' = Some n \<and> r' \<in> set (pool_rows (load_pool (bk_pool bk))) \<union> set (load_graduated (bk_grads bk))) \<and>
    Some n \<notin> name_text ` set (pool_rows (load_pool (bk_pool bk'))) \<and>
    Some n \<notin> name_text ` set (load_graduated (bk_grads bk'))"
proof -
  have n: "n \<in> strip ` set names" using assms(1,2) by force
  have w: "n \<in> set (filter (\<lambda>n. n \<noteq> []) (map strip names))" using n assms(3) by simp
  have bk': "bk' = fst (retire_names names bid reason now requalify bk)" using assms(6) by simp
  have "is_wanted (filter (\<lambda>n. n \<noteq> []) (map strip names)) row" if "name_text row = Some n" for row
    using w that by (simp add: is_wanted_def)
  then show ?thesis
    using retire_archives [OF n assms(3-5)] unfolding bk' retire_pool_rows retire_grads by fastforce
qed

lemma retired_rows_archived_instance:
  "archived (fst (retire_names [''rsi_14_30''] ''b'' ''why'' 9 [] sample_book)) ''rsi_14_30'' \<noteq> None"
  using retired_rows_archived [of "''rsi_14_30''" "[''rsi_14_30'']" "sample_champion ''rsi_14_30'' 1" sample_book
      "''b''" "''why''" 9 "[]"]
  by (cases "retire_names [''rsi_14_30''] ''b'' ''why'' 9 [] sample_book")
     (auto simp: sample_rows sample_names strip_def is_space_def)

text \<open>
  The automatic retirement of failed requalifications runs once: after it has run it never runs again,
  whatever the requalify results say later, and it keeps every name on the book.
\<close>

lemma auto_retire_runs_once:
  assumes "ensure_auto_retire now requalify bk = (bk', True)"
  shows "ensure_auto_retire later requalify' bk' = (bk', False) \<and> on_book bk' = on_book bk"
  using auto_retire_once [of now requalify bk later requalify'] auto_retire_keeps_book [of now requalify bk] assms
  by simp

definition failed_table :: "jv dict" where
  "failed_table = [(''rsi_14_30'', JObj [(''batch_id'', JStr RETIRE_FROM_REQUALIFY_BATCH), (''status'', JStr ''done''),
     (''result'', JObj [(''qualified'', JBool False)])])]"

lemma auto_retire_runs_once_instance:
  "snd (ensure_auto_retire 9 failed_table sample_book) \<and>
   on_book (fst (ensure_auto_retire 9 failed_table sample_book)) = on_book sample_book"
proof -
  have "RETIRE_AUTO_BATCH \<notin> set (ar_applied (load_retired (bk_retired sample_book)))"
    by (simp add: sample_book_def load_retired_def dict_or_empty_def sub_dict_def strings_of_def map_filter_simps)
  moreover have "requalify_failed_names RETIRE_FROM_REQUALIFY_BATCH failed_table \<noteq> []"
    by (simp add: requalify_failed_names_def failed_table_def map_filter_simps sub_dict_def dict_or_empty_def)
  ultimately have "snd (ensure_auto_retire 9 failed_table sample_book)" by (simp add: ensure_auto_retire_def Let_def)
  then show ?thesis
    using auto_retire_runs_once [of 9 failed_table sample_book]
    by (cases "ensure_auto_retire 9 failed_table sample_book") simp
qed

section \<open>The pool\<close>

text \<open>
  The start date of a champion is written once: whatever rows an operation saves, a name that is stored
  with a start date keeps exactly that date.
\<close>

lemma champion_since_write_once:
  assumes "distinct (List.map_filter book_name (pool_rows (load_pool f)))"
    and "c \<in> set (pool_rows (load_pool f))" "book_name c = Some n" "truthy (jget c ''champion_since'')"
    and "row \<in> set (pool_rows (save_pool st f))" "book_name row = Some n"
  shows "jget row ''champion_since'' = jget c ''champion_since''"
proof -
  obtain v where f: "f = Some v" using assms(2) by (cases f) (auto simp: load_pool_def pool_rows_def)
  have "is_dict v" using assms(2) f by (auto simp: load_pool_def pool_rows_def intro: ccontr)
  then have "dget (stored_rows f) n = Some c"
    using stored_fold_distinct [of "pool_rows v" c n] assms(1-3) f by (simp add: stored_rows_def load_pool_def)
  moreover obtain r where "row = keep_since (stored_rows f) r" using assms(5) by (auto simp: rows_save_pool)
  ultimately show ?thesis using keep_since_value [of r n "stored_rows f" c] assms(4,6) by simp
qed

lemma champion_since_write_once_instance:
  "jget (hd (pool_rows (save_pool (JObj [(''champions'', JList [JObj [(''name'', JStr ''dip_6_3pc''),
      (''champion_since'', JTime 99)]])]) (bk_pool sample_book)))) ''champion_since'' = JTime 7"
proof -
  let ?st = "JObj [(''champions'', JList [JObj [(''name'', JStr ''dip_6_3pc''), (''champion_since'', JTime 99)]])]"
  have rows: "pool_rows (save_pool ?st (bk_pool sample_book)) =
      [keep_since (stored_rows (bk_pool sample_book)) (JObj [(''name'', JStr ''dip_6_3pc''), (''champion_since'', JTime 99)])]"
    by (simp add: rows_save_pool) (simp add: pool_rows_def)
  have d: "distinct (List.map_filter book_name (pool_rows (load_pool (bk_pool sample_book))))"
    using distinct_book_names [OF sample_distinct] .
  have "jget (hd (pool_rows (save_pool ?st (bk_pool sample_book)))) ''champion_since'' =
      jget (sample_champion ''dip_6_3pc'' 1) ''champion_since''"
    by (rule champion_since_write_once [OF d, where n = "''dip_6_3pc''" and st = ?st])
      (simp_all add: sample_rows rows book_name_keep_since, simp_all add: sample_champion_def book_name_def)
  then show ?thesis by (simp add: sample_champion_def)
qed

section \<open>Families\<close>

text \<open>
  C34. The best of every family stays: after the family enforcement, in a pool of distinct names whose accounts hold no open paper
  lot, no two ranked champions left in the pool are near-identical twins; those left keep their order, and every other row of the pool is kept;
  and each ranked champion that left is a twin of one that stayed, ranked before it with a rank key that is not lower, and is
  in the archive as the parked twin of that winner.
\<close>

theorem one_champion_per_family:
  assumes "distinct (List.map_filter name_text (pool_rows (load_pool (bk_pool bk))))"
    and "enforce_champion_families now bid lookup (\<lambda>t. 0) bk = (bk', r)"
    and rows: "rows = champion_dicts bk" and before: "before = ranked_names rows lookup"
    and left: "left = ranked_names (champion_dicts bk') lookup"
  shows "sorted_wrt (\<lambda>a b. \<not> same_family a b) left \<and> left = filter (\<lambda>n. n \<in> set left) before \<and>
    champion_dicts bk' = filter (\<lambda>c. \<forall>t \<in> set before - set left. name_text c \<noteq> Some t) rows \<and>
    (\<forall>t \<in> set before - set left. \<exists>w \<in> set left. same_family w t \<and>
       (\<exists>a b. a \<in> set rows \<and> b \<in> set rows \<and> name_text a = Some w \<and> name_text b = Some t \<and>
          rank_key (family_metrics rows lookup t) b \<le> rank_key (family_metrics rows lookup w) a) \<and>
       (\<exists>xs ys zs. before = xs @ w # ys @ t # zs) \<and> archived bk' t = Some (park_row now bid rows lookup t w))"
proof -
  have "sorted_wrt (\<lambda>a b. \<not> same_family a b) left"
    using enforce_separates [OF assms(1), of "\<lambda>t. 0" now bid lookup] assms(2) by (simp add: left)
  moreover have "left = filter (\<lambda>n. n \<in> set left) before \<and>
      champion_dicts bk' = filter (\<lambda>c. \<forall>t \<in> set before - set left. name_text c \<noteq> Some t) rows"
  proof (cases "distinct_templates rows")
    case True
    then have "bk' = bk" using assms(2) by (simp add: enforce_champion_families_def Let_def split_beta rows)
    then show ?thesis by (simp add: left before rows)
  next
    case False
    let ?ts = "snd (plan_families rows lookup)"
    have l: "left = filter (\<lambda>n. n \<notin> fst ` set ?ts) before"
      using ranked_after [OF assms(1) assms(2)] False by (simp add: left before rows)
    have sub: "fst ` set ?ts \<subseteq> set before" using twins_in [of "[]" before] by (simp add: plan_families_def before)
    then have gone: "set before - set left = fst ` set ?ts" using l by auto
    have "set (case r of None \<Rightarrow> [] | Some (park, deferred) \<Rightarrow> dkeys park) = fst ` set ?ts"
      using enforce_keys [OF assms(2)] False twins_map_keys [of ?ts "[]"] by (auto simp: rows simp del: set_map)
    then have "(\<not> is_wanted (case r of None \<Rightarrow> [] | Some (park, deferred) \<Rightarrow> dkeys park) c) =
        (\<forall>t \<in> set before - set left. name_text c \<noteq> Some t)" for c
      unfolding gone by (auto simp: is_wanted_def split: option.splits)
    then show ?thesis using enforce_pool [OF assms(1,2)] l by (auto simp: rows intro!: filter_cong)
  qed
  moreover have "\<exists>w \<in> set left. same_family w t \<and>
       (\<exists>a b. a \<in> set rows \<and> b \<in> set rows \<and> name_text a = Some w \<and> name_text b = Some t \<and>
          rank_key (family_metrics rows lookup t) b \<le> rank_key (family_metrics rows lookup w) a) \<and>
       (\<exists>xs ys zs. before = xs @ w # ys @ t # zs) \<and> archived bk' t = Some (park_row now bid rows lookup t w)"
    if "t \<in> set before - set left" for t
    using parked_winner [OF assms(1,2), of t] that ranked_order
    unfolding left before rows by blast
  ultimately show ?thesis by blast
qed

text \<open>Of two ranges of an oscillator that differ by one bar, the one of lower Sharpe is parked.\<close>

lemma sample_ranked:
  "ranked_names (champion_dicts sample_book) (\<lambda>n. None) = [''rsi_15_30'', ''dip_6_3pc'', ''rsi_14_30'']"
  "ranked_names (champion_dicts (fst (enforce_champion_families 9 ''b'' (\<lambda>n. None) (\<lambda>t. 0) sample_book))) (\<lambda>n. None) =
     [''rsi_15_30'', ''dip_6_3pc'']"
  by code_simp+

theorem one_champion_per_family_witness:
  "\<exists>w \<in> {''rsi_15_30'', ''dip_6_3pc''}. same_family w ''rsi_14_30'' \<and>
     archived (fst (enforce_champion_families 9 ''b'' (\<lambda>n. None) (\<lambda>t. 0) sample_book)) ''rsi_14_30'' =
       Some (park_row 9 ''b'' (champion_dicts sample_book) (\<lambda>n. None) ''rsi_14_30'' w)"
  using one_champion_per_family [OF sample_distinct prod.collapse [symmetric] refl refl refl, of 9 "''b''" "\<lambda>n. None"]
  unfolding sample_ranked by simp blast

text \<open>
  The family enforcement settles: a second run, at any later time and whatever lots are open then,
  parks nobody and writes nothing.
\<close>

lemma enforcement_settles:
  assumes "distinct (List.map_filter name_text (pool_rows (load_pool (bk_pool bk))))" "lots = (\<lambda>t. 0)"
    and "enforce_champion_families now bid lookup lots bk = (bk', r)"
  shows "enforce_champion_families later bid' lookup lots' bk' = (bk', None)"
  using enforce_twice [of bk "\<lambda>t. 0" later bid' lookup lots' now bid] assms by simp

lemma enforcement_settles_instance:
  "enforce_champion_families 10 ''c'' (\<lambda>n. None) (\<lambda>t. 1)
     (fst (enforce_champion_families 9 ''b'' (\<lambda>n. None) (\<lambda>t. 0) sample_book)) =
   (fst (enforce_champion_families 9 ''b'' (\<lambda>n. None) (\<lambda>t. 0) sample_book), None)"
  by (rule enforcement_settles [OF sample_distinct refl prod.collapse [symmetric]])

text \<open>
  A parked twin stays blocked for the admit as long as the winner it was parked for is not itself
  retired: it may return only when its winner has left the book's active side for good.
\<close>

lemma parked_twin_blocked:
  assumes "archived bk t = Some row" "t \<noteq> []" "has_role ''parked_twin'' row" "jget row ''family_winner'' = JStr w"
    and "dict_ok (ar_retired (load_retired (bk_retired bk)))"
    and "case archived bk w of None \<Rightarrow> True | Some r \<Rightarrow> has_role ''parked_twin'' r"
  shows "t \<in> set (admit_blocked_names (bk_retired bk))"
  using assms by (rule twin_blocked)

definition parked_book :: book_files where
  "parked_book = sample_book\<lparr>bk_retired := Some (save_retired \<lparr>ar_retired =
     [(''rsi_16_30'', JObj [(''role'', JStr ''parked_twin''), (''family_winner'', JStr ''rsi_15_30'')])],
     ar_applied = [], ar_batches = []\<rparr>)\<rparr>"

lemma parked_book_archive:
  "ar_retired (load_retired (bk_retired parked_book)) =
     [(''rsi_16_30'', JObj [(''role'', JStr ''parked_twin''), (''family_winner'', JStr ''rsi_15_30'')])]"
  by (simp add: parked_book_def load_save_retired)

lemma parked_twin_blocked_instance:
  "''rsi_16_30'' \<in> set (admit_blocked_names (bk_retired parked_book))"
  by (rule parked_twin_blocked [where w = "''rsi_15_30''" and
        row = "JObj [(''role'', JStr ''parked_twin''), (''family_winner'', JStr ''rsi_15_30'')]"])
    (simp_all add: parked_book_archive has_role_def)

end
