(* ===== verification/IndexProperties.thy ===== *)
theory IndexProperties
  imports LogFacts
begin

text \<open>
  The properties of the tested-name index (\<open>trading/tested_index.py\<close>) and of the display log
  (\<open>trading/discovery.py\<close>): what a reader of the two files of each store sees after a save, an
  append, a compaction or a crash between two writes, and the fail-once rule over whole runs.
\<close>

section \<open>Sample files\<close>

definition sample_row :: "string \<Rightarrow> int \<Rightarrow> bool \<Rightarrow> jv" where
  "sample_row n t q = JObj [(''strategy'', JStr n), (''tested_at'', JTime t), (''qualified'', JBool q)]"

definition empty_tested :: tested_files where
  "empty_tested = \<lparr>tf_base = None, tf_journal = None\<rparr>"

definition empty_log :: log_files where
  "empty_log = \<lparr>lf_base = None, lf_delta = None\<rparr>"

definition sample_metric :: metric where
  "sample_metric = \<lparr>mt_sharpe = Some (Fin 1), mt_trades = Some 40, mt_ops = False\<rparr>"

lemma empty_tested_ok: "tested_ok empty_tested"
  by (simp add: empty_tested_def tested_ok_def journal_ok_def index_ok_def derived_now_def base_doc_def
      read_journal_lines_def flags_from_document_def metrics_from_document_def apply_lines_def
      map_filter_simps sort_key_def)

lemma sample_index_ok: "index_ok [(''a'', True), (''b'', False)] [(''a'', sample_metric)]"
  by (simp add: index_ok_def metric_ok_def sample_metric_def some_metric_def)

section \<open>The tested-name index\<close>

text \<open>
  C30. Saving an index makes every reader see exactly that index, whether the save rewrites the base
  document, appends only the changed lines to the journal, or writes nothing because nothing changed;
  the files stay well formed.
\<close>

theorem save_index_seen:
  assumes "tested_ok tf" "index_ok index ms"
  shows "tested_ok (save_tested_index g index (Some ms) tf) \<and>
    (\<forall>n. dget (fst (derived_now (save_tested_index g index (Some ms) tf))) n = dget index n) \<and>
    (\<forall>n. dget (snd (derived_now (save_tested_index g index (Some ms) tf))) n = dget ms n)"
  using save_ok [OF assms] save_view [OF assms] by (simp add: view_is_def)

theorem save_index_seen_witness:
  "dget (fst (derived_now (save_tested_index ''g'' [(''a'', True), (''b'', False)]
     (Some [(''a'', sample_metric)]) empty_tested))) ''b'' = Some False"
  using save_index_seen [OF empty_tested_ok sample_index_ok] by simp

text \<open>
  C31. A crash after the new base document is installed and before the old journal is removed loses
  nothing and revives nothing: the journal names another generation, so a reader sees the new index.
\<close>

theorem crash_between_base_and_journal:
  assumes "index_ok index ms" "other_gen g tf"
  shows "(\<forall>n. dget (fst (derived_now (write_base g index ms tf))) n = dget index n) \<and>
    (\<forall>n. dget (snd (derived_now (write_base g index ms tf))) n = dget ms n)"
proof -
  have "fst (split_journal (jn_lines jn)) \<noteq> Some g" if "tf_journal tf = Some jn" for jn
    using assms(2) that by (simp add: other_gen_def)
  then show ?thesis using crash_view [OF assms(1), of tf g] by (simp add: view_is_def)
qed

theorem crash_between_base_and_journal_witness:
  "dget (fst (derived_now (write_base ''g2'' [(''a'', True), (''b'', False)] [(''a'', sample_metric)]
     (empty_tested\<lparr>tf_journal := Some \<lparr>jn_lines = map JLine [header_line (Some ''g1''),
        journal_line ''z'' True None False], jn_partial = None\<rparr>\<rparr>)))) ''z'' = None"
  using crash_between_base_and_journal [OF sample_index_ok, of "''g2''"
      "empty_tested\<lparr>tf_journal := Some \<lparr>jn_lines = map JLine [header_line (Some ''g1''),
        journal_line ''z'' True None False], jn_partial = None\<rparr>\<rparr>"]
  by (simp add: other_gen_def)

section \<open>Fail once\<close>

text \<open>
  C23. Fail once: whatever appends, bulk rewrites, compactions and crashes happen to the log and the index,
  a name that has been tested is never offered again in the leftover batch of a cycle.
\<close>

theorem tested_name_never_again:
  assumes "df_run df ls df'" "tested_ok (df_tested df)" "n \<in> set (tested_name_set (df_tested df))"
  shows "n \<notin> set (fst (select_cycle_batch leftovers rows (df_tested df') k c)) \<and>
    n \<notin> set (snd (select_cycle_batch leftovers rows (df_tested df') k c))"
proof -
  have "n \<in> tested_in (df_tested df')"
    using df_run_names [OF assms(1,2)] assms(3) by (auto simp: tested_name_set_def)
  then have "n \<notin> set (snd (select_cycle_batch leftovers rows (df_tested df') k c))"
    using batch_untested by blast
  then show ?thesis by (auto simp: select_cycle_batch_def Let_def dest: in_set_takeD)
qed

definition sample_files :: disc_files where
  "sample_files = fst (append_batch 10 [sample_row ''a'' 5 False] \<lparr>df_log = empty_log, df_tested = empty_tested\<rparr>)"

lemma sample_files_ok: "tested_ok (df_tested sample_files)" "''a'' \<in> set (tested_name_set (df_tested sample_files))"
  using overlay_rows_names [OF empty_tested_ok, of "[sample_row ''a'' 5 False]"]
  by (simp_all add: sample_files_def append_batch_def tested_name_set_def map_filter_simps sample_row_def row_name_def)

theorem tested_name_never_again_witness:
  "''a'' \<notin> set (fst (select_cycle_batch [''a'', ''b''] [] (df_tested (save_discovery_log ''g'' [] sample_files)) 5 None))"
  using tested_name_never_again [OF df_run.cons [OF df_step.save df_run.nil] sample_files_ok,
      where leftovers = "[''a'', ''b'']"] by blast

section \<open>The display log\<close>

text \<open>
  After an append of new rows, a reader that merges the base array with the delta file sees the rows
  first and then what it saw before, cut at the cap: the list the appending process returns and remembers.
\<close>

lemma appended_rows_read_back:
  assumes "torn (lf_delta (df_log df))" "list_all is_dict recs" "recs \<noteq> []"
    and "distinct (List.map_filter row_key recs)"
    and "row_keys recs \<inter>
      (row_keys (read_json_array (lf_base (df_log df))) \<union> row_keys (read_delta_newest_first (lf_delta (df_log df)))) = {}"
    and "append_batch DISCOVERY_LOG_CAP recs df = (df', rows)"
  shows "read_discovery_log (df_log df') = rows \<and> take (length recs) rows = take DISCOVERY_LOG_CAP recs"
proof -
  have "df_log df' = append_delta recs (df_log df)" "rows = take DISCOVERY_LOG_CAP (recs @ read_discovery_log (df_log df))"
    using assms(6) by (auto simp: append_batch_def)
  moreover have "take (length recs) (take k (recs @ ys)) = take k recs" for k and ys :: "jv list"
    by (cases "k \<le> length recs") simp_all
  ultimately show ?thesis using read_append_log [OF assms(1-5)] by simp
qed

lemma appended_rows_read_back_instance:
  "read_discovery_log (df_log (fst (append_batch DISCOVERY_LOG_CAP [sample_row ''a'' 5 False, sample_row ''b'' 5 True]
      \<lparr>df_log = empty_log, df_tested = empty_tested\<rparr>))) =
     snd (append_batch DISCOVERY_LOG_CAP [sample_row ''a'' 5 False, sample_row ''b'' 5 True]
      \<lparr>df_log = empty_log, df_tested = empty_tested\<rparr>)"
  using appended_rows_read_back [of "\<lparr>df_log = empty_log, df_tested = empty_tested\<rparr>"
      "[sample_row ''a'' 5 False, sample_row ''b'' 5 True]"]
  by (simp add: empty_log_def torn_def sample_row_def row_key_def map_filter_simps row_keys_def
      read_json_array_def read_delta_newest_first_def)

text \<open>
  C36. Compaction of the log is invisible: a reader sees the same rows after it, also when an append
  happened between its two locked sections, in which case it writes nothing.
\<close>

theorem compaction_invisible:
  "read_discovery_log (compact_log seen lf) = read_discovery_log lf"
  by (rule compact_read)

text \<open>
  A crash in the middle of a compaction, after the new array is written and before the delta file is
  removed, is invisible too, provided every delta row carries its name and time stamp and none of them
  was cut by the cap.
\<close>

lemma compaction_crash_invisible:
  assumes "None \<notin> row_key ` set (read_delta_newest_first (lf_delta lf))"
    and "row_keys (read_delta_newest_first (lf_delta lf)) \<subseteq> row_keys (read_discovery_log lf)"
  shows "read_discovery_log (log_base_installed (read_discovery_log lf) lf) = read_discovery_log lf"
  using assms by (rule crash_compact_read)

definition unstamped_log :: log_files where
  "unstamped_log = append_delta [JObj [(''strategy'', JStr ''a'')]] empty_log"

lemma compaction_crash_invisible_instance:
  "read_discovery_log (log_base_installed (read_discovery_log (append_delta [sample_row ''a'' 5 False] empty_log))
      (append_delta [sample_row ''a'' 5 False] empty_log)) =
     read_discovery_log (append_delta [sample_row ''a'' 5 False] empty_log)"
  using compaction_crash_invisible [of "append_delta [sample_row ''a'' 5 False] empty_log"]
  by (simp add: append_delta_def empty_log_def read_delta_newest_first_def line_value_def map_filter_simps
      sample_row_def row_key_def row_keys_def read_discovery_log_def read_json_array_def DISCOVERY_LOG_CAP_def)

text \<open>The hypothesis is needed: a delta row without a time stamp is doubled by such a crash.\<close>

lemma unstamped_row_doubled:
  "length (read_discovery_log (log_base_installed (read_discovery_log unstamped_log) unstamped_log)) = 2"
  "length (read_discovery_log unstamped_log) = 1"
  by (simp_all add: unstamped_log_def append_delta_def empty_log_def read_delta_newest_first_def line_value_def
      map_filter_simps row_key_def row_keys_def read_discovery_log_def read_json_array_def DISCOVERY_LOG_CAP_def
      log_base_installed_def)

text \<open>
  The newest evaluation is a row with the latest readable time stamp; it answers nothing only when no row
  has one.
\<close>

lemma newest_eval_latest:
  "case newest_eval rows of
     None \<Rightarrow> (\<forall>row \<in> set rows. parse_tested_at (jget row ''tested_at'') = None)
   | Some r \<Rightarrow> r \<in> set rows \<and> (\<exists>t. parse_tested_at (jget r ''tested_at'') = Some t \<and>
       (\<forall>row \<in> set rows. \<forall>ts. parse_tested_at (jget row ''tested_at'') = Some ts \<longrightarrow> ts \<le> t))"
proof (cases "newest_from None rows")
  case None
  have "newest_from best rows = None \<longleftrightarrow> best = None \<and> (\<forall>row \<in> set rows. parse_tested_at (jget row ''tested_at'') = None)"
    for best
    by (induction rows arbitrary: best) (auto split: option.splits)
  with None have "\<forall>row \<in> set rows. parse_tested_at (jget row ''tested_at'') = None" by blast
  then show ?thesis by (simp add: newest_eval_def None)
next
  case (Some p)
  obtain t r where p: "p = (t, r)" by fastforce
  let ?P = "\<lambda>(t, r). r \<in> set rows \<and> parse_tested_at (jget r ''tested_at'') = Some t"
  have "?P (t, r) \<and> (\<forall>row \<in> set rows. \<forall>ts. parse_tested_at (jget row ''tested_at'') = Some ts \<longrightarrow> ts \<le> t)"
    using newest_from_max [of None ?P rows t r] Some p by auto
  then show ?thesis using Some p by (simp add: newest_eval_def)
qed

lemma newest_eval_latest_instance:
  "newest_eval [sample_row ''a'' 5 False, sample_row ''b'' 9 True, sample_row ''c'' 9 True] = Some (sample_row ''b'' 9 True)"
  using newest_eval_latest [of "[sample_row ''a'' 5 False, sample_row ''b'' 9 True, sample_row ''c'' 9 True]"]
  by (simp add: newest_eval_def sample_row_def)

end
