(* ===== verification/GateProperties.thy ===== *)
theory GateProperties
  imports Retests Universe MintFacts
begin

text \<open>
  The properties of the gate and of what rewrites its results: the window grid of
  \<open>trading/constants.py\<close>, the relabelling of \<open>trading/rescore_v5.py\<close>, the retest batches, the library
  names of \<open>library/catalog.py\<close>, the farm switch of \<open>trading/farm.py\<close> and the mint gate of \<open>trading/mint_quality.py\<close>.
\<close>

section \<open>The window grid\<close>

text \<open>
  The discovery windows are 87-day segments that tile the tape from the first out-of-sample bar:
  each window ends where the next begins, all of them end before the holdout starts, and no further whole
  window would fit before it.
\<close>

lemma windows_tile:
  "0 < DISCOVERY_N_WINDOWS \<and>
   (\<forall>k \<in> {0 ..< DISCOVERY_N_WINDOWS - 1}. \<exists>a b c.
      qual_segment_bounds k (Some DISCOVERY_N_WINDOWS) = Inr (a, Some b) \<and> b = a + QUAL_SEGMENT_MS \<and>
      qual_segment_bounds (k + 1) (Some DISCOVERY_N_WINDOWS) = Inr (b, c) \<and> b \<le> HOLDOUT_START_MS) \<and>
   (\<exists>a. qual_segment_bounds (DISCOVERY_N_WINDOWS - 1) (Some DISCOVERY_N_WINDOWS) = Inr (a, None) \<and>
      a + QUAL_SEGMENT_MS \<le> HOLDOUT_START_MS \<and> HOLDOUT_START_MS < a + 2 * QUAL_SEGMENT_MS)"
proof -
  have n: "DISCOVERY_N_WINDOWS = 18" by (simp add: grid_defs)
  have k: "0 \<le> k \<Longrightarrow> k < 17 \<Longrightarrow> 1618876800000 + k * 7516800000 + 7516800000 \<le> (1759276800000 :: int)" for k
    by simp
  show ?thesis by (auto simp: n qual_segment_bounds_def Let_def) (simp_all add: grid_defs)
qed

lemma windows_tile_instance:
  "qual_segment_bounds 0 (Some DISCOVERY_N_WINDOWS) \<noteq> qual_segment_bounds 1 (Some DISCOVERY_N_WINDOWS)"
  using windows_tile by (force simp: grid_defs qual_segment_bounds_def)

section \<open>Relabelling\<close>

definition passing_row :: jv where
  "passing_row = JObj
     [(''strategy'', JStr ''rsi_14_30''), (''qualified'', JBool False),
      (''fail_reasons'', JList [JStr ''holdout buy-and-hold daily sharpe missing'']),
      (''gate_rules'', JStr V4_GATE_RULES), (''regimes_tested'', JInt DISCOVERY_N_WINDOWS),
      (''sharpe'', JFloat (Fin (1 / 2))), (''trades'', JInt 40), (''test_pnl'', JFloat (Fin 900)),
      (''sma_stack_oos_pnl'', JFloat (Fin 100)), (''symbols'', JList (map JStr TRADE_SYMBOLS)),
      (''gate_v4'', JObj
        [(''holdout'', JObj [(''sharpe'', JFloat (Fin 1)), (''trades'', JInt 9), (''pnl'', JFloat (Fin 5)),
            (''sma_pnl'', JFloat (Fin 2))]),
         (''dsr'', JFloat (Fin (97 / 100))), (''n_trials'', JInt 12), (''pbo'', JFloat (Fin (1 / 10))),
         (''neighbours'', JInt 10), (''neighbours_pass'', JInt 8), (''cost_sharpe'', JFloat (Fin (2 / 5)))])]"

lemma scaled_exists: "c \<noteq> 0 \<Longrightarrow> \<exists>y :: rat. y * c = x"
  by (intro exI [of _ "x / c"]) simp

lemma passing_row_relabel: "classify_row passing_row = Relabel"
  by (simp add: passing_row_def classify_row_def fail_reasons_of_def is_bh_decision_reason_def bh_sentence_def
      stored_v4_problem_def v4_inputs_stored_def v4_checks_pass_def Let_def missing_def fnum_def wnum_def at_least_def
      at_least_int_def beats_def neighbours_ok_def gate_constants strip_def is_space_def scaled_exists)

text \<open>
  C33. A row the relabelling accepts really passes the current gate: it can be stamped, the stamped row is
  admitted by the stored-record gate, carries the full attestation under the current rule tag, and is not
  relabelled a second time.
\<close>

theorem relabelled_row_passes_gate:
  assumes "classify_row row = Relabel"
  shows "\<exists>r d. stamp_row now row = Inr r \<and> qualification_from_record DISCOVERY_N_WINDOWS r = Inr d \<and>
    dec_passed d \<and> v4_attestation_ok r \<and> classify_row r = AlreadyRescored"
proof -
  obtain r where r: "stamp_row now row = Inr r" using stamp_total [OF assms] by blast
  have "is_dict row" using relabel_checks [OF assms] by blast
  then show ?thesis
    using r stamped_passes_gate [OF assms r] stamped_attested [OF assms r] stamped_rescored [OF r] by blast
qed

theorem relabelled_row_passes_gate_witness:
  "\<exists>r. stamp_row ''t'' passing_row = Inr r \<and> v4_attestation_ok r"
  using relabelled_row_passes_gate [OF passing_row_relabel, of "''t''"] by blast

lemma stamp_log_nothing: "stamp_log now [] seen rows = Inr rows"
  by (induction rows arbitrary: seen) (auto split: option.splits)

text \<open>
  Relabelling is complete and idempotent: after one application no stored row is left to relabel,
  and a second application, at any later time, writes nothing.
\<close>

lemma rescore_idempotent:
  assumes "results_keyed results" "rescore_apply now rows results = Inr (rows', changed)"
  shows "status_names Relabel (latest rows' results) = [] \<and> rescore_apply later rows' results = Inr (rows', False)"
  using rescore_leaves_none [OF assms] by (simp add: rescore_apply_def stamp_log_nothing)

lemma rescore_idempotent_instance:
  "\<exists>rows'. rescore_apply ''t1'' [passing_row] [] = Inr (rows', True) \<and>
     rescore_apply ''t2'' rows' [] = Inr (rows', False)"
proof -
  obtain r where r: "stamp_row ''t1'' passing_row = Inr r" using stamp_total [OF passing_row_relabel] by blast
  have name: "row_name passing_row = Some ''rsi_14_30''" by (simp add: passing_row_def row_name_def)
  have rel: "status_names Relabel (latest [passing_row] []) = [''rsi_14_30'']"
    by (simp add: latest_def name status_names_def passing_row_relabel)
  have ap: "rescore_apply ''t1'' [passing_row] [] = Inr ([r], True)"
    unfolding rescore_apply_def Let_def rel by (simp add: name r)
  have keyed: "results_keyed []" by (simp add: results_keyed_def)
  show ?thesis using ap rescore_idempotent [OF keyed ap] by blast
qed

section \<open>Retest batches\<close>

lemma pending_names_sub: "n \<in> set (pending_retest_names f) \<Longrightarrow> batch_is_pending BH_BATCH_ID f n"
  by (simp add: pending_retest_names_def pending_names_iff)

text \<open>
  C38. Fail-once is lifted for exactly one result: completing a retest takes the name off the pending list
  and leaves the others on it, so once every pending name of a batch has a stored result none is left.
\<close>

theorem retest_batch_drains:
  "batch_is_pending BH_BATCH_ID (fst (complete_retest n t f)) m = (batch_is_pending BH_BATCH_ID f m \<and> m \<noteq> n) \<and>
   ((\<forall>m. batch_is_pending BH_BATCH_ID f m \<longrightarrow> m \<in> set ns) \<longrightarrow>
      pending_retest_names (fold (\<lambda>n f. fst (complete_retest n t f)) ns f) = [])"
proof (intro conjI impI)
  show "batch_is_pending BH_BATCH_ID (fst (complete_retest n t f)) m = (batch_is_pending BH_BATCH_ID f m \<and> m \<noteq> n)"
    by (simp add: complete_retest_def complete_pending)
next
  assume "\<forall>m. batch_is_pending BH_BATCH_ID f m \<longrightarrow> m \<in> set ns"
  then have "\<not> batch_is_pending BH_BATCH_ID (bh_queue.stores t ns f) m" for m by (rule bh_queue.drained)
  then have "m \<notin> set (pending_retest_names (fold (\<lambda>n f. fst (complete_retest n t f)) ns f))" for m
    using pending_names_sub by (auto simp: bh_queue.stores_def)
  then show "pending_retest_names (fold (\<lambda>n f. fst (complete_retest n t f)) ns f) = []"
    by (meson list.set_sel(1))
qed

definition sample_batch :: jv where
  "sample_batch = JObj [(''batch_id'', JStr BH_BATCH_ID), (''order'', JList [JStr ''a'', JStr ''b'']),
     (''entries'', JObj [(''a'', JObj [(''status'', JStr ''pending'')]), (''b'', JObj [(''status'', JStr ''pending'')])])]"

theorem retest_batch_drains_witness:
  "pending_retest_names (Some sample_batch) = [''a'', ''b''] \<and>
   pending_retest_names (fold (\<lambda>n f. fst (complete_retest n JNull f)) [''a'', ''b''] (Some sample_batch)) = []"
proof -
  have "batch_is_pending BH_BATCH_ID (Some sample_batch) m \<longrightarrow> m \<in> set [''a'', ''b'']" for m
    by (auto simp: batch_is_pending_def load_batch_def sample_batch_def batch_entry_def entry_status_def
        sub_dict_def dict_or_empty_def split: option.splits if_splits)
  moreover have "pending_retest_names (Some sample_batch) = [''a'', ''b'']"
    by (simp add: pending_retest_names_def batch_pending_def load_batch_def sample_batch_def batch_order_def
        batch_entry_def entry_status_def strings_of_def map_filter_simps sub_dict_def dict_or_empty_def)
  ultimately show ?thesis
    using retest_batch_drains [where f = "Some sample_batch" and ns = "[''a'', ''b'']" and t = JNull] by blast
qed

section \<open>Library names\<close>

text \<open>
  C39. A library variant name reads back as the strategy and the parameters it was made from, for every
  point of the declared grid: the claim, the worker and the ingest mean the same strategy by one name.
\<close>

theorem variant_name_round_trip:
  assumes "library_ok lib" "s \<in> set lib" "params \<in> set (grid_params s)" "variant_name s params = Inr n"
  shows "parse_variant lib n = Inr (s, params) \<and> is_library_name n"
proof -
  have "\<forall>p \<in> set (ls_params s). param_ok p" using assms(1,2) by (simp add: library_ok_def)
  then have "point_of s params" using assms(3) by (rule grid_point)
  then have "parse_variant lib n = Inr (s, params)" using parse_variant_name [OF assms(1,2) _ assms(4)] by blast
  then show ?thesis by (auto simp: parse_variant_def split: if_splits)
qed

definition sample_strategy :: lib_strategy where
  "sample_strategy = \<lparr>ls_key = ''sma'', ls_title = ''SMA'', ls_params = [\<lparr>lp_name = ''n'', lp_center = 200, lp_neighbours = [150, 250]\<rparr>,
     \<lparr>lp_name = ''k'', lp_center = 2, lp_neighbours = [1, 3]\<rparr>], ls_stop = 1 / 5\<rparr>"

theorem variant_name_round_trip_witness:
  "parse_variant [sample_strategy] ''lib.sma.150_2'' = Inr (sample_strategy, [(''n'', 150), (''k'', 2)])"
proof -
  have "library_ok [sample_strategy]"
    by (simp add: library_ok_def sample_strategy_def param_ok_def)
  moreover have "[(''n'', 150), (''k'', 2)] \<in> set (grid_params sample_strategy)"
    by (simp add: grid_params_def center_def sample_strategy_def)
  moreover have "variant_name sample_strategy [(''n'', 150), (''k'', 2)] = Inr ''lib.sma.150_2''"
    by code_simp
  ultimately show ?thesis using variant_name_round_trip by simp
qed

text \<open>The check of the canonical spelling is skipped when nothing follows the dot: a second name of the centre.\<close>

lemma trailing_dot_accepted:
  "parse_variant [sample_strategy] ''lib.sma.'' = parse_variant [sample_strategy] ''lib.sma''"
  by (simp add: parse_variant_def is_library_name_def is_prefix_def NAME_PREFIX_def strategy_by_key_def
      sample_strategy_def)

section \<open>The farm switch\<close>

text \<open>
  The farm file keeps its switch: what an operator sets is read back whatever heartbeats follow, and a
  heartbeat is read back as the last status and time.
\<close>

lemma farm_switch_survives_heartbeats:
  "fm_enabled (read_farm (Some (fold (\<lambda>(st, t) f. apply_heartbeat st t (Some f)) hbs (set_farm_enabled b now f)))) = b \<and>
   fm_heartbeat_at (read_farm (Some (apply_heartbeat st t f))) = iso t \<and>
   fm_updated_at (read_farm (Some (set_farm_enabled b now f))) = iso now"
proof -
  have "fm_enabled (read_farm (Some (apply_heartbeat st t f))) = fm_enabled (read_farm f)" for st t f
    by (simp add: apply_heartbeat_def read_write_farm Let_def split: option.splits)
  then have "fm_enabled (read_farm (Some (fold (\<lambda>(st, t) f. apply_heartbeat st t (Some f)) hbs g))) =
      fm_enabled (read_farm (Some g))" for g
    by (induction hbs arbitrary: g) (auto simp: split_beta)
  then show ?thesis by (simp add: set_farm_enabled_def apply_heartbeat_def read_write_farm Let_def split: option.splits)
qed

text \<open>
  The properties of the mint gate (\<open>trading/mint_quality.py\<close>) and of the leftover filter of
  \<open>trading/universe.py\<close>: which stacks of bounds are accepted, and which names are offered.
\<close>

section \<open>Bounds of one indicator\<close>

text \<open>
  The bound rule of the mint means what it says: a group of supported thresholds on one indicator
  passes exactly when some value satisfies all of them and none of them is implied by the others.
\<close>

lemma bound_rule_exact:
  assumes "grp \<noteq> []" "list_all at_supported grp"
  shows "group_bound_reason grp = None \<longleftrightarrow>
    (\<exists>x. allows grp x) \<and>
    (length grp = 1 \<or> (\<forall>i < length grp. \<exists>y. allows (drop_nth i grp) y \<and> \<not> allows [grp ! i] y))"
  using assms by (rule group_reason_none_iff)

lemma bound_rule_exact_instance:
  "\<exists>x. allows (parsed_atoms [''rsi_14_>30'', ''rsi_14_<60'']) x"
proof -
  have "group_bound_reason (parsed_atoms [''rsi_14_>30'', ''rsi_14_<60'']) = None" by code_simp
  moreover have "parsed_atoms [''rsi_14_>30'', ''rsi_14_<60''] \<noteq> []" by code_simp
  moreover have "list_all at_supported (parsed_atoms [''rsi_14_>30'', ''rsi_14_<60''])" by code_simp
  ultimately show ?thesis using bound_rule_exact by blast
qed

section \<open>Leftovers\<close>

text \<open>
  Every leftover name comes from the universe, is not blocked, passes every mint rule, and neither it nor
  a near-duplicate of it is blocked; no two leftovers are near-duplicates of each other.
\<close>

lemma leftovers_are_new:
  "(\<forall>n \<in> set (untested_candidates tape blocked names).
      n \<in> set names \<and> n \<notin> set blocked \<and> mint_block_reason tape n [] = None \<and>
      near_duplicate_key n \<notin> near_duplicate_key ` set blocked) \<and>
   distinct (map near_duplicate_key (untested_candidates tape blocked names))"
  using untested_candidates_facts [of _ tape blocked names] untested_from_distinct
  by (auto simp: untested_candidates_def)

lemma leftovers_are_new_instance:
  "near_duplicate_key ''rsi_14_<40'' = near_duplicate_key ''rsi_15_<40'' \<and>
   ''rsi_15_<40'' \<notin> set (untested_candidates (\<lambda>n. None) [''rsi_14_<40''] [''rsi_15_<40'', ''rsi_40_<40''])"
proof -
  have "near_duplicate_key ''rsi_14_<40'' = near_duplicate_key ''rsi_15_<40''" by code_simp
  then show ?thesis
    using leftovers_are_new [of "\<lambda>n. None" "[''rsi_14_<40'']" "[''rsi_15_<40'', ''rsi_40_<40'']"] by auto
qed

section \<open>Canonical names\<close>

text \<open>
  The canonical name depends on the order of the atoms when one bound is spelled in two ways: the first
  spelling of a group is kept.
\<close>

lemma canonical_name_order:
  "canonical_name ''rsi_14_50&rsi_14_>50'' \<noteq> canonical_name ''rsi_14_>50&rsi_14_50''"
  by code_simp

end
