(* ===== verification/Seats.thy ===== *)
theory Seats
  imports FamiliesFacts
begin

text \<open>
  Seating a passing evaluation: the champion row (\<open>_admit_qualified\<close> in \<open>trading/ingest.py\<close>) with
  the forward-test criteria frozen on it (\<open>trading/forward_test.py\<close>), and the automatic seat of
  library passes (\<open>trading/approved_admit.py\<close>). The evaluation itself is an argument. Clock values
  are instants; a \<open>dict()\<close> of a JSON list is an error here, and the code's writers never pass one.
\<close>

section \<open>The frozen forward-test criteria\<close>

definition FORWARD_MIN_DAYS :: int where "FORWARD_MIN_DAYS = 90"
definition FORWARD_MIN_CLOSED_TRADES :: int where "FORWARD_MIN_CLOSED_TRADES = 20"
definition FORWARD_MAX_DD_MULTIPLE :: rat where "FORWARD_MAX_DD_MULTIPLE = 15 / 10"
definition FORWARD_SHARPE_FLOOR :: rat where "FORWARD_SHARPE_FLOOR = 0"

definition finite_or_none :: "jv \<Rightarrow> rat option" where
  "finite_or_none v = (case py_float v of Inr (Fin x) \<Rightarrow> Some x | _ \<Rightarrow> None)"

definition rat_json :: "rat option \<Rightarrow> jv" where
  "rat_json x = (case x of None \<Rightarrow> JNull | Some r \<Rightarrow> JFloat (Fin r))"

definition registration_for :: "jv \<Rightarrow> jv \<Rightarrow> jv" where
  "registration_for rec admitted_at =
     (let dd = jget rec ''backtest_max_dd'';
          dd = (if dd = JNull then jget (jget rec ''gate_v4'') ''backtest_max_dd'' else dd)
      in JObj [(''rule'', JStr GATE_RULES), (''registered_at'', admitted_at),
           (''min_days'', JInt FORWARD_MIN_DAYS), (''min_closed_trades'', JInt FORWARD_MIN_CLOSED_TRADES),
           (''live_sharpe_floor'', JFloat (Fin FORWARD_SHARPE_FLOOR)),
           (''max_dd_multiple'', JFloat (Fin FORWARD_MAX_DD_MULTIPLE)),
           (''backtest_max_dd'', rat_json (finite_or_none dd)), (''action'', JStr ''flag_only'')])"

section \<open>The champion row\<close>

definition QUAL_TIMEFRAME :: string where "QUAL_TIMEFRAME = ''5m''"
definition RISK_POLICY :: string where "RISK_POLICY = ''rm_v1''"

definition GATE_V4_KEYS :: "string list" where
  "GATE_V4_KEYS =
    [''passed'', ''rules'', ''dsr'', ''pbo'', ''n_trials'', ''neighbours'', ''neighbours_pass'',
     ''cross_asset_sharpe'', ''cross_asset_pass'', ''cross_asset_note'', ''backtest_max_dd'', ''cost_sharpe'',
     ''cost_daily_sharpe'']"

definition LIBRARY_KEYS :: "string list" where
  "LIBRARY_KEYS = [''key'', ''title'', ''params'', ''citation'', ''safety_stop_pct'']"

text \<open>\<open>{k: d.get(k) for k in ks}\<close>: a missing key is stored as null.\<close>

definition all_keys :: "string list \<Rightarrow> jv \<Rightarrow> jv" where
  "all_keys ks v = JObj (map (\<lambda>k. (k, jget v k)) ks)"

definition base_fields :: "jv \<Rightarrow> string \<Rightarrow> jv \<Rightarrow> jv" where
  "base_fields rec name t0 =
     JObj [(''name'', JStr name), (''closed'', JInt 0), (''pnl'', JFloat (Fin 0)), (''wins'', JInt 0),
       (''sharpe_qual'', jget rec ''sharpe''), (''winrate_qual'', jget rec ''win_rate_pct''),
       (''admitted_at'', t0), (''champion_since'', t0), (''source'', JStr ''5m_qualification_filter''),
       (''timeframe'', JStr QUAL_TIMEFRAME), (''risk_policy'', JStr RISK_POLICY)]"

definition library_fields :: "jv \<Rightarrow> jv \<Rightarrow> jv" where
  "library_fields rec row =
     (if is_dict (jget rec ''library'')
      then jset ''library'' (all_keys LIBRARY_KEYS (jget rec ''library''))
        (jset ''engine'' (jget rec ''engine'')
          (jset ''risk_policy'' (jget rec ''risk_policy'')
            (jset ''timeframe'' (jget rec ''timeframe'')
              (jset ''source'' (JStr ''library_qualification'') row))))
      else row)"

definition qual_field :: "jv \<Rightarrow> jv \<Rightarrow> jv" where
  "qual_field rec row = (case qual_metrics rec of None \<Rightarrow> row | Some q \<Rightarrow> jset ''qual'' q row)"

definition gate_field :: "jv \<Rightarrow> jv \<Rightarrow> jv" where
  "gate_field rec row =
     (if is_dict (jget rec ''gate_v4'') then jset ''gate_v4'' (all_keys GATE_V4_KEYS (jget rec ''gate_v4'')) row
      else row)"

definition champion_row :: "int \<Rightarrow> jv \<Rightarrow> string \<Rightarrow> jv" where
  "champion_row now rec name =
     (let t0 = (if truthy (jget rec ''tested_at'') then jget rec ''tested_at'' else JTime now)
      in gate_field rec (jset ''forward_test'' (registration_for rec t0)
           (qual_field rec (library_fields rec (base_fields rec name t0)))))"

definition append_champion :: "jv \<Rightarrow> jv \<Rightarrow> jv" where
  "append_champion row st = jset ''champions'' (JList (pool_rows st @ [row])) st"

text \<open>
  \<open>_admit_qualified\<close>: the pool in memory, the names that block a seat, and whether a row was added.
\<close>

definition admit_qualified :: "int \<Rightarrow> jv \<Rightarrow> string \<Rightarrow> jv \<times> string list \<Rightarrow> (jv \<times> string list) \<times> bool" where
  "admit_qualified now rec name s =
     (if name \<in> set (snd s) then (s, False)
      else ((append_champion (champion_row now rec name) (fst s), name # snd s), True))"

section \<open>Library passes\<close>

definition verdict_qualified :: "jv \<Rightarrow> string \<Rightarrow> bool" where
  "verdict_qualified rec name \<longleftrightarrow>
     is_dict rec \<and> jget rec ''strategy'' = JStr name \<and> jget rec ''qualified'' = JBool True \<and>
     jget rec ''gate_rules'' = JStr GATE_RULES \<and> is_dict (jget rec ''gate_v4'') \<and>
     jget (jget rec ''gate_v4'') ''passed'' = JBool True \<and>
     jget (jget rec ''gate_v4'') ''rules'' = JStr GATE_RULES"

text \<open>\<open>library_pass_record\<close>, with the name it is a pass of\<close>

definition library_pass :: "lib_strategy list \<Rightarrow> jv \<Rightarrow> string option" where
  "library_pass lib rec =
     (case as_str (jget rec ''strategy'') of
        None \<Rightarrow> None
      | Some name \<Rightarrow>
          if is_library_name name \<and> name \<in> set (claim_names lib) \<and> verdict_qualified rec name
          then Some name else None)"

text \<open>\<open>stored == center\<close>: an int, a float and a bool of one value are equal there.\<close>

definition equals_int :: "int \<Rightarrow> jv \<Rightarrow> bool" where
  "equals_int i v \<longleftrightarrow>
     (case v of JInt k \<Rightarrow> k = i | JFloat (Fin x) \<Rightarrow> x = of_int i | JBool b \<Rightarrow> (if b then 1 else 0) = i | _ \<Rightarrow> False)"

definition equals_params :: "int dict \<Rightarrow> jv \<Rightarrow> bool" where
  "equals_params c v \<longleftrightarrow>
     is_dict v \<and> length (as_dict v) = length c \<and> list_all (\<lambda>(k, i). jhas v k \<and> equals_int i (jget v k)) c"

definition params_json :: "int dict \<Rightarrow> jv" where
  "params_json c = JObj (map (\<lambda>(k, i). (k, JInt i)) c)"

definition jdefault :: "string \<Rightarrow> jv \<Rightarrow> jv \<Rightarrow> jv" where
  "jdefault k x v = (if jhas v k then v else jset k x v)"

definition with_center_params :: "lib_strategy list \<Rightarrow> jv \<Rightarrow> jv result" where
  "with_center_params lib rec =
     (case as_str (jget rec ''strategy'') of
        None \<Rightarrow> Inl (ValueError ''not a library name'')
      | Some name \<Rightarrow>
          bind_result (parse_variant lib name) (\<lambda>(s, c).
            let v = jget rec ''library'' in
            if truthy v \<and> \<not> is_dict v then Inl (TypeError ''library is not a dict'')
            else
              let b = dict_or_empty v;
                  b = jset ''params'' (if equals_params c (jget b ''params'') then jget b ''params''
                                       else params_json c) b;
                  b = jset ''key'' (JStr (ls_key s)) b;
                  b = jdefault ''title'' (JStr (ls_title s)) b;
                  b = jdefault ''safety_stop_pct''
                        (if ls_stop s \<noteq> 0 then JFloat (Fin (round_to 2 (ls_stop s * 100))) else JNull) b
              in Inr (jset ''library'' b rec)))"

definition warning_lines :: "jv \<Rightarrow> jv" where
  "warning_lines rec = JList (filter is_str (as_list (jget rec ''warnings'')))"

text \<open>\<open>record.get("gate_rules") or GATE_RULES\<close> is the first: the caller has tested it.\<close>

definition LIBRARY_AUTO_ADMIT :: string where "LIBRARY_AUTO_ADMIT = ''library_auto_admit''"
definition LIBRARY_AUTO_ADMIT_AT :: int where "LIBRARY_AUTO_ADMIT_AT = sec 1793549100"

definition label_auto_library :: "jv \<Rightarrow> jv \<Rightarrow> jv \<Rightarrow> jv" where
  "label_auto_library rec stamp row =
     (let row = jset ''qualified'' (JBool True) row;
          row = jset ''warnings'' (warning_lines rec) row;
          row = jset ''auto_admitted_at'' stamp row;
          row = jset ''admitted_at'' stamp row;
          row = jset ''champion_since'' stamp row;
          params = jget (jget row ''library'') ''params''
      in jset ''provenance''
           (JObj [(''admit'', JStr LIBRARY_AUTO_ADMIT), (''admitted_at'', stamp),
              (''gate_rules'', if truthy (jget rec ''gate_rules'') then jget rec ''gate_rules'' else JStr GATE_RULES),
              (''approved_by'', JStr ''Alexander''), (''approved_at'', JTime LIBRARY_AUTO_ADMIT_AT),
              (''note'', JStr ''automatic paper forward-test; gate v7b pass''),
              (''params'', dict_or_empty params), (''warnings'', warning_lines rec)]) row)"

definition label_last :: "(jv \<Rightarrow> jv) \<Rightarrow> jv \<Rightarrow> jv" where
  "label_last f st =
     (let rows = pool_rows st in jset ''champions'' (JList (butlast rows @ [f (last rows)])) st)"

section \<open>The automatic seat\<close>

text \<open>
  \<open>_release_retired_unlocked\<close> rewrites the archive file at once; the pool \<open>se_st\<close> is in memory and the
  caller saves it.
\<close>

definition release_retired :: "string \<Rightarrow> jv option \<Rightarrow> jv option" where
  "release_retired name f =
     (let state = load_retired f in
      if dget (ar_retired state) name = None then f
      else Some (save_retired (state\<lparr>ar_retired := ddel name (ar_retired state)\<rparr>)))"

record seating =
  se_st :: jv
  se_existing :: "string list"
  se_pooled :: "string list"
  se_retired :: "string list"
  se_archive :: "jv option"
  se_admitted :: "string list"

definition seat_one ::
    "lib_strategy list \<Rightarrow> int \<Rightarrow> string list \<Rightarrow> string list \<Rightarrow> jv \<Rightarrow> seating \<Rightarrow> seating result" where
  "seat_one lib now graduated reevaluated raw s =
     (case library_pass lib raw of
        None \<Rightarrow> Inr s
      | Some name \<Rightarrow>
          if name \<in> set (se_pooled s) \<or> name \<in> set graduated then Inr s
          else if name \<in> set (se_retired s) \<and> name \<notin> set reevaluated then Inr s
          else bind_result (with_center_params lib raw) (\<lambda>rec.
            let was = name \<in> set (se_retired s);
                existing = (if was then filter (\<lambda>n. n \<noteq> name) (se_existing s) else se_existing s);
                ((st, existing), ok) = admit_qualified now rec name (se_st s, existing)
            in if \<not> ok then Inr (s\<lparr>se_existing := existing\<rparr>)
               else Inr \<lparr>se_st = label_last (label_auto_library rec (JTime now)) st, se_existing = existing,
                 se_pooled = name # se_pooled s,
                 se_retired = filter (\<lambda>n. n \<noteq> name) (se_retired s),
                 se_archive = (if was then release_retired name (se_archive s) else se_archive s),
                 se_admitted = se_admitted s @ [name]\<rparr>))"

text \<open>An error stops the loop; what was released by then stays released.\<close>

fun seat_all ::
    "lib_strategy list \<Rightarrow> int \<Rightarrow> string list \<Rightarrow> string list \<Rightarrow> jv list \<Rightarrow> seating \<Rightarrow> seating \<times> error option" where
  "seat_all lib now graduated reevaluated [] s = (s, None)"
| "seat_all lib now graduated reevaluated (raw # raws) s =
     (case seat_one lib now graduated reevaluated raw s of
        Inl e \<Rightarrow> (s, Some e)
      | Inr s' \<Rightarrow> seat_all lib now graduated reevaluated raws s')"

definition seating_start :: "jv \<Rightarrow> string list \<Rightarrow> jv option \<Rightarrow> seating" where
  "seating_start st existing archive =
     \<lparr>se_st = st, se_existing = existing,
      se_pooled = List.map_filter name_text (filter is_dict (pool_rows st)),
      se_retired = retired_names archive, se_archive = archive, se_admitted = []\<rparr>"

definition graduated_names :: "jv option \<Rightarrow> string list" where
  "graduated_names f = List.map_filter name_text (filter is_dict (load_graduated f))"

definition seat_library_passes ::
    "lib_strategy list \<Rightarrow> int \<Rightarrow> string list \<Rightarrow> jv list \<Rightarrow> jv \<Rightarrow> string list \<Rightarrow> book_files \<Rightarrow>
     seating \<times> error option" where
  "seat_library_passes lib now reevaluated recs st existing bk =
     seat_all lib now (graduated_names (bk_grads bk)) reevaluated recs
       (seating_start st existing (bk_retired bk))"

end
