(* ===== verification/Ingest.thy ===== *)
theory Ingest
  imports Seats Claim
begin

text \<open>
  The result ingest of a worker (\<open>trading/ingest.py\<close>): validation of the posted rows, the choice
  between a new row, a retest, a requalify record and a skip, the appends under their own locks,
  and the last locked section that flips parked rows, seats library passes, applies the explicit
  admits and clears leases. The three parts run under three separate locks, so each is an
  operation of its own and \<open>ingest\<close> is their composition without interference.
\<close>

section \<open>Surroundings and state\<close>

text \<open>
  \<open>en_repr\<close> prints a float, list, dict or timestamp, \<open>en_metrics\<close> and \<open>en_lots\<close> are the metric lookup and the
  open lots of the family rule. \<open>si_scanned\<close> is the flag of the process that a parked scan ran.
\<close>

record ingest_env =
  en_sr :: surroundings
  en_timeout :: env_value
  en_windows :: int
  en_repr :: "jv \<Rightarrow> string"
  en_metrics :: "string \<Rightarrow> jv option"
  en_lots :: "string \<Rightarrow> nat"
  en_batch :: string

record site =
  si_world :: world
  si_results :: "jv option"
  si_flight :: "jv option"
  si_scanned :: bool

text \<open>\<open>str(v)\<close>\<close>

definition text_of :: "ingest_env \<Rightarrow> jv \<Rightarrow> string" where
  "text_of en v =
     (case v of JStr s \<Rightarrow> s | JNull \<Rightarrow> ''None'' | JBool b \<Rightarrow> (if b then ''True'' else ''False'')
      | JInt i \<Rightarrow> show_int i | _ \<Rightarrow> en_repr en v)"

section \<open>Validation\<close>

definition LIB_TIMEFRAME :: string where "LIB_TIMEFRAME = ''1d''"
definition LIB_RISK_POLICY :: string where "LIB_RISK_POLICY = ''signal_exit_all_in''"
definition ENGINE_ID :: string where "ENGINE_ID = ''signal_exit''"

definition LIBRARY_ATTESTATION_KEYS :: "string list" where
  "LIBRARY_ATTESTATION_KEYS = [''oos_pnl_pass'', ''trades_pass'', ''holdout_pass'', ''cost_pass'']"

definition library_attestation_ok :: "jv \<Rightarrow> bool" where
  "library_attestation_ok row \<longleftrightarrow>
     (let block = jget row ''gate_v4'' in
      is_dict block \<and> jget block ''passed'' = JBool True \<and> jget block ''rules'' = JStr GATE_RULES \<and>
      list_all (\<lambda>k. jget block k = JBool True) LIBRARY_ATTESTATION_KEYS)"

definition list_or_null :: "jv \<Rightarrow> bool" where
  "list_or_null v \<longleftrightarrow> v = JNull \<or> is_list v"

definition null_to_list :: "string \<Rightarrow> jv \<Rightarrow> jv" where
  "null_to_list k row = (if jget row k = JNull then jset k (JList []) row else row)"

definition same_trial_count :: "lib_strategy list \<Rightarrow> jv \<Rightarrow> bool" where
  "same_trial_count lib v \<longleftrightarrow>
     (case library_trial_count lib of Inl e \<Rightarrow> False | Inr n \<Rightarrow> equals_int (int n) v)"

definition validate_library_eval :: "lib_strategy list \<Rightarrow> jv \<Rightarrow> string \<Rightarrow> jv option" where
  "validate_library_eval lib row name =
     (if name \<notin> set (claim_names lib) then None
      else if jget row ''timeframe'' \<noteq> JStr LIB_TIMEFRAME \<or> jget row ''risk_policy'' \<noteq> JStr LIB_RISK_POLICY then None
      else if jget row ''engine'' \<noteq> JStr ENGINE_ID \<or> jget row ''gate_rules'' \<noteq> JStr GATE_RULES then None
      else if \<not> is_dict (jget row ''gate_v4'') \<or> \<not> same_trial_count lib (jget (jget row ''gate_v4'') ''n_trials'')
      then None
      else if truthy (jget row ''qualified'') \<and> \<not> library_attestation_ok row then None
      else if \<not> list_or_null (jget row ''fail_reasons'') \<or> \<not> list_or_null (jget row ''warnings'') then None
      else Some (null_to_list ''warnings'' (null_to_list ''fail_reasons''
             (jset ''qualified'' (JBool (truthy (jget row ''qualified''))) row))))"

definition given_or :: "string \<Rightarrow> jv \<Rightarrow> jv" where
  "given_or d v = (if truthy v then v else JStr d)"

definition validate_eval :: "lib_strategy list \<Rightarrow> jv \<Rightarrow> jv option" where
  "validate_eval lib row =
     (case as_str (jget row ''strategy'') of
        None \<Rightarrow> None
      | Some name \<Rightarrow>
          if name = [] then None
          else if \<not> list_all (jhas row) [''strategy'', ''qualified'', ''tested_at''] then None
          else if is_library_name name then validate_library_eval lib row name
          else if given_or QUAL_TIMEFRAME (jget row ''timeframe'') \<noteq> JStr QUAL_TIMEFRAME then None
          else if given_or RISK_POLICY (jget row ''risk_policy'') \<noteq> JStr RISK_POLICY then None
          else if jget row ''gate_rules'' \<noteq> JStr GATE_RULES then None
          else if truthy (jget row ''qualified'') \<and> \<not> v4_attestation_ok row then None
          else if \<not> list_or_null (jget row ''fail_reasons'') then None
          else Some (null_to_list ''fail_reasons'' (jset ''risk_policy'' (JStr RISK_POLICY)
                 (jset ''timeframe'' (JStr QUAL_TIMEFRAME)
                   (jset ''qualified'' (JBool (truthy (jget row ''qualified''))) row)))))"

text \<open>The lists of the request body, or the error it raises before anything is read or written.\<close>

definition list_field :: "string \<Rightarrow> jv \<Rightarrow> jv list result" where
  "list_field k payload =
     (let v = jget payload k in
      if \<not> truthy v then Inr [] else if is_list v then Inr (as_list v)
      else Inl (ValueError (k @ '' must be a list'')))"

definition force_field :: "jv \<Rightarrow> jv list result" where
  "force_field payload =
     (let v = jget payload ''force_admit'' in
      if v \<noteq> JNull \<and> \<not> is_list v then Inl (ValueError ''force_admit must be a list'') else Inr (as_list v))"

record request =
  rq_evals :: "jv list"
  rq_extended :: "jv list"
  rq_force :: "jv list"

definition read_request :: "jv \<Rightarrow> request result" where
  "read_request payload =
     (if \<not> is_dict payload then Inl (ValueError ''payload must be an object'')
      else bind_result (list_field ''evaluations'' payload) (\<lambda>evs.
           bind_result (list_field ''extended_names'' payload) (\<lambda>ext.
           bind_result (force_field payload) (\<lambda>frc.
             Inr \<lparr>rq_evals = evs, rq_extended = ext, rq_force = frc\<rparr>))))"

section \<open>Heartbeat and in-flight file\<close>

definition string_or_null :: "jv \<Rightarrow> jv" where
  "string_or_null v = (if is_str v then v else JNull)"

definition list_or_none :: "jv \<Rightarrow> jv" where
  "list_or_none v = (if is_list v then v else JNull)"

definition flight_of :: "jv \<Rightarrow> int \<Rightarrow> jv option \<Rightarrow> jv" where
  "flight_of flight now f =
     (let names = strings_of (as_list (jget flight ''names''));
          given = (\<lambda>k. if is_list (jget flight k) then Some (strings_of (as_list (jget flight k))) else None)
      in write_in_flight names (as_str (jget flight ''current'')) (given ''remaining'')
           (case given ''completed'' of None \<Rightarrow> [] | Some c \<Rightarrow> c) (jget flight ''batch_size'')
           (string_or_null (jget flight ''started_at'')) (Some ''windows_worker'') now f)"

definition heartbeat_status :: "ingest_env \<Rightarrow> jv \<Rightarrow> jv" where
  "heartbeat_status en hb =
     (let status = (if is_dict hb then jget hb ''status'' else if truthy hb then JStr (text_of en hb) else JNull)
      in if truthy status then JStr (text_of en status) else JNull)"

definition heartbeat_worker :: "jv \<Rightarrow> jv" where
  "heartbeat_worker payload =
     (let wid = string_or_null (jget (jget payload ''heartbeat'') ''worker_id'')
      in if truthy wid then wid
         else if is_str (jget payload ''worker_id'') then jget payload ''worker_id'' else wid)"

definition touch_heartbeat_and_flight :: "ingest_env \<Rightarrow> jv \<Rightarrow> int \<Rightarrow> site \<Rightarrow> site" where
  "touch_heartbeat_and_flight en payload now si =
     (let hb = jget payload ''heartbeat''; status = heartbeat_status en hb; wid = heartbeat_worker payload;
          w = si_world si;
          w = (if is_dict hb \<or> truthy hb \<or> truthy wid
               then w\<lparr>w_farm := Some (apply_heartbeat (as_str status) now (w_farm w))\<rparr> else w);
          w = (if truthy wid
               then fst (touch_worker_world (en_timeout en) w wid status now (list_or_none (jget hb ''evaluating''))
                      (list_or_none (jget hb ''queued'')))
               else w);
          flight = jget payload ''in_flight''
      in si\<lparr>si_world := w,
            si_flight := (if truthy (jget payload ''clear_in_flight'') then None
              else if is_dict flight then Some (flight_of flight now (si_flight si)) else si_flight si)\<rparr>)"

section \<open>Choosing what a row is\<close>

datatype row_kind = Fresh | LibraryRetest | SignalCorrection | BhRetest

record intake =
  ik_requal :: "requal option"
  ik_already :: "string list"
  ik_append :: "(jv \<times> row_kind) list"
  ik_ingested :: "string list"
  ik_proposed :: "string list"
  ik_skipped :: "(string \<times> string) list"
  ik_rejected :: "jv list"
  ik_recorded :: "string list"

definition eval_name :: "jv \<Rightarrow> string" where
  "eval_name rec = (case as_str (jget rec ''strategy'') of None \<Rightarrow> [] | Some n \<Rightarrow> n)"

definition take_in :: "row_kind \<Rightarrow> jv \<Rightarrow> intake \<Rightarrow> intake" where
  "take_in k rec ik =
     ik\<lparr>ik_append := ik_append ik @ [(rec, k)], ik_ingested := ik_ingested ik @ [eval_name rec],
        ik_proposed := ik_proposed ik @ (if truthy (jget rec ''qualified'') then [eval_name rec] else [])\<rparr>"

definition skip_row :: "string \<Rightarrow> string \<Rightarrow> intake \<Rightarrow> intake" where
  "skip_row reason name ik = ik\<lparr>ik_skipped := ik_skipped ik @ [(name, reason)]\<rparr>"

definition record_lane :: "int \<Rightarrow> requal option \<Rightarrow> jv \<Rightarrow> int \<Rightarrow> requal option \<times> bool" where
  "record_lane n_windows f rec now =
     (case f of None \<Rightarrow> (None, False) | Some s \<Rightarrow> map_prod Some id (record_requalify n_windows s rec now))"

definition intake_valid ::
    "ingest_env \<Rightarrow> world \<Rightarrow> string list \<Rightarrow> int \<Rightarrow> jv \<Rightarrow> intake \<Rightarrow> intake" where
  "intake_valid en w existing now rec ik =
     (let name = eval_name rec;
          rev = (\<lambda>r. if is_signal_correction name then jset ''signal_revision'' (JStr SIGNAL_REVISION) r else r)
      in case library_retest_entry (w_lib w) name of
           Some e \<Rightarrow> take_in LibraryRetest (rev (stamp_library_retest_result e rec)) ik
         | None \<Rightarrow>
             if is_signal_correction name \<and> signal_correction_pending (world_rows w) name
             then take_in SignalCorrection (stamp_signal_correction (rev rec)) ik
             else
               let (lane, recorded) = record_lane (en_windows en) (ik_requal ik) (rev rec) now in
               if recorded then ik\<lparr>ik_requal := lane, ik_recorded := ik_recorded ik @ [name]\<rparr>
               else if name \<in> set existing then skip_row ''already_pooled_or_graduated'' name ik
               else if name \<in> set (ik_already ik)
               then (case retest_entry (w_bh w) name of
                       None \<Rightarrow> skip_row ''already_tested'' name ik
                     | Some e \<Rightarrow> take_in BhRetest (stamp_retest_result e (rev rec)) ik)
               else take_in Fresh (rev rec) (ik\<lparr>ik_already := name # ik_already ik\<rparr>))"

definition intake_row ::
    "ingest_env \<Rightarrow> world \<Rightarrow> string list \<Rightarrow> int \<Rightarrow> jv \<Rightarrow> intake \<Rightarrow> intake" where
  "intake_row en w existing now raw ik =
     (case validate_eval (sr_lib (en_sr en)) raw of
        None \<Rightarrow> ik\<lparr>ik_rejected := ik_rejected ik @ [if is_dict raw then jget raw ''strategy'' else JStr ''?'']\<rparr>
      | Some rec \<Rightarrow> intake_valid en w existing now rec ik)"

text \<open>
  What the later sections still hold of the first: the pool in memory, the blocked names and the
  rows to append.
\<close>

record job =
  jb_pool :: jv
  jb_existing :: "string list"
  jb_intake :: intake
  jb_pending :: "(jv \<times> row_kind) list"
  jb_written :: "jv list"

definition blocked_names :: "book_files \<Rightarrow> string list" where
  "blocked_names bk =
     List.map_filter book_name (pool_rows (load_pool (bk_pool bk))) @
     List.map_filter book_name (load_graduated (bk_grads bk)) @ admit_blocked_names (bk_retired bk)"

definition intake_start :: "world \<Rightarrow> intake" where
  "intake_start w =
     \<lparr>ik_requal = w_requal w, ik_already = tested_discovery_names (world_rows w) (df_tested (w_disc w)),
      ik_append = [], ik_ingested = [], ik_proposed = [], ik_skipped = [], ik_rejected = [], ik_recorded = []\<rparr>"

definition take_request :: "ingest_env \<Rightarrow> int \<Rightarrow> jv list \<Rightarrow> site \<Rightarrow> site \<times> job" where
  "take_request en now evals si =
     (let w = si_world si; existing = blocked_names (w_book w);
          ik = fold (intake_row en w existing now) evals (intake_start w)
      in (if ik_recorded ik = [] then si else si\<lparr>si_world := w\<lparr>w_requal := ik_requal ik\<rparr>\<rparr>,
          \<lparr>jb_pool = load_pool (bk_pool (w_book w)), jb_existing = existing, jb_intake = ik,
           jb_pending = ik_append ik, jb_written = []\<rparr>))"

end
