(* ===== verification/Commit.thy ===== *)
theory Commit
  imports Ingest
begin

text \<open>
  The second and third part of an ingest: each append rechecks under its own lock what the first
  part decided, and the last section flips parked rows (\<open>requalify_parked_log\<close> in
  \<open>trading/qualify.py\<close>), seats, admits and saves.
\<close>

section \<open>Appends\<close>

definition with_disc :: "(disc_files \<Rightarrow> disc_files) \<Rightarrow> site \<Rightarrow> site" where
  "with_disc f si = si\<lparr>si_world := (si_world si)\<lparr>w_disc := f (w_disc (si_world si))\<rparr>\<rparr>"

text \<open>The four callbacks \<open>still_valid\<close>; the first may fold a log written without the index.\<close>

fun still_valid :: "string \<Rightarrow> row_kind \<Rightarrow> string \<Rightarrow> site \<Rightarrow> site \<times> bool" where
  "still_valid gen Fresh n si =
     (if n \<in> set (tested_name_set (df_tested (w_disc (si_world si)))) then (si, False)
      else let (df, names) = cached_tested_names gen (w_disc (si_world si))
           in (with_disc (\<lambda>d. df) si, n \<notin> set names))"
| "still_valid gen LibraryRetest n si = (si, library_retest_entry (w_lib (si_world si)) n \<noteq> None)"
| "still_valid gen SignalCorrection n si = (si, signal_correction_pending (world_rows (si_world si)) n)"
| "still_valid gen BhRetest n si = (si, retest_entry (w_bh (si_world si)) n \<noteq> None)"

text \<open>\<open>after_commit\<close>\<close>

fun close_retest :: "row_kind \<Rightarrow> string \<Rightarrow> jv \<Rightarrow> site \<Rightarrow> site" where
  "close_retest LibraryRetest n stamp si =
     si\<lparr>si_world := (si_world si)\<lparr>w_lib := fst (complete_library_retest n stamp (w_lib (si_world si)))\<rparr>\<rparr>"
| "close_retest BhRetest n stamp si =
     si\<lparr>si_world := (si_world si)\<lparr>w_bh := fst (complete_retest n stamp (w_bh (si_world si)))\<rparr>\<rparr>"
| "close_retest k n stamp si = si"

definition append_row :: "string \<Rightarrow> jv \<times> row_kind \<Rightarrow> site \<Rightarrow> site \<times> bool" where
  "append_row gen entry si =
     (let (rec, k) = entry; (si, ok) = still_valid gen k (eval_name rec) si;
          (df, rows) = append_discovery_evaluations [rec] ok (w_disc (si_world si))
      in case rows of
           None \<Rightarrow> (si, False)
         | Some _ \<Rightarrow> (close_retest k (eval_name rec) (jget rec ''tested_at'') (with_disc (\<lambda>d. df) si), True))"

text \<open>\<open>load_library_results\<close> and \<open>save_library_result\<close> (\<open>library/results.py\<close>)\<close>

definition load_library_results :: "jv option \<Rightarrow> jv dict" where
  "load_library_results f = (case f of None \<Rightarrow> [] | Some d \<Rightarrow> as_dict (sub_dict d ''results''))"

definition save_library_result :: "jv \<Rightarrow> jv option \<Rightarrow> jv option" where
  "save_library_result rec f =
     (if eval_name rec = [] then f
      else Some (JObj [(''paper_only'', JBool True),
             (''results'', JObj (dset (eval_name rec) rec (load_library_results f)))]))"

definition drop_row :: "string \<Rightarrow> intake \<Rightarrow> intake" where
  "drop_row name ik =
     skip_row ''already_tested'' name
       (ik\<lparr>ik_ingested := remove1 name (ik_ingested ik), ik_proposed := remove1 name (ik_proposed ik)\<rparr>)"

definition append_next :: "string \<Rightarrow> site \<times> job \<Rightarrow> site \<times> job" where
  "append_next gen s =
     (case jb_pending (snd s) of
        [] \<Rightarrow> s
      | e # es \<Rightarrow>
          let (si, ok) = append_row gen e (fst s); jb = (snd s)\<lparr>jb_pending := es\<rparr>
          in if ok
             then (if is_dict (jget (fst e) ''library'')
                   then si\<lparr>si_results := save_library_result (fst e) (si_results si)\<rparr> else si,
                   jb\<lparr>jb_written := jb_written jb @ [fst e]\<rparr>)
             else (si, jb\<lparr>jb_intake := drop_row (eval_name (fst e)) (jb_intake jb)\<rparr>))"

section \<open>Parked rows\<close>

definition REQUALIFY_SOURCE :: string where "REQUALIFY_SOURCE = ''aggregate_oos_no_window_veto''"

definition flip_row :: "jv \<Rightarrow> decision \<Rightarrow> jv \<Rightarrow> jv" where
  "flip_row stamp d row =
     (let r = (if list_ex is_window_veto_reason (fail_reasons_of row)
               then jset ''all_windows_nonneg'' (JBool False) row else row);
          r = jset ''qualified'' (JBool True) r;
          r = jset ''fail_reasons'' (JList []) r;
          r = jset ''requalified_at'' stamp r;
          r = jset ''requalify_source'' (JStr REQUALIFY_SOURCE) r
      in jset ''score'' (JFloat (flt_round 2 (dec_score d))) r)"

definition parked_candidate :: "string list \<Rightarrow> string \<Rightarrow> jv \<Rightarrow> bool" where
  "parked_candidate existing name row \<longleftrightarrow>
     \<not> truthy (jget row ''qualified'') \<and> name \<notin> set existing \<and> \<not> is_ops_park_record row \<and>
     \<not> is_library_name name \<and> jget row ''gate_rules'' = JStr GATE_RULES \<and> v4_attestation_ok row"

text \<open>The rewritten log and the flipped rows; a stored number that does not read raises.\<close>

fun flip_parked :: "int \<Rightarrow> jv \<Rightarrow> string list \<Rightarrow> string list \<Rightarrow> jv list \<Rightarrow> (jv list \<times> jv list) result" where
  "flip_parked n stamp existing known [] = Inr ([], [])"
| "flip_parked n stamp existing known (row # rows) =
     (case row_name row of
        None \<Rightarrow> bind_result (flip_parked n stamp existing known rows) (\<lambda>(l, f). Inr (row # l, f))
      | Some name \<Rightarrow>
          if name \<in> set known
          then bind_result (flip_parked n stamp existing known rows) (\<lambda>(l, f). Inr (row # l, f))
          else if \<not> parked_candidate existing name row
          then bind_result (flip_parked n stamp existing (name # known) rows) (\<lambda>(l, f). Inr (row # l, f))
          else bind_result (qualification_from_record n row) (\<lambda>d.
                 bind_result (flip_parked n stamp existing (name # known) rows) (\<lambda>(l, f).
                   if dec_passed d then Inr (flip_row stamp d row # l, flip_row stamp d row # f)
                   else Inr (row # l, f))))"

definition requalify_parked_log :: "int \<Rightarrow> int \<Rightarrow> string list \<Rightarrow> jv list \<Rightarrow> (jv list \<times> jv list) result" where
  "requalify_parked_log n now existing rows = flip_parked n (JTime now) existing [] rows"

section \<open>Explicit admits\<close>

fun change_first :: "('a \<Rightarrow> bool) \<Rightarrow> ('a \<Rightarrow> 'a) \<Rightarrow> 'a list \<Rightarrow> 'a list" where
  "change_first p f [] = []"
| "change_first p f (x # xs) = (if p x then f x # xs else x # change_first p f xs)"

definition forced_row :: "int \<Rightarrow> string \<Rightarrow> jv \<Rightarrow> jv" where
  "forced_row now source row =
     jset ''force_admit_source'' (JStr source)
       (jset ''force_admitted_at'' (JTime now) (jset ''qualified'' (JBool True) row))"

record forcing =
  fc_st :: jv
  fc_existing :: "string list"
  fc_rows :: "jv list"
  fc_bh :: "jv option"
  fc_skipped :: "(string \<times> string) list"
  fc_admitted :: "string list"

text \<open>A name in the log is never a timestamp, so one that reads as a timestamp is not found there.\<close>

definition force_one :: "ingest_env \<Rightarrow> int \<Rightarrow> string \<Rightarrow> jv \<Rightarrow> forcing \<Rightarrow> forcing" where
  "force_one en now source raw s =
     (let skip = (\<lambda>n why. s\<lparr>fc_skipped := fc_skipped s @ [(n, why)]\<rparr>) in
      if \<not> is_str raw \<or> strip (text_of en raw) = [] then skip (text_of en raw) ''invalid_name''
      else
        let name = strip (text_of en raw) in
        if name \<in> set (fc_existing s) then skip name ''already_pooled_or_graduated''
        else case newest_row (fc_rows s) name of
            None \<Rightarrow> skip name ''not_in_discovery_log''
          | Some row \<Rightarrow>
              let row' = forced_row now source row;
                  ((st, existing), ok) = admit_qualified now row' name (fc_st s, fc_existing s);
                  rows = change_first (\<lambda>r. is_dict r \<and> jget r ''strategy'' = JStr name) (forced_row now source)
                    (fc_rows s)
              in if ok
                 then s\<lparr>fc_st := st, fc_existing := existing, fc_rows := rows,
                        fc_bh := fst (complete_retest name (JTime now) (fc_bh s)),
                        fc_admitted := fc_admitted s @ [name]\<rparr>
                 else s\<lparr>fc_rows := rows\<rparr>)"

definition force_admit ::
    "ingest_env \<Rightarrow> int \<Rightarrow> string \<Rightarrow> jv list \<Rightarrow> jv \<Rightarrow> string list \<Rightarrow> jv list \<Rightarrow> jv option \<Rightarrow> forcing" where
  "force_admit en now source names st existing rows bh =
     fold (force_one en now source) names
       \<lparr>fc_st = st, fc_existing = existing, fc_rows = rows, fc_bh = bh, fc_skipped = [], fc_admitted = []\<rparr>"

section \<open>The last section\<close>

record answer =
  an_ingested :: "string list"
  an_skipped :: "(string \<times> string) list"
  an_admitted :: "string list"
  an_proposed :: "string list"
  an_auto :: "string list"
  an_requalified :: "string list"
  an_recorded :: "string list"
  an_forced :: "string list"
  an_rejected :: "jv list"
  an_extended :: "string list"
  an_parked :: "string dict"

definition parked_scan :: "ingest_env \<Rightarrow> int \<Rightarrow> bool \<Rightarrow> job \<Rightarrow> site \<Rightarrow> (jv list \<times> jv list) result" where
  "parked_scan en now scan jb si =
     (if scan then requalify_parked_log (en_windows en) now (jb_existing jb) (world_rows (si_world si))
      else Inr ([], []))"

definition save_admitted :: "jv \<Rightarrow> string list \<Rightarrow> book_files \<Rightarrow> book_files" where
  "save_admitted st admitted bk =
     (if admitted = [] then bk
      else bk\<lparr>bk_pool := Some (save_pool st (bk_pool bk)), bk_retired := fst (unpark admitted (bk_retired bk))\<rparr>)"

definition enforce_on :: "ingest_env \<Rightarrow> int \<Rightarrow> book_files \<Rightarrow> book_files \<times> string dict" where
  "enforce_on en now bk =
     (let (bk, r) = enforce_champion_families now (en_batch en) (en_metrics en) (en_lots en) bk
      in (bk, case r of None \<Rightarrow> [] | Some (park, deferred) \<Rightarrow> park))"

definition extend_names :: "jv list \<Rightarrow> int \<Rightarrow> jv option \<Rightarrow> jv option \<times> string list" where
  "extend_names raws now f =
     (let names = filter (\<lambda>n. n \<noteq> []) (strings_of raws)
      in if names = [] then (f, [])
         else (append_extended_batch names now f, filter (\<lambda>n. n \<notin> set (load_extended_names f)) names))"

definition names_to_clear :: "string list \<Rightarrow> (string \<times> string) list \<Rightarrow> string list" where
  "names_to_clear ingested skipped =
     ingested @ map fst (filter (\<lambda>(n, why). why \<in> {''already_tested'', ''already_pooled_or_graduated''} \<and> n \<noteq> [])
       skipped)"

definition strategies :: "jv list \<Rightarrow> string list" where
  "strategies rows = map eval_name rows"

text \<open>
  The flipped rows, the seated rows and the explicit admits are known; what is left is written in the
  order of the code.
\<close>

definition finish_ingest ::
    "ingest_env \<Rightarrow> jv \<Rightarrow> request \<Rightarrow> int \<Rightarrow> job \<Rightarrow> jv list \<Rightarrow> forcing \<Rightarrow> string list \<Rightarrow> site \<Rightarrow> site \<times> answer" where
  "finish_ingest en payload rq now jb flipped fc auto si =
     (let w = si_world si; ik = jb_intake jb; requalified = strategies flipped;
          admitted = auto @ fc_admitted fc;
          disc = (if requalified \<noteq> [] \<or> fc_admitted fc \<noteq> []
                  then save_discovery_log (sr_gen (en_sr en)) (fc_rows fc) (w_disc w) else w_disc w);
          (bk, parked) = enforce_on en now (save_admitted (fc_st fc) admitted (w_book w));
          (ext, added) = extend_names (rq_extended rq) now (w_extended w);
          skipped = ik_skipped ik @ fc_skipped fc;
          w = w\<lparr>w_disc := disc, w_bh := fc_bh fc, w_book := bk, w_extended := ext\<rparr>;
          w = fst (clear_world (names_to_clear (ik_ingested ik) skipped) w)
      in (touch_heartbeat_and_flight en payload now (si\<lparr>si_world := w\<rparr>),
          \<lparr>an_ingested = ik_ingested ik, an_skipped = skipped,
           an_admitted = first_by id [] admitted,
           an_proposed = ik_proposed ik @ first_by id (ik_proposed ik) requalified, an_auto = auto,
           an_requalified = requalified, an_recorded = ik_recorded ik, an_forced = fc_admitted fc,
           an_rejected = ik_rejected ik, an_extended = added, an_parked = parked\<rparr>))"

definition scan_needed :: "request \<Rightarrow> site \<Rightarrow> bool" where
  "scan_needed rq si \<longleftrightarrow>
     list_ex (\<lambda>row. is_dict row \<and> jget row ''qualified'' = JBool True) (rq_evals rq) \<or> rq_force rq \<noteq> [] \<or>
     \<not> si_scanned si"

definition force_source :: "ingest_env \<Rightarrow> jv \<Rightarrow> string" where
  "force_source en payload =
     text_of en (if truthy (jget payload ''source'') then jget payload ''source'' else JStr ''manual_force_admit'')"

definition commit_request ::
    "ingest_env \<Rightarrow> jv \<Rightarrow> request \<Rightarrow> int \<Rightarrow> job \<Rightarrow> site \<Rightarrow> site \<times> answer result" where
  "commit_request en payload rq now jb si =
     (let scan = scan_needed rq si in
      case parked_scan en now scan jb si of
        Inl e \<Rightarrow> (si, Inl e)
      | Inr (rows, flipped) \<Rightarrow>
          let w = si_world si;
              (se, err) = seat_library_passes (sr_lib (en_sr en)) now (strategies (jb_written jb)) (jb_written jb)
                (jb_pool jb) (jb_existing jb) (w_book w);
              w = w\<lparr>w_book := (w_book w)\<lparr>bk_retired := se_archive se\<rparr>\<rparr>;
              si = si\<lparr>si_world := w, si_scanned := si_scanned si \<or> scan\<rparr>
          in case err of
               Some e \<Rightarrow> (si, Inl e)
             | None \<Rightarrow>
                 let fc = force_admit en now (force_source en payload) (rq_force rq) (se_st se) (se_existing se) rows
                            (w_bh w)
                 in map_prod id Inr (finish_ingest en payload rq now jb flipped fc (se_admitted se) si))"

section \<open>The whole request\<close>

definition heartbeat_only :: "request \<Rightarrow> bool" where
  "heartbeat_only rq \<longleftrightarrow> rq_evals rq = [] \<and> rq_extended rq = [] \<and> rq_force rq = []"

definition empty_answer :: answer where
  "empty_answer = \<lparr>an_ingested = [], an_skipped = [], an_admitted = [], an_proposed = [], an_auto = [],
     an_requalified = [], an_recorded = [], an_forced = [], an_rejected = [], an_extended = [], an_parked = []\<rparr>"

text \<open>\<open>ingest_discovery_payload\<close> with no other writer between its locked sections\<close>

definition run_appends :: "string \<Rightarrow> site \<times> job \<Rightarrow> site \<times> job" where
  "run_appends gen s = (append_next gen ^^ length (jb_pending (snd s))) s"

definition ingest :: "ingest_env \<Rightarrow> jv \<Rightarrow> int \<Rightarrow> site \<Rightarrow> site \<times> answer result" where
  "ingest en payload now si =
     (case read_request payload of
        Inl e \<Rightarrow> (si, Inl e)
      | Inr rq \<Rightarrow>
          if heartbeat_only rq \<and> si_scanned si
          then (touch_heartbeat_and_flight en payload now si, Inr empty_answer)
          else
            let (si, jb) = run_appends (sr_gen (en_sr en)) (take_request en now (rq_evals rq) si)
            in commit_request en payload rq now jb si)"

end
