(* ===== verification/SeatFacts.thy ===== *)
theory SeatFacts
  imports Seats
begin

text \<open>
  What the automatic seat does to the pool and the archive: it appends one labelled row for each
  admitted name, and every admitted name is a canonical library pass that was not on the book.
\<close>

section \<open>Rows\<close>

definition seat_row :: "int \<Rightarrow> jv \<Rightarrow> string \<Rightarrow> jv" where
  "seat_row now rec name = label_auto_library rec (JTime now) (champion_row now rec name)"

lemma base_fields_get [simp]: "is_dict (base_fields rec name t0)" "jget (base_fields rec name t0) ''name'' = JStr name"
  by (simp_all add: base_fields_def)

lemma library_fields_get [simp]:
  "is_dict (library_fields rec row) = is_dict row"
  "is_dict row \<Longrightarrow> jget (library_fields rec row) ''name'' = jget row ''name''"
  "is_dict row \<Longrightarrow> is_dict (jget rec ''library'') \<Longrightarrow>
     jget (library_fields rec row) ''library'' = all_keys LIBRARY_KEYS (jget rec ''library'')"
  "is_dict row \<Longrightarrow> is_dict (jget rec ''library'') \<Longrightarrow> jget (library_fields rec row) ''engine'' = jget rec ''engine''"
  by (simp_all add: library_fields_def)

lemma qual_field_get [simp]:
  "is_dict (qual_field rec row) = is_dict row"
  "is_dict row \<Longrightarrow> k \<noteq> ''qual'' \<Longrightarrow> jget (qual_field rec row) k = jget row k"
  by (simp_all add: qual_field_def split: option.splits)

lemma gate_field_get [simp]:
  "is_dict (gate_field rec row) = is_dict row"
  "is_dict row \<Longrightarrow> k \<noteq> ''gate_v4'' \<Longrightarrow> jget (gate_field rec row) k = jget row k"
  by (simp_all add: gate_field_def)

lemma champion_row_get [simp]:
  "is_dict (champion_row now rec name)" "jget (champion_row now rec name) ''name'' = JStr name"
  by (simp_all add: champion_row_def Let_def)

lemma seat_row_fields [simp]:
  "is_dict (seat_row now rec name)" "jget (seat_row now rec name) ''name'' = JStr name"
  "jget (seat_row now rec name) ''qualified'' = JBool True"
  "jget (seat_row now rec name) ''library'' = jget (champion_row now rec name) ''library''"
  "jget (seat_row now rec name) ''forward_test'' = jget (champion_row now rec name) ''forward_test''"
  by (simp_all add: seat_row_def label_auto_library_def Let_def)

lemma champion_row_library:
  "is_dict (jget rec ''library'') \<Longrightarrow>
     jget (champion_row now rec name) ''library'' = all_keys LIBRARY_KEYS (jget rec ''library'') \<and>
     jget (champion_row now rec name) ''engine'' = jget rec ''engine''"
  by (simp add: champion_row_def Let_def)

lemma champion_row_forward:
  "\<exists>t. jget (champion_row now rec name) ''forward_test'' = registration_for rec t"
  by (auto simp: champion_row_def Let_def)

lemma jget_all_keys: "k \<in> set ks \<Longrightarrow> jget (all_keys ks v) k = jget v k"
  by (induction ks) (auto simp: all_keys_def)

lemma pool_rows_append [simp]: "is_dict st \<Longrightarrow> pool_rows (append_champion row st) = pool_rows st @ [row]"
  by (simp add: append_champion_def pool_rows_def)

lemma append_champion_dict [simp]: "is_dict (append_champion row st) = is_dict st"
  by (simp add: append_champion_def)

lemma label_last_append:
  "is_dict st \<Longrightarrow> pool_rows (label_last f (append_champion row st)) = pool_rows st @ [f row]"
  by (simp add: label_last_def Let_def pool_rows_def append_champion_def)

lemma label_last_dict [simp]: "is_dict (label_last f st) = is_dict st"
  by (simp add: label_last_def Let_def)

section \<open>One record\<close>

text \<open>What a seated name satisfies.\<close>

definition seat_of :: "lib_strategy list \<Rightarrow> int \<Rightarrow> jv list \<Rightarrow> string \<Rightarrow> jv \<Rightarrow> bool" where
  "seat_of lib now recs name row \<longleftrightarrow>
     (\<exists>raw \<in> set recs. \<exists>rec. library_pass lib raw = Some name \<and> with_center_params lib raw = Inr rec \<and>
        row = seat_row now rec name)"

lemma seat_of_mono: "seat_of lib now recs n row \<Longrightarrow> set recs \<subseteq> set recs' \<Longrightarrow> seat_of lib now recs' n row"
  by (auto simp: seat_of_def)

lemma seat_one_cases:
  assumes one: "seat_one lib now graduated reevaluated raw s = Inr s'" and st: "is_dict (se_st s)"
  obtains (kept) "se_st s' = se_st s" "se_pooled s' = se_pooled s" "se_retired s' = se_retired s"
      "se_archive s' = se_archive s" "se_admitted s' = se_admitted s"
    | (seated) name rec where "library_pass lib raw = Some name" "with_center_params lib raw = Inr rec"
      "name \<notin> set (se_pooled s)" "name \<notin> set graduated"
      "name \<in> set (se_retired s) \<Longrightarrow> name \<in> set reevaluated"
      "is_dict (se_st s')" "pool_rows (se_st s') = pool_rows (se_st s) @ [seat_row now rec name]"
      "se_pooled s' = name # se_pooled s" "se_admitted s' = se_admitted s @ [name]"
      "se_retired s' = filter (\<lambda>n. n \<noteq> name) (se_retired s)"
      "se_archive s' = (if name \<in> set (se_retired s) then release_retired name (se_archive s) else se_archive s)"
proof (cases "library_pass lib raw")
  case None
  with one have "s' = s" by (simp add: seat_one_def)
  then show ?thesis using kept by simp
next
  case (Some name)
  show ?thesis
  proof (cases "name \<in> set (se_pooled s) \<or> name \<in> set graduated \<or>
      name \<in> set (se_retired s) \<and> name \<notin> set reevaluated")
    case True
    with Some one have "s' = s" by (auto simp: seat_one_def split: if_splits)
    then show ?thesis using kept by simp
  next
    case False
    then obtain rec where rec: "with_center_params lib raw = Inr rec"
      using Some one by (cases "with_center_params lib raw") (auto simp: seat_one_def split: if_splits)
    let ?ex = "if name \<in> set (se_retired s) then filter (\<lambda>n. n \<noteq> name) (se_existing s) else se_existing s"
    show ?thesis
    proof (cases "name \<in> set ?ex")
      case True
      with False Some one rec have "s' = s\<lparr>se_existing := ?ex\<rparr>"
        by (auto simp: seat_one_def admit_qualified_def Let_def split: if_splits)
      then show ?thesis using kept by simp
    next
      case new: False
      with False Some one rec have "s' = \<lparr>se_st = label_last (label_auto_library rec (JTime now))
             (append_champion (champion_row now rec name) (se_st s)), se_existing = name # ?ex,
           se_pooled = name # se_pooled s, se_retired = filter (\<lambda>n. n \<noteq> name) (se_retired s),
           se_archive = (if name \<in> set (se_retired s) then release_retired name (se_archive s) else se_archive s),
           se_admitted = se_admitted s @ [name]\<rparr>"
        by (auto simp: seat_one_def admit_qualified_def Let_def split: if_splits)
      then show ?thesis
        using seated [OF Some rec] False st by (simp add: label_last_append seat_row_def)
    qed
  qed
qed

section \<open>All records\<close>

text \<open>The rows \<open>seat_all\<close> adds, with their names\<close>

definition seats :: "lib_strategy list \<Rightarrow> int \<Rightarrow> string list \<Rightarrow> string list \<Rightarrow> jv list \<Rightarrow> seating \<Rightarrow> seating \<Rightarrow>
    (string \<times> jv) list \<Rightarrow> bool" where
  "seats lib now graduated reevaluated recs s s' new \<longleftrightarrow>
     is_dict (se_st s') \<and> pool_rows (se_st s') = pool_rows (se_st s) @ map snd new \<and>
     se_admitted s' = se_admitted s @ map fst new \<and> distinct (map fst new) \<and>
     set (map fst new) \<inter> (set (se_pooled s) \<union> set graduated) = {} \<and>
     set (map fst new) \<inter> set (se_retired s) \<subseteq> set reevaluated \<and>
     (\<forall>(n, row) \<in> set new. seat_of lib now recs n row)"

lemma seats_nil: "is_dict (se_st s) \<Longrightarrow> seats lib now graduated reevaluated recs s s []"
  by (simp add: seats_def)

lemma seats_kept:
  "seats lib now graduated reevaluated recs s1 s' new \<Longrightarrow> se_st s1 = se_st s \<Longrightarrow> se_pooled s1 = se_pooled s \<Longrightarrow>
   se_retired s1 = se_retired s \<Longrightarrow> se_admitted s1 = se_admitted s \<Longrightarrow>
   seats lib now graduated reevaluated (raw # recs) s s' new"
  by (auto simp: seats_def intro: seat_of_mono)

lemma seat_all_seats:
  "seat_all lib now graduated reevaluated recs s = (s', err) \<Longrightarrow> is_dict (se_st s) \<Longrightarrow>
     \<exists>new. seats lib now graduated reevaluated recs s s' new"
proof (induction recs arbitrary: s)
  case Nil
  then show ?case using seats_nil [of s] by (intro exI [of _ "[]"]) simp
next
  case (Cons raw recs)
  show ?case
  proof (cases "seat_one lib now graduated reevaluated raw s")
    case (Inl e)
    with Cons.prems show ?thesis using seats_nil [of s] by (intro exI [of _ "[]"]) simp
  next
    case (Inr s1)
    with Cons.prems have rest: "seat_all lib now graduated reevaluated recs s1 = (s', err)" by simp
    from Inr Cons.prems(2) show ?thesis
    proof (cases rule: seat_one_cases)
      case kept
      with Cons.IH [OF rest] Cons.prems(2) seats_kept show ?thesis by (metis (no_types, lifting))
    next
      case (seated name rec)
      from Cons.IH [OF rest seated(6)] obtain new where
        new: "seats lib now graduated reevaluated recs s1 s' new" by blast
      have "seat_of lib now (raw # recs) name (seat_row now rec name)"
        using seated by (auto simp: seat_of_def)
      then have "seats lib now graduated reevaluated (raw # recs) s s' ((name, seat_row now rec name) # new)"
        using new seated by (auto simp: seats_def intro: seat_of_mono)
      then show ?thesis by blast
    qed
  qed
qed

lemma seating_start_simps [simp]:
  "se_st (seating_start st ex ar) = st" "se_admitted (seating_start st ex ar) = []"
  "se_retired (seating_start st ex ar) = retired_names ar"
  "se_archive (seating_start st ex ar) = ar" "se_existing (seating_start st ex ar) = ex"
  "se_pooled (seating_start st ex ar) = List.map_filter name_text (filter is_dict (pool_rows st))"
  by (simp_all add: seating_start_def)

lemma seat_library_seats:
  "seat_library_passes lib now reevaluated recs st existing bk = (se, err) \<Longrightarrow> is_dict st \<Longrightarrow>
     \<exists>new. seats lib now (graduated_names (bk_grads bk)) reevaluated recs
       (seating_start st existing (bk_retired bk)) se new"
  using seat_all_seats unfolding seat_library_passes_def by (metis seating_start_simps(1))

section \<open>Centre parameters\<close>

lemma library_pass_name: "library_pass lib raw = Some n \<Longrightarrow> as_str (jget raw ''strategy'') = Some n \<and>
    is_library_name n \<and> n \<in> set (claim_names lib) \<and> verdict_qualified raw n"
  by (auto simp: library_pass_def split: option.splits if_splits)

text \<open>A canonical name parses to its strategy and the declared centre.\<close>

lemma parse_claim_name:
  assumes "library_ok lib" "s \<in> set lib"
  shows "parse_variant lib (NAME_PREFIX @ ls_key s) = Inr (s, center s)"
proof -
  have pt: "point_of s (center s)" using assms center_point by (auto simp: library_ok_def)
  have d: "distinct (map lp_name (ls_params s))" using assms by (auto simp: library_ok_def)
  have "variant_name s (center s) = Inr (NAME_PREFIX @ ls_key s)"
    using param_values_point [OF d pt] by (simp add: variant_name_def center_def comp_def)
  then show ?thesis using parse_variant_name [OF assms pt] by simp
qed

lemma equals_params_json: "dict_ok c \<Longrightarrow> equals_params c (params_json c)"
  by (auto simp: equals_params_def params_json_def list_all_iff jhas_def equals_int_def map_of_map
      dest: in_set_dget)

lemma with_center_cases:
  assumes "library_ok lib" "s \<in> set lib" "jget raw ''strategy'' = JStr (NAME_PREFIX @ ls_key s)"
    and "with_center_params lib raw = Inr rec"
  shows "is_dict (jget rec ''library'')" "equals_params (center s) (jget (jget rec ''library'') ''params'')"
proof -
  have raw: "is_dict raw" using assms(3) by (cases "is_dict raw") simp_all
  have c: "dict_ok (center s)" using assms(1,2) by (auto simp: library_ok_def center_def comp_def)
  have "is_dict (dict_or_empty v)" for v by (simp add: dict_or_empty_def)
  then show "is_dict (jget rec ''library'')" "equals_params (center s) (jget (jget rec ''library'') ''params'')"
    using assms(4) raw equals_params_json [OF c]
    by (auto simp: with_center_params_def assms(3) parse_claim_name [OF assms(1,2)] Let_def jdefault_def
        split: if_splits)
qed

end
