(* ===== verification/IngestFacts.thy ===== *)
theory IngestFacts
  imports Commit SeatFacts
begin

text \<open>
  What an ingest keeps when its three sections interleave with other ingests, with the other
  writers of the discovery files and with crashes: every row it writes was accepted, a new name is
  written once, and a retest is written once.
\<close>

section \<open>Accepted rows\<close>

definition accepted :: "lib_strategy list \<Rightarrow> jv \<Rightarrow> bool" where
  "accepted lib rec \<longleftrightarrow>
     is_dict rec \<and> row_name rec = Some (eval_name rec) \<and> jget rec ''gate_rules'' = JStr GATE_RULES \<and>
     jget rec ''qualified'' \<in> {JBool True, JBool False} \<and>
     (is_library_name (eval_name rec) \<longrightarrow> eval_name rec \<in> set (claim_names lib)) \<and>
     (jget rec ''qualified'' = JBool True \<longrightarrow>
        (if is_library_name (eval_name rec) then library_attestation_ok rec else v4_attestation_ok rec))"

lemma eval_name_jset [simp]: "is_dict r \<Longrightarrow> k \<noteq> ''strategy'' \<Longrightarrow> eval_name (jset k v r) = eval_name r"
  by (simp add: eval_name_def)

lemma row_name_jset [simp]: "is_dict r \<Longrightarrow> k \<noteq> ''strategy'' \<Longrightarrow> row_name (jset k v r) = row_name r"
  by (simp add: row_name_def)

lemma accepted_jset:
  "accepted lib r \<Longrightarrow> k \<notin> {''strategy'', ''gate_rules'', ''qualified'', ''gate_v4''} \<Longrightarrow> accepted lib (jset k v r)"
  by (auto simp: accepted_def library_attestation_ok_def v4_attestation_ok_def Let_def)

lemma accepted_null_to_list:
  "accepted lib r \<Longrightarrow> k \<notin> {''strategy'', ''gate_rules'', ''qualified'', ''gate_v4''} \<Longrightarrow> accepted lib (null_to_list k r)"
  by (simp add: null_to_list_def accepted_jset)

lemma name_of_strategy: "as_str (jget r ''strategy'') = Some n \<Longrightarrow> n \<noteq> [] \<Longrightarrow> row_name r = Some n \<and> eval_name r = n"
  by (simp add: row_name_def eval_name_def split: list.splits)

lemma is_dict_field: "jget r k \<noteq> JNull \<Longrightarrow> is_dict r"
  by (cases "is_dict r") simp_all

lemma validate_accepted: "validate_eval lib raw = Some rec \<Longrightarrow> accepted lib rec"
proof -
  assume v: "validate_eval lib raw = Some rec"
  then obtain n where n: "as_str (jget raw ''strategy'') = Some n" "n \<noteq> []"
    by (auto simp: validate_eval_def split: option.splits if_splits)
  have d: "is_dict raw" using n is_dict_field [of raw "''strategy''"] by fastforce
  let ?q = "jset ''qualified'' (JBool (truthy (jget raw ''qualified''))) raw"
  have name: "row_name ?q = Some n" "eval_name ?q = n" using name_of_strategy [OF n] d by simp_all
  have q: "jget ?q ''qualified'' = JBool (truthy (jget raw ''qualified''))" using d by simp
  show ?thesis
  proof (cases "is_library_name n")
    case True
    then have l: "validate_library_eval lib raw n = Some rec"
      using v n by (simp add: validate_eval_def split: if_splits)
    then have "accepted lib ?q"
      using name q d True by (auto simp: validate_library_eval_def accepted_def library_attestation_ok_def Let_def
          split: if_splits)
    then show ?thesis
      using l by (auto simp: validate_library_eval_def split: if_splits intro!: accepted_null_to_list)
  next
    case False
    then have "accepted lib ?q"
      using v n name q d by (auto simp: validate_eval_def accepted_def v4_attestation_ok_def Let_def
          split: if_splits)
    then show ?thesis
      using v n False by (auto simp: validate_eval_def split: if_splits intro!: accepted_null_to_list accepted_jset)
  qed
qed

lemma accepted_stamps:
  assumes "accepted lib r"
  shows "accepted lib (stamp_retest_result e r)" "accepted lib (stamp_library_retest_result e r)"
    "accepted lib (stamp_signal_correction r)" "accepted lib (jset ''signal_revision'' v r)"
  using assms
  by (simp_all add: stamp_retest_result_def stamp_library_retest_result_def stamp_signal_correction_def Let_def
      accepted_jset)

lemma accepted_dict: "accepted lib r \<Longrightarrow> is_dict r"
  by (simp add: accepted_def)

section \<open>The first section\<close>

definition pending_ok :: "lib_strategy list \<Rightarrow> (jv \<times> row_kind) list \<Rightarrow> bool" where
  "pending_ok lib es \<longleftrightarrow> (\<forall>e \<in> set es. accepted lib (fst e))"

lemma take_in_append [simp]: "ik_append (take_in k r ik) = ik_append ik @ [(r, k)]"
  by (simp add: take_in_def)

lemma skip_row_append [simp]: "ik_append (skip_row why n ik) = ik_append ik"
  by (simp add: skip_row_def)

lemma intake_valid_pending:
  assumes "accepted lib rec" "pending_ok lib (ik_append ik)"
  shows "pending_ok lib (ik_append (intake_valid en w ex now rec ik))"
proof -
  have rev: "accepted lib (if b then jset ''signal_revision'' v r else r)" if "accepted lib r" for b v r
    using that accepted_stamps by simp
  show ?thesis
    using assms rev accepted_stamps
    by (auto simp: intake_valid_def pending_ok_def Let_def split: option.splits prod.splits if_splits)
qed

lemma intake_row_pending:
  "pending_ok (sr_lib (en_sr en)) (ik_append ik) \<Longrightarrow>
     pending_ok (sr_lib (en_sr en)) (ik_append (intake_row en w ex now raw ik))"
  by (auto simp: intake_row_def intro!: intake_valid_pending dest: validate_accepted split: option.splits)

lemma fold_keeps: "(\<And>x s. P s \<Longrightarrow> P (f x s)) \<Longrightarrow> P s \<Longrightarrow> P (fold f xs s)"
  by (induction xs arbitrary: s) auto

lemma take_request_pending:
  assumes "take_request en now evals si = (si', jb)"
  shows "pending_ok (sr_lib (en_sr en)) (jb_pending jb)"
proof -
  let ?w = "si_world si" and ?ex = "blocked_names (w_book (si_world si))"
  have "pending_ok (sr_lib (en_sr en)) (ik_append (fold (intake_row en ?w ?ex now) evals (intake_start ?w)))"
    by (rule fold_keeps [where P = "\<lambda>ik. pending_ok (sr_lib (en_sr en)) (ik_append ik)"])
       (simp_all add: intake_row_pending, simp add: intake_start_def pending_ok_def)
  then show ?thesis using assms by (auto simp: take_request_def Let_def)
qed

section \<open>Files an ingest touches\<close>

abbreviation site_tested :: "site \<Rightarrow> tested_files" where
  "site_tested si \<equiv> df_tested (w_disc (si_world si))"

lemma touch_heartbeat_files [simp]:
  "w_disc (si_world (touch_heartbeat_and_flight en payload now si)) = w_disc (si_world si)"
  "w_lib (si_world (touch_heartbeat_and_flight en payload now si)) = w_lib (si_world si)"
  "w_bh (si_world (touch_heartbeat_and_flight en payload now si)) = w_bh (si_world si)"
  "w_book (si_world (touch_heartbeat_and_flight en payload now si)) = w_book (si_world si)"
proof -
  have "w_disc (fst (touch_worker_world ev w a b c d e)) = w_disc w \<and>
      w_lib (fst (touch_worker_world ev w a b c d e)) = w_lib w \<and>
      w_bh (fst (touch_worker_world ev w a b c d e)) = w_bh w \<and>
      w_book (fst (touch_worker_world ev w a b c d e)) = w_book w" for ev w a b c d e
    by (simp add: touch_worker_world_def heartbeat_world_def split_beta split: option.splits)
  then show "w_disc (si_world (touch_heartbeat_and_flight en payload now si)) = w_disc (si_world si)"
    "w_lib (si_world (touch_heartbeat_and_flight en payload now si)) = w_lib (si_world si)"
    "w_bh (si_world (touch_heartbeat_and_flight en payload now si)) = w_bh (si_world si)"
    "w_book (si_world (touch_heartbeat_and_flight en payload now si)) = w_book (si_world si)"
    by (simp_all add: touch_heartbeat_and_flight_def Let_def)
qed

lemma clear_world_files [simp]:
  "w_disc (fst (clear_world ns w)) = w_disc w" "w_lib (fst (clear_world ns w)) = w_lib w"
  "w_bh (fst (clear_world ns w)) = w_bh w" "w_book (fst (clear_world ns w)) = w_book w"
  by (simp_all add: clear_world_def Let_def split_beta)

lemma take_request_files:
  assumes "take_request en now evals si = (si', jb)"
  shows "w_disc (si_world si') = w_disc (si_world si)" "w_lib (si_world si') = w_lib (si_world si)"
    "w_bh (si_world si') = w_bh (si_world si)" "w_book (si_world si') = w_book (si_world si)"
  using assms by (auto simp: take_request_def Let_def split: if_splits)

definition bh_shrinks :: "jv option \<Rightarrow> jv option \<Rightarrow> bool" where
  "bh_shrinks f f' \<longleftrightarrow> (\<forall>n. batch_is_pending BH_BATCH_ID f' n \<longrightarrow> batch_is_pending BH_BATCH_ID f n)"

lemma bh_shrinks_refl [simp]: "bh_shrinks f f"
  by (simp add: bh_shrinks_def)

lemma bh_shrinks_complete [simp]: "bh_shrinks f g \<Longrightarrow> bh_shrinks f (fst (complete_retest n t g))"
  unfolding bh_shrinks_def using bh_queue.store_antimono by blast

lemma force_one_bh: "bh_shrinks f (fc_bh s) \<Longrightarrow> bh_shrinks f (fc_bh (force_one en now source raw s))"
  by (simp add: force_one_def admit_qualified_def Let_def split: option.splits)

lemma force_admit_bh: "bh_shrinks f (fc_bh (force_admit en now source names st ex rows f))"
  unfolding force_admit_def
  by (rule fold_keeps [where P = "\<lambda>s. bh_shrinks f (fc_bh s)"]) (simp_all add: force_one_bh)

lemma finish_files:
  assumes "finish_ingest en payload rq now jb flipped fc auto si = (si', a)"
  shows "w_lib (si_world si') = w_lib (si_world si)" "w_bh (si_world si') = fc_bh fc"
    "w_disc (si_world si') = (if flipped \<noteq> [] \<or> fc_admitted fc \<noteq> []
       then save_discovery_log (sr_gen (en_sr en)) (fc_rows fc) (w_disc (si_world si)) else w_disc (si_world si))"
    "w_book (si_world si') = fst (enforce_on en now (save_admitted (fc_st fc) (auto @ fc_admitted fc) (w_book (si_world si))))"
  using assms by (auto simp: finish_ingest_def Let_def split_beta strategies_def)

lemma commit_cases:
  assumes "commit_request en payload rq now jb si = (si', r)"
  obtains (scan_error) e where "si' = si" "r = Inl e"
    | (seat_error) e se where "r = Inl e" "w_disc (si_world si') = w_disc (si_world si)"
      "w_lib (si_world si') = w_lib (si_world si)" "w_bh (si_world si') = w_bh (si_world si)"
      "seat_library_passes (sr_lib (en_sr en)) now (strategies (jb_written jb)) (jb_written jb)
         (jb_pool jb) (jb_existing jb) (w_book (si_world si)) = (se, Some e)"
      "w_book (si_world si') = (w_book (si_world si))\<lparr>bk_retired := se_archive se\<rparr>"
    | (committed) rows flipped se fc a si1 where
      "parked_scan en now (scan_needed rq si) jb si = Inr (rows, flipped)"
      "seat_library_passes (sr_lib (en_sr en)) now (strategies (jb_written jb)) (jb_written jb)
         (jb_pool jb) (jb_existing jb) (w_book (si_world si)) = (se, None)"
      "fc = force_admit en now (force_source en payload) (rq_force rq) (se_st se) (se_existing se) rows
         (w_bh (si_world si))"
      "w_book (si_world si1) = (w_book (si_world si))\<lparr>bk_retired := se_archive se\<rparr>"
      "w_disc (si_world si1) = w_disc (si_world si)" "w_lib (si_world si1) = w_lib (si_world si)"
      "finish_ingest en payload rq now jb flipped fc (se_admitted se) si1 = (si', a)" "r = Inr a"
proof (cases "parked_scan en now (scan_needed rq si) jb si")
  case (Inl e)
  then have "si' = si" "r = Inl e" using assms by (simp_all add: commit_request_def Let_def)
  then show ?thesis by (rule scan_error)
next
  case (Inr p)
  obtain rows flipped where p: "p = (rows, flipped)" by (cases p)
  obtain se err where se: "seat_library_passes (sr_lib (en_sr en)) now (strategies (jb_written jb)) (jb_written jb)
      (jb_pool jb) (jb_existing jb) (w_book (si_world si)) = (se, err)" by (meson surj_pair)
  show ?thesis
  proof (cases err)
    case None
    define fc where "fc = force_admit en now (force_source en payload) (rq_force rq) (se_st se) (se_existing se) rows
      (w_bh (si_world si))"
    let ?si1 = "si\<lparr>si_world := (si_world si)\<lparr>w_book := (w_book (si_world si))\<lparr>bk_retired := se_archive se\<rparr>\<rparr>,
      si_scanned := si_scanned si \<or> scan_needed rq si\<rparr>"
    obtain si2 a where a: "finish_ingest en payload rq now jb flipped fc (se_admitted se) ?si1 = (si2, a)"
      by (meson surj_pair)
    then have "si' = si2" "r = Inr a"
      using assms Inr p se None by (auto simp: commit_request_def Let_def fc_def map_prod_def)
    with a show ?thesis
      using committed [of rows flipped se fc ?si1 a] Inr p se None fc_def by simp
  next
    case (Some e)
    then show ?thesis
      using assms Inr p se by (auto simp: commit_request_def Let_def intro!: seat_error)
  qed
qed

lemma commit_files:
  assumes "commit_request en payload rq now jb si = (si', r)"
  shows "w_lib (si_world si') = w_lib (si_world si)"
    "bh_shrinks (w_bh (si_world si)) (w_bh (si_world si'))"
    "w_disc (si_world si') = w_disc (si_world si) \<or>
       (\<exists>g rows. w_disc (si_world si') = save_discovery_log g rows (w_disc (si_world si)))"
  using assms by (cases rule: commit_cases; auto simp: finish_files force_admit_bh)+

end
