(* ===== verification/IngestRuns.thy ===== *)
theory IngestRuns
  imports IngestFacts
begin

text \<open>
  Concurrent ingests: a step relation over the site and the requests in flight, each between its
  locked sections, with the other writers of the discovery files and crashed requests. The list
  of written rows is a ghost of the steps.
\<close>

section \<open>An append\<close>

definition known :: "site \<Rightarrow> string set" where
  "known si = tested_in (site_tested si)"

lemma still_valid_files:
  assumes "still_valid gen k n si = (si', ok)"
  shows "w_lib (si_world si') = w_lib (si_world si)" "w_bh (si_world si') = w_bh (si_world si)"
    "w_disc (si_world si') = w_disc (si_world si) \<or>
       w_disc (si_world si') = fst (cached_tested_names gen (w_disc (si_world si)))"
  using assms by (cases k; auto simp: with_disc_def split_beta split: if_splits)+

lemma still_valid_fresh:
  "still_valid gen Fresh n si = (si', True) \<Longrightarrow> n \<notin> known si"
  by (auto simp: known_def tested_name_set_def split_beta split: if_splits)

lemma close_retest_files [simp]:
  "w_disc (si_world (close_retest k n t si)) = w_disc (si_world si)"
  "w_lib (si_world (close_retest k n t si)) =
     (if k = LibraryRetest then fst (complete_library_retest n t (w_lib (si_world si))) else w_lib (si_world si))"
  "w_bh (si_world (close_retest k n t si)) =
     (if k = BhRetest then fst (complete_retest n t (w_bh (si_world si))) else w_bh (si_world si))"
  by (cases k; simp)+

lemma with_disc_files [simp]:
  "w_disc (si_world (with_disc f si)) = f (w_disc (si_world si))"
  "w_lib (si_world (with_disc f si)) = w_lib (si_world si)" "w_bh (si_world (with_disc f si)) = w_bh (si_world si)"
  by (simp_all add: with_disc_def)

lemma append_row_cases:
  assumes "append_row gen (rec, k) si = (si', ok)"
  obtains (refused) si1 where "\<not> ok" "still_valid gen k (eval_name rec) si = (si1, False)" "si' = si1"
    | (written) si1 where "ok" "still_valid gen k (eval_name rec) si = (si1, True)"
      "w_disc (si_world si') = fst (append_batch DISCOVERY_LOG_CAP [rec] (w_disc (si_world si1)))"
      "w_lib (si_world si') = w_lib (si_world (close_retest k (eval_name rec) (jget rec ''tested_at'') si1))"
      "w_bh (si_world si') = w_bh (si_world (close_retest k (eval_name rec) (jget rec ''tested_at'') si1))"
proof -
  obtain si1 b where v: "still_valid gen k (eval_name rec) si = (si1, b)" by (meson surj_pair)
  show ?thesis
  proof (cases b)
    case False
    then have "\<not> ok" "si' = with_disc (\<lambda>d. d) si1 \<or> si' = si1"
      using assms v by (auto simp: append_row_def append_discovery_evaluations_def)
    moreover have "with_disc (\<lambda>d. d) si1 = si1" by (simp add: with_disc_def)
    ultimately show ?thesis using v False refused by auto
  next
    case True
    obtain df rows where b: "append_batch DISCOVERY_LOG_CAP [rec] (w_disc (si_world si1)) = (df, rows)"
      by (meson surj_pair)
    from True have "ok" "si' = close_retest k (eval_name rec) (jget rec ''tested_at'') (with_disc (\<lambda>d. df) si1)"
      using assms v b by (auto simp: append_row_def append_discovery_evaluations_def)
    then show ?thesis using v True b by (intro written [of si1]) simp_all
  qed
qed

lemma retest_pending:
  "retest_entry f n \<noteq> None \<Longrightarrow> batch_is_pending BH_BATCH_ID f n"
  "library_retest_entry f n \<noteq> None \<Longrightarrow> batch_is_pending LIB_BATCH_ID f n"
  by (auto simp: retest_entry_def library_retest_entry_def batch_retest_entry_def batch_is_pending_def
      split: option.splits if_splits)

section \<open>The system\<close>

record system =
  sy_site :: site
  sy_jobs :: "job list"
  sy_log :: "(jv \<times> row_kind) list"

definition append_at :: "string \<Rightarrow> nat \<Rightarrow> system \<Rightarrow> system" where
  "append_at gen i s =
     (let jb = sy_jobs s ! i; (si, jb') = append_next gen (sy_site s, jb)
      in s\<lparr>sy_site := si, sy_jobs := (sy_jobs s)[i := jb'],
           sy_log := sy_log s @ (if jb_written jb' = jb_written jb then [] else [hd (jb_pending jb)])\<rparr>)"

text \<open>
  \<open>commit\<close>: a request commits after its last append and is answered. \<open>die\<close>: its process is gone. \<open>files\<close>: one
  step of another writer of the discovery files, crashes included. \<open>others\<close>: claims, heartbeats,
  releases, promotions and the like, which leave the log and the retest files alone.
\<close>

inductive sys_step :: "ingest_env \<Rightarrow> system \<Rightarrow> system \<Rightarrow> bool" where
  take: "take_request en now evals (sy_site s) = (si, jb) \<Longrightarrow>
     sys_step en s (s\<lparr>sy_site := si, sy_jobs := sy_jobs s @ [jb]\<rparr>)"
| append: "i < length (sy_jobs s) \<Longrightarrow> sys_step en s (append_at (sr_gen (en_sr en)) i s)"
| commit: "sy_jobs s = js @ jb # ks \<Longrightarrow> jb_pending jb = [] \<Longrightarrow>
     commit_request en payload rq now jb (sy_site s) = (si, r) \<Longrightarrow>
     sys_step en s (s\<lparr>sy_site := si, sy_jobs := js @ ks\<rparr>)"
| die: "sy_jobs s = js @ jb # ks \<Longrightarrow> sys_step en s (s\<lparr>sy_jobs := js @ ks\<rparr>)"
| files: "df_step (w_disc (si_world (sy_site s))) l df \<Longrightarrow>
     sys_step en s (s\<lparr>sy_site := with_disc (\<lambda>d. df) (sy_site s)\<rparr>)"
| others: "w_disc (si_world si) = w_disc (si_world (sy_site s)) \<Longrightarrow> w_lib (si_world si) = w_lib (si_world (sy_site s)) \<Longrightarrow>
     bh_shrinks (w_bh (si_world (sy_site s))) (w_bh (si_world si)) \<Longrightarrow> sys_step en s (s\<lparr>sy_site := si\<rparr>)"

inductive_cases sys_stepE: "sys_step en s s'"

inductive sys_run :: "ingest_env \<Rightarrow> system \<Rightarrow> system \<Rightarrow> bool" where
  refl: "sys_run en s s"
| step: "sys_run en s s' \<Longrightarrow> sys_step en s' s'' \<Longrightarrow> sys_run en s s''"

definition written :: "row_kind \<Rightarrow> system \<Rightarrow> string list" where
  "written k s = map (eval_name \<circ> fst) (filter (\<lambda>e. snd e = k) (sy_log s))"

abbreviation sys_tested :: "system \<Rightarrow> string set" where
  "sys_tested s \<equiv> known (sy_site s)"

definition sys_ok :: "lib_strategy list \<Rightarrow> string set \<Rightarrow> system \<Rightarrow> bool" where
  "sys_ok lib T s \<longleftrightarrow>
     tested_ok (site_tested (sy_site s)) \<and> T \<subseteq> sys_tested s \<and>
     distinct (written Fresh s) \<and> set (written Fresh s) \<subseteq> sys_tested s - T \<and>
     distinct (written LibraryRetest s) \<and>
     (\<forall>n \<in> set (written LibraryRetest s). \<not> batch_is_pending LIB_BATCH_ID (w_lib (si_world (sy_site s))) n) \<and>
     distinct (written BhRetest s) \<and>
     (\<forall>n \<in> set (written BhRetest s). \<not> batch_is_pending BH_BATCH_ID (w_bh (si_world (sy_site s))) n) \<and>
     (\<forall>e \<in> set (sy_log s). accepted lib (fst e)) \<and> (\<forall>jb \<in> set (sy_jobs s). pending_ok lib (jb_pending jb))"

text \<open>Steps that add no row keep the invariant when they lose no name and lift no retest.\<close>

lemma sys_ok_quiet:
  assumes "sys_ok lib T s" "sy_log s' = sy_log s"
    and "tested_ok (site_tested (sy_site s'))" "sys_tested s \<subseteq> sys_tested s'"
    and "w_lib (si_world (sy_site s')) = w_lib (si_world (sy_site s))"
    and "bh_shrinks (w_bh (si_world (sy_site s))) (w_bh (si_world (sy_site s')))"
    and "\<forall>jb \<in> set (sy_jobs s'). pending_ok lib (jb_pending jb)"
  shows "sys_ok lib T s'"
proof -
  have w: "written k s' = written k s" for k using assms(2) by (simp add: written_def)
  show ?thesis using assms unfolding sys_ok_def bh_shrinks_def w by (simp, blast)
qed

lemma cached_names_step: "df_step df NamesRead (fst (cached_tested_names g df))"
  by (rule df_step.read_names)

lemma still_valid_tested:
  assumes "still_valid gen k n si = (si', ok)" "tested_ok (site_tested si)"
  shows "tested_ok (site_tested si')" "known si \<subseteq> known si'"
  using still_valid_files(3) [OF assms(1)] df_step_names [OF cached_names_step [of _ gen] assms(2)] assms(2)
  unfolding known_def by (metis, metis order_refl)

lemma append_next_cases:
  assumes "append_next gen (si, jb) = (si', jb')"
  obtains (idle) "jb_pending jb = []" "si' = si" "jb' = jb"
    | (refused) rec k es where "jb_pending jb = (rec, k) # es" "jb_pending jb' = es"
      "jb_written jb' = jb_written jb" "append_row gen (rec, k) si = (si', False)"
    | (written) rec k es si1 where "jb_pending jb = (rec, k) # es" "jb_pending jb' = es"
      "jb_written jb' = jb_written jb @ [rec]" "append_row gen (rec, k) si = (si1, True)"
      "si_world si' = si_world si1"
  using assms
proof (cases "jb_pending jb")
  case Nil
  then have "si' = si" "jb' = jb" using assms by (simp_all add: append_next_def)
  with Nil show ?thesis by (rule idle)
next
  case (Cons e es)
  obtain rec k where e: "e = (rec, k)" by (cases e)
  obtain si1 ok where a: "append_row gen e si = (si1, ok)" by (meson surj_pair)
  show ?thesis
  proof (cases ok)
    case True
    then show ?thesis using assms Cons a e by (auto simp: append_next_def intro!: written)
  next
    case False
    then show ?thesis using assms Cons a e by (auto simp: append_next_def intro!: refused)
  qed
qed

lemma written_snoc:
  "sy_log s' = sy_log s @ [(rec, k)] \<Longrightarrow> written j s' = written j s @ (if j = k then [eval_name rec] else [])"
  by (simp add: written_def)

lemma append_written_ok:
  assumes ok: "sys_ok lib T s" and acc: "accepted lib rec" and row: "append_row gen (rec, k) (sy_site s) = (si1, True)"
    and s': "sy_log s' = sy_log s @ [(rec, k)]" "si_world (sy_site s') = si_world si1"
    and jobs: "\<forall>jb \<in> set (sy_jobs s'). pending_ok lib (jb_pending jb)"
  shows "sys_ok lib T s'"
  using row
proof (cases rule: append_row_cases)
  case (written si0)
  let ?n = "eval_name rec"
  have t: "tested_ok (site_tested (sy_site s))" using ok by (simp add: sys_ok_def)
  note v = still_valid_tested [OF written(2) t] and f = still_valid_files [OF written(2)]
  have name: "List.map_filter row_name [rec] = [?n]"
    using acc by (simp add: accepted_def map_filter_simps)
  have after: "tested_ok (site_tested (sy_site s'))" "sys_tested s' = known si0 \<union> {?n}"
    using overlay_rows_names [OF v(1), of "[rec]"] name
    by (simp_all add: known_def s'(2) written(3) append_batch_def del: set_map)
  have fresh: "?n \<notin> sys_tested s" if "k = Fresh" using still_valid_fresh written(2) that by blast
  have lib: "?n \<notin> set (IngestRuns.written LibraryRetest s)" if "k = LibraryRetest"
    using written(2) that ok retest_pending(2) [of "w_lib (si_world (sy_site s))" ?n]
    by (auto simp: sys_ok_def)
  have bh: "?n \<notin> set (IngestRuns.written BhRetest s)" if "k = BhRetest"
    using written(2) that ok retest_pending(1) [of "w_bh (si_world (sy_site s))" ?n]
    by (auto simp: sys_ok_def)
  have libf: "\<not> batch_is_pending LIB_BATCH_ID (w_lib (si_world (sy_site s'))) m"
    if "\<not> batch_is_pending LIB_BATCH_ID (w_lib (si_world (sy_site s))) m \<or> k = LibraryRetest \<and> m = ?n" for m
    using that f(1) library_queue.store_done library_queue.store_antimono
    by (auto simp: s'(2) written(4) split: if_splits)
  have bhf: "\<not> batch_is_pending BH_BATCH_ID (w_bh (si_world (sy_site s'))) m"
    if "\<not> batch_is_pending BH_BATCH_ID (w_bh (si_world (sy_site s))) m \<or> k = BhRetest \<and> m = ?n" for m
    using that f(2) bh_queue.store_done bh_queue.store_antimono
    by (auto simp: s'(2) written(5) split: if_splits)
  have "T \<subseteq> sys_tested s" using ok by (simp add: sys_ok_def)
  then have T: "T \<subseteq> sys_tested s'" "k = Fresh \<Longrightarrow> ?n \<notin> T" using v(2) after(2) fresh by blast+
  show ?thesis
    using ok after T fresh lib bh libf bhf acc jobs v(2)
    by (auto simp: sys_ok_def written_snoc [OF s'(1)] s'(1) split: if_splits)
qed simp

lemma pending_after_update:
  "\<forall>jb \<in> set js. pending_ok lib (jb_pending jb) \<Longrightarrow> pending_ok lib (jb_pending jb') \<Longrightarrow>
     \<forall>jb \<in> set (js[i := jb']). pending_ok lib (jb_pending jb)"
  using set_update_subset_insert [of js i jb'] by blast

lemma append_at_ok:
  assumes ok: "sys_ok lib T s" and i: "i < length (sy_jobs s)"
  shows "sys_ok lib T (append_at gen i s)"
proof -
  obtain si' jb' where n: "append_next gen (sy_site s, sy_jobs s ! i) = (si', jb')" by (meson surj_pair)
  have jobs: "\<forall>jb \<in> set (sy_jobs s). pending_ok lib (jb_pending jb)"
    and t: "tested_ok (site_tested (sy_site s))" using ok by (simp_all add: sys_ok_def)
  then have p: "pending_ok lib (jb_pending (sy_jobs s ! i))" using i by simp
  have eq: "append_at gen i s = s\<lparr>sy_site := si', sy_jobs := (sy_jobs s)[i := jb'], sy_log := sy_log s @
      (if jb_written jb' = jb_written (sy_jobs s ! i) then [] else [hd (jb_pending (sy_jobs s ! i))])\<rparr>"
    by (simp add: append_at_def Let_def n)
  show ?thesis
    using n
  proof (cases rule: append_next_cases)
    case idle
    then have "append_at gen i s = s" using i by (simp add: eq)
    with ok show ?thesis by simp
  next
    case (refused rec k es)
    from refused(4) obtain b where v: "still_valid gen k (eval_name rec) (sy_site s) = (si', b)"
      by (cases rule: append_row_cases) auto
    have "pending_ok lib (jb_pending jb')" using p refused(1,2) by (simp add: pending_ok_def)
    then show ?thesis
      using sys_ok_quiet [OF ok, of "append_at gen i s"] refused(3) still_valid_tested [OF v t]
        still_valid_files(1,2) [OF v] pending_after_update [OF jobs] by (simp add: eq)
  next
    case (written rec k es si1)
    have "pending_ok lib (jb_pending jb')" "accepted lib rec" using p written(1,2) by (simp_all add: pending_ok_def)
    then show ?thesis
      using append_written_ok [OF ok _ written(4), of "append_at gen i s"] written
        pending_after_update [OF jobs, of jb' i] by (simp add: eq)
  qed
qed

lemma sys_step_ok:
  assumes "sys_step en s s'" "sys_ok (sr_lib (en_sr en)) T s"
  shows "sys_ok (sr_lib (en_sr en)) T s'"
  using assms
proof (induction rule: sys_step.induct)
  case (take en now evals s si jb)
  then show ?case
    using sys_ok_quiet [OF take.prems, of "s\<lparr>sy_site := si, sy_jobs := sy_jobs s @ [jb]\<rparr>"]
      take_request_files [OF take.hyps] take_request_pending [OF take.hyps] by (auto simp: sys_ok_def known_def)
next
  case (append i s en)
  then show ?case by (simp add: append_at_ok)
next
  case (commit s js jb ks en payload rq now si r)
  have t: "tested_ok (site_tested (sy_site s))" using commit.prems by (simp add: sys_ok_def)
  note f = commit_files [OF commit.hyps(3)]
  have "tested_ok (site_tested si) \<and> sys_tested s \<subseteq> known si"
    using f(3) df_step_names [OF df_step.save t] t unfolding known_def by (metis order_refl)
  then show ?case
    using sys_ok_quiet [OF commit.prems, of "s\<lparr>sy_site := si, sy_jobs := js @ ks\<rparr>"] f(1,2) commit.prems commit.hyps(1)
    by (auto simp: sys_ok_def)
next
  case (die s js jb ks en)
  then show ?case using sys_ok_quiet [OF die.prems, of "s\<lparr>sy_jobs := js @ ks\<rparr>"] by (auto simp: sys_ok_def)
next
  case (files s l df en)
  then show ?case
    using sys_ok_quiet [OF files.prems, of "s\<lparr>sy_site := with_disc (\<lambda>d. df) (sy_site s)\<rparr>"] df_step_names [OF files.hyps]
    by (auto simp: sys_ok_def known_def simp del: set_map)
next
  case (others si s en)
  then show ?case using sys_ok_quiet [OF others.prems, of "s\<lparr>sy_site := si\<rparr>"] by (auto simp: sys_ok_def known_def)
qed

lemma sys_run_ok: "sys_run en s s' \<Longrightarrow> sys_ok (sr_lib (en_sr en)) T s \<Longrightarrow> sys_ok (sr_lib (en_sr en)) T s'"
  by (induction rule: sys_run.induct) (auto intro: sys_step_ok)

definition idle_system :: "site \<Rightarrow> system" where
  "idle_system si = \<lparr>sy_site = si, sy_jobs = [], sy_log = []\<rparr>"

lemma idle_ok: "tested_ok (site_tested si) \<Longrightarrow> sys_ok lib (known si) (idle_system si)"
  by (simp add: sys_ok_def idle_system_def written_def)

end
