(* ===== verification/CommitFacts.thy ===== *)
theory CommitFacts
  imports IngestFacts
begin

text \<open>
  What the last section of an ingest does to the pool and to the log: the rows it appends, the
  names it can leave there, and the rows the parked scan flips.
\<close>

section \<open>The pool\<close>

definition pool_names :: "jv \<Rightarrow> string list" where
  "pool_names st = List.map_filter name_text (pool_rows st)"

lemma map_filter_append: "List.map_filter f (xs @ ys) = List.map_filter f xs @ List.map_filter f ys"
  by (simp add: List.map_filter_def)

lemma pool_names_save [simp]: "pool_names (save_pool st f) = pool_names st"
  by (simp add: pool_names_def rows_save_pool List.map_filter_def filter_map comp_def)

lemma enforce_pool_names:
  "set (pool_names (load_pool (bk_pool (fst (enforce_champion_families now bid lookup lots bk)))))
     \<subseteq> set (pool_names (load_pool (bk_pool bk)))"
proof -
  have p: "set (pool_names (jset ''champions'' (JList (filter P (pool_rows st))) st)) \<subseteq> set (pool_names st)" for P st
  proof (cases "is_dict st")
    case True
    then show ?thesis by (auto simp: pool_names_def in_map_filter)
  qed (cases st; simp add: pool_names_def)
  then show ?thesis
    unfolding enforce_champion_families_def Let_def split_beta
    by (auto simp: load_pool_def [of "Some _"])
qed

lemma enforce_on_names:
  "set (pool_names (load_pool (bk_pool (fst (enforce_on en now bk))))) \<subseteq> set (pool_names (load_pool (bk_pool bk)))"
  using enforce_pool_names by (simp add: enforce_on_def split_beta)

lemma save_admitted_names:
  "pool_names (load_pool (bk_pool (save_admitted st admitted bk))) =
     (if admitted = [] then pool_names (load_pool (bk_pool bk)) else pool_names st)"
  by (simp add: save_admitted_def load_pool_def [of "Some _"])

section \<open>Explicit admits\<close>

definition forces :: "forcing \<Rightarrow> forcing \<Rightarrow> string list \<Rightarrow> bool" where
  "forces s s' new \<longleftrightarrow>
     is_dict (fc_st s') \<and> fc_admitted s' = fc_admitted s @ new \<and>
     pool_names (fc_st s') = pool_names (fc_st s) @ new \<and> set new \<inter> set (fc_existing s) = {} \<and> distinct new \<and>
     set (fc_existing s') = set (fc_existing s) \<union> set new"

lemma pool_names_append [simp]:
  "is_dict st \<Longrightarrow> jget row ''name'' = JStr n \<Longrightarrow> pool_names (append_champion row st) = pool_names st @ [n]"
  by (simp add: pool_names_def map_filter_append name_text_def map_filter_simps)

lemma force_one_forces:
  "is_dict (fc_st s) \<Longrightarrow> \<exists>new. forces s (force_one en now source raw s) new"
  by (cases "is_str raw \<and> strip (text_of en raw) \<noteq> []";
      cases "strip (text_of en raw) \<in> set (fc_existing s)";
      cases "newest_row (fc_rows s) (strip (text_of en raw))")
     (auto simp: force_one_def forces_def admit_qualified_def Let_def)

lemma forces_trans: "forces s s1 xs \<Longrightarrow> forces s1 s' ys \<Longrightarrow> forces s s' (xs @ ys)"
  by (auto simp: forces_def)

lemma fold_forces: "is_dict (fc_st s) \<Longrightarrow> \<exists>new. forces s (fold (force_one en now source) raws s) new"
proof (induction raws arbitrary: s)
  case Nil
  then show ?case by (intro exI [of _ "[]"]) (simp add: forces_def)
next
  case (Cons raw raws)
  from force_one_forces [OF Cons.prems] obtain xs where x: "forces s (force_one en now source raw s) xs" by blast
  then have "is_dict (fc_st (force_one en now source raw s))" by (simp add: forces_def)
  from Cons.IH [OF this] x forces_trans show ?case by fastforce
qed

lemma force_admit_pool:
  assumes "is_dict st" "fc = force_admit en now source names st ex rows bh"
  shows "pool_names (fc_st fc) = pool_names st @ fc_admitted fc" "set (fc_admitted fc) \<inter> set ex = {}"
    "distinct (fc_admitted fc)"
proof -
  have "\<exists>new. forces \<lparr>fc_st = st, fc_existing = ex, fc_rows = rows, fc_bh = bh, fc_skipped = [], fc_admitted = []\<rparr> fc new"
    unfolding assms(2) force_admit_def by (rule fold_forces) (simp add: assms(1))
  then show "pool_names (fc_st fc) = pool_names st @ fc_admitted fc" "set (fc_admitted fc) \<inter> set ex = {}"
    "distinct (fc_admitted fc)" by (auto simp: forces_def)
qed

section \<open>A commit\<close>

lemma seats_pool_names:
  "seats lib now graduated reevaluated recs s s' new \<Longrightarrow>
     pool_names (se_st s') = pool_names (se_st s) @ map fst new \<and> se_admitted s' = se_admitted s @ map fst new"
proof -
  assume s: "seats lib now graduated reevaluated recs s s' new"
  then have "\<forall>(n, row) \<in> set new. name_text row = Some n"
    by (auto simp: seats_def seat_of_def name_text_def)
  then have "List.map_filter name_text (map snd new) = map fst new"
    by (induction new) (auto simp: map_filter_simps)
  with s show ?thesis by (simp add: seats_def pool_names_def map_filter_append)
qed

text \<open>The names a commit seats, and the pool it leaves\<close>

lemma commit_seats:
  assumes c: "commit_request en payload rq now jb si = (si', Inr a)" and st: "is_dict (jb_pool jb)"
  obtains new where
    "an_auto a = map fst new" "an_admitted a = first_by id [] (map fst new @ an_forced a)" "distinct (map fst new)"
    "\<forall>(n, row) \<in> set new. seat_of (sr_lib (en_sr en)) now (jb_written jb) n row"
    "set (map fst new) \<inter> set (graduated_names (bk_grads (w_book (si_world si)))) = {}"
    "set (map fst new) \<inter> set (pool_names (jb_pool jb)) = {}" "rq_force rq = [] \<Longrightarrow> an_forced a = []"
    "set (pool_names (load_pool (bk_pool (w_book (si_world si'))))) \<subseteq>
       (if an_admitted a = [] then set (pool_names (load_pool (bk_pool (w_book (si_world si)))))
        else set (pool_names (jb_pool jb)) \<union> set (an_admitted a))"
  using c
proof (cases rule: commit_cases)
  case (committed rows flipped se fc b si1)
  have ab: "b = a" using committed(8) by simp
  from seat_library_seats [OF committed(2) st] obtain new where
    new: "seats (sr_lib (en_sr en)) now (graduated_names (bk_grads (w_book (si_world si)))) (strategies (jb_written jb))
      (jb_written jb) (seating_start (jb_pool jb) (jb_existing jb) (bk_retired (w_book (si_world si)))) se new" by blast
  note pn = seats_pool_names [OF new, simplified]
  have d: "is_dict (se_st se)" using new by (simp add: seats_def)
  note fp = force_admit_pool [OF d committed(3)]
  have an: "an_auto a = se_admitted se" "an_forced a = fc_admitted fc"
      "an_admitted a = first_by id [] (se_admitted se @ fc_admitted fc)"
    using committed(7) ab by (auto simp: finish_ingest_def Let_def split_beta)
  have none: "an_forced a = []" if "rq_force rq = []"
    using that an(2) committed(3) by (simp add: force_admit_def)
  have pooled: "List.map_filter name_text (filter is_dict (pool_rows (jb_pool jb))) = pool_names (jb_pool jb)"
  proof -
    have "List.map_filter name_text (filter is_dict xs) = List.map_filter name_text xs" for xs
      by (induction xs) (auto simp: map_filter_simps name_text_def split: option.splits)
    then show ?thesis by (simp add: pool_names_def)
  qed
  have firsts: "set (first_by id [] ns) = set ns" for ns :: "string list"
    using first_by_keys [of id "[]" ns] by simp
  have empty: "first_by id [] ns = [] \<longleftrightarrow> ns = []" for ns :: "string list"
    using firsts [of ns] by (metis set_empty)
  have "set (pool_names (load_pool (bk_pool (w_book (si_world si'))))) \<subseteq>
      set (pool_names (load_pool (bk_pool (save_admitted (fc_st fc) (se_admitted se @ fc_admitted fc)
        (w_book (si_world si1))))))"
    unfolding finish_files(4) [OF committed(7)] by (rule enforce_on_names)
  also have "\<dots> = (if se_admitted se @ fc_admitted fc = [] then set (pool_names (load_pool (bk_pool (w_book (si_world si)))))
      else set (pool_names (jb_pool jb) @ se_admitted se @ fc_admitted fc))"
    using fp(1) pn committed(4) by (simp add: save_admitted_names)
  finally have pool: "set (pool_names (load_pool (bk_pool (w_book (si_world si'))))) \<subseteq>
      (if an_admitted a = [] then set (pool_names (load_pool (bk_pool (w_book (si_world si)))))
       else set (pool_names (jb_pool jb)) \<union> set (an_admitted a))"
    using firsts empty an(3) by (auto split: if_splits)
  show ?thesis
    using new pn an pooled pool none by (intro that [of new]) (auto simp: seats_def)
qed auto

text \<open>
  A library field that is neither a dict nor false passes the validation, but no centre can be
  written into it: the commit raises after the row was logged.
\<close>

lemma broken_library_block:
  assumes "library_ok lib" "s \<in> set lib" "library_pass lib raw = Some (NAME_PREFIX @ ls_key s)"
    and "truthy (jget raw ''library'')" "\<not> is_dict (jget raw ''library'')"
  shows "with_center_params lib raw = Inl (TypeError ''library is not a dict'')"
  using assms parse_claim_name [OF assms(1,2)] library_pass_name [OF assms(3)]
  by (simp add: with_center_params_def Let_def)

section \<open>The parked scan\<close>

lemma flip_row_get:
  assumes "is_dict row"
  shows "row_name (flip_row stamp d row) = row_name row" "jget (flip_row stamp d row) ''qualified'' = JBool True"
    "jget (flip_row stamp d row) ''fail_reasons'' = JList []"
  using assms by (simp_all add: flip_row_def Let_def)

lemma parked_candidate_dict: "parked_candidate existing name row \<Longrightarrow> is_dict row"
  by (simp add: parked_candidate_def v4_attestation_ok_def Let_def)

lemma parked_candidateD:
  assumes "parked_candidate existing name row"
  shows "\<not> truthy (jget row ''qualified'')" "name \<notin> set existing" "\<not> is_ops_park_record row"
    "\<not> is_library_name name" "jget row ''gate_rules'' = JStr GATE_RULES" "v4_attestation_ok row"
  using assms by (simp_all add: parked_candidate_def)

text \<open>
  Position by position, a row of the log is unchanged, or was a candidate whose stored aggregates pass.
\<close>

definition flipped_from :: "int \<Rightarrow> jv \<Rightarrow> string list \<Rightarrow> jv \<Rightarrow> jv \<Rightarrow> bool" where
  "flipped_from n stamp existing row row' \<longleftrightarrow>
     (\<exists>name d. row_name row = Some name \<and> parked_candidate existing name row \<and>
        qualification_from_record n row = Inr d \<and> dec_passed d \<and> row' = flip_row stamp d row)"

lemma flip_parked_rows:
  "flip_parked n stamp existing ks rows = Inr (rows', flipped) \<Longrightarrow>
     list_all2 (\<lambda>row row'. row' = row \<or> flipped_from n stamp existing row row') rows rows' \<and>
     set flipped \<subseteq> set rows' \<and> (\<forall>row' \<in> set flipped. \<exists>row \<in> set rows. flipped_from n stamp existing row row')"
proof (induction n stamp existing ks rows arbitrary: rows' flipped rule: flip_parked.induct)
  case (2 n stamp existing ks row rows)
  then show ?case
    by (fastforce simp: bind_result_Inr flipped_from_def split: option.splits if_splits)
qed simp

end
