(* ===== verification/IngestProperties.thy ===== *)
theory IngestProperties
  imports IngestRuns CommitFacts
begin

text \<open>
  The properties of the result ingest (\<open>trading/ingest.py\<close>, \<open>trading/approved_admit.py\<close>): fail-once and one
  row per retest across concurrent requests, what a row needs to be written, who is seated and
  with which parameters, what the parked scan may change, and the seat a stale pool loses.
\<close>

section \<open>Samples\<close>

definition sma200 :: lib_strategy where
  "sma200 = \<lparr>ls_key = ''sma200'', ls_title = ''SMA 200'',
     ls_params = [\<lparr>lp_name = ''n'', lp_center = 200, lp_neighbours = [150, 250]\<rparr>], ls_stop = 1 / 5\<rparr>"

definition quiet_files :: disc_files where
  "quiet_files = \<lparr>df_log = \<lparr>lf_base = None, lf_delta = None\<rparr>, df_tested = \<lparr>tf_base = None, tf_journal = None\<rparr>\<rparr>"

definition quiet_world :: world where
  "quiet_world = \<lparr>w_leases = None, w_requal = None, w_bh = None, w_lib = None, w_disc = quiet_files, w_farm = None,
     w_book = \<lparr>bk_pool = None, bk_grads = None, bk_retired = None\<rparr>, w_extended = None, w_refill = None\<rparr>"

definition quiet_site :: site where
  "quiet_site = \<lparr>si_world = quiet_world, si_results = None, si_flight = None, si_scanned = True\<rparr>"

definition sample_env :: ingest_env where
  "sample_env = \<lparr>en_sr = \<lparr>sr_tape = (\<lambda>n. None), sr_lib = [sma200], sr_gen = ''g'', sr_mode = None,
     sr_mint = (\<lambda>ns n. ([], JObj []))\<rparr>, en_timeout = Unset, en_windows = 24, en_repr = (\<lambda>v. ''''),
     en_metrics = (\<lambda>n. None), en_lots = (\<lambda>n. 0), en_batch = ''families''\<rparr>"

definition failed_row :: "string \<Rightarrow> int \<Rightarrow> jv" where
  "failed_row n t = JObj [(''strategy'', JStr n), (''tested_at'', JTime t), (''qualified'', JBool False),
     (''gate_rules'', JStr GATE_RULES)]"

definition pass_row :: "int \<Rightarrow> jv" where
  "pass_row t = JObj [(''strategy'', JStr ''lib.sma200''), (''tested_at'', JTime t), (''qualified'', JBool True),
     (''gate_rules'', JStr GATE_RULES),
     (''gate_v4'', JObj [(''passed'', JBool True), (''rules'', JStr GATE_RULES)])]"

lemma quiet_ok: "tested_ok (site_tested quiet_site)"
  by (simp add: quiet_site_def quiet_world_def quiet_files_def tested_ok_def journal_ok_def index_ok_def
      derived_now_def base_doc_def read_journal_lines_def flags_from_document_def metrics_from_document_def
      apply_lines_def map_filter_simps sort_key_def)

section \<open>Concurrent requests\<close>

text \<open>
  C14. Fail-once holds across concurrent ingests: however the locked sections of any number of requests
  interleave with each other, with compactions, crashes and the other writers of the log, a name is written
  as new at most once and only when no result of it was known, and a pending retest of either batch is
  written at most once.
\<close>

theorem fail_once_across_ingests:
  assumes "sys_run en (idle_system si) s" "tested_ok (site_tested si)"
  shows "distinct (written Fresh s) \<and> set (written Fresh s) \<inter> set (tested_name_set (site_tested si)) = {} \<and>
    distinct (written LibraryRetest s) \<and> distinct (written BhRetest s)"
proof -
  have "sys_ok (sr_lib (en_sr en)) (known si) s" using sys_run_ok [OF assms(1) idle_ok [OF assms(2)]] .
  then show ?thesis by (auto simp: sys_ok_def known_def tested_name_set_def)
qed

text \<open>A request retried before the first copy has appended\<close>

definition sample_taken :: "site \<times> job" where
  "sample_taken = take_request sample_env 100 [failed_row ''a'' 5] quiet_site"

definition retried :: system where
  "retried = \<lparr>sy_site = fst (take_request sample_env 100 [failed_row ''a'' 5] (fst sample_taken)),
     sy_jobs = [snd sample_taken, snd (take_request sample_env 100 [failed_row ''a'' 5] (fst sample_taken))], sy_log = []\<rparr>"

lemma retried_run: "sys_run sample_env (idle_system quiet_site) retried"
proof -
  let ?s1 = "(idle_system quiet_site)\<lparr>sy_site := fst sample_taken, sy_jobs := sy_jobs (idle_system quiet_site) @ [snd sample_taken]\<rparr>"
  let ?t2 = "take_request sample_env 100 [failed_row ''a'' 5] (fst sample_taken)"
  have "sys_step sample_env (idle_system quiet_site) ?s1"
    by (rule sys_step.take [where now = 100 and evals = "[failed_row ''a'' 5]"])
       (simp add: idle_system_def sample_taken_def)
  moreover have "sys_step sample_env ?s1 (?s1\<lparr>sy_site := fst ?t2, sy_jobs := sy_jobs ?s1 @ [snd ?t2]\<rparr>)"
    by (rule sys_step.take [where now = 100 and evals = "[failed_row ''a'' 5]"]) simp
  moreover have "?s1\<lparr>sy_site := fst ?t2, sy_jobs := sy_jobs ?s1 @ [snd ?t2]\<rparr> = retried"
    by (simp add: retried_def idle_system_def)
  ultimately show ?thesis by (metis sys_run.refl sys_run.step)
qed

definition retried_twice :: system where
  "retried_twice = append_at ''g'' 1 (append_at ''g'' 0 retried)"

lemma append_at_jobs [simp]: "length (sy_jobs (append_at gen i s)) = length (sy_jobs s)"
  by (simp add: append_at_def Let_def split_beta)

lemma retried_twice_run: "sys_run sample_env (idle_system quiet_site) retried_twice"
proof -
  have "sr_gen (en_sr sample_env) = ''g''" by (simp add: sample_env_def)
  moreover have "length (sy_jobs retried) = 2" by (simp add: retried_def)
  ultimately have "sys_step sample_env retried (append_at ''g'' 0 retried)"
    "sys_step sample_env (append_at ''g'' 0 retried) retried_twice"
    using sys_step.append [of 0 retried sample_env] sys_step.append [of 1 "append_at ''g'' 0 retried" sample_env]
    by (simp_all add: retried_twice_def)
  then show ?thesis using retried_run sys_run.step by blast
qed

theorem fail_once_across_ingests_witness: "distinct (written Fresh retried_twice)"
  using fail_once_across_ingests [OF retried_twice_run quiet_ok] by blast

text \<open>What the last section may write into the log: rows it flipped, and rows a force_admit of the request names.\<close>

definition attested :: "jv \<Rightarrow> bool" where
  "attested row \<longleftrightarrow> jget row ''gate_rules'' = JStr GATE_RULES \<and> v4_attestation_ok row"

definition force_marked :: "ingest_env \<Rightarrow> int \<Rightarrow> jv list \<Rightarrow> jv \<Rightarrow> bool" where
  "force_marked en now names row \<longleftrightarrow>
     is_dict row \<and> jget row ''force_admitted_at'' = JTime now \<and>
     (\<exists>raw \<in> set names. is_str raw \<and> jget row ''strategy'' = JStr (strip (text_of en raw)))"

lemma change_first_set: "set (change_first p f xs) \<subseteq> set xs \<union> f ` {x \<in> set xs. p x}"
  by (induction xs) auto

lemma force_one_rows:
  "set (fc_rows (force_one en now source raw s)) \<subseteq> set (fc_rows s) \<union> Collect (force_marked en now [raw])"
proof -
  define n where "n = strip (text_of en raw)"
  let ?p = "\<lambda>r. is_dict r \<and> jget r ''strategy'' = JStr n"
  have "forced_row now source ` {r \<in> set (fc_rows s). ?p r} \<subseteq> Collect (force_marked en now [raw])" if "is_str raw"
    using that by (auto simp: forced_row_def force_marked_def n_def)
  then have "is_str raw \<Longrightarrow> set (change_first ?p (forced_row now source) (fc_rows s)) \<subseteq> set (fc_rows s) \<union> Collect (force_marked en now [raw])"
    using change_first_set [of ?p "forced_row now source" "fc_rows s"] by blast
  then show ?thesis by (auto simp: force_one_def Let_def split_beta n_def split: option.splits)
qed

lemma fold_force_rows:
  "set (fc_rows (fold (force_one en now source) raws s)) \<subseteq> set (fc_rows s) \<union> Collect (force_marked en now raws)"
proof (induction raws arbitrary: s)
  case (Cons raw raws)
  have "force_marked en now [raw] row \<Longrightarrow> force_marked en now (raw # raws) row"
    "force_marked en now raws row \<Longrightarrow> force_marked en now (raw # raws) row" for row by (auto simp: force_marked_def)
  then show ?case using Cons.IH [of "force_one en now source raw s"] force_one_rows [of en now source raw s] by fastforce
qed simp

lemma flipped_attested: "flipped_from n stamp existing row row' \<Longrightarrow> attested row' \<and> is_dict row'"
  using parked_candidate_dict parked_candidateD(5,6)
  by (fastforce simp: flipped_from_def flip_row_def attested_def v4_attestation_ok_def Let_def)

text \<open>The log after the last section, whatever it answers\<close>

lemma commit_rows:
  assumes "commit_request en payload rq now jb si = (si', r)" "row \<in> set (world_rows (si_world si'))"
  shows "row \<in> set (world_rows (si_world si)) \<or> attested row \<or> force_marked en now (rq_force rq) row"
  using assms(1)
proof (cases rule: commit_cases)
  case (committed rows flipped se fc a si1)
  have old: "set rows \<subseteq> set (world_rows (si_world si)) \<union> {r. attested r \<and> is_dict r}"
  proof (cases "scan_needed rq si")
    case True
    then have "flip_parked (en_windows en) (JTime now) (jb_existing jb) [] (world_rows (si_world si)) = Inr (rows, flipped)"
      using committed(1) by (simp add: parked_scan_def requalify_parked_log_def)
    from flip_parked_rows [OF this] have
      "list_all2 (\<lambda>row row'. row' = row \<or> flipped_from (en_windows en) (JTime now) (jb_existing jb) row row')
        (world_rows (si_world si)) rows" by blast
    then show ?thesis using flipped_attested by (fastforce simp: list_all2_conv_all_nth in_set_conv_nth)
  qed (use committed(1) in \<open>simp add: parked_scan_def\<close>)
  have "set (fc_rows fc) \<subseteq> set rows \<union> Collect (force_marked en now (rq_force rq))"
    using fold_force_rows [of en now "force_source en payload" "rq_force rq"] committed(3) by (force simp: force_admit_def)
  then have new: "set (fc_rows fc) \<subseteq> set (world_rows (si_world si)) \<union> {r. attested r \<and> is_dict r} \<union>
      Collect (force_marked en now (rq_force rq))" using old by blast
  then have "list_all is_dict (fc_rows fc)"
    using read_dicts [of "df_log (w_disc (si_world si))"]
    by (fastforce simp: list_all_iff world_rows_def force_marked_def)
  then have "set (world_rows (si_world si')) \<subseteq> set (world_rows (si_world si)) \<union> set (fc_rows fc)"
    using finish_files(3) [OF committed(7)] committed(5) by (auto simp: world_rows_def save_discovery_log_def)
  then show ?thesis using new assms(2) by blast
qed (use assms(2) in \<open>simp_all add: world_rows_def\<close>)

text \<open>
  C15. Every row an ingest appends to the log was accepted: it was measured under the current gate rules, a library row
  carries a canonical name of this library, and a row that says it qualified carries the full attestation of its
  kind. The last section of a request, which rewrites stored rows, leaves in the log only rows that were there, parked rows
  it flipped, which carry the current rules and the full attestation, and rows that the force_admit of the request names,
  which it marks with the instant and which need no attestation.
\<close>

theorem written_rows_accepted:
  assumes "sys_run en (idle_system si) s" "tested_ok (site_tested si)"
  shows "(\<forall>(rec, k) \<in> set (sy_log s). jget rec ''gate_rules'' = JStr GATE_RULES \<and>
      (if is_library_name (eval_name rec)
       then eval_name rec \<in> set (claim_names (sr_lib (en_sr en))) \<and>
         (truthy (jget rec ''qualified'') \<longrightarrow> library_attestation_ok rec)
       else truthy (jget rec ''qualified'') \<longrightarrow> v4_attestation_ok rec)) \<and>
    (\<forall>jb payload rq now si' r. jb \<in> set (sy_jobs s) \<longrightarrow> commit_request en payload rq now jb (sy_site s) = (si', r) \<longrightarrow>
      (\<forall>row \<in> set (world_rows (si_world si')).
         row \<in> set (world_rows (si_world (sy_site s))) \<or>
         jget row ''gate_rules'' = JStr GATE_RULES \<and> v4_attestation_ok row \<or>
         jget row ''force_admitted_at'' = JTime now \<and>
           (\<exists>raw \<in> set (rq_force rq). is_str raw \<and> jget row ''strategy'' = JStr (strip (text_of en raw)))))"
proof -
  have "sys_ok (sr_lib (en_sr en)) (known si) s" using sys_run_ok [OF assms(1) idle_ok [OF assms(2)]] .
  then have "\<forall>(rec, k) \<in> set (sy_log s). accepted (sr_lib (en_sr en)) rec" by (force simp: sys_ok_def)
  then have "\<forall>(rec, k) \<in> set (sy_log s). jget rec ''gate_rules'' = JStr GATE_RULES \<and>
      (if is_library_name (eval_name rec)
       then eval_name rec \<in> set (claim_names (sr_lib (en_sr en))) \<and>
         (truthy (jget rec ''qualified'') \<longrightarrow> library_attestation_ok rec)
       else truthy (jget rec ''qualified'') \<longrightarrow> v4_attestation_ok rec)" by (auto simp: accepted_def)
  moreover note commit_rows [unfolded attested_def force_marked_def]
  ultimately show ?thesis by meson
qed

lemma retried_log: "map snd (sy_log retried_twice) = [Fresh]" "eval_name (fst (hd (sy_log retried_twice))) = ''a''"
  by code_simp+

theorem written_rows_accepted_witness: "jget (fst (hd (sy_log retried_twice))) ''gate_rules'' = JStr GATE_RULES"
proof -
  have "hd (sy_log retried_twice) \<in> set (sy_log retried_twice)"
    using retried_log(1) by (cases "sy_log retried_twice") simp_all
  then show ?thesis using written_rows_accepted [OF retried_twice_run quiet_ok] by fastforce
qed

section \<open>Seats\<close>

text \<open>
  C16. Without an explicit force_admit, a request seats only canonical library passes whose rows it wrote itself, each once,
  and never a name that was in the pool it read or is graduated; a 5m pass is not seated.
\<close>

theorem ingest_seats_library_passes_only:
  assumes "commit_request en payload rq now jb si = (si', Inr a)" "is_dict (jb_pool jb)" "rq_force rq = []"
  shows "set (an_admitted a) = set (an_auto a) \<and> distinct (an_auto a) \<and>
    (\<forall>n \<in> set (an_auto a). is_library_name n \<and>
       (\<exists>rec \<in> set (jb_written jb). library_pass (sr_lib (en_sr en)) rec = Some n) \<and>
       n \<notin> set (graduated_names (bk_grads (w_book (si_world si)))) \<and> n \<notin> set (pool_names (jb_pool jb)))"
proof -
  from assms(1,2) obtain new where new: "an_auto a = map fst new"
      "an_admitted a = first_by id [] (map fst new @ an_forced a)" "distinct (map fst new)"
      "\<forall>(n, row) \<in> set new. seat_of (sr_lib (en_sr en)) now (jb_written jb) n row"
      "set (map fst new) \<inter> set (graduated_names (bk_grads (w_book (si_world si)))) = {}"
      "set (map fst new) \<inter> set (pool_names (jb_pool jb)) = {}" "an_forced a = []"
    using assms(3) by (auto elim: commit_seats)
  moreover have "\<forall>(n, row) \<in> set new. is_library_name n \<and>
      (\<exists>rec \<in> set (jb_written jb). library_pass (sr_lib (en_sr en)) rec = Some n)"
    using new(4) library_pass_name by (fastforce simp: seat_of_def)
  ultimately show ?thesis using first_by_keys [of id "[]" "map fst new"] by auto
qed

definition seat_job :: "jv \<Rightarrow> job" where
  "seat_job pool = \<lparr>jb_pool = pool, jb_existing = [], jb_intake = intake_start quiet_world, jb_pending = [],
     jb_written = [pass_row 7]\<rparr>"

definition no_request :: request where
  "no_request = \<lparr>rq_evals = [], rq_extended = [], rq_force = []\<rparr>"

definition seat_commit :: "site \<times> answer result" where
  "seat_commit = commit_request sample_env (JObj []) no_request 100 (seat_job (load_pool None)) quiet_site"

lemma seat_commit_answer: "map_sum id an_auto (snd seat_commit) = Inr [''lib.sma200'']"
  by code_simp

theorem ingest_seats_library_passes_only_witness:
  "\<exists>a. snd seat_commit = Inr a \<and> an_auto a = [''lib.sma200''] \<and> set (an_admitted a) = {''lib.sma200''}"
proof -
  obtain a where a: "snd seat_commit = Inr a" "an_auto a = [''lib.sma200'']"
    using seat_commit_answer by (cases "snd seat_commit") simp_all
  then have "commit_request sample_env (JObj []) no_request 100 (seat_job (load_pool None)) quiet_site = (fst seat_commit, Inr a)"
    by (metis seat_commit_def prod.collapse)
  from ingest_seats_library_passes_only [OF this] have "set (an_admitted a) = set (an_auto a)"
    by (simp add: seat_job_def load_pool_def no_request_def)
  with a show ?thesis by simp
qed

text \<open>
  A commit that admits anyone writes the pool its request read in the first section. A champion that another
  request seated in between is not in the pool afterwards, unless the commit admits it too.
\<close>

lemma stale_pool_loses_seat:
  assumes "commit_request en payload rq now jb si = (si', Inr a)" "is_dict (jb_pool jb)" "an_admitted a \<noteq> []"
    and "n \<in> set (pool_names (load_pool (bk_pool (w_book (si_world si)))))"
    and "n \<notin> set (pool_names (jb_pool jb))" "n \<notin> set (an_admitted a)"
  shows "n \<notin> set (pool_names (load_pool (bk_pool (w_book (si_world si')))))"
  by (rule commit_seats [OF assms(1,2)]) (use assms(3,5,6) in auto)

definition other_seat :: site where
  "other_seat = quiet_site\<lparr>si_world := quiet_world\<lparr>w_book :=
     \<lparr>bk_pool = Some (append_champion (JObj [(''name'', JStr ''lib.rsi2'')]) (load_pool None)), bk_grads = None,
       bk_retired = None\<rparr>\<rparr>\<rparr>"

definition stale_commit :: "site \<times> answer result" where
  "stale_commit = commit_request sample_env (JObj []) no_request 100 (seat_job (load_pool None)) other_seat"

lemma stale_commit_answer: "map_sum id an_admitted (snd stale_commit) = Inr [''lib.sma200'']"
  by code_simp

lemma stale_pool_loses_seat_instance:
  "''lib.rsi2'' \<in> set (pool_names (load_pool (bk_pool (w_book (si_world other_seat))))) \<and>
   ''lib.rsi2'' \<notin> set (pool_names (load_pool (bk_pool (w_book (si_world (fst stale_commit))))))"
proof -
  obtain a where a: "snd stale_commit = Inr a" "an_admitted a = [''lib.sma200'']"
    using stale_commit_answer by (cases "snd stale_commit") simp_all
  then have "commit_request sample_env (JObj []) no_request 100 (seat_job (load_pool None)) other_seat = (fst stale_commit, Inr a)"
    by (metis stale_commit_def prod.collapse)
  moreover have before: "''lib.rsi2'' \<in> set (pool_names (load_pool (bk_pool (w_book (si_world other_seat)))))"
    by code_simp
  ultimately show ?thesis
    using stale_pool_loses_seat [of sample_env "JObj []" no_request 100 "seat_job (load_pool None)" other_seat
        "fst stale_commit" a "''lib.rsi2''"] a
    by (simp add: seat_job_def load_pool_def [of None] pool_names_def [of "JObj _"] pool_rows_def map_filter_simps)
qed

text \<open>
  The automatic seat only appends to the pool, and every row it appends names a declared strategy, says it
  qualified, carries the registered flag-only forward test, and runs the declared centre parameters of that strategy,
  whatever parameters the worker sent.
\<close>

lemma seated_rows_run_centre:
  assumes "seat_library_passes lib now reevaluated recs st existing bk = (se, err)" "is_dict st" "library_ok lib"
  shows "\<exists>new. pool_rows (se_st se) = pool_rows st @ new \<and>
    (\<forall>row \<in> set new. \<exists>s \<in> set lib. jget row ''name'' = JStr (NAME_PREFIX @ ls_key s) \<and>
       jget row ''qualified'' = JBool True \<and> jget (jget row ''forward_test'') ''action'' = JStr ''flag_only'' \<and>
       equals_params (center s) (jget (jget row ''library'') ''params''))"
proof -
  from seat_library_seats [OF assms(1,2)] obtain new where
    new: "seats lib now (graduated_names (bk_grads bk)) reevaluated recs (seating_start st existing (bk_retired bk)) se new"
    by blast
  have "\<exists>s \<in> set lib. jget row ''name'' = JStr (NAME_PREFIX @ ls_key s) \<and>
      jget row ''qualified'' = JBool True \<and> jget (jget row ''forward_test'') ''action'' = JStr ''flag_only'' \<and>
      equals_params (center s) (jget (jget row ''library'') ''params'')" if "seat_of lib now recs n row" for n row
  proof -
    from that obtain raw rec where r: "library_pass lib raw = Some n" "with_center_params lib raw = Inr rec"
        "row = seat_row now rec n" by (auto simp: seat_of_def)
    note p = library_pass_name [OF r(1)]
    then obtain s where s: "s \<in> set lib" "n = NAME_PREFIX @ ls_key s" by (auto simp: claim_names_def)
    have "jget raw ''strategy'' = JStr (NAME_PREFIX @ ls_key s)" using p s by (auto elim: as_str.elims)
    note c = with_center_cases [OF assms(3) s(1) this r(2)]
    obtain t where "jget (champion_row now rec n) ''forward_test'' = registration_for rec t"
      using champion_row_forward by blast
    then show ?thesis
      using c s r(3) champion_row_library [OF c(1)] by (auto simp: registration_for_def Let_def jget_all_keys LIBRARY_KEYS_def)
  qed
  then show ?thesis using new by (intro exI [of _ "map snd new"]) (auto simp: seats_def)
qed

lemma seated_rows_run_centre_instance:
  "list_all (\<lambda>row. equals_params [(''n'', 200)] (jget (jget row ''library'') ''params''))
     (pool_rows (se_st (fst (seat_library_passes [sma200] 100 [''lib.sma200''] [pass_row 7] (load_pool None) []
      \<lparr>bk_pool = None, bk_grads = None, bk_retired = None\<rparr>)))) \<and>
   length (pool_rows (se_st (fst (seat_library_passes [sma200] 100 [''lib.sma200''] [pass_row 7] (load_pool None) []
      \<lparr>bk_pool = None, bk_grads = None, bk_retired = None\<rparr>)))) = 1"
proof (rule conjI)
  let ?bk = "\<lparr>bk_pool = None, bk_grads = None, bk_retired = None\<rparr>"
  obtain se err where se: "seat_library_passes [sma200] 100 [''lib.sma200''] [pass_row 7] (load_pool None) [] ?bk = (se, err)"
    by (meson surj_pair)
  have lib: "library_ok [sma200]" and c: "center sma200 = [(''n'', 200)]"
    by (simp_all add: library_ok_def sma200_def param_ok_def center_def)
  have st: "pool_rows (load_pool None) = []" "is_dict (load_pool None)"
    by (simp_all add: load_pool_def pool_rows_def)
  from seated_rows_run_centre [OF se st(2) lib]
  have "\<forall>row \<in> set (pool_rows (se_st se)). equals_params (center sma200) (jget (jget row ''library'') ''params'')"
    unfolding st(1) by (metis append_Nil empty_iff empty_set set_ConsD)
  then show "list_all (\<lambda>row. equals_params [(''n'', 200)] (jget (jget row ''library'') ''params''))
     (pool_rows (se_st (fst (seat_library_passes [sma200] 100 [''lib.sma200''] [pass_row 7] (load_pool None) [] ?bk))))"
    by (simp add: se c list_all_iff)
next
  show "length (pool_rows (se_st (fst (seat_library_passes [sma200] 100 [''lib.sma200''] [pass_row 7] (load_pool None) []
      \<lparr>bk_pool = None, bk_grads = None, bk_retired = None\<rparr>)))) = 1" by code_simp
qed

section \<open>The parked scan\<close>

text \<open>
  The parked scan rewrites the log in place. A row changes only from failed to qualified, and only when it is not
  on the book, was not parked for operational reasons, is a 5m row of the current gate with the full attestation, and
  its stored aggregates pass; it then keeps its name and has no fail reason left.
\<close>

lemma parked_scan_flips_passes_only:
  assumes "requalify_parked_log n now existing rows = Inr (rows', flipped)"
  shows "list_all2 (\<lambda>row row'. row' = row \<or>
    (\<exists>name d. row_name row = Some name \<and> name \<notin> set existing \<and> \<not> is_library_name name \<and>
      \<not> truthy (jget row ''qualified'') \<and> \<not> is_ops_park_record row \<and>
      jget row ''gate_rules'' = JStr GATE_RULES \<and> v4_attestation_ok row \<and>
      qualification_from_record n row = Inr d \<and> dec_passed d \<and>
      row_name row' = Some name \<and> jget row' ''qualified'' = JBool True \<and> jget row' ''fail_reasons'' = JList []))
    rows rows'"
proof -
  have "list_all2 (\<lambda>row row'. row' = row \<or> flipped_from n (JTime now) existing row row') rows rows'"
    using flip_parked_rows assms unfolding requalify_parked_log_def by blast
  then show ?thesis
    by (rule list_all2_mono)
       (elim disjE; auto simp: flipped_from_def flip_row_get parked_candidate_dict dest: parked_candidateD)
qed

definition parked_row :: jv where
  "parked_row = JObj [(''strategy'', JStr ''a''), (''tested_at'', JTime 5), (''qualified'', JBool False),
     (''gate_rules'', JStr GATE_RULES), (''gate_v4'', v4_pass_attestation), (''test_pnl'', JInt 90),
     (''trades'', JInt 40), (''sharpe'', JInt 1), (''sma_stack_oos_pnl'', JInt 10),
     (''fail_reasons'', JList [JStr ''not all windows non-negative''])]"

definition parked_result :: "(jv list \<times> jv list) result" where
  "parked_result = requalify_parked_log 24 100 [] [parked_row]"

lemma parked_result_flips:
  "case parked_result of Inl e \<Rightarrow> False | Inr p \<Rightarrow> map (\<lambda>r. jget r ''qualified'') (fst p) = [JBool True]"
  by code_simp

lemma parked_scan_flips_passes_only_instance:
  "\<exists>row' flipped. requalify_parked_log 24 100 [] [parked_row] = Inr ([row'], flipped) \<and> jget row' ''fail_reasons'' = JList []"
proof -
  obtain p where p: "parked_result = Inr p" "map (\<lambda>r. jget r ''qualified'') (fst p) = [JBool True]"
    using parked_result_flips by (auto split: sum.splits)
  then obtain row' where r: "fst p = [row']" "jget row' ''qualified'' = JBool True" by auto
  then have e: "requalify_parked_log 24 100 [] [parked_row] = Inr ([row'], snd p)"
    using p by (metis parked_result_def prod.collapse)
  have "jget parked_row ''qualified'' = JBool False" by (simp add: parked_row_def)
  with parked_scan_flips_passes_only [OF e] r(2) have "jget row' ''fail_reasons'' = JList []" by auto
  with e show ?thesis by blast
qed

end
