(* ===== verification/Approved.thy ===== *)
theory Approved
  imports SeatFacts Commit
begin

text \<open>
  The one-shot admits applied when the server starts (\<open>trading/approved_admit.py\<close>): the requalify batch, the
  unproven forward test, the qualified library batches, and the backfill of stored passes. The
  evaluation of a name on the library tape is an argument (\<open>None\<close> when it cannot be scored).
\<close>

section \<open>Batches\<close>

record admit_spec =
  sp_name :: string
  sp_batch :: string
  sp_at :: int
  sp_note :: string

definition APPROVED_ADMIT_SOURCE :: string where "APPROVED_ADMIT_SOURCE = ''requalify_approved_admit''"
definition APPROVED_ADMIT_BATCH :: string where "APPROVED_ADMIT_BATCH = ''rules-v3-admit-20261009''"
definition APPROVED_ADMITS :: "admit_spec list" where
  "APPROVED_ADMITS =
     [\<lparr>sp_name = ''dip_204b_lt8pc&h4_ema_abv_150'', sp_batch = ''rules-v3-tiled-20261008'',
       sp_at = sec 1791524460, sp_note = ''rules-v3 tiled87 requalify pass; admitted on Alexander's OK''\<rparr>]"

definition FORWARD_TEST_ADMISSION :: string where "FORWARD_TEST_ADMISSION = ''forward_test_unproven''"
definition FORWARD_TEST_BATCH :: string where "FORWARD_TEST_BATCH = ''lib-sma100-forward-test-20261029''"
definition FORWARD_TEST_ADMITS :: "admit_spec list" where
  "FORWARD_TEST_ADMITS =
     [\<lparr>sp_name = ''lib.sma100'', sp_batch = FORWARD_TEST_BATCH, sp_at = sec 1793262600,
       sp_note = ''unproven paper forward-test; fails gate v6 only on DSR 0.848 < 0.95''\<rparr>]"

definition library_specs :: "string \<Rightarrow> int \<Rightarrow> string \<Rightarrow> string list \<Rightarrow> admit_spec list" where
  "library_specs bid t note names = map (\<lambda>n. \<lparr>sp_name = n, sp_batch = bid, sp_at = t, sp_note = note\<rparr>) names"

definition LIBRARY_APPROVED_BATCH :: string where "LIBRARY_APPROVED_BATCH = ''lib-rsi2-sma200-v7-20261029''"
definition LIBRARY_APPROVED_BATCH_2 :: string where "LIBRARY_APPROVED_BATCH_2 = ''lib-batch2-four-v7b-20261030''"
definition LIBRARY_APPROVED_BATCH_3 :: string where "LIBRARY_APPROVED_BATCH_3 = ''lib-ten-passes-v7b-20261101''"

definition UNSEATED_PASSES :: "string list" where
  "UNSEATED_PASSES = [''lib.kst'', ''lib.schaff'', ''lib.rsi2_cum'', ''lib.stochrsi'', ''lib.sma200_band'',
     ''lib.rmi'', ''lib.awesome'', ''lib.vidya'', ''lib.chop'', ''lib.three_dn'']"

definition LIBRARY_APPROVED_BATCHES :: "(string \<times> admit_spec list) list" where
  "LIBRARY_APPROVED_BATCHES =
     [(LIBRARY_APPROVED_BATCH, library_specs LIBRARY_APPROVED_BATCH (sec 1793268060)
        ''qualified paper forward-test; gate v7b profit pass'' [''lib.rsi2'', ''lib.sma200'']),
      (LIBRARY_APPROVED_BATCH_2, library_specs LIBRARY_APPROVED_BATCH_2 (sec 1793350740)
        ''qualified paper forward-test; gate v7b profit pass (library batch 2)''
        [''lib.ichimoku'', ''lib.rsi14'', ''lib.tsmom180d'', ''lib.rsi2_10'']),
      (LIBRARY_APPROVED_BATCH_3, library_specs LIBRARY_APPROVED_BATCH_3 LIBRARY_AUTO_ADMIT_AT
        ''qualified paper forward-test; gate v7b profit pass (unseated library passes)'' UNSEATED_PASSES)]"

section \<open>The marker\<close>

record marker =
  mk_applied :: "string list"
  mk_batches :: "jv list"

definition load_marker :: "jv option \<Rightarrow> marker" where
  "load_marker f =
     (let d = (case f of None \<Rightarrow> JObj [] | Some v \<Rightarrow> dict_or_empty v)
      in \<lparr>mk_applied = strings_of (as_list (jget d ''applied'')), mk_batches = as_list (jget d ''batches'')\<rparr>)"

definition save_marker :: "marker \<Rightarrow> jv" where
  "save_marker m = JObj [(''applied'', JList (map JStr (mk_applied m))), (''batches'', JList (mk_batches m)),
     (''paper_only'', JBool True)]"

record desk =
  dk_book :: book_files
  dk_marker :: "jv option"

record admit_report =
  ap_batch :: string
  ap_admitted :: "string list"
  ap_skipped :: "(string \<times> string) list"

definition skipped_json :: "(string \<times> string) list \<Rightarrow> jv" where
  "skipped_json rows = JList (map (\<lambda>(n, why). JObj [(''strategy'', JStr n), (''reason'', JStr why)]) rows)"

text \<open>The end of each of the three functions: the pool if anyone was admitted, then the marker.\<close>

definition apply_batch :: "int \<Rightarrow> admit_report \<Rightarrow> jv dict \<Rightarrow> jv \<Rightarrow> marker \<Rightarrow> desk \<Rightarrow> desk \<times> marker" where
  "apply_batch now rep extra st m dk =
     (let bk = (if ap_admitted rep = [] then dk_book dk
                else (dk_book dk)\<lparr>bk_pool := Some (save_pool st (bk_pool (dk_book dk)))\<rparr>);
          m = \<lparr>mk_applied = mk_applied m @ [ap_batch rep],
               mk_batches = mk_batches m @ [JObj ([(''batch_id'', JStr (ap_batch rep)), (''applied_at'', JTime now),
                 (''admitted'', JList (map JStr (ap_admitted rep))), (''skipped'', skipped_json (ap_skipped rep))] @ extra)]\<rparr>
      in (\<lparr>dk_book = bk, dk_marker = Some (save_marker m)\<rparr>, m))"

text \<open>Names on the book, and the reason a listed name is not seated\<close>

definition pooled_names :: "jv \<Rightarrow> string list" where
  "pooled_names st = List.map_filter name_text (filter is_dict (pool_rows st))"

definition book_reason :: "book_files \<Rightarrow> string list \<Rightarrow> string \<Rightarrow> string option" where
  "book_reason bk pooled name =
     (if name \<in> set (retired_names (bk_retired bk)) then Some ''retired''
      else if name \<in> set pooled \<or> name \<in> set (graduated_names (bk_grads bk))
      then Some ''already_pooled_or_graduated'' else None)"

section \<open>The requalify batch\<close>

text \<open>\<open>_requalify_pass\<close>: the verdict itself, then the one it replaced.\<close>

definition accepted_rules :: "string \<Rightarrow> jv \<Rightarrow> bool" where
  "accepted_rules bid rules \<longleftrightarrow>
     rules = JStr GATE_RULES \<or> bid = ''rules-v3-tiled-20261008'' \<and> rules = JStr V3_GATE_RULES"

definition entry_pass :: "string \<Rightarrow> jv \<Rightarrow> jv option" where
  "entry_pass bid e =
     (let result = jget e ''result'' in
      if jget e ''batch_id'' = JStr bid \<and> is_dict result \<and> truthy (jget result ''qualified'') \<and>
         accepted_rules bid (jget result ''gate_rules'')
      then Some result else None)"

definition requalify_pass :: "jv option \<Rightarrow> string \<Rightarrow> jv option" where
  "requalify_pass meta bid =
     (case meta of
        None \<Rightarrow> None
      | Some m \<Rightarrow>
          if \<not> is_dict m then None
          else case (if jget m ''status'' = JStr ''done'' then entry_pass bid m else None) of
              Some r \<Rightarrow> Some r
            | None \<Rightarrow> if is_dict (jget m ''previous'') then entry_pass bid (jget m ''previous'') else None)"

definition PROVENANCE_KEYS :: "string list" where
  "PROVENANCE_KEYS = [''gate_rules'', ''trades'', ''sharpe'', ''daily_sharpe'', ''bh_daily_sharpe'', ''test_pnl'',
     ''bh_oos_pnl'', ''avg_hold_hours'', ''regimes_tested'', ''tested_at'', ''worker_id'', ''data_end'']"

definition approved_row :: "int \<Rightarrow> admit_spec \<Rightarrow> jv \<Rightarrow> jv" where
  "approved_row now sp result =
     JObj [(''name'', JStr (sp_name sp)), (''closed'', JInt 0), (''pnl'', JFloat (Fin 0)), (''wins'', JInt 0),
       (''sharpe_qual'', jget result ''sharpe''), (''winrate_qual'', jget result ''win_rate_pct''),
       (''admitted_at'', JTime now), (''champion_since'', JTime now), (''source'', JStr APPROVED_ADMIT_SOURCE),
       (''timeframe'', JStr QUAL_TIMEFRAME), (''risk_policy'', JStr RISK_POLICY),
       (''provenance'', JObj ([(''admit_batch'', JStr APPROVED_ADMIT_BATCH), (''requalify_batch'', JStr (sp_batch sp)),
          (''approved_by'', JStr ''Alexander''), (''approved_at'', JTime (sp_at sp)), (''note'', JStr (sp_note sp))] @
          as_dict (keep_keys PROVENANCE_KEYS result)))]"

text \<open>One pass over the listed names: the pool in memory, who was admitted, who was skipped.\<close>

record admitting =
  ad_st :: jv
  ad_pooled :: "string list"
  ad_existing :: "string list"
  ad_admitted :: "string list"
  ad_skipped :: "(string \<times> string) list"

definition admitting_start :: "book_files \<Rightarrow> admitting" where
  "admitting_start bk =
     (let st = load_pool (bk_pool bk); pooled = pooled_names st
      in \<lparr>ad_st = st, ad_pooled = pooled,
          ad_existing = pooled @ graduated_names (bk_grads bk) @ retired_names (bk_retired bk),
          ad_admitted = [], ad_skipped = []\<rparr>)"

definition skip_name :: "string \<Rightarrow> string \<Rightarrow> admitting \<Rightarrow> admitting" where
  "skip_name n why s = s\<lparr>ad_skipped := ad_skipped s @ [(n, why)]\<rparr>"

definition admit_approved :: "int \<Rightarrow> book_files \<Rightarrow> admit_spec \<times> jv \<Rightarrow> admitting \<Rightarrow> admitting" where
  "admit_approved now bk e s =
     (let (sp, result) = e; n = sp_name sp in
      case book_reason bk (ad_pooled s) n of
        Some why \<Rightarrow> skip_name n why s
      | None \<Rightarrow> s\<lparr>ad_st := append_champion (approved_row now sp result) (ad_st s), ad_pooled := n # ad_pooled s,
                   ad_admitted := ad_admitted s @ [n]\<rparr>)"

fun all_some :: "('a \<Rightarrow> 'b option) \<Rightarrow> 'a list \<Rightarrow> ('a \<times> 'b) list option" where
  "all_some f [] = Some []"
| "all_some f (x # xs) =
     (case f x of None \<Rightarrow> None | Some y \<Rightarrow> map_option (\<lambda>r. (x, y) # r) (all_some f xs))"

definition report_of :: "string \<Rightarrow> admitting \<Rightarrow> admit_report" where
  "report_of bid s = \<lparr>ap_batch = bid, ap_admitted = ad_admitted s, ap_skipped = ad_skipped s\<rparr>"

definition apply_requalify ::
    "int \<Rightarrow> jv dict \<Rightarrow> marker \<Rightarrow> desk \<Rightarrow> (desk \<times> marker) \<times> admit_report option" where
  "apply_requalify now names m dk =
     (case all_some (\<lambda>sp. requalify_pass (dget names (sp_name sp)) (sp_batch sp)) APPROVED_ADMITS of
        None \<Rightarrow> ((dk, m), None)
      | Some verdicts \<Rightarrow>
          let s = fold (admit_approved now (dk_book dk)) verdicts (admitting_start (dk_book dk));
              rep = report_of APPROVED_ADMIT_BATCH s
          in (apply_batch now rep [] (ad_st s) m dk, Some rep))"

section \<open>The unproven forward test\<close>

text \<open>The copy \<open>_library_forward_record\<close> makes of an evaluation: never qualified.\<close>

definition list_copy :: "jv \<Rightarrow> jv" where
  "list_copy v = (if is_list v then v else JList [])"

definition forward_record :: "string \<Rightarrow> jv \<Rightarrow> jv option" where
  "forward_record name rec =
     (if \<not> is_dict rec \<or> jget rec ''strategy'' \<noteq> JStr name then None
      else
        let out = jset ''qualified'' (JBool False) rec; gate = jget out ''gate_v4''
        in Some (if is_dict gate
             then jset ''gate_v4''
               (jset ''fail_reasons'' (list_copy (jget out ''fail_reasons''))
                 (jset ''passed'' (JBool (truthy (jget gate ''passed''))) (all_keys GATE_V4_KEYS gate))) out
             else out))"

definition label_forward_champion :: "admit_spec \<Rightarrow> jv \<Rightarrow> jv \<Rightarrow> jv" where
  "label_forward_champion sp rec row =
     (let row = jset ''source'' (JStr FORWARD_TEST_ADMISSION) row;
          row = jset ''admission'' (JStr FORWARD_TEST_ADMISSION) row;
          row = jset ''qualified'' (JBool False) row;
          gate = jset ''passed'' (JBool (truthy (jget (jget rec ''gate_v4'') ''passed'')))
                   (sub_dict row ''gate_v4'');
          gate = jset ''fail_reasons'' (list_copy (jget rec ''fail_reasons'')) gate;
          row = jset ''gate_v4'' gate row
      in jset ''provenance''
           (JObj [(''admit_batch'', JStr (sp_batch sp)), (''approved_by'', JStr ''Alexander''),
              (''approved_at'', JTime (sp_at sp)), (''note'', JStr (sp_note sp)),
              (''admission'', JStr FORWARD_TEST_ADMISSION)]) row)"

definition admit_forward :: "int \<Rightarrow> book_files \<Rightarrow> admit_spec \<times> jv \<Rightarrow> admitting \<Rightarrow> admitting" where
  "admit_forward now bk e s =
     (let (sp, raw) = e; n = sp_name sp; rec = jset ''qualified'' (JBool False) raw in
      case book_reason bk (ad_pooled s) n of
        Some why \<Rightarrow> skip_name n why s
      | None \<Rightarrow>
          let ((st, existing), ok) = admit_qualified now rec n (ad_st s, ad_existing s) in
          if \<not> ok then skip_name n ''not_seated'' s
          else s\<lparr>ad_st := label_last (label_forward_champion sp rec) st, ad_existing := existing,
                 ad_pooled := n # ad_pooled s, ad_admitted := ad_admitted s @ [n]\<rparr>)"

text \<open>
  \<open>given\<close> is the record scored before the lock (\<open>forward_checked\<close>): it counts for its own name only.
\<close>

definition forward_record_for :: "jv option \<Rightarrow> admit_spec \<Rightarrow> jv option" where
  "forward_record_for given sp =
     (case given of None \<Rightarrow> None
      | Some r \<Rightarrow> if is_dict r \<and> jget r ''strategy'' = JStr (sp_name sp) then Some r else None)"

definition apply_forward ::
    "int \<Rightarrow> jv option \<Rightarrow> marker \<Rightarrow> desk \<Rightarrow> (desk \<times> marker) \<times> admit_report option" where
  "apply_forward now given m dk =
     (case all_some (forward_record_for given) FORWARD_TEST_ADMITS of
        None \<Rightarrow> ((dk, m), None)
      | Some recs \<Rightarrow>
          let s = fold (admit_forward now (dk_book dk)) recs (admitting_start (dk_book dk));
              rep = report_of FORWARD_TEST_BATCH s
          in (apply_batch now rep [(''admission'', JStr FORWARD_TEST_ADMISSION)] (ad_st s) m dk, Some rep))"

text \<open>
  The second half of \<open>trading/approved_admit.py\<close>: the qualified library batches, the backfill of
  stored passes, and \<open>run_approved_admits\<close>, which applies everything once per server start and then
  enforces the one-per-family rule.
\<close>

section \<open>Qualified library batches\<close>

definition label_qualified_library :: "string \<Rightarrow> admit_spec \<Rightarrow> jv \<Rightarrow> jv \<Rightarrow> jv" where
  "label_qualified_library bid sp rec row =
     jset ''provenance''
       (JObj [(''admit_batch'', JStr bid), (''approved_by'', JStr ''Alexander''), (''approved_at'', JTime (sp_at sp)),
          (''note'', JStr (sp_note sp)), (''gate_rules'', jget rec ''gate_rules''), (''warnings'', warning_lines rec)])
       (jset ''warnings'' (warning_lines rec) (jset ''qualified'' (JBool True) row))"

text \<open>
  The first loop: who is skipped, who is pending. \<open>None\<close> leaves the whole batch for the next start: a
  name without a verdict, or, unless the batch is \<open>partial\<close>, one whose verdict is not a pass.
\<close>

fun choose_pending ::
    "bool \<Rightarrow> book_files \<Rightarrow> string list \<Rightarrow> jv dict \<Rightarrow> admit_spec list \<Rightarrow>
     ((admit_spec \<times> jv) list \<times> (string \<times> string) list) option" where
  "choose_pending partial bk pooled scored [] = Some ([], [])"
| "choose_pending partial bk pooled scored (sp # sps) =
     (case book_reason bk pooled (sp_name sp) of
        Some why \<Rightarrow> map_option (\<lambda>(p, sk). (p, (sp_name sp, why) # sk)) (choose_pending partial bk pooled scored sps)
      | None \<Rightarrow>
          (case dget scored (sp_name sp) of
             None \<Rightarrow> None
           | Some rec \<Rightarrow>
               if verdict_qualified rec (sp_name sp)
               then map_option (\<lambda>(p, sk). ((sp, rec) # p, sk)) (choose_pending partial bk pooled scored sps)
               else if \<not> partial then None
               else map_option (\<lambda>(p, sk). (p, (sp_name sp, ''not_qualified'') # sk))
                      (choose_pending partial bk pooled scored sps)))"

fun seat_pending ::
    "lib_strategy list \<Rightarrow> int \<Rightarrow> string \<Rightarrow> (admit_spec \<times> jv) list \<Rightarrow> admitting \<Rightarrow> admitting result" where
  "seat_pending lib now bid [] s = Inr s"
| "seat_pending lib now bid ((sp, raw) # es) s =
     bind_result (with_center_params lib raw) (\<lambda>rec.
       let n = sp_name sp; ((st, existing), ok) = admit_qualified now rec n (ad_st s, ad_existing s) in
       seat_pending lib now bid es
         (if \<not> ok then skip_name n ''not_seated'' s
          else s\<lparr>ad_st := label_last (label_qualified_library bid sp rec) st, ad_existing := existing,
                 ad_admitted := ad_admitted s @ [n]\<rparr>))"

definition apply_library ::
    "lib_strategy list \<Rightarrow> int \<Rightarrow> jv dict option \<Rightarrow> string \<times> admit_spec list \<Rightarrow> marker \<Rightarrow> desk \<Rightarrow>
     ((desk \<times> marker) \<times> admit_report option) result" where
  "apply_library lib now records b m dk =
     (let (bid, sps) = b; bk = dk_book dk; s = admitting_start bk in
      case records of
        None \<Rightarrow> Inr ((dk, m), None)
      | Some scored \<Rightarrow>
          (case choose_pending (bid = LIBRARY_APPROVED_BATCH_3) bk (ad_pooled s) scored sps of
             None \<Rightarrow> Inr ((dk, m), None)
           | Some (pending, skipped) \<Rightarrow>
               bind_result (seat_pending lib now bid pending (s\<lparr>ad_skipped := skipped\<rparr>)) (\<lambda>s'.
                 let rep = report_of bid s'
                 in Inr (apply_batch now rep [(''qualified'', JBool True)] (ad_st s') m dk, Some rep))))"

text \<open>
  The loop over the batches. An error ends it; the batches before have been saved.
\<close>

fun apply_libraries ::
    "lib_strategy list \<Rightarrow> int \<Rightarrow> (string \<Rightarrow> jv dict option) \<Rightarrow> (string \<times> admit_spec list) list \<Rightarrow>
     marker \<Rightarrow> desk \<Rightarrow> admit_report option \<Rightarrow> desk \<times> admit_report option result" where
  "apply_libraries lib now records [] m dk out = (dk, Inr out)"
| "apply_libraries lib now records (b # bs) m dk out =
     (if fst b \<in> set (mk_applied m) \<or> snd b = [] then apply_libraries lib now records bs m dk out
      else case apply_library lib now (records (fst b)) b m dk of
          Inl e \<Rightarrow> (dk, Inl e)
        | Inr ((dk', m'), rep) \<Rightarrow>
            apply_libraries lib now records bs m' dk' (case out of None \<Rightarrow> rep | Some r \<Rightarrow> Some r))"

section \<open>Stored passes\<close>

text \<open>\<open>_instant\<close> reads what \<open>parse_tested_at\<close> reads.\<close>

definition retired_after_latest_pass :: "jv dict \<Rightarrow> string \<Rightarrow> jv \<Rightarrow> bool" where
  "retired_after_latest_pass retired name rec =
     (case dget retired name of
        None \<Rightarrow> False
      | Some row \<Rightarrow>
          is_dict row \<and>
          (case (parse_tested_at (jget row ''retired_at''), parse_tested_at (jget rec ''tested_at'')) of
             (Some r, Some t) \<Rightarrow> t \<le> r
           | _ \<Rightarrow> True))"

definition newer_row :: "jv \<Rightarrow> jv \<Rightarrow> bool" where
  "newer_row row prev =
     (case parse_tested_at (jget row ''tested_at'') of
        None \<Rightarrow> False
      | Some l \<Rightarrow> (case parse_tested_at (jget prev ''tested_at'') of None \<Rightarrow> True | Some r \<Rightarrow> r \<le> l))"

definition consider_row :: "lib_strategy list \<Rightarrow> jv \<Rightarrow> jv dict \<Rightarrow> jv dict" where
  "consider_row lib row newest =
     (case library_pass lib row of
        None \<Rightarrow> newest
      | Some n \<Rightarrow>
          (case dget newest n of
             None \<Rightarrow> dset n row newest
           | Some prev \<Rightarrow> if newer_row row prev then dset n row newest else newest))"

definition stored_library_latest :: "lib_strategy list \<Rightarrow> jv list \<Rightarrow> jv option \<Rightarrow> jv list" where
  "stored_library_latest lib rows results =
     List.map_filter
       (dget (fold (consider_row lib) (latest_eval_per_strategy rows @ map snd (load_library_results results)) []))
       (claim_names lib)"

text \<open>
  \<open>_backfill_stored_passes_unlocked\<close>. On an error the archive may be rewritten already; the pool is not.
\<close>

definition backfill_records :: "lib_strategy list \<Rightarrow> jv list \<Rightarrow> jv option \<Rightarrow> jv dict \<Rightarrow> jv list" where
  "backfill_records lib rows results retired =
     filter (\<lambda>rec. \<not> retired_after_latest_pass retired (the (library_pass lib rec)) rec)
       (stored_library_latest lib rows results)"

definition backfill_stored ::
    "lib_strategy list \<Rightarrow> int \<Rightarrow> jv list \<Rightarrow> jv option \<Rightarrow> book_files \<Rightarrow> book_files \<times> string list result" where
  "backfill_stored lib now rows results bk =
     (let retired = ar_retired (load_retired (bk_retired bk));
          recs = backfill_records lib rows results retired;
          st = load_pool (bk_pool bk);
          existing = pooled_names st @ graduated_names (bk_grads bk) @ dkeys retired;
          reevaluated = filter (\<lambda>n. n \<in> set (dkeys retired)) (map (\<lambda>rec. the (library_pass lib rec)) recs);
          (se, err) = seat_library_passes lib now reevaluated recs st existing bk;
          bk = bk\<lparr>bk_retired := se_archive se\<rparr>
      in case err of
           Some e \<Rightarrow> (bk, Inl e)
         | None \<Rightarrow>
             (if se_admitted se = [] then bk else bk\<lparr>bk_pool := Some (save_pool (se_st se) (bk_pool bk))\<rparr>,
              Inr (se_admitted se)))"

section \<open>A server start\<close>

text \<open>\<open>ensure_approved_admits_unlocked\<close> with the records \<open>run_approved_admits\<close> scored before the lock\<close>

definition ensure_approved_admits ::
    "lib_strategy list \<Rightarrow> int \<Rightarrow> jv dict \<Rightarrow> jv list \<Rightarrow> jv option \<Rightarrow> jv option \<Rightarrow> (string \<Rightarrow> jv dict option) \<Rightarrow>
     desk \<Rightarrow> desk \<times> admit_report option result" where
  "ensure_approved_admits lib now requal rows results forward records dk =
     (let m = load_marker (dk_marker dk);
          ((dk, m), rq_out) =
            (if APPROVED_ADMIT_BATCH \<in> set (mk_applied m) then ((dk, m), None) else apply_requalify now requal m dk);
          ((dk, m), fw_out) =
            (if FORWARD_TEST_BATCH \<in> set (mk_applied m) then ((dk, m), None) else apply_forward now forward m dk);
          (dk, r) = apply_libraries lib now records LIBRARY_APPROVED_BATCHES m dk None
      in case r of
           Inl e \<Rightarrow> (dk, Inl e)
         | Inr lib_out \<Rightarrow>
             let (bk, b) = backfill_stored lib now rows results (dk_book dk); dk = dk\<lparr>dk_book := bk\<rparr>
             in case b of
                  Inl e \<Rightarrow> (dk, Inl e)
                | Inr _ \<Rightarrow>
                    (dk, Inr (case rq_out of Some r \<Rightarrow> Some r
                       | None \<Rightarrow> (case fw_out of Some r \<Rightarrow> Some r | None \<Rightarrow> lib_out))))"

text \<open>\<open>score\<close> is one evaluation on the tape; a batch with a name that cannot be scored has no records.\<close>

definition score_library_batch :: "(string \<Rightarrow> jv option) \<Rightarrow> admit_spec list \<Rightarrow> jv dict option" where
  "score_library_batch score sps =
     map_option (\<lambda>es. fold (\<lambda>(sp, rec) d. dset (sp_name sp) rec d) es [])
       (all_some (\<lambda>sp. case score (sp_name sp) of None \<Rightarrow> None | Some r \<Rightarrow> if is_dict r then Some r else None) sps)"

definition score_forward :: "(string \<Rightarrow> jv option) \<Rightarrow> marker \<Rightarrow> jv option" where
  "score_forward score m =
     (if FORWARD_TEST_BATCH \<in> set (mk_applied m) then None
      else case FORWARD_TEST_ADMITS of
          [] \<Rightarrow> None
        | sp # _ \<Rightarrow> (case score (sp_name sp) of None \<Rightarrow> None | Some r \<Rightarrow> forward_record (sp_name sp) r))"

definition score_libraries :: "(string \<Rightarrow> jv option) \<Rightarrow> string \<Rightarrow> jv dict option" where
  "score_libraries score bid =
     (case dget LIBRARY_APPROVED_BATCHES bid of None \<Rightarrow> None | Some sps \<Rightarrow> score_library_batch score sps)"

definition run_approved_admits ::
    "ingest_env \<Rightarrow> (string \<Rightarrow> jv option) \<Rightarrow> int \<Rightarrow> jv dict \<Rightarrow> jv list \<Rightarrow> jv option \<Rightarrow>
     desk \<Rightarrow> desk \<times> admit_report option result" where
  "run_approved_admits en score now requal rows results dk =
     (let (dk, r) = ensure_approved_admits (sr_lib (en_sr en)) now requal rows results
            (score_forward score (load_marker (dk_marker dk))) (score_libraries score) dk
      in case r of
           Inl e \<Rightarrow> (dk, Inl e)
         | Inr out \<Rightarrow> (dk\<lparr>dk_book := fst (enforce_on en now (dk_book dk))\<rparr>, Inr out))"

end
