(* ===== verification/StartupFacts.thy ===== *)
theory StartupFacts
  imports Approved CommitFacts
begin

text \<open>
  Facts about a server start: the markers make a batch run once, the backfill settles after one run,
  and what the rows of each batch say about their verdict.
\<close>

section \<open>The marker\<close>

lemma load_save_marker [simp]: "load_marker (Some (save_marker m)) = m"
  by (simp add: load_marker_def save_marker_def strings_of_def map_filter_def comp_def)

lemma apply_batch_marker:
  "apply_batch now rep extra st m dk = (dk', m') \<Longrightarrow> load_marker (dk_marker dk') = m' \<and>
     set (mk_applied m') = insert (ap_batch rep) (set (mk_applied m))"
  by (auto simp: apply_batch_def Let_def)

lemma apply_batch_book:
  "apply_batch now rep extra st m dk = (dk', m') \<Longrightarrow>
     dk_book dk' = (if ap_admitted rep = [] then dk_book dk
       else (dk_book dk)\<lparr>bk_pool := Some (save_pool st (bk_pool (dk_book dk)))\<rparr>)"
  by (auto simp: apply_batch_def Let_def)

section \<open>A seat is complete\<close>

text \<open>
  When the blocked names are those on the book, a run without an error leaves every pass it was given
  seated or graduated, unless the name is retired and not reevaluated.
\<close>

definition settled_book :: "string list \<Rightarrow> seating \<Rightarrow> bool" where
  "settled_book graduated s \<longleftrightarrow>
     is_dict (se_st s) \<and> set (se_existing s) - {[]} \<subseteq> set (se_pooled s) \<union> set graduated \<union> set (se_retired s) \<and>
     set (se_pooled s) = set (pool_names (se_st s))"

lemma seat_one_settled:
  assumes "seat_one lib now graduated reevaluated raw s = Inr s'" "settled_book graduated s"
    and "library_pass lib raw = Some n" "n \<in> set (se_retired s) \<Longrightarrow> n \<in> set reevaluated" "n \<noteq> []"
  shows "n \<in> set (se_pooled s') \<union> set graduated"
proof (cases "n \<in> set (se_pooled s) \<or> n \<in> set graduated")
  case True
  with assms(1,3) have "s' = s" by (auto simp: seat_one_def)
  with True show ?thesis by auto
next
  case False
  let ?ex = "if n \<in> set (se_retired s) then filter (\<lambda>m. m \<noteq> n) (se_existing s) else se_existing s"
  have "n \<notin> set ?ex" using False assms(2,5) by (auto simp: settled_book_def)
  with False assms(1,3,4) show ?thesis
    by (cases "with_center_params lib raw")
       (auto simp: seat_one_def admit_qualified_def Let_def split: if_splits)
qed

lemma seat_one_keeps:
  assumes one: "seat_one lib now graduated reevaluated raw s = Inr s'" and ok: "settled_book graduated s"
  shows "settled_book graduated s' \<and> set (se_pooled s) \<subseteq> set (se_pooled s') \<and>
    set (se_retired s') \<subseteq> set (se_retired s) \<and> set (se_retired s) - set (se_retired s') \<subseteq> set (se_pooled s')"
proof -
  have st: "is_dict (se_st s)" using ok by (simp add: settled_book_def)
  have adm: "set (se_existing s') \<subseteq> set (se_existing s) \<union> set (se_pooled s')"
    using one by (auto simp: seat_one_def admit_qualified_def Let_def bind_result_Inr split: option.splits if_splits)
  from one st show ?thesis
  proof (cases rule: seat_one_cases)
    case kept
    then show ?thesis using ok adm by (auto simp: settled_book_def)
  next
    case (seated name rec)
    have "pool_names (se_st s') = pool_names (se_st s) @ [name]"
      by (simp add: pool_names_def seated(7) map_filter_append map_filter_simps name_text_def)
    then show ?thesis using ok adm seated by (auto simp: settled_book_def)
  qed
qed

definition reconsidered :: "lib_strategy list \<Rightarrow> jv list \<Rightarrow> string list \<Rightarrow> string list \<Rightarrow> bool" where
  "reconsidered lib recs retired reevaluated \<longleftrightarrow>
     (\<forall>raw \<in> set recs. \<forall>n. library_pass lib raw = Some n \<longrightarrow> n \<in> set retired \<longrightarrow> n \<in> set reevaluated)"

definition all_seated :: "lib_strategy list \<Rightarrow> jv list \<Rightarrow> string list \<Rightarrow> string list \<Rightarrow> bool" where
  "all_seated lib recs pooled graduated \<longleftrightarrow>
     (\<forall>raw \<in> set recs. \<forall>n. library_pass lib raw = Some n \<longrightarrow> n \<in> set pooled \<union> set graduated)"

lemma seat_all_settled:
  "seat_all lib now graduated reevaluated recs s = (s', None) \<Longrightarrow> settled_book graduated s \<Longrightarrow>
   reconsidered lib recs (se_retired s) reevaluated \<Longrightarrow>
     settled_book graduated s' \<and> set (se_pooled s) \<subseteq> set (se_pooled s') \<and>
     set (se_retired s) - set (se_retired s') \<subseteq> set (se_pooled s') \<and> all_seated lib recs (se_pooled s') graduated"
proof (induction recs arbitrary: s)
  case (Cons raw recs)
  then obtain s1 where one: "seat_one lib now graduated reevaluated raw s = Inr s1"
    and rest: "seat_all lib now graduated reevaluated recs s1 = (s', None)" by (auto split: sum.splits)
  note k = seat_one_keeps [OF one Cons.prems(2)]
  then have "reconsidered lib recs (se_retired s1) reevaluated"
    using Cons.prems(3) by (auto simp: reconsidered_def)
  with Cons.IH [OF rest] k have ih: "settled_book graduated s' \<and> set (se_pooled s1) \<subseteq> set (se_pooled s') \<and>
     set (se_retired s1) - set (se_retired s') \<subseteq> set (se_pooled s') \<and> all_seated lib recs (se_pooled s') graduated"
    by blast
  have "n \<in> set (se_pooled s') \<union> set graduated" if n: "library_pass lib raw = Some n" for n
  proof -
    have "n \<noteq> []" using library_pass_name [OF n] by (auto simp: is_library_name_def is_prefix_def NAME_PREFIX_def)
    moreover have "n \<in> set (se_retired s) \<Longrightarrow> n \<in> set reevaluated"
      using Cons.prems(3) n by (auto simp: reconsidered_def)
    ultimately show ?thesis using seat_one_settled [OF one Cons.prems(2) n] ih by auto
  qed
  then show ?case using ih k by (auto simp: all_seated_def)
qed (simp add: all_seated_def)

text \<open>Nothing happens when every pass is seated or graduated already.\<close>

lemma seat_all_idle:
  assumes "all_seated lib recs (se_pooled s) graduated"
  shows "seat_all lib now graduated reevaluated recs s = (s, None)"
  using assms
proof (induction recs)
  case (Cons raw recs)
  then have "seat_one lib now graduated reevaluated raw s = Inr s"
    by (auto simp: seat_one_def all_seated_def split: option.splits)
  with Cons show ?case by (simp add: all_seated_def)
qed simp

text \<open>The archive loses only rows of names that end up in the pool.\<close>

abbreviation archived_row :: "jv option \<Rightarrow> string \<Rightarrow> jv option" where
  "archived_row f n \<equiv> dget (ar_retired (load_retired f)) n"

lemma release_row: "archived_row (release_retired name f) n = (if n = name then None else archived_row f n)"
  by (auto simp: release_retired_def Let_def load_save_retired)

lemma seat_one_archive:
  assumes "seat_one lib now graduated reevaluated raw s = Inr s'" "is_dict (se_st s)"
  shows "is_dict (se_st s') \<and> set (se_pooled s) \<subseteq> set (se_pooled s') \<and>
    (archived_row (se_archive s') n = archived_row (se_archive s) n \<or>
     archived_row (se_archive s') n = None \<and> n \<in> set (se_pooled s'))"
  by (rule seat_one_cases [OF assms]) (use assms(2) in \<open>auto simp: release_row\<close>)

lemma seat_all_archive:
  "seat_all lib now graduated reevaluated recs s = (s', err) \<Longrightarrow> is_dict (se_st s) \<Longrightarrow>
     set (se_pooled s) \<subseteq> set (se_pooled s') \<and>
     (archived_row (se_archive s') n = archived_row (se_archive s) n \<or>
      archived_row (se_archive s') n = None \<and> n \<in> set (se_pooled s'))"
proof (induction recs arbitrary: s)
  case (Cons raw recs)
  then show ?case
    using seat_one_archive [of lib now graduated reevaluated raw s]
    by (cases "seat_one lib now graduated reevaluated raw s") fastforce+
qed simp

section \<open>The backfill\<close>

lemma pooled_names_eq: "pooled_names st = pool_names st"
proof -
  have "List.map_filter name_text (filter is_dict xs) = List.map_filter name_text xs" for xs
    by (induction xs) (auto simp: map_filter_simps name_text_def split: option.splits)
  then show ?thesis by (simp add: pooled_names_def pool_names_def)
qed

lemma seating_start_settled:
  assumes "is_dict st" "set ex - {[]} \<subseteq> set (pool_names st) \<union> set graduated \<union> set (retired_names ar)"
  shows "settled_book graduated (seating_start st ex ar)"
  using assms pooled_names_eq [of st] by (auto simp: settled_book_def pooled_names_def)

lemma retired_names_keys: "set (retired_names f) = set (dkeys (ar_retired (load_retired f))) - {[]}"
  by (auto simp: retired_names_def)

lemma stored_latest_pass:
  assumes "rec \<in> set (stored_library_latest lib rows results)"
  shows "\<exists>n. library_pass lib rec = Some n"
proof -
  have "\<forall>n r. dget (fold (consider_row lib) xs d) n = Some r \<longrightarrow> library_pass lib r \<noteq> None"
    if "\<forall>n r. dget d n = Some r \<longrightarrow> library_pass lib r \<noteq> None" for xs d
    using that
  proof (induction xs arbitrary: d)
    case (Cons x xs)
    have "\<forall>n r. dget (consider_row lib x d) n = Some r \<longrightarrow> library_pass lib r \<noteq> None"
      using Cons.prems by (auto simp: consider_row_def split: option.splits if_splits)
    then show ?case using Cons.IH by simp
  qed simp
  from this [of "[]"] show ?thesis
    using assms by (auto simp: stored_library_latest_def in_map_filter simp del: fold_append)
qed

lemma backfill_cases:
  assumes b: "backfill_stored lib now rows results bk = (bk', Inr adm)" and st: "is_dict (load_pool (bk_pool bk))"
  defines "recs \<equiv> backfill_records lib rows results (ar_retired (load_retired (bk_retired bk)))"
  obtains se where "adm = se_admitted se" "bk_grads bk' = bk_grads bk" "bk_retired bk' = se_archive se"
    "settled_book (graduated_names (bk_grads bk)) se"
    "set (retired_names (bk_retired bk)) - set (se_retired se) \<subseteq> set (se_pooled se)"
    "all_seated lib recs (se_pooled se) (graduated_names (bk_grads bk))"
    "set (pool_names (load_pool (bk_pool bk'))) = set (se_pooled se)" "is_dict (load_pool (bk_pool bk'))"
    "\<forall>n. archived_row (bk_retired bk') n = archived_row (bk_retired bk) n \<or>
       archived_row (bk_retired bk') n = None \<and> n \<in> set (se_pooled se)"
proof -
  let ?retired = "ar_retired (load_retired (bk_retired bk))" and ?st = "load_pool (bk_pool bk)"
  let ?g = "graduated_names (bk_grads bk)"
  let ?ex = "pooled_names ?st @ ?g @ dkeys ?retired"
  let ?re = "filter (\<lambda>n. n \<in> set (dkeys ?retired)) (map (\<lambda>rec. the (library_pass lib rec)) recs)"
  obtain se err where se: "seat_library_passes lib now ?re recs ?st ?ex bk = (se, err)" by (meson surj_pair)
  have none: "err = None" and adm: "adm = se_admitted se"
    and bk': "bk' = (if se_admitted se = [] then bk\<lparr>bk_retired := se_archive se\<rparr>
        else bk\<lparr>bk_retired := se_archive se, bk_pool := Some (save_pool (se_st se) (bk_pool bk))\<rparr>)"
    using b se by (auto simp: backfill_stored_def Let_def recs_def split: option.splits if_splits)
  let ?s = "seating_start ?st ?ex (bk_retired bk)"
  have start: "settled_book ?g ?s"
    by (rule seating_start_settled [OF st]) (auto simp: pooled_names_eq retired_names_keys)
  have re: "reconsidered lib recs (se_retired ?s) ?re"
    by (auto simp: reconsidered_def retired_names_keys image_iff dest: dget_in_set)
       (metis option.sel)
  have run: "seat_all lib now ?g ?re recs ?s = (se, None)" using se none by (simp add: seat_library_passes_def)
  note k = seat_all_settled [OF run start re]
  from seat_library_seats [OF se st] obtain new where
    new: "seats lib now ?g ?re recs ?s se new" by blast
  have d: "is_dict (se_st se)" using new by (simp add: seats_def)
  have names: "set (pool_names (load_pool (bk_pool bk'))) = set (se_pooled se)"
  proof (cases "se_admitted se = []")
    case True
    then have "pool_names (se_st se) = pool_names ?st" using seats_pool_names [OF new] by simp
    then show ?thesis using True k by (simp add: bk' settled_book_def)
  next
    case False
    then show ?thesis using k by (simp add: bk' settled_book_def load_pool_def [of "Some _"])
  qed
  have "is_dict (load_pool (bk_pool bk'))"
    using st d by (simp add: bk' load_pool_def [of "Some _"] save_pool_def)
  moreover have "bk_retired bk' = se_archive se" "bk_grads bk' = bk_grads bk" by (simp_all add: bk')
  ultimately show ?thesis
    using that [OF adm] k names seat_all_archive [OF run] st by simp
qed

text \<open>A second backfill over the same evaluations seats nobody and writes nothing.\<close>

lemma backfill_again:
  assumes b: "backfill_stored lib now rows results bk = (bk', Inr adm)" and st: "is_dict (load_pool (bk_pool bk))"
  shows "backfill_stored lib later rows results bk' = (bk', Inr [])"
proof -
  let ?recs = "backfill_records lib rows results (ar_retired (load_retired (bk_retired bk)))"
  let ?recs' = "backfill_records lib rows results (ar_retired (load_retired (bk_retired bk')))"
  obtain se :: seating where se: "bk_grads bk' = bk_grads bk" "all_seated lib ?recs (se_pooled se) (graduated_names (bk_grads bk))"
      "set (pool_names (load_pool (bk_pool bk'))) = set (se_pooled se)"
      "\<forall>n. archived_row (bk_retired bk') n = archived_row (bk_retired bk) n \<or>
         archived_row (bk_retired bk') n = None \<and> n \<in> set (se_pooled se)"
    by (rule backfill_cases [OF b st]) blast
  have "n \<in> set (se_pooled se) \<union> set (graduated_names (bk_grads bk))"
    if r: "rec \<in> set ?recs'" and n: "library_pass lib rec = Some n" for rec n
  proof (cases "rec \<in> set ?recs")
    case True
    then show ?thesis using se(2) n by (auto simp: all_seated_def)
  next
    case False
    then have "retired_after_latest_pass (ar_retired (load_retired (bk_retired bk))) n rec"
        "\<not> retired_after_latest_pass (ar_retired (load_retired (bk_retired bk'))) n rec"
      using r n by (auto simp: backfill_records_def)
    then have "archived_row (bk_retired bk') n \<noteq> archived_row (bk_retired bk) n"
      by (auto simp: retired_after_latest_pass_def split: option.splits)
    then show ?thesis using se(4) by blast
  qed
  then have "all_seated lib ?recs' (pooled_names (load_pool (bk_pool bk'))) (graduated_names (bk_grads bk'))"
    using se(1,3) by (auto simp: all_seated_def pooled_names_eq)
  then have "seat_library_passes lib later re ?recs' (load_pool (bk_pool bk')) ex bk' =
      (seating_start (load_pool (bk_pool bk')) ex (bk_retired bk'), None)" for re ex
    unfolding seat_library_passes_def by (intro seat_all_idle) (simp add: pooled_names_def)
  then show ?thesis by (simp add: backfill_stored_def Let_def)
qed

section \<open>The batches\<close>

lemma is_dict_save_pool [simp]: "is_dict (save_pool st f) = is_dict st"
  by (simp add: save_pool_def)

lemma book_reason_none:
  "book_reason bk pooled n = None \<longleftrightarrow>
     n \<notin> set (retired_names (bk_retired bk)) \<and> n \<notin> set pooled \<and> n \<notin> set (graduated_names (bk_grads bk))"
  by (auto simp: book_reason_def)

lemma choose_pending_sound:
  "choose_pending partial bk pooled scored sps = Some (p, sk) \<Longrightarrow>
     (\<forall>(sp, rec) \<in> set p. sp \<in> set sps \<and> dget scored (sp_name sp) = Some rec \<and> verdict_qualified rec (sp_name sp) \<and>
        book_reason bk pooled (sp_name sp) = None) \<and>
     (\<not> partial \<longrightarrow> (\<forall>sp \<in> set sps. book_reason bk pooled (sp_name sp) \<noteq> None \<or> sp \<in> fst ` set p))"
proof (induction partial bk pooled scored sps arbitrary: p sk rule: choose_pending.induct)
  case (2 partial bk pooled scored sp sps)
  show ?case
  proof (cases "book_reason bk pooled (sp_name sp)")
    case None
    show ?thesis
    proof (cases "dget scored (sp_name sp)")
      case (Some rec)
      then show ?thesis using 2 None by (fastforce split: if_splits)
    qed (use 2 None in simp)
  qed (use 2 in fastforce)
qed simp

lemma seat_pending_new:
  "seat_pending lib now bid es s = Inr s' \<Longrightarrow> is_dict (ad_st s) \<Longrightarrow>
     \<exists>new. ad_admitted s' = ad_admitted s @ new \<and> set new \<subseteq> (sp_name \<circ> fst) ` set es \<and>
       (\<forall>e \<in> set es. sp_name (fst e) \<in> set new \<union> set (ad_existing s)) \<and> is_dict (ad_st s') \<and>
       pool_names (ad_st s') = pool_names (ad_st s) @ new"
proof (induction es arbitrary: s)
  case (Cons e es)
  obtain sp raw where e: "e = (sp, raw)" by (cases e)
  obtain rec where rec: "with_center_params lib raw = Inr rec"
    using Cons.prems(1) e by (cases "with_center_params lib raw") simp_all
  let ?n = "sp_name sp"
  show ?case
  proof (cases "?n \<in> set (ad_existing s)")
    case True
    then have "seat_pending lib now bid es (skip_name ?n ''not_seated'' s) = Inr s'"
      using Cons.prems(1) rec e by (simp add: admit_qualified_def)
    from Cons.IH [OF this] Cons.prems(2) obtain new where new: "ad_admitted s' = ad_admitted s @ new"
        "set new \<subseteq> (sp_name \<circ> fst) ` set es" "\<forall>e \<in> set es. sp_name (fst e) \<in> set new \<union> set (ad_existing s)"
        "is_dict (ad_st s')" "pool_names (ad_st s') = pool_names (ad_st s) @ new"
      by (auto simp: skip_name_def)
    then show ?thesis using True e by (intro exI [of _ new]) auto
  next
    case False
    let ?s = "s\<lparr>ad_st := label_last (label_qualified_library bid sp rec) (append_champion (champion_row now rec ?n) (ad_st s)),
      ad_existing := ?n # ad_existing s, ad_admitted := ad_admitted s @ [?n]\<rparr>"
    have run: "seat_pending lib now bid es ?s = Inr s'"
      using Cons.prems(1) rec False e by (simp add: admit_qualified_def Let_def)
    have "name_text (label_qualified_library bid sp rec (champion_row now rec ?n)) = Some ?n"
      by (simp add: label_qualified_library_def name_text_def)
    then have st: "is_dict (ad_st ?s)" "pool_names (ad_st ?s) = pool_names (ad_st s) @ [?n]"
      using Cons.prems(2) by (simp_all add: pool_names_def label_last_append map_filter_append map_filter_simps)
    from Cons.IH [OF run st(1)] obtain new where new: "ad_admitted s' = ad_admitted ?s @ new"
        "set new \<subseteq> (sp_name \<circ> fst) ` set es"
        "\<forall>e \<in> set es. sp_name (fst e) \<in> set new \<union> set (ad_existing ?s)" "is_dict (ad_st s')"
        "pool_names (ad_st s') = pool_names (ad_st ?s) @ new" by blast
    then show ?thesis using st(2) e by (intro exI [of _ "?n # new"]) auto
  qed
qed auto

lemma admitting_start_simps [simp]:
  "ad_st (admitting_start bk) = load_pool (bk_pool bk)" "ad_admitted (admitting_start bk) = []"
  "ad_pooled (admitting_start bk) = pooled_names (load_pool (bk_pool bk))"
  "ad_existing (admitting_start bk) = pooled_names (load_pool (bk_pool bk)) @ graduated_names (bk_grads bk) @
     retired_names (bk_retired bk)"
  by (simp_all add: admitting_start_def Let_def)

lemma apply_library_seats:
  assumes a: "apply_library lib now (Some scored) (bid, sps) m dk = Inr ((dk', m'), Some rep)"
    and st: "is_dict (load_pool (bk_pool (dk_book dk)))"
  shows "\<forall>n \<in> set (ap_admitted rep). \<exists>sp rec. sp \<in> set sps \<and> sp_name sp = n \<and> dget scored n = Some rec \<and> verdict_qualified rec n"
    "bid \<noteq> LIBRARY_APPROVED_BATCH_3 \<Longrightarrow> \<forall>sp \<in> set sps. sp_name sp \<in> set (ap_admitted rep) \<or>
       book_reason (dk_book dk) (pooled_names (load_pool (bk_pool (dk_book dk)))) (sp_name sp) \<noteq> None"
    "bid \<in> set (mk_applied m')" "is_dict (load_pool (bk_pool (dk_book dk')))"
    "pool_names (load_pool (bk_pool (dk_book dk'))) = pool_names (load_pool (bk_pool (dk_book dk))) @ ap_admitted rep"
proof -
  let ?bk = "dk_book dk" and ?s = "admitting_start (dk_book dk)"
  obtain p sk s' where p: "choose_pending (bid = LIBRARY_APPROVED_BATCH_3) ?bk (ad_pooled ?s) scored sps = Some (p, sk)"
      "seat_pending lib now bid p (?s\<lparr>ad_skipped := sk\<rparr>) = Inr s'" "rep = report_of bid s'"
      "apply_batch now rep [(''qualified'', JBool True)] (ad_st s') m dk = (dk', m')"
    using a by (auto simp: apply_library_def Let_def bind_result_Inr split: option.splits)
  note c = choose_pending_sound [OF p(1)]
  from seat_pending_new [OF p(2)] st obtain new where new: "ap_admitted rep = new" "set new \<subseteq> (sp_name \<circ> fst) ` set p"
      "\<forall>e \<in> set p. sp_name (fst e) \<in> set new \<union> set (ad_existing ?s)" "is_dict (ad_st s')"
      "pool_names (ad_st s') = pool_names (load_pool (bk_pool ?bk)) @ new"
    by (auto simp: p(3) report_of_def)
  show "\<forall>n \<in> set (ap_admitted rep). \<exists>sp rec. sp \<in> set sps \<and> sp_name sp = n \<and> dget scored n = Some rec \<and> verdict_qualified rec n"
    using c new(1,2) by fastforce
  show "\<forall>sp \<in> set sps. sp_name sp \<in> set (ap_admitted rep) \<or>
       book_reason ?bk (pooled_names (load_pool (bk_pool ?bk))) (sp_name sp) \<noteq> None"
    if "bid \<noteq> LIBRARY_APPROVED_BATCH_3"
    using c that new(1,3) by (fastforce simp: book_reason_none)
  show "bid \<in> set (mk_applied m')" using apply_batch_marker [OF p(4)] by (simp add: p(3) report_of_def)
  show "is_dict (load_pool (bk_pool (dk_book dk')))"
    "pool_names (load_pool (bk_pool (dk_book dk'))) = pool_names (load_pool (bk_pool ?bk)) @ ap_admitted rep"
    using new(1,4,5) st by (auto simp: apply_batch_book [OF p(4)] load_pool_def [of "Some _"])
qed

text \<open>The unproven forward test\<close>

lemma label_forward_get:
  "is_dict row \<Longrightarrow> is_dict (label_forward_champion sp rec row) \<and>
     jget (label_forward_champion sp rec row) ''name'' = jget row ''name'' \<and>
     jget (label_forward_champion sp rec row) ''qualified'' = JBool False \<and>
     jget (label_forward_champion sp rec row) ''admission'' = JStr FORWARD_TEST_ADMISSION"
  by (simp add: label_forward_champion_def Let_def)

lemma admit_forward_rows:
  assumes "is_dict (ad_st s)"
  shows "is_dict (ad_st (admit_forward now bk e s)) \<and>
    (\<exists>new. pool_rows (ad_st (admit_forward now bk e s)) = pool_rows (ad_st s) @ new \<and>
      ad_admitted (admit_forward now bk e s) = ad_admitted s @ List.map_filter name_text new \<and>
      (\<forall>row \<in> set new. jget row ''name'' = JStr (sp_name (fst e)) \<and> jget row ''qualified'' = JBool False \<and>
         jget row ''admission'' = JStr FORWARD_TEST_ADMISSION))"
proof -
  obtain sp raw where e: "e = (sp, raw)" by (cases e)
  let ?rec = "jset ''qualified'' (JBool False) raw"
  let ?row = "label_forward_champion sp ?rec (champion_row now ?rec (sp_name sp))"
  have row: "jget ?row ''name'' = JStr (sp_name sp)" "jget ?row ''qualified'' = JBool False"
      "jget ?row ''admission'' = JStr FORWARD_TEST_ADMISSION" "name_text ?row = Some (sp_name sp)"
    by (simp_all add: label_forward_get name_text_def)
  show ?thesis
  proof (cases "book_reason bk (ad_pooled s) (sp_name sp) \<noteq> None \<or> sp_name sp \<in> set (ad_existing s)")
    case True
    then show ?thesis using assms
      by (auto simp: admit_forward_def e admit_qualified_def skip_name_def Let_def map_filter_simps split: option.splits)
  next
    case False
    then show ?thesis using assms row
      by (auto simp: admit_forward_def e admit_qualified_def Let_def label_last_append map_filter_simps)
  qed
qed

lemma apply_requalify_dict:
  assumes "apply_requalify now names m dk = ((dk', m'), rep)" "is_dict (load_pool (bk_pool (dk_book dk)))"
  shows "is_dict (load_pool (bk_pool (dk_book dk')))" "bk_retired (dk_book dk') = bk_retired (dk_book dk)"
proof -
  have d: "is_dict (ad_st (fold (admit_approved now bk) es s))" if "is_dict (ad_st s)" for bk es s
    using that by (rule fold_keeps [where P = "\<lambda>s. is_dict (ad_st s)", rotated])
      (auto simp: admit_approved_def skip_name_def Let_def split: prod.splits option.splits)
  show "is_dict (load_pool (bk_pool (dk_book dk')))" "bk_retired (dk_book dk') = bk_retired (dk_book dk)"
    using assms d [of "admitting_start (dk_book dk)"]
    by (auto simp: apply_requalify_def apply_batch_def Let_def load_pool_def [of "Some _"]
        split: option.splits)
qed

lemma apply_forward_dict:
  assumes "apply_forward now given m dk = ((dk', m'), rep)" "is_dict (load_pool (bk_pool (dk_book dk)))"
  shows "is_dict (load_pool (bk_pool (dk_book dk')))"
proof -
  have d: "is_dict (ad_st (fold (admit_forward now bk) es s))" if "is_dict (ad_st s)" for bk es s
    using that by (rule fold_keeps [where P = "\<lambda>s. is_dict (ad_st s)", rotated]) (simp add: admit_forward_rows)
  then show ?thesis
    using assms d [of "admitting_start (dk_book dk)"]
    by (auto simp: apply_forward_def apply_batch_def Let_def load_pool_def [of "Some _"]
        split: option.splits)
qed

lemma apply_library_dict:
  assumes "apply_library lib now records b m dk = Inr ((dk', m'), rep)" "is_dict (load_pool (bk_pool (dk_book dk)))"
  shows "is_dict (load_pool (bk_pool (dk_book dk')))"
proof (cases rep)
  case None
  then have "dk' = dk"
    using assms(1) by (cases b) (auto simp: apply_library_def Let_def bind_result_Inr split: option.splits)
  then show ?thesis using assms(2) by simp
next
  case (Some r)
  then obtain scored where "records = Some scored"
    using assms(1) by (cases b; cases records) (auto simp: apply_library_def Let_def)
  then show ?thesis
    using apply_library_seats(4) [of lib now scored "fst b" "snd b" m dk dk' m' r] assms Some by simp
qed

lemma apply_libraries_dict:
  "apply_libraries lib now records bs m dk out = (dk', r) \<Longrightarrow> is_dict (load_pool (bk_pool (dk_book dk))) \<Longrightarrow>
     is_dict (load_pool (bk_pool (dk_book dk')))"
proof (induction bs arbitrary: m dk out)
  case (Cons b bs)
  show ?case
  proof (cases "fst b \<in> set (mk_applied m) \<or> snd b = []")
    case True
    then show ?thesis using Cons by auto
  next
    case False
    show ?thesis
    proof (cases "apply_library lib now (records (fst b)) b m dk")
      case (Inl e)
      then show ?thesis using Cons.prems False by simp
    next
      case (Inr x)
      obtain dk1 m1 rep where x: "x = ((dk1, m1), rep)" by (metis prod.collapse)
      have "is_dict (load_pool (bk_pool (dk_book dk1)))"
        using apply_library_dict Inr x Cons.prems(2) by blast
      then show ?thesis using Cons.IH Cons.prems(1) False Inr x by auto
    qed
  qed
qed simp

lemma apply_libraries_done:
  "\<forall>b \<in> set bs. fst b \<in> set (mk_applied m) \<Longrightarrow> apply_libraries lib now records bs m dk out = (dk, Inr out)"
  by (induction bs) auto

end
