(* ===== verification/StartupProperties.thy ===== *)
theory StartupProperties
  imports StartupFacts
begin

text \<open>
  The properties of a server start (\<open>trading/approved_admit.py\<close>): a library batch seats all of its names or
  none, the unproven forward test never reads as qualified, and a second start seats nobody.
\<close>

section \<open>Samples\<close>

definition start_library :: "lib_strategy list" where
  "start_library = [\<lparr>ls_key = ''rsi2'', ls_title = ''RSI 2'', ls_params = [], ls_stop = 1 / 5\<rparr>,
     \<lparr>ls_key = ''sma200'', ls_title = ''SMA 200'', ls_params = [], ls_stop = 1 / 5\<rparr>]"

definition start_pass :: "string \<Rightarrow> jv" where
  "start_pass n = JObj [(''strategy'', JStr n), (''tested_at'', JTime 7), (''qualified'', JBool True),
     (''gate_rules'', JStr GATE_RULES), (''gate_v4'', JObj [(''passed'', JBool True), (''rules'', JStr GATE_RULES)])]"

definition start_fail :: "string \<Rightarrow> int \<Rightarrow> jv" where
  "start_fail n t = JObj [(''strategy'', JStr n), (''tested_at'', JTime t), (''qualified'', JBool False),
     (''gate_rules'', JStr GATE_RULES)]"

definition empty_desk :: desk where
  "empty_desk = \<lparr>dk_book = \<lparr>bk_pool = None, bk_grads = None, bk_retired = None\<rparr>, dk_marker = None\<rparr>"

definition first_batch :: "string \<times> admit_spec list" where
  "first_batch = hd LIBRARY_APPROVED_BATCHES"

section \<open>Library batches\<close>

text \<open>
  C17. Every name a qualified library batch seats is listed in it and has a passing verdict of the current gate; the batch
  is marked as applied and its names are appended to the pool. A batch that is not the partial one seats all of its
  names, except those already on the book.
\<close>

theorem library_batch_all_or_nothing:
  assumes "apply_library lib now (Some scored) (bid, sps) m dk = Inr ((dk', m'), Some rep)"
    and "is_dict (load_pool (bk_pool (dk_book dk)))"
  shows "bid \<in> set (mk_applied m') \<and>
    pool_names (load_pool (bk_pool (dk_book dk'))) = pool_names (load_pool (bk_pool (dk_book dk))) @ ap_admitted rep \<and>
    (\<forall>n \<in> set (ap_admitted rep). n \<in> sp_name ` set sps \<and>
       (\<exists>rec. dget scored n = Some rec \<and> verdict_qualified rec n)) \<and>
    (bid \<noteq> LIBRARY_APPROVED_BATCH_3 \<longrightarrow>
       (\<forall>sp \<in> set sps. sp_name sp \<in> set (ap_admitted rep) \<or>
          book_reason (dk_book dk) (pooled_names (load_pool (bk_pool (dk_book dk)))) (sp_name sp) \<noteq> None))"
  using apply_library_seats(1,3,5) [OF assms] apply_library_seats(2) [OF assms]
  by (simp add: image_iff) metis

definition two_passes :: "jv dict" where
  "two_passes = [(''lib.rsi2'', start_pass ''lib.rsi2''), (''lib.sma200'', start_pass ''lib.sma200'')]"

definition batch_result :: "((desk \<times> marker) \<times> admit_report option) result" where
  "batch_result = apply_library start_library 100 (Some two_passes) first_batch (load_marker None) empty_desk"

lemma batch_result_seats:
  "case batch_result of Inl e \<Rightarrow> False | Inr x \<Rightarrow> map_option ap_admitted (snd x) = Some [''lib.rsi2'', ''lib.sma200'']"
  by code_simp

lemma first_batch_names: "fst first_batch = LIBRARY_APPROVED_BATCH" "map sp_name (snd first_batch) = [''lib.rsi2'', ''lib.sma200'']"
  by (simp_all add: first_batch_def LIBRARY_APPROVED_BATCHES_def library_specs_def)

theorem library_batch_all_or_nothing_witness:
  "\<exists>dk' m' rep. batch_result = Inr ((dk', m'), Some rep) \<and> LIBRARY_APPROVED_BATCH \<in> set (mk_applied m') \<and>
     pool_names (load_pool (bk_pool (dk_book dk'))) = [''lib.rsi2'', ''lib.sma200'']"
proof -
  obtain x where x: "batch_result = Inr x" "map_option ap_admitted (snd x) = Some [''lib.rsi2'', ''lib.sma200'']"
    using batch_result_seats by (auto split: sum.splits)
  obtain dk' m' r where p: "x = ((dk', m'), r)" by (metis prod.collapse)
  with x(2) obtain rep where rep: "r = Some rep" "ap_admitted rep = [''lib.rsi2'', ''lib.sma200'']" by auto
  have "apply_library start_library 100 (Some two_passes) (fst first_batch, snd first_batch) (load_marker None) empty_desk =
      Inr ((dk', m'), Some rep)"
    using x(1) p rep(1) by (simp add: batch_result_def)
  from library_batch_all_or_nothing [OF this]
  have "fst first_batch \<in> set (mk_applied m') \<and> pool_names (load_pool (bk_pool (dk_book dk'))) =
      pool_names (load_pool (bk_pool (dk_book empty_desk))) @ ap_admitted rep"
    by (simp add: empty_desk_def load_pool_def)
  moreover have "pool_names (load_pool (bk_pool (dk_book empty_desk))) = []"
    by (simp add: empty_desk_def load_pool_def pool_names_def pool_rows_def map_filter_simps)
  ultimately show ?thesis using x(1) p rep first_batch_names(1) by auto
qed

section \<open>The unproven forward test\<close>

text \<open>
  The forward-test batch only appends rows that say qualified false and carry the unproven label, whatever the
  evaluation said, and it is marked as applied.
\<close>

lemma forward_test_never_qualified:
  assumes "apply_forward now given m dk = ((dk', m'), Some rep)" "is_dict (load_pool (bk_pool (dk_book dk)))"
  shows "FORWARD_TEST_BATCH \<in> set (mk_applied m') \<and>
    (\<exists>old new. pool_rows (load_pool (bk_pool (dk_book dk'))) = old @ new \<and>
       map name_text old = map name_text (pool_rows (load_pool (bk_pool (dk_book dk)))) \<and>
       (\<forall>row \<in> set new. name_text row \<in> Some ` sp_name ` set FORWARD_TEST_ADMITS \<and>
          jget row ''qualified'' = JBool False \<and> jget row ''admission'' = JStr FORWARD_TEST_ADMISSION))"
proof -
  let ?bk = "dk_book dk"
  obtain recs where recs: "all_some (forward_record_for given) FORWARD_TEST_ADMITS = Some recs"
    using assms(1) by (auto simp: apply_forward_def split: option.splits)
  obtain sp r where r: "recs = [(sp, r)]" "FORWARD_TEST_ADMITS = [sp]"
    using recs by (auto simp: FORWARD_TEST_ADMITS_def split: option.splits)
  define s where "s = admit_forward now ?bk (sp, r) (admitting_start ?bk)"
  have b: "apply_batch now (report_of FORWARD_TEST_BATCH s) [(''admission'', JStr FORWARD_TEST_ADMISSION)] (ad_st s) m dk = (dk', m')"
    using assms(1) recs r by (auto simp: apply_forward_def Let_def s_def)
  have "is_dict (ad_st (admitting_start ?bk))" using assms(2) by simp
  from admit_forward_rows [OF this, of now ?bk "(sp, r)"] obtain new where
    new: "pool_rows (ad_st s) = pool_rows (load_pool (bk_pool ?bk)) @ new" "ad_admitted s = List.map_filter name_text new"
      "\<forall>row \<in> set new. jget row ''name'' = JStr (sp_name sp) \<and> jget row ''qualified'' = JBool False \<and>
         jget row ''admission'' = JStr FORWARD_TEST_ADMISSION"
    by (auto simp: s_def)
  have names: "\<forall>row \<in> set new. name_text row = Some (sp_name sp)" using new(3) by (simp add: name_text_def)
  have kept: "jget (keep_since prev c) k = jget c k" if "k \<noteq> ''champion_since''" for prev c k
    using that by (cases c) (auto simp: keep_since_def jget_def split: option.splits)
  have "\<exists>old new'. pool_rows (load_pool (bk_pool (dk_book dk'))) = old @ new' \<and>
      map name_text old = map name_text (pool_rows (load_pool (bk_pool ?bk))) \<and>
      (\<exists>prev. new' = map (keep_since prev) new \<or> new' = new)"
  proof (cases "ad_admitted s = []")
    case True
    with new(2) names have "new = []" by (cases new) (auto simp: map_filter_simps)
    with True show ?thesis by (simp add: apply_batch_book [OF b] report_of_def)
  next
    case False
    then have "pool_rows (load_pool (bk_pool (dk_book dk'))) =
        map (keep_since (stored_rows (bk_pool ?bk))) (pool_rows (load_pool (bk_pool ?bk))) @
        map (keep_since (stored_rows (bk_pool ?bk))) new"
      by (simp add: apply_batch_book [OF b] report_of_def load_pool_def [of "Some _"] rows_save_pool new(1))
    then show ?thesis by (metis (no_types, lifting) comp_apply list.map_comp map_cong name_text_keep_since)
  qed
  then obtain old new' where "pool_rows (load_pool (bk_pool (dk_book dk'))) = old @ new'"
      "map name_text old = map name_text (pool_rows (load_pool (bk_pool ?bk)))"
      "\<forall>row \<in> set new'. name_text row = Some (sp_name sp) \<and> jget row ''qualified'' = JBool False \<and>
         jget row ''admission'' = JStr FORWARD_TEST_ADMISSION"
    using new(3) names by (auto simp: kept)
  moreover have "FORWARD_TEST_BATCH \<in> set (mk_applied m')"
    using apply_batch_marker [OF b] by (simp add: report_of_def)
  ultimately show ?thesis unfolding r(2) by - (rule conjI, assumption, rule exI [of _ old], rule exI [of _ new'], simp)
qed

definition forward_result :: "(desk \<times> marker) \<times> admit_report option" where
  "forward_result = apply_forward 100 (Some (start_pass ''lib.sma100'')) (load_marker None) empty_desk"

lemma forward_result_seats: "map_option ap_admitted (snd forward_result) = Some [''lib.sma100'']"
  by code_simp

lemma forward_test_never_qualified_instance:
  "FORWARD_TEST_BATCH \<in> set (mk_applied (snd (fst forward_result)))"
proof -
  obtain rep where rep: "snd forward_result = Some rep" using forward_result_seats by auto
  then have "apply_forward 100 (Some (start_pass ''lib.sma100'')) (load_marker None) empty_desk =
      ((fst (fst forward_result), snd (fst forward_result)), Some rep)"
    by (metis forward_result_def prod.collapse)
  from forward_test_never_qualified [OF this] show ?thesis by (simp add: empty_desk_def load_pool_def)
qed

section \<open>A second start\<close>

text \<open>
  When every batch has been marked as applied by a start that ended without an error, a later start over the same
  evaluations changes neither the book nor the marker, whatever the scores and requalify verdicts are by then.
\<close>

lemma second_start_seats_nobody:
  assumes "ensure_approved_admits lib now requal rows results forward records dk = (dk', Inr out)"
    and "is_dict (load_pool (bk_pool (dk_book dk)))"
    and "{APPROVED_ADMIT_BATCH, FORWARD_TEST_BATCH} \<union> fst ` set LIBRARY_APPROVED_BATCHES
      \<subseteq> set (mk_applied (load_marker (dk_marker dk')))"
  shows "ensure_approved_admits lib later requal' rows results forward' records' dk' = (dk', Inr None)"
proof -
  define m where "m = load_marker (dk_marker dk)"
  obtain dk1 m1 o1 where s1: "(if APPROVED_ADMIT_BATCH \<in> set (mk_applied m) then ((dk, m), None)
      else apply_requalify now requal m dk) = ((dk1, m1), o1)" by (metis prod.collapse)
  obtain dk2 m2 o2 where s2: "(if FORWARD_TEST_BATCH \<in> set (mk_applied m1) then ((dk1, m1), None)
      else apply_forward now forward m1 dk1) = ((dk2, m2), o2)" by (metis prod.collapse)
  obtain dk3 r where s3: "apply_libraries lib now records LIBRARY_APPROVED_BATCHES m2 dk2 None = (dk3, r)"
    by (metis prod.collapse)
  obtain bk b where s4: "backfill_stored lib now rows results (dk_book dk3) = (bk, b)" by (metis prod.collapse)
  note first = assms(1)[unfolded ensure_approved_admits_def Let_def, folded m_def, unfolded s1 prod.case, unfolded s2 prod.case,
      unfolded s3 prod.case]
  have "is_dict (load_pool (bk_pool (dk_book dk1)))"
    using s1 apply_requalify_dict(1) assms(2) by (auto split: if_splits)
  then have "is_dict (load_pool (bk_pool (dk_book dk2)))"
    using s2 apply_forward_dict by (auto split: if_splits)
  then have d3: "is_dict (load_pool (bk_pool (dk_book dk3)))" using apply_libraries_dict [OF s3] by simp
  obtain lib_out adm where "r = Inr lib_out" "b = Inr adm" and dk': "dk' = dk3\<lparr>dk_book := bk\<rparr>"
    using first s4 by (auto split: sum.splits)
  then have again: "backfill_stored lib later rows results bk = (bk, Inr [])"
    using backfill_again [OF _ d3] s4 by blast
  have libs: "apply_libraries lib later records' LIBRARY_APPROVED_BATCHES (load_marker (dk_marker dk')) dk' None =
      (dk', Inr None)"
    using assms(3) by (intro apply_libraries_done) auto
  have "dk_book dk' = bk" "dk'\<lparr>dk_book := bk\<rparr> = dk'" by (simp_all add: dk')
  with assms(3) libs again show ?thesis by (simp add: ensure_approved_admits_def)
qed

definition all_batches :: "string list" where
  "all_batches = [APPROVED_ADMIT_BATCH, FORWARD_TEST_BATCH] @ map fst LIBRARY_APPROVED_BATCHES"

definition marked_desk :: desk where
  "marked_desk = empty_desk\<lparr>dk_marker := Some (save_marker \<lparr>mk_applied = all_batches, mk_batches = []\<rparr>)\<rparr>"

definition stored_results :: "jv option" where
  "stored_results = save_library_result (start_pass ''lib.sma200'') None"

definition first_start :: "desk \<times> admit_report option result" where
  "first_start = ensure_approved_admits start_library 100 [] [] stored_results None (\<lambda>b. None) marked_desk"

lemma first_start_seats:
  "(case snd first_start of Inl e \<Rightarrow> False | Inr r \<Rightarrow> r = None) \<and>
   pool_names (load_pool (bk_pool (dk_book (fst first_start)))) = [''lib.sma200''] \<and>
   list_all (\<lambda>b. b \<in> set (mk_applied (load_marker (dk_marker (fst first_start))))) all_batches"
  by code_simp

lemma second_start_seats_nobody_instance:
  "ensure_approved_admits start_library 200 [] [] stored_results None (\<lambda>b. Some two_passes) (fst first_start) =
     (fst first_start, Inr None)"
proof -
  have "ensure_approved_admits start_library 100 [] [] stored_results None (\<lambda>b. None) marked_desk = (fst first_start, Inr None)"
    using first_start_seats by (cases "snd first_start") (auto simp: first_start_def prod_eq_iff)
  moreover have "is_dict (load_pool (bk_pool (dk_book marked_desk)))"
    by (simp add: marked_desk_def empty_desk_def load_pool_def)
  moreover have "{APPROVED_ADMIT_BATCH, FORWARD_TEST_BATCH} \<union> fst ` set LIBRARY_APPROVED_BATCHES
      \<subseteq> set (mk_applied (load_marker (dk_marker (fst first_start))))"
    using first_start_seats by (auto simp: list_all_iff all_batches_def)
  ultimately show ?thesis by (rule second_start_seats_nobody)
qed

section \<open>Stored evaluations\<close>

text \<open>
  A newest log row that failed does not hide an older pass that is still in the results file: the backfill
  seats the name.
\<close>

lemma failed_log_row_hides_nothing:
  "snd (backfill_stored start_library 100 [start_fail ''lib.sma200'' 9] stored_results (dk_book empty_desk)) =
     Inr [''lib.sma200'']"
  by code_simp

end
