(* ===== verification/Bars.thy ===== *)
theory Bars
  imports Numbers
begin

text \<open>
  Daily bars (\<open>library/daily.py\<close>): the 5-minute candles of the tape are grouped into completed UTC
  days. Prices are exact rationals; a tape has no NaN price.
\<close>

named_theorems engine_simps \<open>unfolding of the fills, the stop and the decision rule\<close>

definition DAY_MS :: int where "DAY_MS = 86400000"

record candle =
  cd_ts :: int
  cd_open :: rat
  cd_high :: rat
  cd_low :: rat
  cd_close :: rat

text \<open>One row of the five arrays of \<open>DailyBars\<close>.\<close>

record day =
  dy_ts :: int
  dy_open :: rat
  dy_high :: rat
  dy_low :: rat
  dy_close :: rat

text \<open>\<open>np.searchsorted(ts, t, side="left")\<close> on ascending days\<close>

definition index_of :: "day list \<Rightarrow> int \<Rightarrow> nat" where
  "index_of bars t = length (takeWhile (\<lambda>b. dy_ts b < t) bars)"

definition take_days :: "day list \<Rightarrow> int \<Rightarrow> day list" where
  "take_days bars e = take (nat (max 0 (min (int (length bars)) e))) bars"

definition before :: "day list \<Rightarrow> int \<Rightarrow> day list" where
  "before bars t = take_days bars (int (index_of bars t))"

definition last_ts :: "day list \<Rightarrow> int option" where
  "last_ts bars = (if bars = [] then None else Some (dy_ts (last bars)))"

section \<open>Resampling\<close>

fun ascending :: "candle list \<Rightarrow> bool" where
  "ascending (a # b # cs) = (cd_ts a < cd_ts b \<and> ascending (b # cs))"
| "ascending cs = True"

text \<open>Of rows with one timestamp the last is kept.\<close>

fun keep_last :: "candle list \<Rightarrow> candle list" where
  "keep_last (a # b # cs) = (if cd_ts a = cd_ts b then keep_last (b # cs) else a # keep_last (b # cs))"
| "keep_last cs = cs"

definition tidy :: "candle list \<Rightarrow> candle list" where
  "tidy cs = (if ascending cs then cs else keep_last (sort_key cd_ts cs))"

definition day_of :: "candle \<Rightarrow> int" where
  "day_of c = cd_ts c - cd_ts c mod DAY_MS"

text \<open>The runs of candles with one day\<close>

fun day_runs :: "candle list \<Rightarrow> candle list list" where
  "day_runs [] = []"
| "day_runs (c # cs) =
     (case day_runs cs of
        [] \<Rightarrow> [[c]]
      | g # gs \<Rightarrow> if day_of c = day_of (hd g) then (c # g) # gs else [c] # g # gs)"

definition day_bar :: "candle list \<Rightarrow> day" where
  "day_bar g =
     \<lparr>dy_ts = day_of (hd g), dy_open = cd_open (hd g), dy_high = foldr max (map cd_high (tl g)) (cd_high (hd g)),
      dy_low = foldr min (map cd_low (tl g)) (cd_low (hd g)), dy_close = cd_close (last g)\<rparr>"

text \<open>The last run is the day that is still forming.\<close>

definition daily_bars :: "candle list \<Rightarrow> day list" where
  "daily_bars cs = map day_bar (butlast (day_runs (tidy cs)))"

section \<open>Facts\<close>

lemma day_runs_nil [simp]: "day_runs cs = [] \<longleftrightarrow> cs = []"
  by (cases cs) (auto split: list.splits)

lemma concat_day_runs [simp]: "concat (day_runs cs) = cs"
  by (induction cs rule: day_runs.induct) (auto split: list.splits simp: neq_Nil_conv)

lemma day_runs_ne: "g \<in> set (day_runs cs) \<Longrightarrow> g \<noteq> []"
  by (induction cs arbitrary: g rule: day_runs.induct) (auto split: list.splits if_splits)

lemma hd_hd_day_runs: "cs \<noteq> [] \<Longrightarrow> hd (hd (day_runs cs)) = hd cs"
  by (cases cs) (auto split: list.splits)

lemma day_runs_one_day: "g \<in> set (day_runs cs) \<Longrightarrow> c \<in> set g \<Longrightarrow> day_of c = day_of (hd g)"
proof (induction cs arbitrary: g rule: day_runs.induct)
  case (2 a cs)
  then show ?case by (fastforce split: list.splits if_splits)
qed simp

lemma day_of_le: "cd_ts a \<le> cd_ts b \<Longrightarrow> day_of a \<le> day_of b"
proof -
  assume "cd_ts a \<le> cd_ts b"
  then have "cd_ts a div DAY_MS \<le> cd_ts b div DAY_MS" by (intro zdiv_mono1) (simp_all add: DAY_MS_def)
  then show ?thesis by (simp add: day_of_def minus_mod_eq_mult_div mult.commute DAY_MS_def)
qed

lemma ascending_Cons: "ascending (c # cs) \<longleftrightarrow> ascending cs \<and> (\<forall>x \<in> set cs. cd_ts c < cd_ts x)"
proof (induction cs arbitrary: c)
  case (Cons a cs)
  have "ascending (c # a # cs) \<longleftrightarrow> cd_ts c < cd_ts a \<and> ascending (a # cs)" by simp
  then show ?case using Cons.IH [of a] by (auto intro: order.strict_trans)
qed simp

lemma ascending_append:
  "ascending (xs @ ys) \<longleftrightarrow> ascending xs \<and> ascending ys \<and> (\<forall>x \<in> set xs. \<forall>y \<in> set ys. cd_ts x < cd_ts y)"
  by (induction xs) (auto simp: ascending_Cons)

lemma keep_last_set: "set (keep_last cs) \<subseteq> set cs"
  by (induction cs rule: keep_last.induct) auto

lemma ascending_keep_last: "sorted (map cd_ts cs) \<Longrightarrow> ascending (keep_last cs)"
proof (induction cs rule: keep_last.induct)
  case (1 a b cs)
  have "\<forall>x \<in> set (keep_last (b # cs)). cd_ts b \<le> cd_ts x" using keep_last_set [of "b # cs"] "1.prems" by auto
  with 1 show ?case by (auto simp: ascending_Cons order.strict_iff_order)
qed simp_all

lemma ascending_tidy: "ascending (tidy cs)"
  by (simp add: tidy_def ascending_keep_last)

text \<open>The days of the runs ascend.\<close>

lemma day_runs_ascend:
  "ascending cs \<Longrightarrow> sorted_wrt (<) (map (\<lambda>g. day_of (hd g)) (day_runs cs))"
proof (induction cs rule: day_runs.induct)
  case (2 c cs)
  note IH = 2(1) and asc = 2(2)
  have le: "day_of c \<le> day_of (hd g)" if "g \<in> set (day_runs cs)" for g
  proof -
    have "hd g \<in> set cs" using that day_runs_ne [OF that] concat_day_runs [of cs] by (metis UN_I hd_in_set set_concat)
    then show ?thesis using asc by (intro day_of_le) (auto simp: ascending_Cons)
  qed
  show ?case
  proof (cases "day_runs cs")
    case Nil then show ?thesis by simp
  next
    case (Cons g gs)
    have s: "sorted_wrt (<) (map (\<lambda>g. day_of (hd g)) (g # gs))" using IH asc Cons by (simp add: ascending_Cons)
    then show ?thesis using Cons le [of g] by (auto simp: order.order_iff_strict)
  qed
qed simp

lemma sorted_wrt_butlast: "sorted_wrt r xs \<Longrightarrow> sorted_wrt r (butlast xs)"
  by (cases xs rule: rev_cases) (simp_all add: sorted_wrt_append)

lemma daily_bars_ascend: "sorted_wrt (<) (map dy_ts (daily_bars cs))"
proof -
  have "map dy_ts (daily_bars cs) = butlast (map (\<lambda>g. day_of (hd g)) (day_runs (tidy cs)))"
    by (simp add: daily_bars_def map_butlast day_bar_def comp_def)
  then show ?thesis by (simp add: sorted_wrt_butlast day_runs_ascend ascending_tidy)
qed

text \<open>Completed days do not change as the tape grows.\<close>

lemma day_runs_append:
  "xs \<noteq> [] \<Longrightarrow> \<exists>rest. day_runs (xs @ ys) = butlast (day_runs xs) @ rest"
proof (induction xs rule: day_runs.induct)
  case (2 c cs)
  show ?case
  proof (cases "cs = []")
    case True then show ?thesis by simp
  next
    case False
    then obtain rest where r: "day_runs (cs @ ys) = butlast (day_runs cs) @ rest" using 2 by blast
    obtain g gs where g: "day_runs cs = g # gs" using False by (cases "day_runs cs") auto
    have hd: "hd g = hd cs" using hd_hd_day_runs [OF False] g by simp
    obtain h hs where h: "day_runs (cs @ ys) = h # hs" using False by (cases "day_runs (cs @ ys)") auto
    have hh: "hd h = hd cs" using hd_hd_day_runs [of "cs @ ys"] h False by simp
    show ?thesis
    proof (cases gs)
      case Nil then show ?thesis using g h hd hh by (auto intro: exI)
    next
      case (Cons g' gs')
      then have "h = g" using r g h by simp
      then show ?thesis using g h r Cons hd by (auto intro: exI)
    qed
  qed
qed simp

lemma butlast_append_prefix: "rest \<noteq> [] \<Longrightarrow> \<exists>zs. butlast (xs @ rest) = xs @ zs"
  by (auto simp: butlast_append)

lemma daily_bars_grow:
  assumes "ascending (xs @ ys)"
  shows "\<exists>zs. daily_bars (xs @ ys) = daily_bars xs @ zs"
proof (cases "xs = []")
  case True then show ?thesis by (simp add: daily_bars_def tidy_def)
next
  case False
  then obtain rest where r: "day_runs (xs @ ys) = butlast (day_runs xs) @ rest" using day_runs_append by blast
  have "rest \<noteq> []"
  proof
    assume "rest = []"
    then have "concat (butlast (day_runs xs)) = xs @ ys" using r concat_day_runs [of "xs @ ys"] by simp
    moreover have "xs = concat (butlast (day_runs xs)) @ last (day_runs xs)"
      using False concat_day_runs [of xs] by (metis append_butlast_last_id concat.simps concat_append append_Nil2 day_runs_nil)
    moreover have "last (day_runs xs) \<noteq> []" using False by (intro day_runs_ne [of _ xs]) simp
    ultimately show False by (metis append_self_conv append_assoc append_is_Nil_conv)
  qed
  then obtain zs where "butlast (day_runs (xs @ ys)) = butlast (day_runs xs) @ zs"
    using r butlast_append_prefix by metis
  moreover have "ascending xs" using assms by (simp add: ascending_append)
  ultimately show ?thesis using assms by (simp add: daily_bars_def tidy_def)
qed

text \<open>A bar is only made once a candle of a later day is on the tape.\<close>

lemma sorted_wrt_butlast_last: "sorted_wrt r xs \<Longrightarrow> x \<in> set (butlast xs) \<Longrightarrow> r x (last xs)"
  by (cases xs rule: rev_cases) (auto simp: sorted_wrt_append)

lemma day_of_DAY: "\<exists>k. day_of c = k * DAY_MS" "day_of c \<le> cd_ts c"
  by (auto simp: day_of_def DAY_MS_def minus_mod_eq_mult_div intro!: exI [of _ "cd_ts c div 86400000"])

lemma day_of_next: "day_of a < day_of b \<Longrightarrow> day_of a + DAY_MS \<le> cd_ts b"
proof -
  assume less: "day_of a < day_of b"
  obtain k where k: "day_of a = k * DAY_MS" using day_of_DAY(1) by blast
  obtain l where l: "day_of b = l * DAY_MS" using day_of_DAY(1) by blast
  have "k < l" using less k l by (simp add: DAY_MS_def)
  then have "k * DAY_MS + DAY_MS \<le> l * DAY_MS" by (simp add: DAY_MS_def)
  then show ?thesis using k l day_of_DAY(2) [of b] by linarith
qed

lemma daily_bar_complete:
  assumes "b \<in> set (daily_bars cs)"
  shows "\<exists>c \<in> set (tidy cs). dy_ts b + DAY_MS \<le> cd_ts c"
proof -
  let ?ds = "map (\<lambda>g. day_of (hd g)) (day_runs (tidy cs))"
  from assms obtain g where g: "g \<in> set (butlast (day_runs (tidy cs)))" "b = day_bar g" by (auto simp: daily_bars_def)
  then have ne: "day_runs (tidy cs) \<noteq> []" by auto
  let ?h = "last (day_runs (tidy cs))"
  have "day_of (hd g) \<in> set (butlast ?ds)" using g(1) by (simp add: map_butlast [symmetric])
  then have "day_of (hd g) < last ?ds"
    using sorted_wrt_butlast_last [OF day_runs_ascend [OF ascending_tidy]] by blast
  then have less: "day_of (hd g) < day_of (hd ?h)" using ne by (simp add: last_map)
  have "?h \<in> set (day_runs (tidy cs))" using ne by simp
  then have "hd ?h \<in> set (tidy cs)" by (metis UN_I concat_day_runs day_runs_ne hd_in_set set_concat)
  then show ?thesis using day_of_next [OF less] g(2) by (auto simp: day_bar_def)
qed

end
