(* ===== verification/Engine.thy ===== *)
theory Engine
  imports Bars
begin

text \<open>
  The \<open>signal_exit\<close> engine (\<open>library/engine.py\<close>): fills, the decision rule shared by the backtest and
  the live book, and the backtest \<open>run\<close> over daily bars. Amounts are exact rationals.
\<close>

section \<open>Costs and fills\<close>

record costs =
  ct_fee :: rat
  ct_slip :: rat

definition TAKER_FEE :: rat where "TAKER_FEE = 1 / 1000"
definition SLIPPAGE :: rat where "SLIPPAGE = 2 / 10000"
definition BASE_COSTS :: costs where "BASE_COSTS = \<lparr>ct_fee = TAKER_FEE, ct_slip = SLIPPAGE\<rparr>"
definition PAPER_START_CASH :: rat where "PAPER_START_CASH = 10000"

text \<open>Quantity, fill price, fee.\<close>

definition buy_fill :: "rat \<Rightarrow> rat \<Rightarrow> costs \<Rightarrow> rat \<times> rat \<times> rat" where
  "buy_fill cash ref c =
     (let fill = ref * (1 + ct_slip c) in
      if cash \<le> 0 \<or> fill \<le> 0 then (0, fill, 0)
      else let qty = cash / (fill * (1 + ct_fee c)) in (qty, fill, qty * fill * ct_fee c))"

text \<open>Fill price, fee, cash received.\<close>

definition sell_fill :: "rat \<Rightarrow> rat \<Rightarrow> costs \<Rightarrow> rat \<times> rat \<times> rat" where
  "sell_fill qty ref c =
     (let fill = ref * (1 - ct_slip c); gross = qty * fill; fee = gross * ct_fee c in (fill, fee, gross - fee))"

definition stop_price :: "rat \<Rightarrow> rat \<Rightarrow> rat option" where
  "stop_price entry fr = (if fr \<le> 0 then None else Some (entry * (1 - fr)))"

section \<open>The decision rule\<close>

record machine =
  mc_long :: bool
  mc_lockout :: bool
  mc_pending :: bool

definition machine_start :: machine where
  "machine_start = \<lparr>mc_long = False, mc_lockout = False, mc_pending = False\<rparr>"

definition machine_dict :: "machine \<Rightarrow> jv" where
  "machine_dict m =
     JObj [(''long'', JBool (mc_long m)), (''lockout'', JBool (mc_lockout m)), (''stop_pending'', JBool (mc_pending m))]"

definition machine_of :: "jv \<Rightarrow> machine" where
  "machine_of v =
     (if \<not> is_dict v then machine_start
      else \<lparr>mc_long = truthy (jget v ''long''), mc_lockout = truthy (jget v ''lockout''),
            mc_pending = truthy (jget v ''stop_pending'')\<rparr>)"

datatype action = Enter | Exit

text \<open>One completed day's signal. A signal that is off re-arms entries after a safety stop.\<close>

definition signal_step :: "machine \<Rightarrow> bool \<Rightarrow> machine \<times> action option" where
  "signal_step m on =
     (let (m, act) =
        (if mc_long m then (if \<not> on then (m\<lparr>mc_long := False\<rparr>, Some Exit) else (m, None))
         else if on \<and> \<not> mc_lockout m then (m\<lparr>mc_long := True\<rparr>, Some Enter)
         else (m, None))
      in (if \<not> on then m\<lparr>mc_lockout := False\<rparr> else m, act))"

definition stop_out :: "machine \<Rightarrow> machine" where
  "stop_out m = \<lparr>mc_long = False, mc_lockout = True, mc_pending = False\<rparr>"

section \<open>Trades\<close>

record trade =
  tr_entry_ts :: int
  tr_entry_price :: rat
  tr_qty :: rat
  tr_entry_fee :: rat
  tr_exit_ts :: int
  tr_exit_price :: rat
  tr_exit_fee :: rat
  tr_reason :: string
  tr_days :: nat

definition REASON_SIGNAL :: string where "REASON_SIGNAL = ''signal''"
definition REASON_STOP :: string where "REASON_STOP = ''safety_stop''"
definition REASON_END :: string where "REASON_END = ''window_end''"

definition trade_pnl :: "trade \<Rightarrow> rat" where
  "trade_pnl t = (tr_exit_price t - tr_entry_price t) * tr_qty t - tr_entry_fee t - tr_exit_fee t"

definition trade_pnl_pct :: "trade \<Rightarrow> rat" where
  "trade_pnl_pct t = (if tr_entry_price t \<noteq> 0 then tr_exit_price t / tr_entry_price t - 1 else 0)"

definition open_trade :: "int \<Rightarrow> rat \<Rightarrow> rat \<Rightarrow> rat \<Rightarrow> trade" where
  "open_trade ts fill q fee =
     \<lparr>tr_entry_ts = ts, tr_entry_price = fill, tr_qty = q, tr_entry_fee = fee, tr_exit_ts = 0, tr_exit_price = 0,
      tr_exit_fee = 0, tr_reason = [], tr_days = 0\<rparr>"

section \<open>The backtest\<close>

text \<open>The local variables of \<open>run\<close>\<close>

record scoring =
  sc_machine :: machine
  sc_cash :: rat
  sc_qty :: rat
  sc_stop :: "rat option"
  sc_trade :: "trade option"
  sc_entry :: nat
  sc_points :: "rat list"
  sc_fees :: rat
  sc_long :: nat
  sc_trades :: "trade list"

text \<open>
  \<open>close_trade\<close>. Its assertion that a trade is open always holds (\<open>scoring_ok\<close> in \<open>EngineFacts\<close>): the
  case without a trade is never reached.
\<close>

definition close_trade :: "costs \<Rightarrow> int \<Rightarrow> rat \<Rightarrow> string \<Rightarrow> nat \<Rightarrow> scoring \<Rightarrow> scoring" where
  "close_trade c ts ref reason days s =
     (case sc_trade s of
        None \<Rightarrow> s
      | Some t \<Rightarrow>
          let (fill, fee, proceeds) = sell_fill (sc_qty s) ref c;
              t = t\<lparr>tr_exit_ts := ts, tr_exit_price := fill, tr_exit_fee := fee, tr_reason := reason, tr_days := days\<rparr>
          in s\<lparr>sc_cash := sc_cash s + proceeds, sc_fees := sc_fees s + fee, sc_trades := sc_trades s @ [t],
               sc_trade := None, sc_qty := 0, sc_stop := None\<rparr>)"

definition enter_trade :: "costs \<Rightarrow> rat \<Rightarrow> nat \<Rightarrow> day \<Rightarrow> scoring \<Rightarrow> scoring" where
  "enter_trade c fr d b s =
     (let (q, fill, fee) = buy_fill (sc_cash s) (dy_open b) c
      in s\<lparr>sc_cash := sc_cash s - (q * fill + fee), sc_fees := sc_fees s + fee, sc_qty := q,
           sc_stop := stop_price fill fr, sc_trade := Some (open_trade (dy_ts b) fill q fee), sc_entry := d\<rparr>)"

text \<open>The open of day \<open>d\<close>: a pending stop, then the signal of the day before.\<close>

definition day_open :: "costs \<Rightarrow> rat \<Rightarrow> nat \<Rightarrow> day \<Rightarrow> bool \<Rightarrow> scoring \<Rightarrow> scoring" where
  "day_open c fr d b on s =
     (let s = (if mc_pending (sc_machine s) \<and> mc_long (sc_machine s)
               then (close_trade c (dy_ts b) (dy_open b) REASON_STOP (d - sc_entry s) s)
                      \<lparr>sc_machine := stop_out (sc_machine s)\<rparr>
               else s);
          (m, act) = signal_step (sc_machine s) on; s = s\<lparr>sc_machine := m\<rparr>
      in case act of
           Some Exit \<Rightarrow> close_trade c (dy_ts b) (dy_open b) REASON_SIGNAL (d - sc_entry s) s
         | Some Enter \<Rightarrow> enter_trade c fr d b s
         | None \<Rightarrow> s)"

definition stop_hit :: "day \<Rightarrow> scoring \<Rightarrow> bool" where
  "stop_hit b s \<longleftrightarrow>
     mc_long (sc_machine s) \<and> (case sc_stop s of None \<Rightarrow> False | Some p \<Rightarrow> dy_low b \<le> p)"

definition day_close :: "day \<Rightarrow> scoring \<Rightarrow> scoring" where
  "day_close b s =
     (let m = sc_machine s; m = (if stop_hit b s then m\<lparr>mc_pending := True\<rparr> else m)
      in s\<lparr>sc_machine := m, sc_long := (if mc_long m then sc_long s + 1 else sc_long s),
           sc_points := sc_points s @ [sc_cash s + sc_qty s * dy_close b]\<rparr>)"

text \<open>\<open>bool(sig[d - 1]) if d >= 1 else False\<close>; the signal has an entry for every day read.\<close>

definition signal_before :: "bool list \<Rightarrow> nat \<Rightarrow> bool" where
  "signal_before sig d = (if d \<ge> 1 then sig ! (d - 1) else False)"

definition score_day :: "costs \<Rightarrow> rat \<Rightarrow> day list \<Rightarrow> bool list \<Rightarrow> nat \<Rightarrow> scoring \<Rightarrow> scoring" where
  "score_day c fr bars sig d s = day_close (bars ! d) (day_open c fr d (bars ! d) (signal_before sig d) s)"

definition scoring_start :: "rat \<Rightarrow> nat \<Rightarrow> scoring" where
  "scoring_start cash start =
     \<lparr>sc_machine = machine_start, sc_cash = cash, sc_qty = 0, sc_stop = None, sc_trade = None, sc_entry = start,
      sc_points = [cash], sc_fees = 0, sc_long = 0, sc_trades = []\<rparr>"

definition score_days :: "costs \<Rightarrow> rat \<Rightarrow> day list \<Rightarrow> bool list \<Rightarrow> rat \<Rightarrow> nat \<Rightarrow> nat \<Rightarrow> scoring" where
  "score_days c fr bars sig cash start e =
     fold (score_day c fr bars sig) [start..<e] (scoring_start cash start)"

text \<open>The sale of an open position at the close of the last day\<close>

definition finish_run :: "costs \<Rightarrow> day list \<Rightarrow> nat \<Rightarrow> scoring \<Rightarrow> scoring" where
  "finish_run c bars e s =
     (case sc_trade s of
        None \<Rightarrow> s
      | Some t \<Rightarrow>
          let reason = (if mc_pending (sc_machine s) then REASON_STOP else REASON_END); b = bars ! (e - 1);
              s = close_trade c (dy_ts b) (dy_close b) reason (e - 1 - sc_entry s + 1) s;
              s = (if mc_pending (sc_machine s) then s\<lparr>sc_machine := stop_out (sc_machine s)\<rparr> else s)
          in s\<lparr>sc_points := butlast (sc_points s) @ [sc_cash s]\<rparr>)"

record run_result =
  rr_start :: int
  rr_end :: int
  rr_trades :: "trade list"
  rr_equity :: "rat list"
  rr_days_long :: nat
  rr_fees :: rat

definition run_bars ::
    "costs \<Rightarrow> rat \<Rightarrow> day list \<Rightarrow> bool list \<Rightarrow> rat \<Rightarrow> int \<Rightarrow> int \<Rightarrow> run_result result" where
  "run_bars c fr bars sig cash start e =
     (let start = max 0 start; e = min (int (length bars)) e in
      if e \<le> start
      then Inr \<lparr>rr_start = start, rr_end = e, rr_trades = [], rr_equity = [cash], rr_days_long = 0, rr_fees = 0\<rparr>
      else if int (length sig) < e - 1 then Inl (IndexError ''index out of bounds'')
      else
        let s = finish_run c bars (nat e) (score_days c fr bars sig cash (nat start) (nat e))
        in Inr \<lparr>rr_start = start, rr_end = e, rr_trades = sc_trades s, rr_equity = sc_points s,
                rr_days_long = sc_long s, rr_fees = sc_fees s\<rparr>)"

definition run_days :: "run_result \<Rightarrow> int" where
  "run_days r = max 0 (rr_end r - rr_start r)"

definition run_returns :: "run_result \<Rightarrow> rat list" where
  "run_returns r = map2 (\<lambda>a b. b / a - 1) (butlast (rr_equity r)) (tl (rr_equity r))"

end
