(* ===== verification/Broker.thy ===== *)
theory Broker
  imports Engine
begin

text \<open>
  The paper broker (\<open>brokers/paper.py\<close>): fractional lots, several per ticker, fills with slippage and a
  taker fee, the forced close of a lot, and the account state it writes to and restores from JSON.
  A stored lot whose fields have the wrong type is an error when it is restored.
\<close>

section \<open>Orders, fills and lots\<close>

datatype side = Buy | Sell

record fill =
  fl_ticker :: string
  fl_side :: side
  fl_qty :: rat
  fl_price :: rat
  fl_fee :: rat

record order =
  or_ticker :: string
  or_side :: side
  or_qty :: rat
  or_price :: rat
  or_stop :: "rat option"
  or_cond :: string

record lot =
  lt_id :: int
  lt_ticker :: string
  lt_qty :: rat
  lt_entry :: rat
  lt_stop :: rat
  lt_fee :: rat
  lt_cond :: string

text \<open>\<open>br_next\<close> is the lot counter of the process.\<close>

record broker =
  br_cash :: rat
  br_fee :: rat
  br_slip :: rat
  br_lots :: "lot list"
  br_fills :: "fill list"
  br_next :: int

definition PAPER_ONLY_OFF :: "string list" where
  "PAPER_ONLY_OFF = [''0'', ''false'', ''no'', ''off'']"

text \<open>The constructor; the argument is the environment variable \<open>PAPER_ONLY\<close>.\<close>

definition assert_paper_only :: "string option \<Rightarrow> unit result" where
  "assert_paper_only env =
     (if lower (strip (case env of None \<Rightarrow> ''1'' | Some s \<Rightarrow> s)) \<in> set PAPER_ONLY_OFF
      then Inl (RuntimeError ''REFUSING TO CONSTRUCT PaperBroker'') else Inr ())"

definition paper_broker :: "string option \<Rightarrow> rat \<Rightarrow> rat \<Rightarrow> rat \<Rightarrow> int \<Rightarrow> broker result" where
  "paper_broker env cash fee slip next =
     bind_result (assert_paper_only env) (\<lambda>_.
       Inr \<lparr>br_cash = cash, br_fee = fee, br_slip = slip, br_lots = [], br_fills = [], br_next = next\<rparr>)"

section \<open>Account view\<close>

text \<open>A price is \<open>None\<close> when it could not be fetched: multiplying with it raises.\<close>

type_synonym prices = "(string \<times> rat option) list"

definition lot_value :: "prices \<Rightarrow> lot \<Rightarrow> rat result" where
  "lot_value px p =
     (case dget px (lt_ticker p) of
        None \<Rightarrow> Inr (lt_qty p * lt_entry p)
      | Some (Some x) \<Rightarrow> Inr (lt_qty p * x)
      | Some None \<Rightarrow> Inl (TypeError ''unsupported operand''))"

definition broker_equity :: "prices \<Rightarrow> broker \<Rightarrow> rat result" where
  "broker_equity px b = bind_result (map_results (lot_value px) (br_lots b)) (\<lambda>vs. Inr (br_cash b + sum_list vs))"

definition lots_for :: "string \<Rightarrow> broker \<Rightarrow> lot list" where
  "lots_for tk b = filter (\<lambda>p. lt_ticker p = tk) (br_lots b)"

definition quantity :: "string \<Rightarrow> broker \<Rightarrow> rat" where
  "quantity tk b = sum_list (map lt_qty (lots_for tk b))"

definition has_position :: "string \<Rightarrow> broker \<Rightarrow> bool" where
  "has_position tk b \<longleftrightarrow> list_ex (\<lambda>p. lt_ticker p = tk) (br_lots b)"

section \<open>Orders\<close>

definition DUST :: rat where "DUST = 1 / 10 ^ 9"

text \<open>The first lot of the ticker is removed or keeps the rest.\<close>

fun reduce_first :: "string \<Rightarrow> rat \<Rightarrow> lot list \<Rightarrow> lot list" where
  "reduce_first tk q [] = []"
| "reduce_first tk q (p # ps) =
     (if lt_ticker p = tk
      then (let rest = lt_qty p - q in if rest \<le> DUST then ps else p\<lparr>lt_qty := rest\<rparr> # ps)
      else p # reduce_first tk q ps)"

definition fill_price :: "order \<Rightarrow> rat option \<Rightarrow> broker \<Rightarrow> rat" where
  "fill_price ord mkt b =
     (let base = (case mkt of None \<Rightarrow> or_price ord | Some m \<Rightarrow> m) in
      case or_side ord of Buy \<Rightarrow> base * (1 + br_slip b) | Sell \<Rightarrow> base * (1 - br_slip b))"

definition place_order :: "order \<Rightarrow> rat option \<Rightarrow> broker \<Rightarrow> (broker \<times> fill) result" where
  "place_order ord mkt b =
     (let px = fill_price ord mkt b; notional = or_qty ord * px; fee = notional * br_fee b;
          fl = \<lparr>fl_ticker = or_ticker ord, fl_side = or_side ord, fl_qty = or_qty ord, fl_price = px, fl_fee = fee\<rparr>
      in case or_side ord of
           Buy \<Rightarrow>
             (case or_stop ord of
                None \<Rightarrow> Inl (ValueError ''paper buy needs a stop_loss'')
              | Some st \<Rightarrow>
                  Inr (b\<lparr>br_lots := br_lots b @ [\<lparr>lt_id = br_next b, lt_ticker = or_ticker ord, lt_qty = or_qty ord,
                           lt_entry = px, lt_stop = st, lt_fee = fee, lt_cond = or_cond ord\<rparr>],
                         br_next := br_next b + 1, br_cash := br_cash b - (notional + fee),
                         br_fills := br_fills b @ [fl]\<rparr>, fl))
         | Sell \<Rightarrow>
             (case lots_for (or_ticker ord) b of
                [] \<Rightarrow> Inl (ValueError (''no open position to sell '' @ or_ticker ord))
              | target # _ \<Rightarrow>
                  if lt_qty target + DUST < or_qty ord
                  then Inl (ValueError (''sell more than held for '' @ or_ticker ord))
                  else Inr (b\<lparr>br_cash := br_cash b + (notional - fee),
                              br_lots := reduce_first (or_ticker ord) (or_qty ord) (br_lots b),
                              br_fills := br_fills b @ [fl]\<rparr>, fl)))"

definition close_lot :: "lot \<Rightarrow> rat \<Rightarrow> broker \<Rightarrow> (broker \<times> fill) result" where
  "close_lot p px b =
     place_order \<lparr>or_ticker = lt_ticker p, or_side = Sell, or_qty = lt_qty p, or_price = px, or_stop = None, or_cond = []\<rparr>
       (Some px) b"

text \<open>The loop over a snapshot of the lots.\<close>

fun stops_loop :: "prices \<Rightarrow> lot list \<Rightarrow> broker \<Rightarrow> (broker \<times> (lot \<times> fill) list) result" where
  "stops_loop px [] b = Inr (b, [])"
| "stops_loop px (p # ps) b =
     (case dget px (lt_ticker p) of
        Some (Some x) \<Rightarrow>
          if x \<le> lt_stop p
          then bind_result (close_lot p x b) (\<lambda>(b', fl).
                 bind_result (stops_loop px ps b') (\<lambda>(b'', cl). Inr (b'', (p, fl) # cl)))
          else stops_loop px ps b
      | _ \<Rightarrow> stops_loop px ps b)"

definition check_stops :: "prices \<Rightarrow> broker \<Rightarrow> (broker \<times> (lot \<times> fill) list) result" where
  "check_stops px b = stops_loop px (br_lots b) b"

section \<open>Stored state\<close>

definition lot_json :: "lot \<Rightarrow> jv" where
  "lot_json p =
     JObj [(''lot_id'', JInt (lt_id p)), (''ticker'', JStr (lt_ticker p)), (''quantity'', JFloat (Fin (lt_qty p))),
       (''entry_price'', JFloat (Fin (lt_entry p))), (''stop_loss'', JFloat (Fin (lt_stop p))),
       (''entry_fee'', JFloat (Fin (lt_fee p))), (''entry_condition'', JStr (lt_cond p))]"

definition to_state :: "broker \<Rightarrow> jv" where
  "to_state b = JObj [(''cash'', JFloat (Fin (br_cash b))), (''lots'', JList (map lot_json (br_lots b)))]"

definition number :: "jv \<Rightarrow> rat result" where
  "number v = (case finite_number v of None \<Rightarrow> Inl (TypeError ''not a number'') | Some x \<Rightarrow> Inr x)"

definition text_value :: "jv \<Rightarrow> string result" where
  "text_value v = (case as_str v of None \<Rightarrow> Inl (TypeError ''not a string'') | Some s \<Rightarrow> Inr s)"

definition item :: "string \<Rightarrow> jv \<Rightarrow> jv result" where
  "item k v = (if jhas v k then Inr (jget v k) else Inl (KeyError k))"

definition item_or :: "string \<Rightarrow> jv \<Rightarrow> jv \<Rightarrow> jv" where
  "item_or k d v = (if jhas v k then jget v k else d)"

text \<open>\<open>next\<close> is evaluated for every lot, used or not.\<close>

definition lot_of_json :: "int \<Rightarrow> jv \<Rightarrow> lot result" where
  "lot_of_json fresh v =
     bind_result (case as_int (item_or ''lot_id'' (JInt fresh) v) of
         None \<Rightarrow> Inl (TypeError ''not a number'') | Some i \<Rightarrow> Inr i) (\<lambda>i.
     bind_result (bind_result (item ''ticker'' v) text_value) (\<lambda>tk.
     bind_result (bind_result (item ''quantity'' v) number) (\<lambda>q.
     bind_result (bind_result (item ''entry_price'' v) number) (\<lambda>e.
     bind_result (bind_result (item ''stop_loss'' v) number) (\<lambda>st.
     bind_result (number (item_or ''entry_fee'' (JFloat (Fin 0)) v)) (\<lambda>fee.
     bind_result (text_value (item_or ''entry_condition'' (JStr []) v)) (\<lambda>cnd.
       Inr \<lparr>lt_id = i, lt_ticker = tk, lt_qty = q, lt_entry = e, lt_stop = st, lt_fee = fee, lt_cond = cnd\<rparr>)))))))"

fun restore_lots :: "int \<Rightarrow> jv list \<Rightarrow> (int \<times> lot list) result" where
  "restore_lots n [] = Inr (n, [])"
| "restore_lots n (v # vs) =
     bind_result (lot_of_json n v) (\<lambda>p. bind_result (restore_lots (n + 1) vs) (\<lambda>(m, ps). Inr (m, p # ps)))"

definition max_lot :: "lot list \<Rightarrow> int" where
  "max_lot ps = (case map lt_id ps of [] \<Rightarrow> 0 | i # is \<Rightarrow> fold max is i)"

definition stored_lots :: "jv \<Rightarrow> jv list" where
  "stored_lots st =
     (let a = jget st ''lots''; v = (if truthy a then a else jget st ''positions'') in as_list v)"

definition restore_state :: "jv \<Rightarrow> broker \<Rightarrow> broker result" where
  "restore_state st b =
     bind_result (number (item_or ''cash'' (JFloat (Fin (br_cash b))) st)) (\<lambda>cash.
     bind_result (restore_lots (br_next b) (stored_lots st)) (\<lambda>(n, ps).
       Inr (b\<lparr>br_cash := cash, br_lots := ps, br_next := n + max 0 (max_lot ps), br_fills := []\<rparr>)))"

section \<open>Facts\<close>

lemma lot_json_of: "lot_of_json n (lot_json p) = Inr p"
  by (cases p) (simp add: lot_of_json_def lot_json_def item_def item_or_def jhas_def number_def text_value_def)

lemma restore_lots_json: "restore_lots n (map lot_json ps) = Inr (n + int (length ps), ps)"
  by (induction ps arbitrary: n) (simp_all add: lot_json_of)

lemma stored_lots_state: "stored_lots (to_state b) = map lot_json (br_lots b)"
  by (simp add: stored_lots_def to_state_def Let_def)

lemma restore_to_state:
  "restore_state (to_state b) b' =
     Inr (b'\<lparr>br_cash := br_cash b, br_lots := br_lots b, br_fills := [],
            br_next := br_next b' + int (length (br_lots b)) + max 0 (max_lot (br_lots b))\<rparr>)"
  unfolding restore_state_def stored_lots_state restore_lots_json
  by (simp add: to_state_def item_or_def jhas_def number_def)

lemma fold_max_ge: "(i::int) \<le> fold max is i" "x \<in> set is \<Longrightarrow> x \<le> fold max is i"
proof -
  show le: "i \<le> fold max is i" for "is" and i :: int
    by (induction "is" arbitrary: i) (auto intro: order.trans [OF max.cobounded2])
  show "x \<le> fold max is i" if "x \<in> set is" for x i
    using that by (induction "is" arbitrary: i) (auto intro: order.trans [OF max.cobounded1 le])
qed

lemma max_lot_ge: "p \<in> set ps \<Longrightarrow> lt_id p \<le> max_lot ps"
  by (cases ps) (auto simp: max_lot_def fold_max_ge)

lemma lots_for_Nil: "lots_for tk b = [] \<longleftrightarrow> (\<forall>p \<in> set (br_lots b). lt_ticker p \<noteq> tk)"
  by (auto simp: lots_for_def filter_empty_conv)

lemma reduce_first_length: "length (reduce_first tk q ps) \<le> length ps"
  by (induction ps) (auto simp: Let_def)

lemma reduce_first_other: "filter (\<lambda>p. lt_ticker p \<noteq> tk) (reduce_first tk q ps) = filter (\<lambda>p. lt_ticker p \<noteq> tk) ps"
  by (induction ps) (auto simp: Let_def)

text \<open>The sale always hits the first lot of the ticker, whatever lot was to be closed.\<close>

lemma reduce_first_lots:
  "filter (\<lambda>p. lt_ticker p = tk) ps = p # rest \<Longrightarrow>
     filter (\<lambda>p. lt_ticker p = tk) (reduce_first tk q ps) =
       (if lt_qty p - q \<le> DUST then rest else p\<lparr>lt_qty := lt_qty p - q\<rparr> # rest)"
  by (induction ps) (auto simp: Let_def split: if_splits)

lemma close_lot_eq:
  "close_lot p px b =
     (case lots_for (lt_ticker p) b of
        [] \<Rightarrow> Inl (ValueError (''no open position to sell '' @ lt_ticker p))
      | target # _ \<Rightarrow>
          if lt_qty target + DUST < lt_qty p then Inl (ValueError (''sell more than held for '' @ lt_ticker p))
          else
            let x = px * (1 - br_slip b); notional = lt_qty p * x; fee = notional * br_fee b;
                fl = \<lparr>fl_ticker = lt_ticker p, fl_side = Sell, fl_qty = lt_qty p, fl_price = x, fl_fee = fee\<rparr>
            in Inr (b\<lparr>br_cash := br_cash b + (notional - fee), br_lots := reduce_first (lt_ticker p) (lt_qty p) (br_lots b),
                      br_fills := br_fills b @ [fl]\<rparr>, fl))"
  by (simp add: close_lot_def place_order_def fill_price_def Let_def split: list.splits)

end
