(* ===== verification/Ledger.thy ===== *)
theory Ledger
  imports Broker
begin

text \<open>
  The trade store of one paper account (\<open>trading/store.py\<close>): trade rows, decisions and equity snapshots; and
  the buy-and-hold overlay stored beside them (\<open>trading/buy_and_hold.py\<close>). Rows are never deleted, so
  the next row id is the number of rows plus one. Instants are arguments.
\<close>

section \<open>Trade rows\<close>

record closing =
  cl_ts :: int
  cl_price :: rat
  cl_reason :: string
  cl_fee :: rat
  cl_pnl :: rat
  cl_pct :: rat
  cl_hit :: bool

record ledger_row =
  lg_id :: nat
  lg_symbol :: string
  lg_timeframe :: string
  lg_cond :: string
  lg_prob :: rat
  lg_entry_ts :: int
  lg_entry :: rat
  lg_size :: rat
  lg_fee :: rat
  lg_lot :: "int option"
  lg_exit :: "closing option"

record decision_row =
  dr_symbol :: string
  dr_cond :: string
  dr_direction :: string
  dr_action :: string
  dr_reason :: string
  dr_equity :: rat
  dr_size :: rat
  dr_entry :: rat

record ledger =
  ld_rows :: "ledger_row list"
  ld_decisions :: "decision_row list"
  ld_equity :: "(rat \<times> rat option) list"
  ld_anchor :: "(rat \<times> rat dict) option"

definition ledger_start :: ledger where
  "ledger_start = \<lparr>ld_rows = [], ld_decisions = [], ld_equity = [], ld_anchor = None\<rparr>"

definition ledger_open ::
    "string \<Rightarrow> string \<Rightarrow> string \<Rightarrow> rat \<Rightarrow> rat \<Rightarrow> rat \<Rightarrow> rat \<Rightarrow> int option \<Rightarrow> int \<Rightarrow> ledger \<Rightarrow> ledger" where
  "ledger_open symb tf cnd prob entry sz fee lot_id now ld =
     ld\<lparr>ld_rows := ld_rows ld @ [\<lparr>lg_id = length (ld_rows ld) + 1, lg_symbol = symb, lg_timeframe = tf, lg_cond = cnd,
        lg_prob = prob, lg_entry_ts = now, lg_entry = entry, lg_size = sz, lg_fee = fee, lg_lot = lot_id,
        lg_exit = None\<rparr>]\<rparr>"

definition ledger_close :: "nat \<Rightarrow> closing \<Rightarrow> ledger \<Rightarrow> ledger" where
  "ledger_close i cl ld =
     ld\<lparr>ld_rows := map (\<lambda>r. if lg_id r = i then r\<lparr>lg_exit := Some cl\<rparr> else r) (ld_rows ld)\<rparr>"

definition open_rows :: "ledger \<Rightarrow> ledger_row list" where
  "open_rows ld = filter (\<lambda>r. lg_exit r = None) (ld_rows ld)"

definition closed_rows :: "ledger \<Rightarrow> ledger_row list" where
  "closed_rows ld = filter (\<lambda>r. lg_exit r \<noteq> None) (ld_rows ld)"

definition record_decision :: "decision_row \<Rightarrow> ledger \<Rightarrow> ledger" where
  "record_decision d ld = ld\<lparr>ld_decisions := ld_decisions ld @ [d]\<rparr>"

definition snapshot_equity :: "rat \<Rightarrow> rat option \<Rightarrow> ledger \<Rightarrow> ledger" where
  "snapshot_equity eq baseline ld = ld\<lparr>ld_equity := ld_equity ld @ [(eq, baseline)]\<rparr>"

text \<open>
  The row a closed lot is booked on: the open row of its lot, else the first open row of its symbol
  (\<open>_close_store_lot\<close> in \<open>trading/loop.py\<close> and \<open>_sell\<close> in \<open>library/live.py\<close>).
\<close>

definition row_of_lot :: "lot \<Rightarrow> ledger \<Rightarrow> nat option" where
  "row_of_lot p ld =
     map_option lg_id
       (case List.find (\<lambda>r. lg_symbol r = lt_ticker p \<and> lg_lot r = Some (lt_id p)) (open_rows ld) of
          Some r \<Rightarrow> Some r
        | None \<Rightarrow> List.find (\<lambda>r. lg_symbol r = lt_ticker p) (open_rows ld))"

definition lot_pnl :: "lot \<Rightarrow> fill \<Rightarrow> rat" where
  "lot_pnl p fl = (fl_price fl - lt_entry p) * lt_qty p - fl_fee fl - lt_fee p"

definition book_close :: "lot \<Rightarrow> closing \<Rightarrow> ledger \<Rightarrow> ledger" where
  "book_close p cl ld = (case row_of_lot p ld of None \<Rightarrow> ld | Some i \<Rightarrow> ledger_close i cl ld)"

section \<open>Buy-and-hold overlay\<close>

definition QUAL_SYMBOLS :: "string list" where "QUAL_SYMBOLS = [''BTC/USDT'', ''ETH/USDT'']"

definition qty_bought :: "rat \<Rightarrow> rat \<Rightarrow> costs \<Rightarrow> rat" where
  "qty_bought cash px c = (let fill = px * (1 + ct_slip c) in if fill \<le> 0 then 0 else cash / (fill * (1 + ct_fee c)))"

definition priced :: "rat dict \<Rightarrow> string \<Rightarrow> bool" where
  "priced d s \<longleftrightarrow> (case dget d s of None \<Rightarrow> False | Some x \<Rightarrow> 0 < x)"

definition shared_symbols :: "rat dict \<Rightarrow> rat dict \<Rightarrow> string list" where
  "shared_symbols a b = filter (\<lambda>s. priced a s \<and> priced b s) (dkeys a)"

definition price_of :: "rat dict \<Rightarrow> string \<Rightarrow> rat" where
  "price_of d s = (case dget d s of None \<Rightarrow> 0 | Some x \<Rightarrow> x)"

definition buy_and_hold_mtm :: "costs \<Rightarrow> rat \<Rightarrow> rat dict \<Rightarrow> rat dict \<Rightarrow> rat option" where
  "buy_and_hold_mtm c cash start cur =
     (let syms = shared_symbols start cur in
      if syms = [] then None
      else
        let per = cash / of_nat (length syms)
        in Some (\<Sum>s \<leftarrow> syms. qty_bought per (price_of start s) c * price_of cur s))"

definition buy_and_hold_realized_pnl :: "costs \<Rightarrow> rat \<Rightarrow> rat dict \<Rightarrow> rat dict \<Rightarrow> rat option" where
  "buy_and_hold_realized_pnl c cash start cur =
     (let syms = shared_symbols start cur in
      if syms = [] then None
      else
        let per = cash / of_nat (length syms);
            got = (\<lambda>s. let p = qty_bought per (price_of start s) c * (price_of cur s * (1 - ct_slip c)) in p - p * ct_fee c)
        in Some ((\<Sum>s \<leftarrow> syms. got s) - cash))"

text \<open>First entry and last exit per symbol; a row without a symbol or with a zero price is skipped.\<close>

definition trade_prices :: "(string \<times> rat \<times> rat) list \<Rightarrow> rat dict \<times> rat dict" where
  "trade_prices ts =
     fold (\<lambda>(s, en, ex) (a, b). if s = [] \<or> en = 0 \<or> ex = 0 then (a, b)
             else (if dget a s = None then dset s en a else a, dset s ex b)) ts ([], [])"

definition buy_and_hold_from_trades :: "costs \<Rightarrow> rat \<Rightarrow> (string \<times> rat \<times> rat) list \<Rightarrow> rat option" where
  "buy_and_hold_from_trades c cash ts =
     (if ts = [] then None else let (a, b) = trade_prices ts in buy_and_hold_realized_pnl c cash a b)"

definition usable_prices :: "prices \<Rightarrow> rat dict" where
  "usable_prices px = List.map_filter (\<lambda>(s, x). case x of Some p \<Rightarrow> if p \<noteq> 0 then Some (s, p) else None | None \<Rightarrow> None) px"

text \<open>The anchor is the first prices ever seen, BTC and ETH if there are any of them.\<close>

definition ensure_bh_anchor :: "rat dict \<Rightarrow> rat \<Rightarrow> ledger \<Rightarrow> ledger \<times> (rat \<times> rat dict)" where
  "ensure_bh_anchor px cash ld =
     (let fresh =
        (let kept = filter (\<lambda>(s, p). p \<noteq> 0 \<and> s \<in> set QUAL_SYMBOLS) px;
             anchor = (cash, if kept = [] then filter (\<lambda>(s, p). p \<noteq> 0) px else kept)
         in (if snd anchor = [] then ld else ld\<lparr>ld_anchor := Some anchor\<rparr>, anchor))
      in case ld_anchor ld of None \<Rightarrow> fresh | Some a \<Rightarrow> if snd a = [] then fresh else (ld, a))"

definition overlay_equity :: "prices \<Rightarrow> rat \<Rightarrow> ledger \<Rightarrow> ledger \<times> rat option" where
  "overlay_equity px cash ld =
     (let usable = usable_prices px in
      if usable = [] then (ld, None)
      else
        let (ld, (c0, start)) = ensure_bh_anchor usable cash ld
        in (ld, buy_and_hold_mtm BASE_COSTS (if c0 \<noteq> 0 then c0 else cash) start usable))"

section \<open>Facts\<close>

definition ledger_ok :: "ledger \<Rightarrow> bool" where
  "ledger_ok ld \<longleftrightarrow> map lg_id (ld_rows ld) = [1..<Suc (length (ld_rows ld))]"

lemma ledger_start_ok [simp]: "ledger_ok ledger_start"
  by (simp add: ledger_ok_def ledger_start_def)

lemma ledger_open_ok: "ledger_ok ld \<Longrightarrow> ledger_ok (ledger_open a b c d e f g h i ld)"
  by (simp add: ledger_ok_def ledger_open_def)

lemma ledger_close_ok: "ledger_ok ld \<Longrightarrow> ledger_ok (ledger_close i cl ld)"
proof -
  have "map lg_id (ld_rows (ledger_close i cl ld)) = map lg_id (ld_rows ld)"
    by (auto simp: ledger_close_def)
  then show "ledger_ok ld \<Longrightarrow> ledger_ok (ledger_close i cl ld)" by (simp add: ledger_ok_def ledger_close_def)
qed

lemma ledger_ids_distinct: "ledger_ok ld \<Longrightarrow> distinct (map lg_id (ld_rows ld))"
  by (simp add: ledger_ok_def)

lemma overlay_rows [simp]:
  "ld_rows (fst (overlay_equity px cash ld)) = ld_rows ld"
  "ld_decisions (fst (overlay_equity px cash ld)) = ld_decisions ld"
  "ld_equity (fst (overlay_equity px cash ld)) = ld_equity ld"
  by (auto simp: overlay_equity_def ensure_bh_anchor_def Let_def split_beta split: option.splits)

lemma decision_rows [simp]:
  "ld_rows (record_decision d ld) = ld_rows ld" "ld_rows (snapshot_equity x y ld) = ld_rows ld"
  by (simp_all add: record_decision_def snapshot_equity_def)

text \<open>The anchor is written once.\<close>

lemma anchor_kept:
  assumes "ld_anchor ld = Some a" "snd a \<noteq> []"
  shows "ld_anchor (fst (overlay_equity px cash ld)) = Some a"
  using assms by (auto simp: overlay_equity_def ensure_bh_anchor_def Let_def split_beta)

end
