(* ===== verification/Live.thy ===== *)
theory Live
  imports Ledger
begin

text \<open>
  The live paper account of a library champion (\<open>run_library_account\<close> in \<open>library/live.py\<close>). The signal
  and the warm mask of the strategy are functions of the bars and are arguments; the account state is
  the stored JSON object and the trade store. Instants are arguments, in microseconds.
\<close>

definition SYMBOL :: string where "SYMBOL = ''BTC/USDT''"
definition LIVE_TIMEFRAME :: string where "LIVE_TIMEFRAME = ''1d''"
definition CYCLE_INTERVAL_SECONDS :: int where "CYCLE_INTERVAL_SECONDS = 300"

record live_strategy =
  lv_key :: string
  lv_stop :: rat
  lv_signal :: "day list \<Rightarrow> bool list"
  lv_ready :: "day list \<Rightarrow> bool list"

section \<open>Clock\<close>

definition stamp_ms :: "jv \<Rightarrow> int option" where
  "stamp_ms v = (case v of JTime t \<Rightarrow> Some (t div 1000) | _ \<Rightarrow> None)"

definition at_daily_open :: "int option \<Rightarrow> bool" where
  "at_daily_open now = (case now of None \<Rightarrow> False | Some t \<Rightarrow> t mod DAY_MS \<le> CYCLE_INTERVAL_SECONDS * 1000)"

definition next_daily_open_ms :: "int \<Rightarrow> int" where
  "next_daily_open_ms now = now - now mod DAY_MS + DAY_MS"

section \<open>Stored state\<close>

text \<open>The object \<open>library\<close> of the account state; its keys hold only values of these types.\<close>

record memo =
  me_last_day :: "int option"
  me_last_signal :: "bool option"
  me_defer :: bool
  me_await :: "int option"

definition as_bool :: "jv \<Rightarrow> bool option" where
  "as_bool v = (case v of JNull \<Rightarrow> None | _ \<Rightarrow> Some (truthy v))"

definition memo_of :: "jv \<Rightarrow> memo" where
  "memo_of raw =
     \<lparr>me_last_day = as_int (jget raw ''last_day''), me_last_signal = as_bool (jget raw ''last_signal''),
      me_defer = truthy (jget raw ''defer_entry''), me_await = as_int (jget raw ''await_open_ms'')\<rparr>"

definition put :: "string \<Rightarrow> jv option \<Rightarrow> jv \<Rightarrow> jv" where
  "put k x v = (case x of None \<Rightarrow> jpop k v | Some y \<Rightarrow> jset k y v)"

definition memo_json :: "memo \<Rightarrow> jv \<Rightarrow> jv" where
  "memo_json me raw =
     put ''await_open_ms'' (map_option JInt (me_await me))
       (put ''defer_entry'' (if me_defer me then Some (JBool True) else None)
         (put ''last_signal'' (map_option JBool (me_last_signal me))
           (put ''last_day'' (map_option JInt (me_last_day me)) raw)))"

record live_book =
  lb_broker :: broker
  lb_memo :: memo
  lb_machine :: machine
  lb_ledger :: ledger

text \<open>\<open>_open_account\<close>: the broker is the source of truth for the position.\<close>

definition open_account :: "string option \<Rightarrow> int \<Rightarrow> jv \<Rightarrow> ledger \<Rightarrow> live_book result" where
  "open_account env next saved ld =
     bind_result (paper_broker env PAPER_START_CASH TAKER_FEE SLIPPAGE next) (\<lambda>b.
     bind_result (if truthy (jget saved ''broker'') then restore_state (jget saved ''broker'') b else Inr b) (\<lambda>b.
       let raw = sub_dict saved ''library'' in
       Inr \<lparr>lb_broker = b, lb_memo = memo_of raw,
            lb_machine = (machine_of (jget raw ''machine''))\<lparr>mc_long := has_position SYMBOL b\<rparr>, lb_ledger = ld\<rparr>))"

text \<open>\<open>_save\<close>\<close>

definition save_account :: "jv \<Rightarrow> jv \<Rightarrow> live_book \<Rightarrow> jv" where
  "save_account stamp saved bk =
     (let lib = jset ''engine'' (JStr ''signal_exit'')
                  (jset ''machine'' (machine_dict (lb_machine bk)) (memo_json (lb_memo bk) (sub_dict saved ''library'')))
      in jset ''saved_at'' stamp (jset ''library'' lib (jset ''broker'' (to_state (lb_broker bk)) (dict_or_empty saved))))"

section \<open>Trading\<close>

datatype live_action =
    Bought rat rat "rat option"
  | NoCash
  | Sold string rat rat

definition broker_costs :: "broker \<Rightarrow> costs" where
  "broker_costs b = \<lparr>ct_fee = br_fee b, ct_slip = br_slip b\<rparr>"

definition live_buy :: "rat \<Rightarrow> string \<Rightarrow> rat \<Rightarrow> int \<Rightarrow> live_book \<Rightarrow> (live_book \<times> live_action) result" where
  "live_buy fr cnd price now bk =
     (let b = lb_broker bk; (qty, fill_px, _) = buy_fill (br_cash b) price (broker_costs b) in
      if qty \<le> 0 then Inr (bk, NoCash)
      else
        let st = stop_price fill_px fr in
        bind_result (place_order \<lparr>or_ticker = SYMBOL, or_side = Buy, or_qty = qty, or_price = price,
            or_stop = Some (case st of None \<Rightarrow> 0 | Some s \<Rightarrow> s), or_cond = cnd\<rparr> (Some price) b) (\<lambda>(b', fl).
          Inr (bk\<lparr>lb_broker := b',
                  lb_ledger := ledger_open SYMBOL LIVE_TIMEFRAME cnd (1 / 2) (fl_price fl) qty (fl_fee fl)
                    (Some (lt_id (last (br_lots b')))) now (lb_ledger bk)\<rparr>,
               Bought qty (fl_price fl) st)))"

fun sell_lots :: "string \<Rightarrow> rat \<Rightarrow> int \<Rightarrow> lot list \<Rightarrow> live_book \<Rightarrow> (live_book \<times> live_action option) result" where
  "sell_lots reason price now [] bk = Inr (bk, None)"
| "sell_lots reason price now (p # ps) bk =
     bind_result (close_lot p price (lb_broker bk)) (\<lambda>(b, fl).
       let pnl = lot_pnl p fl; pct = (if lt_entry p \<noteq> 0 then fl_price fl / lt_entry p - 1 else 0);
           cl = \<lparr>cl_ts = now, cl_price = fl_price fl, cl_reason = reason, cl_fee = fl_fee fl, cl_pnl = pnl, cl_pct = pct,
                 cl_hit = (0 < pnl)\<rparr>
       in bind_result (sell_lots reason price now ps
              (bk\<lparr>lb_broker := b, lb_ledger := book_close p cl (lb_ledger bk)\<rparr>)) (\<lambda>(bk', out).
            Inr (bk', case out of None \<Rightarrow> Some (Sold reason (fl_price fl) pnl) | Some a \<Rightarrow> Some a)))"

definition live_sell :: "string \<Rightarrow> rat \<Rightarrow> int \<Rightarrow> live_book \<Rightarrow> (live_book \<times> live_action option) result" where
  "live_sell reason price now bk = sell_lots reason price now (lots_for SYMBOL (lb_broker bk)) bk"

definition stop_level :: "broker \<Rightarrow> rat option" where
  "stop_level b = map_option lt_stop (List.find (\<lambda>p. lt_ticker p = SYMBOL \<and> 0 < lt_stop p) (br_lots b))"

section \<open>Replaying the days since the last run\<close>

record replaying =
  rp_machine :: machine
  rp_reason :: "string option"

definition replay_day ::
    "bool \<Rightarrow> rat option \<Rightarrow> day list \<Rightarrow> bool list \<Rightarrow> bool list \<Rightarrow> nat \<Rightarrow> nat \<Rightarrow> replaying \<Rightarrow> replaying" where
  "replay_day was_long lot_stop bars signal ready final i rp =
     (let rp = (if mc_pending (rp_machine rp) \<and> mc_long (rp_machine rp) \<and> was_long
                then \<lparr>rp_machine = stop_out (rp_machine rp), rp_reason = Some REASON_STOP\<rparr> else rp);
          rp = (if ready ! i then rp\<lparr>rp_machine := fst (signal_step (rp_machine rp) (signal ! i))\<rparr> else rp)
      in if was_long \<and> mc_long (rp_machine rp) \<and> (case lot_stop of None \<Rightarrow> False | Some p \<Rightarrow> dy_low (bars ! i) \<le> p)
         then (if i = final then \<lparr>rp_machine = stop_out (rp_machine rp), rp_reason = Some REASON_STOP\<rparr>
               else rp\<lparr>rp_machine := (rp_machine rp)\<lparr>mc_pending := True\<rparr>\<rparr>)
         else rp)"

definition pending_days :: "day list \<Rightarrow> int \<Rightarrow> nat list" where
  "pending_days bars last_day = filter (\<lambda>i. last_day < dy_ts (bars ! i)) [0..<length bars]"

text \<open>
  The first run of a book outside the open window takes the last close as decided and, if its signal is
  on, defers the entry to the next 00:00 UTC open.
\<close>

definition first_days ::
    "day list \<Rightarrow> bool list \<Rightarrow> bool list \<Rightarrow> int option \<Rightarrow> memo \<Rightarrow> memo \<times> nat list" where
  "first_days bars signal ready now me =
     (let n = length bars - 1 in
      case me_last_day me of
        Some d \<Rightarrow> (me, pending_days bars d)
      | None \<Rightarrow>
          if at_daily_open now then (me, [n])
          else
            let me = me\<lparr>me_last_day := Some (dy_ts (bars ! n))\<rparr>;
                me = (if ready ! n then me\<lparr>me_last_signal := Some (signal ! n)\<rparr> else me);
                me = (if ready ! n \<and> signal ! n
                      then me\<lparr>me_defer := True,
                              me_await := (case now of None \<Rightarrow> me_await me | Some t \<Rightarrow> Some (next_daily_open_ms t))\<rparr>
                      else me)
            in (me, []))"

definition remember_days :: "day list \<Rightarrow> bool list \<Rightarrow> bool list \<Rightarrow> nat list \<Rightarrow> memo \<Rightarrow> memo" where
  "remember_days bars signal ready pending me =
     (if pending = [] then me
      else me\<lparr>me_last_day := Some (dy_ts (bars ! last pending)),
              me_last_signal := (case List.find (\<lambda>i. ready ! i) (rev pending) of
                 None \<Rightarrow> me_last_signal me | Some i \<Rightarrow> Some (signal ! i))\<rparr>)"

definition clear_defer :: "memo \<Rightarrow> memo" where
  "clear_defer me = me\<lparr>me_defer := False, me_await := None\<rparr>"

text \<open>A refused buy leaves the machine flat.\<close>

definition settle_buy :: "live_book \<times> live_action \<Rightarrow> live_book \<times> live_action list" where
  "settle_buy r =
     (let (bk, a) = r; ok = (case a of Bought q p s \<Rightarrow> True | _ \<Rightarrow> False)
      in (bk\<lparr>lb_machine := (lb_machine bk)\<lparr>mc_long := ok\<rparr>\<rparr>, [a]))"

definition act ::
    "live_strategy \<Rightarrow> string \<Rightarrow> rat \<Rightarrow> int \<Rightarrow> bool \<Rightarrow> bool \<Rightarrow> string option \<Rightarrow> bool \<Rightarrow> live_book \<Rightarrow>
     (live_book \<times> live_action list) result" where
  "act lv cnd price now at_open was_long reason on bk =
     (let m = lb_machine bk; me = lb_memo bk in
      if mc_long m \<and> \<not> was_long
      then (if me_defer me \<and> \<not> at_open then Inr (bk\<lparr>lb_machine := m\<lparr>mc_long := False\<rparr>\<rparr>, [])
            else bind_result (live_buy (lv_stop lv) cnd price now bk) (\<lambda>(bk', a).
                   Inr (settle_buy (bk'\<lparr>lb_memo := clear_defer me\<rparr>, a))))
      else if was_long \<and> \<not> mc_long m \<and> br_lots (lb_broker bk) \<noteq> []
      then bind_result (live_sell (case reason of None \<Rightarrow> REASON_SIGNAL | Some r \<Rightarrow> r) price now bk) (\<lambda>(bk', out).
             Inr (bk', case out of None \<Rightarrow> [] | Some a \<Rightarrow> [a]))
      else if me_defer me \<and> at_open
      then (let bk = bk\<lparr>lb_memo := clear_defer me\<rparr> in
            if on \<and> \<not> mc_long m \<and> \<not> mc_lockout m
            then bind_result (live_buy (lv_stop lv) cnd price now bk) (\<lambda>r. Inr (settle_buy r))
            else Inr (bk, []))
      else Inr (bk, []))"

definition decide ::
    "live_strategy \<Rightarrow> day list \<Rightarrow> rat \<Rightarrow> int option \<Rightarrow> int \<Rightarrow> live_book \<Rightarrow> (live_book \<times> live_action list \<times> bool option) result" where
  "decide lv bars price now_ms now bk =
     (if bars = [] then Inr (bk, [], None)
      else
        let cnd = SYMBOL @ ''|'' @ LIVE_TIMEFRAME @ ''|'' @ lv_key lv; at_open = at_daily_open now_ms;
            signal = lv_signal lv bars; ready = lv_ready lv bars;
            (me, pending) = first_days bars signal ready now_ms (lb_memo bk);
            was_long = mc_long (lb_machine bk);
            lot_stop = (if was_long then stop_level (lb_broker bk) else None);
            rp = fold (replay_day was_long lot_stop bars signal ready (last pending)) pending
                   \<lparr>rp_machine = lb_machine bk, rp_reason = None\<rparr>;
            me = remember_days bars signal ready pending me; n = length bars - 1;
            signal_now = (if ready ! n then Some (signal ! n) else me_last_signal me)
        in bind_result (act lv cnd price now at_open was_long (rp_reason rp) (signal_now = Some True)
               (bk\<lparr>lb_memo := me, lb_machine := rp_machine rp\<rparr>)) (\<lambda>(bk', as). Inr (bk', as, signal_now)))"

section \<open>The record of a run\<close>

definition flat_reason :: "day list \<Rightarrow> bool option \<Rightarrow> live_book \<Rightarrow> string" where
  "flat_reason bars signal_now bk =
     (if me_defer (lb_memo bk) \<and> signal_now = Some True then ''signal on; fill at the next 00:00 UTC open''
      else if bars = [] then ''no completed day''
      else ''signal '' @ (if signal_now = Some True then ''on'' else ''off'') @
           (if mc_lockout (lb_machine bk) then '' (locked after stop)'' else ''''))"

fun decision_of :: "string \<Rightarrow> rat \<Rightarrow> bool \<Rightarrow> live_action \<Rightarrow> decision_row" where
  "decision_of cnd eq long (Bought q p st) =
     \<lparr>dr_symbol = SYMBOL, dr_cond = cnd, dr_direction = (if long then ''long'' else ''flat''), dr_action = ''ENTER'',
      dr_reason = ''signal on'', dr_equity = eq, dr_size = q, dr_entry = p\<rparr>"
| "decision_of cnd eq long NoCash =
     \<lparr>dr_symbol = SYMBOL, dr_cond = cnd, dr_direction = (if long then ''long'' else ''flat''), dr_action = ''REJECTED'',
      dr_reason = ''no cash'', dr_equity = eq, dr_size = 0, dr_entry = 0\<rparr>"
| "decision_of cnd eq long (Sold r p x) =
     \<lparr>dr_symbol = SYMBOL, dr_cond = cnd, dr_direction = (if long then ''long'' else ''flat''),
      dr_action = (if r = REASON_STOP then ''CLOSE_STOP'' else ''CLOSE_SIGNAL''), dr_reason = r, dr_equity = eq,
      dr_size = 0, dr_entry = 0\<rparr>"

definition decisions_of :: "string \<Rightarrow> rat \<Rightarrow> string \<Rightarrow> bool \<Rightarrow> live_action list \<Rightarrow> decision_row list" where
  "decisions_of cnd eq reason long as =
     (if as = []
      then [\<lparr>dr_symbol = SYMBOL, dr_cond = cnd, dr_direction = (if long then ''long'' else ''flat''),
             dr_action = (if long then ''HOLD'' else ''FLAT''), dr_reason = reason, dr_equity = eq, dr_size = 0,
             dr_entry = 0\<rparr>]
      else map (decision_of cnd eq long) as)"

text \<open>What follows the decision: the equity snapshot and the decision rows.\<close>

definition record_run :: "live_strategy \<Rightarrow> day list \<Rightarrow> rat \<Rightarrow> bool option \<Rightarrow> live_action list \<Rightarrow> live_book \<Rightarrow> live_book result" where
  "record_run lv bars price signal_now as bk =
     bind_result (broker_equity [(SYMBOL, Some price)] (lb_broker bk)) (\<lambda>eq.
       let cnd = SYMBOL @ ''|'' @ LIVE_TIMEFRAME @ ''|'' @ lv_key lv;
           (ld, baseline) = overlay_equity [(SYMBOL, Some price)] PAPER_START_CASH (lb_ledger bk);
           ds = decisions_of cnd eq (flat_reason bars signal_now bk) (mc_long (lb_machine bk)) as
       in Inr (bk\<lparr>lb_ledger := fold record_decision ds (snapshot_equity eq baseline ld)\<rparr>))"

definition live_step ::
    "live_strategy \<Rightarrow> day list \<Rightarrow> rat \<Rightarrow> int option \<Rightarrow> int \<Rightarrow> live_book \<Rightarrow> live_book result" where
  "live_step lv bars price now_ms now bk =
     bind_result (decide lv bars price now_ms now bk) (\<lambda>(bk', as, signal_now). record_run lv bars price signal_now as bk')"

text \<open>
  The stored account is the pair of the JSON object and the trade store. A run without a usable price
  does nothing; \<open>price\<close> is finite.
\<close>

definition run_library_account ::
    "string option \<Rightarrow> int \<Rightarrow> live_strategy \<Rightarrow> day list \<Rightarrow> rat option \<Rightarrow> jv \<Rightarrow> int \<Rightarrow> jv \<times> ledger \<Rightarrow> (jv \<times> ledger) result" where
  "run_library_account env next lv bars price stamp now acc =
     (case price of
        None \<Rightarrow> Inr acc
      | Some p \<Rightarrow>
          if p \<le> 0 then Inr acc
          else bind_result (open_account env next (fst acc) (snd acc)) (\<lambda>bk.
               bind_result (live_step lv bars p (stamp_ms stamp) now bk) (\<lambda>bk'.
                 Inr (save_account stamp (fst acc) bk', lb_ledger bk'))))"

text \<open>The heartbeat never sells a library account.\<close>

definition library_stop_check :: "jv \<times> ledger \<Rightarrow> (jv \<times> ledger) \<times> int" where
  "library_stop_check acc = (acc, 0)"

end
