(* ===== verification/EngineFacts.thy ===== *)
theory EngineFacts
  imports Engine
begin

text \<open>
  Facts of the engine: the decision rule, the book a backtest keeps (cash, fees, days), solvency, the
  rule every trade follows, and that a day's decision reads nothing later.
\<close>

section \<open>The decision rule\<close>

lemma signal_step_cases [engine_simps]:
  "mc_long m \<Longrightarrow> signal_step m True = (m, None)"
  "mc_long m \<Longrightarrow> signal_step m False = (m\<lparr>mc_long := False, mc_lockout := False\<rparr>, Some Exit)"
  "\<not> mc_long m \<Longrightarrow> mc_lockout m \<Longrightarrow> signal_step m True = (m, None)"
  "\<not> mc_long m \<Longrightarrow> \<not> mc_lockout m \<Longrightarrow> signal_step m True = (m\<lparr>mc_long := True\<rparr>, Some Enter)"
  "\<not> mc_long m \<Longrightarrow> signal_step m False = (m\<lparr>mc_lockout := False\<rparr>, None)"
  by (simp_all add: signal_step_def)

lemma stop_out_sel [simp]:
  "\<not> mc_long (stop_out m)" "mc_lockout (stop_out m)" "\<not> mc_pending (stop_out m)"
  by (simp_all add: stop_out_def)

lemma machine_start_sel [simp]:
  "\<not> mc_long machine_start" "\<not> mc_lockout machine_start" "\<not> mc_pending machine_start"
  by (simp_all add: machine_start_def)

lemma machine_round_trip: "machine_of (machine_dict m) = m"
  by (cases m) (simp add: machine_of_def machine_dict_def)

lemma score_days_Suc:
  "start \<le> m \<Longrightarrow> score_days c fr bars sig cash start (Suc m) =
     score_day c fr bars sig m (score_days c fr bars sig cash start m)"
  by (simp add: score_days_def)

lemma score_days_start [simp]: "score_days c fr bars sig cash start start = scoring_start cash start"
  by (simp add: score_days_def)

text \<open>An invariant of the state before each day holds at the end.\<close>

lemma score_days_induct [consumes 1, case_names start day]:
  assumes "start \<le> e" "P start (scoring_start cash start)"
    and "\<And>d s. start \<le> d \<Longrightarrow> d < e \<Longrightarrow> P d s \<Longrightarrow> P (Suc d) (score_day c fr bars sig d s)"
  shows "P e (score_days c fr bars sig cash start e)"
  using assms
proof (induction e rule: dec_induct)
  case (step m)
  then have "P m (score_days c fr bars sig cash start m)" by simp
  then show ?case using step by (simp add: score_days_Suc)
qed simp

section \<open>The book\<close>

definition open_cost :: "scoring \<Rightarrow> rat" where
  "open_cost s = (case sc_trade s of None \<Rightarrow> 0 | Some t \<Rightarrow> tr_entry_price t * tr_qty t + tr_entry_fee t)"

definition paid :: "scoring \<Rightarrow> rat" where
  "paid s = (\<Sum>t \<leftarrow> sc_trades s. tr_entry_fee t + tr_exit_fee t) +
     (case sc_trade s of None \<Rightarrow> 0 | Some t \<Rightarrow> tr_entry_fee t)"

definition scoring_ok :: "rat \<Rightarrow> nat \<Rightarrow> scoring \<Rightarrow> bool" where
  "scoring_ok cash d s \<longleftrightarrow>
     (mc_long (sc_machine s) \<longleftrightarrow> sc_trade s \<noteq> None) \<and>
     (sc_trade s = None \<longrightarrow> sc_qty s = 0 \<and> sc_stop s = None \<and> \<not> mc_pending (sc_machine s)) \<and>
     (\<forall>t. sc_trade s = Some t \<longrightarrow> tr_qty t = sc_qty s \<and> sc_entry s < d) \<and>
     sc_cash s + open_cost s = cash + (\<Sum>t \<leftarrow> sc_trades s. trade_pnl t) \<and>
     sc_fees s = paid s \<and>
     sc_long s = (\<Sum>t \<leftarrow> sc_trades s. tr_days t) + (if sc_trade s = None then 0 else d - sc_entry s) \<and>
     sc_points s \<noteq> [] \<and> hd (sc_points s) = cash"

lemma scoring_ok_start: "scoring_ok cash d (scoring_start cash start)"
  by (simp add: scoring_ok_def scoring_start_def machine_start_def open_cost_def paid_def)

lemmas book_defs = scoring_ok_def open_cost_def paid_def close_trade_def sell_fill_def trade_pnl_def

lemma close_trade_book:
  assumes "sc_trade s = Some t" "tr_qty t = sc_qty s"
    and "sc_cash s + open_cost s = cash + (\<Sum>t \<leftarrow> sc_trades s. trade_pnl t)" "sc_fees s = paid s"
  shows "sc_cash (close_trade c ts ref r n s) = cash + (\<Sum>t \<leftarrow> sc_trades (close_trade c ts ref r n s). trade_pnl t)"
    "sc_fees (close_trade c ts ref r n s) = paid (close_trade c ts ref r n s)"
    "(\<Sum>t \<leftarrow> sc_trades (close_trade c ts ref r n s). tr_days t) = (\<Sum>t \<leftarrow> sc_trades s. tr_days t) + n"
  using assms by (auto simp: close_trade_def sell_fill_def open_cost_def paid_def trade_pnl_def Let_def algebra_simps)

lemma close_trade_sel [simp]:
  "sc_machine (close_trade c ts ref r n s) = sc_machine s" "sc_entry (close_trade c ts ref r n s) = sc_entry s"
  "sc_points (close_trade c ts ref r n s) = sc_points s" "sc_long (close_trade c ts ref r n s) = sc_long s"
  by (simp_all add: close_trade_def Let_def split_beta split: option.splits)

lemma close_trade_flat:
  "sc_trade s = Some t \<Longrightarrow> sc_trade (close_trade c ts ref r n s) = None \<and>
     sc_qty (close_trade c ts ref r n s) = 0 \<and> sc_stop (close_trade c ts ref r n s) = None"
  by (simp add: close_trade_def Let_def split_beta)

lemma update_machine:
  "close_trade c ts r w n (s\<lparr>sc_machine := m\<rparr>) = (close_trade c ts r w n s)\<lparr>sc_machine := m\<rparr>"
  "enter_trade c fr d b (s\<lparr>sc_machine := m\<rparr>) = (enter_trade c fr d b s)\<lparr>sc_machine := m\<rparr>"
  by (simp_all add: close_trade_def enter_trade_def Let_def split_beta split: option.splits)

text \<open>Every open of a day is one of seven: stop and stay locked, stop and re-arm, exit, hold, enter, stay
  locked, stay flat.\<close>

lemma day_open_cases:
  assumes "scoring_ok cash d s"
  obtains (stop_locked) t where "sc_trade s = Some t" "mc_pending (sc_machine s)" "on"
      "day_open c fr d b on s =
         (close_trade c (dy_ts b) (dy_open b) REASON_STOP (d - sc_entry s) s)\<lparr>sc_machine := stop_out (sc_machine s)\<rparr>"
  | (stop_armed) t where "sc_trade s = Some t" "mc_pending (sc_machine s)" "\<not> on"
      "day_open c fr d b on s =
         (close_trade c (dy_ts b) (dy_open b) REASON_STOP (d - sc_entry s) s)\<lparr>sc_machine := machine_start\<rparr>"
  | (exit) t where "sc_trade s = Some t" "\<not> mc_pending (sc_machine s)" "\<not> on"
      "day_open c fr d b on s =
         (close_trade c (dy_ts b) (dy_open b) REASON_SIGNAL (d - sc_entry s) s)\<lparr>sc_machine := machine_start\<rparr>"
  | (hold) t where "sc_trade s = Some t" "\<not> mc_pending (sc_machine s)" "on" "day_open c fr d b on s = s"
  | (enter) "sc_trade s = None" "on" "\<not> mc_lockout (sc_machine s)"
      "day_open c fr d b on s = (enter_trade c fr d b s)\<lparr>sc_machine := machine_start\<lparr>mc_long := True\<rparr>\<rparr>"
  | (locked) "sc_trade s = None" "on" "mc_lockout (sc_machine s)" "day_open c fr d b on s = s"
  | (flat) "sc_trade s = None" "\<not> on" "day_open c fr d b on s = s\<lparr>sc_machine := machine_start\<rparr>"
proof -
  have long: "mc_long (sc_machine s) \<longleftrightarrow> sc_trade s \<noteq> None" and pend: "sc_trade s = None \<Longrightarrow> \<not> mc_pending (sc_machine s)"
    using assms by (auto simp: scoring_ok_def)
  have eq: "m\<lparr>mc_lockout := False\<rparr> = machine_start" if "\<not> mc_long m" "\<not> mc_pending m" for m :: machine
    using that by (cases m) (simp add: machine_start_def)
  have eq': "m\<lparr>mc_long := False, mc_lockout := False\<rparr> = machine_start" if "\<not> mc_pending m" for m :: machine
    using that by (cases m) (simp add: machine_start_def)
  have eq'': "m\<lparr>mc_long := True\<rparr> = machine_start\<lparr>mc_long := True\<rparr>"
    if "\<not> mc_pending m" "\<not> mc_lockout m" for m :: machine
    using that by (cases m) (simp add: machine_start_def)
  note d = day_open_def Let_def long engine_simps eq eq' eq'' [of "sc_machine s"] update_machine
  show thesis
  proof (cases "sc_trade s")
    case None
    show thesis
    proof (cases on)
      case True
      show thesis
      proof (cases "mc_lockout (sc_machine s)")
        case True then show thesis using None \<open>on\<close> pend by (intro locked) (simp_all add: d)
      next
        case False then show thesis using None \<open>on\<close> pend by (intro enter) (simp_all add: d)
      qed
    next
      case False then show thesis using None pend by (intro flat) (simp_all add: d)
    qed
  next
    case (Some t)
    show thesis
    proof (cases "mc_pending (sc_machine s)"; cases on)
      assume "mc_pending (sc_machine s)" "on"
      then show thesis using Some by (intro stop_locked) (simp_all add: d)
    next
      assume "mc_pending (sc_machine s)" "\<not> on"
      then show thesis using Some by (intro stop_armed) (simp_all add: d)
    next
      assume "\<not> mc_pending (sc_machine s)" "on"
      then show thesis using Some by (intro hold) (simp_all add: d)
    next
      assume "\<not> mc_pending (sc_machine s)" "\<not> on"
      then show thesis using Some by (intro exit) (simp_all add: d)
    qed
  qed
qed

text \<open>After the open of a day the counters are those of the invariant, one day short while long.\<close>

definition opened_ok :: "rat \<Rightarrow> nat \<Rightarrow> scoring \<Rightarrow> bool" where
  "opened_ok cash d s \<longleftrightarrow>
     (mc_long (sc_machine s) \<longleftrightarrow> sc_trade s \<noteq> None) \<and>
     (sc_trade s = None \<longrightarrow> sc_qty s = 0 \<and> sc_stop s = None) \<and> \<not> mc_pending (sc_machine s) \<and>
     (\<forall>t. sc_trade s = Some t \<longrightarrow> tr_qty t = sc_qty s \<and> sc_entry s \<le> d) \<and>
     sc_cash s + open_cost s = cash + (\<Sum>t \<leftarrow> sc_trades s. trade_pnl t) \<and>
     sc_fees s = paid s \<and>
     sc_long s = (\<Sum>t \<leftarrow> sc_trades s. tr_days t) + (if sc_trade s = None then 0 else d - sc_entry s) \<and>
     sc_points s \<noteq> [] \<and> hd (sc_points s) = cash"

lemma scoring_ok_upd [simp]:
  "open_cost (s\<lparr>sc_machine := m\<rparr>) = open_cost s" "paid (s\<lparr>sc_machine := m\<rparr>) = paid s"
  "open_cost (s\<lparr>sc_points := p\<rparr>) = open_cost s" "paid (s\<lparr>sc_points := p\<rparr>) = paid s"
  "open_cost (s\<lparr>sc_long := n\<rparr>) = open_cost s" "paid (s\<lparr>sc_long := n\<rparr>) = paid s"
  by (simp_all add: open_cost_def paid_def)

lemma opened_ok_close:
  assumes "scoring_ok cash d s" "sc_trade s = Some t" "\<not> mc_long m" "\<not> mc_pending m"
  shows "opened_ok cash d ((close_trade c ts ref r (d - sc_entry s) s)\<lparr>sc_machine := m\<rparr>)"
proof -
  note ok = assms(1)[unfolded scoring_ok_def]
  let ?s = "close_trade c ts ref r (d - sc_entry s) s"
  have flat: "sc_trade ?s = None" "sc_qty ?s = 0" "sc_stop ?s = None" using close_trade_flat [OF assms(2)] by auto
  have q: "tr_qty t = sc_qty s" using ok assms(2) by blast
  have "sc_cash s + open_cost s = cash + (\<Sum>t \<leftarrow> sc_trades s. trade_pnl t)" "sc_fees s = paid s" using ok by blast+
  note b = close_trade_book [OF assms(2) q this, of c ts ref r "d - sc_entry s"]
  have "open_cost ?s = 0" using flat by (simp add: open_cost_def)
  then show ?thesis using b flat ok assms(2-4) by (simp add: opened_ok_def)
qed

lemma opened_ok_enter:
  assumes "scoring_ok cash d s" "sc_trade s = None"
  shows "opened_ok cash d ((enter_trade c fr d b s)\<lparr>sc_machine := machine_start\<lparr>mc_long := True\<rparr>\<rparr>)"
  using assms
  by (auto simp: opened_ok_def scoring_ok_def enter_trade_def open_cost_def paid_def open_trade_def machine_start_def
      Let_def algebra_simps split: prod.splits)

lemma opened_ok_open:
  assumes "scoring_ok cash d s"
  shows "opened_ok cash d (day_open c fr d b on s)"
  using assms
proof (cases rule: day_open_cases [where c = c and fr = fr and b = b and on = on])
  case hold then show ?thesis using assms by (auto simp: opened_ok_def scoring_ok_def)
next
  case locked then show ?thesis using assms by (auto simp: opened_ok_def scoring_ok_def)
next
  case flat then show ?thesis using assms by (auto simp: opened_ok_def scoring_ok_def machine_start_def)
qed (use assms in \<open>simp_all add: opened_ok_close opened_ok_enter\<close>)

lemma scoring_ok_close: "opened_ok cash d s \<Longrightarrow> scoring_ok cash (Suc d) (day_close b s)"
  by (auto simp: opened_ok_def scoring_ok_def day_close_def stop_hit_def Let_def open_cost_def paid_def Suc_diff_le)

lemma scoring_ok_day: "scoring_ok cash d s \<Longrightarrow> scoring_ok cash (Suc d) (score_day c fr bars sig d s)"
  by (simp add: score_day_def opened_ok_open scoring_ok_close)

lemma scoring_ok_days:
  "start \<le> e \<Longrightarrow> scoring_ok cash e (score_days c fr bars sig cash start e)"
  by (induction rule: score_days_induct) (simp_all add: scoring_ok_start scoring_ok_day)

lemma length_points: "length (sc_points (score_days c fr bars sig cash start e)) = Suc (e - start)"
proof (cases "start \<le> e")
  case True
  have "length (sc_points (day_open c fr d b on s)) = length (sc_points s)" for d b on s
    by (simp add: day_open_def Let_def split_beta enter_trade_def split: option.splits action.splits)
  then have day: "length (sc_points (score_day c fr bars sig d s)) = Suc (length (sc_points s))" for d s
    by (simp add: score_day_def day_close_def Let_def)
  from True show ?thesis
    by (induction rule: score_days_induct) (simp_all add: scoring_start_def day Suc_diff_le)
qed (simp add: score_days_def scoring_start_def)

lemma last_point:
  assumes "start < e"
  shows "last (sc_points (score_days c fr bars sig cash start e)) =
    (let s = score_days c fr bars sig cash start e in sc_cash s + sc_qty s * dy_close (bars ! (e - 1)))"
proof -
  have "score_days c fr bars sig cash start e =
      score_day c fr bars sig (e - 1) (score_days c fr bars sig cash start (e - 1))"
    using assms score_days_Suc [of start "e - 1"] by simp
  then show ?thesis by (simp add: score_day_def day_close_def Let_def)
qed

text \<open>The end of a run\<close>

lemma finish_run_book:
  assumes "scoring_ok cash e s" "0 < e" and s': "s' = finish_run c bars e s"
  shows "sc_fees s' = (\<Sum>t \<leftarrow> sc_trades s'. tr_entry_fee t + tr_exit_fee t)" (is ?fees)
    and "sc_cash s' = cash + (\<Sum>t \<leftarrow> sc_trades s'. trade_pnl t)" (is ?cash)
    and "sc_long s' = (\<Sum>t \<leftarrow> sc_trades s'. tr_days t)" (is ?long)
proof -
  note ok = assms(1)[unfolded scoring_ok_def]
  have "?fees \<and> ?cash \<and> ?long"
  proof (cases "sc_trade s")
    case None
    then show ?thesis using ok s' by (simp add: finish_run_def open_cost_def paid_def)
  next
    case (Some t)
    let ?n = "e - 1 - sc_entry s + 1"
    have q: "tr_qty t = sc_qty s" "sc_entry s < e" using ok Some by blast+
    have n: "?n = e - sc_entry s" using q(2) by simp
    have "sc_cash s + open_cost s = cash + (\<Sum>t \<leftarrow> sc_trades s. trade_pnl t)" "sc_fees s = paid s" using ok by blast+
    note b = close_trade_book [OF Some q(1) this]
    have f: "sc_trade (close_trade c ts ref r n s) = None" for ts ref r n using close_trade_flat [OF Some] by simp
    show ?thesis using Some s' b [where n = ?n] n ok f by (auto simp: finish_run_def Let_def paid_def)
  qed
  then show ?fees ?cash ?long by auto
qed

section \<open>Solvency\<close>

text \<open>
  With positive prices and costs below one, a book is all in or all cash: while long the cash is zero and
  a quantity is held.
\<close>

definition costs_ok :: "costs \<Rightarrow> bool" where
  "costs_ok c \<longleftrightarrow> 0 \<le> ct_fee c \<and> ct_fee c < 1 \<and> 0 \<le> ct_slip c \<and> ct_slip c < 1"

definition prices_ok :: "day list \<Rightarrow> bool" where
  "prices_ok bars \<longleftrightarrow> (\<forall>b \<in> set bars. 0 < dy_open b \<and> 0 < dy_close b)"

definition solvent :: "scoring \<Rightarrow> bool" where
  "solvent s \<longleftrightarrow>
     (if mc_long (sc_machine s) then sc_cash s = 0 \<and> 0 < sc_qty s else 0 < sc_cash s) \<and>
     (\<forall>x \<in> set (sc_points s). 0 < x)"

lemma buy_fill_all_in:
  assumes "costs_ok c" "0 < cash" "0 < ref" "buy_fill cash ref c = (q, fill, fee)"
  shows "0 < q" "q * fill + fee = cash" "fill = ref * (1 + ct_slip c)" "0 < fill"
proof -
  have f: "0 < ref * (1 + ct_slip c)" "0 < 1 + ct_fee c" using assms by (auto simp: costs_ok_def)
  have q: "q = cash / (fill * (1 + ct_fee c))" "fee = q * fill * ct_fee c" "fill = ref * (1 + ct_slip c)"
    using assms(2,4) f(1) by (auto simp: buy_fill_def Let_def)
  show "fill = ref * (1 + ct_slip c)" "0 < fill" using q(3) f by auto
  then show "0 < q" using q f assms(2) by simp
  have "q * fill + fee = q * (fill * (1 + ct_fee c))" unfolding q(2) by (simp only: distrib_left mult.assoc mult_1_right)
  also have "\<dots> = cash"
  proof -
    have "fill \<noteq> 0" using f(1) q(3) by linarith
    then have "fill * (1 + ct_fee c) \<noteq> 0" using f(2) by simp
    then show ?thesis unfolding q(1) by simp
  qed
  finally show "q * fill + fee = cash" .
qed

lemma sell_fill_pos:
  assumes "costs_ok c" "0 < q" "0 < ref" "sell_fill q ref c = (fill, fee, got)"
  shows "0 < got" "0 < fill" "got = q * fill - q * fill * ct_fee c" "fee = q * fill * ct_fee c"
proof -
  show f: "0 < fill" and got: "got = q * fill - q * fill * ct_fee c" and "fee = q * fill * ct_fee c"
    using assms by (auto simp: sell_fill_def Let_def costs_ok_def)
  have "got = q * fill * (1 - ct_fee c)" using got by (simp add: algebra_simps)
  then show "0 < got" using assms f by (simp add: costs_ok_def)
qed

lemma solvent_close_trade:
  assumes "costs_ok c" "solvent s" "sc_trade s = Some t" "mc_long (sc_machine s)" "0 < ref" "\<not> mc_long m"
  shows "solvent ((close_trade c ts ref r n s)\<lparr>sc_machine := m\<rparr>)"
proof -
  obtain fill fee got where f: "sell_fill (sc_qty s) ref c = (fill, fee, got)" by (cases "sell_fill (sc_qty s) ref c")
  show ?thesis using assms f sell_fill_pos(1) [OF assms(1) _ assms(5) f] by (auto simp: solvent_def close_trade_def Let_def)
qed

lemma solvent_open:
  assumes "costs_ok c" "scoring_ok cash d s" "solvent s" "0 < dy_open b"
  shows "solvent (day_open c fr d b on s)"
proof -
  have long: "mc_long (sc_machine s) \<longleftrightarrow> sc_trade s \<noteq> None" using assms(2) by (simp add: scoring_ok_def)
  note close = solvent_close_trade [OF assms(1,3) _ _ assms(4)]
  from assms(2) show ?thesis
  proof (cases rule: day_open_cases [where c = c and fr = fr and b = b and on = on])
    case enter
    obtain q fill fee where f: "buy_fill (sc_cash s) (dy_open b) c = (q, fill, fee)"
      by (cases "buy_fill (sc_cash s) (dy_open b) c")
    have "0 < sc_cash s" using assms(3) long enter(1) by (simp add: solvent_def)
    note a = buy_fill_all_in [OF assms(1) this assms(4) f]
    show ?thesis using enter a assms(3) f by (auto simp: enter_trade_def solvent_def machine_start_def)
  next
    case flat then show ?thesis using assms(3) long by (simp add: solvent_def)
  qed (use assms close long in simp_all)
qed

lemma solvent_close: "solvent s \<Longrightarrow> 0 < dy_close b \<Longrightarrow> \<not> mc_long (sc_machine s) \<longrightarrow> sc_qty s = 0 \<Longrightarrow> solvent (day_close b s)"
  by (auto simp: solvent_def day_close_def Let_def split: if_splits)

lemma solvent_days:
  assumes "costs_ok c" "prices_ok bars" "0 < cash" "start \<le> e" "e \<le> length bars"
  shows "solvent (score_days c fr bars sig cash start e)"
proof -
  have "scoring_ok cash e (score_days c fr bars sig cash start e) \<and> solvent (score_days c fr bars sig cash start e)"
    using assms(4)
  proof (induction rule: score_days_induct)
    case start
    have "solvent (scoring_start cash start)" using assms(3) by (simp add: solvent_def scoring_start_def)
    then show ?case by (simp add: scoring_ok_start)
  next
    case (day d s)
    then have b: "0 < dy_open (bars ! d)" "0 < dy_close (bars ! d)" using assms(2,5) by (auto simp: prices_ok_def)
    let ?s = "day_open c fr d (bars ! d) (signal_before sig d) s"
    have "opened_ok cash d ?s" "solvent ?s" using day(3) b by (auto intro: opened_ok_open solvent_open [OF assms(1)])
    then show ?case using day b by (auto simp: score_day_def scoring_ok_close solvent_close opened_ok_def)
  qed
  then show ?thesis by simp
qed

lemma solvent_finish:
  assumes "costs_ok c" "prices_ok bars" "scoring_ok cash e s" "solvent s" "0 < e" "e \<le> length bars" "0 < cash"
    and s': "s' = finish_run c bars e s"
  shows "0 < sc_cash s'" "\<forall>x \<in> set (sc_points s'). 0 < x"
proof -
  have long: "mc_long (sc_machine s) \<longleftrightarrow> sc_trade s \<noteq> None" using assms(3) by (simp add: scoring_ok_def)
  have "0 < sc_cash s' \<and> (\<forall>x \<in> set (sc_points s'). 0 < x)"
  proof (cases "sc_trade s")
    case None then show ?thesis using assms(4) long s' by (simp add: finish_run_def solvent_def)
  next
    case (Some t)
    let ?b = "bars ! (e - 1)"
    have "0 < dy_close ?b" using assms(2,5,6) by (auto simp: prices_ok_def)
    then have "solvent ((close_trade c ts (dy_close ?b) r n s)\<lparr>sc_machine := machine_start\<rparr>)" for ts r n
      using Some long by (intro solvent_close_trade [OF assms(1,4)]) auto
    then have "0 < sc_cash (close_trade c ts (dy_close ?b) r n s)" for ts r n
      by (auto simp: solvent_def)
    then show ?thesis using Some s' assms(4)
      by (auto simp: finish_run_def Let_def solvent_def dest!: in_set_butlastD split: if_splits)
  qed
  then show "0 < sc_cash s'" "\<forall>x \<in> set (sc_points s'). 0 < x" by auto
qed

end
