(* ===== verification/EngineRules.thy ===== *)
theory EngineRules
  imports EngineFacts
begin

text \<open>
  What a backtest does, stated without its state machine: the days a position is held, the reason it is
  sold, the days it must stay out, and that a day reads nothing later.
\<close>

section \<open>No lookahead\<close>

lemma score_days_agree:
  assumes "\<And>d. start \<le> d \<Longrightarrow> d < e \<Longrightarrow> bars ! d = bars' ! d \<and> signal_before sig d = signal_before sig' d"
  shows "score_days c fr bars sig cash start e = score_days c fr bars' sig' cash start e"
  unfolding score_days_def by (intro fold_cong) (auto simp: score_day_def assms)

lemma day_open_grows:
  "sc_points (day_open c fr d b on s) = sc_points s \<and>
   (\<exists>u. sc_trades (day_open c fr d b on s) = sc_trades s @ u \<and> (\<forall>t \<in> set u. tr_exit_ts t = dy_ts b))"
  by (auto simp: day_open_def Let_def split_beta enter_trade_def close_trade_def signal_step_def
      split: option.splits action.splits if_splits)

text \<open>Points and trades are only appended, and a trade appended on a day ends on that day.\<close>

lemma score_days_grow:
  assumes "start \<le> m" "m \<le> e"
  shows "\<exists>p u. sc_points (score_days c fr bars sig cash start e) = sc_points (score_days c fr bars sig cash start m) @ p \<and>
    sc_trades (score_days c fr bars sig cash start e) = sc_trades (score_days c fr bars sig cash start m) @ u \<and>
    (\<forall>t \<in> set u. \<exists>d. m \<le> d \<and> d < e \<and> tr_exit_ts t = dy_ts (bars ! d))"
  using assms(2)
proof (induction e rule: dec_induct)
  case (step n)
  let ?s = "score_days c fr bars sig cash start n"
  from step obtain p u where IH: "sc_points ?s = sc_points (score_days c fr bars sig cash start m) @ p"
      "sc_trades ?s = sc_trades (score_days c fr bars sig cash start m) @ u"
      "\<forall>t \<in> set u. \<exists>d. m \<le> d \<and> d < n \<and> tr_exit_ts t = dy_ts (bars ! d)" by blast
  obtain v where v: "sc_trades (score_day c fr bars sig n ?s) = sc_trades ?s @ v" "\<forall>t \<in> set v. tr_exit_ts t = dy_ts (bars ! n)"
    using day_open_grows [of c fr n "bars ! n" "signal_before sig n" ?s] by (auto simp: score_day_def day_close_def Let_def)
  have "\<exists>x. sc_points (score_day c fr bars sig n ?s) = sc_points ?s @ [x]"
    using day_open_grows [of c fr n "bars ! n" "signal_before sig n" ?s] by (simp add: score_day_def day_close_def Let_def)
  moreover have "\<forall>t \<in> set (u @ v). \<exists>d. m \<le> d \<and> d < Suc n \<and> tr_exit_ts t = dy_ts (bars ! d)"
    using IH(3) v(2) step.hyps by (auto simp: less_Suc_eq)
  ultimately show ?case using IH v assms(1) step.hyps by (auto simp: score_days_Suc intro!: exI [of _ "u @ v"])
qed (auto intro: exI [of _ "[]"])

lemma finish_run_grows:
  assumes "s' = finish_run c bars e s" "sc_points s \<noteq> []"
  shows "butlast (sc_points s') = butlast (sc_points s) \<and> length (sc_points s') = length (sc_points s) \<and>
    (\<exists>u. sc_trades s' = sc_trades s @ u \<and> (\<forall>t \<in> set u. tr_exit_ts t = dy_ts (bars ! (e - 1))))"
  using assms by (auto simp: finish_run_def Let_def close_trade_def split_beta split: option.splits)

section \<open>The rule of a trade\<close>

definition low_hit :: "costs \<Rightarrow> rat \<Rightarrow> day list \<Rightarrow> nat \<Rightarrow> nat \<Rightarrow> bool" where
  "low_hit c fr bars e d \<longleftrightarrow>
     (case stop_price (dy_open (bars ! e) * (1 + ct_slip c)) fr of None \<Rightarrow> False | Some p \<Rightarrow> dy_low (bars ! d) \<le> p)"

text \<open>
  A position bought at the open of day \<open>e\<close> is still held after day \<open>x - 1\<close>: the signal was on before
  every open, and no low before the last day reached the stop.
\<close>

definition held :: "costs \<Rightarrow> rat \<Rightarrow> day list \<Rightarrow> bool list \<Rightarrow> nat \<Rightarrow> nat \<Rightarrow> bool" where
  "held c fr bars sig e x \<longleftrightarrow>
     e < x \<and> (\<forall>k. e \<le> k \<longrightarrow> k < x \<longrightarrow> signal_before sig k) \<and> (\<forall>k. e \<le> k \<longrightarrow> Suc k < x \<longrightarrow> \<not> low_hit c fr bars e k)"

definition entered :: "costs \<Rightarrow> day list \<Rightarrow> nat \<Rightarrow> trade \<Rightarrow> bool" where
  "entered c bars e t \<longleftrightarrow>
     tr_entry_ts t = dy_ts (bars ! e) \<and> tr_entry_price t = dy_open (bars ! e) * (1 + ct_slip c)"

definition trade_rule :: "costs \<Rightarrow> rat \<Rightarrow> day list \<Rightarrow> bool list \<Rightarrow> nat \<times> nat \<Rightarrow> trade \<Rightarrow> bool" where
  "trade_rule c fr bars sig p t \<longleftrightarrow>
     (let (e, x) = p in
      held c fr bars sig e x \<and> entered c bars e t \<and>
      tr_exit_ts t = dy_ts (bars ! x) \<and> tr_exit_price t = dy_open (bars ! x) * (1 - ct_slip c) \<and> tr_days t = x - e \<and>
      (if low_hit c fr bars e (x - 1) then tr_reason t = REASON_STOP
       else tr_reason t = REASON_SIGNAL \<and> \<not> signal_before sig x))"

text \<open>The sale at the end of the scored days\<close>

definition end_rule :: "costs \<Rightarrow> rat \<Rightarrow> day list \<Rightarrow> bool list \<Rightarrow> nat \<times> nat \<Rightarrow> trade \<Rightarrow> bool" where
  "end_rule c fr bars sig p t \<longleftrightarrow>
     (let (e, x) = p in
      held c fr bars sig e x \<and> entered c bars e t \<and>
      tr_exit_ts t = dy_ts (bars ! (x - 1)) \<and> tr_exit_price t = dy_close (bars ! (x - 1)) * (1 - ct_slip c) \<and>
      tr_days t = x - e \<and> tr_reason t = (if low_hit c fr bars e (x - 1) then REASON_STOP else REASON_END))"

definition off_between :: "bool list \<Rightarrow> nat \<Rightarrow> nat \<Rightarrow> bool" where
  "off_between sig x e \<longleftrightarrow> (\<exists>k. x \<le> k \<and> k < e \<and> \<not> signal_before sig k)"

definition locked_out :: "bool list \<Rightarrow> (nat \<times> nat) \<times> trade \<Rightarrow> nat \<Rightarrow> bool" where
  "locked_out sig q k \<longleftrightarrow>
     tr_reason (snd q) = REASON_STOP \<and> snd (fst q) \<le> k \<and> (\<forall>j. snd (fst q) \<le> j \<longrightarrow> j \<le> k \<longrightarrow> signal_before sig j)"

text \<open>
  The days \<open>sp\<close> of the trades \<open>ts\<close>: each follows the rule, the signal was off between two of them, and a day
  whose signal was on is either held or locked out since a stop.
\<close>

definition spans_ok :: "costs \<Rightarrow> rat \<Rightarrow> day list \<Rightarrow> bool list \<Rightarrow> (nat \<times> nat) list \<Rightarrow> trade list \<Rightarrow> bool" where
  "spans_ok c fr bars sig sp ts \<longleftrightarrow>
     list_all2 (trade_rule c fr bars sig) sp ts \<and> successively (\<lambda>p q. off_between sig (snd p) (fst q)) sp"

definition covered :: "bool list \<Rightarrow> (nat \<times> nat) list \<Rightarrow> trade list \<Rightarrow> nat \<Rightarrow> bool" where
  "covered sig sp ts k \<longleftrightarrow> (\<exists>p \<in> set sp. fst p \<le> k \<and> k < snd p) \<or> (\<exists>q \<in> set (zip sp ts). locked_out sig q k)"

lemma spans_length: "spans_ok c fr bars sig sp ts \<Longrightarrow> length sp = length ts"
  by (auto simp: spans_ok_def dest: list_all2_lengthD)

lemma spans_append:
  "spans_ok c fr bars sig sp ts \<Longrightarrow> trade_rule c fr bars sig p t \<Longrightarrow>
     (sp \<noteq> [] \<longrightarrow> off_between sig (snd (last sp)) (fst p)) \<Longrightarrow> spans_ok c fr bars sig (sp @ [p]) (ts @ [t])"
  by (auto simp: spans_ok_def list_all2_appendI successively_append_iff)

lemma covered_append:
  "length sp = length ts \<Longrightarrow> covered sig (sp @ [p]) (ts @ [t]) k \<longleftrightarrow>
     covered sig sp ts k \<or> (fst p \<le> k \<and> k < snd p) \<or> locked_out sig (p, t) k"
  by (auto simp: covered_def)

definition rule_inv :: "costs \<Rightarrow> rat \<Rightarrow> day list \<Rightarrow> bool list \<Rightarrow> nat \<Rightarrow> (nat \<times> nat) list \<Rightarrow> nat \<Rightarrow> scoring \<Rightarrow> bool" where
  "rule_inv c fr bars sig start sp d s \<longleftrightarrow>
     spans_ok c fr bars sig sp (sc_trades s) \<and> (\<forall>p \<in> set sp. start \<le> fst p \<and> snd p < d) \<and>
     (case sc_trade s of
        Some t \<Rightarrow>
          start \<le> sc_entry s \<and> held c fr bars sig (sc_entry s) d \<and> entered c bars (sc_entry s) t \<and>
          sc_stop s = stop_price (tr_entry_price t) fr \<and>
          (mc_pending (sc_machine s) \<longleftrightarrow> low_hit c fr bars (sc_entry s) (d - 1)) \<and>
          (sp \<noteq> [] \<longrightarrow> off_between sig (snd (last sp)) (sc_entry s)) \<and>
          (\<forall>k. start \<le> k \<longrightarrow> k < d \<longrightarrow> signal_before sig k \<longrightarrow> covered sig sp (sc_trades s) k \<or> sc_entry s \<le> k)
      | None \<Rightarrow>
          (if mc_lockout (sc_machine s)
           then sp \<noteq> [] \<and> tr_reason (last (sc_trades s)) = REASON_STOP \<and>
                (\<forall>k. snd (last sp) \<le> k \<longrightarrow> k < d \<longrightarrow> signal_before sig k)
           else sp \<noteq> [] \<longrightarrow> off_between sig (snd (last sp)) d) \<and>
          (\<forall>k. start \<le> k \<longrightarrow> k < d \<longrightarrow> signal_before sig k \<longrightarrow> covered sig sp (sc_trades s) k))"

lemma rule_inv_start: "rule_inv c fr bars sig start [] start (scoring_start cash start)"
  by (auto simp: rule_inv_def spans_ok_def scoring_start_def machine_start_def)

text \<open>A sale at the open of day \<open>d\<close>\<close>

lemma rule_close:
  assumes "rule_inv c fr bars sig start sp d s" "sc_trade s = Some t"
    and r: "if low_hit c fr bars (sc_entry s) (d - 1) then r = REASON_STOP else r = REASON_SIGNAL \<and> \<not> signal_before sig d"
    and s1: "s1 = close_trade c (dy_ts (bars ! d)) (dy_open (bars ! d)) r (d - sc_entry s) s"
  shows "spans_ok c fr bars sig (sp @ [(sc_entry s, d)]) (sc_trades s1)" (is ?spans)
    and "\<exists>t'. sc_trades s1 = sc_trades s @ [t'] \<and> tr_reason t' = r"
    and "sc_trade s1 = None"
    and "\<forall>p \<in> set (sp @ [(sc_entry s, d)]). start \<le> fst p \<and> snd p < Suc d"
    and "\<forall>k. start \<le> k \<longrightarrow> k < d \<longrightarrow> signal_before sig k \<longrightarrow> covered sig (sp @ [(sc_entry s, d)]) (sc_trades s1) k"
proof -
  note inv = assms(1)[unfolded rule_inv_def assms(2) option.case]
  obtain t' where t': "sc_trades s1 = sc_trades s @ [t']" "tr_reason t' = r"
      "tr_exit_ts t' = dy_ts (bars ! d)" "tr_exit_price t' = dy_open (bars ! d) * (1 - ct_slip c)"
      "tr_days t' = d - sc_entry s" "tr_entry_ts t' = tr_entry_ts t" "tr_entry_price t' = tr_entry_price t"
    using assms(2) s1 by (auto simp: close_trade_def sell_fill_def Let_def)
  have rule: "trade_rule c fr bars sig (sc_entry s, d) t'"
    using inv t' r by (auto simp: trade_rule_def entered_def)
  show ?spans unfolding t'(1) using inv rule by (intro spans_append) auto
  show "\<exists>t'. sc_trades s1 = sc_trades s @ [t'] \<and> tr_reason t' = r" using t' by blast
  show "sc_trade s1 = None" using close_trade_flat [OF assms(2)] s1 by simp
  show "\<forall>p \<in> set (sp @ [(sc_entry s, d)]). start \<le> fst p \<and> snd p < Suc d" using inv by auto
  have len: "length sp = length (sc_trades s)" using inv spans_length by blast
  show "\<forall>k. start \<le> k \<longrightarrow> k < d \<longrightarrow> signal_before sig k \<longrightarrow> covered sig (sp @ [(sc_entry s, d)]) (sc_trades s1) k"
    using inv len unfolding t'(1) by (auto simp: covered_append)
qed

lemma less_Suc_cases: "(\<forall>k. a \<le> k \<longrightarrow> k < Suc d \<longrightarrow> P k) \<longleftrightarrow> (\<forall>k. a \<le> k \<longrightarrow> k < d \<longrightarrow> P k) \<and> (a \<le> d \<longrightarrow> P d)"
  by (auto simp: less_Suc_eq)

lemma flat_after_close:
  assumes "sc_trade s1 = None" "\<not> mc_long m"
  shows "sc_trade (day_close b (s1\<lparr>sc_machine := m\<rparr>)) = None"
    "sc_trades (day_close b (s1\<lparr>sc_machine := m\<rparr>)) = sc_trades s1"
    "sc_machine (day_close b (s1\<lparr>sc_machine := m\<rparr>)) = m"
  using assms by (simp_all add: day_close_def stop_hit_def Let_def)

lemma rule_inv_sold_locked:
  assumes "rule_inv c fr bars sig start sp d s" "sc_trade s = Some t" "start \<le> d"
    and "low_hit c fr bars (sc_entry s) (d - 1)" "signal_before sig d" "\<not> mc_long m" "mc_lockout m"
    and s1: "s1 = close_trade c (dy_ts (bars ! d)) (dy_open (bars ! d)) REASON_STOP (d - sc_entry s) s"
  shows "rule_inv c fr bars sig start (sp @ [(sc_entry s, d)]) (Suc d) (day_close (bars ! d) (s1\<lparr>sc_machine := m\<rparr>))"
proof -
  note cl = rule_close [OF assms(1,2) _ s1]
  have r: "if low_hit c fr bars (sc_entry s) (d - 1) then REASON_STOP = REASON_STOP
    else REASON_STOP = REASON_SIGNAL \<and> \<not> signal_before sig d" using assms(4) by simp
  obtain t' where t': "sc_trades s1 = sc_trades s @ [t']" "tr_reason t' = REASON_STOP" using cl(2) [OF r] by blast
  have "length sp = length (sc_trades s)"
    using assms(1) spans_length by (auto simp: rule_inv_def)
  then have "covered sig (sp @ [(sc_entry s, d)]) (sc_trades s1) d"
    using t' assms(5) by (simp add: covered_append locked_out_def)
  then show ?thesis
    using cl [OF r] t' assms(3,5-7) flat_after_close [OF cl(3) [OF r] assms(6)]
    by (simp add: rule_inv_def less_Suc_cases)
qed

lemma rule_inv_sold_armed:
  assumes "rule_inv c fr bars sig start sp d s" "sc_trade s = Some t" "start \<le> d"
    and "\<not> signal_before sig d" "\<not> mc_long m" "\<not> mc_lockout m"
    and r: "r = (if low_hit c fr bars (sc_entry s) (d - 1) then REASON_STOP else REASON_SIGNAL)"
    and s1: "s1 = close_trade c (dy_ts (bars ! d)) (dy_open (bars ! d)) r (d - sc_entry s) s"
  shows "rule_inv c fr bars sig start (sp @ [(sc_entry s, d)]) (Suc d) (day_close (bars ! d) (s1\<lparr>sc_machine := m\<rparr>))"
proof -
  note cl = rule_close [OF assms(1,2) _ s1]
  have r: "if low_hit c fr bars (sc_entry s) (d - 1) then r = REASON_STOP else r = REASON_SIGNAL \<and> \<not> signal_before sig d"
    using assms(4,7) by simp
  have "off_between sig d (Suc d)" using assms(4) by (auto simp: off_between_def)
  then show ?thesis
    using cl [OF r] assms(4-6) flat_after_close [OF cl(3) [OF r] assms(5)]
    by (simp add: rule_inv_def less_Suc_cases)
qed

lemma held_Suc:
  "held c fr bars sig e d \<Longrightarrow> signal_before sig d \<Longrightarrow> \<not> low_hit c fr bars e (d - 1) \<Longrightarrow> held c fr bars sig e (Suc d)"
  by (auto simp: held_def less_Suc_eq)

lemma rule_inv_hold:
  assumes "rule_inv c fr bars sig start sp d s" "sc_trade s = Some t" "scoring_ok cash d s" "signal_before sig d"
    and "\<not> mc_pending (sc_machine s)"
  shows "rule_inv c fr bars sig start sp (Suc d) (day_close (bars ! d) s)"
proof -
  note inv = assms(1)[unfolded rule_inv_def assms(2) option.case]
  have long: "mc_long (sc_machine s)" using assms(2,3) by (simp add: scoring_ok_def)
  have "held c fr bars sig (sc_entry s) (Suc d)" using inv assms(4,5) by (intro held_Suc) auto
  moreover have "stop_hit (bars ! d) s \<longleftrightarrow> low_hit c fr bars (sc_entry s) d"
    using inv long by (auto simp: stop_hit_def low_hit_def entered_def)
  moreover have "sc_entry s \<le> d" using inv by (auto simp: held_def)
  ultimately show ?thesis using inv assms(2,5) by (auto simp: rule_inv_def day_close_def Let_def less_Suc_eq)
qed

lemma rule_inv_enter:
  assumes "rule_inv c fr bars sig start sp d s" "sc_trade s = None" "start \<le> d" "signal_before sig d"
    and "\<not> mc_lockout (sc_machine s)"
    and s1: "s1 = (enter_trade c fr d (bars ! d) s)\<lparr>sc_machine := machine_start\<lparr>mc_long := True\<rparr>\<rparr>"
  shows "rule_inv c fr bars sig start sp (Suc d) (day_close (bars ! d) s1)"
proof -
  note inv = assms(1)[unfolded rule_inv_def assms(2) option.case]
  obtain q fill fee where f: "buy_fill (sc_cash s) (dy_open (bars ! d)) c = (q, fill, fee)"
    by (cases "buy_fill (sc_cash s) (dy_open (bars ! d)) c")
  then have fill: "fill = dy_open (bars ! d) * (1 + ct_slip c)" by (auto simp: buy_fill_def Let_def split: if_splits)
  have s1': "sc_trade s1 = Some (open_trade (dy_ts (bars ! d)) fill q fee)" "sc_stop s1 = stop_price fill fr"
      "sc_entry s1 = d" "sc_trades s1 = sc_trades s" "mc_long (sc_machine s1)" "\<not> mc_pending (sc_machine s1)"
    using s1 f by (simp_all add: enter_trade_def machine_start_def)
  have hit: "stop_hit (bars ! d) s1 \<longleftrightarrow> low_hit c fr bars d d" using s1' fill by (simp add: stop_hit_def low_hit_def)
  have held: "held c fr bars sig d (Suc d)" using assms(4) by (auto simp: held_def less_Suc_eq)
  show ?thesis
    using inv assms(3,5) s1' hit held fill
    by (auto simp: rule_inv_def day_close_def Let_def entered_def open_trade_def less_Suc_eq)
qed

lemma rule_inv_flat:
  assumes "rule_inv c fr bars sig start sp d s" "sc_trade s = None" "scoring_ok cash d s" "\<not> signal_before sig d"
  shows "rule_inv c fr bars sig start sp (Suc d) (day_close (bars ! d) (s\<lparr>sc_machine := machine_start\<rparr>))"
proof -
  note inv = assms(1)[unfolded rule_inv_def assms(2) option.case]
  have "off_between sig (snd (last sp)) (Suc d)" if "sp \<noteq> []"
    using that inv assms(4) last_in_set [OF that] by (auto simp: off_between_def intro!: exI [of _ d] less_imp_le)
  then show ?thesis
    using inv assms(2,4) flat_after_close [OF assms(2), of machine_start]
    by (auto simp: rule_inv_def less_Suc_cases less_Suc_eq)
qed

lemma rule_inv_locked:
  assumes "rule_inv c fr bars sig start sp d s" "sc_trade s = None" "scoring_ok cash d s" "signal_before sig d"
    and "mc_lockout (sc_machine s)"
  shows "rule_inv c fr bars sig start sp (Suc d) (day_close (bars ! d) s)"
proof -
  note inv = assms(1)[unfolded rule_inv_def assms(2) option.case]
  have long: "\<not> mc_long (sc_machine s)" using assms(2,3) by (simp add: scoring_ok_def)
  have sp: "sp \<noteq> []" "length sp = length (sc_trades s)" using inv assms(5) spans_length by auto
  then have ne: "sc_trades s \<noteq> []" by auto
  have "(last sp, last (sc_trades s)) \<in> set (zip sp (sc_trades s))"
    using sp ne by (metis last_in_set last_zip length_0_conv zip_eq_Nil_iff)
  moreover have "snd (last sp) < d" using inv sp(1) by auto
  ultimately have "covered sig sp (sc_trades s) d"
    using inv assms(4,5) by (auto simp: covered_def locked_out_def le_less intro!: bexI)
  then show ?thesis
    using inv assms(2,4,5) long
    by (auto simp: rule_inv_def day_close_def stop_hit_def Let_def less_Suc_cases less_Suc_eq)
qed

lemma rule_inv_day:
  assumes ok: "scoring_ok cash d s" and inv: "rule_inv c fr bars sig start sp d s" and d: "start \<le> d"
  shows "\<exists>sp'. rule_inv c fr bars sig start sp' (Suc d) (score_day c fr bars sig d s)"
proof -
  have pend: "mc_pending (sc_machine s) \<longleftrightarrow> low_hit c fr bars (sc_entry s) (d - 1)" if "sc_trade s = Some t" for t
    using inv that by (simp add: rule_inv_def)
  from ok show ?thesis
  proof (cases rule: day_open_cases [where c = c and fr = fr and b = "bars ! d" and on = "signal_before sig d"])
    case (stop_locked t)
    with pend rule_inv_sold_locked [OF inv stop_locked(1) d, of "stop_out (sc_machine s)"] show ?thesis by (auto simp: score_day_def)
  next
    case (stop_armed t)
    with pend rule_inv_sold_armed [OF inv stop_armed(1) d stop_armed(3), of machine_start REASON_STOP] show ?thesis by (auto simp: score_day_def)
  next
    case (exit t)
    with pend rule_inv_sold_armed [OF inv exit(1) d exit(3), of machine_start REASON_SIGNAL] show ?thesis by (auto simp: score_day_def)
  next
    case (hold t) with rule_inv_hold [OF inv hold(1) ok] show ?thesis by (auto simp: score_day_def)
  next
    case enter with rule_inv_enter [OF inv enter(1) d] show ?thesis by (auto simp: score_day_def)
  next
    case locked with rule_inv_locked [OF inv locked(1) ok] show ?thesis by (auto simp: score_day_def)
  next
    case flat with rule_inv_flat [OF inv flat(1) ok] show ?thesis by (auto simp: score_day_def)
  qed
qed

lemma rule_inv_days:
  assumes "start \<le> e"
  shows "\<exists>sp. rule_inv c fr bars sig start sp e (score_days c fr bars sig cash start e)"
proof -
  let ?P = "\<lambda>d s. scoring_ok cash d s \<and> (\<exists>sp. rule_inv c fr bars sig start sp d s)"
  have "?P e (score_days c fr bars sig cash start e)"
    using assms
  proof (induction rule: score_days_induct)
    case start show ?case using rule_inv_start scoring_ok_start by blast
  next
    case (day d s) then show ?case using rule_inv_day scoring_ok_day by blast
  qed
  then show ?thesis by blast
qed

section \<open>A whole run\<close>

text \<open>The result of a run over at least one day, and of an empty one.\<close>

lemma run_bars_Inr:
  assumes "run_bars c fr bars sig cash start e = Inr r"
  defines "a \<equiv> nat start" and "b \<equiv> nat (min (int (length bars)) e)"
  shows "rr_start r = int a" "nat (rr_end r) = b"
    and "a < b \<Longrightarrow> \<exists>s. s = finish_run c bars b (score_days c fr bars sig cash a b) \<and> rr_trades r = sc_trades s \<and>
      rr_equity r = sc_points s \<and> rr_days_long r = sc_long s \<and> rr_fees r = sc_fees s \<and> b \<le> length bars \<and> b \<le> Suc (length sig)"
    and "b \<le> a \<Longrightarrow> rr_trades r = [] \<and> rr_equity r = [cash] \<and> rr_days_long r = 0 \<and> rr_fees r = 0"
proof -
  let ?s = "max 0 start" and ?e = "min (int (length bars)) e"
  have a: "nat ?s = a" and a': "int a = ?s" and b: "nat ?e = b" unfolding a_def b_def by simp_all
  have less: "a < b \<longleftrightarrow> \<not> ?e \<le> ?s" unfolding a_def b_def by linarith
  note run = assms(1)[unfolded run_bars_def Let_def a b]
  let ?f = "finish_run c bars b (score_days c fr bars sig cash a b)"
  have empty: "r = \<lparr>rr_start = ?s, rr_end = ?e, rr_trades = [], rr_equity = [cash], rr_days_long = 0, rr_fees = 0\<rparr>"
    if "\<not> a < b"
  proof -
    have "?e \<le> ?s" using that less by blast
    with run show ?thesis by (simp only: if_True sum.inject)
  qed
  have full: "r = \<lparr>rr_start = ?s, rr_end = ?e, rr_trades = sc_trades ?f, rr_equity = sc_points ?f,
      rr_days_long = sc_long ?f, rr_fees = sc_fees ?f\<rparr> \<and> ?e - 1 \<le> int (length sig)" if "a < b"
  proof -
    have "\<not> ?e \<le> ?s" using that less by blast
    with run show ?thesis by (auto simp only: if_False split: if_splits)
  qed
  show "rr_start r = int a" "nat (rr_end r) = b" using empty full a' b by (cases "a < b"; simp)+
  show "b \<le> a \<Longrightarrow> rr_trades r = [] \<and> rr_equity r = [cash] \<and> rr_days_long r = 0 \<and> rr_fees r = 0"
    using empty by simp
  show "\<exists>s. s = ?f \<and> rr_trades r = sc_trades s \<and> rr_equity r = sc_points s \<and> rr_days_long r = sc_long s \<and>
      rr_fees r = sc_fees s \<and> b \<le> length bars \<and> b \<le> Suc (length sig)" if ab: "a < b"
  proof -
    have "b \<le> length bars" "b \<le> Suc (length sig)" using full [OF ab] b by linarith+
    then show ?thesis using full [OF ab] by simp
  qed
qed
definition last_span :: "costs \<Rightarrow> rat \<Rightarrow> day list \<Rightarrow> bool list \<Rightarrow> (nat \<times> nat) list \<Rightarrow> nat \<times> nat \<Rightarrow> trade \<Rightarrow> bool" where
  "last_span c fr bars sig sp p t \<longleftrightarrow>
     end_rule c fr bars sig p t \<and> (sp \<noteq> [] \<longrightarrow> off_between sig (snd (last sp)) (fst p))"

text \<open>The trades of a run: sales at an open, then at most one at the last close.\<close>

definition run_spans :: "costs \<Rightarrow> rat \<Rightarrow> day list \<Rightarrow> bool list \<Rightarrow> nat \<Rightarrow> nat \<Rightarrow> (nat \<times> nat) list \<Rightarrow> trade list \<Rightarrow> bool" where
  "run_spans c fr bars sig a b sp ts \<longleftrightarrow>
     (\<forall>p \<in> set sp. a \<le> fst p \<and> snd p \<le> b) \<and> (\<forall>k. a \<le> k \<longrightarrow> k < b \<longrightarrow> signal_before sig k \<longrightarrow> covered sig sp ts k) \<and>
     (spans_ok c fr bars sig sp ts \<or>
      (\<exists>sp' p ts' t. sp = sp' @ [p] \<and> ts = ts' @ [t] \<and> snd p = b \<and> spans_ok c fr bars sig sp' ts' \<and>
         last_span c fr bars sig sp' p t))"

lemma run_spans_finish:
  assumes "rule_inv c fr bars sig a sp b s" "scoring_ok cash b s" "a < b"
  shows "\<exists>sp'. run_spans c fr bars sig a b sp' (sc_trades (finish_run c bars b s))"
proof (cases "sc_trade s")
  case None
  then show ?thesis using assms(1)
    by (auto simp: rule_inv_def run_spans_def finish_run_def less_imp_le intro!: exI [of _ sp])
next
  case (Some t)
  note inv = assms(1)[unfolded rule_inv_def Some option.case]
  obtain t' where t': "sc_trades (finish_run c bars b s) = sc_trades s @ [t']"
      "tr_reason t' = (if mc_pending (sc_machine s) then REASON_STOP else REASON_END)"
      "tr_exit_ts t' = dy_ts (bars ! (b - 1))" "tr_exit_price t' = dy_close (bars ! (b - 1)) * (1 - ct_slip c)"
      "tr_days t' = b - 1 - sc_entry s + 1" "tr_entry_ts t' = tr_entry_ts t" "tr_entry_price t' = tr_entry_price t"
    using Some by (cases "mc_pending (sc_machine s)") (simp_all add: finish_run_def close_trade_def sell_fill_def Let_def)
  have "sc_entry s < b" using inv by (simp add: held_def)
  then have "end_rule c fr bars sig (sc_entry s, b) t'" using inv t' by (auto simp: end_rule_def entered_def)
  moreover have "length sp = length (sc_trades s)" using inv spans_length by blast
  ultimately show ?thesis
    using inv t'(1) assms(3)
    by (intro exI [of _ "sp @ [(sc_entry s, b)]"]) (auto simp: run_spans_def last_span_def covered_append)
qed

lemma run_bars_spans:
  assumes "run_bars c fr bars sig cash start e = Inr r"
  shows "\<exists>sp. run_spans c fr bars sig (nat start) (nat (min (int (length bars)) e)) sp (rr_trades r)"
proof -
  let ?a = "nat start" and ?b = "nat (min (int (length bars)) e)"
  note r = run_bars_Inr [OF assms]
  show ?thesis
  proof (cases "?a < ?b")
    case True
    obtain sp where "rule_inv c fr bars sig ?a sp ?b (score_days c fr bars sig cash ?a ?b)"
      using rule_inv_days [of ?a ?b] True by (meson less_imp_le)
    then obtain sp' where "run_spans c fr bars sig ?a ?b sp' (sc_trades (finish_run c bars ?b (score_days c fr bars sig cash ?a ?b)))"
      using run_spans_finish [OF _ scoring_ok_days True] True by (meson less_imp_le)
    then show ?thesis using r(3) [OF True] by auto
  next
    case False
    then have "?b \<le> ?a" by (rule leI)
    then have "rr_trades r = []" using r(4) by blast
    with False show ?thesis using False by (auto simp: run_spans_def spans_ok_def intro!: exI [of _ "[]"])
  qed
qed

section \<open>The equity of a run\<close>

lemma run_equity:
  assumes "run_bars c fr bars sig cash start e = Inr r"
  defines "a \<equiv> nat start" and "b \<equiv> nat (min (int (length bars)) e)"
  shows "length (rr_equity r) = Suc (b - a)" "last (rr_equity r) = cash + (\<Sum>t \<leftarrow> rr_trades r. trade_pnl t)"
    "rr_fees r = (\<Sum>t \<leftarrow> rr_trades r. tr_entry_fee t + tr_exit_fee t)" "rr_days_long r = (\<Sum>t \<leftarrow> rr_trades r. tr_days t)"
proof -
  note run = run_bars_Inr [OF assms(1), folded a_def b_def]
  have "length (rr_equity r) = Suc (b - a) \<and> last (rr_equity r) = cash + (\<Sum>t \<leftarrow> rr_trades r. trade_pnl t) \<and>
      rr_fees r = (\<Sum>t \<leftarrow> rr_trades r. tr_entry_fee t + tr_exit_fee t) \<and> rr_days_long r = (\<Sum>t \<leftarrow> rr_trades r. tr_days t)"
  proof (cases "a < b")
    case True
    let ?s = "score_days c fr bars sig cash a b"
    let ?f = "finish_run c bars b ?s"
    have r: "rr_trades r = sc_trades ?f" "rr_equity r = sc_points ?f" "rr_days_long r = sc_long ?f" "rr_fees r = sc_fees ?f"
      using run(3) [OF True] by auto
    have ok: "scoring_ok cash b ?s" using True by (intro scoring_ok_days) simp
    have len: "length (sc_points ?s) = Suc (b - a)" by (rule length_points)
    then have ne: "sc_points ?s \<noteq> []" by auto
    note g = finish_run_grows [OF refl ne, of c bars b]
    note book = finish_run_book [OF ok _ refl, of c bars]
    have "last (sc_points ?f) = sc_cash ?f"
      using last_point [OF True, of c fr bars sig cash] ok ne
      by (auto simp: finish_run_def Let_def scoring_ok_def split: option.splits)
    then show ?thesis using r book True g len by simp
  next
    case False
    then show ?thesis using run(4) by simp
  qed
  then show "length (rr_equity r) = Suc (b - a)" "last (rr_equity r) = cash + (\<Sum>t \<leftarrow> rr_trades r. trade_pnl t)"
    "rr_fees r = (\<Sum>t \<leftarrow> rr_trades r. tr_entry_fee t + tr_exit_fee t)" "rr_days_long r = (\<Sum>t \<leftarrow> rr_trades r. tr_days t)"
    by blast+
qed

lemma run_starts_with_cash:
  assumes "run_bars c fr bars sig cash start e = Inr r"
  shows "rr_equity r \<noteq> [] \<and> hd (rr_equity r) = cash"
proof -
  define a where "a = nat start"
  define b where "b = nat (min (int (length bars)) e)"
  note run = run_bars_Inr [OF assms, folded a_def b_def]
  show ?thesis
  proof (cases "a < b")
    case True
    let ?s = "score_days c fr bars sig cash a b"
    let ?f = "finish_run c bars b ?s"
    have ok: "scoring_ok cash b ?s" using True by (intro scoring_ok_days) simp
    have len: "length (sc_points ?s) = Suc (b - a)" by (rule length_points)
    then have ne: "sc_points ?s \<noteq> []" by auto
    have g: "butlast (sc_points ?f) = butlast (sc_points ?s)" "length (sc_points ?f) = length (sc_points ?s)"
      using finish_run_grows [OF refl ne, of c bars b] by blast+
    obtain x y zs where s: "sc_points ?s = x # y # zs"
      using len True by (cases "sc_points ?s"; cases "tl (sc_points ?s)") auto
    obtain x' y' zs' where f: "sc_points ?f = x' # y' # zs'"
      using g(2) s by (cases "sc_points ?f"; cases "tl (sc_points ?f)") auto
    have "x' = x" using g(1) s f by simp
    moreover have "x = cash" using ok s by (simp add: scoring_ok_def)
    ultimately show ?thesis using run(3) [OF True] f by auto
  next
    case False
    then show ?thesis using run(4) by simp
  qed
qed

text \<open>What a book earned is the profit of its trades.\<close>

lemma run_gain:
  assumes "run_bars c fr bars sig cash start e = Inr r"
  shows "last (rr_equity r) - hd (rr_equity r) = (\<Sum>t \<leftarrow> rr_trades r. trade_pnl t)"
  using run_equity(2) [OF assms] run_starts_with_cash [OF assms] by simp

end
