(* ===== verification/LiveFacts.thy ===== *)
theory LiveFacts
  imports Live EngineRules
begin

text \<open>
  The live account follows the backtest: on every open of a day the live run makes the trade of
  \<open>run\<close>, at the same price, quantity and fees, and a run inside the day changes no position.
\<close>

section \<open>A buy and a sale\<close>

definition paper_costs :: "broker \<Rightarrow> bool" where
  "paper_costs b \<longleftrightarrow> br_fee b = TAKER_FEE \<and> br_slip b = SLIPPAGE"

lemma base_costs_sel [simp]: "ct_fee BASE_COSTS = TAKER_FEE" "ct_slip BASE_COSTS = SLIPPAGE"
  by (simp_all add: BASE_COSTS_def)

lemma base_costs_ok [simp]: "costs_ok BASE_COSTS"
  by (simp add: costs_ok_def TAKER_FEE_def SLIPPAGE_def)

lemma broker_costs_base: "paper_costs b \<Longrightarrow> broker_costs b = BASE_COSTS"
  by (simp add: broker_costs_def paper_costs_def BASE_COSTS_def)

definition lot_bought :: "string \<Rightarrow> rat \<Rightarrow> rat \<Rightarrow> rat \<Rightarrow> rat \<Rightarrow> broker \<Rightarrow> lot" where
  "lot_bought cnd q fill fee st b =
     \<lparr>lt_id = br_next b, lt_ticker = SYMBOL, lt_qty = q, lt_entry = fill, lt_stop = st, lt_fee = fee, lt_cond = cnd\<rparr>"

definition stop_loss_of :: "rat option \<Rightarrow> rat" where
  "stop_loss_of st = (case st of None \<Rightarrow> 0 | Some s \<Rightarrow> s)"

lemma live_buy_fills:
  assumes "paper_costs (lb_broker bk)" "0 < br_cash (lb_broker bk)" "0 < price"
    and f: "buy_fill (br_cash (lb_broker bk)) price BASE_COSTS = (q, fill, fee)"
  shows "\<exists>fs. live_buy fr cnd price now bk =
     Inr (bk\<lparr>lb_broker := (lb_broker bk)\<lparr>br_lots := br_lots (lb_broker bk) @
                 [lot_bought cnd q fill fee (stop_loss_of (stop_price fill fr)) (lb_broker bk)],
               br_next := br_next (lb_broker bk) + 1, br_cash := br_cash (lb_broker bk) - (q * fill + fee), br_fills := fs\<rparr>,
             lb_ledger := ledger_open SYMBOL LIVE_TIMEFRAME cnd (1 / 2) fill q fee (Some (br_next (lb_broker bk))) now
               (lb_ledger bk)\<rparr>, Bought q fill (stop_price fill fr))"
proof -
  note a = buy_fill_all_in [OF base_costs_ok assms(2,3) f]
  have q: "\<not> q \<le> 0" using a(1) by simp
  have c: "br_slip (lb_broker bk) = ct_slip BASE_COSTS" "br_fee (lb_broker bk) = ct_fee BASE_COSTS"
    using assms(1) by (simp_all add: paper_costs_def)
  have fee: "fee = q * fill * ct_fee BASE_COSTS"
    using f assms(2) a(3,4) by (auto simp: buy_fill_def Let_def split: if_splits)
  show ?thesis
    using q f fee a(3)
    by (auto simp: live_buy_def place_order_def fill_price_def Let_def broker_costs_base [OF assms(1)] c lot_bought_def
        stop_loss_of_def mult.commute intro!: exI)
qed

lemma close_only_lot:
  assumes "br_lots b = [p]"
  shows "\<exists>fs. close_lot p price b =
     (let (fill, fee, got) = sell_fill (lt_qty p) price (broker_costs b)
      in Inr (b\<lparr>br_cash := br_cash b + got, br_lots := [], br_fills := fs\<rparr>,
              \<lparr>fl_ticker = lt_ticker p, fl_side = Sell, fl_qty = lt_qty p, fl_price = fill, fl_fee = fee\<rparr>))"
  using assms
  by (auto simp: close_lot_eq lots_for_def sell_fill_def broker_costs_def Let_def DUST_def intro!: exI)

lemma live_sell_fills:
  assumes "br_lots (lb_broker bk) = [p]" "lt_ticker p = SYMBOL"
    and f: "sell_fill (lt_qty p) price (broker_costs (lb_broker bk)) = (fill, fee, got)"
  shows "\<exists>fs pnl cl a. live_sell reason price now bk =
      Inr (bk\<lparr>lb_broker := (lb_broker bk)\<lparr>br_cash := br_cash (lb_broker bk) + got, br_lots := [], br_fills := fs\<rparr>,
              lb_ledger := book_close p cl (lb_ledger bk)\<rparr>, Some a) \<and>
     pnl = (fill - lt_entry p) * lt_qty p - fee - lt_fee p \<and>
     cl = \<lparr>cl_ts = now, cl_price = fill, cl_reason = reason, cl_fee = fee, cl_pnl = pnl,
           cl_pct = (if lt_entry p \<noteq> 0 then fill / lt_entry p - 1 else 0), cl_hit = (0 < pnl)\<rparr>"
proof -
  obtain fs where "close_lot p price (lb_broker bk) =
     Inr ((lb_broker bk)\<lparr>br_cash := br_cash (lb_broker bk) + got, br_lots := [], br_fills := fs\<rparr>,
          \<lparr>fl_ticker = lt_ticker p, fl_side = Sell, fl_qty = lt_qty p, fl_price = fill, fl_fee = fee\<rparr>)"
    using close_only_lot [OF assms(1), of price] f by auto
  then show ?thesis using assms(1,2) by (simp add: live_sell_def lots_for_def lot_pnl_def Let_def) blast
qed

section \<open>The relation\<close>

definition lot_of_trade :: "scoring \<Rightarrow> trade \<Rightarrow> lot \<Rightarrow> bool" where
  "lot_of_trade s t p \<longleftrightarrow>
     lt_ticker p = SYMBOL \<and> lt_qty p = sc_qty s \<and> lt_entry p = tr_entry_price t \<and> lt_fee p = tr_entry_fee t \<and>
     lt_stop p = stop_loss_of (sc_stop s)"

definition lots_match :: "scoring \<Rightarrow> lot list \<Rightarrow> bool" where
  "lots_match s ps \<longleftrightarrow> (case sc_trade s of None \<Rightarrow> ps = [] | Some t \<Rightarrow> (\<exists>p. ps = [p] \<and> lot_of_trade s t p))"

definition open_row_of :: "trade \<Rightarrow> ledger_row \<Rightarrow> bool" where
  "open_row_of t r \<longleftrightarrow>
     lg_exit r = None \<and> lg_symbol r = SYMBOL \<and> lg_entry r = tr_entry_price t \<and> lg_size r = tr_qty t \<and> lg_fee r = tr_entry_fee t"

text \<open>A row of the store against a trade of the backtest. Only the reason may differ.\<close>

definition row_of_trade :: "ledger_row \<Rightarrow> trade \<Rightarrow> bool" where
  "row_of_trade r t \<longleftrightarrow>
     (case lg_exit r of
        None \<Rightarrow> False
      | Some cl \<Rightarrow>
          lg_symbol r = SYMBOL \<and> lg_entry r = tr_entry_price t \<and> lg_size r = tr_qty t \<and> lg_fee r = tr_entry_fee t \<and>
          cl_price cl = tr_exit_price t \<and> cl_fee cl = tr_exit_fee t \<and> cl_pnl cl = trade_pnl t \<and>
          cl_pct cl = trade_pnl_pct t \<and>
          (cl_reason cl = tr_reason t \<or> cl_reason cl = REASON_SIGNAL \<and> tr_reason t = REASON_STOP))"

definition rows_match :: "scoring \<Rightarrow> ledger \<Rightarrow> bool" where
  "rows_match s ld \<longleftrightarrow>
     ledger_ok ld \<and>
     (\<exists>cs os. ld_rows ld = cs @ os \<and> list_all2 row_of_trade cs (sc_trades s) \<and>
        (case sc_trade s of None \<Rightarrow> os = [] | Some t \<Rightarrow> (\<exists>r. os = [r] \<and> open_row_of t r)))"

definition book_match :: "scoring \<Rightarrow> live_book \<Rightarrow> bool" where
  "book_match s bk \<longleftrightarrow>
     paper_costs (lb_broker bk) \<and> br_cash (lb_broker bk) = sc_cash s \<and> lots_match s (br_lots (lb_broker bk)) \<and>
     rows_match s (lb_ledger bk)"

definition live_rel :: "int option \<Rightarrow> scoring \<Rightarrow> live_book \<Rightarrow> bool" where
  "live_rel last_day s bk \<longleftrightarrow>
     book_match s bk \<and> lb_machine bk = sc_machine s \<and> me_last_day (lb_memo bk) = last_day \<and> \<not> me_defer (lb_memo bk)"

lemma match_upd [simp]:
  "rows_match (s\<lparr>sc_machine := m\<rparr>) ld = rows_match s ld" "lots_match (s\<lparr>sc_machine := m\<rparr>) ps = lots_match s ps"
  "book_match (s\<lparr>sc_machine := m\<rparr>) bk = book_match s bk"
  "book_match s (bk\<lparr>lb_machine := m\<rparr>) = book_match s bk" "book_match s (bk\<lparr>lb_memo := me\<rparr>) = book_match s bk"
  by (simp_all add: rows_match_def lots_match_def lot_of_trade_def book_match_def cong: option.case_cong)

lemma rows_matchI:
  "ledger_ok ld \<Longrightarrow> ld_rows ld = cs @ os \<Longrightarrow> list_all2 row_of_trade cs (sc_trades s) \<Longrightarrow>
   (case sc_trade s of None \<Rightarrow> os = [] | Some t \<Rightarrow> (\<exists>r. os = [r] \<and> open_row_of t r)) \<Longrightarrow> rows_match s ld"
  unfolding rows_match_def by blast

text \<open>Only the decision and equity tables of the store change.\<close>

lemma rows_match_rows: "rows_match s ld \<Longrightarrow> ld_rows ld' = ld_rows ld \<Longrightarrow> rows_match s ld'"
  by (simp add: rows_match_def ledger_ok_def)

lemma closed_not_open: "row_of_trade r t \<Longrightarrow> lg_exit r \<noteq> None"
  by (auto simp: row_of_trade_def split: option.splits)

lemma list_all2_closed: "list_all2 row_of_trade cs ts \<Longrightarrow> r \<in> set cs \<Longrightarrow> lg_exit r \<noteq> None"
  by (induction rule: list_all2_induct) (auto dest: closed_not_open)

lemma book_close_last:
  assumes "ledger_ok ld" "ld_rows ld = cs @ [r]" "list_all2 row_of_trade cs ts" "open_row_of t r" "lt_ticker p = SYMBOL"
  shows "ld_rows (book_close p cl ld) = cs @ [r\<lparr>lg_exit := Some cl\<rparr>]" "ledger_ok (book_close p cl ld)"
proof -
  have "filter (\<lambda>r. lg_exit r = None) cs = []" using list_all2_closed [OF assms(3)] by (auto simp: filter_empty_conv)
  then have o: "open_rows ld = [r]" using assms(2,4) by (simp add: open_rows_def open_row_of_def)
  have row: "row_of_lot p ld = Some (lg_id r)"
    using o assms(4,5) by (auto simp: row_of_lot_def open_row_of_def split: option.splits)
  have "distinct (map lg_id (cs @ [r]))" using ledger_ids_distinct [OF assms(1)] assms(2) by simp
  then have "\<forall>x \<in> set cs. lg_id x \<noteq> lg_id r" by (auto simp: image_iff)
  then have "map (\<lambda>x. if lg_id x = lg_id r then x\<lparr>lg_exit := Some cl\<rparr> else x) cs = cs" by (intro map_idI) auto
  then show "ld_rows (book_close p cl ld) = cs @ [r\<lparr>lg_exit := Some cl\<rparr>]"
    using row assms(2) by (simp add: book_close_def ledger_close_def)
  show "ledger_ok (book_close p cl ld)" using row assms(1) by (simp add: book_close_def ledger_close_ok)
qed

section \<open>The trades of a day\<close>

lemma rows_match_buy:
  assumes "rows_match s ld" "sc_trade s = None" "f = ledger_open SYMBOL tf cnd pr fill q fee i now ld"
    and "sc_trade s' = Some (open_trade ts fill q fee)" "sc_trades s' = sc_trades s"
  shows "rows_match s' f"
proof -
  from assms(1,2) obtain cs where "ld_rows ld = cs" "list_all2 row_of_trade cs (sc_trades s)" "ledger_ok ld"
    by (auto simp: rows_match_def)
  moreover obtain r where "ld_rows f = ld_rows ld @ [r]" "open_row_of (open_trade ts fill q fee) r"
    using assms(3) by (simp add: ledger_open_def open_row_of_def open_trade_def)
  ultimately show ?thesis
    using assms(3-5) by (intro rows_matchI [where cs = cs and os = "[r]"]) (simp_all add: ledger_open_ok)
qed

lemma book_match_buy:
  assumes "book_match s bk" "sc_trade s = None" "0 < sc_cash s" "0 < dy_open b"
  shows "\<exists>bk' q p st. live_buy fr cnd (dy_open b) now bk = Inr (bk', Bought q p st) \<and>
     book_match (enter_trade BASE_COSTS fr d b s) bk' \<and> lb_memo bk' = lb_memo bk \<and> lb_machine bk' = lb_machine bk"
proof -
  note m = assms(1)[unfolded book_match_def]
  obtain q fill fee where f: "buy_fill (sc_cash s) (dy_open b) BASE_COSTS = (q, fill, fee)"
    by (cases "buy_fill (sc_cash s) (dy_open b) BASE_COSTS")
  have cash: "br_cash (lb_broker bk) = sc_cash s" and pc: "paper_costs (lb_broker bk)" and rm: "rows_match s (lb_ledger bk)"
    and no: "br_lots (lb_broker bk) = []" using m assms(2) by (auto simp: lots_match_def)
  have "0 < br_cash (lb_broker bk)" "buy_fill (br_cash (lb_broker bk)) (dy_open b) BASE_COSTS = (q, fill, fee)"
    using assms(3) f cash by simp_all
  from live_buy_fills [OF pc this(1) assms(4) this(2), of fr cnd now]
  obtain fs where fs: "live_buy fr cnd (dy_open b) now bk =
     Inr (bk\<lparr>lb_broker := (lb_broker bk)\<lparr>br_lots := br_lots (lb_broker bk) @
                 [lot_bought cnd q fill fee (stop_loss_of (stop_price fill fr)) (lb_broker bk)],
               br_next := br_next (lb_broker bk) + 1, br_cash := br_cash (lb_broker bk) - (q * fill + fee), br_fills := fs\<rparr>,
             lb_ledger := ledger_open SYMBOL LIVE_TIMEFRAME cnd (1 / 2) fill q fee (Some (br_next (lb_broker bk))) now
               (lb_ledger bk)\<rparr>, Bought q fill (stop_price fill fr))" by blast
  let ?s = "enter_trade BASE_COSTS fr d b s"
  have s: "sc_trade ?s = Some (open_trade (dy_ts b) fill q fee)" "sc_trades ?s = sc_trades s"
    "sc_cash ?s = sc_cash s - (q * fill + fee)" "sc_qty ?s = q" "sc_stop ?s = stop_price fill fr"
    using f by (simp_all add: enter_trade_def)
  have "rows_match ?s (ledger_open SYMBOL LIVE_TIMEFRAME cnd (1 / 2) fill q fee (Some (br_next (lb_broker bk))) now (lb_ledger bk))"
    using rows_match_buy [OF rm assms(2) refl s(1,2)] .
  then show ?thesis
    using pc cash no s unfolding fs
    by (auto simp: book_match_def paper_costs_def lots_match_def lot_of_trade_def lot_bought_def open_trade_def)
qed

lemma book_match_sell:
  assumes "book_match s bk" "sc_trade s = Some t" "tr_qty t = sc_qty s"
    and r: "reason = r \<or> reason = REASON_SIGNAL \<and> r = REASON_STOP"
    and s': "s' = close_trade BASE_COSTS ts price r n s"
  shows "\<exists>bk' a. live_sell reason price now bk = Inr (bk', Some a) \<and>
     book_match s' bk' \<and> lb_memo bk' = lb_memo bk \<and> lb_machine bk' = lb_machine bk"
proof -
  note m = assms(1)[unfolded book_match_def]
  obtain p where p: "br_lots (lb_broker bk) = [p]" "lot_of_trade s t p" using m assms(2) by (auto simp: lots_match_def)
  have pt: "lt_ticker p = SYMBOL" "lt_qty p = tr_qty t" "lt_entry p = tr_entry_price t" "lt_fee p = tr_entry_fee t"
    using p(2) assms(3) by (auto simp: lot_of_trade_def)
  obtain fill fee got where f: "sell_fill (sc_qty s) price BASE_COSTS = (fill, fee, got)"
    by (cases "sell_fill (sc_qty s) price BASE_COSTS")
  then have "sell_fill (lt_qty p) price (broker_costs (lb_broker bk)) = (fill, fee, got)"
    using m pt assms(3) by (simp add: broker_costs_base)
  from live_sell_fills [OF p(1) pt(1) this, of reason now] obtain fs cl a where fs: "live_sell reason price now bk =
      Inr (bk\<lparr>lb_broker := (lb_broker bk)\<lparr>br_cash := br_cash (lb_broker bk) + got, br_lots := [], br_fills := fs\<rparr>,
              lb_ledger := book_close p cl (lb_ledger bk)\<rparr>, Some a)"
    and cl: "cl_price cl = fill" "cl_reason cl = reason" "cl_fee cl = fee"
      "cl_pnl cl = (fill - lt_entry p) * lt_qty p - fee - lt_fee p"
      "cl_pct cl = (if lt_entry p \<noteq> 0 then fill / lt_entry p - 1 else 0)" by fastforce
  let ?t = "t\<lparr>tr_exit_ts := ts, tr_exit_price := fill, tr_exit_fee := fee, tr_reason := r, tr_days := n\<rparr>"
  have s: "sc_trade s' = None" "sc_trades s' = sc_trades s @ [?t]" "sc_cash s' = sc_cash s + got"
    using f assms(2) s' by (simp_all add: close_trade_def)
  obtain cs row where rows: "ledger_ok (lb_ledger bk)" "ld_rows (lb_ledger bk) = cs @ [row]"
      "list_all2 row_of_trade cs (sc_trades s)" "open_row_of t row"
    using m assms(2) by (auto simp: rows_match_def)
  note bc = book_close_last [OF rows pt(1), of cl]
  have "row_of_trade (row\<lparr>lg_exit := Some cl\<rparr>) ?t"
    using rows(4) cl pt r by (auto simp: row_of_trade_def open_row_of_def trade_pnl_def trade_pnl_pct_def)
  then have "rows_match s' (book_close p cl (lb_ledger bk))"
    using bc rows(3) s by (intro rows_matchI [where cs = "cs @ [row\<lparr>lg_exit := Some cl\<rparr>]" and os = "[]"])
      (auto intro: list_all2_appendI)
  then show ?thesis using fs m s by (auto simp: book_match_def paper_costs_def lots_match_def)
qed

section \<open>The run at the open of a day\<close>

lemma book_match_close [simp]: "book_match (day_close b s) bk = book_match s bk"
  by (simp add: book_match_def day_close_def rows_match_def lots_match_def lot_of_trade_def Let_def cong: option.case_cong)

definition stop_reached :: "day \<Rightarrow> rat option \<Rightarrow> bool" where
  "stop_reached b st \<longleftrightarrow> (case st of None \<Rightarrow> False | Some p \<Rightarrow> dy_low b \<le> p)"

lemma stop_level_lot:
  assumes "book_match s bk" "sc_trade s \<noteq> None" "0 < dy_low b"
  shows "stop_reached b (stop_level (lb_broker bk)) \<longleftrightarrow> stop_reached b (sc_stop s)"
  using assms
  by (auto simp: book_match_def lots_match_def stop_level_def stop_reached_def lot_of_trade_def stop_loss_of_def
      split: option.splits if_splits)

text \<open>The replay of one day. A day that is not warm finds the book flat and its signal off.\<close>

lemma replay_one:
  assumes "\<not> mc_pending m" "\<not> ready ! i \<longrightarrow> \<not> signal ! i \<and> \<not> mc_long m \<and> \<not> mc_lockout m"
  shows "replay_day wl st bars signal ready i i \<lparr>rp_machine = m, rp_reason = None\<rparr> =
     (let m' = fst (signal_step m (signal ! i)) in
      if wl \<and> mc_long m' \<and> stop_reached (bars ! i) st
      then \<lparr>rp_machine = stop_out m', rp_reason = Some REASON_STOP\<rparr> else \<lparr>rp_machine = m', rp_reason = None\<rparr>)"
proof -
  have "(if ready ! i then fst (signal_step m (signal ! i)) else m) = fst (signal_step m (signal ! i))"
    using assms by (cases m) (auto simp: signal_step_def)
  then show ?thesis using assms(1) by (auto simp: replay_day_def Let_def stop_reached_def)
qed

text \<open>
  \<open>s1\<close> is the backtest after the close of day \<open>d\<close>; the book matches it and knows nothing of a stop that day \<open>d\<close>
  reached, which it finds itself.
\<close>

definition before_open :: "day \<Rightarrow> rat \<Rightarrow> nat \<Rightarrow> scoring \<Rightarrow> live_book \<Rightarrow> bool" where
  "before_open b cash n s1 bk \<longleftrightarrow>
     scoring_ok cash n s1 \<and> solvent s1 \<and> book_match s1 bk \<and> lb_machine bk = (sc_machine s1)\<lparr>mc_pending := False\<rparr> \<and>
     (mc_pending (sc_machine s1) \<longleftrightarrow> mc_long (sc_machine s1) \<and> stop_reached b (sc_stop s1)) \<and> 0 < dy_low b"

definition replayed :: "day \<Rightarrow> bool \<Rightarrow> live_book \<Rightarrow> replaying" where
  "replayed b on bk =
     (let m = lb_machine bk; m' = fst (signal_step m on) in
      if mc_long m \<and> mc_long m' \<and> stop_reached b (stop_level (lb_broker bk))
      then \<lparr>rp_machine = stop_out m', rp_reason = Some REASON_STOP\<rparr> else \<lparr>rp_machine = m', rp_reason = None\<rparr>)"

lemma act_hold:
  assumes "\<not> me_defer (lb_memo bk)" "mc_long (lb_machine bk) = was_long"
  shows "act lv cnd price now at_open was_long reason on bk = Inr (bk, [])"
  using assms by (cases was_long) (simp_all add: act_def Let_def)

lemma act_open:
  assumes "before_open b0 cash n s1 bk" "\<not> me_defer me" "0 < dy_open b"
  shows "\<exists>bk' as. act lv cnd (dy_open b) now at_open (mc_long (lb_machine bk)) (rp_reason (replayed b0 on bk)) sg
       (bk\<lparr>lb_memo := me, lb_machine := rp_machine (replayed b0 on bk)\<rparr>) = Inr (bk', as) \<and>
     (let s2 = day_open BASE_COSTS (lv_stop lv) n b on s1
      in book_match s2 bk' \<and> lb_machine bk' = sc_machine s2) \<and>
     me_last_day (lb_memo bk') = me_last_day me \<and> \<not> me_defer (lb_memo bk')"
proof -
  note pre = assms(1)[unfolded before_open_def]
  let ?m = "sc_machine s1" and ?rp = "replayed b0 on bk" and ?c = BASE_COSTS and ?fr = "lv_stop lv"
  have ok: "scoring_ok cash n s1" and sv: "solvent s1" and bm: "book_match s1 bk"
    and lm: "lb_machine bk = ?m\<lparr>mc_pending := False\<rparr>" using pre by auto
  have long: "mc_long ?m \<longleftrightarrow> sc_trade s1 \<noteq> None" using ok by (simp add: scoring_ok_def)
  have pend: "mc_pending ?m \<longleftrightarrow> mc_long ?m \<and> stop_reached b0 (stop_level (lb_broker bk))"
    using pre long stop_level_lot [OF bm] by blast
  let ?bk = "bk\<lparr>lb_memo := me, lb_machine := rp_machine ?rp\<rparr>"
  have bm': "book_match s1 ?bk" using bm by simp
  have sell: ?thesis if t: "sc_trade s1 = Some t" and nl: "\<not> mc_long (rp_machine ?rp)"
    and r: "(case rp_reason ?rp of None \<Rightarrow> REASON_SIGNAL | Some r \<Rightarrow> r) = r \<or>
       (case rp_reason ?rp of None \<Rightarrow> REASON_SIGNAL | Some r \<Rightarrow> r) = REASON_SIGNAL \<and> r = REASON_STOP"
    and eq: "day_open ?c ?fr n b on s1 = (close_trade ?c (dy_ts b) (dy_open b) r (n - sc_entry s1) s1)\<lparr>sc_machine := rp_machine ?rp\<rparr>"
    for t r
  proof -
    have q: "tr_qty t = sc_qty s1" using ok t by (simp add: scoring_ok_def)
    have lots: "br_lots (lb_broker bk) \<noteq> []" using bm t by (auto simp: book_match_def lots_match_def)
    have wl: "mc_long (lb_machine bk)" using lm long t by simp
    from book_match_sell [OF bm' t q r refl] obtain bk' a where
      "live_sell (case rp_reason ?rp of None \<Rightarrow> REASON_SIGNAL | Some r \<Rightarrow> r) (dy_open b) now ?bk = Inr (bk', Some a)"
      "book_match (close_trade ?c (dy_ts b) (dy_open b) r (n - sc_entry s1) s1) bk'" "lb_memo bk' = me"
      "lb_machine bk' = rp_machine ?rp" by fastforce
    then show ?thesis using wl nl lots eq assms(2) by (simp add: act_def Let_def)
  qed
  from ok show ?thesis
  proof (cases rule: day_open_cases [where c = ?c and fr = ?fr and b = b and on = on])
    case (stop_locked t)
    then have "?rp = \<lparr>rp_machine = stop_out ?m, rp_reason = Some REASON_STOP\<rparr>"
      using pend lm by (simp add: replayed_def engine_simps Let_def stop_out_def)
    then show ?thesis using stop_locked by (intro sell) auto
  next
    case (stop_armed t)
    then have "?rp = \<lparr>rp_machine = machine_start, rp_reason = None\<rparr>"
      using pend lm by (simp add: replayed_def engine_simps Let_def machine_start_def)
    then show ?thesis using stop_armed by (intro sell [where r = REASON_STOP]) auto
  next
    case (exit t)
    then have "?rp = \<lparr>rp_machine = machine_start, rp_reason = None\<rparr>"
      using long lm by (simp add: replayed_def engine_simps Let_def machine_start_def)
    then show ?thesis using exit by (intro sell [where r = REASON_SIGNAL]) auto
  next
    case (hold t)
    then have "?rp = \<lparr>rp_machine = ?m, rp_reason = None\<rparr>"
      using pend long lm by (simp add: replayed_def engine_simps Let_def)
    then show ?thesis using hold lm long bm assms(2) by (simp add: act_hold)
  next
    case enter
    then have rp: "?rp = \<lparr>rp_machine = machine_start\<lparr>mc_long := True\<rparr>, rp_reason = None\<rparr>"
      using long lm by (simp add: replayed_def engine_simps Let_def machine_start_def)
    have "0 < sc_cash s1" using sv long enter(1) by (simp add: solvent_def)
    from book_match_buy [OF bm' enter(1) this assms(3)] obtain bk' q p st where
      "live_buy ?fr cnd (dy_open b) now ?bk = Inr (bk', Bought q p st)" "book_match (enter_trade ?c ?fr n b s1) bk'"
      "lb_memo bk' = me" "lb_machine bk' = rp_machine ?rp" by fastforce
    then show ?thesis using rp enter lm long assms(2)
      by (simp add: act_def Let_def settle_buy_def clear_defer_def split_beta)
  next
    case locked
    then have "?rp = \<lparr>rp_machine = ?m, rp_reason = None\<rparr>" "\<not> mc_pending ?m"
      using pend long lm by (simp_all add: replayed_def engine_simps Let_def)
    then show ?thesis using locked lm long bm assms(2) by (simp add: act_hold)
  next
    case flat
    then have "?rp = \<lparr>rp_machine = machine_start, rp_reason = None\<rparr>"
      using pend long lm by (simp add: replayed_def engine_simps Let_def machine_start_def)
    then show ?thesis using flat lm long bm assms(2) by (simp add: act_hold)
  qed
qed

end
