(* ===== verification/Indicators.thy ===== *)
theory Indicators
  imports Bars
begin

text \<open>
  Daily indicators (\<open>library/indicators.py\<close>) over the price arrays of \<open>DailyBars\<close>. A value that is not
  defined yet (NaN) is \<open>None\<close>; prices are exact and never NaN. An operation that may yield a NaN in the
  middle of a series takes and returns optional values.
\<close>

named_theorems causal_intros \<open>operations whose value on a day reads no later day\<close>

type_synonym series = "rat option list"

section \<open>Array operations\<close>

definition nan :: "nat \<Rightarrow> series" where "nan n = replicate n None"

definition num2 :: "(rat \<Rightarrow> rat \<Rightarrow> rat) \<Rightarrow> rat option \<Rightarrow> rat option \<Rightarrow> rat option" where
  "num2 f a b = (case a of None \<Rightarrow> None | Some x \<Rightarrow> map_option (f x) b)"

text \<open>A loop over an array that writes one value per element.\<close>

primrec scan :: "('s \<Rightarrow> 'a \<Rightarrow> 's) \<Rightarrow> ('s \<Rightarrow> 'b) \<Rightarrow> 's \<Rightarrow> 'a list \<Rightarrow> 'b list" where
  "scan f g s [] = []"
| "scan f g s (x # xs) = g (f s x) # scan f g (f s x) xs"

text \<open>A loop that starts from a seed made of the first \<open>k\<close> elements and writes from index \<open>k - 1\<close> on.\<close>

definition seeded :: "nat \<Rightarrow> ('a list \<Rightarrow> 's) \<Rightarrow> ('s \<Rightarrow> 'a \<Rightarrow> 's) \<Rightarrow> ('s \<Rightarrow> rat option) \<Rightarrow> 'a list \<Rightarrow> series" where
  "seeded k seed f g xs =
     (if k = 0 \<or> length xs < k then nan (length xs)
      else let s = seed (take k xs) in nan (k - 1) @ g s # scan f g s (drop k xs))"

text \<open>\<open>sliding_window_view\<close>: a value per window of \<open>n\<close> elements, at the window's last index.\<close>

definition windowed :: "nat \<Rightarrow> ('a list \<Rightarrow> rat) \<Rightarrow> 'a list \<Rightarrow> series" where
  "windowed n g xs =
     (if n = 0 \<or> length xs < n then nan (length xs)
      else nan (n - 1) @ map (\<lambda>i. Some (g (take n (drop i xs)))) [0..<Suc (length xs - n)])"

definition mean :: "rat list \<Rightarrow> rat" where "mean xs = sum_list xs / of_nat (length xs)"

definition list_max :: "rat list \<Rightarrow> rat" where "list_max xs = foldr max (tl xs) (hd xs)"
definition list_min :: "rat list \<Rightarrow> rat" where "list_min xs = foldr min (tl xs) (hd xs)"

definition closes :: "day list \<Rightarrow> rat list" where "closes = map dy_close"
definition highs :: "day list \<Rightarrow> rat list" where "highs = map dy_high"
definition lows :: "day list \<Rightarrow> rat list" where "lows = map dy_low"

section \<open>Averages\<close>

primrec cumsum_from :: "rat \<Rightarrow> rat list \<Rightarrow> rat list" where
  "cumsum_from a [] = [a]"
| "cumsum_from a (x # xs) = a # cumsum_from (a + x) xs"

definition sma :: "nat \<Rightarrow> rat list \<Rightarrow> series" where
  "sma n xs =
     (if n = 0 \<or> length xs < n then nan (length xs)
      else let csum = cumsum_from 0 xs in
        nan (n - 1) @ map2 (\<lambda>a b. Some ((a - b) / of_nat n)) (drop n csum) (take (length csum - n) csum))"

definition ema_alpha :: "nat \<Rightarrow> rat" where "ema_alpha n = 2 / (of_nat n + 1)"

text \<open>Leading NaNs are skipped; a NaN after the first value makes the whole result NaN.\<close>

definition ema :: "nat \<Rightarrow> series \<Rightarrow> series" where
  "ema n xs =
     (let first = length (takeWhile (\<lambda>x. x = None) xs); rest = drop first xs in
      if n = 0 \<or> first = length xs then nan (length xs)
      else if length rest < n \<or> None \<in> set rest then nan (length xs)
      else nan first @ seeded n mean (\<lambda>v x. ema_alpha n * x + (1 - ema_alpha n) * v) Some (map the rest))"

definition wilder_step :: "nat \<Rightarrow> rat \<Rightarrow> rat \<Rightarrow> rat" where
  "wilder_step n v x = (v * (of_nat n - 1) + x) / of_nat n"

text \<open>Index 0 is not part of the seed.\<close>

definition wilder_smooth :: "nat \<Rightarrow> rat list \<Rightarrow> series" where
  "wilder_smooth n xs =
     (if n = 0 then nan (length xs) else seeded (Suc n) (\<lambda>ys. mean (tl ys)) (wilder_step n) Some xs)"

section \<open>Momentum\<close>

definition gain :: "rat \<Rightarrow> rat" where "gain d = (if 0 < d then d else 0)"
definition loss :: "rat \<Rightarrow> rat" where "loss d = (if d < 0 then - d else 0)"

definition np_diff :: "rat list \<Rightarrow> rat list" where "np_diff xs = map2 (\<lambda>a b. b - a) xs (tl xs)"

definition rsi_value :: "rat \<Rightarrow> rat \<Rightarrow> rat" where
  "rsi_value g lo = (if lo = 0 then (if g = 0 then 50 else 100) else 100 - 100 / (1 + g / lo))"

text \<open>The loop carries the previous value and the two averages.\<close>

definition rsi_wilder :: "nat \<Rightarrow> rat list \<Rightarrow> series" where
  "rsi_wilder n xs =
     (if n = 0 then nan (length xs)
      else seeded (Suc n)
        (\<lambda>ys. (last ys, mean (map gain (np_diff ys)), mean (map loss (np_diff ys))))
        (\<lambda>(p, g, l) x. (x, wilder_step n g (gain (x - p)), wilder_step n l (loss (x - p))))
        (\<lambda>(p, g, l). Some (rsi_value g l)) xs)"

text \<open>\<open>x[t] / x[t - k] - 1\<close>; prices are positive.\<close>

definition trailing_return :: "nat \<Rightarrow> rat list \<Rightarrow> series" where
  "trailing_return k xs =
     (if k = 0 \<or> length xs \<le> k then nan (length xs)
      else nan k @ map2 (\<lambda>a b. Some (a / b - 1)) (drop k xs) (take (length xs - k) xs))"

definition shift_previous :: "nat \<Rightarrow> rat list \<Rightarrow> series" where
  "shift_previous k xs =
     (if k = 0 \<or> length xs \<le> k then nan (length xs) else nan k @ map Some (take (length xs - k) xs))"

section \<open>Highs, lows and ranges\<close>

definition rolling_max :: "nat \<Rightarrow> rat list \<Rightarrow> series" where "rolling_max n = windowed n list_max"
definition rolling_min :: "nat \<Rightarrow> rat list \<Rightarrow> series" where "rolling_min n = windowed n list_min"

text \<open>The days before \<open>t\<close>, \<open>t\<close> excluded.\<close>

definition prior :: "(rat list \<Rightarrow> rat) \<Rightarrow> nat \<Rightarrow> rat list \<Rightarrow> series" where
  "prior g n xs =
     (if n = 0 \<or> length xs \<le> n then nan (length xs)
      else nan n @ take (length xs - n) (map (\<lambda>i. Some (g (take n (drop i xs)))) [0..<Suc (length xs - n)]))"

definition prior_max :: "nat \<Rightarrow> rat list \<Rightarrow> series" where "prior_max = prior list_max"
definition prior_min :: "nat \<Rightarrow> rat list \<Rightarrow> series" where "prior_min = prior list_min"

definition true_range_of :: "day \<Rightarrow> day \<Rightarrow> rat" where
  "true_range_of a b =
     max (dy_high b - dy_low b) (max \<bar>dy_high b - dy_close a\<bar> \<bar>dy_low b - dy_close a\<bar>)"

definition true_range :: "day list \<Rightarrow> rat list" where
  "true_range bars =
     (if bars = [] then [] else (dy_high (hd bars) - dy_low (hd bars)) # map2 true_range_of bars (tl bars))"

definition atr_wilder :: "nat \<Rightarrow> day list \<Rightarrow> series" where
  "atr_wilder n bars = wilder_smooth n (true_range bars)"

definition typical :: "day list \<Rightarrow> rat list" where
  "typical = map (\<lambda>b. (dy_high b + dy_low b + dy_close b) / 3)"

definition keltner_mid :: "nat \<Rightarrow> day list \<Rightarrow> series" where
  "keltner_mid n bars = ema n (map Some (typical bars))"

definition keltner :: "nat \<Rightarrow> nat \<Rightarrow> rat \<Rightarrow> day list \<Rightarrow> series \<times> series \<times> series" where
  "keltner ema_n atr_n width bars =
     (let mid = keltner_mid ema_n bars; band = map (map_option (\<lambda>v. width * v)) (atr_wilder atr_n bars)
      in (mid, map2 (num2 (-)) mid band, map2 (num2 (+)) mid band))"

definition williams_r :: "nat \<Rightarrow> day list \<Rightarrow> series" where
  "williams_r n bars =
     map2 (\<lambda>(hh, ll) c. case num2 (-) hh ll of
         None \<Rightarrow> None | Some spn \<Rightarrow> if 0 < spn then map_option (\<lambda>h. (h - c) / spn * -100) hh else None)
       (zip (rolling_max n (highs bars)) (rolling_min n (lows bars))) (closes bars)"

definition ibs :: "day list \<Rightarrow> series" where
  "ibs = map (\<lambda>b. if 0 < dy_high b - dy_low b then Some ((dy_close b - dy_low b) / (dy_high b - dy_low b)) else None)"

text \<open>The middle of the range of the last \<open>n\<close> days, and the cloud of the spans displaced by \<open>base\<close> days.\<close>

definition mid_range :: "nat \<Rightarrow> day list \<Rightarrow> series" where
  "mid_range n bars = map (map_option (\<lambda>v. v / 2)) (map2 (num2 (+)) (rolling_max n (highs bars)) (rolling_min n (lows bars)))"

definition displaced :: "nat \<Rightarrow> series \<Rightarrow> series" where
  "displaced k xs = (if k = 0 then xs else if k < length xs then nan k @ take (length xs - k) xs else nan (length xs))"

definition ichimoku_cloud_top :: "nat \<Rightarrow> nat \<Rightarrow> nat \<Rightarrow> day list \<Rightarrow> series" where
  "ichimoku_cloud_top cnv base spn bars =
     (let span_a = map (map_option (\<lambda>v. v / 2)) (map2 (num2 (+)) (mid_range cnv bars) (mid_range base bars));
          span_b = mid_range spn bars
      in map2 (num2 max) (displaced base span_a) (displaced base span_b))"

end
