(* ===== verification/IndicatorFacts.thy ===== *)
theory IndicatorFacts
  imports Indicators
begin

text \<open>
  Facts of the indicators: the value on a day reads no later day, the index from which a series is
  defined, and the running sums of \<open>sma\<close> against the mean of each window.
\<close>

section \<open>Operations that read no later element\<close>

locale causal =
  fixes f :: "'a list \<Rightarrow> 'b list"
  assumes length_eq: "length (f xs) = length xs"
    and take_eq: "f (take n xs) = take n (f xs)"
begin

lemma prefix_eq: "f (xs @ ys) = f xs @ drop (length xs) (f (xs @ ys))"
  using take_eq [of "length xs" "xs @ ys"] by (simp add: eq_commute)

lemma nth_take_eq: "t < n \<Longrightarrow> f (take n xs) ! t = f xs ! t"
  by (simp add: take_eq)

lemma agree: "take (Suc t) xs = take (Suc t) ys \<Longrightarrow> f xs ! t = f ys ! t"
  by (metis lessI nth_take_eq)

end

text \<open>An operation is causal when each value is a function of the prefix that ends there.\<close>

lemma causalI:
  assumes "\<And>xs. length (f xs) = length xs" "\<And>xs t. t < length xs \<Longrightarrow> f xs ! t = g (take (Suc t) xs)"
  shows "causal f"
proof
  show "length (f xs) = length xs" for xs by (rule assms)
  show "f (take n xs) = take n (f xs)" for n xs
  proof (rule nth_equalityI)
    fix i assume "i < length (f (take n xs))"
    then have "i < n" "i < length xs" by (auto simp: assms(1))
    then show "f (take n xs) ! i = take n (f xs) ! i" by (simp add: assms(2) min_def)
  qed (simp add: assms(1))
qed

lemma causalD: "causal f \<Longrightarrow> length (f xs) = length xs" "causal f \<Longrightarrow> f (take n xs) = take n (f xs)"
  by (simp_all add: causal.length_eq causal.take_eq)

lemma causal_id [causal_intros]: "causal (\<lambda>xs. xs)"
  by unfold_locales auto

lemma causal_map [causal_intros]: "causal f \<Longrightarrow> causal (\<lambda>xs. map h (f xs))"
  by unfold_locales (auto simp: causalD take_map)

lemma causal_zip [causal_intros]: "causal f \<Longrightarrow> causal g \<Longrightarrow> causal (\<lambda>xs. zip (f xs) (g xs))"
  by unfold_locales (auto simp: causalD take_zip)

lemma causal_map2 [causal_intros]: "causal f \<Longrightarrow> causal g \<Longrightarrow> causal (\<lambda>xs. map2 h (f xs) (g xs))"
  by (intro causal_map causal_zip)

lemma causal_comp: "causal g \<Longrightarrow> causal f \<Longrightarrow> causal (\<lambda>xs. g (f xs))"
  by unfold_locales (auto simp: causalD)

lemma length_scan [simp]: "length (scan f g s xs) = length xs"
  by (induction xs arbitrary: s) auto

lemma scan_nth: "t < length xs \<Longrightarrow> scan f g s xs ! t = g (fold (\<lambda>x s. f s x) (take (Suc t) xs) s)"
  by (induction xs arbitrary: s t) (auto simp: nth_Cons split: nat.split)

lemma causal_scan: "causal (scan f g s)"
  by (rule causalI [where g = "\<lambda>p. g (fold (\<lambda>x s. f s x) p s)"]) (auto simp: scan_nth)

lemmas causal_scanned [causal_intros] = causal_comp [OF causal_scan]

section \<open>Series\<close>

lemma length_nan [simp]: "length (nan n) = n"
  by (simp add: nan_def)

lemma nth_nan [simp]: "i < n \<Longrightarrow> nan n ! i = None"
  by (simp add: nan_def)

lemma num2_None [simp]: "num2 f a b = None \<longleftrightarrow> a = None \<or> b = None"
  by (auto simp: num2_def split: option.splits)

lemma length_windowed [simp]: "length (windowed n g xs) = length xs"
  by (auto simp: windowed_def)

lemma windowed_nth:
  assumes "t < length xs"
  shows "windowed n g xs ! t = (if n = 0 \<or> Suc t < n then None else Some (g (take n (drop (Suc t - n) xs))))"
proof (cases "n = 0 \<or> length xs < n \<or> Suc t < n")
  case True
  then show ?thesis using assms by (auto simp: windowed_def nth_append)
next
  case False
  then have "t - (n - 1) = Suc t - n" "t - (n - 1) < Suc (length xs - n)" "\<not> t < n - 1" using assms by auto
  then show ?thesis using False by (simp add: windowed_def nth_append del: upt_Suc)
qed

lemma length_seeded [simp]: "length (seeded k seed f g xs) = length xs"
  by (auto simp: seeded_def Let_def)

lemma seeded_nth:
  assumes "t < length xs"
  shows "seeded k seed f g xs ! t =
    (if k = 0 \<or> Suc t < k then None else g (fold (\<lambda>x s. f s x) (drop k (take (Suc t) xs)) (seed (take k (take (Suc t) xs)))))"
proof (cases "k = 0 \<or> length xs < k \<or> Suc t < k")
  case True
  then show ?thesis using assms by (auto simp: seeded_def nth_append Let_def)
next
  case False
  let ?s = "seed (take k xs)"
  have eq: "seeded k seed f g xs = nan (k - 1) @ g ?s # scan f g ?s (drop k xs)" using False by (simp add: seeded_def Let_def)
  have sd: "take k (take (Suc t) xs) = take k xs" using False by (simp add: min_def)
  show ?thesis
  proof (cases "Suc t = k")
    case True
    then have "t = k - 1" by simp
    then show ?thesis using False eq sd by (simp add: nth_append)
  next
    case neq: False
    then have t: "\<not> t < k - 1" "t - (k - 1) = Suc (t - k)" "t - k < length (drop k xs)" using False assms by auto
    have "take (Suc (t - k)) (drop k xs) = drop k (take (Suc t) xs)" using False neq by (simp add: take_drop Suc_diff_le)
    then show ?thesis unfolding eq using False t sd by (simp add: nth_append scan_nth)
  qed
qed

lemma causal_windowed: "causal (windowed n g)"
proof (rule causalI [where g = "\<lambda>p. if n = 0 \<or> length p < n then None else Some (g (take n (drop (length p - n) p)))"])
  fix xs :: "'a list" and t
  assume t: "t < length xs"
  then have len: "length (take (Suc t) xs) = Suc t" by simp
  have "take n (drop (Suc t - n) (take (Suc t) xs)) = take n (drop (Suc t - n) xs)" if "n \<le> Suc t"
    using that by (simp add: drop_take)
  then show "windowed n g xs ! t =
      (if n = 0 \<or> length (take (Suc t) xs) < n then None
       else Some (g (take n (drop (length (take (Suc t) xs) - n) (take (Suc t) xs)))))"
    unfolding len windowed_nth [OF t] by auto
qed simp

lemma causal_seeded: "causal (seeded k seed f g)"
proof (rule causalI [where g = "\<lambda>p. if k = 0 \<or> length p < k then None
    else g (fold (\<lambda>x s. f s x) (drop k p) (seed (take k p)))"])
  show "length (seeded k seed f g xs) = length xs" for xs by simp
  fix xs :: "'a list" and t
  assume t: "t < length xs"
  then have "length (take (Suc t) xs) = Suc t" by simp
  then show "seeded k seed f g xs ! t = (if k = 0 \<or> length (take (Suc t) xs) < k then None
      else g (fold (\<lambda>x s. f s x) (drop k (take (Suc t) xs)) (seed (take k (take (Suc t) xs)))))"
    unfolding seeded_nth [OF t] by simp
qed

text \<open>A series that is defined exactly from index \<open>k\<close> on.\<close>

definition from_index :: "nat \<Rightarrow> 'a option list \<Rightarrow> bool" where
  "from_index k xs \<longleftrightarrow> (\<forall>i < length xs. xs ! i \<noteq> None \<longleftrightarrow> k \<le> i)"

lemma from_indexD: "from_index k xs \<Longrightarrow> i < length xs \<Longrightarrow> xs ! i \<noteq> None \<longleftrightarrow> k \<le> i"
  by (simp add: from_index_def)

lemma from_windowed: "0 < n \<Longrightarrow> from_index (n - 1) (windowed n g xs)"
  by (auto simp: from_index_def windowed_nth)

lemma from_seeded: "0 < k \<Longrightarrow> (\<And>s. g s \<noteq> None) \<Longrightarrow> from_index (k - 1) (seeded k seed f g xs)"
  by (auto simp: from_index_def seeded_nth)

lemma from_some: "from_index 0 (map Some xs)"
  by (simp add: from_index_def)

lemma from_map2:
  "from_index j xs \<Longrightarrow> from_index k ys \<Longrightarrow> length xs = length ys \<Longrightarrow> from_index (max j k) (map2 (num2 f) xs ys)"
  by (auto simp: from_index_def)

lemma from_map: "from_index k xs \<Longrightarrow> from_index k (map (map_option h) xs)"
  by (simp add: from_index_def)

section \<open>The simple moving average\<close>

lemma length_cumsum [simp]: "length (cumsum_from a xs) = Suc (length xs)"
  by (induction xs arbitrary: a) auto

lemma cumsum_nth: "i \<le> length xs \<Longrightarrow> cumsum_from a xs ! i = a + sum_list (take i xs)"
  by (induction xs arbitrary: a i) (auto simp: nth_Cons add.assoc split: nat.split)

text \<open>The difference of two running sums is the sum of the window.\<close>

lemma cumsum_window:
  assumes "i + n \<le> length xs"
  shows "cumsum_from 0 xs ! (i + n) - cumsum_from 0 xs ! i = sum_list (take n (drop i xs))"
  using assms by (simp add: cumsum_nth take_add)

lemma sma_windowed: "sma n xs = windowed n (\<lambda>w. sum_list w / of_nat n) xs"
proof (cases "n = 0 \<or> length xs < n")
  case True then show ?thesis by (auto simp: sma_def windowed_def)
next
  case False
  have "map2 (\<lambda>a b. Some ((a - b) / of_nat n)) (drop n (cumsum_from 0 xs))
      (take (length (cumsum_from 0 xs) - n) (cumsum_from 0 xs)) =
    map (\<lambda>i. Some (sum_list (take n (drop i xs)) / of_nat n)) [0..<Suc (length xs - n)]" (is "?l = ?r")
  proof (rule nth_equalityI)
    show "length ?l = length ?r" using False by auto
    fix i assume "i < length ?l"
    then have "i + n \<le> length xs" "i < Suc (length xs - n)" using False by auto
    then show "?l ! i = ?r ! i"
      using cumsum_window [of i n xs] by (simp add: add.commute del: upt_Suc)
  qed
  then show ?thesis using False by (simp add: sma_def windowed_def Let_def)
qed

lemma length_sma [simp]: "length (sma n xs) = length xs"
  by (simp add: sma_windowed)

section \<open>Each indicator\<close>

interpretation sma: causal "sma n"
  unfolding sma_windowed [abs_def] by (rule causal_windowed)

interpretation rolling_max: causal "rolling_max n" unfolding rolling_max_def by (rule causal_windowed)
interpretation rolling_min: causal "rolling_min n" unfolding rolling_min_def by (rule causal_windowed)

lemma wilder_smooth_seeded:
  "wilder_smooth n = (if n = 0 then (\<lambda>xs. nan (length xs)) else seeded (Suc n) (\<lambda>ys. mean (tl ys)) (wilder_step n) Some)"
  by (simp add: wilder_smooth_def fun_eq_iff)

lemma causal_nan: "causal (\<lambda>xs. nan (length xs))"
  by unfold_locales (auto simp: nan_def min_def)

interpretation wilder_smooth: causal "wilder_smooth n"
  unfolding wilder_smooth_seeded by (simp add: causal_seeded causal_nan)

interpretation rsi_wilder: causal "rsi_wilder n"
  unfolding rsi_wilder_def [abs_def] by (cases "n = 0") (simp_all add: causal_seeded causal_nan)

text \<open>A series shifted forward.\<close>

lemma causal_shifted:
  assumes "\<And>xs. f xs = (if k = 0 \<or> length xs \<le> k then nan (length xs) else nan k @ h xs)"
    and "\<And>xs. k < length xs \<Longrightarrow> length (h xs) = length xs - k"
    and "\<And>xs i. k < length xs \<Longrightarrow> i < length xs - k \<Longrightarrow> h xs ! i = g (take (Suc (i + k)) xs)"
  shows "causal f"
proof (rule causalI [where g = "\<lambda>p. if k = 0 \<or> length p \<le> k then None else g p"])
  show "length (f xs) = length xs" for xs using assms(1,2) by auto
  show "f xs ! t = (if k = 0 \<or> length (take (Suc t) xs) \<le> k then None else g (take (Suc t) xs))" if "t < length xs" for xs t
  proof (cases "k = 0 \<or> t < k")
    case True then show ?thesis using that by (auto simp: assms(1) nth_append)
  next
    case False
    then have "t - k < length xs - k" "Suc (t - k + k) = Suc t" "k < length xs" using that by auto
    then show ?thesis using False that assms(3) [of xs "t - k"] by (simp add: assms(1) nth_append)
  qed
qed

interpretation trailing_return: causal "trailing_return k"
  by (rule causal_shifted [where k = k and g = "\<lambda>p. Some (p ! (length p - 1) / p ! (length p - Suc k) - 1)"
        and h = "\<lambda>xs. map2 (\<lambda>a b. Some (a / b - 1)) (drop k xs) (take (length xs - k) xs)"])
    (auto simp: trailing_return_def add.commute)

interpretation shift_previous: causal "shift_previous k"
  by (rule causal_shifted [where k = k and g = "\<lambda>p. Some (p ! (length p - Suc k))"
        and h = "\<lambda>xs. map Some (take (length xs - k) xs)"])
    (auto simp: shift_previous_def)

lemma causal_prior: "causal (prior h n)"
proof (rule causal_shifted [where k = n and g = "\<lambda>p. Some (h (take n (drop (length p - Suc n) p)))"
      and h = "\<lambda>xs. take (length xs - n) (map (\<lambda>i. Some (h (take n (drop i xs)))) [0..<Suc (length xs - n)])"])
  fix xs :: "rat list" and i
  assume i: "n < length xs" "i < length xs - n"
  then have len: "length (take (Suc (i + n)) xs) = Suc (i + n)" by simp
  have "take n (drop i (take (Suc (i + n)) xs)) = take n (drop i xs)" by (simp add: drop_take)
  then show "take (length xs - n) (map (\<lambda>i. Some (h (take n (drop i xs)))) [0..<Suc (length xs - n)]) ! i =
      Some (h (take n (drop (length (take (Suc (i + n)) xs) - Suc n) (take (Suc (i + n)) xs))))"
    unfolding len using i by (simp del: upt_Suc)
qed (auto simp: prior_def simp del: upt_Suc)

interpretation prior_max: causal "prior_max n" unfolding prior_max_def by (rule causal_prior)
interpretation prior_min: causal "prior_min n" unfolding prior_min_def by (rule causal_prior)

end
