(* ===== verification/Signals.thy ===== *)
theory Signals
  imports IndicatorFacts Catalog
begin

text \<open>
  Signals of the library (\<open>library/catalog.py\<close>) and the mask of the days on which every input of a
  signal is defined. \<open>library_signal\<close> and \<open>signal_ready\<close> give them for the strategies modelled here.
\<close>

section \<open>Signals\<close>

definition finite_gt :: "series \<Rightarrow> series \<Rightarrow> bool list" where
  "finite_gt = map2 (\<lambda>a b. case a of None \<Rightarrow> False | Some x \<Rightarrow> (case b of None \<Rightarrow> False | Some y \<Rightarrow> y < x))"

definition close_series :: "day list \<Rightarrow> series" where "close_series bars = map Some (closes bars)"

definition sma_cross :: "nat \<Rightarrow> nat \<Rightarrow> day list \<Rightarrow> bool list" where
  "sma_cross short_n long_n bars =
     finite_gt (if short_n = 1 then close_series bars else sma short_n (closes bars)) (sma long_n (closes bars))"

definition price_sma :: "nat \<Rightarrow> day list \<Rightarrow> bool list" where
  "price_sma n bars = finite_gt (close_series bars) (sma n (closes bars))"

definition ema_cross :: "nat \<Rightarrow> nat \<Rightarrow> day list \<Rightarrow> bool list" where
  "ema_cross fast slow bars = finite_gt (ema fast (close_series bars)) (ema slow (close_series bars))"

definition macd_line :: "nat \<Rightarrow> nat \<Rightarrow> day list \<Rightarrow> series" where
  "macd_line fast slow bars = map2 (num2 (-)) (ema fast (close_series bars)) (ema slow (close_series bars))"

definition macd :: "nat \<Rightarrow> nat \<Rightarrow> nat \<Rightarrow> day list \<Rightarrow> bool list" where
  "macd fast slow sg bars = finite_gt (macd_line fast slow bars) (ema sg (macd_line fast slow bars))"

text \<open>The loop carries the days still to hold and the value just written.\<close>

definition bll_trb :: "nat \<Rightarrow> nat \<Rightarrow> day list \<Rightarrow> bool list" where
  "bll_trb n hold bars =
     scan (\<lambda>(left, out) b. if left > 0 then (left - 1, True) else if b then (hold - 1, True) else (left, False)) snd
       (0::nat, False) (finite_gt (close_series bars) (prior_max n (closes bars)))"

definition turtle_step :: "bool \<Rightarrow> rat \<times> rat option \<times> rat option \<Rightarrow> bool" where
  "turtle_step long x =
     (let (c, up, lo) = x in
      if \<not> long then (case up of None \<Rightarrow> False | Some u \<Rightarrow> u < c)
      else (case lo of None \<Rightarrow> True | Some l \<Rightarrow> \<not> c < l))"

definition turtle :: "nat \<Rightarrow> nat \<Rightarrow> day list \<Rightarrow> bool list" where
  "turtle entry ext bars =
     scan turtle_step (\<lambda>s. s) False
       (zip (closes bars) (zip (prior_max entry (highs bars)) (prior_min ext (lows bars))))"

definition donchian20 :: "nat \<Rightarrow> day list \<Rightarrow> bool list" where "donchian20 n bars = turtle n n bars"

definition rsi2_step :: "rat \<Rightarrow> bool \<Rightarrow> rat \<times> rat option \<times> rat option \<times> rat option \<Rightarrow> bool" where
  "rsi2_step thr long x =
     (let (c, trend, rsi, exit_ma) = x in
      if \<not> long
      then (case trend of None \<Rightarrow> False | Some t \<Rightarrow> (case rsi of None \<Rightarrow> False | Some r \<Rightarrow> t < c \<and> r < thr))
      else (case exit_ma of None \<Rightarrow> True | Some m \<Rightarrow> \<not> m < c))"

definition rsi2 :: "rat \<Rightarrow> nat \<Rightarrow> nat \<Rightarrow> day list \<Rightarrow> bool list" where
  "rsi2 thr trend exit_ma bars =
     scan (rsi2_step thr) (\<lambda>s. s) False
       (zip (closes bars) (zip (sma trend (closes bars)) (zip (rsi_wilder 2 (closes bars)) (sma exit_ma (closes bars)))))"

text \<open>A bar where both are true enters and does not exit.\<close>

definition stateful_step :: "bool \<Rightarrow> bool \<times> bool \<Rightarrow> bool" where
  "stateful_step long x = (if \<not> long then fst x else \<not> snd x)"

definition stateful :: "bool list \<Rightarrow> bool list \<Rightarrow> bool list" where
  "stateful enter leave = scan stateful_step (\<lambda>s. s) False (zip enter leave)"

definition keltner_break :: "nat \<Rightarrow> nat \<Rightarrow> rat \<Rightarrow> day list \<Rightarrow> bool list" where
  "keltner_break ema_n atr_n width bars =
     (let (mid, lower, upper) = keltner ema_n atr_n width bars
      in stateful (finite_gt (close_series bars) upper) (finite_gt mid (close_series bars)))"

definition keltner_revert :: "nat \<Rightarrow> nat \<Rightarrow> rat \<Rightarrow> day list \<Rightarrow> bool list" where
  "keltner_revert ema_n atr_n width bars =
     (let (mid, lower, upper) = keltner ema_n atr_n width bars
      in stateful (finite_gt lower (close_series bars))
           (map2 (\<lambda>m c. case m of None \<Rightarrow> False | Some x \<Rightarrow> x \<le> c) mid (closes bars)))"

definition above :: "rat \<Rightarrow> rat option \<Rightarrow> bool" where
  "above y v = (case v of None \<Rightarrow> False | Some x \<Rightarrow> y < x)"

definition below :: "rat \<Rightarrow> rat option \<Rightarrow> bool" where
  "below y v = (case v of None \<Rightarrow> False | Some x \<Rightarrow> x < y)"

definition rsi_level :: "nat \<Rightarrow> rat \<Rightarrow> day list \<Rightarrow> bool list" where
  "rsi_level n thr bars = map (above thr) (rsi_wilder n (closes bars))"

text \<open>Entry below a threshold while the close is above its trend average.\<close>

definition dips :: "rat \<Rightarrow> series \<Rightarrow> series \<Rightarrow> day list \<Rightarrow> bool list" where
  "dips thr value trend bars = map2 (\<and>) (map (below thr) value) (finite_gt (close_series bars) trend)"

definition rsi14_dip :: "nat \<Rightarrow> rat \<Rightarrow> nat \<Rightarrow> day list \<Rightarrow> bool list" where
  "rsi14_dip n os trend bars =
     (let v = rsi_wilder n (closes bars) in stateful (dips os v (sma trend (closes bars)) bars) (map (above 70) v))"

definition willr :: "nat \<Rightarrow> rat \<Rightarrow> nat \<Rightarrow> day list \<Rightarrow> bool list" where
  "willr n os trend bars =
     (let v = williams_r n bars in stateful (dips (- os) v (sma trend (closes bars)) bars) (map (above (-20)) v))"

definition ibs_revert :: "rat \<Rightarrow> nat \<Rightarrow> day list \<Rightarrow> bool list" where
  "ibs_revert lt trend bars =
     stateful (dips (lt / 100) (ibs bars) (sma trend (closes bars)) bars) (map (above (80 / 100)) (ibs bars))"

definition tsmom_daily :: "nat \<Rightarrow> day list \<Rightarrow> bool list" where
  "tsmom_daily n bars = finite_gt (close_series bars) (shift_previous n (closes bars))"

definition ichimoku :: "nat \<Rightarrow> nat \<Rightarrow> nat \<Rightarrow> day list \<Rightarrow> bool list" where
  "ichimoku cnv base spn bars = finite_gt (close_series bars) (ichimoku_cloud_top cnv base spn bars)"

definition sma_band :: "nat \<Rightarrow> rat \<Rightarrow> day list \<Rightarrow> bool list" where
  "sma_band n band bars =
     (let ma = sma n (closes bars); w = band / 100;
          upper = map (map_option (\<lambda>v. v * (1 + w))) ma; lower = map (map_option (\<lambda>v. v * (1 - w))) ma
      in stateful (finite_gt (close_series bars) upper) (finite_gt lower (close_series bars)))"

definition chandelier_step :: "rat \<Rightarrow> bool \<times> rat \<Rightarrow> day \<times> rat option \<times> rat option \<Rightarrow> bool \<times> rat" where
  "chandelier_step mult s x =
     (let (long, peak) = s; (b, up, atr) = x in
      if \<not> long
      then (if (case up of None \<Rightarrow> False | Some u \<Rightarrow> atr \<noteq> None \<and> u < dy_close b) then (True, dy_high b) else (False, peak))
      else
        let peak = max peak (dy_high b)
        in (case atr of None \<Rightarrow> True | Some a \<Rightarrow> \<not> dy_close b < peak - mult * a, peak))"

definition chandelier :: "nat \<Rightarrow> nat \<Rightarrow> rat \<Rightarrow> day list \<Rightarrow> bool list" where
  "chandelier entry atr_n mult bars =
     scan (chandelier_step mult) fst (False, 0) (zip bars (zip (prior_max entry (highs bars)) (atr_wilder atr_n bars)))"

definition hi52 :: "nat \<Rightarrow> rat \<Rightarrow> day list \<Rightarrow> bool list" where
  "hi52 n near bars =
     map2 (\<lambda>h c. case h of None \<Rightarrow> False | Some x \<Rightarrow> 0 < x \<and> near / 100 * x \<le> c) (rolling_max n (closes bars)) (closes bars)"

definition tsmom_vote :: "nat \<Rightarrow> int \<Rightarrow> day list \<Rightarrow> bool list" where
  "tsmom_vote slow vote bars =
     (let c = closes bars; up = (\<lambda>k. map of_bool (finite_gt (close_series bars) (shift_previous k c)));
          signs = map2 (+) (map2 (+) (up 21) (up 63)) (up slow)
      in map2 (\<lambda>v k. v \<noteq> None \<and> vote \<le> (k::int)) (shift_previous slow c) signs)"

definition weekday_utc :: "int \<Rightarrow> int" where "weekday_utc t = (t div DAY_MS + 3) mod 7"

definition dow :: "int \<Rightarrow> day list \<Rightarrow> bool list" where
  "dow d = map (\<lambda>b. weekday_utc (dy_ts b + DAY_MS) = d)"

definition sma_stack_signal :: "day list \<Rightarrow> bool list" where
  "sma_stack_signal bars =
     (let c = closes bars in
      map2 (\<and>) (finite_gt (close_series bars) (sma 7 c)) (map2 (\<and>) (finite_gt (sma 7 c) (sma 25 c)) (finite_gt (sma 25 c) (sma 50 c))))"

section \<open>Strategies\<close>

text \<open>\<open>_defined_from\<close>: an index outside the series gives a mask that is false throughout.\<close>

definition defined_from :: "nat \<Rightarrow> int \<Rightarrow> bool list" where
  "defined_from n first = map (\<lambda>i. 0 \<le> first \<and> first \<le> int i) [0..<n]"

definition param :: "int dict \<Rightarrow> string \<Rightarrow> (int \<Rightarrow> 'a result) \<Rightarrow> 'a result" where
  "param p k f = (case dget p k of None \<Rightarrow> Inl (KeyError k) | Some v \<Rightarrow> f v)"

text \<open>The \<open>signal\<close> field of the declarations, for the keys listed; \<open>None\<close> for a strategy that is not modelled.\<close>

definition library_signal :: "string \<Rightarrow> int dict \<Rightarrow> (day list \<Rightarrow> bool list) result option" where
  "library_signal k p =
     (let par = param p in
      if k \<in> {''sma200'', ''sma5x150'', ''golden_cross''}
      then Some (par ''short'' (\<lambda>a. par ''long'' (\<lambda>b. Inr (sma_cross (nat a) (nat b)))))
      else if k = ''sma100'' then Some (par ''n'' (\<lambda>n. Inr (price_sma (nat n))))
      else if k \<in> {''ema20x50'', ''ema12x26'', ''ema50x200''}
      then Some (par ''fast'' (\<lambda>a. par ''slow'' (\<lambda>b. Inr (ema_cross (nat a) (nat b)))))
      else if k = ''macd''
      then Some (par ''fast'' (\<lambda>a. par ''slow'' (\<lambda>b. par ''signal'' (\<lambda>c. Inr (macd (nat a) (nat b) (nat c))))))
      else if k \<in> {''bll_trb50'', ''bll_trb150''}
      then Some (par ''n'' (\<lambda>n. par ''hold'' (\<lambda>h. Inr (bll_trb (nat n) (nat h)))))
      else if k \<in> {''turtle55'', ''turtle20''}
      then Some (par ''entry'' (\<lambda>a. par ''exit'' (\<lambda>b. Inr (turtle (nat a) (nat b)))))
      else if k \<in> {''donchian20'', ''donchian55''} then Some (par ''n'' (\<lambda>n. Inr (donchian20 (nat n))))
      else if k \<in> {''rsi2'', ''rsi2_10''}
      then Some (par ''trend'' (\<lambda>a. par ''exit_ma'' (\<lambda>b. par ''rsi_lt'' (\<lambda>c. Inr (rsi2 (of_int c) (nat a) (nat b))))))
      else if k = ''keltner20''
      then Some (par ''ema'' (\<lambda>a. par ''atr'' (\<lambda>b. par ''width'' (\<lambda>c. Inr (keltner_break (nat a) (nat b) (of_int c))))))
      else if k = ''keltner_rev''
      then Some (par ''ema'' (\<lambda>a. par ''atr'' (\<lambda>b. par ''width'' (\<lambda>c. Inr (keltner_revert (nat a) (nat b) (of_int c))))))
      else if k = ''rsi14'' then Some (par ''n'' (\<lambda>n. par ''thr'' (\<lambda>t. Inr (rsi_level (nat n) (of_int t)))))
      else if k = ''rsi14_dip''
      then Some (par ''n'' (\<lambda>a. par ''trend'' (\<lambda>b. par ''os'' (\<lambda>c. Inr (rsi14_dip (nat a) (of_int c) (nat b))))))
      else if k = ''willr''
      then Some (par ''n'' (\<lambda>a. par ''trend'' (\<lambda>b. par ''os'' (\<lambda>c. Inr (willr (nat a) (of_int c) (nat b))))))
      else if k = ''ibs'' then Some (par ''trend'' (\<lambda>b. par ''ibs_lt'' (\<lambda>c. Inr (ibs_revert (of_int c) (nat b)))))
      else if k \<in> {''tsmom30d'', ''tsmom90d'', ''tsmom180d''} then Some (par ''n'' (\<lambda>n. Inr (tsmom_daily (nat n))))
      else if k = ''ichimoku''
      then Some (par ''conv'' (\<lambda>a. par ''base'' (\<lambda>b. par ''span'' (\<lambda>c. Inr (ichimoku (nat a) (nat b) (nat c))))))
      else if k = ''sma200_band'' then Some (par ''n'' (\<lambda>n. par ''band'' (\<lambda>w. Inr (sma_band (nat n) (of_int w)))))
      else if k = ''chandelier''
      then Some (par ''entry'' (\<lambda>a. par ''atr'' (\<lambda>b. par ''mult'' (\<lambda>c. Inr (chandelier (nat a) (nat b) (of_int c))))))
      else if k = ''hi52'' then Some (par ''n'' (\<lambda>n. par ''near'' (\<lambda>w. Inr (hi52 (nat n) (of_int w)))))
      else if k = ''tsmom_vote'' then Some (par ''slow'' (\<lambda>n. par ''vote'' (\<lambda>v. Inr (tsmom_vote (nat n) v))))
      else if k = ''dow'' then Some (par ''dow'' (\<lambda>d. Inr (dow d)))
      else None)"

text \<open>The first index of \<open>signal_ready\<close>, for the same keys.\<close>

definition warm_index :: "string \<Rightarrow> int dict \<Rightarrow> int result option" where
  "warm_index k p =
     (let par = param p in
      if k \<in> {''sma200'', ''sma5x150'', ''golden_cross''}
      then Some (par ''short'' (\<lambda>a. par ''long'' (\<lambda>b. Inr (if a \<le> 1 \<or> b < 1 then b - 1 else max (b - 1) (a - 1)))))
      else if k \<in> {''sma100'', ''sma200_band'', ''hi52''} then Some (par ''n'' (\<lambda>n. Inr (n - 1)))
      else if k \<in> {''ema20x50'', ''ema12x26'', ''ema50x200''}
      then Some (par ''fast'' (\<lambda>a. par ''slow'' (\<lambda>b. Inr (max a b - 1))))
      else if k = ''macd'' then Some (par ''slow'' (\<lambda>b. par ''signal'' (\<lambda>c. Inr (b - 1 + (c - 1)))))
      else if k \<in> {''bll_trb50'', ''bll_trb150'', ''donchian20'', ''donchian55'', ''rsi14'', ''tsmom30d'', ''tsmom90d'', ''tsmom180d''}
      then Some (par ''n'' (\<lambda>n. Inr n))
      else if k \<in> {''turtle55'', ''turtle20''} then Some (par ''entry'' (\<lambda>a. par ''exit'' (\<lambda>b. Inr (max a b))))
      else if k \<in> {''rsi2'', ''rsi2_10''}
      then Some (par ''trend'' (\<lambda>a. par ''exit_ma'' (\<lambda>b. Inr (max 2 (max (a - 1) (b - 1))))))
      else if k \<in> {''keltner20'', ''keltner_rev''} then Some (par ''ema'' (\<lambda>a. par ''atr'' (\<lambda>b. Inr (max (a - 1) b))))
      else if k = ''rsi14_dip'' then Some (par ''n'' (\<lambda>a. par ''trend'' (\<lambda>b. Inr (max a (b - 1)))))
      else if k = ''willr'' then Some (par ''n'' (\<lambda>a. par ''trend'' (\<lambda>b. Inr (max (a - 1) (b - 1)))))
      else if k = ''ibs'' then Some (par ''trend'' (\<lambda>b. Inr (b - 1)))
      else if k = ''ichimoku'' then Some (par ''base'' (\<lambda>b. par ''span'' (\<lambda>c. Inr (c - 1 + b))))
      else if k = ''chandelier'' then Some (par ''entry'' (\<lambda>a. par ''atr'' (\<lambda>b. Inr (max a b))))
      else if k = ''tsmom_vote'' then Some (par ''slow'' (\<lambda>n. Inr n))
      else if k = ''dow'' then Some (Inr 0)
      else None)"

definition signal_ready :: "string \<Rightarrow> int dict \<Rightarrow> (day list \<Rightarrow> bool list) result option" where
  "signal_ready k p = map_option (\<lambda>r. bind_result r (\<lambda>i. Inr (\<lambda>bars. defined_from (length bars) i))) (warm_index k p)"

end
