(* ===== verification/SignalFacts.thy ===== *)
theory SignalFacts
  imports Signals
begin

text \<open>
  The signals read no later day, and a signal is off wherever its mask is not ready.
\<close>

named_theorems series_intros \<open>series defined from an index on\<close>
named_theorems warm_intros \<open>signals with their masks\<close>

section \<open>Series over the bars\<close>

locale series_from = causal f for f :: "day list \<Rightarrow> 'a option list" +
  fixes k :: nat
  assumes from_k: "from_index k (f bars)"
begin

lemma defined_iff: "t < length bars \<Longrightarrow> f bars ! t \<noteq> None \<longleftrightarrow> k \<le> t"
  using from_indexD [OF from_k] length_eq by simp

end

lemma causal_prices [causal_intros]: "causal closes" "causal highs" "causal lows" "causal typical"
  unfolding closes_def highs_def lows_def typical_def by (rule causal_map [OF causal_id])+

lemma series_fromI: "causal f \<Longrightarrow> (\<And>bars. from_index k (f bars)) \<Longrightarrow> series_from f k"
  by (simp add: series_from_def series_from_axioms_def)

lemma series_fromD:
  assumes "series_from f k"
  shows "causal f" "from_index k (f bars)" "length (f bars) = length bars" "t < length bars \<Longrightarrow> f bars ! t \<noteq> None \<longleftrightarrow> k \<le> t"
proof -
  show c: "causal f" using assms by (rule series_from.axioms)
  show "from_index k (f bars)" using assms by (rule series_from.from_k)
  show "length (f bars) = length bars" using c by (rule causal.length_eq)
  show "t < length bars \<Longrightarrow> f bars ! t \<noteq> None \<longleftrightarrow> k \<le> t" using assms by (rule series_from.defined_iff)
qed

text \<open>An average or extreme of a price series.\<close>

lemma series_of:
  assumes "causal g" "\<And>xs. from_index k (g xs)" "causal c"
  shows "series_from (\<lambda>bars. g (c bars)) k"
  using assms by (intro series_fromI causal_comp [of g c]) auto

lemma from_shifted:
  assumes "\<And>xs. f xs = (if k = 0 \<or> length xs \<le> k then nan (length xs) else nan k @ h xs)" "0 < k"
    and "\<And>xs. k < length xs \<Longrightarrow> length (h xs) = length xs - k \<and> None \<notin> set (h xs)"
  shows "from_index k (f xs)"
proof (cases "length xs \<le> k")
  case True then show ?thesis using assms(1) by (auto simp: from_index_def)
next
  case False
  then have h: "length (h xs) = length xs - k" "None \<notin> set (h xs)" using assms(3) [of xs] by auto
  have "h xs ! j \<noteq> None" if "j < length xs - k" for j using h that by (metis nth_mem)
  then show ?thesis using False assms(1,2) h(1) by (auto simp: from_index_def nth_append)
qed

lemma from_shift: "0 < k \<Longrightarrow> from_index k (shift_previous k xs)"
  by (rule from_shifted [where h = "\<lambda>xs. map Some (take (length xs - k) xs)"]) (auto simp: shift_previous_def)

lemma from_prior: "0 < n \<Longrightarrow> from_index n (prior g n xs)"
  by (rule from_shifted [where h = "\<lambda>xs. take (length xs - n) (map (\<lambda>i. Some (g (take n (drop i xs)))) [0..<Suc (length xs - n)])"])
    (auto simp: prior_def dest: in_set_takeD simp del: upt_Suc)

lemma series_close [series_intros]: "series_from close_series 0"
  unfolding close_series_def [abs_def] by (rule series_of [OF causal_map [OF causal_id] from_some causal_prices(1)])

lemma series_windowed: "0 < n \<Longrightarrow> causal c \<Longrightarrow> series_from (\<lambda>b. windowed n g (c b)) (n - 1)"
  by (rule series_of [OF causal_windowed from_windowed])

lemma series_sma [series_intros]: "0 < n \<Longrightarrow> causal c \<Longrightarrow> series_from (\<lambda>b. sma n (c b)) (n - 1)"
  unfolding sma_windowed by (rule series_windowed)

lemma series_rolling [series_intros]:
  "0 < n \<Longrightarrow> causal c \<Longrightarrow> series_from (\<lambda>b. rolling_max n (c b)) (n - 1)"
  "0 < n \<Longrightarrow> causal c \<Longrightarrow> series_from (\<lambda>b. rolling_min n (c b)) (n - 1)"
  unfolding rolling_max_def rolling_min_def by (rule series_windowed; assumption)+

lemma series_prior [series_intros]:
  "0 < n \<Longrightarrow> causal c \<Longrightarrow> series_from (\<lambda>b. prior_max n (c b)) n"
  "0 < n \<Longrightarrow> causal c \<Longrightarrow> series_from (\<lambda>b. prior_min n (c b)) n"
  unfolding prior_max_def prior_min_def by (rule series_of [OF causal_prior from_prior]; assumption)+

lemma series_shift [series_intros]: "0 < n \<Longrightarrow> causal c \<Longrightarrow> series_from (\<lambda>b. shift_previous n (c b)) n"
  by (rule series_of) (simp_all add: shift_previous.causal_axioms from_shift)

lemma series_rsi [series_intros]: "0 < n \<Longrightarrow> causal c \<Longrightarrow> series_from (\<lambda>b. rsi_wilder n (c b)) n"
proof (rule series_of [OF rsi_wilder.causal_axioms])
  fix xs :: "rat list"
  assume "0 < n"
  then have eq: "rsi_wilder n xs = seeded (Suc n) (\<lambda>ys. (last ys, mean (map gain (np_diff ys)), mean (map loss (np_diff ys))))
        (\<lambda>(p, g, l) x. (x, wilder_step n g (gain (x - p)), wilder_step n l (loss (x - p))))
        (\<lambda>(p, g, l). Some (rsi_value g l)) xs" by (simp add: rsi_wilder_def)
  show "from_index n (rsi_wilder n xs)"
    unfolding eq by (rule from_seeded [where k = "Suc n", simplified]) (simp add: split_beta)
qed

lemma series_wilder [series_intros]: "0 < n \<Longrightarrow> causal c \<Longrightarrow> series_from (\<lambda>b. wilder_smooth n (c b)) n"
proof (rule series_of [OF wilder_smooth.causal_axioms])
  fix xs :: "rat list"
  assume "0 < n"
  then show "from_index n (wilder_smooth n xs)"
    using from_seeded [where k = "Suc n" and g = Some] by (simp add: wilder_smooth_def)
qed

lemma series_map2 [series_intros]:
  assumes "series_from f j" "series_from g k"
  shows "series_from (\<lambda>b. map2 (num2 h) (f b) (g b)) (max j k)"
  using assms by (intro series_fromI from_map2 causal_map2) (auto simp: series_fromD)

lemma series_map [series_intros]: "series_from f k \<Longrightarrow> series_from (\<lambda>b. map (map_option h) (f b)) k"
  by (intro series_fromI from_map causal_map) (auto dest: series_fromD)

lemma true_range_nth:
  "t < length bars \<Longrightarrow> true_range bars ! t =
     (if t = 0 then dy_high (bars ! 0) - dy_low (bars ! 0) else true_range_of (bars ! (t - 1)) (bars ! t))"
  by (cases bars; cases t) (auto simp: true_range_def)

lemma causal_true_range [causal_intros]: "causal true_range"
proof (rule causalI [where g = "\<lambda>p. if length p = 1 then dy_high (p ! 0) - dy_low (p ! 0)
    else true_range_of (p ! (length p - 2)) (p ! (length p - 1))"])
  show "length (true_range bars) = length bars" for bars by (cases bars) (auto simp: true_range_def)
  show "true_range bars ! t = (if length (take (Suc t) bars) = 1 then dy_high (take (Suc t) bars ! 0) - dy_low (take (Suc t) bars ! 0)
      else true_range_of (take (Suc t) bars ! (length (take (Suc t) bars) - 2)) (take (Suc t) bars ! (length (take (Suc t) bars) - 1)))"
    if "t < length bars" for bars t
  proof -
    have len: "length (take (Suc t) bars) = Suc t" using that by simp
    show ?thesis unfolding len true_range_nth [OF that] by (auto simp: numeral_2_eq_2)
  qed
qed

lemma series_atr [series_intros]: "0 < n \<Longrightarrow> series_from (atr_wilder n) n"
  unfolding atr_wilder_def [abs_def] by (intro series_wilder causal_true_range)

section \<open>The exponential average\<close>

text \<open>Of a series that is defined from an index on, the average is defined \<open>n - 1\<close> days later.\<close>

lemma first_defined:
  assumes "from_index k xs"
  shows "length (takeWhile (\<lambda>x. x = None) xs) = min k (length xs)"
proof (cases "k < length xs")
  case True
  have "xs ! i = None" if "i < k" for i using from_indexD [OF assms, of i] True that by simp
  moreover have "xs ! k \<noteq> None" using assms True by (auto simp: from_index_def)
  ultimately have "takeWhile (\<lambda>x. x = None) xs = take k xs" using True by (intro takeWhile_eq_take_P_nth) auto
  then show ?thesis using True by simp
next
  case False
  then have "xs ! i = None" if "i < length xs" for i using assms that by (auto simp: from_index_def)
  then have "\<forall>x \<in> set xs. x = None" by (metis in_set_conv_nth)
  then have "takeWhile (\<lambda>x. x = None) xs = xs" by (simp add: takeWhile_eq_all_conv)
  from arg_cong [OF this, of length] show ?thesis using False by (simp del: takeWhile_eq_all_conv)
qed

lemma ema_nth:
  assumes "from_index k xs" "t < length xs"
  shows "ema n xs ! t = (if k \<le> t then seeded n mean (\<lambda>v x. ema_alpha n * x + (1 - ema_alpha n) * v) Some (map the (drop k xs)) ! (t - k) else None)"
    and "length (ema n xs) = length xs"
proof -
  let ?s = "seeded n mean (\<lambda>v x. ema_alpha n * x + (1 - ema_alpha n) * v) Some (map the (drop k xs))"
  have "ema n xs ! t = (if k \<le> t then ?s ! (t - k) else None) \<and> length (ema n xs) = length xs"
  proof (cases "k < length xs")
    case True
    then have len: "length (takeWhile (\<lambda>x. x = None) xs) = k" using first_defined [OF assms(1)] by simp
    have "drop k xs ! i \<noteq> None" if "i < length (drop k xs)" for i using assms(1) that by (simp add: from_index_def)
    then have ok: "None \<notin> set (drop k xs)" by (metis in_set_conv_nth)
    have "ema n xs = nan k @ ?s"
    proof (cases "n = 0 \<or> length (drop k xs) < n")
      case True
      then have "?s = nan (length xs - k)" by (auto simp: seeded_def)
      moreover have "nan (length xs) = nan k @ nan (length xs - k)"
        using \<open>k < length xs\<close> by (simp add: nan_def replicate_add [symmetric])
      ultimately show ?thesis using True len ok \<open>k < length xs\<close> by (auto simp: ema_def Let_def)
    next
      case False then show ?thesis using len ok \<open>k < length xs\<close> by (auto simp: ema_def Let_def)
    qed
    then show ?thesis using True by (auto simp: nth_append)
  next
    case False
    then have "length (takeWhile (\<lambda>x. x = None) xs) = length xs" using first_defined [OF assms(1)] by simp
    then show ?thesis using False assms(2) by (simp add: ema_def Let_def)
  qed
  then show "ema n xs ! t = (if k \<le> t then ?s ! (t - k) else None)" "length (ema n xs) = length xs" by blast+
qed

lemma length_ema: "from_index k xs \<Longrightarrow> length (ema n xs) = length xs"
proof (cases xs)
  case Nil then show ?thesis by (simp add: ema_def nan_def)
next
  case (Cons a xs') assume "from_index k xs" then show ?thesis using Cons ema_nth(2) [of k xs 0 n] by simp
qed

lemma from_ema: "from_index k xs \<Longrightarrow> 0 < n \<Longrightarrow> from_index (k + n - 1) (ema n xs)"
  unfolding from_index_def [of "k + n - 1"] by (auto simp: length_ema ema_nth seeded_nth)

lemma causal_ema: "series_from f k \<Longrightarrow> causal (\<lambda>b. ema n (f b))"
proof (rule causalI [where g = "\<lambda>p. if k < length p
    then seeded n mean (\<lambda>v x. ema_alpha n * x + (1 - ema_alpha n) * v) Some (map the (drop k (f p))) ! (length p - 1 - k) else None"])
  assume f: "series_from f k"
  note fr = series_fromD(2) [OF f] and len = series_fromD(3) [OF f]
  show "length (ema n (f bars)) = length bars" for bars using length_ema [OF fr] len by simp
  fix bars :: "day list" and t
  assume t: "t < length bars"
  let ?g = "seeded n mean (\<lambda>v x. ema_alpha n * x + (1 - ema_alpha n) * v) Some"
  have l: "length (take (Suc t) bars) = Suc t" using t by simp
  have "?g (map the (drop k (take (Suc t) (f bars)))) ! (t - k) = ?g (map the (drop k (f bars))) ! (t - k)" if "k \<le> t"
  proof -
    have "map the (drop k (take (Suc t) (f bars))) = take (Suc (t - k)) (map the (drop k (f bars)))"
      using that by (simp add: drop_take take_map Suc_diff_le)
    then show ?thesis
      by (simp add: causal.nth_take_eq [OF causal_seeded, of "t - k" "Suc (t - k)"])
  qed
  moreover have "f (take (Suc t) bars) = take (Suc t) (f bars)" using causalD(2) [OF series_fromD(1) [OF f]] .
  ultimately show "ema n (f bars) ! t = (if k < length (take (Suc t) bars)
      then ?g (map the (drop k (f (take (Suc t) bars)))) ! (length (take (Suc t) bars) - 1 - k) else None)"
    unfolding l using ema_nth(1) [OF fr] t len by simp
qed

lemma series_ema [series_intros]: "series_from f k \<Longrightarrow> 0 < n \<Longrightarrow> series_from (\<lambda>b. ema n (f b)) (k + n - 1)"
  by (intro series_fromI causal_ema from_ema) (auto dest: series_fromD)

section \<open>Signals and their masks\<close>

text \<open>
  What the live account needs of a signal: a day's value does not depend on later days, a warm lookback
  stays warm, and a cold one is off.
\<close>

locale warm_signal = sig: causal sig + ready: causal ready
  for sig ready :: "day list \<Rightarrow> bool list" +
  assumes ready_mono: "i \<le> j \<Longrightarrow> j < length bars \<Longrightarrow> ready bars ! i \<Longrightarrow> ready bars ! j"
    and cold_off: "i < length bars \<Longrightarrow> \<not> ready bars ! i \<Longrightarrow> \<not> sig bars ! i"
begin

lemma on_ready: "i < length bars \<Longrightarrow> sig bars ! i \<Longrightarrow> ready bars ! i"
  using cold_off by blast

end

definition warm_mask :: "int \<Rightarrow> day list \<Rightarrow> bool list" where
  "warm_mask k bars = defined_from (length bars) k"

lemma nth_warm_mask: "i < length bars \<Longrightarrow> warm_mask k bars ! i \<longleftrightarrow> 0 \<le> k \<and> k \<le> int i"
  by (simp add: warm_mask_def defined_from_def)

lemma causal_warm_mask: "causal (warm_mask k)"
  by (rule causalI [where g = "\<lambda>p. 0 \<le> k \<and> k \<le> int (length p - 1)"]) (auto simp: warm_mask_def defined_from_def)

lemma warmI:
  assumes "causal sig" "\<And>bars i. i < length bars \<Longrightarrow> sig bars ! i \<Longrightarrow> k \<le> i"
  shows "warm_signal sig (warm_mask (int k))"
  using assms by (auto simp: warm_signal_def warm_signal_axioms_def nth_warm_mask causal_warm_mask)

lemma warmD:
  assumes "warm_signal sig (warm_mask (int k))"
  shows "causal sig" "i < length bars \<Longrightarrow> sig bars ! i \<Longrightarrow> k \<le> i"
proof -
  show "causal sig" using assms by (rule warm_signal.axioms)
  show "i < length bars \<Longrightarrow> sig bars ! i \<Longrightarrow> k \<le> i"
    using warm_signal.on_ready [OF assms] by (auto simp: nth_warm_mask)
qed

lemma warm_gt [warm_intros]:
  assumes "series_from f j" "series_from g k"
  shows "warm_signal (\<lambda>b. finite_gt (f b) (g b)) (warm_mask (int (max j k)))"
proof (rule warmI)
  show "causal (\<lambda>b. finite_gt (f b) (g b))"
    unfolding finite_gt_def using assms by (intro causal_map2) (auto simp: series_fromD)
  show "max j k \<le> i" if "i < length bars" "finite_gt (f bars) (g bars) ! i" for bars i
  proof -
    have "f bars ! i \<noteq> None" "g bars ! i \<noteq> None"
      using that assms by (auto simp: finite_gt_def series_fromD split: option.splits)
    then show ?thesis using series_fromD(4) [OF assms(1) that(1)] series_fromD(4) [OF assms(2) that(1)] by simp
  qed
qed

lemma warm_level [warm_intros]:
  assumes "series_from f k" "\<not> P None"
  shows "warm_signal (\<lambda>b. map P (f b)) (warm_mask (int k))"
proof (rule warmI)
  show "causal (\<lambda>b. map P (f b))" using assms(1) by (intro causal_map) (rule series_fromD)
  show "k \<le> i" if "i < length bars" "map P (f bars) ! i" for bars i
  proof -
    have "P (f bars ! i)" using that series_fromD(3) [OF assms(1)] by simp
    then have "f bars ! i \<noteq> None" using assms(2) by metis
    then show ?thesis using series_fromD(4) [OF assms(1) that(1)] by simp
  qed
qed

lemma warm_and:
  assumes "warm_signal f (warm_mask (int j))" "warm_signal g (warm_mask (int k))"
  shows "warm_signal (\<lambda>b. map2 (\<and>) (f b) (g b)) (warm_mask (int (max j k)))"
proof (rule warmI)
  note c = warmD(1) [OF assms(1)] warmD(1) [OF assms(2)]
  then show "causal (\<lambda>b. map2 (\<and>) (f b) (g b))" by (intro causal_map2)
  show "max j k \<le> i" if "i < length bars" "map2 (\<and>) (f bars) (g bars) ! i" for bars i
    using that c warmD(2) [OF assms(1)] warmD(2) [OF assms(2)] by (simp add: causalD)
qed

text \<open>A position is only taken on a day its entry is on, and is kept while the mask stays warm.\<close>

lemma scan_first_on:
  assumes "i < length xs" "P (scan f (\<lambda>s. s) s xs ! i)" "\<not> P s"
  shows "\<exists>j \<le> i. \<exists>s'. \<not> P s' \<and> P (f s' (xs ! j))"
  using assms
proof (induction xs arbitrary: s i)
  case (Cons x xs)
  show ?case
  proof (cases "P (f s x)")
    case True then show ?thesis using Cons.prems(3) by (intro exI [of _ 0]) auto
  next
    case False
    then obtain i' where i: "i = Suc i'" using Cons.prems(2) by (cases i) auto
    then obtain j s' where "j \<le> i'" "\<not> P s'" "P (f s' (xs ! j))" using Cons.IH [of i' "f s x"] Cons.prems False by auto
    then show ?thesis using i by (intro exI [of _ "Suc j"]) auto
  qed
qed simp

lemma scan_map: "scan f g s xs = map g (scan f (\<lambda>s. s) s xs)"
  by (induction xs arbitrary: s) auto

text \<open>A loop whose state turns on only on a day from index \<open>k\<close> on.\<close>

lemma warm_scan:
  assumes "causal h" "\<not> P s0"
    and "\<And>bars j s. j < length bars \<Longrightarrow> \<not> P s \<Longrightarrow> P (f s (h bars ! j)) \<Longrightarrow> k \<le> j"
  shows "warm_signal (\<lambda>b. scan f P s0 (h b)) (warm_mask (int k))"
proof (rule warmI)
  show "causal (\<lambda>b. scan f P s0 (h b))" using assms(1) by (rule causal_scanned)
  show "k \<le> i" if "i < length bars" "scan f P s0 (h bars) ! i" for bars i
  proof -
    note i = that
    have len: "length (h bars) = length bars" using assms(1) by (rule causalD)
    have "P (scan f (\<lambda>s. s) s0 (h bars) ! i)" using that len by (subst (asm) scan_map) simp
    from scan_first_on [where P = P, OF _ this assms(2)]
    obtain j s where "j \<le> i" "\<not> P s" "P (f s (h bars ! j))" using i(1) len by auto
    then show ?thesis using assms(3) [of j bars s] i(1) by simp
  qed
qed

lemma warm_stateful [warm_intros]:
  assumes "warm_signal enter (warm_mask (int k))" "causal leave"
  shows "warm_signal (\<lambda>b. stateful (enter b) (leave b)) (warm_mask (int k))"
  unfolding stateful_def
proof (rule warm_scan)
  note c = warmD(1) [OF assms(1)]
  show "causal (\<lambda>b. zip (enter b) (leave b))" using c assms(2) by (rule causal_zip)
  show "k \<le> j" if "j < length bars" "\<not> s" "stateful_step s (zip (enter bars) (leave bars) ! j)" for bars j s
    using that c assms(2) warmD(2) [OF assms(1)] by (simp add: stateful_step_def causalD)
qed simp

section \<open>The strategies\<close>

lemma causal_finite_gt [causal_intros]: "causal f \<Longrightarrow> causal g \<Longrightarrow> causal (\<lambda>b. finite_gt (f b) (g b))"
  unfolding finite_gt_def by (rule causal_map2)

lemma series_causal: "series_from f k \<Longrightarrow> causal f"
  by (rule series_fromD)

lemma warm_price_sma: "0 < n \<Longrightarrow> warm_signal (price_sma n) (warm_mask (int (n - 1)))"
  unfolding price_sma_def [abs_def] using warm_gt [OF series_close series_sma [OF _ causal_prices(1)]] by simp

lemma series_ema_close: "0 < n \<Longrightarrow> series_from (\<lambda>b. ema n (close_series b)) (n - 1)"
  using series_ema [OF series_close] by simp

lemma warm_sma_cross:
  assumes "0 < a" "0 < b"
  shows "warm_signal (sma_cross a b) (warm_mask (int (max (a - 1) (b - 1))))"
proof (cases "a = 1")
  case True then show ?thesis
    unfolding sma_cross_def [abs_def] using warm_gt [OF series_close series_sma [OF assms(2) causal_prices(1)]] by simp
next
  case False then show ?thesis
    unfolding sma_cross_def [abs_def] using warm_gt [OF series_sma [OF assms(1) causal_prices(1)] series_sma [OF assms(2) causal_prices(1)]] by simp
qed

lemma warm_ema_cross: "0 < a \<Longrightarrow> 0 < b \<Longrightarrow> warm_signal (ema_cross a b) (warm_mask (int (max (a - 1) (b - 1))))"
  unfolding ema_cross_def [abs_def] by (intro warm_gt series_ema_close)

lemma series_macd: "0 < a \<Longrightarrow> 0 < b \<Longrightarrow> series_from (macd_line a b) (max (a - 1) (b - 1))"
  unfolding macd_line_def [abs_def] by (intro series_map2 series_ema_close)

lemma warm_mask_less:
  assumes "warm_signal sig (warm_mask (int k))" "j \<le> k"
  shows "warm_signal sig (warm_mask (int j))"
  using warmD [OF assms(1)] assms(2) by (intro warmI) (auto intro: order.trans)

lemma warm_macd:
  assumes "0 < a" "0 < b" "0 < c"
  shows "warm_signal (macd a b c) (warm_mask (int (b - 1 + (c - 1))))"
proof -
  have "warm_signal (macd a b c) (warm_mask (int (max (max (a - 1) (b - 1)) (max (a - 1) (b - 1) + c - 1))))"
    unfolding macd_def [abs_def] using assms by (intro warm_gt series_macd series_ema)
  then show ?thesis by (rule warm_mask_less) (use assms(3) in \<open>auto simp: max_def\<close>)
qed

lemma warm_bll_trb:
  assumes "0 < n"
  shows "warm_signal (bll_trb n hold) (warm_mask (int n))"
proof -
  let ?f = "\<lambda>(left, out) b. if left > 0 then (left - 1, True) else if b then (hold - 1, True) else (left, False)"
  let ?h = "\<lambda>b. finite_gt (close_series b) (prior_max n (closes b))"
  have w: "warm_signal ?h (warm_mask (int n))" using warm_gt [OF series_close series_prior(1) [OF assms causal_prices(1)]] by simp
  have "warm_signal (\<lambda>b. scan ?f (\<lambda>s. snd s \<or> 0 < fst s) (0, False) (?h b)) (warm_mask (int n))"
  proof (rule warm_scan)
    show "causal ?h" by (rule warmD [OF w])
    show "n \<le> j" if "j < length bars" "\<not> (snd s \<or> 0 < fst s)" "snd (?f s (?h bars ! j)) \<or> 0 < fst (?f s (?h bars ! j))"
      for bars j s
      using that warmD(2) [OF w that(1)] by (cases s) (auto split: if_splits)
  qed simp
  then have on: "n \<le> i" if "i < length bars" "scan ?f (\<lambda>s. snd s \<or> 0 < fst s) (0, False) (?h bars) ! i" for bars i
    using warmD(2) that by blast
  show ?thesis
  proof (rule warmI)
    show "causal (bll_trb n hold)" unfolding bll_trb_def [abs_def] by (intro causal_scanned warmD [OF w])
    show "n \<le> i" if "i < length bars" "bll_trb n hold bars ! i" for bars i
    proof -
      have len: "length (?h bars) = length bars" by (rule causalD) (rule warmD [OF w])
      have "snd (scan ?f (\<lambda>s. s) (0, False) (?h bars) ! i)"
        using that len unfolding bll_trb_def by (subst (asm) scan_map) simp
      then have "scan ?f (\<lambda>s. snd s \<or> 0 < fst s) (0, False) (?h bars) ! i"
        using that(1) len by (subst scan_map) simp
      then show ?thesis by (rule on [OF that(1)])
    qed
  qed
qed

lemma causal_turtle_input:
  "causal (\<lambda>b. zip (closes b) (zip (prior_max n (highs b)) (prior_min m (lows b))))"
  unfolding prior_max_def prior_min_def by (intro causal_intros causal_comp [OF causal_prior])

lemma warm_turtle:
  assumes "0 < n"
  shows "warm_signal (turtle n m) (warm_mask (int n))"
  unfolding turtle_def [abs_def]
proof (rule warm_scan [OF causal_turtle_input])
  show "n \<le> j" if "j < length bars" "\<not> s"
    "turtle_step s (zip (closes bars) (zip (prior_max n (highs bars)) (prior_min m (lows bars))) ! j)" for bars j s
  proof -
    have "prior_max n (highs bars) ! j \<noteq> None"
      using that by (auto simp: turtle_step_def prior_max.length_eq prior_min.length_eq highs_def lows_def closes_def split: option.splits)
    then show ?thesis using series_fromD(4) [OF series_prior(1) [OF assms causal_prices(2)] that(1)] by simp
  qed
qed simp

text \<open>The loop of the turtle is the general loop with the channel as its two signals.\<close>

lemma scan_cong:
  "length xs = length ys \<Longrightarrow> (\<And>i s. i < length xs \<Longrightarrow> f s (xs ! i) = f' s (ys ! i)) \<Longrightarrow> scan f g s xs = scan f' g s ys"
proof (induction xs ys arbitrary: s rule: list_induct2)
  case (Cons x xs y ys)
  have "f s x = f' s y" using Cons.prems [of 0 s] by simp
  moreover have "f s (xs ! i) = f' s (ys ! i)" if "i < length xs" for i s using Cons.prems [of "Suc i" s] that by simp
  ultimately show ?case using Cons.IH by simp
qed simp

lemma turtle_stateful:
  "turtle n m bars = stateful (finite_gt (close_series bars) (prior_max n (highs bars)))
     (finite_gt (prior_min m (lows bars)) (close_series bars))"
  unfolding turtle_def stateful_def
  by (rule scan_cong) (auto simp: turtle_step_def stateful_step_def finite_gt_def close_series_def prior_max.length_eq
      prior_min.length_eq highs_def lows_def closes_def split: option.splits)

lemma rsi2_stateful:
  "rsi2 thr n m bars = stateful (dips thr (rsi_wilder 2 (closes bars)) (sma n (closes bars)) bars)
     (finite_gt (close_series bars) (sma m (closes bars)))"
  unfolding rsi2_def stateful_def
  by (rule scan_cong) (auto simp: rsi2_step_def stateful_step_def dips_def below_def finite_gt_def close_series_def
      rsi_wilder.length_eq closes_def split: option.splits)

lemma warm_dips:
  assumes "causal v" "\<And>bars i. i < length bars \<Longrightarrow> v bars ! i \<noteq> None \<Longrightarrow> j \<le> i" "series_from w k"
  shows "warm_signal (\<lambda>b. dips thr (v b) (w b) b) (warm_mask (int (max j k)))"
proof -
  have "warm_signal (\<lambda>b. map (below thr) (v b)) (warm_mask (int j))"
    using assms(1,2) by (intro warmI causal_map) (auto simp: below_def causalD split: option.splits)
  moreover have "warm_signal (\<lambda>b. finite_gt (close_series b) (w b)) (warm_mask (int k))"
    using warm_gt [OF series_close assms(3)] by simp
  ultimately show ?thesis unfolding dips_def by (rule warm_and)
qed

lemma series_on: "series_from f k \<Longrightarrow> i < length bars \<Longrightarrow> f bars ! i \<noteq> None \<Longrightarrow> k \<le> i"
  using series_fromD(4) by blast

lemma warm_rsi2:
  assumes "0 < n" "0 < m" "m \<le> max 3 n"
  shows "warm_signal (rsi2 thr n m) (warm_mask (int (max 2 (max (n - 1) (m - 1)))))"
proof -
  have "warm_signal (\<lambda>b. dips thr (rsi_wilder 2 (closes b)) (sma n (closes b)) b) (warm_mask (int (max 2 (n - 1))))"
    using series_rsi [of 2, OF _ causal_prices(1)] series_sma [OF assms(1) causal_prices(1)]
    by (intro warm_dips) (auto intro: series_causal series_on)
  moreover have "causal (\<lambda>b. finite_gt (close_series b) (sma m (closes b)))"
    by (intro causal_intros series_causal [OF series_close] series_causal [OF series_sma [OF assms(2) causal_prices(1)]])
  moreover have "max 2 (n - 1) = max 2 (max (n - 1) (m - 1))" using assms by (auto simp: max_def split: if_splits)
  ultimately show ?thesis unfolding rsi2_stateful [abs_def] by (auto intro: warm_stateful)
qed

lemma warm_rsi_level: "0 < n \<Longrightarrow> warm_signal (rsi_level n thr) (warm_mask (int n))"
  unfolding rsi_level_def [abs_def] by (intro warm_level series_rsi causal_prices) (simp_all add: above_def)

lemma warm_tsmom_daily: "0 < n \<Longrightarrow> warm_signal (tsmom_daily n) (warm_mask (int n))"
  unfolding tsmom_daily_def [abs_def] using warm_gt [OF series_close series_shift [OF _ causal_prices(1)]] by simp

lemma warm_dow: "warm_signal (dow d) (warm_mask (int 0))"
  unfolding dow_def [abs_def] by (intro warmI causal_map [OF causal_id]) simp

lemma warm_hi52: "0 < n \<Longrightarrow> warm_signal (hi52 n near) (warm_mask (int (n - 1)))"
  unfolding hi52_def [abs_def]
proof (rule warmI)
  assume n: "0 < n"
  note s = series_rolling(1) [OF n causal_prices(1)]
  show "causal (\<lambda>b. map2 (\<lambda>h c. case h of None \<Rightarrow> False | Some x \<Rightarrow> 0 < x \<and> near / 100 * x \<le> c) (rolling_max n (closes b)) (closes b))"
    by (intro causal_map2 causal_prices series_causal [OF s])
  show "n - 1 \<le> i" if "i < length bars" "map2 (\<lambda>h c. case h of None \<Rightarrow> False | Some x \<Rightarrow> 0 < x \<and> near / 100 * x \<le> c)
      (rolling_max n (closes bars)) (closes bars) ! i" for bars i
    using that by (intro series_on [OF s]) (auto simp: rolling_max.length_eq closes_def split: option.splits)
qed

lemma causal_keltner:
  assumes "0 < a" "0 < b"
  shows "series_from (keltner_mid a) (a - 1)"
    and "series_from (\<lambda>bars. fst (snd (keltner a b w bars))) (max (a - 1) b)"
    and "series_from (\<lambda>bars. snd (snd (keltner a b w bars))) (max (a - 1) b)"
proof -
  have "series_from (\<lambda>bars. map Some (typical bars)) 0"
    by (rule series_of [OF causal_map [OF causal_id] from_some causal_prices(4)])
  from series_ema [OF this assms(1)] show mid: "series_from (keltner_mid a) (a - 1)"
    unfolding keltner_mid_def [abs_def] by simp
  note s = series_map2 [OF mid series_map [OF series_atr [OF assms(2)]]]
  show "series_from (\<lambda>bars. fst (snd (keltner a b w bars))) (max (a - 1) b)"
    "series_from (\<lambda>bars. snd (snd (keltner a b w bars))) (max (a - 1) b)"
    unfolding keltner_def Let_def fst_conv snd_conv by (rule s)+
qed

lemma warm_keltner:
  assumes "0 < a" "0 < b"
  shows "warm_signal (keltner_break a b w) (warm_mask (int (max (a - 1) b)))"
    and "warm_signal (keltner_revert a b w) (warm_mask (int (max (a - 1) b)))"
proof -
  note k = causal_keltner(1) [OF assms] causal_keltner(2,3) [OF assms, of w]
  have fst: "fst (keltner a b w bars) = keltner_mid a bars" for bars by (simp add: keltner_def Let_def)
  have br: "keltner_break a b w bars =
      stateful (finite_gt (close_series bars) (snd (snd (keltner a b w bars)))) (finite_gt (keltner_mid a bars) (close_series bars))" for bars
    using fst [of bars] by (simp add: keltner_break_def split_beta)
  have rv: "keltner_revert a b w bars = stateful (finite_gt (fst (snd (keltner a b w bars))) (close_series bars))
      (map2 (\<lambda>m c. case m of None \<Rightarrow> False | Some x \<Rightarrow> x \<le> c) (keltner_mid a bars) (closes bars))" for bars
    using fst [of bars] by (simp add: keltner_revert_def split_beta)
  show "warm_signal (keltner_break a b w) (warm_mask (int (max (a - 1) b)))"
    unfolding br [abs_def]
    using warm_gt [OF series_close k(3)] by (intro warm_stateful causal_intros series_causal [OF k(1)] series_causal [OF series_close]) simp
  show "warm_signal (keltner_revert a b w) (warm_mask (int (max (a - 1) b)))"
    unfolding rv [abs_def]
    using warm_gt [OF k(2) series_close] by (intro warm_stateful causal_map2 causal_prices series_causal [OF k(1)]) simp
qed

lemma warm_rsi14_dip:
  assumes "0 < n" "0 < m"
  shows "warm_signal (rsi14_dip n os m) (warm_mask (int (max n (m - 1))))"
  unfolding rsi14_dip_def Let_def
  using series_rsi [OF assms(1) causal_prices(1)] series_sma [OF assms(2) causal_prices(1)]
  by (intro warm_stateful warm_dips causal_map) (auto intro: series_causal series_on)

lemma causal_williams:
  assumes "0 < n"
  shows "causal (williams_r n)" "i < length bars \<Longrightarrow> williams_r n bars ! i \<noteq> None \<Longrightarrow> n - 1 \<le> i"
proof -
  note s = series_rolling(1) [OF assms causal_prices(2)] series_rolling(2) [OF assms causal_prices(3)]
  show "causal (williams_r n)"
    unfolding williams_r_def [abs_def] by (intro causal_map2 causal_zip causal_prices series_causal [OF s(1)] series_causal [OF s(2)])
  show "n - 1 \<le> i" if "i < length bars" "williams_r n bars ! i \<noteq> None"
  proof (rule series_on [OF s(1) that(1)])
    show "rolling_max n (highs bars) ! i \<noteq> None"
      using that by (auto simp: williams_r_def rolling_max.length_eq rolling_min.length_eq highs_def lows_def closes_def num2_def
          split: option.splits)
  qed
qed

lemma warm_willr:
  assumes "0 < n" "0 < m"
  shows "warm_signal (willr n os m) (warm_mask (int (max (n - 1) (m - 1))))"
  unfolding willr_def Let_def
  using causal_williams [OF assms(1)] series_sma [OF assms(2) causal_prices(1)]
  by (intro warm_stateful warm_dips causal_map) auto

lemma warm_ibs:
  assumes "0 < m"
  shows "warm_signal (ibs_revert lt m) (warm_mask (int (m - 1)))"
proof -
  have c: "causal ibs" unfolding ibs_def [abs_def] by (rule causal_map [OF causal_id])
  have "warm_signal (\<lambda>b. dips (lt / 100) (ibs b) (sma m (closes b)) b) (warm_mask (int (max 0 (m - 1))))"
    using c series_sma [OF assms causal_prices(1)] by (intro warm_dips) auto
  then show ?thesis unfolding ibs_revert_def [abs_def] using c by (intro warm_stateful causal_map) simp_all
qed

lemma warm_sma_band:
  assumes "0 < n"
  shows "warm_signal (sma_band n w) (warm_mask (int (n - 1)))"
proof -
  note s = series_map [OF series_sma [OF assms causal_prices(1)]]
  show ?thesis unfolding sma_band_def Let_def
    using warm_gt [OF series_close s] by (intro warm_stateful causal_intros series_causal [OF s] series_causal [OF series_close]) simp
qed

lemma series_displaced:
  assumes "series_from f k"
  shows "series_from (\<lambda>b. displaced d (f b)) (k + d)"
proof (rule series_fromI)
  note len = series_fromD(3) [OF assms]
  show "causal (\<lambda>b. displaced d (f b))"
  proof (rule causalI [where g = "\<lambda>p. if length p \<le> d then None else f p ! (length p - 1 - d)"])
    show "length (displaced d (f bars)) = length bars" for bars by (auto simp: displaced_def len)
    show "displaced d (f bars) ! t = (if length (take (Suc t) bars) \<le> d then None
        else f (take (Suc t) bars) ! (length (take (Suc t) bars) - 1 - d))" if "t < length bars" for bars t
    proof -
      have l: "length (take (Suc t) bars) = Suc t" using that by simp
      have tk: "f (take (Suc t) bars) = take (Suc t) (f bars)" by (rule causalD) (rule series_causal [OF assms])
      show ?thesis unfolding l tk using that by (auto simp: displaced_def len nth_append)
    qed
  qed
  show "from_index (k + d) (displaced d (f bars))" for bars
    using series_fromD(2) [OF assms, of bars] by (auto simp: from_index_def displaced_def nth_append)
qed

lemma warm_ichimoku:
  assumes "0 < a" "0 < b" "0 < c"
  shows "warm_signal (ichimoku a b c) (warm_mask (int (c - 1 + b)))"
proof -
  have mid: "series_from (mid_range n) (n - 1)" if "0 < n" for n
  proof -
    from series_map [OF series_map2 [OF series_rolling(1) [OF that causal_prices(2)] series_rolling(2) [OF that causal_prices(3)]]]
    show ?thesis unfolding mid_range_def [abs_def] by simp
  qed
  note sa = series_displaced [OF series_map [OF series_map2 [OF mid [OF assms(1)] mid [OF assms(2)]]], where d = b]
  note sb = series_displaced [OF mid [OF assms(3)], where d = b]
  have "warm_signal (ichimoku a b c) (warm_mask (int (max 0 (max (max (a - 1) (b - 1) + b) (c - 1 + b)))))"
    unfolding ichimoku_def [abs_def] ichimoku_cloud_top_def Let_def
    by (rule warm_gt [OF series_close series_map2 [OF sa sb]])
  then show ?thesis by (rule warm_mask_less) simp
qed

lemma warm_chandelier:
  assumes "0 < n" "0 < m"
  shows "warm_signal (chandelier n m w) (warm_mask (int (max n m)))"
  unfolding chandelier_def [abs_def]
proof (rule warm_scan)
  note s = series_prior(1) [OF assms(1) causal_prices(2)] series_atr [OF assms(2)]
  show "causal (\<lambda>b. zip b (zip (prior_max n (highs b)) (atr_wilder m b)))"
    by (intro causal_zip causal_id series_causal [OF s(1)] series_causal [OF s(2)])
  show "max n m \<le> j" if "j < length bars" "\<not> fst x"
    "fst (chandelier_step w x (zip bars (zip (prior_max n (highs bars)) (atr_wilder m bars)) ! j))" for bars j x
  proof -
    have "prior_max n (highs bars) ! j \<noteq> None" "atr_wilder m bars ! j \<noteq> None"
      using that series_fromD(3) [OF s(1)] series_fromD(3) [OF s(2)]
      by (auto simp: chandelier_step_def split_beta split: option.splits if_splits)
    then show ?thesis using series_on [OF s(1) that(1)] series_on [OF s(2) that(1)] by simp
  qed
qed simp

lemma warm_tsmom_vote:
  assumes "0 < n"
  shows "warm_signal (tsmom_vote n v) (warm_mask (int n))"
  unfolding tsmom_vote_def Let_def
proof (rule warmI)
  have s: "series_from (\<lambda>b. shift_previous k (closes b)) k" if "0 < k" for k by (rule series_shift [OF that causal_prices(1)])
  have g: "causal (\<lambda>b. finite_gt (close_series b) (shift_previous k (closes b)))" if "0 < k" for k
    by (intro causal_finite_gt series_causal [OF series_close] series_causal [OF s [OF that]])
  let ?f = "\<lambda>b. map2 (\<lambda>y k. y \<noteq> None \<and> v \<le> k) (shift_previous n (closes b))
      (map2 (+) (map2 (+) (map of_bool (finite_gt (close_series b) (shift_previous 21 (closes b))))
          (map of_bool (finite_gt (close_series b) (shift_previous 63 (closes b)))))
        (map of_bool (finite_gt (close_series b) (shift_previous n (closes b)))))"
  have votes: "causal (\<lambda>b. map2 (+) (map2 (+) (map of_bool (finite_gt (close_series b) (shift_previous 21 (closes b))))
          (map of_bool (finite_gt (close_series b) (shift_previous 63 (closes b)))))
        (map (of_bool :: bool \<Rightarrow> int) (finite_gt (close_series b) (shift_previous n (closes b)))))" (is "causal ?v")
    by (intro causal_map2 causal_map g) (use assms in simp_all)
  show "causal ?f" by (rule causal_map2 [OF series_causal [OF s [OF assms]] votes])
  show "n \<le> i" if "i < length bars" "?f bars ! i" for bars i
  proof -
    have "length (?v bars) = length bars" by (rule causalD [OF votes])
    then show ?thesis using that by (intro series_on [OF s [OF assms] that(1)]) (auto simp: shift_previous.length_eq closes_def)
  qed
qed

section \<open>The modelled part of the library\<close>

text \<open>What the declared grids satisfy: positive lengths, and the exit windows no longer than the entry's.\<close>

definition sane_params :: "string \<Rightarrow> int dict \<Rightarrow> bool" where
  "sane_params k p \<longleftrightarrow>
     k = ''dow'' \<or>
     list_all (\<lambda>(n, v). 1 \<le> v) p \<and>
     (k \<in> {''turtle55'', ''turtle20''} \<longrightarrow> (\<forall>a b. dget p ''entry'' = Some a \<longrightarrow> dget p ''exit'' = Some b \<longrightarrow> b \<le> a)) \<and>
     (k \<in> {''rsi2'', ''rsi2_10''} \<longrightarrow>
        (\<forall>a b. dget p ''trend'' = Some a \<longrightarrow> dget p ''exit_ma'' = Some b \<longrightarrow> b \<le> max 3 a))"

lemma param_Inr: "param p k f = Inr x \<longleftrightarrow> (\<exists>v. dget p k = Some v \<and> f v = Inr x)"
  by (simp add: param_def split: option.splits)

lemma sane_pos: "sane_params k p \<Longrightarrow> k \<noteq> ''dow'' \<Longrightarrow> dget p n = Some v \<Longrightarrow> 1 \<le> v"
  by (auto simp: sane_params_def list_all_iff dest!: dget_in_set)

lemma warm_mask_eq:
  assumes "warm_signal sig (warm_mask (int k))" "i = int k"
  shows "warm_signal sig (\<lambda>bars. defined_from (length bars) i)"
  using assms by (simp add: warm_mask_def [abs_def])

lemmas warm_all = warm_sma_cross warm_price_sma warm_ema_cross warm_macd warm_bll_trb warm_turtle warm_rsi2 warm_keltner
  warm_rsi_level warm_rsi14_dip warm_willr warm_ibs warm_tsmom_daily warm_ichimoku warm_sma_band warm_chandelier warm_hi52
  warm_tsmom_vote

lemma warm_donchian: "0 < n \<Longrightarrow> warm_signal (donchian20 n) (warm_mask (int n))"
  unfolding donchian20_def [abs_def] by (rule warm_turtle)

lemma warm_turtle_max: "0 < n \<Longrightarrow> m \<le> n \<Longrightarrow> warm_signal (turtle n m) (warm_mask (int (max n m)))"
  using warm_turtle [of n m] by (simp add: max_def)

text \<open>The same over the integers the code reads from the parameters.\<close>

abbreviation warm_from :: "(day list \<Rightarrow> bool list) \<Rightarrow> int \<Rightarrow> bool" where
  "warm_from sig i \<equiv> warm_signal sig (\<lambda>bars. defined_from (length bars) i)"

lemma int_sma_cross: "1 \<le> a \<Longrightarrow> 1 \<le> b \<Longrightarrow> i = (if a \<le> 1 \<or> b < 1 then b - 1 else max (b - 1) (a - 1)) \<Longrightarrow> warm_from (sma_cross (nat a) (nat b)) i"
  by (rule warm_mask_eq [OF warm_sma_cross]) auto

lemma int_price_sma: "1 \<le> a \<Longrightarrow> i = a - 1 \<Longrightarrow> warm_from (price_sma (nat a)) i"
  by (rule warm_mask_eq [OF warm_price_sma]) auto

lemma int_ema_cross: "1 \<le> a \<Longrightarrow> 1 \<le> b \<Longrightarrow> i = max a b - 1 \<Longrightarrow> warm_from (ema_cross (nat a) (nat b)) i"
  by (rule warm_mask_eq [OF warm_ema_cross]) auto

lemma int_macd: "1 \<le> a \<Longrightarrow> 1 \<le> b \<Longrightarrow> 1 \<le> c \<Longrightarrow> i = b - 1 + (c - 1) \<Longrightarrow> warm_from (macd (nat a) (nat b) (nat c)) i"
  by (rule warm_mask_eq [OF warm_macd]) auto

lemma int_bll_trb: "1 \<le> a \<Longrightarrow> i = a \<Longrightarrow> warm_from (bll_trb (nat a) h) i"
  by (rule warm_mask_eq [OF warm_bll_trb]) auto

lemma int_turtle_max: "1 \<le> a \<Longrightarrow> 1 \<le> b \<Longrightarrow> b \<le> a \<Longrightarrow> i = max a b \<Longrightarrow> warm_from (turtle (nat a) (nat b)) i"
  by (rule warm_mask_eq [OF warm_turtle_max]) auto

lemma int_donchian: "1 \<le> a \<Longrightarrow> i = a \<Longrightarrow> warm_from (donchian20 (nat a)) i"
  by (rule warm_mask_eq [OF warm_donchian]) auto

lemma int_rsi2: "1 \<le> a \<Longrightarrow> 1 \<le> b \<Longrightarrow> b \<le> max 3 a \<Longrightarrow> i = max 2 (max (a - 1) (b - 1)) \<Longrightarrow> warm_from (rsi2 t (nat a) (nat b)) i"
  by (rule warm_mask_eq [OF warm_rsi2]) (auto simp: max_def split: if_splits)

lemma int_keltner_break: "1 \<le> a \<Longrightarrow> 1 \<le> b \<Longrightarrow> i = max (a - 1) b \<Longrightarrow> warm_from (keltner_break (nat a) (nat b) w) i"
  by (rule warm_mask_eq [OF warm_keltner(1)]) auto

lemma int_keltner_revert: "1 \<le> a \<Longrightarrow> 1 \<le> b \<Longrightarrow> i = max (a - 1) b \<Longrightarrow> warm_from (keltner_revert (nat a) (nat b) w) i"
  by (rule warm_mask_eq [OF warm_keltner(2)]) auto

lemma int_rsi_level: "1 \<le> a \<Longrightarrow> i = a \<Longrightarrow> warm_from (rsi_level (nat a) t) i"
  by (rule warm_mask_eq [OF warm_rsi_level]) auto

lemma int_rsi14_dip: "1 \<le> a \<Longrightarrow> 1 \<le> b \<Longrightarrow> i = max a (b - 1) \<Longrightarrow> warm_from (rsi14_dip (nat a) t (nat b)) i"
  by (rule warm_mask_eq [OF warm_rsi14_dip]) auto

lemma int_willr: "1 \<le> a \<Longrightarrow> 1 \<le> b \<Longrightarrow> i = max (a - 1) (b - 1) \<Longrightarrow> warm_from (willr (nat a) t (nat b)) i"
  by (rule warm_mask_eq [OF warm_willr]) auto

lemma int_ibs: "1 \<le> b \<Longrightarrow> i = b - 1 \<Longrightarrow> warm_from (ibs_revert t (nat b)) i"
  by (rule warm_mask_eq [OF warm_ibs]) auto

lemma int_tsmom_daily: "1 \<le> a \<Longrightarrow> i = a \<Longrightarrow> warm_from (tsmom_daily (nat a)) i"
  by (rule warm_mask_eq [OF warm_tsmom_daily]) auto

lemma int_ichimoku: "1 \<le> a \<Longrightarrow> 1 \<le> b \<Longrightarrow> 1 \<le> c \<Longrightarrow> i = c - 1 + b \<Longrightarrow> warm_from (ichimoku (nat a) (nat b) (nat c)) i"
  by (rule warm_mask_eq [OF warm_ichimoku]) auto

lemma int_sma_band: "1 \<le> a \<Longrightarrow> i = a - 1 \<Longrightarrow> warm_from (sma_band (nat a) w) i"
  by (rule warm_mask_eq [OF warm_sma_band]) auto

lemma int_chandelier: "1 \<le> a \<Longrightarrow> 1 \<le> b \<Longrightarrow> i = max a b \<Longrightarrow> warm_from (chandelier (nat a) (nat b) w) i"
  by (rule warm_mask_eq [OF warm_chandelier]) auto

lemma int_hi52: "1 \<le> a \<Longrightarrow> i = a - 1 \<Longrightarrow> warm_from (hi52 (nat a) w) i"
  by (rule warm_mask_eq [OF warm_hi52]) auto

lemma int_tsmom_vote: "1 \<le> a \<Longrightarrow> i = a \<Longrightarrow> warm_from (tsmom_vote (nat a) v) i"
  by (rule warm_mask_eq [OF warm_tsmom_vote]) auto

lemmas int_rules = int_sma_cross int_price_sma int_ema_cross int_macd int_bll_trb int_turtle_max int_donchian
  int_rsi2 int_keltner_break int_keltner_revert int_rsi_level int_rsi14_dip int_willr int_ibs
  int_tsmom_daily int_ichimoku int_sma_band int_chandelier int_hi52 int_tsmom_vote

lemmas pair_defs = library_signal_def warm_index_def param_Inr Let_def

lemma library_warm_index:
  assumes "sane_params k p" "library_signal k p = Some (Inr sig)" "warm_index k p = Some (Inr i)"
  shows "warm_from sig i"
proof (cases "k = ''dow''")
  case True
  then show ?thesis using assms(2,3) by (auto simp: pair_defs intro!: warm_mask_eq [OF warm_dow])
next
  case False
  note pos = sane_pos [OF assms(1) False] and lib = assms(2,3)
  have g0: ?thesis if "k \<in> {''sma200'', ''sma5x150'', ''golden_cross''}"
    using that lib by (auto simp: pair_defs split del: if_split intro!: int_rules intro: pos)
  have g1: ?thesis if "k = ''sma100''"
    using that lib by (auto simp: pair_defs split del: if_split intro!: int_rules intro: pos)
  have g2: ?thesis if "k \<in> {''ema20x50'', ''ema12x26'', ''ema50x200''}"
    using that lib by (auto simp: pair_defs split del: if_split intro!: int_rules intro: pos)
  have g3: ?thesis if "k = ''macd''"
    using that lib by (auto simp: pair_defs split del: if_split intro!: int_rules intro: pos)
  have g4: ?thesis if "k \<in> {''bll_trb50'', ''bll_trb150''}"
    using that lib by (auto simp: pair_defs split del: if_split intro!: int_rules intro: pos)
  have g5: ?thesis if "k \<in> {''turtle55'', ''turtle20''}"
  proof -
    have tw: "b \<le> a" if "dget p ''entry'' = Some a" "dget p ''exit'' = Some b" for a b
      using assms(1) False \<open>k \<in> {''turtle55'', ''turtle20''}\<close> that by (auto simp: sane_params_def)
    show ?thesis using that lib by (auto simp: pair_defs split del: if_split intro!: int_rules intro: pos tw)
  qed
  have g6: ?thesis if "k \<in> {''donchian20'', ''donchian55''}"
    using that lib by (auto simp: pair_defs split del: if_split intro!: int_rules intro: pos)
  have g7: ?thesis if "k \<in> {''rsi2'', ''rsi2_10''}"
  proof -
    have tw: "b \<le> max 3 a" if "dget p ''trend'' = Some a" "dget p ''exit_ma'' = Some b" for a b
      using assms(1) False \<open>k \<in> {''rsi2'', ''rsi2_10''}\<close> that by (auto simp: sane_params_def)
    show ?thesis using that lib by (auto simp: pair_defs split del: if_split intro!: int_rules intro: pos tw)
  qed
  have g8: ?thesis if "k = ''keltner20''"
    using that lib by (auto simp: pair_defs split del: if_split intro!: int_rules intro: pos)
  have g9: ?thesis if "k = ''keltner_rev''"
    using that lib by (auto simp: pair_defs split del: if_split intro!: int_rules intro: pos)
  have g10: ?thesis if "k = ''rsi14''"
    using that lib by (auto simp: pair_defs split del: if_split intro!: int_rules intro: pos)
  have g11: ?thesis if "k = ''rsi14_dip''"
    using that lib by (auto simp: pair_defs split del: if_split intro!: int_rules intro: pos)
  have g12: ?thesis if "k = ''willr''"
    using that lib by (auto simp: pair_defs split del: if_split intro!: int_rules intro: pos)
  have g13: ?thesis if "k = ''ibs''"
    using that lib by (auto simp: pair_defs split del: if_split intro!: int_rules intro: pos)
  have g14: ?thesis if "k \<in> {''tsmom30d'', ''tsmom90d'', ''tsmom180d''}"
    using that lib by (auto simp: pair_defs split del: if_split intro!: int_rules intro: pos)
  have g15: ?thesis if "k = ''ichimoku''"
    using that lib by (auto simp: pair_defs split del: if_split intro!: int_rules intro: pos)
  have g16: ?thesis if "k = ''sma200_band''"
    using that lib by (auto simp: pair_defs split del: if_split intro!: int_rules intro: pos)
  have g17: ?thesis if "k = ''chandelier''"
    using that lib by (auto simp: pair_defs split del: if_split intro!: int_rules intro: pos)
  have g18: ?thesis if "k = ''hi52''"
    using that lib by (auto simp: pair_defs split del: if_split intro!: int_rules intro: pos)
  have g19: ?thesis if "k = ''tsmom_vote''"
    using that lib by (auto simp: pair_defs split del: if_split intro!: int_rules intro: pos)
  have "library_signal k p = None" if "\<not> (k \<in> {''sma200'', ''sma5x150'', ''golden_cross''} \<or> k = ''sma100'' \<or>
      k \<in> {''ema20x50'', ''ema12x26'', ''ema50x200''} \<or> k = ''macd'' \<or>
      k \<in> {''bll_trb50'', ''bll_trb150''} \<or> k \<in> {''turtle55'', ''turtle20''} \<or>
      k \<in> {''donchian20'', ''donchian55''} \<or> k \<in> {''rsi2'', ''rsi2_10''} \<or> k = ''keltner20'' \<or>
      k = ''keltner_rev'' \<or> k = ''rsi14'' \<or> k = ''rsi14_dip'' \<or> k = ''willr'' \<or> k = ''ibs'' \<or>
      k \<in> {''tsmom30d'', ''tsmom90d'', ''tsmom180d''} \<or> k = ''ichimoku'' \<or> k = ''sma200_band'' \<or>
      k = ''chandelier'' \<or> k = ''hi52'' \<or> k = ''tsmom_vote'')"
    using that False by (simp only: library_signal_def Let_def de_Morgan_disj if_False)
  then have "k \<in> {''sma200'', ''sma5x150'', ''golden_cross''} \<or> k = ''sma100'' \<or>
      k \<in> {''ema20x50'', ''ema12x26'', ''ema50x200''} \<or> k = ''macd'' \<or>
      k \<in> {''bll_trb50'', ''bll_trb150''} \<or> k \<in> {''turtle55'', ''turtle20''} \<or>
      k \<in> {''donchian20'', ''donchian55''} \<or> k \<in> {''rsi2'', ''rsi2_10''} \<or> k = ''keltner20'' \<or>
      k = ''keltner_rev'' \<or> k = ''rsi14'' \<or> k = ''rsi14_dip'' \<or> k = ''willr'' \<or> k = ''ibs'' \<or>
      k \<in> {''tsmom30d'', ''tsmom90d'', ''tsmom180d''} \<or> k = ''ichimoku'' \<or> k = ''sma200_band'' \<or>
      k = ''chandelier'' \<or> k = ''hi52'' \<or> k = ''tsmom_vote''"
    using lib(1) by (metis option.distinct(1))
  then show ?thesis using g0 g1 g2 g3 g4 g5 g6 g7 g8 g9 g10 g11 g12 g13 g14 g15 g16 g17 g18 g19 by argo
qed

lemma library_warm:
  assumes "sane_params k p" "library_signal k p = Some (Inr sig)" "signal_ready k p = Some (Inr ready)"
  shows "warm_signal sig ready"
proof -
  from assms(3) obtain i where "warm_index k p = Some (Inr i)" "ready = (\<lambda>bars. defined_from (length bars) i)"
    by (auto simp: signal_ready_def elim!: bind_result.elims)
  then show ?thesis using library_warm_index [OF assms(1,2)] by simp
qed

lemma warm_parts:
  assumes "warm_signal sig ready"
  shows "causal sig" "causal ready" "i < length bars \<Longrightarrow> \<not> ready bars ! i \<Longrightarrow> \<not> sig bars ! i"
  using warm_signal.axioms(1,2) [OF assms] warm_signal.cold_off [OF assms] by auto

interpretation sma_close: series_from "\<lambda>b. sma (Suc n) (closes b)" n
  using series_sma [of "Suc n", OF _ causal_prices(1)] by simp

interpretation macd_series: series_from "macd_line (Suc a) (Suc b)" "max a b"
  using series_macd [of "Suc a" "Suc b"] by simp

interpretation sma_signal: warm_signal "price_sma (Suc n)" "warm_mask (int n)"
  using warm_price_sma [of "Suc n"] by simp

interpretation ema_signal: warm_signal "ema_cross (Suc a) (Suc b)" "warm_mask (int (max a b))"
  using warm_ema_cross [of "Suc a" "Suc b"] by simp

interpretation channel_signal: warm_signal "donchian20 (Suc n)" "warm_mask (int (Suc n))"
  using warm_donchian [of "Suc n"] by simp

end
