(* ===== verification/LiveRuns.thy ===== *)
theory LiveRuns
  imports LiveFacts SignalFacts
begin

text \<open>
  The live account over many runs: what a run stores is what the next run opens, and over whole days of
  runs the account keeps the book of the backtest.
\<close>

section \<open>What is stored is what is opened\<close>

lemma jget_put [simp]: "is_dict v \<Longrightarrow> jget (put k x v) k' = (if k' = k then (case x of None \<Rightarrow> JNull | Some y \<Rightarrow> y) else jget v k')"
  by (simp add: put_def split: option.splits)

lemma is_dict_put [simp]: "is_dict (put k x v) = is_dict v"
  by (simp add: put_def split: option.splits)

lemma memo_round_trip: "is_dict raw \<Longrightarrow> memo_of (memo_json me raw) = me"
  by (cases me) (auto simp: memo_of_def memo_json_def as_bool_def split: option.splits)

lemma is_dict_memo_json [simp]: "is_dict (memo_json me raw) = is_dict raw"
  by (simp add: memo_json_def)

lemma is_dict_or_empty [simp]: "is_dict (dict_or_empty v)"
  by (simp add: dict_or_empty_def)

lemma is_dict_sub_dict [simp]: "is_dict (sub_dict v k)"
  by (simp add: sub_dict_def)

definition saved_library :: "jv \<Rightarrow> live_book \<Rightarrow> jv" where
  "saved_library saved bk = jset ''engine'' (JStr ''signal_exit'')
     (jset ''machine'' (machine_dict (lb_machine bk)) (memo_json (lb_memo bk) (sub_dict saved ''library'')))"

lemma saved_parts:
  "jget (save_account stamp saved bk) ''broker'' = to_state (lb_broker bk)"
  "sub_dict (save_account stamp saved bk) ''library'' = saved_library saved bk"
  by (simp_all add: save_account_def saved_library_def sub_dict_def [of "jset _ _ _"] dict_or_empty_def [of "jset _ _ _"])

lemma saved_library_parts:
  "memo_of (saved_library saved bk) = lb_memo bk" "machine_of (jget (saved_library saved bk) ''machine'') = lb_machine bk"
proof -
  have "memo_of (saved_library saved bk) = memo_of (memo_json (lb_memo bk) (sub_dict saved ''library''))"
    by (simp add: memo_of_def saved_library_def)
  then show "memo_of (saved_library saved bk) = lb_memo bk" by (simp add: memo_round_trip)
  show "machine_of (jget (saved_library saved bk) ''machine'') = lb_machine bk"
    by (simp add: saved_library_def machine_round_trip)
qed

definition reopened :: "int \<Rightarrow> ledger \<Rightarrow> live_book \<Rightarrow> live_book" where
  "reopened next ld bk =
     bk\<lparr>lb_broker := \<lparr>br_cash = br_cash (lb_broker bk), br_fee = TAKER_FEE, br_slip = SLIPPAGE,
                      br_lots = br_lots (lb_broker bk), br_fills = [],
                      br_next = next + int (length (br_lots (lb_broker bk))) + max 0 (max_lot (br_lots (lb_broker bk)))\<rparr>,
        lb_machine := (lb_machine bk)\<lparr>mc_long := has_position SYMBOL (lb_broker bk)\<rparr>, lb_ledger := ld\<rparr>"

lemma open_saved:
  assumes "assert_paper_only env = Inr ()"
  shows "open_account env next (save_account stamp saved bk) ld = Inr (reopened next ld bk)"
proof -
  have "truthy (to_state (lb_broker bk))" by (simp add: to_state_def)
  then show ?thesis
    using assms
    by (simp add: open_account_def paper_broker_def saved_parts saved_library_parts restore_to_state Let_def reopened_def has_position_def)
qed

lemma reopened_match:
  assumes "book_match s bk" "lb_machine bk = sc_machine s" "mc_long (sc_machine s) \<longleftrightarrow> sc_trade s \<noteq> None"
  shows "book_match s (reopened next (lb_ledger bk) bk)" "lb_machine (reopened next (lb_ledger bk) bk) = sc_machine s"
proof -
  show "book_match s (reopened next (lb_ledger bk) bk)"
    using assms(1) by (simp add: book_match_def reopened_def paper_costs_def)
  have "has_position SYMBOL (lb_broker bk) \<longleftrightarrow> sc_trade s \<noteq> None"
    using assms(1) by (auto simp: book_match_def lots_match_def lot_of_trade_def has_position_def split: option.splits)
  then show "lb_machine (reopened next (lb_ledger bk) bk) = sc_machine s"
    using assms(2,3) by (simp add: reopened_def)
qed

section \<open>What a run records\<close>

lemma broker_equity_ok: "\<exists>eq. broker_equity [(SYMBOL, Some price)] b = Inr eq"
proof -
  have "\<exists>vs. map_results (lot_value [(SYMBOL, Some price)]) ps = Inr vs" for ps
    by (induction ps) (auto simp: lot_value_def split: option.splits)
  then obtain vs where "map_results (lot_value [(SYMBOL, Some price)]) (br_lots b) = Inr vs" by blast
  then show ?thesis by (simp add: broker_equity_def)
qed

lemma fold_decisions [simp]: "ld_rows (fold record_decision ds ld) = ld_rows ld"
  by (induction ds arbitrary: ld) simp_all

lemma record_run_ok:
  "\<exists>ld. record_run lv bars price sg as bk = Inr (bk\<lparr>lb_ledger := ld\<rparr>) \<and> ld_rows ld = ld_rows (lb_ledger bk)"
proof -
  obtain eq where eq: "broker_equity [(SYMBOL, Some price)] (lb_broker bk) = Inr eq" using broker_equity_ok by blast
  obtain ld bl where o: "overlay_equity [(SYMBOL, Some price)] PAPER_START_CASH (lb_ledger bk) = (ld, bl)"
    by (cases "overlay_equity [(SYMBOL, Some price)] PAPER_START_CASH (lb_ledger bk)")
  then have "ld_rows ld = ld_rows (lb_ledger bk)"
    using overlay_rows(1) [of "[(SYMBOL, Some price)]" PAPER_START_CASH "lb_ledger bk"] by simp
  then show ?thesis using eq o by (auto simp: record_run_def Let_def)
qed

lemma book_match_ledger:
  "book_match s bk \<Longrightarrow> ld_rows ld = ld_rows (lb_ledger bk) \<Longrightarrow> book_match s (bk\<lparr>lb_ledger := ld\<rparr>)"
  by (auto simp: book_match_def intro: rows_match_rows)

section \<open>A run inside the day\<close>

lemma pending_none:
  assumes "sorted_wrt (<) (map dy_ts bars)" "d < length bars"
  shows "pending_days (take (Suc d) bars) (dy_ts (bars ! d)) = []"
proof -
  have "dy_ts (bars ! i) \<le> dy_ts (bars ! d)" if "i \<le> d" for i
    using assms that by (cases "i = d") (auto simp: sorted_wrt_iff_nth_less intro: less_imp_le)
  then show ?thesis by (auto simp: pending_days_def filter_empty_conv not_less)
qed

lemma pending_new:
  assumes "sorted_wrt (<) (map dy_ts bars)" "Suc d < length bars"
  shows "pending_days (take (Suc (Suc d)) bars) (dy_ts (bars ! d)) = [Suc d]"
proof -
  have "filter (\<lambda>i. dy_ts (bars ! d) < dy_ts (take (Suc (Suc d)) bars ! i)) [0..<Suc d] = []"
    using pending_none [OF assms(1), of d] assms(2) by (auto simp: pending_days_def filter_empty_conv)
  moreover have "dy_ts (bars ! d) < dy_ts (bars ! Suc d)" using assms by (auto simp: sorted_wrt_iff_nth_less)
  moreover have "[0..<length (take (Suc (Suc d)) bars)] = [0..<Suc d] @ [Suc d]" using assms(2) by simp
  ultimately show ?thesis by (simp add: pending_days_def)
qed

lemma step_inside:
  assumes "sorted_wrt (<) (map dy_ts bars)" "d < length bars" "live_rel (Some (dy_ts (bars ! d))) s bk"
  shows "\<exists>bk'. live_step lv (take (Suc d) bars) price now_ms now bk = Inr bk' \<and> live_rel (Some (dy_ts (bars ! d))) s bk'"
proof -
  let ?B = "take (Suc d) bars"
  have me: "me_last_day (lb_memo bk) = Some (dy_ts (bars ! d))" "\<not> me_defer (lb_memo bk)"
    using assms(3) by (auto simp: live_rel_def)
  have "first_days ?B sg rd now_ms (lb_memo bk) = (lb_memo bk, [])" for sg rd
    using me(1) pending_none [OF assms(1,2)] by (simp add: first_days_def)
  note first = this
  have same: "bk\<lparr>lb_memo := lb_memo bk, lb_machine := lb_machine bk\<rparr> = bk" by (cases bk) simp
  have "?B \<noteq> []" using assms(2) by auto
  then have "\<exists>as sn. decide lv ?B price now_ms now bk = Inr (bk, as, sn)"
    unfolding decide_def Let_def first using me(2) same by (simp add: act_hold remember_days_def)
  then obtain as sn where dec: "decide lv ?B price now_ms now bk = Inr (bk, as, sn)" by blast
  obtain ld where "record_run lv ?B price sn as bk = Inr (bk\<lparr>lb_ledger := ld\<rparr>)" "ld_rows ld = ld_rows (lb_ledger bk)"
    using record_run_ok by blast
  then show ?thesis using dec assms(3) by (auto simp: live_step_def live_rel_def intro: book_match_ledger)
qed

section \<open>A run at the open of a day\<close>

context warm_signal
begin

text \<open>While the lookback is cold the backtest is flat.\<close>

lemma cold_flat:
  assumes "start \<le> e" "e \<le> length bars" "\<And>k. start \<le> k \<Longrightarrow> k < e \<Longrightarrow> \<not> signal_before (sig bars) k"
  shows "sc_machine (score_days c fr bars (sig bars) cash start e) = machine_start"
proof -
  have "scoring_ok cash e (score_days c fr bars (sig bars) cash start e) \<and>
      sc_machine (score_days c fr bars (sig bars) cash start e) = machine_start"
    using assms(1)
  proof (induction rule: score_days_induct)
    case start then show ?case by (simp add: scoring_ok_start) (simp add: scoring_start_def)
  next
    case (day d s)
    then have f: "sc_trade s = None" by (auto simp: scoring_ok_def machine_start_def)
    have "scoring_ok cash d s" using day by blast
    then have "sc_machine (day_open c fr d (bars ! d) False s) = machine_start"
      by (cases rule: day_open_cases [where c = c and fr = fr and b = "bars ! d" and on = False]) (use f in auto)
    then have "sc_machine (score_day c fr bars (sig bars) d s) = machine_start"
      using assms(3) day(1,2) by (simp add: score_day_def day_close_def stop_hit_def Let_def)
    then show ?case using day(3) by (simp add: scoring_ok_day)
  qed
  then show ?thesis by blast
qed

lemma step_open:
  assumes lv: "lv_signal lv = sig" "lv_ready lv = ready"
    and len: "d < length bars"
    and first: "first_days (take (Suc d) bars) (sig (take (Suc d) bars)) (ready (take (Suc d) bars)) now_ms (lb_memo bk) =
      (lb_memo bk, [d])"
    and pre: "before_open (bars ! d) cash n s1 bk" "\<not> me_defer (lb_memo bk)" "0 < dy_open b"
    and cold: "\<not> ready bars ! d \<Longrightarrow> lb_machine bk = machine_start"
  shows "\<exists>bk'. live_step lv (take (Suc d) bars) (dy_open b) now_ms now bk = Inr bk' \<and>
     live_rel (Some (dy_ts (bars ! d))) (day_open BASE_COSTS (lv_stop lv) n b (sig bars ! d) s1) bk'"
proof -
  let ?B = "take (Suc d) bars" and ?me = "lb_memo bk" and ?on = "sig bars ! d"
  let ?cnd = "SYMBOL @ ''|'' @ LIVE_TIMEFRAME @ ''|'' @ lv_key lv" and ?wl = "mc_long (lb_machine bk)"
  have B: "?B \<noteq> []" "length ?B - 1 = d" "?B ! d = bars ! d" using len by auto
  have sg: "sig ?B ! d = ?on" and rd: "ready ?B ! d = ready bars ! d"
    using sig.take_eq ready.take_eq len sig.length_eq ready.length_eq by simp_all
  have np: "\<not> mc_pending (lb_machine bk)" using pre(1) by (simp add: before_open_def)
  have nd: "\<not> ready ?B ! d \<longrightarrow> \<not> sig ?B ! d \<and> \<not> mc_long (lb_machine bk) \<and> \<not> mc_lockout (lb_machine bk)"
    using cold cold_off [OF len] rd sg by (simp add: machine_start_def)
  have rp: "replay_day ?wl (if ?wl then stop_level (lb_broker bk) else None) ?B (sig ?B) (ready ?B) d d
      \<lparr>rp_machine = lb_machine bk, rp_reason = None\<rparr> = replayed (bars ! d) ?on bk"
    unfolding replay_one [of "lb_machine bk" "ready ?B" d "sig ?B", OF np nd] B sg by (simp add: replayed_def Let_def)
  let ?me' = "remember_days ?B (sig ?B) (ready ?B) [d] ?me"
  have me: "\<not> me_defer ?me'" "me_last_day ?me' = Some (dy_ts (bars ! d))"
    using pre(2) B(3) by (simp_all add: remember_days_def)
  let ?sn = "if ready ?B ! d then Some (sig ?B ! d) else me_last_signal ?me'"
  from act_open [OF pre(1) me(1) pre(3), of lv ?cnd now "at_daily_open now_ms" ?on "?sn = Some True"]
  obtain bk' as where act: "act lv ?cnd (dy_open b) now (at_daily_open now_ms) ?wl (rp_reason (replayed (bars ! d) ?on bk))
        (?sn = Some True) (bk\<lparr>lb_memo := ?me', lb_machine := rp_machine (replayed (bars ! d) ?on bk)\<rparr>) = Inr (bk', as)"
      "book_match (day_open BASE_COSTS (lv_stop lv) n b ?on s1) bk'"
      "lb_machine bk' = sc_machine (day_open BASE_COSTS (lv_stop lv) n b ?on s1)"
      "me_last_day (lb_memo bk') = Some (dy_ts (bars ! d))" "\<not> me_defer (lb_memo bk')"
    using me(2) by (auto simp: Let_def)
  have dec: "decide lv ?B (dy_open b) now_ms now bk = Inr (bk', as, ?sn)"
    using B(1) act(1) unfolding decide_def Let_def lv first B(2) by (simp add: rp)
  obtain ld where "record_run lv ?B (dy_open b) ?sn as bk' = Inr (bk'\<lparr>lb_ledger := ld\<rparr>)" "ld_rows ld = ld_rows (lb_ledger bk')"
    using record_run_ok by blast
  then show ?thesis using dec act(2-5) by (auto simp: live_step_def live_rel_def intro: book_match_ledger)
qed

end

section \<open>Days of runs\<close>

text \<open>A run of the cycle: the lot counter of its process, the price it fetched and the instant.\<close>

record visit =
  vs_next :: int
  vs_price :: "rat option"
  vs_now :: int

definition visit_account ::
    "string option \<Rightarrow> live_strategy \<Rightarrow> day list \<Rightarrow> visit \<Rightarrow> jv \<times> ledger \<Rightarrow> (jv \<times> ledger) result" where
  "visit_account env lv bars v acc = run_library_account env (vs_next v) lv bars (vs_price v) (JTime (vs_now v)) (vs_now v) acc"

primrec visits ::
    "string option \<Rightarrow> live_strategy \<Rightarrow> day list \<Rightarrow> visit list \<Rightarrow> jv \<times> ledger \<Rightarrow> (jv \<times> ledger) result" where
  "visits env lv bars [] acc = Inr acc"
| "visits env lv bars (v # vs) acc = bind_result (visit_account env lv bars v acc) (visits env lv bars vs)"

text \<open>On day \<open>d\<close> the completed days are those before it. The visits of a day are in their order.\<close>

primrec live_days ::
    "string option \<Rightarrow> live_strategy \<Rightarrow> day list \<Rightarrow> (nat \<Rightarrow> visit list) \<Rightarrow> nat \<Rightarrow> nat \<Rightarrow> jv \<times> ledger \<Rightarrow> (jv \<times> ledger) result" where
  "live_days env lv bars sched start 0 acc = Inr acc"
| "live_days env lv bars sched start (Suc k) acc =
     bind_result (live_days env lv bars sched start k acc) (visits env lv (take (start + k) bars) (sched (start + k)))"

definition visited_at_open :: "day list \<Rightarrow> visit list \<Rightarrow> nat \<Rightarrow> bool" where
  "visited_at_open bars vs d \<longleftrightarrow> vs \<noteq> [] \<and> vs_price (hd vs) = Some (dy_open (bars ! d))"

definition stored_rel :: "int option \<Rightarrow> scoring \<Rightarrow> jv \<times> ledger \<Rightarrow> bool" where
  "stored_rel last_day s acc \<longleftrightarrow>
     (\<exists>stamp saved bk. acc = (save_account stamp saved bk, lb_ledger bk) \<and> live_rel last_day s bk)"

lemma stored_open:
  assumes "stored_rel last_day s acc" "assert_paper_only env = Inr ()" "mc_long (sc_machine s) \<longleftrightarrow> sc_trade s \<noteq> None"
  shows "\<exists>bk. open_account env next (fst acc) (snd acc) = Inr bk \<and> live_rel last_day s bk"
proof -
  from assms(1) obtain stamp saved bk where a: "acc = (save_account stamp saved bk, lb_ledger bk)" "live_rel last_day s bk"
    by (auto simp: stored_rel_def)
  then have "live_rel last_day s (reopened next (lb_ledger bk) bk)"
    using reopened_match [OF _ _ assms(3)] by (auto simp: live_rel_def) (auto simp: reopened_def)
  then show ?thesis using a open_saved [OF assms(2)] by auto
qed

lemma visit_stored:
  assumes "open_account env (vs_next v) (fst acc) (snd acc) = Inr bk" "vs_price v = Some p" "0 < p"
    and "live_step lv bars p (stamp_ms (JTime (vs_now v))) (vs_now v) bk = Inr bk'" "live_rel last_day s bk'"
  shows "\<exists>acc'. visit_account env lv bars v acc = Inr acc' \<and> stored_rel last_day s acc'"
  using assms by (auto simp: visit_account_def run_library_account_def stored_rel_def)

lemma visits_inside:
  assumes "sorted_wrt (<) (map dy_ts bars)" "d < length bars" "assert_paper_only env = Inr ()"
    "mc_long (sc_machine s) \<longleftrightarrow> sc_trade s \<noteq> None" "stored_rel (Some (dy_ts (bars ! d))) s acc"
  shows "\<exists>acc'. visits env lv (take (Suc d) bars) vs acc = Inr acc' \<and> stored_rel (Some (dy_ts (bars ! d))) s acc'"
  using assms(5)
proof (induction vs arbitrary: acc)
  case (Cons v vs)
  have "\<exists>acc'. visit_account env lv (take (Suc d) bars) v acc = Inr acc' \<and> stored_rel (Some (dy_ts (bars ! d))) s acc'"
  proof (cases "\<exists>p. vs_price v = Some p \<and> 0 < p")
    case True
    then obtain p where p: "vs_price v = Some p" "0 < p" by blast
    obtain bk where bk: "open_account env (vs_next v) (fst acc) (snd acc) = Inr bk" "live_rel (Some (dy_ts (bars ! d))) s bk"
      using stored_open [OF Cons.prems assms(3,4)] by blast
    show ?thesis using step_inside [OF assms(1,2) bk(2)] visit_stored [OF bk(1) p] by blast
  next
    case False
    then show ?thesis using Cons.prems
      by (cases acc) (auto simp: visit_account_def run_library_account_def not_less split: option.splits)
  qed
  then show ?case using Cons.IH by auto
qed simp

section \<open>The account keeps the book of the backtest\<close>

text \<open>The backtest after the open of day \<open>d\<close>\<close>

definition opened :: "costs \<Rightarrow> rat \<Rightarrow> day list \<Rightarrow> bool list \<Rightarrow> rat \<Rightarrow> nat \<Rightarrow> nat \<Rightarrow> scoring" where
  "opened c fr bars sig cash start d =
     day_open c fr d (bars ! d) (signal_before sig d) (score_days c fr bars sig cash start d)"

definition tape_ok :: "day list \<Rightarrow> bool" where
  "tape_ok bars \<longleftrightarrow>
     sorted_wrt (<) (map dy_ts bars) \<and> list_all (\<lambda>b. 0 < dy_open b \<and> 0 < dy_close b \<and> 0 < dy_low b) bars"

lemma tape_okD:
  assumes "tape_ok bars"
  shows "sorted_wrt (<) (map dy_ts bars)" "prices_ok bars" "i < length bars \<Longrightarrow> 0 < dy_low (bars ! i) \<and> 0 < dy_open (bars ! i)"
  using assms by (auto simp: tape_ok_def prices_ok_def list_all_iff)

lemma score_days_opened:
  "start \<le> d \<Longrightarrow> score_days c fr bars sig cash start (Suc d) = day_close (bars ! d) (opened c fr bars sig cash start d)"
  by (simp add: score_days_Suc score_day_def opened_def)

lemma opened_facts:
  assumes "start \<le> d"
  shows "mc_long (sc_machine (opened c fr bars sig cash start d)) \<longleftrightarrow> sc_trade (opened c fr bars sig cash start d) \<noteq> None"
    and "\<not> mc_pending (sc_machine (opened c fr bars sig cash start d))"
  using opened_ok_open [OF scoring_ok_days [OF assms]] unfolding opened_def by (auto simp: opened_ok_def)

lemma open_fresh:
  assumes "assert_paper_only env = Inr ()"
  shows "\<exists>bk. open_account env next (JObj []) ledger_start = Inr bk \<and> live_rel None (scoring_start PAPER_START_CASH start) bk"
  using assms
  by (auto simp: open_account_def paper_broker_def Let_def live_rel_def book_match_def lots_match_def rows_match_def
      scoring_start_def paper_costs_def memo_of_def sub_dict_def dict_or_empty_def machine_of_def machine_start_def
      has_position_def ledger_start_def ledger_ok_def)

lemma before_first:
  assumes "tape_ok bars" "1 \<le> start" "start < length bars" "live_rel None (scoring_start PAPER_START_CASH start) bk"
  shows "before_open (bars ! (start - 1)) PAPER_START_CASH start (scoring_start PAPER_START_CASH start) bk"
proof -
  have m: "sc_machine (scoring_start PAPER_START_CASH start) = machine_start" by (simp add: scoring_start_def)
  have "solvent (scoring_start PAPER_START_CASH start)" by (simp add: solvent_def scoring_start_def PAPER_START_CASH_def)
  then show ?thesis
    using assms(2-4) tape_okD(3) [OF assms(1), of "start - 1"] scoring_ok_start m
    by (auto simp: before_open_def live_rel_def machine_start_def)
qed

lemma before_next:
  assumes "tape_ok bars" "start \<le> d" "Suc d < length bars"
    and "live_rel l (opened BASE_COSTS fr bars sg PAPER_START_CASH start d) bk"
  shows "before_open (bars ! d) PAPER_START_CASH (Suc d) (score_days BASE_COSTS fr bars sg PAPER_START_CASH start (Suc d)) bk"
proof -
  let ?o = "opened BASE_COSTS fr bars sg PAPER_START_CASH start d"
  let ?s = "score_days BASE_COSTS fr bars sg PAPER_START_CASH start (Suc d)"
  have s: "?s = day_close (bars ! d) ?o" using assms(2) by (rule score_days_opened)
  have "scoring_ok PAPER_START_CASH (Suc d) ?s" using assms(2) by (intro scoring_ok_days) simp
  moreover have "solvent ?s"
    using assms(2,3) tape_okD(2) [OF assms(1)] by (intro solvent_days) (simp_all add: PAPER_START_CASH_def)
  moreover have "book_match ?s bk" using assms(4) by (simp add: s live_rel_def)
  moreover have "lb_machine bk = (sc_machine ?s)\<lparr>mc_pending := False\<rparr>"
  proof -
    have "(sc_machine ?s)\<lparr>mc_pending := False\<rparr> = (sc_machine ?o)\<lparr>mc_pending := False\<rparr>"
      by (simp add: s day_close_def Let_def)
    also have "\<dots> = sc_machine ?o"
      using opened_facts(2) [OF assms(2), of BASE_COSTS fr bars sg PAPER_START_CASH] by (cases "sc_machine ?o") simp
    finally show ?thesis using assms(4) by (simp add: live_rel_def)
  qed
  moreover have "mc_pending (sc_machine ?s) \<longleftrightarrow> mc_long (sc_machine ?s) \<and> stop_reached (bars ! d) (sc_stop ?s)"
    using opened_facts(2) [OF assms(2), of BASE_COSTS fr bars sg PAPER_START_CASH]
    by (simp add: s day_close_def Let_def stop_hit_def stop_reached_def)
  moreover have "0 < dy_low (bars ! d)" using tape_okD(3) [OF assms(1)] assms(3) by simp
  ultimately show ?thesis by (simp add: before_open_def)
qed

context warm_signal
begin

lemma cold_machine:
  assumes "1 \<le> start" "start \<le> d" "d \<le> length bars" "\<not> ready bars ! (d - 1)" "before_open b cash d
     (score_days BASE_COSTS fr bars (sig bars) cash start d) bk"
  shows "lb_machine bk = machine_start"
proof -
  have "\<not> signal_before (sig bars) k" if "k < d" for k
  proof (cases "1 \<le> k")
    case True
    then have k: "k - 1 \<le> d - 1" "d - 1 < length bars" "k - 1 < length bars" using that assms(3) by auto
    then have "\<not> ready bars ! (k - 1)" using ready_mono assms(4) by blast
    then show ?thesis using cold_off k(3) by (simp add: signal_before_def)
  qed (simp add: signal_before_def)
  then have "sc_machine (score_days BASE_COSTS fr bars (sig bars) cash start d) = machine_start"
    using assms(2,3) by (intro cold_flat) auto
  then show ?thesis using assms(5) by (simp add: before_open_def machine_start_def)
qed

lemma day_visits:
  assumes lv: "lv_signal lv = sig" "lv_ready lv = ready" and tape: "tape_ok bars" and env: "assert_paper_only env = Inr ()"
    and day: "1 \<le> start" "start \<le> d" "d < length bars" "visited_at_open bars (sched d) d"
    and opn: "\<And>next. \<exists>bk. open_account env next (fst acc) (snd acc) = Inr bk \<and>
      first_days (take d bars) (sig (take d bars)) (ready (take d bars)) (stamp_ms (JTime (vs_now (hd (sched d))))) (lb_memo bk) =
        (lb_memo bk, [d - 1]) \<and> \<not> me_defer (lb_memo bk) \<and>
      before_open (bars ! (d - 1)) PAPER_START_CASH d
        (score_days BASE_COSTS (lv_stop lv) bars (sig bars) PAPER_START_CASH start d) bk"
  shows "\<exists>acc'. visits env lv (take d bars) (sched d) acc = Inr acc' \<and>
     stored_rel (Some (dy_ts (bars ! (d - 1)))) (opened BASE_COSTS (lv_stop lv) bars (sig bars) PAPER_START_CASH start d) acc'"
proof -
  from day(4) obtain v vs where v: "sched d = v # vs" "vs_price v = Some (dy_open (bars ! d))"
    by (cases "sched d") (auto simp: visited_at_open_def)
  have d: "Suc (d - 1) = d" "d - 1 < length bars" using day by auto
  have price: "0 < dy_open (bars ! d)" using tape_okD(3) [OF tape day(3)] by simp
  let ?s = "score_days BASE_COSTS (lv_stop lv) bars (sig bars) PAPER_START_CASH start d"
  let ?o = "opened BASE_COSTS (lv_stop lv) bars (sig bars) PAPER_START_CASH start d"
  let ?l = "Some (dy_ts (bars ! (d - 1)))" and ?now = "stamp_ms (JTime (vs_now v))"
  obtain bk where bk: "open_account env (vs_next v) (fst acc) (snd acc) = Inr bk"
      "first_days (take d bars) (sig (take d bars)) (ready (take d bars)) ?now (lb_memo bk) = (lb_memo bk, [d - 1])"
      "\<not> me_defer (lb_memo bk)" "before_open (bars ! (d - 1)) PAPER_START_CASH d ?s bk" using opn [of "vs_next v"] v(1) by auto
  have cold: "\<not> ready bars ! (d - 1) \<Longrightarrow> lb_machine bk = machine_start"
    using day(1-3) bk(4) by (intro cold_machine) auto
  have "day_open BASE_COSTS (lv_stop lv) d (bars ! d) (sig bars ! (d - 1)) ?s = ?o"
    using day(1,2) by (simp add: opened_def signal_before_def)
  with step_open [OF lv d(2) _ bk(4,3) price cold, of ?now "vs_now v", unfolded d(1), OF bk(2)]
  obtain bk' where "live_step lv (take d bars) (dy_open (bars ! d)) ?now (vs_now v) bk = Inr bk'" "live_rel ?l ?o bk'"
    by auto
  then obtain acc1 where acc1: "visit_account env lv (take d bars) v acc = Inr acc1" "stored_rel ?l ?o acc1"
    using visit_stored [OF bk(1) v(2) price] by blast
  from visits_inside [OF tape_okD(1) [OF tape] d(2) env opened_facts(1) [OF day(2)] acc1(2), of lv vs]
  show ?thesis using acc1(1) v(1) d(1) by simp
qed

lemma live_days_match:
  assumes lv: "lv_signal lv = sig" "lv_ready lv = ready" and tape: "tape_ok bars" and env: "assert_paper_only env = Inr ()"
    and start: "1 \<le> start" "at_daily_open (stamp_ms (JTime (vs_now (hd (sched start)))))"
    and vis: "\<And>d. start \<le> d \<Longrightarrow> d \<le> start + k \<Longrightarrow> visited_at_open bars (sched d) d"
    and len: "start + k < length bars"
  shows "\<exists>acc. live_days env lv bars sched start (Suc k) (JObj [], ledger_start) = Inr acc \<and>
     stored_rel (Some (dy_ts (bars ! (start + k - 1))))
       (opened BASE_COSTS (lv_stop lv) bars (sig bars) PAPER_START_CASH start (start + k)) acc"
  using vis len
proof (induction k)
  case 0
  have "\<exists>bk. open_account env next (JObj []) ledger_start = Inr bk \<and>
      first_days (take start bars) (sig (take start bars)) (ready (take start bars))
        (stamp_ms (JTime (vs_now (hd (sched start))))) (lb_memo bk) = (lb_memo bk, [start - 1]) \<and>
      \<not> me_defer (lb_memo bk) \<and> before_open (bars ! (start - 1)) PAPER_START_CASH start (scoring_start PAPER_START_CASH start) bk"
    for "next"
  proof -
    obtain bk where bk: "open_account env next (JObj []) ledger_start = Inr bk"
        "live_rel None (scoring_start PAPER_START_CASH start) bk" using open_fresh [OF env] by blast
    then show ?thesis
      using before_first [OF tape start(1) _ bk(2)] 0(2) start(2)
      by (auto simp: live_rel_def first_days_def min_def)
  qed
  then show ?case
    using day_visits [OF lv tape env start(1), of start sched "(JObj [], ledger_start)"] 0 by auto
next
  case (Suc k)
  let ?d = "start + k" and ?o = "opened BASE_COSTS (lv_stop lv) bars (sig bars) PAPER_START_CASH start"
  from Suc obtain acc where acc: "live_days env lv bars sched start (Suc k) (JObj [], ledger_start) = Inr acc"
      "stored_rel (Some (dy_ts (bars ! (?d - 1)))) (?o ?d) acc" by auto
  have new: "pending_days (take (Suc ?d) bars) (dy_ts (bars ! (?d - 1))) = [?d]"
    using pending_new [OF tape_okD(1) [OF tape], of "?d - 1"] start(1) Suc.prems(2) by simp
  have "\<exists>bk. open_account env next (fst acc) (snd acc) = Inr bk \<and>
      first_days (take (Suc ?d) bars) sg rd nw (lb_memo bk) = (lb_memo bk, [?d]) \<and> \<not> me_defer (lb_memo bk) \<and>
      before_open (bars ! ?d) PAPER_START_CASH (Suc ?d)
        (score_days BASE_COSTS (lv_stop lv) bars (sig bars) PAPER_START_CASH start (Suc ?d)) bk" for "next" sg rd nw
  proof -
    obtain bk where bk: "open_account env next (fst acc) (snd acc) = Inr bk" "live_rel (Some (dy_ts (bars ! (?d - 1)))) (?o ?d) bk"
      using stored_open [OF acc(2) env opened_facts(1)] by auto
    then show ?thesis
      using before_next [OF tape _ _ bk(2)] Suc.prems(2) new by (auto simp: live_rel_def first_days_def)
  qed
  then show ?case
    using day_visits [OF lv tape env start(1), of "Suc ?d" sched acc] Suc.prems acc(1) by auto
qed

end

end
