(* ===== verification/TradingProperties.thy ===== *)
theory TradingProperties
  imports LiveRuns
begin

text \<open>
  Properties of the daily engine, its indicators and signals, the paper broker and the live account of a
  library champion.
\<close>

section \<open>Runs used by the witnesses\<close>

definition five_days :: "day list" where
  "five_days = map (\<lambda>(i, x, lo). \<lparr>dy_ts = i * DAY_MS, dy_open = x, dy_high = x + 2, dy_low = lo, dy_close = x + 1\<rparr>)
     [(0, 10, 9), (1, 11, 10), (2, 14, 13), (3, 15, 8), (4, 9, 8)]"

definition five_run :: "run_result result" where
  "five_run = run_bars BASE_COSTS (1 / 5) five_days [False, True, True, True, False] 10000 1 5"

lemma five_run_Inr: "\<exists>r. five_run = Inr r"
proof -
  have "int (length five_days) = 5" by (simp add: five_days_def)
  then show ?thesis by (simp add: five_run_def run_bars_def Let_def)
qed

section \<open>Bars\<close>

text \<open>
  Completed days are final: as the tape grows, the daily bars already made do not change, and a bar is
  only made once a candle of a later day is on the tape.
\<close>
lemma completed_days_final:
  assumes "ascending (old @ fresh)"
  shows "(\<exists>zs. daily_bars (old @ fresh) = daily_bars old @ zs) \<and>
    list_all (\<lambda>b. list_ex (\<lambda>c. dy_ts b + DAY_MS \<le> cd_ts c) (tidy old)) (daily_bars old)"
  using daily_bars_grow [OF assms] daily_bar_complete by (auto simp: list_all_iff list_ex_iff)

text \<open>Completed days are final, on three candles of three days.\<close>
lemma completed_days_final_instance:
  "(\<exists>zs. daily_bars ([\<lparr>cd_ts = 0, cd_open = 1, cd_high = 3, cd_low = 1, cd_close = 2\<rparr>,
       \<lparr>cd_ts = 86400000, cd_open = 2, cd_high = 2, cd_low = 2, cd_close = 2\<rparr>] @
       [\<lparr>cd_ts = 172800000, cd_open = 5, cd_high = 5, cd_low = 5, cd_close = 5\<rparr>]) =
     daily_bars [\<lparr>cd_ts = 0, cd_open = 1, cd_high = 3, cd_low = 1, cd_close = 2\<rparr>,
       \<lparr>cd_ts = 86400000, cd_open = 2, cd_high = 2, cd_low = 2, cd_close = 2\<rparr>] @ zs)"
  by (rule completed_days_final [THEN conjunct1]) simp

section \<open>The backtest\<close>

text \<open>
  C4. Every trade of a backtest follows the rule: it is bought at the open after a day whose signal was on,
  held while the signal stays on and no low reached the stop, and sold at the open after the stop was
  reached or the signal turned off, or at the last close; between two trades the signal was off, and a
  day whose signal was on is held or locked out since a stop.
\<close>
theorem trades_follow_rule:
  assumes "run_bars c fr bars sig cash start e = Inr r"
  shows "\<exists>sp. run_spans c fr bars sig (nat start) (nat (min (int (length bars)) e)) sp (rr_trades r)"
  by (rule run_bars_spans [OF assms])

text \<open>The rule of the trades, on five days with a stop.\<close>
theorem trades_follow_rule_witness:
  "\<exists>r sp. five_run = Inr r \<and>
     run_spans BASE_COSTS (1 / 5) five_days [False, True, True, True, False] (nat 1) (nat (min (int (length five_days)) 5)) sp
       (rr_trades r)"
proof -
  obtain r where r: "five_run = Inr r" using five_run_Inr by blast
  show ?thesis using r trades_follow_rule [OF r [unfolded five_run_def]] by blast
qed

text \<open>
  C21. The book of a backtest balances: the last equity is the start cash plus the profit of every trade after
  its two fees, the fees and the days held are those of the trades, and there is one equity per day.
\<close>
theorem book_balances:
  assumes "run_bars c fr bars sig cash start e = Inr r"
  shows "last (rr_equity r) = cash + (\<Sum>t \<leftarrow> rr_trades r. trade_pnl t) \<and>
    rr_fees r = (\<Sum>t \<leftarrow> rr_trades r. tr_entry_fee t + tr_exit_fee t) \<and>
    rr_days_long r = (\<Sum>t \<leftarrow> rr_trades r. tr_days t) \<and> length (rr_equity r) = Suc (nat (run_days r))"
proof -
  note run = run_bars_Inr(1,2) [OF assms]
  have "0 \<le> rr_start r" using run(1) by simp
  then have "nat (run_days r) = nat (rr_end r) - nat (rr_start r)" by (simp add: run_days_def nat_diff_distrib' max_def)
  also have "\<dots> = nat (min (int (length bars)) e) - nat start" by (simp only: run nat_int)
  finally show ?thesis using run_equity [OF assms] by simp
qed

text \<open>The balance, on five days with a stop.\<close>
theorem book_balances_witness:
  "\<exists>r. five_run = Inr r \<and> last (rr_equity r) = 10000 + (\<Sum>t \<leftarrow> rr_trades r. trade_pnl t)"
proof -
  obtain r where r: "five_run = Inr r" using five_run_Inr by blast
  show ?thesis using r book_balances [OF r [unfolded five_run_def]] by blast
qed

text \<open>
  A book is never wiped out: with positive prices and costs below one every equity point is positive, so
  every daily return of the run is defined.
\<close>
lemma equity_stays_positive:
  assumes "run_bars c fr bars sig cash start e = Inr r" "costs_ok c" "prices_ok bars" "0 < cash"
  shows "list_all (\<lambda>x. 0 < x) (rr_equity r)"
proof -
  let ?a = "nat start" and ?b = "nat (min (int (length bars)) e)"
  note run = run_bars_Inr [OF assms(1)]
  show ?thesis
  proof (cases "?a < ?b")
    case True
    let ?s = "score_days c fr bars sig cash ?a ?b"
    have "rr_equity r = sc_points (finish_run c bars ?b ?s)" "?b \<le> length bars" using run(3) [OF True] by auto
    moreover have "scoring_ok cash ?b ?s" "solvent ?s"
      using True \<open>?b \<le> length bars\<close> assms(2-4) by (auto intro!: scoring_ok_days solvent_days)
    ultimately show ?thesis
      using solvent_finish(2) [OF assms(2,3) _ _ _ _ assms(4) refl, of ?b ?s] True by (simp add: list_all_iff)
  next
    case False
    then have "?b \<le> ?a" by (rule leI)
    then have "rr_equity r = [cash]" using run(4) by blast
    then show ?thesis using assms(4) by simp
  qed
qed

text \<open>Positive equity, on five days with a stop.\<close>
lemma equity_stays_positive_instance: "\<exists>r. five_run = Inr r \<and> list_all (\<lambda>x. 0 < x) (rr_equity r)"
proof -
  obtain r where r: "five_run = Inr r" using five_run_Inr by blast
  have "prices_ok five_days" by (simp add: prices_ok_def five_days_def)
  then have "list_all (\<lambda>x. 0 < x) (rr_equity r)"
    using equity_stays_positive [OF r [unfolded five_run_def] base_costs_ok] by simp
  then show ?thesis using r by blast
qed

text \<open>
  C7. The backtest has no lookahead: a run that goes on longer, over bars and signals that agree up to the
  end of the shorter run, has the same equity before the shorter run's last day and the same trades, but for
  a sale on the shorter run's last day and sales after it.
\<close>
theorem backtest_no_lookahead:
  assumes short: "run_bars c fr bars sig cash (int a) (int b) = Inr r"
    and long: "run_bars c fr bars' sig' cash (int a) (int b') = Inr r'"
    and "a < b" "b \<le> b'" "b' \<le> length bars'" "take b bars = take b bars'" "take (b - 1) sig = take (b - 1) sig'"
  shows "\<exists>ts u v. rr_trades r = ts @ u \<and> rr_trades r' = ts @ v \<and>
    list_all (\<lambda>t. tr_exit_ts t = dy_ts (bars ! (b - 1))) u \<and>
    list_all (\<lambda>t. \<exists>d \<ge> b - 1. tr_exit_ts t = dy_ts (bars' ! d)) v \<and>
    butlast (rr_equity r) = take (b - a) (rr_equity r')"
proof -
  let ?s = "score_days c fr bars sig cash a b" and ?l = "score_days c fr bars' sig' cash a b'"
  have len: "b \<le> length bars"
    using arg_cong [OF assms(6), of length] assms(4,5) by simp
  have b: "nat (min (int (length bars)) (int b)) = b" "nat (min (int (length bars')) (int b')) = b'"
    using len assms(5) by auto
  have r: "rr_trades r = sc_trades (finish_run c bars b ?s)" "rr_equity r = sc_points (finish_run c bars b ?s)"
    using run_bars_Inr(3) [OF short] assms(3) unfolding b(1) nat_int by auto
  have r': "rr_trades r' = sc_trades (finish_run c bars' b' ?l)" "rr_equity r' = sc_points (finish_run c bars' b' ?l)"
    using run_bars_Inr(3) [OF long] assms(3,4) unfolding b(2) nat_int by auto
  have "bars ! d = bars' ! d \<and> signal_before sig d = signal_before sig' d" if "d < b" for d
  proof -
    have "bars ! d = take b bars ! d" "bars' ! d = take b bars' ! d" using that by simp_all
    moreover have "sig ! (d - 1) = take (b - 1) sig ! (d - 1)" "sig' ! (d - 1) = take (b - 1) sig' ! (d - 1)" if "1 \<le> d"
      using that \<open>d < b\<close> by simp_all
    ultimately show ?thesis using assms(6,7) by (simp add: signal_before_def)
  qed
  then have eq: "?s = score_days c fr bars' sig' cash a b" by (intro score_days_agree)
  from score_days_grow [of a b b' c fr bars' sig' cash] assms(3,4) obtain p u where pu:
      "sc_points ?l = sc_points ?s @ p" "sc_trades ?l = sc_trades ?s @ u" "\<forall>t \<in> set u. \<exists>d. b \<le> d \<and> d < b' \<and> tr_exit_ts t = dy_ts (bars' ! d)"
    unfolding eq by auto
  have n: "length (sc_points ?s) = Suc (b - a)" "length (sc_points ?l) = Suc (b' - a)" by (rule length_points)+
  then have ne: "sc_points ?s \<noteq> []" "sc_points ?l \<noteq> []" by auto
  note fs = finish_run_grows [OF refl ne(1), of c bars b] and fl = finish_run_grows [OF refl ne(2), of c bars' b']
  from fs obtain x where x: "rr_trades r = sc_trades ?s @ x" "\<forall>t \<in> set x. tr_exit_ts t = dy_ts (bars ! (b - 1))" using r(1) by auto
  from fl obtain y where y: "rr_trades r' = sc_trades ?l @ y" "\<forall>t \<in> set y. tr_exit_ts t = dy_ts (bars' ! (b' - 1))" using r'(1) by auto
  have "\<exists>d \<ge> b - 1. tr_exit_ts t = dy_ts (bars' ! d)" if "t \<in> set (u @ y)" for t
  proof (cases "t \<in> set u")
    case True
    then obtain d where "b \<le> d" "tr_exit_ts t = dy_ts (bars' ! d)" using pu(3) by blast
    then show ?thesis by (intro exI [of _ d]) simp
  next
    case False
    then have "tr_exit_ts t = dy_ts (bars' ! (b' - 1))" using that y(2) by auto
    then show ?thesis using assms(4) by (intro exI [of _ "b' - 1"]) simp
  qed
  moreover have "butlast (rr_equity r) = take (b - a) (rr_equity r')"
  proof -
    have "butlast (rr_equity r) = butlast (sc_points ?s)" using fs r(2) by simp
    then have short: "butlast (rr_equity r) = take (b - a) (sc_points ?s)" by (simp add: butlast_conv_take n(1))
    have "butlast (rr_equity r') = butlast (sc_points ?l)" "length (rr_equity r') = Suc (b' - a)" using fl r'(2) n(2) by simp_all
    then have "take (b' - a) (rr_equity r') = take (b' - a) (sc_points ?l)" using n(2) by (simp add: butlast_conv_take)
    from arg_cong [OF this, of "take (b - a)"]
    have "take (min (b - a) (b' - a)) (rr_equity r') = take (min (b - a) (b' - a)) (sc_points ?l)" by (simp only: take_take)
    moreover have "min (b - a) (b' - a) = b - a" using assms(4) by simp
    ultimately have "take (b - a) (rr_equity r') = take (b - a) (sc_points ?l)" by (simp only:)
    then show ?thesis using short pu(1) n(1) by simp
  qed
  ultimately show ?thesis
    using x y pu(2) by (intro exI [of _ "sc_trades ?s"] exI [of _ x] exI [of _ "u @ y"]) (simp add: list_all_iff)
qed

text \<open>No lookahead: the run over four of the five days against the run over all five.\<close>
theorem backtest_no_lookahead_witness:
  "\<exists>r r'. run_bars BASE_COSTS (1 / 5) five_days [False, True, True, True, False] 10000 (int 1) (int 4) = Inr r \<and>
     run_bars BASE_COSTS (1 / 5) five_days [False, True, True, True, False] 10000 (int 1) (int 5) = Inr r' \<and>
     butlast (rr_equity r) = take (4 - 1) (rr_equity r')"
proof -
  have len: "length five_days = 5" by (simp add: five_days_def)
  obtain r where r: "run_bars BASE_COSTS (1 / 5) five_days [False, True, True, True, False] 10000 (int 1) (int 4) = Inr r"
    using len by (simp add: run_bars_def Let_def)
  obtain r' where r': "run_bars BASE_COSTS (1 / 5) five_days [False, True, True, True, False] 10000 (int 1) (int 5) = Inr r'"
    using len by (simp add: run_bars_def Let_def)
  show ?thesis using r r' backtest_no_lookahead [OF r r'] len by auto
qed

section \<open>Indicators and signals\<close>

text \<open>
  The simple moving average, computed as differences of running sums, is the mean of the last n values
  from index n - 1 on and undefined before.
\<close>
lemma sma_is_window_mean:
  assumes "0 < n" "t < length xs"
  shows "sma n xs ! t = (if Suc t < n then None else Some (mean (take n (drop (Suc t - n) xs))))"
  using assms by (simp add: sma_windowed windowed_nth mean_def)

text \<open>The average of three values over two.\<close>
lemma sma_is_window_mean_instance: "sma 2 [4, 6, 10] ! 2 = Some (mean [6, 10])"
  using sma_is_window_mean [of 2 2 "[4, 6, 10]"] by (simp add: numeral_2_eq_2)

text \<open>
  C22. The signals of the modelled strategies read no later day: on a longer tape the signal of the days
  already there is the same, and on every day whose mask is not ready the signal is off.
\<close>
theorem library_signals_causal:
  assumes "sane_params k p" "library_signal k p = Some (Inr sig)" "signal_ready k p = Some (Inr ready)"
  shows "\<exists>rest rest'. sig (bars @ later) = sig bars @ rest \<and> ready (bars @ later) = ready bars @ rest' \<and>
    list_all2 (\<lambda>s r. \<not> r \<longrightarrow> \<not> s) (sig bars) (ready bars)"
proof -
  note w = warm_parts [OF library_warm [OF assms]]
  have "list_all2 (\<lambda>s r. \<not> r \<longrightarrow> \<not> s) (sig bars) (ready bars)"
    using w(3) causalD(1) [OF w(1)] causalD(1) [OF w(2)] by (auto simp: list_all2_conv_all_nth)
  then show ?thesis using causal.prefix_eq [OF w(1)] causal.prefix_eq [OF w(2)] by blast
qed

text \<open>Causality of the moving average cross, two against three days.\<close>
theorem library_signals_causal_witness:
  "\<exists>rest. sma_cross 2 3 (five_days @ five_days) = sma_cross 2 3 five_days @ rest"
proof -
  have "library_signal ''sma200'' [(''short'', 2), (''long'', 3)] = Some (Inr (sma_cross 2 3))"
    "signal_ready ''sma200'' [(''short'', 2), (''long'', 3)] = Some (Inr (\<lambda>bars. defined_from (length bars) 2))"
    "sane_params ''sma200'' [(''short'', 2), (''long'', 3)]"
    by (simp_all add: library_signal_def signal_ready_def warm_index_def param_def sane_params_def)
  from library_signals_causal [OF this(3,1,2)] show ?thesis by blast
qed

section \<open>The live account\<close>

text \<open>
  C3. The live account of a library champion keeps the book of the backtest. From a fresh account whose first
  run is in the open window, over any number of days with a run at each open and any runs after it, no run
  fails, and what is stored after the last day is what the backtest holds after that day's open: the same cash, the same
  position with its entry price, quantity, fee and stop, and the same trades (only the reason of a sale may
  differ: a stop and a signal that turns off on the same day).
\<close>
theorem live_follows_backtest:
  assumes "sane_params key p" "library_signal key p = Some (Inr (lv_signal lv))" "signal_ready key p = Some (Inr (lv_ready lv))"
    and "tape_ok bars" "assert_paper_only env = Inr ()" "1 \<le> start" "start + k < length bars"
    and "at_daily_open (stamp_ms (JTime (vs_now (hd (sched start)))))"
    and "list_all (\<lambda>d. visited_at_open bars (sched d) d) [start..<Suc (start + k)]"
    and s: "s = opened BASE_COSTS (lv_stop lv) bars (lv_signal lv bars) PAPER_START_CASH start (start + k)"
  shows "\<exists>js ld. live_days env lv bars sched start (Suc k) (JObj [], ledger_start) = Inr (js, ld) \<and> rows_match s ld \<and>
    (\<forall>nxt. \<exists>bk. open_account env nxt js ld = Inr bk \<and> br_cash (lb_broker bk) = sc_cash s \<and>
       lots_match s (br_lots (lb_broker bk)) \<and> lb_machine bk = sc_machine s)"
proof -
  have vis: "\<And>d. start \<le> d \<Longrightarrow> d \<le> start + k \<Longrightarrow> visited_at_open bars (sched d) d"
    using assms(9) by (auto simp: list_all_iff)
  from warm_signal.live_days_match [OF library_warm [OF assms(1-3)] refl refl assms(4-6,8) vis assms(7)]
  obtain acc where acc: "live_days env lv bars sched start (Suc k) (JObj [], ledger_start) = Inr acc"
      "stored_rel (Some (dy_ts (bars ! (start + k - 1)))) s acc" unfolding s by auto
  have op: "mc_long (sc_machine s) \<longleftrightarrow> sc_trade s \<noteq> None" unfolding s by (rule opened_facts) simp
  have "\<exists>bk. open_account env nxt (fst acc) (snd acc) = Inr bk \<and> br_cash (lb_broker bk) = sc_cash s \<and>
      lots_match s (br_lots (lb_broker bk)) \<and> lb_machine bk = sc_machine s" for nxt
    using stored_open [OF acc(2) assms(5) op, of nxt] by (auto simp: live_rel_def book_match_def)
  moreover have "rows_match s (snd acc)" using acc(2) by (auto simp: stored_rel_def live_rel_def book_match_def)
  ultimately show ?thesis using acc(1) by (cases acc) auto
qed

definition demo_strategy :: live_strategy where
  "demo_strategy = \<lparr>lv_key = ''sma200'', lv_stop = 1 / 5, lv_signal = sma_cross 1 2,
     lv_ready = (\<lambda>bars. defined_from (length bars) 1)\<rparr>"

definition demo_visits :: "nat \<Rightarrow> visit list" where
  "demo_visits d =
     [\<lparr>vs_next = int d, vs_price = Some (dy_open (five_days ! d)), vs_now = int d * 86400000000\<rparr>,
      \<lparr>vs_next = int d, vs_price = Some 12, vs_now = int d * 86400000000 + 3600000000\<rparr>]"

text \<open>The live account over three days: the cross of the close over two days, two runs a day.\<close>
theorem live_follows_backtest_witness:
  "\<exists>js ld. live_days None demo_strategy five_days demo_visits 2 (Suc 2) (JObj [], ledger_start) = Inr (js, ld) \<and>
     rows_match (opened BASE_COSTS (lv_stop demo_strategy) five_days (lv_signal demo_strategy five_days) PAPER_START_CASH
       2 (2 + 2)) ld"
proof -
  have key: "library_signal ''sma200'' [(''short'', 1), (''long'', 2)] = Some (Inr (lv_signal demo_strategy))"
    "signal_ready ''sma200'' [(''short'', 1), (''long'', 2)] = Some (Inr (lv_ready demo_strategy))"
    "sane_params ''sma200'' [(''short'', 1), (''long'', 2)]"
    by (simp_all add: demo_strategy_def library_signal_def signal_ready_def warm_index_def param_def sane_params_def)
  have tape: "tape_ok five_days" by (simp add: tape_ok_def five_days_def DAY_MS_def)
  have env: "assert_paper_only None = Inr ()" by code_simp
  have len: "2 + 2 < length five_days" by (simp add: five_days_def)
  have opn: "at_daily_open (stamp_ms (JTime (vs_now (hd (demo_visits 2)))))"
    by (simp add: demo_visits_def at_daily_open_def stamp_ms_def DAY_MS_def CYCLE_INTERVAL_SECONDS_def)
  have vis: "list_all (\<lambda>d. visited_at_open five_days (demo_visits d) d) [2..<Suc (2 + 2)]"
    by (simp add: demo_visits_def visited_at_open_def list_all_iff)
  have "(1::nat) \<le> 2" by simp
  from live_follows_backtest [OF key(3,1,2) tape env this len opn vis refl] show ?thesis by blast
qed

text \<open>
  A run inside a day trades nothing: without a day completed since the last run and without a deferred
  entry, whatever the price, it changes no lot, no cash, no trade row and not the position the rule is in.
\<close>
lemma run_inside_day_trades_nothing:
  assumes "me_last_day (lb_memo bk) = Some d" "\<not> me_defer (lb_memo bk)" "list_all (\<lambda>b. dy_ts b \<le> d) bars"
  shows "\<exists>bk'. live_step lv bars price now_ms now bk = Inr bk' \<and> lb_broker bk' = lb_broker bk \<and>
    lb_machine bk' = lb_machine bk \<and> lb_memo bk' = lb_memo bk \<and> ld_rows (lb_ledger bk') = ld_rows (lb_ledger bk)"
proof -
  have none: "pending_days bars d = []" using assms(3) by (auto simp: pending_days_def list_all_length filter_empty_conv not_less)
  have first: "first_days bars sg rd now_ms (lb_memo bk) = (lb_memo bk, [])" for sg rd
    using assms(1) none by (simp add: first_days_def)
  have same: "bk\<lparr>lb_memo := lb_memo bk, lb_machine := lb_machine bk\<rparr> = bk" by (cases bk) simp
  have "\<exists>as sn. decide lv bars price now_ms now bk = Inr (bk, as, sn)"
    unfolding decide_def Let_def first using assms(2) same by (simp add: act_hold remember_days_def)
  then obtain as sn where dec: "decide lv bars price now_ms now bk = Inr (bk, as, sn)" by blast
  obtain ld where "record_run lv bars price sn as bk = Inr (bk\<lparr>lb_ledger := ld\<rparr>)" "ld_rows ld = ld_rows (lb_ledger bk)"
    using record_run_ok by blast
  then show ?thesis using dec by (auto simp: live_step_def)
qed

definition flat_book :: "memo \<Rightarrow> live_book" where
  "flat_book me =
     \<lparr>lb_broker = \<lparr>br_cash = 10000, br_fee = TAKER_FEE, br_slip = SLIPPAGE, br_lots = [], br_fills = [], br_next = 1\<rparr>,
      lb_memo = me, lb_machine = machine_start, lb_ledger = ledger_start\<rparr>"

text \<open>A run inside the fifth day, with a price far from the close.\<close>
lemma run_inside_day_trades_nothing_instance:
  "\<exists>bk'. live_step demo_strategy five_days 900 None 0
       (flat_book \<lparr>me_last_day = Some (4 * DAY_MS), me_last_signal = Some True, me_defer = False, me_await = None\<rparr>) = Inr bk' \<and>
     lb_broker bk' = lb_broker (flat_book \<lparr>me_last_day = Some (4 * DAY_MS), me_last_signal = Some True, me_defer = False,
       me_await = None\<rparr>)"
proof -
  let ?bk = "flat_book \<lparr>me_last_day = Some (4 * DAY_MS), me_last_signal = Some True, me_defer = False, me_await = None\<rparr>"
  have "list_all (\<lambda>b. dy_ts b \<le> 4 * DAY_MS) five_days" by (simp add: five_days_def DAY_MS_def)
  then show ?thesis using run_inside_day_trades_nothing [of ?bk "4 * DAY_MS" five_days demo_strategy 900 None 0]
    by (auto simp: flat_book_def)
qed

text \<open>
  No entry at an arbitrary price: a flat book that is fresh or whose entry is deferred buys nothing in a
  run outside the 00:00 UTC window, stays flat, and a deferred entry stays deferred.
\<close>
lemma no_entry_inside_day:
  assumes "\<not> mc_long (lb_machine bk)" "me_last_day (lb_memo bk) = None \<or> me_defer (lb_memo bk)" "\<not> at_daily_open now_ms"
  shows "\<exists>bk'. live_step lv bars price now_ms now bk = Inr bk' \<and> lb_broker bk' = lb_broker bk \<and>
    \<not> mc_long (lb_machine bk') \<and> ld_rows (lb_ledger bk') = ld_rows (lb_ledger bk) \<and>
    (me_defer (lb_memo bk) \<longrightarrow> me_defer (lb_memo bk'))"
proof -
  have "\<exists>bk1 as sn. decide lv bars price now_ms now bk = Inr (bk1, as, sn) \<and> lb_broker bk1 = lb_broker bk \<and>
      \<not> mc_long (lb_machine bk1) \<and> lb_ledger bk1 = lb_ledger bk \<and> (me_defer (lb_memo bk) \<longrightarrow> me_defer (lb_memo bk1))"
  proof (cases "bars = []")
    case True then show ?thesis using assms(1) by (simp add: decide_def)
  next
    case False
    let ?sg = "lv_signal lv bars" and ?rd = "lv_ready lv bars"
    obtain me ps where f: "first_days bars ?sg ?rd now_ms (lb_memo bk) = (me, ps)" by fastforce
    have keep: "me_defer (lb_memo bk) \<longrightarrow> me_defer me" "ps = [] \<or> me_defer me"
      using f assms(2,3) by (auto simp: first_days_def Let_def split: option.splits if_splits)
    have dfr: "me_defer (remember_days bars ?sg ?rd ps me) = me_defer me" by (simp add: remember_days_def)
    let ?rp = "fold (replay_day False None bars ?sg ?rd (last ps)) ps \<lparr>rp_machine = lb_machine bk, rp_reason = None\<rparr>"
    have "mc_long (rp_machine ?rp) \<longrightarrow> me_defer me" using keep(2) assms(1) by (cases "ps = []") auto
    then have "\<exists>bk1. act lv cnd price now False False (rp_reason ?rp) sg
        (bk\<lparr>lb_memo := remember_days bars ?sg ?rd ps me, lb_machine := rp_machine ?rp\<rparr>) = Inr (bk1, []) \<and>
      lb_broker bk1 = lb_broker bk \<and> \<not> mc_long (lb_machine bk1) \<and> lb_ledger bk1 = lb_ledger bk \<and>
      me_defer (lb_memo bk1) = me_defer me" for cnd sg
      using dfr by (simp add: act_def Let_def)
    note acts = this
    let ?sn = "if ?rd ! (length bars - 1) then Some (?sg ! (length bars - 1)) else me_last_signal (remember_days bars ?sg ?rd ps me)"
    from acts [of "SYMBOL @ ''|'' @ LIVE_TIMEFRAME @ ''|'' @ lv_key lv" "?sn = Some True"]
    obtain bk1 where bk1: "act lv (SYMBOL @ ''|'' @ LIVE_TIMEFRAME @ ''|'' @ lv_key lv) price now False False (rp_reason ?rp)
          (?sn = Some True) (bk\<lparr>lb_memo := remember_days bars ?sg ?rd ps me, lb_machine := rp_machine ?rp\<rparr>) = Inr (bk1, [])"
        "lb_broker bk1 = lb_broker bk" "\<not> mc_long (lb_machine bk1)" "lb_ledger bk1 = lb_ledger bk"
        "me_defer (lb_memo bk1) = me_defer me" by blast
    have "decide lv bars price now_ms now bk = Inr (bk1, [], ?sn)"
      unfolding decide_def Let_def f prod.case using False assms(1,3) bk1(1) by (simp del: append.simps)
    then show ?thesis using bk1 keep(1) by blast
  qed
  then obtain bk1 as sn where dec: "decide lv bars price now_ms now bk = Inr (bk1, as, sn)" "lb_broker bk1 = lb_broker bk"
      "\<not> mc_long (lb_machine bk1)" "lb_ledger bk1 = lb_ledger bk" "me_defer (lb_memo bk) \<longrightarrow> me_defer (lb_memo bk1)" by blast
  obtain ld where "record_run lv bars price sn as bk1 = Inr (bk1\<lparr>lb_ledger := ld\<rparr>)" "ld_rows ld = ld_rows (lb_ledger bk1)"
    using record_run_ok by blast
  then show ?thesis using dec by (auto simp: live_step_def)
qed

text \<open>A fresh book whose signal is on, an hour after the open.\<close>
lemma no_entry_inside_day_instance:
  "\<exists>bk'. live_step demo_strategy (take 3 five_days) 12 (Some 3600000) 0 (flat_book (memo_of (JObj []))) = Inr bk' \<and>
     lb_broker bk' = lb_broker (flat_book (memo_of (JObj [])))"
proof -
  have "\<not> mc_long (lb_machine (flat_book (memo_of (JObj []))))" "me_last_day (lb_memo (flat_book (memo_of (JObj [])))) = None"
    "\<not> at_daily_open (Some 3600000)"
    by (simp_all add: flat_book_def memo_of_def at_daily_open_def DAY_MS_def CYCLE_INTERVAL_SECONDS_def)
  then show ?thesis using no_entry_inside_day [of "flat_book (memo_of (JObj []))"] by blast
qed

section \<open>The paper broker\<close>

text \<open>
  C32. The stored state of a broker reads back: cash and lots are the same and the next lot id is above every
  lot id in it, whatever broker restores it.
\<close>
theorem broker_state_round_trip:
  assumes "0 \<le> br_next b'"
  shows "\<exists>b''. restore_state (to_state b) b' = Inr b'' \<and> br_cash b'' = br_cash b \<and> br_lots b'' = br_lots b \<and>
    list_all (\<lambda>p. lt_id p < br_next b'') (br_lots b'')"
proof -
  have "lt_id p < br_next b' + int (length (br_lots b)) + max 0 (max_lot (br_lots b))" if "p \<in> set (br_lots b)" for p
  proof -
    have "0 < int (length (br_lots b))" using that by (cases "br_lots b") auto
    then show ?thesis using max_lot_ge [OF that] assms by linarith
  qed
  then show ?thesis by (simp add: restore_to_state list_all_iff)
qed

text \<open>The round trip of one lot.\<close>
theorem broker_state_round_trip_witness:
  "\<exists>b''. restore_state (to_state (lb_broker (flat_book (memo_of JNull))\<lparr>br_lots := [lot_bought ''x'' 1 2 3 4
       (lb_broker (flat_book (memo_of JNull)))]\<rparr>)) (lb_broker (flat_book (memo_of JNull))) = Inr b'' \<and> length (br_lots b'') = 1"
  using broker_state_round_trip [of "lb_broker (flat_book (memo_of JNull))"
      "lb_broker (flat_book (memo_of JNull))\<lparr>br_lots := [lot_bought ''x'' 1 2 3 4 (lb_broker (flat_book (memo_of JNull)))]\<rparr>"]
  by (auto simp: flat_book_def)

text \<open>
  Closing a lot sells from the first lot of its ticker, whichever lot was given: that lot is gone or keeps the
  rest, the other lots of the ticker and of other tickers stay, and when the given lot is larger than the
  first one nothing is sold and an error is raised.
\<close>
lemma close_lot_sells_first:
  assumes "lots_for (lt_ticker p) b = q # rest"
  shows "if lt_qty q + DUST < lt_qty p then \<exists>e. close_lot p px b = Inl (ValueError e)
    else \<exists>b' fl. close_lot p px b = Inr (b', fl) \<and> fl_qty fl = lt_qty p \<and>
      lots_for (lt_ticker p) b' = (if lt_qty q - lt_qty p \<le> DUST then rest else q\<lparr>lt_qty := lt_qty q - lt_qty p\<rparr> # rest) \<and>
      filter (\<lambda>x. lt_ticker x \<noteq> lt_ticker p) (br_lots b') = filter (\<lambda>x. lt_ticker x \<noteq> lt_ticker p) (br_lots b) \<and>
      br_cash b' = br_cash b + (fl_qty fl * fl_price fl - fl_fee fl)"
  using assms reduce_first_lots [of "lt_ticker p" "br_lots b" q rest "lt_qty p"]
  by (simp add: close_lot_eq Let_def lots_for_def reduce_first_other)

definition two_lots :: broker where
  "two_lots = (lb_broker (flat_book (memo_of JNull)))\<lparr>br_lots :=
     [lot_bought ''a'' 1 10 0 9 ((lb_broker (flat_book (memo_of JNull)))), (lot_bought ''b'' 1 20 0 19
       (lb_broker (flat_book (memo_of JNull))))\<lparr>lt_id := 2\<rparr>]\<rparr>"

text \<open>Closing the second of two equal lots removes the first.\<close>
lemma close_lot_sells_first_instance:
  "\<exists>b' fl. close_lot (br_lots two_lots ! 1) 25 two_lots = Inr (b', fl) \<and> map lt_id (br_lots two_lots) = [1, 2] \<and>
     map lt_id (lots_for SYMBOL b') = [2]"
  using close_lot_sells_first [of "br_lots two_lots ! 1" two_lots "br_lots two_lots ! 0" "[br_lots two_lots ! 1]" 25]
  by (auto simp: two_lots_def lots_for_def lot_bought_def flat_book_def DUST_def)

end
