(* ===== verification/MultipleTesting.thy ===== *)
theory MultipleTesting
  imports Numbers
begin

text \<open>
  The statistics of the gate (\<open>trading/multiple_testing.py\<close>, and the annualised Sharpe ratio of
  \<open>trading/buy_and_hold.py\<close>): return moments, the deflated Sharpe ratio and the probability of
  backtest overfitting. Floats are reals and every input is finite. The normal distribution of
  \<open>scipy.stats.norm\<close> is a parameter: its distribution function \<open>cdf\<close> and its quantile function \<open>ppf\<close>.
\<close>

section \<open>Rounding\<close>

text \<open>\<open>round(x, k)\<close> and \<open>f"{x:.kf}"\<close> round half to even.\<close>

definition round_half_even :: "real \<Rightarrow> int" where
  "round_half_even x =
     (let f = \<lfloor>x\<rfloor>; d = x - of_int f in
      if d < 1 / 2 then f else if d > 1 / 2 then f + 1 else if even f then f else f + 1)"

definition round_real :: "nat \<Rightarrow> real \<Rightarrow> rat" where
  "round_real k x = of_int (round_half_even (x * 10 ^ k)) / 10 ^ k"

definition fmt_real :: "nat \<Rightarrow> real \<Rightarrow> string" where
  "fmt_real k x =
     (let n = nat \<bar>round_half_even (x * 10 ^ k)\<bar> in
      (if x < 0 then ''-'' else '''') @ show_nat (n div 10 ^ k) @ ''.'' @ pad0 k (show_nat (n mod 10 ^ k)))"

section \<open>Moments of a return series\<close>

record moments =
  mo_n :: nat
  mo_mean :: real
  mo_std :: real
  mo_sharpe :: real
  mo_skew :: real
  mo_kurtosis :: real

definition central :: "nat \<Rightarrow> real list \<Rightarrow> real" where
  "central k xs = sum_list (map (\<lambda>x. (x - sum_list xs / length xs) ^ k) xs)"

definition return_moments :: "real list \<Rightarrow> moments option" where
  "return_moments vals =
     (let n = length vals in
      if n < 2 then None
      else
        let mean = sum_list vals / n; m2 = central 2 vals / n in
        if m2 \<le> 0 then None
        else
          let m3 = central 3 vals / n; m4 = central 4 vals / n; var_u = central 2 vals / (real n - 1) in
          if var_u \<le> 0 then None
          else Some \<lparr>mo_n = n, mo_mean = mean, mo_std = sqrt var_u, mo_sharpe = mean / sqrt var_u,
                 mo_skew = m3 / m2 powr (3 / 2), mo_kurtosis = m4 / m2 ^ 2\<rparr>)"

definition DAYS_PER_YEAR :: real where "DAYS_PER_YEAR = 365"

text \<open>\<open>statistics.stdev\<close> divides by \<open>n - 1\<close>.\<close>

definition daily_returns_sharpe :: "real list \<Rightarrow> real" where
  "daily_returns_sharpe vals =
     (if length vals < 2 then 0
      else
        let sd = sqrt (central 2 vals / (real (length vals) - 1)) in
        if sd \<le> 1 / 10 ^ 12 then 0 else sum_list vals / length vals / sd * sqrt DAYS_PER_YEAR)"

section \<open>The deflated Sharpe ratio\<close>

definition EULER_MASCHERONI :: real where "EULER_MASCHERONI = 5772156649015328606 / 10 ^ 19"

text \<open>The variance term of the Sharpe estimator\<close>

definition estimator_term :: "real \<Rightarrow> real \<Rightarrow> real \<Rightarrow> real" where
  "estimator_term sharpe skew kurt = 1 - skew * sharpe + ((kurt - 1) / 4) * sharpe * sharpe"

definition sharpe_estimator_std :: "real \<Rightarrow> nat \<Rightarrow> real \<Rightarrow> real \<Rightarrow> real" where
  "sharpe_estimator_std sharpe n skew kurt =
     (if n < 2 then 0
      else
        let inside = estimator_term sharpe skew kurt in
        if inside \<le> 0 then 0 else sqrt (inside / (real n - 1)))"

definition max_normal :: "(real \<Rightarrow> real) \<Rightarrow> int \<Rightarrow> real" where
  "max_normal ppf n =
     (1 - EULER_MASCHERONI) * ppf (1 - 1 / of_int n) + EULER_MASCHERONI * ppf (1 - 1 / (of_int n * exp 1))"

definition expected_maximum_sharpe :: "(real \<Rightarrow> real) \<Rightarrow> int \<Rightarrow> real \<Rightarrow> real result" where
  "expected_maximum_sharpe ppf n_trials sd =
     (if n_trials < 1 then Inl (ValueError ''n_trials must be >= 1'')
      else if sd < 0 then Inl (ValueError ''sharpe_std must be a non-negative finite number'')
      else if n_trials = 1 \<or> sd = 0 then Inr 0
      else Inr (sd * max_normal ppf n_trials))"

definition probabilistic_sharpe_ratio ::
    "(real \<Rightarrow> real) \<Rightarrow> real \<Rightarrow> real \<Rightarrow> nat \<Rightarrow> real \<Rightarrow> real \<Rightarrow> real" where
  "probabilistic_sharpe_ratio cdf sharpe bench n skew kurt =
     (if n < 2 then 0
      else
        let inside = estimator_term sharpe skew kurt in
        if inside \<le> 0 then 0 else cdf ((sharpe - bench) * sqrt (real n - 1) / sqrt inside))"

text \<open>The gate never passes \<open>sharpe_std\<close>; it is the estimator's own.\<close>

definition deflated_sharpe_ratio ::
    "(real \<Rightarrow> real) \<Rightarrow> (real \<Rightarrow> real) \<Rightarrow> real \<Rightarrow> nat \<Rightarrow> int \<Rightarrow> real \<Rightarrow> real \<Rightarrow> real result" where
  "deflated_sharpe_ratio cdf ppf sharpe n n_trials skew kurt =
     (if n_trials < 1 then Inl (ValueError ''n_trials must be >= 1'')
      else
        bind_result (expected_maximum_sharpe ppf n_trials (sharpe_estimator_std sharpe n skew kurt)) (\<lambda>bench.
          Inr (probabilistic_sharpe_ratio cdf sharpe bench n skew kurt)))"

section \<open>The probability of backtest overfitting\<close>

text \<open>\<open>itertools.combinations(range(n), k)\<close>, in its order\<close>

fun combos :: "nat list \<Rightarrow> nat \<Rightarrow> nat list list" where
  "combos xs 0 = [[]]"
| "combos [] (Suc k) = []"
| "combos (x # xs) (Suc k) = map ((#) x) (combos xs k) @ combos xs (Suc k)"

definition combinations :: "nat \<Rightarrow> nat \<Rightarrow> nat list list" where
  "combinations n k = combos [0..<n] k"

definition sharpe_from_sums :: "real \<Rightarrow> real \<Rightarrow> nat \<Rightarrow> real" where
  "sharpe_from_sums s sq cnt =
     (let mean = s / cnt; sgn_large = (if mean > 1 / 10 ^ 15 then 10 ^ 6 else if mean < - 1 / 10 ^ 15 then - (10 ^ 6) else 0) in
      if cnt < 2 then sgn_large
      else
        let var = max ((sq / cnt - mean ^ 2) * (cnt / (real cnt - 1))) 0; sd = sqrt var in
        if sd \<le> 1 / 10 ^ 12 then sgn_large else mean / max sd (1 / 10 ^ 12))"

text \<open>The column \<open>j\<close> of the rows \<open>rs\<close>\<close>

definition column :: "real list list \<Rightarrow> nat \<Rightarrow> nat list \<Rightarrow> real list" where
  "column rows j rs = map (\<lambda>r. rows ! r ! j) rs"

definition column_sharpe :: "real list list \<Rightarrow> nat list \<Rightarrow> nat \<Rightarrow> real" where
  "column_sharpe rows rs j =
     sharpe_from_sums (sum_list (column rows j rs)) (sum_list (map (\<lambda>x. x ^ 2) (column rows j rs))) (length rs)"

text \<open>The code subtracts the in-sample sums from the column sums.\<close>

definition rest_sharpe :: "real list list \<Rightarrow> nat \<Rightarrow> nat list \<Rightarrow> nat \<Rightarrow> real" where
  "rest_sharpe rows s rs j =
     sharpe_from_sums (sum_list (column rows j [0..<s]) - sum_list (column rows j rs))
       (sum_list (map (\<lambda>x. x ^ 2) (column rows j [0..<s])) - sum_list (map (\<lambda>x. x ^ 2) (column rows j rs)))
       (s - length rs)"

text \<open>\<open>np.argmax\<close>: the first index of a maximum\<close>

fun argmax_from :: "nat \<Rightarrow> nat \<Rightarrow> real \<Rightarrow> real list \<Rightarrow> nat" where
  "argmax_from i b v [] = b"
| "argmax_from i b v (x # xs) = (if v < x then argmax_from (Suc i) i x xs else argmax_from (Suc i) b v xs)"

definition argmax :: "real list \<Rightarrow> nat" where
  "argmax xs = argmax_from 1 0 (hd xs) (tl xs)"

text \<open>The 1-based place of column \<open>j\<close> in the stable ascending order\<close>

definition rank_of :: "real list \<Rightarrow> nat \<Rightarrow> nat" where
  "rank_of vs j = length (takeWhile (\<lambda>i. i \<noteq> j) (sort_key (\<lambda>i. vs ! i) [0..<length vs])) + 1"

definition split_is_overfit :: "real list list \<Rightarrow> nat \<Rightarrow> nat \<Rightarrow> nat list \<Rightarrow> bool" where
  "split_is_overfit rows s n rs =
     (let best = argmax (map (column_sharpe rows rs) [0..<n]);
          rank = rank_of (map (rest_sharpe rows s rs) [0..<n]) best
      in real rank / (n + 1) \<le> 1 / 2)"

text \<open>\<open>rows\<close> has one row per window, with one entry per configuration.\<close>

definition probability_of_backtest_overfitting :: "real list list \<Rightarrow> real option" where
  "probability_of_backtest_overfitting rows =
     (let t = length rows; n = (if rows = [] then 0 else length (hd rows)) in
      if n < 2 \<or> t < 2 then None
      else
        let s = (if even t then t else t - 1) in
        if s < 2 then None
        else
          let cs = combinations s (s div 2) in
          if cs = [] then None
          else Some (real (length (filter (split_is_overfit rows s n) cs)) / length cs))"

section \<open>What a gate needs when it asks for a deflated Sharpe ratio\<close>

definition expected_max_multiplier :: "(real \<Rightarrow> real) \<Rightarrow> int \<Rightarrow> real" where
  "expected_max_multiplier ppf n_trials = (if n_trials \<le> 1 then 0 else max_normal ppf n_trials)"

definition hurdle_variance :: "moments \<Rightarrow> real \<Rightarrow> real" where
  "hurdle_variance m s = max (1 / 10 ^ 12) (1 - mo_skew m * s + (mo_kurtosis m - 1) / 4 * s * s)"

record hurdles =
  hu_required :: rat
  hu_days :: "int option"
  hu_psr_days :: "int option"
  hu_multiplier :: rat

definition required_sharpe :: "moments \<Rightarrow> real \<Rightarrow> real" where
  "required_sharpe m need =
     ((\<lambda>req. need * sqrt (hurdle_variance m req / max 1 (real (mo_n m) - 1))) ^^ 20)
       (need * sqrt (1 / max 1 (real (mo_n m) - 1)))"

definition days_for :: "moments \<Rightarrow> real \<Rightarrow> int" where
  "days_for m need = \<lceil>1 + hurdle_variance m (mo_sharpe m) * (need / mo_sharpe m) ^ 2\<rceil>"

definition dsr_hurdles :: "(real \<Rightarrow> real) \<Rightarrow> moments option \<Rightarrow> int \<Rightarrow> real \<Rightarrow> hurdles option" where
  "dsr_hurdles ppf mom n_trials confidence =
     (case mom of
        None \<Rightarrow> None
      | Some m \<Rightarrow>
          let z = ppf confidence; e = expected_max_multiplier ppf n_trials in
          Some \<lparr>hu_required = round_real 3 (required_sharpe m (e + z) * sqrt DAYS_PER_YEAR),
                hu_days = (if mo_sharpe m > 0 then Some (days_for m (e + z)) else None),
                hu_psr_days = (if mo_sharpe m > 0 then Some (days_for m z) else None),
                hu_multiplier = round_real 4 e\<rparr>)"

end
