(* ===== verification/Verdict.thy ===== *)
theory Verdict
  imports Ingest MultipleTesting
begin

text \<open>
  The verdict of gate v7 on a library strategy (\<open>library/evaluate.py\<close>, \<open>library_verdict\<close>): the measured
  numbers are split into vetoes, which decide, and warnings, which are stored and shown. Profits are
  exact rationals, the statistics reals.
\<close>

section \<open>Constants\<close>

definition LIBRARY_MIN_OOS_TRADES :: nat where "LIBRARY_MIN_OOS_TRADES = 8"
definition LIBRARY_HOLDOUT_MIN_TRADES :: nat where "LIBRARY_HOLDOUT_MIN_TRADES = 2"

definition COUNT_CHECKS :: "string list" where "COUNT_CHECKS = [''oos_trades'', ''holdout_trades'']"

definition VETO_CHECKS :: "string list" where
  "VETO_CHECKS = [''windows'', ''oos_trades'', ''oos_pnl'', ''holdout_pnl'', ''holdout_trades'', ''cost_stress'']"

definition WARNING_CHECKS :: "string list" where
  "WARNING_CHECKS =
     [''oos_sharpe'', ''beat_sma_stack'', ''holdout_sharpe'', ''holdout_beat_sma_stack'', ''dsr'', ''pbo'',
      ''neighbours'', ''buy_and_hold'']"

section \<open>One check\<close>

definition check :: "bool \<Rightarrow> jv \<Rightarrow> jv \<Rightarrow> string \<Rightarrow> string \<Rightarrow> jv dict \<Rightarrow> jv" where
  "check passed val thr kind role_name extra =
     JObj ([(''pass'', JBool passed), (''value'', val), (''threshold'', thr), (''kind'', JStr kind),
            (''role'', JStr role_name)] @ extra)"

text \<open>\<open>_r(x, k)\<close> on finite numbers; a missing number is null.\<close>

definition rounded :: "nat \<Rightarrow> rat \<Rightarrow> jv" where
  "rounded k x = JFloat (Fin (round_to k x))"

definition rounded_real :: "nat \<Rightarrow> real \<Rightarrow> jv" where
  "rounded_real k x = JFloat (Fin (round_real k x))"

definition or_null :: "('a \<Rightarrow> jv) \<Rightarrow> 'a option \<Rightarrow> jv" where
  "or_null f v = (case v of None \<Rightarrow> JNull | Some x \<Rightarrow> f x)"

definition money :: "rat \<Rightarrow> string" where "money x = fmt_fixed 2 (Fin x)"
definition percent :: "rat \<Rightarrow> string" where "percent x = show_int (round_even (x * 100)) @ ''%''"

record book_of_checks =
  bk_checks :: "jv dict"
  bk_reasons :: "string list"
  bk_warnings :: "string list"

definition said :: "string option \<Rightarrow> string list" where
  "said t = (case t of None \<Rightarrow> [] | Some s \<Rightarrow> if s = [] then [] else [s])"

definition veto ::
    "string \<Rightarrow> bool \<Rightarrow> jv \<Rightarrow> jv \<Rightarrow> string \<Rightarrow> string option \<Rightarrow> jv dict \<Rightarrow> book_of_checks \<Rightarrow> book_of_checks" where
  "veto key passed val thr kind reason extra b =
     b\<lparr>bk_checks := dset key (check passed val thr kind ''veto'' extra) (bk_checks b),
       bk_reasons := bk_reasons b @ said reason\<rparr>"

definition warn ::
    "string \<Rightarrow> bool \<Rightarrow> jv \<Rightarrow> jv \<Rightarrow> string \<Rightarrow> string option \<Rightarrow> jv dict \<Rightarrow> book_of_checks \<Rightarrow> book_of_checks" where
  "warn key passed val thr kind text extra b =
     b\<lparr>bk_checks := dset key (check passed val thr kind ''warning'' extra) (bk_checks b),
       bk_warnings := bk_warnings b @ said text\<rparr>"

section \<open>The measured numbers\<close>

text \<open>The arguments of \<open>library_verdict\<close>\<close>

record measured =
  me_windows_ok :: bool
  me_windows :: nat
  me_expected :: nat
  me_span :: string
  me_oos_pnl :: rat
  me_oos_trades :: nat
  me_oos_sharpe :: real
  me_sma_oos :: "rat option"
  me_bh_oos :: "rat option"
  me_holdout :: bool
  me_note :: "string option"
  me_hold_pnl :: "rat option"
  me_hold_trades :: "nat option"
  me_hold_sharpe :: "real option"
  me_sma_hold :: "rat option"
  me_bh_hold :: "rat option"
  me_stress_oos :: "rat option"
  me_stress_hold :: "rat option"
  me_dsr :: "real option"
  me_n_trials :: int
  me_pbo :: "real option"
  me_pbo_undefined :: "string option"
  me_neighbours :: "bool list"

text \<open>\<open>x is not None and x > 0\<close>\<close>

definition profit :: "rat option \<Rightarrow> bool" where
  "profit v \<longleftrightarrow> (case v of None \<Rightarrow> False | Some x \<Rightarrow> x > 0)"

definition num_of :: "nat \<Rightarrow> jv" where "num_of n = JInt (int n)"

section \<open>The vetoes\<close>

definition trades_ok :: "measured \<Rightarrow> bool" where
  "trades_ok m \<longleftrightarrow> LIBRARY_MIN_OOS_TRADES \<le> me_oos_trades m"

definition hold_profit :: "measured \<Rightarrow> bool" where
  "hold_profit m \<longleftrightarrow> me_holdout m \<and> profit (me_hold_pnl m)"

definition hold_trades_ok :: "measured \<Rightarrow> bool" where
  "hold_trades_ok m \<longleftrightarrow>
     me_holdout m \<and> (case me_hold_trades m of None \<Rightarrow> False | Some n \<Rightarrow> LIBRARY_HOLDOUT_MIN_TRADES \<le> n)"

definition cost_ok :: "measured \<Rightarrow> bool" where
  "cost_ok m \<longleftrightarrow> profit (me_stress_oos m) \<and> profit (me_stress_hold m)"

definition holdout_note :: "measured \<Rightarrow> string" where
  "holdout_note m =
     (case me_note m of None \<Rightarrow> ''holdout tape missing'' | Some s \<Rightarrow> if s = [] then ''holdout tape missing'' else s)"

definition first_vetoes :: "measured \<Rightarrow> book_of_checks \<Rightarrow> book_of_checks" where
  "first_vetoes m b =
     veto ''oos_pnl'' (me_oos_pnl m > 0) (rounded 2 (me_oos_pnl m)) (JInt 0) ''profit''
       (if me_oos_pnl m > 0 then None else Some (''oos_pnl '' @ money (me_oos_pnl m) @ '' <= 0'')) []
     (veto ''oos_trades'' (trades_ok m) (num_of (me_oos_trades m)) (num_of LIBRARY_MIN_OOS_TRADES) ''count''
       (if trades_ok m then None
        else Some (''oos_trades '' @ show_nat (me_oos_trades m) @ '' < '' @ show_nat LIBRARY_MIN_OOS_TRADES)) []
     (veto ''windows'' (me_windows_ok m) (num_of (me_windows m)) (num_of (me_expected m)) ''structure''
       (if me_windows_ok m then None
        else Some (''windows '' @ show_nat (me_windows m) @ '' do not tile the warmed span ('' @ me_span m @ '')'')) [] b))"

definition missing_veto :: "string \<Rightarrow> string \<Rightarrow> string \<Rightarrow> book_of_checks \<Rightarrow> book_of_checks" where
  "missing_veto key kind note b =
     b\<lparr>bk_checks := dset key (check False JNull JNull kind ''veto'' [(''note'', JStr note)]) (bk_checks b)\<rparr>"

definition trades_text :: "nat option \<Rightarrow> string" where
  "trades_text v = (case v of None \<Rightarrow> ''None'' | Some n \<Rightarrow> show_nat n)"

definition holdout_vetoes :: "measured \<Rightarrow> book_of_checks \<Rightarrow> book_of_checks" where
  "holdout_vetoes m b =
     (if \<not> me_holdout m
      then
        let note = holdout_note m;
            b = missing_veto ''holdout_trades'' ''count'' note (missing_veto ''holdout_pnl'' ''profit'' note b)
        in b\<lparr>bk_reasons := bk_reasons b @ [note]\<rparr>
      else
        veto ''holdout_trades'' (hold_trades_ok m) (or_null num_of (me_hold_trades m)) (num_of LIBRARY_HOLDOUT_MIN_TRADES)
          ''count''
          (if hold_trades_ok m then None
           else Some (''holdout_trades '' @ trades_text (me_hold_trades m) @ '' < '' @
                show_nat LIBRARY_HOLDOUT_MIN_TRADES)) []
        (veto ''holdout_pnl'' (hold_profit m) (or_null (rounded 2) (me_hold_pnl m)) (JInt 0) ''profit''
          (if hold_profit m then None
           else Some (''holdout_pnl '' @ money (case me_hold_pnl m of None \<Rightarrow> 0 | Some x \<Rightarrow> x) @ '' <= 0'')) [] b))"

definition stress_bit :: "string \<Rightarrow> rat option \<Rightarrow> string list" where
  "stress_bit which v =
     (if profit v then []
      else [''cost stress '' @ which @ '' pnl '' @
            (case v of None \<Rightarrow> ''missing'' | Some x \<Rightarrow> money x @ '' <= 0'') @
            '' (2x fee + '' @ show_int (round_even (COST_STRESS_EXTRA_SLIPPAGE * 10000)) @ ''bps)''])"

definition cost_veto :: "measured \<Rightarrow> book_of_checks \<Rightarrow> book_of_checks" where
  "cost_veto m =
     veto ''cost_stress'' (cost_ok m) (or_null (rounded 2) (me_stress_oos m)) (JInt 0) ''robust''
       (if cost_ok m then None
        else Some (join_with ''; '' (stress_bit ''oos'' (me_stress_oos m) @ stress_bit ''holdout'' (me_stress_hold m))))
       [(''holdout_pnl'', or_null (rounded 2) (me_stress_hold m))]"

section \<open>The warnings\<close>

definition sharpe_warning :: "measured \<Rightarrow> book_of_checks \<Rightarrow> book_of_checks" where
  "sharpe_warning m =
     (let ok = me_oos_sharpe m \<ge> of_rat MIN_BACKTEST_SHARPE in
      warn ''oos_sharpe'' ok (rounded_real 4 (me_oos_sharpe m)) (JFloat (Fin MIN_BACKTEST_SHARPE)) ''stat''
        (if ok then None else Some (''oos_sharpe '' @ fmt_real 2 (me_oos_sharpe m) @ '' < 0.3 (daily-equity)'')) [])"

definition beat_warning :: "measured \<Rightarrow> book_of_checks \<Rightarrow> book_of_checks" where
  "beat_warning m =
     (let (beat, text) =
        (case me_sma_oos m of
           None \<Rightarrow> (False, Some ''sma_stack missing'')
         | Some s \<Rightarrow> (me_oos_pnl m > s,
              if me_oos_pnl m > s then None
              else Some (''oos_pnl '' @ money (me_oos_pnl m) @ '' <= sma_stack '' @ money s)))
      in warn ''beat_sma_stack'' beat (rounded 2 (me_oos_pnl m)) (or_null (rounded 2) (me_sma_oos m)) ''baseline'' text [])"

definition skipped_warning :: "string \<Rightarrow> jv \<Rightarrow> string \<Rightarrow> book_of_checks \<Rightarrow> book_of_checks" where
  "skipped_warning key thr note b =
     b\<lparr>bk_checks := dset key (check True JNull thr ''holdout'' ''warning'' [(''note'', JStr note)]) (bk_checks b)\<rparr>"

definition hold_sharpe_warning :: "measured \<Rightarrow> book_of_checks \<Rightarrow> book_of_checks" where
  "hold_sharpe_warning m =
     (let ok = (case me_hold_sharpe m of None \<Rightarrow> False | Some x \<Rightarrow> x \<ge> of_rat MIN_BACKTEST_SHARPE) in
      warn ''holdout_sharpe'' ok (or_null (rounded_real 4) (me_hold_sharpe m)) (JFloat (Fin MIN_BACKTEST_SHARPE))
        ''holdout''
        (if ok then None
         else Some (''holdout_sharpe '' @ fmt_real 2 (case me_hold_sharpe m of None \<Rightarrow> 0 | Some x \<Rightarrow> x) @
              '' < 0.3 (daily-equity)'')) [])"

definition hold_beat_warning :: "measured \<Rightarrow> book_of_checks \<Rightarrow> book_of_checks" where
  "hold_beat_warning m =
     (let (beat, text) =
        (case me_sma_hold m of
           None \<Rightarrow> (False, Some ''holdout sma_stack missing'')
         | Some s \<Rightarrow>
             let beat = (case me_hold_pnl m of None \<Rightarrow> False | Some x \<Rightarrow> x > s)
             in (beat, if beat then None
                       else Some (''holdout_pnl '' @ money (case me_hold_pnl m of None \<Rightarrow> 0 | Some x \<Rightarrow> x) @
                            '' <= sma_stack '' @ money s)))
      in warn ''holdout_beat_sma_stack'' beat (or_null (rounded 2) (me_hold_pnl m)) (or_null (rounded 2) (me_sma_hold m))
           ''holdout'' text [])"

definition holdout_warnings :: "measured \<Rightarrow> book_of_checks \<Rightarrow> book_of_checks" where
  "holdout_warnings m b =
     (if \<not> me_holdout m
      then skipped_warning ''holdout_beat_sma_stack'' JNull (holdout_note m)
             (skipped_warning ''holdout_sharpe'' (JFloat (Fin MIN_BACKTEST_SHARPE)) (holdout_note m) b)
      else hold_beat_warning m (hold_sharpe_warning m b))"

definition dsr_ok :: "measured \<Rightarrow> bool" where
  "dsr_ok m \<longleftrightarrow> (case me_dsr m of None \<Rightarrow> False | Some x \<Rightarrow> x \<ge> of_rat DSR_MIN_PROBABILITY)"

definition dsr_warning :: "measured \<Rightarrow> book_of_checks \<Rightarrow> book_of_checks" where
  "dsr_warning m =
     warn ''dsr'' (dsr_ok m) (or_null (rounded_real 4) (me_dsr m)) (JFloat (Fin DSR_MIN_PROBABILITY)) ''robust''
       (case me_dsr m of
          None \<Rightarrow> Some ''dsr daily returns missing''
        | Some x \<Rightarrow> if dsr_ok m then None
             else Some (''dsr '' @ fmt_real 3 x @ '' < 0.95 (n_trials='' @ show_int (me_n_trials m) @ '')''))
       [(''n_trials'', JInt (me_n_trials m))]"

definition pbo_result :: "measured \<Rightarrow> bool \<times> string option" where
  "pbo_result m =
     (let undef = (case me_pbo_undefined m of None \<Rightarrow> [] | Some s \<Rightarrow> s) in
      if undef \<noteq> [] then (False, Some undef)
      else case me_pbo m of
        None \<Rightarrow> (False, Some ''pbo undefined'')
      | Some p \<Rightarrow> if p > of_rat PBO_MAX then (False, Some (''pbo '' @ fmt_real 3 p @ '' > 0.2'')) else (True, None))"

definition pbo_warning :: "measured \<Rightarrow> book_of_checks \<Rightarrow> book_of_checks" where
  "pbo_warning m =
     warn ''pbo'' (fst (pbo_result m)) (or_null (rounded_real 4) (me_pbo m)) (JFloat (Fin PBO_MAX)) ''robust''
       (snd (pbo_result m)) []"

definition passing_neighbours :: "measured \<Rightarrow> nat" where
  "passing_neighbours m = length (filter id (me_neighbours m))"

definition neighbour_share :: "measured \<Rightarrow> rat" where
  "neighbour_share m =
     (if me_neighbours m = [] then 0 else of_nat (passing_neighbours m) / of_nat (length (me_neighbours m)))"

definition neighbours_ok :: "measured \<Rightarrow> bool" where
  "neighbours_ok m \<longleftrightarrow>
     me_neighbours m \<noteq> [] \<and> neighbour_share m + 1 / 10 ^ 12 \<ge> NEIGHBOR_PASS_MIN_FRACTION"

definition neighbours_warning :: "measured \<Rightarrow> book_of_checks \<Rightarrow> book_of_checks" where
  "neighbours_warning m =
     (let n = length (me_neighbours m); k = passing_neighbours m in
      warn ''neighbours'' (neighbours_ok m) (JStr (show_nat k @ ''/'' @ show_nat n))
        (JFloat (Fin NEIGHBOR_PASS_MIN_FRACTION)) ''robust''
        (if n = 0 then Some ''no parameter neighbours (lone spike)''
         else if \<not> neighbours_ok m
         then Some (''neighbours '' @ show_nat k @ ''/'' @ show_nat n @ '' = '' @ percent (neighbour_share m) @ '' < '' @
                percent NEIGHBOR_PASS_MIN_FRACTION)
         else None)
        [(''n_pass'', num_of k), (''total'', num_of n)])"

definition hold_bits :: "measured \<Rightarrow> string list" where
  "hold_bits m =
     (if \<not> me_holdout m then []
      else case me_bh_hold m of
        None \<Rightarrow> [''buy-and-hold holdout missing'']
      | Some s \<Rightarrow>
          (case me_hold_pnl m of
             None \<Rightarrow> []
           | Some x \<Rightarrow> if x \<le> s then [''holdout_pnl '' @ money x @ '' <= buy-and-hold '' @ money s] else []))"

definition oos_bits :: "measured \<Rightarrow> string list" where
  "oos_bits m =
     (case me_bh_oos m of
        None \<Rightarrow> [''buy-and-hold oos missing'']
      | Some s \<Rightarrow>
          if me_oos_pnl m \<le> s then [''oos_pnl '' @ money (me_oos_pnl m) @ '' <= buy-and-hold '' @ money s] else [])"

definition buy_and_hold_warning :: "measured \<Rightarrow> book_of_checks \<Rightarrow> book_of_checks" where
  "buy_and_hold_warning m =
     (let bits = oos_bits m @ hold_bits m in
      warn ''buy_and_hold'' (bits = []) (rounded 2 (me_oos_pnl m)) (or_null (rounded 2) (me_bh_oos m)) ''baseline''
        (if bits = [] then None else Some (join_with ''; '' bits)) [(''role_note'', JStr BH_METRIC_ROLE)])"

section \<open>The verdict\<close>

definition passes :: "jv dict \<Rightarrow> string \<Rightarrow> bool" where
  "passes checks k = truthy (jget (jget (JObj checks) k) ''pass'')"

definition count_only_failure :: "jv dict \<Rightarrow> bool" where
  "count_only_failure checks \<longleftrightarrow>
     (let failing = filter (\<lambda>k. \<not> passes checks k) VETO_CHECKS in
      failing \<noteq> [] \<and> list_all (\<lambda>k. k \<in> set COUNT_CHECKS) failing)"

record verdict =
  vd_checks :: "jv dict"
  vd_reasons :: "string list"
  vd_warnings :: "string list"
  vd_failing :: "string list"
  vd_warning_keys :: "string list"
  vd_qualified :: bool
  vd_count_only :: bool
  vd_oos_pnl_pass :: bool
  vd_trades_pass :: bool
  vd_holdout_pass :: bool
  vd_cost_pass :: bool
  vd_perturb_pass :: bool
  vd_dsr_pass :: bool
  vd_pbo_pass :: bool
  vd_neighbours_pass :: nat
  vd_neighbours :: nat

definition vetoes :: "measured \<Rightarrow> book_of_checks" where
  "vetoes m =
     cost_veto m (holdout_vetoes m (first_vetoes m \<lparr>bk_checks = [], bk_reasons = [], bk_warnings = []\<rparr>))"

definition all_checks :: "measured \<Rightarrow> book_of_checks" where
  "all_checks m =
     buy_and_hold_warning m (neighbours_warning m (pbo_warning m (dsr_warning m
       (holdout_warnings m (beat_warning m (sharpe_warning m (vetoes m)))))))"

definition library_verdict :: "measured \<Rightarrow> verdict" where
  "library_verdict m =
     (let b = all_checks m; checks = bk_checks b; failing = filter (\<lambda>k. \<not> passes checks k) VETO_CHECKS in
      \<lparr>vd_checks = checks, vd_reasons = bk_reasons b, vd_warnings = bk_warnings b, vd_failing = failing,
       vd_warning_keys = filter (\<lambda>k. \<not> passes checks k) WARNING_CHECKS, vd_qualified = (failing = []),
       vd_count_only = count_only_failure checks, vd_oos_pnl_pass = (me_oos_pnl m > 0),
       vd_trades_pass = (trades_ok m \<and> hold_trades_ok m),
       vd_holdout_pass = (me_holdout m \<and> hold_profit m \<and> hold_trades_ok m), vd_cost_pass = cost_ok m,
       vd_perturb_pass = neighbours_ok m, vd_dsr_pass = dsr_ok m, vd_pbo_pass = fst (pbo_result m),
       vd_neighbours_pass = passing_neighbours m, vd_neighbours = length (me_neighbours m)\<rparr>)"

definition library_pass_attestation :: "jv dict \<Rightarrow> jv" where
  "library_pass_attestation extra =
     JObj (fold (\<lambda>(k, v) d. dset k v d) extra
       [(''passed'', JBool True), (''rules'', JStr GATE_RULES), (''oos_pnl_pass'', JBool True), (''trades_pass'', JBool True),
        (''holdout_pass'', JBool True), (''cost_pass'', JBool True)])"

end
