(* ===== verification/Evaluate.thy ===== *)
theory Evaluate
  imports Verdict Signals EngineFacts
begin

text \<open>
  The evaluation of one library strategy (\<open>library/evaluate.py\<close>): the batch data with its warmed
  start and blocks, the metrics of one continuous book, and the record with its gate block that a
  worker posts. \<open>rules\<close> carries the \<open>signal\<close> and warm-up functions of the declaration table, \<open>cards\<close> its texts;
  \<open>scipy.stats.norm\<close> is the pair of functions of \<open>MultipleTesting\<close>.
\<close>

section \<open>Costs and blocks\<close>

definition STRESS_COSTS :: costs where
  "STRESS_COSTS =
     \<lparr>ct_fee = ct_fee BASE_COSTS * COST_STRESS_FEE_MULTIPLE, ct_slip = ct_slip BASE_COSTS + COST_STRESS_EXTRA_SLIPPAGE\<rparr>"

definition LIBRARY_TAPE_START_SLACK_MS :: int where "LIBRARY_TAPE_START_SLACK_MS = 2 * 86400000"
definition LIBRARY_BLOCK_TARGET_DAYS :: int where "LIBRARY_BLOCK_TARGET_DAYS = 390"

definition assert_library_history :: "day list \<Rightarrow> unit result" where
  "assert_library_history bars =
     (if bars = [] \<or> dy_ts (hd bars) > LIBRARY_TAPE_START_MS + LIBRARY_TAPE_START_SLACK_MS
      then Inl (ValueError ''BTC daily tape does not start at 2017-08-17'') else Inr ())"

text \<open>Quotients of milliseconds are exact; \<open>round\<close> rounds half to even.\<close>

definition block_count :: "int \<Rightarrow> int" where
  "block_count width = max 1 (round_even (of_int width / of_int (LIBRARY_BLOCK_TARGET_DAYS * DAY_MS)))"

definition block_edges :: "int \<Rightarrow> int \<Rightarrow> int list" where
  "block_edges start_ms end_ms =
     (let width = end_ms - start_ms; n = block_count width in
      (map (\<lambda>k. start_ms + (width * int k) div n) [0..<nat n + 1])[nat n := end_ms])"

definition tile_blocks :: "int \<Rightarrow> int \<Rightarrow> (int \<times> int) list result" where
  "tile_blocks start_ms end_ms =
     (if end_ms - start_ms \<le> 0 then Inl (ValueError ''library block span is empty'')
      else let es = block_edges start_ms end_ms in Inr (zip es (tl es)))"

section \<open>The batch\<close>

record library_data =
  ld_discovery :: "day list"
  ld_holdout :: "day list option"
  ld_score :: nat
  ld_segments :: "(int \<times> int) list"
  ld_note :: "string option"

record library_rules =
  ru_signal :: "lib_strategy \<Rightarrow> int dict \<Rightarrow> day list \<Rightarrow> bool list result"
  ru_ready :: "lib_strategy \<Rightarrow> int dict \<Rightarrow> day list \<Rightarrow> bool list result"

text \<open>The loop of \<open>_blocks_tile\<close>\<close>

fun chained :: "int \<Rightarrow> (int \<times> int) list \<Rightarrow> int option" where
  "chained prev [] = Some prev"
| "chained prev ((a, b) # bs) = (if a \<noteq> prev \<or> b \<le> a then None else chained b bs)"

definition blocks_tile :: "library_data \<Rightarrow> bool" where
  "blocks_tile d \<longleftrightarrow>
     (let segs = ld_segments d in
      if segs = [] \<or> length (ld_discovery d) \<le> ld_score d then False
      else
        let score_ts = dy_ts (ld_discovery d ! ld_score d) in
        if fst (hd segs) \<noteq> score_ts \<or> snd (last segs) \<noteq> HOLDOUT_START_MS then False
        else chained score_ts segs = Some HOLDOUT_START_MS)"

definition not_warm :: "'a result" where
  "not_warm = Inl (ValueError ''a missing lookback is not scored as flat'')"

text \<open>One grid point of \<open>library_score_index\<close>\<close>

definition first_warm :: "bool list \<Rightarrow> nat \<Rightarrow> nat result" where
  "first_warm rdy n =
     (let i = length (takeWhile Not rdy) in
      if i = length rdy \<or> \<not> list_all id (drop i rdy) then not_warm
      else if i + 1 \<ge> n then not_warm
      else Inr (i + 1))"

definition library_score_index :: "library_rules \<Rightarrow> lib_strategy list \<Rightarrow> day list \<Rightarrow> nat result" where
  "library_score_index rl lib bars =
     (if length bars < 2 then Inl (ValueError ''BTC daily tape cannot warm the library (fewer than 2 days)'')
      else
        bind_result
          (map_results (\<lambda>(s, p). bind_result (ru_ready rl s p bars) (\<lambda>rdy. first_warm rdy (length bars)))
             (concat (map (\<lambda>s. map (Pair s) (grid_params s)) lib)))
          (\<lambda>firsts. Inr (fold max firsts 1)))"

definition build_library_data :: "library_rules \<Rightarrow> lib_strategy list \<Rightarrow> day list \<Rightarrow> library_data result" where
  "build_library_data rl lib full =
     bind_result (assert_library_history full) (\<lambda>_.
       let disc = before full HOLDOUT_START_MS in
       if disc \<noteq> [] \<and> dy_ts (last disc) \<ge> HOLDOUT_START_MS
       then Inl (RuntimeError ''discovery daily bars reach the holdout'')
       else if disc = [] \<or> dy_ts (last disc) < HOLDOUT_START_MS - DAY_MS
       then Inl (ValueError ''daily tape does not reach the day before the holdout'')
       else
         bind_result (library_score_index rl lib disc) (\<lambda>score.
         bind_result (tile_blocks (dy_ts (disc ! score)) HOLDOUT_START_MS) (\<lambda>segs.
           let complete = full \<noteq> [] \<and> dy_ts (last full) \<ge> HOLDOUT_END_MS - DAY_MS in
           Inr \<lparr>ld_discovery = disc, ld_holdout = (if complete then Some (before full HOLDOUT_END_MS) else None),
                ld_score = score, ld_segments = segs,
                ld_note = (if complete then None
                           else Some ''holdout tape incomplete (needs every day through 2026-09-30)'')\<rparr>)))"

definition library_data_from_tape :: "library_rules \<Rightarrow> lib_strategy list \<Rightarrow> candle list \<Rightarrow> library_data result" where
  "library_data_from_tape rl lib cs = build_library_data rl lib (daily_bars cs)"

definition require_ready :: "library_rules \<Rightarrow> lib_strategy \<Rightarrow> day list \<Rightarrow> int dict \<Rightarrow> nat \<Rightarrow> nat \<Rightarrow> unit result" where
  "require_ready rl s bars params start e =
     bind_result (ru_ready rl s params bars) (\<lambda>rdy.
       let lo = int start - 1; hi = int e - 1 in
       if lo < 0 \<or> hi > int (length rdy) \<or> hi \<le> lo \<or> \<not> list_all id (drop (nat lo) (take (nat hi) rdy))
       then not_warm else Inr ())"

section \<open>One continuous book\<close>

record span_metrics =
  sp_result :: run_result
  sp_returns :: "rat list"
  sp_sharpe :: real
  sp_trades :: nat
  sp_pnl :: rat
  sp_window_pnl :: "rat list"
  sp_window_trades :: "nat list"
  sp_bounds :: "(int \<times> int) list"
  sp_max_dd :: rat
  sp_total_return :: rat
  sp_exposure :: rat
  sp_avg_hold :: "rat option"
  sp_win_rate :: rat
  sp_exits :: "nat dict"

fun running_peak :: "rat \<Rightarrow> rat list \<Rightarrow> rat list" where
  "running_peak v [] = []"
| "running_peak v (x # xs) = max v x # running_peak (max v x) xs"

definition max_drawdown :: "rat list \<Rightarrow> rat" where
  "max_drawdown points =
     (if length points < 2 then 0
      else
        let peak = running_peak (hd points) points;
            dd = map2 (\<lambda>k x. if k > 0 then (k - x) / k else 0) peak points
        in foldl max (hd dd) (tl dd))"

text \<open>\<open>xs[i]\<close> with Python's negative indices\<close>

definition py_index :: "'a list \<Rightarrow> int \<Rightarrow> 'a result" where
  "py_index xs i =
     (if 0 \<le> i \<and> i < int (length xs) then Inr (xs ! nat i)
      else if - int (length xs) \<le> i \<and> i < 0 then Inr (xs ! nat (int (length xs) + i))
      else Inl (IndexError ''index out of bounds''))"

definition window_bounds :: "day list \<Rightarrow> nat \<Rightarrow> nat \<Rightarrow> int \<times> int \<Rightarrow> int \<times> int" where
  "window_bounds bars start e seg =
     (int (max start (index_of bars (fst seg))) - int start, int (min e (index_of bars (snd seg))) - int start)"

definition index_or :: "rat \<Rightarrow> rat list \<Rightarrow> int \<Rightarrow> rat result" where
  "index_or d xs i = (if int (length xs) > i then py_index xs i else Inr d)"

definition window_profit :: "rat list \<Rightarrow> int \<times> int \<Rightarrow> rat result" where
  "window_profit eq ab =
     bind_result (index_or 0 eq (fst ab)) (\<lambda>bs.
     bind_result (index_or bs eq (snd ab)) (\<lambda>top.
       Inr (if bs > 0 then PAPER_START_CASH * (top / bs - 1) else 0)))"

definition window_trades :: "trade list \<Rightarrow> int \<times> int \<Rightarrow> nat" where
  "window_trades ts seg = length (filter (\<lambda>t. fst seg \<le> tr_exit_ts t \<and> tr_exit_ts t < snd seg) ts)"

definition count_exits :: "trade list \<Rightarrow> nat dict" where
  "count_exits ts =
     fold (\<lambda>t d. dset (tr_reason t) ((case dget d (tr_reason t) of None \<Rightarrow> 0 | Some n \<Rightarrow> n) + 1) d) ts []"

definition span_metrics ::
    "day list \<Rightarrow> bool list \<Rightarrow> nat \<Rightarrow> nat \<Rightarrow> (int \<times> int) list \<Rightarrow> costs \<Rightarrow> rat \<Rightarrow> span_metrics result" where
  "span_metrics bars sig start e segs c fr =
     bind_result (run_bars c fr bars sig PAPER_START_CASH (int start) (int e)) (\<lambda>r.
       let eq = rr_equity r; ts = rr_trades r; bounds = map (window_bounds bars start e) segs in
       bind_result (map_results (window_profit eq) bounds) (\<lambda>wp.
         Inr \<lparr>sp_result = r, sp_returns = run_returns r,
              sp_sharpe = daily_returns_sharpe (map of_rat (run_returns r)), sp_trades = length ts,
              sp_pnl = sum_list wp, sp_window_pnl = wp, sp_window_trades = map (window_trades ts) segs,
              sp_bounds = bounds, sp_max_dd = max_drawdown eq,
              sp_total_return = (if eq \<noteq> [] \<and> hd eq > 0 then last eq / hd eq - 1 else 0),
              sp_exposure = (if run_days r \<noteq> 0 then of_nat (rr_days_long r) / of_int (run_days r) else 0),
              sp_avg_hold = (if ts = [] then None
                             else Some (of_nat (sum_list (map tr_days ts)) / of_nat (length ts))),
              sp_win_rate = (if ts = [] then 0
                             else of_nat (length (filter (\<lambda>t. trade_pnl t > 0) ts)) / of_nat (length ts)),
              sp_exits = count_exits ts\<rparr>))"

definition discovery_metrics ::
    "library_rules \<Rightarrow> library_data \<Rightarrow> lib_strategy \<Rightarrow> int dict \<Rightarrow> costs \<Rightarrow> span_metrics result" where
  "discovery_metrics rl d s params c =
     (let a = ld_score d; b = length (ld_discovery d) in
      bind_result (require_ready rl s (ld_discovery d) params a b) (\<lambda>_.
      bind_result (ru_signal rl s params (ld_discovery d)) (\<lambda>sig.
        span_metrics (ld_discovery d) sig a b (ld_segments d) c (ls_stop s))))"

definition optional :: "('a \<Rightarrow> 'b result) \<Rightarrow> 'a option \<Rightarrow> 'b option result" where
  "optional f v = (case v of None \<Rightarrow> Inr None | Some x \<Rightarrow> bind_result (f x) (\<lambda>y. Inr (Some y)))"

definition HOLDOUT_SEGMENT :: "(int \<times> int) list" where "HOLDOUT_SEGMENT = [(HOLDOUT_START_MS, HOLDOUT_END_MS)]"

definition holdout_metrics ::
    "library_rules \<Rightarrow> library_data \<Rightarrow> lib_strategy \<Rightarrow> int dict \<Rightarrow> costs \<Rightarrow> span_metrics option result" where
  "holdout_metrics rl d s params c =
     optional (\<lambda>bars.
       let a = index_of bars HOLDOUT_START_MS in
       bind_result (require_ready rl s bars params a (length bars)) (\<lambda>_.
       bind_result (ru_signal rl s params bars) (\<lambda>sig.
         span_metrics bars sig a (length bars) HOLDOUT_SEGMENT c (ls_stop s)))) (ld_holdout d)"

datatype bench = BuyHold | SmaStack

text \<open>\<open>_benchmark\<close> without its cache, on either span\<close>

definition bench_signal :: "bench \<Rightarrow> day list \<Rightarrow> bool list" where
  "bench_signal w bars = (case w of BuyHold \<Rightarrow> replicate (length bars) True | SmaStack \<Rightarrow> sma_stack_signal bars)"

definition bench_discovery :: "library_data \<Rightarrow> bench \<Rightarrow> costs \<Rightarrow> span_metrics result" where
  "bench_discovery d w c =
     span_metrics (ld_discovery d) (bench_signal w (ld_discovery d)) (ld_score d) (length (ld_discovery d))
       (ld_segments d) c 0"

definition bench_holdout :: "library_data \<Rightarrow> bench \<Rightarrow> costs \<Rightarrow> span_metrics option result" where
  "bench_holdout d w c =
     optional (\<lambda>bars. span_metrics bars (bench_signal w bars) (index_of bars HOLDOUT_START_MS) (length bars)
       HOLDOUT_SEGMENT c 0) (ld_holdout d)"

definition book_pnl :: "span_metrics \<Rightarrow> rat" where
  "book_pnl m = (let eq = rr_equity (sp_result m) in if eq = [] then 0 else last eq - hd eq)"

section \<open>Texts of the record\<close>

text \<open>Year, month and day of a day number since 1970-01-01 (the Gregorian calendar of \<open>datetime\<close>)\<close>

definition civil_date :: "int \<Rightarrow> int \<times> int \<times> int" where
  "civil_date days =
     (let z = days + 719468; era = z div 146097; doe = z - era * 146097;
          yoe = (doe - doe div 1460 + doe div 36524 - doe div 146096) div 365;
          doy = doe - (365 * yoe + yoe div 4 - yoe div 100); mp = (5 * doy + 2) div 153;
          m = (if mp < 10 then mp + 3 else mp - 9)
      in (yoe + era * 400 + (if m \<le> 2 then 1 else 0), m, doy - (153 * mp + 2) div 5 + 1))"

definition iso_day :: "int \<Rightarrow> string" where
  "iso_day ts =
     (let (y, m, d) = civil_date (ts div DAY_MS)
      in pad0 4 (show_int y) @ ''-'' @ pad0 2 (show_int m) @ ''-'' @ pad0 2 (show_int d))"

definition summary :: "span_metrics \<Rightarrow> jv dict" where
  "summary m =
     [(''daily_sharpe'', rounded_real 4 (sp_sharpe m)), (''trades'', num_of (sp_trades m)),
      (''pnl'', rounded 2 (sp_pnl m)), (''max_drawdown'', rounded 4 (sp_max_dd m)),
      (''total_return'', rounded 4 (sp_total_return m)), (''exposure'', rounded 4 (sp_exposure m)),
      (''avg_hold_days'', or_null (rounded 2) (sp_avg_hold m)), (''win_rate'', rounded 4 (sp_win_rate m)),
      (''days'', num_of (length (sp_returns m))), (''fees'', rounded 2 (rr_fees (sp_result m))),
      (''exits'', JObj (map (\<lambda>(k, n). (k, num_of n)) (sp_exits m)))]"

definition summary_net :: "span_metrics \<Rightarrow> jv" where
  "summary_net m = JObj (summary m @ [(''net_pnl'', rounded 2 (book_pnl m))])"

section \<open>The measurements\<close>

text \<open>One neighbour: its four books, and the three profit checks\<close>

record neighbour =
  nb_name :: string
  nb_params :: "int dict"
  nb_disc :: span_metrics
  nb_hold :: "span_metrics option"
  nb_stress :: span_metrics
  nb_stress_hold :: "span_metrics option"

definition neighbour_pass :: "neighbour \<Rightarrow> bool" where
  "neighbour_pass nb \<longleftrightarrow>
     book_pnl (nb_disc nb) > 0 \<and> profit (map_option book_pnl (nb_hold nb)) \<and> book_pnl (nb_stress nb) > 0 \<and>
     profit (map_option book_pnl (nb_stress_hold nb))"

definition measure_neighbour ::
    "library_rules \<Rightarrow> lib_strategy list \<Rightarrow> library_data \<Rightarrow> lib_strategy \<Rightarrow> string \<Rightarrow> neighbour result" where
  "measure_neighbour rl lib d s name =
     bind_result (parse_variant lib name) (\<lambda>(_, p).
     bind_result (discovery_metrics rl d s p BASE_COSTS) (\<lambda>m.
     bind_result (holdout_metrics rl d s p BASE_COSTS) (\<lambda>h.
     bind_result (discovery_metrics rl d s p STRESS_COSTS) (\<lambda>sm.
     bind_result (holdout_metrics rl d s p STRESS_COSTS) (\<lambda>sh.
       Inr \<lparr>nb_name = name, nb_params = p, nb_disc = m, nb_hold = h, nb_stress = sm, nb_stress_hold = sh\<rparr>)))))"

definition neighbour_json :: "neighbour \<Rightarrow> jv" where
  "neighbour_json nb =
     JObj [(''name'', JStr (nb_name nb)), (''params'', JObj (map (\<lambda>(k, v). (k, JInt v)) (nb_params nb))),
       (''daily_sharpe'', rounded_real 4 (sp_sharpe (nb_disc nb))), (''trades'', num_of (sp_trades (nb_disc nb))),
       (''pnl'', rounded 2 (book_pnl (nb_disc nb))),
       (''holdout_pnl'', or_null (rounded 2) (map_option book_pnl (nb_hold nb))),
       (''stress_oos_pnl'', rounded 2 (book_pnl (nb_stress nb))),
       (''stress_holdout_pnl'', or_null (rounded 2) (map_option book_pnl (nb_stress_hold nb))),
       (''pass'', JBool (neighbour_pass nb))]"

text \<open>Everything \<open>evaluate_library_record\<close> computes before the verdict\<close>

record evaluation =
  ev_name :: string
  ev_strategy :: lib_strategy
  ev_params :: "int dict"
  ev_trials :: int
  ev_disc :: span_metrics
  ev_bh :: span_metrics
  ev_sma :: span_metrics
  ev_hold :: "span_metrics option"
  ev_hold_bh :: "span_metrics option"
  ev_hold_sma :: "span_metrics option"
  ev_stress :: span_metrics
  ev_stress_hold :: "span_metrics option"
  ev_stress_bh :: span_metrics
  ev_neighbours :: "neighbour list"
  ev_moments :: "moments option"
  ev_dsr :: "real option"
  ev_hurdles :: "hurdles option"
  ev_pbo :: "real option"

definition window_matrix :: "span_metrics \<Rightarrow> neighbour list \<Rightarrow> real list list" where
  "window_matrix m nbs =
     (let cols = map of_rat (sp_window_pnl m) # map (\<lambda>nb. map of_rat (sp_window_pnl (nb_disc nb))) nbs
      in map (\<lambda>w. map (\<lambda>c. c ! w) cols) [0..<length (sp_window_pnl m)])"

definition measure_dsr :: "(real \<Rightarrow> real) \<Rightarrow> (real \<Rightarrow> real) \<Rightarrow> moments option \<Rightarrow> int \<Rightarrow> real option result" where
  "measure_dsr cdf ppf mom trials =
     optional (\<lambda>m. deflated_sharpe_ratio cdf ppf (mo_sharpe m) (mo_n m) trials (mo_skew m) (mo_kurtosis m)) mom"

definition measure ::
    "(real \<Rightarrow> real) \<Rightarrow> (real \<Rightarrow> real) \<Rightarrow> library_rules \<Rightarrow> lib_strategy list \<Rightarrow> string \<Rightarrow> library_data \<Rightarrow> int option \<Rightarrow>
     evaluation result" where
  "measure cdf ppf rl lib name d n_trials =
     bind_result (parse_variant lib name) (\<lambda>(s, p).
     bind_result (case n_trials of Some n \<Rightarrow> Inr n | None \<Rightarrow> bind_result (library_trial_count lib) (\<lambda>n. Inr (int n))) (\<lambda>trials.
     bind_result (discovery_metrics rl d s p BASE_COSTS) (\<lambda>disc.
     bind_result (bench_discovery d BuyHold BASE_COSTS) (\<lambda>bh.
     bind_result (bench_discovery d SmaStack BASE_COSTS) (\<lambda>sm.
     bind_result (holdout_metrics rl d s p BASE_COSTS) (\<lambda>hold.
     bind_result (bench_holdout d BuyHold BASE_COSTS) (\<lambda>hold_bh.
     bind_result (bench_holdout d SmaStack BASE_COSTS) (\<lambda>hold_sma.
     bind_result (discovery_metrics rl d s p STRESS_COSTS) (\<lambda>stress.
     bind_result (holdout_metrics rl d s p STRESS_COSTS) (\<lambda>stress_hold.
     bind_result (bench_discovery d BuyHold STRESS_COSTS) (\<lambda>stress_bh.
     bind_result (bind_result (neighbour_names lib name) (map_results (measure_neighbour rl lib d s))) (\<lambda>nbs.
       let mom = return_moments (map of_rat (sp_returns disc)) in
     bind_result (measure_dsr cdf ppf mom trials) (\<lambda>dsr.
       Inr \<lparr>ev_name = name, ev_strategy = s, ev_params = p, ev_trials = trials, ev_disc = disc, ev_bh = bh, ev_sma = sm,
            ev_hold = hold, ev_hold_bh = hold_bh, ev_hold_sma = hold_sma, ev_stress = stress, ev_stress_hold = stress_hold,
            ev_stress_bh = stress_bh, ev_neighbours = nbs, ev_moments = mom, ev_dsr = dsr,
            ev_hurdles = dsr_hurdles ppf mom trials (of_rat DSR_MIN_PROBABILITY),
            ev_pbo = (if nbs = [] then None
                      else probability_of_backtest_overfitting (window_matrix disc nbs))\<rparr>)))))))))))))"

definition measured_of :: "library_data \<Rightarrow> evaluation \<Rightarrow> measured" where
  "measured_of d ev =
     (let n_windows = length (sp_window_pnl (ev_disc ev)) in
      \<lparr>me_windows_ok = (blocks_tile d \<and> n_windows = length (ld_segments d)), me_windows = n_windows,
       me_expected = length (ld_segments d),
       me_span = iso_day (dy_ts (ld_discovery d ! ld_score d)) @ '' through the day before the holdout'',
       me_oos_pnl = book_pnl (ev_disc ev), me_oos_trades = sp_trades (ev_disc ev), me_oos_sharpe = sp_sharpe (ev_disc ev),
       me_sma_oos = Some (book_pnl (ev_sma ev)), me_bh_oos = Some (book_pnl (ev_bh ev)),
       me_holdout = (ev_hold ev \<noteq> None), me_note = ld_note d, me_hold_pnl = map_option book_pnl (ev_hold ev),
       me_hold_trades = map_option sp_trades (ev_hold ev), me_hold_sharpe = map_option sp_sharpe (ev_hold ev),
       me_sma_hold = map_option book_pnl (ev_hold_sma ev), me_bh_hold = map_option book_pnl (ev_hold_bh ev),
       me_stress_oos = Some (book_pnl (ev_stress ev)), me_stress_hold = map_option book_pnl (ev_stress_hold ev),
       me_dsr = ev_dsr ev, me_n_trials = ev_trials ev, me_pbo = ev_pbo ev,
       me_pbo_undefined =
         (if ev_neighbours ev = [] then Some ''pbo undefined (fewer than 2 configurations)''
          else if ev_pbo ev = None then Some ''pbo undefined'' else None),
       me_neighbours = map neighbour_pass (ev_neighbours ev)\<rparr>)"

definition verdict_of :: "library_data \<Rightarrow> evaluation \<Rightarrow> verdict" where
  "verdict_of d ev = library_verdict (measured_of d ev)"

text \<open>
  The discovery record of one evaluation (\<open>library/evaluate.py\<close>, \<open>evaluate_library_record\<close>): the gate block
  that the ingest checks, the holdout block, the library section and the row itself.
\<close>

record card =
  ca_family :: string
  ca_evaluation :: string
  ca_citation :: string
  ca_peer_reviewed :: bool

definition SHARPE_KIND :: string where "SHARPE_KIND = ''daily_equity_annualized_sqrt365''"

definition strings :: "string list \<Rightarrow> jv" where "strings xs = JList (map JStr xs)"
definition opt_pnl :: "span_metrics option \<Rightarrow> jv" where "opt_pnl m = or_null (rounded 2) (map_option book_pnl m)"

definition opt_sharpe :: "nat \<Rightarrow> span_metrics option \<Rightarrow> jv" where
  "opt_sharpe k m = or_null (rounded_real k) (map_option sp_sharpe m)"

text \<open>The holdout block without its \<open>pass\<close> entry\<close>

definition holdout_block :: "library_data \<Rightarrow> evaluation \<Rightarrow> jv" where
  "holdout_block d ev =
     (case ev_hold ev of
        None \<Rightarrow>
          JObj [(''reason'', JStr (case ld_note d of None \<Rightarrow> ''holdout tape missing''
                                 | Some n \<Rightarrow> if n = [] then ''holdout tape missing'' else n))]
      | Some h \<Rightarrow>
          JObj [(''sharpe'', rounded_real 4 (sp_sharpe h)), (''daily_sharpe'', rounded_real 4 (sp_sharpe h)),
            (''trades'', num_of (sp_trades h)), (''pnl'', rounded 2 (book_pnl h)), (''max_drawdown'', rounded 4 (sp_max_dd h)),
            (''bh_daily_sharpe'', opt_sharpe 4 (ev_hold_bh ev)), (''bh_pnl'', opt_pnl (ev_hold_bh ev)),
            (''bh_role'', JStr BH_METRIC_ROLE), (''sma_pnl'', opt_pnl (ev_hold_sma ev))])"

definition gate_block :: "library_data \<Rightarrow> evaluation \<Rightarrow> jv" where
  "gate_block d ev =
     (let v = verdict_of d ev; disc = ev_disc ev; mom = ev_moments ev in
      JObj [(''passed'', JBool (vd_qualified v)), (''rules'', JStr GATE_RULES), (''engine'', JStr ENGINE_ID),
        (''oos_pnl_pass'', JBool (vd_oos_pnl_pass v)), (''trades_pass'', JBool (vd_trades_pass v)),
        (''holdout_pass'', JBool (vd_holdout_pass v)), (''dsr_pass'', JBool (vd_dsr_pass v)),
        (''pbo_pass'', JBool (vd_pbo_pass v)), (''perturb_pass'', JBool (vd_perturb_pass v)),
        (''cost_pass'', JBool (vd_cost_pass v)), (''holdout'', holdout_block d ev), (''oos_pnl'', rounded 2 (book_pnl disc)),
        (''dsr'', or_null (rounded_real 6) (ev_dsr ev)), (''n_trials'', JInt (ev_trials ev)),
        (''pbo'', or_null (rounded_real 6) (ev_pbo ev)), (''neighbours'', num_of (vd_neighbours v)),
        (''neighbours_pass'', num_of (vd_neighbours_pass v)), (''cost_oos_pnl'', rounded 2 (book_pnl (ev_stress ev))),
        (''cost_holdout_pnl'', opt_pnl (ev_stress_hold ev)), (''cost_sharpe'', rounded_real 4 (sp_sharpe (ev_stress ev))),
        (''cost_daily_sharpe'', rounded_real 4 (sp_sharpe (ev_stress ev))),
        (''cost_bh_daily_sharpe'', rounded_real 4 (sp_sharpe (ev_stress_bh ev))), (''cost_bh_role'', JStr BH_METRIC_ROLE),
        (''backtest_max_dd'', rounded 4 (sp_max_dd disc)),
        (''oos_sharpe_per_obs'', or_null (rounded_real 6) (map_option mo_sharpe mom)),
        (''oos_return_n'', or_null num_of (map_option mo_n mom))])"

definition windows_json :: "library_data \<Rightarrow> evaluation \<Rightarrow> jv" where
  "windows_json d ev =
     JList (map (\<lambda>((a, b), p, n). JObj [(''start'', JStr (iso_day a)), (''end'', JStr (iso_day (b - DAY_MS))),
                                          (''pnl'', rounded 2 p), (''trades'', num_of n)])
       (zip (ld_segments d) (zip (sp_window_pnl (ev_disc ev)) (sp_window_trades (ev_disc ev)))))"

definition holdout_section :: "evaluation \<Rightarrow> jv" where
  "holdout_section ev =
     or_null (\<lambda>h. JObj (summary h @
       [(''net_pnl'', rounded 2 (book_pnl h)), (''bh'', or_null summary_net (ev_hold_bh ev)),
        (''sma_stack'', or_null summary_net (ev_hold_sma ev))])) (ev_hold ev)"

definition stress_section :: "evaluation \<Rightarrow> jv" where
  "stress_section ev =
     JObj (summary (ev_stress ev) @
       [(''net_pnl'', rounded 2 (book_pnl (ev_stress ev))), (''holdout_net_pnl'', opt_pnl (ev_stress_hold ev)),
        (''taker_fee'', JFloat (Fin (ct_fee STRESS_COSTS))), (''slippage'', JFloat (Fin (ct_slip STRESS_COSTS))),
        (''bh_daily_sharpe'', rounded_real 4 (sp_sharpe (ev_stress_bh ev)))])"

definition dsr_section :: "evaluation \<Rightarrow> jv" where
  "dsr_section ev =
     (let mom = ev_moments ev; r = (\<lambda>k f. or_null (rounded_real k) (map_option f mom)) in
      JObj ([(''value'', or_null (rounded_real 6) (ev_dsr ev)), (''n_trials'', JInt (ev_trials ev)),
         (''n_obs'', or_null num_of (map_option mo_n mom)), (''sharpe_per_obs'', r 6 mo_sharpe), (''skew'', r 4 mo_skew),
         (''kurtosis'', r 4 mo_kurtosis)] @
         (case ev_hurdles ev of
            None \<Rightarrow> [(''required_annual_sharpe'', JNull), (''days_needed'', JNull), (''psr_days_needed'', JNull)]
          | Some h \<Rightarrow>
              [(''required_annual_sharpe'', JFloat (Fin (hu_required h))), (''days_needed'', or_null JInt (hu_days h)),
               (''psr_days_needed'', or_null JInt (hu_psr_days h)),
               (''expected_max_multiplier'', JFloat (Fin (hu_multiplier h)))])))"

definition exit_count :: "evaluation \<Rightarrow> string \<Rightarrow> jv" where
  "exit_count ev reason = num_of (case dget (sp_exits (ev_disc ev)) reason of None \<Rightarrow> 0 | Some n \<Rightarrow> n)"

text \<open>\<open>params == strategy.center\<close>: both have the declared names in order.\<close>

definition library_section :: "(lib_strategy \<Rightarrow> card) \<Rightarrow> library_data \<Rightarrow> evaluation \<Rightarrow> jv" where
  "library_section cards d ev =
     (let s = ev_strategy ev; c = cards s; v = verdict_of d ev in
      JObj [(''key'', JStr (ls_key s)), (''title'', JStr (ls_title s)), (''family'', JStr (ca_family c)),
        (''evaluation'', JStr (ca_evaluation c)), (''params'', JObj (map (\<lambda>(k, x). (k, JInt x)) (ev_params ev))),
        (''canonical'', JBool (ev_params ev = center s)),
        (''safety_stop_pct'', if ls_stop s \<noteq> 0 then rounded 2 (ls_stop s * 100) else JNull),
        (''citation'', JStr (ca_citation c)), (''peer_reviewed'', JBool (ca_peer_reviewed c)),
        (''n_trials'', JInt (ev_trials ev)), (''sharpe_kind'', JStr SHARPE_KIND), (''checks'', JObj (vd_checks v)),
        (''failing_checks'', strings (vd_failing v)), (''warning_checks'', strings (vd_warning_keys v)),
        (''count_only'', JBool (vd_count_only v)), (''discovery'', summary_net (ev_disc ev)),
        (''windows'', windows_json d ev), (''bh'', JObj (summary (ev_bh ev))), (''sma_stack'', JObj (summary (ev_sma ev))),
        (''holdout'', holdout_section ev), (''cost_stress'', stress_section ev),
        (''neighbours'', JList (map neighbour_json (ev_neighbours ev))), (''dsr'', dsr_section ev),
        (''pbo'', JObj [(''value'', or_null (rounded_real 6) (ev_pbo ev)),
                      (''configs'', num_of (length (ev_neighbours ev) + 1))]),
        (''exit_reasons'', JObj [(''signal'', exit_count ev REASON_SIGNAL), (''safety_stop'', exit_count ev REASON_STOP),
                               (''window_end'', exit_count ev REASON_END)]),
        (''blocks'', JObj [(''count'', num_of (length (ld_segments d))), (''target_days'', JInt LIBRARY_BLOCK_TARGET_DAYS),
                         (''score_start'', JStr (iso_day (dy_ts (ld_discovery d ! ld_score d)))),
                         (''score_end'', JStr (iso_day (HOLDOUT_START_MS - DAY_MS)))])])"

definition windows_nonneg :: "span_metrics \<Rightarrow> bool" where
  "windows_nonneg m \<longleftrightarrow> list_all (\<lambda>(p, n). n \<ge> 1 \<and> p \<ge> 0) (zip (sp_window_pnl m) (sp_window_trades m))"

definition record_fields :: "(lib_strategy \<Rightarrow> card) \<Rightarrow> library_data \<Rightarrow> evaluation \<Rightarrow> jv \<Rightarrow> jv dict" where
  "record_fields cards d ev tested_at =
     (let v = verdict_of d ev; disc = ev_disc ev in
      [(''strategy'', JStr (ev_name ev)), (''tested_at'', tested_at), (''timeframe'', JStr LIB_TIMEFRAME),
       (''risk_policy'', JStr LIB_RISK_POLICY), (''engine'', JStr ENGINE_ID), (''train_pnl'', JNull),
       (''test_pnl'', rounded 2 (sp_pnl disc)), (''sharpe'', rounded_real 3 (sp_sharpe disc)),
       (''daily_sharpe'', rounded_real 3 (sp_sharpe disc)), (''sharpe_kind'', JStr SHARPE_KIND),
       (''win_rate_pct'', rounded 1 (sp_win_rate disc * 100)), (''trades'', num_of (sp_trades disc)),
       (''regimes_tested'', num_of (length (sp_window_pnl disc))), (''qualified'', JBool (vd_qualified v)),
       (''bh_oos_pnl'', rounded 2 (sp_pnl (ev_bh ev))), (''sma_stack_oos_pnl'', rounded 2 (sp_pnl (ev_sma ev))),
       (''bh_daily_sharpe'', rounded_real 3 (sp_sharpe (ev_bh ev))), (''bh_daily_sharpe_role'', JStr BH_METRIC_ROLE),
       (''bh_oos_pnl_role'', JStr BH_METRIC_ROLE),
       (''avg_hold_hours'', or_null (\<lambda>x. rounded 2 (x * 24)) (sp_avg_hold disc)), (''gate_rules'', JStr GATE_RULES),
       (''fail_reasons'', strings (vd_reasons v)), (''warnings'', strings (vd_warnings v)),
       (''oos_net_pnl'', rounded 2 (book_pnl disc)), (''all_windows_nonneg'', JBool (windows_nonneg disc)),
       (''backtest_max_dd'', rounded 4 (sp_max_dd disc)), (''symbols'', strings [''BTC/USDT'']),
       (''gate_v4'', gate_block d ev), (''library'', library_section cards d ev)])"

definition record_json :: "(lib_strategy \<Rightarrow> card) \<Rightarrow> library_data \<Rightarrow> evaluation \<Rightarrow> jv \<Rightarrow> jv" where
  "record_json cards d ev tested_at =
     (let v = verdict_of d ev; disc = ev_disc ev in
      JObj (record_fields cards d ev tested_at @
        (if vd_qualified v
         then [(''score'', rounded_real 2 (of_rat (sp_pnl disc) + sp_sharpe disc * 10))] else [])))"

definition evaluate_library_record ::
    "(real \<Rightarrow> real) \<Rightarrow> (real \<Rightarrow> real) \<Rightarrow> library_rules \<Rightarrow> lib_strategy list \<Rightarrow> (lib_strategy \<Rightarrow> card) \<Rightarrow> string \<Rightarrow>
     library_data \<Rightarrow> int option \<Rightarrow> jv \<Rightarrow> jv result" where
  "evaluate_library_record cdf ppf rl lib cards name d n_trials tested_at =
     bind_result (measure cdf ppf rl lib name d n_trials) (\<lambda>ev. Inr (record_json cards d ev tested_at))"

text \<open>The declared rules of \<open>Signals\<close>; a key that is not modelled there has no warm-up rule.\<close>

definition catalog_rules :: library_rules where
  "catalog_rules =
     \<lparr>ru_signal = (\<lambda>s p bars. case library_signal (ls_key s) p of
         None \<Rightarrow> Inl (ValueError ''no warmup rule'') | Some r \<Rightarrow> bind_result r (\<lambda>f. Inr (f bars))),
      ru_ready = (\<lambda>s p bars. case signal_ready (ls_key s) p of
         None \<Rightarrow> Inl (ValueError ''no warmup rule'') | Some r \<Rightarrow> bind_result r (\<lambda>f. Inr (f bars)))\<rparr>"

end
