(* ===== verification/StatisticsFacts.thy ===== *)
theory StatisticsFacts
  imports MultipleTesting
begin

text \<open>
  The overfitting probability is a share of the splits, and one for configurations that cannot be
  told apart; the deflated Sharpe ratio never grows with the number of trials.
\<close>

section \<open>Choosing the best column\<close>

lemma argmax_from_all_le: "list_all (\<lambda>x. x \<le> v) xs \<Longrightarrow> argmax_from i b v xs = b"
  by (induction xs arbitrary: i) auto

lemma argmax_const: "argmax (replicate n c) = 0"
  by (cases n) (auto simp: argmax_def intro!: argmax_from_all_le simp: list_all_iff)

lemma argmax_from_bound: "b < i \<Longrightarrow> argmax_from i b v xs < i + length xs"
proof (induction xs arbitrary: i b v)
  case (Cons x xs)
  show ?case using Cons.IH [of i "Suc i" x] Cons.IH [of b "Suc i" v] Cons.prems by simp
qed simp

lemma argmax_bound: "xs \<noteq> [] \<Longrightarrow> argmax xs < length xs"
  using argmax_from_bound [of 0 1 "hd xs" "tl xs"] by (cases xs) (auto simp: argmax_def)

lemma rank_of_first:
  assumes "vs \<noteq> []" "sorted vs"
  shows "rank_of vs 0 = 1"
proof -
  have "map (\<lambda>i. vs ! i) [0..<length vs] = vs" by (simp add: map_nth)
  then have "sorted (map (\<lambda>i. vs ! i) [0..<length vs])" using assms by simp
  then have "sort_key (\<lambda>i. vs ! i) [0..<length vs] = [0..<length vs]" by (simp add: sort_key_id_if_sorted)
  moreover have "[0..<length vs] = 0 # [1..<length vs]" using assms by (simp add: upt_rec)
  ultimately show ?thesis by (simp add: rank_of_def)
qed

lemma rank_of_bounds:
  assumes "j < length vs"
  shows "1 \<le> rank_of vs j \<and> rank_of vs j \<le> length vs"
proof -
  let ?o = "sort_key (\<lambda>i. vs ! i) [0..<length vs]"
  have "j \<in> set ?o" using assms by simp
  then have "takeWhile (\<lambda>i. i \<noteq> j) ?o \<noteq> ?o" by (metis set_takeWhileD)
  then have "length (takeWhile (\<lambda>i. i \<noteq> j) ?o) < length ?o"
    by (metis length_takeWhile_le nat_less_le takeWhile_eq_take take_all)
  then show ?thesis by (simp add: rank_of_def)
qed

section \<open>The overfitting probability\<close>

lemma combos_ne: "k \<le> length xs \<Longrightarrow> combos xs k \<noteq> []"
  by (induction xs k rule: combos.induct) auto

lemma combos_members: "rs \<in> set (combos xs k) \<Longrightarrow> set rs \<subseteq> set xs \<and> length rs = k"
proof (induction xs k arbitrary: rs rule: combos.induct)
  case (3 x xs k)
  from 3(3) consider r where "rs = x # r" "r \<in> set (combos xs k)" | "rs \<in> set (combos xs (Suc k))" by auto
  then show ?case
  proof cases
    case 1 then show ?thesis using "3.IH"(1) [of r] by auto
  next
    case 2 then show ?thesis using "3.IH"(2) [of rs] by auto
  qed
qed auto

lemma combos_count: "length (combos xs k) = length xs choose k"
  by (induction xs k rule: combos.induct) auto

lemma combinations_ne: "k \<le> s \<Longrightarrow> combinations s k \<noteq> []"
  by (simp add: combinations_def combos_ne)

definition table_ok :: "real list list \<Rightarrow> bool" where
  "table_ok rows \<longleftrightarrow> 2 \<le> length rows \<and> 2 \<le> length (hd rows)"

lemma even_rows: "2 \<le> (t::nat) \<Longrightarrow> 2 \<le> (if even t then t else t - 1)"
  by (cases "t = 2") (auto simp: )

lemma pbo_unfold:
  assumes "table_ok rows"
  shows "probability_of_backtest_overfitting rows =
    (let s = (if even (length rows) then length rows else length rows - 1); cs = combinations s (s div 2)
     in Some (real (length (filter (split_is_overfit rows s (length (hd rows))) cs)) / length cs))"
proof -
  have "rows \<noteq> []" using assms by (auto simp: table_ok_def)
  moreover have "combinations s (s div 2) \<noteq> []" for s by (simp add: combinations_ne)
  moreover note even_rows [of "length rows"]
  ultimately show ?thesis using assms
    by (auto simp: probability_of_backtest_overfitting_def table_ok_def Let_def)
qed

lemma pbo_undefined: "probability_of_backtest_overfitting rows = None \<longleftrightarrow> \<not> table_ok rows"
proof (cases "table_ok rows")
  case True then show ?thesis by (simp add: pbo_unfold Let_def)
next
  case False
  then have "rows = [] \<or> length rows < 2 \<or> length (hd rows) < 2" by (auto simp: table_ok_def)
  then show ?thesis using False by (auto simp: probability_of_backtest_overfitting_def)
qed

lemma pbo_unit:
  assumes "probability_of_backtest_overfitting rows = Some p"
  shows "0 \<le> p \<and> p \<le> 1"
proof -
  have "table_ok rows" using assms pbo_undefined [of rows] by auto
  then show ?thesis using assms
    by (auto simp: pbo_unfold Let_def combinations_ne divide_le_eq_1 length_filter_le
        zero_less_iff_neq_zero)
qed

text \<open>When every configuration has the same windows, every split counts.\<close>

definition same_columns :: "real list list \<Rightarrow> bool" where
  "same_columns rows \<longleftrightarrow> list_all (\<lambda>r. r = replicate (length (hd rows)) (hd r)) rows"

lemma same_column:
  assumes "same_columns rows" "j < length (hd rows)" "set rs \<subseteq> {0..<length rows}"
  shows "column rows j rs = map (\<lambda>r. hd (rows ! r)) rs"
proof -
  have "rows ! r ! j = hd (rows ! r)" if "r \<in> set rs" for r
  proof -
    have "rows ! r = replicate (length (hd rows)) (hd (rows ! r))"
      using assms that by (auto simp: same_columns_def list_all_length)
    with assms(2) show ?thesis by (metis nth_replicate)
  qed
  then show ?thesis by (simp add: column_def)
qed

lemma same_columns_overfit:
  assumes t: "table_ok rows" and c: "same_columns rows" and s: "s \<le> length rows" and rs: "set rs \<subseteq> {0..<s}"
  shows "split_is_overfit rows s (length (hd rows)) rs"
proof -
  let ?n = "length (hd rows)"
  have in_rows: "set rs \<subseteq> {0..<length rows}" "set [0..<s] \<subseteq> {0..<length rows}" using rs s by auto
  note col = same_column [OF c]
  obtain x y where x: "column_sharpe rows rs j = x" and y: "rest_sharpe rows s rs j = y" if "j < ?n" for j
    using col in_rows by (force simp: column_sharpe_def rest_sharpe_def)
  have n: "2 \<le> ?n" using t by (simp add: table_ok_def)
  have "map (column_sharpe rows rs) [0..<?n] = replicate ?n x"
    by (rule nth_equalityI) (simp_all add: x)
  moreover have "map (rest_sharpe rows s rs) [0..<?n] = replicate ?n y"
    by (rule nth_equalityI) (simp_all add: y)
  moreover have "replicate ?n y \<noteq> []" using n by auto
  then have "rank_of (replicate ?n y) 0 = 1" by (rule rank_of_first) (simp add: sorted_replicate)
  ultimately show ?thesis using n by (simp add: split_is_overfit_def argmax_const Let_def field_simps)
qed

lemma pbo_of_same_columns:
  assumes "table_ok rows" "same_columns rows"
  shows "probability_of_backtest_overfitting rows = Some 1"
proof -
  let ?s = "if even (length rows) then length rows else length rows - 1"
  let ?cs = "combinations ?s (?s div 2)"
  have "split_is_overfit rows ?s (length (hd rows)) rs" if "rs \<in> set ?cs" for rs
  proof (rule same_columns_overfit [OF assms])
    show "set rs \<subseteq> {0..<?s}" using combos_members [of rs "[0..<?s]"] that by (auto simp: combinations_def)
  qed auto
  then have "filter (split_is_overfit rows ?s (length (hd rows))) ?cs = ?cs" by simp
  moreover have "?cs \<noteq> []" by (simp add: combinations_ne)
  ultimately show ?thesis using assms by (simp only: pbo_unfold Let_def) simp
qed

section \<open>The deflated Sharpe ratio\<close>

text \<open>
  What the code relies on of \<open>scipy.stats.norm\<close>: the distribution function grows and is a
  probability, the quantiles grow on the open unit interval, and the median is zero.
\<close>

definition normal_tables :: "(real \<Rightarrow> real) \<Rightarrow> (real \<Rightarrow> real) \<Rightarrow> bool" where
  "normal_tables cdf ppf \<longleftrightarrow>
     mono cdf \<and> (\<forall>x. 0 \<le> cdf x \<and> cdf x \<le> 1) \<and>
     (\<forall>p q. 0 < p \<longrightarrow> p \<le> q \<longrightarrow> q < 1 \<longrightarrow> ppf p \<le> ppf q) \<and> ppf (1 / 2) = 0"

lemma euler_unit: "0 < EULER_MASCHERONI" "EULER_MASCHERONI < 1"
  by (simp_all add: EULER_MASCHERONI_def)

lemma max_normal_mono:
  assumes "normal_tables cdf ppf" "2 \<le> m" "m \<le> n"
  shows "max_normal ppf m \<le> max_normal ppf n"
proof -
  have e: "(1::real) < exp 1" by simp
  have up: "ppf p \<le> ppf q" if "0 < p" "p \<le> q" "q < 1" for p q using assms(1) that by (auto simp: normal_tables_def)
  have mn: "(2::real) \<le> of_int m" "(of_int m::real) \<le> of_int n" using assms by simp_all
  have pe: "(0::real) < of_int m * exp 1" "(of_int m * exp 1 ::real) \<le> of_int n * exp 1" "(1::real) < of_int m * exp 1"
    using mn e by (auto intro: mult_right_mono less_le_trans [OF e] simp: mult_le_cancel_right1)
  have "ppf (1 - 1 / of_int m) \<le> ppf (1 - 1 / of_int n)"
    using mn by (intro up) (auto simp: field_simps)
  moreover have "ppf (1 - 1 / (of_int m * exp 1)) \<le> ppf (1 - 1 / (of_int n * exp 1))"
    using pe mn by (intro up) (auto simp: field_simps)
  ultimately show ?thesis using euler_unit by (simp add: max_normal_def add_mono mult_left_mono)
qed

lemma max_normal_nonneg:
  assumes "normal_tables cdf ppf" "2 \<le> m"
  shows "0 \<le> max_normal ppf m"
proof -
  have up: "0 \<le> ppf p" if "1 / 2 \<le> p" "p < 1" for p
    using assms(1) that unfolding normal_tables_def by (metis half_gt_zero zero_less_one)
  have mn: "(2::real) \<le> of_int m" using assms by simp
  have me: "(2::real) < of_int m * exp 1"
  proof -
    have "(2::real) * 1 < of_int m * exp 1" using mn by (intro mult_le_less_imp_less) auto
    then show ?thesis by simp
  qed
  have "0 \<le> ppf (1 - 1 / of_int m)" using mn by (intro up) (auto simp: field_simps)
  moreover have "0 \<le> ppf (1 - 1 / (of_int m * exp 1))" using me by (intro up) (auto simp: field_simps)
  ultimately show ?thesis using euler_unit by (simp add: max_normal_def)
qed

lemma benchmark_mono:
  assumes "normal_tables cdf ppf" "1 \<le> m" "m \<le> n" "0 \<le> sd"
  shows "\<exists>a b. expected_maximum_sharpe ppf m sd = Inr a \<and> expected_maximum_sharpe ppf n sd = Inr b \<and> a \<le> b"
proof -
  have "m = 1 \<or> 2 \<le> m" using assms by auto
  then show ?thesis using assms max_normal_mono [OF assms(1), of m n] max_normal_nonneg [OF assms(1), of n]
    by (auto simp: expected_maximum_sharpe_def mult_left_mono)
qed

lemma estimator_std_nonneg: "0 \<le> sharpe_estimator_std sharpe n skew kurt"
  by (simp add: sharpe_estimator_std_def Let_def)

lemma psr_antimono:
  assumes "normal_tables cdf ppf" "a \<le> b"
  shows "probabilistic_sharpe_ratio cdf sr b n skew kurt \<le> probabilistic_sharpe_ratio cdf sr a n skew kurt"
proof -
  have "cdf ((sr - b) * sqrt (real n - 1) / sqrt v) \<le> cdf ((sr - a) * sqrt (real n - 1) / sqrt v)"
    if "0 < v" "2 \<le> n" for v
    using assms that by (intro monoD [where f = cdf] divide_right_mono mult_right_mono) (auto simp: normal_tables_def)
  then show ?thesis by (simp add: probabilistic_sharpe_ratio_def Let_def)
qed

lemma psr_unit:
  "normal_tables cdf ppf \<Longrightarrow>
   0 \<le> probabilistic_sharpe_ratio cdf sr b n skew kurt \<and> probabilistic_sharpe_ratio cdf sr b n skew kurt \<le> 1"
  by (simp add: normal_tables_def probabilistic_sharpe_ratio_def Let_def)

lemma dsr_antimono:
  assumes "normal_tables cdf ppf" "1 \<le> m" "m \<le> n"
  shows "\<exists>a b. deflated_sharpe_ratio cdf ppf sr k m skew kurt = Inr a \<and>
    deflated_sharpe_ratio cdf ppf sr k n skew kurt = Inr b \<and> 0 \<le> b \<and> b \<le> a \<and> a \<le> 1"
proof -
  obtain a b where "expected_maximum_sharpe ppf m (sharpe_estimator_std sr k skew kurt) = Inr a"
    "expected_maximum_sharpe ppf n (sharpe_estimator_std sr k skew kurt) = Inr b" "a \<le> b"
    using benchmark_mono [OF assms estimator_std_nonneg] by blast
  then show ?thesis using assms psr_antimono [OF assms(1), of a b sr k skew kurt] psr_unit [OF assms(1)]
    by (simp add: deflated_sharpe_ratio_def)
qed

end
