(* ===== verification/VerdictFacts.thy ===== *)
theory VerdictFacts
  imports Verdict StatisticsFacts
begin

text \<open>
  The verdict is the conjunction of its six vetoes: the reasons, the failing checks and the gate
  fields agree with it, and no warning can change it.
\<close>

section \<open>Reading the checks back\<close>

named_theorems check_simps \<open>verdicts of single checks\<close>

lemma passes_dset [check_simps]:
  "passes (dset k v c) k' = (if k' = k then truthy (jget v ''pass'') else passes c k')"
  by (simp add: passes_def)

lemma check_pass [check_simps]: "jget (check p v t k r e) ''pass'' = JBool p"
  by (simp add: check_def)

lemma veto_passes [check_simps]:
  "passes (bk_checks (veto key p v t kind r e b)) k = (if k = key then p else passes (bk_checks b) k)"
  by (simp add: veto_def check_simps)

lemma warn_passes [check_simps]:
  "passes (bk_checks (warn key p v t kind r e b)) k = (if k = key then p else passes (bk_checks b) k)"
  by (simp add: warn_def check_simps)

lemma missing_veto_passes [check_simps]:
  "passes (bk_checks (missing_veto key kind n b)) k = (k \<noteq> key \<and> passes (bk_checks b) k)"
  by (simp add: missing_veto_def check_simps)

lemma skipped_passes [check_simps]:
  "passes (bk_checks (skipped_warning key t n b)) k = (k = key \<or> passes (bk_checks b) k)"
  by (simp add: skipped_warning_def check_simps)

lemma warn_reasons [check_simps]: "bk_reasons (warn key p v t kind r e b) = bk_reasons b"
  by (simp add: warn_def)

lemma veto_reasons [check_simps]: "bk_reasons (veto key p v t kind r e b) = bk_reasons b @ said r"
  by (simp add: veto_def)

lemma other_reasons [check_simps]:
  "bk_reasons (missing_veto key kind n b) = bk_reasons b" "bk_reasons (skipped_warning key t n b) = bk_reasons b"
  by (simp_all add: missing_veto_def skipped_warning_def)

lemmas warning_defs =
  buy_and_hold_warning_def neighbours_warning_def pbo_warning_def dsr_warning_def holdout_warnings_def beat_warning_def
  sharpe_warning_def hold_beat_warning_def hold_sharpe_warning_def

section \<open>The vetoes decide\<close>

definition WARNING_ONLY :: "string set" where "WARNING_ONLY = set WARNING_CHECKS"

lemma warning_keeps:
  assumes "k \<notin> WARNING_ONLY"
  shows "passes (bk_checks (sharpe_warning m b)) k = passes (bk_checks b) k"
    "passes (bk_checks (beat_warning m b)) k = passes (bk_checks b) k"
    "passes (bk_checks (holdout_warnings m b)) k = passes (bk_checks b) k"
    "passes (bk_checks (dsr_warning m b)) k = passes (bk_checks b) k"
    "passes (bk_checks (pbo_warning m b)) k = passes (bk_checks b) k"
    "passes (bk_checks (neighbours_warning m b)) k = passes (bk_checks b) k"
    "passes (bk_checks (buy_and_hold_warning m b)) k = passes (bk_checks b) k"
  using assms
  by (auto simp: WARNING_ONLY_def WARNING_CHECKS_def warning_defs check_simps Let_def split: prod.splits)

lemma warnings_keep_veto:
  "k \<notin> WARNING_ONLY \<Longrightarrow> passes (bk_checks (all_checks m)) k = passes (bk_checks (vetoes m)) k"
  by (simp add: all_checks_def warning_keeps)

lemma warnings_keep_reasons: "bk_reasons (all_checks m) = bk_reasons (vetoes m)"
  by (simp add: all_checks_def warning_defs check_simps Let_def split: prod.splits)

text \<open>The promise of the gate\<close>

definition vetoes_pass :: "measured \<Rightarrow> bool" where
  "vetoes_pass m \<longleftrightarrow>
     me_windows_ok m \<and> trades_ok m \<and> me_oos_pnl m > 0 \<and> hold_profit m \<and> hold_trades_ok m \<and> cost_ok m"

lemma veto_values:
  "passes (bk_checks (vetoes m)) ''windows'' = me_windows_ok m"
  "passes (bk_checks (vetoes m)) ''oos_trades'' = trades_ok m"
  "passes (bk_checks (vetoes m)) ''oos_pnl'' = (me_oos_pnl m > 0)"
  "passes (bk_checks (vetoes m)) ''holdout_pnl'' = hold_profit m"
  "passes (bk_checks (vetoes m)) ''holdout_trades'' = hold_trades_ok m"
  "passes (bk_checks (vetoes m)) ''cost_stress'' = cost_ok m"
  by (simp_all add: vetoes_def cost_veto_def holdout_vetoes_def first_vetoes_def check_simps Let_def
      hold_profit_def hold_trades_ok_def)

lemma not_warnings:
  "''windows'' \<notin> WARNING_ONLY" "''oos_trades'' \<notin> WARNING_ONLY" "''oos_pnl'' \<notin> WARNING_ONLY"
  "''holdout_pnl'' \<notin> WARNING_ONLY" "''holdout_trades'' \<notin> WARNING_ONLY" "''cost_stress'' \<notin> WARNING_ONLY"
  by (simp_all add: WARNING_ONLY_def WARNING_CHECKS_def)

lemma failing_checks:
  "vd_failing (library_verdict m) =
     (if me_windows_ok m then [] else [''windows'']) @ (if trades_ok m then [] else [''oos_trades'']) @
     (if me_oos_pnl m > 0 then [] else [''oos_pnl'']) @ (if hold_profit m then [] else [''holdout_pnl'']) @
     (if hold_trades_ok m then [] else [''holdout_trades'']) @ (if cost_ok m then [] else [''cost_stress''])"
  by (simp add: library_verdict_def Let_def VETO_CHECKS_def warnings_keep_veto not_warnings veto_values)

lemma qualified_iff: "vd_qualified (library_verdict m) = vetoes_pass m"
proof -
  have "vd_qualified (library_verdict m) \<longleftrightarrow> vd_failing (library_verdict m) = []"
    by (simp add: library_verdict_def Let_def)
  then show ?thesis by (simp add: failing_checks vetoes_pass_def)
qed

lemma said_nil: "said t = [] \<longleftrightarrow> t = None \<or> t = Some []"
  by (auto simp: said_def split: option.splits)

lemma join_ne: "x \<noteq> [] \<Longrightarrow> join_with s (x # xs) \<noteq> []"
  by (cases xs) auto

lemma stress_bit_ne: "x \<in> set (stress_bit w v) \<Longrightarrow> x \<noteq> []"
  by (auto simp: stress_bit_def split: if_splits)

lemma stress_bits: "stress_bit w v = [] \<longleftrightarrow> profit v"
  by (simp add: stress_bit_def)

lemma cost_text_ne:
  assumes "\<not> cost_ok m"
  shows "join_with ''; '' (stress_bit ''oos'' (me_stress_oos m) @ stress_bit ''holdout'' (me_stress_hold m)) \<noteq> []"
proof -
  have "stress_bit ''oos'' (me_stress_oos m) @ stress_bit ''holdout'' (me_stress_hold m) \<noteq> []"
    using assms by (auto simp: cost_ok_def stress_bits)
  then obtain x xs where "stress_bit ''oos'' (me_stress_oos m) @ stress_bit ''holdout'' (me_stress_hold m) = x # xs"
    by (meson neq_Nil_conv)
  moreover from this have "x \<noteq> []" using stress_bit_ne by (metis Un_iff list.set_intros(1) set_append)
  ultimately show ?thesis using join_ne by metis
qed

lemma first_reasons:
  "bk_reasons (first_vetoes m b) = bk_reasons b \<longleftrightarrow> me_windows_ok m \<and> trades_ok m \<and> me_oos_pnl m > 0"
  by (simp add: first_vetoes_def check_simps said_nil)

lemma holdout_reasons:
  "bk_reasons (holdout_vetoes m b) = bk_reasons b \<longleftrightarrow> hold_profit m \<and> hold_trades_ok m"
  by (simp add: holdout_vetoes_def check_simps said_nil Let_def hold_profit_def hold_trades_ok_def)

lemma cost_reasons: "bk_reasons (cost_veto m b) = bk_reasons b \<longleftrightarrow> cost_ok m"
  using cost_text_ne [of m] by (simp add: cost_veto_def check_simps said_nil)

lemma reasons_grow:
  "\<exists>xs. bk_reasons (first_vetoes m b) = bk_reasons b @ xs" "\<exists>xs. bk_reasons (holdout_vetoes m b) = bk_reasons b @ xs"
  "\<exists>xs. bk_reasons (cost_veto m b) = bk_reasons b @ xs"
  by (simp_all add: first_vetoes_def holdout_vetoes_def cost_veto_def check_simps Let_def)

lemma no_reasons_iff: "vd_reasons (library_verdict m) = [] \<longleftrightarrow> vetoes_pass m"
proof -
  define b where "b = \<lparr>bk_checks = [], bk_reasons = [], bk_warnings = []\<rparr>"
  have r: "vd_reasons (library_verdict m) = bk_reasons (cost_veto m (holdout_vetoes m (first_vetoes m b)))"
    by (simp add: library_verdict_def Let_def warnings_keep_reasons vetoes_def b_def)
  have b: "bk_reasons b = []" by (simp add: b_def)
  obtain xs ys zs where "bk_reasons (first_vetoes m b) = bk_reasons b @ xs"
    "bk_reasons (holdout_vetoes m (first_vetoes m b)) = bk_reasons (first_vetoes m b) @ ys"
    "bk_reasons (cost_veto m (holdout_vetoes m (first_vetoes m b))) = bk_reasons (holdout_vetoes m (first_vetoes m b)) @ zs"
    using reasons_grow by metis
  then show ?thesis
    using r b first_reasons [of m b] holdout_reasons [of m "first_vetoes m b"]
      cost_reasons [of m "holdout_vetoes m (first_vetoes m b)"]
    by (auto simp: vetoes_pass_def)
qed

text \<open>The fields of the gate block are true on a pass.\<close>

lemma qualified_fields:
  "vetoes_pass m \<Longrightarrow> vd_oos_pnl_pass (library_verdict m) \<and> vd_trades_pass (library_verdict m) \<and>
     vd_holdout_pass (library_verdict m) \<and> vd_cost_pass (library_verdict m)"
  by (auto simp: library_verdict_def Let_def vetoes_pass_def hold_profit_def)

section \<open>Warnings are not vetoes\<close>

text \<open>The part of the measured numbers the vetoes read\<close>

definition decisive :: "measured \<Rightarrow> measured" where
  "decisive m =
     m\<lparr>me_oos_sharpe := 0, me_sma_oos := None, me_bh_oos := None, me_hold_sharpe := None, me_sma_hold := None,
       me_bh_hold := None, me_dsr := None, me_n_trials := 0, me_pbo := None, me_pbo_undefined := None,
       me_neighbours := []\<rparr>"

lemma decisive_fields [simp]:
  "me_windows_ok (decisive m) = me_windows_ok m" "me_windows (decisive m) = me_windows m"
  "me_expected (decisive m) = me_expected m" "me_span (decisive m) = me_span m"
  "me_oos_pnl (decisive m) = me_oos_pnl m" "me_oos_trades (decisive m) = me_oos_trades m"
  "me_holdout (decisive m) = me_holdout m" "me_note (decisive m) = me_note m"
  "me_hold_pnl (decisive m) = me_hold_pnl m" "me_hold_trades (decisive m) = me_hold_trades m"
  "me_stress_oos (decisive m) = me_stress_oos m" "me_stress_hold (decisive m) = me_stress_hold m"
  by (simp_all add: decisive_def)

lemma decisive_checks [simp]:
  "trades_ok (decisive m) = trades_ok m" "hold_profit (decisive m) = hold_profit m"
  "hold_trades_ok (decisive m) = hold_trades_ok m" "cost_ok (decisive m) = cost_ok m"
  "holdout_note (decisive m) = holdout_note m"
  by (simp_all add: trades_ok_def hold_profit_def hold_trades_ok_def cost_ok_def holdout_note_def)

lemma vetoes_decisive: "vetoes (decisive m) = vetoes m"
proof -
  have "first_vetoes (decisive m) b = first_vetoes m b" for b unfolding first_vetoes_def decisive_fields decisive_checks ..
  moreover have "holdout_vetoes (decisive m) b = holdout_vetoes m b" for b
    unfolding holdout_vetoes_def decisive_fields decisive_checks ..
  moreover have "cost_veto (decisive m) b = cost_veto m b" for b
    unfolding cost_veto_def decisive_fields decisive_checks ..
  ultimately show ?thesis by (simp add: vetoes_def)
qed

lemma verdict_decisive:
  "vd_qualified (library_verdict m) = vd_qualified (library_verdict (decisive m))"
  "vd_reasons (library_verdict m) = vd_reasons (library_verdict (decisive m))"
  "vd_failing (library_verdict m) = vd_failing (library_verdict (decisive m))"
proof -
  have "filter (\<lambda>k. \<not> passes (bk_checks (all_checks n)) k) VETO_CHECKS =
      filter (\<lambda>k. \<not> passes (bk_checks (vetoes n)) k) VETO_CHECKS" for n
    by (rule filter_cong) (auto simp: VETO_CHECKS_def warnings_keep_veto not_warnings)
  then show "vd_qualified (library_verdict m) = vd_qualified (library_verdict (decisive m))"
    "vd_failing (library_verdict m) = vd_failing (library_verdict (decisive m))"
    by (simp_all add: library_verdict_def Let_def vetoes_decisive)
  show "vd_reasons (library_verdict m) = vd_reasons (library_verdict (decisive m))"
    by (simp add: library_verdict_def Let_def warnings_keep_reasons vetoes_decisive)
qed

text \<open>A count-only failure is a failure of trade counts and of nothing else.\<close>

lemma count_only_iff:
  "vd_count_only (library_verdict m) \<longleftrightarrow>
     (\<not> trades_ok m \<or> \<not> hold_trades_ok m) \<and> me_windows_ok m \<and> me_oos_pnl m > 0 \<and> hold_profit m \<and> cost_ok m"
proof -
  have "vd_count_only (library_verdict m) \<longleftrightarrow> vd_failing (library_verdict m) \<noteq> [] \<and>
      list_all (\<lambda>k. k \<in> set COUNT_CHECKS) (vd_failing (library_verdict m))"
    by (simp add: library_verdict_def Let_def count_only_failure_def)
  then show ?thesis by (auto simp: failing_checks COUNT_CHECKS_def split: if_splits)
qed

end
