(* ===== verification/EvalFacts.thy ===== *)
theory EvalFacts
  imports Evaluate VerdictFacts EngineRules SignalFacts
begin

text \<open>
  The blocks tile the scored span, a batch that is built has its blocks in order, what a book earned is the
  profit of its trades, and the ingest accepts the record.
\<close>

section \<open>Blocks\<close>

lemma block_count_pos: "1 \<le> block_count w"
  by (simp add: block_count_def)

text \<open>The count is the nearest whole number, but at least one.\<close>

lemma round_even_scaled:
  assumes "0 < k"
  shows "2 * round_even (of_int w / of_int k) * k \<le> 2 * w + k" "2 * w \<le> 2 * round_even (of_int w / of_int k) * k + k"
proof -
  let ?c = "round_even (of_int w / of_int k)"
  have k: "(0::rat) < of_int k" using assms by simp
  have near: "\<bar>of_int ?c - of_int w / of_int k\<bar> \<le> (1 / 2 :: rat)" by (rule round_even_near)
  have "of_int ?c - of_int w / of_int k \<le> (1 / 2 :: rat)" using near by linarith
  then have "(of_int (2 * ?c * k) :: rat) \<le> of_int (2 * w + k)" using k by (simp add: field_simps)
  then show "2 * ?c * k \<le> 2 * w + k" by (simp only: of_int_le_iff)
  have "of_int w / of_int k - of_int ?c \<le> (1 / 2 :: rat)" using near by linarith
  then have "(of_int (2 * w) :: rat) \<le> of_int (2 * ?c * k + k)" using k by (simp add: field_simps)
  then show "2 * w \<le> 2 * ?c * k + k" by (simp only: of_int_le_iff)
qed

definition BLOCK_MS :: int where "BLOCK_MS = LIBRARY_BLOCK_TARGET_DAYS * DAY_MS"

lemma block_ms: "BLOCK_MS = 33696000000"
  by (simp add: BLOCK_MS_def LIBRARY_BLOCK_TARGET_DAYS_def DAY_MS_def)

lemma block_count_cases: "block_count w = max 1 (round_even (of_int w / of_int BLOCK_MS))"
  by (simp add: block_count_def BLOCK_MS_def)

lemma block_count_near:
  assumes "block_count w \<noteq> 1"
  shows "2 * block_count w * BLOCK_MS \<le> 2 * w + BLOCK_MS \<and> 2 * w \<le> 2 * block_count w * BLOCK_MS + BLOCK_MS"
proof -
  have "block_count w = round_even (of_int w / of_int BLOCK_MS)" using assms by (simp add: block_count_cases)
  then show ?thesis using round_even_scaled [of BLOCK_MS w] by (simp add: block_ms)
qed

lemma block_count_one:
  assumes "block_count w = 1"
  shows "2 * w \<le> 3 * BLOCK_MS"
proof -
  have "round_even (of_int w / of_int BLOCK_MS) \<le> 1" using assms by (simp add: block_count_cases)
  then have "2 * round_even (of_int w / of_int BLOCK_MS) * BLOCK_MS \<le> 2 * BLOCK_MS" by (simp add: block_ms)
  then show ?thesis using round_even_scaled(2) [of BLOCK_MS w] by (simp add: block_ms)
qed

lemma block_count_le: "0 < w \<Longrightarrow> block_count w \<le> w"
  using block_count_near [of w] block_count_pos [of w] by (cases "block_count w = 1") (auto simp: block_ms)

fun increasing :: "int list \<Rightarrow> bool" where
  "increasing (a # b # xs) = (a < b \<and> increasing (b # xs))"
| "increasing xs = True"

lemma chained_zip:
  "es \<noteq> [] \<Longrightarrow> increasing es \<Longrightarrow> chained (hd es) (zip es (tl es)) = Some (last es)"
  by (induction es rule: increasing.induct) auto

lemma increasing_nth: "(\<And>i. Suc i < length es \<Longrightarrow> es ! i < es ! Suc i) \<Longrightarrow> increasing es"
proof (induction es rule: increasing.induct)
  case (1 a b xs)
  have "(b # xs) ! i < (b # xs) ! Suc i" if "Suc i < length (b # xs)" for i using 1(2) [of "Suc i"] that by simp
  with 1 1(2) [of 0] show ?case by simp
qed auto

lemma edge_step:
  assumes "0 < n" "n \<le> (w::int)"
  shows "(w * k) div n + w div n \<le> (w * (k + 1)) div n \<and> (w * (k + 1)) div n \<le> (w * k) div n + w div n + 1"
proof -
  have e: "w * (k + 1) = w * k + w" by (simp add: algebra_simps)
  let ?c = "((w * k) mod n + w mod n) div n"
  have "0 \<le> (w * k) mod n" "(w * k) mod n < n" "0 \<le> w mod n" "w mod n < n" using assms(1) by simp_all
  then have "0 \<le> (w * k) mod n + w mod n" "(w * k) mod n + w mod n < 2 * n" by linarith+
  moreover from this have "?c \<le> (n + (n - 1)) div n" using assms(1) by (intro zdiv_mono1) simp_all
  moreover have "(n + (n - 1)) div n = 1" using assms(1) by (simp only: div_add_self1) simp
  ultimately have "0 \<le> ?c" "?c < 2" using assms(1) by (simp_all only: pos_imp_zdiv_nonneg_iff)
  then show ?thesis unfolding e using div_add1_eq [of "w * k" w n] by simp
qed

definition edge :: "int \<Rightarrow> int \<Rightarrow> nat \<Rightarrow> int" where
  "edge a w k = a + (w * int k) div block_count w"

lemma block_edges_map:
  assumes "a < b"
  shows "block_edges a b = map (edge a (b - a)) [0..<Suc (nat (block_count (b - a)))]"
proof (rule nth_equalityI)
  let ?w = "b - a" and ?n = "nat (block_count (b - a))"
  show "length (block_edges a b) = length (map (edge a ?w) [0..<Suc ?n])" by (simp add: block_edges_def Let_def)
  fix i assume "i < length (block_edges a b)"
  then have i: "i \<le> ?n" by (simp add: block_edges_def Let_def)
  have n: "int ?n = block_count ?w" using block_count_pos [of ?w] by simp
  have "edge a ?w ?n = b" using n block_count_pos [of ?w] by (simp add: edge_def)
  then show "block_edges a b ! i = map (edge a ?w) [0..<Suc ?n] ! i"
    using i by (cases "i = ?n") (simp_all add: block_edges_def Let_def edge_def nth_append del: upt_Suc)
qed

lemma edge_grows:
  assumes "0 < w"
  shows "edge a w k + w div block_count w \<le> edge a w (Suc k) \<and> edge a w (Suc k) \<le> edge a w k + w div block_count w + 1"
  using edge_step [of "block_count w" w "int k"] block_count_pos [of w] block_count_le [OF assms]
  by (simp add: edge_def algebra_simps)

lemma block_width:
  assumes "0 < w"
  shows "1 \<le> w div block_count w"
  using block_count_pos [of w] block_count_le [OF assms] by (simp add: pos_imp_zdiv_pos_iff int_one_le_iff_zero_less)

lemma tile_blocks_Inr:
  assumes "tile_blocks a b = Inr segs"
  shows "a < b \<and> segs \<noteq> [] \<and> int (length segs) = block_count (b - a) \<and> fst (hd segs) = a \<and> snd (last segs) = b \<and>
    chained a segs = Some b \<and>
    (\<forall>i < length segs. segs ! i = (edge a (b - a) i, edge a (b - a) (Suc i)))"
proof -
  let ?w = "b - a" and ?n = "nat (block_count (b - a))"
  have ab: "a < b" and s: "segs = zip (block_edges a b) (tl (block_edges a b))"
    using assms by (auto simp: tile_blocks_def Let_def split: if_splits)
  have n: "0 < ?n" using block_count_pos [of ?w] by simp
  have es: "block_edges a b = map (edge a ?w) [0..<Suc ?n]" by (rule block_edges_map [OF ab])
  have len: "length segs = ?n" by (simp add: s es del: upt_Suc)
  have nth: "segs ! i = (edge a ?w i, edge a ?w (Suc i))" if "i < ?n" for i
    using that by (simp add: s es nth_tl del: upt_Suc)
  have first: "edge a ?w 0 = a" by (simp add: edge_def)
  have final: "edge a ?w ?n = b" using block_count_pos [of ?w] by (simp add: edge_def)
  have w: "0 < ?w" using ab by simp
  have "edge a ?w i < edge a ?w (Suc i)" for i using edge_grows [OF w, of a i] block_width [OF w] by linarith
  then have "increasing (block_edges a b)" by (intro increasing_nth) (simp add: es del: upt_Suc)
  moreover have "hd (block_edges a b) = a" using first by (simp add: es hd_map upt_rec [of 0] del: upt_Suc)
  moreover have "last (block_edges a b) = b" using final by (simp add: es)
  moreover have "block_edges a b \<noteq> []" by (simp add: es)
  ultimately have "chained a segs = Some b" using chained_zip [of "block_edges a b"] s by simp
  moreover have ne: "segs \<noteq> []" using len n by auto
  moreover have "hd segs = (a, edge a ?w 1)" using nth [OF n] first ne by (simp add: hd_conv_nth)
  moreover have "last segs = (edge a ?w (?n - 1), b)"
    using nth [of "?n - 1"] n final ne len by (simp add: last_conv_nth)
  moreover have "int (length segs) = block_count ?w" using len block_count_pos [of ?w] by simp
  moreover have "\<forall>i < length segs. segs ! i = (edge a ?w i, edge a ?w (Suc i))" using nth len by simp
  ultimately show ?thesis using ab by simp
qed

text \<open>Every block is at most 585 days, and at least 292 days when there are two or more.\<close>

lemma block_lengths:
  assumes "tile_blocks a b = Inr segs" "(x, y) \<in> set segs"
  shows "x < y \<and> 2 * (y - x) \<le> 3 * BLOCK_MS \<and> (2 \<le> length segs \<longrightarrow> 3 * BLOCK_MS \<le> 4 * (y - x) + 4)"
proof -
  let ?w = "b - a" let ?n = "block_count ?w"
  note t = tile_blocks_Inr [OF assms(1)]
  have w: "0 < ?w" using t by simp
  obtain i where i: "i < length segs" "segs ! i = (x, y)" using assms(2) by (metis in_set_conv_nth)
  then have xy: "x = edge a ?w i" "y = edge a ?w (Suc i)" using t by auto
  have n: "1 \<le> ?n" by (rule block_count_pos)
  have K: "BLOCK_MS = 33696000000" by (rule block_ms)
  have lo: "?w div ?n \<le> y - x" and hi: "y - x \<le> ?w div ?n + 1" using edge_grows [OF w, of a i] xy by simp_all
  have "x < y" using lo block_width [OF w] by linarith
  moreover have "2 * (y - x) \<le> 3 * BLOCK_MS"
  proof (cases "?n = 1")
    case True
    have "y - x \<le> ?w" using i t True xy by (simp add: edge_def)
    with block_count_one [OF True] show ?thesis by (simp add: K)
  next
    case False
    then have "2 * ?w \<le> 2 * ?n * BLOCK_MS + BLOCK_MS" "2 \<le> ?n" using block_count_near [OF False] n by auto
    then have "?w \<le> ?n * BLOCK_MS + BLOCK_MS div 2" by (simp add: K)
    also have "\<dots> \<le> ?n * BLOCK_MS + ?n * (BLOCK_MS div 2) - ?n" using \<open>2 \<le> ?n\<close> by (simp add: K)
    finally have "?w \<le> ?n * (BLOCK_MS + BLOCK_MS div 2 - 1)" by (simp add: algebra_simps)
    then have "?w div ?n \<le> (?n * (BLOCK_MS + BLOCK_MS div 2 - 1)) div ?n" using n by (intro zdiv_mono1) auto
    then have "?w div ?n \<le> BLOCK_MS + BLOCK_MS div 2 - 1" using n by simp
    with hi show ?thesis by (simp add: K)
  qed
  moreover have "3 * BLOCK_MS \<le> 4 * (y - x) + 4" if "2 \<le> length segs"
  proof -
    have n2: "2 \<le> ?n" using that t by linarith
    then have "2 * ?n * BLOCK_MS \<le> 2 * ?w + BLOCK_MS" using block_count_near [of ?w] by auto
    then have "4 * (?n * BLOCK_MS) \<le> 4 * ?w + ?n * BLOCK_MS" using n2 by (simp add: K)
    then have "?n * (3 * (BLOCK_MS div 4)) \<le> ?w" by (simp add: K)
    then have "(?n * (3 * (BLOCK_MS div 4))) div ?n \<le> ?w div ?n" using n by (intro zdiv_mono1) auto
    then have "3 * (BLOCK_MS div 4) \<le> ?w div ?n" using n by simp
    with lo show ?thesis by (simp add: K)
  qed
  ultimately show ?thesis by blast
qed

section \<open>The batch\<close>

lemma fold_max_less: "\<forall>x \<in> set xs. x < n \<Longrightarrow> m < n \<Longrightarrow> fold max xs m < (n::nat)"
  by (induction xs arbitrary: m) auto

lemma first_warm_Inr:
  assumes "first_warm rdy n = Inr k"
  shows "0 < k \<and> k < n \<and> k \<le> length rdy \<and> list_all id (drop (k - 1) rdy)"
  using assms length_takeWhile_le [of Not rdy]
  by (auto simp: first_warm_def Let_def not_warm_def split: if_splits)

lemma library_score_less:
  assumes "library_score_index rl lib bars = Inr k"
  shows "0 < k \<and> k < length bars"
proof -
  obtain firsts where f: "map_results (\<lambda>(s, p). bind_result (ru_ready rl s p bars) (\<lambda>rdy. first_warm rdy (length bars)))
      (concat (map (\<lambda>s. map (Pair s) (grid_params s)) lib)) = Inr firsts" and k: "k = fold max firsts 1" "2 \<le> length bars"
    using assms by (auto simp: library_score_index_def bind_result_Inr split: if_splits)
  have "\<forall>x \<in> set firsts. x < length bars"
  proof
    fix x assume "x \<in> set firsts"
    then obtain i where i: "i < length firsts" "firsts ! i = x" by (metis in_set_conv_nth)
    have "list_all2 (\<lambda>sp y. (\<lambda>(s, p). bind_result (ru_ready rl s p bars) (\<lambda>rdy. first_warm rdy (length bars))) sp = Inr y)
        (concat (map (\<lambda>s. map (Pair s) (grid_params s)) lib)) firsts"
      using f by (simp only: map_results_Inr)
    from list_all2_nthD2 [OF this i(1)] obtain s p rdy where "ru_ready rl s p bars = Inr rdy"
        "first_warm rdy (length bars) = Inr x"
      using i(2) by (auto simp: bind_result_Inr split: prod.splits)
    then show "x < length bars" using first_warm_Inr by blast
  qed
  then have "k < length bars" using k fold_max_less [of firsts "length bars" 1] by simp
  moreover have "(1::nat) \<le> fold max xs m" if "1 \<le> m" for xs m
    using that by (induction xs arbitrary: m) (auto simp: max_def)
  ultimately show ?thesis using k(1) by (metis One_nat_def Suc_le_lessD le_refl)
qed

lemma build_Inr:
  assumes "build_library_data rl lib full = Inr d"
  shows "assert_library_history full = Inr () \<and> ld_discovery d = before full HOLDOUT_START_MS \<and>
    library_score_index rl lib (ld_discovery d) = Inr (ld_score d) \<and>
    tile_blocks (dy_ts (ld_discovery d ! ld_score d)) HOLDOUT_START_MS = Inr (ld_segments d) \<and>
    ld_discovery d \<noteq> [] \<and> dy_ts (last (ld_discovery d)) < HOLDOUT_START_MS \<and>
    HOLDOUT_START_MS - DAY_MS \<le> dy_ts (last (ld_discovery d)) \<and>
    ld_holdout d = (if full \<noteq> [] \<and> HOLDOUT_END_MS - DAY_MS \<le> dy_ts (last full) then Some (before full HOLDOUT_END_MS) else None)"
  using assms by (auto simp: build_library_data_def bind_result_Inr Let_def split: if_splits)

lemma built_blocks_tile:
  assumes "build_library_data rl lib full = Inr d"
  shows "blocks_tile d"
proof -
  note b = build_Inr [OF assms]
  then have t: "tile_blocks (dy_ts (ld_discovery d ! ld_score d)) HOLDOUT_START_MS = Inr (ld_segments d)" by blast
  have "ld_score d < length (ld_discovery d)" using b library_score_less by blast
  then show ?thesis using tile_blocks_Inr [OF t] by (auto simp: blocks_tile_def Let_def)
qed

section \<open>One book\<close>

lemma map_results_length: "map_results f xs = Inr ys \<Longrightarrow> length ys = length xs"
  by (auto simp: map_results_Inr dest: list_all2_lengthD)

definition trades_pnl :: "span_metrics \<Rightarrow> rat" where
  "trades_pnl m = (\<Sum>t \<leftarrow> rr_trades (sp_result m). trade_pnl t)"

lemma span_metrics_Inr:
  assumes "span_metrics bars sig start e segs c fr = Inr m"
  shows "run_bars c fr bars sig PAPER_START_CASH (int start) (int e) = Inr (sp_result m) \<and>
    sp_trades m = length (rr_trades (sp_result m)) \<and> length (sp_window_pnl m) = length segs"
  using assms by (auto simp: span_metrics_def bind_result_Inr Let_def dest!: map_results_length)

lemma book_pnl_trades:
  assumes "span_metrics bars sig start e segs c fr = Inr m"
  shows "book_pnl m = trades_pnl m"
proof -
  have r: "run_bars c fr bars sig PAPER_START_CASH (int start) (int e) = Inr (sp_result m)"
    using span_metrics_Inr [OF assms] by blast
  show ?thesis using run_gain [OF r] run_starts_with_cash [OF r]
    by (simp add: book_pnl_def trades_pnl_def Let_def)
qed

lemma discovery_Inr:
  assumes "discovery_metrics rl d s p c = Inr m"
  shows "\<exists>sig. ru_signal rl s p (ld_discovery d) = Inr sig \<and>
    span_metrics (ld_discovery d) sig (ld_score d) (length (ld_discovery d)) (ld_segments d) c (ls_stop s) = Inr m \<and>
    require_ready rl s (ld_discovery d) p (ld_score d) (length (ld_discovery d)) = Inr ()"
  using assms by (auto simp: discovery_metrics_def Let_def bind_result_Inr)

lemma holdout_Inr:
  assumes "holdout_metrics rl d s p c = Inr (Some m)"
  shows "\<exists>bars sig. ld_holdout d = Some bars \<and> ru_signal rl s p bars = Inr sig \<and>
    span_metrics bars sig (index_of bars HOLDOUT_START_MS) (length bars) HOLDOUT_SEGMENT c (ls_stop s) = Inr m \<and>
    require_ready rl s bars p (index_of bars HOLDOUT_START_MS) (length bars) = Inr ()"
  using assms by (auto simp: holdout_metrics_def optional_def Let_def bind_result_Inr split: option.splits)

lemma discovery_pnl: "discovery_metrics rl d s p c = Inr m \<Longrightarrow> book_pnl m = trades_pnl m \<and> sp_trades m = length (rr_trades (sp_result m))"
  by (metis discovery_Inr book_pnl_trades span_metrics_Inr)

lemma holdout_pnl: "holdout_metrics rl d s p c = Inr (Some m) \<Longrightarrow> book_pnl m = trades_pnl m \<and> sp_trades m = length (rr_trades (sp_result m))"
  by (metis holdout_Inr book_pnl_trades span_metrics_Inr)

text \<open>Every close a book acts on is warm.\<close>

lemma require_ready_Inr:
  assumes "require_ready rl s bars p start e = Inr ()"
  shows "\<exists>rdy. ru_ready rl s p bars = Inr rdy \<and> 0 < start \<and> start < e \<and> e \<le> Suc (length rdy) \<and>
    (\<forall>i. start - 1 \<le> i \<and> i < e - 1 \<longrightarrow> rdy ! i)"
proof -
  obtain rdy where r: "ru_ready rl s p bars = Inr rdy" and
    g: "\<not> (int start - 1 < 0 \<or> int e - 1 > int (length rdy) \<or> int e - 1 \<le> int start - 1)"
    and l: "list_all id (drop (nat (int start - 1)) (take (nat (int e - 1)) rdy))"
    using assms by (auto simp: require_ready_def bind_result_Inr Let_def not_warm_def split: if_splits)
  have n: "nat (int start - 1) = start - 1" "nat (int e - 1) = e - 1" by simp_all
  have b: "0 < start" "start < e" "e - 1 \<le> length rdy" using g by linarith+
  have "rdy ! i" if "start - 1 \<le> i" "i < e - 1" for i
  proof -
    have "drop (start - 1) (take (e - 1) rdy) ! (i - (start - 1)) = rdy ! i"
      using that b by simp
    moreover have "i - (start - 1) < length (drop (start - 1) (take (e - 1) rdy))" using that b by simp
    ultimately show ?thesis using l unfolding n list_all_length by auto
  qed
  then show ?thesis using r b by auto
qed

section \<open>The measurements\<close>

lemma measure_Inr:
  assumes "measure cdf ppf rl lib name d nt = Inr ev"
  shows "ev_name ev = name" "parse_variant lib name = Inr (ev_strategy ev, ev_params ev)"
    "discovery_metrics rl d (ev_strategy ev) (ev_params ev) BASE_COSTS = Inr (ev_disc ev)"
    "holdout_metrics rl d (ev_strategy ev) (ev_params ev) BASE_COSTS = Inr (ev_hold ev)"
    "discovery_metrics rl d (ev_strategy ev) (ev_params ev) STRESS_COSTS = Inr (ev_stress ev)"
    "holdout_metrics rl d (ev_strategy ev) (ev_params ev) STRESS_COSTS = Inr (ev_stress_hold ev)"
    "case nt of Some n \<Rightarrow> ev_trials ev = n | None \<Rightarrow> (\<exists>n. library_trial_count lib = Inr n \<and> ev_trials ev = int n)"
proof -
  note m = assms[unfolded measure_def]
  show "ev_name ev = name" "parse_variant lib name = Inr (ev_strategy ev, ev_params ev)"
    "discovery_metrics rl d (ev_strategy ev) (ev_params ev) BASE_COSTS = Inr (ev_disc ev)"
    "holdout_metrics rl d (ev_strategy ev) (ev_params ev) BASE_COSTS = Inr (ev_hold ev)"
    "discovery_metrics rl d (ev_strategy ev) (ev_params ev) STRESS_COSTS = Inr (ev_stress ev)"
    "holdout_metrics rl d (ev_strategy ev) (ev_params ev) STRESS_COSTS = Inr (ev_stress_hold ev)"
    using m by (auto simp: bind_result_Inr Let_def)
  show "case nt of Some n \<Rightarrow> ev_trials ev = n | None \<Rightarrow> (\<exists>n. library_trial_count lib = Inr n \<and> ev_trials ev = int n)"
    using m by (cases nt) (auto simp: bind_result_Inr Let_def)
qed

lemma windows_are_ok:
  assumes "build_library_data rl lib full = Inr d" "measure cdf ppf rl lib name d nt = Inr ev"
  shows "me_windows_ok (measured_of d ev)"
proof -
  obtain sig where "span_metrics (ld_discovery d) sig (ld_score d) (length (ld_discovery d)) (ld_segments d) BASE_COSTS
      (ls_stop (ev_strategy ev)) = Inr (ev_disc ev)"
    using discovery_Inr [OF measure_Inr(3) [OF assms(2)]] by blast
  then have "length (sp_window_pnl (ev_disc ev)) = length (ld_segments d)" using span_metrics_Inr by blast
  then show ?thesis using built_blocks_tile [OF assms(1)] by (simp add: measured_of_def Let_def)
qed

text \<open>The promise of the gate, over the trades of the four books\<close>

definition made_money :: "evaluation \<Rightarrow> bool" where
  "made_money ev \<longleftrightarrow>
     8 \<le> length (rr_trades (sp_result (ev_disc ev))) \<and> 0 < trades_pnl (ev_disc ev) \<and> 0 < trades_pnl (ev_stress ev) \<and>
     (case ev_hold ev of None \<Rightarrow> False
      | Some h \<Rightarrow> 2 \<le> length (rr_trades (sp_result h)) \<and> 0 < trades_pnl h) \<and>
     (case ev_stress_hold ev of None \<Rightarrow> False | Some h \<Rightarrow> 0 < trades_pnl h)"

lemma verdict_made_money:
  assumes "build_library_data rl lib full = Inr d" "measure cdf ppf rl lib name d nt = Inr ev"
  shows "vd_qualified (verdict_of d ev) = made_money ev"
proof -
  note m = measure_Inr [OF assms(2)]
  note disc = discovery_pnl [OF m(3)] discovery_pnl [OF m(5)]
  have h: "book_pnl h = trades_pnl h \<and> sp_trades h = length (rr_trades (sp_result h))" if "ev_hold ev = Some h" for h
    using m(4) that by (intro holdout_pnl) simp
  have sh: "book_pnl h = trades_pnl h" if "ev_stress_hold ev = Some h" for h
    using m(6) that holdout_pnl by metis
  show ?thesis
    using windows_are_ok [OF assms] disc h sh
    by (auto simp: verdict_of_def qualified_iff vetoes_pass_def made_money_def measured_of_def Let_def trades_ok_def
        hold_profit_def hold_trades_ok_def cost_ok_def profit_def LIBRARY_MIN_OOS_TRADES_def LIBRARY_HOLDOUT_MIN_TRADES_def
        split: option.splits)
qed

section \<open>The record at the ingest\<close>

lemma dset_kept: "dget kvs k = Some v \<Longrightarrow> dset k v kvs = kvs"
  by (induction kvs) (auto split: if_splits)

lemma jset_kept: "is_dict r \<Longrightarrow> jhas r k \<Longrightarrow> jget r k = v \<Longrightarrow> jset k v r = r"
  by (cases r) (auto simp: jhas_def jget_def dset_kept)

lemma record_get:
  "k \<in> set (dkeys (record_fields cards d ev t)) \<Longrightarrow>
   jget (record_json cards d ev t) k = jget (JObj (record_fields cards d ev t)) k \<and> jhas (record_json cards d ev t) k"
  unfolding dkeys_dget by (auto simp: record_json_def Let_def jget_def jhas_def map_add_def split: option.splits)

lemma record_keys:
  "set [''strategy'', ''tested_at'', ''timeframe'', ''risk_policy'', ''engine'', ''qualified'', ''gate_rules'', ''fail_reasons'',
     ''warnings'', ''gate_v4''] \<subseteq> set (dkeys (record_fields cards d ev t))"
  by (simp add: record_fields_def Let_def)

lemma record_lookups:
  "jget (record_json cards d ev t) ''strategy'' = JStr (ev_name ev)"
  "jget (record_json cards d ev t) ''timeframe'' = JStr LIB_TIMEFRAME"
  "jget (record_json cards d ev t) ''risk_policy'' = JStr LIB_RISK_POLICY"
  "jget (record_json cards d ev t) ''engine'' = JStr ENGINE_ID"
  "jget (record_json cards d ev t) ''qualified'' = JBool (vd_qualified (verdict_of d ev))"
  "jget (record_json cards d ev t) ''gate_rules'' = JStr GATE_RULES"
  "jget (record_json cards d ev t) ''fail_reasons'' = strings (vd_reasons (verdict_of d ev))"
  "jget (record_json cards d ev t) ''warnings'' = strings (vd_warnings (verdict_of d ev))"
  "jget (record_json cards d ev t) ''gate_v4'' = gate_block d ev"
proof -
  note g = record_get [THEN conjunct1, OF subsetD [OF record_keys], of _ cards d ev t]
  have r: "jget (JObj (record_fields cards d ev t)) k = (case dget (record_fields cards d ev t) k of None \<Rightarrow> JNull | Some x \<Rightarrow> x)"
    for k by simp
  show "jget (record_json cards d ev t) ''strategy'' = JStr (ev_name ev)"
    "jget (record_json cards d ev t) ''timeframe'' = JStr LIB_TIMEFRAME"
    "jget (record_json cards d ev t) ''risk_policy'' = JStr LIB_RISK_POLICY"
    "jget (record_json cards d ev t) ''engine'' = JStr ENGINE_ID"
    "jget (record_json cards d ev t) ''qualified'' = JBool (vd_qualified (verdict_of d ev))"
    "jget (record_json cards d ev t) ''gate_rules'' = JStr GATE_RULES"
    "jget (record_json cards d ev t) ''fail_reasons'' = strings (vd_reasons (verdict_of d ev))"
    "jget (record_json cards d ev t) ''warnings'' = strings (vd_warnings (verdict_of d ev))"
    "jget (record_json cards d ev t) ''gate_v4'' = gate_block d ev"
    by (subst g, simp, simp add: record_fields_def Let_def)+
qed

lemma gate_block_lookups:
  "is_dict (gate_block d ev)"
  "jget (gate_block d ev) ''passed'' = JBool (vd_qualified (verdict_of d ev))"
  "jget (gate_block d ev) ''rules'' = JStr GATE_RULES"
  "jget (gate_block d ev) ''oos_pnl_pass'' = JBool (vd_oos_pnl_pass (verdict_of d ev))"
  "jget (gate_block d ev) ''trades_pass'' = JBool (vd_trades_pass (verdict_of d ev))"
  "jget (gate_block d ev) ''holdout_pass'' = JBool (vd_holdout_pass (verdict_of d ev))"
  "jget (gate_block d ev) ''cost_pass'' = JBool (vd_cost_pass (verdict_of d ev))"
  "jget (gate_block d ev) ''n_trials'' = JInt (ev_trials ev)"
  by (simp_all add: gate_block_def Let_def)

lemma qualified_attested:
  "library_attestation_ok (record_json cards d ev t) = vd_qualified (verdict_of d ev)"
proof (cases "vd_qualified (verdict_of d ev)")
  case True
  then have "vetoes_pass (measured_of d ev)" by (simp add: verdict_of_def qualified_iff)
  then show ?thesis using qualified_fields [of "measured_of d ev"] True
    by (simp add: library_attestation_ok_def Let_def record_lookups gate_block_lookups LIBRARY_ATTESTATION_KEYS_def
        verdict_of_def)
next
  case False
  then show ?thesis by (simp add: library_attestation_ok_def Let_def record_lookups gate_block_lookups)
qed

lemma record_kept:
  "jset ''qualified'' (JBool (truthy (jget (record_json cards d ev t) ''qualified''))) (record_json cards d ev t) =
   record_json cards d ev t"
proof (rule jset_kept)
  show "is_dict (record_json cards d ev t)" by (simp add: record_json_def Let_def)
  show "jhas (record_json cards d ev t) ''qualified''" using record_get [of "''qualified''"] record_keys by simp
qed (simp add: record_lookups)

lemma strings_list [simp]: "is_list (strings xs)" "strings xs \<noteq> JNull"
  by (simp_all add: strings_def)

lemma record_accepted:
  assumes "measure cdf ppf rl lib name d nt = Inr ev" "name \<in> set (claim_names lib)" "library_trial_count lib = Inr n"
  shows "validate_eval lib (record_json cards d ev t) =
    (if ev_trials ev = int n then Some (record_json cards d ev t) else None)"
proof -
  let ?r = "record_json cards d ev t"
  have nm: "ev_name ev = name" using measure_Inr(1) [OF assms(1)] .
  have lib: "is_library_name name" "name \<noteq> []"
    using assms(2) by (auto simp: claim_names_def is_library_name_def is_prefix_def NAME_PREFIX_def)
  have keys: "list_all (jhas ?r) [''strategy'', ''qualified'', ''tested_at'']"
    using record_get [THEN conjunct2, OF subsetD [OF record_keys], of _ cards d ev t] by simp
  have "validate_eval lib ?r = validate_library_eval lib ?r name"
    using keys nm lib by (simp add: validate_eval_def record_lookups)
  also have "\<dots> = (if ev_trials ev = int n then Some ?r else None)"
    using assms(2,3) qualified_attested [of cards d ev t] record_kept [of cards d ev t]
    by (auto simp: validate_library_eval_def record_lookups gate_block_lookups same_trial_count_def equals_int_def
        list_or_null_def null_to_list_def)
  finally show ?thesis .
qed

lemma record_is_pass:
  assumes "measure cdf ppf rl lib name d nt = Inr ev" "name \<in> set (claim_names lib)"
  shows "library_pass lib (record_json cards d ev t) = (if vd_qualified (verdict_of d ev) then Some name else None)"
proof -
  have "is_library_name name" using assms(2) by (auto simp: claim_names_def is_library_name_def is_prefix_def NAME_PREFIX_def)
  moreover have "is_dict (record_json cards d ev t)" by (simp add: record_json_def Let_def)
  ultimately show ?thesis using assms measure_Inr(1) [OF assms(1)]
    by (auto simp: library_pass_def verdict_qualified_def record_lookups gate_block_lookups)
qed

end
