(* ===== verification/EvalRuns.thy ===== *)
theory EvalRuns
  imports EvalFacts
begin

text \<open>
  Two runs of the evaluation: the candles of the holdout year never reach the out-of-sample books, and on a
  complete batch every name of the library gets its record.
\<close>

section \<open>Days before and after a day boundary\<close>

lemma before_takeWhile: "before bars t = takeWhile (\<lambda>b. dy_ts b < t) bars"
proof -
  have "index_of bars t \<le> length bars" by (simp add: index_of_def length_takeWhile_le)
  then have "before bars t = take (index_of bars t) bars" by (simp add: before_def take_days_def)
  then show ?thesis by (simp add: index_of_def takeWhile_eq_take [symmetric])
qed

lemma day_runs_split:
  "xs \<noteq> [] \<Longrightarrow> ys \<noteq> [] \<Longrightarrow> day_of (last xs) \<noteq> day_of (hd ys) \<Longrightarrow> day_runs (xs @ ys) = day_runs xs @ day_runs ys"
proof (induction xs rule: day_runs.induct)
  case (2 c cs)
  show ?case
  proof (cases "cs = []")
    case True
    then show ?thesis using 2(3,4) hd_hd_day_runs [of ys] by (cases "day_runs ys") auto
  next
    case False
    then have "day_runs (cs @ ys) = day_runs cs @ day_runs ys" using 2 by simp
    then show ?thesis using False by (cases "day_runs cs") auto
  qed
qed simp

lemma day_of_bounds: "day_of c \<le> cd_ts c"
  by (simp add: day_of_def DAY_MS_def)

lemma day_of_ge:
  assumes "h mod DAY_MS = 0" "h \<le> cd_ts c"
  shows "h \<le> day_of c"
proof -
  have "h div DAY_MS \<le> cd_ts c div DAY_MS" using assms(2) by (intro zdiv_mono1) (simp_all add: DAY_MS_def)
  moreover have "h = h div DAY_MS * DAY_MS" using assms(1) by auto
  ultimately show ?thesis by (simp add: day_of_def minus_mod_eq_mult_div DAY_MS_def)
qed

lemma run_hd_in: "g \<in> set (day_runs cs) \<Longrightarrow> hd g \<in> set cs"
  by (metis UN_I concat_day_runs day_runs_ne hd_in_set set_concat)

lemma before_boundary:
  assumes asc: "ascending (xs @ ys)" and ys: "ys \<noteq> []" and h: "h mod DAY_MS = 0"
    and lo: "\<forall>c \<in> set xs. cd_ts c < h" and hi: "\<forall>c \<in> set ys. h \<le> cd_ts c"
  shows "before (daily_bars (xs @ ys)) h = map day_bar (day_runs xs)"
proof -
  have "day_runs (xs @ ys) = day_runs xs @ day_runs ys"
  proof (cases "xs = []")
    case False
    have "day_of (last xs) < h" using False lo day_of_bounds [of "last xs"] by (meson last_in_set le_less_trans)
    moreover have "h \<le> day_of (hd ys)" using ys hi h by (intro day_of_ge) auto
    ultimately show ?thesis using False ys by (intro day_runs_split) auto
  qed simp
  then have d: "daily_bars (xs @ ys) = map day_bar (day_runs xs) @ map day_bar (butlast (day_runs ys))"
    using asc ys by (simp add: daily_bars_def tidy_def butlast_append)
  have "dy_ts (day_bar g) < h" if "g \<in> set (day_runs xs)" for g
    using run_hd_in [OF that] lo day_of_bounds [of "hd g"] by (force simp: day_bar_def)
  moreover have "\<not> dy_ts (day_bar g) < h" if "g \<in> set (butlast (day_runs ys))" for g
    using run_hd_in [OF in_set_butlastD [OF that]] hi day_of_ge [OF h] by (force simp: day_bar_def)
  then have "takeWhile (\<lambda>b. dy_ts b < h) (map day_bar (butlast (day_runs ys))) = []"
    by (cases "butlast (day_runs ys)") auto
  ultimately show ?thesis unfolding before_takeWhile d by (subst takeWhile_append2) auto
qed

lemma holdout_start_day: "HOLDOUT_START_MS mod DAY_MS = 0"
  by (simp add: HOLDOUT_START_MS_def DAY_MS_def)

lemma sealed_batch:
  assumes "ascending (xs @ ys)" "ascending (xs @ zs)" "ys \<noteq> []" "zs \<noteq> []"
    and "\<forall>c \<in> set xs. cd_ts c < HOLDOUT_START_MS" "\<forall>c \<in> set ys \<union> set zs. HOLDOUT_START_MS \<le> cd_ts c"
    and "library_data_from_tape rl lib (xs @ ys) = Inr d" "library_data_from_tape rl lib (xs @ zs) = Inr d'"
  shows "ld_discovery d = ld_discovery d' \<and> ld_score d = ld_score d' \<and> ld_segments d = ld_segments d'"
proof -
  have "before (daily_bars (xs @ ys)) HOLDOUT_START_MS = before (daily_bars (xs @ zs)) HOLDOUT_START_MS"
    using assms before_boundary [OF _ _ holdout_start_day] by simp
  then show ?thesis
    using build_Inr [OF assms(7)[unfolded library_data_from_tape_def]] build_Inr [OF assms(8)[unfolded library_data_from_tape_def]]
    by auto
qed

section \<open>Every name gets its record\<close>

text \<open>The declared functions return: a signal and a mask with a value for every bar\<close>

definition rules_complete :: "library_rules \<Rightarrow> lib_strategy list \<Rightarrow> bool" where
  "rules_complete rl lib \<longleftrightarrow>
     (\<forall>s \<in> set lib. \<forall>p \<in> set (grid_params s). \<forall>bars.
        (\<exists>sig. ru_signal rl s p bars = Inr sig \<and> length sig = length bars) \<and>
        (\<exists>rdy. ru_ready rl s p bars = Inr rdy \<and> length rdy = length bars))"

definition days_ascend :: "day list \<Rightarrow> bool" where
  "days_ascend bars \<longleftrightarrow> sorted_wrt (<) (map dy_ts bars)"

lemma index_of_mono: "s \<le> t \<Longrightarrow> index_of bars s \<le> index_of bars t"
  by (induction bars) (auto simp: index_of_def)

lemma index_of_le: "index_of bars t \<le> length bars"
  by (simp add: index_of_def length_takeWhile_le)

lemma index_of_gt:
  assumes "days_ascend bars" "i < length bars" "dy_ts (bars ! i) < t"
  shows "i < index_of bars t"
proof -
  have "dy_ts (bars ! j) < t" if "j \<le> i" for j
    using assms that sorted_wrt_nth_less [of "(<)" "map dy_ts bars" j i]
    by (cases "j = i") (auto simp: days_ascend_def)
  then have all: "\<forall>b \<in> set (take (Suc i) bars). dy_ts b < t" by (auto simp: in_set_conv_nth less_Suc_eq_le)
  have "takeWhile (\<lambda>b. dy_ts b < t) (take (Suc i) bars @ drop (Suc i) bars) =
      take (Suc i) bars @ takeWhile (\<lambda>b. dy_ts b < t) (drop (Suc i) bars)"
    using all by (intro takeWhile_append2) blast
  then show ?thesis using assms(2) by (simp add: index_of_def)
qed

lemma index_or_Inr: "0 \<le> i \<Longrightarrow> \<exists>x. index_or d xs i = Inr x"
  by (auto simp: index_or_def py_index_def)

lemma window_profit_Inr: "0 \<le> fst ab \<Longrightarrow> 0 \<le> snd ab \<Longrightarrow> \<exists>x. window_profit eq ab = Inr x"
proof -
  assume "0 \<le> fst ab" "0 \<le> snd ab"
  moreover from this obtain x where x: "index_or 0 eq (fst ab) = Inr x" using index_or_Inr by blast
  ultimately obtain y where "index_or x eq (snd ab) = Inr y" using index_or_Inr by blast
  with x show ?thesis by (simp add: window_profit_def)
qed

lemma map_results_total: "(\<And>x. x \<in> set xs \<Longrightarrow> \<exists>y. f x = Inr y) \<Longrightarrow> \<exists>ys. map_results f xs = Inr ys"
proof (induction xs)
  case (Cons x xs)
  then obtain y ys where "f x = Inr y" "map_results f xs = Inr ys" by (metis list.set_intros)
  then show ?case by simp
qed simp

lemma run_bars_total: "int e \<le> int (length sig) + 1 \<Longrightarrow> \<exists>r. run_bars c fr bars sig cash st (int e) = Inr r"
  by (auto simp: run_bars_def Let_def)

lemma span_metrics_total:
  assumes "e \<le> length sig + 1" "\<forall>(x, y) \<in> set segs. start \<le> index_of bars y" "start \<le> e"
  shows "\<exists>m. span_metrics bars sig start e segs c fr = Inr m"
proof -
  obtain r where r: "run_bars c fr bars sig PAPER_START_CASH (int start) (int e) = Inr r"
    using run_bars_total [of e sig] assms(1) by force
  have "\<exists>wp. map_results (window_profit (rr_equity r)) (map (window_bounds bars start e) segs) = Inr wp"
  proof (rule map_results_total)
    fix ab assume "ab \<in> set (map (window_bounds bars start e) segs)"
    then have "0 \<le> fst ab" "0 \<le> snd ab" using assms(2,3) by (auto simp: window_bounds_def)
    then show "\<exists>x. window_profit (rr_equity r) ab = Inr x" by (rule window_profit_Inr)
  qed
  then show ?thesis using r by (auto simp: span_metrics_def Let_def)
qed

lemma require_ready_total:
  assumes "ru_ready rl s p bars = Inr rdy" "length rdy = length bars" "0 < start" "start < e" "e \<le> length bars"
  shows "require_ready rl s bars p start e = (if list_all id (drop (start - 1) (take (e - 1) rdy)) then Inr () else not_warm)"
proof -
  have "nat (int start - 1) = start - 1" "nat (int e - 1) = e - 1" by simp_all
  then show ?thesis using assms by (simp add: require_ready_def Let_def)
qed

lemma require_ready_cases: "ru_ready rl s p bars = Inr rdy \<Longrightarrow> require_ready rl s bars p start e \<in> {Inr (), not_warm}"
  by (simp add: require_ready_def Let_def)

lemma le_fold_max: "x \<in> set xs \<Longrightarrow> x \<le> fold max xs (m::nat)"
proof (induction xs arbitrary: m)
  case (Cons y ys)
  have "k \<le> fold max zs k" for zs and k :: nat by (induction zs arbitrary: k) (auto intro: order_trans [OF max.cobounded2])
  then have "max y m \<le> fold max ys (max y m)" by blast
  with Cons show ?case by auto
qed simp

text \<open>Every grid point is warm on every close that the scored discovery days act on.\<close>

lemma score_covers:
  assumes "library_score_index rl lib bars = Inr k" "s \<in> set lib" "p \<in> set (grid_params s)"
    and "ru_ready rl s p bars = Inr rdy" "length rdy = length bars"
  shows "require_ready rl s bars p k (length bars) = Inr ()"
proof -
  define f where "f = (\<lambda>(s, p). bind_result (ru_ready rl s p bars) (\<lambda>rdy. first_warm rdy (length bars)))"
  define pts where "pts = concat (map (\<lambda>s. map (Pair s) (grid_params s)) lib)"
  obtain firsts where fs: "map_results f pts = Inr firsts" and k: "k = fold max firsts 1"
    using assms(1) unfolding library_score_index_def f_def pts_def by (auto simp: bind_result_Inr split: if_splits)
  have l: "list_all2 (\<lambda>x y. f x = Inr y) pts firsts" using fs by (simp only: map_results_Inr)
  have "(s, p) \<in> set pts" using assms(2,3) unfolding pts_def by auto
  then obtain j where j: "j < length pts" "pts ! j = (s, p)" by (metis in_set_conv_nth)
  then have "j < length firsts" using l by (metis list_all2_lengthD)
  have "f (pts ! j) = Inr (firsts ! j)" using l j(1) by (rule list_all2_nthD)
  then have w: "first_warm rdy (length bars) = Inr (firsts ! j)" using j(2) assms(4) by (simp add: f_def)
  have "firsts ! j \<le> k" using k le_fold_max [of "firsts ! j" firsts 1] \<open>j < length firsts\<close> by simp
  moreover have f: "0 < firsts ! j" "list_all id (drop (firsts ! j - 1) rdy)" using first_warm_Inr [OF w] by blast+
  ultimately have "drop (k - 1) rdy = drop (k - firsts ! j) (drop (firsts ! j - 1) rdy)" by simp
  then have "set (drop (k - 1) (take (length bars - 1) rdy)) \<subseteq> set (drop (firsts ! j - 1) rdy)"
    unfolding drop_take by (metis in_set_dropD in_set_takeD subsetI)
  then have "list_all id (drop (k - 1) (take (length bars - 1) rdy))" using f(2) by (auto simp: list_all_iff)
  then show ?thesis
    using require_ready_total [OF assms(4,5), of k "length bars"] library_score_less [OF assms(1)] by simp
qed

lemma edge_ge: "0 < w \<Longrightarrow> a \<le> edge a w k"
  using block_count_pos [of w] by (simp add: edge_def pos_imp_zdiv_nonneg_iff)

lemma tile_ends:
  assumes "tile_blocks a b = Inr segs" "(x, y) \<in> set segs"
  shows "a < y"
proof -
  note t = tile_blocks_Inr [OF assms(1)]
  obtain i where "i < length segs" "segs ! i = (x, y)" using assms(2) by (metis in_set_conv_nth)
  then have "x = edge a (b - a) i" using t by auto
  then show ?thesis using edge_ge [of "b - a" a i] t block_lengths [OF assms] by simp
qed

lemma days_ascend_before: "days_ascend bars \<Longrightarrow> days_ascend (before bars t)"
  unfolding days_ascend_def before_takeWhile by (metis sorted_wrt_take take_map takeWhile_eq_take)

lemma takeWhile_twice: "s \<le> t \<Longrightarrow> takeWhile (\<lambda>b. dy_ts b < s) (takeWhile (\<lambda>b. dy_ts b < t) bars) = takeWhile (\<lambda>b. dy_ts b < s) bars"
  by (induction bars) auto

lemma index_before: "s \<le> t \<Longrightarrow> index_of (before bars t) s = length (before bars s)"
  by (simp add: index_of_def before_takeWhile takeWhile_twice)

lemma length_bench [simp]: "length (bench_signal w bars) = length bars"
  by (cases w) (simp_all add: bench_signal_def sma_stack_signal_def finite_gt_def close_series_def closes_def Let_def)

text \<open>A batch on an ascending tape\<close>

definition good_batch :: "library_rules \<Rightarrow> lib_strategy list \<Rightarrow> day list \<Rightarrow> library_data \<Rightarrow> bool" where
  "good_batch rl lib full d \<longleftrightarrow> rules_complete rl lib \<and> days_ascend full \<and> build_library_data rl lib full = Inr d"

text \<open>When the tape has the holdout year: the mask of a grid point holds on every close that a holdout day acts on.\<close>

definition holdout_warm :: "library_rules \<Rightarrow> library_data \<Rightarrow> lib_strategy \<Rightarrow> int dict \<Rightarrow> bool" where
  "holdout_warm rl d s p \<longleftrightarrow>
     (case ld_holdout d of
        None \<Rightarrow> True
      | Some bars \<Rightarrow> require_ready rl s bars p (index_of bars HOLDOUT_START_MS) (length bars) = Inr ())"

text \<open>The points whose books one evaluation runs: the point itself and its neighbours\<close>

definition evaluated_points :: "lib_strategy \<Rightarrow> int dict \<Rightarrow> int dict list" where
  "evaluated_points s p =
     p # filter (\<lambda>q. length (filter (\<lambda>(k, v). dget p k \<noteq> Some v) q) = 1) (grid_params s)"

lemma holdout_order: "HOLDOUT_START_MS \<le> HOLDOUT_END_MS"
  by (simp add: HOLDOUT_START_MS_def HOLDOUT_END_MS_def)

lemma discovery_span:
  assumes "good_batch rl lib full d" "length sig = length (ld_discovery d)"
  shows "\<exists>m. span_metrics (ld_discovery d) sig (ld_score d) (length (ld_discovery d)) (ld_segments d) c fr = Inr m"
proof -
  note b = build_Inr [of rl lib full d] assms(1)[unfolded good_batch_def]
  have score: "ld_score d < length (ld_discovery d)" using b library_score_less by blast
  have asc: "days_ascend (ld_discovery d)" using b by (metis days_ascend_before)
  have "ld_score d \<le> index_of (ld_discovery d) y" if "(x, y) \<in> set (ld_segments d)" for x y
    using index_of_gt [OF asc score] tile_ends [OF _ that] b by (metis less_imp_le)
  then show ?thesis using assms(2) score by (intro span_metrics_total) auto
qed

lemma holdout_span:
  assumes "length sig = length bars"
  shows "\<exists>m. span_metrics bars sig (index_of bars HOLDOUT_START_MS) (length bars) HOLDOUT_SEGMENT c fr = Inr m"
proof -
  have "index_of bars HOLDOUT_START_MS \<le> index_of bars HOLDOUT_END_MS" by (rule index_of_mono [OF holdout_order])
  then show ?thesis using assms index_of_le by (intro span_metrics_total) (auto simp: HOLDOUT_SEGMENT_def)
qed

lemma good_point:
  assumes "good_batch rl lib full d" "s \<in> set lib" "p \<in> set (grid_params s)"
  obtains sig rdy where "ru_signal rl s p bars = Inr sig" "length sig = length bars"
    "ru_ready rl s p bars = Inr rdy" "length rdy = length bars"
  using assms unfolding good_batch_def rules_complete_def by meson

lemma discovery_total:
  assumes "good_batch rl lib full d" "s \<in> set lib" "p \<in> set (grid_params s)"
  shows "\<exists>m. discovery_metrics rl d s p c = Inr m"
proof -
  obtain sig rdy where r: "ru_signal rl s p (ld_discovery d) = Inr sig" "length sig = length (ld_discovery d)"
    "ru_ready rl s p (ld_discovery d) = Inr rdy" "length rdy = length (ld_discovery d)" by (rule good_point [OF assms])
  have "library_score_index rl lib (ld_discovery d) = Inr (ld_score d)"
    using assms(1) build_Inr unfolding good_batch_def by blast
  from score_covers [OF this assms(2,3) r(3,4)] show ?thesis
    using r(1) discovery_span [OF assms(1) r(2)] by (simp add: discovery_metrics_def)
qed

text \<open>The holdout book of a point that is not warm there raises, and nothing else does.\<close>

lemma holdout_total:
  assumes "good_batch rl lib full d" "s \<in> set lib" "p \<in> set (grid_params s)"
  shows "holdout_warm rl d s p \<and> (\<exists>m. holdout_metrics rl d s p c = Inr m) \<or>
    \<not> holdout_warm rl d s p \<and> holdout_metrics rl d s p c = not_warm"
proof (cases "ld_holdout d")
  case None
  then show ?thesis by (simp add: holdout_metrics_def optional_def holdout_warm_def)
next
  case (Some bars)
  obtain sig rdy where r: "ru_signal rl s p bars = Inr sig" "length sig = length bars"
    "ru_ready rl s p bars = Inr rdy" "length rdy = length bars" by (rule good_point [OF assms])
  obtain m where "span_metrics bars sig (index_of bars HOLDOUT_START_MS) (length bars) HOLDOUT_SEGMENT c (ls_stop s) = Inr m"
    using holdout_span [OF r(2)] by blast
  then show ?thesis
    using require_ready_cases [OF r(3), of "index_of bars HOLDOUT_START_MS" "length bars"] r(1) Some
    by (auto simp: holdout_metrics_def optional_def Let_def holdout_warm_def not_warm_def)
qed

lemma bench_total:
  assumes "good_batch rl lib full d"
  shows "\<exists>m. bench_discovery d w c = Inr m" "\<exists>m. bench_holdout d w c = Inr m"
proof -
  show "\<exists>m. bench_discovery d w c = Inr m" using discovery_span [OF assms] by (simp add: bench_discovery_def)
  show "\<exists>m. bench_holdout d w c = Inr m"
  proof (cases "ld_holdout d")
    case None
    then show ?thesis by (simp add: bench_holdout_def optional_def)
  next
    case (Some bars)
    obtain m where "span_metrics bars (bench_signal w bars) (index_of bars HOLDOUT_START_MS) (length bars) HOLDOUT_SEGMENT c 0
        = Inr m"
      using holdout_span [OF length_bench] by blast
    then show ?thesis using Some by (simp add: bench_holdout_def optional_def)
  qed
qed

text \<open>Names of grid points\<close>

lemma variant_name_total:
  assumes "library_ok lib" "s \<in> set lib" "p \<in> set (grid_params s)"
  shows "\<exists>n. variant_name s p = Inr n"
proof -
  have "distinct (map lp_name (ls_params s))" "point_of s p" using assms by (auto simp: library_ok_def intro: grid_point)
  from param_values_point [OF this] show ?thesis by (simp add: variant_name_def)
qed

lemma grid_parse:
  assumes "library_ok lib" "s \<in> set lib" "p \<in> set (grid_params s)" "variant_name s p = Inr n"
  shows "parse_variant lib n = Inr (s, p)"
proof -
  have "point_of s p" using assms by (intro grid_point) (auto simp: library_ok_def)
  from parse_variant_name [OF assms(1,2) this assms(4)] show ?thesis .
qed

lemma trial_count_total:
  assumes "library_ok lib" "lib \<noteq> []"
  shows "\<exists>n. library_trial_count lib = Inr n \<and> 1 \<le> n"
proof -
  have "\<exists>nss. map_results (\<lambda>s. map_results (variant_name s) (grid_params s)) lib = Inr nss"
    using variant_name_total [OF assms(1)] by (intro map_results_total) blast
  then obtain nss where m: "map_results (\<lambda>s. map_results (variant_name s) (grid_params s)) lib = Inr nss" by blast
  obtain s rest where lib: "lib = s # rest" using assms(2) by (cases lib) auto
  with m obtain ns nss' where n: "map_results (variant_name s) (grid_params s) = Inr ns" "nss = ns # nss'"
    by (auto simp: bind_result_Inr)
  have "ns \<noteq> []" using map_results_length [OF n(1)] by (auto simp: grid_params_def)
  then have "concat nss \<noteq> []" using n(2) by simp
  then obtain x xs where "concat nss = x # xs" by (cases "concat nss") auto
  then have "1 \<le> length (first_by id [] (concat nss))" by simp
  then show ?thesis using m by (simp add: library_trial_count_def all_variant_names_def)
qed

lemma map_results_first:
  "(\<And>x. x \<in> set xs \<Longrightarrow> ok x \<and> (\<exists>y. f x = Inr y) \<or> \<not> ok x \<and> f x = Inl e) \<Longrightarrow>
     (\<forall>x \<in> set xs. ok x) \<and> (\<exists>ys. map_results f xs = Inr ys) \<or> \<not> (\<forall>x \<in> set xs. ok x) \<and> map_results f xs = Inl e"
proof (induction xs)
  case (Cons x xs)
  have "ok x \<and> (\<exists>y. f x = Inr y) \<or> \<not> ok x \<and> f x = Inl e" using Cons.prems [of x] by simp
  moreover have "(\<forall>x \<in> set xs. ok x) \<and> (\<exists>ys. map_results f xs = Inr ys) \<or> \<not> (\<forall>x \<in> set xs. ok x) \<and> map_results f xs = Inl e"
    using Cons.prems by (intro Cons.IH) simp
  ultimately show ?case by auto
qed simp

lemma neighbour_total:
  assumes "good_batch rl lib full d" "s \<in> set lib" "q \<in> set (grid_params s)" "parse_variant lib n = Inr (s', q)"
  shows "holdout_warm rl d s q \<and> (\<exists>nb. measure_neighbour rl lib d s n = Inr nb) \<or>
    \<not> holdout_warm rl d s q \<and> measure_neighbour rl lib d s n = not_warm"
proof -
  obtain m sm where "discovery_metrics rl d s q BASE_COSTS = Inr m" "discovery_metrics rl d s q STRESS_COSTS = Inr sm"
    using discovery_total [OF assms(1-3)] by meson
  then show ?thesis
    using assms(4) holdout_total [OF assms(1-3), of BASE_COSTS] holdout_total [OF assms(1-3), of STRESS_COSTS]
    by (auto simp: measure_neighbour_def not_warm_def)
qed

lemma neighbours_total:
  assumes "good_batch rl lib full d" "library_ok lib" "s \<in> set lib" "parse_variant lib name = Inr (s, p)"
  defines "res \<equiv> bind_result (neighbour_names lib name) (map_results (measure_neighbour rl lib d s))"
  shows "(\<forall>q \<in> set (tl (evaluated_points s p)). holdout_warm rl d s q) \<and> (\<exists>nbs. res = Inr nbs) \<or>
    \<not> (\<forall>q \<in> set (tl (evaluated_points s p)). holdout_warm rl d s q) \<and> res = not_warm"
proof -
  define pts where "pts = tl (evaluated_points s p)"
  have sub: "set pts \<subseteq> set (grid_params s)" by (auto simp: pts_def evaluated_points_def)
  have "\<exists>ns. map_results (variant_name s) pts = Inr ns"
    using variant_name_total [OF assms(2,3)] sub by (intro map_results_total) blast
  then obtain ns where ns: "map_results (variant_name s) pts = Inr ns" by blast
  have res: "res = map_results (measure_neighbour rl lib d s) ns"
    using ns assms(4) by (simp add: res_def neighbour_names_def pts_def evaluated_points_def)
  have l: "list_all2 (\<lambda>q n. variant_name s q = Inr n) pts ns" using ns by (simp only: map_results_Inr)
  have parse: "list_all2 (\<lambda>q n. q \<in> set (grid_params s) \<and> parse_variant lib n = Inr (s, q)) pts ns"
    using l sub grid_parse [OF assms(2,3)] by (auto simp: list_all2_conv_all_nth) (metis nth_mem subsetD)
  define ok where "ok = (\<lambda>n. \<forall>q. parse_variant lib n = Inr (s, q) \<longrightarrow> holdout_warm rl d s q)"
  have "ok n \<and> (\<exists>nb. measure_neighbour rl lib d s n = Inr nb) \<or> \<not> ok n \<and> measure_neighbour rl lib d s n = not_warm"
    if n: "n \<in> set ns" for n
  proof -
    obtain j where j: "j < length ns" "ns ! j = n" using n by (metis in_set_conv_nth)
    then have "pts ! j \<in> set (grid_params s)" "parse_variant lib n = Inr (s, pts ! j)"
      using list_all2_nthD2 [OF parse j(1)] by simp_all
    from neighbour_total [OF assms(1,3) this] show ?thesis using \<open>parse_variant lib n = _\<close> by (auto simp: ok_def)
  qed
  from map_results_first [of ns ok "measure_neighbour rl lib d s", OF this [unfolded not_warm_def]]
  have r: "(\<forall>n \<in> set ns. ok n) \<and> (\<exists>nbs. res = Inr nbs) \<or> \<not> (\<forall>n \<in> set ns. ok n) \<and> res = not_warm"
    unfolding res not_warm_def by blast
  have "(\<forall>n \<in> set ns. ok n) \<longleftrightarrow> (\<forall>q \<in> set pts. holdout_warm rl d s q)"
    using parse by (auto simp: ok_def list_all2_conv_all_nth all_set_conv_all_nth)
  with r show ?thesis by (simp add: pts_def)
qed

lemma measure_dsr_total: "1 \<le> n \<Longrightarrow> \<exists>x. measure_dsr cdf ppf mom n = Inr x"
  using estimator_std_nonneg
  by (auto simp: measure_dsr_def optional_def deflated_sharpe_ratio_def expected_maximum_sharpe_def not_less [symmetric]
      split: option.splits)

lemma measure_total:
  assumes "good_batch rl lib full d" "library_ok lib" "s \<in> set lib" "p \<in> set (grid_params s)" "variant_name s p = Inr name"
    and "case nt of None \<Rightarrow> True | Some n \<Rightarrow> 1 \<le> n"
  shows "if \<forall>q \<in> set (evaluated_points s p). holdout_warm rl d s q
    then \<exists>ev. measure cdf ppf rl lib name d nt = Inr ev else measure cdf ppf rl lib name d nt = not_warm"
proof -
  note parse = grid_parse [OF assms(2-5)]
  have "lib \<noteq> []" using assms(3) by auto
  then obtain n0 where n0: "library_trial_count lib = Inr n0" "1 \<le> n0" using trial_count_total [OF assms(2)] by blast
  define trials where "trials = (case nt of Some n \<Rightarrow> n | None \<Rightarrow> int n0)"
  have tr: "(case nt of Some n \<Rightarrow> Inr n | None \<Rightarrow> bind_result (library_trial_count lib) (\<lambda>n. Inr (int n))) = Inr trials"
    "1 \<le> trials" using n0 assms(6) by (auto simp: trials_def split: option.splits)
  note point = assms(1,3,4)
  obtain disc st where "discovery_metrics rl d s p BASE_COSTS = Inr disc" "discovery_metrics rl d s p STRESS_COSTS = Inr st"
    using discovery_total [OF point] by meson
  moreover obtain bh sm sb where "bench_discovery d BuyHold BASE_COSTS = Inr bh" "bench_discovery d SmaStack BASE_COSTS = Inr sm"
    "bench_discovery d BuyHold STRESS_COSTS = Inr sb" using bench_total(1) [OF assms(1)] by meson
  moreover obtain hb hs where "bench_holdout d BuyHold BASE_COSTS = Inr hb" "bench_holdout d SmaStack BASE_COSTS = Inr hs"
    using bench_total(2) [OF assms(1)] by meson
  moreover obtain x where "measure_dsr cdf ppf (return_moments (map of_rat (sp_returns disc))) trials = Inr x"
    using measure_dsr_total [OF tr(2)] by blast
  ultimately have known: "measure cdf ppf rl lib name d nt = (bind_result (holdout_metrics rl d s p BASE_COSTS) (\<lambda>hold.
      bind_result (holdout_metrics rl d s p STRESS_COSTS) (\<lambda>sh.
      bind_result (bind_result (neighbour_names lib name) (map_results (measure_neighbour rl lib d s))) (\<lambda>nbs.
        Inr (result hold sh nbs)))))" if "result = (\<lambda>hold sh nbs.
          \<lparr>ev_name = name, ev_strategy = s, ev_params = p, ev_trials = trials, ev_disc = disc, ev_bh = bh, ev_sma = sm,
            ev_hold = hold, ev_hold_bh = hb, ev_hold_sma = hs, ev_stress = st, ev_stress_hold = sh, ev_stress_bh = sb,
            ev_neighbours = nbs, ev_moments = return_moments (map of_rat (sp_returns disc)), ev_dsr = x,
            ev_hurdles = dsr_hurdles ppf (return_moments (map of_rat (sp_returns disc))) trials (of_rat DSR_MIN_PROBABILITY),
            ev_pbo = (if nbs = [] then None else probability_of_backtest_overfitting (window_matrix disc nbs))\<rparr>)" for result
    unfolding measure_def that using parse tr(1) by (simp add: Let_def split del: if_split)
  have points: "(\<forall>q \<in> set (evaluated_points s p). holdout_warm rl d s q) \<longleftrightarrow>
      holdout_warm rl d s p \<and> (\<forall>q \<in> set (tl (evaluated_points s p)). holdout_warm rl d s q)" by (simp add: evaluated_points_def)
  note nb = neighbours_total [OF assms(1-3) parse] and base = holdout_total [OF point, of BASE_COSTS]
    and stress = holdout_total [OF point, of STRESS_COSTS]
  show ?thesis
  proof (cases "holdout_warm rl d s p")
    case True
    then obtain hold sh where "holdout_metrics rl d s p BASE_COSTS = Inr hold" "holdout_metrics rl d s p STRESS_COSTS = Inr sh"
      using base stress by blast
    then show ?thesis unfolding points using nb True known [OF refl] by (auto simp: not_warm_def)
  next
    case False
    then show ?thesis unfolding points using base known [OF refl] by (simp add: not_warm_def)
  qed
qed

section \<open>The declared rules\<close>

text \<open>A declaration table whose strategies are all modelled in \<open>Signals\<close>, with sane grids\<close>

definition modelled_library :: "lib_strategy list \<Rightarrow> bool" where
  "modelled_library lib \<longleftrightarrow>
     (\<forall>s \<in> set lib. \<forall>p \<in> set (grid_params s). sane_params (ls_key s) p \<and>
        (\<exists>sig i. library_signal (ls_key s) p = Some (Inr sig) \<and> warm_index (ls_key s) p = Some (Inr i)))"

lemma catalog_point:
  assumes "modelled_library lib" "s \<in> set lib" "p \<in> set (grid_params s)"
  obtains sig i where "causal sig" "ru_signal catalog_rules s p = (\<lambda>bars. Inr (sig bars))"
    "ru_ready catalog_rules s p = (\<lambda>bars. Inr (defined_from (length bars) i))"
proof -
  obtain sig i where l: "sane_params (ls_key s) p" "library_signal (ls_key s) p = Some (Inr sig)"
      "warm_index (ls_key s) p = Some (Inr i)"
    using assms unfolding modelled_library_def by blast
  then have r: "signal_ready (ls_key s) p = Some (Inr (\<lambda>bars. defined_from (length bars) i))"
    by (simp add: signal_ready_def)
  have "causal sig" by (rule warm_parts(1) [OF library_warm [OF l(1,2) r]])
  then show ?thesis using l r by (intro that [of sig i]) (simp_all add: catalog_rules_def fun_eq_iff)
qed

lemma catalog_complete:
  assumes "modelled_library lib"
  shows "rules_complete catalog_rules lib"
  unfolding rules_complete_def
proof (intro ballI allI)
  fix s p and bars :: "day list" assume "s \<in> set lib" "p \<in> set (grid_params s)"
  then obtain sig i where "causal sig" "ru_signal catalog_rules s p = (\<lambda>bars. Inr (sig bars))"
    "ru_ready catalog_rules s p = (\<lambda>bars. Inr (defined_from (length bars) i))" by (rule catalog_point [OF assms])
  then show "(\<exists>sig. ru_signal catalog_rules s p bars = Inr sig \<and> length sig = length bars) \<and>
      (\<exists>rdy. ru_ready catalog_rules s p bars = Inr rdy \<and> length rdy = length bars)"
    by (simp add: causalD defined_from_def)
qed

text \<open>
  A mask of a fixed first index stays true once it is, so a point that was warm on the discovery days is warm on every day
  of the holdout year, when there is one.
\<close>

lemma fixed_holdout_warm:
  assumes "build_library_data rl lib full = Inr d" "s \<in> set lib" "p \<in> set (grid_params s)"
    and "\<exists>i. \<forall>bars. ru_ready rl s p bars = Inr (defined_from (length bars) i)"
    and "\<And>bars. ld_holdout d = Some bars \<Longrightarrow> index_of bars HOLDOUT_START_MS < length bars"
  shows "holdout_warm rl d s p"
proof (cases "ld_holdout d")
  case (Some bars)
  obtain i where r: "\<And>bars. ru_ready rl s p bars = Inr (defined_from (length bars) i)" using assms(4) by blast
  have b: "library_score_index rl lib (ld_discovery d) = Inr (ld_score d)" "bars = before full HOLDOUT_END_MS"
    "ld_discovery d = before full HOLDOUT_START_MS"
    using build_Inr [OF assms(1)] Some by (auto split: if_splits)
  note score = library_score_less [OF b(1)]
  have h: "index_of bars HOLDOUT_START_MS = length (ld_discovery d)" using b index_before [OF holdout_order] by simp
  have len: "length (defined_from n i) = n" for n by (simp add: defined_from_def)
  have "require_ready rl s (ld_discovery d) p (ld_score d) (length (ld_discovery d)) = Inr ()"
    using r len by (intro score_covers [OF b(1) assms(2,3)]) simp_all
  then have "list_all id (drop (ld_score d - 1) (take (length (ld_discovery d) - 1) (defined_from (length (ld_discovery d)) i)))"
    using require_ready_total [of rl s p "ld_discovery d" "defined_from (length (ld_discovery d)) i" "ld_score d"
        "length (ld_discovery d)"] r len score by (simp add: not_warm_def split: if_splits)
  then have "0 \<le> i \<and> i \<le> int (ld_score d - 1)"
    using score by (auto simp: list_all_length defined_from_def dest!: spec [of _ 0])
  then have "list_all id (drop (length (ld_discovery d) - 1) (take (length bars - 1) (defined_from (length bars) i)))"
    using score by (auto simp: list_all_length defined_from_def)
  then show ?thesis
    using require_ready_total [of rl s p bars "defined_from (length bars) i" "length (ld_discovery d)" "length bars"]
      r len score assms(5) [OF Some] h Some by (cases "ld_discovery d") (simp_all add: holdout_warm_def)
qed (simp add: holdout_warm_def)

lemma catalog_holdout_warm:
  assumes "modelled_library lib" "build_library_data catalog_rules lib full = Inr d" "s \<in> set lib" "p \<in> set (grid_params s)"
    and "\<And>bars. ld_holdout d = Some bars \<Longrightarrow> index_of bars HOLDOUT_START_MS < length bars"
  shows "holdout_warm catalog_rules d s p"
proof -
  obtain sig :: "day list \<Rightarrow> bool list" and i where "ru_ready catalog_rules s p = (\<lambda>bars. Inr (defined_from (length bars) i))"
    by (rule catalog_point [OF assms(1,3,4)])
  then show ?thesis by (intro fixed_holdout_warm [OF assms(2-4) _ assms(5)]) auto
qed

end
