(* ===== verification/EvalProperties.thy ===== *)
theory EvalProperties
  imports EvalRuns
begin

text \<open>
  Properties of the library evaluation: what a pass of the gate means, that every name gets a record, that
  the ingest accepts it, that the holdout stays sealed, the blocks, and the statistics.
\<close>

section \<open>A batch for the witnesses\<close>

definition monday :: lib_strategy where
  "monday =
     \<lparr>ls_key = ''dow'', ls_title = ''Long on UTC Monday only'',
      ls_params = [\<lparr>lp_name = ''dow'', lp_center = 0, lp_neighbours = [6, 1]\<rparr>], ls_stop = 1 / 5\<rparr>"

definition flat_candle :: "int \<Rightarrow> candle" where
  "flat_candle t = \<lparr>cd_ts = t, cd_open = 10, cd_high = 11, cd_low = 9, cd_close = 10\<rparr>"

text \<open>Three days before the holdout, and two endings inside it\<close>

definition old_tape :: "candle list" where
  "old_tape = map flat_candle [1502928000000, 1503014400000, 1759190400000]"

definition short_tape :: "candle list" where "short_tape = map flat_candle [1759276800000]"
definition long_tape :: "candle list" where "long_tape = map flat_candle [1759276800000, 1790812800000]"

lemma monday_library: "library_ok [monday]" "modelled_library [monday]"
  by (auto simp: library_ok_def monday_def param_ok_def modelled_library_def grid_params_def center_def
      sane_params_def library_signal_def warm_index_def Let_def param_def)

lemma monday_claim: "''lib.dow'' \<in> set (claim_names [monday])" "variant_name monday (center monday) = Inr ''lib.dow''"
  by (simp_all add: claim_names_def monday_def NAME_PREFIX_def variant_name_def param_values_def center_def)

lemma monday_trials: "library_trial_count [monday] = Inr 3"
  by (simp add: library_trial_count_def all_variant_names_def monday_def grid_params_def center_def variant_name_def
      param_values_def NAME_PREFIX_def show_int_def show_nat.simps digit_char_def)

definition days_of_tape :: "int list \<Rightarrow> day list" where
  "days_of_tape = map (\<lambda>t. \<lparr>dy_ts = t, dy_open = 10, dy_high = 11, dy_low = 9, dy_close = 10\<rparr>)"

lemma tape_days:
  "daily_bars (old_tape @ short_tape) = days_of_tape [1502928000000, 1503014400000, 1759190400000]"
  "daily_bars (old_tape @ long_tape) = days_of_tape [1502928000000, 1503014400000, 1759190400000, 1759276800000]"
  by (simp_all add: daily_bars_def tidy_def old_tape_def short_tape_def long_tape_def flat_candle_def day_of_def DAY_MS_def
      day_bar_def days_of_tape_def)

lemma monday_warm:
  assumes "2 \<le> length bars"
  shows "library_score_index catalog_rules [monday] bars = Inr 1"
proof -
  have "first_warm (defined_from (length bars) 0) (length bars) = Inr 1"
  proof -
    have "defined_from (length bars) 0 = replicate (length bars) True" by (simp add: defined_from_def map_replicate_const)
    then show ?thesis using assms by (cases bars) (auto simp: first_warm_def list_all_iff)
  qed
  then show ?thesis using assms
    by (simp add: library_score_index_def grid_params_def monday_def center_def catalog_rules_def signal_ready_def
        warm_index_def Let_def)
qed

lemma days_of_tape_simps [simp]:
  "length (days_of_tape ts) = length ts" "i < length ts \<Longrightarrow> dy_ts (days_of_tape ts ! i) = ts ! i"
  "days_of_tape ts = [] \<longleftrightarrow> ts = []" "map dy_ts (days_of_tape ts) = ts"
  by (simp_all add: days_of_tape_def comp_def)

lemma before_tape: "before (days_of_tape ts) t = days_of_tape (takeWhile (\<lambda>x. x < t) ts)"
  unfolding before_takeWhile days_of_tape_def by (simp add: takeWhile_map comp_def)

lemma hd_tape: "ts \<noteq> [] \<Longrightarrow> dy_ts (hd (days_of_tape ts)) = hd ts"
  by (cases ts) (simp_all add: days_of_tape_def)

lemma last_tape: "ts \<noteq> [] \<Longrightarrow> dy_ts (last (days_of_tape ts)) = last ts"
  by (simp add: days_of_tape_def last_map)

lemmas tape_times = HOLDOUT_START_MS_def HOLDOUT_END_MS_def LIBRARY_TAPE_START_MS_def LIBRARY_TAPE_START_SLACK_MS_def DAY_MS_def

text \<open>A tape that starts with the listing and reaches the holdout is a batch.\<close>

lemma tape_batch:
  assumes "ts \<noteq> []" "hd ts = 1502928000000" "sorted_wrt (<) ts"
    and "2 \<le> length (takeWhile (\<lambda>x. x < 1759276800000) ts)" "last (takeWhile (\<lambda>x. x < 1759276800000) ts) = 1759190400000"
    and "ld_ok \<longleftrightarrow> 1790726400000 \<le> last ts"
  shows "\<exists>d. build_library_data catalog_rules [monday] (days_of_tape ts) = Inr d \<and>
    ld_holdout d = (if ld_ok then Some (days_of_tape (takeWhile (\<lambda>x. x < 1790812800000) ts)) else None)"
proof -
  let ?d = "takeWhile (\<lambda>x. x < 1759276800000) ts"
  have ne: "?d \<noteq> []" using assms(4) by auto
  have s: "library_score_index catalog_rules [monday] (days_of_tape ?d) = Inr 1" using assms(4) by (intro monday_warm) simp
  have "?d ! 1 \<in> set ?d" using assms(4) by (intro nth_mem) simp
  then have "?d ! 1 < 1759276800000" by (blast dest: set_takeWhileD)
  then have "\<exists>segs. tile_blocks (?d ! 1) HOLDOUT_START_MS = Inr segs"
    by (simp add: tile_blocks_def Let_def HOLDOUT_START_MS_def)
  then obtain segs where t: "tile_blocks (?d ! 1) HOLDOUT_START_MS = Inr segs" by blast
  have b: "before (days_of_tape ts) HOLDOUT_START_MS = days_of_tape ?d" by (simp add: before_tape HOLDOUT_START_MS_def)
  have e: "before (days_of_tape ts) HOLDOUT_END_MS = days_of_tape (takeWhile (\<lambda>x. x < 1790812800000) ts)"
    by (simp add: before_tape HOLDOUT_END_MS_def)
  have h: "assert_library_history (days_of_tape ts) = Inr ()"
    using assms(1,2) by (simp add: assert_library_history_def hd_tape tape_times)
  have "build_library_data catalog_rules [monday] (days_of_tape ts) =
      Inr \<lparr>ld_discovery = days_of_tape ?d,
        ld_holdout = (if ld_ok then Some (days_of_tape (takeWhile (\<lambda>x. x < 1790812800000) ts)) else None),
        ld_score = 1, ld_segments = segs,
        ld_note = (if ld_ok then None else Some ''holdout tape incomplete (needs every day through 2026-09-30)'')\<rparr>"
    using assms ne s t unfolding build_library_data_def h b e
    by (simp add: Let_def last_tape HOLDOUT_START_MS_def HOLDOUT_END_MS_def DAY_MS_def)
  then show ?thesis by simp
qed

definition year_tape :: "day list" where
  "year_tape = days_of_tape [1502928000000, 1503014400000, 1759190400000, 1759276800000, 1790726400000]"

lemma year_batch: "\<exists>d. good_batch catalog_rules [monday] year_tape d \<and> ld_holdout d = Some year_tape"
proof -
  have "\<exists>d. build_library_data catalog_rules [monday] year_tape = Inr d \<and>
      ld_holdout d = (if True then Some (days_of_tape (takeWhile (\<lambda>x. x < 1790812800000)
        [1502928000000, 1503014400000, 1759190400000, 1759276800000, 1790726400000])) else None)"
    unfolding year_tape_def by (rule tape_batch) simp_all
  then obtain d where "build_library_data catalog_rules [monday] year_tape = Inr d" "ld_holdout d = Some year_tape"
    by (auto simp: year_tape_def)
  moreover have "days_ascend year_tape" by (simp add: days_ascend_def year_tape_def)
  ultimately show ?thesis using catalog_complete [OF monday_library(2)] by (auto simp: good_batch_def)
qed

lemma year_warm: "good_batch catalog_rules [monday] year_tape d \<Longrightarrow> ld_holdout d = Some year_tape \<Longrightarrow>
    p \<in> set (grid_params monday) \<Longrightarrow> holdout_warm catalog_rules d monday p"
  by (rule catalog_holdout_warm [OF monday_library(2)])
    (auto simp: good_batch_def index_of_def year_tape_def days_of_tape_def HOLDOUT_START_MS_def)

lemma monday_center: "monday \<in> set [monday]" "center monday \<in> set (grid_params monday)"
  by (simp_all add: grid_params_def)

text \<open>A distribution that is uniform around zero, in place of the normal one, and the texts of the declaration\<close>

definition flat_cdf :: "real \<Rightarrow> real" where "flat_cdf x = max 0 (min 1 (x + 1 / 2))"
definition flat_ppf :: "real \<Rightarrow> real" where "flat_ppf p = p - 1 / 2"

definition monday_card :: "lib_strategy \<Rightarrow> card" where
  "monday_card s = \<lparr>ca_family = ''seasonality'', ca_evaluation = ''daily'', ca_citation = ''Aharon & Qadan (2019)'',
     ca_peer_reviewed = True\<rparr>"

lemma flat_tables: "normal_tables flat_cdf flat_ppf"
  by (auto simp: normal_tables_def flat_cdf_def flat_ppf_def intro!: monoI)

section \<open>Evaluation\<close>

text \<open>
  C5. A pass of the gate means money was made: on a batch that was built, a name qualifies exactly when its
  out-of-sample book closed at least eight trades and its holdout book at least two, and in each of the two
  spans the trades together earned more than their fees and slippage, at the normal costs and at the
  stressed costs.
\<close>
theorem gate_means_profit:
  assumes "build_library_data rl lib full = Inr d" "measure cdf ppf rl lib name d n_trials = Inr ev"
  shows "vd_qualified (verdict_of d ev) = made_money ev"
  by (rule verdict_made_money [OF assms])

text \<open>
  C18. Every name gets its record, or the one error there is: for a batch built from an ascending tape, with declared functions
  that give a signal and a warm mask for every bar, the evaluation of a grid point of the library returns a record exactly
  when the tape is not yet complete, or the masks of the point and of its one-step neighbours hold on every close that a
  day of the holdout year acts on. Otherwise it raises the error of a day whose lookback is not warm, as a book over an
  undefined lookback must. In particular a grid point returns when the masks of its strategy are true from a fixed index on, and
  the complete tape has a day of the holdout year.
\<close>
theorem evaluation_returns:
  assumes "rules_complete rl lib" "days_ascend full" "build_library_data rl lib full = Inr d" "library_ok lib"
    and "s \<in> set lib" "p \<in> set (grid_params s)" "variant_name s p = Inr name"
  shows "(if \<forall>q \<in> set (evaluated_points s p). holdout_warm rl d s q
     then \<exists>r. evaluate_library_record cdf ppf rl lib cards name d None t = Inr r
     else evaluate_library_record cdf ppf rl lib cards name d None t = not_warm) \<and>
    ((\<forall>q \<in> set (grid_params s). \<exists>i. \<forall>bars. ru_ready rl s q bars = Inr (defined_from (length bars) i)) \<longrightarrow>
     (\<forall>bars. ld_holdout d = Some bars \<longrightarrow> index_of bars HOLDOUT_START_MS < length bars) \<longrightarrow>
     (\<exists>r. evaluate_library_record cdf ppf rl lib cards name d None t = Inr r))"
proof -
  have g: "good_batch rl lib full d" using assms(1-3) by (simp add: good_batch_def)
  have whole: "if \<forall>q \<in> set (evaluated_points s p). holdout_warm rl d s q
     then \<exists>r. evaluate_library_record cdf ppf rl lib cards name d None t = Inr r
     else evaluate_library_record cdf ppf rl lib cards name d None t = not_warm"
    using measure_total [OF g assms(4-7), of None cdf ppf]
    by (auto simp: evaluate_library_record_def not_warm_def split: if_splits)
  have "holdout_warm rl d s q"
    if "\<forall>q \<in> set (grid_params s). \<exists>i. \<forall>bars. ru_ready rl s q bars = Inr (defined_from (length bars) i)"
      "\<forall>bars. ld_holdout d = Some bars \<longrightarrow> index_of bars HOLDOUT_START_MS < length bars" "q \<in> set (evaluated_points s p)" for q
    using that assms(6) by (intro fixed_holdout_warm [OF assms(3,5)]) (auto simp: evaluated_points_def)
  then show ?thesis using whole by (auto split: if_splits)
qed

text \<open>The evaluation of the Monday rule returns.\<close>
theorem evaluation_returns_witness:
  "\<exists>d r. build_library_data catalog_rules [monday] year_tape = Inr d \<and>
     evaluate_library_record flat_cdf flat_ppf catalog_rules [monday] monday_card ''lib.dow'' d None (JTime 0) = Inr r"
proof -
  obtain d where d: "good_batch catalog_rules [monday] year_tape d" "ld_holdout d = Some year_tape" using year_batch by blast
  then have b: "rules_complete catalog_rules [monday]" "days_ascend year_tape"
    "build_library_data catalog_rules [monday] year_tape = Inr d" by (simp_all add: good_batch_def)
  have "\<forall>q \<in> set (evaluated_points monday (center monday)). holdout_warm catalog_rules d monday q"
    using year_warm [OF d] monday_center(2) by (auto simp: evaluated_points_def)
  then show ?thesis
    using evaluation_returns [OF b monday_library(1) monday_center monday_claim(2), of flat_cdf flat_ppf monday_card "JTime 0"] b(3)
    by auto
qed

lemma monday_measured:
  "\<exists>d ev. good_batch catalog_rules [monday] year_tape d \<and>
     measure flat_cdf flat_ppf catalog_rules [monday] ''lib.dow'' d None = Inr ev"
proof -
  obtain d where d: "good_batch catalog_rules [monday] year_tape d" "ld_holdout d = Some year_tape" using year_batch by blast
  have "\<forall>q \<in> set (evaluated_points monday (center monday)). holdout_warm catalog_rules d monday q"
    using year_warm [OF d] monday_center(2) by (auto simp: evaluated_points_def)
  then show ?thesis
    using measure_total [OF d(1) monday_library(1) monday_center monday_claim(2), of None flat_cdf flat_ppf] d(1) by auto
qed

text \<open>The gate on the Monday rule\<close>
theorem gate_means_profit_witness:
  "\<exists>d ev. build_library_data catalog_rules [monday] year_tape = Inr d \<and>
     measure flat_cdf flat_ppf catalog_rules [monday] ''lib.dow'' d None = Inr ev \<and> vd_qualified (verdict_of d ev) = made_money ev"
proof -
  obtain d ev where d: "good_batch catalog_rules [monday] year_tape d"
    "measure flat_cdf flat_ppf catalog_rules [monday] ''lib.dow'' d None = Inr ev" using monday_measured by blast
  then have b: "build_library_data catalog_rules [monday] year_tape = Inr d" by (simp add: good_batch_def)
  show ?thesis using b d(2) gate_means_profit [OF b d(2)] by blast
qed

text \<open>
  C6. What the evaluation writes, the ingest accepts: the record of a claimable name passes the validation
  unchanged exactly when it was scored with the trial count of the library, and it carries the attestation
  of its gate, and is the pass that the seating looks for, exactly when it qualified.
\<close>
theorem record_meets_ingest:
  assumes "measure cdf ppf rl lib name d n_trials = Inr ev" "name \<in> set (claim_names lib)"
    and "library_trial_count lib = Inr n"
  shows "validate_eval lib (record_json cards d ev t) =
      (if ev_trials ev = int n then Some (record_json cards d ev t) else None) \<and>
    library_attestation_ok (record_json cards d ev t) = vd_qualified (verdict_of d ev) \<and>
    library_pass lib (record_json cards d ev t) = (if vd_qualified (verdict_of d ev) then Some name else None)"
  using record_accepted [OF assms] qualified_attested record_is_pass [OF assms(1,2)] by metis

text \<open>The record of the Monday rule is accepted.\<close>
theorem record_meets_ingest_witness:
  "\<exists>d ev. validate_eval [monday] (record_json monday_card d ev (JTime 0)) = Some (record_json monday_card d ev (JTime 0))"
proof -
  obtain d ev where m: "measure flat_cdf flat_ppf catalog_rules [monday] ''lib.dow'' d None = Inr ev"
    using monday_measured by blast
  have "ev_trials ev = int 3" using measure_Inr(7) [OF m] monday_trials by auto
  then show ?thesis using record_meets_ingest [OF m monday_claim(1) monday_trials, of monday_card "JTime 0"] by auto
qed

text \<open>
  C19. The holdout stays sealed: two tapes that agree before the holdout give the same out-of-sample bars,
  scoring start and blocks, whatever their candles after it, so every out-of-sample book is the same.
\<close>
theorem holdout_stays_sealed:
  assumes "ascending (xs @ ys)" "ascending (xs @ zs)" "ys \<noteq> []" "zs \<noteq> []"
    and "list_all (\<lambda>c. cd_ts c < HOLDOUT_START_MS) xs" "list_all (\<lambda>c. HOLDOUT_START_MS \<le> cd_ts c) (ys @ zs)"
    and "library_data_from_tape rl lib (xs @ ys) = Inr d" "library_data_from_tape rl lib (xs @ zs) = Inr d'"
  shows "ld_discovery d = ld_discovery d' \<and> ld_score d = ld_score d' \<and> ld_segments d = ld_segments d' \<and>
    discovery_metrics rl d s p c = discovery_metrics rl d' s p c"
proof -
  have "ld_discovery d = ld_discovery d' \<and> ld_score d = ld_score d' \<and> ld_segments d = ld_segments d'"
    using assms by (intro sealed_batch [where xs = xs and ys = ys and zs = zs]) (auto simp: list_all_iff)
  then show ?thesis by (simp add: discovery_metrics_def)
qed

lemma witness_tapes:
  "\<exists>d. library_data_from_tape catalog_rules [monday] (old_tape @ short_tape) = Inr d"
  "\<exists>d. library_data_from_tape catalog_rules [monday] (old_tape @ long_tape) = Inr d"
  unfolding library_data_from_tape_def tape_days
  using tape_batch [of "[1502928000000, 1503014400000, 1759190400000]" False]
    tape_batch [of "[1502928000000, 1503014400000, 1759190400000, 1759276800000]" False] by auto

text \<open>Two endings of a tape\<close>
theorem holdout_stays_sealed_witness:
  "\<exists>d d'. library_data_from_tape catalog_rules [monday] (old_tape @ short_tape) = Inr d \<and>
     library_data_from_tape catalog_rules [monday] (old_tape @ long_tape) = Inr d' \<and>
     discovery_metrics catalog_rules d monday (center monday) BASE_COSTS =
     discovery_metrics catalog_rules d' monday (center monday) BASE_COSTS"
proof -
  obtain d d' where d: "library_data_from_tape catalog_rules [monday] (old_tape @ short_tape) = Inr d"
    "library_data_from_tape catalog_rules [monday] (old_tape @ long_tape) = Inr d'" using witness_tapes by blast
  have tapes: "ascending (old_tape @ short_tape)" "ascending (old_tape @ long_tape)" "short_tape \<noteq> []" "long_tape \<noteq> []"
    "list_all (\<lambda>c. cd_ts c < HOLDOUT_START_MS) old_tape" "list_all (\<lambda>c. HOLDOUT_START_MS \<le> cd_ts c) (short_tape @ long_tape)"
    by (simp_all add: old_tape_def short_tape_def long_tape_def flat_candle_def HOLDOUT_START_MS_def)
  show ?thesis using d holdout_stays_sealed [OF tapes d] by blast
qed

text \<open>
  Warnings never decide: the verdict, the fail reasons and the failing checks are the same whatever the
  Sharpe ratios, the deflated Sharpe ratio, the overfitting probability, the neighbours, the benchmarks and
  the trial count were; and a name qualifies exactly when no reason and no failing check is listed.
\<close>
lemma warnings_never_decide:
  "vd_qualified (library_verdict m) = vd_qualified (library_verdict (decisive m)) \<and>
   vd_reasons (library_verdict m) = vd_reasons (library_verdict (decisive m)) \<and>
   vd_failing (library_verdict m) = vd_failing (library_verdict (decisive m)) \<and>
   vd_qualified (library_verdict m) = (vd_reasons (library_verdict m) = []) \<and>
   vd_qualified (library_verdict m) = (vd_failing (library_verdict m) = [])"
proof -
  have "vd_qualified (library_verdict m) = (vd_reasons (library_verdict m) = [])"
    by (simp add: qualified_iff no_reasons_iff)
  moreover have "vd_qualified (library_verdict m) = (vd_failing (library_verdict m) = [])"
    by (simp add: library_verdict_def Let_def)
  ultimately show ?thesis using verdict_decisive by blast
qed

text \<open>
  The blocks tile the scored span: they start with it, follow one another without gap or overlap and
  end with it, there is at least one, every block is at most 585 days, and at least 292 days when there are
  two or more.
\<close>
lemma blocks_tile_span:
  assumes "tile_blocks a b = Inr segs"
  shows "segs \<noteq> [] \<and> fst (hd segs) = a \<and> snd (last segs) = b \<and> chained a segs = Some b \<and>
    list_all (\<lambda>(x, y). x < y \<and> y - x \<le> 585 * DAY_MS \<and> (length segs < 2 \<or> 292 * DAY_MS \<le> y - x)) segs"
proof -
  have "x < y \<and> y - x \<le> 585 * DAY_MS \<and> (length segs < 2 \<or> 292 * DAY_MS \<le> y - x)" if "(x, y) \<in> set segs" for x y
    using block_lengths [OF assms that] by (auto simp: block_ms DAY_MS_def not_less)
  then show ?thesis using tile_blocks_Inr [OF assms] by (auto simp: list_all_iff)
qed

text \<open>The blocks of a thousand days\<close>
lemma blocks_tile_span_instance:
  "tile_blocks 0 86400000000 = Inr [(0, 28800000000), (28800000000, 57600000000), (57600000000, 86400000000)] \<and>
   chained 0 [(0, 28800000000), (28800000000, 57600000000), (57600000000, 86400000000)] = Some (86400000000 :: int)"
proof -
  have n: "block_count 86400000000 = 3"
  proof -
    have "\<lfloor>100 / 39 :: rat\<rfloor> = 2" by (simp add: floor_eq_iff)
    then show ?thesis by (simp add: block_count_def LIBRARY_BLOCK_TARGET_DAYS_def DAY_MS_def round_even_def Let_def)
  qed
  have "tile_blocks 0 86400000000 = Inr [(0, 28800000000), (28800000000, 57600000000), (57600000000, 86400000000)]"
    by (simp add: tile_blocks_def block_edges_def n Let_def upt_rec numeral_3_eq_3)
  then show ?thesis using blocks_tile_span by blast
qed

section \<open>Statistics\<close>

text \<open>
  Searching more never helps: with the tables of the normal distribution, the deflated Sharpe ratio of a
  series is a probability, and scoring it as the best of more trials never raises it.
\<close>
lemma more_trials_never_help:
  assumes "normal_tables cdf ppf" "1 \<le> m" "m \<le> n"
  shows "\<exists>a b. deflated_sharpe_ratio cdf ppf sharpe k m skew kurt = Inr a \<and>
    deflated_sharpe_ratio cdf ppf sharpe k n skew kurt = Inr b \<and> 0 \<le> b \<and> b \<le> a \<and> a \<le> 1"
  by (rule dsr_antimono [OF assms])

text \<open>One and ten trials, with a distribution that is uniform around zero\<close>
lemma more_trials_never_help_instance:
  "\<exists>a b. deflated_sharpe_ratio flat_cdf flat_ppf (1 / 10) 100 1 0 3 = Inr a \<and>
     deflated_sharpe_ratio flat_cdf flat_ppf (1 / 10) 100 10 0 3 = Inr b \<and> b \<le> a"
  using more_trials_never_help [OF flat_tables, of 1 10 "1 / 10" 100 0 3] by auto

text \<open>
  The overfitting probability: it is undefined exactly when there are fewer than two windows or two
  configurations, it is a probability, and configurations that earned the same in every window count as
  overfit with certainty.
\<close>
lemma overfitting_probability:
  "(case probability_of_backtest_overfitting rows of
      None \<Rightarrow> \<not> table_ok rows
    | Some p \<Rightarrow> table_ok rows \<and> (if same_columns rows then p = 1 else 0 \<le> p \<and> p \<le> 1))"
  using pbo_undefined [of rows] pbo_unit [of rows] pbo_of_same_columns [of rows] by (auto split: option.splits)

end
