(* ===== verification/Risk.thy ===== *)
theory Risk
  imports Broker
begin

text \<open>
  The risk rules (\<open>risk/managed.py\<close>, \<open>risk/rm_v1.py\<close>, \<open>risk/limits.py\<close>): the sizing of a long, the open-risk and
  notional caps, the drawdown breaker, the volatility stop, and the clamps on target weights.
  Amounts are exact rationals; a volatility that is not a number is \<open>None\<close>.
\<close>

section \<open>Constants\<close>

definition RISK_FRAC :: rat where "RISK_FRAC = 1 / 100"
definition MAX_OPEN_RISK_FRAC :: rat where "MAX_OPEN_RISK_FRAC = 5 / 100"
definition MAX_DRAWDOWN :: rat where "MAX_DRAWDOWN = 15 / 100"
definition CONFIDENCE_MIN :: rat where "CONFIDENCE_MIN = 1 / 2"
definition CONFIDENCE_MAX :: rat where "CONFIDENCE_MAX = 2"
definition MAX_NOTIONAL_FRAC :: rat where "MAX_NOTIONAL_FRAC = 1"
definition MIN_LOT_NOTIONAL :: rat where "MIN_LOT_NOTIONAL = 10"
definition TAKE_PROFIT_RR :: rat where "TAKE_PROFIT_RR = 2"
definition MAX_LOTS_PER_SYMBOL :: nat where "MAX_LOTS_PER_SYMBOL = 3"
definition ATR_PERIOD :: nat where "ATR_PERIOD = 14"
definition ATR_STOP_MULT :: rat where "ATR_STOP_MULT = 2"
definition STOP_FLOOR_FRAC :: rat where "STOP_FLOOR_FRAC = 15 / 1000"
definition STOP_CAP_FRAC :: rat where "STOP_CAP_FRAC = 40 / 1000"
definition STOP_FALLBACK_FRAC :: rat where "STOP_FALLBACK_FRAC = 25 / 1000"
definition CONFIDENCE_REF_PROB :: rat where "CONFIDENCE_REF_PROB = 1 / 2"

lemmas risk_constants =
  RISK_FRAC_def MAX_OPEN_RISK_FRAC_def MAX_DRAWDOWN_def CONFIDENCE_MIN_def CONFIDENCE_MAX_def MAX_NOTIONAL_FRAC_def
  MIN_LOT_NOTIONAL_def TAKE_PROFIT_RR_def MAX_LOTS_PER_SYMBOL_def ATR_PERIOD_def ATR_STOP_MULT_def STOP_FLOOR_FRAC_def
  STOP_CAP_FRAC_def STOP_FALLBACK_FRAC_def CONFIDENCE_REF_PROB_def

section \<open>The risk manager\<close>

record risk_manager =
  rk_frac :: rat
  rk_open_frac :: rat
  rk_drawdown :: rat
  rk_peak :: rat
  rk_halted :: bool
  rk_reason :: "string option"

record risk_decision =
  rd_approved :: bool
  rd_reason :: string
  rd_size :: rat
  rd_stop :: rat

definition new_risk_manager :: "rat \<Rightarrow> rat \<Rightarrow> risk_manager" where
  "new_risk_manager frc equity =
     \<lparr>rk_frac = frc, rk_open_frac = MAX_OPEN_RISK_FRAC, rk_drawdown = MAX_DRAWDOWN, rk_peak = equity, rk_halted = False,
      rk_reason = None\<rparr>"

text \<open>\<open>f"{x:.0f}"\<close> and \<open>f"{x:.k%}"\<close>\<close>

definition fmt_whole :: "rat \<Rightarrow> string" where
  "fmt_whole x = (if x < 0 then ''-'' else '''') @ show_nat (nat \<bar>round_even x\<bar>)"

definition fmt_percent :: "nat \<Rightarrow> rat \<Rightarrow> string" where
  "fmt_percent k x = (if k = 0 then fmt_whole (x * 100) else fmt_fixed k (Fin (x * 100))) @ ''%''"

definition update_equity :: "rat \<Rightarrow> risk_manager \<Rightarrow> risk_manager" where
  "update_equity equity rk =
     (let rk = (if equity > rk_peak rk then rk\<lparr>rk_peak := equity\<rparr> else rk) in
      if rk_peak rk > 0
      then
        let dd = (rk_peak rk - equity) / rk_peak rk in
        if dd \<ge> rk_drawdown rk
        then rk\<lparr>rk_halted := True,
                rk_reason := Some (''drawdown '' @ fmt_percent 1 dd @ '' >= '' @ fmt_percent 0 (rk_drawdown rk) @ '' (peak '' @
                  fmt_whole (rk_peak rk) @ '' -> '' @ fmt_whole equity @ '')'')\<rparr>
        else rk
      else rk)"

text \<open>Open positions are triples of entry, stop and quantity.\<close>

type_synonym position = "rat \<times> rat \<times> rat"

definition open_risk :: "position list \<Rightarrow> rat" where
  "open_risk ps = max 0 (\<Sum>(entry, stop, sz) \<leftarrow> ps. (entry - stop) * sz)"

definition refused :: "string \<Rightarrow> risk_decision" where
  "refused reason = \<lparr>rd_approved = False, rd_reason = reason, rd_size = 0, rd_stop = 0\<rparr>"

definition approved :: "rat \<Rightarrow> rat \<Rightarrow> risk_decision" where
  "approved sz stop = \<lparr>rd_approved = True, rd_reason = ''ok'', rd_size = sz, rd_stop = stop\<rparr>"

definition clamp_confidence :: "rat \<Rightarrow> rat" where
  "clamp_confidence c = max CONFIDENCE_MIN (min CONFIDENCE_MAX c)"

text \<open>The part after the open-risk cap: the notional cap when the free cash is given\<close>

definition notional_cap :: "rat \<Rightarrow> rat \<Rightarrow> rat \<Rightarrow> rat \<Rightarrow> rat option \<Rightarrow> rat \<Rightarrow> risk_decision" where
  "notional_cap equity entry stop sz cash mult =
     (case cash of
        None \<Rightarrow> approved sz stop
      | Some c \<Rightarrow>
          let room = c - equity * (1 - MAX_NOTIONAL_FRAC); unit_cost = entry * max 1 mult;
              max_size = (if unit_cost > 0 then room / unit_cost else 0)
          in if max_size * entry < MIN_LOT_NOTIONAL
             then refused (''notional cap: free cash '' @ fmt_whole (max room 0) @ '' < min lot '' @ fmt_whole MIN_LOT_NOTIONAL)
             else approved (if sz > max_size then max_size else sz) stop)"

definition size_position ::
    "rat \<Rightarrow> rat \<Rightarrow> rat \<Rightarrow> position list \<Rightarrow> rat \<Rightarrow> rat option \<Rightarrow> rat \<Rightarrow> risk_manager \<Rightarrow> risk_decision" where
  "size_position equity entry stop ps conf cash mult rk =
     (if rk_halted rk then refused (case rk_reason rk of None \<Rightarrow> ''trading halted'' | Some r \<Rightarrow> if r = [] then ''trading halted'' else r)
      else if stop \<le> 0 \<or> entry \<le> stop then refused ''stop must be below entry for a long''
      else
        let risk_cash = equity * rk_frac rk * clamp_confidence conf; sz = risk_cash / (entry - stop) in
        if ps \<noteq> [] \<and> open_risk ps + (entry - stop) * sz > equity * rk_open_frac rk
        then refused (''open risk '' @ fmt_whole (open_risk ps + (entry - stop) * sz) @ '' > cap '' @
               fmt_whole (equity * rk_open_frac rk))
        else notional_cap equity entry stop sz cash mult)"

definition take_profit_price :: "rat \<Rightarrow> rat \<Rightarrow> rat \<Rightarrow> rat" where
  "take_profit_price entry stop rr = entry + rr * (entry - stop)"

section \<open>The stop and the confidence of rm_v1\<close>

definition atr_stop_distance :: "rat \<Rightarrow> rat option \<Rightarrow> rat" where
  "atr_stop_distance entry a =
     (case a of
        None \<Rightarrow> entry * STOP_FALLBACK_FRAC
      | Some v \<Rightarrow>
          if v \<le> 0 then entry * STOP_FALLBACK_FRAC
          else max (entry * STOP_FLOOR_FRAC) (min (entry * STOP_CAP_FRAC) (ATR_STOP_MULT * v)))"

definition atr_stop_price :: "rat \<Rightarrow> rat option \<Rightarrow> rat" where
  "atr_stop_price entry a = entry - atr_stop_distance entry a"

definition confidence_multiplier :: "rat \<Rightarrow> rat \<Rightarrow> rat" where
  "confidence_multiplier p ref = (if ref \<le> 0 then 1 else max CONFIDENCE_MIN (min CONFIDENCE_MAX (p / ref)))"

section \<open>Limits on target weights\<close>

record risk_limits =
  rl_position :: rat
  rl_gross :: rat

datatype limit = MaxPosition | MaxGross

record clamp_event =
  ce_limit :: limit
  ce_ticker :: "string option"
  ce_before :: rat
  ce_after :: rat

text \<open>The constraints of the model's fields\<close>

definition limits_valid :: "risk_limits \<Rightarrow> bool" where
  "limits_valid l \<longleftrightarrow> 0 < rl_position l \<and> rl_position l \<le> 1 \<and> 0 < rl_gross l"

definition clamp_weight :: "rat \<Rightarrow> rat \<Rightarrow> rat" where
  "clamp_weight cap w = (if \<bar>w\<bar> > cap then (if w > 0 then cap else - cap) else w)"

definition gross_of :: "rat dict \<Rightarrow> rat" where
  "gross_of ws = (\<Sum>(t, w) \<leftarrow> ws. \<bar>w\<bar>)"

definition clamp_positions :: "rat \<Rightarrow> rat dict \<Rightarrow> rat dict" where
  "clamp_positions cap ws = map (\<lambda>(t, w). (t, clamp_weight cap w)) (sort_key fst ws)"

definition position_events :: "rat \<Rightarrow> rat dict \<Rightarrow> clamp_event list" where
  "position_events cap ws =
     map (\<lambda>(t, w). \<lparr>ce_limit = MaxPosition, ce_ticker = Some t, ce_before = w, ce_after = clamp_weight cap w\<rparr>)
       (filter (\<lambda>(t, w). \<bar>w\<bar> > cap) (sort_key fst ws))"

definition apply_limits :: "rat dict \<Rightarrow> risk_limits \<Rightarrow> rat dict \<times> clamp_event list" where
  "apply_limits ws l =
     (let cl = clamp_positions (rl_position l) ws; evs = position_events (rl_position l) ws; g = gross_of cl in
      if g > rl_gross l
      then (map (\<lambda>(t, w). (t, w * (rl_gross l / g))) cl,
            evs @ [\<lparr>ce_limit = MaxGross, ce_ticker = None, ce_before = g, ce_after = rl_gross l\<rparr>])
      else (cl, evs))"

section \<open>Facts of the sizing\<close>

lemma clamp_confidence_bounds: "CONFIDENCE_MIN \<le> clamp_confidence c" "clamp_confidence c \<le> CONFIDENCE_MAX"
  by (auto simp: clamp_confidence_def risk_constants)

lemma refused_not_approved [simp]: "\<not> rd_approved (refused r)"
  by (simp add: refused_def)

lemma approved_sel [simp]:
  "rd_approved (approved s p)" "rd_size (approved s p) = s" "rd_stop (approved s p) = p"
  by (simp_all add: approved_def)

text \<open>An approved size: at most the risk of the confidence, and paid for from the free cash.\<close>

lemma notional_cap_approved:
  assumes "rd_approved (notional_cap equity entry stop sz (Some cash) mult)" "0 < entry"
  shows "rd_size (notional_cap equity entry stop sz (Some cash) mult) \<le> sz \<and>
    rd_size (notional_cap equity entry stop sz (Some cash) mult) * (entry * max 1 mult) \<le> cash \<and>
    rd_stop (notional_cap equity entry stop sz (Some cash) mult) = stop \<and> MIN_LOT_NOTIONAL \<le> cash \<and>
    (0 < sz \<longrightarrow> 0 < rd_size (notional_cap equity entry stop sz (Some cash) mult))"
proof -
  let ?u = "entry * max 1 mult" and ?m = "cash / (entry * max 1 mult)"
  have u: "0 < ?u" using assms(2) by (intro mult_pos_pos) (auto simp: less_max_iff_disj)
  have ok: "MIN_LOT_NOTIONAL \<le> ?m * entry" and sz: "rd_size (notional_cap equity entry stop sz (Some cash) mult) = min sz ?m"
    and st: "rd_stop (notional_cap equity entry stop sz (Some cash) mult) = stop"
    using assms u by (auto simp: notional_cap_def Let_def MAX_NOTIONAL_FRAC_def min_def split: if_splits)
  have "0 < ?m * entry" using ok unfolding MIN_LOT_NOTIONAL_def by linarith
  then have m: "0 < ?m" using assms(2) zero_less_mult_pos2 by blast
  have "min sz ?m * ?u \<le> ?m * ?u" using u by (intro mult_right_mono) auto
  also have mu: "?m * ?u = cash" using u by (intro nonzero_divide_eq_eq [THEN iffD1, OF _ refl, symmetric]) linarith
  finally have paid: "min sz ?m * ?u \<le> cash" .
  have "?m * entry \<le> ?m * ?u" using m assms(2) by (intro mult_left_mono) (auto simp: mult_le_cancel_left1)
  then have "MIN_LOT_NOTIONAL \<le> cash" using ok mu by linarith
  then show ?thesis using sz st paid m by simp
qed

lemma size_position_approved:
  assumes "rd_approved (size_position equity entry stop ps conf (Some cash) mult rk)"
  defines "d \<equiv> size_position equity entry stop ps conf (Some cash) mult rk"
  shows "\<not> rk_halted rk" "0 < stop" "stop < entry" "rd_stop d = stop" "MIN_LOT_NOTIONAL \<le> cash"
    "(entry - stop) * rd_size d \<le> equity * rk_frac rk * clamp_confidence conf"
    "rd_size d * (entry * max 1 mult) \<le> cash"
    "ps \<noteq> [] \<longrightarrow> open_risk ps + (entry - stop) * rd_size d \<le> equity * rk_open_frac rk"
    "0 < equity * rk_frac rk \<longrightarrow> 0 < rd_size d"
proof -
  let ?sz = "equity * rk_frac rk * clamp_confidence conf / (entry - stop)"
  have g: "\<not> rk_halted rk" "0 < stop" "stop < entry" and d: "d = notional_cap equity entry stop ?sz (Some cash) mult"
    and cap: "ps \<noteq> [] \<longrightarrow> open_risk ps + (entry - stop) * ?sz \<le> equity * rk_open_frac rk"
    using assms(1) by (auto simp: d_def size_position_def Let_def split: if_splits)
  have a: "rd_approved (notional_cap equity entry stop ?sz (Some cash) mult)" using assms(1) d d_def by simp
  note n = notional_cap_approved [OF a, folded d]
  have e: "0 < entry" using g by linarith
  have le: "(entry - stop) * rd_size d \<le> (entry - stop) * ?sz" using n [OF e] g(3) by (intro mult_left_mono) auto
  have c: "0 < clamp_confidence conf" using clamp_confidence_bounds(1) [of conf] by (simp add: risk_constants)
  show "\<not> rk_halted rk" "0 < stop" "stop < entry" by (fact g)+
  show "rd_stop d = stop" "MIN_LOT_NOTIONAL \<le> cash" "rd_size d * (entry * max 1 mult) \<le> cash" using n [OF e] by auto
  show "(entry - stop) * rd_size d \<le> equity * rk_frac rk * clamp_confidence conf" using le g(3) by simp
  show "ps \<noteq> [] \<longrightarrow> open_risk ps + (entry - stop) * rd_size d \<le> equity * rk_open_frac rk" using le cap by linarith
  show "0 < equity * rk_frac rk \<longrightarrow> 0 < rd_size d" using n [OF e] c g(3) by (simp add: zero_less_divide_iff)
qed

lemma atr_stop_bounds:
  assumes "0 < entry"
  shows "entry * (1 - STOP_CAP_FRAC) \<le> atr_stop_price entry a \<and> atr_stop_price entry a \<le> entry * (1 - STOP_FLOOR_FRAC)"
  using assms by (auto simp: atr_stop_price_def atr_stop_distance_def risk_constants field_simps max_def min_def split: option.splits)

lemma atr_stop_below: "0 < entry \<Longrightarrow> 0 < atr_stop_price entry a \<and> atr_stop_price entry a < entry"
  using atr_stop_bounds [of entry a] by (auto simp: risk_constants)

end
