(* ===== verification/Structure.thy ===== *)
theory Structure
  imports Indicators
begin

text \<open>
  The price structure atoms of the five-minute strategies (\<open>signals/structure.py\<close>): the average true range of
  the stops, the Donchian levels computed with a deque, the fractal pivots and their confirmation, and the
  near and hold bands. A level that is not a number is \<open>None\<close>. The caches key on the content of the tape and
  return what is computed here.
\<close>

section \<open>True range\<close>

definition true_ranges :: "rat list \<Rightarrow> rat list \<Rightarrow> rat list \<Rightarrow> rat list" where
  "true_ranges hs ls cs =
     map (\<lambda>j. if j = 0 then 0
              else max (hs ! j - ls ! j) (max \<bar>hs ! j - cs ! (j - 1)\<bar> \<bar>ls ! j - cs ! (j - 1)\<bar>)) [0..<length cs]"

definition atr_series :: "nat \<Rightarrow> rat list \<Rightarrow> rat list \<Rightarrow> rat list \<Rightarrow> series" where
  "atr_series period hs ls cs =
     (let trs = true_ranges hs ls cs in
      if period = 0 \<or> length cs \<le> period then nan (length cs)
      else map (\<lambda>i. if i < period then None else Some (mean (take period (drop (i - period + 1) trs)))) [0..<length cs])"

definition atr_at :: "nat \<Rightarrow> rat list \<Rightarrow> rat list \<Rightarrow> rat list \<Rightarrow> nat \<Rightarrow> rat option" where
  "atr_at period hs ls cs i = (if i < period \<or> period = 0 then None else atr_series period hs ls cs ! i)"

section \<open>Bands\<close>

definition NEAR_PCT :: rat where "NEAR_PCT = 2 / 1000"
definition NEAR_ATR_MULT :: rat where "NEAR_ATR_MULT = 1 / 4"
definition NEAR_ATR_PERIOD :: nat where "NEAR_ATR_PERIOD = 14"
definition HOLD_PCT :: rat where "HOLD_PCT = 1 / 100"
definition HOLD_ATR_MULT :: rat where "HOLD_ATR_MULT = 1"

definition widened :: "rat \<Rightarrow> rat \<Rightarrow> rat option \<Rightarrow> rat" where
  "widened band mult a = (case a of None \<Rightarrow> band | Some v \<Rightarrow> if v > 0 then max band (mult * v) else band)"

definition near_band :: "rat \<Rightarrow> rat option \<Rightarrow> rat" where
  "near_band x a = widened (NEAR_PCT * x) NEAR_ATR_MULT a"

definition is_near_level :: "rat \<Rightarrow> rat \<Rightarrow> rat option \<Rightarrow> bool" where
  "is_near_level x level a \<longleftrightarrow> \<bar>x - level\<bar> \<le> near_band x a"

definition hold_band :: "rat \<Rightarrow> rat option \<Rightarrow> rat" where
  "hold_band first a = widened (HOLD_PCT * \<bar>first\<bar>) HOLD_ATR_MULT a"

definition swings_hold :: "rat \<Rightarrow> rat \<Rightarrow> rat option \<Rightarrow> bool" where
  "swings_hold first second a \<longleftrightarrow> \<bar>second - first\<bar> \<le> hold_band first a"

section \<open>The extreme of the bars before a bar\<close>

text \<open>A value that is no more extreme than another; the deque holds indexes.\<close>

definition worse :: "bool \<Rightarrow> rat \<Rightarrow> rat \<Rightarrow> bool" where
  "worse high a b \<longleftrightarrow> (if high then a \<le> b else a \<ge> b)"

definition range_step :: "bool \<Rightarrow> rat list \<Rightarrow> nat \<Rightarrow> nat \<Rightarrow> series \<times> nat list \<Rightarrow> series \<times> nat list" where
  "range_step high vals n i = (\<lambda>(out, dq).
     let dq = dropWhile (\<lambda>j. j + n < i) dq;
         out = (if n \<le> i \<and> dq \<noteq> [] then out[i := Some (vals ! hd dq)] else out);
         dq = rev (dropWhile (\<lambda>j. worse high (vals ! j) (vals ! i)) (rev dq))
     in (out, dq @ [i]))"

definition range_before :: "bool \<Rightarrow> rat list \<Rightarrow> nat \<Rightarrow> series" where
  "range_before high vals n =
     (if n < 1 then nan (length vals)
      else fst (fold (range_step high vals n) [0..<length vals] (nan (length vals), [])))"

definition prior_donchian :: "bool \<Rightarrow> rat list \<Rightarrow> nat \<Rightarrow> nat \<Rightarrow> rat option" where
  "prior_donchian high vals n i = (if n < 1 \<or> i < n then None else range_before high vals n ! i)"

definition range_after :: "bool \<Rightarrow> rat list \<Rightarrow> nat \<Rightarrow> series" where
  "range_after high vals k =
     (let n = length vals; r = range_before high (rev vals) k in map (\<lambda>j. r ! (n - 1 - j)) [0..<n])"

section \<open>Pivots\<close>

definition strictly_better :: "bool \<Rightarrow> rat \<Rightarrow> rat \<Rightarrow> bool" where
  "strictly_better high v w \<longleftrightarrow> (if high then v > w else v < w)"

definition is_pivot :: "bool \<Rightarrow> rat \<Rightarrow> rat option \<Rightarrow> rat option \<Rightarrow> bool" where
  "is_pivot high v l r \<longleftrightarrow>
     (case (l, r) of (Some x, Some y) \<Rightarrow> strictly_better high v x \<and> strictly_better high v y | _ \<Rightarrow> False)"

definition pivot_arrays :: "bool \<Rightarrow> rat list \<Rightarrow> nat \<Rightarrow> (nat \<times> rat) list" where
  "pivot_arrays high vals k =
     (let n = length vals in
      if k < 1 \<or> n < 2 * k + 1 then []
      else
        let left = range_before high vals k; right = range_after high vals k
        in map (\<lambda>j. (j, vals ! j)) (filter (\<lambda>j. is_pivot high (vals ! j) (left ! j) (right ! j)) [k..<n - k]))"

text \<open>The binary search for the number of pivots that are confirmed at a bar\<close>

function confirmed_search :: "nat list \<Rightarrow> nat \<Rightarrow> nat \<Rightarrow> nat \<Rightarrow> nat \<Rightarrow> nat" where
  "confirmed_search idx k i lo hi =
     (if lo < hi
      then let mid = (lo + hi) div 2 in
        if idx ! mid + k \<le> i then confirmed_search idx k i (mid + 1) hi else confirmed_search idx k i lo mid
      else lo)"
  by pat_completeness auto
termination by (relation "measure (\<lambda>(idx, k, i, lo, hi). hi - lo)") auto

declare confirmed_search.simps [simp del]

definition confirmed_swings :: "bool \<Rightarrow> rat list \<Rightarrow> nat \<Rightarrow> nat \<Rightarrow> nat option \<Rightarrow> (nat \<times> rat) list" where
  "confirmed_swings high vals k i limit =
     (if k < 1 \<or> i < 2 * k then []
      else
        let ps = pivot_arrays high vals k; lo = confirmed_search (map fst ps) k i 0 (length ps);
            start = (case limit of None \<Rightarrow> 0 | Some m \<Rightarrow> lo - m)
        in rev (drop start (take lo ps)))"

definition last_confirmed_swing :: "bool \<Rightarrow> rat list \<Rightarrow> nat \<Rightarrow> nat \<Rightarrow> rat option" where
  "last_confirmed_swing high vals k i =
     (case confirmed_swings high vals k i (Some 1) of [] \<Rightarrow> None | p # _ \<Rightarrow> Some (snd p))"

section \<open>The atoms\<close>

definition require_ohlc :: "rat list \<Rightarrow> rat list option \<Rightarrow> rat list option \<Rightarrow> (rat list \<times> rat list) result" where
  "require_ohlc cs hs ls =
     (case (hs, ls) of
        (Some h, Some l) \<Rightarrow>
          if length h \<noteq> length cs \<or> length l \<noteq> length cs then Inl (ValueError ''highs/lows length must match closes'')
          else Inr (h, l)
      | _ \<Rightarrow> Inl (ValueError ''structure atoms need high/low series''))"

definition idx_of :: "rat list \<Rightarrow> nat option \<Rightarrow> nat" where
  "idx_of cs i = (case i of None \<Rightarrow> length cs - 1 | Some j \<Rightarrow> j)"

type_synonym ohlc_atom = "rat list \<Rightarrow> rat list option \<Rightarrow> rat list option \<Rightarrow> nat option \<Rightarrow> bool result"

definition don_hi :: "nat \<Rightarrow> ohlc_atom" where
  "don_hi n cs hs ls i =
     bind_result (require_ohlc cs hs ls) (\<lambda>(h, l).
       let i = idx_of cs i in
       Inr (case prior_donchian True h n i of None \<Rightarrow> False | Some level \<Rightarrow> cs ! i > level))"

definition don_lo :: "nat \<Rightarrow> ohlc_atom" where
  "don_lo n cs hs ls i =
     bind_result (require_ohlc cs hs ls) (\<lambda>(h, l).
       let i = idx_of cs i in
       Inr (case prior_donchian False l n i of
              None \<Rightarrow> False | Some level \<Rightarrow> is_near_level (cs ! i) level (atr_at NEAR_ATR_PERIOD h l cs i)))"

definition near_swing :: "bool \<Rightarrow> nat \<Rightarrow> ohlc_atom" where
  "near_swing high k cs hs ls i =
     bind_result (require_ohlc cs hs ls) (\<lambda>(h, l).
       let i = idx_of cs i in
       Inr (case last_confirmed_swing high (if high then h else l) k i of
              None \<Rightarrow> False | Some level \<Rightarrow> is_near_level (cs ! i) level (atr_at NEAR_ATR_PERIOD h l cs i)))"

definition near_swing_hi :: "nat \<Rightarrow> ohlc_atom" where "near_swing_hi = near_swing True"
definition near_swing_lo :: "nat \<Rightarrow> ohlc_atom" where "near_swing_lo = near_swing False"

definition double_swing :: "bool \<Rightarrow> nat \<Rightarrow> ohlc_atom" where
  "double_swing high k cs hs ls i =
     bind_result (require_ohlc cs hs ls) (\<lambda>(h, l).
       let i = idx_of cs i in
       Inr (case confirmed_swings high (if high then h else l) k i (Some 2) of
              (j2, second) # (j1, first) # _ \<Rightarrow>
                swings_hold first second (atr_at NEAR_ATR_PERIOD h l cs i) \<and>
                (if high then cs ! i < second else cs ! i > second)
            | _ \<Rightarrow> False))"

definition dbl_bot :: "nat \<Rightarrow> ohlc_atom" where "dbl_bot = double_swing False"
definition dbl_top :: "nat \<Rightarrow> ohlc_atom" where "dbl_top = double_swing True"

end
