(* ===== verification/StrategyBacktest.thy ===== *)
theory StrategyBacktest
  imports Risk Structure
begin

text \<open>
  The five-minute backtest of one strategy (\<open>backtest/strategies.py\<close>): per bar the exits on stop and take-profit,
  the mark to market with its drawdown breaker, the sampling of the equity, and the entry with the rules of \<open>rm_v1\<close>.
  The entry signal is an argument: its value at each bar. Prices and amounts are exact rationals.
\<close>

section \<open>The state of a run\<close>

record test_params =
  tp_cash :: rat
  tp_frac :: rat
  tp_fee :: rat
  tp_slip :: rat
  tp_rr :: rat
  tp_long :: int
  tp_lookback :: int
  tp_from :: "int option"
  tp_to :: "int option"
  tp_per_day :: int

record open_lot =
  ol_qty :: rat
  ol_entry :: rat
  ol_stop :: rat
  ol_opened :: nat

record testing =
  te_cash :: rat
  te_peak :: rat
  te_dd :: rat
  te_wins :: nat
  te_trades :: nat
  te_fees :: rat
  te_pcts :: "rat list"
  te_exits :: "nat dict"
  te_hold :: nat
  te_min :: rat
  te_frac :: rat
  te_daily :: "rat list"
  te_sample :: int
  te_lots :: "open_lot list"
  te_risk :: risk_manager

definition BARS_PER_DAY :: int where "BARS_PER_DAY = 288"

definition warmup :: "test_params \<Rightarrow> int" where
  "warmup p = max (max (tp_long p) (tp_lookback p)) 20 + 2"

definition first_bar :: "test_params \<Rightarrow> nat" where
  "first_bar p = nat (max (warmup p) (case tp_from p of None \<Rightarrow> 0 | Some f \<Rightarrow> max 0 f))"

definition end_bar :: "test_params \<Rightarrow> nat \<Rightarrow> nat" where
  "end_bar p n = (case tp_to p of None \<Rightarrow> n | Some t \<Rightarrow> nat (max 0 (min (int n) t)))"

definition every_bars :: "test_params \<Rightarrow> nat" where
  "every_bars p = nat (max 1 (tp_per_day p))"

definition testing_start :: "test_params \<Rightarrow> testing" where
  "testing_start p =
     \<lparr>te_cash = tp_cash p, te_peak = tp_cash p, te_dd = 0, te_wins = 0, te_trades = 0, te_fees = 0, te_pcts = [], te_exits = [],
      te_hold = 0, te_min = tp_cash p, te_frac = 0, te_daily = [tp_cash p], te_sample = -1, te_lots = [],
      te_risk = new_risk_manager (tp_frac p) (tp_cash p)\<rparr>"

definition lots_value :: "open_lot list \<Rightarrow> rat \<Rightarrow> rat" where
  "lots_value ls px = (\<Sum>l \<leftarrow> ls. ol_qty l * px)"

definition mark_equity :: "rat \<Rightarrow> testing \<Rightarrow> rat" where
  "mark_equity px s = te_cash s + lots_value (te_lots s) px"

text \<open>The running peak and the drawdown below it\<close>

definition track_peak :: "rat \<Rightarrow> testing \<Rightarrow> testing" where
  "track_peak eq s =
     (let s = (if eq > te_peak s then s\<lparr>te_peak := eq\<rparr> else s);
          dd = (if te_peak s > 0 then (te_peak s - eq) / te_peak s else 0)
      in s\<lparr>te_dd := max (te_dd s) dd\<rparr>)"

section \<open>Exits\<close>

text \<open>The nested function \<open>close_lot\<close>\<close>

definition settle_lot :: "test_params \<Rightarrow> open_lot \<Rightarrow> rat \<Rightarrow> string \<Rightarrow> nat \<Rightarrow> testing \<Rightarrow> testing" where
  "settle_lot p l exit_px hit i s =
     (let proceeds = exit_px * ol_qty l; fee = proceeds * tp_fee p; pnl = (exit_px - ol_entry l) * ol_qty l;
          pct = (if ol_entry l \<noteq> 0 then (exit_px - ol_entry l) / ol_entry l else 0);
          s = s\<lparr>te_exits := dset hit ((case dget (te_exits s) hit of None \<Rightarrow> 0 | Some n \<Rightarrow> n) + 1) (te_exits s),
                te_hold := te_hold s + (i - ol_opened l),
                te_cash := te_cash s + (proceeds - fee),
                te_fees := te_fees s + fee,
                te_pcts := te_pcts s @ [pct],
                te_wins := te_wins s + (if pnl > 0 then 1 else 0),
                te_trades := te_trades s + 1\<rparr>
      in track_peak (te_cash s) s)"

definition exit_of :: "test_params \<Rightarrow> rat \<Rightarrow> rat \<Rightarrow> open_lot \<Rightarrow> (rat \<times> string) option" where
  "exit_of p low high l =
     (let tp = ol_entry l + tp_rr p * (ol_entry l - ol_stop l) in
      if low \<le> ol_stop l \<and> high \<ge> tp then Some (ol_stop l * (1 - tp_slip p), ''stop'')
      else if low \<le> ol_stop l then Some (ol_stop l * (1 - tp_slip p), ''stop'')
      else if high \<ge> tp then Some (tp * (1 - tp_slip p), ''tp'')
      else None)"

definition exit_step :: "test_params \<Rightarrow> rat \<Rightarrow> rat \<Rightarrow> nat \<Rightarrow> open_lot \<Rightarrow> testing \<times> open_lot list \<times> bool \<Rightarrow> testing \<times> open_lot list \<times> bool" where
  "exit_step p low high i l = (\<lambda>(s, still_open, exited).
     case exit_of p low high l of
       Some (px, hit) \<Rightarrow> (settle_lot p l px hit i s, still_open, True)
     | None \<Rightarrow> (s, still_open @ [l], exited))"

definition exit_lots :: "test_params \<Rightarrow> rat \<Rightarrow> rat \<Rightarrow> nat \<Rightarrow> testing \<Rightarrow> testing \<times> bool" where
  "exit_lots p low high i s =
     (let (s', still_open, exited) = fold (exit_step p low high i) (te_lots s) (s, [], False)
      in (s'\<lparr>te_lots := still_open\<rparr>, exited))"

section \<open>One bar\<close>

definition mark_bar :: "rat \<Rightarrow> testing \<Rightarrow> testing" where
  "mark_bar cur s =
     (let eq = mark_equity cur s in track_peak eq (s\<lparr>te_risk := update_equity eq (te_risk s)\<rparr>))"

definition sample_bar :: "test_params \<Rightarrow> nat \<Rightarrow> nat \<Rightarrow> rat \<Rightarrow> testing \<Rightarrow> testing" where
  "sample_bar p start i cur s =
     (if (i - start + 1) mod every_bars p = 0
      then s\<lparr>te_daily := te_daily s @ [mark_equity cur s], te_sample := int i\<rparr> else s)"

definition take_lot :: "test_params \<Rightarrow> nat \<Rightarrow> rat \<Rightarrow> rat \<Rightarrow> rat \<Rightarrow> testing \<Rightarrow> testing" where
  "take_lot p i cur stop qty s =
     (let entry = cur * (1 + tp_slip p); fee = entry * qty * tp_fee p;
          s = s\<lparr>te_cash := te_cash s - (entry * qty + fee), te_fees := te_fees s + fee,
                te_lots := te_lots s @ [\<lparr>ol_qty = qty, ol_entry = entry, ol_stop = stop, ol_opened = i\<rparr>]\<rparr>;
          s = s\<lparr>te_min := min (te_min s) (te_cash s)\<rparr>;
          notional = lots_value (te_lots s) cur; after = te_cash s + notional
      in if after > 0 then s\<lparr>te_frac := max (te_frac s) (notional / after)\<rparr> else s)"

definition position_of :: "open_lot \<Rightarrow> position" where
  "position_of l = (ol_entry l, ol_stop l, ol_qty l)"

definition enter_bar :: "test_params \<Rightarrow> nat \<Rightarrow> rat \<Rightarrow> rat option \<Rightarrow> testing \<Rightarrow> testing" where
  "enter_bar p i cur a s =
     (let stop = atr_stop_price cur a in
      if cur \<le> stop then s
      else
        let rd = size_position (mark_equity cur s) cur stop (map position_of (te_lots s)) 1 (Some (te_cash s))
                   ((1 + tp_slip p) * (1 + tp_fee p)) (te_risk s)
        in if \<not> rd_approved rd \<or> rd_size rd \<le> 0 then s else take_lot p i cur stop (rd_size rd) s)"

definition may_enter :: "bool \<Rightarrow> bool \<Rightarrow> rat \<Rightarrow> testing \<Rightarrow> bool" where
  "may_enter exited want cur s \<longleftrightarrow>
     \<not> (exited \<and> te_lots s = []) \<and> \<not> (\<not> want \<or> rk_halted (te_risk s)) \<and> \<not> MAX_LOTS_PER_SYMBOL \<le> length (te_lots s) \<and>
     \<not> list_ex (\<lambda>l. (cur - ol_entry l) * ol_qty l \<le> 0) (te_lots s)"

definition bar_step ::
    "test_params \<Rightarrow> (nat \<Rightarrow> bool) \<Rightarrow> rat list \<Rightarrow> rat list \<Rightarrow> rat list \<Rightarrow> series \<Rightarrow> nat \<Rightarrow> nat \<Rightarrow> testing \<Rightarrow> testing" where
  "bar_step p want cs hs ls atrs start i s =
     (let cur = cs ! i; high = (if i < length hs then hs ! i else cur); low = (if i < length ls then ls ! i else cur);
          (s, exited) = exit_lots p low high i s;
          s = sample_bar p start i cur (mark_bar cur s)
      in if may_enter exited (want i) cur s then enter_bar p i cur (atrs ! i) s else s)"

definition test_bars ::
    "test_params \<Rightarrow> (nat \<Rightarrow> bool) \<Rightarrow> rat list \<Rightarrow> rat list \<Rightarrow> rat list \<Rightarrow> series \<Rightarrow> nat \<Rightarrow> nat \<Rightarrow> testing" where
  "test_bars p want cs hs ls atrs start e =
     fold (bar_step p want cs hs ls atrs start) [start..<e] (testing_start p)"

section \<open>The end of the window\<close>

definition close_out :: "test_params \<Rightarrow> rat list \<Rightarrow> nat \<Rightarrow> testing \<Rightarrow> testing" where
  "close_out p cs e s =
     (if te_lots s = [] then s
      else (fold (\<lambda>l. settle_lot p l (cs ! (e - 1) * (1 - tp_slip p)) ''eod'' (e - 1)) (te_lots s) s)\<lparr>te_lots := []\<rparr>)"

definition last_point :: "nat \<Rightarrow> testing \<Rightarrow> testing" where
  "last_point e s =
     (if te_sample s = int e - 1 \<and> length (te_daily s) > 1
      then s\<lparr>te_daily := butlast (te_daily s) @ [te_cash s]\<rparr>
      else s\<lparr>te_daily := te_daily s @ [te_cash s]\<rparr>)"

definition SHARPE_ABS_CAP :: real where "SHARPE_ABS_CAP = 1000"

text \<open>The variance is the sample variance of \<open>statistics.stdev\<close>.\<close>

definition trade_sharpe :: "rat list \<Rightarrow> real" where
  "trade_sharpe xs =
     (if length xs < 2 then 0
      else
        let m = mean xs; var = (\<Sum>x \<leftarrow> xs. (x - m)\<^sup>2) / (of_nat (length xs) - 1); sd = sqrt (of_rat var) in
        if sd = 0 then 0
        else
          let v = of_rat m / sd * sqrt (real (length xs))
          in if \<bar>v\<bar> > SHARPE_ABS_CAP then 0 else v)"

record test_result =
  rs_trades :: nat
  rs_wins :: nat
  rs_win_rate :: rat
  rs_pnl :: rat
  rs_final :: rat
  rs_sharpe :: real
  rs_dd :: rat
  rs_fees :: rat
  rs_exits :: "nat dict"
  rs_hold :: nat
  rs_min_cash :: rat
  rs_notional :: rat
  rs_daily :: "rat list"

definition no_trades :: "rat \<Rightarrow> test_result" where
  "no_trades cash =
     \<lparr>rs_trades = 0, rs_wins = 0, rs_win_rate = 0, rs_pnl = 0, rs_final = cash, rs_sharpe = 0, rs_dd = 0, rs_fees = 0,
      rs_exits = [], rs_hold = 0, rs_min_cash = 0, rs_notional = 0, rs_daily = []\<rparr>"

definition result_of :: "test_params \<Rightarrow> testing \<Rightarrow> test_result" where
  "result_of p s =
     \<lparr>rs_trades = te_trades s, rs_wins = te_wins s,
      rs_win_rate = (if te_trades s \<noteq> 0 then of_nat (te_wins s) / of_nat (te_trades s) else 0),
      rs_pnl = te_cash s - tp_cash p, rs_final = te_cash s, rs_sharpe = trade_sharpe (te_pcts s), rs_dd = te_dd s,
      rs_fees = te_fees s, rs_exits = te_exits s, rs_hold = te_hold s, rs_min_cash = te_min s, rs_notional = te_frac s,
      rs_daily = te_daily s\<rparr>"

text \<open>The volatility series reads a high and a low for every close.\<close>

definition backtest :: "test_params \<Rightarrow> (nat \<Rightarrow> bool) \<Rightarrow> rat list \<Rightarrow> rat list \<Rightarrow> rat list \<Rightarrow> test_result result" where
  "backtest p want cs hs ls =
     (let n = length cs; start = first_bar p; e = end_bar p n in
      if ATR_PERIOD < n \<and> (length hs < n \<or> length ls < n) then Inl (IndexError ''list index out of range'')
      else if e \<le> start then Inr (no_trades (tp_cash p))
      else Inr (result_of p (last_point e (close_out p cs e (test_bars p want cs hs ls (atr_series ATR_PERIOD hs ls cs) start e)))))"

text \<open>A batch: a strategy that raises is reported with its error.\<close>

definition backtest_all ::
    "test_params \<Rightarrow> (string \<Rightarrow> (nat \<Rightarrow> bool) result) \<Rightarrow> rat list \<Rightarrow> rat list \<Rightarrow> rat list \<Rightarrow> string list \<Rightarrow> (string \<times> test_result result) list" where
  "backtest_all p signal_of cs hs ls =
     map (\<lambda>s. (s, bind_result (signal_of s) (\<lambda>want. backtest p want cs hs ls)))"

end
