(* ===== verification/StructureFacts.thy ===== *)
theory StructureFacts
  imports Structure
begin

text \<open>
  The deque of the Donchian levels holds the bars no later bar dominates, so that its head is the extreme of
  the window; a pivot is the strict extreme of its window; and what is confirmed at a bar depends on the bars up to it only.
\<close>

declare confirmed_search.simps [simp del]

section \<open>The deque\<close>

lemma dropWhile_filter:
  "sorted_wrt (\<lambda>x y. \<not> P x \<longrightarrow> \<not> P y) xs \<Longrightarrow> dropWhile P xs = filter (\<lambda>x. \<not> P x) xs"
  by (induction xs) (auto simp: filter_id_conv)

definition undominated :: "bool \<Rightarrow> rat list \<Rightarrow> nat \<Rightarrow> nat \<Rightarrow> bool" where
  "undominated high vals i j \<longleftrightarrow> (\<forall>k. j < k \<longrightarrow> k < i \<longrightarrow> \<not> worse high (vals ! j) (vals ! k))"

definition deque :: "bool \<Rightarrow> rat list \<Rightarrow> nat \<Rightarrow> nat \<Rightarrow> nat \<Rightarrow> nat list" where
  "deque high vals n b i = filter (\<lambda>j. b \<le> j + n \<and> undominated high vals i j) [0..<i]"

lemma worse_trans: "worse h a b \<Longrightarrow> worse h b c \<Longrightarrow> worse h a c"
  by (auto simp: worse_def split: if_splits)

lemma worse_total: "\<not> worse h a b \<Longrightarrow> worse h b a"
  by (auto simp: worse_def split: if_splits)

lemma worse_refl [simp]: "worse h a a"
  by (simp add: worse_def)

lemma undominated_Suc:
  "j < i \<Longrightarrow> undominated h vals (Suc i) j \<longleftrightarrow> undominated h vals i j \<and> \<not> worse h (vals ! j) (vals ! i)"
  by (auto simp: undominated_def less_Suc_eq)

lemma deque_front:
  "dropWhile (\<lambda>j. j + n < i) (deque h vals n b i) = deque h vals n (max b i) i"
proof -
  have "sorted_wrt (<) (deque h vals n b i)" by (simp add: deque_def sorted_wrt_filter)
  then have "sorted_wrt (\<lambda>x y. \<not> x + n < i \<longrightarrow> \<not> y + n < i) (deque h vals n b i)"
    by (rule sorted_wrt_mono_rel [rotated]) auto
  then have "dropWhile (\<lambda>j. j + n < i) (deque h vals n b i) = filter (\<lambda>j. \<not> j + n < i) (deque h vals n b i)"
    by (rule dropWhile_filter)
  also have "\<dots> = deque h vals n (max b i) i" unfolding deque_def filter_filter by (rule filter_cong) auto
  finally show ?thesis .
qed

lemma deque_sorted: "sorted_wrt (<) (deque h vals n b i)"
  by (simp add: deque_def sorted_wrt_filter)

lemma deque_decreasing:
  assumes "x < y" "x \<in> set (deque h vals n b i)" "y \<in> set (deque h vals n b i)" "\<not> worse h (vals ! y) v"
  shows "\<not> worse h (vals ! x) v"
proof
  assume w: "worse h (vals ! x) v"
  have "y < i" using assms(3) by (simp add: deque_def)
  then have "\<not> worse h (vals ! x) (vals ! y)" using assms(1,2) by (simp add: deque_def undominated_def)
  then have "worse h (vals ! y) (vals ! x)" by (rule worse_total)
  then show False using assms(4) w worse_trans by blast
qed

lemma sorted_rev_deque:
  "sorted_wrt (\<lambda>x y. \<not> worse h (vals ! x) v \<longrightarrow> \<not> worse h (vals ! y) v) (rev (deque h vals n b i))"
  unfolding sorted_wrt_rev
  by (rule sorted_wrt_mono_rel [OF _ deque_sorted]) (use deque_decreasing in blast)

lemma deque_Suc:
  assumes "b \<le> i + n"
  shows "deque h vals n b (Suc i) = filter (\<lambda>j. \<not> worse h (vals ! j) (vals ! i)) (deque h vals n b i) @ [i]"
proof -
  have "undominated h vals (Suc i) i" by (simp add: undominated_def)
  moreover have "filter (\<lambda>j. b \<le> j + n \<and> undominated h vals (Suc i) j) [0..<i] =
      filter (\<lambda>j. \<not> worse h (vals ! j) (vals ! i)) (deque h vals n b i)"
    unfolding deque_def filter_filter by (rule filter_cong) (auto simp: undominated_Suc)
  ultimately show ?thesis using assms by (simp add: deque_def)
qed

lemma deque_back:
  assumes "b \<le> i + n"
  shows "rev (dropWhile (\<lambda>j. worse h (vals ! j) (vals ! i)) (rev (deque h vals n b i))) @ [i] = deque h vals n b (Suc i)"
  unfolding dropWhile_filter [OF sorted_rev_deque] deque_Suc [OF assms] by (simp add: rev_filter)

text \<open>The extreme of a window: an index whose value is at least as extreme as every other\<close>

definition extreme_of :: "bool \<Rightarrow> rat list \<Rightarrow> rat" where
  "extreme_of high xs = (if high then list_max xs else list_min xs)"

lemma worse_ex: "xs \<noteq> [] \<Longrightarrow> \<exists>m < length xs. \<forall>k < length xs. worse h (xs ! k) (xs ! m)"
proof (induction xs rule: rev_induct)
  case (snoc x xs)
  show ?case
  proof (cases "xs = []")
    case False
    then obtain m where m: "m < length xs" "\<forall>k < length xs. worse h (xs ! k) (xs ! m)" using snoc.IH by blast
    show ?thesis
    proof (cases "worse h (xs ! m) x")
      case True
      have "\<forall>k < length xs. worse h (xs ! k) x" using m(2) True worse_trans by blast
      then show ?thesis by (intro exI [of _ "length xs"]) (auto simp: nth_append less_Suc_eq)
    next
      case False
      then have "worse h x (xs ! m)" by (rule worse_total)
      then show ?thesis using m by (intro exI [of _ m]) (auto simp: nth_append less_Suc_eq)
    qed
  qed simp
qed simp

lemma extreme_unique:
  assumes "m < length xs" "\<forall>k < length xs. worse h (xs ! k) (xs ! m)"
  shows "extreme_of h xs = xs ! m"
proof -
  have ne: "xs \<noteq> []" using assms(1) by auto
  have mem: "y \<in> set xs \<Longrightarrow> worse h y (xs ! m)" for y using assms(2) by (auto simp: in_set_conv_nth)
  have mx: "list_max xs \<in> set xs" "\<forall>y \<in> set xs. y \<le> list_max xs"
    and mn: "list_min xs \<in> set xs" "\<forall>y \<in> set xs. list_min xs \<le> y" if "xs \<noteq> []" for xs :: "rat list"
  proof -
    from that obtain a ys where xs: "xs = a # ys" by (cases xs) auto
    have "foldr max ys a \<in> set (a # ys) \<and> (\<forall>y \<in> set (a # ys). y \<le> foldr max ys a)"
      by (induction ys) (auto simp: max_def)
    then show "list_max xs \<in> set xs" "\<forall>y \<in> set xs. y \<le> list_max xs" by (simp_all add: xs list_max_def)
    have "foldr min ys a \<in> set (a # ys) \<and> (\<forall>y \<in> set (a # ys). foldr min ys a \<le> y)"
      by (induction ys) (auto simp: min_def)
    then show "list_min xs \<in> set xs" "\<forall>y \<in> set xs. list_min xs \<le> y" by (simp_all add: xs list_min_def)
  qed
  have "extreme_of h xs \<in> set xs" using mx(1) mn(1) ne by (simp add: extreme_of_def)
  from mem [OF this] have "worse h (extreme_of h xs) (xs ! m)" .
  moreover have "worse h (xs ! m) (extreme_of h xs)"
    using mx(2) mn(2) ne nth_mem [OF assms(1)] by (simp add: extreme_of_def worse_def)
  ultimately show ?thesis by (auto simp: worse_def split: if_splits)
qed

text \<open>The head of the deque is the extreme of the bars from \<open>i - n\<close> on.\<close>

lemma deque_head:
  assumes "0 < n" "n \<le> i" "i \<le> length vals"
  shows "deque h vals n i i \<noteq> [] \<and> vals ! hd (deque h vals n i i) = extreme_of h (take n (drop (i - n) vals))"
proof -
  define w where "w = take n (drop (i - n) vals)"
  have lw: "length w = n" and nw: "k < n \<Longrightarrow> w ! k = vals ! (i - n + k)" for k using assms by (auto simp: w_def)
  let ?q = "deque h vals n i i"
  have "w \<noteq> []" using lw assms(1) by auto
  from worse_ex [OF this, of h] obtain m where m: "m < n" "\<forall>k < n. worse h (w ! k) (w ! m)" using lw by auto
  define B where "B = {j. j < n \<and> worse h (w ! m) (w ! j)}"
  define l where "l = Max B"
  have fin: "finite B" by (simp add: B_def)
  have "m \<in> B" using m(1) by (simp add: B_def)
  then have lB: "l \<in> B" unfolding l_def using fin Max_in by blast
  have lmax: "j \<in> B \<Longrightarrow> j \<le> l" for j unfolding l_def using fin by (rule Max_ge)
  have ln: "l < n" and best: "\<forall>k < n. worse h (w ! k) (w ! l)" using lB m(2) worse_trans unfolding B_def by blast+
  have "undominated h vals i (i - n + l)"
    unfolding undominated_def
  proof (intro allI impI notI)
    fix k assume k: "i - n + l < k" "k < i" "worse h (vals ! (i - n + l)) (vals ! k)"
    define j where "j = k - (i - n)"
    have j: "j < n" "l < j" "vals ! k = w ! j" using k(1,2) assms(2) nw [of j] by (auto simp: j_def)
    have "worse h (w ! l) (w ! j)" using k(3) nw [OF ln] j(3) by simp
    then have "worse h (w ! m) (w ! j)" using lB worse_trans unfolding B_def by blast
    then have "j \<in> B" using j(1) by (simp add: B_def)
    then show False using lmax [of j] j(2) by simp
  qed
  then have lq: "i - n + l \<in> set ?q" using ln assms(2) by (auto simp: deque_def)
  then have ne: "?q \<noteq> []" by auto
  have hq: "hd ?q \<in> set ?q" using ne by simp
  then have h1: "i \<le> hd ?q + n" "hd ?q < i" "undominated h vals i (hd ?q)" by (auto simp: deque_def)
  have "hd ?q \<le> i - n + l"
    using lq deque_sorted [of h vals n i i] by (cases ?q) (auto simp: less_imp_le)
  moreover have "\<not> hd ?q < i - n + l"
  proof
    assume "hd ?q < i - n + l"
    then have "\<not> worse h (vals ! hd ?q) (vals ! (i - n + l))" using h1(3) ln assms(2) by (simp add: undominated_def)
    moreover have "vals ! hd ?q = w ! (hd ?q - (i - n))" "hd ?q - (i - n) < n"
      using nw [of "hd ?q - (i - n)"] h1(1,2) assms(2) by auto
    ultimately show False using best nw [OF ln] by simp
  qed
  ultimately have "hd ?q = i - n + l" by simp
  then have "vals ! hd ?q = w ! l" using nw [OF ln] by simp
  also have "w ! l = extreme_of h w" using extreme_unique [of l w h] ln best lw by simp
  finally show ?thesis using ne by (simp add: w_def)
qed

text \<open>The loop\<close>

lemma range_step_deque:
  assumes "0 < n" "i < length vals"
  shows "range_step h vals n i (out, deque h vals n (i - 1) i) =
    ((if n \<le> i then out[i := Some (extreme_of h (take n (drop (i - n) vals)))] else out), deque h vals n i (Suc i))"
proof -
  have m: "max (i - 1) i = i" by simp
  have d: "n \<le> i \<Longrightarrow> deque h vals n i i \<noteq> []" "n \<le> i \<Longrightarrow> vals ! hd (deque h vals n i i) = extreme_of h (take n (drop (i - n) vals))"
    using deque_head [of n i vals h] assms by simp_all
  show ?thesis
    unfolding range_step_def Let_def split deque_front m deque_back [OF le_add1 [of i n]]
    by (cases "n \<le> i") (simp_all add: d)
qed

definition range_spec :: "bool \<Rightarrow> rat list \<Rightarrow> nat \<Rightarrow> nat \<Rightarrow> rat option" where
  "range_spec h vals n i = (if n < 1 \<or> i < n then None else Some (extreme_of h (take n (drop (i - n) vals))))"

lemma range_loop:
  assumes "0 < n" "i \<le> length vals"
  shows "fold (range_step h vals n) [0..<i] (nan (length vals), []) =
    (map (\<lambda>j. if j < i then range_spec h vals n j else None) [0..<length vals], deque h vals n (i - 1) i)"
  using assms(2)
proof (induction i)
  case 0
  show ?case by (simp add: deque_def nan_def map_replicate_trivial)
next
  case (Suc i)
  have "(map (\<lambda>j. if j < i then range_spec h vals n j else None) [0..<length vals])[i := range_spec h vals n i] =
      map (\<lambda>j. if j < Suc i then range_spec h vals n j else None) [0..<length vals]"
    using Suc.prems by (intro nth_equalityI) (auto simp: nth_list_update less_Suc_eq)
  moreover have "map (\<lambda>j. if j < i then range_spec h vals n j else None) [0..<length vals] =
      map (\<lambda>j. if j < Suc i then range_spec h vals n j else None) [0..<length vals]" if "i < n"
    using that by (intro map_cong) (auto simp: less_Suc_eq range_spec_def)
  ultimately show ?case
    using Suc range_step_deque [OF assms(1), of i vals h] assms(1) by (auto simp: range_spec_def)
qed

lemma range_before_spec: "range_before h vals n = map (range_spec h vals n) [0..<length vals]"
proof (cases "n < 1")
  case True
  then have "range_spec h vals n = (\<lambda>i. None)" by (simp add: range_spec_def fun_eq_iff)
  then show ?thesis using True by (simp add: range_before_def nan_def map_replicate_const)
next
  case False
  then show ?thesis using range_loop [of n "length vals" vals h] by (simp add: range_before_def cong: map_cong)
qed

section \<open>Pivots\<close>

lemma rev_window:
  assumes "j + k < length vals"
  shows "take k (drop (length vals - 1 - j - k) (rev vals)) = rev (take k (drop (Suc j) vals))"
proof -
  have "rev (take k (drop (Suc j) vals)) = drop (length vals - Suc j - k) (rev (drop (Suc j) vals))"
    by (simp add: rev_take)
  also have "rev (drop (Suc j) vals) = take (length vals - Suc j) (rev vals)" by (simp add: rev_drop)
  finally show ?thesis using assms by (simp add: drop_take)
qed

lemma extreme_of_set:
  assumes "xs \<noteq> []"
  shows "extreme_of h xs \<in> set xs \<and> (\<forall>y \<in> set xs. worse h y (extreme_of h xs))"
proof -
  from worse_ex [OF assms, of h] obtain m where "m < length xs" "\<forall>k < length xs. worse h (xs ! k) (xs ! m)" by blast
  with extreme_unique [OF this] show ?thesis by (auto simp: in_set_conv_nth)
qed

lemma better_than_extreme:
  assumes "xs \<noteq> []"
  shows "strictly_better h v (extreme_of h xs) \<longleftrightarrow> (\<forall>y \<in> set xs. strictly_better h v y)"
  using extreme_of_set [OF assms, of h] by (auto simp: strictly_better_def worse_def split: if_splits)

text \<open>A pivot is the strict extreme of the \<open>k\<close> bars on each side of it.\<close>

definition pivot_at :: "bool \<Rightarrow> rat list \<Rightarrow> nat \<Rightarrow> nat \<Rightarrow> bool" where
  "pivot_at h vals k j \<longleftrightarrow>
     list_all (\<lambda>m. m \<noteq> j \<longrightarrow> strictly_better h (vals ! j) (vals ! m)) [j - k..<Suc (j + k)]"

lemma window_values:
  "a + k \<le> length vals \<Longrightarrow> (\<forall>y \<in> set (take k (drop a vals)). P y) \<longleftrightarrow> (\<forall>m. a \<le> m \<and> m < a + k \<longrightarrow> P (vals ! m))"
proof -
  assume a: "a + k \<le> length vals"
  have "(\<forall>y \<in> set (take k (drop a vals)). P y) \<longleftrightarrow> (\<forall>i < k. P (vals ! (a + i)))"
    using a by (auto simp: all_set_conv_all_nth)
  also have "\<dots> \<longleftrightarrow> (\<forall>m. a \<le> m \<and> m < a + k \<longrightarrow> P (vals ! m))"
    by (metis add_less_cancel_left le_add1 le_iff_add)
  finally show ?thesis .
qed

lemma is_pivot_at:
  assumes "0 < k" "k \<le> j" "j + k < length vals"
  shows "is_pivot h (vals ! j) (range_before h vals k ! j) (range_after h vals k ! j) \<longleftrightarrow> pivot_at h vals k j"
proof -
  define l where "l = take k (drop (j - k) vals)"
  define r where "r = take k (drop (Suc j) vals)"
  have ne: "l \<noteq> []" "r \<noteq> []" using assms by (auto simp: l_def r_def)
  have "range_before h vals k ! j = Some (extreme_of h l)"
    using assms by (simp add: range_before_spec range_spec_def l_def)
  moreover have "range_after h vals k ! j = Some (extreme_of h (rev r))"
    using assms rev_window [OF assms(3)]
    by (simp add: range_after_def Let_def range_before_spec range_spec_def r_def)
  ultimately have "is_pivot h (vals ! j) (range_before h vals k ! j) (range_after h vals k ! j) \<longleftrightarrow>
      (\<forall>y \<in> set l. strictly_better h (vals ! j) y) \<and> (\<forall>y \<in> set r. strictly_better h (vals ! j) y)"
    using ne by (simp add: is_pivot_def better_than_extreme)
  also have "\<dots> \<longleftrightarrow> (\<forall>m. j - k \<le> m \<and> m < j \<longrightarrow> strictly_better h (vals ! j) (vals ! m)) \<and>
      (\<forall>m. Suc j \<le> m \<and> m < Suc (j + k) \<longrightarrow> strictly_better h (vals ! j) (vals ! m))"
    unfolding l_def r_def using window_values [of "j - k" k vals] window_values [of "Suc j" k vals] assms by simp
  also have "\<dots> \<longleftrightarrow> pivot_at h vals k j"
    unfolding pivot_at_def list_all_iff set_upt by (auto simp: not_less_eq_eq) (metis linorder_neqE_nat Suc_leI)
  finally show ?thesis .
qed

lemma pivot_arrays_spec:
  "pivot_arrays h vals k =
     (if k < 1 then [] else map (\<lambda>j. (j, vals ! j)) (filter (pivot_at h vals k) [k..<length vals - k]))"
proof (cases "k < 1 \<or> length vals < 2 * k + 1")
  case True
  then show ?thesis by (auto simp: pivot_arrays_def Let_def)
next
  case False
  then have "filter (\<lambda>j. is_pivot h (vals ! j) (range_before h vals k ! j) (range_after h vals k ! j)) [k..<length vals - k] =
      filter (pivot_at h vals k) [k..<length vals - k]"
    by (intro filter_cong refl is_pivot_at) auto
  then show ?thesis using False by (simp add: pivot_arrays_def Let_def)
qed

section \<open>Confirmation\<close>

lemma confirmed_search_spec:
  assumes "sorted idx" "lo \<le> hi" "hi \<le> length idx" "\<forall>j < lo. idx ! j + k \<le> i" "\<forall>j. hi \<le> j \<longrightarrow> j < length idx \<longrightarrow> i < idx ! j + k"
  shows "take (confirmed_search idx k i lo hi) idx = filter (\<lambda>j. j + k \<le> i) idx"
  using assms
proof (induction idx k i lo hi rule: confirmed_search.induct)
  case (1 idx k i lo hi)
  show ?case
  proof (cases "lo < hi")
    case False
    then have lh: "hi = lo" using "1.prems" by simp
    have "filter (\<lambda>j. j + k \<le> i) idx = filter (\<lambda>j. j + k \<le> i) (take lo idx @ drop lo idx)" by simp
    also have "\<dots> = take lo idx"
    proof -
      have "filter (\<lambda>j. j + k \<le> i) (take lo idx) = take lo idx"
        using "1.prems"(3,4) lh by (intro filter_True) (auto simp: in_set_conv_nth)
      moreover have "filter (\<lambda>j. j + k \<le> i) (drop lo idx) = []"
        using "1.prems"(5) lh by (intro filter_False) (auto simp: in_set_conv_nth not_le)
      ultimately show ?thesis by (simp only: filter_append append_Nil2)
    qed
    finally show ?thesis using False by (simp add: confirmed_search.simps [of idx k i lo hi])
  next
    case True
    define mid where "mid = (lo + hi) div 2"
    have mid: "lo \<le> mid" "mid < hi" using True by (auto simp: mid_def)
    have mono: "a \<le> b \<Longrightarrow> b < length idx \<Longrightarrow> idx ! a \<le> idx ! b" for a b using "1.prems"(1) by (rule sorted_nth_mono)
    show ?thesis
    proof (cases "idx ! mid + k \<le> i")
      case ok: True
      have "\<forall>j < mid + 1. idx ! j + k \<le> i" using mono [of _ mid] ok mid "1.prems"(3) by (force simp: less_Suc_eq_le)
      then have "take (confirmed_search idx k i (mid + 1) hi) idx = filter (\<lambda>j. j + k \<le> i) idx"
        using "1.IH"(1) [OF True mid_def] ok "1.prems" mid by simp
      then show ?thesis using True ok by (simp add: confirmed_search.simps [of idx k i lo hi] Let_def mid_def)
    next
      case no: False
      have "\<forall>j. mid \<le> j \<longrightarrow> j < length idx \<longrightarrow> i < idx ! j + k" using mono [of mid] no by force
      then have "take (confirmed_search idx k i lo mid) idx = filter (\<lambda>j. j + k \<le> i) idx"
        using "1.IH"(2) [OF True mid_def] no "1.prems" mid by simp
      then show ?thesis using True no by (simp add: confirmed_search.simps [of idx k i lo hi] Let_def mid_def)
    qed
  qed
qed

lemma confirmed_search_bound: "lo \<le> hi \<Longrightarrow> confirmed_search idx k i lo hi \<le> hi"
proof (induction idx k i lo hi rule: confirmed_search.induct)
  case (1 idx k i lo hi)
  show ?case
  proof (cases "lo < hi")
    case True
    define mid where "mid = (lo + hi) div 2"
    have mid: "lo \<le> mid" "mid < hi" using True by (auto simp: mid_def)
    show ?thesis
      using "1.IH"(1) [OF True mid_def] "1.IH"(2) [OF True mid_def] mid True
      by (subst confirmed_search.simps) (auto simp: Let_def simp flip: mid_def)
  next
    case False
    then show ?thesis using "1.prems" by (subst confirmed_search.simps) simp
  qed
qed

definition newest :: "nat option \<Rightarrow> 'a list \<Rightarrow> 'a list" where
  "newest limit xs = (case limit of None \<Rightarrow> rev xs | Some m \<Rightarrow> take m (rev xs))"

text \<open>The confirmed swings at a bar: the pivots whose right side exists, newest first.\<close>

definition swings_at :: "bool \<Rightarrow> rat list \<Rightarrow> nat \<Rightarrow> nat \<Rightarrow> (nat \<times> rat) list" where
  "swings_at h vals k i =
     (if k < 1 then [] else map (\<lambda>j. (j, vals ! j)) (filter (pivot_at h vals k) [k..<Suc i - k]))"

lemma confirmed_swings_spec:
  assumes "i < length vals"
  shows "confirmed_swings h vals k i limit = newest limit (swings_at h vals k i)"
proof (cases "k < 1 \<or> i < 2 * k")
  case True
  then show ?thesis by (auto simp: confirmed_swings_def swings_at_def newest_def split: option.splits)
next
  case False
  define js where "js = filter (pivot_at h vals k) [k..<length vals - k]"
  define f where "f = (\<lambda>j. (j, vals ! j))"
  define lo where "lo = confirmed_search js k i 0 (length js)"
  have ps: "pivot_arrays h vals k = map f js" using False by (simp add: pivot_arrays_spec js_def f_def)
  have idx: "map fst (map f js) = js" by (simp add: f_def comp_def)
  have "sorted js" by (simp add: js_def sorted_wrt_filter)
  then have "take lo js = filter (\<lambda>j. j + k \<le> i) js" unfolding lo_def by (intro confirmed_search_spec) auto
  also have "\<dots> = filter (pivot_at h vals k) (filter (\<lambda>j. j + k \<le> i) [k..<length vals - k])"
    by (simp add: js_def conj_commute)
  also have "filter (\<lambda>j. j + k \<le> i) [k..<length vals - k] = [k..<Suc i - k]"
  proof -
    have "[k..<length vals - k] = [k..<Suc i - k] @ [Suc i - k..<length vals - k]"
      proof -
      have "k \<le> Suc i - k" using False by arith
      moreover have "Suc i - k + (length vals - Suc i) = length vals - k" using assms False by arith
      ultimately show ?thesis using upt_add_eq_append [of k "Suc i - k" "length vals - Suc i"] by simp
    qed
    moreover have "filter (\<lambda>j. j + k \<le> i) [k..<Suc i - k] = [k..<Suc i - k]" using False by (intro filter_True) auto
    moreover have "filter (\<lambda>j. j + k \<le> i) [Suc i - k..<length vals - k] = []" by (intro filter_False) auto
    ultimately show ?thesis by (simp only: filter_append append_Nil2)
  qed
  finally have t: "take lo js = filter (pivot_at h vals k) [k..<Suc i - k]" .
  have tf: "take lo (map f js) = swings_at h vals k i" using t False by (simp add: swings_at_def f_def take_map)
  have "confirmed_swings h vals k i limit =
      rev (drop (case limit of None \<Rightarrow> 0 | Some m \<Rightarrow> lo - m) (take lo (map f js)))"
    unfolding confirmed_swings_def Let_def ps idx length_map lo_def by (simp only: False if_False)
  also have "\<dots> = newest limit (swings_at h vals k i)"
  proof (cases limit)
    case (Some m)
    show ?thesis
    proof (cases "lo \<le> length js")
      case True
      then have "length (take lo (map f js)) = lo" by simp
      then show ?thesis unfolding tf Some newest_def by (simp add: take_rev)
    qed (use confirmed_search_bound in \<open>simp add: lo_def\<close>)
  qed (simp add: tf newest_def)
  finally show ?thesis .
qed

section \<open>No lookahead\<close>

lemma pivot_at_take: "j + k < m \<Longrightarrow> pivot_at h (take m vals) k j = pivot_at h vals k j"
  by (auto simp: pivot_at_def list_all_iff)

lemma swings_at_take:
  "i < length vals \<Longrightarrow> swings_at h (take (Suc i) vals) k i = swings_at h vals k i"
proof -
  assume i: "i < length vals"
  have "filter (pivot_at h (take (Suc i) vals) k) [k..<Suc i - k] = filter (pivot_at h vals k) [k..<Suc i - k]"
    by (rule filter_cong) (auto simp: pivot_at_take)
  then show ?thesis by (auto simp: swings_at_def)
qed

lemma confirmed_swings_causal:
  "i < length vals \<Longrightarrow> confirmed_swings h (take (Suc i) vals) k i limit = confirmed_swings h vals k i limit"
  by (simp add: confirmed_swings_spec swings_at_take)

lemma last_confirmed_swing_causal:
  "i < length vals \<Longrightarrow> last_confirmed_swing h (take (Suc i) vals) k i = last_confirmed_swing h vals k i"
  by (simp add: last_confirmed_swing_def confirmed_swings_causal)

lemma prior_donchian_spec:
  "i < length vals \<Longrightarrow> prior_donchian h vals n i = range_spec h vals n i"
  by (auto simp: prior_donchian_def range_before_spec range_spec_def)

lemma prior_donchian_causal:
  "i < length vals \<Longrightarrow> prior_donchian h (take (Suc i) vals) n i = prior_donchian h vals n i"
  by (auto simp: prior_donchian_spec range_spec_def drop_take min_def)

lemma true_ranges_length [simp]: "length (true_ranges hs ls cs) = length cs"
  by (simp add: true_ranges_def)

lemma true_ranges_causal:
  "length hs = length cs \<Longrightarrow> length ls = length cs \<Longrightarrow>
     true_ranges (take m hs) (take m ls) (take m cs) = take m (true_ranges hs ls cs)"
  by (auto simp: true_ranges_def take_map take_upt intro!: nth_equalityI)

lemma atr_series_length [simp]: "length (atr_series p hs ls cs) = length cs"
  by (simp add: atr_series_def nan_def Let_def)

lemma atr_series_causal:
  assumes "length hs = length cs" "length ls = length cs" "i < m" "m \<le> length cs"
  shows "atr_series p (take m hs) (take m ls) (take m cs) ! i = atr_series p hs ls cs ! i"
  using assms
  by (auto simp: atr_series_def Let_def nan_def true_ranges_causal drop_take min_def)

lemma atr_at_causal:
  assumes "length hs = length cs" "length ls = length cs" "i < length cs"
  shows "atr_at p (take (Suc i) hs) (take (Suc i) ls) (take (Suc i) cs) i = atr_at p hs ls cs i"
  using atr_series_causal [OF assms(1,2), of i "Suc i" p] assms by (simp add: atr_at_def)

lemmas structure_causal = prior_donchian_causal last_confirmed_swing_causal confirmed_swings_causal atr_at_causal

definition cut :: "nat \<Rightarrow> ohlc_atom \<Rightarrow> rat list \<Rightarrow> rat list \<Rightarrow> rat list \<Rightarrow> nat \<Rightarrow> bool result" where
  "cut m f cs hs ls i = f (take m cs) (Some (take m hs)) (Some (take m ls)) (Some i)"

definition causal_atom :: "ohlc_atom \<Rightarrow> bool" where
  "causal_atom f \<longleftrightarrow>
     (\<forall>cs hs ls i. length hs = length cs \<longrightarrow> length ls = length cs \<longrightarrow> i < length cs \<longrightarrow>
        cut (Suc i) f cs hs ls i = f cs (Some hs) (Some ls) (Some i))"

lemmas atom_defs = don_hi_def don_lo_def near_swing_def double_swing_def require_ohlc_def idx_of_def Let_def

lemma structure_atoms_causal:
  "causal_atom (don_hi n)" "causal_atom (don_lo n)" "causal_atom (near_swing h n)" "causal_atom (double_swing h n)"
  by (auto simp: causal_atom_def cut_def atom_defs structure_causal min_def split: option.splits list.splits)

end
