(* ===== verification/StrategyBacktestFacts.thy ===== *)
theory StrategyBacktestFacts
  imports StrategyBacktest StructureFacts
begin

text \<open>
  The invariant of a five-minute backtest and the facts its properties rest on: cash and notional, the lots and their
  stops, the breaker, the sampled equity, and that a bar is decided from the bars up to it.
\<close>

section \<open>The invariant\<close>

definition params_ok :: "test_params \<Rightarrow> bool" where
  "params_ok p \<longleftrightarrow> 0 \<le> tp_cash p \<and> 0 \<le> tp_fee p \<and> tp_fee p \<le> 1 \<and> 0 \<le> tp_slip p \<and> tp_slip p \<le> 1 \<and> 0 \<le> tp_rr p"

lemma params_okD:
  assumes "params_ok p"
  shows "0 \<le> tp_cash p" "0 \<le> tp_fee p" "tp_fee p \<le> 1" "0 \<le> tp_slip p" "tp_slip p \<le> 1" "0 \<le> tp_rr p"
  using assms by (auto simp: params_ok_def)

definition lot_ok :: "test_params \<Rightarrow> open_lot \<Rightarrow> bool" where
  "lot_ok p l \<longleftrightarrow>
     0 < ol_qty l \<and> 0 < ol_stop l \<and> ol_stop l < ol_entry l \<and> ol_entry l * (1 - STOP_CAP_FRAC) \<le> ol_stop l * (1 + tp_slip p)"

text \<open>The worst return of a lot that is closed by its stop\<close>

definition worst_return :: "test_params \<Rightarrow> rat" where
  "worst_return p = (1 - STOP_CAP_FRAC) * (1 - tp_slip p) / (1 + tp_slip p) - 1"

definition books_ok :: "testing \<Rightarrow> bool" where
  "books_ok s \<longleftrightarrow>
     0 \<le> te_cash s \<and> 0 \<le> te_min s \<and> 0 \<le> te_frac s \<and> te_frac s \<le> 1 \<and> 0 \<le> te_fees s \<and>
     0 \<le> te_peak s \<and> 0 \<le> te_dd s \<and> te_dd s \<le> 1 \<and> te_wins s \<le> te_trades s \<and> length (te_pcts s) = te_trades s"

lemma books_okD:
  assumes "books_ok s"
  shows "0 \<le> te_cash s" "0 \<le> te_min s" "0 \<le> te_frac s" "te_frac s \<le> 1" "0 \<le> te_fees s" "0 \<le> te_peak s" "0 \<le> te_dd s"
    "te_dd s \<le> 1" "te_wins s \<le> te_trades s" "length (te_pcts s) = te_trades s"
  using assms by (auto simp: books_ok_def)

lemma track_peak_sel [simp]:
  "te_cash (track_peak eq s) = te_cash s" "te_min (track_peak eq s) = te_min s" "te_frac (track_peak eq s) = te_frac s"
  "te_fees (track_peak eq s) = te_fees s" "te_wins (track_peak eq s) = te_wins s" "te_trades (track_peak eq s) = te_trades s"
  "te_pcts (track_peak eq s) = te_pcts s" "te_lots (track_peak eq s) = te_lots s" "te_risk (track_peak eq s) = te_risk s"
  "te_daily (track_peak eq s) = te_daily s" "te_sample (track_peak eq s) = te_sample s"
  by (simp_all add: track_peak_def Let_def)

lemma track_peak_ok:
  assumes "books_ok s" "0 \<le> eq"
  shows "books_ok (track_peak eq s)"
proof -
  have "0 \<le> te_peak (track_peak eq s) \<and> 0 \<le> te_dd (track_peak eq s) \<and> te_dd (track_peak eq s) \<le> 1"
    using assms by (auto simp: track_peak_def Let_def books_ok_def divide_le_eq le_divide_eq max_def)
  then show ?thesis using assms(1) by (simp add: books_ok_def)
qed

lemma lots_value_nonneg: "list_all (lot_ok p) ls \<Longrightarrow> 0 \<le> px \<Longrightarrow> 0 \<le> lots_value ls px"
  by (induction ls) (auto simp: lots_value_def lot_ok_def)

section \<open>Closing a lot\<close>

lemma settle_lot_sel [simp]:
  "te_lots (settle_lot p l px hit i s) = te_lots s" "te_risk (settle_lot p l px hit i s) = te_risk s"
  "te_daily (settle_lot p l px hit i s) = te_daily s" "te_sample (settle_lot p l px hit i s) = te_sample s"
  "te_trades (settle_lot p l px hit i s) = te_trades s + 1"
  "te_pcts (settle_lot p l px hit i s) =
     te_pcts s @ [if ol_entry l \<noteq> 0 then (px - ol_entry l) / ol_entry l else 0]"
  by (simp_all add: settle_lot_def Let_def)

lemma settle_lot_ok:
  assumes "books_ok s" "params_ok p" "lot_ok p l" "0 \<le> px"
  shows "books_ok (settle_lot p l px hit i s)"
proof -
  note b = books_okD [OF assms(1)] and q = params_okD [OF assms(2)]
  have pr: "0 \<le> px * ol_qty l" using assms(3,4) by (simp add: lot_ok_def)
  have fee: "0 \<le> px * ol_qty l * tp_fee p" using pr q(2) by (rule mult_nonneg_nonneg)
  have "px * ol_qty l * tp_fee p \<le> px * ol_qty l" using pr q(3) mult_left_mono [OF q(3) pr] by simp
  then have cash: "0 \<le> te_cash s + (px * ol_qty l - px * ol_qty l * tp_fee p)" using b(1) by linarith
  show ?thesis
    unfolding settle_lot_def Let_def
    by (rule track_peak_ok) (use b cash fee in \<open>simp_all add: books_ok_def le_SucI\<close>)
qed

lemma exit_of_price:
  assumes "exit_of p low high l = Some (px, hit)" "params_ok p" "lot_ok p l"
  shows "ol_stop l * (1 - tp_slip p) \<le> px \<and> 0 \<le> px"
proof -
  note q = params_okD [OF assms(2)]
  have s: "0 \<le> 1 - tp_slip p" using q(5) by simp
  have "ol_stop l \<le> ol_entry l + tp_rr p * (ol_entry l - ol_stop l)"
  proof -
    have "0 \<le> tp_rr p * (ol_entry l - ol_stop l)" using q(6) assms(3) by (simp add: lot_ok_def)
    then show ?thesis using assms(3) by (simp add: lot_ok_def)
  qed
  then have "ol_stop l * (1 - tp_slip p) \<le> (ol_entry l + tp_rr p * (ol_entry l - ol_stop l)) * (1 - tp_slip p)"
    using s by (rule mult_right_mono)
  moreover have "0 \<le> ol_stop l * (1 - tp_slip p)" using s assms(3) by (simp add: lot_ok_def)
  ultimately show ?thesis using assms(1) by (auto simp: exit_of_def Let_def split: if_splits)
qed

lemma worst_return_bound:
  assumes "params_ok p" "lot_ok p l" "ol_stop l * (1 - tp_slip p) \<le> px"
  shows "worst_return p \<le> (px - ol_entry l) / ol_entry l"
proof -
  note q = params_okD [OF assms(1)]
  have e: "0 < ol_entry l" and c: "ol_entry l * (1 - STOP_CAP_FRAC) \<le> ol_stop l * (1 + tp_slip p)"
    using assms(2) by (auto simp: lot_ok_def)
  have "ol_entry l * (1 - STOP_CAP_FRAC) * (1 - tp_slip p) \<le> ol_stop l * (1 + tp_slip p) * (1 - tp_slip p)"
    using c q(5) by (intro mult_right_mono) auto
  also have "\<dots> = ol_stop l * (1 - tp_slip p) * (1 + tp_slip p)" by (simp only: mult_ac)
  also have "\<dots> \<le> px * (1 + tp_slip p)" using assms(3) q(4) by (intro mult_right_mono) auto
  finally have "ol_entry l * ((1 - STOP_CAP_FRAC) * (1 - tp_slip p)) \<le> px * (1 + tp_slip p)" by (simp only: mult_ac)
  then have "(1 - STOP_CAP_FRAC) * (1 - tp_slip p) / (1 + tp_slip p) \<le> px / ol_entry l"
    using e q(4) by (simp add: frac_le_eq divide_le_eq le_divide_eq mult_ac)
  then show ?thesis using e by (simp add: worst_return_def diff_divide_distrib)
qed

section \<open>The bar loop\<close>

definition test_inv :: "test_params \<Rightarrow> testing \<Rightarrow> bool" where
  "test_inv p s \<longleftrightarrow>
     books_ok s \<and> list_all (lot_ok p) (te_lots s) \<and> length (te_lots s) \<le> MAX_LOTS_PER_SYMBOL \<and>
     list_all (\<lambda>x. worst_return p \<le> x) (te_pcts s)"

lemma test_invD:
  assumes "test_inv p s"
  shows "books_ok s" "list_all (lot_ok p) (te_lots s)" "length (te_lots s) \<le> MAX_LOTS_PER_SYMBOL"
    "list_all (\<lambda>x. worst_return p \<le> x) (te_pcts s)"
  using assms by (auto simp: test_inv_def)

lemma exit_step_simps:
  "exit_of p low high l = None \<Longrightarrow> exit_step p low high i l (s, kept, ex) = (s, kept @ [l], ex)"
  "exit_of p low high l = Some (px, hit) \<Longrightarrow> exit_step p low high i l (s, kept, ex) = (settle_lot p l px hit i s, kept, True)"
  by (simp_all add: exit_step_def)

lemma exit_fold_ok:
  assumes "params_ok p" "list_all (lot_ok p) ls" "books_ok s" "list_all (\<lambda>x. worst_return p \<le> x) (te_pcts s)"
    "fold (exit_step p low high i) ls (s, kept, ex) = (s', kept', ex')"
  shows "books_ok s' \<and> list_all (\<lambda>x. worst_return p \<le> x) (te_pcts s') \<and> te_risk s' = te_risk s \<and> te_daily s' = te_daily s \<and>
    te_sample s' = te_sample s \<and> (\<exists>ms. kept' = kept @ ms \<and> set ms \<subseteq> set ls \<and> length ms \<le> length ls \<and> te_trades s' + length ms = te_trades s + length ls)"
  using assms(2-)
proof (induction ls arbitrary: s kept ex)
  case (Cons l ls)
  show ?case
  proof (cases "exit_of p low high l")
    case None
    then have f: "fold (exit_step p low high i) ls (s, kept @ [l], ex) = (s', kept', ex')"
      using Cons.prems(4) by (simp add: exit_step_simps(1))
    have "list_all (lot_ok p) ls" using Cons.prems(1) by simp
    from Cons.IH [OF this Cons.prems(2,3) f] obtain ms where
      "kept' = (kept @ [l]) @ ms" "set ms \<subseteq> set ls" "length ms \<le> length ls" "te_trades s' + length ms = te_trades s + length ls"
      and r: "books_ok s' \<and> list_all (\<lambda>x. worst_return p \<le> x) (te_pcts s') \<and> te_risk s' = te_risk s \<and> te_daily s' = te_daily s \<and>
        te_sample s' = te_sample s" by blast
    then show ?thesis by (intro conjI exI [of _ "l # ms"]) auto
  next
    case (Some q)
    obtain px hit where q: "q = (px, hit)" by (cases q)
    let ?s = "settle_lot p l px hit i s"
    have f: "fold (exit_step p low high i) ls (?s, kept, True) = (s', kept', ex')"
      using Cons.prems(4) Some q by (simp add: exit_step_simps(2))
    have l: "lot_ok p l" "list_all (lot_ok p) ls" using Cons.prems(1) by simp_all
    have px: "ol_stop l * (1 - tp_slip p) \<le> px" "0 \<le> px" using exit_of_price [OF _ assms(1) l(1)] Some q by auto
    have "list_all (\<lambda>x. worst_return p \<le> x) (te_pcts ?s)"
      using Cons.prems(3) worst_return_bound [OF assms(1) l(1) px(1)] l(1) by (auto simp: lot_ok_def)
    from Cons.IH [OF l(2) settle_lot_ok [OF Cons.prems(2) assms(1) l(1) px(2)] this f] show ?thesis by auto
  qed
qed auto

lemma exit_lots_ok:
  assumes "params_ok p" "test_inv p s" "exit_lots p low high i s = (s', ex)"
  shows "test_inv p s' \<and> te_risk s' = te_risk s \<and> set (te_lots s') \<subseteq> set (te_lots s) \<and>
    te_trades s' + length (te_lots s') = te_trades s + length (te_lots s) \<and> te_daily s' = te_daily s \<and> te_sample s' = te_sample s"
proof -
  note inv = test_invD [OF assms(2)]
  obtain t kept e where f: "fold (exit_step p low high i) (te_lots s) (s, [], False) = (t, kept, e)"
    using prod_cases3 by blast
  then have s': "s' = t\<lparr>te_lots := kept\<rparr>" using assms(3) by (simp add: exit_lots_def)
  from exit_fold_ok [OF assms(1) inv(2,1,4) f] have r: "books_ok t" "list_all (\<lambda>x. worst_return p \<le> x) (te_pcts t)"
    "te_risk t = te_risk s" "te_daily t = te_daily s" "te_sample t = te_sample s" "set kept \<subseteq> set (te_lots s)"
    "te_trades t + length kept = te_trades s + length (te_lots s)" "length kept \<le> length (te_lots s)" by auto
  have "books_ok s'" using r(1) by (simp add: s' books_ok_def)
  moreover have "list_all (lot_ok p) kept" using r(6) inv(2) by (auto simp: list_all_iff)
  ultimately show ?thesis using r inv(3) by (simp add: s' test_inv_def)
qed

lemma mark_bar_ok:
  assumes "test_inv p s" "0 \<le> cur"
  shows "test_inv p (mark_bar cur s)"
proof -
  note inv = test_invD [OF assms(1)]
  have eq: "0 \<le> mark_equity cur s"
    using lots_value_nonneg [OF inv(2) assms(2)] books_okD(1) [OF inv(1)] by (simp add: mark_equity_def)
  have "books_ok (s\<lparr>te_risk := update_equity (mark_equity cur s) (te_risk s)\<rparr>)" using inv(1) by (simp add: books_ok_def)
  from track_peak_ok [OF this eq] show ?thesis using inv by (simp add: test_inv_def mark_bar_def Let_def)
qed

lemma mark_bar_sel [simp]:
  "te_lots (mark_bar cur s) = te_lots s" "te_daily (mark_bar cur s) = te_daily s" "te_trades (mark_bar cur s) = te_trades s"
  "te_sample (mark_bar cur s) = te_sample s" "te_cash (mark_bar cur s) = te_cash s"
  "te_risk (mark_bar cur s) = update_equity (mark_equity cur s) (te_risk s)"
  by (simp_all add: mark_bar_def Let_def)

lemma sample_bar_sel [simp]:
  "te_lots (sample_bar p st i cur s) = te_lots s" "te_risk (sample_bar p st i cur s) = te_risk s"
  "te_trades (sample_bar p st i cur s) = te_trades s" "te_cash (sample_bar p st i cur s) = te_cash s"
  by (simp_all add: sample_bar_def)

lemma sample_bar_ok: "test_inv p s \<Longrightarrow> test_inv p (sample_bar p st i cur s)"
  by (simp add: sample_bar_def test_inv_def books_ok_def)

text \<open>A new lot is paid for from the free cash, and its stop is within the band.\<close>

lemma take_lot_ok:
  assumes "params_ok p" "test_inv p s" "0 < cur" "length (te_lots s) < MAX_LOTS_PER_SYMBOL" "0 < qty" "0 < stop" "stop < cur"
    "cur * (1 - STOP_CAP_FRAC) \<le> stop" "qty * (cur * max 1 ((1 + tp_slip p) * (1 + tp_fee p))) \<le> te_cash s"
  shows "test_inv p (take_lot p i cur stop qty s)"
proof -
  note q = params_okD [OF assms(1)] and inv = test_invD [OF assms(2)]
  note b = books_okD [OF inv(1)]
  define entry where "entry = cur * (1 + tp_slip p)"
  define l where "l = \<lparr>ol_qty = qty, ol_entry = entry, ol_stop = stop, ol_opened = i\<rparr>"
  define cash where "cash = te_cash s - (entry * qty + entry * qty * tp_fee p)"
  define v where "v = lots_value (te_lots s @ [l]) cur"
  have m: "1 \<le> (1 + tp_slip p) * (1 + tp_fee p)" using mult_mono [of 1 "1 + tp_slip p" 1 "1 + tp_fee p"] q by simp
  have "entry * qty + entry * qty * tp_fee p = qty * (cur * ((1 + tp_slip p) * (1 + tp_fee p)))"
    by (simp add: entry_def algebra_simps)
  then have cash: "0 \<le> cash" using assms(9) m by (simp add: cash_def max_def split: if_splits)
  have "cur \<le> entry" using assms(3) q(4) by (simp add: entry_def)
  then have e: "0 < entry" "stop < entry" using assms(3,7) by linarith+
  have "entry * (1 - STOP_CAP_FRAC) = cur * (1 - STOP_CAP_FRAC) * (1 + tp_slip p)" by (simp only: entry_def mult_ac)
  also have "\<dots> \<le> stop * (1 + tp_slip p)" using assms(8) q(4) by (intro mult_right_mono) auto
  finally have l: "lot_ok p l" using assms(5,6) e by (simp add: lot_ok_def l_def)
  then have lots: "list_all (lot_ok p) (te_lots s @ [l])" using inv(2) by simp
  then have v: "0 \<le> v" using assms(3) by (simp add: v_def lots_value_nonneg)
  have fee: "0 \<le> entry * qty * tp_fee p" using e(1) assms(5) q(2) by simp
  have frac: "0 < cash + v \<Longrightarrow> 0 \<le> v / (cash + v) \<and> v / (cash + v) \<le> 1" using cash v by (simp add: divide_le_eq)
  have "take_lot p i cur stop qty s =
    (let s = s\<lparr>te_cash := cash, te_fees := te_fees s + entry * qty * tp_fee p, te_lots := te_lots s @ [l], te_min := min (te_min s) cash\<rparr>
     in if 0 < cash + v then s\<lparr>te_frac := max (te_frac s) (v / (cash + v))\<rparr> else s)"
    by (simp add: take_lot_def Let_def cash_def entry_def l_def v_def)
  then show ?thesis
    using b inv cash fee lots frac assms(4) by (auto simp: test_inv_def books_ok_def Let_def)
qed

lemma enter_bar_ok:
  assumes "params_ok p" "test_inv p s" "0 < cur" "length (te_lots s) < MAX_LOTS_PER_SYMBOL"
  shows "test_inv p (enter_bar p i cur a s)"
proof -
  define stop where "stop = atr_stop_price cur a"
  define rd where "rd = size_position (mark_equity cur s) cur stop (map position_of (te_lots s)) 1 (Some (te_cash s))
    ((1 + tp_slip p) * (1 + tp_fee p)) (te_risk s)"
  have st: "0 < stop" "stop < cur" "cur * (1 - STOP_CAP_FRAC) \<le> stop"
    using atr_stop_below [OF assms(3), of a] atr_stop_bounds [OF assms(3), of a] by (auto simp: stop_def)
  show ?thesis
  proof (cases "rd_approved rd \<and> 0 < rd_size rd")
    case True
    then have ok: "rd_approved rd" "0 < rd_size rd" by auto
    have "test_inv p (take_lot p i cur stop (rd_size rd) s)"
      using take_lot_ok [OF assms ok(2) st size_position_approved(7) [OF ok(1) [unfolded rd_def], folded rd_def]] .
    then show ?thesis using ok st(2) by (simp add: enter_bar_def Let_def flip: stop_def rd_def)
  qed (use assms(2) st(2) in \<open>auto simp: enter_bar_def Let_def simp flip: stop_def rd_def\<close>)
qed

lemma bar_step_ok:
  assumes "params_ok p" "test_inv p s" "0 < cs ! i"
  shows "test_inv p (bar_step p want cs hs ls atrs st i s)"
proof -
  obtain t ex where f: "exit_lots p (if i < length ls then ls ! i else cs ! i) (if i < length hs then hs ! i else cs ! i) i s = (t, ex)"
    by fastforce
  have "test_inv p t" using exit_lots_ok [OF assms(1,2) f] by blast
  then have m: "test_inv p (sample_bar p st i (cs ! i) (mark_bar (cs ! i) t))" (is "test_inv p ?m")
    using assms(3) by (intro sample_bar_ok mark_bar_ok) auto
  have "may_enter ex (want i) (cs ! i) ?m \<Longrightarrow> test_inv p (enter_bar p i (cs ! i) (atrs ! i) ?m)"
    using m assms by (intro enter_bar_ok) (auto simp: may_enter_def)
  then show ?thesis using m by (simp add: bar_step_def f Let_def)
qed

lemma testing_start_ok: "params_ok p \<Longrightarrow> test_inv p (testing_start p)"
  by (simp add: test_inv_def books_ok_def testing_start_def params_ok_def)

lemma test_bars_Suc:
  "st \<le> e \<Longrightarrow> test_bars p want cs hs ls atrs st (Suc e) = bar_step p want cs hs ls atrs st e (test_bars p want cs hs ls atrs st e)"
  by (simp add: test_bars_def)

lemma test_bars_ok:
  assumes "params_ok p" "list_all (\<lambda>x. 0 < x) cs" "e \<le> length cs"
  shows "test_inv p (test_bars p want cs hs ls atrs st e)"
proof (cases "st \<le> e")
  case True
  then show ?thesis using assms(3)
  proof (induction e rule: dec_induct)
    case base
    show ?case by (simp add: test_bars_def testing_start_ok assms(1))
  next
    case (step n)
    then have "0 < cs ! n" using assms(2) by (simp add: list_all_length)
    then show ?case using step bar_step_ok [OF assms(1)] by (simp add: test_bars_Suc)
  qed
qed (simp add: test_bars_def testing_start_ok assms(1))

lemma close_fold_ok:
  assumes "params_ok p" "list_all (lot_ok p) ls" "books_ok s" "0 \<le> px"
  shows "books_ok (fold (\<lambda>l. settle_lot p l px hit i) ls s)"
  using assms(2,3) by (induction ls arbitrary: s) (auto intro: settle_lot_ok assms)

lemma close_out_ok:
  assumes "params_ok p" "test_inv p s" "0 \<le> cs ! (e - 1)"
  shows "books_ok (close_out p cs e s)"
proof -
  have "0 \<le> cs ! (e - 1) * (1 - tp_slip p)" using assms(3) params_okD(5) [OF assms(1)] by simp
  from close_fold_ok [OF assms(1) test_invD(2,1) [OF assms(2)] this]
  show ?thesis using test_invD(1) [OF assms(2)] by (simp add: close_out_def books_ok_def)
qed

section \<open>The breaker\<close>

lemma update_equity_halted: "rk_halted rk \<Longrightarrow> rk_halted (update_equity eq rk)"
  by (simp add: update_equity_def Let_def)

lemma take_lot_sel [simp]:
  "te_risk (take_lot p i cur stop qty s) = te_risk s" "te_daily (take_lot p i cur stop qty s) = te_daily s"
  "te_sample (take_lot p i cur stop qty s) = te_sample s" "te_trades (take_lot p i cur stop qty s) = te_trades s"
  by (simp_all add: take_lot_def Let_def)

lemma enter_bar_sel [simp]:
  "te_risk (enter_bar p i cur a s) = te_risk s" "te_daily (enter_bar p i cur a s) = te_daily s"
  "te_sample (enter_bar p i cur a s) = te_sample s" "te_trades (enter_bar p i cur a s) = te_trades s"
  by (simp_all add: enter_bar_def Let_def)

lemma bar_step_halted:
  assumes "params_ok p" "test_inv p s" "rk_halted (te_risk s)" and s': "s' = bar_step p want cs hs ls atrs st i s"
  shows "rk_halted (te_risk s') \<and> set (te_lots s') \<subseteq> set (te_lots s) \<and>
    te_trades s' + length (te_lots s') = te_trades s + length (te_lots s)"
proof -
  obtain t ex where f: "exit_lots p (if i < length ls then ls ! i else cs ! i) (if i < length hs then hs ! i else cs ! i) i s = (t, ex)"
    by fastforce
  note t = exit_lots_ok [OF assms(1,2) f]
  have h: "rk_halted (te_risk (sample_bar p st i (cs ! i) (mark_bar (cs ! i) t)))"
    using t assms(3) by (simp add: update_equity_halted)
  then have "s' = sample_bar p st i (cs ! i) (mark_bar (cs ! i) t)"
    by (simp add: s' bar_step_def f Let_def may_enter_def)
  then show ?thesis using h t by simp
qed

lemma test_bars_halted:
  assumes "params_ok p" "list_all (\<lambda>x. 0 < x) cs" "st \<le> m" "m \<le> e" "e \<le> length cs"
    "rk_halted (te_risk (test_bars p want cs hs ls atrs st m))"
  shows "rk_halted (te_risk (test_bars p want cs hs ls atrs st e)) \<and>
    set (te_lots (test_bars p want cs hs ls atrs st e)) \<subseteq> set (te_lots (test_bars p want cs hs ls atrs st m)) \<and>
    te_trades (test_bars p want cs hs ls atrs st e) + length (te_lots (test_bars p want cs hs ls atrs st e)) =
      te_trades (test_bars p want cs hs ls atrs st m) + length (te_lots (test_bars p want cs hs ls atrs st m))"
  using assms(4,5)
proof (induction e rule: dec_induct)
  case (step n)
  have "test_inv p (test_bars p want cs hs ls atrs st n)" using test_bars_ok [OF assms(1,2)] step.prems by simp
  from bar_step_halted [OF assms(1) this _ refl, of want cs hs ls atrs st n]
  show ?case using step assms(3) by (auto simp: test_bars_Suc)
qed (use assms(6) in simp)

section \<open>The sampled equity\<close>

definition samples_inv :: "test_params \<Rightarrow> nat \<Rightarrow> nat \<Rightarrow> testing \<Rightarrow> bool" where
  "samples_inv p st e s \<longleftrightarrow>
     (let q = (e - st) div every_bars p in
      length (te_daily s) = 1 + q \<and> hd (te_daily s) = tp_cash p \<and>
      te_sample s = (if q = 0 then -1 else int (st + every_bars p * q) - 1))"

lemma every_bars_pos: "0 < every_bars p"
  by (simp add: every_bars_def)

lemma samples_step:
  assumes "samples_inv p st i s" "st \<le> i"
  shows "samples_inv p st (Suc i) (sample_bar p st i cur s)"
proof -
  have d: "Suc i - st = Suc (i - st)" using assms(2) by simp
  have m: "every_bars p * (Suc (i - st) div every_bars p) + Suc (i - st) mod every_bars p = Suc (i - st)" by simp
  show ?thesis
  proof (cases "Suc (i - st) mod every_bars p = 0")
    case True
    then have "every_bars p * Suc ((i - st) div every_bars p) = Suc (i - st)" using m by (simp add: div_Suc)
    then have "int (st + every_bars p * Suc ((i - st) div every_bars p)) - 1 = int i" using assms(2) by simp
    moreover have "te_daily s \<noteq> []" using assms(1) by (auto simp: samples_inv_def Let_def)
    ultimately show ?thesis using True assms(1) d by (simp add: samples_inv_def sample_bar_def Let_def div_Suc hd_append)
  qed (use assms(1) d in \<open>simp add: samples_inv_def sample_bar_def Let_def div_Suc\<close>)
qed

lemma samples_sel: "te_daily s' = te_daily s \<Longrightarrow> te_sample s' = te_sample s \<Longrightarrow> samples_inv p st e s' = samples_inv p st e s"
  by (simp add: samples_inv_def)

lemma samples_bars:
  assumes "params_ok p" "list_all (\<lambda>x. 0 < x) cs" "st \<le> e" "e \<le> length cs"
  shows "samples_inv p st e (test_bars p want cs hs ls atrs st e)"
  using assms(3,4)
proof (induction e rule: dec_induct)
  case base
  show ?case by (simp add: samples_inv_def test_bars_def testing_start_def)
next
  case (step i)
  let ?s = "test_bars p want cs hs ls atrs st i"
  obtain t ex where f: "exit_lots p (if i < length ls then ls ! i else cs ! i) (if i < length hs then hs ! i else cs ! i) i ?s = (t, ex)"
    by fastforce
  have "test_inv p ?s" using test_bars_ok [OF assms(1,2)] step.prems by simp
  from exit_lots_ok [OF assms(1) this f] have "te_daily t = te_daily ?s" "te_sample t = te_sample ?s" by auto
  then have "samples_inv p st i (mark_bar (cs ! i) t)" using step by (simp add: samples_inv_def)
  from samples_step [OF this, of "cs ! i"] step.hyps
  have m: "samples_inv p st (Suc i) (sample_bar p st i (cs ! i) (mark_bar (cs ! i) t))" (is "samples_inv p st (Suc i) ?m") by simp
  then have "samples_inv p st (Suc i) (enter_bar p i (cs ! i) (atrs ! i) ?m)" by (simp add: samples_inv_def)
  then show ?case using m step.hyps by (simp add: test_bars_Suc bar_step_def f Let_def)
qed

lemma close_fold_sel:
  "te_daily (fold (\<lambda>l. settle_lot p l px hit i) ls s) = te_daily s" "te_sample (fold (\<lambda>l. settle_lot p l px hit i) ls s) = te_sample s"
  "te_trades (fold (\<lambda>l. settle_lot p l px hit i) ls s) = te_trades s + length ls"
  by (induction ls arbitrary: s) simp_all

lemma close_out_sel [simp]:
  "te_daily (close_out p cs e s) = te_daily s" "te_sample (close_out p cs e s) = te_sample s"
  "te_trades (close_out p cs e s) = te_trades s + length (te_lots s)"
  by (simp_all add: close_out_def close_fold_sel)

text \<open>One point at the start, one per full period, and the settled equity at the end.\<close>

lemma last_point_daily:
  assumes "samples_inv p st e s" "st < e"
  shows "hd (te_daily (last_point e s)) = tp_cash p \<and> last (te_daily (last_point e s)) = te_cash s \<and>
    length (te_daily (last_point e s)) = 1 + (e - st + every_bars p - 1) div every_bars p"
proof -
  define k where "k = e - st"
  define n where "n = every_bars p"
  define q where "q = k div n"
  have n: "0 < n" by (simp add: n_def every_bars_pos)
  have inv: "length (te_daily s) = 1 + q" "hd (te_daily s) = tp_cash p" "te_sample s = (if q = 0 then -1 else int (st + n * q) - 1)"
    using assms(1) by (simp_all add: samples_inv_def Let_def k_def n_def q_def)
  have kq: "k = n * q + k mod n" by (simp add: q_def)
  have at: "te_sample s = int e - 1 \<and> length (te_daily s) > 1 \<longleftrightarrow> k mod n = 0"
  proof
    assume "te_sample s = int e - 1 \<and> length (te_daily s) > 1"
    then have "int (st + n * q) = int e" using inv by (auto split: if_splits)
    then have "e = st + n * q" unfolding of_nat_eq_iff by simp
    then show "k mod n = 0" by (simp add: k_def)
  next
    assume z: "k mod n = 0"
    have "0 < k" using assms(2) by (simp add: k_def)
    moreover have kn: "k = n * q" using kq z by simp
    ultimately have q0: "q \<noteq> 0" by (intro notI) simp
    have "st + n * q = e" using kn assms(2) by (simp add: k_def)
    then have "int (st + n * q) = int e" by (rule arg_cong)
    then show "te_sample s = int e - 1 \<and> length (te_daily s) > 1" using inv q0 by simp
  qed
  have dv: "r < n \<Longrightarrow> k + n - 1 = r + n * x \<Longrightarrow> (k + n - 1) div n = x" for r x by simp
  have len: "(k + n - 1) div n = (if k mod n = 0 then q else Suc q)"
  proof (cases "k mod n = 0")
    case True
    then have "k + n - 1 = (n - 1) + n * q" using kq n by simp
    from dv [OF _ this] show ?thesis using True n by simp
  next
    case False
    then have "k + n - 1 = (k mod n - 1) + n * Suc q" using kq n by simp
    moreover have "k mod n < n" using n by simp
    ultimately show ?thesis using False dv [of "k mod n - 1" "Suc q"] by simp
  qed
  have ne: "te_daily s \<noteq> []" using inv(1) by auto
  show ?thesis
  proof (cases "k mod n = 0")
    case True
    with at have c: "te_sample s = int e - 1 \<and> length (te_daily s) > 1" by simp
    then have "butlast (te_daily s) \<noteq> []" "hd (butlast (te_daily s)) = hd (te_daily s)"
      by (cases "te_daily s"; force)+
    then show ?thesis unfolding last_point_def if_P [OF c] using inv(1,2) True len by (simp add: k_def n_def)
  next
    case False
    with at have c: "\<not> (te_sample s = int e - 1 \<and> length (te_daily s) > 1)" by simp
    show ?thesis unfolding last_point_def if_not_P [OF c] using inv(1,2) False len ne by (simp add: k_def n_def)
  qed
qed

section \<open>No lookahead\<close>

lemma bar_step_agree:
  assumes "cs ! i = cs' ! i" "hs ! i = hs' ! i" "ls ! i = ls' ! i" "atrs ! i = atrs' ! i" "want i = want' i"
    "i < length hs \<longleftrightarrow> i < length hs'" "i < length ls \<longleftrightarrow> i < length ls'"
  shows "bar_step p want cs hs ls atrs st i = bar_step p want' cs' hs' ls' atrs' st i"
  unfolding bar_step_def assms ..

lemma test_bars_take:
  assumes "length hs = length cs" "length ls = length cs" "e \<le> length cs" "\<And>i. i < e \<Longrightarrow> want i = want' i"
  shows "test_bars p want cs hs ls (atr_series n hs ls cs) st e =
    test_bars p want' (take e cs) (take e hs) (take e ls) (atr_series n (take e hs) (take e ls) (take e cs)) st e"
  unfolding test_bars_def
proof (intro fold_cong refl)
  fix i assume "i \<in> set [st..<e]"
  then have "i < e" by simp
  then show "bar_step p want cs hs ls (atr_series n hs ls cs) st i =
      bar_step p want' (take e cs) (take e hs) (take e ls) (atr_series n (take e hs) (take e ls) (take e cs)) st i"
    using assms atr_series_causal [OF assms(1,2) _ assms(3)] by (intro bar_step_agree) auto
qed

lemma close_out_take: "e \<noteq> 0 \<Longrightarrow> close_out p (take e cs) e s = close_out p cs e s"
  by (simp add: close_out_def)

end
