(* ===== verification/RiskProperties.thy ===== *)
theory RiskProperties
  imports StrategyBacktestFacts
begin

text \<open>
  Properties of the risk rules, the price structure signals and the five-minute backtest.
\<close>

section \<open>Inputs used by the witnesses\<close>

definition sample_params :: test_params where
  "sample_params =
     \<lparr>tp_cash = 10000, tp_frac = 1 / 100, tp_fee = 1 / 1000, tp_slip = 2 / 10000, tp_rr = 2, tp_long = 0, tp_lookback = 0,
      tp_from = None, tp_to = None, tp_per_day = 2\<rparr>"

definition flat_tape :: "rat list" where "flat_tape = replicate 30 100"

lemma flat_tape_facts [simp]: "list_all (\<lambda>x. 0 < x) flat_tape" "length flat_tape = 30"
  by (simp_all add: flat_tape_def list_all_iff)

lemma sample_params_ok [simp]: "params_ok sample_params"
  by (simp add: params_ok_def sample_params_def)

definition heavy_params :: test_params where "heavy_params = sample_params\<lparr>tp_slip := 1 / 5, tp_frac := 1 / 40\<rparr>"

definition no_volatility :: series where "no_volatility = replicate 4 None"

lemma heavy_run:
  "rk_halted (te_risk (test_bars heavy_params (\<lambda>i. True) flat_tape flat_tape flat_tape no_volatility 0 2)) \<and>
   length (te_lots (test_bars heavy_params (\<lambda>i. True) flat_tape flat_tape flat_tape no_volatility 0 2)) = 1"
  by (simp add: test_bars_def upt_rec numeral_eq_Suc bar_step_def exit_lots_def exit_step_def exit_of_def may_enter_def enter_bar_def
    mark_bar_def sample_bar_def track_peak_def take_lot_def mark_equity_def lots_value_def testing_start_def heavy_params_def
    sample_params_def flat_tape_def no_volatility_def every_bars_def size_position_def notional_cap_def open_risk_def
    atr_stop_price_def atr_stop_distance_def risk_constants clamp_confidence_def new_risk_manager_def update_equity_def Let_def)

section \<open>Sizing\<close>

text \<open>
  C28. An approved long is within every limit: trading is not halted, its stop is below the entry, the loss down to
  the stop is at most twice the risked fraction of the equity, together with the open lots at most the open-risk
  fraction, and its cost with fee and slippage is covered by the free cash.
\<close>
theorem approved_long_within_limits:
  assumes "rd_approved (size_position equity entry stop ps conf (Some cash) mult rk)" "0 \<le> equity * rk_frac rk"
  shows "\<not> rk_halted rk \<and> 0 < stop \<and> stop < entry \<and>
    (entry - stop) * rd_size (size_position equity entry stop ps conf (Some cash) mult rk) \<le> 2 * (equity * rk_frac rk) \<and>
    (ps \<noteq> [] \<longrightarrow> open_risk ps + (entry - stop) * rd_size (size_position equity entry stop ps conf (Some cash) mult rk) \<le>
       equity * rk_open_frac rk) \<and>
    rd_size (size_position equity entry stop ps conf (Some cash) mult rk) * (entry * max 1 mult) \<le> cash"
proof -
  note d = size_position_approved [OF assms(1)]
  have "equity * rk_frac rk * clamp_confidence conf \<le> equity * rk_frac rk * 2"
    using clamp_confidence_bounds(2) [of conf] assms(2) by (intro mult_left_mono) (simp_all add: CONFIDENCE_MAX_def)
  then show ?thesis using d by (auto intro: order.trans)
qed

text \<open>The limits, for a second lot on a book of ten thousand with little cash left.\<close>
theorem approved_long_within_limits_witness:
  "rd_size (size_position 10000 100 98 [(90, 89, 20)] 1 (Some 500) (1001 / 1000) (new_risk_manager (1 / 100) 10000)) * (100 * max 1 (1001 / 1000)) \<le> 500 \<and>
   rd_size (size_position 10000 100 98 [(90, 89, 20)] 1 (Some 500) (1001 / 1000) (new_risk_manager (1 / 100) 10000)) = 5000 / 1001"
proof -
  let ?d = "size_position 10000 100 98 [(90, 89, 20)] 1 (Some 500) (1001 / 1000) (new_risk_manager (1 / 100) 10000)"
  have "?d = approved (5000 / 1001) 98"
    by (simp add: size_position_def notional_cap_def Let_def open_risk_def new_risk_manager_def clamp_confidence_def risk_constants)
  then have "rd_approved ?d" "rd_size ?d = 5000 / 1001" by simp_all
  then show ?thesis
    using approved_long_within_limits [of 10000 100 98 "[(90, 89, 20)]" 1 500 "1001 / 1000" "new_risk_manager (1 / 100) 10000"]
    by (simp add: new_risk_manager_def)
qed

lemma clamp_weight_abs: "0 < cap \<Longrightarrow> \<bar>clamp_weight cap w\<bar> \<le> cap"
  by (auto simp: clamp_weight_def)

lemma gross_scaled: "0 \<le> k \<Longrightarrow> gross_of (map (\<lambda>(t, w). (t, w * k)) ws) = gross_of ws * k"
  by (induction ws) (auto simp: gross_of_def abs_mult algebra_simps)

text \<open>Clamped weights obey both limits.\<close>
lemma weights_within_limits:
  assumes "limits_valid l"
  shows "list_all (\<lambda>(t, w). \<bar>w\<bar> \<le> rl_position l) (fst (apply_limits ws l)) \<and> gross_of (fst (apply_limits ws l)) \<le> rl_gross l"
proof -
  define cl where "cl = clamp_positions (rl_position l) ws"
  define k where "k = rl_gross l / gross_of cl"
  have cl: "list_all (\<lambda>(t, w). \<bar>w\<bar> \<le> rl_position l) cl"
    using assms clamp_weight_abs by (auto simp: cl_def clamp_positions_def limits_valid_def list_all_iff)
  show ?thesis
  proof (cases "gross_of cl > rl_gross l")
    case True
    then have k: "0 \<le> k" "k \<le> 1" "gross_of cl * k = rl_gross l" using assms by (auto simp: k_def limits_valid_def divide_le_eq)
    have "\<bar>w * k\<bar> \<le> rl_position l" if "(t, w) \<in> set cl" for t w
    proof -
      have "\<bar>w * k\<bar> \<le> \<bar>w\<bar>" using k(1,2) by (simp add: abs_mult mult_left_le)
      also have "\<bar>w\<bar> \<le> rl_position l" using cl that by (auto simp: list_all_iff)
      finally show ?thesis .
    qed
    then have "list_all (\<lambda>(t, w). \<bar>w\<bar> \<le> rl_position l) (map (\<lambda>(t, w). (t, w * k)) cl)" by (auto simp: list_all_iff)
    moreover have "gross_of (map (\<lambda>(t, w). (t, w * k)) cl) = rl_gross l" using gross_scaled [OF k(1)] k(3) by simp
    moreover have "fst (apply_limits ws l) = map (\<lambda>(t, w). (t, w * k)) cl"
      using True by (simp add: apply_limits_def Let_def cl_def k_def)
    ultimately show ?thesis by (simp only: order.refl simp_thms)
  next
    case False
    then show ?thesis using cl by (simp add: apply_limits_def Let_def flip: cl_def)
  qed
qed

section \<open>Price structure\<close>

text \<open>
  C24. The Donchian levels, computed in one pass with a deque, are the reference: undefined for the first n bars, and
  then the highest (lowest) of the n values before the bar, the bar itself not included.
\<close>
theorem donchian_is_window_extreme:
  "range_before high vals n =
     map (\<lambda>i. if n < 1 \<or> i < n then None
              else Some ((if high then list_max else list_min) (take n (drop (i - n) vals)))) [0..<length vals]"
  unfolding range_before_spec range_spec_def extreme_of_def by (cases high) simp_all

text \<open>
  The swings known at a bar are those the chart then shows: the strict extremes of the k bars on each side whose
  right side is complete at that bar, newest first, at most as many as asked for.
\<close>
lemma swings_are_confirmed_pivots:
  assumes "i < length vals" "0 < k"
  shows "confirmed_swings high vals k i (Some m) =
    map (\<lambda>j. (j, vals ! j))
      (take m (rev (filter (\<lambda>j. list_all (\<lambda>x. x \<noteq> j \<longrightarrow> (if high then vals ! x < vals ! j else vals ! j < vals ! x)) [j - k..<Suc (j + k)])
         [k..<Suc i - k])))"
proof -
  have "pivot_at high vals k = (\<lambda>j. list_all (\<lambda>x. x \<noteq> j \<longrightarrow> (if high then vals ! x < vals ! j else vals ! j < vals ! x)) [j - k..<Suc (j + k)])"
    by (simp add: pivot_at_def strictly_better_def fun_eq_iff)
  then show ?thesis using assms by (simp add: confirmed_swings_spec newest_def swings_at_def rev_map take_map)
qed

text \<open>The low of the third of six bars, seen two bars later.\<close>
lemma swings_are_confirmed_pivots_instance:
  "confirmed_swings False [5, 4, 3, 4, 5, 1] 2 4 (Some 1) = [(2, 3)] \<and> confirmed_swings False [5, 4, 3, 4, 5, 1] 2 3 (Some 1) = []"
  using swings_are_confirmed_pivots [of 4 "[5, 4, 3, 4, 5, 1]" 2 False 1]
    swings_are_confirmed_pivots [of 3 "[5, 4, 3, 4, 5, 1]" 2 False 1]
  by (simp add: upt_rec numeral_eq_Suc)

text \<open>
  The structure signals do not look ahead: the Donchian break and tag, the swing tags and the double swings of
  a bar have the same value when the bars after it are not there yet.
\<close>
lemma structure_reads_no_later_bar:
  assumes "f \<in> {don_hi n, don_lo n, near_swing_hi n, near_swing_lo n, dbl_bot n, dbl_top n}" "length hs = length cs"
    "length ls = length cs" "i < length cs"
  shows "f (take (Suc i) cs) (Some (take (Suc i) hs)) (Some (take (Suc i) ls)) (Some i) = f cs (Some hs) (Some ls) (Some i)"
proof -
  have "causal_atom f"
    using assms(1) structure_atoms_causal
    by (auto simp: near_swing_hi_def near_swing_lo_def dbl_bot_def dbl_top_def)
  then show ?thesis using assms(2-4) by (simp add: causal_atom_def cut_def)
qed

text \<open>A close above the two highs before it, whatever follows.\<close>
lemma structure_reads_no_later_bar_instance:
  "don_hi 2 (take (Suc 2) [1, 2, 5, 9]) (Some (take (Suc 2) [2, 3, 6, 10])) (Some (take (Suc 2) [1, 1, 4, 8])) (Some 2) =
     don_hi 2 [1, 2, 5, 9] (Some [2, 3, 6, 10]) (Some [1, 1, 4, 8]) (Some 2)"
  by (rule structure_reads_no_later_bar [of _ 2]) simp_all

section \<open>The five-minute backtest\<close>

text \<open>
  C11. A backtest trades no money it does not have: with positive closes and sensible costs it returns, the cash after
  every entry and at the end is not negative, the open notional is never above the equity, and the drawdown is a
  fraction of the peak.
\<close>
theorem backtest_stays_funded:
  assumes "params_ok p" "list_all (\<lambda>x. 0 < x) cs" "length hs = length cs" "length ls = length cs"
  shows "\<exists>r. backtest p want cs hs ls = Inr r \<and> 0 \<le> rs_min_cash r \<and> 0 \<le> rs_final r \<and> 0 \<le> rs_notional r \<and> rs_notional r \<le> 1 \<and>
    0 \<le> rs_dd r \<and> rs_dd r \<le> 1 \<and> rs_wins r \<le> rs_trades r"
proof -
  define e where "e = end_bar p (length cs)"
  have el: "e \<le> length cs" by (auto simp: e_def end_bar_def split: option.splits)
  show ?thesis
  proof (cases "e \<le> first_bar p")
    case True
    then show ?thesis
      using assms params_okD(1) [OF assms(1)] by (simp add: backtest_def Let_def no_trades_def flip: e_def)
  next
    case False
    let ?s = "close_out p cs e (test_bars p want cs hs ls (atr_series ATR_PERIOD hs ls cs) (first_bar p) e)"
    have "0 \<le> cs ! (e - 1)" using assms(2) el False by (simp add: list_all_length less_imp_le)
    from books_okD [OF close_out_ok [OF assms(1) test_bars_ok [OF assms(1,2) el] this]] show ?thesis
      using False assms(3,4) by (auto simp: backtest_def Let_def result_of_def last_point_def simp flip: e_def)
  qed
qed

text \<open>A flat tape that always wants to buy.\<close>
theorem backtest_stays_funded_witness:
  "\<exists>r. backtest sample_params (\<lambda>i. True) flat_tape flat_tape flat_tape = Inr r \<and> 0 \<le> rs_min_cash r \<and> 0 \<le> rs_final r \<and>
    0 \<le> rs_notional r \<and> rs_notional r \<le> 1 \<and> 0 \<le> rs_dd r \<and> rs_dd r \<le> 1 \<and> rs_wins r \<le> rs_trades r"
  by (rule backtest_stays_funded) simp_all

text \<open>
  C25. Losses are capped by the stop: at every bar there are at most three open lots, each with its stop below its entry
  and within four percent of the price it was bought at, and no trade closed so far lost more than that stop and the costs of
  slippage allow.
\<close>
theorem losses_capped_by_stops:
  assumes "params_ok p" "list_all (\<lambda>x. 0 < x) cs" "e \<le> length cs"
    "s = test_bars p want cs hs ls atrs start e"
  shows "length (te_lots s) \<le> 3 \<and>
    list_all (\<lambda>l. 0 < ol_qty l \<and> ol_stop l < ol_entry l \<and> (1 - 4 / 100) * (ol_entry l / (1 + tp_slip p)) \<le> ol_stop l) (te_lots s) \<and>
    list_all (\<lambda>x. (1 - 4 / 100) * (1 - tp_slip p) / (1 + tp_slip p) - 1 \<le> x) (te_pcts s)"
proof -
  have inv: "test_inv p s" unfolding assms(4) by (rule test_bars_ok [OF assms(1-3)])
  have "list_all (\<lambda>l. 0 < ol_qty l \<and> ol_stop l < ol_entry l \<and> (1 - 4 / 100) * (ol_entry l / (1 + tp_slip p)) \<le> ol_stop l) (te_lots s)"
    using test_invD(2) [OF inv] params_okD(4) [OF assms(1)]
    by (auto simp: list_all_iff lot_ok_def STOP_CAP_FRAC_def field_simps)
  then show ?thesis
    using test_invD(3,4) [OF inv] by (simp add: MAX_LOTS_PER_SYMBOL_def worst_return_def STOP_CAP_FRAC_def)
qed

text \<open>The lots of the flat tape after five scored bars.\<close>
theorem losses_capped_by_stops_witness:
  "length (te_lots (test_bars sample_params (\<lambda>i. True) flat_tape flat_tape flat_tape [] 22 27)) \<le> 3"
  using losses_capped_by_stops [OF sample_params_ok flat_tape_facts(1) _ refl, of 27 "\<lambda>i. True" flat_tape flat_tape "[]" 22]
  by simp

text \<open>
  The drawdown breaker holds: once a bar has halted trading no later bar takes a lot, so the lots open later are among
  those open then, and every trade counted later is one of them.
\<close>
lemma breaker_stops_entries:
  assumes "params_ok p" "list_all (\<lambda>x. 0 < x) cs" "start \<le> m" "m \<le> e" "e \<le> length cs"
    "rk_halted (te_risk (test_bars p want cs hs ls atrs start m))"
  shows "set (te_lots (test_bars p want cs hs ls atrs start e)) \<subseteq> set (te_lots (test_bars p want cs hs ls atrs start m)) \<and>
    te_trades (test_bars p want cs hs ls atrs start e) + length (te_lots (test_bars p want cs hs ls atrs start e)) =
      te_trades (test_bars p want cs hs ls atrs start m) + length (te_lots (test_bars p want cs hs ls atrs start m))"
  using test_bars_halted [OF assms] by blast

text \<open>A book that loses a sixth to slippage on its first entry is halted at the next bar.\<close>
lemma breaker_stops_entries_instance:
  "length (te_lots (test_bars heavy_params (\<lambda>i. True) flat_tape flat_tape flat_tape no_volatility 0 2)) = 1 \<and>
   set (te_lots (test_bars heavy_params (\<lambda>i. True) flat_tape flat_tape flat_tape no_volatility 0 4)) \<subseteq>
     set (te_lots (test_bars heavy_params (\<lambda>i. True) flat_tape flat_tape flat_tape no_volatility 0 2))"
  using breaker_stops_entries [of heavy_params flat_tape 0 2 4 "\<lambda>i. True" flat_tape flat_tape no_volatility] heavy_run
  by (simp add: params_ok_def heavy_params_def sample_params_def)

text \<open>
  The equity curve is complete: its first point is the start cash, its last the settled equity, and there is one more
  point for every started sampling period of the scored bars.
\<close>
lemma equity_curve_complete:
  assumes "params_ok p" "list_all (\<lambda>x. 0 < x) cs" "backtest p want cs hs ls = Inr r" "first_bar p < end_bar p (length cs)"
  shows "hd (rs_daily r) = tp_cash p \<and> last (rs_daily r) = rs_final r \<and>
    length (rs_daily r) = 1 + (end_bar p (length cs) - first_bar p + every_bars p - 1) div every_bars p"
proof -
  define e where "e = end_bar p (length cs)"
  have el: "e \<le> length cs" by (auto simp: e_def end_bar_def split: option.splits)
  let ?t = "test_bars p want cs hs ls (atr_series ATR_PERIOD hs ls cs) (first_bar p) e"
  have "samples_inv p (first_bar p) e (close_out p cs e ?t)"
    using samples_bars [OF assms(1,2) _ el, of "first_bar p" want hs ls] assms(4) by (simp add: samples_inv_def e_def)
  from last_point_daily [OF this] assms(4)
  have "hd (te_daily (last_point e (close_out p cs e ?t))) = tp_cash p \<and>
      last (te_daily (last_point e (close_out p cs e ?t))) = te_cash (close_out p cs e ?t) \<and>
      length (te_daily (last_point e (close_out p cs e ?t))) = 1 + (e - first_bar p + every_bars p - 1) div every_bars p"
    by (simp add: e_def)
  moreover have "r = result_of p (last_point e (close_out p cs e ?t))"
    using assms(3,4) by (auto simp: backtest_def Let_def e_def split: if_splits)
  ultimately show ?thesis by (simp add: result_of_def last_point_def e_def)
qed

text \<open>Eight scored bars of the flat tape, two bars to a period.\<close>
lemma equity_curve_complete_instance:
  "\<exists>r. backtest sample_params (\<lambda>i. True) flat_tape flat_tape flat_tape = Inr r \<and> hd (rs_daily r) = 10000 \<and> length (rs_daily r) = 5"
proof -
  have n: "first_bar sample_params = 22" "end_bar sample_params 30 = 30" "every_bars sample_params = 2"
    by (simp_all add: sample_params_def first_bar_def warmup_def end_bar_def every_bars_def)
  have "\<exists>r. backtest sample_params (\<lambda>i. True) flat_tape flat_tape flat_tape = Inr r" by (simp add: backtest_def Let_def n)
  then obtain r where r: "backtest sample_params (\<lambda>i. True) flat_tape flat_tape flat_tape = Inr r" ..
  show ?thesis using equity_curve_complete [OF sample_params_ok flat_tape_facts(1) r] r
    by (simp add: n) (simp add: sample_params_def)
qed

text \<open>
  The backtest has no lookahead: scored up to a bar, it gives the same result when the bars from there on are missing
  and the signal differs there.
\<close>
lemma window_reads_no_later_bar:
  assumes "length hs = length cs" "length ls = length cs" "e \<le> length cs" "list_all (\<lambda>i. want i = want' i) [0..<e]"
  shows "backtest (p\<lparr>tp_to := Some (int e)\<rparr>) want cs hs ls =
    backtest (p\<lparr>tp_to := Some (int e)\<rparr>) want' (take e cs) (take e hs) (take e ls)"
proof -
  let ?p = "p\<lparr>tp_to := Some (int e)\<rparr>"
  have e: "end_bar ?p (length cs) = e" "end_bar ?p e = e" using assms(3) by (simp_all add: end_bar_def)
  have "test_bars ?p want cs hs ls (atr_series ATR_PERIOD hs ls cs) (first_bar ?p) e =
      test_bars ?p want' (take e cs) (take e hs) (take e ls) (atr_series ATR_PERIOD (take e hs) (take e ls) (take e cs)) (first_bar ?p) e"
    using assms by (intro test_bars_take) (auto simp: list_all_iff)
  then show ?thesis using assms(1-3) e by (auto simp: backtest_def Let_def close_out_take min_def)
qed

text \<open>The first 25 bars of the flat tape, with a signal that differs after them.\<close>
lemma window_reads_no_later_bar_instance:
  "backtest (sample_params\<lparr>tp_to := Some (int 25)\<rparr>) (\<lambda>i. True) flat_tape flat_tape flat_tape =
     backtest (sample_params\<lparr>tp_to := Some (int 25)\<rparr>) (\<lambda>i. i < 25) (take 25 flat_tape) (take 25 flat_tape) (take 25 flat_tape)"
  by (rule window_reads_no_later_bar) (simp_all add: list_all_iff)

end
