(* ===== verification/Calibration.thy ===== *)
theory Calibration
  imports Broker
begin

text \<open>
  The probability calibration (\<open>calibration/__init__.py\<close>): a Beta posterior per signal condition, the blend with a
  proposed probability while a condition is young, the stored document, and the measured reliability.
  Counts are exact rationals; the standard deviation is a real number.
\<close>

section \<open>Posteriors\<close>

definition condition_key :: "string \<Rightarrow> string \<Rightarrow> string \<Rightarrow> string" where
  "condition_key symb timeframe cnd = symb @ ''|'' @ timeframe @ ''|'' @ cnd"

record bin_state =
  bs_alpha :: rat
  bs_beta :: rat

definition fresh_bin :: bin_state where "fresh_bin = \<lparr>bs_alpha = 1, bs_beta = 1\<rparr>"

definition bin_mean :: "bin_state \<Rightarrow> rat result" where
  "bin_mean b = (if bs_alpha b + bs_beta b = 0 then Inl ZeroDivisionError else Inr (bs_alpha b / (bs_alpha b + bs_beta b)))"

definition bin_variance :: "bin_state \<Rightarrow> rat" where
  "bin_variance b =
     (let t = bs_alpha b + bs_beta b in
      if t \<le> 2 then 1 / 4 else bs_alpha b * bs_beta b / (t ^ 2 * (t + 1)))"

definition bin_std :: "bin_state \<Rightarrow> real" where
  "bin_std b = sqrt (of_rat (bin_variance b))"

definition bin_trials :: "bin_state \<Rightarrow> int" where
  "bin_trials b = trunc (bs_alpha b + bs_beta b - 2)"

definition bin_record :: "bool \<Rightarrow> rat \<Rightarrow> bin_state \<Rightarrow> bin_state" where
  "bin_record success strength b =
     (if success then b\<lparr>bs_alpha := bs_alpha b + strength\<rparr> else b\<lparr>bs_beta := bs_beta b + strength\<rparr>)"

section \<open>The store\<close>

definition WARMUP_TRIALS :: int where "WARMUP_TRIALS = 20"

type_synonym bins = "bin_state dict"

text \<open>\<open>state\<close>: a condition asked for is there afterwards.\<close>

definition bin_of :: "string \<Rightarrow> bins \<Rightarrow> bins \<times> bin_state" where
  "bin_of key bs = (case dget bs key of Some b \<Rightarrow> (bs, b) | None \<Rightarrow> (dset key fresh_bin bs, fresh_bin))"

definition blended :: "bin_state \<Rightarrow> rat option \<Rightarrow> rat \<Rightarrow> rat result" where
  "blended b proposed min_weight =
     (case proposed of
        None \<Rightarrow> bin_mean b
      | Some q \<Rightarrow>
          if bin_trials b \<ge> WARMUP_TRIALS then bin_mean b
          else
            bind_result (bin_mean b) (\<lambda>m.
              let n = of_int (bin_trials b) in
              if n + min_weight = 0 then Inl ZeroDivisionError else Inr ((m * n + q * min_weight) / (n + min_weight))))"

definition calibrated_probability :: "string \<Rightarrow> rat option \<Rightarrow> rat \<Rightarrow> bins \<Rightarrow> bins \<times> (rat \<times> real) result" where
  "calibrated_probability key proposed min_weight bs =
     (let (bs, b) = bin_of key bs in (bs, bind_result (blended b proposed min_weight) (\<lambda>p. Inr (p, bin_std b))))"

definition record_outcome :: "string \<Rightarrow> bool \<Rightarrow> bins \<Rightarrow> bins" where
  "record_outcome key success bs = (let (bs, b) = bin_of key bs in dset key (bin_record success 1 b) bs)"

section \<open>The stored document\<close>

definition bin_json :: "bin_state \<Rightarrow> jv" where
  "bin_json b =
     JObj [(''alpha'', JFloat (Fin (round_to 3 (bs_alpha b)))), (''beta'', JFloat (Fin (round_to 3 (bs_beta b))))]"

definition bins_json :: "bins \<Rightarrow> jv" where
  "bins_json bs = JObj (map (\<lambda>(k, b). (k, bin_json b)) (sort_key fst bs))"

definition bin_of_json :: "jv \<Rightarrow> bin_state result" where
  "bin_of_json v =
     bind_result (number (item_or ''alpha'' (JFloat (Fin 1)) v)) (\<lambda>a.
     bind_result (number (item_or ''beta'' (JFloat (Fin 1)) v)) (\<lambda>b. Inr \<lparr>bs_alpha = a, bs_beta = b\<rparr>))"

text \<open>A file that is not there or does not parse is \<open>None\<close>; else it is an object of objects, as \<open>save\<close> writes it.\<close>

definition load_bins :: "jv option \<Rightarrow> bins result" where
  "load_bins file =
     (case file of
        None \<Rightarrow> Inr []
      | Some v \<Rightarrow> map_results (\<lambda>(k, x). bind_result (bin_of_json x) (\<lambda>b. Inr (k, b))) (as_dict v))"

section \<open>Measured reliability\<close>

record reliability =
  rl_lo :: rat
  rl_hi :: rat
  rl_n :: nat
  rl_prob :: rat
  rl_rate :: rat

definition brier :: "(rat \<times> bool) list \<Rightarrow> rat" where
  "brier rs = (\<Sum>(p, h) \<leftarrow> rs. (p - (if h then 1 else 0)) ^ 2) / of_nat (length rs)"

definition bucket :: "(rat \<times> bool) list \<Rightarrow> nat \<Rightarrow> reliability option" where
  "bucket rs i =
     (let lo = of_nat (10 * i) / 100; hi = of_nat (10 * i + 10) / 100;
          part = filter (\<lambda>(p, h). lo \<le> p \<and> p < hi) rs; n = length part
      in if part = [] then None
         else Some \<lparr>rl_lo = lo, rl_hi = hi, rl_n = n, rl_prob = round_to 3 ((\<Sum>(p, h) \<leftarrow> part. p) / of_nat n),
                rl_rate = round_to 3 (of_nat (length (filter snd part)) / of_nat n)\<rparr>)"

definition compute_calibration :: "(rat \<times> bool) list \<Rightarrow> rat \<times> nat \<times> reliability list" where
  "compute_calibration rs =
     (if rs = [] then (0, 0, []) else (brier rs, length rs, List.map_filter (bucket rs) [0..<10]))"

section \<open>Facts\<close>

text \<open>The posterior of a stream of outcomes counts it.\<close>

definition outcomes_of :: "string \<Rightarrow> (string \<times> bool) list \<Rightarrow> bool list" where
  "outcomes_of key xs = map snd (filter (\<lambda>x. fst x = key) xs)"

lemma dget_bin_of: "dget (fst (bin_of key bs)) k = (if k = key then Some (snd (bin_of key bs)) else dget bs k)"
  by (auto simp: bin_of_def split: option.splits)

lemma dget_record:
  "dget (record_outcome key ok bs) k = (if k = key then Some (bin_record ok 1 (snd (bin_of key bs))) else dget bs k)"
  using dget_bin_of [of key bs k] by (auto simp: record_outcome_def split_beta)

lemma bin_after_outcomes:
  "snd (bin_of key (fold (\<lambda>(k, ok). record_outcome k ok) xs bs)) =
     \<lparr>bs_alpha = bs_alpha (snd (bin_of key bs)) + of_nat (length (filter id (outcomes_of key xs))),
      bs_beta = bs_beta (snd (bin_of key bs)) + of_nat (length (filter Not (outcomes_of key xs)))\<rparr>"
proof (induction xs arbitrary: bs)
  case (Cons x xs)
  obtain k ok where x: "x = (k, ok)" by (cases x)
  have "snd (bin_of key (record_outcome k ok bs)) =
      (if key = k then bin_record ok 1 (snd (bin_of k bs)) else snd (bin_of key bs))"
    by (auto simp: bin_of_def [of key "record_outcome k ok bs"] dget_record) (auto simp: bin_of_def split: option.splits)
  then show ?case using Cons.IH [of "record_outcome k ok bs"] x by (auto simp: outcomes_of_def bin_record_def)
qed (simp add: outcomes_of_def)

end
