(* ===== verification/Loop.thy ===== *)
theory Loop
  imports Gate Live Risk Structure Calibration
begin

text \<open>
  The trading loop of the five-minute champions (\<open>trading/loop.py\<close>, the account of \<open>trading/run_isolated.py\<close>, the
  position check of \<open>trading/heartbeat.py\<close>, the live signal of \<open>signals/momentum.py\<close>). The market is an argument:
  prices, klines and the gate of the market regime. A step returns the state it reached also when it raises, since what it
  wrote to the store stays there.
\<close>

section \<open>The live signal\<close>

definition momentum :: "rat list \<Rightarrow> nat \<Rightarrow> rat" where
  "momentum xs lookback =
     (if length xs \<le> lookback then 0
      else let prev = xs ! (length xs - 1 - lookback) in if prev = 0 then 0 else last xs / prev - 1)"

definition rsi_simple :: "rat list \<Rightarrow> nat \<Rightarrow> rat" where
  "rsi_simple xs period =
     (if length xs < period + 1 then 50
      else
        let ch = map (\<lambda>i. xs ! i - xs ! (i - 1)) [length xs - period..<length xs];
            gains = sum_list (filter (\<lambda>d. d \<ge> 0) ch); losses = sum_list (map uminus (filter (\<lambda>d. \<not> d \<ge> 0) ch))
        in if losses = 0 then 100
           else let rs = (gains / of_nat period) / (losses / of_nat period) in 100 - 100 / (1 + rs))"

definition ema_last :: "rat list \<Rightarrow> nat \<Rightarrow> rat" where
  "ema_last xs period =
     (case xs of [] \<Rightarrow> 0 | x # ys \<Rightarrow> let k = 2 / (of_nat period + 1) in fold (\<lambda>v e. v * k + e * (1 - k)) ys x)"

record features =
  ft_mom_4h :: rat
  ft_mom_1d :: rat
  ft_rsi :: rat
  ft_ema_20 :: rat
  ft_price :: rat

record live_signal =
  sg_condition :: string
  sg_features :: features
  sg_direction :: string
  sg_score :: rat

definition compute_signal :: "candle list \<Rightarrow> string \<Rightarrow> ohlc_atom \<Rightarrow> live_signal result" where
  "compute_signal ks strategy pred =
     (let cs = map cd_close ks in
      if length cs < 2 then Inl (ValueError ''need >=2 bars'')
      else
        bind_result (pred cs (Some (map cd_high ks)) (Some (map cd_low ks)) (Some (length cs - 1))) (\<lambda>long.
          Inr \<lparr>sg_condition = strategy @ (if long then ''_long'' else ''_flat''),
               sg_features = \<lparr>ft_mom_4h = momentum cs 4, ft_mom_1d = momentum cs 24, ft_rsi = rsi_simple cs 14,
                 ft_ema_20 = ema_last cs 20, ft_price = last cs\<rparr>,
               sg_direction = (if long then ''long'' else ''flat''),
               sg_score = (if long then 1 / 2 else - 1 / 2)\<rparr>))"

section \<open>State and market\<close>

record cycle_result =
  cy_symbol :: string
  cy_condition :: string
  cy_prob :: rat
  cy_direction :: string
  cy_action :: string
  cy_reason :: string
  cy_equity :: rat
  cy_size :: rat
  cy_entry :: rat

record loop_state =
  lp_broker :: broker
  lp_risk :: risk_manager
  lp_bins :: bins
  lp_ledger :: ledger
  lp_history :: "cycle_result list"

record loop_config =
  lc_strategy :: string
  lc_pred :: ohlc_atom
  lc_timeframe :: string

text \<open>
  One cycle sees the prices before and after its decisions and the klines of a symbol; the regime, when there is a
  gate, is whether it allows longs and its zone.
\<close>

record market =
  mk_prices :: prices
  mk_later :: prices
  mk_klines :: "string \<Rightarrow> candle list result"
  mk_regime :: "(bool \<times> string) option"

text \<open>\<open>str(exc)\<close>\<close>

fun error_text :: "error \<Rightarrow> string" where
  "error_text (ValueError s) = s"
| "error_text (RuntimeError s) = s"
| "error_text (KeyError s) = s"
| "error_text (TypeError s) = s"
| "error_text (IndexError s) = s"
| "error_text ZeroDivisionError = ''division by zero''"

definition price_now :: "prices \<Rightarrow> string \<Rightarrow> rat option" where
  "price_now px s = (case dget px s of None \<Rightarrow> None | Some x \<Rightarrow> x)"

section \<open>Open positions\<close>

definition exit_success :: "bool \<Rightarrow> rat \<Rightarrow> rat \<Rightarrow> bool" where
  "exit_success tp exit_px entry \<longleftrightarrow> (if tp then exit_px > entry else \<not> exit_px \<le> entry)"

definition close_store_lot :: "lot \<Rightarrow> fill \<Rightarrow> string \<Rightarrow> int \<Rightarrow> ledger \<Rightarrow> ledger" where
  "close_store_lot p fl reason now ld =
     book_close p
       \<lparr>cl_ts = now, cl_price = fl_price fl, cl_reason = reason, cl_fee = fl_fee fl, cl_pnl = lot_pnl p fl,
        cl_pct = (if lt_entry p \<noteq> 0 then (fl_price fl - lt_entry p) / lt_entry p else 0),
        cl_hit = exit_success (reason = ''take_profit'') (fl_price fl) (lt_entry p)\<rparr> ld"

definition lot_outcome :: "lot \<Rightarrow> fill \<Rightarrow> bool \<Rightarrow> bins \<Rightarrow> bins" where
  "lot_outcome p fl tp bs =
     record_outcome (if lt_cond p \<noteq> [] then lt_cond p else condition_key (lt_ticker p) ''closed'' ''any'')
       (exit_success tp (fl_price fl) (lt_entry p)) bs"

text \<open>Selling one lot at a price, with its outcome, its row and its line of the history\<close>

definition close_position :: "prices \<Rightarrow> int \<Rightarrow> bool \<Rightarrow> rat \<Rightarrow> lot \<Rightarrow> loop_state \<Rightarrow> loop_state \<times> unit result" where
  "close_position px now tp cur p st =
     (case close_lot p cur (lp_broker st) of
        Inl e \<Rightarrow> (st, Inl e)
      | Inr (b, fl) \<Rightarrow>
          let st = st\<lparr>lp_broker := b, lp_bins := lot_outcome p fl tp (lp_bins st),
                      lp_ledger := close_store_lot p fl (if tp then ''take_profit'' else ''stop_loss'') now (lp_ledger st)\<rparr>
          in case broker_equity px b of
               Inl e \<Rightarrow> (st, Inl e)
             | Inr eq \<Rightarrow>
                 (st\<lparr>lp_history := lp_history st @
                    [\<lparr>cy_symbol = lt_ticker p, cy_condition = ''closed'', cy_prob = 0, cy_direction = ''flat'',
                      cy_action = (if tp then ''CLOSE_TP'' else ''CLOSE_STOP''),
                      cy_reason = (if tp then ''tp at '' @ fmt_fixed 2 (Fin cur) else ''stop at '' @ fmt_whole cur),
                      cy_equity = eq, cy_size = 0, cy_entry = 0\<rparr>]\<rparr>, Inr ()))"

definition manage_lot :: "prices \<Rightarrow> int \<Rightarrow> lot \<Rightarrow> loop_state \<Rightarrow> loop_state \<times> unit result" where
  "manage_lot px now p st =
     (case price_now px (lt_ticker p) of
        None \<Rightarrow> (st, Inr ())
      | Some cur \<Rightarrow>
          if cur \<le> lt_stop p then close_position px now False cur p st
          else if cur \<ge> take_profit_price (lt_entry p) (lt_stop p) TAKE_PROFIT_RR then close_position px now True cur p st
          else (st, Inr ()))"

fun manage_lots :: "prices \<Rightarrow> int \<Rightarrow> lot list \<Rightarrow> loop_state \<Rightarrow> loop_state \<times> unit result" where
  "manage_lots px now [] st = (st, Inr ())"
| "manage_lots px now (p # ps) st =
     (case manage_lot px now p st of (st, Inl e) \<Rightarrow> (st, Inl e) | (st, Inr _) \<Rightarrow> manage_lots px now ps st)"

definition manage_open_positions :: "prices \<Rightarrow> int \<Rightarrow> loop_state \<Rightarrow> loop_state \<times> unit result" where
  "manage_open_positions px now st = manage_lots px now (br_lots (lp_broker st)) st"

section \<open>Entries\<close>

definition propose_probability :: "live_signal \<Rightarrow> rat" where
  "propose_probability sg =
     (let base = 55 / 100 + 15 / 100 * \<bar>sg_score sg\<bar>; r = ft_rsi (sg_features sg);
          base = (if r \<ge> 70 then base + 3 / 100 else if r \<le> 30 then base + 3 / 100 else base)
      in round_to 3 (max (1 / 2) (min (8 / 10) base)))"

definition lot_position :: "lot \<Rightarrow> position" where
  "lot_position p = (lt_entry p, lt_stop p, lt_qty p)"

text \<open>The answer for a symbol that is not bought\<close>

definition answered :: "string \<Rightarrow> live_signal \<Rightarrow> rat \<Rightarrow> rat \<Rightarrow> string \<Rightarrow> string \<Rightarrow> cycle_result" where
  "answered symb sg prob eq action reason =
     \<lparr>cy_symbol = symb, cy_condition = sg_condition sg, cy_prob = prob, cy_direction = sg_direction sg, cy_action = action,
      cy_reason = reason, cy_equity = eq, cy_size = 0, cy_entry = 0\<rparr>"

definition entry_cost_mult :: "broker \<Rightarrow> rat" where
  "entry_cost_mult b = (1 + br_slip b) * (1 + br_fee b)"

definition sized :: "rat \<Rightarrow> rat \<Rightarrow> rat \<Rightarrow> rat \<Rightarrow> loop_state \<Rightarrow> risk_decision" where
  "sized eq entry stop prob st =
     size_position eq entry stop (map lot_position (br_lots (lp_broker st))) (confidence_multiplier prob CONFIDENCE_REF_PROB)
       (Some (br_cash (lp_broker st))) (entry_cost_mult (lp_broker st)) (lp_risk st)"

definition volatility :: "candle list \<Rightarrow> rat option" where
  "volatility ks =
     atr_at ATR_PERIOD (map cd_high ks) (map cd_low ks) (map cd_close ks) (length ks - 1)"

definition enter ::
    "loop_config \<Rightarrow> prices \<Rightarrow> int \<Rightarrow> string \<Rightarrow> live_signal \<Rightarrow> rat \<Rightarrow> rat \<Rightarrow> rat \<Rightarrow> rat \<Rightarrow> loop_state \<Rightarrow> loop_state \<times> cycle_result result" where
  "enter cfg px now symb sg prob entry stop sz st =
     (let key = condition_key symb (lc_timeframe cfg) (sg_condition sg) in
      case place_order \<lparr>or_ticker = symb, or_side = Buy, or_qty = sz, or_price = entry, or_stop = Some stop, or_cond = key\<rparr>
             (Some entry) (lp_broker st) of
        Inl e \<Rightarrow> (st, Inl e)
      | Inr (b, fl) \<Rightarrow>
          let st = st\<lparr>lp_broker := b\<rparr> in
          case broker_equity px b of
            Inl e \<Rightarrow> (st, Inl e)
          | Inr eq \<Rightarrow>
              (st\<lparr>lp_ledger := ledger_open symb (lc_timeframe cfg) (sg_condition sg) prob entry sz (fl_fee fl)
                    (if br_lots b = [] then None else Some (lt_id (last (br_lots b)))) now (lp_ledger st)\<rparr>,
               Inr ((answered symb sg prob eq ''ENTER''
                       (''size '' @ fmt_fixed 4 (Fin sz) @ '' stop '' @ fmt_whole stop))\<lparr>cy_size := sz, cy_entry := entry\<rparr>)))"

text \<open>The gates of one symbol in the order of the loop; the answer of the first that refuses\<close>

definition refusal ::
    "market \<Rightarrow> string \<Rightarrow> live_signal \<Rightarrow> rat \<Rightarrow> rat \<Rightarrow> rat option \<Rightarrow> rat \<Rightarrow> loop_state \<Rightarrow> cycle_result option" where
  "refusal mk symb sg prob eq entry stop st =
     (let say = answered symb sg prob eq; own = lots_for symb (lp_broker st) in
      if rk_halted (lp_risk st)
      then Some (say ''REJECTED'' (''halted: '' @ (case rk_reason (lp_risk st) of None \<Rightarrow> ''None'' | Some r \<Rightarrow> r)))
      else if sg_direction sg \<noteq> ''long'' then Some (say ''HOLD'' (''no entry: direction='' @ sg_direction sg))
      else if (case mk_regime mk of None \<Rightarrow> False | Some (ok, z) \<Rightarrow> \<not> ok)
      then Some (say ''REJECTED'' (''regime '' @ (case mk_regime mk of Some (ok, z) \<Rightarrow> if z = [] then ''?'' else z | None \<Rightarrow> ''?'') @
             '' blocks new longs (strict gate)''))
      else if entry = None then Some (say ''REJECTED'' ''no price'')
      else if MAX_LOTS_PER_SYMBOL \<le> length own
      then Some (say ''REJECTED'' (''max lots reached ('' @ show_nat MAX_LOTS_PER_SYMBOL @ '' lots open for '' @ symb @ '')''))
      else if list_ex (\<lambda>p. (the entry - lt_entry p) * lt_qty p \<le> 0) own
      then Some (say ''HOLD'' (''pyramid hold: prior '' @ symb @ '' lots not in profit yet''))
      else
        let rd = sized eq (the entry) stop prob st in
        if \<not> rd_approved rd then Some (say ''REJECTED'' (rd_reason rd)) else None)"

definition data_error :: "string \<Rightarrow> error \<Rightarrow> cycle_result" where
  "data_error symb e =
     \<lparr>cy_symbol = symb, cy_condition = ''ERR'', cy_prob = 0, cy_direction = ''flat'', cy_action = ''REJECTED'',
      cy_reason = ''data error: '' @ error_text e, cy_equity = 0, cy_size = 0, cy_entry = 0\<rparr>"

definition cycle_symbol :: "loop_config \<Rightarrow> market \<Rightarrow> int \<Rightarrow> string \<Rightarrow> loop_state \<Rightarrow> loop_state \<times> cycle_result result" where
  "cycle_symbol cfg mk now symb st =
     (case bind_result (mk_klines mk symb) (\<lambda>ks. bind_result (compute_signal ks (lc_strategy cfg) (lc_pred cfg)) (\<lambda>sg. Inr (ks, sg))) of
        Inl e \<Rightarrow> (st, Inr (data_error symb e))
      | Inr (ks, sg) \<Rightarrow>
          let key = condition_key symb (lc_timeframe cfg) (sg_condition sg);
              (bs, q) = calibrated_probability key (Some (propose_probability sg)) 1 (lp_bins st);
              st = st\<lparr>lp_bins := bs\<rparr>
          in case bind_result q (\<lambda>(p, _). bind_result (broker_equity (mk_prices mk) (lp_broker st)) (\<lambda>eq. Inr (p, eq))) of
               Inl e \<Rightarrow> (st, Inl e)
             | Inr (prob, eq) \<Rightarrow>
                 let entry = price_now (mk_prices mk) symb; stop = (case entry of None \<Rightarrow> 0 | Some x \<Rightarrow> atr_stop_price x (volatility ks))
                 in case refusal mk symb sg prob eq entry stop st of
                      Some r \<Rightarrow> (st, Inr r)
                    | None \<Rightarrow>
                        enter cfg (mk_prices mk) now symb sg prob (the entry) stop (rd_size (sized eq (the entry) stop prob st)) st)"

fun cycle_symbols ::
    "loop_config \<Rightarrow> market \<Rightarrow> int \<Rightarrow> string list \<Rightarrow> loop_state \<Rightarrow> loop_state \<times> cycle_result list result" where
  "cycle_symbols cfg mk now [] st = (st, Inr [])"
| "cycle_symbols cfg mk now (s # ss) st =
     (case cycle_symbol cfg mk now s st of
        (st, Inl e) \<Rightarrow> (st, Inl e)
      | (st, Inr r) \<Rightarrow>
          (case cycle_symbols cfg mk now ss st of (st, Inl e) \<Rightarrow> (st, Inl e) | (st, Inr rs) \<Rightarrow> (st, Inr (r # rs))))"

section \<open>A cycle\<close>

definition cycle_row :: "cycle_result \<Rightarrow> decision_row" where
  "cycle_row r =
     \<lparr>dr_symbol = cy_symbol r, dr_cond = cy_condition r, dr_direction = cy_direction r, dr_action = cy_action r,
      dr_reason = cy_reason r, dr_equity = cy_equity r, dr_size = cy_size r, dr_entry = cy_entry r\<rparr>"

definition close_cycle :: "market \<Rightarrow> cycle_result list \<Rightarrow> loop_state \<Rightarrow> loop_state \<times> unit result" where
  "close_cycle mk rs st =
     (let ld = fold (\<lambda>r. record_decision (cycle_row r)) rs (lp_ledger st); st = st\<lparr>lp_ledger := ld\<rparr> in
      case broker_equity (mk_later mk) (lp_broker st) of
        Inl e \<Rightarrow> (st, Inl e)
      | Inr eq \<Rightarrow>
          let (ld, baseline) = overlay_equity (mk_later mk) PAPER_START_CASH ld
          in (st\<lparr>lp_ledger := snapshot_equity eq baseline ld, lp_history := lp_history st @ rs\<rparr>, Inr ()))"

text \<open>The last component is the calibration document when it was saved.\<close>

definition run_cycle :: "loop_config \<Rightarrow> market \<Rightarrow> int \<Rightarrow> string list \<Rightarrow> loop_state \<Rightarrow> loop_state \<times> (cycle_result list \<times> jv) result" where
  "run_cycle cfg mk now syms st =
     (case manage_open_positions (mk_prices mk) now st of
        (st, Inl e) \<Rightarrow> (st, Inl e)
      | (st, Inr _) \<Rightarrow>
          (case cycle_symbols cfg mk now syms st of
             (st, Inl e) \<Rightarrow> (st, Inl e)
           | (st, Inr rs) \<Rightarrow>
               (case close_cycle mk rs st of
                  (st, Inl e) \<Rightarrow> (st, Inl e)
                | (st, Inr _) \<Rightarrow> (st, Inr (rs, bins_json (lp_bins st))))))"

section \<open>The account on disk\<close>

record account =
  ac_saved :: jv
  ac_ledger :: ledger
  ac_bins :: "jv option"

definition account_start :: account where
  "account_start = \<lparr>ac_saved = JNull, ac_ledger = ledger_start, ac_bins = None\<rparr>"

definition broker_of_account :: "string option \<Rightarrow> int \<Rightarrow> account \<Rightarrow> broker result" where
  "broker_of_account env next ac =
     bind_result (paper_broker env PAPER_START_CASH TAKER_FEE SLIPPAGE next) (\<lambda>b.
       if truthy (ac_saved ac) then restore_state (item_or ''broker'' (JObj []) (ac_saved ac)) b else Inr b)"

definition peak_of_account :: "account \<Rightarrow> rat result" where
  "peak_of_account ac =
     (if truthy (ac_saved ac)
      then bind_result (number (item_or ''risk_peak'' (JFloat (Fin PAPER_START_CASH)) (ac_saved ac))) (\<lambda>x. Inr (max x PAPER_START_CASH))
      else Inr PAPER_START_CASH)"

definition loop_of_account :: "string option \<Rightarrow> int \<Rightarrow> account \<Rightarrow> loop_state result" where
  "loop_of_account env next ac =
     bind_result (load_bins (ac_bins ac)) (\<lambda>bs.
     bind_result (broker_of_account env next ac) (\<lambda>b.
     bind_result (peak_of_account ac) (\<lambda>pk.
       Inr \<lparr>lp_broker = b, lp_risk = new_risk_manager RISK_FRAC pk, lp_bins = bs, lp_ledger = ac_ledger ac, lp_history = []\<rparr>)))"

definition account_json :: "broker \<Rightarrow> rat \<Rightarrow> jv \<Rightarrow> jv" where
  "account_json b peak stamp =
     JObj [(''broker'', to_state b), (''risk_peak'', JFloat (Fin peak)), (''saved_at'', stamp)]"

text \<open>
  \<open>_run_one_account\<close>: the account as it is on disk afterwards, and the error when the run raised. The rows written
  before an error stay; the account state and the calibration are only written at the end.
\<close>

definition run_one_account ::
    "loop_config \<Rightarrow> market \<Rightarrow> int \<Rightarrow> jv \<Rightarrow> string option \<Rightarrow> int \<Rightarrow> account \<Rightarrow> account \<times> unit result" where
  "run_one_account cfg mk now stamp env next ac =
     (case loop_of_account env next ac of
        Inl e \<Rightarrow> (ac, Inl e)
      | Inr st \<Rightarrow>
          (case run_cycle cfg mk now TRADE_SYMBOLS st of
             (st, Inl e) \<Rightarrow> (ac\<lparr>ac_ledger := lp_ledger st\<rparr>, Inl e)
           | (st, Inr (rs, doc)) \<Rightarrow>
               (ac\<lparr>ac_ledger := lp_ledger st, ac_bins := Some doc,
                   ac_saved := account_json (lp_broker st) (rk_peak (lp_risk st)) stamp\<rparr>, Inr ())))"

text \<open>\<open>heartbeat_once\<close> for one account: an error is swallowed, the risk manager starts from the start cash.\<close>

definition heartbeat_account :: "prices \<Rightarrow> int \<Rightarrow> jv \<Rightarrow> string option \<Rightarrow> int \<Rightarrow> account \<Rightarrow> account \<times> nat" where
  "heartbeat_account px now stamp env next ac =
     (case bind_result (load_bins (ac_bins ac)) (\<lambda>bs. bind_result (broker_of_account env next ac) (\<lambda>b. Inr (bs, b))) of
        Inl e \<Rightarrow> (ac, 0)
      | Inr (bs, b) \<Rightarrow>
          if br_lots b = [] then (ac, 0)
          else
            (case manage_open_positions px now
                \<lparr>lp_broker = b, lp_risk = new_risk_manager RISK_FRAC PAPER_START_CASH, lp_bins = bs, lp_ledger = ac_ledger ac,
                 lp_history = []\<rparr> of
               (st, Inl e) \<Rightarrow> (ac\<lparr>ac_ledger := lp_ledger st\<rparr>, 0)
             | (st, Inr _) \<Rightarrow>
                 if length (br_lots (lp_broker st)) < length (br_lots b)
                 then (ac\<lparr>ac_ledger := lp_ledger st,
                          ac_saved := account_json (lp_broker st) (rk_peak (lp_risk st)) stamp\<rparr>,
                       length (br_lots b) - length (br_lots (lp_broker st)))
                 else (ac\<lparr>ac_ledger := lp_ledger st\<rparr>, 0)))"

end
