(* ===== verification/LoopFacts.thy ===== *)
theory LoopFacts
  imports Loop
begin

text \<open>
  What a cycle and a heartbeat keep of an account: the cash, the lots and the risk manager, also when they raise; and
  the accounts that any sequence of cycles and heartbeats reaches.
\<close>

section \<open>The book of an account\<close>

definition lot_fine :: "lot \<Rightarrow> bool" where
  "lot_fine p \<longleftrightarrow> 0 < lt_qty p \<and> 0 < lt_stop p \<and> lt_stop p < lt_entry p"

definition lots_fine :: "lot list \<Rightarrow> bool" where
  "lots_fine ps \<longleftrightarrow> list_all lot_fine ps \<and> (\<forall>tk. length (filter (\<lambda>p. lt_ticker p = tk) ps) \<le> MAX_LOTS_PER_SYMBOL)"

definition book_ok :: "broker \<Rightarrow> bool" where
  "book_ok b \<longleftrightarrow> 0 \<le> br_cash b \<and> br_fee b = TAKER_FEE \<and> br_slip b = SLIPPAGE \<and> lots_fine (br_lots b)"

definition quotes_ok :: "prices \<Rightarrow> bool" where
  "quotes_ok px \<longleftrightarrow> list_all (\<lambda>(s, x). case x of None \<Rightarrow> True | Some v \<Rightarrow> 0 < v) px"

lemma quotes_okD: "quotes_ok px \<Longrightarrow> price_now px s = Some x \<Longrightarrow> 0 < x"
  by (auto simp: quotes_ok_def price_now_def list_all_iff split: option.splits dest!: dget_in_set)

lemma reduce_first_filter:
  "length (filter (\<lambda>p. lt_ticker p = t) (reduce_first tk q ps)) \<le> length (filter (\<lambda>p. lt_ticker p = t) ps)"
  by (induction ps) (auto simp: Let_def)

lemma reduce_first_fine: "list_all lot_fine ps \<Longrightarrow> list_all lot_fine (reduce_first tk q ps)"
  by (induction ps) (auto simp: Let_def lot_fine_def DUST_def)

lemma reduce_first_lots_fine: "lots_fine ps \<Longrightarrow> lots_fine (reduce_first tk q ps)"
  using reduce_first_filter reduce_first_fine order.trans unfolding lots_fine_def by blast

lemma costs_values [simp]: "0 \<le> TAKER_FEE" "TAKER_FEE \<le> 1" "0 \<le> SLIPPAGE" "SLIPPAGE \<le> 1"
  by (simp_all add: TAKER_FEE_def SLIPPAGE_def)

lemma close_lot_ok:
  assumes "close_lot p px b = Inr (b', fl)" "book_ok b" "0 \<le> px" "0 < lt_qty p"
  shows "book_ok b'"
proof -
  define n where "n = lt_qty p * (px * (1 - SLIPPAGE))"
  have n: "0 \<le> n" unfolding n_def using assms(3,4) by (intro mult_nonneg_nonneg) auto
  have "n * TAKER_FEE \<le> n" using n mult_left_mono [of TAKER_FEE 1 n] by simp
  moreover have "b' = b\<lparr>br_cash := br_cash b + (n - n * TAKER_FEE), br_lots := reduce_first (lt_ticker p) (lt_qty p) (br_lots b),
      br_fills := br_fills b @ [fl]\<rparr>"
    using assms(1,2) by (auto simp: close_lot_eq Let_def book_ok_def n_def split: list.splits if_splits)
  ultimately show ?thesis using assms(2) reduce_first_lots_fine by (simp add: book_ok_def)
qed

section \<open>The state of a loop\<close>

definition loop_inv :: "loop_state \<Rightarrow> bool" where
  "loop_inv st \<longleftrightarrow> book_ok (lp_broker st) \<and> lp_risk st = new_risk_manager RISK_FRAC PAPER_START_CASH"

lemma close_position_inv:
  assumes "close_position px now tp cur p st = (st', r)" "loop_inv st" "0 \<le> cur" "0 < lt_qty p"
  shows "loop_inv st'"
  using assms close_lot_ok [of p cur "lp_broker st"]
  by (auto simp: close_position_def loop_inv_def Let_def split: sum.splits prod.splits)

lemma manage_lot_inv:
  assumes "manage_lot px now p st = (st', r)" "loop_inv st" "quotes_ok px" "0 < lt_qty p"
  shows "loop_inv st'"
proof (cases "price_now px (lt_ticker p)")
  case None
  then show ?thesis using assms(1,2) by (simp add: manage_lot_def)
next
  case (Some cur)
  have "0 \<le> cur" using quotes_okD [OF assms(3) Some] by simp
  with Some assms show ?thesis by (auto simp: manage_lot_def split: if_splits intro: close_position_inv)
qed

lemma manage_lots_inv:
  assumes "manage_lots px now ps st = (st', r)" "loop_inv st" "quotes_ok px" "list_all (\<lambda>p. 0 < lt_qty p) ps"
  shows "loop_inv st'"
  using assms
proof (induction px now ps st rule: manage_lots.induct)
  case (2 px now p ps st)
  obtain st1 r1 where m: "manage_lot px now p st = (st1, r1)" by fastforce
  have inv: "loop_inv st1" using manage_lot_inv [OF m] 2 by simp
  show ?case
  proof (cases r1)
    case (Inl e)
    then show ?thesis using "2.prems"(1) inv m by simp
  next
    case (Inr u)
    then show ?thesis using "2.IH" [OF m [symmetric] Inr] "2.prems" inv m by simp
  qed
qed simp

lemma manage_inv:
  assumes "manage_open_positions px now st = (st', r)" "loop_inv st" "quotes_ok px"
  shows "loop_inv st'"
proof -
  have "list_all (\<lambda>p. 0 < lt_qty p) (br_lots (lp_broker st))"
    using assms(2) by (auto simp: loop_inv_def book_ok_def lots_fine_def lot_fine_def list_all_iff)
  then show ?thesis using manage_lots_inv assms by (simp add: manage_open_positions_def)
qed

lemma sized_approved:
  assumes "loop_inv st" "rd_approved (sized eq entry stop prob st)" "0 < eq"
  defines "z \<equiv> rd_size (sized eq entry stop prob st)"
  shows "0 < z" "0 < stop" "stop < entry" "z * (entry * entry_cost_mult (lp_broker st)) \<le> br_cash (lp_broker st)"
proof -
  note d = size_position_approved [OF assms(2) [unfolded sized_def], folded sized_def]
  have "entry_cost_mult (lp_broker st) = (1 + SLIPPAGE) * (1 + TAKER_FEE)"
    using assms(1) by (simp add: entry_cost_mult_def loop_inv_def book_ok_def)
  then have "1 \<le> entry_cost_mult (lp_broker st)" by (simp add: TAKER_FEE_def SLIPPAGE_def)
  then show "z * (entry * entry_cost_mult (lp_broker st)) \<le> br_cash (lp_broker st)" using d(7) by (simp add: z_def max_def)
  show "0 < z" using d(9) assms(1,3) by (simp add: z_def loop_inv_def new_risk_manager_def RISK_FRAC_def)
  show "0 < stop" "stop < entry" using d by auto
qed

lemma enter_inv:
  assumes "enter cfg px now symb sg prob entry stop z st = (st', r)" "loop_inv st" "0 < entry"
    "length (lots_for symb (lp_broker st)) < MAX_LOTS_PER_SYMBOL" "0 < z" "0 < stop" "stop < entry"
    "z * (entry * entry_cost_mult (lp_broker st)) \<le> br_cash (lp_broker st)"
  shows "loop_inv st'"
proof -
  let ?b = "lp_broker st"
  define px1 where "px1 = entry * (1 + SLIPPAGE)"
  define key where "key = condition_key symb (lc_timeframe cfg) (sg_condition sg)"
  define l where "l = \<lparr>lt_id = br_next ?b, lt_ticker = symb, lt_qty = z, lt_entry = px1, lt_stop = stop,
    lt_fee = z * px1 * TAKER_FEE, lt_cond = key\<rparr>"
  define fl where "fl = \<lparr>fl_ticker = symb, fl_side = Buy, fl_qty = z, fl_price = px1, fl_fee = z * px1 * TAKER_FEE\<rparr>"
  define b' where "b' = ?b\<lparr>br_lots := br_lots ?b @ [l], br_next := br_next ?b + 1,
    br_cash := br_cash ?b - (z * px1 + z * px1 * TAKER_FEE), br_fills := br_fills ?b @ [fl]\<rparr>"
  have bk: "br_fee ?b = TAKER_FEE" "br_slip ?b = SLIPPAGE" and fine: "lots_fine (br_lots ?b)" and cash: "0 \<le> br_cash ?b"
    using assms(2) by (auto simp: loop_inv_def book_ok_def)
  have po: "place_order \<lparr>or_ticker = symb, or_side = Buy, or_qty = z, or_price = entry, or_stop = Some stop, or_cond = key\<rparr>
      (Some entry) ?b = Inr (b', fl)"
    by (simp add: place_order_def fill_price_def Let_def b'_def l_def fl_def px1_def bk)
  have "z * px1 + z * px1 * TAKER_FEE = z * (entry * entry_cost_mult ?b)"
    by (simp add: px1_def entry_cost_mult_def bk algebra_simps)
  then have c: "0 \<le> br_cash b'" using assms(8) by (simp add: b'_def)
  have "entry \<le> px1" using assms(3) by (simp add: px1_def)
  then have "lot_fine l" using assms(5-7) by (simp add: lot_fine_def l_def)
  moreover have "length (filter (\<lambda>p. lt_ticker p = tk) (br_lots ?b @ [l])) \<le> MAX_LOTS_PER_SYMBOL" for tk
    using fine assms(4) by (auto simp: lots_fine_def lots_for_def l_def)
  ultimately have "book_ok b'" using fine c bk by (simp add: book_ok_def lots_fine_def b'_def)
  then show ?thesis using assms(1,2) po by (auto simp: enter_def Let_def loop_inv_def key_def split: sum.splits)
qed

lemma lot_value_pos:
  assumes "lot_value px p = Inr v" "lot_fine p" "quotes_ok px"
  shows "0 < v"
  using assms quotes_okD [OF assms(3), of "lt_ticker p"]
  by (auto simp: lot_value_def lot_fine_def price_now_def split: option.splits)

lemma equity_above_cash:
  assumes "broker_equity px b = Inr eq" "lots_fine (br_lots b)" "quotes_ok px"
  shows "br_cash b \<le> eq"
proof (cases "map_results (lot_value px) (br_lots b)")
  case (Inl e)
  then show ?thesis using assms(1) by (simp add: broker_equity_def)
next
  case (Inr vs)
  have "list_all2 (\<lambda>p v. lot_value px p = Inr v) (br_lots b) vs" using Inr by (simp add: map_results_Inr)
  moreover have "list_all lot_fine (br_lots b)" using assms(2) by (simp add: lots_fine_def)
  ultimately have "0 \<le> sum_list vs"
  proof (induction rule: list_all2_induct)
    case (Cons p ps v vs)
    then show ?case using lot_value_pos [OF Cons(1) _ assms(3)] by simp
  qed simp
  then show ?thesis using assms(1) Inr by (simp add: broker_equity_def)
qed

lemma refusal_None:
  assumes "refusal mk symb sg prob eq entry stop st = None"
  shows "\<exists>x. entry = Some x \<and> length (lots_for symb (lp_broker st)) < MAX_LOTS_PER_SYMBOL \<and>
    rd_approved (sized eq x stop prob st) \<and> sg_direction sg = ''long'' \<and>
    list_all (\<lambda>p. 0 < (x - lt_entry p) * lt_qty p) (lots_for symb (lp_broker st))"
  using assms by (auto simp: refusal_def Let_def list_all_iff list_ex_iff not_le split: if_splits)

lemma cycle_symbol_inv:
  assumes "cycle_symbol cfg mk now symb st = (st', r)" "loop_inv st" "quotes_ok (mk_prices mk)"
  shows "loop_inv st'"
proof (cases "bind_result (mk_klines mk symb) (\<lambda>ks. bind_result (compute_signal ks (lc_strategy cfg) (lc_pred cfg)) (\<lambda>sg. Inr (ks, sg)))")
  case (Inl e)
  then show ?thesis using assms(1,2) by (simp add: cycle_symbol_def)
next
  case (Inr y)
  obtain ks sg where y: "y = (ks, sg)" by (cases y)
  obtain bs q where c: "calibrated_probability (condition_key symb (lc_timeframe cfg) (sg_condition sg))
      (Some (propose_probability sg)) 1 (lp_bins st) = (bs, q)" by fastforce
  define s1 where "s1 = st\<lparr>lp_bins := bs\<rparr>"
  have inv: "loop_inv s1" using assms(2) by (simp add: loop_inv_def s1_def)
  define x where "x = bind_result q (\<lambda>(p, _). bind_result (broker_equity (mk_prices mk) (lp_broker s1)) (\<lambda>eq. Inr (p, eq)))"
  define entry where "entry = price_now (mk_prices mk) symb"
  define stop where "stop = (case entry of None \<Rightarrow> 0 | Some x \<Rightarrow> atr_stop_price x (volatility ks))"
  have eq: "cycle_symbol cfg mk now symb st =
    (case x of Inl e \<Rightarrow> (s1, Inl e)
     | Inr (prob, eq) \<Rightarrow>
         (case refusal mk symb sg prob eq entry stop s1 of
            Some r \<Rightarrow> (s1, Inr r)
          | None \<Rightarrow> enter cfg (mk_prices mk) now symb sg prob (the entry) stop (rd_size (sized eq (the entry) stop prob s1)) s1))"
    unfolding cycle_symbol_def Inr y x_def entry_def stop_def s1_def Let_def by (simp add: c)
  show ?thesis
  proof (cases x)
    case (Inl e)
    then show ?thesis using assms(1) eq inv by simp
  next
    case (Inr z)
    obtain prob eqv where z: "z = (prob, eqv)" by (cases z)
    show ?thesis
    proof (cases "refusal mk symb sg prob eqv entry stop s1")
      case (Some r')
      then show ?thesis using assms(1) eq Inr z inv by simp
    next
      case None
      from refusal_None [OF this] obtain v where v: "entry = Some v" "length (lots_for symb (lp_broker s1)) < MAX_LOTS_PER_SYMBOL"
        "rd_approved (sized eqv v stop prob s1)" by blast
      have pos: "0 < v" using quotes_okD [OF assms(3)] v(1) by (simp add: entry_def)
      have "broker_equity (mk_prices mk) (lp_broker s1) = Inr eqv"
        using Inr z by (cases q; cases "broker_equity (mk_prices mk) (lp_broker s1)") (auto simp: x_def)
      then have "br_cash (lp_broker s1) \<le> eqv" using equity_above_cash assms(3) inv by (auto simp: loop_inv_def book_ok_def)
      moreover have "MIN_LOT_NOTIONAL \<le> br_cash (lp_broker s1)"
        using size_position_approved(5) [OF v(3) [unfolded sized_def]] .
      ultimately have ep: "0 < eqv" unfolding MIN_LOT_NOTIONAL_def by linarith
      have "enter cfg (mk_prices mk) now symb sg prob v stop (rd_size (sized eqv v stop prob s1)) s1 = (st', r)"
        using assms(1) eq Inr z None v(1) by simp
      from enter_inv [OF this inv pos v(2) sized_approved [OF inv v(3) ep]] show ?thesis .
    qed
  qed
qed

lemma cycle_symbols_inv:
  assumes "cycle_symbols cfg mk now ss st = (st', r)" "loop_inv st" "quotes_ok (mk_prices mk)"
  shows "loop_inv st'"
  using assms(1,2)
proof (induction ss arbitrary: st st' r)
  case (Cons s ss)
  obtain s1 r1 where c: "cycle_symbol cfg mk now s st = (s1, r1)" by fastforce
  have inv: "loop_inv s1" by (rule cycle_symbol_inv [OF c Cons.prems(2) assms(3)])
  show ?case
  proof (cases r1)
    case (Inl e)
    then show ?thesis using Cons.prems(1) inv c by simp
  next
    case (Inr x)
    obtain s2 r2 where d: "cycle_symbols cfg mk now ss s1 = (s2, r2)" by fastforce
    have "st' = s2" using Cons.prems(1) c d Inr by (cases r2) auto
    then show ?thesis using Cons.IH [OF d inv] by simp
  qed
qed simp

lemma close_cycle_inv: "close_cycle mk rs st = (st', r) \<Longrightarrow> loop_inv st \<Longrightarrow> loop_inv st'"
  by (auto simp: close_cycle_def loop_inv_def Let_def split: sum.splits prod.splits)

lemma run_cycle_inv:
  assumes "run_cycle cfg mk now syms st = (st', r)" "loop_inv st" "quotes_ok (mk_prices mk)"
  shows "loop_inv st'"
proof -
  obtain s1 r1 where m: "manage_open_positions (mk_prices mk) now st = (s1, r1)" by fastforce
  obtain s2 r2 where c: "cycle_symbols cfg mk now syms s1 = (s2, r2)" by fastforce
  have i1: "loop_inv s1" by (rule manage_inv [OF m assms(2,3)])
  have i2: "loop_inv s2" by (rule cycle_symbols_inv [OF c i1 assms(3)])
  show ?thesis
  proof (cases r1)
    case (Inl e)
    then show ?thesis using assms(1) m i1 by (simp add: run_cycle_def)
  next
    case i: (Inr u)
    show ?thesis
    proof (cases r2)
      case (Inl e)
      then show ?thesis using assms(1) m c i i2 by (simp add: run_cycle_def)
    next
      case (Inr rs)
      obtain s3 r3 where d: "close_cycle mk rs s2 = (s3, r3)" by fastforce
      have "st' = s3" using assms(1) m c d i Inr by (cases r3) (auto simp: run_cycle_def)
      then show ?thesis using close_cycle_inv [OF d i2] by simp
    qed
  qed
qed

section \<open>Accounts\<close>

definition account_ok :: "account \<Rightarrow> bool" where
  "account_ok ac \<longleftrightarrow>
     ac_saved ac = JNull \<or> (\<exists>b stamp. book_ok b \<and> ac_saved ac = account_json b PAPER_START_CASH stamp)"

lemma account_broker_ok:
  assumes "account_ok ac" "broker_of_account env next ac = Inr b"
  shows "book_ok b"
proof -
  obtain b0 where p: "paper_broker env PAPER_START_CASH TAKER_FEE SLIPPAGE next = Inr b0"
    using assms(2) by (cases "paper_broker env PAPER_START_CASH TAKER_FEE SLIPPAGE next") (auto simp: broker_of_account_def)
  then have b0: "b0 = \<lparr>br_cash = PAPER_START_CASH, br_fee = TAKER_FEE, br_slip = SLIPPAGE, br_lots = [], br_fills = [], br_next = next\<rparr>"
    by (cases "assert_paper_only env") (auto simp: paper_broker_def)
  show ?thesis
  proof (cases "ac_saved ac = JNull")
    case True
    then have "b = b0" using assms(2) p by (simp add: broker_of_account_def)
    then show ?thesis by (simp add: b0 book_ok_def lots_fine_def PAPER_START_CASH_def)
  next
    case False
    then obtain c stamp where c: "book_ok c" "ac_saved ac = account_json c PAPER_START_CASH stamp"
      using assms(1) by (auto simp: account_ok_def)
    have "item_or ''broker'' (JObj []) (ac_saved ac) = to_state c" "truthy (ac_saved ac)"
      by (simp_all add: c(2) account_json_def item_or_def jhas_def)
    then have "restore_state (to_state c) b0 = Inr b" using assms(2) p by (simp add: broker_of_account_def)
    then show ?thesis using c(1) by (auto simp: restore_to_state b0 book_ok_def)
  qed
qed

lemma account_peak:
  assumes "account_ok ac" "peak_of_account ac = Inr pk"
  shows "pk = PAPER_START_CASH"
  using assms
  by (auto simp: account_ok_def peak_of_account_def account_json_def item_or_def jhas_def number_def split: if_splits)

lemma account_loop_inv:
  assumes "account_ok ac" "loop_of_account env next ac = Inr st"
  shows "loop_inv st"
proof -
  obtain bs b pk where "load_bins (ac_bins ac) = Inr bs" and b: "broker_of_account env next ac = Inr b"
    and pk: "peak_of_account ac = Inr pk"
    using assms(2)
    by (cases "load_bins (ac_bins ac)"; cases "broker_of_account env next ac"; cases "peak_of_account ac")
      (auto simp: loop_of_account_def)
  then show ?thesis
    using assms(2) account_broker_ok [OF assms(1) b] account_peak [OF assms(1) pk] by (auto simp: loop_of_account_def loop_inv_def)
qed

lemma saved_account_ok: "loop_inv st \<Longrightarrow> ac_saved ac = account_json (lp_broker st) (rk_peak (lp_risk st)) stamp \<Longrightarrow> account_ok ac"
  by (auto simp: account_ok_def loop_inv_def new_risk_manager_def)

lemma account_ok_simps:
  "account_ok (ac\<lparr>ac_ledger := ld\<rparr>) = account_ok ac"
  "loop_inv st \<Longrightarrow> account_ok (ac\<lparr>ac_ledger := ld, ac_saved := account_json (lp_broker st) (rk_peak (lp_risk st)) stamp\<rparr>)"
  using saved_account_ok by (auto simp: account_ok_def loop_inv_def new_risk_manager_def)

lemma run_one_account_ok:
  assumes "account_ok ac" "quotes_ok (mk_prices mk)"
  shows "account_ok (fst (run_one_account cfg mk now stamp env next ac))"
proof (cases "loop_of_account env next ac")
  case (Inl e)
  then show ?thesis using assms(1) by (simp add: run_one_account_def)
next
  case (Inr st)
  obtain s1 r where r: "run_cycle cfg mk now TRADE_SYMBOLS st = (s1, r)" by fastforce
  have inv: "loop_inv s1" by (rule run_cycle_inv [OF r account_loop_inv [OF assms(1) Inr] assms(2)])
  show ?thesis
  proof (cases r)
    case (Inl e)
    then show ?thesis using assms(1) Inr r by (simp add: run_one_account_def account_ok_def)
  next
    case (Inr x)
    then show ?thesis using \<open>loop_of_account env next ac = Inr st\<close> r saved_account_ok [OF inv]
      by (cases x) (simp add: run_one_account_def)
  qed
qed

lemma heartbeat_account_ok:
  assumes "account_ok ac" "quotes_ok px"
  shows "account_ok (fst (heartbeat_account px now stamp env next ac))"
proof (cases "bind_result (load_bins (ac_bins ac)) (\<lambda>bs. bind_result (broker_of_account env next ac) (\<lambda>b. Inr (bs, b)))")
  case (Inl e)
  then show ?thesis using assms(1) by (simp add: heartbeat_account_def)
next
  case (Inr x)
  obtain bs b where x: "x = (bs, b)" by (cases x)
  define s0 where "s0 = \<lparr>lp_broker = b, lp_risk = new_risk_manager RISK_FRAC PAPER_START_CASH, lp_bins = bs, lp_ledger = ac_ledger ac, lp_history = []\<rparr>"
  obtain s1 r where r: "manage_open_positions px now s0 = (s1, r)" by fastforce
  have "broker_of_account env next ac = Inr b"
    using Inr x by (cases "load_bins (ac_bins ac)"; cases "broker_of_account env next ac") auto
  then have "loop_inv s0" using account_broker_ok [OF assms(1)] by (simp add: loop_inv_def s0_def)
  then have inv: "loop_inv s1" using manage_inv [OF r _ assms(2)] by simp
  have "fst (heartbeat_account px now stamp env next ac) =
    (if br_lots b = [] then ac
     else (case r of
        Inl e \<Rightarrow> ac\<lparr>ac_ledger := lp_ledger s1\<rparr>
      | Inr _ \<Rightarrow>
          if length (br_lots (lp_broker s1)) < length (br_lots b)
          then ac\<lparr>ac_ledger := lp_ledger s1, ac_saved := account_json (lp_broker s1) (rk_peak (lp_risk s1)) stamp\<rparr>
          else ac\<lparr>ac_ledger := lp_ledger s1\<rparr>))"
    unfolding heartbeat_account_def Inr x by (simp add: r flip: s0_def split: sum.splits)
  then show ?thesis
    using assms(1) account_ok_simps(2) [OF inv] by (cases r) (simp_all add: account_ok_simps(1))
qed

text \<open>The accounts that cycles and heartbeats reach, at any prices and with any signals\<close>

inductive reach_account :: "loop_config \<Rightarrow> account \<Rightarrow> bool" for cfg where
  fresh: "reach_account cfg account_start"
| cycle: "reach_account cfg ac \<Longrightarrow> quotes_ok (mk_prices mk) \<Longrightarrow>
    reach_account cfg (fst (run_one_account cfg mk now stamp env next ac))"
| heartbeat: "reach_account cfg ac \<Longrightarrow> quotes_ok px \<Longrightarrow>
    reach_account cfg (fst (heartbeat_account px now stamp env next ac))"

lemma reach_account_ok: "reach_account cfg ac \<Longrightarrow> account_ok ac"
proof (induction rule: reach_account.induct)
  case fresh
  show ?case by (simp add: account_ok_def account_start_def)
qed (auto intro: run_one_account_ok heartbeat_account_ok)

end
