(* ===== verification/LoopProperties.thy ===== *)
theory LoopProperties
  imports LoopFacts
begin

text \<open>
  Properties of the calibration and of the live account of a five-minute champion.
\<close>

section \<open>Inputs used by the witnesses\<close>

definition sample_config :: loop_config where
  "sample_config = \<lparr>lc_strategy = ''don_hi_20'', lc_pred = don_hi 20, lc_timeframe = ''5m''\<rparr>"

definition sample_lot :: "int \<Rightarrow> rat \<Rightarrow> rat \<Rightarrow> rat \<Rightarrow> lot" where
  "sample_lot i q e st =
     \<lparr>lt_id = i, lt_ticker = ''BTC/USDT'', lt_qty = q, lt_entry = e, lt_stop = st, lt_fee = 1, lt_cond = []\<rparr>"

definition pyramid :: broker where
  "pyramid = \<lparr>br_cash = 4000, br_fee = TAKER_FEE, br_slip = SLIPPAGE, br_lots = [sample_lot 1 20 100 96, sample_lot 2 40 103 101],
     br_fills = [], br_next = 3\<rparr>"

definition two_lot_account :: account where
  "two_lot_account = \<lparr>ac_saved = account_json pyramid PAPER_START_CASH JNull, ac_ledger = ledger_start, ac_bins = None\<rparr>"

definition falling_market :: market where
  "falling_market =
     \<lparr>mk_prices = [(''BTC/USDT'', Some 100)], mk_later = [(''BTC/USDT'', Some 100)],
      mk_klines = (\<lambda>s. Inl (RuntimeError ''no klines'')), mk_regime = None\<rparr>"

lemma default_broker:
  "paper_broker None cash fee slip next =
     Inr \<lparr>br_cash = cash, br_fee = fee, br_slip = slip, br_lots = [], br_fills = [], br_next = next\<rparr>"
proof -
  have "assert_paper_only None = Inr ()" by code_simp
  then show ?thesis by (simp add: paper_broker_def)
qed

lemma two_lot_loop:
  "\<exists>st. loop_of_account None 1 two_lot_account = Inr st \<and> br_lots (lp_broker st) = [sample_lot 1 20 100 96, sample_lot 2 40 103 101]"
proof -
  have "item_or ''broker'' (JObj []) (ac_saved two_lot_account) = to_state pyramid" "truthy (ac_saved two_lot_account)"
    by (simp_all add: two_lot_account_def account_json_def item_or_def jhas_def)
  moreover have "peak_of_account two_lot_account = Inr PAPER_START_CASH"
    by (simp add: two_lot_account_def peak_of_account_def account_json_def item_or_def jhas_def number_def)
  moreover have "load_bins (ac_bins two_lot_account) = Inr []" by (simp add: two_lot_account_def load_bins_def)
  ultimately show ?thesis
    by (simp add: loop_of_account_def broker_of_account_def default_broker restore_to_state) (simp add: pyramid_def)
qed

section \<open>Calibration\<close>

text \<open>
  C29. Evidence overrules the proposal: after twenty outcomes of a condition its calibrated probability is the share of
  successes with one success and one failure added, whatever is proposed and however many outcomes other conditions had.
\<close>
theorem evidence_overrules_proposal:
  assumes "20 \<le> length (outcomes_of key xs)"
  shows "map_sum id fst (snd (calibrated_probability key proposed w (fold (\<lambda>(k, ok). record_outcome k ok) xs []))) =
    Inr ((1 + of_nat (length (filter id (outcomes_of key xs)))) / (2 + of_nat (length (outcomes_of key xs))))"
proof -
  define s where "s = length (filter id (outcomes_of key xs))"
  define f where "f = length (filter Not (outcomes_of key xs))"
  have n: "length (outcomes_of key xs) = s + f"
    using sum_length_filter_compl [of id "outcomes_of key xs"] by (simp add: s_def f_def)
  define b where "b = snd (bin_of key (fold (\<lambda>(k, ok). record_outcome k ok) xs []))"
  have b: "b = \<lparr>bs_alpha = 1 + of_nat s, bs_beta = 1 + of_nat f\<rparr>"
    unfolding b_def bin_after_outcomes s_def f_def by (simp add: bin_of_def fresh_bin_def)
  have "bs_alpha b + bs_beta b - 2 = of_int (int (s + f))" by (simp add: b)
  then have "bin_trials b = int (s + f)" unfolding bin_trials_def trunc_def by (simp only:) simp
  then have "WARMUP_TRIALS \<le> bin_trials b" using assms n by (simp add: WARMUP_TRIALS_def)
  then have "blended b proposed w = bin_mean b" by (simp add: blended_def split: option.splits)
  also have "\<dots> = Inr ((1 + of_nat s) / (2 + of_nat (s + f)))"
    using b add_nonneg_nonneg [of "of_nat s :: rat" "of_nat f"] by (simp add: bin_mean_def add_ac)
  finally show ?thesis
    by (simp add: calibrated_probability_def split_beta n flip: b_def s_def)
qed

text \<open>Fifteen successes and five failures, and a proposal of one.\<close>
theorem evidence_overrules_proposal_witness:
  "map_sum id fst (snd (calibrated_probability ''k'' (Some 1) 1
     (fold (\<lambda>(k, ok). record_outcome k ok) (replicate 15 (''k'', True) @ replicate 5 (''k'', False)) []))) = Inr (8 / 11)"
  using evidence_overrules_proposal [of "''k''" "replicate 15 (''k'', True) @ replicate 5 (''k'', False)" "Some 1" 1]
  by (simp add: outcomes_of_def)

section \<open>The live account\<close>

text \<open>
  C8. A live account never trades money it does not have: whatever the prices, signals and regime of its cycles and
  heartbeats, and also when they raise, the broker restored from it has cash that is not negative, at most
  three lots of a symbol, and a stop below the entry of every lot.
\<close>
theorem live_account_stays_funded:
  assumes "reach_account cfg ac" "broker_of_account env next ac = Inr b"
  shows "0 \<le> br_cash b \<and> length (lots_for tk b) \<le> 3 \<and>
    list_all (\<lambda>p. 0 < lt_qty p \<and> 0 < lt_stop p \<and> lt_stop p < lt_entry p) (br_lots b)"
  using account_broker_ok [OF reach_account_ok [OF assms(1)] assms(2)]
  by (simp add: book_ok_def lots_fine_def lots_for_def MAX_LOTS_PER_SYMBOL_def list_all_iff lot_fine_def)

text \<open>The account after a cycle that finds no klines.\<close>
theorem live_account_stays_funded_witness:
  "\<exists>b. broker_of_account None 1 (fst (run_one_account sample_config falling_market 0 JNull None 1 account_start)) = Inr b \<and>
    0 \<le> br_cash b"
proof -
  have r: "reach_account sample_config (fst (run_one_account sample_config falling_market 0 JNull None 1 account_start))"
    by (intro reach_account.intros) (simp add: falling_market_def quotes_ok_def)
  have "\<exists>b. broker_of_account None 1 (fst (run_one_account sample_config falling_market 0 JNull None 1 account_start)) = Inr b"
    by (simp add: run_one_account_def loop_of_account_def broker_of_account_def peak_of_account_def load_bins_def default_broker
      account_start_def run_cycle_def manage_open_positions_def TRADE_SYMBOLS_def cycle_symbol_def falling_market_def
      close_cycle_def broker_equity_def Let_def split_beta account_json_def item_or_def jhas_def restore_to_state)
  then show ?thesis using live_account_stays_funded [OF r] by blast
qed

text \<open>
  C27. The drawdown breaker of a live account never trips: a cycle does not tell the risk manager the equity, so however far
  the book has fallen trading is not halted after it, and the peak is still the start cash.
\<close>
theorem live_breaker_never_trips:
  assumes "reach_account cfg ac" "loop_of_account env next ac = Inr st" "quotes_ok (mk_prices mk)"
  shows "\<not> rk_halted (lp_risk (fst (run_cycle cfg mk now syms st))) \<and>
    rk_peak (lp_risk (fst (run_cycle cfg mk now syms st))) = PAPER_START_CASH"
proof -
  obtain s r where c: "run_cycle cfg mk now syms st = (s, r)" by fastforce
  have "loop_inv s" by (rule run_cycle_inv [OF c account_loop_inv [OF reach_account_ok [OF assms(1)] assms(2)] assms(3)])
  then show ?thesis by (simp add: c loop_inv_def new_risk_manager_def)
qed

text \<open>A cycle of a fresh account.\<close>
theorem live_breaker_never_trips_witness:
  "\<exists>st. loop_of_account None 1 account_start = Inr st \<and>
    rk_peak (lp_risk (fst (run_cycle sample_config falling_market 0 TRADE_SYMBOLS st))) = PAPER_START_CASH"
proof -
  have "\<exists>st. loop_of_account None 1 account_start = Inr st"
    by (simp add: loop_of_account_def broker_of_account_def peak_of_account_def load_bins_def default_broker account_start_def)
  then obtain st where st: "loop_of_account None 1 account_start = Inr st" ..
  have "quotes_ok (mk_prices falling_market)" by (simp add: falling_market_def quotes_ok_def)
  from live_breaker_never_trips [OF reach_account.fresh st this, of sample_config 0 TRADE_SYMBOLS] st
  show ?thesis by blast
qed

text \<open>What a heartbeat learned from the lots it closed is not stored.\<close>
lemma heartbeat_keeps_calibration: "ac_bins (fst (heartbeat_account px now stamp env next ac)) = ac_bins ac"
  by (simp add: heartbeat_account_def split_beta split: sum.split)

lemma manage_lots_waiting:
  "\<forall>l \<in> set pre. manage_lot px now l st = (st, Inr ()) \<Longrightarrow> manage_lots px now (pre @ ls) st = manage_lots px now ls st"
  by (induction pre) simp_all

text \<open>
  C26. The first lot whose stop or take-profit a price has reached cannot be sold when the oldest lot of its symbol is smaller
  by more than the dust tolerance:
  the sale is checked against that oldest lot, so the cycle raises and the heartbeat closes nothing. When the lots before it
  have no price or one between their stop and their take-profit, both leave the account as it was, so it stays stuck
  at that price.
\<close>
theorem larger_later_lot_blocks:
  assumes "loop_of_account env next ac = Inr st" "br_lots (lp_broker st) = pre @ q # post"
    "\<forall>l \<in> set pre. \<forall>x. price_now (mk_prices mk) (lt_ticker l) = Some x \<longrightarrow>
       lt_stop l < x \<and> x < take_profit_price (lt_entry l) (lt_stop l) TAKE_PROFIT_RR"
    "price_now (mk_prices mk) (lt_ticker q) = Some cur"
    "cur \<le> lt_stop q \<or> take_profit_price (lt_entry q) (lt_stop q) TAKE_PROFIT_RR \<le> cur"
    "lots_for (lt_ticker q) (lp_broker st) = p # rest" "lt_qty p + DUST < lt_qty q"
  shows "run_one_account cfg mk now stamp env next ac = (ac, Inl (ValueError (''sell more than held for '' @ lt_ticker q))) \<and>
    heartbeat_account (mk_prices mk) now stamp env next ac = (ac, 0)"
proof -
  obtain bs b pk where l: "load_bins (ac_bins ac) = Inr bs" "broker_of_account env next ac = Inr b" "peak_of_account ac = Inr pk"
    using assms(1)
    by (cases "load_bins (ac_bins ac)"; cases "broker_of_account env next ac"; cases "peak_of_account ac")
      (auto simp: loop_of_account_def)
  then have st: "lp_broker st = b" "lp_ledger st = ac_ledger ac" using assms(1) by (auto simp: loop_of_account_def)
  have lots: "br_lots b = pre @ q # post" using assms(2) st by simp
  have m: "manage_open_positions (mk_prices mk) now s = (s, Inl (ValueError (''sell more than held for '' @ lt_ticker q)))"
    if "lp_broker s = b" for s
  proof -
    have "\<forall>l \<in> set pre. manage_lot (mk_prices mk) now l s = (s, Inr ())"
      using assms(3) by (auto simp: manage_lot_def split: option.splits)
    note pre = manage_lots_waiting [OF this, of "q # post"]
    have "close_lot q cur b = Inl (ValueError (''sell more than held for '' @ lt_ticker q))"
      using assms(6,7) st by (simp add: close_lot_eq)
    then have "manage_lot (mk_prices mk) now q s = (s, Inl (ValueError (''sell more than held for '' @ lt_ticker q)))"
      using assms(4,5) that by (auto simp: manage_lot_def close_position_def)
    then show ?thesis using that lots pre by (simp add: manage_open_positions_def)
  qed
  have "run_one_account cfg mk now stamp env next ac = (ac, Inl (ValueError (''sell more than held for '' @ lt_ticker q)))"
    by (simp add: run_one_account_def assms(1) run_cycle_def m [OF st(1)] st(2))
  moreover have "heartbeat_account (mk_prices mk) now stamp env next ac = (ac, 0)"
    by (simp add: heartbeat_account_def l lots m)
  ultimately show ?thesis ..
qed

text \<open>A first lot of twenty with a stop at 96 and a second of forty with a stop at 101, at a price of 100.\<close>
theorem larger_later_lot_blocks_witness:
  "run_one_account sample_config falling_market 0 JNull None 1 two_lot_account =
     (two_lot_account, Inl (ValueError (''sell more than held for '' @ ''BTC/USDT''))) \<and>
   heartbeat_account (mk_prices falling_market) 0 JNull None 1 two_lot_account = (two_lot_account, 0)"
proof -
  from two_lot_loop obtain st where st: "loop_of_account None 1 two_lot_account = Inr st"
    "br_lots (lp_broker st) = [sample_lot 1 20 100 96, sample_lot 2 40 103 101]" by blast
  have "br_lots (lp_broker st) = [sample_lot 1 20 100 96] @ sample_lot 2 40 103 101 # []" using st(2) by simp
  moreover have "lots_for ''BTC/USDT'' (lp_broker st) = [sample_lot 1 20 100 96, sample_lot 2 40 103 101]"
    using st(2) by (simp add: lots_for_def sample_lot_def)
  ultimately show ?thesis
    using larger_later_lot_blocks [OF st(1), where pre = "[sample_lot 1 20 100 96]" and q = "sample_lot 2 40 103 101" and mk = falling_market
        and cur = 100]
    by (simp add: sample_lot_def falling_market_def price_now_def take_profit_price_def TAKE_PROFIT_RR_def DUST_def)
qed

end
