(* ===== verification/StrategyLanguage.thy ===== *)
theory StrategyLanguage
  imports Structure MintQuality
begin

text \<open>
  The language of five-minute strategy names (\<open>signals/dynamic.py\<close>, with the higher time frames of
  \<open>signals/htf.py\<close>, the oscillator of \<open>signals/wavetrend.py\<close> and the bands of \<open>signals/indicators.py\<close>): the split of an
  expression, the atoms, and the value of a name at one bar. A value that is not a number is \<open>None\<close>; a division by zero and
  an index out of range are errors. Only string expressions are modelled, on names without line breaks and with ASCII digits; the tape has at least one bar.
  The process caches key on the tape and return what is computed here.
\<close>

section \<open>Indicators at a bar\<close>

definition sma_at :: "nat \<Rightarrow> rat list \<Rightarrow> nat \<Rightarrow> rat option" where
  "sma_at n cs i =
     (if i + 1 < n \<or> n = 0 then None else Some (sum_list (take n (drop (i + 1 - n) cs)) / of_nat n))"

definition ema_series :: "nat \<Rightarrow> rat list \<Rightarrow> series" where
  "ema_series n cs =
     (if n = 0 \<or> length cs < n then nan (length cs)
      else
        let k = 2 / (of_nat n + 1); v = sum_list (take n cs) / of_nat n
        in nan (n - 1) @ Some v # scan (\<lambda>v x. x * k + v * (1 - k)) Some v (drop n cs))"

definition ema_at :: "nat \<Rightarrow> rat list \<Rightarrow> nat \<Rightarrow> rat option" where
  "ema_at n cs i = (if i + 1 < n \<or> n = 0 then None else ema_series n cs ! i)"

definition ma_at :: "bool \<Rightarrow> nat \<Rightarrow> rat list \<Rightarrow> nat \<Rightarrow> rat option" where
  "ma_at simple n cs i = (if simple then sma_at n cs i else ema_at n cs i)"

definition rsi_at :: "nat \<Rightarrow> rat list \<Rightarrow> nat \<Rightarrow> rat option result" where
  "rsi_at period cs i =
     (if i < period then Inr None
      else if period = 0 then Inl ZeroDivisionError
      else
        let ds = map (\<lambda>j. cs ! j - cs ! (j - 1)) [i - period + 1..<i + 1];
            avg_gain = sum_list (map (\<lambda>d. max 0 d) ds) / of_nat period;
            avg_loss = sum_list (map (\<lambda>d. max 0 (- d)) ds) / of_nat period
        in if avg_loss = 0 then Inr (Some (if avg_gain > 0 then 100 else 50))
           else Inr (Some (100 - 100 / (1 + avg_gain / avg_loss))))"

definition return_at :: "nat \<Rightarrow> rat list \<Rightarrow> nat \<Rightarrow> rat option result" where
  "return_at lookback cs i =
     (if i < lookback \<or> lookback = 0 then Inr None
      else if cs ! (i - lookback) = 0 then Inl ZeroDivisionError
      else Inr (Some (cs ! i / cs ! (i - lookback) - 1)))"

definition move_at :: "rat list \<Rightarrow> nat \<Rightarrow> rat result" where
  "move_at cs j = (if cs ! (j - 1) = 0 then Inl ZeroDivisionError else Inr (\<bar>cs ! j - cs ! (j - 1)\<bar> / cs ! (j - 1)))"

definition moves_at :: "nat \<Rightarrow> rat list \<Rightarrow> nat \<Rightarrow> rat list result" where
  "moves_at lookback cs i = map_results (move_at cs) [max 1 (i + 1 - lookback)..<i + 1]"

definition vol_ratio :: "nat \<Rightarrow> nat \<Rightarrow> rat list \<Rightarrow> nat \<Rightarrow> rat option result" where
  "vol_ratio short_lb long_lb cs i =
     (if i < long_lb then Inr None
      else
        bind_result (moves_at short_lb cs i) (\<lambda>sv. bind_result (moves_at long_lb cs i) (\<lambda>lv.
          if sv = [] \<or> lv = [] then Inr None
          else if mean lv = 0 then Inl ZeroDivisionError
          else Inr (Some (mean sv / mean lv)))))"

text \<open>
  The mean and the variance of a window, the lower, middle and upper band with their root, and the test of a price
  against a band without the root; \<open>band_reached_iff\<close> shows that it is the comparison with the band.
\<close>

definition window_moments :: "nat \<Rightarrow> rat list \<Rightarrow> nat \<Rightarrow> (rat \<times> rat) option" where
  "window_moments period cs i =
     (if i + 1 < period \<or> period = 0 then None
      else
        let w = take period (drop (i + 1 - period) cs); mid = sum_list w / of_nat period
        in Some (mid, sum_list (map (\<lambda>x. (x - mid) ^ 2) w) / of_nat period))"

definition bollinger_bands :: "nat \<Rightarrow> nat \<Rightarrow> rat list \<Rightarrow> nat \<Rightarrow> (real \<times> real \<times> real) option" where
  "bollinger_bands period dev cs i =
     map_option (\<lambda>(mid, var). (of_rat mid - real dev * sqrt (of_rat var), of_rat mid, of_rat mid + real dev * sqrt (of_rat var)))
       (window_moments period cs i)"

definition band_reached :: "bool \<Rightarrow> nat \<Rightarrow> rat \<Rightarrow> (rat \<times> rat) option \<Rightarrow> bool" where
  "band_reached upper dev x m =
     (case m of
        None \<Rightarrow> False
      | Some (mid, var) \<Rightarrow> let d = (if upper then x - mid else mid - x) in 0 \<le> d \<and> of_nat dev ^ 2 * var \<le> d ^ 2)"

lemma root_le_iff:
  fixes r x :: real
  assumes "0 \<le> r"
  shows "r \<le> x \<longleftrightarrow> 0 \<le> x \<and> r\<^sup>2 \<le> x\<^sup>2"
proof
  assume "r \<le> x"
  moreover have "r\<^sup>2 \<le> x\<^sup>2" using \<open>r \<le> x\<close> assms by (rule power_mono)
  ultimately show "0 \<le> x \<and> r\<^sup>2 \<le> x\<^sup>2" using assms by linarith
next
  assume "0 \<le> x \<and> r\<^sup>2 \<le> x\<^sup>2"
  then show "r \<le> x" by (blast intro: power2_le_imp_le)
qed

lemma sqrt_le_iff:
  fixes d v :: rat
  assumes "0 \<le> v"
  shows "real n * sqrt (of_rat v) \<le> of_rat d \<longleftrightarrow> 0 \<le> d \<and> of_nat n ^ 2 * v \<le> d ^ 2"
proof -
  define r where "r = real n * sqrt (of_rat v)"
  have nn: "0 \<le> r" using assms by (simp add: r_def)
  have sq: "r\<^sup>2 = of_rat (of_nat n ^ 2 * v)"
    using assms by (simp add: r_def power_mult_distrib of_rat_mult of_rat_power)
  have "r \<le> of_rat d \<longleftrightarrow> 0 \<le> (of_rat d :: real) \<and> (of_rat (of_nat n ^ 2 * v) :: real) \<le> of_rat (d ^ 2)"
    unfolding root_le_iff [OF nn] sq of_rat_power [symmetric] ..
  also have "\<dots> \<longleftrightarrow> 0 \<le> d \<and> of_nat n ^ 2 * v \<le> d ^ 2" unfolding of_rat_less_eq by simp
  finally show ?thesis unfolding r_def .
qed

lemma band_reached_iff:
  "band_reached upper dev x (window_moments n cs i) \<longleftrightarrow>
     (case bollinger_bands n dev cs i of
        None \<Rightarrow> False | Some (lo, mid, hi) \<Rightarrow> if upper then of_rat x \<ge> hi else of_rat x \<le> lo)"
proof (cases "window_moments n cs i")
  case (Some m)
  obtain mid var where m: "m = (mid, var)" by (cases m)
  have "0 \<le> var"
    using Some m by (auto simp: window_moments_def Let_def split: if_splits intro!: divide_nonneg_nonneg sum_list_nonneg)
  note root = sqrt_le_iff [OF this, of dev]
  have "real dev * sqrt (of_rat var) \<le> of_rat x - of_rat mid \<longleftrightarrow> 0 \<le> x - mid \<and> of_nat dev ^ 2 * var \<le> (x - mid) ^ 2"
    "real dev * sqrt (of_rat var) \<le> of_rat mid - of_rat x \<longleftrightarrow> 0 \<le> mid - x \<and> of_nat dev ^ 2 * var \<le> (mid - x) ^ 2"
    using root [of "x - mid"] root [of "mid - x"] by (simp_all only: of_rat_diff)
  moreover have "of_rat mid + real dev * sqrt (of_rat var) \<le> of_rat x \<longleftrightarrow> real dev * sqrt (of_rat var) \<le> of_rat x - of_rat mid"
    "of_rat x \<le> of_rat mid - real dev * sqrt (of_rat var) \<longleftrightarrow> real dev * sqrt (of_rat var) \<le> of_rat mid - of_rat x"
    by linarith+
  ultimately show ?thesis
    by (simp only: band_reached_def bollinger_bands_def Some m Let_def option.case prod.case option.map if_cancel cong: if_cong) simp
qed (simp add: band_reached_def bollinger_bands_def)

section \<open>Higher time frames\<close>

definition BARS_PER_H4 :: nat where "BARS_PER_H4 = 48"
definition BARS_PER_H1 :: nat where "BARS_PER_H1 = 12"

definition completed_htf_count :: "nat \<Rightarrow> nat \<Rightarrow> nat" where
  "completed_htf_count i bars_per = (if bars_per = 0 then 0 else (i + 1) div bars_per)"

definition htf_bucket_close_index :: "nat \<Rightarrow> nat \<Rightarrow> nat" where
  "htf_bucket_close_index k bars_per = (k + 1) * bars_per - 1"

definition htf_closes :: "rat list \<Rightarrow> nat \<Rightarrow> rat list" where
  "htf_closes cs bars_per = map (\<lambda>k. cs ! htf_bucket_close_index k bars_per) [0..<length cs div bars_per]"

definition htf_close_above_ma :: "nat \<Rightarrow> nat \<Rightarrow> bool \<Rightarrow> rat list \<Rightarrow> nat \<Rightarrow> bool" where
  "htf_close_above_ma bars_per period simple cs i =
     (if period = 0 \<or> bars_per = 0 then False
      else
        let n = completed_htf_count i bars_per in
        if n < period then False
        else
          let htf = htf_closes cs bars_per; n = (if n > length htf then length htf else n) in
          if n < period then False
          else (case ma_at simple period htf (n - 1) of None \<Rightarrow> False | Some v \<Rightarrow> htf ! (n - 1) > v))"

section \<open>WaveTrend\<close>

text \<open>\<open>lag\<close> is the first bar an atom can hold at; \<open>require_hlc\<close> asks for the same as \<open>require_ohlc\<close>.\<close>

definition CHANNEL_LEN :: nat where "CHANNEL_LEN = 10"
definition AVERAGE_LEN :: nat where "AVERAGE_LEN = 21"
definition SIGNAL_LEN :: nat where "SIGNAL_LEN = 4"
definition OS_LEVEL :: rat where "OS_LEVEL = -60"
definition OB_LEVEL :: rat where "OB_LEVEL = 60"
definition CI_SCALE :: rat where "CI_SCALE = 15 / 1000"

fun ema_run :: "rat \<Rightarrow> rat \<Rightarrow> series \<Rightarrow> series" where
  "ema_run k v [] = []"
| "ema_run k v (None # xs) = nan (Suc (length xs))"
| "ema_run k v (Some x # xs) = Some (x * k + v * (1 - k)) # ema_run k (x * k + v * (1 - k)) xs"

text \<open>An average of a series that may begin with undefined values\<close>

definition wt_ema :: "series \<Rightarrow> nat \<Rightarrow> series" where
  "wt_ema xs period =
     (let start = length (takeWhile (\<lambda>x. x = None) xs); seed = take period (drop start xs); k = 2 / (of_nat period + 1) in
      if period = 0 \<or> length xs < start + period \<or> None \<in> set seed then nan (length xs)
      else
        let v = sum_list (map the seed) / of_nat period
        in nan (start + period - 1) @ Some v # ema_run k v (drop (start + period) xs))"

definition wt_sma :: "series \<Rightarrow> nat \<Rightarrow> series" where
  "wt_sma xs period =
     (if period = 0 \<or> length xs < period then nan (length xs)
      else
        map (\<lambda>i. if i + 1 < period then None
                 else
                   let w = take period (drop (i + 1 - period) xs)
                   in if None \<in> set w then None else Some (sum_list (map the w) / of_nat period)) [0..<length xs])"

definition hlc3_series :: "rat list \<Rightarrow> rat list \<Rightarrow> rat list \<Rightarrow> rat list" where
  "hlc3_series hs ls cs = map (\<lambda>k. (hs ! k + ls ! k + cs ! k) / 3) [0..<length cs]"

definition channel_index :: "rat \<Rightarrow> rat option \<Rightarrow> rat option \<Rightarrow> rat option" where
  "channel_index ap esa d =
     (case (esa, d) of
        (Some e, Some x) \<Rightarrow> Some (if x = 0 then 0 else (ap - e) / (CI_SCALE * x))
      | _ \<Rightarrow> None)"

definition wavetrend_series :: "rat list \<Rightarrow> rat list \<Rightarrow> rat list \<Rightarrow> series \<times> series" where
  "wavetrend_series hs ls cs =
     (let ap = hlc3_series hs ls cs; esa = wt_ema (map Some ap) CHANNEL_LEN;
          dev = map2 (\<lambda>a e. map_option (\<lambda>x. \<bar>a - x\<bar>) e) ap esa; d = wt_ema dev CHANNEL_LEN;
          ci = map2 (\<lambda>a (e, x). channel_index a e x) ap (zip esa d);
          wt1 = wt_ema ci AVERAGE_LEN
      in (wt1, wt_sma wt1 SIGNAL_LEN))"

definition crosses :: "(rat \<Rightarrow> rat \<Rightarrow> bool) \<Rightarrow> (rat \<Rightarrow> rat \<Rightarrow> bool) \<Rightarrow> series \<Rightarrow> series \<Rightarrow> nat \<Rightarrow> bool" where
  "crosses before_ok now_ok wt1 wt2 i =
     (if i < 1 then False
      else
        (case (wt1 ! (i - 1), wt2 ! (i - 1), wt1 ! i, wt2 ! i) of
           (Some a0, Some b0, Some a1, Some b1) \<Rightarrow> before_ok a0 b0 \<and> now_ok a1 b1
         | _ \<Rightarrow> False))"

definition cross_up :: "series \<Rightarrow> series \<Rightarrow> nat \<Rightarrow> bool" where "cross_up = crosses (\<le>) (>)"
definition cross_down :: "series \<Rightarrow> series \<Rightarrow> nat \<Rightarrow> bool" where "cross_down = crosses (\<ge>) (<)"

definition wt_atom :: "nat \<Rightarrow> (series \<Rightarrow> series \<Rightarrow> nat \<Rightarrow> bool) \<Rightarrow> ohlc_atom" where
  "wt_atom lag f cs hs ls i =
     bind_result (require_ohlc cs hs ls) (\<lambda>(h, l).
       let i = idx_of cs i; (wt1, wt2) = wavetrend_series h l cs in
       if i < lag then Inr False
       else if length cs \<le> i then Inl (IndexError ''list index out of range'') else Inr (f wt1 wt2 i))"

definition oversold :: "rat option \<Rightarrow> bool" where
  "oversold x = (case x of None \<Rightarrow> False | Some v \<Rightarrow> v \<le> OS_LEVEL)"

definition overbought :: "rat option \<Rightarrow> bool" where
  "overbought x = (case x of None \<Rightarrow> False | Some v \<Rightarrow> v \<ge> OB_LEVEL)"

definition wt_cross_up_os :: ohlc_atom where
  "wt_cross_up_os = wt_atom 1 (\<lambda>wt1 wt2 i. cross_up wt1 wt2 i \<and> oversold (wt2 ! i))"

definition wt_below_os :: ohlc_atom where
  "wt_below_os = wt_atom 0 (\<lambda>wt1 wt2 i. oversold (wt2 ! i))"

definition wt_cross_down_ob :: ohlc_atom where
  "wt_cross_down_ob = wt_atom 1 (\<lambda>wt1 wt2 i. cross_down wt1 wt2 i \<and> overbought (wt2 ! i))"

section \<open>Atoms\<close>

text \<open>In \<open>Stack\<close>, \<open>Above\<close> and \<open>Htf\<close> the flag says a simple average, in \<open>Mom\<close> that the return must be greater.\<close>

datatype spec =
    Stack bool "nat list"
  | Above bool nat
  | RsiRange nat int int
  | Mom bool nat rat
  | VolLow nat nat
  | Bands bool nat nat
  | Don bool nat
  | Swing bool nat
  | Dbl bool nat
  | WaveUp
  | WaveBelow
  | WaveDown
  | Htf nat bool nat
  | Both spec spec
  | Never

definition stack_holds :: "rat \<Rightarrow> rat option list \<Rightarrow> bool result" where
  "stack_holds x vals =
     (if None \<in> set vals then Inr False
      else if vals = [] then Inl (IndexError ''list index out of range'')
      else Inr (x > the (hd vals) \<and> successively (\<lambda>a b. the a > the b) vals))"

definition close_over :: "rat \<Rightarrow> rat option \<Rightarrow> bool" where
  "close_over x v = (case v of None \<Rightarrow> False | Some y \<Rightarrow> x > y)"

definition in_range :: "int \<Rightarrow> int \<Rightarrow> rat option \<Rightarrow> bool" where
  "in_range lo hi r = (case r of None \<Rightarrow> False | Some x \<Rightarrow> x > of_int lo \<and> x \<le> of_int hi)"

definition moved :: "bool \<Rightarrow> rat \<Rightarrow> rat option \<Rightarrow> bool" where
  "moved gt thr r = (case r of None \<Rightarrow> False | Some x \<Rightarrow> if gt then x > thr else x < thr)"

fun eval_spec :: "spec \<Rightarrow> ohlc_atom" where
  "eval_spec (Stack simple ps) cs hs ls i =
     (let i = idx_of cs i in stack_holds (cs ! i) (map (\<lambda>p. ma_at simple p cs i) ps))"
| "eval_spec (Above simple n) cs hs ls i = (let i = idx_of cs i in Inr (close_over (cs ! i) (ma_at simple n cs i)))"
| "eval_spec (RsiRange n lo hi) cs hs ls i = bind_result (rsi_at n cs (idx_of cs i)) (\<lambda>r. Inr (in_range lo hi r))"
| "eval_spec (Mom gt lb thr) cs hs ls i = bind_result (return_at lb cs (idx_of cs i)) (\<lambda>r. Inr (moved gt thr r))"
| "eval_spec (VolLow a b) cs hs ls i =
     bind_result (vol_ratio a b cs (idx_of cs i)) (\<lambda>r. Inr (case r of None \<Rightarrow> False | Some x \<Rightarrow> x < 1))"
| "eval_spec (Bands upper n dev) cs hs ls i =
     (let i = idx_of cs i in Inr (band_reached upper dev (cs ! i) (window_moments n cs i)))"
| "eval_spec (Don high n) cs hs ls i = (if high then don_hi n cs hs ls i else don_lo n cs hs ls i)"
| "eval_spec (Swing high k) cs hs ls i = near_swing high k cs hs ls i"
| "eval_spec (Dbl high k) cs hs ls i = double_swing high k cs hs ls i"
| "eval_spec WaveUp cs hs ls i = wt_cross_up_os cs hs ls i"
| "eval_spec WaveBelow cs hs ls i = wt_below_os cs hs ls i"
| "eval_spec WaveDown cs hs ls i = wt_cross_down_ob cs hs ls i"
| "eval_spec (Htf bars_per simple n) cs hs ls i = Inr (htf_close_above_ma bars_per n simple cs (idx_of cs i))"
| "eval_spec (Both a b) cs hs ls i = bind_result (eval_spec a cs hs ls i) (\<lambda>x. if x then eval_spec b cs hs ls i else Inr False)"
| "eval_spec Never cs hs ls i = Inr False"

section \<open>Names of atoms\<close>

text \<open>A pattern with optional literals is the list of the patterns without options.\<close>

definition matches :: "apat list list \<Rightarrow> string \<Rightarrow> nat list option" where
  "matches ps s = foldr (\<lambda>p acc. case match_atom p s of Some ns \<Rightarrow> Some ns | None \<Rightarrow> acc) ps None"

definition with_opt :: "string list \<Rightarrow> apat list list \<Rightarrow> apat list list" where
  "with_opt ws ps = concat (map (\<lambda>p. p # map (\<lambda>w. PLit w # p) ws) ps)"

type_synonym reader = "string \<Rightarrow> spec result option"

definition read_with :: "apat list list \<Rightarrow> (nat list \<Rightarrow> spec) \<Rightarrow> reader" where
  "read_with ps f s = map_option (\<lambda>ns. Inr (f ns)) (matches ps s)"

definition read_stack :: "bool \<Rightarrow> reader" where
  "read_stack simple s =
     (let f = (if simple then ''sma_stack'' else ''ema_stack''); r = drop (length f) s in
      if \<not> is_prefix f s then None
      else if r = [] then Some (Inr (Stack simple [7, 25, 50]))
      else if is_prefix ''_'' r \<and> drop 1 r \<noteq> [] \<and> list_all (\<lambda>c. is_digit c \<or> c = CHR ''_'') (drop 1 r)
      then
        let ws = split_at (CHR ''_'') (drop 1 r)
        in Some (if [] \<in> set ws then Inl (ValueError ''invalid literal for int()'') else Inr (Stack simple (map digits_value ws)))
      else None)"

definition above_pats :: "string \<Rightarrow> apat list list" where
  "above_pats f =
     map (\<lambda>p. PLit f # p)
       (with_opt [''_abv'', ''_above'']
         (map (\<lambda>p. POptU # PNum # p) (with_opt [''_abv'', ''_above''] [[]])))"

definition read_above :: "bool \<Rightarrow> reader" where
  "read_above simple = read_with (above_pats (if simple then ''sma'' else ''ema'')) (\<lambda>ns. Above simple (hd ns))"

definition read_rsi :: reader where
  "read_rsi s =
     (case match_atom [PLit ''rsi_'', PNum, PLit ''_>'', POptU, PNum] s of Some [p, lo] \<Rightarrow> Some (Inr (RsiRange p (int lo) 100))
      | _ \<Rightarrow>
     (case match_atom [PLit ''rsi_'', PNum, PLit ''_>'', POptU, PNum, PLit ''_<'', POptU, PNum] s of
        Some [p, lo, hi] \<Rightarrow> Some (Inr (RsiRange p (int lo) (int hi)))
      | _ \<Rightarrow>
     (case match_atom [PLit ''rsi_'', PNum, PLit ''_<'', POptU, PNum] s of Some [p, hi] \<Rightarrow> Some (Inr (RsiRange p (-1) (int hi)))
      | _ \<Rightarrow>
     (case match_atom [PLit ''rsi_'', PNum, PLit ''_'', PNum] s of Some [p, lo] \<Rightarrow> Some (Inr (RsiRange p (int lo) 100))
      | _ \<Rightarrow> None))))"

definition move_pats :: "string \<Rightarrow> string \<Rightarrow> apat list list" where
  "move_pats kind side =
     map (\<lambda>p. PLit (kind @ ''_'') # PNum # p)
       (with_opt [''b''] (map (\<lambda>p. PLit side # POptU # PNum # p) (with_opt [''pc''] [[]])))"

definition percent_of :: "nat \<Rightarrow> rat" where
  "percent_of v = (if v \<ge> 1 then of_nat v / 100 else of_nat v)"

definition read_mom :: reader where
  "read_mom = read_with (move_pats ''mom'' ''_gt'') (\<lambda>ns. Mom True (ns ! 0) (percent_of (ns ! 1)))"

definition read_dip :: reader where
  "read_dip = read_with (move_pats ''dip'' ''_lt'') (\<lambda>ns. Mom False (ns ! 0) (- percent_of (ns ! 1)))"

definition read_num :: "string \<Rightarrow> (nat \<Rightarrow> spec) \<Rightarrow> reader" where
  "read_num f g = read_with [[PLit (f @ ''_''), PNum]] (\<lambda>ns. g (hd ns))"

definition read_htf :: reader where
  "read_htf s =
     (case first_match [(''h4s'', [PLit ''h4_sma_abv_'', PNum]), (''h4e'', [PLit ''h4_ema_abv_'', PNum]),
                        (''h1s'', [PLit ''h1_sma_abv_'', PNum]), (''h1e'', [PLit ''h1_ema_abv_'', PNum])] s of
        Some (tag, [n]) \<Rightarrow>
          Some (Inr (Htf (if tag = ''h4s'' \<or> tag = ''h4e'' then BARS_PER_H4 else BARS_PER_H1) (tag = ''h4s'' \<or> tag = ''h1s'') n))
      | _ \<Rightarrow> None)"

definition read_bands :: "bool \<Rightarrow> reader" where
  "read_bands upper s =
     (let f = (if upper then ''bb_upper_'' else ''bb_lower_'') in
      case match_atom [PLit f, PNum, POptU] s of
        Some [n] \<Rightarrow> Some (Inr (Bands upper n 2))
      | _ \<Rightarrow> (case match_atom [PLit f, PNum, PLit ''_'', PNum] s of Some [n, d] \<Rightarrow> Some (Inr (Bands upper n d)) | _ \<Rightarrow> None))"

definition read_word :: "string \<Rightarrow> spec \<Rightarrow> reader" where
  "read_word w x s = (if s = w then Some (Inr x) else None)"

text \<open>Names that are refused: a volume the tape does not carry, and a wrapper for another time frame.\<close>

definition read_refused :: reader where
  "read_refused s =
     (if matches [[PLit ''mfi_'', PNum, PLit ''_>'', POptU, PNum], [PLit ''mfi_'', PNum, PLit ''_<'', POptU, PNum]] s \<noteq> None
      then Some (Inl (ValueError ''MFI requires OHLCV volume''))
      else if list_ex (\<lambda>tf. is_prefix (tf @ ''('') s \<and> ends_with '')'' s) [''daily'', ''h1'', ''m5'', ''1d'', ''4h'', ''15m'']
      then Some (Inl (ValueError ''multi-timeframe prefix is not supported''))
      else None)"

definition first_reader :: "reader list \<Rightarrow> reader" where
  "first_reader rs s = foldr (\<lambda>r acc. case r s of Some x \<Rightarrow> Some x | None \<Rightarrow> acc) rs None"

text \<open>The forms the precomputation knows, and the others\<close>

definition array_readers :: "reader list" where
  "array_readers =
     [read_stack True, read_stack False, read_above True, read_above False, read_rsi, read_mom, read_dip,
      read_num ''don_hi'' (Don True), read_num ''don_lo'' (Don False),
      read_num ''near_swing_hi'' (Swing True), read_num ''near_swing_lo'' (Swing False),
      read_num ''dbl_top'' (Dbl True), read_num ''dbl_bot'' (Dbl False), read_htf]"

definition scalar_readers :: "reader list" where
  "scalar_readers =
     [read_word ''rsi_momentum'' (Both (Above False 20) (RsiRange 14 50 100)),
      read_word ''robust_open'' (Both (Stack True [7, 25, 50]) (RsiRange 20 55 100)),
      read_with [[PLit ''vol_lowsm_'', PNum, PLit ''_'', PNum]] (\<lambda>ns. VolLow (ns ! 0) (ns ! 1)),
      read_refused, read_bands False, read_bands True,
      read_word ''wt_cross_up_os'' WaveUp, read_word ''wt_below_os'' WaveBelow, read_word ''wt_cross_down_ob'' WaveDown,
      read_with [[PLit ''sma'', PNum, PLit ''_rsi'', PNum]] (\<lambda>ns. Both (Above True (ns ! 0)) (RsiRange 14 (int (ns ! 1)) 100)),
      read_with [[PLit ''sma'', PNum, PLit ''_mom'', PNum, PLit ''_'', PNum]]
        (\<lambda>ns. Both (Above True (ns ! 0)) (Mom True (ns ! 1) (of_nat (ns ! 2) / 100)))]"

definition spec_of :: "string \<Rightarrow> spec result" where
  "spec_of s =
     (case first_reader array_readers s of
        Some x \<Rightarrow> x
      | None \<Rightarrow> (case first_reader scalar_readers s of Some x \<Rightarrow> x | None \<Rightarrow> Inr Never))"

section \<open>Expressions\<close>

definition strip_parens :: "string \<Rightarrow> string" where
  "strip_parens s =
     (let p = (\<lambda>c. c = CHR ''('' \<or> c = CHR '')'' \<or> c = CHR '' '') in rev (dropWhile p (rev (dropWhile p s))))"

definition splits_on :: "char \<Rightarrow> string \<Rightarrow> bool" where
  "splits_on c s \<longleftrightarrow>
     c \<in> set s \<and> \<not> (is_prefix ''('' s \<and> ends_with '')'' s \<and> c \<notin> set (butlast (tl s)))"

text \<open>The split of an expression: whether it is a conjunction, and its parts\<close>

definition split_top :: "string \<Rightarrow> (bool \<times> string list) option" where
  "split_top s =
     (if splits_on (CHR ''&'') s then Some (True, map strip_parens (split_at (CHR ''&'') s))
      else if splits_on (CHR ''|'') s then Some (False, map strip_parens (split_at (CHR ''|'') s))
      else None)"

text \<open>The recursion both readers of an expression follow; a leaf keeps the part as it was cut.\<close>

datatype tree = Leaf string | Node bool "tree list"

lemma trim_length: "length (rev (dropWhile p (rev (dropWhile p s)))) \<le> length s"
  using length_dropWhile_le [of p "rev (dropWhile p s)"] length_dropWhile_le [of p s] by simp

lemma split_at_length: "w \<in> set (split_at c s) \<Longrightarrow> length w \<le> length s"
proof (induction c s arbitrary: w rule: split_at.induct)
  case (2 c x xs)
  then show ?case by (cases "split_at c xs") (auto split: if_splits intro: le_SucI)
qed simp

lemma split_at_shorter: "w \<in> set (split_at c s) \<Longrightarrow> c \<in> set s \<Longrightarrow> length w < length s"
proof (induction c s arbitrary: w rule: split_at.induct)
  case (2 c x xs)
  obtain v vs where v: "split_at c xs = v # vs" by (cases "split_at c xs") auto
  show ?case
  proof (cases "x = c")
    case True
    then show ?thesis using "2.prems"(1) split_at_length [of w c xs] by auto
  next
    case False
    then have c: "c \<in> set xs" using "2.prems"(2) by simp
    have "length v < length xs" using "2.IH"(2) [OF False _ c] v by simp
    moreover have "w \<in> set vs \<Longrightarrow> length w < length xs" using "2.IH"(2) [OF False _ c] v by simp
    ultimately show ?thesis using "2.prems"(1) v False by auto
  qed
qed simp

lemma split_top_shorter:
  assumes "split_top (strip s) = Some (b, ps)" "w \<in> set ps"
  shows "length w < length s"
proof -
  obtain c v where "c \<in> set (strip s)" "v \<in> set (split_at c (strip s))" "w = strip_parens v"
    using assms by (auto simp: split_top_def splits_on_def split: if_splits)
  moreover have "length (strip_parens v) \<le> length v" unfolding strip_parens_def Let_def by (rule trim_length)
  ultimately have "length w < length (strip s)" using split_at_shorter [of v c "strip s"] by simp
  also have "\<dots> \<le> length s" unfolding strip_def by (rule trim_length)
  finally show ?thesis .
qed

function tree_of :: "string \<Rightarrow> tree" where
  "tree_of s = (case split_top (strip s) of None \<Rightarrow> Leaf s | Some (b, ps) \<Rightarrow> Node b (map tree_of ps))"
  by pat_completeness auto
termination by (relation "measure length") (auto intro: split_top_shorter)

declare tree_of.simps [simp del]

section \<open>Strategies\<close>

datatype strategy = Atom spec | All "strategy list" | Any "strategy list"

lemma map_results_cong [fundef_cong]:
  "xs = ys \<Longrightarrow> (\<And>x. x \<in> set ys \<Longrightarrow> f x = g x) \<Longrightarrow> map_results f xs = map_results g ys"
  by (induction ys arbitrary: xs) simp_all

fun strategy_of_tree :: "tree \<Rightarrow> strategy result" where
  "strategy_of_tree (Leaf s) = bind_result (spec_of (strip s)) (\<lambda>x. Inr (Atom x))"
| "strategy_of_tree (Node every ts) =
     bind_result (map_results strategy_of_tree ts) (\<lambda>xs. Inr (if every then All xs else Any xs))"

definition parse_strategy :: "string \<Rightarrow> strategy result" where
  "parse_strategy s = strategy_of_tree (tree_of s)"

text \<open>\<open>all\<close> and \<open>any\<close> stop at the first part that decides.\<close>

fun all_results :: "bool result list \<Rightarrow> bool result" where
  "all_results [] = Inr True"
| "all_results (r # rs) = bind_result r (\<lambda>x. if x then all_results rs else Inr False)"

fun any_results :: "bool result list \<Rightarrow> bool result" where
  "any_results [] = Inr False"
| "any_results (r # rs) = bind_result r (\<lambda>x. if x then Inr True else any_results rs)"

fun eval_strategy :: "strategy \<Rightarrow> ohlc_atom" where
  "eval_strategy (Atom x) cs hs ls i = eval_spec x cs hs ls i"
| "eval_strategy (All xs) cs hs ls i = all_results (map (\<lambda>x. eval_strategy x cs hs ls i) xs)"
| "eval_strategy (Any xs) cs hs ls i = any_results (map (\<lambda>x. eval_strategy x cs hs ls i) xs)"

end
