(* ===== verification/Precompute.thy ===== *)
theory Precompute
  imports StrategyLanguage StrategyBacktest
begin

text \<open>
  The entry flags of a whole tape (\<open>signals/precompute.py\<close>), which the backtest reads in place of the value at each bar:
  one pass per atom, with moving pointers over the pivots, and the combination of the parts of an expression. The caches
  key on the content of the tape and return what is computed here.
\<close>

section \<open>Series\<close>

definition sma_array :: "nat \<Rightarrow> rat list \<Rightarrow> series" where
  "sma_array n cs =
     (if n = 0 \<or> length cs < n then nan (length cs)
      else nan (n - 1) @ map (\<lambda>i. Some (sum_list (take n (drop (i + 1 - n) cs)) / of_nat n)) [n - 1..<length cs])"

definition ma_array :: "bool \<Rightarrow> nat \<Rightarrow> rat list \<Rightarrow> series" where
  "ma_array simple n cs = (if simple then sma_array n cs else ema_series n cs)"

section \<open>Swings\<close>

text \<open>The pointer moves over the pivots that are confirmed at a bar; the last one, or the last two, are kept.\<close>

fun advance :: "nat \<Rightarrow> nat \<Rightarrow> rat option \<times> (nat \<times> rat) list \<Rightarrow> rat option \<times> (nat \<times> rat) list" where
  "advance k i (l, []) = (l, [])"
| "advance k i (l, (j, x) # ps) = (if j + k \<le> i then advance k i (Some x, ps) else (l, (j, x) # ps))"

fun near_sweep :: "nat \<Rightarrow> (nat \<Rightarrow> rat \<Rightarrow> bool) \<Rightarrow> rat option \<times> (nat \<times> rat) list \<Rightarrow> nat list \<Rightarrow> bool list" where
  "near_sweep k ok st [] = []"
| "near_sweep k ok st (i # is) =
     (let st = advance k i st in (case fst st of None \<Rightarrow> False | Some l \<Rightarrow> ok i l) # near_sweep k ok st is)"

definition near_swing_signal :: "bool \<Rightarrow> nat \<Rightarrow> rat list \<Rightarrow> rat list \<Rightarrow> rat list \<Rightarrow> bool list" where
  "near_swing_signal high k cs hs ls =
     (let atrs = atr_series NEAR_ATR_PERIOD hs ls cs in
      near_sweep k (\<lambda>i l. is_near_level (cs ! i) l (atrs ! i)) (None, pivot_arrays high (if high then hs else ls) k) [0..<length cs])"

fun advance2 ::
    "nat \<Rightarrow> nat \<Rightarrow> rat option \<times> rat option \<times> (nat \<times> rat) list \<Rightarrow> rat option \<times> rat option \<times> (nat \<times> rat) list" where
  "advance2 k i (older, newer, []) = (older, newer, [])"
| "advance2 k i (older, newer, (j, x) # ps) =
     (if j + k \<le> i then advance2 k i (newer, Some x, ps) else (older, newer, (j, x) # ps))"

fun dbl_sweep ::
    "nat \<Rightarrow> (nat \<Rightarrow> rat \<Rightarrow> rat \<Rightarrow> bool) \<Rightarrow> rat option \<times> rat option \<times> (nat \<times> rat) list \<Rightarrow> nat list \<Rightarrow> bool list" where
  "dbl_sweep k ok st [] = []"
| "dbl_sweep k ok st (i # is) =
     (let st = advance2 k i st
      in (case (fst st, fst (snd st)) of (Some a, Some b) \<Rightarrow> ok i a b | _ \<Rightarrow> False) # dbl_sweep k ok st is)"

definition dbl_signal :: "bool \<Rightarrow> nat \<Rightarrow> rat list \<Rightarrow> rat list \<Rightarrow> rat list \<Rightarrow> bool list" where
  "dbl_signal high k cs hs ls =
     (let atrs = atr_series NEAR_ATR_PERIOD hs ls cs in
      dbl_sweep k (\<lambda>i older newer. swings_hold older newer (atrs ! i) \<and> (if high then cs ! i < newer else cs ! i > newer))
        (None, None, pivot_arrays high (if high then hs else ls) k) [0..<length cs])"

section \<open>The other atoms\<close>

definition don_signal :: "bool \<Rightarrow> nat \<Rightarrow> rat list \<Rightarrow> rat list \<Rightarrow> rat list \<Rightarrow> bool list" where
  "don_signal high n cs hs ls =
     (if high
      then
        let level = range_before True hs n
        in map (\<lambda>i. case level ! i of None \<Rightarrow> False | Some v \<Rightarrow> cs ! i > v) [0..<length cs]
      else
        let level = range_before False ls n; atrs = atr_series NEAR_ATR_PERIOD hs ls cs
        in map (\<lambda>i. case level ! i of None \<Rightarrow> False | Some v \<Rightarrow> is_near_level (cs ! i) v (atrs ! i)) [0..<length cs])"

definition compare_ma :: "rat list \<Rightarrow> series \<Rightarrow> bool list" where
  "compare_ma cs ma = map (\<lambda>i. close_over (cs ! i) (ma ! i)) [0..<length cs]"

definition stack_signal :: "bool \<Rightarrow> nat list \<Rightarrow> rat list \<Rightarrow> bool list result" where
  "stack_signal simple periods cs =
     (let ss = map (\<lambda>p. ma_array simple p cs) periods
      in map_results (\<lambda>i. stack_holds (cs ! i) (map (\<lambda>s. s ! i) ss)) [0..<length cs])"

definition mom_signal :: "bool \<Rightarrow> nat \<Rightarrow> rat \<Rightarrow> rat list \<Rightarrow> bool list result" where
  "mom_signal gt lookback thr cs =
     (if lookback = 0 then Inr (replicate (length cs) False)
      else
        bind_result (map_results (\<lambda>i. bind_result (return_at lookback cs i) (\<lambda>r. Inr (moved gt thr r))) [lookback..<length cs])
          (\<lambda>bs. Inr (replicate (min lookback (length cs)) False @ bs)))"

definition htf_signal :: "nat \<Rightarrow> nat \<Rightarrow> bool \<Rightarrow> rat list \<Rightarrow> bool list" where
  "htf_signal bars_per period simple cs =
     (if period = 0 \<or> bars_per = 0 then replicate (length cs) False
      else
        let htf = htf_closes cs bars_per; ma = ma_array simple period htf
        in map (\<lambda>i.
             let n = completed_htf_count i bars_per; m = (if n > length htf then length htf else n)
             in if n < period \<or> m < period then False
                else (case ma ! (m - 1) of None \<Rightarrow> False | Some v \<Rightarrow> htf ! (m - 1) > v)) [0..<length cs])"

definition rsi_signal :: "nat \<Rightarrow> int \<Rightarrow> int \<Rightarrow> rat list \<Rightarrow> bool list" where
  "rsi_signal period lo hi cs =
     (if period = 0 then replicate (length cs) False
      else
        map (\<lambda>i.
          if i < period then False
          else
            let ds = map (\<lambda>j. cs ! j - cs ! (j - 1)) [i - period + 1..<i + 1];
                avg_gain = sum_list (filter (\<lambda>d. d \<ge> 0) ds) / of_nat period;
                avg_loss = sum_list (map uminus (filter (\<lambda>d. \<not> d \<ge> 0) ds)) / of_nat period;
                r = (if avg_loss = 0 then (if avg_gain > 0 then 100 else 50) else 100 - 100 / (1 + avg_gain / avg_loss))
            in r > of_int lo \<and> r \<le> of_int hi) [0..<length cs])"

section \<open>An expression\<close>

text \<open>The atoms with a pass of their own; the others are evaluated bar by bar.\<close>

fun atom_signal :: "spec \<Rightarrow> rat list \<Rightarrow> rat list \<Rightarrow> rat list \<Rightarrow> bool list result" where
  "atom_signal (Swing high k) cs hs ls = Inr (near_swing_signal high k cs hs ls)"
| "atom_signal (Dbl high k) cs hs ls = Inr (dbl_signal high k cs hs ls)"
| "atom_signal (Don high n) cs hs ls = Inr (don_signal high n cs hs ls)"
| "atom_signal (Stack simple ps) cs hs ls = stack_signal simple ps cs"
| "atom_signal (Above simple n) cs hs ls = Inr (compare_ma cs (ma_array simple n cs))"
| "atom_signal (Mom gt lb thr) cs hs ls = mom_signal gt lb thr cs"
| "atom_signal (Htf bars_per simple n) cs hs ls = Inr (htf_signal bars_per n simple cs)"
| "atom_signal (RsiRange n lo hi) cs hs ls = Inr (rsi_signal n lo hi cs)"
| "atom_signal x cs hs ls = map_results (\<lambda>i. eval_spec x cs (Some hs) (Some ls) (Some i)) [0..<length cs]"

definition fallback_signal :: "spec \<Rightarrow> rat list \<Rightarrow> rat list \<Rightarrow> rat list \<Rightarrow> bool list result" where
  "fallback_signal x cs hs ls = map_results (\<lambda>i. eval_spec x cs (Some hs) (Some ls) (Some i)) [0..<length cs]"

definition name_signal :: "string \<Rightarrow> rat list \<Rightarrow> rat list \<Rightarrow> rat list \<Rightarrow> bool list result" where
  "name_signal s cs hs ls =
     (case first_reader array_readers s of
        Some r \<Rightarrow> bind_result r (\<lambda>x. atom_signal x cs hs ls)
      | None \<Rightarrow> bind_result (spec_of s) (\<lambda>x. fallback_signal x cs hs ls))"

fun combine :: "bool \<Rightarrow> bool list list \<Rightarrow> bool list" where
  "combine every [] = []"
| "combine every [x] = x"
| "combine every (x # y # zs) = combine every (map2 (\<lambda>a b. if every then a \<and> b else a \<or> b) x y # zs)"

fun empty_leaf :: "tree \<Rightarrow> bool" where
  "empty_leaf (Leaf s) = (s = [])"
| "empty_leaf (Node every ts) = False"

text \<open>Empty parts of an expression are left out here.\<close>

fun tree_signal :: "rat list \<Rightarrow> rat list \<Rightarrow> rat list \<Rightarrow> tree \<Rightarrow> bool list result" where
  "tree_signal cs hs ls (Leaf s) = name_signal (strip s) cs hs ls"
| "tree_signal cs hs ls (Node every ts) =
     bind_result (map_results (tree_signal cs hs ls) (filter (\<lambda>t. \<not> empty_leaf t) ts)) (\<lambda>parts.
       Inr (if parts = [] then replicate (length cs) False else combine every parts))"

definition signal_series :: "string \<Rightarrow> rat list \<Rightarrow> rat list \<Rightarrow> rat list \<Rightarrow> bool list result" where
  "signal_series s cs hs ls = tree_signal cs hs ls (tree_of s)"

section \<open>The backtest of a name\<close>

text \<open>
  \<open>backtest\<close> with a string: the flags are computed before the first bar, unless nothing is left of the string. A high and
  a low are given for every close.
\<close>

definition backtest_name ::
    "test_params \<Rightarrow> string \<Rightarrow> rat list \<Rightarrow> rat list \<Rightarrow> rat list \<Rightarrow> test_result result" where
  "backtest_name p s cs hs ls =
     bind_result (parse_strategy s) (\<lambda>st.
       if strip s = [] then backtest p (\<lambda>i. eval_strategy st cs (Some hs) (Some ls) (Some i) = Inr True) cs hs ls
       else bind_result (signal_series (strip s) cs hs ls) (\<lambda>flags. backtest p (\<lambda>i. flags ! i) cs hs ls))"

end
