(* ===== verification/LanguageFacts.thy ===== *)
theory LanguageFacts
  imports StrategyLanguage StructureFacts IndicatorFacts Precompute StrategyBacktestFacts
begin

text \<open>
  No strategy reads a later bar: cutting the tape after a bar does not change the value of a name at the bar. The averages
  and the oscillator are operations of \<open>causal\<close>; the windows, the returns and the higher time frames end at the bar.
\<close>

section \<open>Averages\<close>

lemma ema_series_seeded:
  "ema_series n = seeded n (\<lambda>w. sum_list w / of_nat n)
     (\<lambda>v x. x * (2 / (of_nat n + 1)) + v * (1 - 2 / (of_nat n + 1))) Some"
  by (rule ext) (simp add: ema_series_def seeded_def Let_def)

lemma causal_ema_series: "causal (ema_series n)"
  unfolding ema_series_seeded by (rule causal_seeded)

lemma window_cut: "n \<le> Suc i \<Longrightarrow> take n (drop (Suc i - n) (take (Suc i) cs)) = take n (drop (Suc i - n) cs)"
  by (simp add: drop_take)

lemmas window_simps = window_cut not_less Suc_eq_plus1 [symmetric] simp_thms if_True

lemma sma_at_cut: "sma_at n (take (Suc i) cs) i = sma_at n cs i"
  by (cases "Suc i < n") (simp_all only: sma_at_def window_simps)

lemma ema_at_cut: "ema_at n (take (Suc i) cs) i = ema_at n cs i"
  using causal.nth_take_eq [OF causal_ema_series, of i "Suc i" n cs] by (simp add: ema_at_def)

lemma ma_at_cut: "ma_at simple n (take (Suc i) cs) i = ma_at simple n cs i"
  by (simp add: ma_at_def sma_at_cut ema_at_cut)

lemma window_moments_cut: "window_moments n (take (Suc i) cs) i = window_moments n cs i"
  by (cases "Suc i < n") (simp_all only: window_moments_def window_simps)

section \<open>Moves\<close>

lemma rsi_at_cut: "rsi_at n (take (Suc i) cs) i = rsi_at n cs i"
proof -
  have "map (\<lambda>j. take (Suc i) cs ! j - take (Suc i) cs ! (j - 1)) [i - n + 1..<i + 1] =
      map (\<lambda>j. cs ! j - cs ! (j - 1)) [i - n + 1..<i + 1]"
    by (rule map_cong) (auto simp: less_Suc_eq_le)
  then show ?thesis unfolding rsi_at_def Let_def by (simp only:)
qed

lemma return_at_cut: "return_at lb (take (Suc i) cs) i = return_at lb cs i"
  by (simp add: return_at_def less_Suc_eq_le)

lemma moves_at_cut: "moves_at lb (take (Suc i) cs) i = moves_at lb cs i"
  unfolding moves_at_def by (rule map_results_cong) (auto simp: move_at_def less_Suc_eq_le)

lemma vol_ratio_cut: "vol_ratio a b (take (Suc i) cs) i = vol_ratio a b cs i"
  by (simp add: vol_ratio_def moves_at_cut)

section \<open>Higher time frames\<close>

lemma htf_closes_length [simp]: "length (htf_closes cs b) = length cs div b"
  by (simp add: htf_closes_def)

lemma bucket_inside: "k < Suc i div b \<Longrightarrow> htf_bucket_close_index k b < Suc i"
proof -
  assume "k < Suc i div b"
  then have "Suc k * b \<le> Suc i" by (metis Suc_leI div_times_less_eq_dividend le_trans mult_le_mono1)
  moreover have "0 < b" using \<open>k < Suc i div b\<close> by (cases b) auto
  ultimately show ?thesis by (simp add: htf_bucket_close_index_def)
qed

lemma htf_closes_cut:
  assumes "i < length cs"
  shows "htf_closes (take (Suc i) cs) b = take (Suc i div b) (htf_closes cs b)"
proof -
  have "Suc i div b \<le> length cs div b" using assms by (intro div_le_mono) simp
  moreover have "length (take (Suc i) cs) = Suc i" using assms by simp
  ultimately show ?thesis using bucket_inside [of _ i b] by (simp add: htf_closes_def take_map take_upt)
qed

lemma htf_cut:
  assumes "i < length cs"
  shows "htf_close_above_ma b n simple (take (Suc i) cs) i = htf_close_above_ma b n simple cs i"
proof -
  let ?m = "Suc i div b"
  have le: "?m \<le> length cs div b" using assms by (intro div_le_mono) simp
  show ?thesis
  proof (cases "n = 0 \<or> b = 0 \<or> ?m < n")
    case False
    then obtain j where j: "?m = Suc j" by (cases ?m) auto
    then show ?thesis using False le assms ma_at_cut [of simple n j "htf_closes cs b"]
      by (simp add: htf_close_above_ma_def completed_htf_count_def htf_closes_cut Let_def cong: option.case_cong)
  qed (auto simp: htf_close_above_ma_def completed_htf_count_def)
qed

section \<open>WaveTrend\<close>

lemma nan_take [simp]: "take m (nan n) = nan (min m n)"
  by (simp add: nan_def min_def)

lemma ema_run_length [simp]: "length (ema_run k v xs) = length xs"
  by (induction k v xs rule: ema_run.induct) simp_all

lemma ema_run_take: "ema_run k v (take m xs) = take m (ema_run k v xs)"
proof (induction k v xs arbitrary: m rule: ema_run.induct)
  case (2 k v xs)
  then show ?case by (cases m) (simp_all add: min_def)
next
  case (3 k v x xs)
  then show ?case by (cases m) simp_all
qed simp

lemma takeWhile_take: "takeWhile P (take m xs) = take m (takeWhile P xs)"
proof (induction xs arbitrary: m)
  case (Cons x xs)
  then show ?case by (cases m) simp_all
qed simp

definition nan_prefix :: "series \<Rightarrow> nat" where
  "nan_prefix xs = length (takeWhile (\<lambda>x. x = None) xs)"

lemma wt_ema_alt:
  "wt_ema xs p =
     (let s = nan_prefix xs + p; seed = take p (drop (nan_prefix xs) xs) in
      if p = 0 \<or> length xs < s \<or> None \<in> set seed then nan (length xs)
      else
        let v = sum_list (map the seed) / of_nat p
        in nan (s - 1) @ Some v # ema_run (2 / (of_nat p + 1)) v (drop s xs))"
  by (simp only: wt_ema_def nan_prefix_def Let_def)

lemma wt_ema_length [simp]: "length (wt_ema xs p) = length xs"
  by (auto simp: wt_ema_alt Let_def)

lemma wt_ema_take: "wt_ema (take m xs) p = take m (wt_ema xs p)"
proof (cases "m < nan_prefix xs + p \<or> p = 0")
  case True
  have "nan_prefix (take m xs) = min m (nan_prefix xs)"
    by (simp add: nan_prefix_def takeWhile_take min.commute)
  then have "p = 0 \<or> length (take m xs) < nan_prefix (take m xs) + p" using True by (auto simp: min_def)
  then have "wt_ema (take m xs) p = nan (min m (length xs))" unfolding wt_ema_alt Let_def by (auto simp: min.commute)
  moreover have "take m (wt_ema xs p) = nan (min m (length xs))"
  proof (cases "p = 0 \<or> length xs < nan_prefix xs + p \<or> None \<in> set (take p (drop (nan_prefix xs) xs))")
    case False
    then have "take m (wt_ema xs p) = take m (nan (nan_prefix xs + p - 1))"
      using True unfolding wt_ema_alt Let_def by (simp add: nan_def)
    also have "m \<le> nan_prefix xs + p - 1 \<and> m \<le> length xs" using True False by linarith
    then have "take m (nan (nan_prefix xs + p - 1)) = nan (min m (length xs))" by simp
    finally show ?thesis .
  qed (simp add: wt_ema_alt Let_def)
  ultimately show ?thesis by simp
next
  case False
  then have w: "nan_prefix (take m xs) = nan_prefix xs" by (simp add: nan_prefix_def takeWhile_take)
  have seed: "take p (drop (nan_prefix xs) (take m xs)) = take p (drop (nan_prefix xs) xs)"
  proof -
    have "min p (m - nan_prefix xs) = p" using False by arith
    then show ?thesis by (simp add: drop_take)
  qed
  have len: "length (take m xs) < nan_prefix xs + p \<longleftrightarrow> length xs < nan_prefix xs + p" using False by (simp add: min_less_iff_disj)
  show ?thesis
    using False unfolding wt_ema_alt Let_def w seed len
    by (auto simp: drop_take ema_run_take take_Cons' min.commute)
qed

lemma causal_wt_ema: "causal (\<lambda>xs. wt_ema xs p)"
  by unfold_locales (auto simp: wt_ema_take)

lemma causal_wt_sma: "causal (\<lambda>xs. wt_sma xs p)"
proof (rule causalI [where g = "\<lambda>w. if p = 0 \<or> length w < p then None
    else let w = take p (drop (length w - p) w) in if None \<in> set w then None else Some (sum_list (map the w) / of_nat p)"])
  show "length (wt_sma xs p) = length xs" for xs by (simp add: wt_sma_def)
  fix xs :: series and t
  assume t: "t < length xs"
  then have len: "length (take (Suc t) xs) = Suc t" by simp
  have "take p (drop (Suc t - p) (take (Suc t) xs)) = take p (drop (Suc t - p) xs)" if "p \<le> Suc t"
    using that by (rule window_cut)
  then show "wt_sma xs p ! t = (if p = 0 \<or> length (take (Suc t) xs) < p then None
      else let w = take p (drop (length (take (Suc t) xs) - p) (take (Suc t) xs))
        in if None \<in> set w then None else Some (sum_list (map the w) / of_nat p))"
    unfolding len using t by (auto simp: wt_sma_def not_less)
qed

text \<open>The two lines of the oscillator as operations on its source\<close>

definition wave_esa :: "rat list \<Rightarrow> series" where
  "wave_esa ap = wt_ema (map Some ap) CHANNEL_LEN"

definition wave_dev :: "rat list \<Rightarrow> series" where
  "wave_dev ap = wt_ema (map2 (\<lambda>a e. map_option (\<lambda>x. \<bar>a - x\<bar>) e) ap (wave_esa ap)) CHANNEL_LEN"

definition wave_line :: "rat list \<Rightarrow> series" where
  "wave_line ap = wt_ema (map2 (\<lambda>a (e, x). channel_index a e x) ap (zip (wave_esa ap) (wave_dev ap))) AVERAGE_LEN"

lemma wavetrend_lines:
  "wavetrend_series hs ls cs =
     (wave_line (hlc3_series hs ls cs), wt_sma (wave_line (hlc3_series hs ls cs)) SIGNAL_LEN)"
  by (simp add: wavetrend_series_def wave_line_def wave_dev_def wave_esa_def Let_def)

lemma causal_wave_esa: "causal wave_esa"
  unfolding wave_esa_def [abs_def] by (intro causal_comp [OF causal_wt_ema] causal_map causal_id)

lemma causal_wave_dev: "causal wave_dev"
  unfolding wave_dev_def [abs_def] by (intro causal_comp [OF causal_wt_ema] causal_map2 causal_id causal_wave_esa)

lemma causal_wave_line: "causal wave_line"
  unfolding wave_line_def [abs_def]
  by (intro causal_comp [OF causal_wt_ema] causal_map2 causal_zip causal_id causal_wave_esa causal_wave_dev)

lemma causal_wave_signal: "causal (\<lambda>ap. wt_sma (wave_line ap) SIGNAL_LEN)"
  by (intro causal_comp [OF causal_wt_sma] causal_wave_line)

lemma hlc3_cut:
  "length hs = length cs \<Longrightarrow> length ls = length cs \<Longrightarrow>
     hlc3_series (take m hs) (take m ls) (take m cs) = take m (hlc3_series hs ls cs)"
  by (auto simp: hlc3_series_def take_map take_upt intro!: nth_equalityI)

lemma wavetrend_cut:
  assumes "length hs = length cs" "length ls = length cs" "j \<le> i"
  shows "fst (wavetrend_series (take (Suc i) hs) (take (Suc i) ls) (take (Suc i) cs)) ! j = fst (wavetrend_series hs ls cs) ! j"
    "snd (wavetrend_series (take (Suc i) hs) (take (Suc i) ls) (take (Suc i) cs)) ! j = snd (wavetrend_series hs ls cs) ! j"
  using causal.nth_take_eq [OF causal_wave_line, of j "Suc i"] causal.nth_take_eq [OF causal_wave_signal, of j "Suc i"] assms
  by (simp_all add: wavetrend_lines hlc3_cut)

section \<open>Names\<close>

lemma wave_atom_causal:
  assumes "\<And>w1 w2 v1 v2 i. (\<And>j. j \<le> i \<Longrightarrow> w1 ! j = v1 ! j \<and> w2 ! j = v2 ! j) \<Longrightarrow> f w1 w2 i = f v1 v2 i"
  shows "causal_atom (wt_atom lag f)"
  unfolding causal_atom_def
proof (intro allI impI)
  fix cs hs ls :: "rat list" and i :: nat
  assume t: "length hs = length cs" "length ls = length cs" "i < length cs"
  let ?w = "wavetrend_series (take (Suc i) hs) (take (Suc i) ls) (take (Suc i) cs)" and ?v = "wavetrend_series hs ls cs"
  have "f (fst ?w) (snd ?w) i = f (fst ?v) (snd ?v) i" using wavetrend_cut [OF t(1,2)] by (intro assms) simp
  then show "cut (Suc i) (wt_atom lag f) cs hs ls i = wt_atom lag f cs (Some hs) (Some ls) (Some i)"
    using t by (simp add: cut_def wt_atom_def require_ohlc_def idx_of_def Let_def case_prod_beta)
qed

lemma crosses_level_cong:
  assumes "\<And>j. j \<le> i \<Longrightarrow> w1 ! j = v1 ! j \<and> w2 ! j = v2 ! j"
  shows "(crosses p q w1 w2 i \<and> r (w2 ! i)) = (crosses p q v1 v2 i \<and> r (v2 ! i))"
  using assms by (simp add: crosses_def)

lemma wave_atoms_causal: "causal_atom wt_cross_up_os" "causal_atom wt_below_os" "causal_atom wt_cross_down_ob"
  unfolding wt_cross_up_os_def wt_below_os_def wt_cross_down_ob_def cross_up_def cross_down_def
  by (intro wave_atom_causal crosses_level_cong; simp)+

lemmas cut_simps = sma_at_cut ma_at_cut window_moments_cut rsi_at_cut return_at_cut vol_ratio_cut htf_cut

lemma causal_atomI:
  assumes "\<And>cs hs ls i. length hs = length cs \<Longrightarrow> length ls = length cs \<Longrightarrow> i < length cs \<Longrightarrow>
      f (take (Suc i) cs) (Some (take (Suc i) hs)) (Some (take (Suc i) ls)) (Some i) = f cs (Some hs) (Some ls) (Some i)"
  shows "causal_atom f"
  using assms by (simp add: causal_atom_def cut_def)

lemma causal_atomD:
  "causal_atom f \<Longrightarrow> length hs = length cs \<Longrightarrow> length ls = length cs \<Longrightarrow> i < length cs \<Longrightarrow>
     f (take (Suc i) cs) (Some (take (Suc i) hs)) (Some (take (Suc i) ls)) (Some i) = f cs (Some hs) (Some ls) (Some i)"
  by (simp add: causal_atom_def cut_def)

lemma spec_causal: "causal_atom (eval_spec x)"
proof (induction x)
  case (Both a b)
  show ?case by (rule causal_atomI) (simp add: causal_atomD [OF Both(1)] causal_atomD [OF Both(2)] cong: if_cong)
next
  case (Don high n)
  then show ?case using structure_atoms_causal(1,2) [of n] by (cases high) (simp_all add: causal_atom_def cut_def)
next
  case (Swing high k)
  then show ?case using structure_atoms_causal(3) [of high k] by (simp add: causal_atom_def cut_def)
next
  case (Dbl high k)
  then show ?case using structure_atoms_causal(4) [of high k] by (simp add: causal_atom_def cut_def)
qed (use wave_atoms_causal in \<open>auto simp: causal_atom_def cut_def idx_of_def cut_simps Let_def\<close>)

lemma strategy_causal: "causal_atom (eval_strategy st)"
proof (induction st)
  case (Atom x)
  then show ?case using spec_causal [of x] by (simp add: causal_atom_def cut_def)
next
  case (All xs)
  then show ?case by (intro causal_atomI) (simp add: causal_atomD cong: map_cong)
next
  case (Any xs)
  then show ?case by (intro causal_atomI) (simp add: causal_atomD cong: map_cong)
qed

text \<open>
  The pass over a tape computes what the value at a bar computes: the moving pointers stand behind the pivots that are
  confirmed at the bar, and the flag of every atom, and of every expression with no empty part, is its value.
\<close>

section \<open>Pivots behind the pointer\<close>

lemma takeWhile_filter: "sorted_wrt (\<lambda>x y. P y \<longrightarrow> P x) xs \<Longrightarrow> takeWhile P xs = filter P xs"
  by (induction xs) (auto simp: filter_empty_conv)

lemma filter_upt_le: "filter (\<lambda>j. j + k \<le> i) [a..<b] = [a..<min b (Suc i - k)]"
proof (induction b)
  case (Suc b)
  consider "a \<le> b" "b + k \<le> i" | "b < a" | "a \<le> b" "i < b + k" by linarith
  then show ?case
  proof cases
    case 1
    then have "min b (Suc i - k) = b" "min (Suc b) (Suc i - k) = Suc b" by arith+
    then show ?thesis using Suc 1 by simp
  next
    case 3
    then have "min b (Suc i - k) = min (Suc b) (Suc i - k)" by arith
    then show ?thesis using Suc 3 by simp
  qed auto
qed simp

definition confirmed :: "bool \<Rightarrow> rat list \<Rightarrow> nat \<Rightarrow> nat \<Rightarrow> (nat \<times> rat) list" where
  "confirmed h vals k i = takeWhile (\<lambda>p. fst p + k \<le> i) (pivot_arrays h vals k)"

lemma confirmed_swings_at:
  assumes "i < length vals"
  shows "confirmed h vals k i = swings_at h vals k i"
proof (cases "k < 1 \<or> length vals < 2 * k + 1")
  case True
  then show ?thesis using assms by (auto simp: confirmed_def pivot_arrays_def swings_at_def)
next
  case False
  define js where "js = filter (pivot_at h vals k) [k..<length vals - k]"
  have "sorted js" by (simp add: js_def sorted_wrt_filter)
  then have "sorted_wrt (\<lambda>x y. y + k \<le> i \<longrightarrow> x + k \<le> i) js"
    by (rule sorted_wrt_mono_rel [rotated]) auto
  then have t: "takeWhile (\<lambda>j. j + k \<le> i) js = filter (\<lambda>j. j + k \<le> i) js" by (rule takeWhile_filter)
  also have "\<dots> = filter (pivot_at h vals k) (filter (\<lambda>j. j + k \<le> i) [k..<length vals - k])"
    by (simp add: js_def conj_commute)
  also have "filter (\<lambda>j. j + k \<le> i) [k..<length vals - k] = [k..<Suc i - k]"
    using assms by (simp add: filter_upt_le min_absorb2)
  finally show ?thesis using False
    by (simp add: confirmed_def pivot_arrays_spec js_def swings_at_def takeWhile_map comp_def)
qed

lemma confirmed_swings_confirmed:
  "i < length vals \<Longrightarrow> confirmed_swings h vals k i (Some m) = take m (rev (confirmed h vals k i))"
  by (simp add: confirmed_swings_spec confirmed_swings_at newest_def)

text \<open>What the pass keeps of the pivots it has moved over\<close>

definition last_level :: "(nat \<times> rat) list \<Rightarrow> rat option" where
  "last_level ps = (case rev ps of [] \<Rightarrow> None | p # _ \<Rightarrow> Some (snd p))"

definition last_levels :: "(nat \<times> rat) list \<Rightarrow> rat option \<times> rat option" where
  "last_levels ps = (case rev ps of [] \<Rightarrow> (None, None) | [p] \<Rightarrow> (None, Some (snd p)) | p # q # _ \<Rightarrow> (Some (snd q), Some (snd p)))"

lemma last_level_snoc [simp]: "last_level (ps @ [p]) = Some (snd p)"
  by (simp add: last_level_def)

lemma last_levels_snoc [simp]: "last_levels (ps @ [p]) = (snd (last_levels ps), Some (snd p))"
  by (auto simp: last_levels_def split: list.splits)

lemma advance_spec:
  "advance k i (last_level xs, ys) =
     (last_level (xs @ takeWhile (\<lambda>p. fst p + k \<le> i) ys), dropWhile (\<lambda>p. fst p + k \<le> i) ys)"
proof (induction ys arbitrary: xs)
  case (Cons p ys)
  obtain j x where p: "p = (j, x)" by (cases p)
  show ?case using Cons [of "xs @ [p]"] by (simp add: p)
qed simp

lemma advance2_spec:
  "advance2 k i (fst (last_levels xs), snd (last_levels xs), ys) =
     (fst (last_levels (xs @ takeWhile (\<lambda>p. fst p + k \<le> i) ys)),
      snd (last_levels (xs @ takeWhile (\<lambda>p. fst p + k \<le> i) ys)), dropWhile (\<lambda>p. fst p + k \<le> i) ys)"
proof (induction ys arbitrary: xs)
  case (Cons p ys)
  obtain j x where p: "p = (j, x)" by (cases p)
  show ?case using Cons [of "xs @ [p]"] by (simp add: p)
qed simp

lemma takeWhile_behind:
  "\<forall>p \<in> set xs. fst p + k \<le> (i :: nat) \<Longrightarrow>
     xs @ takeWhile (\<lambda>p. fst p + k \<le> i) ys = takeWhile (\<lambda>p. fst p + k \<le> i) (xs @ ys)"
  by (induction xs) auto

lemma near_sweep_spec:
  assumes "\<forall>p \<in> set xs. fst p + k \<le> i"
  shows "near_sweep k ok (last_level xs, ys) [i..<n] =
    map (\<lambda>i. case last_level (takeWhile (\<lambda>p. fst p + k \<le> i) (xs @ ys)) of None \<Rightarrow> False | Some l \<Rightarrow> ok i l) [i..<n]"
  using assms
proof (induction "n - i" arbitrary: i xs ys)
  case (Suc d)
  let ?T = "takeWhile (\<lambda>p. fst p + k \<le> i) ys" and ?D = "dropWhile (\<lambda>p. fst p + k \<le> i) ys"
  have "i < n" using Suc.hyps(2) by simp
  then have u: "[i..<n] = i # [Suc i..<n]" by (rule upt_conv_Cons)
  have "\<forall>p \<in> set (xs @ ?T). fst p + k \<le> Suc i" using Suc.prems by (auto dest: set_takeWhileD)
  then have "near_sweep k ok (last_level (xs @ ?T), ?D) [Suc i..<n] =
      map (\<lambda>i. case last_level (takeWhile (\<lambda>p. fst p + k \<le> i) (xs @ ys)) of None \<Rightarrow> False | Some l \<Rightarrow> ok i l) [Suc i..<n]"
    using Suc.hyps(2) Suc.hyps(1) [of "Suc i" "xs @ ?T" ?D] by simp
  then show ?case
    by (simp add: u Let_def advance_spec takeWhile_behind [OF Suc.prems] del: upt_Suc)
qed simp

lemma dbl_sweep_spec:
  assumes "\<forall>p \<in> set xs. fst p + k \<le> i"
  shows "dbl_sweep k ok (fst (last_levels xs), snd (last_levels xs), ys) [i..<n] =
    map (\<lambda>i. case last_levels (takeWhile (\<lambda>p. fst p + k \<le> i) (xs @ ys)) of (Some a, Some b) \<Rightarrow> ok i a b | _ \<Rightarrow> False) [i..<n]"
  using assms
proof (induction "n - i" arbitrary: i xs ys)
  case (Suc d)
  let ?T = "takeWhile (\<lambda>p. fst p + k \<le> i) ys" and ?D = "dropWhile (\<lambda>p. fst p + k \<le> i) ys"
  have "i < n" using Suc.hyps(2) by simp
  then have u: "[i..<n] = i # [Suc i..<n]" by (rule upt_conv_Cons)
  have "\<forall>p \<in> set (xs @ ?T). fst p + k \<le> Suc i" using Suc.prems by (auto dest: set_takeWhileD)
  then have "dbl_sweep k ok (fst (last_levels (xs @ ?T)), snd (last_levels (xs @ ?T)), ?D) [Suc i..<n] =
      map (\<lambda>i. case last_levels (takeWhile (\<lambda>p. fst p + k \<le> i) (xs @ ys)) of (Some a, Some b) \<Rightarrow> ok i a b | _ \<Rightarrow> False) [Suc i..<n]"
    using Suc.hyps(2) Suc.hyps(1) [of "Suc i" "xs @ ?T" ?D] by simp
  then show ?case
    by (simp add: u Let_def advance2_spec takeWhile_behind [OF Suc.prems] case_prod_beta del: upt_Suc cong: option.case_cong)
qed simp

section \<open>The series at a bar\<close>

lemma ema_series_length [simp]: "length (ema_series n cs) = length cs"
  by (cases cs) (auto simp: ema_series_def nan_def Let_def)

lemma sma_array_length [simp]: "length (sma_array n cs) = length cs"
  by (auto simp: sma_array_def)

lemma sma_array_nth: "i < length cs \<Longrightarrow> sma_array n cs ! i = sma_at n cs i"
  by (auto simp: sma_array_def sma_at_def nth_append Suc_diff_le)

lemma ema_array_nth: "i < length cs \<Longrightarrow> ema_series n cs ! i = ema_at n cs i"
  by (auto simp: ema_series_def ema_at_def nth_append Let_def)

lemma ma_array_nth [simp]: "i < length cs \<Longrightarrow> ma_array simple n cs ! i = ma_at simple n cs i"
  by (simp add: ma_array_def ma_at_def sma_array_nth ema_array_nth)

lemma atr_array_nth [simp]: "i < length cs \<Longrightarrow> atr_series n hs ls cs ! i = atr_at n hs ls cs i"
  by (auto simp: atr_series_def atr_at_def Let_def)

lemma range_before_nth [simp]: "i < length vals \<Longrightarrow> range_before h vals n ! i = prior_donchian h vals n i"
  by (auto simp: prior_donchian_def range_before_spec range_spec_def)

lemma gains_filtered: "sum_list (filter (\<lambda>d. d \<ge> 0) ds) = sum_list (map (\<lambda>d :: rat. max 0 d) ds)"
  by (induction ds) (auto simp: max_def)

lemma losses_filtered: "sum_list (map uminus (filter (\<lambda>d. \<not> d \<ge> 0) ds)) = sum_list (map (\<lambda>d :: rat. max 0 (- d)) ds)"
  by (induction ds) (auto simp: max_def)

section \<open>The flag of an atom\<close>

lemma near_swing_flag:
  assumes "length hs = length cs" "length ls = length cs" "i < length cs"
  shows "near_swing high k cs (Some hs) (Some ls) (Some i) = Inr (near_swing_signal high k cs hs ls ! i)"
proof -
  have "last_level (confirmed high (if high then hs else ls) k i) = last_confirmed_swing high (if high then hs else ls) k i"
    using assms by (auto simp: last_confirmed_swing_def confirmed_swings_confirmed last_level_def split: list.splits)
  moreover have "near_swing_signal high k cs hs ls ! i =
      (case last_level (confirmed high (if high then hs else ls) k i) of
         None \<Rightarrow> False | Some l \<Rightarrow> is_near_level (cs ! i) l (atr_at NEAR_ATR_PERIOD hs ls cs i))"
    using near_sweep_spec [of "[]" k 0, unfolded last_level_def, simplified] assms
    by (simp add: near_swing_signal_def Let_def confirmed_def last_level_def split: option.splits)
  ultimately show ?thesis using assms by (simp add: near_swing_def require_ohlc_def idx_of_def Let_def)
qed

lemma double_swing_flag:
  assumes "length hs = length cs" "length ls = length cs" "i < length cs"
  shows "double_swing high k cs (Some hs) (Some ls) (Some i) = Inr (dbl_signal high k cs hs ls ! i)"
proof -
  let ?v = "if high then hs else ls" and ?a = "atr_at NEAR_ATR_PERIOD hs ls cs i"
  have c: "confirmed_swings high ?v k i (Some 2) = take 2 (rev (confirmed high ?v k i))"
    using assms by (simp add: confirmed_swings_confirmed)
  have "dbl_signal high k cs hs ls ! i =
      (case last_levels (confirmed high ?v k i) of
         (Some a, Some b) \<Rightarrow> swings_hold a b ?a \<and> (if high then cs ! i < b else cs ! i > b) | _ \<Rightarrow> False)"
    using dbl_sweep_spec [of "[]" k 0, unfolded last_levels_def, simplified] assms
    by (simp add: dbl_signal_def Let_def confirmed_def last_levels_def split: option.splits prod.splits)
  then show ?thesis using assms c
    by (auto simp: double_swing_def require_ohlc_def idx_of_def Let_def last_levels_def numeral_2_eq_2 split: list.splits)
qed

lemma don_flag:
  assumes "length hs = length cs" "length ls = length cs" "i < length cs"
  shows "eval_spec (Don high n) cs (Some hs) (Some ls) (Some i) = Inr (don_signal high n cs hs ls ! i)"
  using assms by (simp add: don_hi_def don_lo_def don_signal_def require_ohlc_def idx_of_def Let_def cong: option.case_cong)

lemma above_flag:
  "i < length cs \<Longrightarrow> eval_spec (Above simple n) cs hs ls (Some i) = Inr (compare_ma cs (ma_array simple n cs) ! i)"
  by (simp add: compare_ma_def idx_of_def Let_def)

lemma htf_flag:
  assumes "i < length cs"
  shows "htf_close_above_ma b n simple cs i = htf_signal b n simple cs ! i"
  using assms by (auto simp: htf_close_above_ma_def htf_signal_def Let_def cong: option.case_cong)

lemma rsi_flag:
  assumes "i < length cs" "rsi_at n cs i = Inr r"
  shows "in_range lo hi r = rsi_signal n lo hi cs ! i"
  using assms
  by (auto simp: rsi_at_def rsi_signal_def in_range_def Let_def gains_filtered losses_filtered split: if_splits)

lemma map_results_upt:
  "map_results f [0..<n] = Inr bs \<longleftrightarrow> length bs = n \<and> (\<forall>i < n. f i = Inr (bs ! i))"
  by (auto simp: map_results_Inr list_all2_conv_all_nth)

lemma stack_flag:
  assumes "stack_signal simple ps cs = Inr bs"
  shows "length bs = length cs" "i < length cs \<Longrightarrow> eval_spec (Stack simple ps) cs hs ls (Some i) = Inr (bs ! i)"
  using assms by (auto simp: stack_signal_def map_results_upt idx_of_def comp_def)

lemma mom_flag:
  assumes "mom_signal gt lb thr cs = Inr bs"
  shows "length bs = length cs" "i < length cs \<Longrightarrow> eval_spec (Mom gt lb thr) cs hs ls (Some i) = Inr (bs ! i)"
proof -
  show "length bs = length cs"
    using assms by (auto simp: mom_signal_def bind_result_Inr map_results_Inr dest!: list_all2_lengthD split: if_splits)
  assume i: "i < length cs"
  show "eval_spec (Mom gt lb thr) cs hs ls (Some i) = Inr (bs ! i)"
  proof (cases "lb = 0")
    case False
    then obtain xs where xs: "map_results (\<lambda>i. bind_result (return_at lb cs i) (\<lambda>r. Inr (moved gt thr r))) [lb..<length cs] = Inr xs"
      "bs = replicate (min lb (length cs)) False @ xs"
      using assms by (auto simp: mom_signal_def bind_result_Inr)
    show ?thesis
    proof (cases "i < lb")
      case True
      then show ?thesis using i xs(2) by (simp add: nth_append idx_of_def return_at_def moved_def)
    next
      case False
      then have "i - lb < length [lb..<length cs]" "[lb..<length cs] ! (i - lb) = i" using i by auto
      then have "bind_result (return_at lb cs i) (\<lambda>r. Inr (moved gt thr r)) = Inr (xs ! (i - lb))"
        using list_all2_nthD [OF xs(1) [unfolded map_results_Inr], of "i - lb"] by (simp only:)
      then show ?thesis using False i xs(2) by (simp add: nth_append idx_of_def)
    qed
  qed (use assms i in \<open>auto simp: mom_signal_def idx_of_def return_at_def moved_def\<close>)
qed

lemma signal_lengths [simp]:
  "length (near_swing_signal high k cs hs ls) = length cs" "length (dbl_signal high k cs hs ls) = length cs"
  "length (don_signal high n cs hs ls) = length cs" "length (compare_ma cs s) = length cs"
  "length (htf_signal b n simple cs) = length cs" "length (rsi_signal n lo hi cs) = length cs"
  using near_sweep_spec [of "[]" k 0, unfolded last_level_def, simplified]
    dbl_sweep_spec [of "[]" k 0, unfolded last_levels_def, simplified]
  by (simp_all add: near_swing_signal_def dbl_signal_def don_signal_def compare_ma_def htf_signal_def rsi_signal_def Let_def)

lemma atom_signal_length: "atom_signal x cs hs ls = Inr bs \<Longrightarrow> length bs = length cs"
  by (cases x) (auto simp: stack_flag mom_flag map_results_upt)

lemma atom_signal_value:
  assumes "length hs = length cs" "length ls = length cs" "i < length cs"
    and "atom_signal x cs hs ls = Inr bs" "eval_spec x cs (Some hs) (Some ls) (Some i) = Inr b"
  shows "bs ! i = b"
proof (cases x)
  case (Stack simple ps)
  then show ?thesis using assms stack_flag(2) [of simple ps cs bs i] by simp
next
  case (Above simple n)
  then show ?thesis using assms above_flag [of i cs simple n] by (simp del: eval_spec.simps)
next
  case (RsiRange n lo hi)
  then show ?thesis using assms rsi_flag [of i cs n _ lo hi] by (auto simp: idx_of_def bind_result_Inr)
next
  case (Mom gt lb thr)
  then show ?thesis using assms mom_flag(2) [of gt lb thr cs bs i] by simp
next
  case (Don high n)
  then show ?thesis using assms don_flag [of hs cs ls i high n] by (simp del: eval_spec.simps)
next
  case (Swing high k)
  then show ?thesis using assms near_swing_flag [of hs cs ls i high k] by simp
next
  case (Dbl high k)
  then show ?thesis using assms double_swing_flag [of hs cs ls i high k] by simp
next
  case (Htf b n simple)
  then show ?thesis using assms htf_flag [of i cs] by (simp add: idx_of_def)
qed (use assms in \<open>simp_all add: map_results_upt\<close>)

section \<open>The flag of an expression\<close>

lemma name_signal_value:
  assumes "length hs = length cs" "length ls = length cs" "i < length cs"
    and "name_signal s cs hs ls = Inr bs" "spec_of s = Inr x" "eval_spec x cs (Some hs) (Some ls) (Some i) = Inr b"
  shows "length bs = length cs" "bs ! i = b"
  using assms atom_signal_value [OF assms(1-3)] atom_signal_length [of x cs hs ls bs]
  by (auto simp: name_signal_def spec_of_def fallback_signal_def map_results_upt split: option.splits)

lemma name_signal_length:
  "name_signal s cs hs ls = Inr bs \<Longrightarrow> length bs = length cs"
  by (auto simp: name_signal_def fallback_signal_def map_results_upt bind_result_Inr atom_signal_length split: option.splits)

text \<open>Every part of the expression has a text.\<close>

fun complete_tree :: "tree \<Rightarrow> bool" where
  "complete_tree (Leaf s) = True"
| "complete_tree (Node every ts) = list_all (\<lambda>t. \<not> empty_leaf t \<and> complete_tree t) ts"

fun branching :: "tree \<Rightarrow> bool" where
  "branching (Leaf s) = True"
| "branching (Node every ts) = (ts \<noteq> [] \<and> list_all branching ts)"

lemma tree_of_branching: "branching (tree_of s)"
proof (induction s rule: tree_of.induct)
  case (1 s)
  show ?case
  proof (cases "split_top (strip s)")
    case (Some p)
    obtain b ps where p: "p = (b, ps)" by (cases p)
    have "ps \<noteq> []" using Some p by (auto simp: split_top_def split: if_splits)
    then show ?thesis using 1 Some p by (subst tree_of.simps) (auto simp: list_all_iff)
  qed (subst tree_of.simps, simp)
qed

lemma combine_nth:
  assumes "parts \<noteq> []" "\<forall>p \<in> set parts. length p = n" "i < n"
  shows "length (combine every parts) = n \<and>
    (combine every parts ! i \<longleftrightarrow> (if every then \<forall>p \<in> set parts. p ! i else \<exists>p \<in> set parts. p ! i))"
  using assms by (induction every parts rule: combine.induct) auto

lemma all_results_Cons: "all_results (r # rs) = Inr b \<longleftrightarrow> (r = Inr True \<and> all_results rs = Inr b) \<or> (r = Inr False \<and> \<not> b)"
  by (auto simp: bind_result_Inr split: if_splits)

lemma any_results_Cons: "any_results (r # rs) = Inr b \<longleftrightarrow> (r = Inr False \<and> any_results rs = Inr b) \<or> (r = Inr True \<and> b)"
  by (auto simp: bind_result_Inr split: if_splits)

lemma all_results_Inr:
  "all_results rs = Inr b \<Longrightarrow> (if b then \<forall>r \<in> set rs. r = Inr True else Inr False \<in> set rs)"
proof (induction rs)
  case (Cons r rs)
  then show ?case unfolding all_results_Cons by (cases b) (simp_all, blast)
qed simp

lemma any_results_Inr:
  "any_results rs = Inr b \<Longrightarrow> (if b then Inr True \<in> set rs else \<forall>r \<in> set rs. r = Inr False)"
proof (induction rs)
  case (Cons r rs)
  then show ?case unfolding any_results_Cons by (cases b) (simp_all, blast)
qed simp

lemma node_value:
  assumes "list_all2 (\<lambda>x p. length p = n \<and> (\<forall>b. ev x = Inr b \<longrightarrow> p ! i = b)) xs parts" "parts \<noteq> []" "i < n"
    and "(if every then all_results (map ev xs) else any_results (map ev xs)) = Inr b"
  shows "combine every parts ! i = b"
proof -
  have len: "\<forall>p \<in> set parts. length p = n" using assms(1) by (auto simp: list_all2_conv_all_nth in_set_conv_nth)
  have val: "k < length parts \<Longrightarrow> ev (xs ! k) = Inr c \<Longrightarrow> parts ! k ! i = c" for k c
    using list_all2_nthD2 [OF assms(1)] by blast
  have ln: "length xs = length parts" using assms(1) by (rule list_all2_lengthD)
  have same: "\<forall>r \<in> set (map ev xs). r = Inr c \<Longrightarrow> \<forall>p \<in> set parts. p ! i = c" for c
    using val ln by (auto simp: all_set_conv_all_nth)
  have some: "Inr c \<in> set (map ev xs) \<Longrightarrow> \<exists>p \<in> set parts. p ! i = c" for c
    using val ln by (metis (no_types, lifting) in_set_conv_nth length_map nth_map)
  have cv: "combine every parts ! i \<longleftrightarrow> (if every then \<forall>p \<in> set parts. p ! i else \<exists>p \<in> set parts. p ! i)"
    using combine_nth [OF assms(2) len assms(3)] by blast
  show ?thesis
  proof (cases every)
    case True
    then have "if b then \<forall>r \<in> set (map ev xs). r = Inr True else Inr False \<in> set (map ev xs)"
      using assms(4) by (intro all_results_Inr) simp
    then show ?thesis unfolding cv using True same [of True] some [of False] by (cases b) auto
  next
    case False
    then have "if b then Inr True \<in> set (map ev xs) else \<forall>r \<in> set (map ev xs). r = Inr False"
      using assms(4) by (intro any_results_Inr) simp
    then show ?thesis unfolding cv using False same [of False] some [of True] by (cases b) auto
  qed
qed

lemma tree_signal_value:
  assumes "length hs = length cs" "length ls = length cs" "i < length cs"
  shows "branching t \<Longrightarrow> complete_tree t \<Longrightarrow> strategy_of_tree t = Inr st \<Longrightarrow> tree_signal cs hs ls t = Inr bs \<Longrightarrow>
    length bs = length cs \<and> (\<forall>b. eval_strategy st cs (Some hs) (Some ls) (Some i) = Inr b \<longrightarrow> bs ! i = b)"
proof (induction t arbitrary: st bs)
  case (Leaf s)
  then show ?case using name_signal_value [OF assms] name_signal_length by (auto simp: bind_result_Inr)
next
  case (Node every ts)
  have ft: "filter (\<lambda>t. \<not> empty_leaf t) ts = ts" using Node.prems(2) by (auto simp: list_all_iff intro: filter_True)
  obtain xs where xs: "list_all2 (\<lambda>t x. strategy_of_tree t = Inr x) ts xs" "st = (if every then All xs else Any xs)"
    using Node.prems(3) by (auto simp: bind_result_Inr map_results_Inr)
  obtain parts where parts: "list_all2 (\<lambda>t p. tree_signal cs hs ls t = Inr p) ts parts"
      "bs = (if parts = [] then replicate (length cs) False else combine every parts)"
    using Node.prems(4) unfolding tree_signal.simps ft by (auto simp: bind_result_Inr map_results_Inr)
  have "length xs = length ts" "length parts = length ts" using xs(1) parts(1) by (auto dest!: list_all2_lengthD)
  moreover have "length (parts ! k) = length cs \<and>
      (\<forall>b. eval_strategy (xs ! k) cs (Some hs) (Some ls) (Some i) = Inr b \<longrightarrow> parts ! k ! i = b)" if "k < length ts" for k
    using Node.IH [of "ts ! k" "xs ! k" "parts ! k"] Node.prems(1,2) xs(1) parts(1) that
    by (auto simp: list_all2_conv_all_nth list_all_length)
  ultimately have rel: "list_all2 (\<lambda>x p. length p = length cs \<and>
      (\<forall>b. eval_strategy x cs (Some hs) (Some ls) (Some i) = Inr b \<longrightarrow> p ! i = b)) xs parts"
    by (simp add: list_all2_conv_all_nth)
  have ne: "parts \<noteq> []" using parts(1) Node.prems(1) by auto
  have "\<forall>p \<in> set parts. length p = length cs" using rel by (auto simp: list_all2_conv_all_nth in_set_conv_nth)
  then have "length bs = length cs" using combine_nth [OF ne _ assms(3)] ne parts(2) by simp
  moreover have "bs ! i = b" if "eval_strategy st cs (Some hs) (Some ls) (Some i) = Inr b" for b
    using node_value [OF rel ne assms(3), of every b] that xs(2) parts(2) ne by (auto split: if_splits)
  ultimately show ?case by blast
qed

section \<open>No error on a tape of prices\<close>

text \<open>
  On closes that are not zero, only the ratio of volatilities and the index over no bars can divide by zero; the names
  without them are evaluated at every bar.
\<close>

fun evaluable :: "spec \<Rightarrow> bool" where
  "evaluable (Stack simple ps) = (ps \<noteq> [])"
| "evaluable (RsiRange n lo hi) = (0 < n)"
| "evaluable (VolLow a b) = False"
| "evaluable (Both a b) = (evaluable a \<and> evaluable b)"
| "evaluable x = True"

fun evaluable_strategy :: "strategy \<Rightarrow> bool" where
  "evaluable_strategy (Atom x) = evaluable x"
| "evaluable_strategy (All xs) = list_all evaluable_strategy xs"
| "evaluable_strategy (Any xs) = list_all evaluable_strategy xs"

definition returns :: "'a result \<Rightarrow> bool" where
  "returns r \<longleftrightarrow> (\<exists>x. r = Inr x)"

lemma returns_Inr [simp]: "returns (Inr x)"
  by (simp add: returns_def)

lemma returns_bind [intro]: "returns r \<Longrightarrow> (\<And>x. r = Inr x \<Longrightarrow> returns (f x)) \<Longrightarrow> returns (bind_result r f)"
  by (auto simp: returns_def)

lemma returns_map: "(\<And>x. x \<in> set xs \<Longrightarrow> returns (f x)) \<Longrightarrow> returns (map_results f xs)"
  by (induction xs) (auto intro!: returns_bind)

lemma returns_all: "(\<And>r. r \<in> set rs \<Longrightarrow> returns r) \<Longrightarrow> returns (all_results rs)"
  by (induction rs) (auto intro!: returns_bind)

lemma returns_any: "(\<And>r. r \<in> set rs \<Longrightarrow> returns r) \<Longrightarrow> returns (any_results rs)"
  by (induction rs) (auto intro!: returns_bind)

definition priced_tape :: "rat list \<Rightarrow> rat list \<Rightarrow> rat list \<Rightarrow> bool" where
  "priced_tape cs hs ls \<longleftrightarrow> length hs = length cs \<and> length ls = length cs \<and> 0 \<notin> set cs"

lemma return_returns: "priced_tape cs hs ls \<Longrightarrow> i < length cs \<Longrightarrow> returns (return_at lb cs i)"
proof -
  assume p: "priced_tape cs hs ls" "i < length cs"
  then have "cs ! (i - lb) \<in> set cs" by simp
  moreover have "0 \<notin> set cs" using p by (simp add: priced_tape_def)
  ultimately have "cs ! (i - lb) \<noteq> 0" by metis
  then show ?thesis by (simp add: return_at_def)
qed

lemma rsi_returns: "0 < n \<Longrightarrow> returns (rsi_at n cs i)"
  by (simp add: rsi_at_def Let_def)

lemma ohlc_priced: "priced_tape cs hs ls \<Longrightarrow> require_ohlc cs (Some hs) (Some ls) = Inr (hs, ls)"
  by (simp add: require_ohlc_def priced_tape_def)

lemma wave_returns: "priced_tape cs hs ls \<Longrightarrow> i < length cs \<Longrightarrow> returns (wt_atom lag f cs (Some hs) (Some ls) (Some i))"
  by (auto simp: wt_atom_def ohlc_priced idx_of_def Let_def split: prod.splits)

lemma spec_returns:
  "priced_tape cs hs ls \<Longrightarrow> evaluable x \<Longrightarrow> i < length cs \<Longrightarrow> returns (eval_spec x cs (Some hs) (Some ls) (Some i))"
proof (induction x)
  case (Mom gt lb thr)
  then show ?case using return_returns by (auto simp: idx_of_def)
next
  case (RsiRange n lo hi)
  then show ?case using rsi_returns by (auto simp: idx_of_def)
next
  case (Both a b)
  then show ?case by auto
qed (auto simp: stack_holds_def idx_of_def don_hi_def don_lo_def near_swing_def double_swing_def Let_def ohlc_priced
    wt_cross_up_os_def wt_below_os_def wt_cross_down_ob_def wave_returns)

lemma strategy_returns:
  "priced_tape cs hs ls \<Longrightarrow> evaluable_strategy st \<Longrightarrow> i < length cs \<Longrightarrow>
     returns (eval_strategy st cs (Some hs) (Some ls) (Some i))"
  by (induction st) (auto simp: spec_returns list_all_iff intro!: returns_all returns_any)

lemma stack_signal_returns: "ps \<noteq> [] \<Longrightarrow> returns (stack_signal simple ps cs)"
  by (auto simp: stack_signal_def stack_holds_def Let_def intro!: returns_map)

lemma mom_signal_returns: "priced_tape cs hs ls \<Longrightarrow> returns (mom_signal gt lb thr cs)"
  by (auto simp: mom_signal_def return_returns intro!: returns_map returns_bind)

lemma fallback_returns: "priced_tape cs hs ls \<Longrightarrow> evaluable x \<Longrightarrow> returns (fallback_signal x cs hs ls)"
  by (auto simp: fallback_signal_def intro!: returns_map spec_returns)

lemma atom_signal_returns: "priced_tape cs hs ls \<Longrightarrow> evaluable x \<Longrightarrow> returns (atom_signal x cs hs ls)"
  by (cases x)
    (use fallback_returns [of cs hs ls x] in \<open>auto simp: stack_signal_returns mom_signal_returns fallback_signal_def simp del: eval_spec.simps\<close>)

lemma name_signal_returns:
  "priced_tape cs hs ls \<Longrightarrow> spec_of s = Inr x \<Longrightarrow> evaluable x \<Longrightarrow> returns (name_signal s cs hs ls)"
  by (auto simp: name_signal_def spec_of_def atom_signal_returns fallback_returns split: option.splits)

lemma tree_signal_returns:
  assumes "priced_tape cs hs ls"
  shows "strategy_of_tree t = Inr st \<Longrightarrow> evaluable_strategy st \<Longrightarrow> returns (tree_signal cs hs ls t)"
proof (induction t arbitrary: st)
  case (Leaf s)
  then show ?case using name_signal_returns [OF assms] by (auto simp: bind_result_Inr)
next
  case (Node every ts)
  obtain xs where xs: "list_all2 (\<lambda>t x. strategy_of_tree t = Inr x) ts xs" "st = (if every then All xs else Any xs)"
    using Node.prems(1) by (auto simp: bind_result_Inr map_results_Inr)
  then have ev: "list_all evaluable_strategy xs" using Node.prems(2) by (auto split: if_splits)
  have "returns (tree_signal cs hs ls t)" if t: "t \<in> set ts" for t
  proof -
    obtain k where k: "k < length ts" "t = ts ! k" using t by (auto simp: in_set_conv_nth)
    then have "strategy_of_tree t = Inr (xs ! k)" "evaluable_strategy (xs ! k)"
      using xs(1) ev by (auto simp: list_all2_conv_all_nth list_all_length)
    then show ?thesis by (rule Node.IH [OF t])
  qed
  then show ?case by (auto intro!: returns_map)
qed

theorem signal_series_agrees:
  assumes "length hs = length cs" "length ls = length cs" "complete_tree (tree_of e)" "parse_strategy e = Inr st"
    and "signal_series e cs hs ls = Inr flags" "i < length cs"
    and "eval_strategy st cs (Some hs) (Some ls) (Some i) = Inr b"
  shows "flags ! i = b"
  using tree_signal_value [OF assms(1,2,6) tree_of_branching assms(3)] assms(4,5,7)
  by (simp add: parse_strategy_def signal_series_def)

lemma signal_series_length:
  assumes "length hs = length cs" "length ls = length cs" "complete_tree (tree_of e)" "parse_strategy e = Inr st"
    and "signal_series e cs hs ls = Inr flags"
  shows "cs \<noteq> [] \<Longrightarrow> length flags = length cs"
  using tree_signal_value [OF assms(1,2) _ tree_of_branching assms(3), of 0] assms(4,5)
  by (simp add: parse_strategy_def signal_series_def)

lemma signal_series_total:
  assumes "priced_tape cs hs ls" "parse_strategy e = Inr st" "evaluable_strategy st"
  shows "returns (signal_series e cs hs ls)" "i < length cs \<Longrightarrow> returns (eval_strategy st cs (Some hs) (Some ls) (Some i))"
  using assms tree_signal_returns strategy_returns by (auto simp: signal_series_def parse_strategy_def)

section \<open>The backtest of a name\<close>

lemma rstrip_prefix: "\<exists>ys. t = rev (dropWhile P (rev t)) @ ys"
proof -
  have "t = rev (takeWhile P (rev t) @ dropWhile P (rev t))" by simp
  then have "t = rev (dropWhile P (rev t)) @ rev (takeWhile P (rev t))" by (metis rev_append)
  then show ?thesis ..
qed

lemma strip_idem [simp]: "strip (strip s) = strip s"
proof (cases "strip s = []")
  case False
  define t where "t = dropWhile is_space s"
  have st: "strip s = rev (dropWhile is_space (rev t))" by (simp add: strip_def t_def)
  obtain ys where "t = strip s @ ys" using rstrip_prefix [of t is_space] st by auto
  then have "hd (strip s) = hd t" "t \<noteq> []" using False by auto
  moreover have "\<not> is_space (hd t)" using \<open>t \<noteq> []\<close> unfolding t_def by (rule hd_dropWhile)
  ultimately have "dropWhile is_space (strip s) = strip s" using False by (cases "strip s") auto
  then have "strip (strip s) = rev (dropWhile is_space (rev (strip s)))" by (simp add: strip_def)
  also have "\<dots> = strip s" by (simp add: st)
  finally show ?thesis .
next
  case True
  show ?thesis unfolding True by (simp add: strip_def)
qed

lemma tree_of_strip: "tree_of (strip s) = (case tree_of s of Leaf x \<Rightarrow> Leaf (strip s) | Node b ts \<Rightarrow> Node b ts)"
  by (subst (1 2) tree_of.simps) (simp split: option.splits)

lemma tree_of_cases: "tree_of s = Leaf s \<or> (\<exists>b ts. tree_of s = Node b ts)"
  by (subst (1 2) tree_of.simps) (auto split: option.splits)

lemma stripped:
  "parse_strategy (strip s) = parse_strategy s" "complete_tree (tree_of (strip s)) = complete_tree (tree_of s)"
  using tree_of_cases [of s] by (auto simp: parse_strategy_def tree_of_strip)

lemma bar_step_cong:
  "want i = want' i \<Longrightarrow> bar_step p want cs hs ls atrs start i s = bar_step p want' cs hs ls atrs start i s"
  by (simp add: bar_step_def)

lemma backtest_cong:
  assumes "\<forall>i < length cs. want i = want' i"
  shows "backtest p want cs hs ls = backtest p want' cs hs ls"
proof -
  have "end_bar p (length cs) \<le> length cs" by (auto simp: end_bar_def split: option.splits)
  then have "test_bars p want cs hs ls atrs start (end_bar p (length cs)) = test_bars p want' cs hs ls atrs start (end_bar p (length cs))"
    for atrs start
    unfolding test_bars_def using assms by (intro fold_cong ext bar_step_cong) auto
  then show ?thesis by (simp add: backtest_def Let_def)
qed

lemma backtest_name_live:
  assumes "priced_tape cs hs ls" "complete_tree (tree_of e)" "parse_strategy e = Inr st" "evaluable_strategy st"
  shows "backtest_name p e cs hs ls =
    backtest p (\<lambda>i. eval_strategy st (take (Suc i) cs) (Some (take (Suc i) hs)) (Some (take (Suc i) ls)) (Some i) = Inr True) cs hs ls"
    (is "_ = backtest p ?live cs hs ls")
proof -
  have len: "length hs = length cs" "length ls = length cs" using assms(1) by (simp_all add: priced_tape_def)
  have live: "?live i = (eval_strategy st cs (Some hs) (Some ls) (Some i) = Inr True)" if "i < length cs" for i
    using causal_atomD [OF strategy_causal len that] by simp
  show ?thesis
  proof (cases "strip e = []")
    case True
    then show ?thesis using assms(3) live by (simp add: backtest_name_def cong: backtest_cong) (rule backtest_cong, simp)
  next
    case False
    obtain flags where f: "signal_series (strip e) cs hs ls = Inr flags"
      using signal_series_total(1) [OF assms(1), of "strip e" st] assms(3,4) by (auto simp: stripped returns_def)
    have "flags ! i = ?live i" if i: "i < length cs" for i
    proof -
      obtain b where b: "eval_strategy st cs (Some hs) (Some ls) (Some i) = Inr b"
        using strategy_returns [OF assms(1,4) i] by (auto simp: returns_def)
      then have "flags ! i = b" using signal_series_agrees [OF len _ _ f i b] assms(2,3) by (simp add: stripped)
      then show ?thesis using live [OF i] b by simp
    qed
    then show ?thesis using assms(3) f False by (simp add: backtest_name_def) (rule backtest_cong, simp)
  qed
qed

lemma priced_tape_take: "priced_tape cs hs ls \<Longrightarrow> priced_tape (take n cs) (take n hs) (take n ls)"
  by (auto simp: priced_tape_def dest: in_set_takeD)

end
