(* ===== verification/LanguageProperties.thy ===== *)
theory LanguageProperties
  imports LanguageFacts RiskProperties
begin

text \<open>The properties of the strategy language and of its precomputed signals.\<close>

section \<open>Live and backtest\<close>

text \<open>
  C9. The backtest trades the signal the live loop trades: on a tape of prices, and for an expression whose parts all have
  a text and whose atoms cannot divide by zero, the precomputation returns one flag per bar, and at every bar the flag is
  what the parsed strategy evaluates to there. The moving pointers over the pivots, the passes of the averages and the
  index-wise combination of the parts change nothing.
\<close>
theorem live_signal_is_backtest_signal:
  assumes "length hs = length cs" "length ls = length cs" "0 \<notin> set cs" "complete_tree (tree_of e)"
    and "parse_strategy e = Inr st" "evaluable_strategy st"
  shows "\<exists>flags. signal_series e cs hs ls = Inr flags \<and> (cs \<noteq> [] \<longrightarrow> length flags = length cs) \<and>
    (\<forall>i < length cs. eval_strategy st cs (Some hs) (Some ls) (Some i) = Inr (flags ! i))"
proof -
  have p: "priced_tape cs hs ls" using assms(1-3) by (simp add: priced_tape_def)
  obtain flags where flags: "signal_series e cs hs ls = Inr flags"
    using signal_series_total(1) [OF p assms(5,6)] by (auto simp: returns_def)
  have "eval_strategy st cs (Some hs) (Some ls) (Some i) = Inr (flags ! i)" if i: "i < length cs" for i
  proof -
    obtain b where b: "eval_strategy st cs (Some hs) (Some ls) (Some i) = Inr b"
      using signal_series_total(2) [OF p assms(5,6) i] by (auto simp: returns_def)
    then show ?thesis using signal_series_agrees [OF assms(1,2,4,5) flags i b] by simp
  qed
  then show ?thesis using flags signal_series_length [OF assms(1,2,4,5) flags] by blast
qed

lemma example_expression:
  "tree_of ''mom_1b_gt0&near_swing_lo_1'' = Node True [Leaf ''mom_1b_gt0'', Leaf ''near_swing_lo_1'']"
  "parse_strategy ''mom_1b_gt0&near_swing_lo_1'' = Inr (All [Atom (Mom True 1 0), Atom (Swing False 1)])"
  by code_simp+

text \<open>A rise near the last confirmed low\<close>
theorem live_signal_is_backtest_signal_witness:
  "\<exists>flags. signal_series ''mom_1b_gt0&near_swing_lo_1'' [100, 90, 95, 90] [101, 91, 96, 91] [99, 89, 94, 89] = Inr flags \<and>
     (\<forall>i < 4. eval_strategy (All [Atom (Mom True 1 0), Atom (Swing False 1)]) [100, 90, 95, 90]
        (Some [101, 91, 96, 91]) (Some [99, 89, 94, 89]) (Some i) = Inr (flags ! i))"
  using live_signal_is_backtest_signal [of "[101, 91, 96, 91]" "[100, 90, 95, 90]" "[99, 89, 94, 89]"
      "''mom_1b_gt0&near_swing_lo_1''" "All [Atom (Mom True 1 0), Atom (Swing False 1)]"]
  by (auto simp: example_expression)

text \<open>An expression with an empty part never holds live, and the precomputation leaves the part out.\<close>

lemma empty_part_differs:
  "bind_result (parse_strategy ''mom_1b_gt0&'') (\<lambda>st. eval_strategy st [1, 2] (Some [1, 2]) (Some [1, 2]) (Some 1)) = Inr False"
  "signal_series ''mom_1b_gt0&'' [1, 2] [1, 2] [1, 2] = Inr [False, True]"
  by code_simp+

section \<open>No lookahead\<close>

text \<open>
  C10. No strategy looks ahead: whatever expression of the language is evaluated at a bar, averages, oscillators, bands,
  price structure and completed bars of the higher time frames, its value, or its error, is the same when the bars after
  that bar are not there yet.
\<close>
theorem strategy_reads_no_later_bar:
  assumes "parse_strategy e = Inr st" "length hs = length cs" "length ls = length cs" "i < length cs"
  shows "eval_strategy st (take (Suc i) cs) (Some (take (Suc i) hs)) (Some (take (Suc i) ls)) (Some i) =
    eval_strategy st cs (Some hs) (Some ls) (Some i)"
  by (rule causal_atomD [OF strategy_causal assms(2-4)])

text \<open>A rise near the last confirmed low, whatever follows\<close>
theorem strategy_reads_no_later_bar_witness:
  "eval_strategy (All [Atom (Mom True 1 0), Atom (Swing False 1)]) (take (Suc 2) [100, 90, 95, 90])
     (Some (take (Suc 2) [101, 91, 96, 91])) (Some (take (Suc 2) [99, 89, 94, 89])) (Some 2) =
   eval_strategy (All [Atom (Mom True 1 0), Atom (Swing False 1)]) [100, 90, 95, 90]
     (Some [101, 91, 96, 91]) (Some [99, 89, 94, 89]) (Some 2)"
  by (rule strategy_reads_no_later_bar [OF example_expression(2)]) simp_all

section \<open>The backtest of a name\<close>

lemma exit_fold_kept:
  "fold (exit_step p low high i) ls (s, kept, e) = (s', kept', e') \<Longrightarrow> set kept' \<subseteq> set kept \<union> set ls"
  by (induction ls arbitrary: s kept e) (fastforce simp: exit_step_def split: option.splits)+

lemma exit_lots_kept: "exit_lots p low high i s = (s', ex) \<Longrightarrow> set (te_lots s') \<subseteq> set (te_lots s)"
  using exit_fold_kept [of p low high i "te_lots s" s "[]" False] by (auto simp: exit_lots_def split: prod.splits)

lemma enter_bar_lots:
  "l \<in> set (te_lots (enter_bar p i cur a s)) \<Longrightarrow> l \<in> set (te_lots s) \<or> ol_opened l = i"
  by (auto simp: enter_bar_def take_lot_def Let_def split: if_splits)

lemma bar_step_lots:
  assumes "l \<in> set (te_lots (bar_step p want cs hs ls atrs start i s))"
  shows "l \<in> set (te_lots s) \<or> ol_opened l = i \<and> want i"
proof -
  obtain t ex where f: "exit_lots p (if i < length ls then ls ! i else cs ! i) (if i < length hs then hs ! i else cs ! i) i s = (t, ex)"
    by fastforce
  define u where "u = sample_bar p start i (cs ! i) (mark_bar (cs ! i) t)"
  have u: "set (te_lots u) \<subseteq> set (te_lots s)" using exit_lots_kept [OF f] by (simp add: u_def)
  have "bar_step p want cs hs ls atrs start i s =
      (if may_enter ex (want i) (cs ! i) u then enter_bar p i (cs ! i) (atrs ! i) u else u)"
    using f by (simp add: bar_step_def Let_def u_def)
  then show ?thesis using assms u enter_bar_lots [of l p i "cs ! i" "atrs ! i" u] by (auto simp: may_enter_def split: if_splits)
qed

text \<open>A lot is only opened at a bar of the window at which its entry flag is set.\<close>

lemma lots_opened:
  "l \<in> set (te_lots (test_bars p want cs hs ls atrs start e)) \<Longrightarrow> want (ol_opened l) \<and> start \<le> ol_opened l \<and> ol_opened l < e"
proof (induction e)
  case (Suc e)
  show ?case
  proof (cases "start \<le> e")
    case True
    then have "test_bars p want cs hs ls atrs start (Suc e) =
        bar_step p want cs hs ls atrs start e (test_bars p want cs hs ls atrs start e)" by (simp add: test_bars_def)
    then show ?thesis using Suc True bar_step_lots by fastforce
  qed (use Suc in \<open>simp add: test_bars_def testing_start_def\<close>)
qed (simp add: test_bars_def testing_start_def)

text \<open>
  C12. The backtest of a named strategy has no lookahead. On a tape of prices, for a name whose parts all have a text and
  whose atoms cannot divide by zero, let the entry flag of a bar be the value of the strategy evaluated live on the
  bars up to that bar and no others. Then the result is that of the engine run with these flags; every lot the engine opens,
  it opens at a bar of the window with the flag set (the lot limit, the profit of the open lots, the breaker and the
  sizing may still refuse an entry there); and scored up to a bar, the whole result is the same when the bars from there on
  are missing.
\<close>
theorem named_backtest_no_lookahead:
  assumes "length hs = length cs" "length ls = length cs" "0 \<notin> set cs" "complete_tree (tree_of e)"
    and "parse_strategy e = Inr st" "evaluable_strategy st" "n \<le> length cs"
    and "live = (\<lambda>i. eval_strategy st (take (Suc i) cs) (Some (take (Suc i) hs)) (Some (take (Suc i) ls)) (Some i) = Inr True)"
  shows "backtest_name p e cs hs ls = backtest p live cs hs ls \<and>
    (\<forall>m. \<forall>l \<in> set (te_lots (test_bars p live cs hs ls (atr_series ATR_PERIOD hs ls cs) (first_bar p) m)).
       live (ol_opened l) \<and> first_bar p \<le> ol_opened l \<and> ol_opened l < m) \<and>
    backtest_name (p\<lparr>tp_to := Some (int n)\<rparr>) e cs hs ls =
      backtest_name (p\<lparr>tp_to := Some (int n)\<rparr>) e (take n cs) (take n hs) (take n ls)"
proof (intro conjI allI ballI)
  have t: "priced_tape cs hs ls" using assms(1-3) by (simp add: priced_tape_def)
  note live = backtest_name_live [OF _ assms(4-6)]
  show "backtest_name p e cs hs ls = backtest p live cs hs ls"
    unfolding assms(8) by (rule live [OF t])
  show "backtest_name (p\<lparr>tp_to := Some (int n)\<rparr>) e cs hs ls =
      backtest_name (p\<lparr>tp_to := Some (int n)\<rparr>) e (take n cs) (take n hs) (take n ls)"
    unfolding live [OF t] live [OF priced_tape_take [OF t]]
    by (rule window_reads_no_later_bar [OF assms(1,2,7)]) (simp add: list_all_iff min_def)
qed (use lots_opened in blast)+

lemma tag_expression:
  "complete_tree (tree_of ''don_lo_2|near_swing_lo_1'')"
  "parse_strategy ''don_lo_2|near_swing_lo_1'' = Inr (Any [Atom (Don False 2), Atom (Swing False 1)])"
  by code_simp+

text \<open>A tag of the low of two bars on the flat tape, scored up to the 25th bar\<close>
theorem named_backtest_no_lookahead_witness:
  "backtest_name (sample_params\<lparr>tp_to := Some (int 25)\<rparr>) ''don_lo_2|near_swing_lo_1'' flat_tape flat_tape flat_tape =
     backtest_name (sample_params\<lparr>tp_to := Some (int 25)\<rparr>) ''don_lo_2|near_swing_lo_1''
       (take 25 flat_tape) (take 25 flat_tape) (take 25 flat_tape)"
  using named_backtest_no_lookahead [OF _ _ _ tag_expression _ _ refl, of flat_tape flat_tape flat_tape 25 sample_params]
  by (simp add: flat_tape_def)

end
