(* ===== verification/Spec2Isabelle.thy ===== *)
theory Spec2Isabelle
  imports ClaimRuns LeaseProperties BookProperties IndexProperties GateProperties IngestProperties
    StartupProperties TradingProperties EvalProperties RiskProperties LoopProperties LanguageProperties
begin

text \<open>
  A model of the discovery farm, the paper book and the paper accounts of the repository (package
  \<open>hedge_fund\<close> under \<open>src/hedge_fund\<close>), and the proofs that its state files stay consistent and that its accounts
  trade by the rule that was tested.

  The program. A server keeps JSON files under a lock. Workers claim strategy names, backtest
  them, heartbeat while they work and post results; the server stores each result in a display log and
  in an index of tested names, so that a name fails once; names that pass a gate are admitted to a
  book of champions, from which they are retired, graduated or parked as twins of a better one. Strategies
  of a declared library are evaluated on daily bars, and each admitted one trades a paper account of its own.

  Values. \<open>Prelude\<close> has insertion-ordered dicts, walks that edit a dict while iterating, strings and
  decimal digits; \<open>PyValue\<close> the JSON values with Python's truthiness, item access and instants in
  microseconds (a JSON string that names an instant is \<open>JTime\<close>); \<open>Numbers\<close> floats as exact rationals with
  the three special values, \<open>float()\<close>, \<open>int()\<close>, rounding and formatting. Rounding errors of floats are not modelled:
  prices, quantities, fees and indicator values are exact rationals.
  Python integers are unbounded, so \<open>int\<close> is exact. A raise is a value of \<open>error + 'a\<close>.

  Discovery and the book, each theory a group of definitions in the order of the code:
  \<open>Gate\<close> is \<open>trading/constants.py\<close>, \<open>trading/qualify.py\<close> and the attestation of \<open>trading/gate_v4.py\<close>;
  \<open>Rescore\<close> is \<open>trading/rescore_v5.py\<close>; \<open>Guard\<close> is \<open>trading/discovery_guard.py\<close>, \<open>trading/farm.py\<close> and
  \<open>trading/discovery_mode.py\<close>; \<open>TestedIndex\<close> is \<open>trading/tested_index.py\<close>: a base document and a journal of lines,
  read as one view; \<open>Catalog\<close> the names of \<open>library/catalog.py\<close>; \<open>Retests\<close> the three batches that lift fail-once;
  \<open>MintQuality\<close> is \<open>trading/mint_quality.py\<close>; \<open>Universe\<close> is \<open>trading/universe.py\<close>; \<open>DiscoveryLog\<close> is
  \<open>trading/discovery.py\<close>: a base array, a delta file and the tested index; \<open>Book\<close> is \<open>trading/champions.py\<close> and
  \<open>trading/retire.py\<close>; \<open>Families\<close> is \<open>trading/families.py\<close>; \<open>Leases\<close> is the lease file of
  \<open>trading/leases.py\<close>; \<open>Requalify\<close> is \<open>trading/requalify.py\<close>; \<open>Claim\<close> composes them into the claim of a worker,
  the refill buffer, release and heartbeat over one record of all state files; \<open>Ingest\<close> is the validation of a
  posted row and the choice of its lane, \<open>Seats\<close> the seat of a library pass, and \<open>Commit\<close> the appends and the last section of
  \<open>trading/ingest.py\<close>; \<open>Approved\<close> is \<open>trading/approved_admit.py\<close>: the approved batches, the unproven
  forward test, the library batches, the backfill and the whole server start.

  A state file is \<open>None\<close> when missing or unreadable. Operations run under the file lock and are
  one step each; where the code drops the lock in between (the refill buffer, compaction, an ingest) the definition
  takes the state of both locked sections, and crashes between two writes are states of their own.

  Evaluation. \<open>MultipleTesting\<close> is \<open>trading/multiple_testing.py\<close> over the reals, with the normal distribution of scipy as the
  parameters \<open>cdf\<close> and \<open>ppf\<close>; \<open>Verdict\<close> and \<open>Evaluate\<close> are \<open>library/evaluate.py\<close>: the vetoes and warnings, the batch
  with its warmed start and blocks, the books of one evaluation and its neighbours, and the record a worker posts,
  which \<open>Ingest\<close> validates and \<open>Seats\<close> seats. The declaration table is the argument \<open>lib\<close>, its signals and warm-ups the argument
  \<open>rl\<close>, which \<open>catalog_rules\<close> fills with the definitions of \<open>Signals\<close>, and its texts the argument \<open>cards\<close>.

  Trading. \<open>Bars\<close> is \<open>library/daily.py\<close>: the completed UTC days of a tape; \<open>Engine\<close> is \<open>library/engine.py\<close>: fills, the
  decision rule (\<open>signal_step\<close>, \<open>stop_out\<close>) and the backtest \<open>run_bars\<close>; \<open>Indicators\<close> is part of \<open>library/indicators.py\<close> and \<open>Signals\<close>
  the signals and warm masks of 32 strategies of \<open>library/catalog.py\<close>; \<open>Broker\<close> is \<open>brokers/paper.py\<close>; \<open>Ledger\<close> the
  rows of \<open>trading/store.py\<close> and the overlay of \<open>trading/buy_and_hold.py\<close>; \<open>Live\<close> is \<open>library/live.py\<close>: one run of the account of
  a library champion, from the stored JSON and rows to the stored JSON and rows.

  Five-minute strategies. \<open>StrategyLanguage\<close> is \<open>signals/dynamic.py\<close> with \<open>signals/htf.py\<close>, \<open>signals/wavetrend.py\<close> and the bands
  of \<open>signals/indicators.py\<close>: the parser of strategy names, their atoms and their value at a bar; \<open>Precompute\<close> is
  \<open>signals/precompute.py\<close>: the flags of a whole tape that the backtest reads instead; \<open>Structure\<close> is \<open>signals/structure.py\<close>: the true range, the Donchian levels with their deque, the fractal
  pivots and the atoms on them; \<open>Risk\<close> is \<open>risk/managed.py\<close>, \<open>risk/rm_v1.py\<close> and \<open>risk/limits.py\<close>: sizing, caps, breaker, stop
  and the clamps on weights; \<open>StrategyBacktest\<close> the backtest of \<open>backtest/strategies.py\<close>, with the entry signal as an argument (\<open>backtest_name\<close>, in
  \<open>Precompute\<close>, passes the flags of a name);
  \<open>Calibration\<close> is \<open>calibration/__init__.py\<close>; \<open>Loop\<close> is \<open>trading/loop.py\<close> with the account of \<open>trading/run_isolated.py\<close>, the position check
  of \<open>trading/heartbeat.py\<close> and the live signal of \<open>signals/momentum.py\<close>: one cycle or check of one account, whose steps
  return the state they reached also when they raise. \<open>reach_account\<close> (in \<open>LoopFacts\<close>) are the accounts that any sequence of cycles
  and checks reaches; a cycle and a check of one account that run at the same time are not modelled.

  Interfaces. \<open>heartbeat_lane\<close> (in \<open>LeaseFacts\<close>) is what a worker's heartbeat promises of a table of leases; the
  discovery leases and the requalify lane are its interpretations. \<open>retest_queue\<close> (in \<open>Retests\<close>) is what lifts
  fail-once for a name; the buy-and-hold batch, the library batch and the corrected signals are its interpretations.
  \<open>causal\<close> (in \<open>IndicatorFacts\<close>) is an operation on the days that reads no later day; \<open>series_from\<close> extends it to a series
  defined from an index on, and \<open>warm_signal\<close> (both in \<open>SignalFacts\<close>) to a signal with its mask: that is all the live account needs
  of a strategy (\<open>LiveRuns\<close>). The indicators and signals of the code are their interpretations.

  Facts and properties. The \<open>...Facts\<close> theories and \<open>EngineRules\<close> hold the invariants and the functional behaviour of each
  component, the \<open>...Runs\<close> theories and \<open>LogFacts\<close> the step relations and what holds along every run, the
  \<open>...Properties\<close> theories and this one the properties, each with a concrete instance. \<open>LiveFacts\<close> and \<open>LiveRuns\<close> prove the
  refinement of the backtest by the live account: the relation \<open>live_rel\<close> between the local variables of
  the backtest after the open of a day and the stored account is kept by the run at each open, by every run inside a
  day and by storing and opening the account.

  Bounds. No fuel is used: every loop of the modelled code runs over a finite list or shrinks a string,
  and its definition is a total function. The sizes in the statements (64 names, 2 leases per lane, 3 attempts,
  900 and 1200 seconds, 10000 rows, the fee of 1/1000 and the slippage of 2/10000) are the constants of the code.

  Idealisations, each named at its definition: file stamps stand for file contents (\<open>compact_log\<close>), an index is also merged when
  only journal and delta files exist (\<open>ensure_tested_index\<close>), a worker id that reads as a date is refused (\<open>require_worker_id\<close>),
  and a stored list of symbols of the wrong type never equals the declared one (\<open>v4_checks_pass\<close>). The list of written rows in
  \<open>IngestRuns\<close> records the appends; what the last section of an ingest may rewrite is stated over the log itself.
  The evaluation theorem covers any declared warm mask, also one whose first day depends on the tape: it says when the evaluation
  returns and which error it raises otherwise.

  Not modelled: the signals of the other strategies (roots, logarithms, chart patterns), strategies given as JSON
  objects or callables, the statistics of the five-minute gate (their results are its arguments), the heuristics that propose names (the mint is an argument of the claim; every
  property holds whatever it proposes), market data, exchange and language-model clients, SQLite and its
  locks, the web pages, and process caches keyed by file stamps.
\<close>

section \<open>Sample world\<close>

definition sample_surroundings :: surroundings where
  "sample_surroundings = \<lparr>sr_tape = (\<lambda>n. None), sr_lib = [\<lparr>ls_key = ''sma200'', ls_title = ''SMA 200'', ls_params = [], ls_stop = 1 / 5\<rparr>],
     sr_gen = ''g1'', sr_mode = None, sr_mint = (\<lambda>taken n. ([], JNull))\<rparr>"


definition new_world :: world where
  "new_world = \<lparr>w_leases = None, w_requal = None, w_bh = None, w_lib = None,
     w_disc = \<lparr>df_log = empty_log, df_tested = empty_tested\<rparr>, w_farm = None,
     w_book = \<lparr>bk_pool = None, bk_grads = None, bk_retired = None\<rparr>, w_extended = None, w_refill = None\<rparr>"

definition first_claim :: "world \<times> claim_body" where
  "first_claim = claim_unlocked sample_surroundings new_world ''w1'' 4 (Some 2) (sec 100)"

lemma first_claim_eq: "claim_unlocked sample_surroundings new_world ''w1'' 4 (Some 2) (sec 100) = (fst first_claim, snd first_claim)"
  by (simp add: first_claim_def)

lemma first_claim_names:
  "cb_names (snd first_claim) = [''lib.sma200'']" "cb_requalify (snd first_claim) = []" "cb_retest (snd first_claim) = []"
  by code_simp+

section \<open>Claims\<close>

text \<open>
  C1. A name a claim hands out as new work, in either mode, is not on the paper book and has never been
  tested, and the lease file then holds a fresh lease of it for this worker: claimed now, unstarted, and
  running out after one heartbeat grace.
\<close>

theorem claimed_names_are_new:
  assumes "claim_unlocked sr w wid n parallel now = (w', b)"
    and "m \<in> set (cb_names b)" "m \<notin> set (cb_requalify b)" "m \<notin> set (cb_retest b)"
  shows "m \<notin> set (world_book w) \<and> m \<notin> set (tested_name_set (df_tested (w_disc w'))) \<and>
    (\<exists>r. dget (leases (world_leases w')) m = Some r \<and> new_lease wid now r)"
proof -
  obtain new where "claim_effect sr w wid n parallel now w' b new" using claim_has_effect [OF assms(1)] by blast
  then show ?thesis using assms(2-4) by (auto simp: claim_effect_def tested_name_set_def)
qed

theorem claimed_names_are_new_witness:
  "\<exists>r. dget (leases (world_leases (fst first_claim))) ''lib.sma200'' = Some r \<and> new_lease ''w1'' (sec 100) r"
  using claimed_names_are_new [OF first_claim_eq, of "''lib.sma200''"] by (simp add: first_claim_names)

lemma first_claim_state:
  "dget (leases (world_leases (fst first_claim))) ''lib.sma200'' =
     Some (lease_row ''w1'' (sec 100) (sec 1000) [(''library'', JBool True)])"
  "dict_ok (leases (world_leases (fst first_claim)))" "dict_ok (workers (world_leases (fst first_claim)))"
  by code_simp+

text \<open>
  C2. No claim takes a name from a worker that still holds it: a lease that has not run out, on a name that
  is untested or pending a retest, is unchanged by every claim of any worker, and the answer offers that name
  only from the requalify lane, which has a file of its own.
\<close>

theorem live_leases_are_safe:
  assumes "claim_unlocked sr w wid n parallel now = (w', b)" "lease_state_ok (world_leases w)"
    and "dget (leases (world_leases w)) m = Some r" "\<not> expired now r"
    and "m \<notin> set (tested_name_set (df_tested (w_disc w'))) \<or> m \<in> set (keep_tested w)"
  shows "dget (leases (world_leases w')) m = Some r \<and> (m \<in> set (cb_names b) \<longrightarrow> m \<in> set (cb_requalify b))"
proof -
  obtain new where eff: "claim_effect sr w wid n parallel now w' b new" using claim_has_effect [OF assms(1)] by blast
  have "keep_tested (indexed sr w) = keep_tested w"
    by (simp add: keep_tested_def) (simp add: indexed_def)
  then have "m \<notin> tested_in (df_tested (w_disc (indexed sr w))) \<or> m \<in> set (keep_tested (indexed sr w))"
    using assms(5) eff by (simp add: claim_effect_def tested_name_set_def)
  then show ?thesis using claim_keeps_live [OF eff assms(2-4)] eff by (auto simp: claim_effect_def)
qed

definition second_claim :: "world \<times> claim_body" where
  "second_claim = claim_unlocked sample_surroundings (fst first_claim) ''w2'' 4 None (sec 200)"

theorem live_leases_are_safe_witness:
  "dget (leases (world_leases (fst second_claim))) ''lib.sma200'' =
     Some (lease_row ''w1'' (sec 100) (sec 1000) [(''library'', JBool True)])"
proof -
  have e: "claim_unlocked sample_surroundings (fst first_claim) ''w2'' 4 None (sec 200) = (fst second_claim, snd second_claim)"
    by (simp add: second_claim_def)
  have ok: "lease_state_ok (world_leases (fst first_claim))" using first_claim_state by (simp add: lease_state_ok_def)
  have live: "\<not> expired (sec 200) (lease_row ''w1'' (sec 100) (sec 1000) [(''library'', JBool True)])" by code_simp
  have "''lib.sma200'' \<notin> set (tested_name_set (df_tested (w_disc (fst second_claim))))" by code_simp
  then show ?thesis using live_leases_are_safe [OF e ok first_claim_state(1) live] by blast
qed

lemma cap_touch: "worker_lease_cap (touch st wid s now p) wid p = worker_lease_cap st wid p"
  by (auto simp: worker_lease_cap_def stored_parallel_def workers_touch touch_meta_def dict_or_empty_def Let_def
      split: option.splits)

lemma cap_workers: "workers st' = workers st \<Longrightarrow> worker_lease_cap st' wid p = worker_lease_cap st wid p"
  by (simp add: worker_lease_cap_def stored_parallel_def cong: option.case_cong)

lemma lease_count_sub:
  assumes "lease_state_ok st" "lease_state_ok st'"
    and "\<And>n r. dget (leases st') n = Some r \<Longrightarrow> dget (leases st) n = Some r"
  shows "worker_lease_count st' wid now \<le> worker_lease_count st wid now"
proof -
  let ?names = "\<lambda>st. {n. \<exists>r. dget (leases st) n = Some r \<and> holds_room wid now r}"
  have "?names st \<subseteq> set (dkeys (leases st))" by (auto simp: dkeys_dget simp del: set_map)
  then have "finite (?names st)" by (rule finite_subset) simp
  moreover have "?names st' \<subseteq> ?names st" using assms(3) by blast
  ultimately have "card (?names st') \<le> card (?names st)" by (rule card_mono)
  then show ?thesis using assms(1,2) by (simp add: worker_lease_count_def count_card lease_state_ok_def)
qed

lemma claim_requalify_length:
  assumes "claim_unlocked sr w wid n parallel now = (w', b)"
  shows "length (cb_requalify b) \<le> nat n"
  using assms
proof (cases rule: claim_unlocked_cases)
  case random
  have "length (snd (lease_requalify wid n ttl now f)) \<le> nat n" for ttl f
    by (auto simp: lease_requalify_def Let_def split_beta lease_names_chosen split: option.splits)
  then have "lease_requalify wid n ttl now f = (f', c) \<Longrightarrow> length c \<le> nat n" for ttl f f' c by (metis snd_conv)
  with random(1) show ?thesis by (elim claim_random_spec) auto
qed (auto elim: claim_library_spec)

lemma swept_count:
  assumes "lease_state_ok (world_leases w)"
  shows "worker_lease_count (swept sr w now) wid t \<le> worker_lease_count (world_leases w) wid t"
  using assms swept_ok swept_dget by (intro lease_count_sub) blast+

lemma swept_cap: "worker_lease_cap (swept sr w now) wid parallel = worker_lease_cap (world_leases w) wid parallel"
  by (rule cap_workers) (simp add: swept_def)

text \<open>
  C13. A claim hands out at most the names asked for, and what it hands out of the discovery lane fits the room that is left
  when expired leases and those of tested names that are not pending a retest are swept: two leases per lane of the reported width, twelve for a worker
  that never reported one, less the leases it still holds (one that was never started and not reported for five minutes is not counted). So a worker whose surviving leases fill its cap gets names of the
  requalify lane only, and no claim takes a worker over its cap, nor further over it than it was.
\<close>

theorem claim_stays_in_room:
  assumes "claim_unlocked sr w wid n parallel now = (w', b)" "lease_state_ok (world_leases w)"
  shows "length (cb_names b) \<le> nat n \<and>
    int (length (cb_names b)) - int (length (cb_requalify b)) \<le>
      max 0 (worker_lease_cap (world_leases w) wid parallel - worker_lease_count (swept sr w now) wid (Some now)) \<and>
    (worker_lease_cap (world_leases w) wid parallel \<le> worker_lease_count (swept sr w now) wid (Some now) \<longrightarrow>
       cb_names b = cb_requalify b) \<and>
    worker_lease_count (world_leases w') wid (Some now) \<le>
      max (worker_lease_cap (world_leases w) wid parallel) (worker_lease_count (swept sr w now) wid (Some now)) \<and>
    worker_lease_count (swept sr w now) wid (Some now) \<le> worker_lease_count (world_leases w) wid (Some now)"
proof -
  obtain new where eff: "claim_effect sr w wid n parallel now w' b new" using claim_has_effect [OF assms(1)] by blast
  let ?room = "lease_room (touch (swept sr w now) wid ''running'' now parallel) wid parallel (Some now)"
  have room: "?room = max 0 (worker_lease_cap (world_leases w) wid parallel - worker_lease_count (swept sr w now) wid (Some now))"
    by (simp add: lease_room_def cap_touch swept_cap) (simp add: worker_lease_count_def)
  have names: "cb_names b = cb_requalify b @ new" "length new \<le> nat (min (n - int (length (cb_requalify b))) ?room)"
    using eff by (auto simp: claim_effect_def)
  have "length (cb_names b) \<le> nat n" using names claim_requalify_length [OF assms(1)] by simp
  moreover have "int (length new) \<le> ?room" using names(2) by (simp add: lease_room_def)
  moreover have "new = []" if "?room = 0" using names(2) that by simp
  ultimately show ?thesis
    using names(1) room claim_room [OF eff assms(2)] swept_count [OF assms(2)]
    by (auto simp: cap_touch swept_cap)
qed

theorem claim_stays_in_room_witness:
  "worker_lease_count (world_leases (fst first_claim)) ''w1'' (Some (sec 100)) \<le> 4"
proof -
  have "lease_state_ok (world_leases new_world)"
    by (simp add: world_leases_def new_world_def load_lease_state_def empty_state_def lease_state_ok_def)
  moreover have "worker_lease_count (world_leases new_world) ''w1'' (Some (sec 100)) = 0"
    by (simp add: world_leases_def new_world_def load_lease_state_def empty_state_def worker_lease_count_def)
  moreover have "worker_lease_cap (world_leases new_world) ''w1'' (Some 2) = 4"
    by (simp add: worker_lease_cap_def lease_constants)
  ultimately show ?thesis using claim_stays_in_room [OF first_claim_eq] by linarith
qed

text \<open>
  C20. Dead workers lose their leases: from an empty lease file, after any interleaving of claims,
  heartbeats, releases and clears of any workers at later and later times, every lease belongs to one worker
  that was seen and runs out at most one heartbeat grace (15 minutes) after it was last seen.
\<close>

theorem leases_follow_their_workers:
  assumes "world_run t w t' w'" "w_leases w = None" "dget (leases (world_leases w')) n = Some r"
  shows "\<exists>v s x. owned_by v r \<and> seen (world_leases w') v = Some s \<and> s \<le> t' \<and>
    expiry r = Some x \<and> x \<le> s + sec lease_heartbeat_grace_seconds"
proof -
  have "follows t (world_leases w)"
    using assms(2) by (simp add: follows_def world_leases_def load_lease_state_def empty_state_def lease_state_ok_def seen_def)
  then have f: "follows t' (world_leases w')" using run_follows [OF assms(1)] by blast
  then obtain v s x where v: "owned_by v r" "seen (world_leases w') v = Some s" "expiry r = Some x"
      "x \<le> s + sec lease_heartbeat_grace_seconds"
    using assms(3) unfolding follows_def by blast
  moreover have "s \<le> t'"
    using f v(2) active_ids_in [OF assms(3) v(1)] floor_sec_le [of t'] unfolding follows_def by (meson order_trans)
  ultimately show ?thesis by blast
qed

lemma first_run: "world_run (sec 100) new_world (sec 100) (fst first_claim)"
  by (rule world_run.step [OF world_run.refl order_refl world_step.claim [OF first_claim_eq]])

theorem leases_follow_their_workers_witness:
  "\<exists>v s. seen (world_leases (fst first_claim)) v = Some s \<and> s \<le> sec 100"
  using leases_follow_their_workers [OF first_run _ first_claim_state(1)] by (auto simp: new_world_def)

text \<open>
  C37. The leases of a dead worker come free: after any interleaving of claims, heartbeats, releases and clears from an empty
  lease file, once a worker has been silent for the heartbeat grace of 15 minutes, the next claim of anyone takes away every
  lease it held. Nobody then holds the name, or the claiming worker does with a fresh lease, as one of the names it was
  handed.
\<close>

theorem silent_worker_loses_leases:
  assumes "world_run t w t' w'" "w_leases w = None" "dget (leases (world_leases w')) n = Some r" "owned_by v r"
    and "seen (world_leases w') v = Some s" "s + sec lease_heartbeat_grace_seconds \<le> now"
    and "claim_unlocked sr w' wid k parallel now = (w'', b)"
  shows "case dget (leases (world_leases w'')) n of
     None \<Rightarrow> n \<notin> set (cb_names b) \<or> n \<in> set (cb_requalify b)
   | Some r' \<Rightarrow> new_lease wid now r' \<and> n \<in> set (cb_names b)"
proof -
  have "follows t (world_leases w)"
    using assms(2) by (simp add: follows_def world_leases_def load_lease_state_def empty_state_def lease_state_ok_def seen_def)
  then have "follows t' (world_leases w')" using run_follows [OF assms(1)] by blast
  then have none: "dget (leases (swept sr w' now)) n = None"
    using assms(3-6) by (rule silent_worker_swept)
  obtain new where eff: "claim_effect sr w' wid k parallel now w'' b new" using claim_has_effect [OF assms(7)] by blast
  show ?thesis
  proof (cases "n \<in> set new")
    case True
    then show ?thesis using eff by (auto simp: claim_effect_def)
  next
    case False
    then show ?thesis using eff none by (auto simp: claim_effect_def)
  qed
qed

definition late_claim :: "world \<times> claim_body" where
  "late_claim = claim_unlocked sample_surroundings (fst first_claim) ''w2'' 4 None (sec 1000)"

lemma late_claim_names: "cb_names (snd late_claim) = [''lib.sma200'']" "cb_requalify (snd late_claim) = []"
  by code_simp+

text \<open>The name the first worker was silent on goes to the second.\<close>
theorem silent_worker_loses_leases_witness:
  "\<exists>r. dget (leases (world_leases (fst late_claim))) ''lib.sma200'' = Some r \<and> new_lease ''w2'' (sec 1000) r"
proof -
  have e: "claim_unlocked sample_surroundings (fst first_claim) ''w2'' 4 None (sec 1000) = (fst late_claim, snd late_claim)"
    by (simp add: late_claim_def)
  have own: "owned_by ''w1'' (lease_row ''w1'' (sec 100) (sec 1000) [(''library'', JBool True)])"
    by (simp add: owned_by_def lease_row_def)
  have seen: "seen (world_leases (fst first_claim)) ''w1'' = Some (sec 100)" by code_simp
  have late: "sec 100 + sec lease_heartbeat_grace_seconds \<le> sec 1000"
    by (simp add: sec_def lease_heartbeat_grace_seconds_def lease_constants)
  show ?thesis
    using silent_worker_loses_leases [OF first_run _ first_claim_state(1) own seen late e] late_claim_names
    by (simp add: new_world_def split: option.splits)
qed

text \<open>
  A malformed request changes nothing: a bad worker id, count or lane width is an error value, and a
  worker on other gate rules gets the stale-rules answer without names; both leave every file as it was.
  Any other answer is a claim for a valid id and a count from 1 to 64.
\<close>

lemma bad_request_changes_nothing:
  "case claim_discovery_batch sr w worker_id n parallel rules require now of
     (w', Inl e) \<Rightarrow> w' = w
   | (w', Inr (StaleRules wid count tag)) \<Rightarrow> w' = w \<and> require \<and> rules \<noteq> JStr GATE_RULES
   | (w', Inr (Claimed b)) \<Rightarrow> (\<exists>wid count par. require_worker_id worker_id = Inr wid \<and> require_parallel parallel = Inr par \<and> n = JInt count \<and>
       1 \<le> count \<and> count \<le> 64 \<and> claim_unlocked sr w wid count par now = (w', b) \<and>
       (require \<and> rules = JStr GATE_RULES \<or> \<not> require))"
proof -
  have "require_n n = Inr c \<Longrightarrow> n = JInt c \<and> 1 \<le> c \<and> c \<le> 64" for c
    by (cases n) (auto simp: require_n_def MAX_CLAIM_def split: if_splits)
  then show ?thesis
    by (auto simp: claim_discovery_batch_def split: sum.splits prod.splits)
qed

section \<open>The refill buffer\<close>











end
